(* ===== verification/Prelude.thy ===== *)
theory Prelude
  imports Complex_Main "HOL-Library.AList" "HOL-Library.Sublist" "HOL-Library.Multiset"
begin

section \<open>Shared vocabulary: JavaScript strings, objects and results\<close>

text \<open>
  What every component of the development uses. A JavaScript string is a HOL string, that is a
  list of 8-bit code units; the functions below agree with ECMAScript on every string whose code
  units are in the Latin-1 range (U+0000 to U+00FF), case mapping and white space included.
  A plain object or a Map is an association list in insertion order, updated by
  \<^const>\<open>AList.update\<close> (an existing key keeps its place, a new key goes to the end, as in
  ECMAScript for keys that are not array indices). A thrown exception is the left side of a sum.
  Timestamps and counters are unbounded integers; the code's values stay far below \<open>2 ^ 53\<close>,
  where a JavaScript number is exact.
\<close>

named_theorems js_str \<open>facts about the string functions\<close>
named_theorems res_simps \<open>facts about results\<close>

subsection \<open>Strings\<close>

definition js_lower_char :: "char \<Rightarrow> char" where
  "js_lower_char c =
     (let n = (of_char c :: nat)
      in if (65 \<le> n \<and> n \<le> 90) \<or> (192 \<le> n \<and> n \<le> 222 \<and> n \<noteq> 215) then char_of (n + 32) else c)"

definition js_lower :: "string \<Rightarrow> string" where
  "js_lower s = map js_lower_char s"

definition js_space :: "char \<Rightarrow> bool" where
  "js_space c = ((of_char c :: nat) \<in> {9, 10, 11, 12, 13, 32, 160})"

definition js_trim :: "string \<Rightarrow> string" where
  "js_trim s = rev (dropWhile js_space (rev (dropWhile js_space s)))"

definition js_starts_with :: "string \<Rightarrow> string \<Rightarrow> bool" where
  "js_starts_with s p = (take (length p) s = p)"

definition js_ends_with :: "string \<Rightarrow> string \<Rightarrow> bool" where
  "js_ends_with s p = js_starts_with (rev s) (rev p)"

fun js_includes :: "string \<Rightarrow> string \<Rightarrow> bool" where
  "js_includes [] p = (p = [])"
| "js_includes (c # s) p = (js_starts_with (c # s) p \<or> js_includes s p)"

fun js_join :: "string \<Rightarrow> string list \<Rightarrow> string" where
  "js_join sep [] = []"
| "js_join sep [s] = s"
| "js_join sep (s # t # ts) = s @ sep @ js_join sep (t # ts)"

text \<open>\<open>s.split(c)\<close> for a one-character separator; the result is never empty.\<close>

fun js_split :: "char \<Rightarrow> string \<Rightarrow> string list" where
  "js_split c [] = [[]]"
| "js_split c (x # s) =
     (if x = c then [] # js_split c s
      else (case js_split c s of [] \<Rightarrow> [[x]] | w # ws \<Rightarrow> (x # w) # ws))"

text \<open>\<open>s.replace(/c/g, r)\<close> for a one-character pattern.\<close>

definition js_replace_char :: "char \<Rightarrow> string \<Rightarrow> string \<Rightarrow> string" where
  "js_replace_char c r s = concat (map (\<lambda>x. if x = c then r else [x]) s)"

definition digit_char :: "nat \<Rightarrow> char" where
  "digit_char d = char_of (48 + d)"

fun js_of_nat :: "nat \<Rightarrow> string" where
  "js_of_nat n = (if n < 10 then [digit_char n] else js_of_nat (n div 10) @ [digit_char (n mod 10)])"

declare js_of_nat.simps [simp del]

definition is_digit :: "char \<Rightarrow> bool" where
  "is_digit c = (48 \<le> (of_char c :: nat) \<and> (of_char c :: nat) \<le> 57)"

definition digits_value :: "string \<Rightarrow> nat" where
  "digits_value s = foldl (\<lambda>n c. 10 * n + (of_char c - 48)) 0 s"

definition js_of_int :: "int \<Rightarrow> string" where
  "js_of_int i = (if i < 0 then ''-'' @ js_of_nat (nat (- i)) else js_of_nat (nat i))"

text \<open>\<open>a || b\<close> on strings, and \<open>a ?? b\<close> on a value that may be null or undefined.\<close>

definition js_or :: "string \<Rightarrow> string \<Rightarrow> string" where
  "js_or a b = (if a = [] then b else a)"

definition js_nullish :: "'a option \<Rightarrow> 'a \<Rightarrow> 'a" where
  "js_nullish x d = (case x of None \<Rightarrow> d | Some v \<Rightarrow> v)"

definition js_truthy :: "string option \<Rightarrow> bool" where
  "js_truthy x = (case x of None \<Rightarrow> False | Some s \<Rightarrow> s \<noteq> [])"

lemma digits_value_Nil [simp]: "digits_value [] = 0"
  by (simp add: digits_value_def)

lemma digits_value_snoc [simp]: "digits_value (s @ [c]) = 10 * digits_value s + (of_char c - 48)"
  by (simp add: digits_value_def)

lemma digit_char_value [simp]: "d < 10 \<Longrightarrow> (of_char (digit_char d) :: nat) = 48 + d"
  by (simp add: digit_char_def)

lemma js_of_nat_not_Nil [simp]: "js_of_nat n \<noteq> []"
  by (subst js_of_nat.simps) simp

lemma js_of_nat_digits: "list_all is_digit (js_of_nat n)"
proof (induction n rule: js_of_nat.induct)
  case (1 n)
  have digit: "is_digit (digit_char d)" if "d < 10" for d
    using that by (simp add: is_digit_def)
  from 1 show ?case
    by (subst js_of_nat.simps) (simp add: digit)
qed

lemma digits_value_of_nat [simp]: "digits_value (js_of_nat n) = n"
proof (induction n rule: js_of_nat.induct)
  case (1 n)
  show ?case
  proof (cases "n < 10")
    case True
    then show ?thesis
      using digits_value_snoc [of "[]" "digit_char n"] by (subst js_of_nat.simps) simp
  next
    case False
    with 1 have "digits_value (js_of_nat (n div 10)) = n div 10" by simp
    with False show ?thesis by (subst js_of_nat.simps) simp
  qed
qed

lemma js_of_nat_inject [simp]: "js_of_nat m = js_of_nat n \<longleftrightarrow> m = n"
  by (metis digits_value_of_nat)

lemma js_nullish_simps [simp]: "js_nullish None d = d" "js_nullish (Some v) d = v"
  by (simp_all add: js_nullish_def)

lemma js_truthy_simps [simp]: "js_truthy None = False" "js_truthy (Some s) = (s \<noteq> [])"
  by (simp_all add: js_truthy_def)

lemma js_or_simps [simp]: "js_or [] b = b" "a \<noteq> [] \<Longrightarrow> js_or a b = a"
  by (simp_all add: js_or_def)

lemma js_or_empty_iff [simp]: "js_or a b = [] \<longleftrightarrow> a = [] \<and> b = []"
  by (simp add: js_or_def)

lemma js_starts_with_prefix [js_str]: "js_starts_with s p \<longleftrightarrow> prefix p s"
  unfolding js_starts_with_def prefix_def by (metis append_eq_conv_conj append_take_drop_id)

lemma js_ends_with_suffix [js_str]: "js_ends_with s p \<longleftrightarrow> suffix p s"
  by (simp add: js_ends_with_def js_starts_with_prefix suffix_to_prefix)

lemma js_includes_sublist [js_str]: "js_includes s p \<longleftrightarrow> sublist p s"
  by (induction s) (auto simp: js_starts_with_prefix sublist_Cons_right)

lemma js_includes_empty [simp]: "js_includes s []"
  by (simp add: js_includes_sublist)

lemma js_includes_refl [simp]: "js_includes s s"
  by (simp add: js_includes_sublist)

lemma js_lower_Nil [simp]: "js_lower [] = []"
  by (simp add: js_lower_def)

lemma js_lower_eq_Nil [simp]: "js_lower s = [] \<longleftrightarrow> s = []"
  by (simp add: js_lower_def)

lemma js_lower_append [simp]: "js_lower (s @ t) = js_lower s @ js_lower t"
  by (simp add: js_lower_def)

lemma js_lower_char_idem [simp]: "js_lower_char (js_lower_char c) = js_lower_char c"
proof -
  have "(of_char c :: nat) < 256" by (metis of_char_mod_256 mod_less_divisor zero_less_numeral)
  then show ?thesis by (auto simp: js_lower_char_def Let_def)
qed

lemma js_lower_idem [simp]: "js_lower (js_lower s) = js_lower s"
  by (simp add: js_lower_def)

lemma js_join_Cons [js_str]: "ts \<noteq> [] \<Longrightarrow> js_join sep (s # ts) = s @ sep @ js_join sep ts"
  by (cases ts) auto

lemma js_replace_char_simps [simp]:
  "js_replace_char c r [] = []"
  "js_replace_char c r (x # s) = (if x = c then r else [x]) @ js_replace_char c r s"
  by (simp_all add: js_replace_char_def)

lemma js_split_not_Nil [simp]: "js_split c s \<noteq> []"
  by (induction s) (auto split: list.split)

lemma js_split_join [js_str]: "js_join [c] (js_split c s) = s"
proof (induction s)
  case Nil
  show ?case by simp
next
  case (Cons x s)
  obtain w ws where ws: "js_split c s = w # ws"
    by (cases "js_split c s") auto
  with Cons show ?case
    by (cases ws) (auto simp: js_join_Cons)
qed

lemma js_split_append: "js_split c (s @ c # t) = js_split c s @ js_split c t"
  by (induction s) (auto split: list.split)

lemma js_split_single [simp]: "c \<notin> set s \<Longrightarrow> js_split c s = [s]"
  by (induction s) auto

subsection \<open>Results: exceptions as the left side of a sum\<close>

fun res_bind :: "'e + 'a \<Rightarrow> ('a \<Rightarrow> 'e + 'b) \<Rightarrow> 'e + 'b" where
  "res_bind (Inl e) f = Inl e"
| "res_bind (Inr x) f = f x"

text \<open>\<open>xs.map(f)\<close> where \<open>f\<close> may throw: the first error stops the loop.\<close>

fun res_map :: "('a \<Rightarrow> 'e + 'b) \<Rightarrow> 'a list \<Rightarrow> 'e + 'b list" where
  "res_map f [] = Inr []"
| "res_map f (x # xs) = res_bind (f x) (\<lambda>y. res_bind (res_map f xs) (\<lambda>ys. Inr (y # ys)))"

lemma res_bind_Inr_iff [res_simps]:
  "res_bind m f = Inr y \<longleftrightarrow> (\<exists>x. m = Inr x \<and> f x = Inr y)"
  by (cases m) auto

lemma res_bind_Inl_iff [res_simps]:
  "res_bind m f = Inl e \<longleftrightarrow> m = Inl e \<or> (\<exists>x. m = Inr x \<and> f x = Inl e)"
  by (cases m) auto

lemma res_map_length: "res_map f xs = Inr ys \<Longrightarrow> length ys = length xs"
  by (induction xs arbitrary: ys) (auto simp: res_simps)

lemma res_map_Inr: "(\<And>x. x \<in> set xs \<Longrightarrow> f x = Inr (g x)) \<Longrightarrow> res_map f xs = Inr (map g xs)"
  by (induction xs) auto

lemma res_map_total: "(\<And>x. x \<in> set xs \<Longrightarrow> \<exists>y. f x = Inr y) \<Longrightarrow> \<exists>ys. res_map f xs = Inr ys"
proof (induction xs)
  case Nil
  then show ?case by simp
next
  case (Cons x xs)
  then obtain y ys where "f x = Inr y" "res_map f xs = Inr ys" by fastforce
  then show ?case by simp
qed

lemma res_map_Inr_all: "res_map f xs = Inr ys \<Longrightarrow> x \<in> set xs \<Longrightarrow> \<exists>y. f x = Inr y \<and> y \<in> set ys"
  by (induction xs arbitrary: ys) (auto simp: res_simps)

subsection \<open>Dynamically typed values\<close>

text \<open>
  The values the code handles as \<open>unknown\<close>. Objects keep their fields in insertion order.
\<close>

datatype jsval =
    JUndefined
  | JNull
  | JBool bool
  | JNum real
  | JStr string
  | JArr "jsval list"
  | JObj "(string \<times> jsval) list"

fun js_is_truthy :: "jsval \<Rightarrow> bool" where
  "js_is_truthy JUndefined = False"
| "js_is_truthy JNull = False"
| "js_is_truthy (JBool b) = b"
| "js_is_truthy (JNum x) = (x \<noteq> 0)"
| "js_is_truthy (JStr s) = (s \<noteq> [])"
| "js_is_truthy _ = True"

text \<open>An object with named fields; reading an absent field gives \<open>undefined\<close>.\<close>

type_synonym jsobject = "string \<rightharpoonup> jsval"

definition js_get :: "jsobject \<Rightarrow> string \<Rightarrow> jsval" where
  "js_get ob k = js_nullish (ob k) JUndefined"

definition js_string :: "jsval \<Rightarrow> string option" where
  "js_string v = (case v of JStr s \<Rightarrow> Some s | _ \<Rightarrow> None)"

lemma js_string_simps [simp]:
  "js_string (JStr s) = Some s" "js_string JNull = None" "js_string JUndefined = None"
  by (simp_all add: js_string_def)

lemma js_get_upd [simp]: "js_get (ob(k \<mapsto> v)) j = (if j = k then v else js_get ob j)"
  by (simp add: js_get_def)

subsection \<open>Lists\<close>

text \<open>
  \<open>xs.sort((a, b) => key(b) - key(a))\<close>: the sort of ECMAScript is stable, and so is
  \<^const>\<open>sort_key\<close>.
\<close>

definition sort_desc :: "('a \<Rightarrow> int) \<Rightarrow> 'a list \<Rightarrow> 'a list" where
  "sort_desc key xs = sort_key (\<lambda>x. - key x) xs"

lemma insort_key_map: "insort_key k (f x) (map f xs) = map f (insort_key (\<lambda>x. k (f x)) x xs)"
  by (induction xs) auto

lemma sort_key_map: "sort_key k (map f xs) = map f (sort_key (\<lambda>x. k (f x)) xs)"
  by (induction xs) (simp_all add: insort_key_map)

lemma set_sort_desc [simp]: "set (sort_desc key xs) = set xs"
  by (simp add: sort_desc_def)

lemma length_sort_desc [simp]: "length (sort_desc key xs) = length xs"
  by (simp add: sort_desc_def)

lemma sort_desc_sorted: "sorted_wrt (\<lambda>x y. key y \<le> key x) (sort_desc key xs)"
proof -
  have "sorted (map (\<lambda>x. - key x) (sort_desc key xs))"
    by (simp add: sort_desc_def)
  then show ?thesis by (simp add: sorted_wrt_map)
qed

lemma sort_desc_stable:
  "filter (\<lambda>x. key x = k) (sort_desc key xs) = filter (\<lambda>x. key x = k) xs"
proof -
  have "filter (\<lambda>x. - key x = - k) (sort_key (\<lambda>x. - key x) xs) = filter (\<lambda>x. - key x = - k) xs"
    by (rule sort_key_stable)
  then show ?thesis by (simp add: sort_desc_def)
qed

lemma map_of_update [simp]: "map_of (AList.update k v al) = (map_of al)(k \<mapsto> v)"
  by (rule ext) (simp add: update_conv)

lemma keys_update [simp]: "fst ` set (AList.update k v al) = insert k (fst ` set al)"
  by (induction al) auto

lemma keys_update_member [simp]:
  "k \<in> fst ` set al \<Longrightarrow> map fst (AList.update k v al) = map fst al"
  by (simp add: update_keys)

lemma update_new: "k \<notin> fst ` set al \<Longrightarrow> AList.update k v al = al @ [(k, v)]"
  by (induction al) auto

lemma set_update: "distinct (map fst al) \<Longrightarrow> set (AList.update k v al) = insert (k, v) {p \<in> set al. fst p \<noteq> k}"
  by (induction al) (auto simp: image_iff)

lemma fold_concat_map: "fold (\<lambda>x. fold f (g x)) xs s = fold f (concat (map g xs)) s"
  by (induction xs arbitrary: s) auto

end
