(* ===== verification/Filters.thy ===== *)
theory Filters
  imports Prelude
begin

section \<open>Filter rules and their evaluation at ingestion\<close>

text \<open>
  \<^verbatim>\<open>api/src/filters/entities/filter.entity.ts\<close> (the data) and
  \<^verbatim>\<open>api/src/filters/lib/filter-evaluator.ts\<close> (the evaluation). The regular expression
  engine is a parameter: \<open>rx pattern input\<close> is \<open>None\<close> where \<open>new RegExp(pattern)\<close> throws and
  \<open>Some b\<close> where the test answers \<open>b\<close>. The MD5 digest of \<open>computeFilterVersion\<close> is a
  parameter in the same way. Keys of result objects are writable dimensions, none of which is a
  property of \<open>Object.prototype\<close> or an array index.
\<close>

subsection \<open>Data\<close>

(* src: api/src/filters/entities/filter.entity.ts:1-8 FilterOperator *)
datatype filter_operator =
    Op_equals
  | Op_not_equals
  | Op_contains
  | Op_not_contains
  | Op_is_empty
  | Op_is_not_empty
  | Op_regex
  | Op_unknown string

(* src: api/src/filters/entities/filter.entity.ts:9-9 FilterAction *)
datatype filter_action =
    Act_set_value
  | Act_unset_value
  | Act_set_default_value
  | Act_unknown string

(* src: api/src/filters/entities/filter.entity.ts:11-15 FilterCondition *)
record filter_condition =
  fc_field :: string
  fc_operator :: filter_operator
  fc_value :: "string option"

(* src: api/src/filters/entities/filter.entity.ts:17-21 FilterOperation *)
record filter_operation =
  fo_dimension :: string
  fo_action :: filter_action
  fo_value :: "string option"

(* src: api/src/filters/entities/filter.entity.ts:23-35 FilterDefinition *)
record filter_definition =
  fd_id :: string
  fd_name :: string
  fd_priority :: int
  fd_order :: int
  fd_tags :: "string list"
  fd_conditions :: "filter_condition list"
  fd_operations :: "filter_operation list"
  fd_enabled :: bool
  fd_version :: string
  fd_created_at :: string
  fd_updated_at :: string

(* src: api/src/filters/entities/filter.entity.ts:38-62 WRITABLE_DIMENSIONS *)
definition WRITABLE_DIMENSIONS :: "string list" where
  "WRITABLE_DIMENSIONS =
     [''channel'', ''channel_group'',
      ''stm_1'', ''stm_2'', ''stm_3'', ''stm_4'', ''stm_5'',
      ''stm_6'', ''stm_7'', ''stm_8'', ''stm_9'', ''stm_10'',
      ''utm_source'', ''utm_medium'', ''utm_campaign'', ''utm_term'', ''utm_content'',
      ''referrer_domain'', ''is_direct'']"

(* src: api/src/filters/entities/filter.entity.ts:67-91 SOURCE_FIELDS *)
definition SOURCE_FIELDS :: "string list" where
  "SOURCE_FIELDS =
     [''utm_source'', ''utm_medium'', ''utm_campaign'', ''utm_term'', ''utm_content'',
      ''utm_id'', ''utm_id_from'', ''referrer'', ''referrer_domain'', ''referrer_path'',
      ''is_direct'', ''landing_page'', ''landing_domain'', ''landing_path'', ''path'',
      ''device'', ''browser'', ''browser_type'', ''os'', ''user_agent'', ''connection_type'',
      ''language'', ''timezone'']"

text \<open>The field values a rule reads: \<open>None\<close> for null and undefined.\<close>

type_synonym field_values = "string \<rightharpoonup> string"
type_synonym regex_engine = "string \<Rightarrow> string \<Rightarrow> bool option"

subsection \<open>Conditions\<close>

(* src: api/src/filters/lib/filter-evaluator.ts:26-73 evaluateCondition *)
definition evaluateCondition ::
    "regex_engine \<Rightarrow> filter_condition \<Rightarrow> field_values \<Rightarrow> bool" where
  "evaluateCondition rx c fv =
     (case fv (fc_field c) of
        None \<Rightarrow> fc_operator c = Op_is_empty
      | Some v \<Rightarrow>
          if v = [] then fc_operator c = Op_is_empty
          else (case fc_operator c of
              Op_equals \<Rightarrow> fc_value c = Some v
            | Op_not_equals \<Rightarrow> fc_value c \<noteq> Some v
            | Op_contains \<Rightarrow> js_includes v (js_nullish (fc_value c) [])
            | Op_not_contains \<Rightarrow> \<not> js_includes v (js_nullish (fc_value c) [])
            | Op_is_empty \<Rightarrow> False
            | Op_is_not_empty \<Rightarrow> True
            | Op_regex \<Rightarrow>
                (case rx (js_nullish (fc_value c) []) v of Some b \<Rightarrow> b | None \<Rightarrow> False)
            | Op_unknown _ \<Rightarrow> False))"

(* src: api/src/filters/lib/filter-evaluator.ts:78-91 evaluateConditions *)
definition evaluateConditions ::
    "regex_engine \<Rightarrow> filter_condition list \<Rightarrow> field_values \<Rightarrow> bool" where
  "evaluateConditions rx cs fv =
     (if cs = [] then True else list_all (\<lambda>c. evaluateCondition rx c fv) cs)"

lemma evaluateConditions_all [simp]:
  "evaluateConditions rx cs fv = list_all (\<lambda>c. evaluateCondition rx c fv) cs"
  by (simp add: evaluateConditions_def)

text \<open>A field that is null, undefined or empty satisfies \<open>is_empty\<close> and nothing else.\<close>

lemma evaluateCondition_absent:
  "fv (fc_field c) = None \<or> fv (fc_field c) = Some [] \<Longrightarrow>
   evaluateCondition rx c fv \<longleftrightarrow> fc_operator c = Op_is_empty"
  by (auto simp: evaluateCondition_def)

lemma evaluateCondition_present:
  "fv (fc_field c) = Some v \<Longrightarrow> v \<noteq> [] \<Longrightarrow> fc_operator c = Op_is_empty \<Longrightarrow>
   \<not> evaluateCondition rx c fv"
  by (auto simp: evaluateCondition_def)

subsection \<open>Operations\<close>

text \<open>
  A dimension of the result object: the value \<open>op.value!\<close> of an operation without a value is
  \<open>undefined\<close>, which the code stores as it is.
\<close>

datatype cell = Cell string | Cell_null | Cell_undefined

definition cell_of :: "string option \<Rightarrow> cell" where
  "cell_of v = (case v of Some s \<Rightarrow> Cell s | None \<Rightarrow> Cell_undefined)"

lemma cell_of_not_null [simp]: "cell_of v \<noteq> Cell_null" "Cell_null \<noteq> cell_of v"
  by (simp_all add: cell_of_def split: option.splits)

text \<open>The two accumulators of the loop.\<close>

(* src: api/src/filters/lib/filter-evaluator.ts:117-121 evaluateFilters *)
record eval_state =
  es_result :: "(string \<times> cell) list"
  es_priorities :: "string \<rightharpoonup> int"

definition eval_init :: eval_state where
  "eval_init = \<lparr>es_result = [], es_priorities = Map.empty\<rparr>"

(* src: api/src/filters/lib/filter-evaluator.ts:135-161 evaluateFilters *)
definition apply_operation :: "int \<times> filter_operation \<Rightarrow> eval_state \<Rightarrow> eval_state" where
  "apply_operation po st =
     (let p = fst po; op = snd po; d = fo_dimension op;
          current = js_nullish (es_priorities st d) (-1)
      in case fo_action op of
           Act_set_value \<Rightarrow>
             if p < current then st
             else st\<lparr>es_result := AList.update d (cell_of (fo_value op)) (es_result st),
                     es_priorities := (es_priorities st)(d \<mapsto> p)\<rparr>
         | Act_unset_value \<Rightarrow>
             if p < current then st
             else st\<lparr>es_result := AList.update d Cell_null (es_result st),
                     es_priorities := (es_priorities st)(d \<mapsto> p)\<rparr>
         | Act_set_default_value \<Rightarrow>
             if map_of (es_result st) d \<in> {None, Some Cell_null}
             then st\<lparr>es_result := AList.update d (cell_of (fo_value op)) (es_result st)\<rparr>
             else st
         | Act_unknown _ \<Rightarrow> st)"

definition tagged_operations :: "filter_definition \<Rightarrow> (int \<times> filter_operation) list" where
  "tagged_operations f = map (Pair (fd_priority f)) (fd_operations f)"

(* src: api/src/filters/lib/filter-evaluator.ts:123-126 evaluateFilters *)
definition enabled_by_priority :: "filter_definition list \<Rightarrow> filter_definition list" where
  "enabled_by_priority fs = sort_desc fd_priority (filter fd_enabled fs)"

(* src: api/src/filters/lib/filter-evaluator.ts:113-165 evaluateFilters *)
definition evaluateFilters ::
    "regex_engine \<Rightarrow> filter_definition list \<Rightarrow> field_values \<Rightarrow> (string \<times> cell) list" where
  "evaluateFilters rx fs fv =
     es_result
       (fold (\<lambda>f st. if evaluateConditions rx (fd_conditions f) fv
                      then fold apply_operation (tagged_operations f) st else st)
          (enabled_by_priority fs) eval_init)"

text \<open>
  The loop over filters and the loop over their operations are one loop over the trace: the
  operations of the matching enabled filters, each with its filter's priority, in order.
\<close>

definition operation_trace ::
    "regex_engine \<Rightarrow> filter_definition list \<Rightarrow> field_values \<Rightarrow> (int \<times> filter_operation) list" where
  "operation_trace rx fs fv =
     concat (map tagged_operations
       (filter (\<lambda>f. evaluateConditions rx (fd_conditions f) fv) (enabled_by_priority fs)))"

lemma evaluateFilters_trace:
  "evaluateFilters rx fs fv = es_result (fold apply_operation (operation_trace rx fs fv) eval_init)"
proof -
  have "fold (\<lambda>f st. if P f then fold apply_operation (tagged_operations f) st else st) gs st
      = fold apply_operation (concat (map tagged_operations (filter P gs))) st"
    for P and gs :: "filter_definition list" and st
    by (induction gs arbitrary: st) auto
  then show ?thesis
    by (simp add: evaluateFilters_def operation_trace_def)
qed

subsection \<open>What a dimension ends up with\<close>

text \<open>
  The declarative reading of the two accumulators, for one dimension. The assigning operations
  (set and unset) of the highest priority decide, the last of them in order when filters tie;
  a default fills the dimension when nothing, or only a winning unset, has been assigned before.
\<close>

definition assigns :: "int \<times> filter_operation \<Rightarrow> bool" where
  "assigns po = (fo_action (snd po) \<in> {Act_set_value, Act_unset_value})"

definition is_default :: "int \<times> filter_operation \<Rightarrow> bool" where
  "is_default po = (fo_action (snd po) = Act_set_default_value)"

definition first_default :: "(int \<times> filter_operation) list \<Rightarrow> cell option" where
  "first_default tr = map_option (\<lambda>po. cell_of (fo_value (snd po))) (find is_default tr)"

fun winner :: "int \<Rightarrow> (int \<times> filter_operation) list \<Rightarrow>
    (filter_operation \<times> (int \<times> filter_operation) list) option" where
  "winner p [] = None"
| "winner p (po # tr) =
     (case winner p tr of
        Some w \<Rightarrow> Some w
      | None \<Rightarrow> if assigns po \<and> fst po = p then Some (snd po, tr) else None)"

definition dimension_spec :: "(int \<times> filter_operation) list \<Rightarrow> cell option" where
  "dimension_spec tr =
     (case find assigns tr of
        None \<Rightarrow> first_default tr
      | Some lead \<Rightarrow>
          (case winner (fst lead) tr of
             None \<Rightarrow> None
           | Some (op, rest) \<Rightarrow>
               if fo_action op = Act_set_value then Some (cell_of (fo_value op))
               else Some (js_nullish (first_default rest) Cell_null)))"

definition on_dimension :: "string \<Rightarrow> (int \<times> filter_operation) list \<Rightarrow> (int \<times> filter_operation) list" where
  "on_dimension d tr = filter (\<lambda>po. fo_dimension (snd po) = d) tr"

lemma find_append [simp]: "find P (xs @ ys) = (case find P xs of None \<Rightarrow> find P ys | Some x \<Rightarrow> Some x)"
  by (induction xs) auto

lemma first_default_Nil [simp]: "first_default [] = None"
  by (simp add: first_default_def)

lemma default_not_assigns: "is_default po \<Longrightarrow> \<not> assigns po"
  by (simp add: is_default_def assigns_def)

lemma first_default_append:
  "first_default (tr @ [po]) =
     (case first_default tr of Some c \<Rightarrow> Some c
      | None \<Rightarrow> if is_default po then Some (cell_of (fo_value (snd po))) else None)"
  by (auto simp: first_default_def split: option.splits)

lemma winner_append:
  "winner p (tr @ [po]) =
     (if assigns po \<and> fst po = p then Some (snd po, [])
      else map_option (\<lambda>(op, rest). (op, rest @ [po])) (winner p tr))"
  by (induction tr) (auto split: option.splits)

lemma winner_exists: "po \<in> set tr \<Longrightarrow> assigns po \<Longrightarrow> \<exists>w. winner (fst po) tr = Some w"
  by (induction tr) (auto split: option.splits)

lemma find_mem: "find P xs = Some x \<Longrightarrow> x \<in> set xs \<and> P x"
  by (induction xs) (auto split: if_splits)

text \<open>An operation touches its own dimension only.\<close>

lemma apply_operation_other:
  assumes "fo_dimension (snd po) \<noteq> d"
  shows "map_of (es_result (apply_operation po st)) d = map_of (es_result st) d"
    and "es_priorities (apply_operation po st) d = es_priorities st d"
  using assms by (auto simp: apply_operation_def Let_def split: filter_action.splits)

text \<open>Its effect there, from the dimension's cell and priority alone.\<close>

lemma apply_operation_cell:
  "fo_dimension (snd po) = d \<Longrightarrow>
   map_of (es_result (apply_operation po st)) d =
     (if assigns po then
        (if fst po < js_nullish (es_priorities st d) (-1) then map_of (es_result st) d
         else Some (if fo_action (snd po) = Act_set_value then cell_of (fo_value (snd po)) else Cell_null))
      else if is_default po \<and> map_of (es_result st) d \<in> {None, Some Cell_null}
        then Some (cell_of (fo_value (snd po)))
      else map_of (es_result st) d)"
  by (cases "fo_action (snd po)") (auto simp: apply_operation_def assigns_def is_default_def)

lemma apply_operation_priority:
  "fo_dimension (snd po) = d \<Longrightarrow>
   es_priorities (apply_operation po st) d =
     (if assigns po \<and> \<not> fst po < js_nullish (es_priorities st d) (-1) then Some (fst po)
      else es_priorities st d)"
  by (cases "fo_action (snd po)") (auto simp: apply_operation_def assigns_def)

lemma fold_apply_operation_dimension:
  "map_of (es_result (fold apply_operation tr st)) d =
     map_of (es_result (fold apply_operation (on_dimension d tr) st)) d \<and>
   es_priorities (fold apply_operation tr st) d =
     es_priorities (fold apply_operation (on_dimension d tr) st) d"
proof (induction tr rule: rev_induct)
  case Nil
  show ?case by (simp add: on_dimension_def)
next
  case (snoc po tr)
  then show ?case
    by (cases "fo_dimension (snd po) = d")
      (auto simp add: on_dimension_def apply_operation_other apply_operation_cell apply_operation_priority)
qed

text \<open>
  On one dimension, after any prefix of a trace in descending priority, the accumulators are the
  specification's value and the priority of the first assignment.
\<close>

lemma dimension_spec_snoc_unassigned:
  "find assigns tr = None \<Longrightarrow>
   dimension_spec (tr @ [po]) =
     (if assigns po then
        Some (if fo_action (snd po) = Act_set_value then cell_of (fo_value (snd po)) else Cell_null)
      else first_default (tr @ [po]))"
  by (auto simp: dimension_spec_def winner_append first_default_def)

lemma dimension_spec_snoc_assigned:
  assumes "find assigns tr = Some lead"
  shows "dimension_spec (tr @ [po]) =
     (if assigns po \<and> fst po = fst lead then
        Some (if fo_action (snd po) = Act_set_value then cell_of (fo_value (snd po)) else Cell_null)
      else if is_default po \<and> dimension_spec tr = Some Cell_null
        then Some (cell_of (fo_value (snd po)))
      else dimension_spec tr)"
proof -
  from assms have "lead \<in> set tr" "assigns lead" by (auto dest: find_mem)
  then obtain op rest where w: "winner (fst lead) tr = Some (op, rest)"
    using winner_exists by fastforce
  have nn: "first_default rest \<noteq> Some Cell_null" by (auto simp: first_default_def)
  from assms w nn show ?thesis
    by (auto simp: dimension_spec_def winner_append first_default_append js_nullish_def split: option.splits)
qed

lemma accumulators_spec:
  assumes "\<forall>po \<in> set tr. fo_dimension (snd po) = d \<and> 0 \<le> fst po"
    and "sorted_wrt (\<lambda>x y. fst y \<le> fst x) tr"
  shows "map_of (es_result (fold apply_operation tr eval_init)) d = dimension_spec tr \<and>
         es_priorities (fold apply_operation tr eval_init) d = map_option fst (find assigns tr)"
  using assms
proof (induction tr rule: rev_induct)
  case Nil
  show ?case by (simp add: eval_init_def dimension_spec_def first_default_def)
next
  case (snoc po tr)
  from snoc.prems have d: "fo_dimension (snd po) = d" and p0: "0 \<le> fst po"
    and le: "\<forall>x \<in> set tr. fst po \<le> fst x"
    by (auto simp: sorted_wrt_append)
  from snoc.prems have IH: "map_of (es_result (fold apply_operation tr eval_init)) d = dimension_spec tr"
      "es_priorities (fold apply_operation tr eval_init) d = map_option fst (find assigns tr)"
    using snoc.IH by (auto simp: sorted_wrt_append)
  show ?case
  proof (cases "find assigns tr")
    case None
    then have "dimension_spec tr = first_default tr" by (simp add: dimension_spec_def)
    moreover have "first_default tr \<noteq> Some Cell_null" by (auto simp: first_default_def)
    ultimately show ?thesis
      using IH d p0 None
      by (auto simp: apply_operation_cell apply_operation_priority dimension_spec_snoc_unassigned
          first_default_append default_not_assigns split: option.splits)
  next
    case (Some lead)
    then have lead: "lead \<in> set tr" "assigns lead" by (auto dest: find_mem)
    with le have "fst po \<le> fst lead" by blast
    moreover have "dimension_spec tr \<noteq> None"
      using winner_exists [OF lead] by (auto simp: dimension_spec_def Some)
    ultimately show ?thesis
      using IH d Some
      by (auto simp: apply_operation_cell apply_operation_priority dimension_spec_snoc_assigned
          dest: default_not_assigns)
  qed
qed

lemma trace_sorted: "sorted_wrt (\<lambda>x y. fst y \<le> fst x) (operation_trace rx fs fv)"
proof -
  have "sorted_wrt (\<lambda>x y. fst y \<le> fst x) (concat (map tagged_operations (filter P gs)))"
    if "sorted_wrt (\<lambda>x y. fd_priority y \<le> fd_priority x) gs" for P gs
    using that
  proof (induction gs)
    case Nil
    then show ?case by simp
  next
    case (Cons g gs)
    have "sorted_wrt (\<lambda>x y. fst y \<le> fst x) (map (Pair p) ops)" for p :: int and ops :: "filter_operation list"
      by (induction ops) auto
    then have "sorted_wrt (\<lambda>x y. fst y \<le> fst x) (tagged_operations g)"
      by (simp add: tagged_operations_def)
    with Cons show ?case
      by (auto simp: sorted_wrt_append tagged_operations_def)
  qed
  then show ?thesis
    unfolding operation_trace_def enabled_by_priority_def by (blast intro: sort_desc_sorted)
qed

lemma trace_priority:
  assumes "\<forall>f \<in> set fs. 0 \<le> fd_priority f"
  shows "\<forall>po \<in> set (operation_trace rx fs fv). 0 \<le> fst po"
  using assms by (auto simp: operation_trace_def enabled_by_priority_def tagged_operations_def)

lemma accumulators_dimension:
  assumes "\<forall>f \<in> set fs. 0 \<le> fd_priority f"
  shows "map_of (evaluateFilters rx fs fv) d = dimension_spec (on_dimension d (operation_trace rx fs fv))"
proof -
  let ?tr = "on_dimension d (operation_trace rx fs fv)"
  have "\<forall>po \<in> set ?tr. fo_dimension (snd po) = d \<and> 0 \<le> fst po"
    using trace_priority [OF assms, of rx fv] by (auto simp: on_dimension_def)
  moreover have "sorted_wrt (\<lambda>x y. fst y \<le> fst x) ?tr"
    unfolding on_dimension_def by (rule sorted_wrt_filter) (rule trace_sorted)
  ultimately have "map_of (es_result (fold apply_operation ?tr eval_init)) d = dimension_spec ?tr"
    using accumulators_spec by blast
  then show ?thesis
    using fold_apply_operation_dimension [of "operation_trace rx fs fv" eval_init d]
    by (simp add: evaluateFilters_trace)
qed

text \<open>
  C2: For every dimension, the value evaluateFilters computes with its two accumulators is the
  declarative one: among the operations of matching enabled filters, the last set or unset of the
  highest priority decides, and a default fills the dimension only where nothing has been set.
\<close>

theorem evaluateFilters_dimension:
  assumes "\<forall>f \<in> set fs. 0 \<le> fd_priority f"
  shows "map_of (evaluateFilters rx fs fv) d = dimension_spec (on_dimension d (operation_trace rx fs fv))"
  using assms by (rule accumulators_dimension)

subsection \<open>Reading the event and writing the dimensions back\<close>

(* src: api/src/filters/lib/filter-evaluator.ts:176-221 extractFieldValues *)
definition EXTRACTED_FIELDS :: "string list" where
  "EXTRACTED_FIELDS =
     [''utm_source'', ''utm_medium'', ''utm_campaign'', ''utm_term'', ''utm_content'',
      ''utm_id'', ''utm_id_from'',
      ''referrer'', ''referrer_domain'', ''referrer_path'',
      ''landing_page'', ''landing_domain'', ''landing_path'', ''path'',
      ''device'', ''browser'', ''browser_type'', ''os'', ''user_agent'', ''connection_type'',
      ''language'', ''timezone'']"

(* src: api/src/filters/lib/filter-evaluator.ts:171-224 extractFieldValues *)
definition extractFieldValues :: "jsobject \<Rightarrow> field_values" where
  "extractFieldValues event =
     (\<lambda>f. if f \<in> set EXTRACTED_FIELDS then js_string (js_get event f)
          else if f = ''is_direct''
            then Some (if js_is_truthy (js_get event ''is_direct'') then ''true'' else ''false'')
          else None)"

text \<open>Exactly the fields a condition may name are extracted.\<close>

lemma extracted_source_fields: "set SOURCE_FIELDS = insert ''is_direct'' (set EXTRACTED_FIELDS)"
  by (auto simp: SOURCE_FIELDS_def EXTRACTED_FIELDS_def)

lemma extractFieldValues_outside:
  "f \<notin> set SOURCE_FIELDS \<Longrightarrow> extractFieldValues event f = None"
  by (simp add: extractFieldValues_def extracted_source_fields)

text \<open>\<open>dimension.match(/^stm_(\d+)$/)\<close> and \<open>parseInt\<close> of the group.\<close>

(* src: api/src/filters/lib/filter-evaluator.ts:287-290 applyFilterResults *)
definition stm_slot :: "string \<Rightarrow> nat option" where
  "stm_slot d =
     (let ds = drop 4 d
      in if js_starts_with d ''stm_'' \<and> ds \<noteq> [] \<and> list_all is_digit ds
         then Some (digits_value ds) else None)"

definition stm_key :: "nat \<Rightarrow> string" where
  "stm_key n = ''stm_'' @ js_of_nat n"

lemma stm_slot_key [simp]: "stm_slot (stm_key n) = Some n"
  by (simp add: stm_slot_def stm_key_def js_starts_with_def js_of_nat_digits)

lemma stm_key_not_channel [simp]: "stm_key n \<noteq> ''channel''" "stm_key n \<noteq> ''channel_group''"
  by (simp_all add: stm_key_def)

lemma stm_key_inject [simp]: "stm_key m = stm_key n \<longleftrightarrow> m = n"
  by (simp add: stm_key_def)

(* src: api/src/filters/lib/filter-evaluator.ts:230-243 CustomDimensionValues *)
definition CUSTOM_KEYS :: "string list" where
  "CUSTOM_KEYS = [''channel'', ''channel_group''] @ map stm_key [1..<11]"

type_synonym cells = "(string \<times> cell) list"

(* src: api/src/filters/lib/filter-evaluator.ts:260-277 applyFilterResults *)
definition initial_custom_dimensions :: cells where
  "initial_custom_dimensions = map (\<lambda>k. (k, Cell_null)) CUSTOM_KEYS"

(* src: api/src/filters/lib/filter-evaluator.ts:280-299 applyFilterResults *)
definition route_dimension :: "string \<times> cell \<Rightarrow> cells \<times> cells \<Rightarrow> cells \<times> cells" where
  "route_dimension dv cm =
     (let d = fst dv; v = snd dv; custom = fst cm; modified = snd cm
      in if d = ''channel'' \<or> d = ''channel_group'' then (AList.update d v custom, modified)
         else case stm_slot d of
                Some slot \<Rightarrow>
                  (if 1 \<le> slot \<and> slot \<le> 10 then (AList.update (stm_key slot) v custom, modified)
                   else (custom, modified))
              | None \<Rightarrow> (custom, AList.update d v modified))"

(* src: api/src/filters/lib/filter-evaluator.ts:249-302 applyFilterResults *)
definition applyFilterResults ::
    "regex_engine \<Rightarrow> filter_definition list \<Rightarrow> field_values \<Rightarrow> cells \<times> cells" where
  "applyFilterResults rx fs fv =
     fold route_dimension (evaluateFilters rx fs fv) (initial_custom_dimensions, [])"

text \<open>The custom dimensions keep their twelve keys, whatever the rules write.\<close>

lemma CUSTOM_KEYS_member:
  "d \<in> set CUSTOM_KEYS \<longleftrightarrow> d = ''channel'' \<or> d = ''channel_group'' \<or> (\<exists>n. 1 \<le> n \<and> n \<le> 10 \<and> d = stm_key n)"
  by (auto simp: CUSTOM_KEYS_def)

lemma route_dimension_keys:
  assumes "map fst (fst cm) = CUSTOM_KEYS"
  shows "map fst (fst (route_dimension dv cm)) = CUSTOM_KEYS"
proof -
  have "k \<in> fst ` set (fst cm) \<longleftrightarrow> k \<in> set CUSTOM_KEYS" for k
    using assms by (metis list.set_map)
  then show ?thesis
    using assms
    by (auto simp: route_dimension_def Let_def CUSTOM_KEYS_member keys_update_member split: option.splits)
qed

lemma applyFilterResults_keys: "map fst (fst (applyFilterResults rx fs fv)) = CUSTOM_KEYS"
proof -
  have "map fst (fst (fold route_dimension dvs cm)) = CUSTOM_KEYS"
    if "map fst (fst cm) = CUSTOM_KEYS" for dvs cm
    using that by (induction dvs arbitrary: cm) (auto simp: route_dimension_keys)
  then show ?thesis
    by (simp add: applyFilterResults_def initial_custom_dimensions_def comp_def)
qed

text \<open>The keys of the result are the dimensions the operations write, once each.\<close>

lemma apply_operation_keys:
  "set (map fst (es_result (apply_operation po st))) \<subseteq>
     insert (fo_dimension (snd po)) (set (map fst (es_result st)))"
  by (cases "fo_action (snd po)") (simp_all add: apply_operation_def Let_def subset_insertI)

lemma apply_operation_distinct:
  "distinct (map fst (es_result st)) \<Longrightarrow> distinct (map fst (es_result (apply_operation po st)))"
  by (auto simp: apply_operation_def Let_def distinct_update split: filter_action.splits)

lemma evaluateFilters_distinct: "distinct (map fst (evaluateFilters rx fs fv))"
proof -
  have "distinct (map fst (es_result (fold apply_operation tr st)))"
    if "distinct (map fst (es_result st))" for tr st
    using that by (induction tr arbitrary: st) (auto intro: apply_operation_distinct)
  then show ?thesis by (simp add: evaluateFilters_trace eval_init_def)
qed

lemma evaluateFilters_keys:
  "set (map fst (evaluateFilters rx fs fv)) \<subseteq> (\<Union>f \<in> set fs. fo_dimension ` set (fd_operations f))"
proof -
  have "set (map fst (es_result (fold apply_operation tr st)))
      \<subseteq> set (map fst (es_result st)) \<union> (fo_dimension \<circ> snd) ` set tr" for tr st
  proof (induction tr arbitrary: st)
    case Nil
    then show ?case by simp
  next
    case (Cons po tr)
    have "set (map fst (es_result (fold apply_operation tr (apply_operation po st))))
        \<subseteq> set (map fst (es_result (apply_operation po st))) \<union> (fo_dimension \<circ> snd) ` set tr"
      by (rule Cons)
    then show ?case using apply_operation_keys [of po st] by auto
  qed
  from this [of "operation_trace rx fs fv" eval_init] show ?thesis
    by (fastforce simp: evaluateFilters_trace eval_init_def operation_trace_def
        enabled_by_priority_def tagged_operations_def)
qed

lemma CUSTOM_KEYS_listed:
  "CUSTOM_KEYS = [''channel'', ''channel_group'', ''stm_1'', ''stm_2'', ''stm_3'', ''stm_4'',
     ''stm_5'', ''stm_6'', ''stm_7'', ''stm_8'', ''stm_9'', ''stm_10'']"
  by code_simp

lemma writable_standard:
  assumes "d \<in> set WRITABLE_DIMENSIONS" and "d \<notin> set CUSTOM_KEYS"
  shows "stm_slot d = None \<and> d \<noteq> ''channel'' \<and> d \<noteq> ''channel_group''"
proof -
  from assms have "d \<in> {''utm_source'', ''utm_medium'', ''utm_campaign'', ''utm_term'', ''utm_content'',
      ''referrer_domain'', ''is_direct''}"
    by (simp add: WRITABLE_DIMENSIONS_def CUSTOM_KEYS_listed)
  then show ?thesis by (auto simp: stm_slot_def js_starts_with_def)
qed

lemma route_dimension_custom:
  assumes "fst dv \<in> set CUSTOM_KEYS"
  shows "route_dimension dv cm = (AList.update (fst dv) (snd dv) (fst cm), snd cm)"
  using assms by (auto simp: route_dimension_def CUSTOM_KEYS_member Let_def)

lemma route_dimension_standard:
  assumes "fst dv \<in> set WRITABLE_DIMENSIONS" and "fst dv \<notin> set CUSTOM_KEYS"
  shows "route_dimension dv cm = (fst cm, AList.update (fst dv) (snd dv) (snd cm))"
  using writable_standard [OF assms] by (simp add: route_dimension_def)

lemma fold_route_dimension:
  assumes "distinct (map fst dvs)" and "set (map fst dvs) \<subseteq> set WRITABLE_DIMENSIONS"
  shows "map_of (fst (fold route_dimension dvs cm)) d =
           (case map_of dvs d of Some v \<Rightarrow> if d \<in> set CUSTOM_KEYS then Some v else map_of (fst cm) d
                               | None \<Rightarrow> map_of (fst cm) d)
       \<and> map_of (snd (fold route_dimension dvs cm)) d =
           (case map_of dvs d of Some v \<Rightarrow> if d \<in> set CUSTOM_KEYS then map_of (snd cm) d else Some v
                               | None \<Rightarrow> map_of (snd cm) d)"
  using assms
proof (induction dvs arbitrary: cm)
  case Nil
  show ?case by simp
next
  case (Cons dv dvs)
  have absent: "map_of dvs (fst dv) = None"
    using Cons.prems(1) by (simp add: map_of_eq_None_iff)
  have "fst dv \<in> set WRITABLE_DIMENSIONS" using Cons.prems(2) by simp
  with Cons absent show ?case
    by (cases dv; cases "fst dv \<in> set CUSTOM_KEYS")
      (auto simp: route_dimension_custom route_dimension_standard split: option.splits)
qed

lemma applyFilterResults_lookup:
  assumes "\<forall>f \<in> set fs. \<forall>op \<in> set (fd_operations f). fo_dimension op \<in> set WRITABLE_DIMENSIONS"
  shows "map_of (fst (applyFilterResults rx fs fv)) d =
           (if d \<in> set CUSTOM_KEYS then Some (js_nullish (map_of (evaluateFilters rx fs fv) d) Cell_null)
            else None)"
    and "map_of (snd (applyFilterResults rx fs fv)) d =
           (if d \<in> set CUSTOM_KEYS then None else map_of (evaluateFilters rx fs fv) d)"
proof -
  have keys: "set (map fst (evaluateFilters rx fs fv)) \<subseteq> set WRITABLE_DIMENSIONS"
    using evaluateFilters_keys [of rx fs fv] assms by fastforce
  have init: "map_of initial_custom_dimensions d = (if d \<in> set CUSTOM_KEYS then Some Cell_null else None)"
    by (simp add: initial_custom_dimensions_def map_of_map_restrict restrict_map_def)
  show "map_of (fst (applyFilterResults rx fs fv)) d =
           (if d \<in> set CUSTOM_KEYS then Some (js_nullish (map_of (evaluateFilters rx fs fv) d) Cell_null)
            else None)"
    and "map_of (snd (applyFilterResults rx fs fv)) d =
           (if d \<in> set CUSTOM_KEYS then None else map_of (evaluateFilters rx fs fv) d)"
    using fold_route_dimension [OF evaluateFilters_distinct keys, of "(initial_custom_dimensions, [])" d] init
    by (auto simp: applyFilterResults_def js_nullish_def split: option.splits)
qed

text \<open>
  With rules that write writable dimensions only, applyFilterResults puts each custom
  dimension (channel, channel_group, stm_1 to stm_10) in its own slot, null where no rule wrote
  it, and hands back exactly the written standard dimensions as modified fields.
\<close>
theorem applyFilterResults_routes:
  assumes "\<forall>f \<in> set fs. \<forall>op \<in> set (fd_operations f). fo_dimension op \<in> set WRITABLE_DIMENSIONS"
  shows "map_of (fst (applyFilterResults rx fs fv)) d =
           (if d \<in> set CUSTOM_KEYS then Some (js_nullish (map_of (evaluateFilters rx fs fv) d) Cell_null)
            else None)
       \<and> map_of (snd (applyFilterResults rx fs fv)) d =
           (if d \<in> set CUSTOM_KEYS then None else map_of (evaluateFilters rx fs fv) d)"
  using applyFilterResults_lookup [OF assms] by blast

subsection \<open>The version of a rule set\<close>

text \<open>
  \<open>computeFilterVersion\<close> hashes the serialised rules in the order of their ids. The collation of
  \<open>localeCompare\<close> is the key \<open>ck\<close>, the serialisation and digest are \<open>digest\<close>.
\<close>

type_synonym versioned_rule = "string \<times> filter_condition list \<times> filter_operation list \<times> bool \<times> int"

definition versioned_rule_of :: "filter_definition \<Rightarrow> versioned_rule" where
  "versioned_rule_of f = (fd_id f, fd_conditions f, fd_operations f, fd_enabled f, fd_priority f)"

(* src: api/src/filters/lib/filter-evaluator.ts:8-21 computeFilterVersion *)
definition computeFilterVersion ::
    "(string \<Rightarrow> 'k::linorder) \<Rightarrow> (versioned_rule list \<Rightarrow> string) \<Rightarrow> filter_definition list \<Rightarrow> string" where
  "computeFilterVersion ck digest fs =
     take 8 (digest (map versioned_rule_of (sort_key (\<lambda>f. ck (fd_id f)) fs)))"

lemma computeFilterVersion_order_irrelevant:
  assumes "mset fs = mset gs" and "inj_on (\<lambda>f. ck (fd_id f)) (set fs)"
  shows "computeFilterVersion ck digest fs = computeFilterVersion ck digest gs"
  using sort_key_eq_sort_key [OF assms] by (simp add: computeFilterVersion_def)

subsection \<open>Sample rules\<close>

definition sample_rule :: "string \<Rightarrow> int \<Rightarrow> filter_condition list \<Rightarrow> filter_operation list \<Rightarrow> filter_definition" where
  "sample_rule i p cs ops =
     \<lparr>fd_id = i, fd_name = i, fd_priority = p, fd_order = 0, fd_tags = [], fd_conditions = cs,
      fd_operations = ops, fd_enabled = True, fd_version = [], fd_created_at = [], fd_updated_at = []\<rparr>"

definition sample_rules :: "filter_definition list" where
  "sample_rules =
     [sample_rule ''a'' 100 [\<lparr>fc_field = ''utm_medium'', fc_operator = Op_equals, fc_value = Some ''cpc''\<rparr>]
        [\<lparr>fo_dimension = ''channel'', fo_action = Act_set_default_value, fo_value = Some ''other''\<rparr>,
         \<lparr>fo_dimension = ''utm_source'', fo_action = Act_set_value, fo_value = Some ''ads''\<rparr>],
      sample_rule ''b'' 900 [\<lparr>fc_field = ''utm_source'', fc_operator = Op_contains, fc_value = Some ''goo''\<rparr>]
        [\<lparr>fo_dimension = ''channel'', fo_action = Act_unset_value, fo_value = None\<rparr>]]"

definition sample_fields :: field_values where
  "sample_fields = [''utm_source'' \<mapsto> ''google'', ''utm_medium'' \<mapsto> ''cpc'']"

lemma evaluateFilters_dimension_witness:
  "map_of (evaluateFilters (\<lambda>_ _. None) sample_rules sample_fields) ''channel'' = Some (Cell ''other'')"
proof -
  have h: "\<forall>f \<in> set sample_rules. 0 \<le> fd_priority f"
    by (simp add: sample_rules_def sample_rule_def)
  have "dimension_spec (on_dimension ''channel'' (operation_trace (\<lambda>_ _. None) sample_rules sample_fields))
      = Some (Cell ''other'')"
    by code_simp
  then show ?thesis using evaluateFilters_dimension [OF h, of "\<lambda>_ _. None" sample_fields "''channel''"] by simp
qed

lemma applyFilterResults_routes_witness:
  "map_of (snd (applyFilterResults (\<lambda>_ _. None) sample_rules sample_fields)) ''utm_source'' = Some (Cell ''ads'')"
proof -
  have h: "\<forall>f \<in> set sample_rules. \<forall>op \<in> set (fd_operations f). fo_dimension op \<in> set WRITABLE_DIMENSIONS"
    by (simp add: sample_rules_def sample_rule_def WRITABLE_DIMENSIONS_def)
  have "map_of (evaluateFilters (\<lambda>_ _. None) sample_rules sample_fields) ''utm_source'' = Some (Cell ''ads'')"
    and "''utm_source'' \<notin> set CUSTOM_KEYS"
    by code_simp+
  then show ?thesis
    using applyFilterResults_routes [OF h, of "\<lambda>_ _. None" sample_fields "''utm_source''"] by simp
qed

end
