(* ===== verification/Filter_Service.thy ===== *)
theory Filter_Service
  imports Filters "HOL-Library.List_Lexorder" "HOL-Library.Char_ord"
begin

section \<open>The stored rules of a workspace\<close>

text \<open>
  \<^verbatim>\<open>api/src/filters/filters.service.ts\<close> with the request bodies of
  \<^verbatim>\<open>api/src/filters/dto\<close>. The state is the rule list of one workspace and the number of
  \<open>filters.changed\<close> events emitted; the workspace store itself, the random id and the clock are
  arguments. A refused request leaves the state as it is.
\<close>

datatype filter_error =
    Filter_not_found string
  | Invalid_source_field string
  | Invalid_regex string
  | Invalid_dimension string
  | Value_required filter_action

record filter_store =
  fs_filters :: "filter_definition list"
  fs_changed :: nat

(* src: api/src/filters/dto/create-filter.dto.ts:58-91 CreateFilterDto *)
record create_filter_dto =
  cf_name :: string
  cf_priority :: "int option"
  cf_tags :: "string list option"
  cf_conditions :: "filter_condition list"
  cf_operations :: "filter_operation list"
  cf_enabled :: "bool option"

(* src: api/src/filters/dto/update-filter.dto.ts:14-55 UpdateFilterDto *)
record update_filter_dto =
  uf_id :: string
  uf_name :: "string option"
  uf_priority :: "int option"
  uf_order :: "int option"
  uf_tags :: "string list option"
  uf_conditions :: "filter_condition list option"
  uf_operations :: "filter_operation list option"
  uf_enabled :: "bool option"

text \<open>What the class-validator decorators of the two bodies require beyond their types.\<close>

(* src: api/src/filters/dto/create-filter.dto.ts:43-45 FilterOperationDto *)
definition known_action :: "filter_operation \<Rightarrow> bool" where
  "known_action op = (fo_action op \<in> {Act_set_value, Act_unset_value, Act_set_default_value})"

(* src: api/src/filters/dto/create-filter.dto.ts:65-69 CreateFilterDto *)
definition priority_in_range :: "int option \<Rightarrow> bool" where
  "priority_in_range p = (case p of None \<Rightarrow> True | Some n \<Rightarrow> 0 \<le> n \<and> n \<le> 1000)"

subsection \<open>Validation\<close>

(* src: api/src/filters/filters.service.ts:234-254 validateConditions *)
fun validateConditions :: "regex_engine \<Rightarrow> filter_condition list \<Rightarrow> filter_error + unit" where
  "validateConditions rx [] = Inr ()"
| "validateConditions rx (c # cs) =
     (if fc_field c \<notin> set SOURCE_FIELDS then Inl (Invalid_source_field (fc_field c))
      else if fc_operator c = Op_regex \<and> rx (js_nullish (fc_value c) []) [] = None
        then Inl (Invalid_regex (js_nullish (fc_value c) []))
      else validateConditions rx cs)"

(* src: api/src/filters/filters.service.ts:259-279 validateOperations *)
fun validateOperations :: "filter_operation list \<Rightarrow> filter_error + unit" where
  "validateOperations [] = Inr ()"
| "validateOperations (op # ops) =
     (if fo_dimension op \<notin> set WRITABLE_DIMENSIONS then Inl (Invalid_dimension (fo_dimension op))
      else if (fo_action op = Act_set_value \<or> fo_action op = Act_set_default_value)
          \<and> \<not> js_truthy (fo_value op)
        then Inl (Value_required (fo_action op))
      else validateOperations ops)"

definition condition_ok :: "regex_engine \<Rightarrow> filter_condition \<Rightarrow> bool" where
  "condition_ok rx c \<longleftrightarrow> fc_field c \<in> set SOURCE_FIELDS \<and>
     (fc_operator c = Op_regex \<longrightarrow> rx (js_nullish (fc_value c) []) [] \<noteq> None)"

definition operation_ok :: "filter_operation \<Rightarrow> bool" where
  "operation_ok op \<longleftrightarrow> fo_dimension op \<in> set WRITABLE_DIMENSIONS \<and>
     (fo_action op = Act_set_value \<or> fo_action op = Act_set_default_value \<longrightarrow> js_truthy (fo_value op))"

lemma validateConditions_ok: "validateConditions rx cs = Inr () \<longleftrightarrow> (\<forall>c \<in> set cs. condition_ok rx c)"
  by (induction cs) (auto simp: condition_ok_def)

lemma validateOperations_ok: "validateOperations ops = Inr () \<longleftrightarrow> (\<forall>op \<in> set ops. operation_ok op)"
  by (induction ops) (auto simp: operation_ok_def)

subsection \<open>Operations\<close>

(* src: api/src/filters/filters.service.ts:36-52 list *)
definition list_filters :: "filter_store \<Rightarrow> string list option \<Rightarrow> filter_definition list" where
  "list_filters st tags =
     sort_key fd_order
       (case tags of
          None \<Rightarrow> fs_filters st
        | Some ts \<Rightarrow> if ts = [] then fs_filters st
            else filter (\<lambda>f. list_ex (\<lambda>tag. tag \<in> set (fd_tags f)) ts) (fs_filters st))"

(* src: api/src/filters/filters.service.ts:57-70 get *)
definition get_filter :: "filter_store \<Rightarrow> string \<Rightarrow> filter_error + filter_definition" where
  "get_filter st i =
     (case find (\<lambda>f. fd_id f = i) (fs_filters st) of
        None \<Rightarrow> Inl (Filter_not_found i) | Some f \<Rightarrow> Inr f)"

(* src: api/src/filters/filters.service.ts:284-292 updateWorkspaceFilters *)
definition save_filters :: "filter_store \<Rightarrow> filter_definition list \<Rightarrow> filter_store" where
  "save_filters st fs = st\<lparr>fs_filters := fs, fs_changed := Suc (fs_changed st)\<rparr>"

(* src: api/src/filters/filters.service.ts:83-87 create *)
definition next_order :: "filter_definition list \<Rightarrow> int" where
  "next_order fs = foldl (\<lambda>m f. max m (fd_order f)) (-1) fs + 1"

(* src: api/src/filters/filters.service.ts:75-114 create *)
definition create_filter ::
    "regex_engine \<Rightarrow> (filter_definition list \<Rightarrow> string) \<Rightarrow> string \<Rightarrow> string \<Rightarrow>
     filter_store \<Rightarrow> create_filter_dto \<Rightarrow> filter_error + filter_store \<times> filter_definition" where
  "create_filter rx version uuid now st dto =
     res_bind (validateConditions rx (cf_conditions dto)) (\<lambda>_.
     res_bind (validateOperations (cf_operations dto)) (\<lambda>_.
       let f = \<lparr>fd_id = uuid, fd_name = cf_name dto,
                fd_priority = js_nullish (cf_priority dto) 500,
                fd_order = next_order (fs_filters st),
                fd_tags = js_nullish (cf_tags dto) [],
                fd_conditions = cf_conditions dto, fd_operations = cf_operations dto,
                fd_enabled = js_nullish (cf_enabled dto) True,
                fd_version = [], fd_created_at = now, fd_updated_at = now\<rparr>;
           f' = f\<lparr>fd_version := version (fs_filters st @ [f])\<rparr>
       in Inr (save_filters st (fs_filters st @ [f']), f')))"

fun find_index :: "('a \<Rightarrow> bool) \<Rightarrow> 'a list \<Rightarrow> nat option" where
  "find_index P [] = None"
| "find_index P (x # xs) = (if P x then Some 0 else map_option Suc (find_index P xs))"

definition res_optional :: "('a \<Rightarrow> 'e + unit) \<Rightarrow> 'a option \<Rightarrow> 'e + unit" where
  "res_optional f x = (case x of None \<Rightarrow> Inr () | Some v \<Rightarrow> f v)"

(* src: api/src/filters/filters.service.ts:139-153 update *)
definition merge_filter :: "filter_definition \<Rightarrow> update_filter_dto \<Rightarrow> string \<Rightarrow> filter_definition" where
  "merge_filter f dto now =
     f\<lparr>fd_name := js_nullish (uf_name dto) (fd_name f),
       fd_priority := js_nullish (uf_priority dto) (fd_priority f),
       fd_order := js_nullish (uf_order dto) (fd_order f),
       fd_tags := js_nullish (uf_tags dto) (fd_tags f),
       fd_conditions := js_nullish (uf_conditions dto) (fd_conditions f),
       fd_operations := js_nullish (uf_operations dto) (fd_operations f),
       fd_enabled := js_nullish (uf_enabled dto) (fd_enabled f),
       fd_updated_at := now\<rparr>"

(* src: api/src/filters/filters.service.ts:119-168 update *)
definition update_filter ::
    "regex_engine \<Rightarrow> (filter_definition list \<Rightarrow> string) \<Rightarrow> string \<Rightarrow>
     filter_store \<Rightarrow> update_filter_dto \<Rightarrow> filter_error + filter_store \<times> filter_definition" where
  "update_filter rx version now st dto =
     (case find_index (\<lambda>f. fd_id f = uf_id dto) (fs_filters st) of
        None \<Rightarrow> Inl (Filter_not_found (uf_id dto))
      | Some i \<Rightarrow>
          res_bind (res_optional (validateConditions rx) (uf_conditions dto)) (\<lambda>_.
          res_bind (res_optional validateOperations (uf_operations dto)) (\<lambda>_.
            let u = merge_filter (fs_filters st ! i) dto now;
                u' = u\<lparr>fd_version := version ((fs_filters st)[i := u])\<rparr>
            in Inr (save_filters st ((fs_filters st)[i := u']), u'))))"

(* src: api/src/filters/filters.service.ts:173-189 delete *)
definition delete_filter :: "filter_store \<Rightarrow> string \<Rightarrow> filter_error + filter_store" where
  "delete_filter st i =
     (case find_index (\<lambda>f. fd_id f = i) (fs_filters st) of
        None \<Rightarrow> Inl (Filter_not_found i)
      | Some _ \<Rightarrow> Inr (save_filters st (filter (\<lambda>f. fd_id f \<noteq> i) (fs_filters st))))"

(* src: api/src/filters/filters.service.ts:194-213 reorder *)
definition reorder_filters :: "filter_store \<Rightarrow> string list \<Rightarrow> filter_store" where
  "reorder_filters st ids =
     save_filters st
       (map (\<lambda>f. case find_index (\<lambda>i. i = fd_id f) ids of
                    Some n \<Rightarrow> f\<lparr>fd_order := int n\<rparr> | None \<Rightarrow> f) (fs_filters st))"

(* src: api/src/filters/filters.service.ts:218-229 listTags *)
definition list_tags :: "filter_store \<Rightarrow> string list" where
  "list_tags st = sort (remdups (concat (map fd_tags (fs_filters st))))"

lemma find_index_Some:
  "find_index P xs = Some i \<Longrightarrow> i < length xs \<and> P (xs ! i) \<and> (\<forall>j < i. \<not> P (xs ! j))"
proof (induction xs arbitrary: i)
  case Nil
  then show ?case by simp
next
  case (Cons x xs)
  then show ?case
    by (auto split: if_splits simp: nth_Cons split: nat.splits)
qed

lemma find_index_None: "find_index P xs = None \<longleftrightarrow> (\<forall>x \<in> set xs. \<not> P x)"
  by (induction xs) auto

subsection \<open>Well-formed stores\<close>

definition rule_ok :: "regex_engine \<Rightarrow> filter_definition \<Rightarrow> bool" where
  "rule_ok rx f \<longleftrightarrow>
     (\<forall>c \<in> set (fd_conditions f). condition_ok rx c) \<and>
     (\<forall>op \<in> set (fd_operations f). operation_ok op \<and> known_action op) \<and>
     0 \<le> fd_priority f \<and> fd_priority f \<le> 1000"

definition store_ok :: "regex_engine \<Rightarrow> filter_store \<Rightarrow> bool" where
  "store_ok rx st \<longleftrightarrow> (\<forall>f \<in> set (fs_filters st). rule_ok rx f) \<and> distinct (map fd_id (fs_filters st))"

text \<open>What the service accepts, with the bodies the decorators let through and fresh ids.\<close>

inductive filter_step :: "regex_engine \<Rightarrow> (filter_definition list \<Rightarrow> string) \<Rightarrow> filter_store \<Rightarrow> filter_store \<Rightarrow> bool"
  for rx version where
  created: "create_filter rx version uuid now st dto = Inr (st', f) \<Longrightarrow>
     uuid \<notin> fd_id ` set (fs_filters st) \<Longrightarrow> list_all known_action (cf_operations dto) \<Longrightarrow>
     priority_in_range (cf_priority dto) \<Longrightarrow> filter_step rx version st st'"
| updated: "update_filter rx version now st dto = Inr (st', f) \<Longrightarrow>
     list_all known_action (js_nullish (uf_operations dto) []) \<Longrightarrow>
     priority_in_range (uf_priority dto) \<Longrightarrow> filter_step rx version st st'"
| deleted: "delete_filter st i = Inr st' \<Longrightarrow> filter_step rx version st st'"
| reordered: "filter_step rx version st (reorder_filters st ids)"

inductive filter_reachable :: "regex_engine \<Rightarrow> (filter_definition list \<Rightarrow> string) \<Rightarrow> filter_store \<Rightarrow> bool"
  for rx version where
  empty: "filter_reachable rx version \<lparr>fs_filters = [], fs_changed = 0\<rparr>"
| step: "filter_reachable rx version st \<Longrightarrow> filter_step rx version st st' \<Longrightarrow> filter_reachable rx version st'"

lemma save_filters_simps [simp]:
  "fs_filters (save_filters st fs) = fs" "fs_changed (save_filters st fs) = Suc (fs_changed st)"
  by (simp_all add: save_filters_def)

lemma rule_ok_version [simp]: "rule_ok rx (f\<lparr>fd_version := v\<rparr>) = rule_ok rx f"
  by (simp add: rule_ok_def)

lemma rule_ok_order [simp]: "rule_ok rx (f\<lparr>fd_order := n\<rparr>) = rule_ok rx f"
  by (simp add: rule_ok_def)

lemma create_filter_store:
  assumes "create_filter rx version uuid now st dto = Inr (st', f)"
  shows "fs_filters st' = fs_filters st @ [f]" and "fd_id f = uuid"
    and "fd_conditions f = cf_conditions dto" and "fd_operations f = cf_operations dto"
    and "fd_priority f = js_nullish (cf_priority dto) 500"
    and "fd_order f = next_order (fs_filters st)"
    and "\<forall>c \<in> set (cf_conditions dto). condition_ok rx c"
    and "\<forall>op \<in> set (cf_operations dto). operation_ok op"
  using assms
  by (auto simp: create_filter_def Let_def res_simps validateConditions_ok validateOperations_ok)

lemma update_filter_store:
  assumes "update_filter rx version now st dto = Inr (st', f)"
  obtains i where "i < length (fs_filters st)" and "fd_id (fs_filters st ! i) = uf_id dto"
    and "fs_filters st' = (fs_filters st)[i := f]"
    and "\<exists>v. f = (merge_filter (fs_filters st ! i) dto now)\<lparr>fd_version := v\<rparr>"
    and "\<forall>cs. uf_conditions dto = Some cs \<longrightarrow> (\<forall>c \<in> set cs. condition_ok rx c)"
    and "\<forall>ops. uf_operations dto = Some ops \<longrightarrow> (\<forall>op \<in> set ops. operation_ok op)"
proof -
  from assms obtain i where i: "find_index (\<lambda>f. fd_id f = uf_id dto) (fs_filters st) = Some i"
    by (auto simp: update_filter_def split: option.splits)
  show ?thesis
  proof (rule that [of i])
    show "i < length (fs_filters st)" "fd_id (fs_filters st ! i) = uf_id dto"
      using find_index_Some [OF i] by simp_all
  qed (use assms i in \<open>auto simp: update_filter_def Let_def res_simps res_optional_def
        validateConditions_ok validateOperations_ok\<close>)
qed

lemma merge_filter_id [simp]: "fd_id (merge_filter f dto now) = fd_id f"
  by (simp add: merge_filter_def)

lemma merge_filter_ok:
  assumes "rule_ok rx f" and "priority_in_range (uf_priority dto)"
    and "list_all known_action (js_nullish (uf_operations dto) [])"
    and "\<forall>cs. uf_conditions dto = Some cs \<longrightarrow> (\<forall>c \<in> set cs. condition_ok rx c)"
    and "\<forall>ops. uf_operations dto = Some ops \<longrightarrow> (\<forall>op \<in> set ops. operation_ok op)"
  shows "rule_ok rx (merge_filter f dto now)"
  using assms
  by (auto simp: rule_ok_def merge_filter_def js_nullish_def priority_in_range_def list_all_iff
      split: option.splits)

lemma filter_step_store_ok: "filter_step rx version st st' \<Longrightarrow> store_ok rx st \<Longrightarrow> store_ok rx st'"
proof (induction rule: filter_step.induct)
  case (created uuid now st dto st' f)
  have "rule_ok rx f"
    using create_filter_store [OF created(1)] created(3,4)
    by (auto simp: rule_ok_def list_all_iff priority_in_range_def js_nullish_def split: option.splits)
  then show ?case
    using create_filter_store(1,2) [OF created(1)] created(2,5) by (auto simp: store_ok_def)
next
  case (updated now st dto st' f)
  from updated(1) obtain i where i: "i < length (fs_filters st)"
      "fs_filters st' = (fs_filters st)[i := f]"
      "\<exists>v. f = (merge_filter (fs_filters st ! i) dto now)\<lparr>fd_version := v\<rparr>"
      "\<forall>cs. uf_conditions dto = Some cs \<longrightarrow> (\<forall>c \<in> set cs. condition_ok rx c)"
      "\<forall>ops. uf_operations dto = Some ops \<longrightarrow> (\<forall>op \<in> set ops. operation_ok op)"
    by (rule update_filter_store)
  have "rule_ok rx (fs_filters st ! i)" using updated(4) i(1) by (simp add: store_ok_def)
  then have "rule_ok rx f" using merge_filter_ok updated(2,3) i(3-5) by fastforce
  moreover have "fd_id f = fd_id (fs_filters st ! i)" using i(3) by auto
  then have "map fd_id (fs_filters st') = map fd_id (fs_filters st)"
    using i by (simp add: map_update list_update_same_conv)
  ultimately show ?case
    using updated(4) i(2) by (auto simp: store_ok_def dest!: set_update_subset_insert [THEN subsetD])
next
  case (deleted st i st')
  then show ?case
    by (auto simp: delete_filter_def store_ok_def distinct_map_filter split: option.splits)
next
  case (reordered st ids)
  have "fd_id (case x of None \<Rightarrow> f | Some n \<Rightarrow> f\<lparr>fd_order := int n\<rparr>) = fd_id f"
    and "rule_ok rx (case x of None \<Rightarrow> f | Some n \<Rightarrow> f\<lparr>fd_order := int n\<rparr>) = rule_ok rx f" for x f
    by (cases x; simp)+
  then show ?case
    using reordered by (auto simp: store_ok_def reorder_filters_def comp_def split: option.splits)
qed

lemma filter_reachable_invariant: "filter_reachable rx version st \<Longrightarrow> store_ok rx st"
  by (induction rule: filter_reachable.induct)
    (auto simp: store_ok_def [of _ "\<lparr>fs_filters = [], fs_changed = 0\<rparr>"] intro: filter_step_store_ok)

text \<open>
  Every rule store the service can reach from the empty one holds rules with known source
  fields, compilable regular expressions, writable dimensions, values where the action needs one,
  a priority between 0 and 1000, and no id twice.
\<close>

theorem filter_reachable_store_ok:
  assumes "filter_reachable rx version st"
  shows "(\<forall>f \<in> set (fs_filters st).
            (\<forall>c \<in> set (fd_conditions f). fc_field c \<in> set SOURCE_FIELDS \<and>
               (fc_operator c = Op_regex \<longrightarrow> rx (js_nullish (fc_value c) []) [] \<noteq> None)) \<and>
            (\<forall>op \<in> set (fd_operations f). fo_dimension op \<in> set WRITABLE_DIMENSIONS \<and>
               (fo_action op \<noteq> Act_unset_value \<longrightarrow> js_truthy (fo_value op))) \<and>
            0 \<le> fd_priority f \<and> fd_priority f \<le> 1000)
       \<and> distinct (map fd_id (fs_filters st))"
  using filter_reachable_invariant [OF assms]
  by (fastforce simp: store_ok_def rule_ok_def condition_ok_def operation_ok_def known_action_def)

lemma filter_reachable_store_ok_witness:
  "\<exists>st. fs_filters st \<noteq> [] \<and> filter_reachable (\<lambda>_ _. Some True) (\<lambda>_. ''v'') st \<and>
        distinct (map fd_id (fs_filters st))"
proof -
  let ?st0 = "\<lparr>fs_filters = [], fs_changed = 0\<rparr>"
  let ?dto = "\<lparr>cf_name = ''n'', cf_priority = None, cf_tags = None,
      cf_conditions = [\<lparr>fc_field = ''path'', fc_operator = Op_regex, fc_value = Some ''^/a''\<rparr>],
      cf_operations = [\<lparr>fo_dimension = ''channel'', fo_action = Act_set_value, fo_value = Some ''x''\<rparr>],
      cf_enabled = None\<rparr>"
  obtain st f where c: "create_filter (\<lambda>_ _. Some True) (\<lambda>_. ''v'') ''u1'' ''now'' ?st0 ?dto = Inr (st, f)"
    by (simp add: create_filter_def SOURCE_FIELDS_def WRITABLE_DIMENSIONS_def Let_def)
  have "filter_step (\<lambda>_ _. Some True) (\<lambda>_. ''v'') ?st0 st"
    by (rule filter_step.created [OF c]) (simp_all add: known_action_def priority_in_range_def)
  then have r: "filter_reachable (\<lambda>_ _. Some True) (\<lambda>_. ''v'') st"
    using filter_reachable.step [OF filter_reachable.empty] by blast
  moreover have "fs_filters st \<noteq> []" using create_filter_store(1) [OF c] by simp
  ultimately show ?thesis using filter_reachable_store_ok [OF r] by blast
qed

subsection \<open>Display order\<close>

lemma next_order_greater: "f \<in> set fs \<Longrightarrow> fd_order f < next_order fs"
proof -
  have "foldl (\<lambda>m f. max m (fd_order f)) a fs \<ge> a \<and>
      (\<forall>f \<in> set fs. fd_order f \<le> foldl (\<lambda>m f. max m (fd_order f)) a fs)" for a
  proof (induction fs arbitrary: a)
    case Nil
    then show ?case by simp
  next
    case (Cons g fs b)
    show ?case using Cons.IH [of "max b (fd_order g)"] by auto
  qed
  then show "f \<in> set fs \<Longrightarrow> fd_order f < next_order fs"
    by (fastforce simp: next_order_def)
qed

text \<open>A new rule is listed after all the others.\<close>

lemma create_filter_listed_last:
  assumes "create_filter rx version uuid now st dto = Inr (st', f)"
  shows "list_filters st' None = list_filters st None @ [f]"
proof -
  have "sorted (map fd_order (sort_key fd_order (fs_filters st) @ [f]))"
    using next_order_greater create_filter_store(6) [OF assms]
    by (fastforce simp: sorted_append intro: less_imp_le)
  moreover have "insort_key fd_order x (ys @ [f]) = insort_key fd_order x ys @ [f]"
    if "fd_order x < fd_order f" for x ys
    using that by (induction ys) auto
  then have "sort_key fd_order (fs @ [f]) = sort_key fd_order fs @ [f]"
    if "\<forall>x \<in> set fs. fd_order x < fd_order f" for fs
    using that by (induction fs) auto
  ultimately show ?thesis
    using next_order_greater create_filter_store(1,6) [OF assms] by (simp add: list_filters_def)
qed

lemma find_index_unique:
  "distinct xs \<Longrightarrow> i < length xs \<Longrightarrow> find_index (\<lambda>x. x = xs ! i) xs = Some i"
proof (induction xs arbitrary: i)
  case Nil
  then show ?case by simp
next
  case (Cons x xs)
  then show ?case by (cases i) auto
qed

lemma reorder_filters_map:
  "fs_filters (reorder_filters st ids) =
     map (\<lambda>f. case find_index (\<lambda>i. i = fd_id f) ids of
                 Some n \<Rightarrow> f\<lparr>fd_order := int n\<rparr> | None \<Rightarrow> f) (fs_filters st)"
  by (simp add: reorder_filters_def)

text \<open>
  Reordering with a list that names every stored rule once makes the listing show the rules in
  exactly that order, and changes nothing but their order fields.
\<close>

theorem reorder_filters_lists:
  assumes "distinct ids" and "set ids = fd_id ` set (fs_filters st)"
    and "distinct (map fd_id (fs_filters st))"
  shows "map fd_id (list_filters (reorder_filters st ids) None) = ids \<and>
         map (\<lambda>f. f\<lparr>fd_order := 0\<rparr>) (fs_filters (reorder_filters st ids)) =
         map (\<lambda>f. f\<lparr>fd_order := 0\<rparr>) (fs_filters st)"
proof -
  let ?fs = "fs_filters (reorder_filters st ids)"
  have shape: "\<exists>n < length ids. fd_order f = int n \<and> fd_id f = ids ! n" if "f \<in> set ?fs" for f
  proof -
    from that obtain g where g: "g \<in> set (fs_filters st)"
      and f: "f = (case find_index (\<lambda>i. i = fd_id g) ids of
                 Some n \<Rightarrow> g\<lparr>fd_order := int n\<rparr> | None \<Rightarrow> g)"
      by (auto simp: reorder_filters_map)
    obtain n where "n < length ids" "ids ! n = fd_id g"
      using assms(2) g by (metis imageI in_set_conv_nth)
    then show ?thesis using find_index_unique [OF assms(1), of n] f by auto
  qed
  have ids_kept: "map fd_id ?fs = map fd_id (fs_filters st)"
    by (auto simp: reorder_filters_map split: option.splits)
  let ?sorted = "sort_key fd_order ?fs"
  have "mset (map fd_id ?sorted) = mset (map fd_id ?fs)" by simp
  also have "\<dots> = mset ids"
    using assms ids_kept by (metis list.set_map mset_set_set)
  finally have ms: "mset (map fd_id ?sorted) = mset ids" .
  then have len: "length ?sorted = length ids" by (metis length_map size_mset)
  define ix where "ix x = the (find_index (\<lambda>i. i = x) ids)" for x
  have ix: "ix (ids ! n) = n" if "n < length ids" for n
    using find_index_unique [OF assms(1) that] by (simp add: ix_def)
  have "map fd_order ?sorted = map (int \<circ> ix \<circ> fd_id) ?sorted"
    using shape ix by (fastforce intro: map_cong)
  then have "sorted (map (int \<circ> ix) (map fd_id ?sorted))"
    by (metis map_map sorted_sort_key)
  then have "sort_key ix ids = map fd_id ?sorted"
    using ms assms(1) ix
    by (intro sort_key_inj_key_eq)
      (auto simp: sorted_map inj_on_def in_set_conv_nth sorted_wrt_map)
  moreover have "sort_key ix ids = ids"
    by (rule sort_key_id_if_sorted) (auto simp: sorted_iff_nth_mono ix)
  ultimately show ?thesis
    by (auto simp: list_filters_def reorder_filters_map split: option.splits)
qed

lemma reorder_filters_lists_witness:
  "map fd_id (list_filters (reorder_filters \<lparr>fs_filters = sample_rules, fs_changed = 0\<rparr> [''b'', ''a'']) None)
     = [''b'', ''a'']"
  using reorder_filters_lists [of "[''b'', ''a'']" "\<lparr>fs_filters = sample_rules, fs_changed = 0\<rparr>"]
  by (simp add: sample_rules_def sample_rule_def insert_commute)

end
