(* ===== verification/Filter_Compiler.thy ===== *)
theory Filter_Compiler
  imports Filter_Service
begin

section \<open>Filter rules compiled to SQL for the backfill\<close>

text \<open>
  \<^verbatim>\<open>api/src/filters/lib/filter-compiler.ts\<close>: the text of the SET clause, piece by piece, with the
  errors the code throws. Values of conditions and operations are strings (the request bodies turn
  JSON booleans into strings). What ClickHouse makes of the text is outside the repository: a
  string literal is read by \<open>sql_literal\<close>, and \<open>sat\<close> says which condition texts hold for a row.
\<close>

datatype compile_error =
    Compile_invalid_field string
  | Compile_invalid_dimension string
  | Compile_unknown_action string
  | Compile_type_error

abbreviation quote_char :: char where "quote_char \<equiv> CHR 0x27"
abbreviation backslash_char :: char where "backslash_char \<equiv> CHR 0x5C"
abbreviation newline :: string where "newline \<equiv> [CHR 0x0A]"

(* src: api/src/filters/lib/filter-compiler.ts:33-46 CUSTOM_DIMENSIONS *)
definition CUSTOM_DIMENSIONS :: "string list" where
  "CUSTOM_DIMENSIONS =
     [''channel'', ''channel_group'', ''stm_1'', ''stm_2'', ''stm_3'', ''stm_4'', ''stm_5'',
      ''stm_6'', ''stm_7'', ''stm_8'', ''stm_9'', ''stm_10'']"

lemma CUSTOM_DIMENSIONS_keys: "CUSTOM_DIMENSIONS = CUSTOM_KEYS"
  by (simp add: CUSTOM_DIMENSIONS_def CUSTOM_KEYS_listed)

subsection \<open>Escaping\<close>

(* src: api/src/filters/lib/filter-compiler.ts:52-54 escapeSQL *)
definition escapeSQL :: "string \<Rightarrow> string" where
  "escapeSQL v =
     js_replace_char quote_char [backslash_char, quote_char]
       (js_replace_char backslash_char [backslash_char, backslash_char] v)"

(* src: api/src/filters/lib/filter-compiler.ts:60-63 escapeRegex *)
definition escapeRegex :: "string \<Rightarrow> string" where
  "escapeRegex p =
     js_replace_char quote_char [backslash_char, quote_char]
       (js_replace_char backslash_char [backslash_char, backslash_char] p)"

definition sql_quoted :: "string \<Rightarrow> string" where
  "sql_quoted v = [quote_char] @ v @ [quote_char]"

text \<open>
  Reading a ClickHouse string literal from just after its opening quote: a backslash takes the next
  character (\<open>esc\<close> gives the meaning of the other escape sequences), a doubled quote is a quote,
  and a single quote ends the literal. The result is the value and the text that follows.
\<close>

fun sql_literal :: "(char \<Rightarrow> char) \<Rightarrow> string \<Rightarrow> (string \<times> string) option" where
  "sql_literal esc [] = None"
| "sql_literal esc [c] = (if c = quote_char then Some ([], []) else None)"
| "sql_literal esc (c # d # s) =
     (if c = backslash_char
        then map_option (\<lambda>(v, r). ((if d = quote_char \<or> d = backslash_char then d else esc d) # v, r))
               (sql_literal esc s)
      else if c = quote_char
        then (if d = quote_char then map_option (\<lambda>(v, r). (quote_char # v, r)) (sql_literal esc s)
              else Some ([], d # s))
      else map_option (\<lambda>(v, r). (c # v, r)) (sql_literal esc (d # s)))"

lemma escapeSQL_Nil [simp]: "escapeSQL [] = []"
  by (simp add: escapeSQL_def)

lemma escapeSQL_Cons:
  "escapeSQL (c # s) =
     (if c = quote_char \<or> c = backslash_char then [backslash_char, c] else [c]) @ escapeSQL s"
  by (auto simp: escapeSQL_def js_replace_char_def)

lemma escapeRegex_escapeSQL: "escapeRegex = escapeSQL"
  by (rule ext) (simp add: escapeRegex_def escapeSQL_def)

text \<open>
  C34: An escaped value between quotes is read back by ClickHouse as exactly that value, and the
  literal ends where the compiler ended it: no value of a rule can leave its string literal.
\<close>

theorem escapeSQL_roundtrip:
  assumes "\<not> js_starts_with rest [quote_char]"
  shows "sql_literal esc (escapeSQL v @ [quote_char] @ rest) = Some (v, rest)"
proof (induction v)
  case Nil
  show ?case using assms by (cases rest) (auto simp: js_starts_with_def)
next
  case (Cons c v)
  have step: "sql_literal esc (x # escapeSQL v @ [quote_char] @ rest)
      = map_option (\<lambda>(v, r). (x # v, r)) (sql_literal esc (escapeSQL v @ [quote_char] @ rest))"
    if "x \<noteq> quote_char" "x \<noteq> backslash_char" for x
    using that by (cases "escapeSQL v") auto
  show ?case
    using Cons step [of c] by (auto simp: escapeSQL_Cons)
qed

lemma escapeSQL_roundtrip_witness:
  "sql_literal (\<lambda>c. c) (escapeSQL [quote_char, backslash_char] @ [quote_char] @ '' OR 1=1'')
     = Some ([quote_char, backslash_char], '' OR 1=1'')"
  by (rule escapeSQL_roundtrip) (simp add: js_starts_with_def)

subsection \<open>Conditions\<close>

(* src: api/src/filters/lib/filter-compiler.ts:70-76 validateSourceField *)
definition validateSourceField :: "string \<Rightarrow> compile_error + unit" where
  "validateSourceField f = (if f \<in> set SOURCE_FIELDS then Inr () else Inl (Compile_invalid_field f))"

(* src: api/src/filters/lib/filter-compiler.ts:82-88 validateDimension *)
definition validateDimension :: "string \<Rightarrow> compile_error + unit" where
  "validateDimension d =
     (if d \<in> set WRITABLE_DIMENSIONS then Inr () else Inl (Compile_invalid_dimension d))"

(* src: api/src/filters/lib/filter-compiler.ts:102-105 compileCondition *)
definition bool_value :: "string option \<Rightarrow> bool" where
  "bool_value v \<longleftrightarrow> v = Some ''true'' \<or> v = Some ''1''"

(* src: api/src/filters/lib/filter-compiler.ts:106-106 compileCondition *)
definition bit_text :: "bool \<Rightarrow> string" where
  "bit_text b = (if b then ''1'' else ''0'')"

(* src: api/src/filters/lib/filter-compiler.ts:98-123 compileCondition *)
definition is_direct_condition :: "filter_condition \<Rightarrow> string" where
  "is_direct_condition c =
     (case fc_operator c of
        Op_equals \<Rightarrow> ''is_direct = '' @ bit_text (bool_value (fc_value c))
      | Op_not_equals \<Rightarrow> ''is_direct != '' @ bit_text (bool_value (fc_value c))
      | Op_is_empty \<Rightarrow> ''is_direct = 0''
      | Op_is_not_empty \<Rightarrow> ''is_direct = 1''
      | _ \<Rightarrow> ''0 = 1'')"

(* src: api/src/filters/lib/filter-compiler.ts:125-151 compileCondition *)
definition string_condition :: "filter_condition \<Rightarrow> string" where
  "string_condition c =
     (let field = fc_field c; value = sql_quoted (escapeSQL (js_nullish (fc_value c) []));
          nonempty = ''('' @ field @ '' != '' @ sql_quoted [] @ '' AND ''
      in case fc_operator c of
           Op_equals \<Rightarrow> nonempty @ field @ '' = '' @ value @ '')''
         | Op_not_equals \<Rightarrow> nonempty @ field @ '' != '' @ value @ '')''
         | Op_contains \<Rightarrow> nonempty @ ''position('' @ field @ '', '' @ value @ '') > 0)''
         | Op_not_contains \<Rightarrow> nonempty @ ''position('' @ field @ '', '' @ value @ '') = 0)''
         | Op_is_empty \<Rightarrow> ''('' @ field @ '' = '' @ sql_quoted [] @ '' OR '' @ field @ '' IS NULL)''
         | Op_is_not_empty \<Rightarrow> nonempty @ field @ '' IS NOT NULL)''
         | Op_regex \<Rightarrow> nonempty @ ''match('' @ field @ '', ''
                        @ sql_quoted (escapeRegex (js_nullish (fc_value c) [])) @ ''))''
         | Op_unknown _ \<Rightarrow> ''0 = 1'')"

(* src: api/src/filters/lib/filter-compiler.ts:93-152 compileCondition *)
definition compileCondition :: "filter_condition \<Rightarrow> compile_error + string" where
  "compileCondition c =
     res_bind (validateSourceField (fc_field c)) (\<lambda>_.
       Inr (if fc_field c = ''is_direct'' then is_direct_condition c else string_condition c))"

(* src: api/src/filters/lib/filter-compiler.ts:157-162 compileConditions *)
definition compileConditions :: "filter_condition list \<Rightarrow> compile_error + string" where
  "compileConditions cs =
     (if cs = [] then Inr ''1 = 1''
      else res_bind (res_map compileCondition cs) (\<lambda>ts. Inr (js_join '' AND '' ts)))"

subsection \<open>CASE expressions\<close>

(* src: api/src/filters/lib/filter-compiler.ts:23-27 CaseBranch *)
record case_branch =
  cb_condition :: string
  cb_action :: filter_action
  cb_value :: "string option"

text \<open>\<open>escapeSQL(b.value!)\<close>: an absent value is a \<open>TypeError\<close>.\<close>

(* src: api/src/filters/lib/filter-compiler.ts:184-184 buildCaseExpression *)
definition quoted_value :: "string option \<Rightarrow> compile_error + string" where
  "quoted_value v =
     (case v of None \<Rightarrow> Inl Compile_type_error | Some s \<Rightarrow> Inr (sql_quoted (escapeSQL s)))"

(* src: api/src/filters/lib/filter-compiler.ts:202-202 buildCaseExpression *)
definition when_clause :: "string \<Rightarrow> string \<Rightarrow> string" where
  "when_clause cond val = ''WHEN '' @ cond @ '' THEN '' @ val"

(* src: api/src/filters/lib/filter-compiler.ts:205-206 buildCaseExpression *)
definition case_text :: "string list \<Rightarrow> string \<Rightarrow> string" where
  "case_text whens els =
     ''CASE'' @ newline @ ''    '' @ js_join (newline @ ''    '') whens
       @ newline @ ''    ELSE '' @ els @ newline @ ''  END''"

(* src: api/src/filters/lib/filter-compiler.ts:178-203 buildCaseExpression *)
definition custom_when :: "case_branch \<Rightarrow> compile_error + string" where
  "custom_when b =
     (case cb_action b of
        Act_unknown a \<Rightarrow> Inl (Compile_unknown_action a)
      | Act_unset_value \<Rightarrow> Inr (when_clause (cb_condition b) (sql_quoted []))
      | _ \<Rightarrow> res_bind (quoted_value (cb_value b)) (\<lambda>v. Inr (when_clause (cb_condition b) v)))"

(* src: api/src/filters/lib/filter-compiler.ts:174-207 buildCaseExpression *)
definition buildCaseExpression :: "string \<Rightarrow> case_branch list \<Rightarrow> compile_error + string" where
  "buildCaseExpression d bs =
     res_bind (res_map custom_when bs) (\<lambda>ws. Inr (case_text ws (sql_quoted [])))"

(* src: api/src/filters/lib/filter-compiler.ts:291-316 buildStandardFieldCaseExpression *)
definition standard_when :: "string \<Rightarrow> case_branch \<Rightarrow> compile_error + string" where
  "standard_when d b =
     (case cb_action b of
        Act_set_value \<Rightarrow> res_bind (quoted_value (cb_value b)) (\<lambda>v. Inr (when_clause (cb_condition b) v))
      | Act_unset_value \<Rightarrow> Inr (when_clause (cb_condition b) (sql_quoted []))
      | Act_set_default_value \<Rightarrow>
          res_bind (quoted_value (cb_value b)) (\<lambda>v.
            Inr (when_clause (cb_condition b @ '' AND ('' @ d @ '' = '' @ sql_quoted []
                   @ '' OR '' @ d @ '' IS NULL)'') v))
      | Act_unknown a \<Rightarrow> Inl (Compile_unknown_action a))"

(* src: api/src/filters/lib/filter-compiler.ts:287-320 buildStandardFieldCaseExpression *)
definition buildStandardFieldCaseExpression :: "string \<Rightarrow> case_branch list \<Rightarrow> compile_error + string" where
  "buildStandardFieldCaseExpression d bs =
     res_bind (res_map (standard_when d) bs) (\<lambda>ws. Inr (case_text ws d))"

(* src: api/src/filters/lib/filter-compiler.ts:326-357 buildBooleanCaseExpression *)
definition boolean_when :: "case_branch \<Rightarrow> compile_error + string" where
  "boolean_when b =
     (case cb_action b of
        Act_set_value \<Rightarrow> Inr (when_clause (cb_condition b) (bit_text (bool_value (cb_value b))))
      | Act_unset_value \<Rightarrow> Inr (when_clause (cb_condition b) ''0'')
      | Act_set_default_value \<Rightarrow>
          Inr (when_clause (cb_condition b @ '' AND is_direct = 0'') (bit_text (bool_value (cb_value b))))
      | Act_unknown a \<Rightarrow> Inl (Compile_unknown_action a))"

(* src: api/src/filters/lib/filter-compiler.ts:325-360 buildBooleanCaseExpression *)
definition buildBooleanCaseExpression :: "case_branch list \<Rightarrow> compile_error + string" where
  "buildBooleanCaseExpression bs =
     res_bind (res_map boolean_when bs) (\<lambda>ws. Inr (case_text ws ''is_direct''))"

subsection \<open>The SET clause\<close>

type_synonym branch_map = "(string \<times> case_branch list) list"

(* src: api/src/filters/lib/filter-compiler.ts:235-241 compileFiltersToSQL *)
definition add_branch :: "string \<Rightarrow> case_branch \<Rightarrow> branch_map \<Rightarrow> branch_map" where
  "add_branch d b m = AList.update d (js_nullish (map_of m d) [] @ [b]) m"

(* src: api/src/filters/lib/filter-compiler.ts:233-242 compileFiltersToSQL *)
fun add_operations :: "string \<Rightarrow> filter_operation list \<Rightarrow> branch_map \<Rightarrow> compile_error + branch_map" where
  "add_operations cond [] m = Inr m"
| "add_operations cond (op # ops) m =
     res_bind (validateDimension (fo_dimension op)) (\<lambda>_.
       add_operations cond ops
         (add_branch (fo_dimension op)
            \<lparr>cb_condition = cond, cb_action = fo_action op, cb_value = fo_value op\<rparr> m))"

(* src: api/src/filters/lib/filter-compiler.ts:227-243 compileFiltersToSQL *)
fun group_branches :: "filter_definition list \<Rightarrow> branch_map \<Rightarrow> compile_error + branch_map" where
  "group_branches [] m = Inr m"
| "group_branches (f # fs) m =
     res_bind (compileConditions (fd_conditions f)) (\<lambda>cond.
     res_bind (add_operations cond (fd_operations f) m) (\<lambda>m'. group_branches fs m'))"

(* src: api/src/filters/lib/filter-compiler.ts:248-257 compileFiltersToSQL *)
definition custom_clauses :: "branch_map \<Rightarrow> compile_error + string list" where
  "custom_clauses m =
     res_map (\<lambda>d. res_bind (buildCaseExpression d (js_nullish (map_of m d) [])) (\<lambda>e. Inr (d @ '' = '' @ e)))
       (filter (\<lambda>d. js_nullish (map_of m d) [] \<noteq> []) CUSTOM_DIMENSIONS)"

(* src: api/src/filters/lib/filter-compiler.ts:259-274 compileFiltersToSQL *)
definition standard_clauses :: "branch_map \<Rightarrow> compile_error + string list" where
  "standard_clauses m =
     res_map (\<lambda>(d, bs).
         res_bind (if d = ''is_direct'' then buildBooleanCaseExpression bs
                   else buildStandardFieldCaseExpression d bs) (\<lambda>e. Inr (d @ '' = '' @ e)))
       (filter (\<lambda>(d, bs). d \<notin> set CUSTOM_DIMENSIONS) m)"

(* src: api/src/filters/lib/filter-compiler.ts:13-18 CompiledFilters *)
record compiled_filters =
  set_clause :: string
  filter_version :: string

(* src: api/src/filters/lib/filter-compiler.ts:219-280 compileFiltersToSQL *)
definition compileFiltersToSQL ::
    "(filter_definition list \<Rightarrow> string) \<Rightarrow> filter_definition list \<Rightarrow> compile_error + compiled_filters" where
  "compileFiltersToSQL version fs =
     (let sorted_fs = enabled_by_priority fs
      in res_bind (group_branches sorted_fs []) (\<lambda>m.
         res_bind (custom_clauses m) (\<lambda>cs.
         res_bind (standard_clauses m) (\<lambda>ss.
           Inr \<lparr>set_clause = js_join ('','' @ newline @ ''  '') (cs @ ss),
                filter_version = version sorted_fs\<rparr>))))"

subsection \<open>The compiler accepts every stored rule set\<close>

definition branch_ok :: "case_branch \<Rightarrow> bool" where
  "branch_ok b \<longleftrightarrow> cb_action b \<in> {Act_set_value, Act_unset_value, Act_set_default_value} \<and>
     (cb_action b \<noteq> Act_unset_value \<longrightarrow> cb_value b \<noteq> None)"

definition branches_ok :: "branch_map \<Rightarrow> bool" where
  "branches_ok m \<longleftrightarrow> (\<forall>(d, bs) \<in> set m. \<forall>b \<in> set bs. branch_ok b)"

lemma compileConditions_total:
  assumes "\<forall>c \<in> set cs. condition_ok rx c"
  shows "\<exists>t. compileConditions cs = Inr t"
proof -
  have "\<exists>ts. res_map compileCondition cs = Inr ts"
    using assms
    by (intro res_map_total) (simp add: compileCondition_def validateSourceField_def condition_ok_def)
  then show ?thesis by (auto simp: compileConditions_def)
qed

lemma branches_ok_lookup:
  assumes "branches_ok m" and "b \<in> set (js_nullish (map_of m d) [])"
  shows "branch_ok b"
proof (cases "map_of m d")
  case None
  with assms show ?thesis by simp
next
  case (Some bs)
  with assms show ?thesis by (auto simp: branches_ok_def dest!: map_of_SomeD)
qed

lemma branches_ok_update:
  "branches_ok m \<Longrightarrow> \<forall>b \<in> set bs. branch_ok b \<Longrightarrow> branches_ok (AList.update d bs m)"
  by (induction m) (auto simp: branches_ok_def)

lemma add_branch_ok: "branches_ok m \<Longrightarrow> branch_ok b \<Longrightarrow> branches_ok (add_branch d b m)"
  unfolding add_branch_def by (rule branches_ok_update) (auto dest: branches_ok_lookup)

lemma add_operations_total:
  assumes "\<forall>op \<in> set ops. operation_ok op \<and> known_action op" and "branches_ok m"
  shows "\<exists>m'. add_operations cond ops m = Inr m' \<and> branches_ok m'"
  using assms
proof (induction ops arbitrary: m)
  case Nil
  then show ?case by simp
next
  case (Cons op ops)
  let ?b = "\<lparr>cb_condition = cond, cb_action = fo_action op, cb_value = fo_value op\<rparr>"
  have "branch_ok ?b"
    using Cons.prems(1) by (auto simp: branch_ok_def operation_ok_def known_action_def js_truthy_def split: option.splits)
  moreover have "validateDimension (fo_dimension op) = Inr ()"
    using Cons.prems(1) by (simp add: validateDimension_def operation_ok_def)
  ultimately show ?case using Cons by (simp add: add_branch_ok)
qed

lemma group_branches_total:
  assumes "\<forall>f \<in> set fs. rule_ok rx f" and "branches_ok m"
  shows "\<exists>m'. group_branches fs m = Inr m' \<and> branches_ok m'"
  using assms
proof (induction fs arbitrary: m)
  case Nil
  then show ?case by simp
next
  case (Cons f fs)
  obtain t where t: "compileConditions (fd_conditions f) = Inr t"
    using compileConditions_total Cons.prems(1) by (fastforce simp: rule_ok_def)
  obtain m1 where "add_operations t (fd_operations f) m = Inr m1" "branches_ok m1"
    using add_operations_total [of "fd_operations f" m t] Cons.prems by (auto simp: rule_ok_def)
  then show ?case using t Cons by simp
qed

lemma when_total:
  assumes "branch_ok b"
  shows "\<exists>w. custom_when b = Inr w" "\<exists>w. standard_when d b = Inr w" "\<exists>w. boolean_when b = Inr w"
  using assms
  by (auto simp: branch_ok_def custom_when_def standard_when_def boolean_when_def quoted_value_def)

lemma case_builders_total:
  assumes "\<forall>b \<in> set bs. branch_ok b"
  shows "\<exists>e. buildCaseExpression d bs = Inr e" "\<exists>e. buildStandardFieldCaseExpression d bs = Inr e"
    "\<exists>e. buildBooleanCaseExpression bs = Inr e"
proof -
  have "\<exists>ws. res_map custom_when bs = Inr ws" "\<exists>ws. res_map (standard_when d) bs = Inr ws"
    "\<exists>ws. res_map boolean_when bs = Inr ws"
    using assms by (blast intro: res_map_total when_total)+
  then show "\<exists>e. buildCaseExpression d bs = Inr e" "\<exists>e. buildStandardFieldCaseExpression d bs = Inr e"
    "\<exists>e. buildBooleanCaseExpression bs = Inr e"
    by (auto simp: buildCaseExpression_def buildStandardFieldCaseExpression_def buildBooleanCaseExpression_def)
qed

lemma clauses_total:
  assumes "branches_ok m"
  shows "\<exists>cs. custom_clauses m = Inr cs" and "\<exists>ss. standard_clauses m = Inr ss"
proof -
  have "\<exists>e. buildCaseExpression d (js_nullish (map_of m d) []) = Inr e" for d
    using branches_ok_lookup [OF assms] by (intro case_builders_total) blast
  then show "\<exists>cs. custom_clauses m = Inr cs"
    unfolding custom_clauses_def by (intro res_map_total) (simp add: res_simps)
  have "\<exists>e. (if d = ''is_direct'' then buildBooleanCaseExpression bs
               else buildStandardFieldCaseExpression d bs) = Inr e" if "(d, bs) \<in> set m" for d bs
  proof -
    have "\<forall>b \<in> set bs. branch_ok b" using assms that by (auto simp: branches_ok_def)
    then show ?thesis using case_builders_total(2,3) [of bs] by auto
  qed
  then show "\<exists>ss. standard_clauses m = Inr ss"
    unfolding standard_clauses_def by (intro res_map_total) (auto simp: res_simps)
qed

lemma compile_rules_total:
  assumes "\<forall>f \<in> set fs. rule_ok rx f"
  shows "\<exists>c. compileFiltersToSQL v fs = Inr c"
proof -
  have "\<forall>f \<in> set (enabled_by_priority fs). rule_ok rx f" using assms by (simp add: enabled_by_priority_def)
  moreover have "branches_ok []" by (simp add: branches_ok_def)
  ultimately obtain m where "group_branches (enabled_by_priority fs) [] = Inr m" "branches_ok m"
    using group_branches_total by blast
  with clauses_total [of m] show ?thesis by (auto simp: compileFiltersToSQL_def)
qed

text \<open>
  No rule set the service has stored makes the compiler throw: the backfill of any reachable
  store gets its SET clause.
\<close>

theorem compile_stored_rules:
  assumes "filter_reachable rx version st"
  shows "\<exists>c. compileFiltersToSQL v (fs_filters st) = Inr c"
  using compile_rules_total filter_reachable_invariant [OF assms] by (auto simp: store_ok_def)

lemma compile_stored_rules_witness:
  "\<exists>(st :: filter_store) c. fs_filters st \<noteq> [] \<and> compileFiltersToSQL (\<lambda>_. ''v'') (fs_filters st) = Inr c"
proof -
  let ?rx = "\<lambda>_ _. Some True"
  let ?st0 = "\<lparr>fs_filters = [], fs_changed = 0\<rparr>"
  let ?dto = "\<lparr>cf_name = ''n'', cf_priority = Some 10, cf_tags = None,
      cf_conditions = [\<lparr>fc_field = ''is_direct'', fc_operator = Op_equals, fc_value = Some ''true''\<rparr>],
      cf_operations = [\<lparr>fo_dimension = ''utm_source'', fo_action = Act_set_default_value, fo_value = Some ''x''\<rparr>],
      cf_enabled = None\<rparr>"
  obtain st f where c: "create_filter ?rx (\<lambda>_. ''v'') ''u1'' ''now'' ?st0 ?dto = Inr (st, f)"
    by (simp add: create_filter_def SOURCE_FIELDS_def WRITABLE_DIMENSIONS_def Let_def)
  have "filter_step ?rx (\<lambda>_. ''v'') ?st0 st"
    by (rule filter_step.created [OF c]) (simp_all add: known_action_def priority_in_range_def)
  then have r: "filter_reachable ?rx (\<lambda>_. ''v'') st"
    using filter_reachable.step [OF filter_reachable.empty] by blast
  have "fs_filters st \<noteq> []" using create_filter_store(1) [OF c] by simp
  then show ?thesis using compile_stored_rules [OF r, of "\<lambda>_. ''v''"] by blast
qed

subsection \<open>The backfill against the evaluation at ingestion\<close>

text \<open>
  The value of a custom dimension's CASE expression for a row: the first branch whose condition
  holds, the empty string otherwise. The column is not nullable, so a null or absent dimension of
  the evaluation at ingestion corresponds to the empty string.
\<close>

definition branch_value :: "case_branch \<Rightarrow> string" where
  "branch_value b = (if cb_action b = Act_unset_value then [] else js_nullish (cb_value b) [])"

definition case_value :: "(string \<Rightarrow> bool) \<Rightarrow> case_branch list \<Rightarrow> string" where
  "case_value sat bs =
     (case find (\<lambda>b. sat (cb_condition b)) bs of None \<Rightarrow> [] | Some b \<Rightarrow> branch_value b)"

text \<open>The text is that of these branches: one WHEN per branch, with its value as a literal.\<close>

lemma buildCaseExpression_text:
  assumes "\<forall>b \<in> set bs. branch_ok b"
  shows "buildCaseExpression d bs =
     Inr (case_text (map (\<lambda>b. when_clause (cb_condition b) (sql_quoted (escapeSQL (branch_value b)))) bs)
            (sql_quoted []))"
proof -
  have "custom_when b = Inr (when_clause (cb_condition b) (sql_quoted (escapeSQL (branch_value b))))"
    if "b \<in> set bs" for b
    using assms that
    by (auto simp: branch_ok_def custom_when_def quoted_value_def branch_value_def)
  then have "res_map custom_when bs =
      Inr (map (\<lambda>b. when_clause (cb_condition b) (sql_quoted (escapeSQL (branch_value b)))) bs)"
    by (rule res_map_Inr)
  then show ?thesis by (simp add: buildCaseExpression_def)
qed

definition cell_text :: "cell option \<Rightarrow> string" where
  "cell_text c = (case c of Some (Cell s) \<Rightarrow> s | _ \<Rightarrow> [])"

definition condition_text :: "filter_definition \<Rightarrow> string" where
  "condition_text f = (case compileConditions (fd_conditions f) of Inr t \<Rightarrow> t | Inl _ \<Rightarrow> [])"

definition branches_of :: "string \<Rightarrow> filter_definition \<Rightarrow> case_branch list" where
  "branches_of d f =
     map (\<lambda>op. \<lparr>cb_condition = condition_text f, cb_action = fo_action op, cb_value = fo_value op\<rparr>)
       (filter (\<lambda>op. fo_dimension op = d) (fd_operations f))"

lemma add_branch_lookup:
  "js_nullish (map_of (add_branch e b m) d) [] = js_nullish (map_of m d) [] @ (if e = d then [b] else [])"
  by (simp add: add_branch_def)

lemma add_operations_lookup:
  "add_operations cond ops m = Inr m' \<Longrightarrow>
   js_nullish (map_of m' d) [] = js_nullish (map_of m d) [] @
     map (\<lambda>op. \<lparr>cb_condition = cond, cb_action = fo_action op, cb_value = fo_value op\<rparr>)
       (filter (\<lambda>op. fo_dimension op = d) ops)"
  by (induction ops arbitrary: m) (auto simp: res_simps add_branch_lookup)

lemma group_branches_lookup:
  "group_branches fs m = Inr m' \<Longrightarrow>
   js_nullish (map_of m' d) [] = js_nullish (map_of m d) [] @ concat (map (branches_of d) fs)"
proof (induction fs arbitrary: m)
  case Nil
  then show ?case by simp
next
  case (Cons f fs)
  then obtain t m1 where t: "compileConditions (fd_conditions f) = Inr t"
    and m1: "add_operations t (fd_operations f) m = Inr m1" and rest: "group_branches fs m1 = Inr m'"
    by (auto simp: res_simps)
  show ?case
    using Cons.IH [OF rest] add_operations_lookup [OF m1, of d] t
    by (simp add: branches_of_def condition_text_def)
qed

text \<open>The branches that hold for the row are the operations of the trace, in the same order.\<close>

definition branch_view :: "case_branch \<Rightarrow> filter_action \<times> string option" where
  "branch_view b = (cb_action b, cb_value b)"

definition operation_view :: "int \<times> filter_operation \<Rightarrow> filter_action \<times> string option" where
  "operation_view po = (fo_action (snd po), fo_value (snd po))"

lemma holding_branches_trace:
  assumes "\<forall>f \<in> set fs. sat (condition_text f) = evaluateConditions rx (fd_conditions f) fv"
  shows "map branch_view (filter (\<lambda>b. sat (cb_condition b)) (concat (map (branches_of d) (enabled_by_priority fs))))
       = map operation_view (on_dimension d (operation_trace rx fs fv))"
proof -
  have "map branch_view (filter (\<lambda>b. sat (cb_condition b)) (concat (map (branches_of d) gs)))
      = map operation_view (on_dimension d (concat (map tagged_operations
          (filter (\<lambda>f. evaluateConditions rx (fd_conditions f) fv) gs))))"
    if "\<forall>f \<in> set gs. sat (condition_text f) = evaluateConditions rx (fd_conditions f) fv" for gs
    using that
    by (induction gs)
      (auto simp: branches_of_def tagged_operations_def on_dimension_def filter_map comp_def
        branch_view_def operation_view_def simp del: evaluateConditions_all)
  from this [of "enabled_by_priority fs"] show ?thesis
    using assms by (simp add: operation_trace_def enabled_by_priority_def del: evaluateConditions_all)
qed

lemma find_filter_hd: "find P xs = (case filter P xs of [] \<Rightarrow> None | x # _ \<Rightarrow> Some x)"
  by (induction xs) auto

lemma case_value_trace:
  assumes "\<forall>f \<in> set fs. sat (condition_text f) = evaluateConditions rx (fd_conditions f) fv"
  shows "case_value sat (concat (map (branches_of d) (enabled_by_priority fs))) =
           (case on_dimension d (operation_trace rx fs fv) of
              [] \<Rightarrow> []
            | po # _ \<Rightarrow> if fo_action (snd po) = Act_unset_value then [] else js_nullish (fo_value (snd po)) [])"
  using holding_branches_trace [OF assms, of d]
  by (auto simp: case_value_def branch_value_def find_filter_hd branch_view_def operation_view_def split: list.splits)

text \<open>
  A dimension is decided by its first matching operation: no other assignment has that priority, a
  leading unset is followed by no default, a leading default by no assignment.
\<close>

definition first_decides :: "(int \<times> filter_operation) list \<Rightarrow> bool" where
  "first_decides tr =
     (case tr of
        [] \<Rightarrow> True
      | po # rest \<Rightarrow>
          (assigns po \<and> list_all (\<lambda>x. assigns x \<longrightarrow> fst x \<noteq> fst po) rest \<and>
             (fo_action (snd po) = Act_unset_value \<longrightarrow> list_all (\<lambda>x. \<not> is_default x) rest))
        \<or> (is_default po \<and> list_all (\<lambda>x. \<not> assigns x) rest))"

lemma winner_None: "\<forall>x \<in> set tr. assigns x \<longrightarrow> fst x \<noteq> p \<Longrightarrow> winner p tr = None"
  by (induction tr) auto

lemma find_None_all: "find P xs = None \<longleftrightarrow> (\<forall>x \<in> set xs. \<not> P x)"
  by (induction xs) auto

lemma dimension_spec_first:
  assumes "first_decides (po # rest)"
  shows "dimension_spec (po # rest) =
           Some (if fo_action (snd po) = Act_unset_value then Cell_null else cell_of (fo_value (snd po)))"
proof (cases "assigns po")
  case True
  then have "winner (fst po) rest = None" and "\<not> is_default po"
    and "fo_action (snd po) = Act_unset_value \<Longrightarrow> first_default rest = None"
    using assms default_not_assigns [of po]
    by (auto simp: first_decides_def list_all_iff first_default_def find_None_all intro!: winner_None)
  with True show ?thesis
    by (auto simp: dimension_spec_def assigns_def)
next
  case False
  with assms have d: "is_default po" and "find assigns rest = None"
    by (auto simp: first_decides_def list_all_iff find_None_all)
  with False show ?thesis
    by (auto simp: dimension_spec_def first_default_def is_default_def)
qed

lemma case_agrees:
  assumes "d \<in> set CUSTOM_DIMENSIONS"
    and "group_branches (enabled_by_priority fs) [] = Inr m"
    and "\<forall>f \<in> set fs. sat (condition_text f) = evaluateConditions rx (fd_conditions f) fv"
    and "\<forall>f \<in> set fs. 0 \<le> fd_priority f"
    and "first_decides (on_dimension d (operation_trace rx fs fv))"
  shows "case_value sat (js_nullish (map_of m d) []) = cell_text (map_of (evaluateFilters rx fs fv) d)"
proof -
  let ?tr = "on_dimension d (operation_trace rx fs fv)"
  have eval: "map_of (evaluateFilters rx fs fv) d = dimension_spec ?tr"
    using accumulators_dimension [OF assms(4)] .
  have "js_nullish (map_of m d) [] = concat (map (branches_of d) (enabled_by_priority fs))"
    using group_branches_lookup [OF assms(2), of d] by simp
  then have "case_value sat (js_nullish (map_of m d) []) =
      (case ?tr of [] \<Rightarrow> []
       | po # _ \<Rightarrow> if fo_action (snd po) = Act_unset_value then [] else js_nullish (fo_value (snd po)) [])"
    using case_value_trace [OF assms(3), of d] by simp
  moreover have "dimension_spec [] = None" by (simp add: dimension_spec_def)
  ultimately show ?thesis
    using assms(5) eval
    by (cases ?tr) (auto simp: dimension_spec_first cell_text_def cell_of_def js_nullish_def split: option.splits)
qed


definition sample_condition :: filter_condition where
  "sample_condition = \<lparr>fc_field = ''utm_term'', fc_operator = Op_is_empty, fc_value = None\<rparr>"

definition channel_rule :: "string \<Rightarrow> int \<Rightarrow> filter_action \<Rightarrow> string \<Rightarrow> filter_definition" where
  "channel_rule i p a v =
     sample_rule i p [sample_condition] [\<lparr>fo_dimension = ''channel'', fo_action = a, fo_value = Some v\<rparr>]"


text \<open>
  Outside that condition the two disagree on rules the service accepts: with a default of high
  priority and an assignment of low priority the ingestion stores the assigned value and the
  backfill the default, and with two assignments of one priority the ingestion keeps the last and
  the backfill the first.
\<close>

theorem backfill_diverges:
  "\<exists>fs gs m n.
     list_all (rule_ok (\<lambda>_ _. None)) (fs @ gs) \<and>
     group_branches (enabled_by_priority fs) [] = Inr m \<and>
     group_branches (enabled_by_priority gs) [] = Inr n \<and>
     case_value (\<lambda>_. True) (js_nullish (map_of m ''channel'') []) = ''first'' \<and>
     map_of (evaluateFilters (\<lambda>_ _. None) fs Map.empty) ''channel'' = Some (Cell ''second'') \<and>
     case_value (\<lambda>_. True) (js_nullish (map_of n ''channel'') []) = ''first'' \<and>
     map_of (evaluateFilters (\<lambda>_ _. None) gs Map.empty) ''channel'' = Some (Cell ''second'') \<and>
     list_all (\<lambda>f. evaluateConditions (\<lambda>_ _. None) (fd_conditions f) Map.empty) (fs @ gs)"
proof -
  let ?fs = "[channel_rule ''a'' 900 Act_set_default_value ''first'', channel_rule ''b'' 100 Act_set_value ''second'']"
  let ?gs = "[channel_rule ''a'' 500 Act_set_value ''first'', channel_rule ''b'' 500 Act_set_value ''second'']"
  have ok: "list_all (rule_ok (\<lambda>_ _. None)) (?fs @ ?gs)"
    by (simp add: rule_ok_def channel_rule_def sample_rule_def sample_condition_def condition_ok_def
        operation_ok_def known_action_def SOURCE_FIELDS_def WRITABLE_DIMENSIONS_def)
  obtain m where m: "group_branches (enabled_by_priority ?fs) [] = Inr m"
    and vm: "case_value (\<lambda>_. True) (js_nullish (map_of m ''channel'') []) = ''first''"
    by (simp add: enabled_by_priority_def sort_desc_def channel_rule_def sample_rule_def sample_condition_def
        compileConditions_def compileCondition_def validateSourceField_def validateDimension_def
        SOURCE_FIELDS_def WRITABLE_DIMENSIONS_def add_branch_def case_value_def branch_value_def)
  obtain n where n: "group_branches (enabled_by_priority ?gs) [] = Inr n"
    and vn: "case_value (\<lambda>_. True) (js_nullish (map_of n ''channel'') []) = ''first''"
    by (simp add: enabled_by_priority_def sort_desc_def channel_rule_def sample_rule_def sample_condition_def
        compileConditions_def compileCondition_def validateSourceField_def validateDimension_def
        SOURCE_FIELDS_def WRITABLE_DIMENSIONS_def add_branch_def case_value_def branch_value_def)
  have ef: "map_of (evaluateFilters (\<lambda>_ _. None) ?fs Map.empty) ''channel'' = Some (Cell ''second'')"
    and eg: "map_of (evaluateFilters (\<lambda>_ _. None) ?gs Map.empty) ''channel'' = Some (Cell ''second'')"
    by code_simp+
  have "list_all (\<lambda>f. evaluateConditions (\<lambda>_ _. None) (fd_conditions f) Map.empty) (?fs @ ?gs)"
    by (simp add: channel_rule_def sample_rule_def sample_condition_def evaluateCondition_def)
  with ok m vm n vn ef eg show ?thesis by blast
qed

end
