(* ===== verification/Console_Filters.thy ===== *)
theory Console_Filters
  imports Filters
begin

section \<open>The console's preview of filter rules\<close>

text \<open>
  \<^verbatim>\<open>console/src/lib/filter-evaluator.ts\<close>: the rule tester of the settings page evaluates the
  same conditions in the browser. The lemmas say exactly when its verdict is that of the server.
\<close>

(* src: console/src/lib/filter-evaluator.ts:6-35 evaluateCondition *)
definition console_condition :: "regex_engine \<Rightarrow> filter_condition \<Rightarrow> field_values \<Rightarrow> bool" where
  "console_condition rx c tv =
     (let testValue = js_nullish (tv (fc_field c)) [];
          conditionValue = js_nullish (fc_value c) []
      in case fc_operator c of
           Op_equals \<Rightarrow> testValue = conditionValue
         | Op_not_equals \<Rightarrow> testValue \<noteq> [] \<and> testValue \<noteq> conditionValue
         | Op_contains \<Rightarrow> js_includes testValue conditionValue
         | Op_not_contains \<Rightarrow> testValue \<noteq> [] \<and> \<not> js_includes testValue conditionValue
         | Op_is_empty \<Rightarrow> testValue = []
         | Op_is_not_empty \<Rightarrow> testValue \<noteq> []
         | Op_regex \<Rightarrow> (case rx conditionValue testValue of Some b \<Rightarrow> b | None \<Rightarrow> False)
         | Op_unknown _ \<Rightarrow> False)"

(* src: console/src/lib/filter-evaluator.ts:40-46 evaluateConditions *)
definition console_conditions :: "regex_engine \<Rightarrow> filter_condition list \<Rightarrow> field_values \<Rightarrow> bool" where
  "console_conditions rx cs tv = (if cs = [] then True else list_all (\<lambda>c. console_condition rx c tv) cs)"

(* src: console/src/lib/filter-evaluator.ts:54-54 simulateOperations *)
record operation_result =
  or_dimension :: string
  or_action :: filter_action
  or_value :: "string option"

(* src: console/src/lib/filter-evaluator.ts:51-79 simulateOperations *)
definition simulateOperations :: "filter_operation list \<Rightarrow> bool \<Rightarrow> operation_result list" where
  "simulateOperations ops matches =
     map (\<lambda>op. \<lparr>or_dimension = fo_dimension op, or_action = fo_action op,
               or_value = (if matches \<and> fo_action op \<in> {Act_set_value, Act_set_default_value}
                           then fo_value op else None)\<rparr>) ops"

(* src: console/src/lib/filter-evaluator.ts:87-90 testFilter *)
record filter_test =
  ft_filter :: filter_definition
  ft_matches :: bool
  ft_operations :: "operation_result list"

(* src: console/src/lib/filter-evaluator.ts:84-94 testFilter *)
definition testFilter :: "regex_engine \<Rightarrow> filter_definition \<Rightarrow> field_values \<Rightarrow> filter_test" where
  "testFilter rx f tv =
     (let matches = console_conditions rx (fd_conditions f) tv
      in \<lparr>ft_filter = f, ft_matches = matches, ft_operations = simulateOperations (fd_operations f) matches\<rparr>)"

(* src: console/src/lib/filter-evaluator.ts:99-113 testAllFilters *)
definition testAllFilters :: "regex_engine \<Rightarrow> filter_definition list \<Rightarrow> field_values \<Rightarrow> filter_test list" where
  "testAllFilters rx fs tv = sort_desc (fd_priority \<circ> ft_filter) (map (\<lambda>f. testFilter rx f tv) fs)"

lemma testAllFilters_sorted:
  "sorted_wrt (\<lambda>s t. fd_priority (ft_filter t) \<le> fd_priority (ft_filter s)) (testAllFilters rx fs tv)"
  using sort_desc_sorted [of "fd_priority \<circ> ft_filter"] by (simp add: testAllFilters_def)

text \<open>An empty field meets a condition that the empty string meets.\<close>

definition empty_pitfall :: "regex_engine \<Rightarrow> filter_condition \<Rightarrow> field_values \<Rightarrow> bool" where
  "empty_pitfall rx c fv \<longleftrightarrow>
     \<not> js_truthy (fv (fc_field c)) \<and>
     (fc_operator c \<in> {Op_equals, Op_contains} \<and> \<not> js_truthy (fc_value c)
      \<or> fc_operator c = Op_regex \<and> rx (js_nullish (fc_value c) []) [] = Some True)"

lemma console_condition_iff:
  "console_condition rx c fv = evaluateCondition rx c fv \<longleftrightarrow> \<not> empty_pitfall rx c fv"
proof (cases "js_truthy (fv (fc_field c))")
  case True
  then obtain v where "fv (fc_field c) = Some v" "v \<noteq> []" by (auto simp: js_truthy_def split: option.splits)
  then show ?thesis
    by (cases "fc_operator c"; cases "fc_value c")
      (auto simp: console_condition_def evaluateCondition_def empty_pitfall_def)
next
  case False
  have "js_includes [] p \<longleftrightarrow> p = []" for p by simp
  from False show ?thesis
    by (cases "fc_operator c"; cases "fv (fc_field c)"; cases "fc_value c")
      (auto simp: console_condition_def evaluateCondition_def empty_pitfall_def split: option.splits)
qed

lemma console_conditions_agree:
  assumes "\<forall>c \<in> set cs. \<not> empty_pitfall rx c fv"
  shows "console_conditions rx cs fv = evaluateConditions rx cs fv"
proof -
  have "\<forall>c \<in> set cs. console_condition rx c fv = evaluateCondition rx c fv"
    using assms console_condition_iff by blast
  then show ?thesis by (auto simp: console_conditions_def list_all_iff)
qed

text \<open>
  The console's verdict on a condition is the server's, except in exactly one situation: the
  field is empty or absent and the condition is an equals or contains with an empty value, or a
  regular expression that matches the empty string; there the console shows a match that the
  server never makes.
\<close>
theorem console_condition_agrees:
  "console_condition rx c fv = evaluateCondition rx c fv \<longleftrightarrow> \<not> empty_pitfall rx c fv"
  by (rule console_condition_iff)

end
