(* ===== verification/Channel.thy ===== *)
theory Channel
  imports Prelude
begin

section \<open>The acquisition channel of a session\<close>

text \<open>
  \<^verbatim>\<open>api/src/events/derive-channel.ts\<close>: a pure function from the acquisition signals of an event
  to a fine channel and the coarse group shared with phone calls. The lemmas state when each
  fallback is reached, that an internal referral code never hides a stronger signal, and where the
  substring tests on sources and referrers go further than the lists suggest.
\<close>

(* src: api/src/events/derive-channel.ts:28-38 Channel *)
datatype channel =
    Paid_search
  | Organic_search
  | Paid_social
  | Organic_social
  | Email
  | Referral
  | Direct
  | Other_channel

(* src: api/src/events/derive-channel.ts:45-54 ChannelGroup *)
datatype channel_group =
    Group_ads
  | Group_seo
  | Group_social
  | Group_email
  | Group_referral
  | Group_direct
  | Group_other

(* src: api/src/events/derive-channel.ts:56-59 ChannelResult *)
record channel_result =
  cr_channel :: channel
  cr_group :: channel_group

(* src: api/src/events/derive-channel.ts:62-84 ChannelSignals *)
record channel_signals =
  sg_referrer_domain :: "string option"
  sg_referrer :: "string option"
  sg_utm_source :: "string option"
  sg_utm_medium :: "string option"
  sg_utm_id_from :: "string option"
  sg_is_direct :: "bool option"
  sg_referral_code :: "string option"

subsection \<open>The reference lists\<close>

(* src: api/src/events/derive-channel.ts:92-106 SEARCH_ENGINE_DOMAINS *)
definition SEARCH_ENGINE_DOMAINS :: "string list" where
  "SEARCH_ENGINE_DOMAINS =
     [''google.'', ''bing.'', ''yahoo.'', ''duckduckgo.com'', ''qwant.com'', ''ecosia.org'',
      ''startpage.com'', ''baidu.com'', ''yandex.'', ''ask.com'', ''aol.com'', ''brave.com'',
      ''search.brave.com'']"

(* src: api/src/events/derive-channel.ts:109-139 SOCIAL_DOMAINS *)
definition SOCIAL_DOMAINS :: "string list" where
  "SOCIAL_DOMAINS =
     [''facebook.com'', ''fb.com'', ''fb.me'', ''l.facebook.com'', ''lm.facebook.com'',
      ''m.facebook.com'', ''instagram.com'', ''l.instagram.com'', ''linkedin.com'', ''lnkd.in'',
      ''twitter.com'', ''x.com'', ''t.co'', ''youtube.com'', ''youtu.be'', ''tiktok.com'',
      ''pinterest.'', ''reddit.com'', ''snapchat.com'', ''tumblr.com'', ''threads.net'',
      ''mastodon.'', ''whatsapp.com'', ''wa.me'', ''messenger.com'', ''discord.com'',
      ''discord.gg'', ''telegram.org'', ''t.me'']"

(* src: api/src/events/derive-channel.ts:142-156 EMAIL_DOMAINS *)
definition EMAIL_DOMAINS :: "string list" where
  "EMAIL_DOMAINS =
     [''mail.google.com'', ''outlook.'', ''outlook.live.com'', ''outlook.office365.com'',
      ''mail.yahoo.com'', ''mail.proton.me'', ''protonmail.com'', ''mail.com'', ''gmx.'',
      ''laposte.net'', ''orange.fr'', ''free.fr'', ''sfr.fr'']"

(* src: api/src/events/derive-channel.ts:159-159 PAID_SEARCH_CLICK_IDS *)
definition PAID_SEARCH_CLICK_IDS :: "string list" where
  "PAID_SEARCH_CLICK_IDS = [''gclid'', ''gbraid'', ''wbraid'']"

(* src: api/src/events/derive-channel.ts:162-176 PAID_MEDIUMS *)
definition PAID_MEDIUMS :: "string list" where
  "PAID_MEDIUMS =
     [''cpc'', ''ppc'', ''paid'', ''paidsearch'', ''paid_search'', ''paid-search'', ''sem'',
      ''cpm'', ''cpv'', ''cpa'', ''display'', ''banner'', ''retargeting'']"

(* src: api/src/events/derive-channel.ts:179-183 PAID_SOCIAL_MEDIUMS *)
definition PAID_SOCIAL_MEDIUMS :: "string list" where
  "PAID_SOCIAL_MEDIUMS = [''paidsocial'', ''paid_social'', ''paid-social'']"

(* src: api/src/events/derive-channel.ts:186-192 SOCIAL_MEDIUMS *)
definition SOCIAL_MEDIUMS :: "string list" where
  "SOCIAL_MEDIUMS = [''social'', ''social-media'', ''social_media'', ''sm''] @ PAID_SOCIAL_MEDIUMS"

(* src: api/src/events/derive-channel.ts:195-195 EMAIL_MEDIUMS *)
definition EMAIL_MEDIUMS :: "string list" where
  "EMAIL_MEDIUMS = [''email'', ''e-mail'', ''newsletter'', ''mail'']"

(* src: api/src/events/derive-channel.ts:198-204 REFERRAL_MEDIUMS *)
definition REFERRAL_MEDIUMS :: "string list" where
  "REFERRAL_MEDIUMS = [''referral'', ''referrer'', ''link'', ''affiliate'', ''partner'']"

(* src: api/src/events/derive-channel.ts:207-207 ORGANIC_MEDIUMS *)
definition ORGANIC_MEDIUMS :: "string list" where
  "ORGANIC_MEDIUMS = [''organic'', ''organic_search'']"

(* src: api/src/events/derive-channel.ts:355-367 isSocialSource *)
definition SOCIAL_SOURCES :: "string list" where
  "SOCIAL_SOURCES =
     [''facebook'', ''instagram'', ''linkedin'', ''twitter'', ''x'', ''tiktok'', ''youtube'',
      ''pinterest'', ''snapchat'', ''reddit'', ''threads'']"

subsection \<open>The derivation\<close>

(* src: api/src/events/derive-channel.ts:209-211 norm *)
definition norm_signal :: "string option \<Rightarrow> string" where
  "norm_signal v = js_lower (js_trim (js_nullish v []))"

(* src: api/src/events/derive-channel.ts:214-224 domainMatches *)
definition domainMatches :: "string \<Rightarrow> string list \<Rightarrow> bool" where
  "domainMatches domain sfxs =
     (if domain = [] then False
      else list_ex (\<lambda>s. if js_ends_with s ''.''
                        then domain = butlast s \<or> js_includes domain s \<or> js_starts_with domain s
                        else domain = s \<or> js_ends_with domain (''.'' @ s)) sfxs)"

(* src: api/src/events/derive-channel.ts:227-245 toChannelGroup *)
fun toChannelGroup :: "channel \<Rightarrow> channel_group" where
  "toChannelGroup Paid_search = Group_ads"
| "toChannelGroup Organic_search = Group_seo"
| "toChannelGroup Paid_social = Group_social"
| "toChannelGroup Organic_social = Group_social"
| "toChannelGroup Email = Group_email"
| "toChannelGroup Referral = Group_referral"
| "toChannelGroup Direct = Group_direct"
| "toChannelGroup Other_channel = Group_other"

(* src: api/src/events/derive-channel.ts:339-341 finalize *)
definition finalize_channel :: "channel \<Rightarrow> channel_result" where
  "finalize_channel c = \<lparr>cr_channel = c, cr_group = toChannelGroup c\<rparr>"

(* src: api/src/events/derive-channel.ts:343-345 isSearchEngineDomain *)
definition isSearchEngineDomain :: "string \<Rightarrow> bool" where
  "isSearchEngineDomain domain = domainMatches domain SEARCH_ENGINE_DOMAINS"

(* src: api/src/events/derive-channel.ts:346-348 isSocialDomain *)
definition isSocialDomain :: "string \<Rightarrow> bool" where
  "isSocialDomain domain = domainMatches domain SOCIAL_DOMAINS"

(* src: api/src/events/derive-channel.ts:349-351 isEmailDomain *)
definition isEmailDomain :: "string \<Rightarrow> bool" where
  "isEmailDomain domain = domainMatches domain EMAIL_DOMAINS"

(* src: api/src/events/derive-channel.ts:353-368 isSocialSource *)
definition isSocialSource :: "string \<Rightarrow> bool" where
  "isSocialSource source =
     (if source = [] then False
      else list_ex (\<lambda>s. source = s \<or> js_includes source s) SOCIAL_SOURCES)"

(* src: api/src/events/derive-channel.ts:267-337 deriveChannel *)
definition deriveChannel :: "channel_signals \<Rightarrow> channel_result" where
  "deriveChannel s =
     (let idFrom = norm_signal (sg_utm_id_from s);
          medium = norm_signal (sg_utm_medium s);
          refDomain = norm_signal (sg_referrer_domain s);
          refRaw = norm_signal (sg_referrer s);
          domain = js_or refDomain refRaw
      in if idFrom \<in> set PAID_SEARCH_CLICK_IDS then finalize_channel Paid_search
         else if medium \<noteq> [] \<and> medium \<in> set PAID_MEDIUMS then
           (if medium \<in> set SOCIAL_MEDIUMS \<or> isSocialDomain (js_or refDomain refRaw)
               \<or> isSocialSource (norm_signal (sg_utm_source s))
            then finalize_channel Paid_social else finalize_channel Paid_search)
         else if medium \<noteq> [] \<and> medium \<in> set SOCIAL_MEDIUMS then
           finalize_channel (if medium \<in> set PAID_SOCIAL_MEDIUMS then Paid_social else Organic_social)
         else if medium \<noteq> [] \<and> medium \<in> set EMAIL_MEDIUMS then finalize_channel Email
         else if medium \<noteq> [] \<and> medium \<in> set REFERRAL_MEDIUMS then finalize_channel Referral
         else if medium \<noteq> [] \<and> medium \<in> set ORGANIC_MEDIUMS then finalize_channel Organic_search
         else if domain \<noteq> [] then
           (if isEmailDomain domain then finalize_channel Email
            else if isSearchEngineDomain domain then finalize_channel Organic_search
            else if isSocialDomain domain then finalize_channel Organic_social
            else finalize_channel Referral)
         else if norm_signal (sg_referral_code s) \<noteq> [] then finalize_channel Referral
         else if js_nullish (sg_is_direct s) False \<or> (domain = [] \<and> medium = []) then finalize_channel Direct
         else finalize_channel Other_channel)"

text \<open>The mediums one of the lists knows.\<close>

definition known_medium :: "string \<Rightarrow> bool" where
  "known_medium m \<longleftrightarrow>
     m \<in> set PAID_MEDIUMS \<union> set SOCIAL_MEDIUMS \<union> set EMAIL_MEDIUMS \<union> set REFERRAL_MEDIUMS \<union> set ORGANIC_MEDIUMS"

text \<open>No signal of its own: no click id, no known medium, no referrer.\<close>

definition no_acquisition_signal :: "channel_signals \<Rightarrow> bool" where
  "no_acquisition_signal s \<longleftrightarrow>
     norm_signal (sg_utm_id_from s) \<notin> set PAID_SEARCH_CLICK_IDS \<and>
     \<not> known_medium (norm_signal (sg_utm_medium s)) \<and>
     norm_signal (sg_referrer_domain s) = [] \<and> norm_signal (sg_referrer s) = []"

lemma cr_channel_finalize [simp]:
  "cr_channel (finalize_channel c) = c" "cr_group (finalize_channel c) = toChannelGroup c"
  by (simp_all add: finalize_channel_def)

lemma not_known_Nil: "\<not> known_medium []"
  by (simp add: known_medium_def PAID_MEDIUMS_def SOCIAL_MEDIUMS_def EMAIL_MEDIUMS_def
      REFERRAL_MEDIUMS_def ORGANIC_MEDIUMS_def PAID_SOCIAL_MEDIUMS_def)

lemma deriveChannel_fallback:
  "no_acquisition_signal s \<Longrightarrow>
   cr_channel (deriveChannel s) =
     (if norm_signal (sg_referral_code s) \<noteq> [] then Referral
      else if sg_is_direct s = Some True \<or> norm_signal (sg_utm_medium s) = [] then Direct
      else Other_channel)"
  by (cases "sg_is_direct s")
    (auto simp: deriveChannel_def no_acquisition_signal_def known_medium_def Let_def)

lemma deriveChannel_signal:
  assumes "cr_channel (deriveChannel s) \<in> {Direct, Other_channel}"
  shows "no_acquisition_signal s"
proof -
  have "cr_channel (if b then x else y) = (if b then cr_channel x else cr_channel y)" for b x y by simp
  with assms not_known_Nil show ?thesis
    unfolding deriveChannel_def Let_def no_acquisition_signal_def known_medium_def
    by (cases "norm_signal (sg_utm_medium s) = []") (simp_all split: if_split_asm)
qed

lemma deriveChannel_code_irrelevant:
  assumes "\<not> no_acquisition_signal s"
  shows "deriveChannel (s\<lparr>sg_referral_code := c\<rparr>) = deriveChannel s"
proof -
  let ?m = "norm_signal (sg_utm_medium s)"
  have ne: "known_medium ?m \<Longrightarrow> ?m \<noteq> []" using not_known_Nil by auto
  from assms consider
      "norm_signal (sg_utm_id_from s) \<in> set PAID_SEARCH_CLICK_IDS"
    | "?m \<in> set PAID_MEDIUMS" "?m \<noteq> []" | "?m \<in> set SOCIAL_MEDIUMS" "?m \<noteq> []"
    | "?m \<in> set EMAIL_MEDIUMS" "?m \<noteq> []" | "?m \<in> set REFERRAL_MEDIUMS" "?m \<noteq> []"
    | "?m \<in> set ORGANIC_MEDIUMS" "?m \<noteq> []"
    | "js_or (norm_signal (sg_referrer_domain s)) (norm_signal (sg_referrer s)) \<noteq> []"
    using ne unfolding no_acquisition_signal_def known_medium_def by auto
  then show ?thesis
    by cases (simp_all add: deriveChannel_def Let_def del: js_or_empty_iff)
qed

lemma no_acquisition_signal_code [simp]:
  "no_acquisition_signal (s\<lparr>sg_referral_code := c\<rparr>) = no_acquisition_signal s"
  by (simp add: no_acquisition_signal_def)

lemma deriveChannel_group: "cr_group (deriveChannel s) = toChannelGroup (cr_channel (deriveChannel s))"
  by (simp add: deriveChannel_def Let_def)

text \<open>
  The fallback channels are reached exactly without a click id, a known medium, a referrer and a
  referral code: a session is direct when it says so or names no medium at all, and other only
  when it names a medium no list knows and is not marked direct.
\<close>
theorem deriveChannel_fallback_iff:
  "(cr_channel (deriveChannel s) = Direct \<longleftrightarrow>
     no_acquisition_signal s \<and> norm_signal (sg_referral_code s) = [] \<and>
     (sg_is_direct s = Some True \<or> norm_signal (sg_utm_medium s) = [])) \<and>
   (cr_channel (deriveChannel s) = Other_channel \<longleftrightarrow>
     no_acquisition_signal s \<and> norm_signal (sg_referral_code s) = [] \<and>
     \<not> (sg_is_direct s = Some True \<or> norm_signal (sg_utm_medium s) = []))"
  using deriveChannel_fallback [of s] deriveChannel_signal [of s]
  by (cases "no_acquisition_signal s") (auto split: if_split_asm)

text \<open>
  An internal referral code never hides a stronger signal: adding one to a session changes its
  channel only from direct or other, and then to referral; every other channel is unaffected.
\<close>
theorem referral_code_never_masks:
  "cr_channel (deriveChannel (s\<lparr>sg_referral_code := Some c\<rparr>)) =
     (let bare = cr_channel (deriveChannel (s\<lparr>sg_referral_code := None\<rparr>))
      in if norm_signal (Some c) \<noteq> [] \<and> bare \<in> {Direct, Other_channel} then Referral else bare)"
proof (cases "no_acquisition_signal s")
  case True
  then show ?thesis
    by (simp add: deriveChannel_fallback) (simp add: norm_signal_def js_trim_def)
next
  case False
  then have "cr_channel (deriveChannel s) \<notin> {Direct, Other_channel}"
    using False deriveChannel_signal by blast
  with False show ?thesis by (simp add: deriveChannel_code_irrelevant)
qed

subsection \<open>Where the substring tests reach further\<close>

lemma isSocialSource_x: "CHR ''x'' \<in> set source \<Longrightarrow> isSocialSource source"
  by (auto simp: isSocialSource_def SOCIAL_SOURCES_def js_includes_sublist sublist_def in_set_conv_decomp)

lemma paid_source_with_x:
  assumes "norm_signal (sg_utm_id_from s) \<notin> set PAID_SEARCH_CLICK_IDS"
    and "norm_signal (sg_utm_medium s) \<in> set PAID_MEDIUMS"
    and "CHR ''x'' \<in> set (norm_signal (sg_utm_source s))"
  shows "cr_channel (deriveChannel s) = Paid_social"
proof -
  have "norm_signal (sg_utm_medium s) \<noteq> []"
    using assms(2) by (auto simp: PAID_MEDIUMS_def)
  with assms show ?thesis by (simp add: deriveChannel_def Let_def isSocialSource_x)
qed

definition no_signals :: channel_signals where
  "no_signals = \<lparr>sg_referrer_domain = None, sg_referrer = None, sg_utm_source = None,
     sg_utm_medium = None, sg_utm_id_from = None, sg_is_direct = None, sg_referral_code = None\<rparr>"

text \<open>
  Two consequences of the substring tests: a paid click whose source merely contains the letter
  x is filed under paid social, because x is one of the social sources; and a referrer given only
  as a raw URL is compared as a whole, so that a link from Facebook counts as a plain referral
  where the parsed domain counts as organic social.
\<close>
theorem deriveChannel_substring_pitfalls:
  "cr_channel (deriveChannel (no_signals\<lparr>sg_utm_medium := Some ''cpc'', sg_utm_source := Some ''adnexus''\<rparr>))
     = Paid_social \<and>
   cr_channel (deriveChannel (no_signals\<lparr>sg_utm_medium := Some ''cpc'', sg_utm_source := Some ''bing''\<rparr>))
     = Paid_search \<and>
   cr_channel (deriveChannel (no_signals\<lparr>sg_referrer := Some ''https://www.facebook.com/''\<rparr>)) = Referral \<and>
   cr_channel (deriveChannel (no_signals\<lparr>sg_referrer_domain := Some ''www.facebook.com''\<rparr>)) = Organic_social"
  by code_simp

end
