(* ===== verification/Json.thy ===== *)
theory Json
  imports Prelude
begin

section \<open>JSON text\<close>

text \<open>
  The fragment of \<open>JSON.stringify\<close> and \<open>JSON.parse\<close> the program stores its state with: null,
  booleans, integers, strings, arrays and objects with string keys. Fractions and exponents are
  not modelled. The parser takes fuel, and \<open>json_parse\<close> gives it the length of the text, which
  the round trip shows to be enough. A key that occurs twice is read at its last occurrence.
\<close>

datatype json =
    JsNull
  | JsBool bool
  | JsInt int
  | JsStr string
  | JsArr "json list"
  | JsObj "(string \<times> json) list"

subsection \<open>Printing\<close>

definition q_char :: char where "q_char = CHR 0x22"
definition b_char :: char where "b_char = CHR 0x5C"

definition hex_digit :: "nat \<Rightarrow> char" where
  "hex_digit d = (if d < 10 then char_of (48 + d) else char_of (87 + d))"

definition json_escape :: "char \<Rightarrow> string" where
  "json_escape c =
     (let n = (of_char c :: nat)
      in if c = q_char \<or> c = b_char then [b_char, c]
         else if n = 8 then [b_char, CHR ''b''] else if n = 9 then [b_char, CHR ''t'']
         else if n = 10 then [b_char, CHR ''n''] else if n = 12 then [b_char, CHR ''f'']
         else if n = 13 then [b_char, CHR ''r'']
         else if n < 32 then [b_char, CHR ''u'', CHR ''0'', CHR ''0'', hex_digit (n div 16), hex_digit (n mod 16)]
         else [c])"

definition json_quote :: "string \<Rightarrow> string" where
  "json_quote s = q_char # concat (map json_escape s) @ [q_char]"

primrec json_print :: "json \<Rightarrow> string" where
  "json_print JsNull = ''null''"
| "json_print (JsBool b) = (if b then ''true'' else ''false'')"
| "json_print (JsInt i) = js_of_int i"
| "json_print (JsStr s) = json_quote s"
| "json_print (JsArr xs) = ''['' @ js_join '','' (map json_print xs) @ '']''"
| "json_print (JsObj kvs) =
     ''{'' @ js_join '','' (map (\<lambda>(k, t). json_quote k @ '':'' @ t) (map (map_prod id json_print) kvs)) @ ''}''"

subsection \<open>Parsing\<close>

definition json_space :: "char \<Rightarrow> bool" where
  "json_space c = ((of_char c :: nat) \<in> {9, 10, 13, 32})"

definition skip_ws :: "string \<Rightarrow> string" where
  "skip_ws s = dropWhile json_space s"

definition hex_value :: "char \<Rightarrow> nat option" where
  "hex_value c =
     (let n = (of_char c :: nat)
      in if 48 \<le> n \<and> n \<le> 57 then Some (n - 48)
         else if 97 \<le> n \<and> n \<le> 102 then Some (n - 87)
         else if 65 \<le> n \<and> n \<le> 70 then Some (n - 55) else None)"

definition hex_char :: "char \<Rightarrow> char \<Rightarrow> char \<Rightarrow> char \<Rightarrow> char option" where
  "hex_char a b c d =
     (case (hex_value a, hex_value b, hex_value c, hex_value d) of
        (Some w, Some x, Some y, Some z) \<Rightarrow>
          (let n = 4096 * w + 256 * x + 16 * y + z in if n < 256 then Some (char_of n) else None)
      | _ \<Rightarrow> None)"

definition json_unescape :: "char \<Rightarrow> char option" where
  "json_unescape e =
     (if e = q_char \<or> e = b_char \<or> e = CHR ''/'' then Some e
      else if e = CHR ''b'' then Some (CHR 0x08) else if e = CHR ''t'' then Some (CHR 0x09)
      else if e = CHR ''n'' then Some (CHR 0x0A) else if e = CHR ''f'' then Some (CHR 0x0C)
      else if e = CHR ''r'' then Some (CHR 0x0D) else None)"

definition push_char :: "char option \<Rightarrow> (string \<times> string) option \<Rightarrow> (string \<times> string) option" where
  "push_char c r = (case (c, r) of (Some x, Some (t, u)) \<Rightarrow> Some (x # t, u) | _ \<Rightarrow> None)"

fun json_chars :: "string \<Rightarrow> (string \<times> string) option" where
  "json_chars [] = None"
| "json_chars (c # s) =
     (if c = q_char then Some ([], s)
      else if c = b_char then
        (case s of
           [] \<Rightarrow> None
         | e # s1 \<Rightarrow>
             if e = CHR ''u'' then
               (case s1 of
                  h1 # h2 # h3 # h4 # s2 \<Rightarrow> push_char (hex_char h1 h2 h3 h4) (json_chars s2)
                | _ \<Rightarrow> None)
             else push_char (json_unescape e) (json_chars s1))
      else if (of_char c :: nat) < 32 then None
      else push_char (Some c) (json_chars s))"

definition num_end :: "string \<Rightarrow> bool" where
  "num_end s = (case s of [] \<Rightarrow> True | c # _ \<Rightarrow> \<not> is_digit c \<and> c \<notin> {CHR ''.'', CHR ''e'', CHR ''E''})"

definition json_nat :: "string \<Rightarrow> (nat \<times> string) option" where
  "json_nat s =
     (let ds = takeWhile is_digit s; r = dropWhile is_digit s
      in if ds = [] \<or> \<not> num_end r \<or> (length ds > 1 \<and> hd ds = CHR ''0'') then None
         else Some (digits_value ds, r))"

definition json_number :: "string \<Rightarrow> (json \<times> string) option" where
  "json_number s =
     (case s of
        [] \<Rightarrow> None
      | c # r \<Rightarrow>
          if c = CHR ''-'' then map_option (\<lambda>(n, t). (JsInt (- int n), t)) (json_nat r)
          else map_option (\<lambda>(n, t). (JsInt (int n), t)) (json_nat s))"

definition json_word :: "string \<Rightarrow> (json \<times> string) option" where
  "json_word s =
     (if js_starts_with s ''null'' then Some (JsNull, drop 4 s)
      else if js_starts_with s ''true'' then Some (JsBool True, drop 4 s)
      else if js_starts_with s ''false'' then Some (JsBool False, drop 5 s)
      else json_number s)"

fun json_value :: "nat \<Rightarrow> string \<Rightarrow> (json \<times> string) option"
and json_elems :: "nat \<Rightarrow> string \<Rightarrow> (json list \<times> string) option"
and json_members :: "nat \<Rightarrow> string \<Rightarrow> ((string \<times> json) list \<times> string) option" where
  "json_value 0 s = None"
| "json_value (Suc n) s =
     (case skip_ws s of
        [] \<Rightarrow> None
      | c # r \<Rightarrow>
          if c = q_char then map_option (\<lambda>(t, u). (JsStr t, u)) (json_chars r)
          else if c = CHR ''['' then
            (case skip_ws r of
               [] \<Rightarrow> None
             | d # r1 \<Rightarrow> if d = CHR '']'' then Some (JsArr [], r1)
                        else map_option (\<lambda>(vs, u). (JsArr vs, u)) (json_elems n (d # r1)))
          else if c = CHR ''{'' then
            (case skip_ws r of
               [] \<Rightarrow> None
             | d # r1 \<Rightarrow> if d = CHR ''}'' then Some (JsObj [], r1)
                        else map_option (\<lambda>(kvs, u). (JsObj kvs, u)) (json_members n (d # r1)))
          else json_word (c # r))"
| "json_elems 0 s = None"
| "json_elems (Suc n) s =
     (case json_value n s of
        None \<Rightarrow> None
      | Some (v, r) \<Rightarrow>
          (case skip_ws r of
             [] \<Rightarrow> None
           | c # r1 \<Rightarrow>
               if c = CHR '','' then map_option (\<lambda>(vs, u). (v # vs, u)) (json_elems n r1)
               else if c = CHR '']'' then Some ([v], r1) else None))"
| "json_members 0 s = None"
| "json_members (Suc n) s =
     (case skip_ws s of
        [] \<Rightarrow> None
      | c # r \<Rightarrow>
          if c \<noteq> q_char then None
          else (case json_chars r of
                  None \<Rightarrow> None
                | Some (k, r1) \<Rightarrow>
                    (case skip_ws r1 of
                       [] \<Rightarrow> None
                     | c1 # r2 \<Rightarrow>
                         if c1 \<noteq> CHR '':'' then None
                         else (case json_value n r2 of
                                 None \<Rightarrow> None
                               | Some (v, r3) \<Rightarrow>
                                   (case skip_ws r3 of
                                      [] \<Rightarrow> None
                                    | c2 # r4 \<Rightarrow>
                                        if c2 = CHR '','' then map_option (\<lambda>(kvs, u). ((k, v) # kvs, u)) (json_members n r4)
                                        else if c2 = CHR ''}'' then Some ([(k, v)], r4) else None)))))"

definition json_parse :: "string \<Rightarrow> json option" where
  "json_parse s =
     (case json_value (length s) s of
        Some (v, r) \<Rightarrow> if skip_ws r = [] then Some v else None
      | None \<Rightarrow> None)"

definition json_field :: "json \<Rightarrow> string \<Rightarrow> json option" where
  "json_field v k = (case v of JsObj kvs \<Rightarrow> map_of (rev kvs) k | _ \<Rightarrow> None)"

subsection \<open>The round trip\<close>

lemma js_of_nat_no_leading_zero: "1 < length (js_of_nat n) \<Longrightarrow> hd (js_of_nat n) \<noteq> CHR ''0''"
proof (induction n rule: js_of_nat.induct)
  case (1 n)
  show ?case
  proof (cases "n < 10")
    case True
    with "1.prems" show ?thesis by (simp add: js_of_nat.simps [of n])
  next
    case False
    then have eq: "js_of_nat n = js_of_nat (n div 10) @ [digit_char (n mod 10)]"
      by (simp add: js_of_nat.simps [of n])
    show ?thesis
    proof (cases "1 < length (js_of_nat (n div 10))")
      case True
      with "1.IH" False eq show ?thesis by simp
    next
      case short: False
      have small: "n div 10 < 10"
      proof (rule ccontr)
        assume "\<not> n div 10 < 10"
        then have "js_of_nat (n div 10) = js_of_nat (n div 10 div 10) @ [digit_char (n div 10 mod 10)]"
          by (simp add: js_of_nat.simps [of "n div 10"])
        with short show False by simp
      qed
      have "0 < n div 10" using False by simp
      with small have "(of_char (digit_char (n div 10)) :: nat) \<noteq> of_char (CHR ''0'')" by simp
      then have "digit_char (n div 10) \<noteq> CHR ''0''" by metis
      with small eq show ?thesis by (simp add: js_of_nat.simps [of "n div 10"])
    qed
  qed
qed

lemma of_char_bound: "(of_char c :: nat) < 256"
  by (metis of_char_mod_256 mod_less_divisor zero_less_numeral)

lemma digit_char_is_digit [simp]: "d < 10 \<Longrightarrow> is_digit (digit_char d)"
  by (simp add: is_digit_def)

lemma num_end_digits: "num_end r \<Longrightarrow> list_all is_digit ds \<Longrightarrow> takeWhile is_digit (ds @ r) = ds \<and> dropWhile is_digit (ds @ r) = r"
  by (induction ds) (auto simp: num_end_def split: list.splits)

lemma json_nat_print: "num_end r \<Longrightarrow> json_nat (js_of_nat n @ r) = Some (n, r)"
  using num_end_digits [OF _ js_of_nat_digits, of r n] js_of_nat_no_leading_zero [of n]
  by (auto simp: json_nat_def Let_def)

lemma js_of_nat_first: "\<exists>c t. js_of_nat n = c # t \<and> is_digit c"
  using js_of_nat_digits [of n] js_of_nat_not_Nil [of n] by (cases "js_of_nat n") auto

lemma is_digit_not:
  assumes "is_digit c"
  shows "c \<noteq> q_char" "c \<noteq> CHR ''-''" "c \<noteq> CHR ''[''" "c \<noteq> CHR ''{''" "c \<noteq> CHR '']''" "\<not> json_space c"
    "c \<noteq> CHR ''n''" "c \<noteq> CHR ''t''" "c \<noteq> CHR ''f''"
  using assms by (auto simp: is_digit_def q_char_def json_space_def)

lemma json_word_int: "num_end r \<Longrightarrow> json_word (js_of_int i @ r) = Some (JsInt i, r)"
proof (cases "i < 0")
  case True
  assume "num_end r"
  with True show ?thesis
    by (simp add: js_of_int_def json_word_def json_number_def json_nat_print js_starts_with_prefix)
next
  case False
  assume r: "num_end r"
  obtain c t where ct: "js_of_nat (nat i) = c # t" "is_digit c" using js_of_nat_first by blast
  have "json_nat (c # t @ r) = Some (nat i, r)" using json_nat_print [OF r, of "nat i"] ct by simp
  with False ct is_digit_not [OF ct(2)] show ?thesis
    by (simp add: js_of_int_def json_word_def json_number_def js_starts_with_prefix)
qed

lemma js_of_int_first: "\<exists>c t. js_of_int i = c # t \<and> (is_digit c \<or> c = CHR ''-'')"
  using js_of_nat_first [of "nat i"] by (auto simp: js_of_int_def)

lemma hex_value_digit [simp]: "d < 16 \<Longrightarrow> hex_value (hex_digit d) = Some d"
  by (auto simp: hex_value_def hex_digit_def Let_def)

lemma char_eqI: "(of_char c :: nat) = of_char d \<Longrightarrow> c = d"
  by simp

lemma json_chars_escape: "json_chars (json_escape c @ s) = push_char (Some c) (json_chars s)"
proof -
  let ?n = "of_char c :: nat"
  consider "c = q_char \<or> c = b_char" | "?n = 8" | "?n = 9" | "?n = 10" | "?n = 12" | "?n = 13"
    | (ctrl) "?n < 32" "c \<noteq> q_char" "c \<noteq> b_char" "?n \<notin> {8, 9, 10, 12, 13}"
    | (plain) "\<not> ?n < 32" "c \<noteq> q_char" "c \<noteq> b_char"
    by blast
  then show ?thesis
  proof cases
    case ctrl
    have d: "hex_value (hex_digit (?n div 16)) = Some (?n div 16)"
      and m: "hex_value (hex_digit (?n mod 16)) = Some (?n mod 16)"
      using ctrl(1) by (simp_all add: less_mult_imp_div_less)
    have z: "hex_value (CHR ''0'') = Some 0" by (simp add: hex_value_def Let_def)
    have "hex_char (CHR ''0'') (CHR ''0'') (hex_digit (?n div 16)) (hex_digit (?n mod 16)) = Some c"
      using of_char_bound [of c] by (simp add: hex_char_def d m z del: of_char_mod_256)
    with ctrl show ?thesis by (simp add: json_escape_def Let_def b_char_def q_char_def)
  next
    case plain
    then show ?thesis by (auto simp: json_escape_def Let_def)
  next
    case 2 then have "c = CHR 0x08" by (intro char_eqI) simp
    then show ?thesis by (simp add: json_escape_def json_unescape_def q_char_def b_char_def)
  next
    case 3 then have "c = CHR 0x09" by (intro char_eqI) simp
    then show ?thesis by (simp add: json_escape_def json_unescape_def q_char_def b_char_def)
  next
    case 4 then have "c = CHR 0x0A" by (intro char_eqI) simp
    then show ?thesis by (simp add: json_escape_def json_unescape_def q_char_def b_char_def)
  next
    case 5 then have "c = CHR 0x0C" by (intro char_eqI) simp
    then show ?thesis by (simp add: json_escape_def json_unescape_def q_char_def b_char_def)
  next
    case 6 then have "c = CHR 0x0D" by (intro char_eqI) simp
    then show ?thesis by (simp add: json_escape_def json_unescape_def q_char_def b_char_def)
  next
    case 1
    then show ?thesis by (auto simp: json_escape_def json_unescape_def q_char_def b_char_def)
  qed
qed

lemma json_chars_print: "json_chars (concat (map json_escape s) @ q_char # r) = Some (s, r)"
  by (induction s) (simp_all add: json_chars_escape push_char_def)

lemma skip_ws_simps [simp]:
  "\<not> json_space c \<Longrightarrow> skip_ws (c # s) = c # s" "skip_ws [] = []"
  by (simp_all add: skip_ws_def)

lemma json_space_simps [simp]:
  "\<not> json_space q_char" "\<not> json_space (CHR '':'')" "\<not> json_space (CHR '','')" "\<not> json_space (CHR ''}'')"
  "\<not> json_space (CHR '']'')" "\<not> json_space (CHR ''{'')" "\<not> json_space (CHR ''['')"
  by (simp_all add: json_space_def q_char_def)

lemma q_char_simps [simp]: "q_char \<noteq> CHR ''}''" "q_char \<noteq> CHR '']''" "CHR ''['' \<noteq> q_char" "CHR ''{'' \<noteq> q_char"
  by (simp_all add: q_char_def)

lemma json_print_first: "\<exists>c t. json_print v = c # t \<and> \<not> json_space c \<and> c \<noteq> CHR '']''"
proof (cases v)
  case (JsInt i)
  obtain c t where "js_of_int i = c # t" "is_digit c \<or> c = CHR ''-''" using js_of_int_first by blast
  then show ?thesis using JsInt by (auto simp: json_space_def is_digit_def)
qed (auto simp: json_space_def json_quote_def q_char_def)

definition reads_back :: "json \<Rightarrow> bool" where
  "reads_back v \<longleftrightarrow> (\<forall>n r. length (json_print v) \<le> n \<and> num_end r \<longrightarrow>
     json_value n (json_print v @ r) = Some (v, r))"

lemma reads_backD:
  "reads_back v \<Longrightarrow> length (json_print v) \<le> n \<Longrightarrow> num_end r \<Longrightarrow>
   json_value n (json_print v @ r) = Some (v, r)"
  by (simp add: reads_back_def)

lemma json_elems_print:
  assumes "xs \<noteq> []" "\<forall>x \<in> set xs. reads_back x"
    and "length (js_join '','' (map json_print xs)) < n"
  shows "json_elems n (js_join '','' (map json_print xs) @ CHR '']'' # r) = Some (xs, r)"
  using assms
proof (induction xs arbitrary: n)
  case Nil
  then show ?case by simp
next
  case (Cons x xs)
  obtain m where n: "n = Suc m" using Cons.prems(3) by (cases n) auto
  show ?case
  proof (cases xs)
    case Nil
    have "json_value m (json_print x @ CHR '']'' # r) = Some (x, CHR '']'' # r)"
      by (rule reads_backD) (use Cons.prems n Nil in \<open>auto simp: num_end_def is_digit_def\<close>)
    with Nil n show ?thesis by (simp add: json_space_def)
  next
    case (Cons y ys)
    then have ne: "xs \<noteq> []" by simp
    then have join: "js_join '','' (map json_print (x # xs)) =
        json_print x @ '','' @ js_join '','' (map json_print xs)"
      by (simp add: js_join_Cons)
    let ?r = "js_join '','' (map json_print xs) @ CHR '']'' # r"
    have "json_value m (json_print x @ CHR '','' # ?r) = Some (x, CHR '','' # ?r)"
      by (rule reads_backD) (use Cons.prems n join in \<open>auto simp: num_end_def is_digit_def\<close>)
    moreover have "json_elems m ?r = Some (xs, r)"
      by (rule Cons.IH) (use Cons.prems n join ne in auto)
    ultimately show ?thesis using n join by (simp add: json_space_def)
  qed
qed

abbreviation member_text :: "string \<times> json \<Rightarrow> string" where
  "member_text kv \<equiv> json_quote (fst kv) @ '':'' @ json_print (snd kv)"

lemma json_print_obj: "json_print (JsObj kvs) = ''{'' @ js_join '','' (map member_text kvs) @ ''}''"
  by (simp add: comp_def case_prod_beta)

lemma json_members_print:
  assumes "kvs \<noteq> []" "\<forall>kv \<in> set kvs. reads_back (snd kv)"
    and "length (js_join '','' (map member_text kvs)) < n"
  shows "json_members n (js_join '','' (map member_text kvs) @ CHR ''}'' # r) = Some (kvs, r)"
  using assms
proof (induction kvs arbitrary: n)
  case Nil
  then show ?case by simp
next
  case (Cons kv kvs)
  obtain k v where kv: "kv = (k, v)" by (cases kv)
  obtain m where n: "n = Suc m" using Cons.prems(3) by (cases n) auto
  have step: "json_members n (member_text kv @ c # s) =
      (if c = CHR '','' then map_option (\<lambda>(kvs, u). ((k, v) # kvs, u)) (json_members m s)
       else Some ([(k, v)], s))"
    if "c = CHR '','' \<or> c = CHR ''}''" "length (json_print v) \<le> m" for c s
  proof -
    have "json_value m (json_print v @ c # s) = Some (v, c # s)"
      by (rule reads_backD) (use Cons.prems kv that in \<open>auto simp: num_end_def is_digit_def\<close>)
    with that(1) show ?thesis
      by (auto simp: kv n json_quote_def json_chars_print)
  qed
  show ?case
  proof (cases kvs)
    case Nil
    with Cons.prems n kv step [of "CHR ''}''" r] show ?thesis by (simp del: json_members.simps)
  next
    case (Cons y ys)
    then have ne: "kvs \<noteq> []" by simp
    then have join: "js_join '','' (map member_text (kv # kvs)) =
        member_text kv @ '','' @ js_join '','' (map member_text kvs)"
      by (simp add: js_join_Cons)
    have "json_members m (js_join '','' (map member_text kvs) @ CHR ''}'' # r) = Some (kvs, r)"
      by (rule Cons.IH) (use Cons.prems n join ne in auto)
    with Cons.prems n join kv step [of "CHR '',''" "js_join '','' (map member_text kvs) @ CHR ''}'' # r"]
    show ?thesis by (simp del: json_members.simps)
  qed
qed

lemma json_reads_back: "reads_back v"
proof (induction v)
  case (JsArr xs)
  show ?case
    unfolding reads_back_def
  proof (intro allI impI)
    fix n r assume h: "length (json_print (JsArr xs)) \<le> n \<and> num_end r"
    then obtain m where n: "n = Suc m" by (cases n) auto
    show "json_value n (json_print (JsArr xs) @ r) = Some (JsArr xs, r)"
    proof (cases xs)
      case Nil
      then show ?thesis by (simp add: n json_space_def q_char_def)
    next
      case (Cons x ys)
      obtain c t where ct: "json_print x = c # t" "\<not> json_space c" "c \<noteq> CHR '']''"
        using json_print_first by blast
      have "json_elems m (js_join '','' (map json_print xs) @ CHR '']'' # r) = Some (xs, r)"
        by (rule json_elems_print) (use JsArr Cons h n in auto)
      moreover obtain u where "js_join '','' (map json_print xs) = c # u"
        using Cons ct by (cases ys) auto
      ultimately show ?thesis using ct by (simp add: n json_space_def q_char_def)
    qed
  qed
next
  case (JsObj kvs)
  have ih: "\<forall>kv \<in> set kvs. reads_back (snd kv)"
    using JsObj by (force simp: snds.simps)
  show ?case
    unfolding reads_back_def
  proof (intro allI impI)
    fix n r assume h: "length (json_print (JsObj kvs)) \<le> n \<and> num_end r"
    then obtain m where n: "n = Suc m" by (cases n) auto
    show "json_value n (json_print (JsObj kvs) @ r) = Some (JsObj kvs, r)"
    proof (cases kvs)
      case Nil
      then show ?thesis by (simp add: n json_space_def q_char_def)
    next
      case (Cons kv ys)
      have "json_members m (js_join '','' (map member_text kvs) @ CHR ''}'' # r) = Some (kvs, r)"
        by (rule json_members_print) (use ih Cons h n in \<open>auto simp: json_print_obj simp del: json_print.simps\<close>)
      moreover obtain u where "js_join '','' (map member_text kvs) = q_char # u"
        using Cons by (cases ys) (auto simp: json_quote_def)
      ultimately show ?thesis
        by (simp add: n json_print_obj json_space_def q_char_def del: json_print.simps)
    qed
  qed
next
  case (JsStr s)
  show ?case
    unfolding reads_back_def
  proof (intro allI impI)
    fix n r assume "length (json_print (JsStr s)) \<le> n \<and> num_end r"
    then obtain m where "n = Suc m" by (cases n) (auto simp: json_quote_def)
    then show "json_value n (json_print (JsStr s) @ r) = Some (JsStr s, r)"
      by (simp add: json_quote_def json_chars_print)
  qed
next
  case (JsInt i)
  obtain c t where ct: "js_of_int i = c # t" "is_digit c \<or> c = CHR ''-''" using js_of_int_first by blast
  show ?case
    unfolding reads_back_def
  proof (intro allI impI)
    fix n r assume h: "length (json_print (JsInt i)) \<le> n \<and> num_end r"
    then obtain m where n: "n = Suc m" using ct by (cases n) auto
    have "json_word (c # t @ r) = Some (JsInt i, r)" using json_word_int [of r i] h ct by simp
    then show "json_value n (json_print (JsInt i) @ r) = Some (JsInt i, r)"
      using ct is_digit_not [of c] by (auto simp: n json_space_def q_char_def)
  qed
next
  case JsNull
  have "json_value n (json_print JsNull @ r) = Some (JsNull, r)" if "4 \<le> n" for n r
    using that by (cases n) (simp_all add: json_word_def js_starts_with_def json_space_def q_char_def)
  then show ?case by (simp add: reads_back_def)
next
  case (JsBool b)
  have "json_value n (json_print (JsBool b) @ r) = Some (JsBool b, r)" if "4 \<le> n" for n r
    using that by (cases n; cases b) (simp_all add: json_word_def js_starts_with_def json_space_def q_char_def)
  then show ?case by (cases b) (simp_all add: reads_back_def)
qed

theorem json_parse_print [simp]: "json_parse (json_print v) = Some v"
  using reads_backD [OF json_reads_back [of v], of "length (json_print v)" "[]"]
  by (simp add: json_parse_def num_end_def)

subsection \<open>What parsing leaves, and truncated texts\<close>

lemma push_char_Some: "push_char c r = Some (t, u) \<longleftrightarrow> (\<exists>x t'. c = Some x \<and> r = Some (t', u) \<and> t = x # t')"
  by (auto simp: push_char_def split: option.splits)

lemma json_chars_suffix: "json_chars s = Some (t, u) \<Longrightarrow> suffix u s"
proof (induction "length s" arbitrary: s t rule: less_induct)
  case less
  then obtain c r where s: "s = c # r" by (cases s) auto
  consider (q) "c = q_char" | (plain) "c \<noteq> q_char" "c \<noteq> b_char" | (esc) "c \<noteq> q_char" "c = b_char" by blast
  then show ?case
  proof cases
    case q
    with less.prems s show ?thesis by (simp add: suffix_ConsI)
  next
    case plain
    with less.prems s obtain t' where "json_chars r = Some (t', u)" by (auto simp: push_char_Some split: if_splits)
    then have "suffix u r" using less.hyps [of r t'] s by simp
    with s show ?thesis by (simp add: suffix_ConsI)
  next
    case esc
    with less.prems s obtain p r' t' where r: "r = p @ r'" "json_chars r' = Some (t', u)"
    proof -
      assume a: "\<And>p r' t'. r = p @ r' \<Longrightarrow> json_chars r' = Some (t', u) \<Longrightarrow> thesis"
      obtain e s1 where e: "r = e # s1" using less.prems s esc by (cases r) auto
      show thesis
      proof (cases "e = CHR ''u''")
        case False
        with less.prems s esc e obtain t' where "json_chars s1 = Some (t', u)" by (auto simp: push_char_Some)
        with e show ?thesis by (intro a [of "[e]" s1]) auto
      next
        case True
        with less.prems s esc e obtain h1 h2 h3 h4 s2 t' where
          "s1 = h1 # h2 # h3 # h4 # s2" "json_chars s2 = Some (t', u)"
          by (auto simp: push_char_Some split: list.splits)
        with e show ?thesis by (intro a [of "[e, h1, h2, h3, h4]" s2]) auto
      qed
    qed
    then have "suffix u r'" using less.hyps [of r' t'] s by simp
    with r s show ?thesis by (auto simp: suffix_def)
  qed
qed

lemma skip_ws_suffix: "suffix (skip_ws s) s"
  by (simp add: skip_ws_def suffix_dropWhile)

lemma skip_ws_suffixI: "suffix r (skip_ws s) \<Longrightarrow> suffix r s"
  using skip_ws_suffix suffix_order.trans by blast

lemma skip_ws_Cons: "skip_ws s = c # t \<Longrightarrow> suffix r t \<Longrightarrow> suffix r s"
  by (rule skip_ws_suffixI) (simp add: suffix_ConsI)

lemma json_nat_suffix: "json_nat s = Some (n, r) \<Longrightarrow> suffix r s"
  by (auto simp: json_nat_def Let_def suffix_dropWhile split: if_splits)

lemma json_word_suffix: "json_word s = Some (v, r) \<Longrightarrow> suffix r s"
  by (auto simp: json_word_def json_number_def suffix_drop suffix_Cons dest: json_nat_suffix split: if_splits list.splits)

lemma json_suffix:
  "json_value n s = Some (v, r) \<Longrightarrow> suffix r s"
  "json_elems n s = Some (vs, r) \<Longrightarrow> suffix r s"
  "json_members n s = Some (kvs, r) \<Longrightarrow> suffix (CHR ''}'' # r) s"
proof (induction n s and n s and n s arbitrary: v r and vs r and kvs r rule: json_value_json_elems_json_members.induct)
  case (2 n s)
  show ?case
  proof (cases "skip_ws s")
    case (Cons c t)
    note s = skip_ws_Cons [OF Cons]
    consider "c = q_char" | (arr) "c = CHR ''[''" | (obj) "c = CHR ''{''" | (word) "c \<noteq> q_char" "c \<noteq> CHR ''[''" "c \<noteq> CHR ''{''"
      by blast
    then show ?thesis
    proof cases
      case 1
      with "2.prems" Cons show ?thesis by (auto intro: s dest: json_chars_suffix)
    next
      case arr
      show ?thesis
      proof (cases "skip_ws t")
        case t: (Cons d t')
        have "suffix r (d # t')"
        proof (cases "d = CHR '']''")
          case True
          with "2.prems" Cons arr t show ?thesis by (simp add: suffix_ConsI)
        next
          case False
          with "2.prems" Cons arr t obtain vs where "json_elems n (d # t') = Some (vs, r)" by auto
          then show ?thesis by (rule "2.IH"(1) [OF Cons _ arr t False, rotated]) (simp add: arr)
        qed
        then have "suffix r t" using t by (simp add: skip_ws_suffixI)
        then show ?thesis by (rule s)
      qed (use "2.prems" Cons arr in simp)
    next
      case obj
      show ?thesis
      proof (cases "skip_ws t")
        case t: (Cons d t')
        have "suffix r (d # t')"
        proof (cases "d = CHR ''}''")
          case True
          with "2.prems" Cons obj t show ?thesis by (simp add: suffix_ConsI)
        next
          case False
          with "2.prems" Cons obj t obtain kvs where "json_members n (d # t') = Some (kvs, r)" by auto
          then have "suffix (CHR ''}'' # r) (d # t')" by (rule "2.IH"(2) [OF Cons _ _ obj t False, rotated 2]) (simp_all add: obj)
          then show ?thesis by (rule suffix_ConsD)
        qed
        then have "suffix r t" using t by (simp add: skip_ws_suffixI)
        then show ?thesis by (rule s)
      qed (use "2.prems" Cons obj in simp)
    next
      case word
      with "2.prems" Cons have "suffix r (c # t)" by (auto dest: json_word_suffix)
      with Cons show ?thesis using skip_ws_suffixI [of r s] by simp
    qed
  qed (use "2.prems" in simp)
next
  case (4 n s)
  then obtain v1 r1 c r2 where v: "json_value n s = Some (v1, r1)" "skip_ws r1 = c # r2"
    by (auto split: option.splits list.splits)
  have "suffix r r2"
    using "4.prems" "4.IH"(2) [OF v(1) _ v(2)] v by (auto split: if_splits)
  then have "suffix r r1" by (rule skip_ws_Cons [OF v(2)])
  with "4.IH"(1) [OF v(1)] show ?case by (rule suffix_order.trans [rotated]) 
next
  case (6 n s)
  note c6 = "6.prems"
  from c6 obtain q k r1 r2 v1 r3 c2 r4 where v: "skip_ws s = q_char # q" "json_chars q = Some (k, r1)" "skip_ws r1 = CHR '':'' # r2"
     "json_value n r2 = Some (v1, r3)" "skip_ws r3 = c2 # r4"
    by (auto split: option.splits list.splits if_splits)
  have ih1: "suffix r3 r2"
    by (rule "6.IH"(1) [OF v(1) _ v(2) refl v(3) _ v(4)]) simp_all
  have "suffix (CHR ''}'' # r') r4 \<or> (c2 = CHR ''}'' \<and> r' = r4)" if "json_members (Suc n) s = Some (kvs, r')" for r'
    using that v "6.IH"(2) [OF v(1) _ v(2) refl v(3) _ v(4) refl v(5)] by (auto split: if_splits)
  then have "suffix (CHR ''}'' # r') (c2 # r4)" if "json_members (Suc n) s = Some (kvs, r')" for r'
    using that by (auto intro: suffix_ConsI)
  then have "suffix (CHR ''}'' # r) (skip_ws r3)" using "6.prems" v(5) by simp
  then have "suffix (CHR ''}'' # r) r2" using ih1 skip_ws_suffixI suffix_order.trans by blast
  then have "suffix (CHR ''}'' # r) r1" by (rule skip_ws_Cons [OF v(3)])
  then have "suffix (CHR ''}'' # r) q" using json_chars_suffix [OF v(2)] suffix_order.trans by blast
  then show ?case by (rule skip_ws_Cons [OF v(1)])
qed simp_all

lemma json_object_closed:
  assumes "json_parse (CHR ''{'' # s) \<noteq> None"
  shows "\<exists>u w. s = u @ CHR ''}'' # w \<and> list_all json_space w"
proof -
  obtain n where n: "length (CHR ''{'' # s) = Suc n" by simp
  obtain v r where v: "json_value (Suc n) (CHR ''{'' # s) = Some (v, r)" "skip_ws r = []"
    using assms n by (auto simp: json_parse_def split: option.splits prod.splits if_splits)
  have "suffix (CHR ''}'' # r) (skip_ws s)"
    using v(1) by (auto dest: json_suffix(3) split: list.splits if_splits)
  then have "suffix (CHR ''}'' # r) s" by (rule skip_ws_suffixI)
  moreover have "list_all json_space r"
    using v(2) by (simp add: skip_ws_def list_all_iff dropWhile_eq_Nil_conv)
  ultimately show ?thesis by (auto simp: suffix_def)
qed

lemma truncated_object_unparsable:
  assumes "s \<noteq> []" "0 < k"
  shows "json_parse (take k (json_print (JsObj kvs)) @ s @ '']'') = None"
proof (rule ccontr)
  assume a: "json_parse (take k (json_print (JsObj kvs)) @ s @ '']'') \<noteq> None"
  obtain m where k: "k = Suc m" using assms(2) by (cases k) auto
  obtain t where "json_print (JsObj kvs) = CHR ''{'' # t" by simp
  then have "take k (json_print (JsObj kvs)) @ s @ '']'' = CHR ''{'' # (take m t @ s @ '']'')" by (simp add: k)
  with a obtain u w where w: "take m t @ s @ '']'' = u @ CHR ''}'' # w" "list_all json_space w"
    using json_object_closed by metis
  then have "last (u @ CHR ''}'' # w) = CHR '']''" by (metis append.assoc last_snoc)
  with w(2) show False by (cases w rule: rev_cases) auto
qed

end
