(* ===== verification/Sdk_Storage.thy ===== *)
theory Sdk_Storage
  imports Json
begin

section \<open>Browser storage with a memory fallback\<close>

text \<open>
  \<^verbatim>\<open>sdk/src/storage/storage.ts\<close>: the SDK keeps its state in \<open>localStorage\<close> (and the tab's
  identity in \<open>sessionStorage\<close>), and falls back to a map in memory when the browser refuses.
  The locales \<open>kv_cells\<close> and \<open>kv_store\<close> state what the session manager relies on; they are
  interpreted on both classes.
\<close>

subsection \<open>The browser's side\<close>

text \<open>
  A Web Storage area: access may be blocked altogether (every method throws), and a quota bounds
  the length of all keys and values together (\<open>setItem\<close> throws beyond it).
\<close>

record web_storage =
  ws_items :: "(string \<times> string) list"
  ws_blocked :: bool
  ws_quota :: "nat option"

definition ws_size :: "(string \<times> string) list \<Rightarrow> nat" where
  "ws_size items = sum_list (map (\<lambda>kv. length (fst kv) + length (snd kv)) items)"

definition ws_getItem :: "string \<Rightarrow> web_storage \<Rightarrow> string option option" where
  "ws_getItem k ws = (if ws_blocked ws then None else Some (map_of (ws_items ws) k))"

definition ws_setItem :: "string \<Rightarrow> string \<Rightarrow> web_storage \<Rightarrow> web_storage option" where
  "ws_setItem k v ws =
     (let items = AList.update k v (ws_items ws)
      in if ws_blocked ws \<or> (case ws_quota ws of None \<Rightarrow> False | Some q \<Rightarrow> q < ws_size items) then None
         else Some (ws\<lparr>ws_items := items\<rparr>))"

definition ws_removeItem :: "string \<Rightarrow> web_storage \<Rightarrow> web_storage option" where
  "ws_removeItem k ws =
     (if ws_blocked ws then None else Some (ws\<lparr>ws_items := AList.delete k (ws_items ws)\<rparr>))"

subsection \<open>The class Storage\<close>

(* src: sdk/src/storage/storage.ts:6-10 Storage *)
record sdk_storage =
  st_useMemory :: bool
  st_memory :: "(string \<times> string) list"
  st_area :: web_storage

(* src: sdk/src/storage/storage.ts:6-6 STORAGE_PREFIX *)
definition STORAGE_PREFIX :: string where
  "STORAGE_PREFIX = ''stm_''"

text \<open>A caller cannot tell a stored null from an absent key.\<close>

definition not_null :: "json \<Rightarrow> json option" where
  "not_null v = (if v = JsNull then None else Some v)"

(* src: sdk/src/storage/storage.ts:20-28 testStorage *)
definition testStorage :: "web_storage \<Rightarrow> sdk_storage" where
  "testStorage ws =
     (case ws_setItem (STORAGE_PREFIX @ ''test'') ''test'' ws of
        None \<Rightarrow> \<lparr>st_useMemory = True, st_memory = [], st_area = ws\<rparr>
      | Some ws1 \<Rightarrow>
          (case ws_removeItem (STORAGE_PREFIX @ ''test'') ws1 of
             None \<Rightarrow> \<lparr>st_useMemory = True, st_memory = [], st_area = ws1\<rparr>
           | Some ws2 \<Rightarrow> \<lparr>st_useMemory = False, st_memory = [], st_area = ws2\<rparr>))"

text \<open>
  Reading the memory parses text that \<open>set\<close> wrote there, see \<open>memory_ok\<close> below: the parse
  fails on no reachable state.
\<close>

definition memory_value :: "string \<Rightarrow> sdk_storage \<Rightarrow> json option" where
  "memory_value fullKey st =
     Option.bind (map_of (st_memory st) fullKey) (\<lambda>v. Option.bind (json_parse v) not_null)"

(* src: sdk/src/storage/storage.ts:33-55 Storage.get *)
definition storage_get :: "string \<Rightarrow> sdk_storage \<Rightarrow> json option \<times> sdk_storage" where
  "storage_get key st =
     (let fullKey = STORAGE_PREFIX @ key
      in if st_useMemory st then (memory_value fullKey st, st)
         else (case ws_getItem fullKey (st_area st) of
                 None \<Rightarrow> (memory_value fullKey st, st\<lparr>st_useMemory := True\<rparr>)
               | Some None \<Rightarrow> (None, st)
               | Some (Some v) \<Rightarrow>
                   (case json_parse v of
                      Some j \<Rightarrow> (not_null j, st)
                    | None \<Rightarrow> (memory_value fullKey st, st\<lparr>st_useMemory := True\<rparr>))))"

(* src: sdk/src/storage/storage.ts:60-76 Storage.set *)
definition storage_set :: "string \<Rightarrow> json \<Rightarrow> sdk_storage \<Rightarrow> sdk_storage" where
  "storage_set key v st =
     (let fullKey = STORAGE_PREFIX @ key; data = json_print v
      in if st_useMemory st then st\<lparr>st_memory := AList.update fullKey data (st_memory st)\<rparr>
         else (case ws_setItem fullKey data (st_area st) of
                 Some ws \<Rightarrow> st\<lparr>st_area := ws\<rparr>
               | None \<Rightarrow> st\<lparr>st_useMemory := True, st_memory := AList.update fullKey data (st_memory st)\<rparr>))"

(* src: sdk/src/storage/storage.ts:81-94 Storage.remove *)
definition storage_remove :: "string \<Rightarrow> sdk_storage \<Rightarrow> sdk_storage" where
  "storage_remove key st =
     (let fullKey = STORAGE_PREFIX @ key
      in if st_useMemory st then st\<lparr>st_memory := AList.delete fullKey (st_memory st)\<rparr>
         else (case ws_removeItem fullKey (st_area st) of
                 Some ws \<Rightarrow> st\<lparr>st_area := ws\<rparr>
               | None \<Rightarrow> st\<lparr>st_memory := AList.delete fullKey (st_memory st)\<rparr>))"

(* src: sdk/src/storage/storage.ts:99-118 Storage.clear *)
definition storage_clear :: "sdk_storage \<Rightarrow> sdk_storage" where
  "storage_clear st =
     (if st_useMemory st then st\<lparr>st_memory := []\<rparr>
      else if ws_blocked (st_area st) then st\<lparr>st_memory := []\<rparr>
      else let keysToRemove = filter (\<lambda>k. js_starts_with k STORAGE_PREFIX) (map fst (ws_items (st_area st)))
           in st\<lparr>st_area := (st_area st)\<lparr>ws_items :=
                 fold AList.delete keysToRemove (ws_items (st_area st))\<rparr>\<rparr>)"

(* src: sdk/src/storage/storage.ts:123-125 Storage.isUsingMemory *)
definition isUsingMemory :: "sdk_storage \<Rightarrow> bool" where
  "isUsingMemory st = st_useMemory st"

subsection \<open>The class TabStorage\<close>

(* src: sdk/src/storage/storage.ts:147-168 TabStorage.get *)
definition tab_get :: "string \<Rightarrow> sdk_storage \<Rightarrow> json option \<times> sdk_storage" where
  "tab_get key st =
     (let fullKey = STORAGE_PREFIX @ key
      in if st_useMemory st then (memory_value fullKey st, st)
         else (case ws_getItem fullKey (st_area st) of
                 None \<Rightarrow> (None, st\<lparr>st_useMemory := True\<rparr>)
               | Some None \<Rightarrow> (None, st)
               | Some (Some v) \<Rightarrow>
                   (case json_parse v of
                      Some j \<Rightarrow> (not_null j, st)
                    | None \<Rightarrow> (None, st\<lparr>st_useMemory := True\<rparr>))))"

(* src: sdk/src/storage/storage.ts:170-185 TabStorage.set *)
definition tab_set :: "string \<Rightarrow> json \<Rightarrow> sdk_storage \<Rightarrow> sdk_storage" where
  "tab_set key v st =
     (let fullKey = STORAGE_PREFIX @ key; data = json_print v
      in if st_useMemory st then st\<lparr>st_memory := AList.update fullKey data (st_memory st)\<rparr>
         else (case ws_setItem fullKey data (st_area st) of
                 Some ws \<Rightarrow> st\<lparr>st_area := ws\<rparr>
               | None \<Rightarrow> st\<lparr>st_useMemory := True, st_memory := AList.update fullKey data (st_memory st)\<rparr>))"

lemma tab_set_eq: "tab_set = storage_set"
  by (intro ext) (simp add: tab_set_def storage_set_def)

(* src: sdk/src/storage/storage.ts:189-199 STORAGE_KEYS *)
datatype storage_key = K_session | K_pending | K_tab_id | K_dimensions | K_user_id | K_visitor_id

(* src: sdk/src/storage/storage.ts:189-199 STORAGE_KEYS *)
primrec key_text :: "storage_key \<Rightarrow> string" where
  "key_text K_session = ''session''"
| "key_text K_pending = ''pending''"
| "key_text K_tab_id = ''tab_id''"
| "key_text K_dimensions = ''dimensions''"
| "key_text K_user_id = ''user_id''"
| "key_text K_visitor_id = ''visitor_id''"

lemma key_text_inject [simp]: "key_text j = key_text k \<longleftrightarrow> j = k"
  by (cases j; cases k) simp_all

declare key_text.simps [simp del]

subsection \<open>The interface\<close>

locale kv_cells =
  fixes inv :: "'s \<Rightarrow> bool"
    and get :: "string \<Rightarrow> 's \<Rightarrow> json option \<times> 's"
    and put :: "string \<Rightarrow> json \<Rightarrow> 's \<Rightarrow> 's"
  assumes get_keeps: "inv s \<Longrightarrow> snd (get k s) = s"
    and put_inv: "inv s \<Longrightarrow> inv (put k v s)"
    and get_put_same: "inv s \<Longrightarrow> fst (get k (put k v s)) = not_null v"
    and get_put_other: "inv s \<Longrightarrow> j \<noteq> k \<Longrightarrow> fst (get j (put k v s)) = fst (get j s)"
begin

lemma get_put: "inv s \<Longrightarrow> fst (get j (put k v s)) = (if j = k then not_null v else fst (get j s))"
  by (simp add: get_put_same get_put_other)

lemma puts_inv: "inv s \<Longrightarrow> inv (fold (\<lambda>kv. put (fst kv) (snd kv)) kvs s)"
  by (induction kvs arbitrary: s) (simp_all add: put_inv)

lemma get_pair: "inv s \<Longrightarrow> get k s = (fst (get k s), s)"
  using get_keeps [of s k] by (cases "get k s") simp

end

locale kv_store = kv_cells +
  fixes drop_key :: "string \<Rightarrow> 'a \<Rightarrow> 'a"
  assumes drop_inv: "inv s \<Longrightarrow> inv (drop_key k s)"
    and get_drop_same: "inv s \<Longrightarrow> fst (get k (drop_key k s)) = None"
    and get_drop_other: "inv s \<Longrightarrow> j \<noteq> k \<Longrightarrow> fst (get j (drop_key k s)) = fst (get j s)"
begin

lemma get_drop: "inv s \<Longrightarrow> fst (get j (drop_key k s)) = (if j = k then None else fst (get j s))"
  by (simp add: get_drop_same get_drop_other)

lemma drops_inv: "inv s \<Longrightarrow> inv (fold drop_key ks s)"
  by (induction ks arbitrary: s) (simp_all add: drop_inv)

lemma get_drops: "inv s \<Longrightarrow> fst (get j (fold drop_key ks s)) = (if j \<in> set ks then None else fst (get j s))"
proof (induction ks arbitrary: s)
  case Nil
  then show ?case by simp
next
  case (Cons k ks)
  then show ?case by (simp add: drop_inv get_drop)
qed

end

subsection \<open>The states in which both classes keep the interface\<close>

text \<open>
  Either the fallback is in use, or the browser serves the area without a quota and every value of
  the SDK in it is JSON.
\<close>

definition area_ok :: "web_storage \<Rightarrow> bool" where
  "area_ok ws \<longleftrightarrow> \<not> ws_blocked ws \<and> ws_quota ws = None \<and>
     (\<forall>k v. map_of (ws_items ws) (STORAGE_PREFIX @ k) = Some v \<longrightarrow> json_parse v \<noteq> None)"

definition storage_ok :: "sdk_storage \<Rightarrow> bool" where
  "storage_ok st \<longleftrightarrow> st_useMemory st \<or> area_ok (st_area st)"

lemma area_okD:
  "area_ok ws \<Longrightarrow> ws_getItem k ws = Some (map_of (ws_items ws) k)"
  "area_ok ws \<Longrightarrow> ws_setItem k v ws = Some (ws\<lparr>ws_items := AList.update k v (ws_items ws)\<rparr>)"
  "area_ok ws \<Longrightarrow> ws_removeItem k ws = Some (ws\<lparr>ws_items := AList.delete k (ws_items ws)\<rparr>)"
  "area_ok ws \<Longrightarrow> map_of (ws_items ws) (STORAGE_PREFIX @ j) = Some x \<Longrightarrow> \<exists>y. json_parse x = Some y"
  by (auto simp: area_ok_def ws_getItem_def ws_setItem_def ws_removeItem_def)

lemma area_ok_update: "area_ok ws \<Longrightarrow> area_ok (ws\<lparr>ws_items := AList.update k (json_print v) (ws_items ws)\<rparr>)"
  by (auto simp: area_ok_def)

lemma area_ok_delete: "area_ok ws \<Longrightarrow> area_ok (ws\<lparr>ws_items := AList.delete k (ws_items ws)\<rparr>)"
  by (auto simp: area_ok_def AList.delete_conv split: if_splits)

definition storage_view :: "string \<Rightarrow> sdk_storage \<Rightarrow> json option" where
  "storage_view k st =
     (if st_useMemory st then memory_value (STORAGE_PREFIX @ k) st
      else Option.bind (map_of (ws_items (st_area st)) (STORAGE_PREFIX @ k))
             (\<lambda>v. Option.bind (json_parse v) not_null))"

lemma storage_get_view: "storage_ok st \<Longrightarrow> storage_get k st = (storage_view k st, st)"
proof (cases "st_useMemory st")
  case False
  assume "storage_ok st"
  with False have ok: "area_ok (st_area st)" by (simp add: storage_ok_def)
  show ?thesis
  proof (cases "map_of (ws_items (st_area st)) (STORAGE_PREFIX @ k)")
    case None
    with False ok show ?thesis by (simp add: storage_get_def storage_view_def area_okD)
  next
    case (Some x)
    with area_okD(4) [OF ok Some] False ok show ?thesis
      by (auto simp: storage_get_def storage_view_def area_okD(1))
  qed
qed (simp add: storage_get_def storage_view_def)

lemma storage_set_ok: "storage_ok st \<Longrightarrow> storage_ok (storage_set k v st)"
  by (auto simp: storage_ok_def storage_set_def Let_def area_okD(2) area_ok_update)

lemma storage_remove_ok: "storage_ok st \<Longrightarrow> storage_ok (storage_remove k st)"
  by (auto simp: storage_ok_def storage_remove_def Let_def area_okD(3) area_ok_delete)

lemma storage_view_set:
  "storage_ok st \<Longrightarrow> storage_view j (storage_set k v st) = (if j = k then not_null v else storage_view j st)"
  by (cases "st_useMemory st")
    (auto simp: storage_view_def storage_set_def storage_ok_def memory_value_def Let_def area_okD(2))

lemma storage_view_remove:
  "storage_ok st \<Longrightarrow> storage_view j (storage_remove k st) = (if j = k then None else storage_view j st)"
  by (cases "st_useMemory st")
    (auto simp: storage_view_def storage_remove_def storage_ok_def memory_value_def Let_def area_okD(3) AList.delete_conv)

interpretation local_kv: kv_store storage_ok storage_get storage_set storage_remove
  by unfold_locales
    (simp_all add: storage_get_view storage_set_ok storage_remove_ok storage_view_set storage_view_remove)

lemma storage_set_get:
  "fst (storage_get k (storage_set k v st)) = not_null v"
proof (cases "st_useMemory st")
  case True
  then show ?thesis by (simp add: storage_set_def storage_get_def memory_value_def)
next
  case False
  show ?thesis
  proof (cases "ws_setItem (STORAGE_PREFIX @ k) (json_print v) (st_area st)")
    case None
    with False show ?thesis by (simp add: storage_set_def storage_get_def memory_value_def)
  next
    case (Some ws)
    then have "ws_getItem (STORAGE_PREFIX @ k) ws = Some (Some (json_print v))"
      by (auto simp: ws_setItem_def ws_getItem_def Let_def split: if_splits)
    with Some False show ?thesis by (simp add: storage_set_def storage_get_def)
  qed
qed

lemma tab_get_eq: "storage_ok st \<Longrightarrow> tab_get k st = storage_get k st"
proof (cases "st_useMemory st")
  case False
  assume "storage_ok st"
  with False have ok: "area_ok (st_area st)" by (simp add: storage_ok_def)
  show ?thesis
  proof (cases "map_of (ws_items (st_area st)) (STORAGE_PREFIX @ k)")
    case None
    with False ok show ?thesis by (simp add: storage_get_def tab_get_def area_okD)
  next
    case (Some x)
    with area_okD(4) [OF ok Some] False ok show ?thesis
      by (auto simp: storage_get_def tab_get_def area_okD(1))
  qed
qed (simp add: storage_get_def tab_get_def)

interpretation tab_kv: kv_cells storage_ok tab_get tab_set
  by unfold_locales (simp_all add: tab_get_eq tab_set_eq storage_get_view storage_set_ok storage_view_set)

subsection \<open>Any state: nothing set is lost, and what the fallback hides\<close>

definition memory_ok :: "sdk_storage \<Rightarrow> bool" where
  "memory_ok st \<longleftrightarrow> (\<forall>k v. map_of (st_memory st) k = Some v \<longrightarrow> (\<exists>j. v = json_print j))"

lemma storage_get_memory [simp]: "st_memory (snd (storage_get k st)) = st_memory st"
  by (simp add: storage_get_def Let_def split: option.split)

lemma memory_ok_ops:
  "memory_ok (testStorage ws)"
  "memory_ok st \<Longrightarrow> memory_ok (snd (storage_get k st))"
  "memory_ok st \<Longrightarrow> memory_ok (storage_set k v st)"
  "memory_ok st \<Longrightarrow> memory_ok (storage_remove k st)"
  "memory_ok st \<Longrightarrow> memory_ok (storage_clear st)"
  unfolding memory_ok_def testStorage_def storage_set_def storage_remove_def storage_clear_def Let_def
  by (simp_all add: AList.delete_conv split: option.split) blast

lemma map_of_fold_delete: "map_of (fold AList.delete ks al) k = (if k \<in> set ks then None else map_of al k)"
proof (induction ks arbitrary: al)
  case Nil
  then show ?case by simp
next
  case (Cons j ks)
  then show ?case by (simp add: AList.delete_conv)
qed

text \<open>
  Whatever the browser does (storage blocked, quota used up, values corrupted), a value that was
  set is the value the next get of its key returns; only a stored null reads as absent.
\<close>
theorem storage_set_then_get:
  "fst (storage_get k (storage_set k v st)) = (if v = JsNull then None else Some v)"
  using storage_set_get [of k v st] by (simp add: not_null_def)

text \<open>
  The switch to memory in the middle of a session hides everything written before it: once the
  browser refuses one write, every other key reads as absent, the visitor's identity included.
\<close>
theorem storage_fallback_forgets:
  assumes "\<not> st_useMemory st" and "st_memory st = []"
    and "ws_setItem (STORAGE_PREFIX @ k) (json_print v) (st_area st) = None" and "j \<noteq> k"
  shows "fst (storage_get j (storage_set k v st)) = None"
  using assms by (simp add: storage_set_def storage_get_def memory_value_def)

text \<open>The same happens once a single value that is not JSON was read.\<close>

lemma corrupt_value_forgets:
  assumes "\<not> st_useMemory st" and "st_memory st = []"
    and "map_of (ws_items (st_area st)) (STORAGE_PREFIX @ k) = Some v" and "json_parse v = None"
  shows "fst (storage_get j (snd (storage_get k st))) = None"
proof -
  have "snd (storage_get k st) = st\<lparr>st_useMemory := True\<rparr>"
    using assms by (simp add: storage_get_def ws_getItem_def Let_def)
  then show ?thesis using assms(2) by (simp add: storage_get_def memory_value_def)
qed

definition full_area :: web_storage where
  "full_area = \<lparr>ws_items = [(''stm_visitor_id'', json_print (JsStr ''v1''))], ws_blocked = False, ws_quota = Some 30\<rparr>"

lemma storage_fallback_forgets_witness:
  "fst (storage_get ''visitor_id'' \<lparr>st_useMemory = False, st_memory = [], st_area = full_area\<rparr>) = Some (JsStr ''v1'') \<and>
   fst (storage_get ''visitor_id''
     (storage_set ''pending'' (JsArr []) \<lparr>st_useMemory = False, st_memory = [], st_area = full_area\<rparr>)) = None"
proof -
  let ?st = "\<lparr>st_useMemory = False, st_memory = [], st_area = full_area\<rparr>"
  have f: "ws_setItem (STORAGE_PREFIX @ ''pending'') (json_print (JsArr [])) (st_area ?st) = None"
    by code_simp
  have "fst (storage_get ''visitor_id'' ?st) = Some (JsStr ''v1'')" by code_simp
  then show ?thesis using storage_fallback_forgets [OF _ _ f] by simp
qed

end
