(* ===== verification/Session_State.thy ===== *)
theory Session_State
  imports Sdk_Storage
begin

section \<open>The cumulative actions of a session\<close>

text \<open>
  \<^verbatim>\<open>sdk/src/core/session-state.ts\<close> and \<^verbatim>\<open>sdk/src/types/session-state.ts\<close>: the page views and
  goals of the running session, kept as one growing list that every payload carries whole. The
  clock and the focus-time callback are arguments (\<open>focus\<close> is \<^const>\<open>None\<close> when no callback
  is set); scroll percentages, durations and goal values are integers.
\<close>

subsection \<open>Actions\<close>

(* src: sdk/src/types/session-state.ts:13-21 PageviewAction *)
record pageview_action =
  pa_path :: string
  pa_page_number :: int
  pa_duration :: int
  pa_scroll :: int
  pa_entered_at :: int
  pa_exited_at :: int

(* src: sdk/src/types/session-state.ts:26-34 GoalAction *)
record goal_action =
  ga_name :: string
  ga_path :: string
  ga_page_number :: int
  ga_timestamp :: int
  ga_value :: "int option"
  ga_properties :: "(string \<times> string) list option"

(* src: sdk/src/types/session-state.ts:36-36 Action *)
datatype action = Pageview pageview_action | Goal goal_action

(* src: sdk/src/types/session-state.ts:41-46 CurrentPage *)
record current_page =
  cp_path :: string
  cp_page_number :: int
  cp_entered_at :: int
  cp_scroll :: int

(* src: sdk/src/types/session-state.ts:89-109 SessionPayload *)
record 'attrs session_payload =
  sp_workspace_id :: string
  sp_session_id :: string
  sp_actions :: "action list"
  sp_attributes :: 'attrs
  sp_created_at :: int
  sp_updated_at :: int
  sp_sdk_version :: string
  sp_user_id :: "string option option"
  sp_visitor_id :: "string option"
  sp_dimensions :: "(string \<times> string) list option"

(* src: sdk/src/core/session-state.ts:193-197 buildPayload *)
record payload_options =
  po_userId :: "string option option"
  po_visitorId :: "string option"
  po_dimensions :: "(string \<times> string) list option"

subsection \<open>The state and its operations\<close>

(* src: sdk/src/core/session-state.ts:35-48 SessionState *)
record session_state =
  ss_actions :: "action list"
  ss_current :: "nat option"
  ss_workspace :: string
  ss_session :: string
  ss_created :: int

(* src: sdk/src/core/session-state.ts:27-27 MAX_ACTIONS *)
definition MAX_ACTIONS :: nat where
  "MAX_ACTIONS = 1000"

(* src: sdk/src/core/session-state.ts:44-48 constructor *)
definition session_state_init :: "string \<Rightarrow> string \<Rightarrow> int \<Rightarrow> session_state" where
  "session_state_init workspace sid created =
     \<lparr>ss_actions = [], ss_current = None, ss_workspace = workspace, ss_session = sid, ss_created = created\<rparr>"

(* src: sdk/src/core/session-state.ts:325-325 getNextPageNumber *)
definition action_page_number :: "action \<Rightarrow> int" where
  "action_page_number a = (case a of Pageview p \<Rightarrow> pa_page_number p | Goal g \<Rightarrow> ga_page_number g)"

text \<open>The page view the index points at: an index out of range reads as undefined.\<close>

(* src: sdk/src/core/session-state.ts:71-73 getCurrentPage *)
definition current_pageview :: "session_state \<Rightarrow> (nat \<times> pageview_action) option" where
  "current_pageview s =
     (case ss_current s of
        None \<Rightarrow> None
      | Some i \<Rightarrow> if i < length (ss_actions s)
                  then (case ss_actions s ! i of Pageview p \<Rightarrow> Some (i, p) | Goal _ \<Rightarrow> None) else None)"

(* src: sdk/src/core/session-state.ts:70-81 getCurrentPage *)
definition getCurrentPage :: "session_state \<Rightarrow> current_page option" where
  "getCurrentPage s =
     map_option (\<lambda>ip. \<lparr>cp_path = pa_path (snd ip), cp_page_number = pa_page_number (snd ip),
        cp_entered_at = pa_entered_at (snd ip), cp_scroll = pa_scroll (snd ip)\<rparr>) (current_pageview s)"

(* src: sdk/src/core/session-state.ts:306-315 finalizeCurrentPageDuration *)
definition finalizeCurrentPageDuration :: "int option \<Rightarrow> int \<Rightarrow> session_state \<Rightarrow> session_state" where
  "finalizeCurrentPageDuration focus exitTime s =
     (case current_pageview s of
        None \<Rightarrow> s
      | Some (i, p) \<Rightarrow>
          s\<lparr>ss_actions := (ss_actions s)[i :=
              Pageview (p\<lparr>pa_duration := js_nullish focus 0, pa_exited_at := exitTime\<rparr>)]\<rparr>)"

(* src: sdk/src/core/session-state.ts:317-328 getNextPageNumber *)
definition getNextPageNumber :: "action list \<Rightarrow> int" where
  "getNextPageNumber acts =
     fold (\<lambda>a m. if m < action_page_number a then action_page_number a else m) acts 0 + 1"

(* src: sdk/src/core/session-state.ts:85-123 addPageview *)
definition addPageview :: "int option \<Rightarrow> int \<Rightarrow> string \<Rightarrow> session_state \<Rightarrow> session_state" where
  "addPageview focus now path s =
     (if MAX_ACTIONS \<le> length (ss_actions s) then s
      else let s1 = (if ss_current s \<noteq> None then finalizeCurrentPageDuration focus now s else s);
               pageview = \<lparr>pa_path = path, pa_page_number = getNextPageNumber (ss_actions s1),
                 pa_duration = 0, pa_scroll = 0, pa_entered_at = now, pa_exited_at = now\<rparr>;
               acts = ss_actions s1 @ [Pageview pageview]
           in s1\<lparr>ss_actions := acts, ss_current := Some (length acts - 1)\<rparr>)"

(* src: sdk/src/core/session-state.ts:125-138 updateScroll *)
definition updateScroll :: "int \<Rightarrow> session_state \<Rightarrow> session_state" where
  "updateScroll scrollPercent s =
     (case current_pageview s of
        None \<Rightarrow> s
      | Some (i, p) \<Rightarrow>
          (let clamped = max 0 (min 100 scrollPercent)
           in if pa_scroll p < clamped
              then s\<lparr>ss_actions := (ss_actions s)[i := Pageview (p\<lparr>pa_scroll := clamped\<rparr>)]\<rparr> else s))"

text \<open>
  The cast in \<open>addGoal\<close> reads path and page number of whatever action the index points at;
  an empty path counts as absent, and so does page number zero.
\<close>

(* src: sdk/src/core/session-state.ts:142-187 addGoal *)
definition addGoal ::
    "int \<Rightarrow> string \<Rightarrow> int option \<Rightarrow> (string \<times> string) list option \<Rightarrow> session_state \<Rightarrow> bool \<times> session_state" where
  "addGoal now name value properties s =
     (if MAX_ACTIONS \<le> length (ss_actions s) then (False, s)
      else let pointed = (case ss_current s of
                 Some i \<Rightarrow> if i < length (ss_actions s) then Some (ss_actions s ! i) else None
               | None \<Rightarrow> None);
               path = (case pointed of Some (Pageview p) \<Rightarrow> pa_path p | Some (Goal g) \<Rightarrow> ga_path g | None \<Rightarrow> []);
               number = (case pointed of Some a \<Rightarrow> action_page_number a | None \<Rightarrow> 0);
               goal = \<lparr>ga_name = name, ga_path = js_or path ''/'',
                 ga_page_number = (if number = 0 then 1 else number), ga_timestamp = now,
                 ga_value = value, ga_properties = properties\<rparr>
           in (True, s\<lparr>ss_actions := ss_actions s @ [Goal goal]\<rparr>))"

(* src: sdk/src/core/session-state.ts:191-236 buildPayload *)
definition buildPayload ::
    "string \<Rightarrow> int option \<Rightarrow> int \<Rightarrow> 'attrs \<Rightarrow> payload_options option \<Rightarrow> session_state
       \<Rightarrow> 'attrs session_payload \<times> session_state" where
  "buildPayload version focus now attributes options s =
     (let s1 = finalizeCurrentPageDuration focus now s
      in (\<lparr>sp_workspace_id = ss_workspace s1, sp_session_id = ss_session s1, sp_actions = ss_actions s1,
           sp_attributes = attributes, sp_created_at = ss_created s1, sp_updated_at = now,
           sp_sdk_version = version,
           sp_user_id = Option.bind options po_userId,
           sp_visitor_id = (case Option.bind options po_visitorId of
              Some v \<Rightarrow> if v = [] then None else Some v | None \<Rightarrow> None),
           sp_dimensions = Option.bind options po_dimensions\<rparr>, s1))"

(* src: sdk/src/core/session-state.ts:240-252 finalizeForUnload *)
definition finalizeForUnload :: "int option \<Rightarrow> int \<Rightarrow> session_state \<Rightarrow> session_state" where
  "finalizeForUnload focus now s =
     (if ss_current s = None then s
      else (finalizeCurrentPageDuration focus now s)\<lparr>ss_current := None\<rparr>)"

inductive session_step :: "session_state \<Rightarrow> session_state \<Rightarrow> bool" where
  pageview: "session_step s (addPageview focus now path s)"
| scroll: "session_step s (updateScroll percent s)"
| goal: "session_step s (snd (addGoal now name value properties s))"
| payload: "session_step s (snd (buildPayload version focus now (attributes :: unit) options s))"
| unload: "session_step s (finalizeForUnload focus now s)"

inductive_cases session_stepE: "session_step s t"

inductive session_steps :: "session_state \<Rightarrow> session_state \<Rightarrow> bool" where
  none: "session_steps s s"
| more: "session_steps s t \<Longrightarrow> session_step t u \<Longrightarrow> session_steps s u"

subsection \<open>The invariant\<close>

definition pageviews :: "action list \<Rightarrow> pageview_action list" where
  "pageviews acts = List.map_filter (\<lambda>a. case a of Pageview p \<Rightarrow> Some p | Goal _ \<Rightarrow> None) acts"

definition goals :: "action list \<Rightarrow> goal_action list" where
  "goals acts = List.map_filter (\<lambda>a. case a of Goal g \<Rightarrow> Some g | Pageview _ \<Rightarrow> None) acts"

lemma pageviews_simps [simp]:
  "pageviews [] = []" "pageviews (as @ bs) = pageviews as @ pageviews bs"
  "pageviews (Pageview p # as) = p # pageviews as" "pageviews (Goal g # as) = pageviews as"
  by (simp_all add: pageviews_def List.map_filter_def)

lemma goals_simps [simp]:
  "goals [] = []" "goals (as @ bs) = goals as @ goals bs"
  "goals (Pageview p # as) = goals as" "goals (Goal g # as) = g # goals as"
  by (simp_all add: goals_def List.map_filter_def)

lemma set_pageviews [simp]: "set (pageviews acts) = {p. Pageview p \<in> set acts}"
  by (induction acts) (auto simp: pageviews_def map_filter_simps split: action.splits)

text \<open>
  At most 1000 actions; the current index points at a page view; scroll percentages are between 0
  and 100; page numbers are positive, and those of the page views grow strictly, each page above
  every action recorded before it.
\<close>

definition numbers_ok :: "action list \<Rightarrow> bool" where
  "numbers_ok acts \<longleftrightarrow>
     (\<forall>a \<in> set acts. 1 \<le> action_page_number a) \<and>
     (\<forall>as p bs. acts = as @ Pageview p # bs \<longrightarrow> (\<forall>a \<in> set as. action_page_number a < pa_page_number p))"

definition session_ok :: "session_state \<Rightarrow> bool" where
  "session_ok s \<longleftrightarrow>
     length (ss_actions s) \<le> MAX_ACTIONS \<and>
     (ss_current s \<noteq> None \<longrightarrow> current_pageview s \<noteq> None) \<and>
     (\<forall>p \<in> set (pageviews (ss_actions s)). 0 \<le> pa_scroll p \<and> pa_scroll p \<le> 100) \<and>
     numbers_ok (ss_actions s)"

lemma numbers_ok_snoc:
  "numbers_ok (as @ [a]) \<longleftrightarrow> numbers_ok as \<and> 1 \<le> action_page_number a \<and>
     (case a of Pageview p \<Rightarrow> \<forall>b \<in> set as. action_page_number b < pa_page_number p | Goal _ \<Rightarrow> True)"
proof -
  have split: "(\<forall>xs p ys. as @ [a] = xs @ Pageview p # ys \<longrightarrow> Q xs p) \<longleftrightarrow>
      (\<forall>xs p ys. as = xs @ Pageview p # ys \<longrightarrow> Q xs p) \<and> (\<forall>p. a = Pageview p \<longrightarrow> Q as p)" for Q
  proof (intro iffI allI impI conjI; (elim conjE)?)
    fix xs p ys assume *: "\<forall>xs p ys. as @ [a] = xs @ Pageview p # ys \<longrightarrow> Q xs p"
    { assume "as = xs @ Pageview p # ys" with * show "Q xs p" by fastforce }
    { assume "a = Pageview p" with * show "Q as p" by blast }
  next
    fix xs p ys
    assume "\<forall>xs p ys. as = xs @ Pageview p # ys \<longrightarrow> Q xs p" "\<forall>p. a = Pageview p \<longrightarrow> Q as p"
      "as @ [a] = xs @ Pageview p # ys"
    then show "Q xs p" by (cases ys rule: rev_cases) auto
  qed
  show ?thesis
    unfolding numbers_ok_def split by (auto split: action.splits)
qed

lemma fold_max_bound:
  "m \<le> fold (\<lambda>a m. if m < action_page_number a then action_page_number a else m) acts m \<and>
   (\<forall>a \<in> set acts. action_page_number a \<le> fold (\<lambda>a m. if m < action_page_number a then action_page_number a else m) acts m)"
proof (induction acts arbitrary: m)
  case Nil
  then show ?case by simp
next
  case (Cons a acts)
  show ?case using Cons [of m] Cons [of "action_page_number a"] by auto
qed

lemma getNextPageNumber_above: "a \<in> set acts \<Longrightarrow> action_page_number a < getNextPageNumber acts"
  using fold_max_bound [of 0 acts] by (auto simp: getNextPageNumber_def)

lemma getNextPageNumber_pos: "1 \<le> getNextPageNumber acts"
  using fold_max_bound [of 0 acts] by (simp add: getNextPageNumber_def)

text \<open>Replacing a page view by one of the same path and number.\<close>

definition same_page :: "action \<Rightarrow> action \<Rightarrow> bool" where
  "same_page a b \<longleftrightarrow>
     (case (a, b) of
        (Pageview p, Pageview q) \<Rightarrow> pa_path p = pa_path q \<and> pa_page_number p = pa_page_number q \<and>
           pa_entered_at p = pa_entered_at q \<and> pa_scroll p \<le> pa_scroll q
      | (Goal g, Goal h) \<Rightarrow> g = h
      | _ \<Rightarrow> False)"

lemma same_page_refl [simp]: "same_page a a"
  by (simp add: same_page_def split: action.splits)

lemma same_page_trans: "same_page a b \<Longrightarrow> same_page b c \<Longrightarrow> same_page a c"
  by (auto simp: same_page_def split: action.splits)

lemma same_page_number: "same_page a b \<Longrightarrow> action_page_number a = action_page_number b"
  by (auto simp: same_page_def action_page_number_def split: action.splits)

lemma current_pageview_Some:
  "current_pageview s = Some (i, p) \<longleftrightarrow>
     ss_current s = Some i \<and> i < length (ss_actions s) \<and> ss_actions s ! i = Pageview p"
  by (auto simp: current_pageview_def split: option.splits action.splits if_splits)

text \<open>A list that continues another: the old actions stay in place, page views at most updated.\<close>

definition continues :: "action list \<Rightarrow> action list \<Rightarrow> bool" where
  "continues as bs \<longleftrightarrow> length as \<le> length bs \<and> (\<forall>i < length as. same_page (as ! i) (bs ! i))"

lemma continues_refl [simp]: "continues as as"
  by (simp add: continues_def)

lemma continues_trans: "continues as bs \<Longrightarrow> continues bs cs \<Longrightarrow> continues as cs"
  by (auto simp: continues_def intro: same_page_trans)

lemma continues_append [simp]: "continues as (as @ bs)"
  by (simp add: continues_def nth_append)

lemma continues_update:
  "i < length as \<Longrightarrow> same_page (as ! i) a \<Longrightarrow> continues as (as[i := a])"
  by (simp add: continues_def nth_list_update)

lemma finalize_continues:
  "continues (ss_actions s) (ss_actions (finalizeCurrentPageDuration focus now s))"
  by (auto simp: finalizeCurrentPageDuration_def current_pageview_Some same_page_def
      split: option.splits intro!: continues_update)

lemma numbers_ok_update:
  assumes "numbers_ok acts" "i < length acts" "same_page (acts ! i) a"
  shows "numbers_ok (acts[i := a])"
proof -
  have nth: "action_page_number (acts[i := a] ! j) = action_page_number (acts ! j)" if "j < length acts" for j
    using that assms same_page_number by (cases "i = j") auto
  have page: "\<exists>q. acts ! j = Pageview q \<and> pa_page_number q = pa_page_number p"
    if "j < length acts" "acts[i := a] ! j = Pageview p" for j p
    using that assms by (cases "i = j") (auto simp: same_page_def split: action.splits)
  show ?thesis
    unfolding numbers_ok_def
  proof (intro conjI allI impI ballI)
    fix b assume "b \<in> set (acts[i := a])"
    then obtain j where "j < length acts" "b = acts[i := a] ! j" by (metis in_set_conv_nth length_list_update)
    with nth assms(1) show "1 \<le> action_page_number b" by (simp add: numbers_ok_def)
  next
    fix as p bs b assume eq: "acts[i := a] = as @ Pageview p # bs" and b: "b \<in> set as"
    have len: "length as < length acts" by (metis eq length_list_update length_append less_add_same_cancel1 length_Cons zero_less_Suc)
    obtain q where q: "acts ! length as = Pageview q" "pa_page_number q = pa_page_number p"
      using page [OF len, of p] eq by auto
    obtain j where j: "j < length as" "b = as ! j" using b by (metis in_set_conv_nth)
    have "acts = take (length as) acts @ Pageview q # drop (Suc (length as)) acts"
      using id_take_nth_drop [OF len] q(1) by simp
    then have "\<forall>c \<in> set (take (length as) acts). action_page_number c < pa_page_number q"
      using assms(1) unfolding numbers_ok_def by blast
    moreover have "acts ! j \<in> set (take (length as) acts)"
      using j len by (metis in_set_conv_nth length_take min.absorb4 nth_take)
    ultimately have "action_page_number (acts ! j) < pa_page_number p" using q by simp
    moreover have "b = acts[i := a] ! j" using eq j by (simp add: nth_append)
    ultimately show "action_page_number b < pa_page_number p" using nth [of j] j len by simp
  qed
qed

lemma session_ok_update:
  assumes "session_ok s" "current_pageview s = Some (i, p)" "same_page (Pageview p) (Pageview q)" "pa_scroll q \<le> 100"
  shows "session_ok (s\<lparr>ss_actions := (ss_actions s)[i := Pageview q]\<rparr>)"
proof -
  have "numbers_ok ((ss_actions s)[i := Pageview q])"
    using assms by (intro numbers_ok_update) (auto simp: session_ok_def current_pageview_Some)
  moreover have "0 \<le> pa_scroll q"
    using assms by (force simp: session_ok_def current_pageview_Some same_page_def dest: nth_mem)
  moreover have "current_pageview (s\<lparr>ss_actions := (ss_actions s)[i := Pageview q]\<rparr>) = Some (i, q)"
    using assms(2) by (simp add: current_pageview_Some)
  ultimately show ?thesis
    using assms by (auto simp: session_ok_def dest!: set_update_subset_insert [THEN subsetD])
qed

lemma finalize_ok: "session_ok s \<Longrightarrow> session_ok (finalizeCurrentPageDuration focus now s)"
proof (cases "current_pageview s")
  case (Some ip)
  assume ok: "session_ok s"
  obtain i p where ip: "current_pageview s = Some (i, p)" using Some by (cases ip) simp
  then have "pa_scroll p \<le> 100" using ok by (force simp: session_ok_def current_pageview_Some dest: nth_mem)
  with ok ip show ?thesis
    by (simp add: finalizeCurrentPageDuration_def) (rule session_ok_update, auto simp: same_page_def)
qed (simp add: finalizeCurrentPageDuration_def)

lemma finalize_length [simp]:
  "length (ss_actions (finalizeCurrentPageDuration focus now s)) = length (ss_actions s)"
  by (simp add: finalizeCurrentPageDuration_def split: option.split)

lemma addPageview_ok: "session_ok s \<Longrightarrow> session_ok (addPageview focus now path s)"
proof -
  assume ok: "session_ok s"
  show ?thesis
  proof (cases "MAX_ACTIONS \<le> length (ss_actions s)")
    case True
    with ok show ?thesis by (simp add: addPageview_def)
  next
    case False
    define t where "t = (if ss_current s \<noteq> None then finalizeCurrentPageDuration focus now s else s)"
    have t: "session_ok t" and len: "length (ss_actions t) < MAX_ACTIONS"
      using ok False by (simp_all add: t_def finalize_ok)
    let ?p = "\<lparr>pa_path = path, pa_page_number = getNextPageNumber (ss_actions t), pa_duration = 0,
      pa_scroll = 0, pa_entered_at = now, pa_exited_at = now\<rparr>"
    have "numbers_ok (ss_actions t @ [Pageview ?p])"
      using t getNextPageNumber_above getNextPageNumber_pos
      by (simp add: numbers_ok_snoc session_ok_def action_page_number_def)
    moreover have "addPageview focus now path s =
        t\<lparr>ss_actions := ss_actions t @ [Pageview ?p], ss_current := Some (length (ss_actions t))\<rparr>"
      using False by (simp add: addPageview_def t_def Let_def)
    ultimately show ?thesis
      using t len by (auto simp: session_ok_def current_pageview_def)
  qed
qed

lemma updateScroll_ok: "session_ok s \<Longrightarrow> session_ok (updateScroll percent s)"
proof (cases "current_pageview s")
  case (Some ip)
  assume ok: "session_ok s"
  obtain i p where ip: "current_pageview s = Some (i, p)" using Some by (cases ip) simp
  show ?thesis
  proof (cases "pa_scroll p < max 0 (min 100 percent)")
    case True
    with ok ip show ?thesis
      by (simp add: updateScroll_def Let_def) (rule session_ok_update, auto simp: same_page_def)
  next
    case False
    with ok ip show ?thesis by (simp add: updateScroll_def Let_def)
  qed
qed (simp add: updateScroll_def)

lemma addGoal_ok: "session_ok s \<Longrightarrow> session_ok (snd (addGoal now name value properties s))"
proof -
  assume ok: "session_ok s"
  have cur: "1 \<le> action_page_number (ss_actions s ! i)"
    if "i < length (ss_actions s)" for i
    using ok that by (simp add: session_ok_def numbers_ok_def)
  have grow: "session_ok (s\<lparr>ss_actions := ss_actions s @ [Goal g]\<rparr>)"
    if "length (ss_actions s) < MAX_ACTIONS" "1 \<le> ga_page_number g" for g
    using ok that
    by (auto simp: session_ok_def numbers_ok_snoc action_page_number_def current_pageview_def nth_append
        split: option.splits if_splits action.splits)
  show ?thesis
    using ok cur by (auto simp: addGoal_def Let_def intro!: grow split: option.splits if_splits)
qed

lemma payload_state: "snd (buildPayload version focus now attributes options s) = finalizeCurrentPageDuration focus now s"
  by (simp add: buildPayload_def Let_def)

lemma finalizeForUnload_ok: "session_ok s \<Longrightarrow> session_ok (finalizeForUnload focus now s)"
  using finalize_ok [of s focus now] by (simp add: finalizeForUnload_def session_ok_def)

lemmas session_ops_ok = addPageview_ok updateScroll_ok addGoal_ok finalize_ok finalizeForUnload_ok

lemma session_step_ok: "session_step s t \<Longrightarrow> session_ok s \<Longrightarrow> session_ok t"
  by (erule session_stepE) (simp_all add: session_ops_ok payload_state)

lemma session_steps_ok: "session_steps s t \<Longrightarrow> session_ok s \<Longrightarrow> session_ok t"
  by (induction rule: session_steps.induct) (simp_all add: session_step_ok)

lemma session_init_ok: "session_ok (session_state_init workspace sid created)"
  by (simp add: session_ok_def session_state_init_def numbers_ok_def)

lemma session_step_continues:
  assumes "session_step s t"
  shows "continues (ss_actions s) (ss_actions t)"
  using assms
proof (cases rule: session_step.cases)
  case (pageview focus now path)
  then show ?thesis
    using finalize_continues [of s focus now]
    by (auto simp: addPageview_def Let_def intro: continues_trans)
next
  case (scroll percent)
  then show ?thesis
    by (auto simp: updateScroll_def current_pageview_Some same_page_def Let_def
        split: option.splits intro!: continues_update)
next
  case (goal now name val properties)
  then show ?thesis by (simp add: addGoal_def Let_def)
next
  case (payload version focus now options)
  then show ?thesis by (simp add: payload_state finalize_continues)
next
  case (unload focus now)
  then show ?thesis by (simp add: finalizeForUnload_def finalize_continues)
qed

lemma session_steps_continue: "session_steps s t \<Longrightarrow> continues (ss_actions s) (ss_actions t)"
  by (induction rule: session_steps.induct) (auto intro: continues_trans session_step_continues)


subsection \<open>Persistence\<close>

(* src: sdk/src/core/session-state.ts:25-25 STORAGE_KEY *)
definition STATE_KEY :: string where
  "STATE_KEY = ''stm_session_state''"

primrec action_json :: "action \<Rightarrow> json" where
  "action_json (Pageview p) =
     JsObj [(''type'', JsStr ''pageview''), (''path'', JsStr (pa_path p)), (''page_number'', JsInt (pa_page_number p)),
       (''duration'', JsInt (pa_duration p)), (''scroll'', JsInt (pa_scroll p)),
       (''entered_at'', JsInt (pa_entered_at p)), (''exited_at'', JsInt (pa_exited_at p))]"
| "action_json (Goal g) =
     JsObj ([(''type'', JsStr ''goal''), (''name'', JsStr (ga_name g)), (''path'', JsStr (ga_path g)),
       (''page_number'', JsInt (ga_page_number g)), (''timestamp'', JsInt (ga_timestamp g))] @
       (case ga_value g of None \<Rightarrow> [] | Some v \<Rightarrow> [(''value'', JsInt v)]) @
       (case ga_properties g of None \<Rightarrow> []
        | Some ps \<Rightarrow> [(''properties'', JsObj (map (\<lambda>kv. (fst kv, JsStr (snd kv))) ps))]))"

definition as_string :: "json option \<Rightarrow> string option" where
  "as_string v = (case v of Some (JsStr s) \<Rightarrow> Some s | _ \<Rightarrow> None)"

definition as_int :: "json option \<Rightarrow> int option" where
  "as_int v = (case v of Some (JsInt i) \<Rightarrow> Some i | _ \<Rightarrow> None)"

fun all_some :: "'a option list \<Rightarrow> 'a list option" where
  "all_some [] = Some []"
| "all_some (None # xs) = None"
| "all_some (Some x # xs) = map_option (Cons x) (all_some xs)"

definition as_properties :: "json \<Rightarrow> (string \<times> string) list option" where
  "as_properties v =
     (case v of
        JsObj kvs \<Rightarrow> all_some (map (\<lambda>kv. map_option (Pair (fst kv)) (as_string (Some (snd kv)))) kvs)
      | _ \<Rightarrow> None)"

text \<open>A parsed object seen as an action; \<^const>\<open>None\<close> when it has not the fields of one.\<close>

definition action_of_json :: "json \<Rightarrow> action option" where
  "action_of_json v =
     (let str = (\<lambda>k. as_string (json_field v k)); num = (\<lambda>k. as_int (json_field v k))
      in if str ''type'' = Some ''pageview'' then
           (case (str ''path'', num ''page_number'', num ''duration'', num ''scroll'', num ''entered_at'', num ''exited_at'') of
              (Some pt, Some n, Some d, Some sc, Some en, Some ex) \<Rightarrow>
                Some (Pageview \<lparr>pa_path = pt, pa_page_number = n, pa_duration = d, pa_scroll = sc,
                  pa_entered_at = en, pa_exited_at = ex\<rparr>)
            | _ \<Rightarrow> None)
         else if str ''type'' = Some ''goal'' then
           (case (str ''name'', str ''path'', num ''page_number'', num ''timestamp'') of
              (Some nm, Some pt, Some n, Some ts) \<Rightarrow>
                Some (Goal \<lparr>ga_name = nm, ga_path = pt, ga_page_number = n, ga_timestamp = ts,
                  ga_value = num ''value'', ga_properties = Option.bind (json_field v ''properties'') as_properties\<rparr>)
            | _ \<Rightarrow> None)
         else None)"

definition snapshot_json :: "session_state \<Rightarrow> json" where
  "snapshot_json s =
     JsObj [(''session_id'', JsStr (ss_session s)), (''actions'', JsArr (map action_json (ss_actions s))),
       (''currentPageIndex'', (case ss_current s of None \<Rightarrow> JsNull | Some i \<Rightarrow> JsInt (int i)))]"

(* src: sdk/src/core/session-state.ts:256-274 persist *)
definition persist :: "session_state \<Rightarrow> web_storage \<Rightarrow> web_storage" where
  "persist s ws =
     (case ws_setItem STATE_KEY (json_print (snapshot_json s)) ws of None \<Rightarrow> ws | Some ws1 \<Rightarrow> ws1)"

text \<open>
  The exception that escapes \<open>restore\<close>, and the stored objects outside the model: JSON of this
  session whose actions or index have other types than the SDK writes.
\<close>

datatype restore_error = Storage_blocked | Ill_typed_snapshot

definition remove_state :: "web_storage \<Rightarrow> restore_error + web_storage" where
  "remove_state ws = (case ws_removeItem STATE_KEY ws of None \<Rightarrow> Inl Storage_blocked | Some ws1 \<Rightarrow> Inr ws1)"

definition restored_actions :: "json \<Rightarrow> action list option" where
  "restored_actions data =
     (case json_field data ''actions'' of
        None \<Rightarrow> Some [] | Some JsNull \<Rightarrow> Some []
      | Some (JsArr vs) \<Rightarrow> all_some (map action_of_json vs)
      | _ \<Rightarrow> None)"

definition restored_index :: "json \<Rightarrow> nat option option" where
  "restored_index data =
     (case json_field data ''currentPageIndex'' of
        None \<Rightarrow> Some None | Some JsNull \<Rightarrow> Some None
      | Some (JsInt i) \<Rightarrow> if 0 \<le> i then Some (Some (nat i)) else None
      | _ \<Rightarrow> None)"

(* src: sdk/src/core/session-state.ts:276-298 restore *)
definition restore :: "web_storage \<Rightarrow> session_state \<Rightarrow> restore_error + session_state \<times> web_storage" where
  "restore ws s =
     (case ws_getItem STATE_KEY ws of
        None \<Rightarrow> res_bind (remove_state ws) (\<lambda>ws1. Inr (s, ws1))
      | Some None \<Rightarrow> Inr (s, ws)
      | Some (Some stored) \<Rightarrow>
          if stored = [] then Inr (s, ws)
          else (case json_parse stored of
                  None \<Rightarrow> res_bind (remove_state ws) (\<lambda>ws1. Inr (s, ws1))
                | Some data \<Rightarrow>
                    if as_string (json_field data ''session_id'') \<noteq> Some (ss_session s)
                    then res_bind (remove_state ws) (\<lambda>ws1. Inr (s, ws1))
                    else (case (restored_actions data, restored_index data) of
                            (Some acts, Some cur) \<Rightarrow> Inr (s\<lparr>ss_actions := acts, ss_current := cur\<rparr>, ws)
                          | _ \<Rightarrow> Inl Ill_typed_snapshot)))"

lemma all_some_map: "(\<And>x. x \<in> set xs \<Longrightarrow> f x = Some (g x)) \<Longrightarrow> all_some (map f xs) = Some (map g xs)"
  by (induction xs) auto

lemma as_properties_json: "as_properties (JsObj (map (\<lambda>kv. (fst kv, JsStr (snd kv))) ps)) = Some ps"
  using all_some_map [of ps "\<lambda>kv. Some kv" "\<lambda>kv. kv"] by (simp add: as_properties_def as_string_def comp_def)

lemma action_json_roundtrip: "action_of_json (action_json a) = Some a"
proof (cases a)
  case (Pageview p)
  then show ?thesis by (simp add: action_of_json_def json_field_def as_string_def as_int_def)
next
  case (Goal g)
  then show ?thesis
    by (cases "ga_value g"; cases "ga_properties g")
      (simp_all add: action_of_json_def json_field_def as_string_def as_int_def as_properties_json
        flip: goal_action.surjective)
qed

lemma snapshot_fields:
  "as_string (json_field (snapshot_json s) ''session_id'') = Some (ss_session s)"
  "restored_actions (snapshot_json s) = Some (ss_actions s)"
  "restored_index (snapshot_json s) = Some (ss_current s)"
proof -
  show "as_string (json_field (snapshot_json s) ''session_id'') = Some (ss_session s)"
    by (simp add: snapshot_json_def json_field_def as_string_def)
  have "all_some (map action_of_json (map action_json (ss_actions s))) = Some (ss_actions s)"
    using all_some_map [of "ss_actions s" "\<lambda>a. action_of_json (action_json a)" "\<lambda>a. a"]
    by (simp add: action_json_roundtrip comp_def)
  then show "restored_actions (snapshot_json s) = Some (ss_actions s)"
    by (simp add: restored_actions_def snapshot_json_def json_field_def)
  show "restored_index (snapshot_json s) = Some (ss_current s)"
    by (cases "ss_current s") (simp_all add: restored_index_def snapshot_json_def json_field_def)
qed

subsection \<open>Properties\<close>

text \<open>
  C29: Every state the operations reach from a new session satisfies the invariant: at most 1000
  actions, an index that points at a page view, scroll percentages within 0 and 100, and each page
  view numbered above everything recorded before it. The recorded list only grows: every
  action stays at its position, goals unchanged, page views with their path, number and entry
  time and a scroll that never decreases.
\<close>
theorem session_actions_cumulative:
  assumes "session_steps (session_state_init workspace sid created) s" and "session_steps s t"
  shows "session_ok s \<and> session_ok t \<and> continues (ss_actions s) (ss_actions t)"
  using assms session_steps_ok [OF assms(1) session_init_ok] session_steps_ok session_steps_continue by blast

lemma session_actions_cumulative_witness:
  "\<exists>(s :: session_state) t. ss_actions s \<noteq> [] \<and> length (ss_actions s) < length (ss_actions t) \<and> session_ok t \<and>
     continues (ss_actions s) (ss_actions t)"
proof -
  let ?i = "session_state_init ''w'' ''s'' 0"
  let ?s = "addPageview None 5 ''/a'' ?i"
  let ?t = "snd (addGoal 9 ''signup'' (Some 3) None ?s)"
  have 1: "session_steps ?i ?s" by (rule session_steps.more [OF session_steps.none session_step.pageview])
  have 2: "session_steps ?s ?t" by (rule session_steps.more [OF session_steps.none session_step.goal])
  have 3: "ss_actions ?s \<noteq> []" "length (ss_actions ?s) < length (ss_actions ?t)"
    by (simp_all add: addPageview_def addGoal_def session_state_init_def MAX_ACTIONS_def Let_def)
  have 4: "session_ok ?s \<and> session_ok ?t \<and> continues (ss_actions ?s) (ss_actions ?t)"
    by (rule session_actions_cumulative [OF 1 2])
  show ?thesis
    by (rule exI [of _ ?s], rule exI [of _ ?t]) (use 3 4 in fast)
qed

text \<open>
  A session that was persisted is restored whole: when the browser took the write, restoring the
  same session reads back exactly the actions and the current page, whatever the restoring
  instance held.
\<close>
theorem restore_after_persist:
  assumes "ws_setItem STATE_KEY (json_print (snapshot_json s)) ws \<noteq> None" and "ss_session t = ss_session s"
  shows "restore (persist s ws) t =
     Inr (t\<lparr>ss_actions := ss_actions s, ss_current := ss_current s\<rparr>, persist s ws)"
proof -
  have "json_print (snapshot_json s) \<noteq> []"
    by (simp add: snapshot_json_def)
  moreover have "ws_getItem STATE_KEY (persist s ws) = Some (Some (json_print (snapshot_json s)))"
    using assms(1) by (auto simp: persist_def ws_setItem_def ws_getItem_def Let_def split: if_splits)
  ultimately show ?thesis
    using assms(2) by (simp add: restore_def snapshot_fields)
qed

lemma restore_after_persist_witness:
  "\<exists>s ws. ss_actions s \<noteq> [] \<and>
     restore (persist s ws) (session_state_init ''w'' ''s'' 7) = Inr (s, persist s ws)"
proof -
  let ?s = "snd (addGoal 9 ''signup'' (Some 3) (Some [(''k'', ''v'')]) (addPageview None 5 ''/a'' (session_state_init ''w'' ''s'' 7)))"
  let ?ws = "\<lparr>ws_items = [], ws_blocked = False, ws_quota = None\<rparr>"
  have "ws_setItem STATE_KEY (json_print (snapshot_json ?s)) ?ws \<noteq> None"
    by (simp add: ws_setItem_def)
  moreover have "ss_session (session_state_init ''w'' ''s'' 7) = ss_session ?s"
    by (simp add: addPageview_def addGoal_def session_state_init_def MAX_ACTIONS_def Let_def)
  ultimately have "restore (persist ?s ?ws) (session_state_init ''w'' ''s'' 7) =
      Inr ((session_state_init ''w'' ''s'' 7)\<lparr>ss_actions := ss_actions ?s, ss_current := ss_current ?s\<rparr>, persist ?s ?ws)"
    by (rule restore_after_persist)
  moreover have "(session_state_init ''w'' ''s'' 7)\<lparr>ss_actions := ss_actions ?s, ss_current := ss_current ?s\<rparr> = ?s"
    and "ss_actions ?s \<noteq> []"
    by (simp_all add: addPageview_def addGoal_def session_state_init_def MAX_ACTIONS_def Let_def)
  ultimately show ?thesis by metis
qed

text \<open>Blocked storage makes \<open>restore\<close> throw: the handler's own \<open>removeItem\<close> raises again.\<close>

lemma restore_blocked: "ws_blocked ws \<Longrightarrow> restore ws s = Inl Storage_blocked"
  by (simp add: restore_def ws_getItem_def remove_state_def ws_removeItem_def)

end
