(* ===== verification/Sdk_Sender.thy ===== *)
theory Sdk_Sender
  imports Session_State
begin

section \<open>Sending payloads, and the queue for when the network is away\<close>

text \<open>
  \<^verbatim>\<open>sdk/src/transport/sender.ts\<close>: payloads that cannot leave are queued in the storage and sent
  again when the browser is back online. The flush awaits the network between two items, so it is
  modelled as a sequence of steps (begin, one per item, end) with which new payloads interleave.
  A payload is an arbitrary JSON value; the outcome of each request is an argument.
\<close>

(* src: sdk/src/transport/sender.ts:20-23 QueuedPayload *)
record queued_payload =
  qp_payload :: json
  qp_queuedAt :: int

(* src: sdk/src/transport/sender.ts:25-25 MAX_QUEUE_SIZE *)
definition MAX_QUEUE_SIZE :: nat where
  "MAX_QUEUE_SIZE = 100"

(* src: sdk/src/transport/sender.ts:26-26 QUEUE_TTL_MS *)
definition QUEUE_TTL_MS :: int where
  "QUEUE_TTL_MS = 24 * 60 * 60 * 1000"

text \<open>How a request ends.\<close>

datatype fetch_outcome =
    Response_ok
  | Response_bad_body
  | Response_status nat
  | Request_aborted
  | Request_failed

text \<open>
  A running flush: the items still to look at, the items that failed, and the time it started.
  \<open>isFlushing\<close> is true exactly while there is one.
\<close>

(* src: sdk/src/transport/sender.ts:103-126 handleOnline *)
record flush_run =
  fl_remaining :: "queued_payload list"
  fl_failed :: "queued_payload list"
  fl_now :: int

(* src: sdk/src/transport/sender.ts:29-38 Sender *)
record sender =
  sn_storage :: sdk_storage
  sn_flush :: "flush_run option"

subsection \<open>The queue in the storage\<close>

definition queue_json :: "queued_payload list \<Rightarrow> json" where
  "queue_json q = JsArr (map (\<lambda>i. JsObj [(''payload'', qp_payload i), (''queuedAt'', JsInt (qp_queuedAt i))]) q)"

definition as_queued :: "json \<Rightarrow> queued_payload option" where
  "as_queued v =
     (case (json_field v ''payload'', as_int (json_field v ''queuedAt'')) of
        (Some p, Some t) \<Rightarrow> Some \<lparr>qp_payload = p, qp_queuedAt = t\<rparr>
      | _ \<Rightarrow> None)"

definition as_queue :: "json option \<Rightarrow> queued_payload list option" where
  "as_queue v = (case v of Some (JsArr vs) \<Rightarrow> all_some (map as_queued vs) | _ \<Rightarrow> None)"

(* src: sdk/src/transport/sender.ts:67-69 getQueue *)
definition getQueue :: "sdk_storage \<Rightarrow> queued_payload list \<times> sdk_storage" where
  "getQueue st = (case storage_get (key_text K_pending) st of (v, st1) \<Rightarrow> (js_nullish (as_queue v) [], st1))"

(* src: sdk/src/transport/sender.ts:74-77 saveQueue *)
definition saveQueue :: "queued_payload list \<Rightarrow> sdk_storage \<Rightarrow> sdk_storage" where
  "saveQueue q st =
     (let trimmed = drop (length q - MAX_QUEUE_SIZE) q
      in storage_set (key_text K_pending) (queue_json trimmed) st)"

(* src: sdk/src/transport/sender.ts:82-90 enqueue *)
definition enqueue :: "int \<Rightarrow> json \<Rightarrow> sdk_storage \<Rightarrow> sdk_storage" where
  "enqueue now payload st =
     (case getQueue st of (q, st1) \<Rightarrow> saveQueue (q @ [\<lparr>qp_payload = payload, qp_queuedAt = now\<rparr>]) st1)"

subsection \<open>Sending\<close>

(* src: sdk/src/types/session-state.ts:124-129 SendResult *)
record send_result =
  sr_success :: bool
  sr_queued :: bool

(* src: sdk/src/transport/sender.ts:145-172 sendSessionDirect *)
definition sendSessionDirect :: "fetch_outcome \<Rightarrow> bool" where
  "sendSessionDirect outcome = (outcome = Response_ok)"

(* src: sdk/src/transport/sender.ts:177-238 sendSession *)
definition sendSession :: "bool \<Rightarrow> fetch_outcome \<Rightarrow> int \<Rightarrow> json \<Rightarrow> sender \<Rightarrow> send_result \<times> sender" where
  "sendSession offline outcome now payload s =
     (if offline
      then (\<lparr>sr_success = False, sr_queued = True\<rparr>, s\<lparr>sn_storage := enqueue now payload (sn_storage s)\<rparr>)
      else (case outcome of
              Response_ok \<Rightarrow> (\<lparr>sr_success = True, sr_queued = False\<rparr>, s)
            | Request_aborted \<Rightarrow>
                (\<lparr>sr_success = False, sr_queued = True\<rparr>, s\<lparr>sn_storage := enqueue now payload (sn_storage s)\<rparr>)
            | _ \<Rightarrow> (\<lparr>sr_success = False, sr_queued = False\<rparr>, s)))"

text \<open>
  The unload path: which transports the browser has and how each call ends (\<^const>\<open>None\<close>: the
  method is missing; \<^term>\<open>Some False\<close>: it throws or refuses).
\<close>

datatype beacon_channel = By_fetchLater | By_beacon | By_fetch

record beacon_env =
  be_fetchLater :: "bool option"
  be_sendBeacon :: "bool option"
  be_fetch :: bool
  be_body_length :: nat

(* src: sdk/src/transport/sender.ts:244-314 sendSessionBeacon *)
definition sendSessionBeacon ::
    "bool \<Rightarrow> beacon_env \<Rightarrow> int \<Rightarrow> json \<Rightarrow> sender \<Rightarrow> (bool \<times> beacon_channel option) \<times> sender" where
  "sendSessionBeacon offline env now payload s =
     (if offline then ((False, None), s\<lparr>sn_storage := enqueue now payload (sn_storage s)\<rparr>)
      else if be_fetchLater env = Some True then ((True, Some By_fetchLater), s)
      else let useBeacon = be_body_length env \<le> 15 * 1024
           in if useBeacon \<and> be_sendBeacon env = Some True then ((True, Some By_beacon), s)
              else if be_fetch env then ((True, Some By_fetch), s) else ((False, None), s))"

subsection \<open>The flush\<close>

(* src: sdk/src/transport/sender.ts:95-112 handleOnline *)
definition flush_begin :: "int \<Rightarrow> sender \<Rightarrow> sender" where
  "flush_begin now s =
     (if sn_flush s \<noteq> None then s
      else (case getQueue (sn_storage s) of
              (q, st1) \<Rightarrow>
                if q = [] then s\<lparr>sn_storage := st1\<rparr>
                else s\<lparr>sn_storage := storage_set (key_text K_pending) (queue_json []) st1,
                       sn_flush := Some \<lparr>fl_remaining = q, fl_failed = [], fl_now = now\<rparr>\<rparr>))"

definition expired :: "int \<Rightarrow> queued_payload \<Rightarrow> bool" where
  "expired now i \<longleftrightarrow> QUEUE_TTL_MS < now - qp_queuedAt i"

(* src: sdk/src/transport/sender.ts:114-126 handleOnline *)
definition flush_item :: "fetch_outcome \<Rightarrow> flush_run \<Rightarrow> flush_run" where
  "flush_item outcome fl =
     (case fl_remaining fl of
        [] \<Rightarrow> fl
      | i # is \<Rightarrow>
          if expired (fl_now fl) i then fl\<lparr>fl_remaining := is\<rparr>
          else if sendSessionDirect outcome then fl\<lparr>fl_remaining := is\<rparr>
          else fl\<lparr>fl_remaining := is, fl_failed := fl_failed fl @ [i]\<rparr>)"

(* src: sdk/src/transport/sender.ts:132-139 handleOnline *)
definition flush_end :: "flush_run \<Rightarrow> sender \<Rightarrow> sender" where
  "flush_end fl s =
     (if fl_failed fl \<noteq> []
      then (case getQueue (sn_storage s) of
              (current, st1) \<Rightarrow> s\<lparr>sn_storage := saveQueue (fl_failed fl @ current) st1, sn_flush := None\<rparr>)
      else s\<lparr>sn_flush := None\<rparr>)"

text \<open>The whole of \<open>handleOnline\<close> when nothing else runs meanwhile.\<close>

(* src: sdk/src/transport/sender.ts:95-140 handleOnline *)
definition handleOnline :: "int \<Rightarrow> fetch_outcome list \<Rightarrow> sender \<Rightarrow> sender" where
  "handleOnline now outcomes s =
     (if sn_flush s \<noteq> None then s
      else (case sn_flush (flush_begin now s) of
              None \<Rightarrow> flush_begin now s
            | Some fl \<Rightarrow> flush_end (fold flush_item outcomes fl) (flush_begin now s)))"

subsection \<open>Every payload is accounted for\<close>

text \<open>
  A ledger beside the sender: what was queued, delivered by a flush, found expired, and cut off by
  the size limit.
\<close>

record ledger =
  ld_queued :: "queued_payload multiset"
  ld_delivered :: "queued_payload multiset"
  ld_expired :: "queued_payload multiset"
  ld_cut :: "queued_payload multiset"

definition stored_queue :: "sender \<Rightarrow> queued_payload list" where
  "stored_queue s = fst (getQueue (sn_storage s))"

definition in_flight :: "sender \<Rightarrow> queued_payload multiset" where
  "in_flight s =
     (case sn_flush s of None \<Rightarrow> {#} | Some fl \<Rightarrow> mset (fl_remaining fl) + mset (fl_failed fl))"

definition overflow :: "queued_payload list \<Rightarrow> queued_payload multiset" where
  "overflow q = mset (take (length q - MAX_QUEUE_SIZE) q)"

inductive sender_step :: "ledger \<times> sender \<Rightarrow> ledger \<times> sender \<Rightarrow> bool" where
  queue: "i = \<lparr>qp_payload = p, qp_queuedAt = now\<rparr> \<Longrightarrow>
    sender_step (l, s)
      (l\<lparr>ld_queued := add_mset i (ld_queued l), ld_cut := ld_cut l + overflow (stored_queue s @ [i])\<rparr>,
       s\<lparr>sn_storage := enqueue now p (sn_storage s)\<rparr>)"
| start: "sender_step (l, s) (l, flush_begin now s)"
| expire: "sn_flush s = Some fl \<Longrightarrow> fl_remaining fl = i # is \<Longrightarrow> expired (fl_now fl) i \<Longrightarrow>
    sender_step (l, s) (l\<lparr>ld_expired := add_mset i (ld_expired l)\<rparr>, s\<lparr>sn_flush := Some (flush_item outcome fl)\<rparr>)"
| deliver: "sn_flush s = Some fl \<Longrightarrow> fl_remaining fl = i # is \<Longrightarrow> \<not> expired (fl_now fl) i \<Longrightarrow>
    sender_step (l, s) (l\<lparr>ld_delivered := add_mset i (ld_delivered l)\<rparr>, s\<lparr>sn_flush := Some (flush_item Response_ok fl)\<rparr>)"
| fail: "sn_flush s = Some fl \<Longrightarrow> fl_remaining fl = i # is \<Longrightarrow> \<not> expired (fl_now fl) i \<Longrightarrow> outcome \<noteq> Response_ok \<Longrightarrow>
    sender_step (l, s) (l, s\<lparr>sn_flush := Some (flush_item outcome fl)\<rparr>)"
| finish: "sn_flush s = Some fl \<Longrightarrow> fl_remaining fl = [] \<Longrightarrow>
    sender_step (l, s)
      (if fl_failed fl = [] then l else l\<lparr>ld_cut := ld_cut l + overflow (fl_failed fl @ stored_queue s)\<rparr>, flush_end fl s)"

inductive sender_reachable :: "sdk_storage \<Rightarrow> ledger \<times> sender \<Rightarrow> bool" for st where
  init: "storage_ok st \<Longrightarrow> fst (storage_get (key_text K_pending) st) = None \<Longrightarrow>
    sender_reachable st
      (\<lparr>ld_queued = {#}, ld_delivered = {#}, ld_expired = {#}, ld_cut = {#}\<rparr>, \<lparr>sn_storage = st, sn_flush = None\<rparr>)"
| step: "sender_reachable st c \<Longrightarrow> sender_step c d \<Longrightarrow> sender_reachable st d"

definition accounted :: "ledger \<times> sender \<Rightarrow> bool" where
  "accounted c \<longleftrightarrow>
     (case c of (l, s) \<Rightarrow>
        ld_queued l = mset (stored_queue s) + in_flight s + ld_delivered l + ld_expired l + ld_cut l \<and>
        length (stored_queue s) \<le> MAX_QUEUE_SIZE \<and> storage_ok (sn_storage s))"

lemma as_queue_json [simp]: "as_queue (Some (queue_json q)) = Some q"
proof -
  have "as_queued (JsObj [(''payload'', qp_payload i), (''queuedAt'', JsInt (qp_queuedAt i))]) = Some i" for i :: queued_payload
    by (simp add: as_queued_def json_field_def as_int_def)
  then show ?thesis
    using all_some_map [of q "\<lambda>i. Some i" "\<lambda>i. i"] by (simp add: as_queue_def queue_json_def comp_def)
qed

lemma queue_json_not_null [simp]: "not_null (queue_json q) = Some (queue_json q)"
  by (simp add: not_null_def queue_json_def)

lemma getQueue_storage: "storage_ok st \<Longrightarrow> snd (getQueue st) = st"
  by (simp add: getQueue_def case_prod_beta local_kv.get_keeps)

lemma stored_after_set:
  "storage_ok st \<Longrightarrow> fst (getQueue (storage_set (key_text K_pending) (queue_json q) st)) = q"
  by (simp add: getQueue_def case_prod_beta local_kv.get_put)

lemma saveQueue_queue:
  "storage_ok st \<Longrightarrow> fst (getQueue (saveQueue q st)) = drop (length q - MAX_QUEUE_SIZE) q"
  "storage_ok st \<Longrightarrow> storage_ok (saveQueue q st)"
  by (simp_all add: saveQueue_def stored_after_set local_kv.put_inv)

lemma overflow_split: "mset q = mset (drop (length q - MAX_QUEUE_SIZE) q) + overflow q"
proof -
  let ?n = "length q - MAX_QUEUE_SIZE"
  have "mset q = mset (take ?n q @ drop ?n q)" by (simp only: append_take_drop_id)
  then show ?thesis by (simp only: overflow_def mset_append union_commute)
qed

lemma enqueue_queue:
  assumes "storage_ok (sn_storage s)"
  shows "stored_queue (s\<lparr>sn_storage := enqueue now p (sn_storage s)\<rparr>) =
      drop (length (stored_queue s @ [\<lparr>qp_payload = p, qp_queuedAt = now\<rparr>]) - MAX_QUEUE_SIZE)
        (stored_queue s @ [\<lparr>qp_payload = p, qp_queuedAt = now\<rparr>])"
    and "storage_ok (enqueue now p (sn_storage s))"
  using getQueue_storage [OF assms] saveQueue_queue [OF assms]
  by (simp_all add: enqueue_def stored_queue_def case_prod_beta)

lemma flush_begin_cases:
  assumes "storage_ok (sn_storage s)"
  obtains "flush_begin now s = s"
  | "sn_flush s = None" "sn_flush (flush_begin now s) = Some \<lparr>fl_remaining = stored_queue s, fl_failed = [], fl_now = now\<rparr>"
    "stored_queue (flush_begin now s) = []" "storage_ok (sn_storage (flush_begin now s))"
proof (cases "sn_flush s = None \<and> stored_queue s \<noteq> []")
  case True
  then show ?thesis
    using that(2) getQueue_storage [OF assms] stored_after_set [OF assms] local_kv.put_inv [OF assms]
    by (simp add: flush_begin_def stored_queue_def case_prod_beta)
next
  case False
  then have "flush_begin now s = s"
    using getQueue_storage [OF assms] by (auto simp: flush_begin_def stored_queue_def case_prod_beta)
  then show ?thesis by (rule that(1))
qed

lemma sender_step_accounted:
  assumes "sender_step c d" "accounted c"
  shows "accounted d"
  using assms
proof (induction rule: sender_step.induct)
  case (queue i p now l s)
  then have ok: "storage_ok (sn_storage s)" by (simp add: accounted_def)
  let ?q = "stored_queue s @ [i]"
  have "mset ?q = mset (drop (length ?q - MAX_QUEUE_SIZE) ?q) + overflow ?q" by (rule overflow_split)
  then show ?case
    using queue enqueue_queue [OF ok, of now p] by (simp add: accounted_def in_flight_def)
next
  case (start l s now)
  then have ok: "storage_ok (sn_storage s)" by (simp add: accounted_def)
  show ?case
    using start by (rule_tac flush_begin_cases [OF ok, of now]) (auto simp: accounted_def in_flight_def)
next
  case (expire s fl i "is" l outcome)
  then show ?case by (simp add: accounted_def in_flight_def flush_item_def stored_queue_def)
next
  case (deliver s fl i "is" l)
  then show ?case by (simp add: accounted_def in_flight_def flush_item_def sendSessionDirect_def stored_queue_def)
next
  case (fail s fl i "is" outcome l)
  then show ?case by (simp add: accounted_def in_flight_def flush_item_def sendSessionDirect_def stored_queue_def)
next
  case (finish s fl l)
  then have ok: "storage_ok (sn_storage s)" by (simp add: accounted_def)
  let ?q = "fl_failed fl @ stored_queue s"
  have "mset ?q = mset (drop (length ?q - MAX_QUEUE_SIZE) ?q) + overflow ?q" by (rule overflow_split)
  then show ?case
    using finish getQueue_storage [OF ok] saveQueue_queue [OF ok]
    by (auto simp: accounted_def in_flight_def flush_end_def stored_queue_def case_prod_beta)
qed

lemma sender_reachable_accounted: "sender_reachable st c \<Longrightarrow> accounted c"
proof (induction rule: sender_reachable.induct)
  case init
  then show ?case
    by (simp add: accounted_def stored_queue_def getQueue_def in_flight_def as_queue_def case_prod_beta)
next
  case (step c d)
  then show ?case by (simp add: sender_step_accounted)
qed


definition empty_storage :: sdk_storage where
  "empty_storage = \<lparr>st_useMemory = False, st_memory = [], st_area = \<lparr>ws_items = [], ws_blocked = False, ws_quota = None\<rparr>\<rparr>"

lemma empty_storage_ok: "storage_ok empty_storage" "fst (storage_get k empty_storage) = None"
  by (simp_all add: empty_storage_def storage_ok_def area_ok_def storage_get_def ws_getItem_def)


subsection \<open>A flush on its own\<close>

lemma fold_flush_item:
  "length os = length q \<Longrightarrow>
   fold flush_item os \<lparr>fl_remaining = q, fl_failed = f, fl_now = now\<rparr> =
     \<lparr>fl_remaining = [],
      fl_failed = f @ map fst (filter (\<lambda>io. \<not> expired now (fst io) \<and> snd io \<noteq> Response_ok) (zip q os)),
      fl_now = now\<rparr>"
proof (induction os q arbitrary: f rule: list_induct2)
  case Nil
  then show ?case by simp
next
  case (Cons o1 os i q)
  then show ?case by (simp add: flush_item_def sendSessionDirect_def)
qed

lemma getQueue_eq: "storage_ok (sn_storage s) \<Longrightarrow> getQueue (sn_storage s) = (stored_queue s, sn_storage s)"
  using getQueue_storage [of "sn_storage s"] by (cases "getQueue (sn_storage s)") (simp add: stored_queue_def)

text \<open>
  A flush leaves in the queue exactly the payloads that are not yet a day old and whose request did
  not succeed, in their order, and releases the guard; the delivered and the expired are gone.
\<close>
theorem handleOnline_keeps_failed:
  assumes "storage_ok (sn_storage s)" and "sn_flush s = None"
    and "length os = length (stored_queue s)" and "length (stored_queue s) \<le> 100"
  shows "sn_flush (handleOnline now os s) = None \<and>
     stored_queue (handleOnline now os s) =
       map fst (filter (\<lambda>io. now - qp_queuedAt (fst io) \<le> 24 * 60 * 60 * 1000 \<and> snd io \<noteq> Response_ok)
         (zip (stored_queue s) os))"
proof (cases "stored_queue s = []")
  case True
  then have "flush_begin now s = s"
    using assms(1,2) by (simp add: flush_begin_def getQueue_eq)
  with True assms(2,3) show ?thesis by (simp add: handleOnline_def)
next
  case False
  let ?st = "storage_set (key_text K_pending) (queue_json []) (sn_storage s)"
  let ?t = "s\<lparr>sn_storage := ?st, sn_flush := Some \<lparr>fl_remaining = stored_queue s, fl_failed = [], fl_now = now\<rparr>\<rparr>"
  let ?f = "map fst (filter (\<lambda>io. \<not> expired now (fst io) \<and> snd io \<noteq> Response_ok) (zip (stored_queue s) os))"
  have b: "flush_begin now s = ?t" using False assms(1,2) by (simp add: flush_begin_def getQueue_eq)
  have ok: "storage_ok ?st" by (rule local_kv.put_inv [OF assms(1)])
  have h: "handleOnline now os s = flush_end \<lparr>fl_remaining = [], fl_failed = ?f, fl_now = now\<rparr> ?t"
    using assms(2) fold_flush_item [OF assms(3), of "[]" now] by (simp add: handleOnline_def b)
  have len: "length ?f \<le> MAX_QUEUE_SIZE"
    using assms(4) length_filter_le [of _ "zip (stored_queue s) os"] assms(3)
    by (simp add: MAX_QUEUE_SIZE_def) (meson le_trans)
  have q: "getQueue ?st = ([], ?st)"
    using getQueue_storage [OF ok] stored_after_set [OF assms(1), of "[]"] by (cases "getQueue ?st") simp
  have "stored_queue (handleOnline now os s) = ?f \<and> sn_flush (handleOnline now os s) = None"
  proof (cases "?f = []")
    case True
    then show ?thesis using q by (simp add: h flush_end_def stored_queue_def)
  next
    case False
    then show ?thesis
      using q saveQueue_queue(1) [OF ok, of ?f] len by (simp add: h flush_end_def stored_queue_def)
  qed
  then show ?thesis by (simp add: expired_def QUEUE_TTL_MS_def not_less)
qed

lemma handleOnline_keeps_failed_witness:
  "\<exists>s :: sender. length (stored_queue s) = 1 \<and> stored_queue (handleOnline 9 [Request_failed] s) = stored_queue s"
proof -
  let ?s = "\<lparr>sn_storage = enqueue 5 (JsInt 1) empty_storage, sn_flush = None\<rparr>"
  have q: "stored_queue ?s = [\<lparr>qp_payload = JsInt 1, qp_queuedAt = 5\<rparr>]"
    using enqueue_queue [of "\<lparr>sn_storage = empty_storage, sn_flush = None\<rparr>" 5 "JsInt 1"] empty_storage_ok
    by (simp add: stored_queue_def getQueue_def as_queue_def case_prod_beta MAX_QUEUE_SIZE_def)
  have "storage_ok (enqueue 5 (JsInt 1) empty_storage)"
    using enqueue_queue(2) [of "\<lparr>sn_storage = empty_storage, sn_flush = None\<rparr>"] empty_storage_ok by simp
  then have "stored_queue (handleOnline 9 [Request_failed] ?s) = stored_queue ?s"
    using handleOnline_keeps_failed [of ?s "[Request_failed]" 9] q by simp
  with q show ?thesis by (intro exI [of _ ?s]) simp
qed

end
