(* ===== verification/Sdk_Session.thy ===== *)
theory Sdk_Session
  imports Session_State
begin

section \<open>The session manager of the SDK\<close>

text \<open>
  \<^verbatim>\<open>sdk/src/core/session.ts\<close> and \<^verbatim>\<open>sdk/src/utils/utm.ts\<close>: which session a page load belongs
  to, the custom dimensions, the user's identity and the long-lived visitor identity, all kept in
  the storage of \<open>Sdk_Storage\<close> under its own keys. The clock, the page's address and the freshly
  generated identifiers are arguments. A stored value that has not the shape the SDK writes
  counts as absent.
\<close>

subsection \<open>Campaign parameters\<close>

(* src: sdk/src/types.ts:111-119 UTMParams *)
record utm_params =
  up_source :: "string option"
  up_medium :: "string option"
  up_campaign :: "string option"
  up_term :: "string option"
  up_content :: "string option"
  up_id :: "string option"
  up_id_from :: "string option"

(* src: sdk/src/utils/utm.ts:8-18 DEFAULT_AD_CLICK_IDS *)
definition DEFAULT_AD_CLICK_IDS :: "string list" where
  "DEFAULT_AD_CLICK_IDS =
     [''gclid'', ''fbclid'', ''msclkid'', ''dclid'', ''twclid'', ''ttclid'', ''li_fat_id'', ''wbraid'', ''gbraid'']"

(* src: sdk/src/utils/utm.ts:30-37 parseUTMParams *)
fun first_click_id :: "string list \<Rightarrow> (string \<Rightarrow> string option) \<Rightarrow> (string \<times> string) option" where
  "first_click_id [] params = None"
| "first_click_id (p # ps) params =
     (case params p of
        Some v \<Rightarrow> if v \<noteq> [] then Some (v, p) else first_click_id ps params
      | None \<Rightarrow> first_click_id ps params)"

text \<open>\<open>params\<close> is the look-up of the address's query string.\<close>

(* src: sdk/src/utils/utm.ts:23-48 parseUTMParams *)
definition parseUTMParams :: "(string \<Rightarrow> string option) \<Rightarrow> string list \<Rightarrow> utm_params" where
  "parseUTMParams params adClickIds =
     \<lparr>up_source = params ''utm_source'', up_medium = params ''utm_medium'',
      up_campaign = params ''utm_campaign'', up_term = params ''utm_term'',
      up_content = params ''utm_content'',
      up_id = map_option fst (first_click_id adClickIds params),
      up_id_from = map_option snd (first_click_id adClickIds params)\<rparr>"

(* src: sdk/src/core/session.ts:207-211 hasUTMValues *)
definition hasUTMValues :: "utm_params \<Rightarrow> bool" where
  "hasUTMValues u \<longleftrightarrow> js_truthy (up_source u) \<or> js_truthy (up_medium u) \<or> js_truthy (up_campaign u) \<or>
     js_truthy (up_term u) \<or> js_truthy (up_content u) \<or> js_truthy (up_id u)"

lemma first_click_id_truthy: "first_click_id ps params = Some (v, p) \<Longrightarrow> params p = Some v \<and> v \<noteq> [] \<and> p \<in> set ps"
  by (induction ps) (auto split: option.splits if_splits)

subsection \<open>Sessions and their stored form\<close>

(* src: sdk/src/types.ts:121-123 CustomDimensions *)
type_synonym custom_dimensions = "(nat \<times> string) list"

(* src: sdk/src/types.ts:85-109 Session *)
record sdk_session =
  se_id :: string
  se_workspace :: string
  se_created :: int
  se_updated :: int
  se_last_active :: int
  se_focus_ms :: int
  se_total_ms :: int
  se_referrer :: "string option"
  se_landing :: string
  se_utm :: "utm_params option"
  se_scroll :: int
  se_interactions :: int
  se_version :: string
  se_sequence :: int
  se_dimensions :: custom_dimensions
  se_user :: "string option"
  se_visitor :: "string option"

definition json_opt :: "string option \<Rightarrow> json" where
  "json_opt v = (case v of None \<Rightarrow> JsNull | Some s \<Rightarrow> JsStr s)"

definition as_opt :: "json option \<Rightarrow> string option option" where
  "as_opt v = (case v of Some (JsStr s) \<Rightarrow> Some (Some s) | Some JsNull \<Rightarrow> Some None | _ \<Rightarrow> None)"

lemma as_json_simps [simp]:
  "as_string (Some (JsStr s)) = Some s" "as_int (Some (JsInt i)) = Some i"
  "as_opt (Some (json_opt v)) = Some v" "as_string None = None"
  by (simp_all add: as_string_def as_int_def as_opt_def json_opt_def split: option.split)

definition utm_json :: "utm_params option \<Rightarrow> json" where
  "utm_json v = (case v of None \<Rightarrow> JsNull
     | Some u \<Rightarrow> JsObj [(''source'', json_opt (up_source u)), (''medium'', json_opt (up_medium u)),
         (''campaign'', json_opt (up_campaign u)), (''term'', json_opt (up_term u)),
         (''content'', json_opt (up_content u)), (''id'', json_opt (up_id u)), (''id_from'', json_opt (up_id_from u))])"

definition as_utm :: "json option \<Rightarrow> utm_params option option" where
  "as_utm v = (case v of
       Some JsNull \<Rightarrow> Some None
     | Some (JsObj kvs) \<Rightarrow>
         (let f = (\<lambda>k. as_opt (json_field (JsObj kvs) k))
          in case (f ''source'', f ''medium'', f ''campaign'', f ''term'', f ''content'', f ''id'', f ''id_from'') of
            (Some s, Some m, Some ca, Some te, Some co, Some i, Some fr) \<Rightarrow>
              Some (Some \<lparr>up_source = s, up_medium = m, up_campaign = ca, up_term = te, up_content = co, up_id = i, up_id_from = fr\<rparr>)
          | _ \<Rightarrow> None)
     | _ \<Rightarrow> None)"

lemma as_utm_json [simp]: "as_utm (Some (utm_json v)) = Some v"
  by (simp add: as_utm_def utm_json_def json_field_def split: option.split)

definition dims_json :: "custom_dimensions \<Rightarrow> json" where
  "dims_json ds = JsObj (map (\<lambda>iv. (js_of_nat (fst iv), JsStr (snd iv))) ds)"

definition as_dims :: "json option \<Rightarrow> custom_dimensions option" where
  "as_dims v = (case v of
       Some (JsObj kvs) \<Rightarrow> all_some (map (\<lambda>kv. map_option (Pair (digits_value (fst kv))) (as_string (Some (snd kv)))) kvs)
     | _ \<Rightarrow> None)"

lemma as_dims_json [simp]: "as_dims (Some (dims_json ds)) = Some ds"
  using all_some_map [of ds "\<lambda>iv. Some iv" "\<lambda>iv. iv"] by (simp add: as_dims_def dims_json_def comp_def)

definition session_json :: "sdk_session \<Rightarrow> json" where
  "session_json s =
     JsObj ([(''id'', JsStr (se_id s)), (''workspace_id'', JsStr (se_workspace s)),
       (''created_at'', JsInt (se_created s)), (''updated_at'', JsInt (se_updated s)),
       (''last_active_at'', JsInt (se_last_active s)), (''focus_duration_ms'', JsInt (se_focus_ms s)),
       (''total_duration_ms'', JsInt (se_total_ms s)), (''referrer'', json_opt (se_referrer s)),
       (''landing_page'', JsStr (se_landing s)), (''utm'', utm_json (se_utm s)),
       (''max_scroll_percent'', JsInt (se_scroll s)), (''interaction_count'', JsInt (se_interactions s)),
       (''sdk_version'', JsStr (se_version s)), (''sequence'', JsInt (se_sequence s)),
       (''dimensions'', dims_json (se_dimensions s)), (''userId'', json_opt (se_user s))] @
       (case se_visitor s of None \<Rightarrow> [] | Some v \<Rightarrow> [(''visitorId'', JsStr v)]))"

definition as_session :: "json \<Rightarrow> sdk_session option" where
  "as_session j =
     (let str = (\<lambda>k. as_string (json_field j k)); num = (\<lambda>k. as_int (json_field j k))
      in case ((str ''id'', str ''workspace_id'', num ''created_at'', num ''updated_at'', num ''last_active_at'',
                num ''focus_duration_ms'', num ''total_duration_ms'', as_opt (json_field j ''referrer'')),
               (str ''landing_page'', as_utm (json_field j ''utm''), num ''max_scroll_percent'', num ''interaction_count'',
                str ''sdk_version'', num ''sequence'', as_dims (json_field j ''dimensions''), as_opt (json_field j ''userId''))) of
           ((Some i, Some w, Some cr, Some up, Some la, Some fo, Some tt, Some rf),
            (Some lp, Some ut, Some sc, Some it, Some ve, Some sq, Some ds, Some us)) \<Rightarrow>
              Some \<lparr>se_id = i, se_workspace = w, se_created = cr, se_updated = up, se_last_active = la,
                se_focus_ms = fo, se_total_ms = tt, se_referrer = rf, se_landing = lp, se_utm = ut,
                se_scroll = sc, se_interactions = it, se_version = ve, se_sequence = sq, se_dimensions = ds,
                se_user = us, se_visitor = str ''visitorId''\<rparr>
         | _ \<Rightarrow> None)"

lemma session_json_roundtrip [simp]: "as_session (session_json s) = Some s"
  by (cases "se_visitor s") (simp_all add: as_session_def session_json_def json_field_def)

lemma session_json_not_null [simp]: "not_null (session_json s) = Some (session_json s)"
  by (simp add: not_null_def session_json_def)

subsection \<open>The manager\<close>

(* src: sdk/src/core/session.ts:17-21 CrossDomainInput *)
record cross_domain_input =
  ci_session :: string
  ci_timestamp :: int
  ci_expiry :: int

text \<open>What the manager reads of its configuration and of the page at one call.\<close>

(* src: sdk/src/types.ts:74-82 InternalConfig *)
record sdk_config =
  co_workspace :: string
  co_timeout :: int
  co_adClickIds :: "string list"

record page_env =
  pe_now :: int
  pe_href :: string
  pe_referrer :: string
  pe_params :: "string \<Rightarrow> string option"
  pe_version :: string
  pe_session_uuid :: string
  pe_visitor_uuid :: string

(* src: sdk/src/core/session.ts:23-30 SessionManager *)
record session_manager =
  sm_storage :: sdk_storage
  sm_session :: "sdk_session option"
  sm_tab :: string
  sm_cross :: "cross_domain_input option"

(* src: sdk/src/core/session.ts:252-259 getOrCreateTabId *)
definition getOrCreateTabId :: "string \<Rightarrow> sdk_storage \<Rightarrow> string \<times> sdk_storage" where
  "getOrCreateTabId uuid tab =
     (case tab_get (key_text K_tab_id) tab of
        (v, tab1) \<Rightarrow>
          (case as_string v of
             Some i \<Rightarrow> if i \<noteq> [] then (i, tab1) else (uuid, tab_set (key_text K_tab_id) (JsStr uuid) tab1)
           | None \<Rightarrow> (uuid, tab_set (key_text K_tab_id) (JsStr uuid) tab1)))"

(* src: sdk/src/core/session.ts:44-46 setCrossDomainInput *)
definition setCrossDomainInput :: "cross_domain_input \<Rightarrow> session_manager \<Rightarrow> session_manager" where
  "setCrossDomainInput ci m = m\<lparr>sm_cross := Some ci\<rparr>"

(* src: sdk/src/core/session.ts:12-12 CLOCK_SKEW_TOLERANCE *)
definition CLOCK_SKEW_TOLERANCE :: int where
  "CLOCK_SKEW_TOLERANCE = 60"

(* src: sdk/src/core/session.ts:94-118 isValidCrossDomain *)
definition isValidCrossDomain :: "int \<Rightarrow> cross_domain_input \<Rightarrow> bool" where
  "isValidCrossDomain now_ms ci =
     (let now = now_ms div 1000; age = now - ci_timestamp ci
      in if age > ci_expiry ci then False
         else if ci_timestamp ci > now + CLOCK_SKEW_TOLERANCE then False else True)"

(* src: sdk/src/core/session.ts:200-202 isSessionExpired *)
definition isSessionExpired :: "sdk_config \<Rightarrow> int \<Rightarrow> sdk_session \<Rightarrow> bool" where
  "isSessionExpired cfg now s \<longleftrightarrow> now - se_last_active s > co_timeout cfg"

text \<open>The reads: each may switch the storage to memory, so each returns it.\<close>

(* src: sdk/src/core/session.ts:340-342 loadDimensions *)
definition loadDimensions :: "sdk_storage \<Rightarrow> custom_dimensions \<times> sdk_storage" where
  "loadDimensions st =
     (case storage_get (key_text K_dimensions) st of (v, st1) \<Rightarrow> (js_nullish (as_dims v) [], st1))"

(* src: sdk/src/core/session.ts:388-390 loadUserId *)
definition loadUserId :: "sdk_storage \<Rightarrow> string option \<times> sdk_storage" where
  "loadUserId st =
     (case storage_get (key_text K_user_id) st of
        (v, st1) \<Rightarrow> (case as_string v of Some u \<Rightarrow> if u = [] then None else Some u | None \<Rightarrow> None, st1))"

(* src: sdk/src/core/session.ts:412-424 loadOrCreateVisitorId *)
definition loadOrCreateVisitorId :: "string \<Rightarrow> sdk_storage \<Rightarrow> string \<times> sdk_storage" where
  "loadOrCreateVisitorId uuid st =
     (case storage_get (key_text K_visitor_id) st of
        (v, st1) \<Rightarrow>
          (case as_string v of
             Some i \<Rightarrow> if i \<noteq> [] then (i, st1) else (uuid, storage_set (key_text K_visitor_id) (JsStr uuid) st1)
           | None \<Rightarrow> (uuid, storage_set (key_text K_visitor_id) (JsStr uuid) st1)))"

(* src: sdk/src/core/session.ts:237-240 saveSession *)
definition saveSession :: "session_manager \<Rightarrow> session_manager" where
  "saveSession m =
     (case sm_session m of None \<Rightarrow> m
      | Some s \<Rightarrow> m\<lparr>sm_storage := storage_set (key_text K_session) (session_json s) (sm_storage m)\<rparr>)"

(* src: sdk/src/core/session.ts:164-194 createSession *)
definition createSessionWith :: "string \<Rightarrow> sdk_config \<Rightarrow> page_env \<Rightarrow> session_manager \<Rightarrow> sdk_session \<times> session_manager" where
  "createSessionWith sid cfg env m =
     (let utm = parseUTMParams (pe_params env) (co_adClickIds cfg)
      in case loadDimensions (sm_storage m) of (dims, st1) \<Rightarrow>
         (case loadUserId st1 of (user, st2) \<Rightarrow>
         (case loadOrCreateVisitorId (pe_visitor_uuid env) st2 of (visitor, st3) \<Rightarrow>
            (let s = \<lparr>se_id = sid, se_workspace = co_workspace cfg, se_created = pe_now env,
                   se_updated = pe_now env, se_last_active = pe_now env, se_focus_ms = 0, se_total_ms = 0,
                   se_referrer = (if pe_referrer env = [] then None else Some (pe_referrer env)),
                   se_landing = pe_href env, se_utm = (if hasUTMValues utm then Some utm else None),
                   se_scroll = 0, se_interactions = 0, se_version = pe_version env, se_sequence = 0,
                   se_dimensions = dims, se_user = user, se_visitor = Some visitor\<rparr>
             in (s, saveSession (m\<lparr>sm_storage := st3, sm_session := Some s\<rparr>))))))"

(* src: sdk/src/core/session.ts:163-195 createSession *)
definition createSession :: "sdk_config \<Rightarrow> page_env \<Rightarrow> session_manager \<Rightarrow> sdk_session \<times> session_manager" where
  "createSession cfg env m = createSessionWith (pe_session_uuid env) cfg env m"

(* src: sdk/src/core/session.ts:123-158 createSessionFromCrossDomain *)
definition createSessionFromCrossDomain ::
    "cross_domain_input \<Rightarrow> sdk_config \<Rightarrow> page_env \<Rightarrow> session_manager \<Rightarrow> sdk_session \<times> session_manager" where
  "createSessionFromCrossDomain ci cfg env m = createSessionWith (ci_session ci) cfg env m"

text \<open>An empty visitor id counts as missing, like an absent one.\<close>

(* src: sdk/src/core/session.ts:67-85 getOrCreateSession *)
definition resumeSession :: "page_env \<Rightarrow> sdk_session \<Rightarrow> session_manager \<Rightarrow> sdk_session \<times> session_manager" where
  "resumeSession env stored m =
     (let s1 = stored\<lparr>se_last_active := pe_now env, se_updated := pe_now env, se_sequence := se_sequence stored + 1\<rparr>
      in if js_truthy (se_visitor s1) then (s1, saveSession (m\<lparr>sm_session := Some s1\<rparr>))
         else (case loadOrCreateVisitorId (pe_visitor_uuid env) (sm_storage m) of
                 (v, st1) \<Rightarrow>
                   (let s2 = s1\<lparr>se_visitor := Some v\<rparr>
                    in (s2, saveSession (m\<lparr>sm_storage := st1, sm_session := Some s2\<rparr>)))))"

(* src: sdk/src/core/session.ts:64-88 getOrCreateSession *)
definition getOrCreateStored :: "sdk_config \<Rightarrow> page_env \<Rightarrow> session_manager \<Rightarrow> sdk_session \<times> session_manager" where
  "getOrCreateStored cfg env m =
     (case storage_get (key_text K_session) (sm_storage m) of
        (v, st1) \<Rightarrow>
          (case Option.bind v as_session of
             Some stored \<Rightarrow>
               if \<not> isSessionExpired cfg (pe_now env) stored then resumeSession env stored (m\<lparr>sm_storage := st1\<rparr>)
               else createSession cfg env (m\<lparr>sm_storage := st1\<rparr>)
           | None \<Rightarrow> createSession cfg env (m\<lparr>sm_storage := st1\<rparr>)))"

(* src: sdk/src/core/session.ts:55-89 getOrCreateSession *)
definition getOrCreateSession :: "sdk_config \<Rightarrow> page_env \<Rightarrow> session_manager \<Rightarrow> sdk_session \<times> session_manager" where
  "getOrCreateSession cfg env m =
     (case sm_cross m of
        Some ci \<Rightarrow>
          if isValidCrossDomain (pe_now env) ci then createSessionFromCrossDomain ci cfg env m
          else getOrCreateStored cfg env m
      | None \<Rightarrow> getOrCreateStored cfg env m)"

(* src: sdk/src/core/session.ts:223-232 updateSession *)
definition updateSession :: "(sdk_session \<Rightarrow> sdk_session) \<Rightarrow> int \<Rightarrow> session_manager \<Rightarrow> session_manager" where
  "updateSession updates now m =
     (case sm_session m of None \<Rightarrow> m
      | Some s \<Rightarrow> saveSession (m\<lparr>sm_session := Some ((updates s)\<lparr>se_updated := now, se_last_active := now\<rparr>)\<rparr>))"

(* src: sdk/src/core/session.ts:264-266 getSessionId *)
definition getSessionId :: "session_manager \<Rightarrow> string" where
  "getSessionId m = (case sm_session m of None \<Rightarrow> [] | Some s \<Rightarrow> se_id s)"

(* src: sdk/src/core/session.ts:429-431 getVisitorId *)
definition getVisitorId :: "session_manager \<Rightarrow> string" where
  "getVisitorId m = (case sm_session m of None \<Rightarrow> [] | Some s \<Rightarrow> js_nullish (se_visitor s) [])"

subsection \<open>Custom dimensions and the user\<close>

text \<open>An object with integer keys lists them in ascending order.\<close>

fun dim_put :: "nat \<Rightarrow> string \<Rightarrow> custom_dimensions \<Rightarrow> custom_dimensions" where
  "dim_put i v [] = [(i, v)]"
| "dim_put i v ((j, w) # ds) =
     (if i < j then (i, v) # (j, w) # ds else if i = j then (i, v) # ds else (j, w) # dim_put i v ds)"

datatype manager_error = Dimension_index_error | Dimension_length_error | User_length_error

(* src: sdk/src/core/session.ts:347-350 saveDimensions *)
definition saveDimensions :: "session_manager \<Rightarrow> session_manager" where
  "saveDimensions m =
     (case sm_session m of None \<Rightarrow> m
      | Some s \<Rightarrow> m\<lparr>sm_storage := storage_set (key_text K_dimensions) (dims_json (se_dimensions s)) (sm_storage m)\<rparr>)"

(* src: sdk/src/core/session.ts:273-295 setDimension *)
definition setDimension :: "nat \<Rightarrow> string \<Rightarrow> session_manager \<Rightarrow> manager_error + session_manager" where
  "setDimension i v m =
     (if i < 1 \<or> 10 < i then Inl Dimension_index_error
      else if 256 < length v then Inl Dimension_length_error
      else (case sm_session m of None \<Rightarrow> Inr m
            | Some s \<Rightarrow> Inr (saveSession (saveDimensions
                (m\<lparr>sm_session := Some (s\<lparr>se_dimensions := dim_put i v (se_dimensions s)\<rparr>)\<rparr>)))))"

text \<open>The loop keeps what it set before the entry that throws.\<close>

(* src: sdk/src/core/session.ts:300-304 setDimensions *)
fun setDimensions :: "custom_dimensions \<Rightarrow> session_manager \<Rightarrow> manager_error option \<times> session_manager" where
  "setDimensions [] m = (None, m)"
| "setDimensions ((i, v) # ds) m =
     (case setDimension i v m of Inl e \<Rightarrow> (Some e, m) | Inr m1 \<Rightarrow> setDimensions ds m1)"

(* src: sdk/src/core/session.ts:309-312 getDimension *)
definition getDimension :: "nat \<Rightarrow> session_manager \<Rightarrow> string option" where
  "getDimension i m =
     (case sm_session m of None \<Rightarrow> None
      | Some s \<Rightarrow> (case map_of (se_dimensions s) i of Some v \<Rightarrow> if v = [] then None else Some v | None \<Rightarrow> None))"

(* src: sdk/src/core/session.ts:317-322 clearDimensions *)
definition clearDimensions :: "session_manager \<Rightarrow> session_manager" where
  "clearDimensions m =
     (case sm_session m of None \<Rightarrow> m
      | Some s \<Rightarrow> saveSession (saveDimensions (m\<lparr>sm_session := Some (s\<lparr>se_dimensions := []\<rparr>)\<rparr>)))"

(* src: sdk/src/core/session.ts:327-335 getDimensionsPayload *)
definition getDimensionsPayload :: "session_manager \<Rightarrow> (string \<times> string) list" where
  "getDimensionsPayload m =
     (case sm_session m of None \<Rightarrow> []
      | Some s \<Rightarrow> map (\<lambda>iv. (''stm_'' @ js_of_nat (fst iv), snd iv)) (se_dimensions s))"

(* src: sdk/src/core/session.ts:437-457 applyUrlDimensions *)
definition applyUrlDimensions :: "custom_dimensions \<Rightarrow> session_manager \<Rightarrow> session_manager" where
  "applyUrlDimensions urlDims m =
     (case sm_session m of None \<Rightarrow> m
      | Some s \<Rightarrow>
          (let step = (\<lambda>iv (ds, changed).
                 if js_truthy (map_of ds (fst iv)) then (ds, changed)
                 else (dim_put (fst iv) (snd iv) ds, True))
           in case fold step urlDims (se_dimensions s, False) of
                (ds, changed) \<Rightarrow>
                  (let m1 = m\<lparr>sm_session := Some (s\<lparr>se_dimensions := ds\<rparr>)\<rparr>
                   in if changed then saveSession (saveDimensions m1) else m1)))"

(* src: sdk/src/utils/stm-dimensions.ts:16-33 parseStmDimensions *)
definition parseStmDimensions :: "(string \<Rightarrow> string option) option \<Rightarrow> custom_dimensions" where
  "parseStmDimensions params =
     (case params of None \<Rightarrow> []
      | Some get \<Rightarrow>
          fold (\<lambda>i ds. case get (''stm_'' @ js_of_nat i) of
                         Some v \<Rightarrow> if length v \<le> 256 then dim_put i v ds else ds
                       | None \<Rightarrow> ds) [1..<11] [])"

(* src: sdk/src/core/session.ts:395-402 saveUserId *)
definition saveUserId :: "session_manager \<Rightarrow> session_manager" where
  "saveUserId m =
     (case sm_session m of None \<Rightarrow> m
      | Some s \<Rightarrow>
          (case se_user s of
             None \<Rightarrow> m\<lparr>sm_storage := storage_remove (key_text K_user_id) (sm_storage m)\<rparr>
           | Some u \<Rightarrow> m\<lparr>sm_storage := storage_set (key_text K_user_id) (JsStr u) (sm_storage m)\<rparr>))"

(* src: sdk/src/core/session.ts:357-375 setUserId *)
definition setUserId :: "string option \<Rightarrow> session_manager \<Rightarrow> manager_error + session_manager" where
  "setUserId u m =
     (if (case u of Some i \<Rightarrow> 256 < length i | None \<Rightarrow> False) then Inl User_length_error
      else (case sm_session m of None \<Rightarrow> Inr m
            | Some s \<Rightarrow> Inr (saveSession (saveUserId (m\<lparr>sm_session := Some (s\<lparr>se_user := u\<rparr>)\<rparr>)))))"

(* src: sdk/src/core/session.ts:380-383 getUserId *)
definition getUserId :: "session_manager \<Rightarrow> string option" where
  "getUserId m = Option.bind (sm_session m) se_user"

(* src: sdk/src/core/session.ts:462-471 reset *)
definition reset_manager :: "sdk_config \<Rightarrow> page_env \<Rightarrow> session_manager \<Rightarrow> sdk_session \<times> session_manager" where
  "reset_manager cfg env m =
     createSession cfg env
       (m\<lparr>sm_storage := fold storage_remove (map key_text [K_session, K_dimensions, K_user_id, K_visitor_id]) (sm_storage m),
          sm_session := None\<rparr>)"

subsection \<open>Every operation except reset keeps the visitor\<close>

definition visitor_ok :: "string \<Rightarrow> sdk_session option \<Rightarrow> bool" where
  "visitor_ok v so \<longleftrightarrow> (case so of None \<Rightarrow> True | Some s \<Rightarrow> js_truthy (se_visitor s) \<longrightarrow> se_visitor s = Some v)"

definition manager_visitor :: "string \<Rightarrow> session_manager \<Rightarrow> bool" where
  "manager_visitor v m \<longleftrightarrow>
     v \<noteq> [] \<and> storage_ok (sm_storage m) \<and>
     fst (storage_get (key_text K_visitor_id) (sm_storage m)) = Some (JsStr v) \<and>
     visitor_ok v (Option.bind (fst (storage_get (key_text K_session) (sm_storage m))) as_session) \<and>
     visitor_ok v (sm_session m)"

inductive manager_step :: "session_manager \<Rightarrow> session_manager \<Rightarrow> bool" where
  load: "manager_step m (snd (getOrCreateSession cfg env m))"
| cross: "manager_step m (setCrossDomainInput ci m)"
| new_page: "manager_step m (m\<lparr>sm_session := None, sm_cross := None\<rparr>)"
| update: "(\<And>s. se_visitor (f s) = se_visitor s) \<Longrightarrow> manager_step m (updateSession f now m)"
| dimension: "setDimension i v m = Inr m1 \<Longrightarrow> manager_step m m1"
| clear: "manager_step m (clearDimensions m)"
| url: "manager_step m (applyUrlDimensions ds m)"
| user: "setUserId u m = Inr m1 \<Longrightarrow> manager_step m m1"

inductive manager_steps :: "session_manager \<Rightarrow> session_manager \<Rightarrow> bool" where
  none: "manager_steps m m"
| more: "manager_steps m n \<Longrightarrow> manager_step n p \<Longrightarrow> manager_steps m p"

lemmas kv_simps = local_kv.put_inv local_kv.get_put local_kv.drop_inv local_kv.get_drop
  local_kv.get_drops local_kv.drops_inv

lemma dims_json_not_null [simp]: "not_null (dims_json ds) = Some (dims_json ds)"
  by (simp add: not_null_def dims_json_def)

lemma visitor_set:
  assumes "manager_visitor v m" "visitor_ok v (Some s)"
  shows "manager_visitor v (saveSession (m\<lparr>sm_session := Some s\<rparr>))"
  using assms by (simp add: manager_visitor_def saveSession_def kv_simps)

lemma visitor_store:
  assumes "manager_visitor v m" "k \<notin> {K_session, K_visitor_id}"
  shows "manager_visitor v (m\<lparr>sm_storage := storage_set (key_text k) j (sm_storage m)\<rparr>)"
    and "manager_visitor v (m\<lparr>sm_storage := storage_remove (key_text k) (sm_storage m)\<rparr>)"
  using assms by (auto simp: manager_visitor_def kv_simps)

lemma visitor_session:
  "manager_visitor v m \<Longrightarrow> visitor_ok v (Some s) \<Longrightarrow> manager_visitor v (m\<lparr>sm_session := Some s\<rparr>)"
  by (simp add: manager_visitor_def)

lemma storage_reads:
  assumes "storage_ok st"
  shows "loadDimensions st = (fst (loadDimensions st), st)" "loadUserId st = (fst (loadUserId st), st)"
  using local_kv.get_keeps [OF assms] by (simp_all add: loadDimensions_def loadUserId_def case_prod_beta)

lemma visitor_load:
  assumes "manager_visitor v m"
  shows "loadOrCreateVisitorId u (sm_storage m) = (v, sm_storage m)"
  using assms local_kv.get_keeps [of "sm_storage m"]
  by (simp add: manager_visitor_def loadOrCreateVisitorId_def case_prod_beta)

lemma visitor_create:
  assumes "manager_visitor v m"
  shows "se_visitor (fst (createSessionWith sid cfg env m)) = Some v"
    and "manager_visitor v (snd (createSessionWith sid cfg env m))"
proof -
  have ok: "storage_ok (sm_storage m)" using assms by (simp add: manager_visitor_def)
  obtain ds where d: "loadDimensions (sm_storage m) = (ds, sm_storage m)" using storage_reads [OF ok] by metis
  obtain us where u: "loadUserId (sm_storage m) = (us, sm_storage m)" using storage_reads [OF ok] by metis
  note l = visitor_load [OF assms]
  show "se_visitor (fst (createSessionWith sid cfg env m)) = Some v"
    by (simp add: createSessionWith_def d u l Let_def)
  have "m\<lparr>sm_storage := sm_storage m, sm_session := so\<rparr> = m\<lparr>sm_session := so\<rparr>" for so by simp
  moreover have "manager_visitor v (saveSession (m\<lparr>sm_session := Some s\<rparr>))" if "se_visitor s = Some v" for s
    using visitor_set [OF assms] that by (simp add: visitor_ok_def)
  ultimately show "manager_visitor v (snd (createSessionWith sid cfg env m))"
    by (simp add: createSessionWith_def d u l Let_def)
qed

lemma visitor_resume:
  assumes "manager_visitor v m" "visitor_ok v (Some s)"
  shows "se_visitor (fst (resumeSession env s m)) = Some v"
    and "manager_visitor v (snd (resumeSession env s m))"
proof -
  have same: "m\<lparr>sm_storage := sm_storage m\<rparr> = m" by simp
  show "se_visitor (fst (resumeSession env s m)) = Some v"
    using assms visitor_load [OF assms(1)] by (simp add: resumeSession_def Let_def visitor_ok_def)
  have "manager_visitor v (saveSession (m\<lparr>sm_session := Some t\<rparr>))"
    if "js_truthy (se_visitor t) \<Longrightarrow> se_visitor t = Some v" for t
    using visitor_set [OF assms(1)] that by (simp add: visitor_ok_def)
  then show "manager_visitor v (snd (resumeSession env s m))"
    using assms(2) visitor_load [OF assms(1)]
    by (simp add: resumeSession_def Let_def same visitor_ok_def)
qed

lemma visitor_getOrCreate:
  assumes "manager_visitor v m"
  shows "se_visitor (fst (getOrCreateSession cfg env m)) = Some v"
    and "manager_visitor v (snd (getOrCreateSession cfg env m))"
proof -
  have ok: "storage_ok (sm_storage m)" using assms by (simp add: manager_visitor_def)
  have same: "m\<lparr>sm_storage := sm_storage m\<rparr> = m" by simp
  obtain j where g: "storage_get (key_text K_session) (sm_storage m) = (j, sm_storage m)"
    using local_kv.get_pair [OF ok] by metis
  have vo: "visitor_ok v (Option.bind j as_session)" using assms g by (simp add: manager_visitor_def)
  have "se_visitor (fst (getOrCreateStored cfg env m)) = Some v \<and> manager_visitor v (snd (getOrCreateStored cfg env m))"
  proof (cases "Option.bind j as_session")
    case None
    then show ?thesis
      using visitor_create [OF assms] by (simp add: getOrCreateStored_def g same createSession_def)
  next
    case (Some s)
    with vo have "visitor_ok v (Some s)" by simp
    then show ?thesis
      using Some visitor_create [OF assms] visitor_resume [OF assms]
      by (simp add: getOrCreateStored_def g same createSession_def)
  qed
  then show "se_visitor (fst (getOrCreateSession cfg env m)) = Some v"
    and "manager_visitor v (snd (getOrCreateSession cfg env m))"
    using visitor_create [OF assms]
    by (simp_all add: getOrCreateSession_def createSessionFromCrossDomain_def split: option.split)
qed

lemma visitor_ok_dims [simp]: "visitor_ok v (Some (s\<lparr>se_dimensions := ds\<rparr>)) = visitor_ok v (Some s)"
  "visitor_ok v (Some (s\<lparr>se_user := u\<rparr>)) = visitor_ok v (Some s)"
  by (simp_all add: visitor_ok_def)

lemma visitor_save: "manager_visitor v m \<Longrightarrow> manager_visitor v (saveSession m)"
  by (cases "sm_session m") (simp_all add: saveSession_def manager_visitor_def kv_simps)

lemma visitor_saveDimensions: "manager_visitor v m \<Longrightarrow> manager_visitor v (saveDimensions m)"
  by (cases "sm_session m") (simp_all add: saveDimensions_def visitor_store)

lemma visitor_saveUserId: "manager_visitor v m \<Longrightarrow> manager_visitor v (saveUserId m)"
  by (cases "sm_session m") (simp_all add: saveUserId_def visitor_store split: option.split)

lemma visitor_change:
  assumes "manager_visitor v m" "sm_session m = Some s"
  shows "manager_visitor v (m\<lparr>sm_session := Some (s\<lparr>se_dimensions := ds\<rparr>)\<rparr>)"
    and "manager_visitor v (m\<lparr>sm_session := Some (s\<lparr>se_user := u\<rparr>)\<rparr>)"
  using assms by (simp_all add: manager_visitor_def)

lemma visitor_step: "manager_step m n \<Longrightarrow> manager_visitor v m \<Longrightarrow> manager_visitor v n"
proof (induction rule: manager_step.induct)
  case (load m cfg env)
  then show ?case by (rule visitor_getOrCreate(2))
next
  case (cross m ci)
  then show ?case by (simp add: setCrossDomainInput_def manager_visitor_def)
next
  case (new_page m)
  then show ?case by (simp add: manager_visitor_def visitor_ok_def)
next
  case (update f m now)
  show ?case
  proof (cases "sm_session m")
    case None
    with update show ?thesis by (simp add: updateSession_def)
  next
    case (Some s)
    with update.prems have "visitor_ok v (Some s)" by (simp add: manager_visitor_def)
    then have "visitor_ok v (Some ((f s)\<lparr>se_updated := now, se_last_active := now\<rparr>))"
      by (simp add: visitor_ok_def update.hyps)
    with Some update.prems show ?thesis by (simp add: updateSession_def visitor_set)
  qed
next
  case (dimension i w m m1)
  then show ?case
    by (auto simp: setDimension_def intro!: visitor_save visitor_saveDimensions visitor_change
        split: if_splits option.splits)
next
  case (clear m)
  then show ?case
    by (auto simp: clearDimensions_def intro!: visitor_save visitor_saveDimensions visitor_change split: option.split)
next
  case (url m ds)
  then show ?case
    by (auto simp: applyUrlDimensions_def Let_def intro!: visitor_save visitor_saveDimensions visitor_change
        split: option.split prod.split)
next
  case (user u m m1)
  then show ?case
    by (auto simp: setUserId_def intro!: visitor_save visitor_saveUserId visitor_change split: if_splits option.splits)
qed

lemma visitor_steps: "manager_steps m n \<Longrightarrow> manager_visitor v m \<Longrightarrow> manager_visitor v n"
  by (induction rule: manager_steps.induct) (auto intro: visitor_step)

text \<open>
  One browser keeps one visitor: once an identity is stored, no sequence of operations other than
  reset changes it (page loads long after the session expired, cross-domain arrivals, user and
  dimension changes), and every session that a page load then resumes or creates carries it. This
  is on storage the browser serves without a quota, or on the memory fallback.
\<close>
theorem visitor_id_stable:
  assumes "manager_visitor v m" and "manager_steps m n"
  shows "se_visitor (fst (getOrCreateSession cfg env n)) = Some v \<and>
     fst (storage_get (key_text K_visitor_id) (sm_storage (snd (getOrCreateSession cfg env n)))) = Some (JsStr v)"
proof -
  have n: "manager_visitor v n" using visitor_steps [OF assms(2,1)] .
  show ?thesis
    using visitor_getOrCreate [OF n, of cfg env] by (simp add: manager_visitor_def)
qed

subsection \<open>Which session a page load belongs to\<close>

definition sample_config :: sdk_config where
  "sample_config = \<lparr>co_workspace = ''w'', co_timeout = 1800000, co_adClickIds = [''gclid'']\<rparr>"

definition sample_env :: "int \<Rightarrow> string \<Rightarrow> page_env" where
  "sample_env now n =
     \<lparr>pe_now = now, pe_href = ''https://a.fr/'', pe_referrer = [], pe_params = Map.empty, pe_version = ''1'',
      pe_session_uuid = ''s'' @ n, pe_visitor_uuid = ''v'' @ n\<rparr>"

definition new_manager :: session_manager where
  "new_manager = \<lparr>sm_storage = \<lparr>st_useMemory = False, st_memory = [], st_area =
      \<lparr>ws_items = [], ws_blocked = False, ws_quota = None\<rparr>\<rparr>, sm_session = None, sm_tab = ''t'', sm_cross = None\<rparr>"

definition known_visitor :: session_manager where
  "known_visitor = new_manager\<lparr>sm_storage := storage_set (key_text K_visitor_id) (JsStr ''v1'') (sm_storage new_manager)\<rparr>"

lemma new_manager_storage:
  "storage_ok (sm_storage new_manager)" "fst (storage_get k (sm_storage new_manager)) = None"
  by (simp_all add: new_manager_def storage_ok_def area_ok_def storage_get_def ws_getItem_def)

lemma visitor_id_stable_witness:
  "se_visitor (fst (getOrCreateSession sample_config (sample_env 9000000 ''2'')
      (snd (getOrCreateSession sample_config (sample_env 0 ''1'') known_visitor)))) = Some ''v1''"
proof -
  have "manager_visitor ''v1'' known_visitor"
    using new_manager_storage
    by (simp add: known_visitor_def manager_visitor_def kv_simps visitor_ok_def not_null_def)
      (simp add: new_manager_def)
  moreover have "manager_steps known_visitor (snd (getOrCreateSession sample_config (sample_env 0 ''1'') known_visitor))"
    by (rule manager_steps.more [OF manager_steps.none manager_step.load])
  ultimately show ?thesis by (rule visitor_id_stable [THEN conjunct1])
qed

text \<open>
  A page load belongs to the stored session exactly when one is stored that was active within the
  timeout and no valid cross-domain hand-over takes precedence: then the session keeps its identity
  with its sequence number advanced; otherwise the load starts a session under the handed-over or a
  fresh identity, with the sequence at zero.
\<close>
theorem getOrCreateSession_identity:
  assumes "storage_ok (sm_storage m)"
  shows "(se_id (fst (getOrCreateSession cfg env m)), se_sequence (fst (getOrCreateSession cfg env m))) =
     (case sm_cross m of
        Some ci \<Rightarrow> if isValidCrossDomain (pe_now env) ci then (ci_session ci, 0)
          else (case Option.bind (fst (storage_get (key_text K_session) (sm_storage m))) as_session of
                  Some s \<Rightarrow> if pe_now env - se_last_active s \<le> co_timeout cfg then (se_id s, se_sequence s + 1)
                            else (pe_session_uuid env, 0)
                | None \<Rightarrow> (pe_session_uuid env, 0))
      | None \<Rightarrow> (case Option.bind (fst (storage_get (key_text K_session) (sm_storage m))) as_session of
                  Some s \<Rightarrow> if pe_now env - se_last_active s \<le> co_timeout cfg then (se_id s, se_sequence s + 1)
                            else (pe_session_uuid env, 0)
                | None \<Rightarrow> (pe_session_uuid env, 0)))"
proof -
  have create: "se_id (fst (createSessionWith i cfg env n)) = i \<and> se_sequence (fst (createSessionWith i cfg env n)) = 0" for i n
    by (simp add: createSessionWith_def case_prod_beta Let_def)
  have resume: "se_id (fst (resumeSession env s n)) = se_id s \<and> se_sequence (fst (resumeSession env s n)) = se_sequence s + 1" for s n
    by (simp add: resumeSession_def case_prod_beta Let_def)
  show ?thesis
    using create resume local_kv.get_keeps [OF assms]
    by (simp add: getOrCreateSession_def getOrCreateStored_def createSession_def createSessionFromCrossDomain_def
        isSessionExpired_def case_prod_beta split: option.split)
qed

lemma getOrCreateSession_identity_witness:
  "(se_id (fst (getOrCreateSession sample_config (sample_env 5 ''1'') new_manager)),
    se_sequence (fst (getOrCreateSession sample_config (sample_env 5 ''1'') new_manager))) = (''s1'', 0)"
proof -
  have ok: "storage_ok (sm_storage new_manager)" by (simp add: new_manager_def storage_ok_def area_ok_def)
  have "fst (storage_get k (sm_storage new_manager)) = None" "sm_cross new_manager = None" for k
    by (simp_all add: new_manager_def storage_get_def ws_getItem_def)
  then show ?thesis
    unfolding getOrCreateSession_identity [OF ok] by (simp add: sample_env_def)
qed

lemma createSession_fresh:
  assumes "storage_ok st" and "\<And>k. k \<in> {K_session, K_dimensions, K_user_id, K_visitor_id} \<Longrightarrow> fst (storage_get (key_text k) st) = None"
    and "s = fst (createSession cfg env (m\<lparr>sm_storage := st, sm_session := None\<rparr>))"
  shows "se_id s = pe_session_uuid env" "se_visitor s = Some (pe_visitor_uuid env)" "se_dimensions s = []" "se_user s = None"
  using assms(2) local_kv.get_keeps [OF assms(1)]
  by (simp_all add: assms(3) createSession_def createSessionWith_def loadDimensions_def loadUserId_def
      loadOrCreateVisitorId_def as_dims_def case_prod_beta Let_def)

text \<open>
  A reset leaves nothing of the former visitor: the new session has a fresh identity and a fresh
  visitor, no custom dimension and no user.
\<close>
theorem reset_forgets:
  assumes "storage_ok (sm_storage m)"
  shows "se_id (fst (reset_manager cfg env m)) = pe_session_uuid env \<and>
     se_visitor (fst (reset_manager cfg env m)) = Some (pe_visitor_uuid env) \<and>
     se_dimensions (fst (reset_manager cfg env m)) = [] \<and> se_user (fst (reset_manager cfg env m)) = None"
proof -
  let ?st = "fold storage_remove (map key_text [K_session, K_dimensions, K_user_id, K_visitor_id]) (sm_storage m)"
  have ok: "storage_ok ?st" by (rule local_kv.drops_inv [OF assms])
  have none: "fst (storage_get (key_text k) ?st) = None" if "k \<in> {K_session, K_dimensions, K_user_id, K_visitor_id}" for k
    unfolding local_kv.get_drops [OF assms] using that by auto
  show ?thesis
    unfolding reset_manager_def
    by (intro conjI createSession_fresh [OF ok none refl])
qed

lemma reset_forgets_witness:
  "se_visitor (fst (reset_manager sample_config (sample_env 0 ''9'') new_manager)) = Some ''v9''"
proof -
  have "storage_ok (sm_storage new_manager)" by (simp add: new_manager_def storage_ok_def area_ok_def)
  from reset_forgets [OF this, of sample_config "sample_env 0 ''9''"] show ?thesis by (simp add: sample_env_def)
qed

end
