(* ===== verification/Uuid.thy ===== *)
theory Uuid
  imports Json "HOL-Library.Word" "HOL-Library.List_Lexorder" "HOL-Library.Char_ord"
begin

section \<open>Identifiers\<close>

text \<open>
  \<^verbatim>\<open>sdk/src/utils/uuid.ts\<close>, the test of \<^verbatim>\<open>sdk/src/core/cross-domain.ts\<close> that recognises such
  identifiers, and the hash of \<^verbatim>\<open>sdk/src/utils/fingerprint.ts\<close>. Random bytes are arguments.
\<close>

unbundle bit_operations_syntax

subsection \<open>Hexadecimal text\<close>

fun to_hex :: "nat \<Rightarrow> string" where
  "to_hex n = (if n < 16 then [hex_digit n] else to_hex (n div 16) @ [hex_digit (n mod 16)])"

declare to_hex.simps [simp del]

definition pad_start :: "nat \<Rightarrow> string \<Rightarrow> string" where
  "pad_start k s = replicate (k - length s) (CHR ''0'') @ s"

primrec fixed_hex :: "nat \<Rightarrow> nat \<Rightarrow> string" where
  "fixed_hex 0 n = []"
| "fixed_hex (Suc k) n = fixed_hex k (n div 16) @ [hex_digit (n mod 16)]"

lemma length_fixed_hex [simp]: "length (fixed_hex k n) = k"
  by (induction k arbitrary: n) simp_all

lemma hex_digit_0 [simp]: "hex_digit 0 = CHR ''0''"
  by code_simp

lemma fixed_hex_0 [simp]: "fixed_hex k 0 = replicate k (CHR ''0'')"
  by (induction k) (simp_all flip: replicate_append_same)

lemma pad_start_snoc: "pad_start (Suc k) (s @ [c]) = pad_start k s @ [c]"
  by (simp add: pad_start_def)

lemma to_hex_padded: "n < 16 ^ k \<Longrightarrow> 0 < k \<Longrightarrow> pad_start k (to_hex n) = fixed_hex k n"
proof (induction n arbitrary: k rule: to_hex.induct)
  case (1 n)
  obtain j where k: "k = Suc j" using "1.prems" by (cases k) auto
  show ?case
  proof (cases "n < 16")
    case True
    then show ?thesis by (subst to_hex.simps) (simp add: k pad_start_def)
  next
    case False
    with "1.prems" have "n div 16 < 16 ^ j" "0 < j" by (auto simp: k less_mult_imp_div_less mult.commute intro: Nat.gr0I)
    with 1 False have "pad_start j (to_hex (n div 16)) = fixed_hex j (n div 16)" by simp
    with False show ?thesis by (subst to_hex.simps) (simp add: k pad_start_snoc)
  qed
qed

definition is_hex :: "char \<Rightarrow> bool" where
  "is_hex c = (hex_value c \<noteq> None)"

lemma is_hex_digit [simp]: "d < 16 \<Longrightarrow> is_hex (hex_digit d)"
  by (simp add: is_hex_def)

lemma fixed_hex_is_hex: "list_all is_hex (fixed_hex k n)"
  by (induction k arbitrary: n) simp_all

subsection \<open>The recogniser\<close>

(* src: sdk/src/core/cross-domain.ts:8-8 UUID_REGEX *)
definition is_uuid :: "string \<Rightarrow> bool" where
  "is_uuid s =
     (case js_split (CHR ''-'') s of
        [a, b, c, d, e] \<Rightarrow>
          length a = 8 \<and> length b = 4 \<and> length c = 4 \<and> length d = 4 \<and> length e = 12 \<and>
          list_all is_hex (a @ b @ c @ d @ e)
      | _ \<Rightarrow> False)"

lemma js_split_none: "c \<notin> set s \<Longrightarrow> js_split c s = [s]"
  by (induction s) auto

lemma js_split_sep: "c \<notin> set s \<Longrightarrow> js_split c (s @ c # t) = s # js_split c t"
  by (induction s) (auto split: list.split)

lemma js_split_of_join:
  "ts \<noteq> [] \<Longrightarrow> \<forall>t \<in> set ts. c \<notin> set t \<Longrightarrow> js_split c (js_join [c] ts) = ts"
proof (induction ts)
  case Nil
  then show ?case by simp
next
  case (Cons t ts)
  then show ?case by (cases ts) (simp_all add: js_split_none js_split_sep)
qed

lemma not_hex_dash: "\<not> is_hex (CHR ''-'')"
  by (simp add: is_hex_def hex_value_def)

lemma hex_no_dash: "list_all is_hex s \<Longrightarrow> CHR ''-'' \<notin> set s"
  using not_hex_dash by (auto simp: list_all_iff)

lemma is_uuid_join:
  assumes "length a = 8" "length b = 4" "length c = 4" "length d = 4" "length e = 12"
    and "list_all is_hex (a @ b @ c @ d @ e)"
  shows "is_uuid (js_join ''-'' [a, b, c, d, e])"
proof -
  have "js_split (CHR ''-'') (js_join ''-'' [a, b, c, d, e]) = [a, b, c, d, e]"
    by (rule js_split_of_join) (use assms(6) hex_no_dash in auto)
  with assms show ?thesis by (simp only: is_uuid_def) simp
qed

subsection \<open>Generation\<close>

definition byte_hex :: "8 word \<Rightarrow> string" where
  "byte_hex b = pad_start 2 (to_hex (unat b))"

definition js_slice :: "nat \<Rightarrow> nat \<Rightarrow> string \<Rightarrow> string" where
  "js_slice i j s = take (j - i) (drop i s)"

(* src: sdk/src/utils/uuid.ts:11-25 generateUUIDv4 *)
definition generateUUIDv4 :: "string option \<Rightarrow> 8 word list \<Rightarrow> string" where
  "generateUUIDv4 native bytes =
     (case native of
        Some u \<Rightarrow> u
      | None \<Rightarrow>
          (let b1 = bytes[6 := (bytes ! 6 AND 0x0f) OR 0x40];
               b2 = b1[8 := (b1 ! 8 AND 0x3f) OR 0x80];
               hex = concat (map byte_hex b2)
           in js_join ''-'' [js_slice 0 8 hex, js_slice 8 12 hex, js_slice 12 16 hex, js_slice 16 20 hex, drop 20 hex]))"

definition variant_digit :: "char \<Rightarrow> string" where
  "variant_digit c = to_hex ((js_nullish (hex_value c) 0 AND 3) OR 8)"

(* src: sdk/src/utils/uuid.ts:31-52 generateUUIDv7 *)
definition generateUUIDv7 :: "nat \<Rightarrow> 8 word list \<Rightarrow> string" where
  "generateUUIDv7 timestamp randomBytes =
     (let timestampHex = pad_start 12 (to_hex timestamp);
          randomHex = concat (map byte_hex randomBytes)
      in js_join ''-''
           [js_slice 0 8 timestampHex, js_slice 8 12 timestampHex,
            ''7'' @ js_slice 0 3 randomHex,
            variant_digit (hd (js_slice 3 4 randomHex)) @ js_slice 4 7 randomHex,
            js_slice 7 19 randomHex])"

lemma byte_hex_fixed: "byte_hex b = fixed_hex 2 (unat b)"
proof -
  have "unat b < 2 ^ LENGTH(8)" by (rule unsigned_less)
  then show ?thesis using to_hex_padded [of "unat b" 2] by (simp add: byte_hex_def)
qed

lemma length_bytes_hex [simp]: "length (concat (map byte_hex bs)) = 2 * length bs"
  by (induction bs) (simp_all add: byte_hex_fixed del: fixed_hex.simps)

lemma bytes_hex_is_hex: "list_all is_hex (concat (map byte_hex bs))"
  using fixed_hex_is_hex by (induction bs) (simp_all add: byte_hex_fixed del: fixed_hex.simps)

lemma list_all_slice [simp]: "list_all P s \<Longrightarrow> list_all P (js_slice i j s)"
  by (auto simp: js_slice_def list_all_iff dest!: in_set_takeD in_set_dropD)

lemma length_slice [simp]: "length (js_slice i j s) = min (j - i) (length s - i)"
  by (simp add: js_slice_def min_def)

lemma variant_digit_hex: "length (variant_digit c) = 1 \<and> list_all is_hex (variant_digit c)"
proof -
  have "(n AND 3) OR 8 < 16" for n :: nat
  proof -
    have "n AND mask 2 = n mod 4" by (simp add: take_bit_eq_mod flip: take_bit_eq_mask)
    then have "n AND 3 = n mod 4" by (simp add: mask_eq_exp_minus_1)
    moreover have "n mod 4 = 0 \<or> n mod 4 = 1 \<or> n mod 4 = 2 \<or> n mod 4 = 3" by presburger
    ultimately show ?thesis by auto
  qed
  then show ?thesis by (simp add: variant_digit_def to_hex.simps)
qed

lemma string_less_append:
  fixes a b c d :: string
  assumes "length a = length c"
  shows "a @ b < c @ d \<longleftrightarrow> a < c \<or> a = c \<and> b < d"
  using assms by (induction a c rule: list_induct2) auto

lemma hex_digit_less: "d < e \<Longrightarrow> e < 16 \<Longrightarrow> hex_digit d < hex_digit e"
proof -
  assume "d < e" "e < 16"
  then have "(of_char (hex_digit d) :: nat) < of_char (hex_digit e)"
    by (auto simp: hex_digit_def)
  then show ?thesis by (simp add: less_char_def)
qed

lemma fixed_hex_less: "m < n \<Longrightarrow> n < 16 ^ k \<Longrightarrow> fixed_hex k m < fixed_hex k n"
proof (induction k arbitrary: m n)
  case 0
  then show ?case by simp
next
  case (Suc k)
  show ?case
  proof (cases "m div 16 = n div 16")
    case True
    with Suc.prems have "m mod 16 < n mod 16"
      by (metis div_mult_mod_eq nat_add_left_cancel_less)
    with True show ?thesis by (simp add: string_less_append hex_digit_less)
  next
    case False
    with Suc.prems have "m div 16 < n div 16" "n div 16 < 16 ^ k"
      by (auto simp: div_le_mono le_neq_implies_less less_mult_imp_div_less mult.commute)
    with Suc.IH show ?thesis by (simp add: string_less_append)
  qed
qed

lemma timestamp_hex: "n < 2 ^ 48 \<Longrightarrow> pad_start 12 (to_hex n) = fixed_hex 12 n"
  by (rule to_hex_padded) simp_all

lemma uuid_v7_format:
  assumes "t < 2 ^ 48" and "length bs = 10"
  shows "is_uuid (generateUUIDv7 t bs)"
proof -
  have hex: "list_all is_hex (fixed_hex 12 n)" for n by (rule fixed_hex_is_hex)
  have seven: "is_hex (CHR ''7'')" by (simp add: is_hex_def hex_value_def)
  show ?thesis
    unfolding generateUUIDv7_def Let_def timestamp_hex [OF assms(1)]
    by (rule is_uuid_join)
      (use assms(2) hex bytes_hex_is_hex variant_digit_hex seven in
        \<open>simp_all add: list_all_append del: fixed_hex.simps\<close>)
qed

lemma uuid_v7_order:
  assumes "u < t" and "t < 2 ^ 48"
  shows "generateUUIDv7 u cs < generateUUIDv7 t bs"
proof -
  have "fixed_hex 12 u < fixed_hex 12 t" by (rule fixed_hex_less [OF assms(1)]) (use assms(2) in simp)
  moreover have "fixed_hex 12 n = js_slice 0 8 (fixed_hex 12 n) @ js_slice 8 12 (fixed_hex 12 n)" for n
    unfolding js_slice_def by (simp del: fixed_hex.simps)
  ultimately have "js_slice 0 8 (fixed_hex 12 u) < js_slice 0 8 (fixed_hex 12 t) \<or>
      js_slice 0 8 (fixed_hex 12 u) = js_slice 0 8 (fixed_hex 12 t) \<and>
      js_slice 8 12 (fixed_hex 12 u) < js_slice 8 12 (fixed_hex 12 t)"
    by (metis string_less_append length_slice length_fixed_hex)
  moreover have "u < 2 ^ 48" using assms by simp
  ultimately show ?thesis
    unfolding generateUUIDv7_def Let_def timestamp_hex [OF assms(2)] timestamp_hex [OF \<open>u < 2 ^ 48\<close>] js_join.simps
    by (auto simp: string_less_append simp del: fixed_hex.simps)
qed

text \<open>
  A generated identifier has the format the cross-domain reader insists on, for every clock value
  below 2 to the 48 (the year 10889) and whatever ten bytes the browser draws, and identifiers
  sort as text in the order of their creation times.
\<close>
theorem generateUUIDv7_valid:
  assumes "t < 2 ^ 48" and "length bs = 10"
  shows "is_uuid (generateUUIDv7 t bs) \<and> (\<forall>u cs. u < t \<longrightarrow> generateUUIDv7 u cs < generateUUIDv7 t bs)"
  using uuid_v7_format [OF assms] uuid_v7_order [OF _ assms(1)] by blast

lemma generateUUIDv7_valid_witness:
  "is_uuid (generateUUIDv7 1700000000000 (replicate 10 255)) \<and>
   generateUUIDv7 1699999999999 (replicate 10 255) < generateUUIDv7 1700000000000 (replicate 10 0)"
  using generateUUIDv7_valid [of 1700000000000 "replicate 10 255"]
    generateUUIDv7_valid [of 1700000000000 "replicate 10 0"]
  by simp

subsection \<open>The fingerprint's hash\<close>

text \<open>
  \<open>hash * 33\<close> is computed on a double and then truncated to 32 bits by \<open>^\<close>; the
  product stays far below \<open>2 ^ 53\<close>, so the whole is arithmetic on 32-bit words.
\<close>

(* src: sdk/src/utils/fingerprint.ts:22-30 hashToBase36 *)
definition fingerprint_hash :: "string \<Rightarrow> 32 word" where
  "fingerprint_hash s = foldl (\<lambda>h c. (h * 33) XOR of_nat (of_char c)) 5381 s"

definition base36_digit :: "nat \<Rightarrow> char" where
  "base36_digit d = (if d < 10 then char_of (48 + d) else char_of (87 + d))"

fun to_base36 :: "nat \<Rightarrow> string" where
  "to_base36 n = (if n < 36 then [base36_digit n] else to_base36 (n div 36) @ [base36_digit (n mod 36)])"

declare to_base36.simps [simp del]

(* src: sdk/src/utils/fingerprint.ts:22-30 hashToBase36 *)
definition hashToBase36 :: "string \<Rightarrow> string" where
  "hashToBase36 s = to_base36 (unat (fingerprint_hash s))"

(* src: sdk/src/utils/fingerprint.ts:60-79 computeFingerprint *)
definition computeFingerprint :: "string list \<Rightarrow> string" where
  "computeFingerprint parts = (if list_all (\<lambda>p. p = []) parts then [] else hashToBase36 (js_join ''|'' parts))"

lemma to_base36_length: "n < 36 ^ k \<Longrightarrow> 0 < k \<Longrightarrow> length (to_base36 n) \<le> k"
proof (induction n arbitrary: k rule: to_base36.induct)
  case (1 n)
  obtain j where k: "k = Suc j" using "1.prems" by (cases k) auto
  show ?case
  proof (cases "n < 36")
    case True
    then show ?thesis by (subst to_base36.simps) (simp add: k)
  next
    case False
    with "1.prems" have "n div 36 < 36 ^ j" "0 < j"
      by (auto simp: k less_mult_imp_div_less mult.commute intro: Nat.gr0I)
    with 1 False show ?thesis by (subst to_base36.simps) (simp add: k)
  qed
qed

lemma fingerprint_length: "length (computeFingerprint parts) \<le> 7"
proof -
  have "unat (fingerprint_hash s) < 36 ^ 7" for s
  proof -
    have "unat (fingerprint_hash s) < 2 ^ LENGTH(32)" by (rule unsigned_less)
    then show ?thesis by simp
  qed
  then show ?thesis by (simp add: computeFingerprint_def hashToBase36_def to_base36_length)
qed

end
