(* ===== verification/Cross_Domain.thy ===== *)
theory Cross_Domain
  imports Sdk_Session Uuid
begin

section \<open>Handing a session over to another domain\<close>

text \<open>
  \<^verbatim>\<open>sdk/src/core/cross-domain.ts\<close>: a link to a configured sister domain is decorated with the
  session's identity, as JSON in URL-safe base64; the page it leads to reads it back within a time
  window. Base64 is that of \<open>btoa\<close> and \<open>atob\<close>, the latter forgiving missing padding
  as the HTML standard has it. Parsing addresses is an argument.
\<close>

subsection \<open>Base64\<close>

fun b64_sextets :: "nat list \<Rightarrow> nat list" where
  "b64_sextets [] = []"
| "b64_sextets [a] = [a div 4, (a mod 4) * 16]"
| "b64_sextets [a, b] = [a div 4, (a mod 4) * 16 + b div 16, (b mod 16) * 4]"
| "b64_sextets (a # b # c # r) =
     [a div 4, (a mod 4) * 16 + b div 16, (b mod 16) * 4 + c div 64, c mod 64] @ b64_sextets r"

fun b64_bytes :: "nat list \<Rightarrow> nat list option" where
  "b64_bytes [] = Some []"
| "b64_bytes [x] = None"
| "b64_bytes [x, y] = Some [x * 4 + y div 16]"
| "b64_bytes [x, y, z] = Some [x * 4 + y div 16, (y mod 16) * 16 + z div 4]"
| "b64_bytes (x # y # z # w # r) =
     map_option (\<lambda>bs. [x * 4 + y div 16, (y mod 16) * 16 + z div 4, (z mod 4) * 64 + w] @ bs) (b64_bytes r)"

lemma nibbles: "(b :: nat) < 256 \<Longrightarrow> b div 16 < 16" "(b :: nat) < 256 \<Longrightarrow> b div 4 < 64" "(b :: nat) < 256 \<Longrightarrow> b div 64 < 4"
  by (simp_all add: less_mult_imp_div_less)

lemma join_bits:
  fixes a m n y :: nat
  assumes "y < n" "0 < n"
  shows "((a mod m) * n + y) div n = a mod m" "((a mod m) * n + y) mod n = y"
  using assms by (simp_all add: div_add1_eq)

lemma b64_roundtrip: "\<forall>b \<in> set bs. b < 256 \<Longrightarrow> b64_bytes (b64_sextets bs) = Some bs"
proof (induction bs rule: b64_sextets.induct)
  case (4 a b c r)
  then have "b div 16 < 16" "c div 64 < 4" by (simp_all add: nibbles)
  with 4 show ?case by (simp add: join_bits)
next
  case (3 a b)
  then have "b div 16 < 16" by (simp add: nibbles)
  then show ?case by (simp add: join_bits)
qed simp_all

lemma b64_sextets_bound: "\<forall>b \<in> set bs. b < 256 \<Longrightarrow> \<forall>x \<in> set (b64_sextets bs). x < 64"
proof (induction bs rule: b64_sextets.induct)
  case (4 a b c r)
  have "a mod 4 < 4" "b mod 16 < 16" by simp_all
  moreover from 4 have "b div 16 < 16" "c div 64 < 4" "a div 4 < 64" by (simp_all add: nibbles)
  ultimately have "a div 4 < 64" "(a mod 4) * 16 + b div 16 < 64" "(b mod 16) * 4 + c div 64 < 64" by linarith+
  with 4 show ?case by simp
next
  case (3 a b)
  have "a mod 4 < 4" "b mod 16 < 16" by simp_all
  moreover from 3 have "b div 16 < 16" "a div 4 < 64" by (simp_all add: nibbles)
  ultimately have "a div 4 < 64" "(a mod 4) * 16 + b div 16 < 64" "(b mod 16) * 4 < 64" by linarith+
  then show ?case by simp
next
  case (2 a)
  have "a mod 4 < 4" by simp
  moreover from 2 have "a div 4 < 64" by (simp add: nibbles)
  ultimately have "a div 4 < 64" "(a mod 4) * 16 < 64" by linarith+
  then show ?case by simp
qed simp

definition b64_char :: "nat \<Rightarrow> char" where
  "b64_char n =
     (if n < 26 then char_of (65 + n) else if n < 52 then char_of (71 + n)
      else if n < 62 then char_of (n - 4) else if n = 62 then CHR ''+'' else CHR ''/'')"

definition b64_value :: "char \<Rightarrow> nat option" where
  "b64_value c =
     (let n = (of_char c :: nat)
      in if 65 \<le> n \<and> n \<le> 90 then Some (n - 65) else if 97 \<le> n \<and> n \<le> 122 then Some (n - 71)
         else if 48 \<le> n \<and> n \<le> 57 then Some (n + 4) else if n = 43 then Some 62 else if n = 47 then Some 63 else None)"

lemma b64_value_char [simp]: "n < 64 \<Longrightarrow> b64_value (b64_char n) = Some n"
  by (auto simp: b64_value_def b64_char_def Let_def)

definition b64_padding :: "nat \<Rightarrow> string" where
  "b64_padding n = (if n mod 3 = 1 then ''=='' else if n mod 3 = 2 then ''='' else [])"

definition btoa :: "string \<Rightarrow> string" where
  "btoa s = map b64_char (b64_sextets (map of_char s)) @ b64_padding (length s)"

text \<open>White space is dropped; of a text whose length is a multiple of four at most two equals signs go.\<close>

definition atob_strip :: "string \<Rightarrow> string" where
  "atob_strip s =
     (let t = filter (\<lambda>c. (of_char c :: nat) \<notin> {9, 10, 12, 13, 32}) s
      in if length t mod 4 = 0 then
           (if js_ends_with t ''=='' then take (length t - 2) t
            else if js_ends_with t ''='' then butlast t else t)
         else t)"

definition atob :: "string \<Rightarrow> string option" where
  "atob s =
     Option.bind (all_some (map b64_value (atob_strip s)))
       (\<lambda>xs. map_option (map char_of) (b64_bytes xs))"

subsection \<open>The token\<close>

(* src: sdk/src/core/cross-domain.ts:11-14 CrossDomainPayload *)
record cd_payload =
  cd_s :: string
  cd_t :: int

(* src: sdk/src/core/cross-domain.ts:7-7 PARAM_NAME *)
definition PARAM_NAME :: string where
  "PARAM_NAME = ''_stm''"

definition payload_json :: "cd_payload \<Rightarrow> json" where
  "payload_json p = JsObj [(''s'', JsStr (cd_s p)), (''t'', JsInt (cd_t p))]"

definition strip_equals :: "string \<Rightarrow> string" where
  "strip_equals s = rev (dropWhile (\<lambda>c. c = CHR ''='') (rev s))"

(* src: sdk/src/core/cross-domain.ts:25-30 encode *)
definition cd_encode :: "cd_payload \<Rightarrow> string" where
  "cd_encode p =
     strip_equals (js_replace_char (CHR ''/'') ''_''
       (js_replace_char (CHR ''+'') ''-'' (btoa (json_print (payload_json p)))))"

(* src: sdk/src/core/cross-domain.ts:36-60 decode *)
definition cd_decode :: "string \<Rightarrow> cd_payload option" where
  "cd_decode encoded =
     (let base64 = js_replace_char (CHR ''_'') ''/'' (js_replace_char (CHR ''-'') ''+'' encoded)
      in case Option.bind (atob base64) json_parse of
           None \<Rightarrow> None
         | Some payload \<Rightarrow>
             (case (as_string (json_field payload ''s''), as_int (json_field payload ''t'')) of
                (Some s, Some t) \<Rightarrow> if is_uuid s then Some \<lparr>cd_s = s, cd_t = t\<rparr> else None
              | _ \<Rightarrow> None))"

subsection \<open>Decorating and reading\<close>

(* src: sdk/src/core/cross-domain.ts:16-20 CrossDomainConfig *)
record cd_config =
  cc_domains :: "string list"
  cc_expiry :: int

(* src: sdk/src/core/cross-domain.ts:229-231 normalizeHostname *)
definition normalizeHostname :: "string \<Rightarrow> string" where
  "normalizeHostname h = (let l = js_lower h in if js_starts_with l ''www.'' then drop 4 l else l)"

text \<open>
  A parsed address: its host name and its query, the rest opaque. \<open>parse\<close> is the
  constructor \<open>new URL(url, origin)\<close>, which throws on a malformed address.
\<close>

record 'rest url =
  url_host :: string
  url_query :: "(string \<times> string) list"
  url_rest :: 'rest

(* src: sdk/src/core/cross-domain.ts:201-224 shouldDecorate *)
definition shouldDecorate :: "(string \<Rightarrow> 'rest url option) \<Rightarrow> string \<Rightarrow> cd_config \<Rightarrow> string \<Rightarrow> bool" where
  "shouldDecorate parse here cfg u =
     (case parse u of
        None \<Rightarrow> False
      | Some parsed \<Rightarrow>
          if url_host parsed = here then False
          else let target = normalizeHostname (url_host parsed)
               in list_ex (\<lambda>domain. let d = normalizeHostname domain
                                    in target = d \<or> js_ends_with target (''.'' @ d)) (cc_domains cfg))"

(* src: sdk/src/core/cross-domain.ts:173-196 decorateUrl *)
definition decorateUrl ::
    "(string \<Rightarrow> 'rest url option) \<Rightarrow> ('rest url \<Rightarrow> string) \<Rightarrow> string \<Rightarrow> cd_config \<Rightarrow> string \<Rightarrow> int \<Rightarrow> string \<Rightarrow> string" where
  "decorateUrl parse print here cfg sessionId now_ms u =
     (if sessionId = [] then u
      else if \<not> shouldDecorate parse here cfg u then u
      else (case parse u of
              None \<Rightarrow> u
            | Some parsed \<Rightarrow>
                print (parsed\<lparr>url_query := AList.update PARAM_NAME
                  (cd_encode \<lparr>cd_s = sessionId, cd_t = now_ms div 1000\<rparr>) (url_query parsed)\<rparr>)))"

(* src: sdk/src/core/cross-domain.ts:237-269 readParam *)
definition readParam :: "int \<Rightarrow> int \<Rightarrow> (string \<times> string) list \<Rightarrow> cd_payload option" where
  "readParam expiry now_ms query =
     (case map_of query PARAM_NAME of
        None \<Rightarrow> None
      | Some encoded \<Rightarrow>
          if encoded = [] then None
          else (case cd_decode encoded of
                  None \<Rightarrow> None
                | Some p \<Rightarrow>
                    (let now = now_ms div 1000; age = now - cd_t p
                     in if age > expiry then None
                        else if cd_t p > now + CLOCK_SKEW_TOLERANCE then None else Some p)))"

(* src: sdk/src/core/cross-domain.ts:274-294 stripParam *)
definition stripParam :: "'rest url \<Rightarrow> 'rest url" where
  "stripParam u =
     (if PARAM_NAME \<notin> fst ` set (url_query u) then u
      else u\<lparr>url_query := AList.delete PARAM_NAME (url_query u)\<rparr>)"

subsection \<open>The token reads back\<close>

definition url_char :: "nat \<Rightarrow> char" where
  "url_char n = (if n = 62 then CHR ''-'' else if n = 63 then CHR ''_'' else b64_char n)"

lemma b64_value_special:
  "b64_value (CHR ''+'') = Some 62" "b64_value (CHR ''/'') = Some 63" "b64_value (CHR ''='') = None"
  "b64_value (CHR ''-'') = None" "b64_value (CHR ''_'') = None"
  "(of_char c :: nat) \<in> {9, 10, 12, 13, 32} \<Longrightarrow> b64_value c = None"
  by (auto simp: b64_value_def)

lemma b64_char_facts:
  assumes "n < 64"
  shows "b64_char n = CHR ''+'' \<longleftrightarrow> n = 62" "b64_char n = CHR ''/'' \<longleftrightarrow> n = 63" "b64_char n \<noteq> CHR ''=''"
    "b64_char n \<noteq> CHR ''-''" "b64_char n \<noteq> CHR ''_''" "(of_char (b64_char n) :: nat) \<notin> {9, 10, 12, 13, 32}"
proof -
  note v = b64_value_char [OF assms]
  show "b64_char n = CHR ''+'' \<longleftrightarrow> n = 62" using v b64_value_special(1) by (auto simp: b64_char_def)
  show "b64_char n = CHR ''/'' \<longleftrightarrow> n = 63" using v b64_value_special(2) by (auto simp: b64_char_def)
  show "b64_char n \<noteq> CHR ''=''" "b64_char n \<noteq> CHR ''-''" "b64_char n \<noteq> CHR ''_''"
    "(of_char (b64_char n) :: nat) \<notin> {9, 10, 12, 13, 32}"
    using v b64_value_special(3-6) by fastforce+
qed

lemma url_char_facts:
  assumes "n < 64"
  shows "url_char n \<noteq> CHR ''=''"
    "(if b64_char n = CHR ''+'' then CHR ''-'' else if b64_char n = CHR ''/'' then CHR ''_'' else b64_char n) = url_char n"
    "(if url_char n = CHR ''-'' then CHR ''+'' else if url_char n = CHR ''_'' then CHR ''/'' else url_char n) = b64_char n"
  using b64_char_facts [OF assms] by (auto simp: url_char_def)

lemma replace_char_map: "js_replace_char c [d] s = map (\<lambda>x. if x = c then d else x) s"
  by (induction s) simp_all

lemma strip_equals_append:
  assumes "CHR ''='' \<notin> set s" "set t \<subseteq> {CHR ''=''}"
  shows "strip_equals (s @ t) = s"
proof -
  have "dropWhile (\<lambda>c. c = CHR ''='') (rev t @ rev s) = dropWhile (\<lambda>c. c = CHR ''='') (rev s)"
    using assms(2) by (intro dropWhile_append2) auto
  also have "rev s = [] \<or> hd (rev s) \<noteq> CHR ''=''" using assms(1) by (metis hd_in_set set_rev)
  then have "dropWhile (\<lambda>c. c = CHR ''='') (rev s) = rev s" by (simp add: dropWhile_eq_self_iff)
  finally show ?thesis by (simp add: strip_equals_def)
qed

lemma cd_encode_map:
  "cd_encode p = map url_char (b64_sextets (map of_char (json_print (payload_json p))))"
proof -
  let ?s = "json_print (payload_json p)"
  let ?xs = "b64_sextets (map of_char ?s)"
  let ?f = "\<lambda>x. if x = CHR ''/'' then CHR ''_'' else x"
  let ?g = "\<lambda>x. if x = CHR ''+'' then CHR ''-'' else x"
  have b: "\<forall>x \<in> set ?xs. x < 64" using of_char_bound by (intro b64_sextets_bound) auto
  have "?f (?g (b64_char n)) = url_char n" if "n < 64" for n
    using url_char_facts(2) [OF that] by (auto split: if_splits)
  then have "map ?f (map ?g (map b64_char ?xs)) = map url_char ?xs" using b by (simp add: comp_def split del: if_split)
  moreover have "map ?f (map ?g (b64_padding n)) = b64_padding n" for n by (simp add: b64_padding_def)
  moreover have "CHR ''='' \<notin> set (map url_char ?xs)" using b url_char_facts(1) by fastforce
  moreover have "set (b64_padding n) \<subseteq> {CHR ''=''}" for n by (auto simp: b64_padding_def)
  ultimately show ?thesis
    by (simp add: cd_encode_def btoa_def replace_char_map strip_equals_append del: map_map)
qed

lemma atob_strip_plain:
  assumes "\<forall>c \<in> set s. (of_char c :: nat) \<notin> {9, 10, 12, 13, 32} \<and> c \<noteq> CHR ''=''"
  shows "atob_strip s = s"
proof -
  have "filter (\<lambda>c. (of_char c :: nat) \<notin> {9, 10, 12, 13, 32}) s = s" using assms by (intro filter_True) blast
  moreover have "CHR ''='' \<notin> set s" using assms by blast
  ultimately show ?thesis
    by (auto simp: atob_strip_def js_ends_with_suffix suffix_def)
qed

lemma atob_encode:
  "atob (js_replace_char (CHR ''_'') ''/'' (js_replace_char (CHR ''-'') ''+'' (cd_encode p))) = Some (json_print (payload_json p))"
proof -
  let ?s = "json_print (payload_json p)"
  let ?xs = "b64_sextets (map of_char ?s)"
  have bytes: "\<forall>b \<in> set (map of_char ?s). b < (256 :: nat)" using of_char_bound by auto
  have b: "\<forall>x \<in> set ?xs. x < 64" using b64_sextets_bound [OF bytes] .
  let ?f = "\<lambda>x. if x = CHR ''_'' then CHR ''/'' else x"
  let ?g = "\<lambda>x. if x = CHR ''-'' then CHR ''+'' else x"
  have "?f (?g (url_char n)) = b64_char n" if "n < 64" for n
    using url_char_facts(3) [OF that] by (auto split: if_splits)
  then have "map ?f (map ?g (map url_char ?xs)) = map b64_char ?xs" using b by (simp add: comp_def split del: if_split)
  then have "js_replace_char (CHR ''_'') ''/'' (js_replace_char (CHR ''-'') ''+'' (cd_encode p)) = map b64_char ?xs"
    by (simp only: cd_encode_map replace_char_map)
  moreover have "atob_strip (map b64_char ?xs) = map b64_char ?xs"
    using b b64_char_facts(3,6) by (intro atob_strip_plain) fastforce
  moreover have "all_some (map b64_value (map b64_char ?xs)) = Some ?xs"
    using all_some_map [of ?xs "\<lambda>x. b64_value (b64_char x)" "\<lambda>x. x"] b by (simp add: comp_def)
  moreover have "map char_of (map of_char ?s :: nat list) = ?s" by (simp add: comp_def)
  ultimately show ?thesis
    by (simp only: atob_def b64_roundtrip [OF bytes] bind.simps option.map)
qed

lemma cd_decode_encode: "is_uuid (cd_s p) \<Longrightarrow> cd_decode (cd_encode p) = Some p"
  by (simp add: cd_decode_def atob_encode) (simp add: payload_json_def json_field_def)

lemma b64_sextets_Nil: "b64_sextets bs = [] \<longleftrightarrow> bs = []"
  by (cases bs rule: b64_sextets.cases) auto

lemma cd_encode_not_Nil [simp]: "cd_encode p \<noteq> []"
  by (simp add: cd_encode_map b64_sextets_Nil payload_json_def)

text \<open>Whatever the token, what the reader accepts lies in its window and names an identifier.\<close>

lemma readParam_sound:
  "readParam expiry now query = Some p \<Longrightarrow>
     is_uuid (cd_s p) \<and> now div 1000 - cd_t p \<le> expiry \<and> cd_t p \<le> now div 1000 + CLOCK_SKEW_TOLERANCE"
  by (auto simp: readParam_def cd_decode_def Let_def split: option.splits if_splits)

lemma readParam_window:
  assumes "map_of query PARAM_NAME = Some (cd_encode p)" "is_uuid (cd_s p)"
  shows "readParam expiry now query =
     (if now div 1000 - cd_t p \<le> expiry \<and> cd_t p \<le> now div 1000 + CLOCK_SKEW_TOLERANCE then Some p else None)"
  using assms cd_encode_not_Nil cd_decode_encode by (auto simp: readParam_def Let_def)

text \<open>
  The token of a decorated address is read back exactly: within the window (not older than the
  expiry, not more than a minute ahead of the reader's clock) the reader gets the very session and
  time that were written, and outside it nothing.
\<close>
theorem cross_domain_token_roundtrip:
  assumes "is_uuid sid"
  shows "readParam expiry now [(PARAM_NAME, cd_encode \<lparr>cd_s = sid, cd_t = sent\<rparr>)] =
     (if now div 1000 - sent \<le> expiry \<and> sent \<le> now div 1000 + 60 then Some \<lparr>cd_s = sid, cd_t = sent\<rparr> else None)"
  using readParam_window [of "[(PARAM_NAME, cd_encode \<lparr>cd_s = sid, cd_t = sent\<rparr>)]" "\<lparr>cd_s = sid, cd_t = sent\<rparr>"] assms
  by (simp add: CLOCK_SKEW_TOLERANCE_def)

lemma cross_domain_token_roundtrip_witness:
  "readParam 120 1700000060000
     [(PARAM_NAME, cd_encode \<lparr>cd_s = generateUUIDv7 1700000000000 (replicate 10 0), cd_t = 1700000000\<rparr>)]
     = Some \<lparr>cd_s = generateUUIDv7 1700000000000 (replicate 10 0), cd_t = 1700000000\<rparr>"
proof -
  have "is_uuid (generateUUIDv7 1700000000000 (replicate 10 0))" by (rule uuid_v7_format) simp_all
  from cross_domain_token_roundtrip [OF this] show ?thesis by simp
qed

subsection \<open>From one domain to the other\<close>

text \<open>
  C15: A visitor who follows a decorated link keeps the session: the address a configured target is
  given carries the session, and the page it leads to, reading it within the window, starts its
  session manager on that same identity, whatever was stored there. The hypothesis
  on the two address functions is that of the browser's parser: it reads back what it prints.
\<close>
theorem cross_domain_continuity:
  assumes "\<And>u. parse (print u) = Some u"
    and "is_uuid sid" and "shouldDecorate parse here cfg target"
    and "0 \<le> later - sent" and "later div 1000 - sent div 1000 \<le> cc_expiry cfg"
  shows "\<exists>u. parse (decorateUrl parse print here cfg sid sent target) = Some u \<and>
     (\<exists>p. readParam (cc_expiry cfg) later (url_query u) = Some p \<and>
       (pe_now env = later \<longrightarrow>
         se_id (fst (getOrCreateSession sc env
           (setCrossDomainInput \<lparr>ci_session = cd_s p, ci_timestamp = cd_t p, ci_expiry = cc_expiry cfg\<rparr> m))) = sid))"
proof -
  obtain v where v: "parse target = Some v" using assms(3) by (auto simp: shouldDecorate_def split: option.splits)
  have "sid \<noteq> []" using assms(2) by (auto simp: is_uuid_def)
  let ?p = "\<lparr>cd_s = sid, cd_t = sent div 1000\<rparr>"
  let ?u = "v\<lparr>url_query := AList.update PARAM_NAME (cd_encode ?p) (url_query v)\<rparr>"
  have url: "parse (decorateUrl parse print here cfg sid sent target) = Some ?u"
    using assms(1,3) v \<open>sid \<noteq> []\<close> by (simp add: decorateUrl_def)
  have time: "sent div 1000 \<le> later div 1000" using assms(4) by (intro zdiv_mono1) auto
  have "readParam (cc_expiry cfg) later (url_query ?u) = Some ?p"
    using readParam_window [of "url_query ?u" ?p] assms(2,5) time by (simp add: CLOCK_SKEW_TOLERANCE_def)
  moreover have "se_id (fst (getOrCreateSession sc env
      (setCrossDomainInput \<lparr>ci_session = sid, ci_timestamp = sent div 1000, ci_expiry = cc_expiry cfg\<rparr> m))) = sid"
    if "pe_now env = later"
    using that assms(5) time
    by (simp add: getOrCreateSession_def setCrossDomainInput_def isValidCrossDomain_def CLOCK_SKEW_TOLERANCE_def
        createSessionFromCrossDomain_def createSessionWith_def case_prod_beta Let_def)
  ultimately show ?thesis using url by auto
qed

definition sample_print :: "unit url \<Rightarrow> string" where
  "sample_print u = json_print (JsArr [JsStr (url_host u), JsObj (map (\<lambda>kv. (fst kv, JsStr (snd kv))) (url_query u))])"

definition sample_parse :: "string \<Rightarrow> unit url option" where
  "sample_parse s =
     (case json_parse s of
        Some (JsArr [JsStr h, q]) \<Rightarrow> map_option (\<lambda>kvs. \<lparr>url_host = h, url_query = kvs, url_rest = ()\<rparr>) (as_properties q)
      | _ \<Rightarrow> None)"

lemma sample_parse_print: "sample_parse (sample_print u) = Some u"
  unfolding sample_parse_def sample_print_def json_parse_print by (simp add: as_properties_json)

definition sample_target :: string where
  "sample_target = sample_print \<lparr>url_host = ''www.Shop.fr'', url_query = [(''q'', ''1'')], url_rest = ()\<rparr>"

lemma cross_domain_continuity_witness:
  "\<exists>u p. sample_parse (decorateUrl sample_parse sample_print ''blog.fr'' \<lparr>cc_domains = [''shop.fr''], cc_expiry = 120\<rparr>
        (generateUUIDv7 1 (replicate 10 0)) 1700000000000 sample_target) = Some u \<and>
     readParam 120 1700000030000 (url_query u) = Some p \<and>
     se_id (fst (getOrCreateSession sample_config (sample_env 1700000030000 ''9'')
       (setCrossDomainInput \<lparr>ci_session = cd_s p, ci_timestamp = cd_t p, ci_expiry = 120\<rparr> new_manager)))
     = generateUUIDv7 1 (replicate 10 0)"
proof -
  let ?cfg = "\<lparr>cc_domains = [''shop.fr''], cc_expiry = 120\<rparr>"
  have "sample_parse sample_target = Some \<lparr>url_host = ''www.Shop.fr'', url_query = [(''q'', ''1'')], url_rest = ()\<rparr>"
    by (simp add: sample_target_def sample_parse_print)
  moreover have "normalizeHostname ''www.Shop.fr'' = ''shop.fr''" "normalizeHostname ''shop.fr'' = ''shop.fr''"
    by code_simp+
  ultimately have d: "shouldDecorate sample_parse ''blog.fr'' ?cfg sample_target"
    by (simp add: shouldDecorate_def)
  have i: "is_uuid (generateUUIDv7 1 (replicate 10 0))" by (rule uuid_v7_format) simp_all
  have e: "pe_now (sample_env 1700000030000 ''9'') = 1700000030000" by (simp add: sample_env_def)
  show ?thesis
    using cross_domain_continuity [where parse = sample_parse and print = sample_print and cfg = ?cfg
        and sent = 1700000000000 and later = 1700000030000 and env = "sample_env 1700000030000 ''9''"
        and sc = sample_config and m = new_manager, OF sample_parse_print i d] e
    by auto
qed

end
