(* ===== verification/Ingest.thy ===== *)
theory Ingest
  imports Filters Channel Session_State
begin

section \<open>Ingestion of session payloads\<close>

text \<open>
  \<^verbatim>\<open>api/src/events/session-payload.handler.ts\<close>: from the payload the SDK sends to the events that
  are buffered for the database and announced to the webhooks. An event is an object
  (\<open>jsobject\<close>), as the code treats it; the clock, the parser of addresses, the date
  formatter, the geographic look-up, the workspace service and the regular expressions are
  arguments. Logging is left out.
\<close>

subsection \<open>Inputs\<close>

(* src: api/src/events/dto/session-payload.dto.ts:256-264 Action *)
datatype wire_action = Known action | Unknown_action string

datatype workspace_status = Ws_initializing | Ws_active | Ws_inactive | Ws_error

text \<open>
  The settings the handler reads. \<open>wk_referral_param\<close> distinguishes undefined (\<^const>\<open>None\<close>)
  from null (\<^term>\<open>Some None\<close>).
\<close>

record workspace =
  wk_id :: string
  wk_status :: workspace_status
  wk_allowed_domains :: "string list option"
  wk_filters :: "filter_definition list option"
  wk_referral_param :: "string option option"

(* src: api/src/events/dto/session-payload.dto.ts:186-253 SessionPayloadDto *)
record wire_payload =
  wp_workspace :: string
  wp_session :: string
  wp_actions :: "wire_action list"
  wp_attributes :: "jsobject option"
  wp_created :: int
  wp_updated :: int
  wp_sdk_version :: "string option"
  wp_sent :: "int option"
  wp_user :: "string option"
  wp_visitor :: "string option"
  wp_dimensions :: "(string \<rightharpoonup> string) option"

record geo_location =
  gl_country :: "string option"
  gl_region :: "string option"
  gl_city :: "string option"
  gl_latitude :: "real option"
  gl_longitude :: "real option"

text \<open>A parsed address: host name, path and query look-up.\<close>

record parsed_url =
  pu_hostname :: string
  pu_pathname :: string
  pu_param :: "string \<Rightarrow> string option"

type_synonym url_parser = "string \<Rightarrow> parsed_url option"

subsection \<open>Domains\<close>

(* src: api/src/events/session-payload.handler.ts:685-701 extractRequestDomain *)
definition extractRequestDomain :: "url_parser \<Rightarrow> string option \<Rightarrow> string option \<Rightarrow> string" where
  "extractRequestDomain parse origin referer =
     (let from_referer =
            (if js_truthy referer
             then (case parse (js_nullish referer []) of Some u \<Rightarrow> pu_hostname u | None \<Rightarrow> [])
             else [])
      in if js_truthy origin
         then (case parse (js_nullish origin []) of Some u \<Rightarrow> pu_hostname u | None \<Rightarrow> from_referer)
         else from_referer)"

(* src: api/src/events/session-payload.handler.ts:720-732 isDomainAllowed *)
definition domain_pattern_matches :: "string \<Rightarrow> string \<Rightarrow> bool" where
  "domain_pattern_matches normalized allowed =
     (let pattern = js_trim (js_lower allowed)
      in if js_starts_with pattern ''*.''
         then (let base = drop 2 pattern in normalized = base \<or> js_ends_with normalized (''.'' @ base))
         else normalized = pattern)"

(* src: api/src/events/session-payload.handler.ts:707-736 isDomainAllowed *)
definition isDomainAllowed :: "string \<Rightarrow> string list option \<Rightarrow> bool" where
  "isDomainAllowed domain allowedDomains =
     (case allowedDomains of
        None \<Rightarrow> True
      | Some ds \<Rightarrow>
          if ds = [] then True
          else if domain = [] then False
          else list_ex (domain_pattern_matches (js_lower domain)) ds)"

subsection \<open>Clock skew\<close>

(* src: api/src/events/session-payload.handler.ts:35-35 CLOCK_SKEW_THRESHOLD_MS *)
definition CLOCK_SKEW_THRESHOLD_MS :: int where
  "CLOCK_SKEW_THRESHOLD_MS = 5000"

(* src: api/src/events/session-payload.handler.ts:652-673 calculateClockSkew *)
definition calculateClockSkew :: "int option \<Rightarrow> int \<Rightarrow> int \<times> bool" where
  "calculateClockSkew sentAt receivedAt =
     (case sentAt of
        None \<Rightarrow> (0, False)
      | Some sent \<Rightarrow>
          (let skew = receivedAt - sent
           in if skew < - CLOCK_SKEW_THRESHOLD_MS then (skew, True)
              else if skew > CLOCK_SKEW_THRESHOLD_MS then (skew, True)
              else (skew, False)))"

(* src: api/src/events/session-payload.handler.ts:678-680 correctTimestamp *)
definition correctTimestamp :: "int \<Rightarrow> int \<Rightarrow> int" where
  "correctTimestamp ts skew = ts + skew"

(* src: api/src/events/session-payload.handler.ts:394-399 buildBaseEvent *)
definition corrected :: "int \<Rightarrow> int \<Rightarrow> int" where
  "corrected skew ts = (if skew \<noteq> 0 then correctTimestamp ts skew else ts)"

subsection \<open>The base event\<close>

(* src: api/src/events/session-payload.handler.ts:579-590 parseUrl *)
definition parseUrl :: "url_parser \<Rightarrow> string option \<Rightarrow> string option \<times> string option" where
  "parseUrl parse u =
     (if js_truthy u
      then (case parse (js_nullish u []) of
              Some p \<Rightarrow> (Some (pu_hostname p), Some (pu_pathname p)) | None \<Rightarrow> (None, None))
      else (None, None))"

(* src: api/src/events/session-payload.handler.ts:606-621 extractReferralCode *)
definition extractReferralCode :: "url_parser \<Rightarrow> string option \<Rightarrow> string option option \<Rightarrow> string" where
  "extractReferralCode parse landingPage referralParam =
     (if referralParam = Some (Some []) \<or> referralParam = Some None then []
      else let param = js_trim (case referralParam of Some (Some p) \<Rightarrow> p | _ \<Rightarrow> ''ref'')
           in if param = [] then []
              else if \<not> js_truthy landingPage then []
              else (case parse (js_nullish landingPage []) of
                      Some u \<Rightarrow> js_trim (js_nullish (pu_param u param) [])
                    | None \<Rightarrow> []))"

text \<open>\<open>attrs?.k ?? d\<close> for the optional attributes object.\<close>

definition attr :: "jsobject option \<Rightarrow> string \<Rightarrow> jsval \<Rightarrow> jsval" where
  "attr attrs k d =
     (case attrs of None \<Rightarrow> d
      | Some a \<Rightarrow> (case js_get a k of JUndefined \<Rightarrow> d | JNull \<Rightarrow> d | v \<Rightarrow> v))"

definition attr_str :: "jsobject option \<Rightarrow> string \<Rightarrow> string option" where
  "attr_str attrs k = js_string (attr attrs k JUndefined)"

fun group_text :: "channel_group \<Rightarrow> string" where
  "group_text Group_ads = ''ads''"
| "group_text Group_seo = ''seo''"
| "group_text Group_social = ''social''"
| "group_text Group_email = ''email''"
| "group_text Group_referral = ''referral''"
| "group_text Group_direct = ''direct''"
| "group_text Group_other = ''other''"

fun channel_text :: "channel \<Rightarrow> string" where
  "channel_text Paid_search = ''paid_search''"
| "channel_text Organic_search = ''organic_search''"
| "channel_text Paid_social = ''paid_social''"
| "channel_text Organic_social = ''organic_social''"
| "channel_text Email = ''email''"
| "channel_text Referral = ''referral''"
| "channel_text Direct = ''direct''"
| "channel_text Other_channel = ''other''"

definition ingest_signals :: "url_parser \<Rightarrow> jsobject option \<Rightarrow> string \<Rightarrow> channel_signals" where
  "ingest_signals parse attrs code =
     \<lparr>sg_referrer_domain = fst (parseUrl parse (attr_str attrs ''referrer'')),
      sg_referrer = attr_str attrs ''referrer'', sg_utm_source = attr_str attrs ''utm_source'',
      sg_utm_medium = attr_str attrs ''utm_medium'', sg_utm_id_from = attr_str attrs ''utm_id_from'',
      sg_is_direct = Some (\<not> js_truthy (attr_str attrs ''referrer'')), sg_referral_code = Some code\<rparr>"

(* src: api/src/events/session-payload.handler.ts:352-485 buildBaseEvent *)
definition buildBaseEvent ::
    "url_parser \<Rightarrow> (int \<Rightarrow> string) \<Rightarrow> wire_payload \<Rightarrow> geo_location \<Rightarrow> int \<Rightarrow> int \<Rightarrow> string option \<Rightarrow> workspace \<Rightarrow> jsobject" where
  "buildBaseEvent parse fmt payload geo version skew ip workspace =
     (let attrs = wp_attributes payload;
          referrerParsed = parseUrl parse (attr_str attrs ''referrer'');
          landingParsed = parseUrl parse (attr_str attrs ''landing_page'');
          code = extractReferralCode parse (attr_str attrs ''landing_page'') (wk_referral_param workspace);
          chan = deriveChannel (ingest_signals parse attrs code);
          txt = (\<lambda>k. (k, attr attrs k (JStr [])));
          num = (\<lambda>k. (k, attr attrs k (JNum 0)));
          stm = (\<lambda>k. (k, JStr (js_nullish (Option.bind (wp_dimensions payload) (\<lambda>d. d k)) [])))
      in map_of
           [(''session_id'', JStr (wp_session payload)), (''workspace_id'', JStr (wp_workspace payload)),
            (''received_at'', JStr (fmt version)),
            (''created_at'', JStr (fmt (corrected skew (wp_created payload)))),
            (''updated_at'', JStr (fmt (corrected skew (wp_updated payload)))),
            (''_version'', JNum (of_int version)),
            txt ''referrer'', (''referrer_domain'', JStr (js_nullish (fst referrerParsed) [])),
            (''referrer_path'', JStr (js_nullish (snd referrerParsed) [])),
            (''is_direct'', JBool (\<not> js_truthy (attr_str attrs ''referrer''))),
            txt ''landing_page'', (''landing_domain'', JStr (js_nullish (fst landingParsed) [])),
            (''landing_path'', JStr (js_nullish (snd landingParsed) [])),
            txt ''utm_source'', txt ''utm_medium'', txt ''utm_campaign'', txt ''utm_term'',
            (''utm_content'', JStr (js_or code (js_nullish (attr_str attrs ''utm_content'') []))),
            txt ''utm_id'', txt ''utm_id_from'',
            num ''screen_width'', num ''screen_height'', num ''viewport_width'', num ''viewport_height'',
            txt ''device'', txt ''browser'', txt ''browser_type'', txt ''os'', txt ''user_agent'',
            txt ''connection_type'', txt ''language'', txt ''timezone'',
            (''country'', JStr (js_nullish (gl_country geo) [])), (''region'', JStr (js_nullish (gl_region geo) [])),
            (''city'', JStr (js_nullish (gl_city geo) [])),
            (''latitude'', (case gl_latitude geo of None \<Rightarrow> JNull | Some x \<Rightarrow> JNum x)),
            (''longitude'', (case gl_longitude geo of None \<Rightarrow> JNull | Some x \<Rightarrow> JNum x)),
            (''sdk_version'', JStr (js_nullish (wp_sdk_version payload) [])),
            (''channel'', JStr (channel_text (cr_channel chan))),
            (''channel_group'', JStr (group_text (cr_group chan))),
            stm ''stm_1'', stm ''stm_2'', stm ''stm_3'', stm ''stm_4'', stm ''stm_5'', stm ''stm_6'',
            stm ''stm_7'', stm ''stm_8'', stm ''stm_9'', stm ''stm_10'',
            (''user_id'', (case wp_user payload of None \<Rightarrow> JNull | Some u \<Rightarrow> JStr u)),
            (''visitor_id'', JStr (js_nullish (wp_visitor payload) [])),
            txt ''fingerprint'', (''ip'', JStr (js_nullish ip []))])"

subsection \<open>Actions to events\<close>

definition pageview_token :: "string \<Rightarrow> pageview_action \<Rightarrow> string" where
  "pageview_token sid p = sid @ ''_pv_'' @ js_of_int (pa_page_number p)"

definition goal_token :: "string \<Rightarrow> goal_action \<Rightarrow> string" where
  "goal_token sid g = sid @ ''_goal_'' @ ga_name g @ ''_'' @ js_of_int (ga_timestamp g)"

(* src: api/src/events/session-payload.handler.ts:512-545 deserializePageview *)
definition deserializePageview ::
    "(int \<Rightarrow> string) \<Rightarrow> pageview_action \<Rightarrow> jsobject \<Rightarrow> string \<Rightarrow> string \<Rightarrow> int \<Rightarrow> jsobject" where
  "deserializePageview fmt p base sid previousPath skew =
     base ++ map_of
       [(''dedup_token'', JStr (pageview_token sid p)), (''name'', JStr ''screen_view''),
        (''path'', JStr (pa_path p)), (''page_number'', JNum (of_int (pa_page_number p))),
        (''duration'', JNum (of_int (pa_duration p))), (''page_duration'', JNum (of_int (pa_duration p))),
        (''max_scroll'', JNum (of_int (pa_scroll p))), (''previous_path'', JStr previousPath),
        (''goal_name'', JStr []), (''goal_value'', JNum 0), (''properties'', JObj []),
        (''entered_at'', JStr (fmt (corrected skew (pa_entered_at p)))),
        (''exited_at'', JStr (fmt (corrected skew (pa_exited_at p)))), (''goal_timestamp'', JNull)]"

(* src: api/src/events/session-payload.handler.ts:547-577 deserializeGoal *)
definition deserializeGoal ::
    "(int \<Rightarrow> string) \<Rightarrow> goal_action \<Rightarrow> jsobject \<Rightarrow> string \<Rightarrow> int \<Rightarrow> jsobject" where
  "deserializeGoal fmt g base sid skew =
     (let ts = JStr (fmt (corrected skew (ga_timestamp g)))
      in base ++ map_of
       [(''dedup_token'', JStr (goal_token sid g)), (''name'', JStr ''goal''),
        (''path'', JStr (ga_path g)), (''page_number'', JNum (of_int (ga_page_number g))),
        (''duration'', JNum 0), (''page_duration'', JNum 0), (''max_scroll'', JNum 0), (''previous_path'', JStr []),
        (''goal_name'', JStr (ga_name g)), (''goal_value'', JNum (of_int (js_nullish (ga_value g) 0))),
        (''properties'', JObj (map (\<lambda>kv. (fst kv, JStr (snd kv))) (js_nullish (ga_properties g) []))),
        (''entered_at'', ts), (''exited_at'', ts), (''goal_timestamp'', ts)])"

(* src: api/src/events/session-payload.handler.ts:507-509 deserializeAction *)
datatype ingest_error = Invalid_workspace string | Unknown_action_type string

(* src: api/src/events/session-payload.handler.ts:487-510 deserializeAction *)
definition deserializeAction ::
    "(int \<Rightarrow> string) \<Rightarrow> wire_action \<Rightarrow> jsobject \<Rightarrow> string \<Rightarrow> string \<Rightarrow> int \<Rightarrow> ingest_error + jsobject" where
  "deserializeAction fmt a base sid previousPath skew =
     (case a of
        Known (Pageview p) \<Rightarrow> Inr (deserializePageview fmt p base sid previousPath skew)
      | Known (Goal g) \<Rightarrow> Inr (deserializeGoal fmt g base sid skew)
      | Unknown_action t \<Rightarrow> Inl (Unknown_action_type t))"

(* src: api/src/events/session-payload.handler.ts:141-158 handle *)
fun deserializeActions ::
    "(int \<Rightarrow> string) \<Rightarrow> jsobject \<Rightarrow> string \<Rightarrow> int \<Rightarrow> string \<Rightarrow> wire_action list \<Rightarrow> ingest_error + jsobject list" where
  "deserializeActions fmt base sid skew previousPath [] = Inr []"
| "deserializeActions fmt base sid skew previousPath (a # as) =
     res_bind (deserializeAction fmt a base sid previousPath skew)
       (\<lambda>e. res_bind (deserializeActions fmt base sid skew
               (case a of Known (Pageview p) \<Rightarrow> pa_path p | _ \<Rightarrow> previousPath) as)
             (\<lambda>es. Inr (e # es)))"

subsection \<open>Filters on an event\<close>

definition cell_js :: "cell \<Rightarrow> jsval" where
  "cell_js c = (case c of Cell s \<Rightarrow> JStr s | Cell_null \<Rightarrow> JNull | Cell_undefined \<Rightarrow> JUndefined)"

(* src: api/src/events/session-payload.handler.ts:639-645 applyFilters *)
definition write_field :: "string \<times> cell \<Rightarrow> jsobject \<Rightarrow> jsobject" where
  "write_field fv event =
     (if fst fv = ''is_direct'' then event(fst fv \<mapsto> JBool (snd fv = Cell ''true''))
      else event(fst fv \<mapsto> cell_js (snd fv)))"

(* src: api/src/events/session-payload.handler.ts:623-646 applyFilters *)
definition applyFilters :: "regex_engine \<Rightarrow> filter_definition list \<Rightarrow> jsobject \<Rightarrow> jsobject" where
  "applyFilters rx fs event =
     (if fs = [] then event
      else case applyFilterResults rx fs (extractFieldValues event) of
             (custom, modified) \<Rightarrow>
               fold write_field modified
                 (fold (\<lambda>kv e. e(fst kv \<mapsto> cell_js (snd kv))) custom event))"

subsection \<open>What the handler announces\<close>

record tracked_event =
  te_workspace :: jsval
  te_type :: jsval
  te_id :: string
  te_payload :: "(string \<times> jsval) list"

text \<open>A value in a template literal; numbers there are page numbers, which are integers.\<close>

definition js_text :: "jsval \<Rightarrow> string" where
  "js_text v = (case v of JStr s \<Rightarrow> s | JNum x \<Rightarrow> js_of_int \<lfloor>x\<rfloor> | JBool b \<Rightarrow> (if b then ''true'' else ''false'')
     | JNull \<Rightarrow> ''null'' | JUndefined \<Rightarrow> ''undefined'' | _ \<Rightarrow> ''[object Object]'')"

definition js_default :: "jsval \<Rightarrow> jsval \<Rightarrow> jsval" where
  "js_default v d = (if v = JUndefined \<or> v = JNull then d else v)"

(* src: api/src/events/session-payload.handler.ts:250-314 emitTracked *)
definition emitTracked :: "jsobject \<Rightarrow> tracked_event" where
  "emitTracked e =
     (let rec = js_get e; same = map (\<lambda>k. (k, rec k)) in
      \<lparr>te_workspace = rec ''workspace_id'', te_type = js_default (rec ''name'') (JStr ''unknown''),
       te_id = (if js_is_truthy (rec ''dedup_token'') then js_text (rec ''dedup_token'')
                else js_text (rec ''session_id'') @ ''_'' @ js_text (rec ''name'') @ ''_'' @
                     js_text (js_default (rec ''page_number'') (JNum 0))),
       te_payload =
         same [''session_id'', ''path'', ''page_number'', ''previous_path'', ''max_scroll'', ''goal_name'',
               ''goal_value'', ''properties''] @
         [(''utm'', JObj [(''source'', rec ''utm_source''), (''medium'', rec ''utm_medium''),
             (''campaign'', rec ''utm_campaign''), (''term'', rec ''utm_term''), (''content'', rec ''utm_content''),
             (''id'', rec ''utm_id''), (''id_from'', rec ''utm_id_from'')])] @
         same [''referrer'', ''referrer_domain'', ''referrer_path'', ''landing_page'', ''landing_domain'',
               ''landing_path'', ''country'', ''region'', ''city'', ''device'', ''browser'', ''os'', ''language'', ''timezone''] @
         [(''user_id'', js_default (rec ''user_id'') JNull)] @
         same [''goal_timestamp'', ''entered_at'', ''received_at'']\<rparr>)"

subsection \<open>The handler\<close>

(* src: api/src/events/session-payload.handler.ts:28-40 CachedWorkspace *)
type_synonym workspace_cache = "string \<rightharpoonup> workspace \<times> int"

(* src: api/src/events/session-payload.handler.ts:34-34 CACHE_TTL_MS *)
definition CACHE_TTL_MS :: int where
  "CACHE_TTL_MS = 60 * 1000"

text \<open>
  What a call does to the rest of the system: the events handed to the buffer, those announced,
  whether the workspace is activated, and the user whose identity is to be stitched.
\<close>

record ingest_effects =
  ef_buffered :: "jsobject list"
  ef_emitted :: "tracked_event list"
  ef_activated :: bool
  ef_stitched :: "string option"

definition no_effects :: ingest_effects where
  "no_effects = \<lparr>ef_buffered = [], ef_emitted = [], ef_activated = False, ef_stitched = None\<rparr>"

text \<open>The services around the handler, as it calls them.\<close>

record ingest_env =
  ie_fetch :: "string \<Rightarrow> workspace option"
  ie_parse :: url_parser
  ie_format :: "int \<Rightarrow> string"
  ie_regex :: regex_engine
  ie_geo :: "string option \<Rightarrow> workspace \<Rightarrow> geo_location"

(* src: api/src/events/session-payload.handler.ts:316-334 getWorkspace *)
definition getWorkspace ::
    "ingest_env \<Rightarrow> int \<Rightarrow> string \<Rightarrow> workspace_cache \<Rightarrow> (ingest_error + workspace) \<times> workspace_cache" where
  "getWorkspace env now wid cache =
     (case cache wid of
        Some (w, expires) \<Rightarrow>
          if now < expires then (Inr w, cache)
          else (case ie_fetch env wid of
                  Some w1 \<Rightarrow> (Inr w1, cache(wid \<mapsto> (w1, now + CACHE_TTL_MS)))
                | None \<Rightarrow> (Inl (Invalid_workspace wid), cache))
      | None \<Rightarrow>
          (case ie_fetch env wid of
             Some w1 \<Rightarrow> (Inr w1, cache(wid \<mapsto> (w1, now + CACHE_TTL_MS)))
           | None \<Rightarrow> (Inl (Invalid_workspace wid), cache)))"

(* src: api/src/events/session-payload.handler.ts:339-350 handleFiltersChanged *)
definition invalidate :: "string \<Rightarrow> workspace_cache \<Rightarrow> workspace_cache" where
  "invalidate wid cache = cache(wid := None)"

(* src: api/src/events/session-payload.handler.ts:76-109 handle *)
definition accepts :: "ingest_env \<Rightarrow> workspace \<Rightarrow> string option \<Rightarrow> string option \<Rightarrow> wire_payload \<Rightarrow> bool" where
  "accepts env w origin referer payload \<longleftrightarrow>
     \<not> (wk_status w = Ws_inactive \<or> wk_status w = Ws_error) \<and>
     (js_nullish (wk_allowed_domains w) [] = [] \<or>
      isDomainAllowed (extractRequestDomain (ie_parse env) origin referer) (wk_allowed_domains w)) \<and>
     wp_actions payload \<noteq> []"

(* src: api/src/events/session-payload.handler.ts:111-166 handle *)
definition ingest_events ::
    "ingest_env \<Rightarrow> int \<Rightarrow> string option \<Rightarrow> workspace \<Rightarrow> wire_payload \<Rightarrow> ingest_error + jsobject list" where
  "ingest_events env now ip w payload =
     (let sk = calculateClockSkew (wp_sent payload) now;
          skew = (if snd sk then fst sk else 0);
          base = buildBaseEvent (ie_parse env) (ie_format env) payload (ie_geo env ip w) now skew ip w
      in res_bind (deserializeActions (ie_format env) base (wp_session payload) skew [] (wp_actions payload))
           (\<lambda>es. Inr (map (applyFilters (ie_regex env) (js_nullish (wk_filters w) [])) es)))"

(* src: api/src/events/session-payload.handler.ts:50-211 handle *)
definition handle_payload ::
    "ingest_env \<Rightarrow> int \<Rightarrow> string option \<Rightarrow> string option \<Rightarrow> string option \<Rightarrow> wire_payload \<Rightarrow> workspace_cache
       \<Rightarrow> (ingest_error + ingest_effects) \<times> workspace_cache" where
  "handle_payload env now ip origin referer payload cache =
     (case getWorkspace env now (wp_workspace payload) cache of
        (Inl e, cache1) \<Rightarrow> (Inl e, cache1)
      | (Inr w, cache1) \<Rightarrow>
          if \<not> accepts env w origin referer payload then (Inr no_effects, cache1)
          else (case ingest_events env now ip w payload of
                  Inl e \<Rightarrow> (Inl e, cache1)
                | Inr es \<Rightarrow>
                    (Inr \<lparr>ef_buffered = es, ef_emitted = map emitTracked es,
                          ef_activated = (wk_status w = Ws_initializing),
                          ef_stitched = (if js_truthy (wp_user payload) then wp_user payload else None)\<rparr>,
                     if wk_status w = Ws_initializing then invalidate (wk_id w) cache1 else cache1)))"

subsection \<open>What the filters do to an event\<close>

definition writable_rules :: "filter_definition list \<Rightarrow> bool" where
  "writable_rules fs \<longleftrightarrow> (\<forall>f \<in> set fs. \<forall>op \<in> set (fd_operations f). fo_dimension op \<in> set WRITABLE_DIMENSIONS)"

lemma fold_assign:
  "distinct (map fst al) \<Longrightarrow>
   fold (\<lambda>kv e. e(fst kv \<mapsto> g (snd kv))) al e k = (case map_of al k of Some v \<Rightarrow> Some (g v) | None \<Rightarrow> e k)"
proof (induction al arbitrary: e)
  case Nil
  show ?case by simp
next
  case (Cons kv al)
  then have "map_of al (fst kv) = None" by (simp add: map_of_eq_None_iff)
  with Cons show ?case by (cases kv) (auto split: option.splits)
qed

definition field_js :: "string \<Rightarrow> cell \<Rightarrow> jsval" where
  "field_js k c = (if k = ''is_direct'' then JBool (c = Cell ''true'') else cell_js c)"

lemma fold_write_field:
  "distinct (map fst al) \<Longrightarrow>
   fold write_field al e k = (case map_of al k of Some v \<Rightarrow> Some (field_js k v) | None \<Rightarrow> e k)"
proof (induction al arbitrary: e)
  case Nil
  show ?case by simp
next
  case (Cons kv al)
  then have "map_of al (fst kv) = None" by (simp add: map_of_eq_None_iff)
  with Cons show ?case by (cases kv) (auto simp: write_field_def field_js_def split: option.splits)
qed

lemma distinct_CUSTOM_KEYS: "distinct CUSTOM_KEYS"
  by (simp add: CUSTOM_KEYS_def distinct_map inj_on_def image_iff) (metis stm_key_not_channel)

lemma route_dimension_modified_distinct:
  "distinct (map fst (snd cm)) \<Longrightarrow> distinct (map fst (snd (route_dimension dv cm)))"
  by (auto simp: route_dimension_def Let_def distinct_update split: option.splits)

lemma applyFilterResults_distinct:
  "distinct (map fst (fst (applyFilterResults rx fs fv)))" "distinct (map fst (snd (applyFilterResults rx fs fv)))"
proof -
  show "distinct (map fst (fst (applyFilterResults rx fs fv)))"
    by (simp add: applyFilterResults_keys distinct_CUSTOM_KEYS)
  have "distinct (map fst (snd (fold route_dimension dvs cm)))" if "distinct (map fst (snd cm))" for dvs cm
    using that by (induction dvs arbitrary: cm) (auto simp: route_dimension_modified_distinct)
  then show "distinct (map fst (snd (applyFilterResults rx fs fv)))"
    by (simp add: applyFilterResults_def)
qed

text \<open>With at least one rule, every custom dimension is overwritten, by null where no rule set it.\<close>

lemma applyFilters_lookup:
  assumes "writable_rules fs" "fs \<noteq> []"
  shows "applyFilters rx fs e d =
    (if d \<in> set CUSTOM_KEYS
     then Some (cell_js (js_nullish (map_of (evaluateFilters rx fs (extractFieldValues e)) d) Cell_null))
     else case map_of (evaluateFilters rx fs (extractFieldValues e)) d of
            Some c \<Rightarrow> Some (field_js d c) | None \<Rightarrow> e d)"
proof -
  obtain custom modified where r: "applyFilterResults rx fs (extractFieldValues e) = (custom, modified)"
    by (cases "applyFilterResults rx fs (extractFieldValues e)")
  have "distinct (map fst custom)" "distinct (map fst modified)"
    using applyFilterResults_distinct [of rx fs "extractFieldValues e"] by (simp_all add: r)
  moreover have "map_of custom d = (if d \<in> set CUSTOM_KEYS
        then Some (js_nullish (map_of (evaluateFilters rx fs (extractFieldValues e)) d) Cell_null) else None)"
    and "map_of modified d = (if d \<in> set CUSTOM_KEYS then None
        else map_of (evaluateFilters rx fs (extractFieldValues e)) d)"
    using applyFilterResults_lookup [of fs rx "extractFieldValues e" d] assms(1)
    by (simp_all add: r writable_rules_def)
  ultimately show ?thesis
    using assms(2) by (simp add: applyFilters_def r fold_write_field fold_assign split: option.split)
qed

lemma applyFilters_untouched:
  assumes "writable_rules fs" "d \<notin> set CUSTOM_KEYS" "d \<notin> set WRITABLE_DIMENSIONS"
  shows "applyFilters rx fs e d = e d"
proof (cases "fs = []")
  case False
  have "map_of (evaluateFilters rx fs fv) d = None" for fv
    using evaluateFilters_keys [of rx fs fv] assms(1,3) by (fastforce simp: writable_rules_def map_of_eq_None_iff)
  with False assms show ?thesis by (simp add: applyFilters_lookup)
qed (simp add: applyFilters_def)

subsection \<open>Tokens\<close>

definition action_token :: "string \<Rightarrow> action \<Rightarrow> string" where
  "action_token sid a = (case a of Pageview p \<Rightarrow> pageview_token sid p | Goal g \<Rightarrow> goal_token sid g)"

lemma same_page_token: "same_page a b \<Longrightarrow> action_token sid a = action_token sid b"
  by (auto simp: same_page_def action_token_def pageview_token_def split: action.splits)

lemma deserializeAction_Known:
  "\<exists>e. deserializeAction fmt (Known a) base sid prev skew = Inr e \<and>
       e ''dedup_token'' = Some (JStr (action_token sid a)) \<and>
       (\<forall>k \<in> set CUSTOM_KEYS. e k = base k)"
  by (cases a) (auto simp: deserializeAction_def deserializePageview_def deserializeGoal_def action_token_def
      CUSTOM_KEYS_def stm_key_def Let_def)

lemma deserializeActions_Known:
  "\<exists>es. deserializeActions fmt base sid skew prev (map Known as) = Inr es \<and> length es = length as \<and>
     (\<forall>i < length as. (es ! i) ''dedup_token'' = Some (JStr (action_token sid (as ! i))) \<and>
        (\<forall>k \<in> set CUSTOM_KEYS. (es ! i) k = base k))"
proof (induction as arbitrary: prev)
  case Nil
  show ?case by simp
next
  case (Cons a as)
  let ?prev = "case a of Pageview p \<Rightarrow> pa_path p | Goal g \<Rightarrow> prev"
  have prev: "(case Known a of Known (Pageview p) \<Rightarrow> pa_path p | _ \<Rightarrow> prev) = ?prev"
    by (simp split: action.split)
  obtain e where e: "deserializeAction fmt (Known a) base sid prev skew = Inr e"
      "e ''dedup_token'' = Some (JStr (action_token sid a))" "\<forall>k \<in> set CUSTOM_KEYS. e k = base k"
    using deserializeAction_Known by blast
  obtain es where es: "deserializeActions fmt base sid skew ?prev (map Known as) = Inr es" "length es = length as"
      "\<forall>i < length as. (es ! i) ''dedup_token'' = Some (JStr (action_token sid (as ! i))) \<and>
        (\<forall>k \<in> set CUSTOM_KEYS. (es ! i) k = base k)"
    using Cons.IH by blast
  have "deserializeActions fmt base sid skew prev (map Known (a # as)) = Inr (e # es)"
    using e(1) es(1) prev by simp
  with e es show ?case
    by (intro exI [of _ "e # es"]) (auto simp: nth_Cons split: nat.split)
qed

text \<open>The events of a payload whose actions are those of the SDK.\<close>

lemma ingest_events_Known:
  assumes "wp_actions payload = map Known as" "writable_rules (js_nullish (wk_filters w) [])"
  obtains es where "ingest_events env now ip w payload = Inr es" "length es = length as"
    "\<And>i. i < length as \<Longrightarrow> (es ! i) ''dedup_token'' = Some (JStr (action_token (wp_session payload) (as ! i)))"
proof -
  let ?sk = "calculateClockSkew (wp_sent payload) now"
  let ?skew = "if snd ?sk then fst ?sk else 0"
  let ?base = "buildBaseEvent (ie_parse env) (ie_format env) payload (ie_geo env ip w) now ?skew ip w"
  obtain ds where ds: "deserializeActions (ie_format env) ?base (wp_session payload) ?skew [] (map Known as) = Inr ds"
      "length ds = length as"
      "\<forall>i < length as. (ds ! i) ''dedup_token'' = Some (JStr (action_token (wp_session payload) (as ! i)))"
    using deserializeActions_Known [of "ie_format env" ?base "wp_session payload" ?skew "[]" as] by blast
  let ?es = "map (applyFilters (ie_regex env) (js_nullish (wk_filters w) [])) ds"
  have d: "''dedup_token'' \<notin> set CUSTOM_KEYS" "''dedup_token'' \<notin> set WRITABLE_DIMENSIONS"
    by (simp_all add: CUSTOM_KEYS_def WRITABLE_DIMENSIONS_def stm_key_def image_iff)
  have "ingest_events env now ip w payload = Inr ?es"
    using ds(1) by (simp add: ingest_events_def Let_def assms(1))
  then show ?thesis
    by (rule that) (use ds(2,3) applyFilters_untouched [OF assms(2) d] in auto)
qed

subsection \<open>Properties\<close>

lemma ingest_all:
  assumes "wp_actions payload = map Known as"
  obtains ds where "length ds = length as"
    "\<forall>i < length as. \<forall>k \<in> set CUSTOM_KEYS. (ds ! i) k =
        buildBaseEvent (ie_parse env) (ie_format env) payload (ie_geo env ip w) now
          (if snd (calculateClockSkew (wp_sent payload) now) then fst (calculateClockSkew (wp_sent payload) now) else 0)
          ip w k"
    "ingest_events env now ip w payload = Inr (map (applyFilters (ie_regex env) (js_nullish (wk_filters w) [])) ds)"
proof -
  let ?sk = "calculateClockSkew (wp_sent payload) now"
  let ?skew = "if snd ?sk then fst ?sk else 0"
  let ?base = "buildBaseEvent (ie_parse env) (ie_format env) payload (ie_geo env ip w) now ?skew ip w"
  obtain ds where "deserializeActions (ie_format env) ?base (wp_session payload) ?skew [] (map Known as) = Inr ds"
      "length ds = length as" "\<forall>i < length as. \<forall>k \<in> set CUSTOM_KEYS. (ds ! i) k = ?base k"
    using deserializeActions_Known [of "ie_format env" ?base "wp_session payload" ?skew "[]" as] by blast
  then show ?thesis by (intro that [of ds]) (simp_all add: ingest_events_def Let_def assms)
qed



text \<open>
  The custom dimensions of a stored event when no rule is enabled: without any rule they are those
  of the base event; but as soon as the workspace has one rule, even a disabled one, they are
  overwritten with null. Stated for the channel: it is the derived acquisition channel in the first
  case and null in the second.
\<close>
theorem disabled_rules_erase_channel:
  assumes "wp_actions payload = map Known as"
    and "\<forall>f \<in> set (js_nullish (wk_filters w) []). \<not> fd_enabled f"
    and "ingest_events env now ip w payload = Inr es" and "e \<in> set es"
  shows "e ''channel'' =
     (if js_nullish (wk_filters w) [] = []
      then Some (JStr (channel_text (cr_channel (deriveChannel (ingest_signals (ie_parse env) (wp_attributes payload)
             (extractReferralCode (ie_parse env) (attr_str (wp_attributes payload) ''landing_page'') (wk_referral_param w)))))))
      else Some JNull)"
proof -
  let ?fs = "js_nullish (wk_filters w) []"
  obtain ds where ds: "length ds = length as"
    "\<forall>i < length as. \<forall>k \<in> set CUSTOM_KEYS. (ds ! i) k =
        buildBaseEvent (ie_parse env) (ie_format env) payload (ie_geo env ip w) now
          (if snd (calculateClockSkew (wp_sent payload) now) then fst (calculateClockSkew (wp_sent payload) now) else 0)
          ip w k"
    "ingest_events env now ip w payload = Inr (map (applyFilters (ie_regex env) ?fs) ds)"
    using ingest_all [OF assms(1)] by blast
  then obtain i where i: "i < length ds" "e = applyFilters (ie_regex env) ?fs (ds ! i)"
    using assms(3,4) by (auto simp: in_set_conv_nth)
  have channel: "''channel'' \<in> set CUSTOM_KEYS" by (simp add: CUSTOM_KEYS_def)
  show ?thesis
  proof (cases "?fs = []")
    case True
    then have "e ''channel'' = (ds ! i) ''channel''" by (simp add: i(2) applyFilters_def)
    with True ds(1,2) i(1) channel show ?thesis by (simp add: buildBaseEvent_def Let_def)
  next
    case False
    have "enabled_by_priority ?fs = []"
      using assms(2) by (simp add: enabled_by_priority_def filter_empty_conv sort_desc_def)
    then have "evaluateFilters (ie_regex env) ?fs fv = []" for fv
      by (simp add: evaluateFilters_def eval_init_def)
    then have "applyFilters (ie_regex env) ?fs (ds ! i) ''channel'' = Some JNull"
      using False by (simp add: applyFilters_def applyFilterResults_def fold_assign
          initial_custom_dimensions_def comp_def distinct_CUSTOM_KEYS map_of_map_restrict restrict_map_def
          channel cell_js_def)
    with False i(2) show ?thesis by simp
  qed
qed

lemma numbers_grow:
  assumes "numbers_ok acts" "i < j" "j < length acts" "acts ! j = Pageview q"
  shows "action_page_number (acts ! i) < pa_page_number q"
proof -
  have "acts = take j acts @ Pageview q # drop (Suc j) acts"
    using id_take_nth_drop [OF assms(3)] assms(4) by simp
  then have "\<forall>a \<in> set (take j acts). action_page_number a < pa_page_number q"
    using assms(1) unfolding numbers_ok_def by blast
  moreover have "acts ! i \<in> set (take j acts)"
    using assms(2,3) by (metis in_set_conv_nth length_take min.absorb4 nth_take)
  ultimately show ?thesis by blast
qed

lemma js_of_int_inject: "0 \<le> a \<Longrightarrow> 0 \<le> b \<Longrightarrow> js_of_int a = js_of_int b \<Longrightarrow> a = b"
  by (simp add: js_of_int_def split: if_splits)

text \<open>
  Tokens tell page views apart: in any state the SDK reaches, two page views of a session never
  have the same deduplication token, and a page view never has that of a goal.
\<close>
theorem pageview_tokens_distinct:
  assumes "session_steps (session_state_init workspace sid created) s"
    and "i < j" and "j < length (ss_actions s)" and "ss_actions s ! j = Pageview q"
  shows "action_token sid (ss_actions s ! i) \<noteq> action_token sid (Pageview q)"
proof -
  have ok: "numbers_ok (ss_actions s)"
    using session_steps_ok [OF assms(1) session_init_ok] by (simp add: session_ok_def)
  have less: "action_page_number (ss_actions s ! i) < pa_page_number q"
    by (rule numbers_grow [OF ok assms(2-4)])
  have pos: "1 \<le> action_page_number (ss_actions s ! i)" "1 \<le> pa_page_number q"
    using ok assms(2-4) nth_mem [of i "ss_actions s"] nth_mem [of j "ss_actions s"]
    by (force simp: numbers_ok_def action_page_number_def)+
  show ?thesis
  proof (cases "ss_actions s ! i")
    case (Pageview p)
    with less pos show ?thesis
      using js_of_int_inject [of "pa_page_number p" "pa_page_number q"]
      by (auto simp: action_token_def pageview_token_def action_page_number_def)
  next
    case (Goal g)
    then show ?thesis by (simp add: action_token_def pageview_token_def goal_token_def)
  qed
qed

text \<open>
  The domain list compares whole labels: a request is accepted only if its domain, in lower case,
  is an entry of the list or, for an entry starting with a wildcard label, the rest of the entry or a domain
  under it, label by label from the right. A domain that merely ends with the same letters is refused.
\<close>
theorem domain_allowed_labels:
  assumes "isDomainAllowed d (Some ds)" and "ds \<noteq> []"
  shows "\<exists>p \<in> set ds. let pattern = js_trim (js_lower p) in
     js_lower d = pattern \<or>
     (js_starts_with pattern ''*.'' \<and> suffix (js_split (CHR ''.'') (drop 2 pattern)) (js_split (CHR ''.'') (js_lower d)))"
proof -
  have labels: "suffix (js_split (CHR ''.'') b) (js_split (CHR ''.'') n)" if "js_ends_with n (''.'' @ b)" for n b
  proof -
    from that obtain u where "n = u @ CHR ''.'' # b" by (auto simp: js_ends_with_suffix suffix_def)
    then show ?thesis by (simp add: js_split_append suffix_def)
  qed
  obtain p where "p \<in> set ds" "domain_pattern_matches (js_lower d) p"
    using assms by (auto simp: isDomainAllowed_def list_ex_iff split: if_splits)
  then show ?thesis
    using labels by (intro bexI [of _ p]) (auto simp: domain_pattern_matches_def Let_def split: if_splits)
qed

subsection \<open>Sample inputs\<close>

definition sample_workspace :: "filter_definition list \<Rightarrow> workspace" where
  "sample_workspace fs = \<lparr>wk_id = ''w'', wk_status = Ws_initializing, wk_allowed_domains = Some [''*.shop.fr''],
     wk_filters = Some fs, wk_referral_param = None\<rparr>"

definition sample_ingest :: "filter_definition list \<Rightarrow> ingest_env" where
  "sample_ingest fs =
     \<lparr>ie_fetch = (\<lambda>_. Some (sample_workspace fs)),
      ie_parse = (\<lambda>u. Some \<lparr>pu_hostname = u, pu_pathname = ''/'', pu_param = Map.empty\<rparr>),
      ie_format = js_of_int, ie_regex = (\<lambda>_ _. None),
      ie_geo = (\<lambda>_ _. \<lparr>gl_country = None, gl_region = None, gl_city = None, gl_latitude = None, gl_longitude = None\<rparr>)\<rparr>"

definition sample_payload :: "action list \<Rightarrow> wire_payload" where
  "sample_payload as =
     \<lparr>wp_workspace = ''w'', wp_session = ''s'', wp_actions = map Known as, wp_attributes = None, wp_created = 0,
      wp_updated = 0, wp_sdk_version = None, wp_sent = Some 0, wp_user = None, wp_visitor = None, wp_dimensions = None\<rparr>"

definition sample_state :: session_state where
  "sample_state = addPageview None 5 ''/a'' (session_state_init ''w'' ''s'' 0)"

lemma sample_state_actions:
  "ss_actions sample_state = [Pageview \<lparr>pa_path = ''/a'', pa_page_number = 1, pa_duration = 0, pa_scroll = 0,
     pa_entered_at = 5, pa_exited_at = 5\<rparr>]"
  by (simp add: sample_state_def addPageview_def session_state_init_def MAX_ACTIONS_def getNextPageNumber_def Let_def)



lemma disabled_rules_erase_channel_witness:
  "\<exists>es. ingest_events (sample_ingest [(sample_rule ''r'' 1 [] [])\<lparr>fd_enabled := False\<rparr>]) 7 None
        (sample_workspace [(sample_rule ''r'' 1 [] [])\<lparr>fd_enabled := False\<rparr>]) (sample_payload (ss_actions sample_state)) = Inr es \<and>
     es \<noteq> [] \<and> (hd es) ''channel'' = Some JNull"
proof -
  let ?fs = "[(sample_rule ''r'' 1 [] [])\<lparr>fd_enabled := False\<rparr>]"
  have a: "wp_actions (sample_payload (ss_actions sample_state)) = map Known (ss_actions sample_state)"
    by (simp add: sample_payload_def)
  have dis: "\<forall>f \<in> set (js_nullish (wk_filters (sample_workspace ?fs)) []). \<not> fd_enabled f"
    and ne: "js_nullish (wk_filters (sample_workspace ?fs)) [] \<noteq> []"
    by (simp_all add: sample_workspace_def)
  obtain ds where "length ds = length (ss_actions sample_state)"
    "ingest_events (sample_ingest ?fs) 7 None (sample_workspace ?fs) (sample_payload (ss_actions sample_state)) =
       Inr (map (applyFilters (ie_regex (sample_ingest ?fs)) (js_nullish (wk_filters (sample_workspace ?fs)) [])) ds)"
    by (rule ingest_all [OF a, of "sample_ingest ?fs" None "sample_workspace ?fs" 7]) blast
  then obtain es where e: "ingest_events (sample_ingest ?fs) 7 None (sample_workspace ?fs) (sample_payload (ss_actions sample_state)) = Inr es"
    and "length es = length (ss_actions sample_state)" by simp
  then have "es \<noteq> []" by (auto simp: sample_state_actions)
  then show ?thesis
    using disabled_rules_erase_channel [OF a dis e, of "hd es"] ne e by auto
qed

lemma pageview_tokens_distinct_witness:
  "\<exists>s :: session_state. 1 < length (ss_actions s) \<and>
     action_token ''s'' (ss_actions s ! 0) \<noteq> action_token ''s'' (ss_actions s ! 1)"
proof -
  let ?s = "addPageview None 8 ''/b'' sample_state"
  have st: "session_steps (session_state_init ''w'' ''s'' 0) ?s"
    unfolding sample_state_def
    by (rule session_steps.more [OF session_steps.more [OF session_steps.none session_step.pageview] session_step.pageview])
  note unfold = sample_state_def addPageview_def session_state_init_def MAX_ACTIONS_def Let_def
    finalizeCurrentPageDuration_def current_pageview_def
  have len: "length (ss_actions ?s) = 2" by (simp add: unfold)
  obtain q where q: "ss_actions ?s ! 1 = Pageview q" by (simp add: unfold)
  have "action_token ''s'' (ss_actions ?s ! 0) \<noteq> action_token ''s'' (Pageview q)"
    by (rule pageview_tokens_distinct [OF st _ _ q]) (simp_all add: len)
  with q len show ?thesis by (intro exI [of _ ?s]) simp
qed

lemma domain_allowed_labels_witness:
  "\<exists>p \<in> {''*.shop.fr''}. let pattern = js_trim (js_lower p) in
     js_lower ''A.Shop.fr'' = pattern \<or>
     (js_starts_with pattern ''*.'' \<and> suffix (js_split (CHR ''.'') (drop 2 pattern)) (js_split (CHR ''.'') (js_lower ''A.Shop.fr'')))"
proof -
  have "isDomainAllowed ''A.Shop.fr'' (Some [''*.shop.fr''])" by code_simp
  from domain_allowed_labels [OF this] show ?thesis by simp
qed

end
