(* ===== verification/Event_Buffer.thy ===== *)
theory Event_Buffer
  imports Prelude
begin

section \<open>The event buffer in front of the database\<close>

text \<open>
  \<^verbatim>\<open>api/src/events/event-buffer.service.ts\<close>: events wait in one buffer per workspace until a
  timer or their number flushes them. The insertion is asynchronous, so a flush is a start and an
  end (success or failure) between which other calls and timers run; the steps below are exactly
  the synchronous stretches of the code. Events are of any type.
\<close>

(* src: api/src/events/event-buffer.service.ts:5-5 MAX_BUFFER_SIZE *)
definition MAX_BUFFER_SIZE :: nat where
  "MAX_BUFFER_SIZE = 500"

(* src: api/src/events/event-buffer.service.ts:20-29 EventBufferService *)
record 'e event_buffer =
  eb_buffers :: "string \<rightharpoonup> 'e list"
  eb_timers :: "string \<Rightarrow> bool"
  eb_flushing :: "string \<rightharpoonup> 'e list"
  eb_dropped :: nat
  eb_max :: nat

(* src: api/src/events/event-buffer.service.ts:31-35 constructor *)
definition buffer_init :: "nat option \<Rightarrow> 'e event_buffer" where
  "buffer_init configured =
     \<lparr>eb_buffers = Map.empty, eb_timers = (\<lambda>_. False), eb_flushing = Map.empty, eb_dropped = 0,
      eb_max = (case configured of Some n \<Rightarrow> if 0 < n then n else 50000 | None \<Rightarrow> 50000)\<rparr>"

definition buffer_of :: "'e event_buffer \<Rightarrow> string \<Rightarrow> 'e list" where
  "buffer_of s w = js_nullish (eb_buffers s w) []"

definition in_flight_of :: "'e event_buffer \<Rightarrow> string \<Rightarrow> 'e list" where
  "in_flight_of s w = js_nullish (eb_flushing s w) []"

(* src: api/src/events/event-buffer.service.ts:110-123 startFlushTimer *)
definition startFlushTimer :: "string \<Rightarrow> 'e event_buffer \<Rightarrow> 'e event_buffer" where
  "startFlushTimer w s = s\<lparr>eb_timers := (eb_timers s)(w := True)\<rparr>"

(* src: api/src/events/event-buffer.service.ts:125-131 stopFlushTimer *)
definition stopFlushTimer :: "string \<Rightarrow> 'e event_buffer \<Rightarrow> 'e event_buffer" where
  "stopFlushTimer w s = s\<lparr>eb_timers := (eb_timers s)(w := False)\<rparr>"

text \<open>\<open>flush\<close> up to its await.\<close>

(* src: api/src/events/event-buffer.service.ts:133-147 flush *)
definition flush_start :: "string \<Rightarrow> 'e event_buffer \<Rightarrow> 'e event_buffer" where
  "flush_start w s0 =
     (let s = stopFlushTimer w s0
      in if buffer_of s w = [] \<or> eb_flushing s w \<noteq> None then s
         else s\<lparr>eb_flushing := (eb_flushing s)(w \<mapsto> buffer_of s w), eb_buffers := (eb_buffers s)(w \<mapsto> [])\<rparr>)"

text \<open>\<open>flush\<close> after its await: the insertion succeeded, or threw.\<close>

(* src: api/src/events/event-buffer.service.ts:149-158 flush *)
definition flush_ok :: "string \<Rightarrow> 'e event_buffer \<Rightarrow> 'e event_buffer" where
  "flush_ok w s = s\<lparr>eb_flushing := (eb_flushing s)(w := None)\<rparr>"

(* src: api/src/events/event-buffer.service.ts:159-191 flush *)
definition flush_fail :: "string \<Rightarrow> 'e event_buffer \<Rightarrow> 'e event_buffer" where
  "flush_fail w s =
     (let merged = in_flight_of s w @ buffer_of s w;
          dropped = length merged - eb_max s;
          kept = drop dropped merged;
          s1 = s\<lparr>eb_dropped := eb_dropped s + dropped, eb_buffers := (eb_buffers s)(w \<mapsto> kept)\<rparr>;
          s2 = (if kept \<noteq> [] then startFlushTimer w s1 else s1)
      in s2\<lparr>eb_flushing := (eb_flushing s2)(w := None)\<rparr>)"

(* src: api/src/events/event-buffer.service.ts:58-76 add *)
definition add_event :: "string \<Rightarrow> 'e \<Rightarrow> 'e event_buffer \<Rightarrow> 'e event_buffer" where
  "add_event w e s =
     (let buffer = buffer_of s w @ [e];
          s1 = s\<lparr>eb_buffers := (eb_buffers s)(w \<mapsto> buffer)\<rparr>;
          s2 = (if length buffer = 1 then startFlushTimer w s1 else s1)
      in if MAX_BUFFER_SIZE \<le> length buffer then flush_start w s2 else s2)"

text \<open>The timer of a workspace fires only while it is armed.\<close>

(* src: api/src/events/event-buffer.service.ts:113-120 startFlushTimer *)
definition timer_fires :: "string \<Rightarrow> 'e event_buffer \<Rightarrow> 'e event_buffer" where
  "timer_fires w s = flush_start w s"

text \<open>\<open>addBatch\<close> adds the events workspace by workspace, in order of first appearance.\<close>

(* src: api/src/events/event-buffer.service.ts:78-96 addBatch *)
fun group_events :: "(string \<times> 'e) list \<Rightarrow> (string \<times> 'e list) list \<Rightarrow> (string \<times> 'e list) list" where
  "group_events [] groups = groups"
| "group_events ((w, e) # es) groups =
     group_events es (AList.update w (js_nullish (map_of groups w) [] @ [e]) groups)"

(* src: api/src/events/event-buffer.service.ts:78-96 addBatch *)
definition batch_order :: "(string \<times> 'e) list \<Rightarrow> (string \<times> 'e) list" where
  "batch_order es = concat (map (\<lambda>g. map (Pair (fst g)) (snd g)) (group_events es []))"

(* src: api/src/events/event-buffer.service.ts:98-108 getBufferSize *)
definition getBufferSize :: "string list \<Rightarrow> string option \<Rightarrow> 'e event_buffer \<Rightarrow> nat" where
  "getBufferSize keys w s =
     (if js_truthy w then length (buffer_of s (js_nullish w []))
      else sum_list (map (\<lambda>k. length (buffer_of s k)) keys))"

(* src: api/src/events/event-buffer.service.ts:42-56 onModuleDestroy *)
definition onModuleDestroy :: "string list \<Rightarrow> 'e event_buffer \<Rightarrow> 'e event_buffer" where
  "onModuleDestroy keys s =
     fold flush_start keys (s\<lparr>eb_timers := (\<lambda>_. False)\<rparr>)"

subsection \<open>The steps, with a log of what came in and what was inserted\<close>

record 'e buffer_log =
  bl_accepted :: "string \<Rightarrow> 'e list"
  bl_inserted :: "string \<Rightarrow> 'e list"
  bl_dropped :: "string \<Rightarrow> nat"

definition log_init :: "'e buffer_log" where
  "log_init = \<lparr>bl_accepted = (\<lambda>_. []), bl_inserted = (\<lambda>_. []), bl_dropped = (\<lambda>_. 0)\<rparr>"

inductive buffer_step :: "'e buffer_log \<times> 'e event_buffer \<Rightarrow> 'e buffer_log \<times> 'e event_buffer \<Rightarrow> bool" where
  add: "buffer_step (l, s) (l\<lparr>bl_accepted := (bl_accepted l)(w := bl_accepted l w @ [e])\<rparr>, add_event w e s)"
| timer: "eb_timers s w \<Longrightarrow> buffer_step (l, s) (l, timer_fires w s)"
| ok: "eb_flushing s w = Some es \<Longrightarrow>
    buffer_step (l, s) (l\<lparr>bl_inserted := (bl_inserted l)(w := bl_inserted l w @ es)\<rparr>, flush_ok w s)"
| fail: "eb_flushing s w = Some es \<Longrightarrow>
    buffer_step (l, s)
      (l\<lparr>bl_dropped := (bl_dropped l)(w := bl_dropped l w + (length (in_flight_of s w @ buffer_of s w) - eb_max s))\<rparr>,
       flush_fail w s)"

inductive_cases buffer_stepE: "buffer_step c d"

inductive buffer_reachable :: "nat option \<Rightarrow> 'e buffer_log \<times> 'e event_buffer \<Rightarrow> bool" for configured where
  init: "buffer_reachable configured (log_init, buffer_init configured)"
| step: "buffer_reachable configured c \<Longrightarrow> buffer_step c d \<Longrightarrow> buffer_reachable configured d"

definition pending_of :: "'e event_buffer \<Rightarrow> string \<Rightarrow> 'e list" where
  "pending_of s w = in_flight_of s w @ buffer_of s w"

definition log_ok :: "'e buffer_log \<times> 'e event_buffer \<Rightarrow> bool" where
  "log_ok c \<longleftrightarrow>
     (case c of (l, s) \<Rightarrow> \<forall>w. subseq (bl_inserted l w @ pending_of s w) (bl_accepted l w) \<and>
        length (bl_accepted l w) = length (bl_inserted l w @ pending_of s w) + bl_dropped l w)"

lemma timer_pending [simp]:
  "pending_of (startFlushTimer w s) v = pending_of s v" "pending_of (stopFlushTimer w s) v = pending_of s v"
  by (simp_all add: pending_of_def in_flight_of_def buffer_of_def startFlushTimer_def stopFlushTimer_def)

lemma flush_start_pending [simp]: "pending_of (flush_start w s) v = pending_of s v"
  by (auto simp: flush_start_def Let_def pending_of_def in_flight_of_def buffer_of_def stopFlushTimer_def)

lemma add_event_pending: "pending_of (add_event w e s) v = (if v = w then pending_of s w @ [e] else pending_of s v)"
proof -
  have "pending_of (s\<lparr>eb_buffers := (eb_buffers s)(w \<mapsto> buffer_of s w @ [e])\<rparr>) v
      = (if v = w then pending_of s w @ [e] else pending_of s v)"
    by (simp add: pending_of_def in_flight_of_def buffer_of_def)
  then show ?thesis by (cases "buffer_of s w = []"; cases "v = w") (simp_all add: add_event_def Let_def)
qed

lemma flush_ok_pending:
  "eb_flushing s w = Some es \<Longrightarrow> pending_of s w = es @ buffer_of s w"
  "pending_of (flush_ok w s) v = (if v = w then buffer_of s w else pending_of s v)"
  by (simp_all add: pending_of_def in_flight_of_def buffer_of_def flush_ok_def)

lemma flush_fail_pending:
  "pending_of (flush_fail w s) v =
     (if v = w then drop (length (pending_of s w) - eb_max s) (pending_of s w) else pending_of s v)"
  by (simp add: pending_of_def in_flight_of_def buffer_of_def flush_fail_def startFlushTimer_def Let_def)

lemma subseq_drop_middle: "subseq (as @ bs) cs \<Longrightarrow> subseq (as @ drop n bs) cs"
  by (meson subseq_order.order_trans list_emb_append_mono subseq_order.order_refl suffix_drop suffix_imp_subseq)

lemma buffer_step_log_ok: "buffer_step c d \<Longrightarrow> log_ok c \<Longrightarrow> log_ok d"
proof (induction rule: buffer_step.induct)
  case (add l s w e)
  then show ?case
    by (auto simp: log_ok_def add_event_pending simp flip: append_assoc intro: list_emb_append_mono)
next
  case (timer s w l)
  then show ?case by (simp add: log_ok_def timer_fires_def)
next
  case (ok s w es l)
  then have "subseq (bl_inserted l w @ es @ buffer_of s w) (bl_accepted l w) \<and>
      length (bl_accepted l w) = length (bl_inserted l w @ es @ buffer_of s w) + bl_dropped l w"
  proof -
    from ok have "\<forall>w. subseq (bl_inserted l w @ pending_of s w) (bl_accepted l w) \<and>
        length (bl_accepted l w) = length (bl_inserted l w @ pending_of s w) + bl_dropped l w"
      by (simp add: log_ok_def)
    from spec [OF this, of w] flush_ok_pending(1) [OF ok(1)] show ?thesis by simp
  qed
  with ok show ?case by (auto simp: log_ok_def flush_ok_pending(2))
next
  case (fail s w es l)
  have p: "in_flight_of s w @ buffer_of s w = pending_of s w" by (simp add: pending_of_def)
  from fail show ?case
    by (auto simp: log_ok_def flush_fail_pending p intro: subseq_drop_middle)
qed

lemma buffer_reachable_log_ok: "buffer_reachable configured c \<Longrightarrow> log_ok c"
proof (induction rule: buffer_reachable.induct)
  case init
  show ?case by (simp add: log_ok_def log_init_def buffer_init_def pending_of_def in_flight_of_def buffer_of_def)
next
  case (step c d)
  then show ?case by (simp add: buffer_step_log_ok)
qed



subsection \<open>Armed or stranded\<close>

text \<open>A workspace whose events will be flushed without any further event: a timer or a flush runs.\<close>

definition armed :: "'e event_buffer \<Rightarrow> string \<Rightarrow> bool" where
  "armed s w \<longleftrightarrow> buffer_of s w = [] \<or> eb_timers s w \<or> eb_flushing s w \<noteq> None"

definition stranded :: "'e event_buffer \<Rightarrow> string \<Rightarrow> bool" where
  "stranded s w \<longleftrightarrow> \<not> armed s w"

lemma stranded_add:
  assumes "stranded s w" "length (buffer_of s w) + 1 < MAX_BUFFER_SIZE"
  shows "stranded (add_event w e s) w \<and> buffer_of (add_event w e s) w = buffer_of s w @ [e]"
  using assms by (simp add: stranded_def armed_def add_event_def buffer_of_def Let_def)

lemma stranded_adds:
  "stranded s w \<Longrightarrow> length (buffer_of s w) + length es < MAX_BUFFER_SIZE \<Longrightarrow> stranded (fold (add_event w) es s) w"
proof (induction es arbitrary: s)
  case Nil
  then show ?case by simp
next
  case (Cons e es)
  then show ?case using stranded_add [of s w e] by simp
qed

text \<open>
  Events can be stranded. One event is being inserted, a second arrives and arms the timer, the
  timer fires while the insertion still runs (it disarms itself and does nothing), and the insertion succeeds:
  the second event is then in the buffer with neither a timer nor a flush, and stays so even when
  498 further events arrive, one short of the size that starts a flush.
\<close>
theorem event_buffer_strands:
  "\<exists>(l :: nat buffer_log) (s :: nat event_buffer). buffer_reachable None (l, s) \<and> buffer_of s ''w'' = [2] \<and>
     \<not> eb_timers s ''w'' \<and> eb_flushing s ''w'' = None \<and>
     stranded (fold (add_event ''w'') (replicate 498 3) s) ''w''"
proof -
  let ?s0 = "buffer_init None :: nat event_buffer"
  let ?s1 = "add_event ''w'' 1 ?s0"
  let ?s2 = "timer_fires ''w'' ?s1"
  let ?s3 = "add_event ''w'' 2 ?s2"
  let ?s4 = "timer_fires ''w'' ?s3"
  let ?s5 = "flush_ok ''w'' ?s4"
  note defs = add_event_def timer_fires_def flush_start_def flush_ok_def buffer_of_def buffer_init_def
    startFlushTimer_def stopFlushTimer_def MAX_BUFFER_SIZE_def Let_def
  have "\<exists>l. buffer_reachable None (l :: nat buffer_log, ?s1)"
    by (rule exI, rule buffer_reachable.step [OF buffer_reachable.init buffer_step.add])
  moreover have "eb_timers ?s1 ''w''" by (simp add: defs)
  ultimately have "\<exists>l. buffer_reachable None (l :: nat buffer_log, ?s2)"
    using buffer_reachable.step buffer_step.timer by meson
  then have "\<exists>l. buffer_reachable None (l :: nat buffer_log, ?s3)"
    using buffer_reachable.step buffer_step.add by meson
  moreover have "eb_timers ?s3 ''w''" by (simp add: defs)
  ultimately have "\<exists>l. buffer_reachable None (l :: nat buffer_log, ?s4)"
    using buffer_reachable.step buffer_step.timer by meson
  moreover have "eb_flushing ?s4 ''w'' = Some [1]" by (simp add: defs)
  ultimately have "\<exists>l. buffer_reachable None (l :: nat buffer_log, ?s5)"
    using buffer_reachable.step buffer_step.ok by meson
  moreover have b: "buffer_of ?s5 ''w'' = [2]" and n: "\<not> eb_timers ?s5 ''w''" "eb_flushing ?s5 ''w'' = None"
    by (simp_all add: defs)
  moreover have "stranded (fold (add_event ''w'') (replicate 498 3) ?s5) ''w''"
    by (rule stranded_adds) (use b n in \<open>simp_all add: stranded_def armed_def MAX_BUFFER_SIZE_def\<close>)
  ultimately show ?thesis by blast
qed

text \<open>
  Outside that race nothing is stranded: every step other than a timer that fires, or a full buffer
  that flushes, while an insertion of the same workspace is under way keeps every workspace armed.
\<close>

lemma add_keeps_armed:
  assumes "armed s v" "\<not> (eb_flushing s w \<noteq> None \<and> MAX_BUFFER_SIZE \<le> length (buffer_of s w) + 1)"
  shows "armed (add_event w e s) v"
  using assms
  by (auto simp: armed_def add_event_def flush_start_def buffer_of_def startFlushTimer_def stopFlushTimer_def Let_def)

lemma fail_keeps_armed: "armed s v \<Longrightarrow> armed (flush_fail w s) v"
  by (auto simp: armed_def flush_fail_def buffer_of_def in_flight_of_def startFlushTimer_def Let_def)

lemma timer_keeps_armed: "armed s v \<Longrightarrow> eb_flushing s w = None \<Longrightarrow> armed (timer_fires w s) v"
  by (auto simp: armed_def timer_fires_def flush_start_def buffer_of_def stopFlushTimer_def Let_def)

subsection \<open>Batches\<close>

lemma map_of_group_events:
  "js_nullish (map_of (group_events es gs) w) [] =
     js_nullish (map_of gs w) [] @ map snd (filter (\<lambda>we. fst we = w) es)"
proof (induction es gs rule: group_events.induct)
  case (1 gs)
  show ?case by simp
next
  case (2 v e es gs)
  then show ?case by (cases "v = w") simp_all
qed

lemma group_events_distinct: "distinct (map fst gs) \<Longrightarrow> distinct (map fst (group_events es gs))"
  by (induction es gs rule: group_events.induct) (simp_all add: distinct_update)

lemma filter_groups:
  "distinct (map fst gs) \<Longrightarrow>
   filter (\<lambda>we. fst we = w) (concat (map (\<lambda>g. map (Pair (fst g)) (snd g)) gs)) = map (Pair w) (js_nullish (map_of gs w) [])"
proof (induction gs)
  case Nil
  show ?case by simp
next
  case (Cons g gs)
  obtain v es where g: "g = (v, es)" by (cases g)
  have "filter (\<lambda>we. fst we = w) (map (Pair v) es) = (if v = w then map (Pair w) es else [])"
    by (auto simp: filter_map comp_def)
  moreover have "v = w \<Longrightarrow> map_of gs w = None" using Cons.prems g by (auto simp: map_of_eq_None_iff)
  ultimately show ?case using Cons by (auto simp: g)
qed

lemma batch_order_workspace:
  "filter (\<lambda>we. fst we = w) (batch_order es) = filter (\<lambda>we. fst we = w) es"
proof -
  have "filter (\<lambda>we. fst we = w) es = map (Pair w) (map snd (filter (\<lambda>we. fst we = w) es))"
    by (induction es) auto
  then show ?thesis
    using map_of_group_events [of es "[]" w] group_events_distinct [of "[]" es]
    by (simp add: batch_order_def filter_groups)
qed

end
