(* ===== verification/Rate_Limiter.thy ===== *)
theory Rate_Limiter
  imports Prelude
begin

section \<open>The assistant's usage limits\<close>

text \<open>
  \<^verbatim>\<open>api/src/assistant/lib/rate-limiter.ts\<close>: usage counters per integration, held in memory. Both
  counters share one reset time. The clock, in milliseconds, is an argument.
\<close>

(* src: api/src/assistant/lib/rate-limiter.ts:7-11 UsageEntry *)
record usage_entry =
  ue_requests :: int
  ue_tokens :: int
  ue_last_reset :: int

record usage_limits =
  ul_requests_per_hour :: int
  ul_tokens_per_day :: int

type_synonym usage_store = "string \<rightharpoonup> usage_entry"

(* src: api/src/assistant/lib/rate-limiter.ts:21-23 getUsageKey *)
definition getUsageKey :: "string \<Rightarrow> string \<Rightarrow> string" where
  "getUsageKey ws i = ws @ '':'' @ i"

(* src: api/src/assistant/lib/rate-limiter.ts:28-42 getUsage *)
definition getUsage :: "int \<Rightarrow> string \<Rightarrow> usage_store \<Rightarrow> usage_entry" where
  "getUsage now key st =
     js_nullish (st key) \<lparr>ue_requests = 0, ue_tokens = 0, ue_last_reset = now\<rparr>"

definition hour_ms :: int where
  "hour_ms = 1000 * 60 * 60"

(* src: api/src/assistant/lib/rate-limiter.ts:47-62 maybeResetCounters *)
definition maybeResetCounters :: "int \<Rightarrow> usage_entry \<Rightarrow> usage_entry" where
  "maybeResetCounters now e =
     (let since = now - ue_last_reset e
      in if 24 * hour_ms \<le> since then e\<lparr>ue_requests := 0, ue_tokens := 0, ue_last_reset := now\<rparr>
         else if hour_ms \<le> since then e\<lparr>ue_requests := 0, ue_last_reset := now\<rparr>
         else e)"

text \<open>The exception carries the seconds until the hourly counter resets, or nothing.\<close>

(* src: api/src/assistant/lib/rate-limiter.ts:67-78 RateLimitException *)
datatype rate_limit_error = Requests_exceeded int | Tokens_exceeded

definition ceil_div :: "int \<Rightarrow> int \<Rightarrow> int" where
  "ceil_div a b = - ((- a) div b)"

(* src: api/src/assistant/lib/rate-limiter.ts:84-111 checkRateLimits *)
definition checkRateLimits ::
    "int \<Rightarrow> string \<Rightarrow> usage_limits \<Rightarrow> usage_store \<Rightarrow> (rate_limit_error + unit) \<times> usage_store" where
  "checkRateLimits now key limits st =
     (let e = maybeResetCounters now (getUsage now key st); st1 = st(key \<mapsto> e)
      in if ul_requests_per_hour limits \<le> ue_requests e
         then (Inl (Requests_exceeded (ceil_div (hour_ms - (now - ue_last_reset e)) 1000)), st1)
         else if ul_tokens_per_day limits \<le> ue_tokens e then (Inl Tokens_exceeded, st1)
         else (Inr (), st1))"

(* src: api/src/assistant/lib/rate-limiter.ts:116-126 updateUsage *)
definition updateUsage :: "int \<Rightarrow> string \<Rightarrow> int \<Rightarrow> usage_store \<Rightarrow> usage_store" where
  "updateUsage now key used st =
     (let e = maybeResetCounters now (getUsage now key st)
      in st(key \<mapsto> e\<lparr>ue_requests := ue_requests e + 1, ue_tokens := ue_tokens e + used\<rparr>))"

(* src: api/src/assistant/lib/rate-limiter.ts:131-142 getCurrentUsage *)
definition getCurrentUsage :: "int \<Rightarrow> string \<Rightarrow> usage_store \<Rightarrow> (int \<times> int) \<times> usage_store" where
  "getCurrentUsage now key st =
     (let e = maybeResetCounters now (getUsage now key st)
      in ((ue_requests e, ue_tokens e), st(key \<mapsto> e)))"

text \<open>The calls on one integration, in time order.\<close>

datatype usage_call = Check usage_limits | Update int | Display

fun run_call :: "string \<Rightarrow> int \<times> usage_call \<Rightarrow> usage_store \<Rightarrow> usage_store" where
  "run_call key (now, Check l) st = snd (checkRateLimits now key l st)"
| "run_call key (now, Update used) st = updateUsage now key used st"
| "run_call key (now, Display) st = snd (getCurrentUsage now key st)"

text \<open>Every call comes at most 23 hours after the one before.\<close>

fun within_23h :: "int \<Rightarrow> (int \<times> usage_call) list \<Rightarrow> bool" where
  "within_23h t [] = True"
| "within_23h t (c # cs) = (t \<le> fst c \<and> fst c \<le> t + 23 * hour_ms \<and> within_23h (fst c) cs)"

definition fresh_at :: "int \<Rightarrow> usage_entry \<Rightarrow> bool" where
  "fresh_at t e \<longleftrightarrow> ue_last_reset e \<le> t \<and> t - ue_last_reset e < hour_ms"

lemma maybeResetCounters_fresh:
  "ue_last_reset e \<le> now \<Longrightarrow> fresh_at now (maybeResetCounters now e)"
  by (auto simp: maybeResetCounters_def fresh_at_def hour_ms_def Let_def)

lemma maybeResetCounters_tokens:
  "fresh_at t e \<Longrightarrow> now \<le> t + 23 * hour_ms \<Longrightarrow> ue_tokens (maybeResetCounters now e) = ue_tokens e"
  by (auto simp: maybeResetCounters_def fresh_at_def hour_ms_def Let_def)

lemma run_call_tokens:
  assumes "st key = Some e" "fresh_at t e" "t \<le> fst c" "fst c \<le> t + 23 * hour_ms"
    and "\<And>n. snd c = Update n \<Longrightarrow> 0 \<le> n"
  shows "\<exists>f. run_call key c st key = Some f \<and> fresh_at (fst c) f \<and> ue_tokens e \<le> ue_tokens f"
proof -
  obtain now k where c: "c = (now, k)" by (cases c)
  have g: "getUsage now key st = e" using assms(1) by (simp add: getUsage_def)
  have "ue_last_reset e \<le> now" using assms c by (simp add: fresh_at_def)
  then have f: "fresh_at now (maybeResetCounters now e)" by (rule maybeResetCounters_fresh)
  have "ue_tokens (maybeResetCounters now e) = ue_tokens e"
    using assms(2,4) c by (intro maybeResetCounters_tokens) auto
  with f assms(5) show ?thesis
    by (cases k) (auto simp: c checkRateLimits_def updateUsage_def getCurrentUsage_def g Let_def fresh_at_def)
qed

lemma run_calls_tokens:
  assumes "st key = Some e" "fresh_at t e" "within_23h t cs" "\<forall>c \<in> set cs. \<forall>n. snd c = Update n \<longrightarrow> 0 \<le> n"
  shows "\<exists>f. fold (run_call key) cs st key = Some f \<and> fresh_at (last (t # map fst cs)) f \<and> ue_tokens e \<le> ue_tokens f"
  using assms
proof (induction cs arbitrary: st e t)
  case Nil
  then show ?case by auto
next
  case (Cons c cs)
  then obtain f where f: "run_call key c st key = Some f" "fresh_at (fst c) f" "ue_tokens e \<le> ue_tokens f"
    using run_call_tokens [of st key e t c] by auto
  have "within_23h (fst c) cs" using Cons.prems(3) by simp
  moreover have "\<forall>c \<in> set cs. \<forall>n. snd c = Update n \<longrightarrow> 0 \<le> n" using Cons.prems(4) by simp
  ultimately obtain g where
    "fold (run_call key) cs (run_call key c st) key = Some g" "fresh_at (last (fst c # map fst cs)) g" "ue_tokens f \<le> ue_tokens g"
    using Cons.IH [of "run_call key c st" f "fst c"] f by blast
  with f(3) show ?case by (intro exI [of _ g]) auto
qed

text \<open>
  The daily token limit never recovers under regular use: as long as the integration is used,
  checked or merely displayed at least once every 23 hours, the daily counter never goes down, so
  once the limit is reached every later check refuses, for good.
\<close>
theorem daily_limit_never_resets:
  assumes "st key = Some e" and "fresh_at t e" and "within_23h t (cs @ [(now, Check limits)])"
    and "\<forall>c \<in> set cs. \<forall>n. snd c = Update n \<longrightarrow> 0 \<le> n"
    and "ul_tokens_per_day limits \<le> ue_tokens e"
  shows "fst (checkRateLimits now key limits (fold (run_call key) cs st)) \<noteq> Inr ()"
proof -
  have w: "within_23h t cs" and l: "last (t # map fst cs) \<le> now" "now \<le> last (t # map fst cs) + 23 * hour_ms"
    using assms(3) by (induction cs arbitrary: t) auto
  obtain f where f: "fold (run_call key) cs st key = Some f" "fresh_at (last (t # map fst cs)) f" "ue_tokens e \<le> ue_tokens f"
    using run_calls_tokens [of st key e t cs] assms(1,2,4) w by blast
  have "ue_tokens (maybeResetCounters now f) = ue_tokens f"
    by (rule maybeResetCounters_tokens [OF f(2) l(2)])
  with f assms(5) show ?thesis by (simp add: checkRateLimits_def getUsage_def Let_def)
qed

lemma daily_limit_never_resets_witness:
  "fst (checkRateLimits (60 * 3600000) ''w:i'' \<lparr>ul_requests_per_hour = 10, ul_tokens_per_day = 100\<rparr>
     (fold (run_call ''w:i'') [(20 * 3600000, Display), (40 * 3600000, Display)]
        [''w:i'' \<mapsto> \<lparr>ue_requests = 1, ue_tokens = 100, ue_last_reset = 0\<rparr>])) \<noteq> Inr ()"
  by (rule daily_limit_never_resets [where t = 0 and e = "\<lparr>ue_requests = 1, ue_tokens = 100, ue_last_reset = 0\<rparr>"]) (simp_all add: fresh_at_def hour_ms_def)

text \<open>The hourly limit does what it says for calls made one after the other: check, then update.\<close>

definition assistant_request :: "int \<Rightarrow> string \<Rightarrow> usage_limits \<Rightarrow> int \<Rightarrow> usage_store \<Rightarrow> (rate_limit_error + unit) \<times> usage_store" where
  "assistant_request now key limits used st =
     (case checkRateLimits now key limits st of
        (Inl e, st1) \<Rightarrow> (Inl e, st1)
      | (Inr u, st1) \<Rightarrow> (Inr u, updateUsage now key used st1))"

lemma maybeReset_idem: "maybeResetCounters now (maybeResetCounters now e) = maybeResetCounters now e"
  by (auto simp: maybeResetCounters_def hour_ms_def Let_def)

lemma assistant_request_bounded:
  assumes "st key = Some e" "ue_requests e \<le> ul_requests_per_hour limits" "0 \<le> ul_requests_per_hour limits"
  shows "\<exists>f. snd (assistant_request now key limits used st) key = Some f \<and> ue_requests f \<le> ul_requests_per_hour limits"
proof -
  let ?e = "maybeResetCounters now e"
  have "ue_requests ?e \<le> ul_requests_per_hour limits"
    using assms by (simp add: maybeResetCounters_def Let_def)
  then show ?thesis
    using assms(1)
    by (simp add: assistant_request_def checkRateLimits_def updateUsage_def getUsage_def maybeReset_idem Let_def)
qed

end
