(* ===== verification/Webhook_Filter.thy ===== *)
theory Webhook_Filter
  imports Filters
begin

section \<open>Webhooks: which events a webhook receives\<close>

text \<open>
  \<^verbatim>\<open>api/src/webhooks/webhook-filter-engine.ts\<close> on dynamically typed events. Regular expressions
  and the conversions between numbers and text are arguments. Inherited members of the platform's
  prototypes (an event field called \<^verbatim>\<open>constructor\<close>) read as absent.
\<close>

record number_text =
  nt_print :: "real \<Rightarrow> string"
  nt_read :: "string \<Rightarrow> real option"

(* src: api/src/webhooks/entities/webhook-definition.entity.ts:11-11 FilterOp *)
datatype webhook_op = W_equals | W_matches | W_in | W_gt | W_lt | W_other string

(* src: api/src/webhooks/entities/webhook-definition.entity.ts:13-17 WebhookFilter *)
record webhook_filter =
  wf_field :: string
  wf_op :: webhook_op
  wf_value :: jsval

text \<open>\<open>String(v)\<close>; inside an array null and undefined print as nothing.\<close>

fun js_text :: "number_text \<Rightarrow> jsval \<Rightarrow> string" where
  "js_text nt JUndefined = ''undefined''"
| "js_text nt JNull = ''null''"
| "js_text nt (JBool b) = (if b then ''true'' else ''false'')"
| "js_text nt (JNum x) = nt_print nt x"
| "js_text nt (JStr s) = s"
| "js_text nt (JArr vs) = js_join '','' (map (\<lambda>v. if v = JNull \<or> v = JUndefined then [] else js_text nt v) vs)"
| "js_text nt (JObj kvs) = ''[object Object]''"

text \<open>Reading a member of an object or an array.\<close>

definition array_index :: "string \<Rightarrow> nat option" where
  "array_index s =
     (if s \<noteq> [] \<and> list_all is_digit s \<and> js_of_nat (digits_value s) = s then Some (digits_value s) else None)"

definition js_member :: "jsval \<Rightarrow> string \<Rightarrow> jsval" where
  "js_member v k =
     (case v of
        JObj kvs \<Rightarrow> js_nullish (map_of kvs k) JUndefined
      | JArr vs \<Rightarrow>
          (if k = ''length'' then JNum (of_nat (length vs))
           else case array_index k of Some i \<Rightarrow> (if i < length vs then vs ! i else JUndefined) | None \<Rightarrow> JUndefined)
      | _ \<Rightarrow> JUndefined)"

(* src: api/src/webhooks/webhook-filter-engine.ts:95-105 resolveField *)
definition resolveField :: "jsval \<Rightarrow> string \<Rightarrow> jsval" where
  "resolveField source path =
     (if path = [] then JUndefined
      else foldl (\<lambda>cursor segment. js_member cursor segment) source (js_split (CHR ''.'') path))"

(* src: api/src/webhooks/webhook-filter-engine.ts:107-114 equalsLoose *)
definition equalsLoose :: "number_text \<Rightarrow> jsval \<Rightarrow> jsval \<Rightarrow> bool" where
  "equalsLoose nt a b =
     (if a = b then True
      else if a \<in> {JNull, JUndefined} \<or> b \<in> {JNull, JUndefined} then False
      else js_text nt a = js_text nt b)"

(* src: api/src/webhooks/webhook-filter-engine.ts:116-123 coerceNumber *)
definition coerceNumber :: "number_text \<Rightarrow> jsval \<Rightarrow> real option" where
  "coerceNumber nt v =
     (case v of
        JNum x \<Rightarrow> Some x
      | JStr s \<Rightarrow> (if js_trim s \<noteq> [] then nt_read nt s else None)
      | _ \<Rightarrow> None)"

(* src: api/src/webhooks/webhook-filter-engine.ts:13-14 MAX_REGEX_PATTERN_LENGTH *)
definition regex_within_limits :: "string \<Rightarrow> string \<Rightarrow> bool" where
  "regex_within_limits pattern input \<longleftrightarrow> length pattern \<le> 512 \<and> length input \<le> 4096"

(* src: api/src/webhooks/webhook-filter-engine.ts:45-92 evaluateOne *)
definition evaluateOne :: "regex_engine \<Rightarrow> number_text \<Rightarrow> webhook_filter \<Rightarrow> jsval \<Rightarrow> bool" where
  "evaluateOne rx nt f event =
     (let fieldValue = resolveField event (wf_field f)
      in case wf_op f of
           W_equals \<Rightarrow> equalsLoose nt fieldValue (wf_value f)
         | W_matches \<Rightarrow>
             (case (fieldValue, wf_value f) of
                (JStr s, JStr p) \<Rightarrow>
                  (if \<not> regex_within_limits p s then False
                   else case rx p s of Some b \<Rightarrow> b | None \<Rightarrow> False)
              | _ \<Rightarrow> False)
         | W_in \<Rightarrow>
             (case wf_value f of
                JArr candidates \<Rightarrow> list_ex (equalsLoose nt fieldValue) candidates
              | _ \<Rightarrow> False)
         | W_gt \<Rightarrow>
             (case (coerceNumber nt fieldValue, coerceNumber nt (wf_value f)) of
                (Some x, Some t) \<Rightarrow> t < x
              | _ \<Rightarrow> False)
         | W_lt \<Rightarrow>
             (case (coerceNumber nt fieldValue, coerceNumber nt (wf_value f)) of
                (Some x, Some t) \<Rightarrow> x < t
              | _ \<Rightarrow> False)
         | W_other _ \<Rightarrow> False)"

(* src: api/src/webhooks/webhook-filter-engine.ts:37-43 matches *)
definition webhook_matches :: "regex_engine \<Rightarrow> number_text \<Rightarrow> webhook_filter list \<Rightarrow> jsval \<Rightarrow> bool" where
  "webhook_matches rx nt fs event \<longleftrightarrow> (if fs = [] then True else list_all (\<lambda>f. evaluateOne rx nt f event) fs)"

subsection \<open>Properties\<close>

lemma equalsLoose_refl [simp]: "equalsLoose nt a a"
  by (simp add: equalsLoose_def)

lemma equalsLoose_sym: "equalsLoose nt a b \<longleftrightarrow> equalsLoose nt b a"
  by (auto simp: equalsLoose_def)

lemma equalsLoose_undefined [simp]: "equalsLoose nt JUndefined b \<longleftrightarrow> b = JUndefined"
  by (auto simp: equalsLoose_def)

lemma webhook_matches_iff: "webhook_matches rx nt fs event \<longleftrightarrow> (\<forall>f \<in> set fs. evaluateOne rx nt f event)"
  by (auto simp: webhook_matches_def list_all_iff)

lemma webhook_matches_append:
  "webhook_matches rx nt (fs @ gs) event \<longleftrightarrow> webhook_matches rx nt fs event \<and> webhook_matches rx nt gs event"
  by (auto simp: webhook_matches_iff)

text \<open>A value that can come out of stored JSON: \<open>undefined\<close> occurs nowhere in it.\<close>

fun defined_value :: "jsval \<Rightarrow> bool" where
  "defined_value JUndefined = False"
| "defined_value (JArr vs) = (JUndefined \<notin> set vs)"
| "defined_value _ = True"

lemma missing_evaluates_false:
  assumes "resolveField event (wf_field f) = JUndefined" "defined_value (wf_value f)"
  shows "\<not> evaluateOne rx nt f event"
  using assms by (auto simp: evaluateOne_def coerceNumber_def list_ex_iff split: webhook_op.splits jsval.splits)

lemma evaluateOne_matches:
  assumes "wf_op f = W_matches" "evaluateOne rx nt f event"
  shows "\<exists>s p. resolveField event (wf_field f) = JStr s \<and> wf_value f = JStr p \<and>
     length p \<le> 512 \<and> length s \<le> 4096 \<and> rx p s = Some True"
  using assms
  by (cases "resolveField event (wf_field f)"; cases "wf_value f")
    (auto simp: evaluateOne_def regex_within_limits_def split: if_splits option.splits)

lemma evaluateOne_gt:
  assumes "wf_op f = W_gt" "evaluateOne rx nt f event"
  shows "\<not> evaluateOne rx nt (f\<lparr>wf_op := W_lt\<rparr>) event"
  using assms by (auto simp: evaluateOne_def split: option.splits)

text \<open>
  What each operator accepts: a field the event does not have satisfies no filter, whatever its
  operator; a regular expression is only run on a pattern of at most 512 and an input of at most 4096
  characters; and no value is both above and below the same threshold.
\<close>
theorem webhook_filter_fails_closed:
  assumes "webhook_matches rx nt fs event" and "f \<in> set fs" and "defined_value (wf_value f)"
  shows "resolveField event (wf_field f) \<noteq> JUndefined \<and>
     (wf_op f = W_matches \<longrightarrow>
        (\<exists>s p. resolveField event (wf_field f) = JStr s \<and> wf_value f = JStr p \<and>
           length p \<le> 512 \<and> length s \<le> 4096 \<and> rx p s = Some True)) \<and>
     (wf_op f = W_gt \<longrightarrow> \<not> evaluateOne rx nt (f\<lparr>wf_op := W_lt\<rparr>) event)"
proof -
  have e: "evaluateOne rx nt f event" using assms(1,2) by (simp add: webhook_matches_iff)
  then have "resolveField event (wf_field f) \<noteq> JUndefined"
    using missing_evaluates_false [OF _ assms(3)] by blast
  with e show ?thesis using evaluateOne_matches [of f rx nt event] evaluateOne_gt [of f rx nt event] by blast
qed

lemma webhook_filter_fails_closed_witness:
  "resolveField (JObj [(''score'', JNum 5)]) ''score'' \<noteq> JUndefined"
proof -
  let ?f = "\<lparr>wf_field = ''score'', wf_op = W_gt, wf_value = JNum 3\<rparr>"
  let ?nt = "\<lparr>nt_print = (\<lambda>_. []), nt_read = (\<lambda>_. None)\<rparr>"
  have "webhook_matches (\<lambda>_ _. None) ?nt [?f] (JObj [(''score'', JNum 5)])"
    by (simp add: webhook_matches_def evaluateOne_def resolveField_def js_member_def coerceNumber_def)
  from webhook_filter_fails_closed [OF this, of ?f] show ?thesis by simp
qed

end
