(* ===== verification/Ssrf_Guard.thy ===== *)
theory Ssrf_Guard
  imports Prelude "HOL-Library.Word"
begin

section \<open>Outbound requests: the SSRF guard\<close>

text \<open>
  \<^verbatim>\<open>api/src/common/ssrf-guard.ts\<close>: which targets the server may call on behalf of a workspace.
  Parsing of the address is an argument (\<open>None\<close>: the URL constructor throws), and so is the name
  resolution (\<open>None\<close>: it fails). Addresses are recognised as \<open>net.isIP\<close> does it.
\<close>

subsection \<open>Address literals, as \<open>net.isIP\<close> and \<open>parseInt\<close> read them\<close>

definition js_parse_int :: "string \<Rightarrow> int option" where
  "js_parse_int s =
     (let t = dropWhile js_space s;
          neg = js_starts_with t ''-'';
          u = (if neg \<or> js_starts_with t ''+'' then drop 1 t else t);
          ds = takeWhile is_digit u
      in if ds = [] then None else Some (if neg then - int (digits_value ds) else int (digits_value ds)))"

definition v4_octet :: "string \<Rightarrow> bool" where
  "v4_octet p \<longleftrightarrow> p \<noteq> [] \<and> list_all is_digit p \<and> length p \<le> 3 \<and> digits_value p \<le> 255 \<and>
     (1 < length p \<longrightarrow> hd p \<noteq> CHR ''0'')"

definition is_ipv4 :: "string \<Rightarrow> bool" where
  "is_ipv4 s \<longleftrightarrow> length (js_split (CHR ''.'') s) = 4 \<and> list_all v4_octet (js_split (CHR ''.'') s)"

definition hex_digit_char :: "char \<Rightarrow> bool" where
  "hex_digit_char c \<longleftrightarrow> is_digit c \<or> c \<in> set ''abcdefABCDEF''"

definition v6_group :: "string \<Rightarrow> bool" where
  "v6_group p \<longleftrightarrow> 1 \<le> length p \<and> length p \<le> 4 \<and> list_all hex_digit_char p"

text \<open>The number of 16-bit groups a colon-separated part stands for; an IPv4 tail counts two.\<close>

definition v6_groups :: "bool \<Rightarrow> string \<Rightarrow> nat option" where
  "v6_groups tail s =
     (if s = [] then Some 0
      else let ps = js_split (CHR '':'') s
           in if list_all v6_group ps then Some (length ps)
              else if tail \<and> list_all v6_group (butlast ps) \<and> is_ipv4 (last ps) then Some (Suc (length ps))
              else None)"

fun split_double_colon :: "string \<Rightarrow> (string \<times> string) option" where
  "split_double_colon (c # d # s) =
     (if c = CHR '':'' \<and> d = CHR '':'' then Some ([], s)
      else map_option (apfst ((#) c)) (split_double_colon (d # s)))"
| "split_double_colon _ = None"

definition v6_zone_ok :: "string \<Rightarrow> bool" where
  "v6_zone_ok z \<longleftrightarrow> z = [] \<or>
     (1 < length z \<and> list_all (\<lambda>c. is_digit c \<or> c \<in> set ''abcdefghijklmnopqrstuvwxyzABCDEFGHIJKLMNOPQRSTUVWXYZ-.:'') (tl z))"

definition is_ipv6 :: "string \<Rightarrow> bool" where
  "is_ipv6 s \<longleftrightarrow>
     v6_zone_ok (dropWhile (\<lambda>c. c \<noteq> CHR ''%'') s) \<and>
     (let b = takeWhile (\<lambda>c. c \<noteq> CHR ''%'') s
      in case split_double_colon b of
           None \<Rightarrow> b \<noteq> [] \<and> v6_groups True b = Some 8
         | Some (l, r) \<Rightarrow>
             (case (v6_groups False l, v6_groups True r) of (Some m, Some n) \<Rightarrow> m + n \<le> 7 | _ \<Rightarrow> False))"

definition isIP :: "string \<Rightarrow> nat" where
  "isIP s = (if is_ipv4 s then 4 else if is_ipv6 s then 6 else 0)"

subsection \<open>Private addresses\<close>

(* src: api/src/common/ssrf-guard.ts:93-107 isPrivateIpv4 *)
definition isPrivateIpv4 :: "string \<Rightarrow> bool" where
  "isPrivateIpv4 ip =
     (case map js_parse_int (js_split (CHR ''.'') ip) of
        [Some a, Some b, Some c, Some d] \<Rightarrow>
          (if list_ex (\<lambda>n. n < 0 \<or> 255 < n) [a, b, c, d] then False
           else if a = 0 then True
           else if a = 127 then True
           else if a = 10 then True
           else if a = 169 \<and> b = 254 then True
           else if a = 172 \<and> 16 \<le> b \<and> b \<le> 31 then True
           else if a = 192 \<and> b = 168 then True
           else if a = 100 \<and> 64 \<le> b \<and> b \<le> 127 then True
           else False)
      | _ \<Rightarrow> False)"

text \<open>The part of an address matched by \<open>/^::ffff:(\d{1,3}\.\d{1,3}\.\d{1,3}\.\d{1,3})$/\<close>.\<close>

definition mapped_v4 :: "string \<Rightarrow> string option" where
  "mapped_v4 s =
     (let r = drop 7 s; ps = js_split (CHR ''.'') r
      in if js_starts_with s ''::ffff:'' \<and> length ps = 4 \<and>
            list_all (\<lambda>p. 1 \<le> length p \<and> length p \<le> 3 \<and> list_all is_digit p) ps
         then Some r else None)"

(* src: api/src/common/ssrf-guard.ts:109-125 isPrivateIpv6 *)
definition isPrivateIpv6 :: "string \<Rightarrow> bool" where
  "isPrivateIpv6 ip =
     (let lower = js_lower ip
      in if lower = ''::1'' \<or> lower = ''::'' then True
         else if js_starts_with lower ''fc'' \<or> js_starts_with lower ''fd'' then True
         else if js_starts_with lower ''fe8'' \<or> js_starts_with lower ''fe9'' \<or>
                 js_starts_with lower ''fea'' \<or> js_starts_with lower ''feb'' then True
         else case mapped_v4 lower of Some v4 \<Rightarrow> isPrivateIpv4 v4 | None \<Rightarrow> False)"

(* src: api/src/common/ssrf-guard.ts:86-91 isPrivateIp *)
definition isPrivateIp :: "string \<Rightarrow> bool" where
  "isPrivateIp ip =
     (let family = isIP ip
      in if family = 4 then isPrivateIpv4 ip
         else if family = 6 then isPrivateIpv6 ip
         else False)"

definition strip_brackets :: "string \<Rightarrow> string" where
  "strip_brackets s =
     (let t = (if js_starts_with s ''['' then drop 1 s else s)
      in if js_ends_with t '']'' then butlast t else t)"

(* src: api/src/common/ssrf-guard.ts:68-79 isPrivateHostname *)
definition isPrivateHostname :: "string \<Rightarrow> bool" where
  "isPrivateHostname hostname =
     (let lower = strip_brackets (js_lower hostname)
      in if lower = ''localhost'' then True
         else if lower = ''localhost.localdomain'' then True
         else if isIP lower \<noteq> 0 then isPrivateIp lower
         else False)"

text \<open>
  \<open>/^analytics-engine([.-][a-z0-9-]+)*\.veridian\.site$/\<close>: what stands between the two fixed ends
  is cut at its dots; every piece after a dot is nonempty, and what precedes the first dot is empty
  or a hyphen followed by at least one more character.
\<close>

definition label_char :: "char \<Rightarrow> bool" where
  "label_char c \<longleftrightarrow> c \<in> set ''abcdefghijklmnopqrstuvwxyz0123456789-''"

definition engine_labels :: "string \<Rightarrow> bool" where
  "engine_labels m =
     (case js_split (CHR ''.'') m of
        [] \<Rightarrow> False
      | p # ps \<Rightarrow> (p = [] \<or> (hd p = CHR ''-'' \<and> 2 \<le> length p \<and> list_all label_char p)) \<and>
                 list_all (\<lambda>q. q \<noteq> [] \<and> list_all label_char q) ps)"

(* src: api/src/common/ssrf-guard.ts:128-131 isEngineSelfHostname *)
definition isEngineSelfHostname :: "string \<Rightarrow> bool" where
  "isEngineSelfHostname hostname =
     (let lower = js_lower hostname
      in js_starts_with lower ''analytics-engine'' \<and> js_ends_with lower ''.veridian.site'' \<and> 30 \<le> length lower \<and>
         engine_labels (take (length lower - 30) (drop 16 lower)))"

subsection \<open>The guard\<close>

record parsed_url =
  pu_protocol :: string
  pu_hostname :: string

datatype ssrf_error = Invalid_url string | Forbidden_target string | Dns_resolution_failed string

(* src: api/src/common/ssrf-guard.ts:143-196 assertSafeUrl *)
definition assertSafeUrl :: "bool \<Rightarrow> bool \<Rightarrow> parsed_url option \<Rightarrow> ssrf_error + parsed_url" where
  "assertSafeUrl allowHttp allowPrivate url =
     (case url of
        None \<Rightarrow> Inl (Invalid_url ''Malformed URL'')
      | Some parsed \<Rightarrow>
          (let protocol = js_lower (pu_protocol parsed); hostname = pu_hostname parsed
           in if protocol \<noteq> ''https:'' \<and> protocol \<noteq> ''http:'' then
                Inl (Invalid_url (''Scheme '' @ protocol @ '' is not allowed''))
              else if protocol = ''http:'' \<and> \<not> allowHttp then
                Inl (Invalid_url ''http:// is not allowed in production. Use https:// or enable http on staging/dev.'')
              else if hostname = [] then Inl (Forbidden_target ''URL must include a hostname'')
              else if \<not> allowPrivate \<and> isPrivateHostname hostname then
                Inl (Forbidden_target (''Hostname '' @ hostname @ '' is a private / loopback address''))
              else if isEngineSelfHostname hostname then
                Inl (Forbidden_target (''Hostname '' @ hostname @ '' targets the engine itself (loop guard)''))
              else Inr parsed))"

fun vet_addresses :: "string \<Rightarrow> string list \<Rightarrow> ssrf_error + unit" where
  "vet_addresses hostname [] = Inr ()"
| "vet_addresses hostname (a # as) =
     (if isPrivateIp a then
        Inl (Forbidden_target (''Hostname '' @ hostname @ '' resolves to a private / loopback address ('' @ a @ '')''))
      else vet_addresses hostname as)"

type_synonym resolver = "string \<Rightarrow> string + string list"

(* src: api/src/common/ssrf-guard.ts:223-252 assertSafeUrlResolved *)
definition vetHost :: "resolver \<Rightarrow> string \<Rightarrow> ssrf_error + unit" where
  "vetHost resolve hostname =
     (if isIP hostname \<noteq> 0 then Inr ()
      else case resolve hostname of
             Inl m \<Rightarrow> Inl (Dns_resolution_failed (''Could not resolve '' @ hostname @ '': '' @ m))
           | Inr addresses \<Rightarrow>
               if addresses = [] then
                 Inl (Dns_resolution_failed (''Hostname '' @ hostname @ '' resolved to no addresses''))
               else vet_addresses hostname addresses)"

(* src: api/src/common/ssrf-guard.ts:213-253 assertSafeUrlResolved *)
definition assertSafeUrlResolved :: "resolver \<Rightarrow> bool \<Rightarrow> bool \<Rightarrow> parsed_url option \<Rightarrow> ssrf_error + unit" where
  "assertSafeUrlResolved resolve allowHttp allowPrivate url =
     res_bind (assertSafeUrl allowHttp allowPrivate url) (\<lambda>parsed.
       if allowPrivate then Inr () else vetHost resolve (strip_brackets (pu_hostname parsed)))"

subsection \<open>What the guard lets through\<close>

lemma vet_addresses_iff: "vet_addresses h as = Inr u \<longleftrightarrow> (\<forall>a \<in> set as. \<not> isPrivateIp a)"
  by (induction as) auto

lemma isIP_family: "isIP h \<in> {4, 6} \<longleftrightarrow> isIP h \<noteq> 0"
  by (simp add: isIP_def)

lemma vetHost_iff:
  "vetHost resolve h = Inr u \<longleftrightarrow>
     isIP h \<noteq> 0 \<or> (\<exists>as. resolve h = Inr as \<and> as \<noteq> [] \<and> list_all (\<lambda>a. \<not> isPrivateIp a) as)"
  by (auto simp: vetHost_def vet_addresses_iff list_all_iff split: sum.splits if_splits)

lemma assertSafeUrl_Inr:
  "assertSafeUrl allowHttp allowPrivate url = Inr p \<longleftrightarrow>
     url = Some p \<and> (js_lower (pu_protocol p) = ''https:'' \<or> (js_lower (pu_protocol p) = ''http:'' \<and> allowHttp)) \<and>
     pu_hostname p \<noteq> [] \<and> (allowPrivate \<or> \<not> isPrivateHostname (pu_hostname p)) \<and> \<not> isEngineSelfHostname (pu_hostname p)"
  by (auto simp: assertSafeUrl_def Let_def split: option.splits if_splits)

text \<open>
  What an accepted target is, in production settings: an https address that is not the engine's own,
  whose host is either an address literal the guard does not call private, or a name that is not one of the
  local names and whose resolution succeeded with only such addresses.
\<close>
theorem accepted_target:
  "assertSafeUrlResolved resolve False False url = Inr () \<longleftrightarrow>
     (\<exists>p. url = Some p \<and> js_lower (pu_protocol p) = ''https:'' \<and> pu_hostname p \<noteq> [] \<and>
        \<not> isPrivateHostname (pu_hostname p) \<and> \<not> isEngineSelfHostname (pu_hostname p) \<and>
        (isIP (strip_brackets (pu_hostname p)) \<in> {4, 6} \<or>
         (\<exists>as. resolve (strip_brackets (pu_hostname p)) = Inr as \<and> as \<noteq> [] \<and> list_all (\<lambda>a. \<not> isPrivateIp a) as)))"
  using isIP_family by (auto simp: assertSafeUrlResolved_def assertSafeUrl_Inr vetHost_iff res_simps)

subsection \<open>IPv4: the private blocks\<close>

lemma js_parse_int_nat [simp]: "js_parse_int (js_of_nat n) = Some (int n)"
proof -
  obtain c t where ct: "js_of_nat n = c # t" using js_of_nat_not_Nil by (cases "js_of_nat n") auto
  have d: "list_all is_digit (c # t)" using js_of_nat_digits [of n] ct by simp
  have "\<not> js_space c" "c \<noteq> CHR ''-''" "c \<noteq> CHR ''+''" using d by (auto simp: js_space_def is_digit_def)
  moreover have "takeWhile is_digit t = t" "is_digit c"
    using d by (simp_all add: takeWhile_eq_all_conv list_all_iff)
  moreover have "digits_value (c # t) = n" using ct digits_value_of_nat [of n] by simp
  ultimately show ?thesis
    by (simp add: js_parse_int_def ct js_starts_with_def Let_def del: takeWhile_eq_all_conv)
qed

lemma js_of_nat_no_dot [simp]: "CHR ''.'' \<notin> set (js_of_nat n)"
  using js_of_nat_digits [of n] by (auto simp: list_all_iff is_digit_def)

text \<open>The dotted form of a 32-bit address, and the blocks of the guard's comments in CIDR form.\<close>

definition v4_byte :: "nat \<Rightarrow> 32 word \<Rightarrow> nat" where
  "v4_byte k w = unat w div 2 ^ k mod 256"

definition dotted_quad :: "32 word \<Rightarrow> string" where
  "dotted_quad w = js_join ''.'' (map js_of_nat [v4_byte 24 w, v4_byte 16 w, v4_byte 8 w, v4_byte 0 w])"

definition in_block :: "32 word \<Rightarrow> nat \<times> 32 word \<Rightarrow> bool" where
  "in_block w b = (drop_bit (32 - fst b) w = drop_bit (32 - fst b) (snd b))"

definition private_blocks :: "(nat \<times> 32 word) list" where
  "private_blocks =
     [(8, 0x00000000), (8, 0x7F000000), (8, 0x0A000000), (16, 0xA9FE0000), (12, 0xAC100000),
      (16, 0xC0A80000), (10, 0x64400000)]"

lemma in_block_nat: "in_block w b \<longleftrightarrow> unat w div 2 ^ (32 - fst b) = unat (snd b) div 2 ^ (32 - fst b)"
  unfolding in_block_def word_unat_eq_iff unat_drop_bit_eq by (simp only: drop_bit_eq_div)

lemma isPrivateIpv4_dotted:
  "isPrivateIpv4 (dotted_quad w) \<longleftrightarrow>
     (let a = v4_byte 24 w; b = v4_byte 16 w
      in a \<in> {0, 127, 10} \<or> (a = 169 \<and> b = 254) \<or> (a = 172 \<and> 16 \<le> b \<and> b \<le> 31) \<or> (a = 192 \<and> b = 168) \<or>
         (a = 100 \<and> 64 \<le> b \<and> b \<le> 127))"
proof -
  have le: "int (v4_byte k w) \<le> 255" for k
    using mod_less_divisor [of 256 "unat w div 2 ^ k"] by (simp add: v4_byte_def)
  have split: "js_split (CHR ''.'') (dotted_quad w) = map js_of_nat [v4_byte 24 w, v4_byte 16 w, v4_byte 8 w, v4_byte 0 w]"
    by (simp add: dotted_quad_def js_split_append js_split_single)
  have "\<not> 255 < int (v4_byte k w)" for k using le [of k] by linarith
  then show ?thesis
    unfolding isPrivateIpv4_def split by (auto simp: Let_def)
qed

lemma byte_pair: "b < 256 \<Longrightarrow> m div 256 = a \<and> m mod 256 = b \<longleftrightarrow> m = 256 * a + (b :: nat)"
  by auto

text \<open>
  The IPv4 classifier recognises exactly the addresses of the seven blocks the guard's comment
  lists (this network, loopback, the three private ranges, link-local with the cloud metadata address,
  carrier-grade NAT), for each of the 2 to the 32 addresses.
\<close>
theorem isPrivateIpv4_blocks: "isPrivateIpv4 (dotted_quad w) \<longleftrightarrow> list_ex (in_block w) private_blocks"
proof -
  define m where "m = unat w div 2 ^ 16"
  have "unat w < 2 ^ LENGTH(32)" by (rule unsigned_less)
  then have m: "m < 65536" by (simp add: m_def less_mult_imp_div_less)
  have a: "v4_byte 24 w = m div 256" and b: "v4_byte 16 w = m mod 256"
    using m by (simp_all add: v4_byte_def m_def flip: div_mult2_eq)
  have d: "unat w div 2 ^ 24 = m div 256" "unat w div 2 ^ 20 = m div 16" "unat w div 2 ^ 22 = m div 64"
    by (simp_all add: m_def flip: div_mult2_eq)
  have c: "m div 256 = 172 \<and> 16 \<le> m mod 256 \<and> m mod 256 \<le> 31 \<longleftrightarrow> m div 16 = 2753"
    "m div 256 = 100 \<and> 64 \<le> m mod 256 \<and> m mod 256 \<le> 127 \<longleftrightarrow> m div 64 = 401"
    "m div 256 = 169 \<and> m mod 256 = 254 \<longleftrightarrow> m = 43518"
    "m div 256 = 192 \<and> m mod 256 = 168 \<longleftrightarrow> m = 49320"
  proof -
    define q r where qr: "q = m div 256" "r = m mod 256"
    then have e: "m = r + 16 * (16 * q)" "m = r + 64 * (4 * q)" "m = 256 * q + r" "r < 256" by simp_all
    have "m div 16 = r div 16 + 16 * q" by (subst e(1)) simp
    moreover have "m div 64 = r div 64 + 4 * q" by (subst e(2)) simp
    moreover have "x + 16 * q = 2753 \<longleftrightarrow> q = 172 \<and> x = 1" if "x < 16" for x using that by presburger
    moreover have "x + 4 * q = 401 \<longleftrightarrow> q = 100 \<and> x = 1" if "x < 4" for x using that by presburger
    moreover have "r div 16 < 16" "r div 64 < 4" using e(4) by (simp_all add: less_mult_imp_div_less)
    moreover have "r div 16 = 1 \<longleftrightarrow> 16 \<le> r \<and> r \<le> 31" "r div 64 = 1 \<longleftrightarrow> 64 \<le> r \<and> r \<le> 127" by auto
    moreover have "m = 43518 \<longleftrightarrow> q = 169 \<and> r = 254" "m = 49320 \<longleftrightarrow> q = 192 \<and> r = 168"
      using byte_pair [of 254 m 169] byte_pair [of 168 m 192] by (simp_all add: qr)
    ultimately show "m div 256 = 172 \<and> 16 \<le> m mod 256 \<and> m mod 256 \<le> 31 \<longleftrightarrow> m div 16 = 2753"
      "m div 256 = 100 \<and> 64 \<le> m mod 256 \<and> m mod 256 \<le> 127 \<longleftrightarrow> m div 64 = 401"
      "m div 256 = 169 \<and> m mod 256 = 254 \<longleftrightarrow> m = 43518"
      "m div 256 = 192 \<and> m mod 256 = 168 \<longleftrightarrow> m = 49320"
      unfolding qr [symmetric] by auto
  qed
  have "list_ex (in_block w) private_blocks \<longleftrightarrow>
      m div 256 = 0 \<or> m div 256 = 127 \<or> m div 256 = 10 \<or> m = 43518 \<or> m div 16 = 2753 \<or> m = 49320 \<or> m div 64 = 401"
    using d m_def by (simp add: private_blocks_def in_block_nat)
  then show ?thesis
    unfolding isPrivateIpv4_dotted a b Let_def by (auto simp: c)
qed

subsection \<open>The gap: IPv4-mapped addresses in hexadecimal form\<close>

text \<open>
  The URL parser of the platform writes the host of an IPv6 literal in its canonical form, in
  which an IPv4-mapped address ends in two hexadecimal groups. The guard only knows the dotted form, so that
  the loopback address written as a mapped IPv6 literal passes, without any name resolution, whatever the resolver
  would say; the same holds for the cloud metadata address.
\<close>
theorem mapped_loopback_passes:
  "isPrivateIp ''::ffff:127.0.0.1'' \<and> isPrivateIp ''::ffff:169.254.169.254'' \<and>
   assertSafeUrlResolved resolve False False (Some \<lparr>pu_protocol = ''https:'', pu_hostname = ''[::ffff:7f00:1]''\<rparr>) = Inr () \<and>
   assertSafeUrlResolved resolve False False (Some \<lparr>pu_protocol = ''https:'', pu_hostname = ''[::ffff:a9fe:a9fe]''\<rparr>) = Inr ()"
  by code_simp

end
