(* ===== verification/Webhook_Service.thy ===== *)
theory Webhook_Service
  imports Webhook_Filter Ssrf_Guard Json
begin

section \<open>Webhooks: definitions, deliveries and dispatch\<close>

text \<open>
  \<^verbatim>\<open>api/src/webhooks/webhooks.service.ts\<close> and \<^verbatim>\<open>webhook-dispatcher.service.ts\<close>. The two system
  tables are lists of rows by id, read with their replacing merge applied (\<^verbatim>\<open>FINAL\<close>): writing a
  row replaces the one with its id. Encryption, address parsing, template compilation and
  the ellipsis character of the truncation marker are arguments. The payload of an event is JSON
  with integral numbers. The serialisation of definitions into columns is not modelled.
\<close>

subsection \<open>Entities\<close>

(* src: api/src/webhooks/entities/webhook-definition.entity.ts:8-8 WebhookAuthType *)
datatype webhook_auth = Auth_none | Auth_bearer | Auth_basic | Auth_hmac

(* src: api/src/webhooks/entities/webhook-definition.entity.ts:19-46 WebhookTransform *)
datatype webhook_transform = Passthrough | Template string | Twenty bool

(* src: api/src/webhooks/entities/webhook-definition.entity.ts:48-52 WebhookRetryConfig *)
record webhook_retry =
  wr_max_attempts :: int
  wr_backoff_ms :: "int list"

(* src: api/src/webhooks/entities/webhook-definition.entity.ts:54-57 DEFAULT_RETRY_CONFIG *)
definition DEFAULT_RETRY_CONFIG :: webhook_retry where
  "DEFAULT_RETRY_CONFIG = \<lparr>wr_max_attempts = 3, wr_backoff_ms = [60000, 300000, 900000]\<rparr>"

(* src: api/src/webhooks/entities/webhook-definition.entity.ts:59-75 WebhookDefinition *)
record webhook =
  wh_id :: string
  wh_workspace_id :: string
  wh_name :: string
  wh_url :: string
  wh_active :: bool
  wh_auth_type :: webhook_auth
  wh_auth_secret_encrypted :: string
  wh_events :: "string list"
  wh_filters :: "webhook_filter list"
  wh_transform :: "webhook_transform option"
  wh_retry_config :: webhook_retry
  wh_created_at :: int
  wh_updated_at :: int
  wh_deleted_at :: "int option"

(* src: api/src/webhooks/entities/webhook-delivery.entity.ts:14-19 DeliveryStatus *)
datatype delivery_status = St_pending | St_success | St_failed | St_retrying | St_gave_up

(* src: api/src/webhooks/entities/webhook-delivery.entity.ts:21-39 WebhookDelivery *)
record delivery =
  dl_id :: string
  dl_webhook_id :: string
  dl_workspace_id :: string
  dl_event_id :: string
  dl_event_type :: string
  dl_attempt :: int
  dl_scheduled_at :: int
  dl_sent_at :: "int option"
  dl_status :: delivery_status
  dl_http_status :: "int option"
  dl_latency_ms :: "int option"
  dl_request_url :: string
  dl_request_body :: string
  dl_response_body :: string
  dl_error_message :: string
  dl_created_at :: int
  dl_updated_at :: int

record webhook_db =
  db_webhooks :: "(string \<times> webhook) list"
  db_deliveries :: "(string \<times> delivery) list"

record webhook_env =
  we_parse_url :: "string \<Rightarrow> parsed_url option"
  we_encrypt :: "string \<Rightarrow> string"
  we_template_error :: "string \<Rightarrow> string option"
  we_allow_http :: bool
  we_allow_private :: bool
  we_ellipsis :: string

subsection \<open>Requests\<close>

(* src: api/src/webhooks/dto/create-webhook.dto.ts:24-36 WebhookAuthDto *)
record auth_dto =
  ad_type :: "string option"
  ad_token :: "string option"

(* src: api/src/webhooks/dto/create-webhook.dto.ts:57-81 WebhookTransformDto *)
record transform_dto =
  td_type :: string
  td_template :: "string option"
  td_dry_run :: "bool option"

(* src: api/src/webhooks/dto/create-webhook.dto.ts:95-158 CreateWebhookDto *)
record create_webhook =
  cw_workspace_id :: string
  cw_name :: string
  cw_url :: string
  cw_active :: "bool option"
  cw_auth :: "auth_dto option"
  cw_events :: "string list"
  cw_filters :: "webhook_filter list option"
  cw_transform :: "transform_dto option"
  cw_retry :: "webhook_retry option"

(* src: api/src/webhooks/dto/create-webhook.dto.ts:160-223 UpdateWebhookDto *)
record update_webhook =
  uw_workspace_id :: string
  uw_id :: string
  uw_name :: "string option"
  uw_url :: "string option"
  uw_active :: "bool option"
  uw_auth :: "auth_dto option"
  uw_events :: "string list option"
  uw_filters :: "webhook_filter list option"
  uw_transform :: "transform_dto option"
  uw_retry :: "webhook_retry option"

datatype webhook_error =
    Ssrf_refused ssrf_error
  | Duplicate_name string
  | Webhook_not_found string
  | Invalid_auth
  | Invalid_transform string
  | Invalid_retry

subsection \<open>Helpers\<close>

(* src: api/src/webhooks/webhooks.service.ts:436-448 resolveAuth *)
definition resolveAuth :: "auth_dto option \<Rightarrow> webhook_error + webhook_auth \<times> string option" where
  "resolveAuth auth =
     (case auth of
        None \<Rightarrow> Inr (Auth_none, None)
      | Some a \<Rightarrow>
          (case ad_type a of
             None \<Rightarrow> Inr (Auth_none, None)
           | Some ty \<Rightarrow>
               if ty = ''none'' then Inr (Auth_none, ad_token a)
               else if ty = ''bearer'' then Inr (Auth_bearer, ad_token a)
               else if ty = ''basic'' then Inr (Auth_basic, ad_token a)
               else if ty = ''hmac'' then Inr (Auth_hmac, ad_token a)
               else Inl Invalid_auth))"

(* src: api/src/webhooks/webhooks.service.ts:450-472 dtoToTransform *)
definition dtoToTransform :: "transform_dto option \<Rightarrow> webhook_error + webhook_transform option" where
  "dtoToTransform transform =
     (case transform of
        None \<Rightarrow> Inr None
      | Some t \<Rightarrow>
          if td_type t = ''passthrough'' then Inr (Some Passthrough)
          else if td_type t = ''twenty'' then Inr (Some (Twenty (td_dry_run t = Some True)))
          else if td_type t = ''template'' then
            (if js_truthy (td_template t) then Inr (Some (Template (the (td_template t))))
             else Inl (Invalid_transform ''transform.template is required when transform.type=template''))
          else Inr None)"

(* src: api/src/webhooks/webhooks.service.ts:474-488 dtoToRetry *)
definition dtoToRetry :: "webhook_retry option \<Rightarrow> webhook_error + webhook_retry" where
  "dtoToRetry retry =
     (case retry of
        None \<Rightarrow> Inr DEFAULT_RETRY_CONFIG
      | Some r \<Rightarrow>
          if wr_max_attempts r < 1 \<or> 10 < wr_max_attempts r \<or> wr_backoff_ms r = [] then Inl Invalid_retry else Inr r)"

(* src: api/src/webhooks/webhook-transform-engine.ts:86-97 assertCompilable *)
definition assertCompilable :: "webhook_env \<Rightarrow> webhook_transform option \<Rightarrow> webhook_error + unit" where
  "assertCompilable env transform =
     (case transform of
        Some (Template t) \<Rightarrow>
          (case we_template_error env t of
             None \<Rightarrow> Inr ()
           | Some m \<Rightarrow> Inl (Invalid_transform (''Template compile failed: '' @ m)))
      | _ \<Rightarrow> Inr ())"

definition vet_url :: "webhook_env \<Rightarrow> string \<Rightarrow> webhook_error + unit" where
  "vet_url env url =
     (case assertSafeUrl (we_allow_http env) (we_allow_private env) (we_parse_url env url) of
        Inl e \<Rightarrow> Inl (Ssrf_refused e)
      | Inr _ \<Rightarrow> Inr ())"

definition stored_secret :: "webhook_env \<Rightarrow> string option \<Rightarrow> string" where
  "stored_secret env token = (if js_truthy token then we_encrypt env (the token) else [])"

(* src: api/src/webhooks/webhooks.service.ts:490-493 truncate *)
definition truncate_text :: "webhook_env \<Rightarrow> string \<Rightarrow> string" where
  "truncate_text env text =
     (if length text \<le> 64000 then text else take 64000 text @ we_ellipsis env @ '' [truncated]'')"

subsection \<open>Lookups\<close>

definition live_webhooks :: "webhook_db \<Rightarrow> webhook list" where
  "live_webhooks db = filter (\<lambda>w. wh_deleted_at w = None) (map snd (db_webhooks db))"

(* src: api/src/webhooks/webhooks.service.ts:265-275 findById *)
definition findById :: "webhook_db \<Rightarrow> string \<Rightarrow> string \<Rightarrow> webhook option" where
  "findById db workspaceId i =
     (case filter (\<lambda>w. wh_workspace_id w = workspaceId \<and> wh_id w = i) (live_webhooks db) of
        [] \<Rightarrow> None
      | w # _ \<Rightarrow> Some w)"

(* src: api/src/webhooks/webhooks.service.ts:278-287 findByIdInternal *)
definition findByIdInternal :: "webhook_db \<Rightarrow> string \<Rightarrow> webhook option" where
  "findByIdInternal db i =
     (case filter (\<lambda>w. wh_id w = i) (live_webhooks db) of
        [] \<Rightarrow> None
      | w # _ \<Rightarrow> Some w)"

(* src: api/src/webhooks/webhooks.service.ts:289-298 findActive *)
definition findActive :: "webhook_db \<Rightarrow> string \<Rightarrow> webhook list" where
  "findActive db workspaceId = filter (\<lambda>w. wh_workspace_id w = workspaceId \<and> wh_active w) (live_webhooks db)"

definition put_webhook :: "webhook \<Rightarrow> webhook_db \<Rightarrow> webhook_db" where
  "put_webhook w db = db\<lparr>db_webhooks := AList.update (wh_id w) w (db_webhooks db)\<rparr>"

definition put_delivery :: "delivery \<Rightarrow> webhook_db \<Rightarrow> webhook_db" where
  "put_delivery d db = db\<lparr>db_deliveries := AList.update (dl_id d) d (db_deliveries db)\<rparr>"

subsection \<open>Create, update, delete\<close>

(* src: api/src/webhooks/webhooks.service.ts:90-141 create *)
definition create_webhook_op ::
    "webhook_env \<Rightarrow> int \<Rightarrow> string \<Rightarrow> create_webhook \<Rightarrow> webhook_db \<Rightarrow> webhook_error + webhook \<times> webhook_db" where
  "create_webhook_op env now new_id dto db =
     res_bind (vet_url env (cw_url dto)) (\<lambda>_.
     res_bind (dtoToTransform (cw_transform dto)) (\<lambda>transform.
     res_bind (assertCompilable env transform) (\<lambda>_.
     if list_ex (\<lambda>w. wh_workspace_id w = cw_workspace_id dto \<and> wh_name w = cw_name dto) (live_webhooks db)
     then Inl (Duplicate_name (cw_name dto))
     else
       res_bind (resolveAuth (cw_auth dto)) (\<lambda>(auth_type, token).
       res_bind (dtoToRetry (cw_retry dto)) (\<lambda>retry.
       let w = \<lparr>wh_id = new_id, wh_workspace_id = cw_workspace_id dto, wh_name = cw_name dto, wh_url = cw_url dto,
                wh_active = js_nullish (cw_active dto) True, wh_auth_type = auth_type,
                wh_auth_secret_encrypted = stored_secret env token, wh_events = cw_events dto,
                wh_filters = js_nullish (cw_filters dto) [], wh_transform = transform, wh_retry_config = retry,
                wh_created_at = now, wh_updated_at = now, wh_deleted_at = None\<rparr>
       in Inr (w, put_webhook w db))))))"

text \<open>An optional field of the request that is validated or converted only when it is given.\<close>

definition when_given :: "'a option \<Rightarrow> ('a option \<Rightarrow> 'e + 'b) \<Rightarrow> 'b \<Rightarrow> 'e + 'b" where
  "when_given x f d = (case x of None \<Rightarrow> Inr d | Some _ \<Rightarrow> f x)"

(* src: api/src/webhooks/webhooks.service.ts:172-240 update *)
definition update_webhook_op ::
    "webhook_env \<Rightarrow> int \<Rightarrow> update_webhook \<Rightarrow> webhook_db \<Rightarrow> webhook_error + webhook \<times> webhook_db" where
  "update_webhook_op env now dto db =
     (case findById db (uw_workspace_id dto) (uw_id dto) of
        None \<Rightarrow> Inl (Webhook_not_found (uw_id dto))
      | Some existing \<Rightarrow>
          res_bind (when_given (uw_url dto) (\<lambda>u. vet_url env (the u)) ()) (\<lambda>_.
          res_bind (when_given (uw_transform dto) dtoToTransform (wh_transform existing)) (\<lambda>transform.
          res_bind (when_given (uw_transform dto) (\<lambda>_. assertCompilable env transform) ()) (\<lambda>_.
          if (case uw_name dto of
                None \<Rightarrow> False
              | Some n \<Rightarrow> n \<noteq> wh_name existing \<and>
                  list_ex (\<lambda>w. wh_workspace_id w = uw_workspace_id dto \<and> wh_name w = n \<and> wh_id w \<noteq> uw_id dto)
                    (live_webhooks db))
          then Inl (Duplicate_name (the (uw_name dto)))
          else
            res_bind (when_given (uw_auth dto) (\<lambda>a. res_bind (resolveAuth a) (\<lambda>(ty, _). Inr ty)) (wh_auth_type existing)) (\<lambda>auth_type.
            res_bind (when_given (uw_retry dto) dtoToRetry (wh_retry_config existing)) (\<lambda>retry.
            let w = existing\<lparr>
                  wh_name := js_nullish (uw_name dto) (wh_name existing),
                  wh_url := js_nullish (uw_url dto) (wh_url existing),
                  wh_active := js_nullish (uw_active dto) (wh_active existing),
                  wh_auth_type := auth_type,
                  wh_auth_secret_encrypted :=
                    (case Option.bind (uw_auth dto) ad_token of
                       None \<Rightarrow> wh_auth_secret_encrypted existing
                     | Some token \<Rightarrow> stored_secret env (Some token)),
                  wh_events := js_nullish (uw_events dto) (wh_events existing),
                  wh_filters := js_nullish (uw_filters dto) (wh_filters existing),
                  wh_transform := transform, wh_retry_config := retry, wh_updated_at := now\<rparr>
            in Inr (w, put_webhook w db)))))))"

(* src: api/src/webhooks/webhooks.service.ts:242-261 softDelete *)
definition softDelete :: "int \<Rightarrow> string \<Rightarrow> string \<Rightarrow> webhook_db \<Rightarrow> webhook_error + webhook_db" where
  "softDelete now workspaceId i db =
     (case findById db workspaceId i of
        None \<Rightarrow> Inl (Webhook_not_found i)
      | Some existing \<Rightarrow>
          Inr (put_webhook (existing\<lparr>wh_active := False, wh_deleted_at := Some now, wh_updated_at := now\<rparr>) db))"

(* src: api/src/webhooks/webhooks.service.ts:143-152 get *)
definition get_webhook :: "webhook_db \<Rightarrow> string \<Rightarrow> string \<Rightarrow> webhook_error + webhook" where
  "get_webhook db workspaceId i =
     (case findById db workspaceId i of None \<Rightarrow> Inl (Webhook_not_found i) | Some w \<Rightarrow> Inr w)"

(* src: api/src/webhooks/webhooks.service.ts:154-170 list *)
definition list_webhooks :: "webhook_db \<Rightarrow> string \<Rightarrow> bool option \<Rightarrow> webhook list" where
  "list_webhooks db workspaceId active =
     sort_desc wh_created_at
       (filter (\<lambda>w. wh_workspace_id w = workspaceId \<and> (case active of None \<Rightarrow> True | Some b \<Rightarrow> wh_active w = b))
          (live_webhooks db))"

subsection \<open>Deliveries\<close>

(* src: api/src/webhooks/webhooks.service.ts:308-336 enqueueDelivery *)
definition enqueueDelivery ::
    "webhook_env \<Rightarrow> int \<Rightarrow> string \<Rightarrow> webhook \<Rightarrow> string \<Rightarrow> string \<Rightarrow> (string \<times> json) list \<Rightarrow> webhook_db \<Rightarrow> webhook_db" where
  "enqueueDelivery env now new_id w event_id event_type payload db =
     put_delivery \<lparr>dl_id = new_id, dl_webhook_id = wh_id w, dl_workspace_id = wh_workspace_id w, dl_event_id = event_id,
        dl_event_type = event_type, dl_attempt = 1, dl_scheduled_at = now, dl_sent_at = None, dl_status = St_pending,
        dl_http_status = None, dl_latency_ms = None, dl_request_url = wh_url w,
        dl_request_body = truncate_text env (json_print (JsObj payload)), dl_response_body = [], dl_error_message = [],
        dl_created_at = now, dl_updated_at = now\<rparr> db"

(* src: api/src/webhooks/webhooks.service.ts:354-364 findReadyDeliveries *)
definition findReadyDeliveries :: "int \<Rightarrow> nat \<Rightarrow> webhook_db \<Rightarrow> delivery list" where
  "findReadyDeliveries now limit db =
     take limit (sort_key dl_scheduled_at
       (filter (\<lambda>d. dl_status d \<in> {St_pending, St_retrying} \<and> dl_scheduled_at d \<le> now) (map snd (db_deliveries db))))"

(* src: api/src/webhooks/webhooks.service.ts:366-372 updateDelivery *)
definition updateDelivery :: "int \<Rightarrow> delivery \<Rightarrow> webhook_db \<Rightarrow> webhook_db" where
  "updateDelivery now d db = put_delivery (d\<lparr>dl_updated_at := now\<rparr>) db"

subsection \<open>Dispatch\<close>

fun jsval_of_json :: "json \<Rightarrow> jsval" where
  "jsval_of_json JsNull = JNull"
| "jsval_of_json (JsBool b) = JBool b"
| "jsval_of_json (JsInt i) = JNum (of_int i)"
| "jsval_of_json (JsStr s) = JStr s"
| "jsval_of_json (JsArr vs) = JArr (map jsval_of_json vs)"
| "jsval_of_json (JsObj kvs) = JObj (map (\<lambda>(k, v). (k, jsval_of_json v)) kvs)"

(* src: api/src/webhooks/webhook-dispatcher.service.ts:11-16 TrackedEventPayload *)
record tracked =
  tr_workspace_id :: string
  tr_event_type :: string
  tr_event_id :: string
  tr_payload :: "(string \<times> json) list"

(* src: api/src/webhooks/webhook-dispatcher.service.ts:55-60 dispatchInternal *)
definition dispatch_ctx :: "tracked \<Rightarrow> (string \<times> json) list" where
  "dispatch_ctx e =
     AList.update ''workspace_id'' (JsStr (tr_workspace_id e))
       (AList.update ''event_id'' (JsStr (tr_event_id e))
         (AList.update ''event_type'' (JsStr (tr_event_type e)) (tr_payload e)))"

(* src: api/src/webhooks/webhook-dispatcher.service.ts:52-61 dispatchInternal *)
definition wants :: "regex_engine \<Rightarrow> number_text \<Rightarrow> tracked \<Rightarrow> webhook \<Rightarrow> bool" where
  "wants rx nt e w \<longleftrightarrow>
     \<not> (wh_events w \<noteq> [] \<and> tr_event_type e \<notin> set (wh_events w)) \<and>
     webhook_matches rx nt (wh_filters w) (jsval_of_json (JsObj (dispatch_ctx e)))"

(* src: api/src/webhooks/webhook-dispatcher.service.ts:47-69 dispatchInternal *)
definition dispatchInternal ::
    "webhook_env \<Rightarrow> regex_engine \<Rightarrow> number_text \<Rightarrow> int \<Rightarrow> (webhook \<Rightarrow> string) \<Rightarrow> tracked \<Rightarrow> webhook_db \<Rightarrow> webhook_db" where
  "dispatchInternal env rx nt now new_id e db =
     fold (\<lambda>w db. if wants rx nt e w
                  then enqueueDelivery env now (new_id w) w (tr_event_id e) (tr_event_type e) (dispatch_ctx e) db
                  else db)
       (findActive db (tr_workspace_id e)) db"

subsection \<open>The tables as maps\<close>

definition keyed :: "webhook_db \<Rightarrow> bool" where
  "keyed db \<longleftrightarrow> distinct (map fst (db_webhooks db)) \<and> (\<forall>(i, w) \<in> set (db_webhooks db). wh_id w = i)"

lemma keyed_put: "keyed db \<Longrightarrow> keyed (put_webhook w db)"
  by (auto simp: keyed_def put_webhook_def set_update distinct_update)

lemma live_iff:
  "keyed db \<Longrightarrow> v \<in> set (live_webhooks db) \<longleftrightarrow> (wh_id v, v) \<in> set (db_webhooks db) \<and> wh_deleted_at v = None"
  by (force simp: live_webhooks_def keyed_def)

lemma live_put:
  assumes "keyed db"
  shows "v \<in> set (live_webhooks (put_webhook w db)) \<longleftrightarrow>
     (if wh_id v = wh_id w then v = w \<and> wh_deleted_at w = None else v \<in> set (live_webhooks db))"
proof -
  have "v \<in> set (live_webhooks (put_webhook w db)) \<longleftrightarrow>
      (wh_id v, v) \<in> set (db_webhooks (put_webhook w db)) \<and> wh_deleted_at v = None"
    by (rule live_iff) (rule keyed_put [OF assms])
  also have "\<dots> \<longleftrightarrow> ((wh_id v = wh_id w \<and> v = w) \<or> ((wh_id v, v) \<in> set (db_webhooks db) \<and> wh_id v \<noteq> wh_id w)) \<and> wh_deleted_at v = None"
    using assms by (auto simp: put_webhook_def set_update keyed_def)
  finally show ?thesis using live_iff [OF assms, of v] by auto
qed

lemma findById_Some:
  "findById db ws i = Some w \<Longrightarrow> w \<in> set (live_webhooks db) \<and> wh_workspace_id w = ws \<and> wh_id w = i"
  by (auto simp: findById_def split: list.splits dest!: filter_eq_ConsD [of _ _ w])

subsection \<open>The invariant of the definitions table\<close>

definition retry_ok :: "webhook_retry \<Rightarrow> bool" where
  "retry_ok r \<longleftrightarrow> 1 \<le> wr_max_attempts r \<and> wr_max_attempts r \<le> 10 \<and> wr_backoff_ms r \<noteq> []"

definition webhook_ok :: "webhook_env \<Rightarrow> webhook \<Rightarrow> bool" where
  "webhook_ok env w \<longleftrightarrow> retry_ok (wh_retry_config w) \<and> vet_url env (wh_url w) = Inr () \<and>
     assertCompilable env (wh_transform w) = Inr ()"

definition names_unique :: "webhook_db \<Rightarrow> bool" where
  "names_unique db \<longleftrightarrow>
     (\<forall>v \<in> set (live_webhooks db). \<forall>w \<in> set (live_webhooks db).
        wh_workspace_id v = wh_workspace_id w \<and> wh_name v = wh_name w \<longrightarrow> wh_id v = wh_id w)"

definition db_ok :: "webhook_env \<Rightarrow> webhook_db \<Rightarrow> bool" where
  "db_ok env db \<longleftrightarrow> keyed db \<and> names_unique db \<and> (\<forall>w \<in> set (live_webhooks db). webhook_ok env w)"

lemma dtoToRetry_ok: "dtoToRetry r = Inr c \<Longrightarrow> retry_ok c"
  by (auto simp: dtoToRetry_def retry_ok_def DEFAULT_RETRY_CONFIG_def split: option.splits if_splits)

lemma db_ok_put:
  assumes "db_ok env db" and "webhook_ok env w"
    and "\<And>v. v \<in> set (live_webhooks db) \<Longrightarrow> wh_workspace_id v = wh_workspace_id w \<Longrightarrow> wh_name v = wh_name w \<Longrightarrow>
       wh_id v = wh_id w"
  shows "db_ok env (put_webhook w db)"
proof -
  have k: "keyed db" using assms(1) by (simp add: db_ok_def)
  have "names_unique (put_webhook w db)"
    unfolding names_unique_def
  proof (intro ballI impI)
    fix u v
    assume "u \<in> set (live_webhooks (put_webhook w db))" "v \<in> set (live_webhooks (put_webhook w db))"
      and same: "wh_workspace_id u = wh_workspace_id v \<and> wh_name u = wh_name v"
    then have m: "u = w \<or> u \<in> set (live_webhooks db)" "v = w \<or> v \<in> set (live_webhooks db)"
      unfolding live_put [OF k] by (metis, metis)
    have old: "wh_id u = wh_id v" if "u \<in> set (live_webhooks db)" "v \<in> set (live_webhooks db)"
      using assms(1) that same unfolding db_ok_def names_unique_def by blast
    show "wh_id u = wh_id v" using m old same assms(3) by metis
  qed
  moreover have "\<forall>v \<in> set (live_webhooks (put_webhook w db)). webhook_ok env v"
  proof
    fix v assume "v \<in> set (live_webhooks (put_webhook w db))"
    then have "v = w \<or> v \<in> set (live_webhooks db)" unfolding live_put [OF k] by metis
    with assms(1,2) show "webhook_ok env v" by (auto simp: db_ok_def)
  qed
  ultimately show ?thesis using keyed_put [OF k] by (simp add: db_ok_def)
qed

lemma create_keeps_ok:
  assumes "db_ok env db" and "create_webhook_op env now new_id dto db = Inr (w, db')"
  shows "db_ok env db'"
proof -
  have u: "vet_url env (cw_url dto) = Inr ()"
    and c: "assertCompilable env (wh_transform w) = Inr ()"
    and n: "\<not> list_ex (\<lambda>v. wh_workspace_id v = cw_workspace_id dto \<and> wh_name v = cw_name dto) (live_webhooks db)"
    and w: "wh_url w = cw_url dto" "wh_workspace_id w = cw_workspace_id dto" "wh_name w = cw_name dto"
    and r: "retry_ok (wh_retry_config w)" and d: "db' = put_webhook w db"
    using assms(2) by (auto simp: create_webhook_op_def res_simps Let_def dest: dtoToRetry_ok split: if_splits prod.splits)
  have "webhook_ok env w" using u c w r by (simp add: webhook_ok_def)
  then show ?thesis unfolding d
    by (rule db_ok_put [OF assms(1)]) (use n w in \<open>auto simp: list_ex_iff\<close>)
qed

lemma update_keeps_ok:
  assumes "db_ok env db" and "update_webhook_op env now dto db = Inr (w, db')"
  shows "db_ok env db'"
proof -
  obtain e where e: "findById db (uw_workspace_id dto) (uw_id dto) = Some e"
    using assms(2) by (auto simp: update_webhook_op_def split: option.splits)
  note live = findById_Some [OF e]
  have old: "webhook_ok env e" using assms(1) live by (simp add: db_ok_def)
  obtain transform auth_type retry where
    u: "when_given (uw_url dto) (\<lambda>u. vet_url env (the u)) () = Inr ()"
    and t: "when_given (uw_transform dto) dtoToTransform (wh_transform e) = Inr transform"
    and c: "when_given (uw_transform dto) (\<lambda>_. assertCompilable env transform) () = Inr ()"
    and n: "\<not> (case uw_name dto of None \<Rightarrow> False
       | Some n \<Rightarrow> n \<noteq> wh_name e \<and> list_ex (\<lambda>w. wh_workspace_id w = uw_workspace_id dto \<and> wh_name w = n \<and> wh_id w \<noteq> uw_id dto) (live_webhooks db))"
    and r: "when_given (uw_retry dto) dtoToRetry (wh_retry_config e) = Inr retry"
    and w: "wh_url w = js_nullish (uw_url dto) (wh_url e)" "wh_name w = js_nullish (uw_name dto) (wh_name e)"
      "wh_transform w = transform" "wh_retry_config w = retry" "wh_id w = wh_id e" "wh_workspace_id w = wh_workspace_id e"
    and d: "db' = put_webhook w db"
  proof -
    note a = that
    show thesis
      using assms(2) unfolding update_webhook_op_def e option.case Let_def
      by (auto simp: res_simps split: if_splits intro: a)
  qed
  have "vet_url env (wh_url w) = Inr ()" using old u by (cases "uw_url dto") (simp_all add: webhook_ok_def w when_given_def)
  moreover have "assertCompilable env transform = Inr ()"
    using old t c by (cases "uw_transform dto") (simp_all add: webhook_ok_def when_given_def)
  moreover have "retry_ok retry"
    using old r by (cases "uw_retry dto") (auto simp: webhook_ok_def when_given_def dest: dtoToRetry_ok)
  ultimately have "webhook_ok env w" by (simp add: webhook_ok_def w)
  moreover have "wh_id v = wh_id w" if "v \<in> set (live_webhooks db)" "wh_workspace_id v = wh_workspace_id w" "wh_name v = wh_name w" for v
  proof (cases "uw_name dto")
    case None
    then have "wh_name v = wh_name e" "wh_workspace_id v = wh_workspace_id e" using that w by simp_all
    then show ?thesis using that(1) assms(1) live w(5) unfolding db_ok_def names_unique_def by metis
  next
    case (Some m)
    then have v: "wh_name v = m" "wh_workspace_id v = wh_workspace_id e" using that w by simp_all
    show ?thesis
    proof (cases "m = wh_name e")
      case True
      then show ?thesis using that(1) v assms(1) live w(5) unfolding db_ok_def names_unique_def by metis
    next
      case False
      with n Some that(1) v live show ?thesis by (auto simp: w(5) list_ex_iff)
    qed
  qed
  ultimately show ?thesis unfolding d by (rule db_ok_put [OF assms(1)])
qed

lemma softDelete_keeps_ok:
  assumes "db_ok env db" and "softDelete now ws i db = Inr db'"
  shows "db_ok env db'"
proof -
  obtain e where e: "findById db ws i = Some e" and
    d: "db' = put_webhook (e\<lparr>wh_active := False, wh_deleted_at := Some now, wh_updated_at := now\<rparr>) db"
    using assms(2) by (auto simp: softDelete_def split: option.splits)
  have k: "keyed db" using assms(1) by (simp add: db_ok_def)
  have "v \<in> set (live_webhooks db)" if "v \<in> set (live_webhooks db')" for v
    using that unfolding d live_put [OF k] by (simp split: if_splits)
  then show ?thesis
    using assms(1) keyed_put [OF k] unfolding d db_ok_def names_unique_def by blast
qed

lemma live_deliveries [simp]:
  "live_webhooks (put_delivery d db) = live_webhooks db" "keyed (put_delivery d db) = keyed db"
  by (simp_all add: live_webhooks_def put_delivery_def keyed_def)

lemma db_ok_put_delivery [simp]: "db_ok env (put_delivery d db) = db_ok env db"
  by (simp add: db_ok_def names_unique_def)

text \<open>The operations as steps. A new definition gets an id no row has.\<close>

inductive webhook_step :: "webhook_env \<Rightarrow> webhook_db \<Rightarrow> webhook_db \<Rightarrow> bool" for env where
  create: "create_webhook_op env now new_id dto db = Inr (w, db') \<Longrightarrow> new_id \<notin> fst ` set (db_webhooks db) \<Longrightarrow>
    webhook_step env db db'"
| update: "update_webhook_op env now dto db = Inr (w, db') \<Longrightarrow> webhook_step env db db'"
| delete: "softDelete now ws i db = Inr db' \<Longrightarrow> webhook_step env db db'"
| enqueue: "webhook_step env db (enqueueDelivery env now new_id w event_id event_type payload db)"
| delivery: "webhook_step env db (updateDelivery now d db)"

inductive webhook_reachable :: "webhook_env \<Rightarrow> webhook_db \<Rightarrow> bool" for env where
  empty: "webhook_reachable env \<lparr>db_webhooks = [], db_deliveries = []\<rparr>"
| step: "webhook_reachable env db \<Longrightarrow> webhook_step env db db' \<Longrightarrow> webhook_reachable env db'"

lemma webhook_step_keeps_ok: "webhook_step env db db' \<Longrightarrow> db_ok env db \<Longrightarrow> db_ok env db'"
proof (induction rule: webhook_step.induct)
  case (create now new_id dto db w db')
  then show ?case by (blast intro: create_keeps_ok)
next
  case (update now dto db w db')
  then show ?case by (blast intro: update_keeps_ok)
next
  case (delete now ws i db db')
  then show ?case by (blast intro: softDelete_keeps_ok)
qed (simp_all add: enqueueDelivery_def updateDelivery_def)

lemma webhook_reachable_db_ok: "webhook_reachable env db \<Longrightarrow> db_ok env db"
proof (induction rule: webhook_reachable.induct)
  case empty
  show ?case by (simp add: db_ok_def keyed_def names_unique_def live_webhooks_def)
next
  case (step db db')
  then show ?case using webhook_step_keeps_ok by blast
qed

text \<open>
  Whatever sequence of creations, updates, deletions and deliveries led to the tables, two webhooks of a
  workspace that are not deleted never share a name, and each of them has a retry policy within
  bounds, an address that passes the literal guard and, when it has one, a template that compiles.
\<close>
theorem webhook_reachable_ok:
  assumes "webhook_reachable env db" and "w \<in> set (live_webhooks db)" and "v \<in> set (live_webhooks db)"
  shows "webhook_ok env w \<and>
     (wh_workspace_id v = wh_workspace_id w \<and> wh_name v = wh_name w \<longrightarrow> wh_id v = wh_id w)"
  using webhook_reachable_db_ok [OF assms(1)] assms(2,3) unfolding db_ok_def names_unique_def by blast

definition demo_env :: webhook_env where
  "demo_env = \<lparr>we_parse_url = (\<lambda>_. Some \<lparr>pu_protocol = ''https:'', pu_hostname = ''hooks.example''\<rparr>),
     we_encrypt = id, we_template_error = (\<lambda>_. None), we_allow_http = False, we_allow_private = False,
     we_ellipsis = ''.''\<rparr>"

definition demo_webhook :: webhook where
  "demo_webhook = \<lparr>wh_id = ''wh_1'', wh_workspace_id = ''w'', wh_name = ''crm'', wh_url = ''u'', wh_active = True,
     wh_auth_type = Auth_none, wh_auth_secret_encrypted = [], wh_events = [''goal''], wh_filters = [],
     wh_transform = None, wh_retry_config = DEFAULT_RETRY_CONFIG, wh_created_at = 7, wh_updated_at = 7,
     wh_deleted_at = None\<rparr>"

lemma demo_vetted: "assertSafeUrl False False (Some \<lparr>pu_protocol = ''https:'', pu_hostname = ''hooks.example''\<rparr>) =
    Inr \<lparr>pu_protocol = ''https:'', pu_hostname = ''hooks.example''\<rparr>"
  by code_simp

lemma demo_reachable: "webhook_reachable demo_env \<lparr>db_webhooks = [(''wh_1'', demo_webhook)], db_deliveries = []\<rparr>"
proof (rule webhook_reachable.step [OF webhook_reachable.empty])
  let ?dto = "\<lparr>cw_workspace_id = ''w'', cw_name = ''crm'', cw_url = ''u'', cw_active = None, cw_auth = None,
    cw_events = [''goal''], cw_filters = None, cw_transform = None, cw_retry = None\<rparr>"
  show "webhook_step demo_env \<lparr>db_webhooks = [], db_deliveries = []\<rparr>
      \<lparr>db_webhooks = [(''wh_1'', demo_webhook)], db_deliveries = []\<rparr>"
    by (rule webhook_step.create [where now = 7 and new_id = "''wh_1''" and dto = ?dto and w = demo_webhook])
      (simp_all add: create_webhook_op_def vet_url_def demo_env_def demo_vetted dtoToTransform_def assertCompilable_def
        live_webhooks_def resolveAuth_def dtoToRetry_def demo_webhook_def stored_secret_def put_webhook_def Let_def)
qed

lemma webhook_reachable_ok_witness: "webhook_ok demo_env demo_webhook"
  using webhook_reachable_ok [OF demo_reachable, of demo_webhook demo_webhook]
  by (simp add: live_webhooks_def demo_webhook_def)

subsection \<open>Dispatch\<close>

definition first_delivery :: "webhook_env \<Rightarrow> int \<Rightarrow> string \<Rightarrow> webhook \<Rightarrow> tracked \<Rightarrow> delivery" where
  "first_delivery env now i w e =
     \<lparr>dl_id = i, dl_webhook_id = wh_id w, dl_workspace_id = tr_workspace_id e, dl_event_id = tr_event_id e,
      dl_event_type = tr_event_type e, dl_attempt = 1, dl_scheduled_at = now, dl_sent_at = None, dl_status = St_pending,
      dl_http_status = None, dl_latency_ms = None, dl_request_url = wh_url w,
      dl_request_body = truncate_text env (json_print (JsObj (dispatch_ctx e))), dl_response_body = [],
      dl_error_message = [], dl_created_at = now, dl_updated_at = now\<rparr>"

lemma dispatch_fold:
  assumes "distinct (map new_id (filter (wants rx nt e) ws))"
    and "\<forall>w \<in> set ws. wh_workspace_id w = tr_workspace_id e"
    and "\<forall>w \<in> set (filter (wants rx nt e) ws). new_id w \<notin> fst ` set (db_deliveries db)"
  shows "fold (\<lambda>w db. if wants rx nt e w
       then enqueueDelivery env now (new_id w) w (tr_event_id e) (tr_event_type e) (dispatch_ctx e) db else db) ws db =
     db\<lparr>db_deliveries := db_deliveries db @
          map (\<lambda>w. (new_id w, first_delivery env now (new_id w) w e)) (filter (wants rx nt e) ws)\<rparr>"
  using assms
proof (induction ws arbitrary: db)
  case (Cons w ws)
  let ?db = "enqueueDelivery env now (new_id w) w (tr_event_id e) (tr_event_type e) (dispatch_ctx e) db"
  show ?case
  proof (cases "wants rx nt e w")
    case False
    with Cons show ?thesis by simp
  next
    case True
    have d: "?db = db\<lparr>db_deliveries := db_deliveries db @ [(new_id w, first_delivery env now (new_id w) w e)]\<rparr>"
      using True Cons.prems(2,3) by (simp add: enqueueDelivery_def put_delivery_def update_new first_delivery_def)
    have "fold (\<lambda>w db. if wants rx nt e w
         then enqueueDelivery env now (new_id w) w (tr_event_id e) (tr_event_type e) (dispatch_ctx e) db else db) ws ?db =
       ?db\<lparr>db_deliveries := db_deliveries ?db @
            map (\<lambda>w. (new_id w, first_delivery env now (new_id w) w e)) (filter (wants rx nt e) ws)\<rparr>"
    proof (rule Cons.IH)
      show "distinct (map new_id (filter (wants rx nt e) ws))" using Cons.prems(1) by (simp split: if_splits)
      show "\<forall>w \<in> set ws. wh_workspace_id w = tr_workspace_id e" using Cons.prems(2) by simp
      have "new_id w \<notin> set (map new_id (filter (wants rx nt e) ws))" using Cons.prems(1) True by simp
      then have "new_id v \<noteq> new_id w" if "v \<in> set (filter (wants rx nt e) ws)" for v
        using that unfolding set_map by (metis imageI)
      then show "\<forall>v \<in> set (filter (wants rx nt e) ws). new_id v \<notin> fst ` set (db_deliveries ?db)"
        using Cons.prems(3) d by auto
    qed
    with True d show ?thesis by simp
  qed
qed simp

text \<open>
  Dispatching an event queues exactly one delivery, pending and at its first attempt, for each active webhook
  of the event's workspace that subscribes to its type and whose filters accept it, in
  the order of the table, and changes nothing else. The ids given to new deliveries are fresh.
\<close>
theorem dispatch_exact:
  assumes "distinct (map new_id (filter (wants rx nt e) (findActive db (tr_workspace_id e))))"
    and "\<forall>w \<in> set (filter (wants rx nt e) (findActive db (tr_workspace_id e))). new_id w \<notin> fst ` set (db_deliveries db)"
  shows "dispatchInternal env rx nt now new_id e db =
     db\<lparr>db_deliveries := db_deliveries db @
          map (\<lambda>w. (new_id w, first_delivery env now (new_id w) w e))
            (filter (wants rx nt e) (findActive db (tr_workspace_id e)))\<rparr>"
  unfolding dispatchInternal_def
  by (rule dispatch_fold [OF assms(1) _ assms(2)]) (simp add: findActive_def)

lemma dispatch_exact_witness:
  "length (db_deliveries (dispatchInternal demo_env (\<lambda>_ _. None) \<lparr>nt_print = (\<lambda>_. []), nt_read = (\<lambda>_. None)\<rparr> 9 (\<lambda>w. ''del_1'')
     \<lparr>tr_workspace_id = ''w'', tr_event_type = ''goal'', tr_event_id = ''e1'', tr_payload = []\<rparr>
     \<lparr>db_webhooks = [(''wh_1'', demo_webhook)], db_deliveries = []\<rparr>)) = 1"
  by (subst dispatch_exact)
    (simp_all add: findActive_def live_webhooks_def demo_webhook_def wants_def webhook_matches_def)

end
