(* ===== verification/Webhook_Delivery.thy ===== *)
theory Webhook_Delivery
  imports Webhook_Service
begin

section \<open>Webhooks: the delivery worker\<close>

text \<open>
  \<^verbatim>\<open>api/src/webhooks/webhook-delivery-worker.service.ts\<close> with the rendering of bodies
  (\<^verbatim>\<open>webhook-transform-engine.ts\<close>) and the call budget of the CRM connector
  (\<^verbatim>\<open>connectors/twenty-budget.ts\<close>). The network, name resolution, templates, decryption, HMAC and
  base64 are arguments; what the connector reports for a batch is an argument of the group flush.
  An exception that escapes one delivery ends the whole pass, as it does in the code.
\<close>

subsection \<open>The world of one attempt\<close>

datatype fetch_outcome =
    Response int "string option" "string option"
  | Aborted
  | Network_error string

record http_request =
  rq_url :: string
  rq_headers :: "(string \<times> string) list"
  rq_body :: string

record worker_env =
  wk_env :: webhook_env
  wk_resolve :: resolver
  wk_template :: "string \<Rightarrow> json \<Rightarrow> string + string"
  wk_decrypt :: "string \<Rightarrow> string + string"
  wk_base64 :: "string \<Rightarrow> string"
  wk_hmac :: "string \<Rightarrow> string \<Rightarrow> string"
  wk_fetch :: "http_request \<Rightarrow> fetch_outcome"
  wk_latency :: int

(* src: api/src/webhooks/webhook-delivery-worker.service.ts:27-33 DeliveryAttemptResult *)
record attempt_result =
  ar_success :: bool
  ar_http_status :: "int option"
  ar_latency_ms :: int
  ar_response_body :: string
  ar_error_message :: string

subsection \<open>One attempt\<close>

(* src: api/src/webhooks/webhook-delivery-worker.service.ts:526-533 parsePayload *)
definition parsePayload :: "string \<Rightarrow> json" where
  "parsePayload raw =
     (case json_parse raw of
        Some (JsObj kvs) \<Rightarrow> JsObj kvs
      | Some (JsArr vs) \<Rightarrow> JsArr vs
      | _ \<Rightarrow> JsObj [])"

(* src: api/src/webhooks/webhook-transform-engine.ts:47-75 render *)
definition render :: "worker_env \<Rightarrow> webhook_transform option \<Rightarrow> json \<Rightarrow> string + string" where
  "render env transform event =
     (case transform of
        None \<Rightarrow> Inr (json_print event)
      | Some Passthrough \<Rightarrow> Inr (json_print event)
      | Some (Template t) \<Rightarrow>
          (case wk_template env t event of
             Inl m \<Rightarrow> Inl (''Template render failed: '' @ m)
           | Inr body \<Rightarrow> Inr body)
      | Some (Twenty _) \<Rightarrow> Inr (json_print event))"

(* src: api/src/webhooks/webhooks.service.ts:301-304 decryptSecret *)
definition decryptSecret :: "worker_env \<Rightarrow> webhook \<Rightarrow> string + string" where
  "decryptSecret env w =
     (if wh_auth_secret_encrypted w = [] then Inr [] else wk_decrypt env (wh_auth_secret_encrypted w))"

(* src: api/src/webhooks/webhook-delivery-worker.service.ts:492-510 buildHeaders *)
definition buildHeaders :: "worker_env \<Rightarrow> webhook \<Rightarrow> string \<Rightarrow> string + (string \<times> string) list" where
  "buildHeaders env w body =
     res_bind (decryptSecret env w) (\<lambda>secret.
       let headers = [(''content-type'', ''application/json''),
                      (''user-agent'', ''veridian-analytics-engine/webhooks-1.0''),
                      (''x-webhook-id'', wh_id w)]
       in Inr (if wh_auth_type w = Auth_bearer \<and> secret \<noteq> [] then headers @ [(''authorization'', ''Bearer '' @ secret)]
               else if wh_auth_type w = Auth_basic \<and> secret \<noteq> [] then
                 headers @ [(''authorization'', ''Basic '' @ wk_base64 env secret)]
               else if wh_auth_type w = Auth_hmac \<and> secret \<noteq> [] then
                 headers @ [(''x-veridian-signature'', ''sha256='' @ wk_hmac env secret body)]
               else headers))"

fun ssrf_message :: "ssrf_error \<Rightarrow> string" where
  "ssrf_message (Invalid_url m) = m"
| "ssrf_message (Forbidden_target m) = m"
| "ssrf_message (Dns_resolution_failed m) = m"

definition failure :: "int option \<Rightarrow> int \<Rightarrow> string \<Rightarrow> string \<Rightarrow> attempt_result" where
  "failure status latency body m =
     \<lparr>ar_success = False, ar_http_status = status, ar_latency_ms = latency, ar_response_body = body, ar_error_message = m\<rparr>"

(* src: api/src/webhooks/webhook-delivery-worker.service.ts:371-412 sendOne *)
definition fetch_result :: "worker_env \<Rightarrow> http_request \<Rightarrow> attempt_result" where
  "fetch_result env rq =
     (case wk_fetch env rq of
        Response status location text \<Rightarrow>
          (if 300 \<le> status \<and> status < 400 then
             failure (Some status) (wk_latency env) []
               (''redirect_blocked: HTTP '' @ js_of_int status @ '' to '' @ js_nullish location ''(no location)'' @
                '' not followed (SSRF guard)'')
           else
             (let ok = (200 \<le> status \<and> status < 300)
              in \<lparr>ar_success = ok, ar_http_status = Some status, ar_latency_ms = wk_latency env,
                  ar_response_body = (case text of None \<Rightarrow> [] | Some t \<Rightarrow> truncate_text (wk_env env) t),
                  ar_error_message = (if ok then [] else ''HTTP '' @ js_of_int status)\<rparr>))
      | Aborted \<Rightarrow> failure None (wk_latency env) [] ''timeout''
      | Network_error m \<Rightarrow> failure None (wk_latency env) [] (''network: '' @ m))"

(* src: api/src/webhooks/webhook-delivery-worker.service.ts:331-416 sendOne *)
definition sendOne :: "worker_env \<Rightarrow> webhook \<Rightarrow> delivery \<Rightarrow> string + attempt_result \<times> http_request option" where
  "sendOne env w d =
     (case assertSafeUrlResolved (wk_resolve env) (we_allow_http (wk_env env)) (we_allow_private (wk_env env))
             (we_parse_url (wk_env env) (wh_url w)) of
        Inl e \<Rightarrow> Inr (failure None 0 [] (''ssrf: '' @ ssrf_message e), None)
      | Inr _ \<Rightarrow>
          (case render env (wh_transform w) (parsePayload (dl_request_body d)) of
             Inl m \<Rightarrow> Inr (failure None 0 [] (''transform_failed: '' @ m), None)
           | Inr body \<Rightarrow>
               res_bind (buildHeaders env w body) (\<lambda>headers.
                 let rq = \<lparr>rq_url = wh_url w, rq_headers = headers, rq_body = body\<rparr>
                 in Inr (fetch_result env rq, Some rq))))"

subsection \<open>Recording the outcome\<close>

(* src: api/src/webhooks/webhook-delivery-worker.service.ts:475-477 recordOutcome *)
definition backoff_for :: "webhook_retry \<Rightarrow> int \<Rightarrow> int" where
  "backoff_for r attempt =
     (let i = min (attempt - 1) (int (length (wr_backoff_ms r)) - 1)
      in if 0 \<le> i \<and> i < int (length (wr_backoff_ms r)) then wr_backoff_ms r ! nat i else 60000)"

(* src: api/src/webhooks/webhook-delivery-worker.service.ts:437-447 recordOutcome *)
definition is_terminal_failure :: "attempt_result \<Rightarrow> bool" where
  "is_terminal_failure r \<longleftrightarrow>
     js_starts_with (ar_error_message r) ''ssrf:'' \<or> js_starts_with (ar_error_message r) ''redirect_blocked:'' \<or>
     js_starts_with (ar_error_message r) ''transform_failed:'' \<or>
     (case ar_http_status r of None \<Rightarrow> False | Some status \<Rightarrow> 400 \<le> status \<and> status < 500 \<and> status \<noteq> 429)"

(* src: api/src/webhooks/webhook-delivery-worker.service.ts:418-490 recordOutcome *)
definition recordOutcome :: "worker_env \<Rightarrow> int \<Rightarrow> webhook \<Rightarrow> delivery \<Rightarrow> attempt_result \<Rightarrow> delivery" where
  "recordOutcome env now w d r =
     (let answered = d\<lparr>dl_sent_at := Some now, dl_http_status := ar_http_status r, dl_latency_ms := Some (ar_latency_ms r),
                       dl_response_body := truncate_text (wk_env env) (ar_response_body r)\<rparr>
      in if ar_success r then answered\<lparr>dl_status := St_success, dl_error_message := []\<rparr>
         else if is_terminal_failure r then answered\<lparr>dl_status := St_failed, dl_error_message := ar_error_message r\<rparr>
         else
           (let nextAttempt = dl_attempt d + 1
            in if wr_max_attempts (wh_retry_config w) < nextAttempt then
                 answered\<lparr>dl_status := St_gave_up, dl_error_message := ar_error_message r\<rparr>
               else
                 answered\<lparr>dl_status := St_retrying, dl_attempt := nextAttempt,
                   dl_scheduled_at := now + backoff_for (wh_retry_config w) (dl_attempt d),
                   dl_error_message := ar_error_message r\<rparr>))"

subsection \<open>The passes over the queue\<close>

text \<open>The result of a pass: the exception that ended it, the requests sent, and the tables.\<close>

type_synonym pass = "string option \<times> http_request list \<times> webhook_db"

definition fail_delivery :: "int \<Rightarrow> delivery \<Rightarrow> string \<Rightarrow> webhook_db \<Rightarrow> webhook_db" where
  "fail_delivery now d m db = updateDelivery now (d\<lparr>dl_status := St_failed, dl_error_message := m\<rparr>) db"

(* src: api/src/webhooks/webhook-delivery-worker.service.ts:305-329 deliverOne *)
definition deliverOne :: "worker_env \<Rightarrow> int \<Rightarrow> delivery \<Rightarrow> webhook_db \<Rightarrow> pass" where
  "deliverOne env now d db =
     (case findByIdInternal db (dl_webhook_id d) of
        None \<Rightarrow> (None, [], fail_delivery now d ''webhook_definition not found (deleted?)'' db)
      | Some w \<Rightarrow>
          if \<not> wh_active w then (None, [], fail_delivery now d ''webhook is inactive'' db)
          else
            (case sendOne env w d of
               Inl e \<Rightarrow> (Some e, [], db)
             | Inr (r, rq) \<Rightarrow> (None, (case rq of None \<Rightarrow> [] | Some q \<Rightarrow> [q]), updateDelivery now (recordOutcome env now w d r) db)))"

definition then_pass :: "pass \<Rightarrow> (webhook_db \<Rightarrow> pass) \<Rightarrow> pass" where
  "then_pass p f =
     (case p of
        (Some e, rqs, db) \<Rightarrow> (Some e, rqs, db)
      | (None, rqs, db) \<Rightarrow> (case f db of (e, rqs2, db2) \<Rightarrow> (e, rqs @ rqs2, db2)))"

(* src: api/src/webhooks/webhook-delivery-worker.service.ts:154-158 drainQueue *)
fun deliver_all :: "worker_env \<Rightarrow> int \<Rightarrow> delivery list \<Rightarrow> webhook_db \<Rightarrow> pass" where
  "deliver_all env now [] db = (None, [], db)"
| "deliver_all env now (d # ds) db = then_pass (deliverOne env now d db) (deliver_all env now ds)"

(* src: api/src/webhooks/webhook-delivery-worker.service.ts:271-303 scheduleConnectorRetry *)
definition scheduleConnectorRetry :: "int \<Rightarrow> webhook \<Rightarrow> delivery \<Rightarrow> string \<Rightarrow> int option \<Rightarrow> webhook_db \<Rightarrow> webhook_db" where
  "scheduleConnectorRetry now w d reason override db =
     (let nextAttempt = dl_attempt d + 1
      in if wr_max_attempts (wh_retry_config w) < nextAttempt then
           updateDelivery now (d\<lparr>dl_status := St_gave_up, dl_sent_at := Some now, dl_error_message := reason\<rparr>) db
         else
           updateDelivery now (d\<lparr>dl_status := St_retrying, dl_attempt := nextAttempt,
             dl_scheduled_at := now + js_nullish override (backoff_for (wh_retry_config w) (dl_attempt d)),
             dl_sent_at := Some now, dl_error_message := reason\<rparr>) db)"

(* src: api/src/webhooks/connectors/twenty-connector.service.ts:36-45 ConnectorOutcome *)
record connector_outcome =
  co_written :: "string list"
  co_orphans :: "string list"
  co_failed :: "string list"
  co_skipped :: "string list"

definition for_ids :: "delivery list \<Rightarrow> (delivery \<Rightarrow> webhook_db \<Rightarrow> webhook_db) \<Rightarrow> string list \<Rightarrow> webhook_db \<Rightarrow> webhook_db" where
  "for_ids ds f ids db =
     fold (\<lambda>i db. case map_of (rev (map (\<lambda>d. (dl_id d, d)) ds)) i of None \<Rightarrow> db | Some d \<Rightarrow> f d db) ids db"

text \<open>
  The flush of one CRM webhook. The connector's part is an argument: building the client throws
  exactly when the guard refuses the address, and the flush of the batch throws or reports.
\<close>

(* src: api/src/webhooks/webhook-delivery-worker.service.ts:182-264 flushTwentyGroup *)
definition flushTwentyGroup ::
    "worker_env \<Rightarrow> (webhook \<Rightarrow> delivery list \<Rightarrow> string + connector_outcome) \<Rightarrow> int \<Rightarrow> webhook \<Rightarrow> delivery list \<Rightarrow> webhook_db \<Rightarrow> pass" where
  "flushTwentyGroup env flushBatch now w ds db =
     (if \<not> wh_active w then (None, [], fold (\<lambda>d. fail_delivery now d ''webhook is inactive'') ds db)
      else
        (case decryptSecret env w of
           Inl e \<Rightarrow> (Some e, [], db)
         | Inr secret \<Rightarrow>
             (case assertSafeUrlResolved (wk_resolve env) (we_allow_http (wk_env env)) (we_allow_private (wk_env env))
                     (we_parse_url (wk_env env) (wh_url w)) of
                Inl e \<Rightarrow> (None, [], fold (\<lambda>d. fail_delivery now d (''ssrf: '' @ ssrf_message e)) ds db)
              | Inr _ \<Rightarrow>
                  (case flushBatch w ds of
                     Inl m \<Rightarrow> (None, [], fold (\<lambda>d. scheduleConnectorRetry now w d (''connector: '' @ m) None) ds db)
                   | Inr out \<Rightarrow>
                       (None, [],
                        for_ids ds (\<lambda>d. scheduleConnectorRetry now w d ''twenty: write/budget failure'' None) (co_failed out)
                         (for_ids ds (\<lambda>d. scheduleConnectorRetry now w d ''orphan: Person not found'' (Some 300000)) (co_orphans out)
                           (for_ids ds (\<lambda>d. updateDelivery now (d\<lparr>dl_status := St_success, dl_sent_at := Some now,
                                          dl_error_message := ''skipped: not a timeline milestone''\<rparr>)) (co_skipped out)
                             (for_ids ds (\<lambda>d. updateDelivery now (d\<lparr>dl_status := St_success, dl_sent_at := Some now,
                                            dl_http_status := Some 200, dl_error_message := []\<rparr>)) (co_written out) db))))))))"

definition is_twenty :: "webhook_db \<Rightarrow> delivery \<Rightarrow> bool" where
  "is_twenty db d =
     (case findByIdInternal db (dl_webhook_id d) of
        Some w \<Rightarrow> (case wh_transform w of Some (Twenty _) \<Rightarrow> True | _ \<Rightarrow> False)
      | None \<Rightarrow> False)"

(* src: api/src/webhooks/webhook-delivery-worker.service.ts:160-169 drainQueue *)
fun flush_groups ::
    "worker_env \<Rightarrow> (webhook \<Rightarrow> delivery list \<Rightarrow> string + connector_outcome) \<Rightarrow> int \<Rightarrow> (webhook \<times> delivery list) list \<Rightarrow> webhook_db \<Rightarrow> pass" where
  "flush_groups env fb now [] db = (None, [], db)"
| "flush_groups env fb now ((w, ds) # gs) db = then_pass (flushTwentyGroup env fb now w ds db) (flush_groups env fb now gs)"

(* src: api/src/webhooks/webhook-delivery-worker.service.ts:130-150 drainQueue *)
definition twenty_groups :: "webhook_db \<Rightarrow> delivery list \<Rightarrow> (webhook \<times> delivery list) list" where
  "twenty_groups db ds =
     (let ts = filter (is_twenty db) ds
      in map (\<lambda>i. (the (findByIdInternal db i), filter (\<lambda>d. dl_webhook_id d = i) ts))
           (rev (remdups (rev (map dl_webhook_id ts)))))"

(* src: api/src/webhooks/webhook-delivery-worker.service.ts:126-172 drainQueue *)
definition drainQueue ::
    "worker_env \<Rightarrow> (webhook \<Rightarrow> delivery list \<Rightarrow> string + connector_outcome) \<Rightarrow> int \<Rightarrow> webhook_db \<Rightarrow> pass" where
  "drainQueue env fb now db =
     (let pending = findReadyDeliveries now 50 db
      in then_pass (deliver_all env now (filter (\<lambda>d. \<not> is_twenty db d) pending) db)
           (flush_groups env fb now (twenty_groups db pending)))"

(* src: api/src/webhooks/webhook-delivery-worker.service.ts:79-83 onModuleInit *)
definition leader_flag :: "string option \<Rightarrow> bool" where
  "leader_flag setting \<longleftrightarrow> js_lower (js_trim (js_nullish setting ''true'')) \<noteq> ''false''"

(* src: api/src/webhooks/webhook-delivery-worker.service.ts:112-124 tick *)
definition tick ::
    "worker_env \<Rightarrow> (webhook \<Rightarrow> delivery list \<Rightarrow> string + connector_outcome) \<Rightarrow> bool \<Rightarrow> bool \<Rightarrow> int \<Rightarrow> webhook_db \<Rightarrow>
       http_request list \<times> webhook_db" where
  "tick env fb isLeader running now db =
     (if \<not> isLeader \<or> running then ([], db) else snd (drainQueue env fb now db))"

subsection \<open>The call budget of the CRM\<close>

(* src: api/src/webhooks/connectors/twenty-budget.ts:14-23 TwentyBudget *)
record twenty_budget =
  tb_window_start :: int
  tb_used :: int
  tb_limit :: int

definition new_budget :: "int \<Rightarrow> twenty_budget" where
  "new_budget limit = \<lparr>tb_window_start = 0, tb_used = 0, tb_limit = limit\<rparr>"

definition roll_window :: "int \<Rightarrow> twenty_budget \<Rightarrow> twenty_budget" where
  "roll_window t b = (if 60000 \<le> t - tb_window_start b then b\<lparr>tb_window_start := t, tb_used := 0\<rparr> else b)"

(* src: api/src/webhooks/connectors/twenty-budget.ts:26-35 take *)
definition take_token :: "int \<Rightarrow> twenty_budget \<Rightarrow> bool \<times> twenty_budget" where
  "take_token t b =
     (let b1 = roll_window t b
      in if tb_limit b1 \<le> tb_used b1 then (False, b1) else (True, b1\<lparr>tb_used := tb_used b1 + 1\<rparr>))"

(* src: api/src/webhooks/connectors/twenty-budget.ts:38-42 remaining *)
definition remaining_tokens :: "int \<Rightarrow> twenty_budget \<Rightarrow> int" where
  "remaining_tokens t b =
     (if 60000 \<le> t - tb_window_start b then tb_limit b else max 0 (tb_limit b - tb_used b))"

subsection \<open>Every delivery settles\<close>

definition settled :: "delivery \<Rightarrow> bool" where
  "settled d \<longleftrightarrow> dl_status d \<in> {St_success, St_failed, St_gave_up}"

lemma settled_iff: "settled d \<longleftrightarrow> dl_status d \<notin> {St_pending, St_retrying}"
  by (cases "dl_status d") (simp_all add: settled_def)

lemma recordOutcome_progress:
  "settled (recordOutcome env now w d r) \<or>
   (dl_attempt (recordOutcome env now w d r) = dl_attempt d + 1 \<and>
    dl_attempt d + 1 \<le> wr_max_attempts (wh_retry_config w))"
  by (auto simp: recordOutcome_def settled_def Let_def)

lemma recordOutcome_id [simp]: "dl_id (recordOutcome env now w d r) = dl_id d"
  by (simp add: recordOutcome_def Let_def)

text \<open>One due attempt at the row with a given id; a settled row is no longer read by the worker.\<close>

definition attempt_row :: "string \<Rightarrow> worker_env \<times> int \<Rightarrow> webhook_db \<Rightarrow> webhook_db" where
  "attempt_row i p db =
     (case map_of (db_deliveries db) i of
        None \<Rightarrow> db
      | Some d \<Rightarrow> if settled d then db else snd (snd (deliverOne (fst p) (snd p) d db)))"

definition decrypts :: "worker_env \<Rightarrow> bool" where
  "decrypts env \<longleftrightarrow> (\<forall>s. \<exists>x. wk_decrypt env s = Inr x)"

lemma sendOne_returns:
  assumes "decrypts env"
  shows "\<exists>r rq. sendOne env w d = Inr (r, rq)"
proof -
  obtain x where "decryptSecret env w = Inr x" using assms unfolding decrypts_def decryptSecret_def by metis
  then have h: "\<exists>h. buildHeaders env w body = Inr h" for body by (simp add: buildHeaders_def Let_def)
  show ?thesis
  proof (cases "render env (wh_transform w) (parsePayload (dl_request_body d))")
    case (Inl m)
    then show ?thesis by (simp add: sendOne_def split: sum.split)
  next
    case (Inr body)
    obtain hs where "buildHeaders env w body = Inr hs" using h by blast
    with Inr show ?thesis by (simp add: sendOne_def Let_def split: sum.split)
  qed
qed

lemma findByIdInternal_live: "findByIdInternal db i = Some w \<Longrightarrow> w \<in> set (live_webhooks db)"
  by (auto simp: findByIdInternal_def split: list.splits dest!: filter_eq_ConsD)

lemma put_delivery_row: "map_of (db_deliveries (put_delivery d db)) = (map_of (db_deliveries db))(dl_id d \<mapsto> d)"
  by (simp add: put_delivery_def)

lemma put_delivery_webhooks [simp]: "db_webhooks (put_delivery d db) = db_webhooks db"
  by (simp add: put_delivery_def)

lemma attempt_row_webhooks [simp]: "db_webhooks (attempt_row i p db) = db_webhooks db"
  by (simp add: attempt_row_def deliverOne_def fail_delivery_def updateDelivery_def split: option.split sum.split prod.split)

lemma live_cong: "db_webhooks a = db_webhooks b \<Longrightarrow> live_webhooks a = live_webhooks b"
  by (simp add: live_webhooks_def)

lemma attempt_row_progress:
  assumes "map_of (db_deliveries db) i = Some d" and "dl_id d = i" and "\<not> settled d" and "decrypts (fst p)"
    and "\<forall>w \<in> set (live_webhooks db). wr_max_attempts (wh_retry_config w) \<le> m"
  shows "\<exists>e. map_of (db_deliveries (attempt_row i p db)) i = Some e \<and> dl_id e = i \<and>
     (settled e \<or> (dl_attempt e = dl_attempt d + 1 \<and> dl_attempt e \<le> m))"
proof (cases "findByIdInternal db (dl_webhook_id d)")
  case None
  with assms show ?thesis
    by (simp add: attempt_row_def deliverOne_def fail_delivery_def updateDelivery_def put_delivery_row settled_def)
next
  case (Some w)
  have m: "wr_max_attempts (wh_retry_config w) \<le> m" using assms(5) findByIdInternal_live [OF Some] by blast
  obtain r rq where s: "sendOne (fst p) w d = Inr (r, rq)" using sendOne_returns [OF assms(4)] by blast
  show ?thesis
  proof (cases "wh_active w")
    case False
    with assms Some show ?thesis
      by (simp add: attempt_row_def deliverOne_def fail_delivery_def updateDelivery_def put_delivery_row settled_def)
  next
    case True
    let ?e = "recordOutcome (fst p) (snd p) w d r\<lparr>dl_updated_at := snd p\<rparr>"
    have "map_of (db_deliveries (attempt_row i p db)) i = Some ?e"
      using assms(1-3) Some True s by (simp add: attempt_row_def deliverOne_def updateDelivery_def put_delivery_row)
    moreover have "settled ?e \<or> (dl_attempt ?e = dl_attempt d + 1 \<and> dl_attempt ?e \<le> m)"
      using recordOutcome_progress [of "fst p" "snd p" w d r] m by (auto simp: settled_def)
    ultimately show ?thesis using assms(2) by auto
  qed
qed

lemma attempts_settle:
  assumes "map_of (db_deliveries db) i = Some d" and "dl_id d = i" and "settled d \<or> m - dl_attempt d < int (length ps)"
    and "settled d \<or> ps \<noteq> []"
    and "\<forall>p \<in> set ps. decrypts (fst p)" and "\<forall>w \<in> set (live_webhooks db). wr_max_attempts (wh_retry_config w) \<le> m"
  shows "\<exists>e. map_of (db_deliveries (fold (attempt_row i) ps db)) i = Some e \<and> settled e"
  using assms
proof (induction ps arbitrary: db d)
  case Nil
  then show ?case by auto
next
  case (Cons p ps)
  show ?case
  proof (cases "settled d")
    case True
    then have "attempt_row i p db = db" using Cons.prems(1) by (simp add: attempt_row_def)
    with Cons True show ?thesis by simp
  next
    case False
    have "decrypts (fst p)" using Cons.prems(5) by simp
    then obtain e where e: "map_of (db_deliveries (attempt_row i p db)) i = Some e" "dl_id e = i"
        "settled e \<or> (dl_attempt e = dl_attempt d + 1 \<and> dl_attempt e \<le> m)"
      using attempt_row_progress [OF Cons.prems(1,2) False _ Cons.prems(6)] by blast
    have "settled e \<or> m - dl_attempt e < int (length ps)" "settled e \<or> ps \<noteq> []"
      using e(3) Cons.prems(3) False by auto
    moreover have "live_webhooks (attempt_row i p db) = live_webhooks db" by (rule live_cong) simp
    ultimately show ?thesis
      using Cons.IH [OF e(1,2)] Cons.prems(5,6) by simp
  qed
qed


definition demo_worker :: worker_env where
  "demo_worker = \<lparr>wk_env = demo_env, wk_resolve = (\<lambda>_. Inr [''203.0.113.7'']), wk_template = (\<lambda>_ _. Inl []),
     wk_decrypt = (\<lambda>s. Inr s), wk_base64 = id, wk_hmac = (\<lambda>_ _. []), wk_fetch = (\<lambda>_. Network_error ''down''), wk_latency = 3\<rparr>"


subsection \<open>Requests go to accepted targets only\<close>

lemma sendOne_cases:
  assumes "sendOne env w d = Inr (r, rq)"
  shows "(rq = None \<and> (\<forall>now. dl_status (recordOutcome env now w d r) = St_failed)) \<or>
     (\<exists>q. rq = Some q \<and> rq_url q = wh_url w \<and>
       assertSafeUrlResolved (wk_resolve env) (we_allow_http (wk_env env)) (we_allow_private (wk_env env))
         (we_parse_url (wk_env env) (wh_url w)) = Inr ())"
proof (cases "assertSafeUrlResolved (wk_resolve env) (we_allow_http (wk_env env)) (we_allow_private (wk_env env))
    (we_parse_url (wk_env env) (wh_url w))")
  case (Inl e)
  then have "rq = None" "r = failure None 0 [] (''ssrf: '' @ ssrf_message e)" using assms by (simp_all add: sendOne_def)
  then show ?thesis
    by (simp add: recordOutcome_def is_terminal_failure_def failure_def js_starts_with_def Let_def)
next
  case Inr: (Inr u)
  show ?thesis
  proof (cases "render env (wh_transform w) (parsePayload (dl_request_body d))")
    case (Inl m)
    then have "rq = None" "r = failure None 0 [] (''transform_failed: '' @ m)"
      using assms Inr by (simp_all add: sendOne_def)
    then show ?thesis
      by (simp add: recordOutcome_def is_terminal_failure_def failure_def js_starts_with_def Let_def)
  next
    case (Inr b)
    with assms \<open>assertSafeUrlResolved _ _ _ _ = Inr u\<close> show ?thesis by (auto simp: sendOne_def res_simps Let_def)
  qed
qed

text \<open>
  C28: A delivery sends at most one request, and only for a live and active webhook whose address
  passes the guard with its name resolved at that moment; a target the guard refuses, or a
  body that cannot be rendered, settles the delivery as failed without any request.
\<close>
theorem requests_vetted:
  assumes "deliverOne env now d db = (e, rqs, db')"
  shows "length rqs \<le> 1 \<and> list_all (\<lambda>q. \<exists>w. findByIdInternal db (dl_webhook_id d) = Some w \<and> wh_active w \<and>
       rq_url q = wh_url w \<and>
       assertSafeUrlResolved (wk_resolve env) (we_allow_http (wk_env env)) (we_allow_private (wk_env env))
         (we_parse_url (wk_env env) (wh_url w)) = Inr ()) rqs \<and>
     (rqs = [] \<and> e = None \<longrightarrow>
       (\<exists>f. map_of (db_deliveries db') (dl_id d) = Some f \<and> dl_status f = St_failed))"
proof -
  note defs = deliverOne_def fail_delivery_def updateDelivery_def put_delivery_row
  show ?thesis
  proof (cases "findByIdInternal db (dl_webhook_id d)")
    case None
    with assms show ?thesis by (auto simp: defs)
  next
    case (Some w)
    show ?thesis
    proof (cases "wh_active w")
      case False
      with assms Some show ?thesis by (auto simp: defs)
    next
      case True
      show ?thesis
      proof (cases "sendOne env w d")
        case (Inl m)
        with assms Some True show ?thesis by (auto simp: defs)
      next
        case (Inr p)
        obtain r rq where p: "p = (r, rq)" by (cases p)
        from sendOne_cases [OF Inr [unfolded p]] show ?thesis
          using assms Some True Inr p by (auto simp: defs)
      qed
    qed
  qed
qed

lemma requests_vetted_witness:
  "length (fst (snd (deliverOne demo_worker 9
     (first_delivery demo_env 8 ''del_1'' demo_webhook \<lparr>tr_workspace_id = ''w'', tr_event_type = ''goal'', tr_event_id = ''e1'', tr_payload = []\<rparr>)
     \<lparr>db_webhooks = [(''wh_1'', demo_webhook)], db_deliveries = []\<rparr>))) \<le> 1"
proof -
  let ?p = "deliverOne demo_worker 9
     (first_delivery demo_env 8 ''del_1'' demo_webhook \<lparr>tr_workspace_id = ''w'', tr_event_type = ''goal'', tr_event_id = ''e1'', tr_payload = []\<rparr>)
     \<lparr>db_webhooks = [(''wh_1'', demo_webhook)], db_deliveries = []\<rparr>"
  obtain e rqs db' where "?p = (e, rqs, db')" by (cases ?p)
  with requests_vetted [OF this] show ?thesis by simp
qed

subsection \<open>A delivery whose secret cannot be decrypted blocks the queue\<close>

lemma sort_key_filter_head:
  fixes f :: "'a \<Rightarrow> int"
  assumes "sort_key f (filter (\<lambda>x. P x \<and> f x \<le> a) xs) = d # rest" and "a \<le> b"
  shows "\<exists>rest'. sort_key f (filter (\<lambda>x. P x \<and> f x \<le> b) xs) = d # rest'"
proof -
  let ?s = "sort_key f (filter (\<lambda>x. P x \<and> f x \<le> b) xs)"
  have "sort_key f (filter (\<lambda>x. P x \<and> f x \<le> a) xs) = filter (\<lambda>x. f x \<le> a) ?s"
    using assms(2) by (simp add: filter_sort) (metis (mono_tags, lifting) order.trans)
  moreover have "hd ?s = d" if "filter (\<lambda>x. f x \<le> a) ?s = d # rest"
  proof (cases ?s)
    case Nil
    with that show ?thesis by simp
  next
    case (Cons x ys)
    have le: "f x \<le> f y" if "y \<in> set ys" for y
      using sorted_sort_key [of f "filter (\<lambda>x. P x \<and> f x \<le> b) xs"] Cons that by simp
    have d: "d \<in> set (filter (\<lambda>x. f x \<le> a) (x # ys))" using that Cons by (metis list.set_intros(1))
    have "d \<in> set (x # ys)" "f d \<le> a" using d by (auto split: if_splits)
    then have "f x \<le> a" using le by (auto intro: order.trans)
    with that Cons show ?thesis by simp
  qed
  moreover have "?s \<noteq> []" if "filter (\<lambda>x. f x \<le> a) ?s = d # rest" using that by auto
  ultimately show ?thesis using assms(1) by (metis list.collapse)
qed

lemma ready_head_stays:
  assumes "findReadyDeliveries now 50 db = d # rest" and "now \<le> later"
  shows "\<exists>rest'. findReadyDeliveries later 50 db = d # rest'"
proof -
  let ?P = "\<lambda>d. dl_status d \<in> {St_pending, St_retrying}"
  let ?s = "sort_key dl_scheduled_at (filter (\<lambda>d. ?P d \<and> dl_scheduled_at d \<le> now) (map snd (db_deliveries db)))"
  have "take 50 ?s = d # rest" using assms(1) by (simp only: findReadyDeliveries_def)
  then obtain r where "?s = d # r" by (cases ?s) auto
  from sort_key_filter_head [OF this assms(2)] show ?thesis by (auto simp: findReadyDeliveries_def)
qed

text \<open>
  A poisoned delivery stops all webhooks. When the delivery that has waited longest belongs to a plain webhook
  whose target is accepted and whose body renders, but whose stored secret cannot be decrypted
  (as after a change of the encryption key), the exception escapes the pass: no pass, however often and at whatever later
  time it runs, sends anything or changes any row, so the other deliveries of the batch wait for ever.
\<close>
theorem poisoned_delivery_blocks:
  assumes "findReadyDeliveries now 50 db = d # rest" and "findByIdInternal db (dl_webhook_id d) = Some w" and "wh_active w"
    and "wh_transform w = None"
    and "assertSafeUrlResolved (wk_resolve env) (we_allow_http (wk_env env)) (we_allow_private (wk_env env))
         (we_parse_url (wk_env env) (wh_url w)) = Inr ()"
    and "decryptSecret env w = Inl m"
    and "list_all (\<lambda>t. now \<le> t) ts"
  shows "fold (\<lambda>t (rqs, db). (rqs @ fst (tick env fb leader running t db), snd (tick env fb leader running t db))) ts ([], db) = ([], db)"
proof -
  have "drainQueue env fb t db = (Some m, [], db)" if "now \<le> t" for t
  proof -
    obtain r' where r: "findReadyDeliveries t 50 db = d # r'" using ready_head_stays [OF assms(1) \<open>now \<le> t\<close>] by blast
    have "\<not> is_twenty db d" using assms(2,4) by (simp add: is_twenty_def)
    moreover have "deliverOne env t d db = (Some m, [], db)"
      using assms by (simp add: deliverOne_def sendOne_def render_def buildHeaders_def)
    ultimately show ?thesis by (simp add: drainQueue_def r Let_def then_pass_def)
  qed
  then have "tick env fb leader running t db = ([], db)" if "now \<le> t" for t using that by (simp add: tick_def)
  with assms(7) show ?thesis by (induction ts) auto
qed

lemma poisoned_delivery_blocks_witness:
  "let w = demo_webhook\<lparr>wh_auth_type := Auth_bearer, wh_auth_secret_encrypted := ''x''\<rparr>;
       env = demo_worker\<lparr>wk_decrypt := (\<lambda>_. Inl ''bad key'')\<rparr>;
       db = enqueueDelivery demo_env 8 ''del_1'' w ''e1'' ''goal'' [] \<lparr>db_webhooks = [(''wh_1'', w)], db_deliveries = []\<rparr>
   in fold (\<lambda>t (rqs, db). (rqs @ fst (tick env (\<lambda>_ _. Inl []) True False t db), snd (tick env (\<lambda>_ _. Inl []) True False t db)))
        [9, 10] ([], db) = ([], db)"
proof -
  let ?w = "demo_webhook\<lparr>wh_auth_type := Auth_bearer, wh_auth_secret_encrypted := ''x''\<rparr>"
  let ?env = "demo_worker\<lparr>wk_decrypt := (\<lambda>_. Inl ''bad key'')\<rparr>"
  let ?db = "enqueueDelivery demo_env 8 ''del_1'' ?w ''e1'' ''goal'' [] \<lparr>db_webhooks = [(''wh_1'', ?w)], db_deliveries = []\<rparr>"
  have live: "live_webhooks ?db = [?w]" by (simp add: enqueueDelivery_def live_webhooks_def demo_webhook_def)
  have "isEngineSelfHostname ''hooks.example'' = False" "isIP ''hooks.example'' = 0" "isPrivateIp ''203.0.113.7'' = False"
    "isPrivateHostname ''hooks.example'' = False"
    by code_simp+
  then have guard: "assertSafeUrlResolved (wk_resolve ?env) (we_allow_http (wk_env ?env)) (we_allow_private (wk_env ?env))
      (we_parse_url (wk_env ?env) (wh_url ?w)) = Inr ()"
    by (simp add: demo_worker_def demo_env_def assertSafeUrlResolved_def demo_vetted vetHost_def strip_brackets_def
        js_starts_with_def js_ends_with_def)
  show ?thesis
    unfolding Let_def
  proof (rule poisoned_delivery_blocks [where now = 9 and rest = "[]" and w = ?w and m = "''bad key''"])
    show "findReadyDeliveries 9 50 ?db = [snd (hd (db_deliveries ?db))]"
      by (simp add: findReadyDeliveries_def enqueueDelivery_def put_delivery_def)
    show "findByIdInternal ?db (dl_webhook_id (snd (hd (db_deliveries ?db)))) = Some ?w"
      unfolding findByIdInternal_def live by (simp add: enqueueDelivery_def put_delivery_def demo_webhook_def)
    show "decryptSecret ?env ?w = Inl ''bad key''" by (simp add: decryptSecret_def)
  qed (use guard in \<open>simp_all add: demo_webhook_def\<close>)
qed

subsection \<open>Truncated payloads\<close>

lemma truncated_request_body:
  assumes "64000 < length (json_print (JsObj payload))"
  shows "parsePayload (truncate_text env (json_print (JsObj payload))) = JsObj []"
proof -
  have "json_parse (take 64000 (json_print (JsObj payload)) @ (we_ellipsis env @ '' [truncated'') @ '']'') = None"
    by (rule truncated_object_unparsable) simp_all
  with assms show ?thesis by (simp add: parsePayload_def truncate_text_def del: json_print.simps)
qed

text \<open>
  A large event is delivered empty. The queued body of an event whose JSON is longer than 64000 characters is cut and
  marked, which is no longer JSON; when it is delivered the worker falls back to the
  empty object, so the destination of a webhook without a template receives two braces and nothing of the event.
  A body within the limit is delivered exactly as it was.
\<close>
theorem delivered_body:
  "render env None (parsePayload (truncate_text wenv (json_print (JsObj payload)))) =
     Inr (if length (json_print (JsObj payload)) \<le> 64000 then json_print (JsObj payload) else ''{}'')"
proof (cases "length (json_print (JsObj payload)) \<le> 64000")
  case True
  have "parsePayload (json_print (JsObj payload)) = JsObj payload"
    unfolding parsePayload_def json_parse_print by simp
  with True show ?thesis by (simp add: render_def truncate_text_def del: json_print.simps)
next
  case False
  then have "parsePayload (truncate_text wenv (json_print (JsObj payload))) = JsObj []"
    by (intro truncated_request_body) simp
  with False show ?thesis by (simp add: render_def)
qed

subsection \<open>The budget\<close>

text \<open>A run of calls at the given times: the answers and the budget they leave.\<close>

fun take_all :: "int list \<Rightarrow> twenty_budget \<Rightarrow> bool list \<times> twenty_budget" where
  "take_all [] b = ([], b)"
| "take_all (t # ts) b =
     (let (ok, b1) = take_token t b; (oks, b2) = take_all ts b1 in (ok # oks, b2))"

definition granted :: "int list \<Rightarrow> twenty_budget \<Rightarrow> nat" where
  "granted ts b = length (filter id (fst (take_all ts b)))"

lemma granted_simps [simp]:
  "granted [] b = 0"
  "granted (t # ts) b = (if fst (take_token t b) then 1 else 0) + granted ts (snd (take_token t b))"
  by (simp_all add: granted_def split: prod.split)

lemma granted_same_window:
  assumes "list_all (\<lambda>t. t - tb_window_start b < 60000) ts"
  shows "int (granted ts b) \<le> max 0 (tb_limit b - tb_used b)"
  using assms
proof (induction ts arbitrary: b)
  case (Cons t ts)
  let ?b = "snd (take_token t b)"
  have b: "tb_window_start ?b = tb_window_start b" "tb_limit ?b = tb_limit b"
      "tb_used ?b = (if fst (take_token t b) then tb_used b + 1 else tb_used b)"
      "fst (take_token t b) \<longleftrightarrow> tb_used b < tb_limit b"
    using Cons.prems by (auto simp: take_token_def roll_window_def Let_def)
  have "int (granted ts ?b) \<le> max 0 (tb_limit ?b - tb_used ?b)"
    by (rule Cons.IH) (use Cons.prems in \<open>simp add: b(1)\<close>)
  with b show ?case by (auto split: if_splits)
qed simp

lemma granted_two_windows:
  assumes "list_all (\<lambda>t. s \<le> t \<and> t < s + 60000) ts" and "0 \<le> tb_limit b"
  shows "int (granted ts b) \<le> max 0 (tb_limit b - tb_used b) + tb_limit b"
  using assms
proof (induction ts arbitrary: b)
  case (Cons t ts)
  show ?case
  proof (cases "60000 \<le> t - tb_window_start b")
    case True
    let ?b = "b\<lparr>tb_window_start := t, tb_used := 0\<rparr>"
    have "granted (t # ts) b = granted (t # ts) ?b"
      using True by (simp add: take_token_def roll_window_def Let_def)
    moreover have "list_all (\<lambda>u. u - tb_window_start ?b < 60000) (t # ts)"
      using Cons.prems(1) by (auto simp: list_all_iff)
    then have "int (granted (t # ts) ?b) \<le> max 0 (tb_limit ?b - tb_used ?b)" by (rule granted_same_window)
    ultimately show ?thesis using Cons.prems(2) by simp
  next
    case False
    let ?b = "snd (take_token t b)"
    have b: "tb_limit ?b = tb_limit b" "tb_used ?b = (if fst (take_token t b) then tb_used b + 1 else tb_used b)"
        "fst (take_token t b) \<longleftrightarrow> tb_used b < tb_limit b"
      using False by (auto simp: take_token_def roll_window_def Let_def)
    have "int (granted ts ?b) \<le> max 0 (tb_limit ?b - tb_used ?b) + tb_limit ?b"
      by (rule Cons.IH) (use Cons.prems in \<open>simp_all add: b(1)\<close>)
    with b Cons.prems(2) show ?thesis by (auto split: if_splits)
  qed
qed simp

text \<open>
  The budget is a fixed window, not a sliding one: within any minute it grants at most twice its limit, in
  whatever order the calls come.
\<close>
theorem budget_bound:
  assumes "list_all (\<lambda>t. s \<le> t \<and> t < s + 60000) ts" and "0 \<le> tb_used b" and "0 \<le> tb_limit b"
  shows "int (granted ts b) \<le> 2 * tb_limit b"
  using granted_two_windows [OF assms(1,3)] assms(2,3) by auto

lemma budget_bound_witness: "int (granted [59999, 60000, 60001] (new_budget 2)) \<le> 2 * tb_limit (new_budget 2)"
  by (rule budget_bound [where s = 59999]) (simp_all add: new_budget_def)

lemma granted_fresh:
  assumes "(tb_window_start b = t \<and> int n \<le> tb_limit b - tb_used b) \<or> (60000 \<le> t - tb_window_start b \<and> int n \<le> tb_limit b)"
  shows "granted (replicate n t) b = n"
  using assms
proof (induction n arbitrary: b)
  case (Suc n)
  have "fst (take_token t b)" using Suc.prems by (auto simp: take_token_def roll_window_def Let_def)
  moreover have "granted (replicate n t) (snd (take_token t b)) = n"
    by (rule Suc.IH) (use Suc.prems in \<open>auto simp: take_token_def roll_window_def Let_def\<close>)
  ultimately show ?case by simp
qed simp

text \<open>
  The budget does not bound the calls of a minute. Each pass over the queue starts with a new budget, and a pass
  runs every ten seconds: the six budgets of one minute together grant six hundred calls, six times what
  the destination allows.
\<close>
theorem budget_per_pass:
  "sum_list (map (\<lambda>k. granted (replicate 100 (1000000 + 10000 * int k)) (new_budget 100)) [0..<6]) = 600"
proof -
  have "granted (replicate 100 (1000000 + 10000 * int k)) (new_budget 100) = 100" for k
    by (rule granted_fresh) (simp_all add: new_budget_def)
  then show ?thesis by (simp add: sum_list_triv)
qed

end
