(* ===== verification/Default_Filters.thy ===== *)
theory Default_Filters
  imports Filters
begin

section \<open>The rules every workspace starts with\<close>

text \<open>
  \<^verbatim>\<open>api/src/workspaces/fixtures/default-filters.ts\<close>: the table of channel rules given to a new workspace,
  and what the evaluation of \<open>Filters\<close> makes of it. Fresh identifiers, the clock's text and the digest of the version are
  arguments.
\<close>

definition cond :: "string \<Rightarrow> filter_operator \<Rightarrow> string \<Rightarrow> filter_condition" where
  "cond f opr v = \<lparr>fc_field = f, fc_operator = opr, fc_value = Some v\<rparr>"

(* src: api/src/workspaces/fixtures/default-filters.ts:11-16 utmConditions *)
definition utmConditions :: "string \<Rightarrow> string \<Rightarrow> filter_condition list" where
  "utmConditions src medium =
     [cond ''utm_source'' Op_regex (''^'' @ src @ ''$''), cond ''utm_medium'' Op_regex (''^'' @ medium @ ''$'')]"

(* src: api/src/workspaces/fixtures/default-filters.ts:21-26 clickIdCondition *)
definition clickIdCondition :: "string \<Rightarrow> filter_operator \<Rightarrow> filter_condition list" where
  "clickIdCondition v opr = [cond ''utm_id_from'' opr v]"

(* src: api/src/workspaces/fixtures/default-filters.ts:31-33 referrerContains *)
definition referrerContains :: "string \<Rightarrow> filter_condition list" where
  "referrerContains domain = [cond ''referrer_domain'' Op_contains domain]"

(* src: api/src/workspaces/fixtures/default-filters.ts:38-40 referrerRegex *)
definition referrerRegex :: "string \<Rightarrow> filter_condition list" where
  "referrerRegex pattern = [cond ''referrer_domain'' Op_regex pattern]"

(* src: api/src/workspaces/fixtures/default-filters.ts:45-47 directCondition *)
definition directCondition :: "filter_condition list" where
  "directCondition = [cond ''is_direct'' Op_equals ''true'']"

text \<open>A row of the table: name, conditions, channel group, channel and priority.\<close>

type_synonym channel_rule = "string \<times> filter_condition list \<times> string \<times> string \<times> int"

definition set_op :: "filter_action \<Rightarrow> string \<Rightarrow> string \<Rightarrow> filter_operation" where
  "set_op act d v = \<lparr>fo_dimension = d, fo_action = act, fo_value = Some v\<rparr>"

(* src: api/src/workspaces/fixtures/default-filters.ts:54-80 createChannelFilter *)
definition createChannelFilter :: "(nat \<Rightarrow> string) \<Rightarrow> string \<Rightarrow> nat \<Rightarrow> channel_rule \<Rightarrow> filter_definition" where
  "createChannelFilter uuid now i row =
     (case row of (name, conditions, channelGroup, channel, priority) \<Rightarrow>
        \<lparr>fd_id = uuid i, fd_name = name, fd_priority = priority, fd_order = int i, fd_tags = [''channel''],
         fd_conditions = conditions,
         fd_operations = [set_op Act_set_value ''channel_group'' channelGroup, set_op Act_set_value ''channel'' channel],
         fd_enabled = True, fd_version = [], fd_created_at = now, fd_updated_at = now\<rparr>)"

definition twitter_pattern :: string where
  "twitter_pattern = ''(twitter'' @ [CHR 0x5C] @ ''.com|x'' @ [CHR 0x5C] @ ''.com|t'' @ [CHR 0x5C] @ ''.co)''"

(* src: api/src/workspaces/fixtures/default-filters.ts:95-166 getDefaultFilters *)
definition paid_click_filters :: "channel_rule list" where
  "paid_click_filters =
     [(''Google Ads (Click ID)'', clickIdCondition ''^(gclid|gbraid|wbraid)$'' Op_regex, ''search-paid'', ''google-ads'', 900),
      (''Facebook Ads (Click ID)'', clickIdCondition ''fbclid'' Op_equals, ''social-paid'', ''facebook-ads'', 890),
      (''Microsoft Ads (Click ID)'', clickIdCondition ''msclkid'' Op_equals, ''search-paid'', ''microsoft-ads'', 880),
      (''TikTok Ads (Click ID)'', clickIdCondition ''ttclid'' Op_equals, ''social-paid'', ''tiktok-ads'', 870),
      (''Pinterest Ads (Click ID)'', clickIdCondition ''epik'' Op_equals, ''social-paid'', ''pinterest-ads'', 860),
      (''LinkedIn Ads (Click ID)'', clickIdCondition ''li_fat_id'' Op_equals, ''social-paid'', ''linkedin-ads'', 850),
      (''Twitter Ads (Click ID)'', clickIdCondition ''twclid'' Op_equals, ''social-paid'', ''twitter-ads'', 840),
      (''Snapchat Ads (Click ID)'', clickIdCondition ''ScCid'' Op_equals, ''social-paid'', ''snapchat-ads'', 835),
      (''Reddit Ads (Click ID)'', clickIdCondition ''rdt_cid'' Op_equals, ''social-paid'', ''reddit-ads'', 833),
      (''Quora Ads (Click ID)'', clickIdCondition ''qclid'' Op_equals, ''social-paid'', ''quora-ads'', 831)]"

(* src: api/src/workspaces/fixtures/default-filters.ts:171-221 getDefaultFilters *)
definition paid_utm_filters :: "channel_rule list" where
  "paid_utm_filters =
     [(''Google Ads (UTM)'', utmConditions ''google'' ''(cpc|ppc|paid)'', ''search-paid'', ''google-ads'', 830),
      (''Microsoft Ads (UTM)'', utmConditions ''(bing|microsoft)'' ''(cpc|ppc|paid)'', ''search-paid'', ''microsoft-ads'', 820),
      (''Facebook Ads (UTM)'', utmConditions ''facebook'' ''(cpc|paid|paidsocial)'', ''social-paid'', ''facebook-ads'', 810),
      (''Instagram Ads (UTM)'', utmConditions ''instagram'' ''(cpc|paid|paidsocial)'', ''social-paid'', ''instagram-ads'', 800),
      (''LinkedIn Ads (UTM)'', utmConditions ''linkedin'' ''(cpc|paid|paidsocial)'', ''social-paid'', ''linkedin-ads'', 790),
      (''TikTok Ads (UTM)'', utmConditions ''tiktok'' ''(cpc|paid|paidsocial)'', ''social-paid'', ''tiktok-ads'', 780),
      (''YouTube Ads (UTM)'', utmConditions ''youtube'' ''(cpc|cpv|paid)'', ''video-paid'', ''youtube-ads'', 770)]"

(* src: api/src/workspaces/fixtures/default-filters.ts:226-234 getDefaultFilters *)
definition paid_referrer_filters :: "channel_rule list" where
  "paid_referrer_filters =
     [(''Google Ads (Referrer)'', referrerContains ''googleadservices'', ''display-banner'', ''google-ads'', 760)]"

(* src: api/src/workspaces/fixtures/default-filters.ts:246-257 getDefaultFilters *)
definition referral_filters :: "channel_rule list" where
  "referral_filters =
     [(''Referral interne (?ref=)'', [cond ''is_direct'' Op_equals ''true'', cond ''utm_content'' Op_regex ''.+''], ''referral'', ''referral'', 745)]"

(* src: api/src/workspaces/fixtures/default-filters.ts:261-276 getDefaultFilters *)
definition direct_filters :: "channel_rule list" where
  "direct_filters =
     [(''Direct (UTM)'', utmConditions ''direct'' ''none'', ''direct'', ''direct'', 750),
      (''Direct Traffic'', directCondition, ''direct'', ''direct'', 740)]"

(* src: api/src/workspaces/fixtures/default-filters.ts:281-331 getDefaultFilters *)
definition organic_filters :: "channel_rule list" where
  "organic_filters =
     [(''Google Android App'', referrerContains ''com.google.android'', ''search-organic'', ''google-organic'', 705),
      (''Google Organic'', referrerContains ''google'', ''search-organic'', ''google-organic'', 700),
      (''Bing Organic'', referrerContains ''bing'', ''search-organic'', ''bing-organic'', 690),
      (''Yahoo Organic'', referrerContains ''yahoo'', ''search-organic'', ''yahoo-organic'', 680),
      (''DuckDuckGo Organic'', referrerContains ''duckduckgo'', ''search-organic'', ''duckduckgo-organic'', 670),
      (''Baidu Organic'', referrerContains ''baidu'', ''search-organic'', ''baidu-organic'', 660),
      (''Yandex Organic'', referrerContains ''yandex'', ''search-organic'', ''yandex-organic'', 650)]"

(* src: api/src/workspaces/fixtures/default-filters.ts:335-406 getDefaultFilters *)
definition social_filters :: "channel_rule list" where
  "social_filters =
     [(''Facebook Organic'', referrerContains ''facebook'', ''social-organic'', ''facebook-organic'', 600),
      (''Instagram Organic'', referrerContains ''instagram'', ''social-organic'', ''instagram-organic'', 590),
      (''Twitter/X Organic'', referrerRegex twitter_pattern, ''social-organic'', ''twitter-organic'', 580),
      (''LinkedIn Organic'', referrerContains ''linkedin'', ''social-organic'', ''linkedin-organic'', 570),
      (''YouTube Organic'', referrerContains ''youtube'', ''social-organic'', ''youtube-organic'', 560),
      (''TikTok Organic'', referrerContains ''tiktok'', ''social-organic'', ''tiktok-organic'', 550),
      (''Pinterest Organic'', referrerContains ''pinterest'', ''social-organic'', ''pinterest-organic'', 540),
      (''Reddit Organic'', referrerContains ''reddit'', ''social-organic'', ''reddit-organic'', 530),
      (''Snapchat Organic'', referrerContains ''snapchat'', ''social-organic'', ''snapchat-organic'', 520),
      (''Quora Organic'', referrerContains ''quora'', ''social-organic'', ''quora-organic'', 510)]"

(* src: api/src/workspaces/fixtures/default-filters.ts:408-427 getDefaultFilters *)
definition email_filters :: "channel_rule list" where
  "email_filters = [(''Email'', [cond ''utm_medium'' Op_regex ''^email$''], ''email'', ''email'', 300)]"

(* src: api/src/workspaces/fixtures/default-filters.ts:429-455 getDefaultFilters *)
definition fallback_filter :: "(nat \<Rightarrow> string) \<Rightarrow> string \<Rightarrow> nat \<Rightarrow> filter_definition" where
  "fallback_filter uuid now i =
     \<lparr>fd_id = uuid i, fd_name = ''Default Channel'', fd_priority = 10, fd_order = int i, fd_tags = [''default''],
      fd_conditions = [],
      fd_operations = [set_op Act_set_default_value ''channel_group'' ''not-mapped'',
                       set_op Act_set_default_value ''channel'' ''not-mapped''],
      fd_enabled = True, fd_version = [], fd_created_at = now, fd_updated_at = now\<rparr>"

definition channel_table :: "channel_rule list" where
  "channel_table = paid_click_filters @ paid_utm_filters @ paid_referrer_filters @ referral_filters @ direct_filters @
     organic_filters @ social_filters @ email_filters"

(* src: api/src/workspaces/fixtures/default-filters.ts:89-95 getDefaultFilters *)
definition unversioned_filters :: "(nat \<Rightarrow> string) \<Rightarrow> string \<Rightarrow> filter_definition list" where
  "unversioned_filters uuid now =
     map (\<lambda>(i, row). createChannelFilter uuid now (Suc i) row) (enumerate 0 channel_table) @
     [fallback_filter uuid now (Suc (length channel_table))]"

(* src: api/src/workspaces/fixtures/default-filters.ts:457-460 getDefaultFilters *)
definition getDefaultFilters ::
    "(string \<Rightarrow> 'k::linorder) \<Rightarrow> (versioned_rule list \<Rightarrow> string) \<Rightarrow> (nat \<Rightarrow> string) \<Rightarrow> string \<Rightarrow> filter_definition list" where
  "getDefaultFilters ck digest uuid now =
     (let fs = unversioned_filters uuid now
      in map (\<lambda>f. f\<lparr>fd_version := computeFilterVersion ck digest fs\<rparr>) fs)"

subsection \<open>What the rules decide\<close>

definition rule_priority :: "channel_rule \<Rightarrow> int" where
  "rule_priority row = (case row of (name, conditions, grp, channel, priority) \<Rightarrow> priority)"

definition rule_matches :: "regex_engine \<Rightarrow> field_values \<Rightarrow> channel_rule \<Rightarrow> bool" where
  "rule_matches rx fv row \<longleftrightarrow> evaluateConditions rx (fst (snd row)) fv"

text \<open>The first row, in descending priority, whose conditions hold.\<close>

definition deciding_rule :: "regex_engine \<Rightarrow> field_values \<Rightarrow> channel_rule option" where
  "deciding_rule rx fv = List.find (rule_matches rx fv) (sort_desc rule_priority channel_table)"

definition default_channel :: "regex_engine \<Rightarrow> field_values \<Rightarrow> string \<times> string" where
  "default_channel rx fv =
     (case deciding_rule rx fv of
        None \<Rightarrow> (''not-mapped'', ''not-mapped'')
      | Some (name, conditions, grp, channel, priority) \<Rightarrow> (grp, channel))"

lemma sort_desc_map: "sort_desc k (map f xs) = map f (sort_desc (\<lambda>x. k (f x)) xs)"
  by (simp add: sort_desc_def sort_key_map)

lemma sort_desc_last:
  assumes "\<forall>x \<in> set xs. k y < k x"
  shows "sort_desc k (xs @ [y]) = sort_desc k xs @ [y]"
proof -
  have "insort_key (\<lambda>x. - k x) x (zs @ [y]) = insort_key (\<lambda>x. - k x) x zs @ [y]" if "k y < k x" for x zs
    using that by (induction zs) auto
  with assms show ?thesis
  proof (induction xs)
    case (Cons x xs)
    then show ?case by (simp add: sort_desc_def)
  qed (simp add: sort_desc_def)
qed

lemma winner_below: "\<forall>po \<in> set tr. \<not> (assigns po \<and> fst po = p) \<Longrightarrow> winner p tr = None"
  by (induction tr) auto

text \<open>Rules that all assign, at falling priorities, and one default behind them: the first one decides.\<close>

lemma dimension_spec_with_default:
  assumes "sorted_wrt (\<lambda>x y. fst y < fst x) tr" and "\<forall>po \<in> set tr. fo_action (snd po) = Act_set_value" and "is_default d"
  shows "dimension_spec (tr @ [d]) = Some (cell_of (fo_value (snd (case tr of [] \<Rightarrow> d | po # _ \<Rightarrow> po))))"
proof (cases tr)
  case Nil
  then show ?thesis using assms(3) default_not_assigns [OF assms(3)] by (simp add: dimension_spec_def first_default_def)
next
  case (Cons po rest)
  have a: "assigns po" using assms(2) Cons by (simp add: assigns_def)
  have "winner (fst po) (rest @ [d]) = None"
    using assms Cons default_not_assigns [OF assms(3)] by (intro winner_below) (auto simp: assigns_def)
  then show ?thesis using a Cons assms(2) by (simp add: dimension_spec_def)
qed

lemma priorities_distinct: "distinct (map rule_priority channel_table)"
  by code_simp

lemma priorities_above: "\<forall>row \<in> set channel_table. 10 < rule_priority row"
  by code_simp

lemma sorted_wrt_strict: "sorted_wrt (\<lambda>x y. k y \<le> k x) xs \<Longrightarrow> distinct (map k xs) \<Longrightarrow> sorted_wrt (\<lambda>x y. k y < k x) xs"
  for k :: "'a \<Rightarrow> int"
  by (induction xs) (auto simp: image_iff order.strict_iff_order)

lemma table_strict: "sorted_wrt (\<lambda>x y. rule_priority y < rule_priority x) (sort_desc rule_priority channel_table)"
  by (rule sorted_wrt_strict [OF sort_desc_sorted]) (use priorities_distinct in \<open>simp add: sort_desc_def distinct_map\<close>)

text \<open>The trace of the evaluation on one of the two dimensions.\<close>

definition rule_value :: "string \<Rightarrow> channel_rule \<Rightarrow> string" where
  "rule_value d row = (if d = ''channel'' then fst (snd (snd (snd row))) else fst (snd (snd row)))"

lemma in_set_enumerateD: "(i, x) \<in> set (List.enumerate n xs) \<Longrightarrow> x \<in> set xs"
  by (metis image_eqI map_snd_enumerate set_map snd_conv)

lemma createChannelFilter_fields [simp]:
  "fd_priority (createChannelFilter uuid now i row) = rule_priority row"
  "fd_enabled (createChannelFilter uuid now i row)"
  "fd_conditions (createChannelFilter uuid now i row) = fst (snd row)"
  by (cases row; simp add: createChannelFilter_def rule_priority_def)+

lemma createChannelFilter_on:
  "d \<in> {''channel'', ''channel_group''} \<Longrightarrow>
   on_dimension d (tagged_operations (createChannelFilter uuid now i row)) =
     [(rule_priority row, set_op Act_set_value d (rule_value d row))]"
  by (cases row) (auto simp: createChannelFilter_def tagged_operations_def on_dimension_def set_op_def rule_value_def rule_priority_def)

lemma on_dimension_concat: "on_dimension d (concat (map f xs)) = concat (map (\<lambda>x. on_dimension d (f x)) xs)"
  by (simp add: on_dimension_def filter_concat comp_def)

lemma on_dimension_append: "on_dimension d (xs @ ys) = on_dimension d xs @ on_dimension d ys"
  by (simp add: on_dimension_def)

lemma default_trace:
  assumes "d \<in> {''channel'', ''channel_group''}"
  shows "on_dimension d (operation_trace rx (getDefaultFilters ck digest uuid now) fv) =
     map (\<lambda>row. (rule_priority row, set_op Act_set_value d (rule_value d row)))
       (filter (rule_matches rx fv) (sort_desc rule_priority channel_table)) @
     [(10, set_op Act_set_default_value d ''not-mapped'')]"
proof -
  define ver where "ver = (\<lambda>f :: filter_definition. f\<lparr>fd_version := computeFilterVersion ck digest (unversioned_filters uuid now)\<rparr>)"
  define mk where "mk = (\<lambda>(i, row). ver (createChannelFilter uuid now (Suc i) row))"
  define last where "last = ver (fallback_filter uuid now (Suc (length channel_table)))"
  let ?es = "List.enumerate 0 channel_table"
  have fs: "getDefaultFilters ck digest uuid now = map mk ?es @ [last]"
    by (simp add: getDefaultFilters_def unversioned_filters_def Let_def mk_def last_def ver_def case_prod_beta comp_def)
  have mk: "fd_priority (mk e) = rule_priority (snd e)" "fd_enabled (mk e)" "fd_conditions (mk e) = fst (snd (snd e))"
    "tagged_operations (mk e) = tagged_operations (createChannelFilter uuid now (Suc (fst e)) (snd e))" for e
    by (simp_all add: mk_def ver_def case_prod_beta tagged_operations_def)
  have lst: "fd_priority last = 10" "fd_enabled last" "fd_conditions last = []"
    "on_dimension d (tagged_operations last) = [(10, set_op Act_set_default_value d ''not-mapped'')]"
    using assms by (auto simp: last_def ver_def fallback_filter_def tagged_operations_def on_dimension_def set_op_def)
  have snd_es: "\<forall>e \<in> set ?es. 10 < rule_priority (snd e)"
    using priorities_above by (metis image_eqI map_snd_enumerate set_map)
  have "enabled_by_priority (map mk ?es @ [last]) = sort_desc fd_priority (map mk ?es @ [last])"
    using mk(2) lst(2) by (simp add: enabled_by_priority_def filter_id_conv)
  also have "\<dots> = sort_desc fd_priority (map mk ?es) @ [last]"
    using snd_es by (intro sort_desc_last) (auto simp: mk lst)
  also have "sort_desc fd_priority (map mk ?es) = map mk (sort_desc (\<lambda>e. rule_priority (snd e)) ?es)"
    by (simp add: sort_desc_map mk)
  finally have "operation_trace rx (map mk ?es @ [last]) fv =
      concat (map tagged_operations (map mk (filter (\<lambda>e. rule_matches rx fv (snd e)) (sort_desc (\<lambda>e. rule_priority (snd e)) ?es)) @ [last]))"
    by (simp add: operation_trace_def filter_map comp_def mk lst rule_matches_def del: evaluateConditions_all) (simp add: lst)
  then have "on_dimension d (operation_trace rx (map mk ?es @ [last]) fv) =
      map (\<lambda>e. (rule_priority (snd e), set_op Act_set_value d (rule_value d (snd e))))
        (filter (\<lambda>e. rule_matches rx fv (snd e)) (sort_desc (\<lambda>e. rule_priority (snd e)) ?es)) @
      [(10, set_op Act_set_default_value d ''not-mapped'')]"
    by (simp add: on_dimension_append on_dimension_concat mk lst createChannelFilter_on [OF assms])
  also have "map (\<lambda>e. (rule_priority (snd e), set_op Act_set_value d (rule_value d (snd e))))
        (filter (\<lambda>e. rule_matches rx fv (snd e)) (sort_desc (\<lambda>e. rule_priority (snd e)) ?es)) =
      map (\<lambda>row. (rule_priority row, set_op Act_set_value d (rule_value d row)))
        (filter (rule_matches rx fv) (map snd (sort_desc (\<lambda>e. rule_priority (snd e)) ?es)))"
    by (simp add: filter_map comp_def)
  also have "map snd (sort_desc (\<lambda>e. rule_priority (snd e)) ?es) = sort_desc rule_priority channel_table"
    using sort_desc_map [of rule_priority snd ?es] by simp
  finally show ?thesis by (simp add: fs)
qed

text \<open>
  Every visit gets a channel and a group from the default rules: those of the matching rule of the highest priority,
  and the fallback pair when none matches.
\<close>
theorem default_rules_decide:
  "map_of (evaluateFilters rx (getDefaultFilters ck digest uuid now) fv) ''channel_group'' = Some (Cell (fst (default_channel rx fv))) \<and>
   map_of (evaluateFilters rx (getDefaultFilters ck digest uuid now) fv) ''channel'' = Some (Cell (snd (default_channel rx fv)))"
proof -
  have pos: "\<forall>f \<in> set (getDefaultFilters ck digest uuid now). 0 \<le> fd_priority f"
  proof -
    have "0 \<le> rule_priority row" if "row \<in> set channel_table" for row using priorities_above that by fastforce
    then show ?thesis
      by (auto simp: getDefaultFilters_def unversioned_filters_def Let_def fallback_filter_def dest: in_set_enumerateD)
  qed
  have "map_of (evaluateFilters rx (getDefaultFilters ck digest uuid now) fv) d =
      Some (Cell (case deciding_rule rx fv of None \<Rightarrow> ''not-mapped'' | Some row \<Rightarrow> rule_value d row))"
    if d: "d \<in> {''channel'', ''channel_group''}" for d
  proof -
    let ?rows = "filter (rule_matches rx fv) (sort_desc rule_priority channel_table)"
    let ?tr = "map (\<lambda>row. (rule_priority row, set_op Act_set_value d (rule_value d row))) ?rows"
    have "sorted_wrt (\<lambda>x y. fst y < fst x) ?tr"
      unfolding sorted_wrt_map fst_conv by (rule sorted_wrt_filter [OF table_strict])
    then have "dimension_spec (?tr @ [(10, set_op Act_set_default_value d ''not-mapped'')]) =
        Some (cell_of (fo_value (snd (case ?tr of [] \<Rightarrow> (10, set_op Act_set_default_value d ''not-mapped'') | po # _ \<Rightarrow> po))))"
      by (rule dimension_spec_with_default) (auto simp: set_op_def is_default_def)
    moreover have "deciding_rule rx fv = (case ?rows of [] \<Rightarrow> None | row # _ \<Rightarrow> Some row)"
    proof -
      have "List.find P xs = (case filter P xs of [] \<Rightarrow> None | x # _ \<Rightarrow> Some x)" for P and xs :: "channel_rule list"
        by (induction xs) auto
      then show ?thesis by (simp add: deciding_rule_def)
    qed
    ultimately show ?thesis
      unfolding accumulators_dimension [OF pos] default_trace [OF d]
      by (cases ?rows) (simp_all add: set_op_def cell_of_def)
  qed
  from this [of "''channel''"] this [of "''channel_group''"] show ?thesis
    by (cases "deciding_rule rx fv") (auto simp: default_channel_def rule_value_def split: prod.split)
qed

lemma find_strict:
  "sorted_wrt (\<lambda>x y. k y < k x) xs \<Longrightarrow> List.find P xs = Some r \<Longrightarrow> y \<in> set xs \<Longrightarrow> P y \<Longrightarrow> k y \<le> k r"
  for k :: "'a \<Rightarrow> int"
  by (induction xs) (auto split: if_splits simp: find_Some_iff)

lemma deciding_ruleI:
  assumes "row \<in> set channel_table" and "rule_matches rx fv row"
    and "list_all (\<lambda>r. rule_priority row < rule_priority r \<longrightarrow> \<not> rule_matches rx fv r) channel_table"
  shows "deciding_rule rx fv = Some row"
proof -
  let ?xs = "sort_desc rule_priority channel_table"
  have "List.find (rule_matches rx fv) ?xs \<noteq> None" using assms(1,2) unfolding find_None_iff set_sort_desc by blast
  then obtain r where r: "List.find (rule_matches rx fv) ?xs = Some r" by auto
  then have m: "r \<in> set channel_table" "rule_matches rx fv r" using Filters.find_mem [OF r] by simp_all
  have "rule_priority row \<le> rule_priority r" using find_strict [OF table_strict r] assms(1,2) by simp
  moreover have "rule_priority r \<le> rule_priority row" using assms(3) m by (auto simp: list_all_iff)
  ultimately have "r = row" using priorities_distinct m(1) assms(1) by (simp add: distinct_map inj_on_def)
  with r show ?thesis by (simp add: deciding_rule_def)
qed

lemmas table_defs = channel_table_def paid_click_filters_def paid_utm_filters_def paid_referrer_filters_def referral_filters_def
  direct_filters_def organic_filters_def social_filters_def email_filters_def

lemmas rule_defs = rule_matches_def rule_priority_def utmConditions_def clickIdCondition_def referrerContains_def referrerRegex_def
  directCondition_def cond_def evaluateCondition_def

text \<open>
  Three organic networks are never credited. The pattern of the Twitter rule looks for \<open>t.co\<close> anywhere, and
  \<open>pinterest.com\<close>, \<open>reddit.com\<close> and \<open>snapchat.com\<close> all contain it; so do their visits that carry no
  campaign parameters end up as Twitter's, although each has a rule of its own below.
\<close>
theorem twitter_takes_pinterest:
  assumes "rx twitter_pattern = (\<lambda>v. Some (js_includes v ''twitter.com'' \<or> js_includes v ''x.com'' \<or> js_includes v ''t.co''))"
    and "host \<in> {''pinterest.com'', ''reddit.com'', ''snapchat.com''}"
  shows "default_channel rx [''referrer_domain'' \<mapsto> host, ''is_direct'' \<mapsto> ''false''] = (''social-organic'', ''twitter-organic'')"
proof -
  let ?fv = "[''referrer_domain'' \<mapsto> host, ''is_direct'' \<mapsto> ''false'']"
  let ?row = "(''Twitter/X Organic'', referrerRegex twitter_pattern, ''social-organic'', ''twitter-organic'', 580)"
  have "deciding_rule rx ?fv = Some ?row"
    using assms by (intro deciding_ruleI) (auto simp: table_defs rule_defs js_starts_with_def)
  then show ?thesis by (simp add: default_channel_def)
qed

text \<open>
  The rule for mails is out of reach for mails opened outside a browser: such a visit has no referrer, so it is
  direct to the rules, and the two rules on direct visits outrank the mail rule. It is credited as a referral when the link carries
  a content tag and as direct traffic when it does not.
\<close>
theorem email_is_direct:
  assumes "rx ''.+'' = (\<lambda>v. Some (v \<noteq> []))" and "rx ''^direct$'' ''newsletter'' = Some False"
    and "list_all (\<lambda>s. rx (''^'' @ s @ ''$'') ''newsletter'' = Some False)
       [''google'', ''(bing|microsoft)'', ''facebook'', ''instagram'', ''linkedin'', ''tiktok'', ''youtube'']"
  shows "default_channel rx ([''utm_source'' \<mapsto> ''newsletter'', ''utm_medium'' \<mapsto> ''email'', ''is_direct'' \<mapsto> ''true'', ''utm_content'' \<mapsto> content]) =
     (if content = [] then (''direct'', ''direct'') else (''referral'', ''referral''))"
proof -
  let ?fv = "[''utm_source'' \<mapsto> ''newsletter'', ''utm_medium'' \<mapsto> ''email'', ''is_direct'' \<mapsto> ''true'', ''utm_content'' \<mapsto> content]"
  let ?row = "if content = [] then (''Direct Traffic'', directCondition, ''direct'', ''direct'', 740)
    else (''Referral interne (?ref=)'', [cond ''is_direct'' Op_equals ''true'', cond ''utm_content'' Op_regex ''.+''], ''referral'', ''referral'', 745)"
  have "deciding_rule rx ?fv = Some ?row"
    using assms by (intro deciding_ruleI) (auto simp: table_defs rule_defs)
  then show ?thesis by (simp add: default_channel_def)
qed

lemma twitter_takes_pinterest_witness:
  "default_channel (\<lambda>p v. Some (js_includes v ''twitter.com'' \<or> js_includes v ''x.com'' \<or> js_includes v ''t.co''))
     [''referrer_domain'' \<mapsto> ''pinterest.com'', ''is_direct'' \<mapsto> ''false''] = (''social-organic'', ''twitter-organic'')"
  by (rule twitter_takes_pinterest) simp_all

lemma email_is_direct_witness:
  "default_channel (\<lambda>p v. Some (p = ''.+'' \<and> v \<noteq> []))
     [''utm_source'' \<mapsto> ''newsletter'', ''utm_medium'' \<mapsto> ''email'', ''is_direct'' \<mapsto> ''true'', ''utm_content'' \<mapsto> ''may''] = (''referral'', ''referral'')"
  using email_is_direct [of "\<lambda>p v. Some (p = ''.+'' \<and> v \<noteq> [])" "''may''"] by auto

end
