(* ===== verification/Access.thy ===== *)
theory Access
  imports Prelude
begin

section \<open>Access control: roles, permissions and the workspace guard\<close>

text \<open>
  \<^verbatim>\<open>api/src/common/permissions.ts\<close> and \<^verbatim>\<open>api/src/common/guards/workspace.guard.ts\<close>: what each
  role may do, and how a request is tied to a workspace. The lookup of a membership is an argument of
  the guard; the team component provides it.
\<close>

datatype http_error = Not_found string | Bad_request string | Forbidden string | Conflict string | Unauthorized string

(* src: api/src/common/entities/membership.entity.ts:1-1 Role *)
datatype role = R_viewer | R_editor | R_admin | R_owner

(* src: api/src/common/permissions.ts:50-55 ROLE_HIERARCHY *)
primrec ROLE_HIERARCHY :: "role \<Rightarrow> nat" where
  "ROLE_HIERARCHY R_owner = 4"
| "ROLE_HIERARCHY R_admin = 3"
| "ROLE_HIERARCHY R_editor = 2"
| "ROLE_HIERARCHY R_viewer = 1"

text \<open>The hierarchy is a linear order on roles.\<close>

lemma ROLE_HIERARCHY_inj: "ROLE_HIERARCHY r = ROLE_HIERARCHY s \<Longrightarrow> r = s"
  by (cases r; cases s) simp_all

instantiation role :: linorder
begin

definition less_eq_role :: "role \<Rightarrow> role \<Rightarrow> bool" where
  "less_eq_role r s \<longleftrightarrow> ROLE_HIERARCHY r \<le> ROLE_HIERARCHY s"

definition less_role :: "role \<Rightarrow> role \<Rightarrow> bool" where
  "less_role r s \<longleftrightarrow> ROLE_HIERARCHY r < ROLE_HIERARCHY s"

instance
  by standard (auto simp: less_eq_role_def less_role_def intro: ROLE_HIERARCHY_inj)

end

(* src: api/src/common/permissions.ts:3-48 Permission *)
datatype permission =
    Analytics_view | Analytics_export | Filters_manage | Annotations_manage | Integrations_manage
  | Workspace_settings | Workspace_smtp | Workspace_delete | ApiKeys_view | ApiKeys_manage
  | Webhook_read | Webhook_write | Webhook_delete | Webhook_test
  | Voip_read | Voip_write | Voip_test | Gsc_read | Gsc_manage
  | Members_invite | Members_manage | Members_remove | Ownership_transfer

(* src: api/src/common/permissions.ts:3-46 PERMISSIONS *)
definition PERMISSIONS :: "(permission \<times> role list) list" where
  "PERMISSIONS =
     [(Analytics_view, [R_owner, R_admin, R_editor, R_viewer]),
      (Analytics_export, [R_owner, R_admin, R_editor]),
      (Filters_manage, [R_owner, R_admin, R_editor]),
      (Annotations_manage, [R_owner, R_admin, R_editor]),
      (Integrations_manage, [R_owner, R_admin]),
      (Workspace_settings, [R_owner, R_admin]),
      (Workspace_smtp, [R_owner]),
      (Workspace_delete, [R_owner]),
      (ApiKeys_view, [R_owner, R_admin]),
      (ApiKeys_manage, [R_owner, R_admin]),
      (Webhook_read, [R_owner, R_admin, R_editor, R_viewer]),
      (Webhook_write, [R_owner, R_admin]),
      (Webhook_delete, [R_owner, R_admin]),
      (Webhook_test, [R_owner, R_admin, R_editor]),
      (Voip_read, [R_owner, R_admin, R_editor, R_viewer]),
      (Voip_write, [R_owner, R_admin]),
      (Voip_test, [R_owner, R_admin, R_editor]),
      (Gsc_read, [R_owner, R_admin, R_editor, R_viewer]),
      (Gsc_manage, [R_owner, R_admin]),
      (Members_invite, [R_owner, R_admin]),
      (Members_manage, [R_owner, R_admin]),
      (Members_remove, [R_owner, R_admin]),
      (Ownership_transfer, [R_owner])]"

(* src: api/src/common/permissions.ts:83-87 getRolesWithPermission *)
definition getRolesWithPermission :: "permission \<Rightarrow> role list" where
  "getRolesWithPermission p = js_nullish (map_of PERMISSIONS p) []"

(* src: api/src/common/permissions.ts:60-63 hasPermission *)
definition hasPermission :: "role \<Rightarrow> permission \<Rightarrow> bool" where
  "hasPermission r p \<longleftrightarrow> r \<in> set (getRolesWithPermission p)"

(* src: api/src/common/permissions.ts:69-71 canModifyMember *)
definition canModifyMember :: "role \<Rightarrow> role \<Rightarrow> bool" where
  "canModifyMember actor target \<longleftrightarrow> ROLE_HIERARCHY target < ROLE_HIERARCHY actor"

(* src: api/src/common/permissions.ts:76-80 getPermissionsForRole *)
definition getPermissionsForRole :: "role \<Rightarrow> permission list" where
  "getPermissionsForRole r = map fst (filter (\<lambda>(p, rs). r \<in> set rs) PERMISSIONS)"

lemma permission_listed: "p \<in> set (map fst PERMISSIONS)"
  by (cases p) (simp_all add: PERMISSIONS_def)

lemma canModifyMember_less: "canModifyMember a t \<longleftrightarrow> t < a"
  by (simp add: canModifyMember_def less_role_def)

lemma PERMISSIONS_upward:
  "list_all (\<lambda>(p, rs). list_all (\<lambda>r. list_all (\<lambda>s. ROLE_HIERARCHY r \<le> ROLE_HIERARCHY s \<longrightarrow> s \<in> set rs)
     [R_viewer, R_editor, R_admin, R_owner]) rs) PERMISSIONS"
  by code_simp

lemma owner_all: "list_all (hasPermission R_owner) (map fst PERMISSIONS)"
  by code_simp

lemma PERMISSIONS_distinct: "distinct (map fst PERMISSIONS)"
  by (simp add: PERMISSIONS_def)

lemma all_roles: "r \<in> set [R_viewer, R_editor, R_admin, R_owner]"
  by (cases r) simp_all

lemma PERMISSIONS_up:
  assumes "(q, rs) \<in> set PERMISSIONS" and "r \<in> set rs" and "r \<le> s"
  shows "s \<in> set rs"
proof -
  have "list_all (\<lambda>r. list_all (\<lambda>s. ROLE_HIERARCHY r \<le> ROLE_HIERARCHY s \<longrightarrow> s \<in> set rs)
      [R_viewer, R_editor, R_admin, R_owner]) rs"
    using PERMISSIONS_upward assms(1) unfolding list_all_iff by blast
  then have "list_all (\<lambda>s. ROLE_HIERARCHY r \<le> ROLE_HIERARCHY s \<longrightarrow> s \<in> set rs) [R_viewer, R_editor, R_admin, R_owner]"
    using assms(2) by (simp add: list_all_iff)
  then show ?thesis using all_roles [of s] assms(3) by (simp only: list_all_iff less_eq_role_def)
qed

lemma hasPermission_up: "hasPermission r p \<Longrightarrow> r \<le> s \<Longrightarrow> hasPermission s p"
proof -
  assume p: "hasPermission r p" "r \<le> s"
  obtain rs where m: "(p, rs) \<in> set PERMISSIONS" using permission_listed [of p] by auto
  then have "map_of PERMISSIONS p = Some rs" using PERMISSIONS_distinct by simp
  with p PERMISSIONS_up [OF m] show ?thesis by (simp add: hasPermission_def getRolesWithPermission_def)
qed

text \<open>
  Permissions respect the hierarchy: whatever a role may do, every higher role may do too, and the list of permissions
  of a role is exactly what the guard lets it do.
\<close>
theorem permissions_monotone:
  assumes "r \<le> s"
  shows "set (getPermissionsForRole r) \<subseteq> set (getPermissionsForRole s) \<and>
     p \<in> set (getPermissionsForRole r) = hasPermission r p"
proof -
  have up: "s \<in> set rs" if "(q, rs) \<in> set PERMISSIONS" "r \<in> set rs" for q rs
    by (rule PERMISSIONS_up [OF that assms])
  obtain rs where "(p, rs) \<in> set PERMISSIONS" using permission_listed [of p] by auto
  then have "map_of PERMISSIONS p = Some rs" using PERMISSIONS_distinct by simp
  moreover have "p \<in> set (getPermissionsForRole r) \<longleftrightarrow> (\<exists>rs. (p, rs) \<in> set PERMISSIONS \<and> r \<in> set rs)"
    by (force simp: getPermissionsForRole_def)
  moreover have "(\<exists>rs. (p, rs) \<in> set PERMISSIONS \<and> r \<in> set rs) \<longleftrightarrow> r \<in> set rs"
    using \<open>(p, rs) \<in> set PERMISSIONS\<close> PERMISSIONS_distinct by (metis eq_key_imp_eq_value)
  ultimately show ?thesis
    using up by (force simp: getPermissionsForRole_def hasPermission_def getRolesWithPermission_def)
qed

lemma permissions_monotone_witness: "set (getPermissionsForRole R_editor) \<subseteq> set (getPermissionsForRole R_admin)"
  using permissions_monotone [of R_editor R_admin] by (simp add: less_eq_role_def)

subsection \<open>The guard\<close>

(* src: api/src/common/entities/membership.entity.ts:3-12 WorkspaceMembership *)
record membership =
  mb_id :: string
  mb_workspace_id :: string
  mb_user_id :: string
  mb_role :: role
  mb_invited_by :: "string option"
  mb_joined_at :: int
  mb_created_at :: int
  mb_updated_at :: int

datatype caller = Api_key string string role | Person string bool

record request =
  rq_body_fields :: "string \<rightharpoonup> string"
  rq_query_fields :: "string \<rightharpoonup> string"

fun first_truthy :: "string option list \<Rightarrow> string option" where
  "first_truthy [] = None"
| "first_truthy (x # xs) = (if js_truthy x then x else first_truthy xs)"

(* src: api/src/common/guards/workspace.guard.ts:41-47 canActivate *)
definition guard_workspace :: "request \<Rightarrow> string option" where
  "guard_workspace rq =
     first_truthy [rq_body_fields rq ''workspace_id'', rq_body_fields rq ''workspaceId'', rq_body_fields rq ''id'',
       rq_query_fields rq ''workspace_id'', rq_query_fields rq ''workspaceId'', rq_query_fields rq ''id'']"

definition synthetic :: "int \<Rightarrow> string \<Rightarrow> string \<Rightarrow> string \<Rightarrow> role \<Rightarrow> membership" where
  "synthetic now i ws user r =
     \<lparr>mb_id = i, mb_workspace_id = ws, mb_user_id = user, mb_role = r, mb_invited_by = None, mb_joined_at = now,
      mb_created_at = now, mb_updated_at = now\<rparr>"

(* src: api/src/common/guards/workspace.guard.ts:32-133 canActivate *)
definition canActivate ::
    "(string \<Rightarrow> string \<Rightarrow> membership option) \<Rightarrow> int \<Rightarrow> permission option \<Rightarrow> caller \<Rightarrow> request \<Rightarrow> http_error + membership" where
  "canActivate getMembership now required user rq =
     (case guard_workspace rq of
        None \<Rightarrow> Inl (Bad_request ''workspace_id is required'')
      | Some workspaceId \<Rightarrow>
          (case user of
             Api_key keyId ws r \<Rightarrow>
               if workspaceId \<noteq> ws then Inl (Forbidden ''API key not authorized for this workspace'')
               else if (case required of None \<Rightarrow> False | Some p \<Rightarrow> \<not> hasPermission r p)
               then Inl (Forbidden ''API key has insufficient permissions'')
               else Inr (synthetic now (''api-key:'' @ keyId) workspaceId (''api-key:'' @ keyId) r)
           | Person userId isSuperAdmin \<Rightarrow>
               if isSuperAdmin then Inr (synthetic now ''super-admin'' workspaceId userId R_owner)
               else
                 (case getMembership workspaceId userId of
                    None \<Rightarrow> Inl (Forbidden ''Not a member of this workspace'')
                  | Some m \<Rightarrow>
                      if (case required of None \<Rightarrow> False | Some p \<Rightarrow> \<not> hasPermission (mb_role m) p)
                      then Inl (Forbidden ''Insufficient permissions'')
                      else Inr m)))"

text \<open>
  C12: What passing the guard means. The request names a workspace, and the caller is an API key bound to that very
  workspace, a super administrator, or a member of it; and unless a super administrator, the role it acts with has the
  permission the endpoint asks for.
\<close>
theorem guard_sound:
  assumes "canActivate getMembership now required user rq = Inr m"
  shows "\<exists>ws. guard_workspace rq = Some ws \<and> ws \<noteq> [] \<and>
     (case user of
        Api_key keyId bound r \<Rightarrow> bound = ws \<and> mb_role m = r \<and> mb_workspace_id m = ws
      | Person userId isSuperAdmin \<Rightarrow>
          (if isSuperAdmin then mb_role m = R_owner \<and> mb_workspace_id m = ws else getMembership ws userId = Some m)) \<and>
     (case required of None \<Rightarrow> True | Some p \<Rightarrow> hasPermission (mb_role m) p)"
proof -
  have truthy: "x \<noteq> []" if "first_truthy xs = Some x" for x xs
    using that by (induction xs) (auto split: if_splits option.splits)
  have owner: "hasPermission R_owner p" for p
    using owner_all permission_listed [of p] by (simp only: list_all_iff)
  obtain ws where w: "guard_workspace rq = Some ws"
    using assms by (cases "guard_workspace rq") (simp_all add: canActivate_def)
  have "ws \<noteq> []" using w unfolding guard_workspace_def by (rule truthy)
  then show ?thesis
  proof (cases user)
    case (Api_key k b r)
    with assms w \<open>ws \<noteq> []\<close> show ?thesis
      by (auto simp: canActivate_def synthetic_def split: if_splits option.splits)
  next
    case (Person u super)
    with assms w \<open>ws \<noteq> []\<close> owner show ?thesis
      by (auto simp: canActivate_def synthetic_def split: if_splits option.splits)
  qed
qed

lemma guard_sound_witness:
  "\<exists>ws. guard_workspace \<lparr>rq_body_fields = Map.empty, rq_query_fields = [''workspace_id'' \<mapsto> ''a'']\<rparr> = Some ws \<and> ws \<noteq> []"
  using guard_sound [of "\<lambda>_ _. None" 0 "Some Members_invite" "Api_key ''k'' ''a'' R_admin"
      "\<lparr>rq_body_fields = Map.empty, rq_query_fields = [''workspace_id'' \<mapsto> ''a'']\<rparr>" "synthetic 0 ''api-key:k'' ''a'' ''api-key:k'' R_admin"]
  by (force simp: canActivate_def guard_workspace_def hasPermission_def getRolesWithPermission_def PERMISSIONS_def)

text \<open>
  The guard can be pointed at another workspace. It prefers the body of a request over its query, whereas the
  handlers of reading endpoints (listing members, filters, webhooks) take the workspace from the
  query: a member of any workspace passes the guard with a request whose query names any other workspace, and is
  then served the other one.
\<close>
theorem guard_confused_deputy:
  assumes "getMembership own user = Some m" and "own \<noteq> []" and "hasPermission (mb_role m) p"
  shows "\<exists>rq. rq_query_fields rq ''workspace_id'' = Some victim \<and>
     canActivate getMembership now (Some p) (Person user False) rq = Inr m"
  by (rule exI [of _ "\<lparr>rq_body_fields = [''workspace_id'' \<mapsto> own], rq_query_fields = [''workspace_id'' \<mapsto> victim]\<rparr>"])
    (simp add: assms canActivate_def guard_workspace_def)

lemma guard_confused_deputy_witness:
  "\<exists>rq. rq_query_fields rq ''workspace_id'' = Some ''victim'' \<and>
     canActivate (\<lambda>w u. if w = ''mine'' \<and> u = ''eve'' then Some (synthetic 0 ''m'' ''mine'' ''eve'' R_viewer) else None)
       0 (Some Analytics_view) (Person ''eve'' False) rq = Inr (synthetic 0 ''m'' ''mine'' ''eve'' R_viewer)"
  by (rule guard_confused_deputy [where own = "''mine''"])
    (simp_all add: synthetic_def hasPermission_def getRolesWithPermission_def PERMISSIONS_def)

end
