(* ===== verification/Users.thy ===== *)
theory Users
  imports Access
begin

section \<open>Users\<close>

text \<open>
  \<^verbatim>\<open>api/src/users/users.service.ts\<close>: accounts, profile changes, passwords and the lockout after failed
  logins. The table is a list of rows by id, read with its replacing merge applied. Password hashing and
  verification are arguments. The cache of users is part of the state; an entry carries the time it
  expires.
\<close>

(* src: api/src/common/entities/user.entity.ts:2-2 UserStatus *)
datatype user_status = U_pending | U_active | U_disabled

(* src: api/src/common/entities/user.entity.ts:4-20 User *)
record user =
  us_id :: string
  us_email :: string
  us_password_hash :: "string option"
  us_name :: string
  us_status :: user_status
  us_is_super_admin :: bool
  us_last_login_at :: "int option"
  us_failed_login_attempts :: int
  us_locked_until :: "int option"
  us_password_changed_at :: "int option"
  us_deleted_at :: "int option"
  us_deleted_by :: "string option"
  us_created_at :: int
  us_updated_at :: int

record accounts =
  ac_users :: "(string \<times> user) list"
  ac_user_cache :: "string \<rightharpoonup> user \<times> int"

record hashing =
  hs_hash :: "string \<Rightarrow> string"
  hs_verify :: "string \<Rightarrow> string \<Rightarrow> bool"

definition live_users :: "accounts \<Rightarrow> user list" where
  "live_users a = filter (\<lambda>u. us_deleted_at u = None) (map snd (ac_users a))"

definition put_user :: "user \<Rightarrow> accounts \<Rightarrow> accounts" where
  "put_user u a = a\<lparr>ac_users := AList.update (us_id u) u (ac_users a)\<rparr>"

(* src: api/src/users/users.service.ts:32-44 findById *)
definition findUserById :: "accounts \<Rightarrow> string \<Rightarrow> user option" where
  "findUserById a i = List.find (\<lambda>u. us_id u = i) (live_users a)"

(* src: api/src/users/users.service.ts:49-61 findByEmail *)
definition findByEmail :: "accounts \<Rightarrow> string \<Rightarrow> user option" where
  "findByEmail a email = List.find (\<lambda>u. us_email u = js_lower email) (live_users a)"

(* src: api/src/users/users.service.ts:290-292 invalidateUserCache *)
definition invalidateUserCache :: "string \<Rightarrow> accounts \<Rightarrow> accounts" where
  "invalidateUserCache i a = a\<lparr>ac_user_cache := (ac_user_cache a)(i := None)\<rparr>"

(* src: api/src/users/users.service.ts:66-106 create *)
definition create_user ::
    "hashing \<Rightarrow> int \<Rightarrow> string \<Rightarrow> string \<Rightarrow> string \<Rightarrow> string \<Rightarrow> accounts \<Rightarrow> http_error + user \<times> accounts" where
  "create_user h now new_id email name password a =
     (if findByEmail a (js_lower email) \<noteq> None then Inl (Conflict ''Email already exists'')
      else
        let u = \<lparr>us_id = new_id, us_email = js_lower email, us_password_hash = Some (hs_hash h password), us_name = name,
                 us_status = U_active, us_is_super_admin = False, us_last_login_at = None, us_failed_login_attempts = 0,
                 us_locked_until = None, us_password_changed_at = Some now, us_deleted_at = None, us_deleted_by = None,
                 us_created_at = now, us_updated_at = now\<rparr>
        in Inr (u, put_user u a))"

(* src: api/src/users/users.service.ts:111-148 updateProfile *)
definition updateProfile ::
    "int \<Rightarrow> string \<Rightarrow> string option \<Rightarrow> string option \<Rightarrow> accounts \<Rightarrow> http_error + user \<times> accounts" where
  "updateProfile now i email name a =
     (case findUserById a i of
        None \<Rightarrow> Inl (Not_found ''User not found'')
      | Some u \<Rightarrow>
          if js_truthy email \<and> js_lower (the email) \<noteq> us_email u \<and> findByEmail a (the email) \<noteq> None
          then Inl (Conflict ''Email already exists'')
          else
            let u2 = u\<lparr>us_email := js_or (js_nullish (map_option js_lower email) []) (us_email u),
                       us_name := js_or (js_nullish name []) (us_name u), us_updated_at := now\<rparr>
            in Inr (u2, invalidateUserCache i (put_user u2 a)))"

(* src: api/src/users/users.service.ts:153-189 changePassword *)
definition changePassword ::
    "hashing \<Rightarrow> int \<Rightarrow> string \<Rightarrow> string \<Rightarrow> string \<Rightarrow> accounts \<Rightarrow> http_error + accounts" where
  "changePassword h now i current new a =
     (case findUserById a i of
        None \<Rightarrow> Inl (Not_found ''User not found'')
      | Some u \<Rightarrow>
          if \<not> js_truthy (us_password_hash u) then Inl (Not_found ''User not found'')
          else if \<not> hs_verify h current (the (us_password_hash u)) then Inl (Unauthorized ''Current password is incorrect'')
          else if current = new then Inl (Bad_request ''New password must be different from current password'')
          else Inr (invalidateUserCache i
                 (put_user (u\<lparr>us_password_hash := Some (hs_hash h new), us_password_changed_at := Some now,
                               us_updated_at := now\<rparr>) a)))"

(* src: api/src/users/users.service.ts:194-208 recordLogin *)
definition recordLogin :: "int \<Rightarrow> string \<Rightarrow> accounts \<Rightarrow> accounts" where
  "recordLogin now i a =
     (case findUserById a i of
        None \<Rightarrow> a
      | Some u \<Rightarrow> put_user (u\<lparr>us_last_login_at := Some now, us_failed_login_attempts := 0, us_locked_until := None,
                                us_updated_at := now\<rparr>) a)"

definition lock_ms :: int where "lock_ms = 15 * 60 * 1000"

(* src: api/src/users/users.service.ts:213-248 recordFailedLogin *)
definition recordFailedLogin :: "int \<Rightarrow> string \<Rightarrow> accounts \<Rightarrow> int option \<times> accounts" where
  "recordFailedLogin now email a =
     (case findByEmail a email of
        None \<Rightarrow> (None, a)
      | Some u \<Rightarrow>
          let attempts = us_failed_login_attempts u + 1;
              lockedUntil = (if 5 \<le> attempts then Some (now + lock_ms) else None)
          in (lockedUntil,
              invalidateUserCache (us_id u)
                (put_user (u\<lparr>us_failed_login_attempts := attempts, us_locked_until := lockedUntil, us_updated_at := now\<rparr>) a)))"

(* src: api/src/users/users.service.ts:253-261 isLocked *)
definition isLocked :: "int \<Rightarrow> string \<Rightarrow> accounts \<Rightarrow> bool" where
  "isLocked now email a =
     (case findByEmail a email of
        None \<Rightarrow> False
      | Some u \<Rightarrow> (case us_locked_until u of None \<Rightarrow> False | Some t \<Rightarrow> now < t))"

(* src: api/src/users/users.service.ts:266-285 delete *)
definition delete_user :: "int \<Rightarrow> string \<Rightarrow> string \<Rightarrow> accounts \<Rightarrow> http_error + accounts" where
  "delete_user now i by_user a =
     (case findUserById a i of
        None \<Rightarrow> Inl (Not_found ''User not found'')
      | Some u \<Rightarrow> Inr (invalidateUserCache i
            (put_user (u\<lparr>us_deleted_at := Some now, us_deleted_by := Some by_user, us_updated_at := now\<rparr>) a)))"

(* src: api/src/users/users.service.ts:310-325 validatePassword *)
definition validatePassword :: "string \<Rightarrow> bool \<times> string list" where
  "validatePassword password =
     (let errors = (if length password < 8 then [''Password must be at least 8 characters''] else []) @
                   (if 72 < length password then [''Password must be at most 72 characters''] else [])
      in (errors = [], errors))"

subsection \<open>The table\<close>

definition users_keyed :: "accounts \<Rightarrow> bool" where
  "users_keyed a \<longleftrightarrow> distinct (map fst (ac_users a)) \<and> (\<forall>(i, u) \<in> set (ac_users a). us_id u = i)"

lemma live_users_iff:
  "users_keyed a \<Longrightarrow> u \<in> set (live_users a) \<longleftrightarrow> (us_id u, u) \<in> set (ac_users a) \<and> us_deleted_at u = None"
  by (force simp: live_users_def users_keyed_def)

lemma users_keyed_put: "users_keyed a \<Longrightarrow> users_keyed (put_user u a)"
  by (auto simp: users_keyed_def put_user_def set_update distinct_update)

lemma live_users_put:
  assumes "users_keyed a"
  shows "v \<in> set (live_users (put_user u a)) \<longleftrightarrow>
     (if us_id v = us_id u then v = u \<and> us_deleted_at u = None else v \<in> set (live_users a))"
proof -
  have "v \<in> set (live_users (put_user u a)) \<longleftrightarrow> (us_id v, v) \<in> set (ac_users (put_user u a)) \<and> us_deleted_at v = None"
    by (rule live_users_iff) (rule users_keyed_put [OF assms])
  also have "\<dots> \<longleftrightarrow> ((us_id v = us_id u \<and> v = u) \<or> ((us_id v, v) \<in> set (ac_users a) \<and> us_id v \<noteq> us_id u)) \<and> us_deleted_at v = None"
    using assms by (auto simp: put_user_def set_update users_keyed_def)
  finally show ?thesis using live_users_iff [OF assms, of v] by auto
qed

lemma find_Some_mem: "List.find P xs = Some x \<Longrightarrow> x \<in> set xs \<and> P x"
  by (auto simp: find_Some_iff)

lemma find_unique:
  assumes "x \<in> set xs" and "P x" and "\<And>y. y \<in> set xs \<Longrightarrow> P y \<Longrightarrow> y = x"
  shows "List.find P xs = Some x"
  using assms by (metis find_None_iff find_Some_mem option.exhaust)

text \<open>Invariant: rows are keyed, and live accounts have distinct lower-case addresses.\<close>

definition accounts_ok :: "accounts \<Rightarrow> bool" where
  "accounts_ok a \<longleftrightarrow> users_keyed a \<and>
     (\<forall>u \<in> set (live_users a). \<forall>v \<in> set (live_users a). us_email u = us_email v \<longrightarrow> us_id u = us_id v) \<and>
     (\<forall>u \<in> set (live_users a). js_lower (us_email u) = us_email u)"

lemma accounts_ok_id:
  assumes "accounts_ok a" and "u \<in> set (live_users a)" and "v \<in> set (live_users a)" and "us_id u = us_id v"
  shows "u = v"
proof -
  have k: "users_keyed a" using assms(1) by (simp add: accounts_ok_def)
  have "(us_id u, u) \<in> set (ac_users a)" "(us_id u, v) \<in> set (ac_users a)"
    using live_users_iff [OF k] assms(2-4) by auto
  then show ?thesis using k eq_key_imp_eq_value [of "ac_users a" "us_id u" u v] by (simp add: users_keyed_def)
qed

lemma findUserById_iff:
  assumes "accounts_ok a"
  shows "findUserById a i = Some u \<longleftrightarrow> u \<in> set (live_users a) \<and> us_id u = i"
proof
  assume "u \<in> set (live_users a) \<and> us_id u = i"
  then show "findUserById a i = Some u"
    unfolding findUserById_def using accounts_ok_id [OF assms] by (intro find_unique) auto
qed (auto simp: findUserById_def dest: find_Some_mem)

lemma accounts_ok_email:
  assumes "accounts_ok a" and "u \<in> set (live_users a)" and "v \<in> set (live_users a)" and "us_email u = us_email v"
  shows "u = v"
proof -
  have "us_id u = us_id v" using assms unfolding accounts_ok_def by blast
  then show ?thesis by (rule accounts_ok_id [OF assms(1-3)])
qed

lemma findByEmail_iff:
  assumes "accounts_ok a"
  shows "findByEmail a e = Some u \<longleftrightarrow> u \<in> set (live_users a) \<and> us_email u = js_lower e"
proof
  assume u: "u \<in> set (live_users a) \<and> us_email u = js_lower e"
  show "findByEmail a e = Some u"
    unfolding findByEmail_def
  proof (rule find_unique)
    fix y assume "y \<in> set (live_users a)" "us_email y = js_lower e"
    with u show "y = u" by (intro accounts_ok_email [OF assms]) simp_all
  qed (use u in auto)
qed (auto simp: findByEmail_def dest: find_Some_mem)

lemma findByEmail_None: "findByEmail a e = None \<longleftrightarrow> (\<forall>u \<in> set (live_users a). us_email u \<noteq> js_lower e)"
  by (auto simp: findByEmail_def find_None_iff)

lemma accounts_ok_lower: "accounts_ok a \<Longrightarrow> u \<in> set (live_users a) \<Longrightarrow> js_lower (us_email u) = us_email u"
  unfolding accounts_ok_def by blast

lemma accounts_ok_put:
  assumes "accounts_ok a" and "js_lower (us_email u) = us_email u"
    and "\<forall>v \<in> set (live_users a). us_email v = us_email u \<longrightarrow> us_id v = us_id u"
  shows "accounts_ok (put_user u a)"
proof -
  have k: "users_keyed a" using assms(1) by (simp add: accounts_ok_def)
  have unique: "us_id v = us_id w" if "v \<in> set (live_users a)" "w \<in> set (live_users a)" "us_email v = us_email w" for v w
    using assms(1) that unfolding accounts_ok_def by blast
  have mem: "v = u \<or> v \<in> set (live_users a)" if "v \<in> set (live_users (put_user u a))" for v
    using that unfolding live_users_put [OF k] by (simp split: if_splits)
  show ?thesis
    unfolding accounts_ok_def
  proof (intro conjI ballI impI)
    show "users_keyed (put_user u a)" by (rule users_keyed_put [OF k])
  next
    fix v w
    assume v: "v \<in> set (live_users (put_user u a))" and w: "w \<in> set (live_users (put_user u a))" and e: "us_email v = us_email w"
    consider "v = u" "w = u" | "v = u" "w \<in> set (live_users a)" | "v \<in> set (live_users a)" "w = u"
      | "v \<in> set (live_users a)" "w \<in> set (live_users a)"
      using mem [OF v] mem [OF w] by blast
    then show "us_id v = us_id w"
    proof cases
      case 2
      then show ?thesis using assms(3) e by fastforce
    next
      case 3
      then show ?thesis using assms(3) e by fastforce
    next
      case 4
      then show ?thesis using unique e by blast
    qed simp
  next
    fix v assume "v \<in> set (live_users (put_user u a))"
    then have "v = u \<or> v \<in> set (live_users a)" by (rule mem)
    then show "js_lower (us_email v) = us_email v"
      using assms(2) accounts_ok_lower [OF assms(1)] by blast
  qed
qed

lemma accounts_ok_invalidate [simp]: "accounts_ok (invalidateUserCache i a) = accounts_ok a"
  by (simp add: accounts_ok_def users_keyed_def live_users_def invalidateUserCache_def)

lemma accounts_ok_put_same:
  assumes "accounts_ok a" and "u \<in> set (live_users a)" and "us_id w = us_id u" and "us_email w = us_email u"
  shows "accounts_ok (put_user w a)"
proof (rule accounts_ok_put [OF assms(1)])
  show "js_lower (us_email w) = us_email w" using accounts_ok_lower [OF assms(1,2)] assms(4) by simp
  show "\<forall>v \<in> set (live_users a). us_email v = us_email w \<longrightarrow> us_id v = us_id w"
  proof (intro ballI impI)
    fix v assume "v \<in> set (live_users a)" "us_email v = us_email w"
    then have "v = u" using assms(2,4) by (intro accounts_ok_email [OF assms(1)]) simp_all
    with assms(3) show "us_id v = us_id w" by simp
  qed
qed

subsection \<open>The operations as steps\<close>

inductive accounts_step :: "hashing \<Rightarrow> accounts \<Rightarrow> accounts \<Rightarrow> bool" for h where
  create: "create_user h now new_id email name password a = Inr (u, b) \<Longrightarrow> new_id \<notin> fst ` set (ac_users a) \<Longrightarrow> accounts_step h a b"
| profile: "updateProfile now i email name a = Inr (u, b) \<Longrightarrow> accounts_step h a b"
| password: "changePassword h now i current new a = Inr b \<Longrightarrow> accounts_step h a b"
| login: "accounts_step h a (recordLogin now i a)"
| failed: "accounts_step h a (snd (recordFailedLogin now email a))"
| delete: "delete_user now i by_user a = Inr b \<Longrightarrow> accounts_step h a b"

lemma create_keeps_accounts: "create_user h now new_id email name password a = Inr (u, b) \<Longrightarrow> accounts_ok a \<Longrightarrow> accounts_ok b"
  by (auto simp: create_user_def Let_def findByEmail_None split: if_splits intro!: accounts_ok_put)

lemma profile_keeps_accounts:
  assumes "updateProfile now i email name a = Inr (u, b)" and "accounts_ok a"
  shows "accounts_ok b"
proof -
  obtain w where w: "findUserById a i = Some w" using assms(1) by (auto simp: updateProfile_def split: option.splits)
  then have m: "w \<in> set (live_users a)" "us_id w = i" using findUserById_iff [OF assms(2)] by blast+
  let ?e = "js_or (js_nullish (map_option js_lower email) []) (us_email w)"
  have b: "b = invalidateUserCache i (put_user u a)" "us_email u = ?e" "us_id u = i"
    and c: "\<not> (js_truthy email \<and> js_lower (the email) \<noteq> us_email w \<and> findByEmail a (the email) \<noteq> None)"
    using assms(1) w m by (auto simp: updateProfile_def Let_def split: if_splits)
  have "accounts_ok (put_user u a)"
  proof (cases "js_truthy email \<and> js_lower (the email) \<noteq> us_email w")
    case True
    then obtain e where e: "email = Some e" "e \<noteq> []" by (auto simp: js_truthy_def split: option.splits)
    with True c b have "us_email u = js_lower e" "\<forall>v \<in> set (live_users a). us_email v \<noteq> js_lower e"
      by (simp_all add: findByEmail_None)
    then show ?thesis using assms(2) by (intro accounts_ok_put) auto
  next
    case False
    then have "us_email u = us_email w"
      using b by (cases email) (auto simp: js_or_def)
    with m b show ?thesis by (intro accounts_ok_put_same [OF assms(2) m(1)]) simp_all
  qed
  with b show ?thesis by simp
qed

lemma accounts_step_keeps: "accounts_step h a b \<Longrightarrow> accounts_ok a \<Longrightarrow> accounts_ok b"
proof (induction rule: accounts_step.induct)
  case (create now new_id email name password a u b)
  then show ?case by (blast intro: create_keeps_accounts)
next
  case (profile now i email name a u b)
  then show ?case by (blast intro: profile_keeps_accounts)
next
  case (password now i current new a b)
  then obtain u where u: "u \<in> set (live_users a)" and b: "b = invalidateUserCache i (put_user
      (u\<lparr>us_password_hash := Some (hs_hash h new), us_password_changed_at := Some now, us_updated_at := now\<rparr>) a)"
    by (auto simp: changePassword_def findUserById_iff split: option.splits if_splits)
  show ?case unfolding b by (simp add: accounts_ok_put_same [OF password(2) u])
next
  case (login a now i)
  then show ?case by (auto simp: recordLogin_def findUserById_iff split: option.splits intro: accounts_ok_put_same)
next
  case (failed a now email)
  then show ?case
    by (auto simp: recordFailedLogin_def findByEmail_iff Let_def split: option.splits intro: accounts_ok_put_same)
next
  case (delete now i by_user a b)
  then obtain u where u: "u \<in> set (live_users a)" and b: "b = invalidateUserCache i (put_user
      (u\<lparr>us_deleted_at := Some now, us_deleted_by := Some by_user, us_updated_at := now\<rparr>) a)"
    by (auto simp: delete_user_def findUserById_iff split: option.splits)
  show ?case unfolding b by (simp add: accounts_ok_put_same [OF delete(2) u])
qed

end
