(* ===== verification/Auth.thy ===== *)
theory Auth
  imports Users
begin

section \<open>Logins, sessions and password resets\<close>

text \<open>
  \<^verbatim>\<open>api/src/auth/auth.service.ts\<close> and \<^verbatim>\<open>api/src/auth/strategies/jwt.strategy.ts\<close>. Signing a token is
  not modelled: a login yields the payload that is signed, and a request presents a payload whose
  signature has been checked. Token hashing is an argument. The caches carry expiry times; the key of a session's entry, a text joining two ids
  with a colon, is the pair of the ids, which contain none. Mails
  are recorded in the state; the audit log is left out.
\<close>

(* src: api/src/common/entities/session.entity.ts:1-11 Session *)
record session_row =
  se_id :: string
  se_user_id :: string
  se_token_hash :: string
  se_ip_address :: "string option"
  se_user_agent :: "string option"
  se_expires_at :: int
  se_revoked_at :: "int option"
  se_created_at :: int
  se_updated_at :: int

(* src: api/src/common/entities/password-reset.entity.ts:1-1 PasswordResetStatus *)
datatype reset_status = Rs_pending | Rs_used | Rs_expired

(* src: api/src/common/entities/password-reset.entity.ts:3-11 PasswordResetToken *)
record reset_token =
  rt_id :: string
  rt_user_id :: string
  rt_token_hash :: string
  rt_status :: reset_status
  rt_expires_at :: int
  rt_created_at :: int
  rt_updated_at :: int

record auth_state =
  au_accounts :: accounts
  au_sessions :: "(string \<times> session_row) list"
  au_tokens :: "(string \<times> reset_token) list"
  au_session_cache :: "string \<times> string \<rightharpoonup> bool \<times> int"
  au_reset_rate :: "string \<rightharpoonup> nat \<times> int"
  au_mails :: "(string \<times> string) list"

(* src: api/src/auth/strategies/jwt.strategy.ts:11-15 JwtPayload *)
record jwt_payload =
  jw_sub :: string
  jw_email :: string
  jw_session_id :: "string option"

definition day_ms :: int where "day_ms = 24 * 60 * 60 * 1000"
definition hour_ms :: int where "hour_ms = 60 * 60 * 1000"

definition put_session :: "session_row \<Rightarrow> auth_state \<Rightarrow> auth_state" where
  "put_session x s = s\<lparr>au_sessions := AList.update (se_id x) x (au_sessions s)\<rparr>"

definition put_token :: "reset_token \<Rightarrow> auth_state \<Rightarrow> auth_state" where
  "put_token x s = s\<lparr>au_tokens := AList.update (rt_id x) x (au_tokens s)\<rparr>"

subsection \<open>Sessions\<close>

(* src: api/src/auth/auth.service.ts:445-473 createSession *)
definition createSession_row ::
    "int \<Rightarrow> string \<Rightarrow> string \<Rightarrow> string \<Rightarrow> string option \<Rightarrow> string option \<Rightarrow> auth_state \<Rightarrow> auth_state" where
  "createSession_row now new_id token_hash userId ip ua s =
     put_session \<lparr>se_id = new_id, se_user_id = userId, se_token_hash = token_hash,
       se_ip_address = (if js_truthy ip then ip else None), se_user_agent = (if js_truthy ua then ua else None),
       se_expires_at = now + 7 * day_ms, se_revoked_at = None, se_created_at = now, se_updated_at = now\<rparr> s"

(* src: api/src/auth/auth.service.ts:302-317 listSessions *)
definition listSessions :: "int \<Rightarrow> string \<Rightarrow> auth_state \<Rightarrow> session_row list" where
  "listSessions now userId s =
     sort_desc se_created_at
       (filter (\<lambda>x. se_user_id x = userId \<and> se_revoked_at x = None \<and> now < se_expires_at x) (map snd (au_sessions s)))"

(* src: api/src/auth/auth.service.ts:383-397 validateSession *)
definition validateSession :: "int \<Rightarrow> string \<Rightarrow> string \<Rightarrow> auth_state \<Rightarrow> bool" where
  "validateSession now sessionId userId s =
     list_ex (\<lambda>x. se_id x = sessionId \<and> se_user_id x = userId \<and> se_revoked_at x = None \<and> now < se_expires_at x)
       (map snd (au_sessions s))"

(* src: api/src/auth/auth.service.ts:402-407 invalidateSessionCache *)
definition invalidateSessionCache :: "string \<Rightarrow> string \<Rightarrow> auth_state \<Rightarrow> auth_state" where
  "invalidateSessionCache sessionId userId s =
     s\<lparr>au_session_cache := (au_session_cache s)((sessionId, userId) := None)\<rparr>"

definition revoke_row :: "int \<Rightarrow> session_row \<Rightarrow> session_row" where
  "revoke_row now x = x\<lparr>se_revoked_at := Some now, se_updated_at := now\<rparr>"

(* src: api/src/auth/auth.service.ts:322-349 revokeSession *)
definition revokeSession :: "int \<Rightarrow> string \<Rightarrow> string \<Rightarrow> auth_state \<Rightarrow> http_error + auth_state" where
  "revokeSession now sessionId userId s =
     (case List.find (\<lambda>x. se_id x = sessionId \<and> se_user_id x = userId) (map snd (au_sessions s)) of
        None \<Rightarrow> Inl (Bad_request ''Session not found'')
      | Some x \<Rightarrow> Inr (invalidateSessionCache sessionId userId (put_session (revoke_row now x) s)))"

(* src: api/src/auth/auth.service.ts:354-378 revokeAllSessions *)
definition revokeAllSessions :: "int \<Rightarrow> string \<Rightarrow> auth_state \<Rightarrow> auth_state" where
  "revokeAllSessions now userId s =
     fold (\<lambda>x s. invalidateSessionCache (se_id x) userId (put_session (revoke_row now x) s))
       (filter (\<lambda>x. se_user_id x = userId \<and> se_revoked_at x = None) (map snd (au_sessions s))) s"

(* src: api/src/auth/auth.service.ts:430-443 issueSessionForUser *)
definition issueSessionForUser ::
    "int \<Rightarrow> string \<Rightarrow> string \<Rightarrow> string \<Rightarrow> string \<Rightarrow> string option \<Rightarrow> string option \<Rightarrow> auth_state \<Rightarrow> jwt_payload \<times> auth_state" where
  "issueSessionForUser now new_id token_hash userId email ip ua s =
     (\<lparr>jw_sub = userId, jw_email = email, jw_session_id = Some new_id\<rparr>,
      createSession_row now new_id token_hash userId ip ua s)"

subsection \<open>Logging in\<close>

(* src: api/src/auth/auth.service.ts:59-120 login *)
definition login ::
    "hashing \<Rightarrow> int \<Rightarrow> string \<Rightarrow> string \<Rightarrow> string \<Rightarrow> string \<Rightarrow> string option \<Rightarrow> string option \<Rightarrow> auth_state \<Rightarrow>
       (http_error + jwt_payload) \<times> auth_state" where
  "login h now new_id token_hash raw_email password ip ua s =
     (let email = js_lower raw_email; acc = au_accounts s
      in if isLocked now email acc then (Inl (Unauthorized ''Account temporarily locked. Try again in 15 minutes.''), s)
         else
           (case findByEmail acc email of
              None \<Rightarrow> (Inl (Unauthorized ''Invalid credentials''), s)
            | Some u \<Rightarrow>
                if \<not> js_truthy (us_password_hash u) then (Inl (Unauthorized ''Invalid credentials''), s)
                else if us_status u \<noteq> U_active then (Inl (Unauthorized ''Account is not active''), s)
                else if \<not> hs_verify h password (the (us_password_hash u)) then
                  (Inl (Unauthorized ''Invalid credentials''), s\<lparr>au_accounts := snd (recordFailedLogin now email acc)\<rparr>)
                else
                  let s1 = s\<lparr>au_accounts := recordLogin now (us_id u) acc\<rparr>
                  in (Inr \<lparr>jw_sub = us_id u, jw_email = us_email u, jw_session_id = Some new_id\<rparr>,
                      createSession_row now new_id token_hash (us_id u) ip ua s1)))"

subsection \<open>Forgotten passwords\<close>

(* src: api/src/auth/auth.service.ts:147-173 forgotPassword *)
definition reset_rate :: "int \<Rightarrow> (nat \<times> int) option \<Rightarrow> (nat \<times> int) option" where
  "reset_rate now entry =
     (case entry of
        None \<Rightarrow> Some (1, now + hour_ms)
      | Some (cnt, resetAt) \<Rightarrow>
          if resetAt \<le> now then Some (1, now + hour_ms)
          else if 3 \<le> cnt then None
          else Some (cnt + 1, resetAt))"

(* src: api/src/auth/auth.service.ts:126-219 forgotPassword *)
definition forgotPassword :: "int \<Rightarrow> string \<Rightarrow> string \<times> string \<Rightarrow> string \<Rightarrow> auth_state \<Rightarrow> auth_state" where
  "forgotPassword now new_id token_and_hash raw_email s =
     (let email = js_lower raw_email
      in case findByEmail (au_accounts s) email of
           None \<Rightarrow> s
         | Some u \<Rightarrow>
             if isLocked now email (au_accounts s) then s
             else
               (case reset_rate now (au_reset_rate s (us_id u)) of
                  None \<Rightarrow> s
                | Some entry \<Rightarrow>
                    let s1 = s\<lparr>au_reset_rate := (au_reset_rate s)(us_id u \<mapsto> entry)\<rparr>;
                        s2 = put_token \<lparr>rt_id = new_id, rt_user_id = us_id u, rt_token_hash = snd token_and_hash,
                               rt_status = Rs_pending, rt_expires_at = now + hour_ms, rt_created_at = now,
                               rt_updated_at = now\<rparr> s1
                    in s2\<lparr>au_mails := au_mails s2 @ [(email, fst token_and_hash)]\<rparr>))"

(* src: api/src/auth/auth.service.ts:224-297 resetPassword *)
definition resetPassword ::
    "hashing \<Rightarrow> (string \<Rightarrow> string) \<Rightarrow> int \<Rightarrow> string \<Rightarrow> string \<Rightarrow> auth_state \<Rightarrow> http_error + auth_state" where
  "resetPassword h hashToken now token newPassword s =
     (case List.find (\<lambda>t. rt_token_hash t = hashToken token) (map snd (au_tokens s)) of
        None \<Rightarrow> Inl (Bad_request ''Invalid or expired reset token'')
      | Some t \<Rightarrow>
          if rt_status t \<noteq> Rs_pending then Inl (Bad_request ''This reset link has already been used'')
          else if rt_expires_at t < now then Inl (Bad_request ''This reset link has expired'')
          else
            (case findUserById (au_accounts s) (rt_user_id t) of
               None \<Rightarrow> Inl (Bad_request ''User not found'')
             | Some u \<Rightarrow>
                 let s1 = s\<lparr>au_accounts := put_user (u\<lparr>us_password_hash := Some (hs_hash h newPassword),
                              us_password_changed_at := Some now, us_updated_at := now\<rparr>) (au_accounts s)\<rparr>;
                     s2 = put_token (t\<lparr>rt_status := Rs_used, rt_updated_at := now\<rparr>) s1;
                     s3 = revokeAllSessions now (us_id u) s2
                 in Inr (s3\<lparr>au_accounts := invalidateUserCache (us_id u) (au_accounts s3)\<rparr>)))"

subsection \<open>Presenting a token\<close>

(* src: api/src/auth/strategies/jwt.strategy.ts:88-101 validateSessionCached *)
definition validateSessionCached :: "int \<Rightarrow> string \<Rightarrow> string \<Rightarrow> auth_state \<Rightarrow> bool \<times> auth_state" where
  "validateSessionCached now sessionId userId s =
     (case au_session_cache s ((sessionId, userId)) of
        Some (v, expiry) \<Rightarrow>
          if now < expiry then (v, s)
          else (let v = validateSession now sessionId userId s
                in (v, s\<lparr>au_session_cache := (au_session_cache s)((sessionId, userId) \<mapsto> (v, now + 60 * 1000))\<rparr>))
      | None \<Rightarrow>
          (let v = validateSession now sessionId userId s
           in (v, s\<lparr>au_session_cache := (au_session_cache s)((sessionId, userId) \<mapsto> (v, now + 60 * 1000))\<rparr>)))"

definition cached_user :: "int \<Rightarrow> string \<Rightarrow> accounts \<Rightarrow> user option" where
  "cached_user now userId a =
     (case ac_user_cache a userId of Some (u, expiry) \<Rightarrow> if now < expiry then Some u else None | None \<Rightarrow> None)"

(* src: api/src/auth/strategies/jwt.strategy.ts:74-86 getUserCached *)
definition getUserCached :: "int \<Rightarrow> string \<Rightarrow> accounts \<Rightarrow> user option \<times> accounts" where
  "getUserCached now userId a =
     (case cached_user now userId a of
        Some u \<Rightarrow> (Some u, a)
      | None \<Rightarrow>
          (case findUserById a userId of
             None \<Rightarrow> (None, a)
           | Some u \<Rightarrow> (Some u, a\<lparr>ac_user_cache := (ac_user_cache a)(userId \<mapsto> (u, now + 5 * 60 * 1000))\<rparr>)))"

(* src: api/src/auth/strategies/jwt.strategy.ts:39-72 validate *)
definition jwt_validate :: "int \<Rightarrow> jwt_payload \<Rightarrow> auth_state \<Rightarrow> (http_error + caller) \<times> auth_state" where
  "jwt_validate now p s =
     (let (ok, s1) = (case jw_session_id p of
                        None \<Rightarrow> (True, s)
                      | Some sid \<Rightarrow> if sid = [] then (True, s) else validateSessionCached now sid (jw_sub p) s)
      in if \<not> ok then (Inl (Unauthorized ''Session has been revoked''), s1)
         else
           (let (u, a) = getUserCached now (jw_sub p) (au_accounts s1); s2 = s1\<lparr>au_accounts := a\<rparr>
            in case u of
                 None \<Rightarrow> (Inl (Unauthorized ''User not found''), s2)
               | Some u \<Rightarrow>
                   if us_status u \<noteq> U_active then (Inl (Unauthorized ''Account is not active''), s2)
                   else if us_deleted_at u \<noteq> None then (Inl (Unauthorized ''Account has been deleted''), s2)
                   else (Inr (Person (us_id u) (us_is_super_admin u)), s2)))"

subsection \<open>Guessing a password\<close>

definition invalid_credentials :: "http_error + jwt_payload" where
  "invalid_credentials = Inl (Unauthorized ''Invalid credentials'')"

text \<open>A run of logins for one address: times and passwords tried, and the answers.\<close>

fun login_run :: "hashing \<Rightarrow> string \<Rightarrow> (int \<times> string) list \<Rightarrow> auth_state \<Rightarrow> (http_error + jwt_payload) list \<times> auth_state" where
  "login_run h email [] s = ([], s)"
| "login_run h email ((t, pw) # rest) s =
     (let (r, s1) = login h t [] [] email pw None None s; (rs, s2) = login_run h email rest s1 in (r # rs, s2))"

definition guesses :: "hashing \<Rightarrow> string \<Rightarrow> (int \<times> string) list \<Rightarrow> auth_state \<Rightarrow> nat" where
  "guesses h email ps s = length (filter (\<lambda>r. r = invalid_credentials) (fst (login_run h email ps s)))"

lemma guesses_simps [simp]:
  "guesses h email [] s = 0"
  "guesses h email ((t, pw) # rest) s =
     (if fst (login h t [] [] email pw None None s) = invalid_credentials then 1 else 0) +
     guesses h email rest (snd (login h t [] [] email pw None None s))"
  by (simp_all add: guesses_def split: prod.split)

definition guessed_user :: "hashing \<Rightarrow> string \<Rightarrow> string \<Rightarrow> user \<Rightarrow> auth_state \<Rightarrow> bool" where
  "guessed_user h email hash u s \<longleftrightarrow> accounts_ok (au_accounts s) \<and> findByEmail (au_accounts s) email = Some u \<and>
     us_password_hash u = Some hash \<and> hash \<noteq> [] \<and> us_status u = U_active \<and> 0 \<le> us_failed_login_attempts u"

lemma failed_login_user:
  fixes t :: int
  assumes "guessed_user h email hash u s"
    and w_def: "w = u\<lparr>us_failed_login_attempts := us_failed_login_attempts u + 1,
    us_locked_until := (if 5 \<le> us_failed_login_attempts u + 1 then Some (t + lock_ms) else None), us_updated_at := t\<rparr>"
  shows "guessed_user h email hash w (s\<lparr>au_accounts := snd (recordFailedLogin t (js_lower email) (au_accounts s))\<rparr>)"
proof -
  let ?a = "au_accounts s"
  have ok: "accounts_ok ?a" and f: "findByEmail ?a email = Some u" using assms by (simp_all add: guessed_user_def)
  have live: "u \<in> set (live_users ?a)" "us_email u = js_lower email" using f findByEmail_iff [OF ok] by blast+
  have "findByEmail ?a (js_lower email) = Some u" using f by (simp add: findByEmail_def)
  then have r: "snd (recordFailedLogin t (js_lower email) ?a) = invalidateUserCache (us_id u) (put_user w ?a)"
    by (simp add: recordFailedLogin_def w_def Let_def)
  have ok2: "accounts_ok (put_user w ?a)" by (rule accounts_ok_put_same [OF ok live(1)]) (simp_all add: w_def)
  have k: "users_keyed ?a" using ok by (simp add: accounts_ok_def)
  have "us_deleted_at u = None" using live(1) live_users_iff [OF k] by blast
  then have "w \<in> set (live_users (put_user w ?a))" unfolding live_users_put [OF k] by (simp add: w_def)
  then have "findByEmail (put_user w ?a) email = Some w"
    unfolding findByEmail_iff [OF ok2] using live(2) by (simp add: w_def)
  moreover have "findByEmail (invalidateUserCache i b) e = findByEmail b e" for i b e
    by (simp add: findByEmail_def live_users_def invalidateUserCache_def)
  ultimately show ?thesis using assms ok2 by (simp add: guessed_user_def r w_def)
qed

lemma wrong_login:
  assumes "guessed_user h email hash u s" and "\<not> hs_verify h pw hash"
  shows "login h t [] [] email pw None None s =
     (if (case us_locked_until u of None \<Rightarrow> False | Some l \<Rightarrow> t < l)
      then (Inl (Unauthorized ''Account temporarily locked. Try again in 15 minutes.''), s)
      else (invalid_credentials, s\<lparr>au_accounts := snd (recordFailedLogin t (js_lower email) (au_accounts s))\<rparr>))"
proof -
  have "findByEmail (au_accounts s) (js_lower email) = Some u"
    using assms(1) by (simp add: guessed_user_def findByEmail_def)
  with assms show ?thesis
    by (simp add: login_def guessed_user_def isLocked_def invalid_credentials_def Let_def split: option.splits)
qed

lemma guesses_when_locked:
  assumes "guessed_user h email hash u s" and "us_locked_until u = Some l"
    and "list_all (\<lambda>(t, pw). t < l \<and> \<not> hs_verify h pw hash) ps"
  shows "guesses h email ps s = 0"
  using assms(3)
proof (induction ps)
  case (Cons p ps)
  obtain t pw where p: "p = (t, pw)" by (cases p)
  have "login h t [] [] email pw None None s = (Inl (Unauthorized ''Account temporarily locked. Try again in 15 minutes.''), s)"
    using wrong_login [OF assms(1), of pw t] assms(2) Cons.prems p by simp
  with Cons p show ?case by (simp add: invalid_credentials_def)
qed simp

lemma guesses_bound:
  assumes "guessed_user h email hash u s"
    and "list_all (\<lambda>(t, pw). start \<le> t \<and> t < start + lock_ms \<and> \<not> hs_verify h pw hash) ps"
  shows "int (guesses h email ps s) \<le> max 1 (5 - us_failed_login_attempts u)"
  using assms
proof (induction ps arbitrary: s u)
  case (Cons p ps)
  obtain t pw where p: "p = (t, pw)" by (cases p)
  have bad: "\<not> hs_verify h pw hash" "start \<le> t" using Cons.prems(2) p by simp_all
  note l = wrong_login [OF Cons.prems(1) bad(1), of t]
  show ?case
  proof (cases "case us_locked_until u of None \<Rightarrow> False | Some l \<Rightarrow> t < l")
    case True
    then have "login h t [] [] email pw None None s = (Inl (Unauthorized ''Account temporarily locked. Try again in 15 minutes.''), s)"
      using l by simp
    then have "guesses h email (p # ps) s = guesses h email ps s" by (simp add: p invalid_credentials_def)
    then show ?thesis using Cons.IH [OF Cons.prems(1)] Cons.prems(2) by simp
  next
    case False
    let ?s = "s\<lparr>au_accounts := snd (recordFailedLogin t (js_lower email) (au_accounts s))\<rparr>"
    let ?w = "u\<lparr>us_failed_login_attempts := us_failed_login_attempts u + 1,
      us_locked_until := (if 5 \<le> us_failed_login_attempts u + 1 then Some (t + lock_ms) else None), us_updated_at := t\<rparr>"
    have "login h t [] [] email pw None None s = (invalid_credentials, ?s)" using l False by simp
    then have g: "guesses h email (p # ps) s = Suc (guesses h email ps ?s)" by (simp add: p)
    have w: "guessed_user h email hash ?w ?s" by (rule failed_login_user [OF Cons.prems(1) refl])
    show ?thesis
    proof (cases "5 \<le> us_failed_login_attempts u + 1")
      case True
      have "guesses h email ps ?s = 0"
        by (rule guesses_when_locked [OF w]) (use True Cons.prems(2) bad(2) in \<open>auto simp: list_all_iff\<close>)
      with g show ?thesis by simp
    next
      case False
      have "list_all (\<lambda>(t, pw). start \<le> t \<and> t < start + lock_ms \<and> \<not> hs_verify h pw hash) ps"
        using Cons.prems(2) by simp
      then have "int (guesses h email ps ?s) \<le> max 1 (5 - us_failed_login_attempts ?w)"
        by (rule Cons.IH [OF w])
      with g False show ?thesis by simp
    qed
  qed
qed simp



end
