(* ===== verification/Auth_Sessions.thy ===== *)
theory Auth_Sessions
  imports Auth
begin

section \<open>Revocation\<close>

text \<open>
  What ends a session, and that it stays ended: the operations of \<^verbatim>\<open>auth.service.ts\<close> and the validation of a token as
  steps, the table of sessions and its cache as their shared state.
\<close>

definition sessions_keyed :: "auth_state \<Rightarrow> bool" where
  "sessions_keyed s \<longleftrightarrow> distinct (map fst (au_sessions s)) \<and> (\<forall>(i, x) \<in> set (au_sessions s). se_id x = i)"

text \<open>A cached verdict in favour of a session is about one that has not been revoked since.\<close>

definition cache_honest :: "auth_state \<Rightarrow> bool" where
  "cache_honest s \<longleftrightarrow> (\<forall>sid uid e. au_session_cache s (sid, uid) = Some (True, e) \<longrightarrow>
     (\<exists>x. (sid, x) \<in> set (au_sessions s) \<and> se_user_id x = uid \<and> se_revoked_at x = None))"

definition tokens_keyed :: "auth_state \<Rightarrow> bool" where
  "tokens_keyed s \<longleftrightarrow> distinct (map fst (au_tokens s)) \<and> (\<forall>(i, t) \<in> set (au_tokens s). rt_id t = i)"

definition auth_ok :: "auth_state \<Rightarrow> bool" where
  "auth_ok s \<longleftrightarrow> sessions_keyed s \<and> cache_honest s \<and> tokens_keyed s"

definition session_dead :: "string \<Rightarrow> auth_state \<Rightarrow> bool" where
  "session_dead sid s \<longleftrightarrow> (\<exists>x. (sid, x) \<in> set (au_sessions s) \<and> se_revoked_at x \<noteq> None)"

definition token_used :: "string \<Rightarrow> auth_state \<Rightarrow> bool" where
  "token_used hash s \<longleftrightarrow>
     (\<exists>t. List.find (\<lambda>t. rt_token_hash t = hash) (map snd (au_tokens s)) = Some t \<and> rt_status t = Rs_used)"

inductive auth_step :: "hashing \<Rightarrow> (string \<Rightarrow> string) \<Rightarrow> auth_state \<Rightarrow> auth_state \<Rightarrow> bool" for h hash where
  login: "new_id \<notin> fst ` set (au_sessions s) \<Longrightarrow>
     auth_step h hash s (snd (login h now new_id token_hash email password ip ua s))"
| issue: "new_id \<notin> fst ` set (au_sessions s) \<Longrightarrow>
     auth_step h hash s (snd (issueSessionForUser now new_id token_hash userId email ip ua s))"
| revoke: "revokeSession now sessionId userId s = Inr s1 \<Longrightarrow> auth_step h hash s s1"
| revoke_all: "auth_step h hash s (revokeAllSessions now userId s)"
| forgot: "new_id \<notin> fst ` set (au_tokens s) \<Longrightarrow> auth_step h hash s (forgotPassword now new_id token_and_hash email s)"
| reset: "resetPassword h hash now token newPassword s = Inr s1 \<Longrightarrow> auth_step h hash s s1"
| validate: "auth_step h hash s (snd (jwt_validate now p s))"
| accounts: "accounts_step h (au_accounts s) a \<Longrightarrow> auth_step h hash s (s\<lparr>au_accounts := a\<rparr>)"

subsection \<open>What each operation does to the tables\<close>

lemma put_session_fields [simp]:
  "au_sessions (put_session x s) = AList.update (se_id x) x (au_sessions s)"
  "au_session_cache (put_session x s) = au_session_cache s"
  "au_tokens (put_session x s) = au_tokens s"
  "au_accounts (put_session x s) = au_accounts s"
  by (simp_all add: put_session_def)

lemma invalidate_fields [simp]:
  "au_sessions (invalidateSessionCache i u s) = au_sessions s"
  "au_session_cache (invalidateSessionCache i u s) = (au_session_cache s)((i, u) := None)"
  "au_tokens (invalidateSessionCache i u s) = au_tokens s"
  "au_accounts (invalidateSessionCache i u s) = au_accounts s"
  by (simp_all add: invalidateSessionCache_def)

lemma put_token_fields [simp]:
  "au_tokens (put_token t s) = AList.update (rt_id t) t (au_tokens s)"
  "au_sessions (put_token t s) = au_sessions s"
  "au_session_cache (put_token t s) = au_session_cache s"
  "au_accounts (put_token t s) = au_accounts s"
  by (simp_all add: put_token_def)

lemma revoke_row_fields [simp]:
  "se_id (revoke_row now x) = se_id x" "se_user_id (revoke_row now x) = se_user_id x"
  "se_revoked_at (revoke_row now x) = Some now"
  by (simp_all add: revoke_row_def)

lemma ok_put_fresh:
  assumes "auth_ok s" and "se_id x \<notin> fst ` set (au_sessions s)"
  shows "auth_ok (put_session x s)"
  using assms unfolding auth_ok_def sessions_keyed_def cache_honest_def tokens_keyed_def
  by (fastforce simp: update_new image_iff)

lemma ok_revoke_one:
  assumes "auth_ok s" and "(se_id x, x) \<in> set (au_sessions s)"
  shows "auth_ok (invalidateSessionCache (se_id x) (se_user_id x) (put_session (revoke_row now x) s))"
proof -
  have d: "distinct (map fst (au_sessions s))" using assms(1) by (simp add: auth_ok_def sessions_keyed_def)
  then have only: "y = x" if "(se_id x, y) \<in> set (au_sessions s)" for y
    using that assms(2) by (metis eq_key_imp_eq_value)
  have "cache_honest (invalidateSessionCache (se_id x) (se_user_id x) (put_session (revoke_row now x) s))"
    unfolding cache_honest_def
  proof (intro allI impI)
    fix sid uid e
    assume c: "au_session_cache (invalidateSessionCache (se_id x) (se_user_id x) (put_session (revoke_row now x) s)) (sid, uid) = Some (True, e)"
    then have ne: "(sid, uid) \<noteq> (se_id x, se_user_id x)" and c0: "au_session_cache s (sid, uid) = Some (True, e)"
      by (auto split: if_splits)
    obtain y where y: "(sid, y) \<in> set (au_sessions s)" "se_user_id y = uid" "se_revoked_at y = None"
      using assms(1) c0 unfolding auth_ok_def cache_honest_def by blast
    have "sid \<noteq> se_id x" using ne y only by auto
    with y d show "\<exists>y. (sid, y) \<in> set (au_sessions (invalidateSessionCache (se_id x) (se_user_id x) (put_session (revoke_row now x) s))) \<and>
        se_user_id y = uid \<and> se_revoked_at y = None" by (auto simp: set_update)
  qed
  with assms d show ?thesis
    by (auto simp: auth_ok_def sessions_keyed_def tokens_keyed_def set_update distinct_update)
qed

lemma dead_put:
  assumes "session_dead sid s" and "distinct (map fst (au_sessions s))" and "se_id x = sid \<Longrightarrow> se_revoked_at x \<noteq> None"
  shows "session_dead sid (put_session x s)"
  using assms by (auto simp: session_dead_def set_update)

lemma revoke_fold:
  assumes "auth_ok s" and "\<forall>x \<in> set xs. (se_id x, x) \<in> set (au_sessions s) \<and> se_user_id x = uid"
    and "distinct (map se_id xs)"
    and s': "s' = fold (\<lambda>x s. invalidateSessionCache (se_id x) uid (put_session (revoke_row now x) s)) xs s"
  shows "auth_ok s' \<and> au_tokens s' = au_tokens s \<and> au_accounts s' = au_accounts s \<and>
     fst ` set (au_sessions s') = fst ` set (au_sessions s) \<and> (session_dead sid s \<longrightarrow> session_dead sid s') \<and>
     (\<forall>(i, y) \<in> set (au_sessions s'). if i \<in> se_id ` set xs then se_revoked_at y \<noteq> None else (i, y) \<in> set (au_sessions s))"
  using assms
proof (induction xs arbitrary: s)
  case Nil
  then show ?case by auto
next
  case (Cons x xs)
  let ?s = "invalidateSessionCache (se_id x) uid (put_session (revoke_row now x) s)"
  have d: "distinct (map fst (au_sessions s))" using Cons.prems(1) by (simp add: auth_ok_def sessions_keyed_def)
  have x: "(se_id x, x) \<in> set (au_sessions s)" "se_user_id x = uid" using Cons.prems(2) by simp_all
  have ok: "auth_ok ?s" using ok_revoke_one [OF Cons.prems(1) x(1)] x(2) by simp
  have set: "set (au_sessions ?s) = insert (se_id x, revoke_row now x) {p \<in> set (au_sessions s). fst p \<noteq> se_id x}"
    using d by (simp add: set_update)
  have "\<forall>y \<in> set xs. (se_id y, y) \<in> set (au_sessions ?s) \<and> se_user_id y = uid"
  proof
    fix y assume y: "y \<in> set xs"
    have "se_id y \<noteq> se_id x" using Cons.prems(3) y by (metis distinct.simps(2) image_eqI list.simps(9) set_map)
    with Cons.prems(2) y show "(se_id y, y) \<in> set (au_sessions ?s) \<and> se_user_id y = uid" unfolding set by simp
  qed
  from Cons.IH [OF ok this] Cons.prems(3,4)
  have ih: "auth_ok s'" "au_tokens s' = au_tokens ?s" "au_accounts s' = au_accounts ?s"
    "fst ` set (au_sessions s') = fst ` set (au_sessions ?s)" "session_dead sid ?s \<longrightarrow> session_dead sid s'"
    "\<forall>(i, y) \<in> set (au_sessions s'). if i \<in> se_id ` set xs then se_revoked_at y \<noteq> None else (i, y) \<in> set (au_sessions ?s)"
    by (simp_all del: invalidate_fields)
  have keys: "fst ` set (au_sessions ?s) = fst ` set (au_sessions s)" unfolding set using x(1) by (auto simp: image_iff) force+
  have dead: "session_dead sid s \<Longrightarrow> session_dead sid ?s"
    using dead_put [OF _ d, of sid "revoke_row now x"] by (auto simp: session_dead_def)
  have rows: "if i \<in> se_id ` set (x # xs) then se_revoked_at y \<noteq> None else (i, y) \<in> set (au_sessions s)"
    if "(i, y) \<in> set (au_sessions s')" for i y
  proof (cases "i \<in> se_id ` set xs")
    case True
    then show ?thesis using ih(6) that by auto
  next
    case False
    then have "(i, y) \<in> set (au_sessions ?s)" using ih(6) that by auto
    then show ?thesis using False unfolding set by auto
  qed
  show ?case
  proof (intro conjI)
    show "\<forall>(i, y) \<in> set (au_sessions s'). if i \<in> se_id ` set (x # xs) then se_revoked_at y \<noteq> None else (i, y) \<in> set (au_sessions s)"
      using rows by blast
    show "session_dead sid s \<longrightarrow> session_dead sid s'" using ih(5) dead by blast
  qed (use ih keys in \<open>simp_all\<close>)
qed

lemma revokeAllSessions_effect:
  assumes "auth_ok s" and "s' = revokeAllSessions now uid s"
  shows "auth_ok s'" and "au_tokens s' = au_tokens s" and "au_accounts s' = au_accounts s"
    and "fst ` set (au_sessions s') = fst ` set (au_sessions s)" and "session_dead sid s \<Longrightarrow> session_dead sid s'"
    and "(i, y) \<in> set (au_sessions s') \<Longrightarrow> i \<in> fst ` {p \<in> set (au_sessions s). se_user_id (snd p) = uid} \<Longrightarrow> se_revoked_at y \<noteq> None"
proof -
  let ?xs = "filter (\<lambda>x. se_user_id x = uid \<and> se_revoked_at x = None) (map snd (au_sessions s))"
  have k: "distinct (map fst (au_sessions s))" "\<forall>(i, x) \<in> set (au_sessions s). se_id x = i"
    using assms(1) by (simp_all add: auth_ok_def sessions_keyed_def)
  have m: "\<forall>x \<in> set ?xs. (se_id x, x) \<in> set (au_sessions s) \<and> se_user_id x = uid" using k by auto
  have "map se_id (map snd (au_sessions s)) = map fst (au_sessions s)" using k(2) by (auto simp: case_prod_beta)
  then have "distinct (map se_id (map snd (au_sessions s)))" using k(1) by (simp only:)
  then have d: "distinct (map se_id ?xs)" by (rule distinct_map_filter)
  note f = revoke_fold [OF assms(1) m d assms(2) [unfolded revokeAllSessions_def]]
  show "auth_ok s'" "au_tokens s' = au_tokens s" "au_accounts s' = au_accounts s"
    "fst ` set (au_sessions s') = fst ` set (au_sessions s)" "session_dead sid s \<Longrightarrow> session_dead sid s'"
    using f by blast+
  have rows: "if i \<in> se_id ` set ?xs then se_revoked_at y \<noteq> None else (i, y) \<in> set (au_sessions s)"
    if "(i, y) \<in> set (au_sessions s')" using f that by blast
  assume y: "(i, y) \<in> set (au_sessions s')" and "i \<in> fst ` {p \<in> set (au_sessions s). se_user_id (snd p) = uid}"
  then obtain x where x: "(i, x) \<in> set (au_sessions s)" "se_user_id x = uid" by auto
  show "se_revoked_at y \<noteq> None"
  proof (cases "i \<in> se_id ` set ?xs")
    case True
    with rows [OF y] show ?thesis by simp
  next
    case False
    then have "(i, y) \<in> set (au_sessions s)" using rows [OF y] by simp
    then have "y = x" using x(1) k(1) by (metis eq_key_imp_eq_value)
    moreover have "se_id x = i" using k(2) x(1) by auto
    ultimately show ?thesis using False x by (force simp: image_iff)
  qed
qed

subsection \<open>What every step keeps\<close>

definition keeps :: "string \<Rightarrow> string \<Rightarrow> auth_state \<Rightarrow> auth_state \<Rightarrow> bool" where
  "keeps sid hash s s' \<longleftrightarrow> (auth_ok s \<longrightarrow> auth_ok s' \<and> (session_dead sid s \<longrightarrow> session_dead sid s') \<and> (token_used hash s \<longrightarrow> token_used hash s'))"

lemma keeps_refl [simp]: "keeps sid hash s s"
  by (simp add: keeps_def)

lemma keeps_trans: "keeps sid hash s t \<Longrightarrow> keeps sid hash t u \<Longrightarrow> keeps sid hash s u"
  by (auto simp: keeps_def)

lemma other_fields [simp]:
  "auth_ok (s\<lparr>au_accounts := a\<rparr>) = auth_ok s" "session_dead sid (s\<lparr>au_accounts := a\<rparr>) = session_dead sid s"
  "token_used hash (s\<lparr>au_accounts := a\<rparr>) = token_used hash s"
  "auth_ok (s\<lparr>au_mails := m\<rparr>) = auth_ok s" "session_dead sid (s\<lparr>au_mails := m\<rparr>) = session_dead sid s"
  "token_used hash (s\<lparr>au_mails := m\<rparr>) = token_used hash s"
  "auth_ok (s\<lparr>au_reset_rate := r\<rparr>) = auth_ok s" "session_dead sid (s\<lparr>au_reset_rate := r\<rparr>) = session_dead sid s"
  "token_used hash (s\<lparr>au_reset_rate := r\<rparr>) = token_used hash s"
  "session_dead sid (s\<lparr>au_session_cache := c\<rparr>) = session_dead sid s"
  "token_used hash (s\<lparr>au_session_cache := c\<rparr>) = token_used hash s"
  by (simp_all add: auth_ok_def sessions_keyed_def cache_honest_def tokens_keyed_def session_dead_def token_used_def)

lemma token_used_tokens: "au_tokens s' = au_tokens s \<Longrightarrow> token_used hash s' = token_used hash s"
  by (simp add: token_used_def)

lemma keeps_fresh_session:
  assumes "se_id x \<notin> fst ` set (au_sessions s)"
  shows "keeps sid hash s (put_session x s)"
proof -
  have "session_dead sid s \<Longrightarrow> session_dead sid (put_session x s)" using assms by (auto simp: session_dead_def update_new)
  moreover have "token_used hash (put_session x s) = token_used hash s" by (rule token_used_tokens) simp
  ultimately show ?thesis using ok_put_fresh assms by (simp add: keeps_def)
qed

lemma find_Some_append: "List.find P xs = Some y \<Longrightarrow> List.find P (xs @ ys) = Some y"
  by (induction xs) auto

lemma keeps_fresh_token:
  assumes "rt_id t \<notin> fst ` set (au_tokens s)"
  shows "keeps sid hash s (put_token t s)"
proof -
  have t: "au_tokens (put_token t s) = au_tokens s @ [(rt_id t, t)]" using assms by (simp add: update_new)
  have "auth_ok s \<Longrightarrow> tokens_keyed (put_token t s)"
    using assms unfolding auth_ok_def tokens_keyed_def t by auto
  then have "auth_ok s \<Longrightarrow> auth_ok (put_token t s)" by (simp add: auth_ok_def sessions_keyed_def cache_honest_def)
  moreover have "token_used hash s \<Longrightarrow> token_used hash (put_token t s)"
    unfolding token_used_def t map_append by (elim exE conjE) (intro exI conjI, erule find_Some_append, assumption)
  ultimately show ?thesis by (simp add: keeps_def session_dead_def)
qed

lemma keeps_createSession: "new_id \<notin> fst ` set (au_sessions s) \<Longrightarrow> keeps sid hash s (createSession_row now new_id th u ip ua s)"
  unfolding createSession_row_def by (rule keeps_fresh_session) simp

lemma keeps_accounts: "keeps sid hash (s\<lparr>au_accounts := a\<rparr>) s' \<Longrightarrow> keeps sid hash s s'" "keeps sid hash s (s\<lparr>au_accounts := a\<rparr>)"
  by (simp_all add: keeps_def)

lemma keeps_login:
  assumes "new_id \<notin> fst ` set (au_sessions s)"
  shows "keeps sid hash s (snd (login h now new_id th email password ip ua s))"
proof -
  have "keeps sid hash s (createSession_row now new_id th u ip ua (s\<lparr>au_accounts := a\<rparr>))" for u a
    using assms by (intro keeps_accounts(1) [OF keeps_createSession]) simp
  then show ?thesis by (simp add: login_def Let_def keeps_accounts(2) split: option.split)
qed

lemma keeps_revoke:
  assumes "revokeSession now i uid s = Inr s1"
  shows "keeps sid hash s s1"
proof -
  obtain x where x: "List.find (\<lambda>x. se_id x = i \<and> se_user_id x = uid) (map snd (au_sessions s)) = Some x"
    and s1: "s1 = invalidateSessionCache i uid (put_session (revoke_row now x) s)"
    using assms by (auto simp: revokeSession_def split: option.splits)
  then have f: "x \<in> snd ` set (au_sessions s)" "se_id x = i" "se_user_id x = uid" using find_Some_mem [OF x] by auto
  show ?thesis
    unfolding keeps_def
  proof (intro impI conjI)
    assume ok: "auth_ok s"
    then have d: "distinct (map fst (au_sessions s))" by (simp add: auth_ok_def sessions_keyed_def)
    have "(se_id x, x) \<in> set (au_sessions s)" using ok f(1) by (auto simp: auth_ok_def sessions_keyed_def)
    from ok_revoke_one [OF ok this, of now] show "auth_ok s1" unfolding s1 f(2,3) .
    show "session_dead sid s1" if "session_dead sid s"
      using dead_put [OF that d, of "revoke_row now x"] by (simp add: s1 session_dead_def)
    show "token_used hash s1" if "token_used hash s" using that by (simp add: s1 token_used_def)
  qed
qed

lemma keeps_revoke_all: "keeps sid hash s (revokeAllSessions now uid s)"
  using revokeAllSessions_effect [OF _ refl] by (simp add: keeps_def token_used_def)

lemma keeps_forgot: "new_id \<notin> fst ` set (au_tokens s) \<Longrightarrow> keeps sid hash s (forgotPassword now new_id th email s)"
proof -
  assume f: "new_id \<notin> fst ` set (au_tokens s)"
  have "keeps sid hash s ((put_token t (s\<lparr>au_reset_rate := r\<rparr>))\<lparr>au_mails := m\<rparr>)" if "rt_id t = new_id" for t r m
    using keeps_fresh_token [of t "s\<lparr>au_reset_rate := r\<rparr>" sid hash] f that unfolding keeps_def by (simp del: put_token_fields)
  then show ?thesis by (simp add: forgotPassword_def Let_def split: option.split)
qed

lemma find_update_same:
  assumes "List.find P (map snd xs) = Some y" and "\<forall>(i, x) \<in> set xs. f x = i" and "distinct (map fst xs)" and "P z"
  shows "List.find P (map snd (AList.update (f y) z xs)) = Some z"
  using assms
proof (induction xs)
  case (Cons p xs)
  obtain i x where p: "p = (i, x)" by (cases p)
  show ?case
  proof (cases "P x")
    case True
    with Cons.prems p show ?thesis by simp
  next
    case False
    then have f: "List.find P (map snd xs) = Some y" using Cons.prems(1) p by simp
    then have "y \<in> snd ` set xs" using find_Some_mem [OF f] by simp
    then have "(f y, y) \<in> set xs" using Cons.prems(2) by auto
    then have "f y \<noteq> i" using Cons.prems(3) p by (auto simp: image_iff)
    with Cons False f p show ?thesis by simp
  qed
qed simp

definition used_row :: "int \<Rightarrow> reset_token \<Rightarrow> reset_token" where
  "used_row now t = t\<lparr>rt_status := Rs_used, rt_updated_at := now\<rparr>"

lemma find_used:
  assumes "List.find P (map snd xs) = Some y" and "rt_status y = Rs_used" and "(rt_id t, t) \<in> set xs" and "distinct (map fst xs)"
    and P: "P = (\<lambda>t. rt_token_hash t = hash)"
  shows "\<exists>y. List.find P (map snd (AList.update (rt_id t) (used_row now t) xs)) = Some y \<and> rt_status y = Rs_used"
  using assms(1-4)
proof (induction xs)
  case (Cons p xs)
  obtain i x where p: "p = (i, x)" by (cases p)
  have sp: "P (used_row now t) = P t" by (simp add: P used_row_def)
  show ?case
  proof (cases "i = rt_id t")
    case True
    then have x: "x = t" using Cons.prems(3,4) p by (auto simp: image_iff)
    with True Cons.prems(1,2) p sp show ?thesis by (cases "P t") (auto simp: used_row_def)
  next
    case False
    with Cons p show ?thesis by (cases "P x") auto
  qed
qed simp

lemma resetPassword_Inr:
  assumes "resetPassword h H now token pw s = Inr s1"
  obtains t u a b where
    "List.find (\<lambda>t. rt_token_hash t = H token) (map snd (au_tokens s)) = Some t" "rt_status t = Rs_pending"
    "findUserById (au_accounts s) (rt_user_id t) = Some u"
    "s1 = (revokeAllSessions now (us_id u) (put_token (used_row now t) (s\<lparr>au_accounts := a\<rparr>)))\<lparr>au_accounts := b\<rparr>"
proof -
  obtain t where t: "List.find (\<lambda>t. rt_token_hash t = H token) (map snd (au_tokens s)) = Some t" "rt_status t = Rs_pending"
    using assms by (auto simp: resetPassword_def split: option.splits if_splits)
  moreover obtain u where u: "findUserById (au_accounts s) (rt_user_id t) = Some u"
    using assms t by (auto simp: resetPassword_def split: option.splits if_splits)
  ultimately show thesis using that assms by (simp add: resetPassword_def Let_def used_row_def split: if_splits) blast
qed

lemma keeps_used:
  assumes "auth_ok s" and "t \<in> snd ` set (au_tokens s)"
  shows "auth_ok (put_token (used_row now t) s)" and "token_used hash s \<Longrightarrow> token_used hash (put_token (used_row now t) s)"
proof -
  have d: "distinct (map fst (au_tokens s))" and m: "(rt_id t, t) \<in> set (au_tokens s)"
    using assms by (auto simp: auth_ok_def tokens_keyed_def)
  have i: "rt_id (used_row now t) = rt_id t" by (simp add: used_row_def)
  have "tokens_keyed (put_token (used_row now t) s)"
    using assms(1) d unfolding auth_ok_def tokens_keyed_def by (auto simp: set_update distinct_update i)
  with assms(1) show "auth_ok (put_token (used_row now t) s)" by (simp add: auth_ok_def sessions_keyed_def cache_honest_def)
  assume "token_used hash s"
  then show "token_used hash (put_token (used_row now t) s)"
    unfolding token_used_def put_token_fields i using find_used [OF _ _ m d refl] by blast
qed

lemma reset_keeps:
  assumes "resetPassword h H now token pw s = Inr s1"
  shows "keeps sid hash s s1"
proof (cases "auth_ok s")
  case True
  obtain t a b and u :: user where t: "List.find (\<lambda>t. rt_token_hash t = H token) (map snd (au_tokens s)) = Some t"
    and s1: "s1 = (revokeAllSessions now (us_id u) (put_token (used_row now t) (s\<lparr>au_accounts := a\<rparr>)))\<lparr>au_accounts := b\<rparr>"
    using assms by (rule resetPassword_Inr) blast
  have m: "t \<in> snd ` set (au_tokens (s\<lparr>au_accounts := a\<rparr>))" using find_Some_mem [OF t] by simp
  have "keeps sid hash (s\<lparr>au_accounts := a\<rparr>) (put_token (used_row now t) (s\<lparr>au_accounts := a\<rparr>))"
    using keeps_used [OF _ m] True by (simp add: keeps_def session_dead_def)
  then have "keeps sid hash s (put_token (used_row now t) (s\<lparr>au_accounts := a\<rparr>))" by (rule keeps_accounts)
  then show ?thesis unfolding s1 by (rule keeps_trans [OF _ keeps_trans [OF keeps_revoke_all keeps_accounts(2)]])
qed (simp add: keeps_def)

lemma reset_effect:
  assumes "resetPassword h H now token pw s = Inr s1" and "auth_ok s" and "accounts_ok (au_accounts s)"
    and "List.find (\<lambda>t. rt_token_hash t = H token) (map snd (au_tokens s)) = Some t"
  shows "token_used (H token) s1" and "(sid, x) \<in> set (au_sessions s) \<Longrightarrow> se_user_id x = rt_user_id t \<Longrightarrow> session_dead sid s1"
proof -
  obtain t' u a b where t': "List.find (\<lambda>t. rt_token_hash t = H token) (map snd (au_tokens s)) = Some t'"
    and u: "findUserById (au_accounts s) (rt_user_id t') = Some u"
    and s1: "s1 = (revokeAllSessions now (us_id u) (put_token (used_row now t') (s\<lparr>au_accounts := a\<rparr>)))\<lparr>au_accounts := b\<rparr>"
    using assms(1) by (rule resetPassword_Inr) blast
  have [simp]: "t' = t" using t' assms(4) by simp
  have uid: "us_id u = rt_user_id t" using u findUserById_iff [OF assms(3)] by simp
  let ?s = "put_token (used_row now t) (s\<lparr>au_accounts := a\<rparr>)"
  have "t \<in> snd ` set (au_tokens (s\<lparr>au_accounts := a\<rparr>))" using find_Some_mem [OF assms(4)] by simp
  then have ok: "auth_ok ?s" using keeps_used(1) assms(2) by simp
  note r = revokeAllSessions_effect [OF ok refl, where now = now and uid = "us_id u"]
  have i: "rt_id (used_row now t) = rt_id t" "rt_status (used_row now t) = Rs_used" "rt_token_hash (used_row now t) = rt_token_hash t"
    by (simp_all add: used_row_def)
  have "rt_token_hash t = H token" using find_Some_mem [OF assms(4)] by simp
  then have "List.find (\<lambda>t. rt_token_hash t = H token) (map snd (AList.update (rt_id t) (used_row now t) (au_tokens s))) = Some (used_row now t)"
    using assms(2) i by (intro find_update_same [OF assms(4)]) (simp_all add: auth_ok_def tokens_keyed_def)
  then have "token_used (H token) ?s" by (simp add: token_used_def i)
  then show "token_used (H token) s1" by (simp add: s1 token_used_def r)
  assume x: "(sid, x) \<in> set (au_sessions s)" and "se_user_id x = rt_user_id t"
  then have "sid \<in> fst ` {p \<in> set (au_sessions ?s). se_user_id (snd p) = us_id u}" using uid by (force simp: image_iff)
  moreover have "sid \<in> fst ` set (au_sessions (revokeAllSessions now (us_id u) ?s))"
    unfolding r(4) using x by (force simp: image_iff)
  then obtain y where "(sid, y) \<in> set (au_sessions (revokeAllSessions now (us_id u) ?s))" by auto
  ultimately show "session_dead sid s1" unfolding s1 other_fields session_dead_def using r(6) by fastforce
qed

subsection \<open>Validation of a token\<close>

lemma validateSession_live:
  assumes "sessions_keyed s" and "validateSession now sid uid s"
  shows "\<exists>x. (sid, x) \<in> set (au_sessions s) \<and> se_user_id x = uid \<and> se_revoked_at x = None"
  using assms by (force simp: validateSession_def sessions_keyed_def list_ex_iff)

lemma keeps_session_verdict: "keeps sid hash s (snd (validateSessionCached now i uid s))"
proof -
  have "keeps sid hash s (s\<lparr>au_session_cache := (au_session_cache s)((i, uid) \<mapsto> (validateSession now i uid s, e))\<rparr>)" for e
    unfolding keeps_def
  proof (intro impI conjI)
    assume ok: "auth_ok s"
    let ?s = "s\<lparr>au_session_cache := (au_session_cache s)((i, uid) \<mapsto> (validateSession now i uid s, e))\<rparr>"
    have "cache_honest ?s"
      unfolding cache_honest_def
    proof (intro allI impI)
      fix sid u e' assume c: "au_session_cache ?s (sid, u) = Some (True, e')"
      show "\<exists>x. (sid, x) \<in> set (au_sessions ?s) \<and> se_user_id x = u \<and> se_revoked_at x = None"
      proof (cases "(sid, u) = (i, uid)")
        case True
        then show ?thesis using c ok validateSession_live [of s now i uid] by (simp add: auth_ok_def)
      next
        case False
        then have "au_session_cache s (sid, u) = Some (True, e')" using c by (simp split: if_splits)
        then show ?thesis using ok unfolding auth_ok_def cache_honest_def by simp
      qed
    qed
    then show "auth_ok ?s" using ok by (simp add: auth_ok_def sessions_keyed_def tokens_keyed_def)
  qed simp_all
  then show ?thesis by (simp add: validateSessionCached_def Let_def split: option.split)
qed

lemma keeps_validate: "keeps sid hash s (snd (jwt_validate now p s))"
proof -
  let ?c = "case jw_session_id p of None \<Rightarrow> (True, s)
    | Some i \<Rightarrow> if i = [] then (True, s) else validateSessionCached now i (jw_sub p) s"
  have "keeps sid hash s (snd ?c)" using keeps_session_verdict by (simp split: option.split)
  moreover obtain ok s1 where c: "?c = (ok, s1)" by fastforce
  obtain u a where g: "getUserCached now (jw_sub p) (au_accounts s1) = (u, a)" by fastforce
  have "snd (jwt_validate now p s) \<in> {s1, s1\<lparr>au_accounts := a\<rparr>}"
    unfolding jwt_validate_def Let_def c prod.case g by (cases u) simp_all
  then have "snd (jwt_validate now p s) = snd ?c \<or> (\<exists>a. snd (jwt_validate now p s) = (snd ?c)\<lparr>au_accounts := a\<rparr>)"
    unfolding c snd_conv by blast
  ultimately show ?thesis
  proof (elim disjE exE)
    fix a assume "keeps sid hash s (snd ?c)" "snd (jwt_validate now p s) = (snd ?c)\<lparr>au_accounts := a\<rparr>"
    then show ?thesis by (simp only:) (rule keeps_trans [OF _ keeps_accounts(2)])
  qed simp
qed

lemma dead_session_rejected:
  assumes "auth_ok s" and "session_dead sid s" and "sid \<noteq> []" and "jw_session_id p = Some sid"
  shows "fst (jwt_validate now p s) = Inl (Unauthorized ''Session has been revoked'')"
proof -
  have none: False if "(sid, x) \<in> set (au_sessions s)" "se_revoked_at x = None" for x
  proof -
    obtain y where y: "(sid, y) \<in> set (au_sessions s)" "se_revoked_at y \<noteq> None" using assms(2) by (auto simp: session_dead_def)
    have "distinct (map fst (au_sessions s))" using assms(1) by (simp add: auth_ok_def sessions_keyed_def)
    then have "x = y" using that(1) y(1) by (metis eq_key_imp_eq_value)
    with that y show False by simp
  qed
  have v: "\<not> validateSession now sid (jw_sub p) s"
    using none assms(1) validateSession_live [of s now sid "jw_sub p"] by (auto simp: auth_ok_def)
  have "v = False" if "au_session_cache s (sid, jw_sub p) = Some (v, e)" for v e
  proof (rule ccontr)
    assume "v \<noteq> False"
    with that assms(1) obtain x where "(sid, x) \<in> set (au_sessions s)" "se_revoked_at x = None"
      unfolding auth_ok_def cache_honest_def by auto
    then show False by (rule none)
  qed
  then have "\<not> fst (validateSessionCached now sid (jw_sub p) s)"
    using v by (auto simp: validateSessionCached_def Let_def split: option.split)
  then show ?thesis using assms(3,4) by (simp add: jwt_validate_def Let_def case_prod_beta)
qed

lemma auth_step_keeps: "auth_step h H s s1 \<Longrightarrow> keeps sid hash s s1"
  by (induction rule: auth_step.induct)
    (simp_all add: keeps_login keeps_revoke keeps_revoke_all keeps_forgot reset_keeps keeps_validate keeps_accounts(2)
      keeps_createSession issueSessionForUser_def)

lemma auth_steps_keep: "(auth_step h H)\<^sup>*\<^sup>* s s1 \<Longrightarrow> keeps sid hash s s1"
  by (induction rule: rtranclp_induct) (auto intro: keeps_trans auth_step_keeps)

definition no_auth :: auth_state where
  "no_auth = \<lparr>au_accounts = \<lparr>ac_users = [], ac_user_cache = Map.empty\<rparr>, au_sessions = [], au_tokens = [], au_session_cache = Map.empty,
     au_reset_rate = Map.empty, au_mails = []\<rparr>"

lemma auth_reachable_ok: "(auth_step h H)\<^sup>*\<^sup>* no_auth s \<Longrightarrow> auth_ok s"
  using auth_steps_keep [of h H no_auth s]
  by (simp add: keeps_def no_auth_def auth_ok_def sessions_keyed_def cache_honest_def tokens_keyed_def)

lemma user_row_ok:
  assumes "accounts_ok a" and "findUserById a i = Some u" and "us_id w = us_id u" and "us_email w = us_email u"
  shows "accounts_ok (put_user w a)"
  using assms findUserById_iff [OF assms(1)] by (intro accounts_ok_put_same [OF assms(1)]) auto

lemma login_accounts:
  "au_accounts (snd (login h now new_id th email password ip ua s)) \<in>
     {au_accounts s, snd (recordFailedLogin now (js_lower email) (au_accounts s))} \<union> range (\<lambda>i. recordLogin now i (au_accounts s))"
  by (simp add: login_def Let_def createSession_row_def split: option.split)

lemma getUserCached_accounts_ok: "accounts_ok (snd (getUserCached now i a)) = accounts_ok a"
  by (simp add: getUserCached_def accounts_ok_def users_keyed_def live_users_def split: option.split)

lemma validate_accounts_ok: "accounts_ok (au_accounts (snd (jwt_validate now p s))) = accounts_ok (au_accounts s)"
proof -
  let ?c = "case jw_session_id p of None \<Rightarrow> (True, s)
    | Some i \<Rightarrow> if i = [] then (True, s) else validateSessionCached now i (jw_sub p) s"
  obtain ok s1 where c: "?c = (ok, s1)" by fastforce
  have "au_accounts (snd ?c) = au_accounts s"
    by (simp add: validateSessionCached_def Let_def split: option.split)
  then have s1: "au_accounts s1 = au_accounts s" unfolding c by simp
  obtain u a where g: "getUserCached now (jw_sub p) (au_accounts s1) = (u, a)" by fastforce
  have "accounts_ok a = accounts_ok (au_accounts s)" using getUserCached_accounts_ok [of now "jw_sub p" "au_accounts s1"] g s1 by simp
  then show ?thesis unfolding jwt_validate_def Let_def c prod.case g by (cases u) (simp_all add: s1)
qed

lemma reset_accounts_ok:
  assumes "resetPassword h H now token pw s = Inr s1" and "auth_ok s" and a: "accounts_ok (au_accounts s)"
  shows "accounts_ok (au_accounts s1)"
proof -
  obtain t u where t: "List.find (\<lambda>t. rt_token_hash t = H token) (map snd (au_tokens s)) = Some t" "rt_status t = Rs_pending"
    and u: "findUserById (au_accounts s) (rt_user_id t) = Some u" "\<not> rt_expires_at t < now"
    using assms(1) by (auto simp: resetPassword_def split: option.splits if_splits)
  let ?w = "u\<lparr>us_password_hash := Some (hs_hash h pw), us_password_changed_at := Some now, us_updated_at := now\<rparr>"
  let ?s = "put_token (used_row now t) (s\<lparr>au_accounts := put_user ?w (au_accounts s)\<rparr>)"
  have "t \<in> snd ` set (au_tokens (s\<lparr>au_accounts := put_user ?w (au_accounts s)\<rparr>))" using find_Some_mem [OF t(1)] by simp
  then have ok: "auth_ok ?s" using keeps_used(1) assms(2) by simp
  have "au_accounts s1 = invalidateUserCache (us_id u) (au_accounts (revokeAllSessions now (us_id u) ?s))"
    using assms(1) t u by (auto simp: resetPassword_def Let_def used_row_def)
  also have "au_accounts (revokeAllSessions now (us_id u) ?s) = put_user ?w (au_accounts s)"
    unfolding revokeAllSessions_effect(3) [OF ok refl] by simp
  finally show ?thesis using user_row_ok [OF a u(1), of ?w] by simp
qed

lemma auth_step_accounts: "auth_step h H s s1 \<Longrightarrow> auth_ok s \<Longrightarrow> accounts_ok (au_accounts s) \<Longrightarrow> accounts_ok (au_accounts s1)"
proof (induction rule: auth_step.induct)
  case (login new_id s now token_hash email password ip ua)
  have "accounts_ok (recordLogin now i (au_accounts s))" for i
    by (rule accounts_step_keeps [OF accounts_step.login [of h] login(3)])
  moreover have "accounts_ok (snd (recordFailedLogin now (js_lower email) (au_accounts s)))"
    by (rule accounts_step_keeps [OF accounts_step.failed [of h] login(3)])
  ultimately show ?case
    using login_accounts [of h now new_id token_hash email password ip ua s] login(3) by auto
next
  case (revoke now sessionId userId s s1)
  then show ?case by (auto simp: revokeSession_def split: option.splits)
next
  case (forgot new_id s now th email)
  then show ?case by (simp add: forgotPassword_def Let_def split: option.split)
next
  case (reset now token newPassword s s1)
  show ?case by (rule reset_accounts_ok [OF reset])
next
  case (accounts s a)
  then show ?case using accounts_step_keeps [of h "au_accounts s" a] by simp
next
  case (revoke_all s now userId)
  then show ?case using revokeAllSessions_effect(3) [OF _ refl, of s now userId] by simp
next
  case (issue new_id s now token_hash userId email ip ua)
  then show ?case by (simp add: issueSessionForUser_def createSession_row_def)
next
  case (validate s now p)
  then show ?case by (simp add: validate_accounts_ok)
qed

lemma auth_reachable_accounts: "(auth_step h H)\<^sup>*\<^sup>* no_auth s \<Longrightarrow> accounts_ok (au_accounts s)"
proof (induction rule: rtranclp_induct)
  case base
  then show ?case by (simp add: no_auth_def accounts_ok_def users_keyed_def live_users_def)
next
  case (step s t)
  then show ?case using auth_step_accounts auth_reachable_ok by blast
qed


definition plain :: hashing where
  "plain = \<lparr>hs_hash = id, hs_verify = (=)\<rparr>"

definition demo_user :: user where
  "demo_user = \<lparr>us_id = ''u'', us_email = ''a'', us_password_hash = Some ''x'', us_name = ''A'', us_status = U_active,
     us_is_super_admin = False, us_last_login_at = None, us_failed_login_attempts = 0, us_locked_until = None,
     us_password_changed_at = Some 0, us_deleted_at = None, us_deleted_by = None, us_created_at = 0, us_updated_at = 0\<rparr>"

definition demo1 :: auth_state where
  "demo1 = no_auth\<lparr>au_accounts := put_user demo_user (au_accounts no_auth)\<rparr>"

definition demo2 :: auth_state where
  "demo2 = snd (issueSessionForUser 1 ''s'' ''h'' ''u'' ''a'' None None demo1)"

definition demo3 :: auth_state where
  "demo3 = forgotPassword 2 ''t'' (''tok'', ''tok'') ''a'' demo2"

lemmas demo_simps = demo3_def demo2_def demo1_def no_auth_def demo_user_def plain_def forgotPassword_def issueSessionForUser_def
  createSession_row_def findByEmail_def live_users_def isLocked_def put_user_def reset_rate_def put_token_def put_session_def
  js_lower_def js_lower_char_def hour_ms_def day_ms_def Let_def

lemma demo3_reachable: "(auth_step plain id)\<^sup>*\<^sup>* no_auth demo3"
proof -
  have "create_user plain 0 ''u'' ''a'' ''A'' ''x'' (au_accounts no_auth) = Inr (demo_user, au_accounts demo1)"
    by (simp add: create_user_def demo_simps)
  then have "accounts_step plain (au_accounts no_auth) (au_accounts demo1)"
    by (rule accounts_step.create) (simp add: no_auth_def)
  then have "auth_step plain id no_auth demo1"
    unfolding demo1_def by (metis auth_step.accounts auth_state.select_convs(1) auth_state.surjective auth_state.update_convs(1))
  moreover have "auth_step plain id demo1 demo2"
    unfolding demo2_def by (rule auth_step.issue) (simp add: demo_simps)
  moreover have "auth_step plain id demo2 demo3"
    unfolding demo3_def by (rule auth_step.forgot) (simp add: demo_simps)
  ultimately show ?thesis by (meson converse_rtranclp_into_rtranclp rtranclp.rtrancl_refl)
qed


end
