(* ===== verification/Tenancy.thy ===== *)
theory Tenancy
  imports Auth_Sessions Default_Filters Ingest
begin

section \<open>The shared tables of the system database\<close>

text \<open>
  Rows of \<^verbatim>\<open>api/src/common/entities/\<close> and of the workspaces and backfill tasks, and the state that the services for
  members, invitations, workspaces and API keys share. Memberships and invitations are the tables as a
  query with \<open>FINAL\<close> shows them, keyed by their sorting keys; workspaces and API keys are kept as the versions
  inserted, because their services insert further versions and choose among them when they read. An instant is a number
  of milliseconds, the fixed-width texts that stand for it being compared and parsed as such.
\<close>

(* src: api/src/common/entities/invitation.entity.ts:3-3 InvitationStatus *)
datatype invitation_status = I_pending | I_accepted | I_expired | I_revoked

(* src: api/src/common/entities/invitation.entity.ts:5-19 Invitation *)
record invitation =
  in_id :: string
  in_workspace_id :: string
  in_email :: string
  in_role :: role
  in_token_hash :: string
  in_invited_by :: string
  in_status :: invitation_status
  in_expires_at :: int
  in_accepted_at :: "int option"
  in_revoked_at :: "int option"
  in_revoked_by :: "string option"
  in_created_at :: int
  in_updated_at :: int

(* src: api/src/common/entities/api-key.entity.ts:1-1 ApiKeyStatus *)
datatype key_status = K_active | K_revoked | K_expired

(* src: api/src/common/entities/api-key.entity.ts:9-28 ApiKey *)
record api_key =
  ak_id :: string
  ak_key_hash :: string
  ak_key_prefix :: string
  ak_user_id :: string
  ak_workspace_id :: "string option"
  ak_name :: string
  ak_description :: string
  ak_role :: role
  ak_status :: key_status
  ak_expires_at :: "int option"
  ak_last_used_at :: "int option"
  ak_failed_attempts_count :: nat
  ak_last_failed_attempt_at :: "int option"
  ak_created_by :: string
  ak_revoked_by :: "string option"
  ak_revoked_at :: "int option"
  ak_created_at :: int
  ak_updated_at :: int

(* src: api/src/filters/backfill/backfill-task.entity.ts:1-6 BackfillTaskStatus *)
datatype task_status = T_pending | T_running | T_completed | T_failed | T_cancelled

(* src: api/src/filters/backfill/backfill-task.entity.ts:8-27 BackfillTask *)
record backfill_task =
  bt_id :: string
  bt_workspace_id :: string
  bt_status :: task_status
  bt_lookback_days :: int
  bt_chunk_size_days :: int
  bt_batch_size :: int
  bt_total_sessions :: int
  bt_processed_sessions :: int
  bt_total_events :: int
  bt_processed_events :: int
  bt_current_date_chunk :: "string option"
  bt_created_at :: int
  bt_updated_at :: int
  bt_started_at :: "int option"
  bt_completed_at :: "int option"
  bt_error_message :: "string option"
  bt_retry_count :: int
  bt_filters_snapshot :: "filter_definition list"

text \<open>
  The settings with a type of their own are the filters and the allowed domains; the others are an object. A field
  of a settings object given by a caller may be present and undefined.
\<close>

record ws_settings =
  st_filters :: "filter_definition list option"
  st_allowed_domains :: "string list option"
  st_integrations :: "jsval option"
  st_others :: jsobject

(* src: api/src/workspaces/entities/workspace.entity.ts:337-349 Workspace *)
record ws_row =
  wr_id :: string
  wr_name :: string
  wr_website :: string
  wr_timezone :: string
  wr_currency :: string
  wr_logo_url :: "string option"
  wr_status :: workspace_status
  wr_created_at :: int
  wr_updated_at :: int
  wr_settings :: ws_settings

datatype mail =
    Invitation_mail string string string role string
  | Welcome_mail string string string role

record tenancy =
  tn_auth :: auth_state
  tn_members :: "((string \<times> string) \<times> membership) list"
  tn_invitations :: "(string \<times> invitation) list"
  tn_workspaces :: "ws_row list"
  tn_databases :: "string list"
  tn_api_keys :: "api_key list"
  tn_backfills :: "(string \<times> backfill_task) list"
  tn_mails :: "mail list"
  tn_settings_changed :: "string list"

text \<open>\<open>ORDER BY updated_at DESC LIMIT 1\<close>: the first row of the latest version.\<close>

definition newest :: "('a \<Rightarrow> int) \<Rightarrow> 'a list \<Rightarrow> 'a option" where
  "newest key xs = (case sort_desc key xs of [] \<Rightarrow> None | x # _ \<Rightarrow> Some x)"

lemma newest_mem: "newest key xs = Some x \<Longrightarrow> x \<in> set xs \<and> (\<forall>y \<in> set xs. key y \<le> key x)"
proof -
  assume n: "newest key xs = Some x"
  then obtain ys where ys: "sort_desc key xs = x # ys" by (auto simp: newest_def split: list.splits)
  have "sorted_wrt (\<lambda>x y. key y \<le> key x) (x # ys)" using sort_desc_sorted [of key xs] ys by simp
  moreover have "set xs = set (x # ys)" using set_sort_desc [of key xs] ys by simp
  ultimately show ?thesis by auto
qed

lemma newest_None [simp]: "newest key xs = None \<longleftrightarrow> xs = []"
proof -
  have "sort_desc key xs = [] \<longleftrightarrow> xs = []" using length_sort_desc [of key xs] by (metis length_0_conv)
  then show ?thesis by (auto simp: newest_def split: list.splits)
qed

lemma newest_Nil [simp]: "newest key [] = None"
  by simp

lemma newest_unique:
  assumes "x \<in> set xs" and "\<And>y. y \<in> set xs \<Longrightarrow> y \<noteq> x \<Longrightarrow> key y < key x"
  shows "newest key xs = Some x"
proof (cases "newest key xs")
  case None
  then show ?thesis using assms(1) by simp
next
  case (Some z)
  then show ?thesis using newest_mem [OF Some] assms by force
qed

text \<open>The membership a request is authorised by.\<close>

(* src: api/src/members/members.service.ts:63-76 getMembership *)
definition getMembership :: "tenancy \<Rightarrow> string \<Rightarrow> string \<Rightarrow> membership option" where
  "getMembership t workspaceId userId = map_of (tn_members t) (workspaceId, userId)"

definition put_member :: "membership \<Rightarrow> tenancy \<Rightarrow> tenancy" where
  "put_member m t = t\<lparr>tn_members := AList.update (mb_workspace_id m, mb_user_id m) m (tn_members t)\<rparr>"

text \<open>\<open>ALTER TABLE workspace_memberships DELETE WHERE id = ...\<close>\<close>

definition delete_member :: "string \<Rightarrow> tenancy \<Rightarrow> tenancy" where
  "delete_member i t = t\<lparr>tn_members := filter (\<lambda>(k, m). mb_id m \<noteq> i) (tn_members t)\<rparr>"

definition put_invitation :: "invitation \<Rightarrow> tenancy \<Rightarrow> tenancy" where
  "put_invitation i t = t\<lparr>tn_invitations := AList.update (in_id i) i (tn_invitations t)\<rparr>"

definition user_by_id :: "tenancy \<Rightarrow> string \<Rightarrow> user option" where
  "user_by_id t i = findUserById (au_accounts (tn_auth t)) i"

text \<open>Rows stand under their own keys, and an identifier names one membership only.\<close>

definition members_keyed :: "tenancy \<Rightarrow> bool" where
  "members_keyed t \<longleftrightarrow> distinct (map fst (tn_members t)) \<and>
     (\<forall>(k, m) \<in> set (tn_members t). k = (mb_workspace_id m, mb_user_id m)) \<and>
     (\<forall>(k, m) \<in> set (tn_members t). \<forall>(k', m') \<in> set (tn_members t). mb_id m = mb_id m' \<longrightarrow> m = m')"

definition owners :: "string \<Rightarrow> tenancy \<Rightarrow> membership list" where
  "owners ws t = filter (\<lambda>m. mb_workspace_id m = ws \<and> mb_role m = R_owner) (map snd (tn_members t))"

lemma getMembership_mem:
  assumes "members_keyed t"
  shows "getMembership t ws u = Some m \<longleftrightarrow> m \<in> snd ` set (tn_members t) \<and> mb_workspace_id m = ws \<and> mb_user_id m = u"
proof -
  have "map_of (tn_members t) (ws, u) = Some m \<longleftrightarrow> ((ws, u), m) \<in> set (tn_members t)"
    using assms by (auto simp: members_keyed_def)
  then show ?thesis using assms by (force simp: getMembership_def members_keyed_def)
qed

lemma keyed_row: "members_keyed t \<Longrightarrow> m \<in> snd ` set (tn_members t) \<longleftrightarrow> ((mb_workspace_id m, mb_user_id m), m) \<in> set (tn_members t)"
  by (force simp: members_keyed_def)

lemma owners_mem: "m \<in> set (owners ws t) \<longleftrightarrow> m \<in> snd ` set (tn_members t) \<and> mb_workspace_id m = ws \<and> mb_role m = R_owner"
  by (auto simp: owners_def)

lemma set_put_member:
  assumes "members_keyed t"
  shows "snd ` set (tn_members (put_member m t)) =
     insert m {x \<in> snd ` set (tn_members t). (mb_workspace_id x, mb_user_id x) \<noteq> (mb_workspace_id m, mb_user_id m)}"
proof -
  have "set (tn_members (put_member m t)) =
      insert ((mb_workspace_id m, mb_user_id m), m) {p \<in> set (tn_members t). fst p \<noteq> (mb_workspace_id m, mb_user_id m)}"
    using assms by (simp add: put_member_def set_update members_keyed_def)
  then show ?thesis using assms by (force simp: members_keyed_def image_iff)
qed

lemma set_delete_member: "snd ` set (tn_members (delete_member i t)) = {x \<in> snd ` set (tn_members t). mb_id x \<noteq> i}"
  by (force simp: delete_member_def)

lemma keyed_put_member:
  assumes "members_keyed t" and "\<And>x. x \<in> snd ` set (tn_members t) \<Longrightarrow> mb_id x = mb_id m \<Longrightarrow> mb_workspace_id x = mb_workspace_id m \<and> mb_user_id x = mb_user_id m"
  shows "members_keyed (put_member m t)"
proof -
  have u: "set (tn_members (put_member m t)) =
      insert ((mb_workspace_id m, mb_user_id m), m) {p \<in> set (tn_members t). fst p \<noteq> (mb_workspace_id m, mb_user_id m)}"
    using assms(1) by (simp add: put_member_def set_update members_keyed_def)
  have d: "distinct (map fst (tn_members (put_member m t)))" using assms(1) by (simp add: put_member_def distinct_update members_keyed_def)
  have other: False if "(k, x) \<in> set (tn_members t)" "k \<noteq> (mb_workspace_id m, mb_user_id m)" "mb_id x = mb_id m" for k x
  proof -
    have "x \<in> snd ` set (tn_members t)" "k = (mb_workspace_id x, mb_user_id x)"
      using that(1) assms(1) by (force simp: members_keyed_def)+
    then show False using assms(2) [of x] that by simp
  qed
  have ids: "m1 = m2" if "(k, m1) \<in> set (tn_members t)" "(k', m2) \<in> set (tn_members t)" "mb_id m1 = mb_id m2" for k k' m1 m2
    using assms(1) that unfolding members_keyed_def by blast
  have "\<forall>(k, x) \<in> set (tn_members (put_member m t)). \<forall>(k', y) \<in> set (tn_members (put_member m t)). mb_id x = mb_id y \<longrightarrow> x = y"
    unfolding u using other ids by fastforce
  moreover have "\<forall>(k, x) \<in> set (tn_members (put_member m t)). k = (mb_workspace_id x, mb_user_id x)"
    unfolding u using assms(1) by (auto simp: members_keyed_def)
  ultimately show ?thesis using d by (simp add: members_keyed_def)
qed

lemma keyed_delete_member: "members_keyed t \<Longrightarrow> members_keyed (delete_member i t)"
  unfolding members_keyed_def delete_member_def by (auto simp: distinct_map_filter)

end
