(* ===== verification/Members.thy ===== *)
theory Members
  imports Tenancy
begin

section \<open>Members of a workspace\<close>

text \<open>
  \<^verbatim>\<open>api/src/members/members.service.ts\<close>. An operation answers with an error or a value and the state it leaves,
  since some write before they fail. The audit log is left out.
\<close>

type_synonym 'a reply = "(http_error + 'a) \<times> tenancy"

(* src: api/src/common/entities/membership.entity.ts:14-21 MemberWithUser *)
record member_with_user =
  mu_membership :: membership
  mu_id :: string
  mu_email :: string
  mu_name :: string
  mu_status :: user_status

definition with_user :: "membership \<Rightarrow> user \<Rightarrow> member_with_user" where
  "with_user m u = \<lparr>mu_membership = m, mu_id = us_id u, mu_email = us_email u, mu_name = us_name u, mu_status = us_status u\<rparr>"

(* src: api/src/members/members.service.ts:82-109 list *)
definition list_members :: "tenancy \<Rightarrow> string \<Rightarrow> member_with_user list" where
  "list_members t ws =
     List.map_filter (\<lambda>m. map_option (with_user m) (user_by_id t (mb_user_id m)))
       (sort_key mb_created_at (filter (\<lambda>m. mb_workspace_id m = ws) (map snd (tn_members t))))"

(* src: api/src/members/members.service.ts:115-135 get *)
definition get_member :: "tenancy \<Rightarrow> string \<Rightarrow> string \<Rightarrow> http_error + member_with_user" where
  "get_member t ws userId =
     (case getMembership t ws userId of
        None \<Rightarrow> Inl (Not_found ''Member not found'')
      | Some m \<Rightarrow>
          (case user_by_id t userId of
             None \<Rightarrow> Inl (Not_found ''User not found'')
           | Some u \<Rightarrow> Inr (with_user m u)))"

(* src: api/src/members/members.service.ts:143-223 updateRole *)
definition updateRole :: "int \<Rightarrow> string \<Rightarrow> string \<Rightarrow> role \<Rightarrow> membership \<Rightarrow> tenancy \<Rightarrow> member_with_user reply" where
  "updateRole now ws userId r actor t =
     (case getMembership t ws userId of
        None \<Rightarrow> (Inl (Not_found ''Member not found''), t)
      | Some target \<Rightarrow>
          if mb_user_id actor = userId then (Inl (Bad_request ''Cannot modify your own role''), t)
          else if \<not> canModifyMember (mb_role actor) (mb_role target)
          then (Inl (Forbidden ''Cannot modify a member with equal or higher role''), t)
          else if r = R_owner \<and> mb_role actor \<noteq> R_owner
          then (Inl (Forbidden ''Only owners can promote members to owner''), t)
          else if ROLE_HIERARCHY (mb_role actor) < ROLE_HIERARCHY r \<or>
                  (r \<noteq> R_owner \<and> ROLE_HIERARCHY (mb_role actor) \<le> ROLE_HIERARCHY r)
          then (Inl (Forbidden ''Cannot promote a member to your role or higher''), t)
          else
            (let updated = target\<lparr>mb_role := r, mb_updated_at := now\<rparr>; t1 = put_member updated t
             in case user_by_id t1 userId of
                  None \<Rightarrow> (Inl (Not_found ''User not found''), t1)
                | Some u \<Rightarrow> (Inr (with_user updated u), t1)))"

(* src: api/src/members/members.service.ts:439-448 countOwners *)
definition countOwners :: "tenancy \<Rightarrow> string \<Rightarrow> nat" where
  "countOwners t ws = length (owners ws t)"

(* src: api/src/members/members.service.ts:231-297 remove *)
definition remove_member :: "int \<Rightarrow> string \<Rightarrow> string \<Rightarrow> membership \<Rightarrow> tenancy \<Rightarrow> unit reply" where
  "remove_member now ws userId actor t =
     (case getMembership t ws userId of
        None \<Rightarrow> (Inl (Not_found ''Member not found''), t)
      | Some target \<Rightarrow>
          if mb_user_id actor = userId then (Inl (Bad_request ''Cannot remove yourself. Use the leave endpoint instead''), t)
          else if mb_role target = R_owner \<and> mb_role actor \<noteq> R_owner
          then (Inl (Forbidden ''Only owners can remove other owners''), t)
          else if mb_role target = R_owner \<and> countOwners t ws \<le> 1
          then (Inl (Forbidden ''Cannot remove the last owner. Transfer ownership first''), t)
          else if mb_role target \<noteq> R_owner \<and> \<not> canModifyMember (mb_role actor) (mb_role target)
          then (Inl (Forbidden ''Cannot remove a member with equal or higher role''), t)
          else
            (let t1 = delete_member (mb_id target) t
             in (Inr (), t1\<lparr>tn_auth := revokeAllSessions now userId (tn_auth t1)\<rparr>)))"

text \<open>
  Leaving checks first and deletes afterwards, with a request to the database in between.
\<close>

(* src: api/src/members/members.service.ts:305-318 leave *)
definition leave_check :: "string \<Rightarrow> string \<Rightarrow> tenancy \<Rightarrow> http_error + membership" where
  "leave_check ws userId t =
     (case getMembership t ws userId of
        None \<Rightarrow> Inl (Not_found ''Not a member of this workspace'')
      | Some m \<Rightarrow>
          if mb_role m = R_owner \<and> countOwners t ws \<le> 1
          then Inl (Bad_request ''Cannot leave as the last owner. Transfer ownership first'')
          else Inr m)"

(* src: api/src/members/members.service.ts:320-323 leave *)
definition leave_delete :: "membership \<Rightarrow> tenancy \<Rightarrow> tenancy" where
  "leave_delete m t = delete_member (mb_id m) t"

(* src: api/src/members/members.service.ts:303-336 leave *)
definition leave :: "string \<Rightarrow> string \<Rightarrow> tenancy \<Rightarrow> unit reply" where
  "leave ws userId t =
     (case leave_check ws userId t of Inl e \<Rightarrow> (Inl e, t) | Inr m \<Rightarrow> (Inr (), leave_delete m t))"

(* src: api/src/members/members.service.ts:341-434 transferOwnership *)
definition transferOwnership ::
    "int \<Rightarrow> string \<Rightarrow> string \<Rightarrow> string \<Rightarrow> tenancy \<Rightarrow> (member_with_user \<times> member_with_user) reply" where
  "transferOwnership now ws newOwnerId actorId t =
     (case getMembership t ws actorId of
        None \<Rightarrow> (Inl (Forbidden ''Not a member of this workspace''), t)
      | Some actor \<Rightarrow>
          if mb_role actor \<noteq> R_owner then (Inl (Forbidden ''Only owners can transfer ownership''), t)
          else if actorId = newOwnerId then (Inl (Bad_request ''Cannot transfer ownership to yourself''), t)
          else
            (case getMembership t ws newOwnerId of
               None \<Rightarrow> (Inl (Not_found ''New owner is not a member of this workspace''), t)
             | Some newOwner \<Rightarrow>
                 let demoted = actor\<lparr>mb_role := R_admin, mb_updated_at := now\<rparr>;
                     promoted = newOwner\<lparr>mb_role := R_owner, mb_updated_at := now\<rparr>;
                     t1 = put_member promoted (put_member demoted t)
                 in case (user_by_id t1 actorId, user_by_id t1 newOwnerId) of
                      (Some u, Some v) \<Rightarrow> (Inr (with_user demoted u, with_user promoted v), t1)
                    | _ \<Rightarrow> (Inl (Not_found ''User not found''), t1)))"

subsection \<open>Every workspace keeps an owner\<close>

lemma put_member_tables [simp]:
  "tn_auth (put_member m t) = tn_auth t" "user_by_id (put_member m t) = user_by_id t"
  by (simp_all add: put_member_def user_by_id_def fun_eq_iff)

lemma keyed_auth [simp]: "members_keyed (t\<lparr>tn_auth := a\<rparr>) = members_keyed t" "owners ws (t\<lparr>tn_auth := a\<rparr>) = owners ws t"
  by (simp_all add: members_keyed_def owners_def)

lemma keyed_same_id: "members_keyed t \<Longrightarrow> x \<in> snd ` set (tn_members t) \<Longrightarrow> y \<in> snd ` set (tn_members t) \<Longrightarrow> mb_id x = mb_id y \<Longrightarrow> x = y"
  unfolding members_keyed_def by fastforce

lemma keyed_reput:
  assumes "members_keyed t" and "m \<in> snd ` set (tn_members t)"
    and "mb_id w = mb_id m" "mb_workspace_id w = mb_workspace_id m" "mb_user_id w = mb_user_id m"
  shows "members_keyed (put_member w t)"
proof (rule keyed_put_member [OF assms(1)])
  fix x assume "x \<in> snd ` set (tn_members t)" "mb_id x = mb_id w"
  then have "x = m" using assms(3) by (intro keyed_same_id [OF assms(1) _ assms(2)]) simp_all
  then show "mb_workspace_id x = mb_workspace_id w \<and> mb_user_id x = mb_user_id w" using assms(4,5) by simp
qed

lemma owners_put:
  assumes "members_keyed t"
  shows "m \<in> set (owners ws (put_member w t)) \<longleftrightarrow>
     (if (mb_workspace_id m, mb_user_id m) = (mb_workspace_id w, mb_user_id w) then m = w \<and> mb_workspace_id w = ws \<and> mb_role w = R_owner
      else m \<in> set (owners ws t))"
  by (auto simp: owners_mem set_put_member [OF assms])

lemma owners_delete: "m \<in> set (owners ws (delete_member i t)) \<longleftrightarrow> m \<in> set (owners ws t) \<and> mb_id m \<noteq> i"
  by (auto simp: owners_mem set_delete_member)

lemma owners_distinct: "members_keyed t \<Longrightarrow> distinct (owners ws t)"
proof -
  assume k: "members_keyed t"
  have "inj_on snd (set (tn_members t))"
  proof (rule inj_onI)
    fix p q assume p: "p \<in> set (tn_members t)" and q: "q \<in> set (tn_members t)" and e: "snd p = snd q"
    have "fst p = (mb_workspace_id (snd p), mb_user_id (snd p))" "fst q = (mb_workspace_id (snd q), mb_user_id (snd q))"
      using k p q by (auto simp: members_keyed_def)
    with e show "p = q" by (simp add: prod_eq_iff)
  qed
  then have "distinct (map snd (tn_members t))" using k by (auto simp: distinct_map members_keyed_def)
  then show ?thesis by (simp add: owners_def)
qed

text \<open>Deleting one of two owners leaves the other.\<close>

lemma owner_left:
  assumes "members_keyed t" and "2 \<le> length (owners ws t)" and "m \<in> snd ` set (tn_members t)"
  shows "owners ws (delete_member (mb_id m) t) \<noteq> []"
proof -
  have "\<exists>x \<in> set (owners ws t). x \<noteq> m"
  proof (rule ccontr)
    assume "\<not> ?thesis"
    then have "set (owners ws t) \<subseteq> {m}" by blast
    then have "length (owners ws t) \<le> 1"
      using owners_distinct [OF assms(1)] card_mono [of "{m}" "set (owners ws t)"] by (simp add: distinct_card)
    with assms(2) show False by simp
  qed
  then obtain x where x: "x \<in> set (owners ws t)" "x \<noteq> m" by blast
  then have "mb_id x \<noteq> mb_id m" using keyed_same_id [OF assms(1)] assms(3) by (auto simp: owners_mem)
  then have "x \<in> set (owners ws (delete_member (mb_id m) t))" using x by (simp add: owners_delete)
  then show ?thesis by auto
qed

lemma owner_kept:
  assumes "members_keyed t" and "m \<in> snd ` set (tn_members t)" and "mb_role m \<noteq> R_owner \<or> mb_workspace_id m \<noteq> ws" and "owners ws t \<noteq> []"
  shows "owners ws (delete_member (mb_id m) t) \<noteq> []"
proof -
  obtain x where x: "x \<in> set (owners ws t)" using assms(4) by (cases "owners ws t") auto
  then have "x \<noteq> m" using assms(3) by (auto simp: owners_mem)
  then have "mb_id x \<noteq> mb_id m" using keyed_same_id [OF assms(1) _ assms(2)] x by (auto simp: owners_mem)
  then have "x \<in> set (owners ws (delete_member (mb_id m) t))" using x by (simp add: owners_delete)
  then show ?thesis by auto
qed

inductive members_step :: "tenancy \<Rightarrow> tenancy \<Rightarrow> bool" where
  update: "members_step t (snd (updateRole now ws userId r actor t))"
| remove: "members_step t (snd (remove_member now ws userId actor t))"
| leave: "members_step t (snd (leave ws userId t))"
| transfer: "members_step t (snd (transferOwnership now ws newOwnerId actorId t))"

lemma keyed_key:
  assumes "members_keyed t" and "x \<in> snd ` set (tn_members t)" and "y \<in> snd ` set (tn_members t)"
    and "mb_workspace_id x = mb_workspace_id y" and "mb_user_id x = mb_user_id y"
  shows "x = y"
  using getMembership_mem [OF assms(1), of "mb_workspace_id y" "mb_user_id y"] assms(2-5) by (metis option.inject)

lemma owner_after_put:
  assumes "members_keyed t" and "m \<in> snd ` set (tn_members t)" and "mb_role m \<noteq> R_owner"
    and "mb_workspace_id w = mb_workspace_id m" "mb_user_id w = mb_user_id m" and "x \<in> set (owners ws t)"
  shows "x \<in> set (owners ws (put_member w t))"
proof -
  have "(mb_workspace_id x, mb_user_id x) \<noteq> (mb_workspace_id w, mb_user_id w)"
    using keyed_key [OF assms(1) _ assms(2), of x] assms(3-6) by (auto simp: owners_mem)
  with assms(6) show ?thesis unfolding owners_put [OF assms(1)] by (simp only: if_False)
qed

lemma updateRole_state:
  obtains "snd (updateRole now ws userId r actor t) = t"
  | m where "getMembership t ws userId = Some m" "mb_role m < mb_role actor" "r \<le> mb_role actor"
      "r = mb_role actor \<Longrightarrow> r = R_owner" "mb_user_id actor \<noteq> userId"
      "snd (updateRole now ws userId r actor t) = put_member (m\<lparr>mb_role := r, mb_updated_at := now\<rparr>) t"
proof (cases "snd (updateRole now ws userId r actor t) = t")
  case False
  then obtain m where m: "getMembership t ws userId = Some m" by (cases "getMembership t ws userId") (auto simp: updateRole_def)
  have h: "mb_user_id actor \<noteq> userId" "canModifyMember (mb_role actor) (mb_role m)" "\<not> (r = R_owner \<and> mb_role actor \<noteq> R_owner)"
    "\<not> (ROLE_HIERARCHY (mb_role actor) < ROLE_HIERARCHY r \<or> (r \<noteq> R_owner \<and> ROLE_HIERARCHY (mb_role actor) \<le> ROLE_HIERARCHY r))"
    using False m by (auto simp: updateRole_def split: if_splits)
  have "snd (updateRole now ws userId r actor t) = put_member (m\<lparr>mb_role := r, mb_updated_at := now\<rparr>) t"
    unfolding updateRole_def m option.case if_not_P [OF h(1)] if_not_P [OF h(3)] if_not_P [OF h(4)] Let_def
    using h(2) by (simp split: option.split)
  with h m show thesis
    by (intro that(2)) (auto simp: canModifyMember_less less_eq_role_def)
qed (rule that(1))

lemma remove_state:
  obtains "snd (remove_member now ws userId actor t) = t"
  | m a where "getMembership t ws userId = Some m" "mb_role m = R_owner \<Longrightarrow> 2 \<le> length (owners ws t)"
      "snd (remove_member now ws userId actor t) = (delete_member (mb_id m) t)\<lparr>tn_auth := a\<rparr>"
proof (cases "snd (remove_member now ws userId actor t) = t")
  case False
  then obtain m where m: "getMembership t ws userId = Some m" by (cases "getMembership t ws userId") (auto simp: remove_member_def)
  have h: "mb_user_id actor \<noteq> userId" "\<not> (mb_role m = R_owner \<and> mb_role actor \<noteq> R_owner)"
    "\<not> (mb_role m = R_owner \<and> countOwners t ws \<le> 1)" "\<not> (mb_role m \<noteq> R_owner \<and> \<not> canModifyMember (mb_role actor) (mb_role m))"
    using False m by (auto simp: remove_member_def split: if_splits)
  have "snd (remove_member now ws userId actor t) =
      (delete_member (mb_id m) t)\<lparr>tn_auth := revokeAllSessions now userId (tn_auth (delete_member (mb_id m) t))\<rparr>"
    unfolding remove_member_def m option.case if_not_P [OF h(1)] if_not_P [OF h(2)] if_not_P [OF h(3)] if_not_P [OF h(4)] Let_def
    by simp
  with h m show thesis by (intro that(2)) (auto simp: countOwners_def)
qed (rule that(1))

lemma leave_state:
  obtains "snd (leave ws userId t) = t"
  | m where "getMembership t ws userId = Some m" "mb_role m = R_owner \<Longrightarrow> 2 \<le> length (owners ws t)"
      "snd (leave ws userId t) = delete_member (mb_id m) t"
proof (cases "getMembership t ws userId")
  case None
  then show thesis using that(1) by (simp add: leave_def leave_check_def)
next
  case (Some m)
  then show thesis
  proof (cases "mb_role m = R_owner \<and> countOwners t ws \<le> 1")
    case True
    with Some show thesis using that(1) by (simp add: leave_def leave_check_def)
  next
    case False
    with Some show thesis by (intro that(2)) (auto simp: leave_def leave_check_def leave_delete_def countOwners_def)
  qed
qed

lemma transfer_state:
  obtains "snd (transferOwnership now ws newOwnerId actorId t) = t"
  | m n where "getMembership t ws actorId = Some m" "getMembership t ws newOwnerId = Some n" "actorId \<noteq> newOwnerId" "mb_role m = R_owner"
      "snd (transferOwnership now ws newOwnerId actorId t) =
         put_member (n\<lparr>mb_role := R_owner, mb_updated_at := now\<rparr>) (put_member (m\<lparr>mb_role := R_admin, mb_updated_at := now\<rparr>) t)"
proof (cases "snd (transferOwnership now ws newOwnerId actorId t) = t")
  case False
  then obtain m where m: "getMembership t ws actorId = Some m"
    by (cases "getMembership t ws actorId") (auto simp: transferOwnership_def)
  moreover have h: "mb_role m = R_owner" "actorId \<noteq> newOwnerId"
    using False m by (auto simp: transferOwnership_def split: if_splits)
  moreover obtain n where n: "getMembership t ws newOwnerId = Some n"
    using False m h by (cases "getMembership t ws newOwnerId") (auto simp: transferOwnership_def)
  ultimately show thesis
    by (intro that(2)) (auto simp: transferOwnership_def Let_def split: option.split)
qed (rule that(1))

text \<open>The contract of the operations on memberships, from which the invariants follow.\<close>

lemma members_step_keyed: "members_step t t' \<Longrightarrow> members_keyed t \<Longrightarrow> members_keyed t'"
proof (induction rule: members_step.induct)
  case (update t now ws userId r actor)
  show ?case
  proof (rule updateRole_state [of now ws userId r actor t])
    fix m assume m: "getMembership t ws userId = Some m" and
      e: "snd (updateRole now ws userId r actor t) = put_member (m\<lparr>mb_role := r, mb_updated_at := now\<rparr>) t"
    show ?thesis unfolding e using m update by (intro keyed_reput) (auto simp: getMembership_mem)
  qed (simp add: update)
next
  case (remove t now ws userId actor)
  then show ?case by (cases rule: remove_state [of now ws userId actor t]) (simp_all add: keyed_delete_member)
next
  case (leave t ws userId)
  then show ?case by (cases rule: leave_state [of ws userId t]) (simp_all add: keyed_delete_member)
next
  case (transfer t now ws newOwnerId actorId)
  show ?case
  proof (rule transfer_state [of now ws newOwnerId actorId t])
    fix m n assume h: "getMembership t ws actorId = Some m" "getMembership t ws newOwnerId = Some n" "actorId \<noteq> newOwnerId"
      and e: "snd (transferOwnership now ws newOwnerId actorId t) = put_member (n\<lparr>mb_role := R_owner, mb_updated_at := now\<rparr>)
         (put_member (m\<lparr>mb_role := R_admin, mb_updated_at := now\<rparr>) t)"
    have k: "members_keyed (put_member (m\<lparr>mb_role := R_admin, mb_updated_at := now\<rparr>) t)"
      using h(1) transfer by (intro keyed_reput) (auto simp: getMembership_mem)
    have "n \<in> snd ` set (tn_members (put_member (m\<lparr>mb_role := R_admin, mb_updated_at := now\<rparr>) t))"
      using h transfer by (auto simp: set_put_member getMembership_mem)
    then show ?thesis unfolding e by (intro keyed_reput [OF k]) simp_all
  qed (simp add: transfer)
qed

lemma owners_nonempty: "x \<in> set (owners ws t) \<Longrightarrow> owners ws t \<noteq> []"
  by (cases "owners ws t") auto

lemma members_step_owners:
  assumes "members_step t t'" and "members_keyed t" and "owners w t \<noteq> []"
  shows "owners w t' \<noteq> []"
proof -
  obtain x where x: "x \<in> set (owners w t)" using assms(3) by (cases "owners w t") auto
  note mem = getMembership_mem [OF assms(2)]
  from assms(1) show ?thesis
  proof cases
    case (update now ws userId r actor)
    show ?thesis unfolding update
    proof (rule updateRole_state [of now ws userId r actor t])
      fix m assume m: "getMembership t ws userId = Some m" "mb_role m < mb_role actor"
        and e: "snd (updateRole now ws userId r actor t) = put_member (m\<lparr>mb_role := r, mb_updated_at := now\<rparr>) t"
      have "mb_role m \<noteq> R_owner" using m(2) by (cases "mb_role actor") (auto simp: less_role_def)
      then have "x \<in> set (owners w (put_member (m\<lparr>mb_role := r, mb_updated_at := now\<rparr>) t))"
        using m x by (intro owner_after_put [OF assms(2), of m]) (auto simp: mem)
      then show "owners w (snd (updateRole now ws userId r actor t)) \<noteq> []" unfolding e by (rule owners_nonempty)
    qed (simp add: assms(3))
  next
    case (remove now ws userId actor)
    show ?thesis unfolding remove
    proof (rule remove_state [of now ws userId actor t])
      fix m a assume m: "getMembership t ws userId = Some m" "mb_role m = R_owner \<Longrightarrow> 2 \<le> length (owners ws t)"
        and e: "snd (remove_member now ws userId actor t) = (delete_member (mb_id m) t)\<lparr>tn_auth := a\<rparr>"
      have "owners w (delete_member (mb_id m) t) \<noteq> []"
        using m assms(2,3) owner_left [OF assms(2), of w m] owner_kept [OF assms(2), of m w] by (auto simp: mem)
      then show "owners w (snd (remove_member now ws userId actor t)) \<noteq> []" unfolding e by simp
    qed (simp add: assms(3))
  next
    case (leave ws userId)
    show ?thesis unfolding leave
    proof (rule leave_state [of ws userId t])
      fix m assume m: "getMembership t ws userId = Some m" "mb_role m = R_owner \<Longrightarrow> 2 \<le> length (owners ws t)"
        and e: "snd (Members.leave ws userId t) = delete_member (mb_id m) t"
      show "owners w (snd (Members.leave ws userId t)) \<noteq> []"
        unfolding e using m assms(2,3) owner_left [OF assms(2), of w m] owner_kept [OF assms(2), of m w] by (auto simp: mem)
    qed (simp add: assms(3))
  next
    case (transfer now ws newOwnerId actorId)
    show ?thesis unfolding transfer
    proof (rule transfer_state [of now ws newOwnerId actorId t])
      fix m n assume h: "getMembership t ws actorId = Some m" "getMembership t ws newOwnerId = Some n" "actorId \<noteq> newOwnerId" "mb_role m = R_owner"
        and e: "snd (transferOwnership now ws newOwnerId actorId t) = put_member (n\<lparr>mb_role := R_owner, mb_updated_at := now\<rparr>)
           (put_member (m\<lparr>mb_role := R_admin, mb_updated_at := now\<rparr>) t)"
      let ?t1 = "put_member (m\<lparr>mb_role := R_admin, mb_updated_at := now\<rparr>) t"
      let ?n = "n\<lparr>mb_role := R_owner, mb_updated_at := now\<rparr>"
      have k: "members_keyed ?t1" using h(1) by (intro keyed_reput [OF assms(2)]) (auto simp: mem)
      have n: "n \<in> snd ` set (tn_members t)" "mb_workspace_id n = ws" "mb_workspace_id m = ws" using h(1,2) by (auto simp: mem)
      show "owners w (snd (transferOwnership now ws newOwnerId actorId t)) \<noteq> []"
      proof (cases "w = ws")
        case True
        then have "?n \<in> set (owners w (put_member ?n ?t1))" using n by (simp add: owners_put [OF k])
        then show ?thesis unfolding e by (rule owners_nonempty)
      next
        case False
        then have "x \<in> set (owners w (put_member ?n ?t1))"
          using x n by (simp add: owners_put [OF k] owners_put [OF assms(2)]) (auto simp: owners_mem)
        then show ?thesis unfolding e by (rule owners_nonempty)
      qed
    qed (simp add: assms(3))
  qed
qed


text \<open>
  A change of role promotes nobody beyond the one who makes it. If it changes anything, it changes one row, that of a
  member below the actor, to a role at most the actor's own, and to an equal one only among owners.
\<close>
theorem updateRole_no_escalation:
  assumes "snd (updateRole now ws userId r actor t) \<noteq> t" and "members_keyed t"
  shows "\<exists>m. getMembership t ws userId = Some m \<and> mb_role m < mb_role actor \<and> mb_user_id actor \<noteq> userId \<and>
     (r < mb_role actor \<or> r = R_owner \<and> mb_role actor = R_owner) \<and>
     getMembership (snd (updateRole now ws userId r actor t)) =
       (\<lambda>w u. if (w, u) = (ws, userId) then Some (m\<lparr>mb_role := r, mb_updated_at := now\<rparr>) else getMembership t w u)"
proof (rule updateRole_state [of now ws userId r actor t])
  fix m assume m: "getMembership t ws userId = Some m" "mb_role m < mb_role actor" "r \<le> mb_role actor"
      "r = mb_role actor \<Longrightarrow> r = R_owner" "mb_user_id actor \<noteq> userId"
    and e: "snd (updateRole now ws userId r actor t) = put_member (m\<lparr>mb_role := r, mb_updated_at := now\<rparr>) t"
  have "mb_workspace_id m = ws" "mb_user_id m = userId" using m(1) getMembership_mem [OF assms(2)] by auto
  then have "getMembership (put_member (m\<lparr>mb_role := r, mb_updated_at := now\<rparr>) t) =
      (\<lambda>w u. if (w, u) = (ws, userId) then Some (m\<lparr>mb_role := r, mb_updated_at := now\<rparr>) else getMembership t w u)"
    by (auto simp: getMembership_def put_member_def update_conv fun_eq_iff)
  with m e show ?thesis by (auto simp: order_less_le)
qed (use assms(1) in simp)

text \<open>
  Two owners who leave at once orphan the workspace: the check and the deletion are two requests, and when both checks are made
  before either deletion, both pass.
\<close>
theorem leaving_together_orphans:
  assumes "members_keyed t" and "owners ws t = [a, b]"
  shows "leave_check ws (mb_user_id a) t = Inr a \<and> leave_check ws (mb_user_id b) t = Inr b \<and>
     owners ws (leave_delete b (leave_delete a t)) = []"
proof -
  have o: "set (owners ws t) = {a, b}" using assms(2) by simp
  have "getMembership t ws (mb_user_id x) = Some x" if "x \<in> {a, b}" for x
    using that o owners_mem [of x ws t] by (simp add: getMembership_mem [OF assms(1)])
  then have "leave_check ws (mb_user_id x) t = Inr x" if "x \<in> {a, b}" for x
    using that assms(2) by (simp add: leave_check_def countOwners_def)
  moreover have "x \<notin> set (owners ws (leave_delete b (leave_delete a t)))" for x
    using o by (auto simp: leave_delete_def owners_delete)
  then have "owners ws (leave_delete b (leave_delete a t)) = []" by (cases "owners ws (leave_delete b (leave_delete a t))") auto
  ultimately show ?thesis by simp
qed

subsection \<open>Sample data\<close>

definition no_tenancy :: tenancy where
  "no_tenancy = \<lparr>tn_auth = no_auth, tn_members = [], tn_invitations = [], tn_workspaces = [], tn_databases = [], tn_api_keys = [],
     tn_backfills = [], tn_mails = [], tn_settings_changed = []\<rparr>"

definition sample_member :: "string \<Rightarrow> string \<Rightarrow> role \<Rightarrow> membership" where
  "sample_member i u r = synthetic 0 i ''w'' u r"

definition sample_team :: tenancy where
  "sample_team = no_tenancy\<lparr>tn_members := [((''w'', ''ann''), sample_member ''m1'' ''ann'' R_owner), ((''w'', ''bob''), sample_member ''m2'' ''bob'' R_owner),
     ((''w'', ''eve''), sample_member ''m3'' ''eve'' R_viewer)]\<rparr>"

lemma sample_team_keyed: "members_keyed sample_team"
  by (simp add: members_keyed_def sample_team_def no_tenancy_def sample_member_def synthetic_def)

lemma sample_team_owners: "owners ''w'' sample_team = [sample_member ''m1'' ''ann'' R_owner, sample_member ''m2'' ''bob'' R_owner]"
  by (simp add: owners_def sample_team_def no_tenancy_def sample_member_def synthetic_def)


lemma updateRole_no_escalation_witness:
  "\<exists>m. getMembership sample_team ''w'' ''eve'' = Some m \<and> mb_role m < mb_role (sample_member ''m1'' ''ann'' R_owner)"
proof -
  have "snd (updateRole 5 ''w'' ''eve'' R_editor (sample_member ''m1'' ''ann'' R_owner) sample_team) \<noteq> sample_team"
    by (simp add: updateRole_def getMembership_def sample_team_def no_tenancy_def sample_member_def synthetic_def canModifyMember_def
        Let_def put_member_def split: option.split)
  from updateRole_no_escalation [OF this sample_team_keyed] show ?thesis by blast
qed

lemma leaving_together_orphans_witness:
  "owners ''w'' (leave_delete (sample_member ''m2'' ''bob'' R_owner) (leave_delete (sample_member ''m1'' ''ann'' R_owner) sample_team)) = []"
  using leaving_together_orphans [OF sample_team_keyed sample_team_owners] by simp

end
