(* ===== verification/Workspaces.thy ===== *)
theory Workspaces
  imports Members
begin

section \<open>Workspaces\<close>

text \<open>
  \<^verbatim>\<open>api/src/workspaces/workspaces.service.ts\<close> and the settings of
  \<^verbatim>\<open>entities/workspace.entity.ts\<close>. The table is the list of the versions inserted, in the order of insertion; a
  reader picks the latest. The parser of addresses, the encryption of keys and fresh identifiers are arguments; a
  failing database request is not modelled.
\<close>

(* src: api/src/workspaces/entities/workspace.entity.ts:319-330 DEFAULT_WORKSPACE_SETTINGS *)
definition DEFAULT_WORKSPACE_SETTINGS :: ws_settings where
  "DEFAULT_WORKSPACE_SETTINGS =
     \<lparr>st_filters = Some [], st_allowed_domains = None, st_integrations = Some (JArr []),
      st_others = [''timescore_reference'' \<mapsto> JNum 60, ''bounce_threshold'' \<mapsto> JNum 10, ''custom_dimensions'' \<mapsto> JObj [],
        ''geo_enabled'' \<mapsto> JBool True, ''geo_store_city'' \<mapsto> JBool True, ''geo_store_region'' \<mapsto> JBool True,
        ''geo_coordinates_precision'' \<mapsto> JNum 2, ''annotations'' \<mapsto> JArr []]\<rparr>"

text \<open>
  A settings object in a request. Of every field it says whether it is present; a present one may be undefined.
\<close>

record ws_settings_dto =
  sd_filters :: "filter_definition list option option"
  sd_allowed_domains :: "string list option option"
  sd_integrations :: "jsval option option"
  sd_others :: jsobject

definition spread :: "'a option \<Rightarrow> 'a option option \<Rightarrow> 'a option" where
  "spread old new = (case new of None \<Rightarrow> old | Some v \<Rightarrow> v)"

text \<open>\<open>{...old, ...new}\<close>: a present field overwrites, even with undefined.\<close>

definition spread_settings :: "ws_settings \<Rightarrow> ws_settings_dto \<Rightarrow> ws_settings" where
  "spread_settings s d =
     \<lparr>st_filters = spread (st_filters s) (sd_filters d), st_allowed_domains = spread (st_allowed_domains s) (sd_allowed_domains d),
      st_integrations = spread (st_integrations s) (sd_integrations d), st_others = st_others s ++ sd_others d\<rparr>"

text \<open>Writing the settings as JSON and reading them back drops what is undefined.\<close>

definition drop_undefined :: "jsobject \<Rightarrow> jsobject" where
  "drop_undefined ob = (\<lambda>k. if ob k = Some JUndefined then None else ob k)"

definition as_dto :: "ws_settings \<Rightarrow> ws_settings_dto" where
  "as_dto s = \<lparr>sd_filters = map_option Some (st_filters s), sd_allowed_domains = map_option Some (st_allowed_domains s),
     sd_integrations = map_option Some (st_integrations s), sd_others = drop_undefined (st_others s)\<rparr>"

(* src: api/src/workspaces/workspaces.service.ts:48-68 parseWorkspace *)
definition parseWorkspace :: "ws_row \<Rightarrow> ws_row" where
  "parseWorkspace w = w\<lparr>wr_settings := spread_settings DEFAULT_WORKSPACE_SETTINGS (as_dto (wr_settings w))\<rparr>"

definition versions :: "tenancy \<Rightarrow> string \<Rightarrow> ws_row list" where
  "versions t i = filter (\<lambda>w. wr_id w = i) (tn_workspaces t)"

(* src: api/src/workspaces/workspaces.service.ts:129-140 get *)
definition get_workspace :: "tenancy \<Rightarrow> string \<Rightarrow> http_error + ws_row" where
  "get_workspace t i =
     (case newest wr_updated_at (versions t i) of
        None \<Rightarrow> Inl (Not_found (''Workspace '' @ i @ '' not found''))
      | Some w \<Rightarrow> Inr (parseWorkspace w))"

text \<open>\<open>ORDER BY updated_at DESC LIMIT 1 BY id\<close>\<close>

fun limit_one_by :: "('a \<Rightarrow> 'b) \<Rightarrow> 'a list \<Rightarrow> 'a list" where
  "limit_one_by k [] = []"
| "limit_one_by k (x # xs) = x # filter (\<lambda>y. k y \<noteq> k x) (limit_one_by k xs)"

(* src: api/src/workspaces/workspaces.service.ts:95-127 list *)
definition list_workspaces :: "tenancy \<Rightarrow> string \<Rightarrow> bool \<Rightarrow> ws_row list" where
  "list_workspaces t userId isSuperAdmin =
     (let rows = (if isSuperAdmin then tn_workspaces t
                  else filter (\<lambda>w. \<exists>(k, m) \<in> set (tn_members t). mb_user_id m = userId \<and> mb_workspace_id m = wr_id w) (tn_workspaces t))
      in map parseWorkspace (sort_desc wr_created_at (limit_one_by wr_id (sort_desc wr_updated_at rows))))"

(* src: api/src/workspaces/entities/workspace.entity.ts:297-314 deriveAllowedDomains *)
definition deriveAllowedDomains :: "url_parser \<Rightarrow> string \<Rightarrow> string list" where
  "deriveAllowedDomains parse website =
     (if website = [] then []
      else
        (let lower = js_lower website;
             target = (if js_starts_with lower ''http://'' \<or> js_starts_with lower ''https://'' then website else ''https://'' @ website)
         in case parse target of
              None \<Rightarrow> []
            | Some u \<Rightarrow>
                (let host = js_lower (pu_hostname u)
                 in if host = [] then []
                    else [''*.'' @ (if js_starts_with host ''www.'' then drop 4 host else host)])))"

record create_ws_dto =
  cw_id :: string
  cw_name :: string
  cw_website :: string
  cw_timezone :: string
  cw_currency :: string
  cw_logo_url :: "string option"
  cw_settings :: "ws_settings_dto option"

definition no_settings_dto :: ws_settings_dto where
  "no_settings_dto = \<lparr>sd_filters = None, sd_allowed_domains = None, sd_integrations = None, sd_others = Map.empty\<rparr>"

(* src: api/src/workspaces/workspaces.service.ts:152-172 create *)
definition initial_settings :: "url_parser \<Rightarrow> filter_definition list \<Rightarrow> create_ws_dto \<Rightarrow> ws_settings" where
  "initial_settings parse defaults dto =
     (let s = spread_settings DEFAULT_WORKSPACE_SETTINGS (js_nullish (cw_settings dto) no_settings_dto);
          s1 = (if st_filters s = None \<or> st_filters s = Some [] then s\<lparr>st_filters := Some defaults\<rparr> else s)
      in if st_allowed_domains s1 = None \<and> deriveAllowedDomains parse (cw_website dto) \<noteq> []
         then s1\<lparr>st_allowed_domains := Some (deriveAllowedDomains parse (cw_website dto))\<rparr> else s1)"

(* src: api/src/workspaces/workspaces.service.ts:214-234 create *)
definition synced_task :: "int \<Rightarrow> string \<Rightarrow> string \<Rightarrow> filter_definition list \<Rightarrow> backfill_task" where
  "synced_task now i ws fs =
     \<lparr>bt_id = i, bt_workspace_id = ws, bt_status = T_completed, bt_lookback_days = 0, bt_chunk_size_days = 1, bt_batch_size = 1000,
      bt_total_sessions = 0, bt_processed_sessions = 0, bt_total_events = 0, bt_processed_events = 0,
      bt_current_date_chunk = None, bt_created_at = now, bt_updated_at = now, bt_started_at = Some now, bt_completed_at = Some now,
      bt_error_message = None, bt_retry_count = 0, bt_filters_snapshot = fs\<rparr>"

(* src: api/src/workspaces/workspaces.service.ts:142-238 create *)
definition create_workspace ::
    "url_parser \<Rightarrow> filter_definition list \<Rightarrow> int \<Rightarrow> string \<Rightarrow> string \<Rightarrow> create_ws_dto \<Rightarrow> string \<Rightarrow> bool \<Rightarrow> tenancy \<Rightarrow> ws_row reply" where
  "create_workspace parse defaults now member_id task_id dto userId isSuperAdmin t =
     (if \<not> isSuperAdmin then (Inl (Forbidden ''Only super admins can create new workspaces''), t)
      else
        (let settings = initial_settings parse defaults dto;
             w = \<lparr>wr_id = cw_id dto, wr_name = cw_name dto, wr_website = cw_website dto, wr_timezone = cw_timezone dto,
                  wr_currency = cw_currency dto, wr_logo_url = cw_logo_url dto, wr_status = Ws_initializing, wr_created_at = now,
                  wr_updated_at = now, wr_settings = settings\<rparr>;
             t1 = t\<lparr>tn_databases := cw_id dto # tn_databases t, tn_workspaces := tn_workspaces t @ [w]\<rparr>;
             t2 = put_member (synthetic now member_id (cw_id dto) userId R_owner) t1;
             t3 = (case st_filters settings of
                     None \<Rightarrow> t2
                   | Some fs \<Rightarrow>
                       if fs = [] then t2
                       else t2\<lparr>tn_backfills := AList.update task_id (synced_task now task_id (cw_id dto) fs) (tn_backfills t2)\<rparr>)
         in (Inr w, t3)))"

record update_ws_dto =
  uw_id :: string
  uw_name :: "string option"
  uw_website :: "string option"
  uw_timezone :: "string option"
  uw_currency :: "string option"
  uw_logo_url :: "string option"
  uw_status :: "workspace_status option"
  uw_settings :: "ws_settings_dto option"

definition opt_truthy :: "jsval option \<Rightarrow> bool" where
  "opt_truthy v = (case v of None \<Rightarrow> False | Some x \<Rightarrow> js_is_truthy x)"

text \<open>One integration: its key is encrypted unless it contains a colon already.\<close>

(* src: api/src/workspaces/workspaces.service.ts:376-391 encryptIntegrationKeys *)
definition encrypt_one :: "(string \<Rightarrow> string) \<Rightarrow> jsval \<Rightarrow> jsval" where
  "encrypt_one enc v =
     (case v of
        JObj fs \<Rightarrow>
          if map_of fs ''type'' = Some (JStr ''anthropic'') then
            (case map_of fs ''settings'' of
               Some (JObj ss) \<Rightarrow>
                 (case map_of ss ''api_key_encrypted'' of
                    Some (JStr k) \<Rightarrow>
                      if k \<noteq> [] \<and> \<not> js_includes k '':''
                      then JObj (AList.update ''settings'' (JObj (AList.update ''api_key_encrypted'' (JStr (enc k)) ss)) fs)
                      else v
                  | _ \<Rightarrow> v)
             | _ \<Rightarrow> v)
          else v
      | _ \<Rightarrow> v)"

(* src: api/src/workspaces/workspaces.service.ts:370-392 encryptIntegrationKeys *)
definition encryptIntegrationKeys :: "(string \<Rightarrow> string) \<Rightarrow> jsval \<Rightarrow> jsval" where
  "encryptIntegrationKeys enc v = (case v of JArr xs \<Rightarrow> JArr (map (encrypt_one enc) xs) | _ \<Rightarrow> v)"

text \<open>The fields of the request that are not undefined.\<close>

definition defined_only :: "ws_settings_dto \<Rightarrow> ws_settings_dto" where
  "defined_only d =
     \<lparr>sd_filters = (if sd_filters d = Some None then None else sd_filters d),
      sd_allowed_domains = (if sd_allowed_domains d = Some None then None else sd_allowed_domains d),
      sd_integrations = (if sd_integrations d = Some None then None else sd_integrations d),
      sd_others = drop_undefined (sd_others d)\<rparr>"

(* src: api/src/workspaces/workspaces.service.ts:32-35 bumpMillis *)
definition bumpMillis :: "int \<Rightarrow> int" where
  "bumpMillis d = d + 1"

(* src: api/src/workspaces/workspaces.service.ts:272-272 update *)
definition next_updated_at :: "int \<Rightarrow> int \<Rightarrow> int" where
  "next_updated_at now old = (if old < now then now else bumpMillis old)"

(* src: api/src/workspaces/workspaces.service.ts:243-264 update *)
definition merged_settings :: "(string \<Rightarrow> string) \<Rightarrow> ws_settings \<Rightarrow> ws_settings_dto option \<Rightarrow> ws_settings" where
  "merged_settings enc old dto =
     (case dto of
        None \<Rightarrow> old
      | Some d \<Rightarrow>
          spread_settings old (defined_only (d\<lparr>sd_integrations := map_option (map_option (encryptIntegrationKeys enc)) (sd_integrations d)\<rparr>)))"

(* src: api/src/workspaces/workspaces.service.ts:240-308 update *)
definition update_workspace :: "(string \<Rightarrow> string) \<Rightarrow> int \<Rightarrow> update_ws_dto \<Rightarrow> tenancy \<Rightarrow> ws_row reply" where
  "update_workspace enc now dto t =
     (case get_workspace t (uw_id dto) of
        Inl e \<Rightarrow> (Inl e, t)
      | Inr w \<Rightarrow>
          (let updated =
                 \<lparr>wr_id = wr_id w, wr_name = js_nullish (uw_name dto) (wr_name w), wr_website = js_nullish (uw_website dto) (wr_website w),
                  wr_timezone = js_nullish (uw_timezone dto) (wr_timezone w), wr_currency = js_nullish (uw_currency dto) (wr_currency w),
                  wr_logo_url = (case uw_logo_url dto of None \<Rightarrow> wr_logo_url w | Some l \<Rightarrow> Some l),
                  wr_status = js_nullish (uw_status dto) (wr_status w), wr_created_at = wr_created_at w,
                  wr_updated_at = next_updated_at now (wr_updated_at w),
                  wr_settings = merged_settings enc (wr_settings w) (uw_settings dto)\<rparr>;
               t1 = t\<lparr>tn_workspaces := tn_workspaces t @ [updated]\<rparr>
           in (Inr updated,
               if uw_settings dto = None then t1 else t1\<lparr>tn_settings_changed := tn_settings_changed t1 @ [uw_id dto]\<rparr>)))"

(* src: api/src/workspaces/workspaces.service.ts:332-364 activateIfInitializing *)
definition activateIfInitializing :: "int \<Rightarrow> string \<Rightarrow> tenancy \<Rightarrow> bool \<times> tenancy" where
  "activateIfInitializing now i t =
     (case get_workspace t i of
        Inl _ \<Rightarrow> (False, t)
      | Inr w \<Rightarrow>
          if wr_status w \<noteq> Ws_initializing then (False, t)
          else
            (let activated = w\<lparr>wr_status := Ws_active, wr_updated_at := next_updated_at now (wr_updated_at w)\<rparr>
             in (True, t\<lparr>tn_workspaces := tn_workspaces t @ [activated], tn_settings_changed := tn_settings_changed t @ [i]\<rparr>)))"

(* src: api/src/workspaces/workspaces.service.ts:394-440 delete *)
definition delete_workspace :: "string \<Rightarrow> tenancy \<Rightarrow> unit reply" where
  "delete_workspace i t =
     (if versions t i = [] then (Inl (Not_found (''Workspace '' @ i @ '' not found'')), t)
      else (Inr (),
        t\<lparr>tn_members := filter (\<lambda>(k, m). mb_workspace_id m \<noteq> i) (tn_members t),
          tn_invitations := filter (\<lambda>(k, v). in_workspace_id v \<noteq> i) (tn_invitations t),
          tn_api_keys := filter (\<lambda>k. ak_workspace_id k \<noteq> Some i) (tn_api_keys t),
          tn_backfills := filter (\<lambda>(k, b). bt_workspace_id b \<noteq> i) (tn_backfills t),
          tn_databases := filter (\<lambda>d. d \<noteq> i) (tn_databases t),
          tn_workspaces := filter (\<lambda>w. wr_id w \<noteq> i) (tn_workspaces t)\<rparr>))"

subsection \<open>Reading back what was written\<close>

lemma newest_append:
  assumes "newest key xs = Some x" and "key x < key y"
  shows "newest key (xs @ [y]) = Some y"
  using newest_mem [OF assms(1)] assms(2) by (intro newest_unique) force+

lemma next_updated_at_later: "old < next_updated_at now old"
  by (simp add: next_updated_at_def bumpMillis_def)

lemma get_workspace_Inr:
  "get_workspace t i = Inr w \<longleftrightarrow> (\<exists>v. newest wr_updated_at (versions t i) = Some v \<and> w = parseWorkspace v)"
  by (auto simp: get_workspace_def split: option.splits)

lemma parse_fields [simp]:
  "wr_id (parseWorkspace w) = wr_id w" "wr_updated_at (parseWorkspace w) = wr_updated_at w" "wr_status (parseWorkspace w) = wr_status w"
  by (simp_all add: parseWorkspace_def)

lemma get_workspace_id:
  assumes "get_workspace t i = Inr w"
  shows "wr_id w = i"
proof -
  obtain v where v: "newest wr_updated_at (versions t i) = Some v" "w = parseWorkspace v" using assms by (auto simp: get_workspace_Inr)
  then show ?thesis using newest_mem [OF v(1)] by (simp add: versions_def)
qed

lemma drop_undefined_idem [simp]: "drop_undefined (drop_undefined ob) = drop_undefined ob"
  by (auto simp: drop_undefined_def fun_eq_iff)

lemma drop_undefined_add [simp]: "drop_undefined (a ++ drop_undefined b) = drop_undefined a ++ drop_undefined b"
  by (auto simp: drop_undefined_def fun_eq_iff map_add_def split: option.splits)

lemma spread_as_dto [simp]: "spread d (map_option Some v) = (case v of None \<Rightarrow> d | Some _ \<Rightarrow> v)"
  by (cases v) (simp_all add: spread_def)

text \<open>A row that was read parses to itself, and so does one merged from it.\<close>

lemma default_defined [simp]: "drop_undefined (st_others DEFAULT_WORKSPACE_SETTINGS) = st_others DEFAULT_WORKSPACE_SETTINGS"
  by (auto simp: drop_undefined_def DEFAULT_WORKSPACE_SETTINGS_def fun_eq_iff)

lemma map_add_self [simp]: "a ++ a = a"
  by (auto simp: map_add_def fun_eq_iff split: option.split)

definition complete_settings :: "ws_settings \<Rightarrow> ws_settings" where
  "complete_settings s = spread_settings DEFAULT_WORKSPACE_SETTINGS (as_dto s)"

lemma complete_idem [simp]: "complete_settings (complete_settings s) = complete_settings s"
  by (simp add: complete_settings_def spread_settings_def as_dto_def split: option.split)

lemma parse_complete: "parseWorkspace w = w\<lparr>wr_settings := complete_settings (wr_settings w)\<rparr>"
  by (simp add: parseWorkspace_def complete_settings_def)

lemma parse_idem [simp]: "parseWorkspace (parseWorkspace w) = parseWorkspace w"
  by (simp add: parse_complete)

lemma parse_fixed: "parseWorkspace w = w \<longleftrightarrow> complete_settings (wr_settings w) = wr_settings w"
  by (cases w) (simp add: parse_complete)

lemma parse_merged:
  assumes "parseWorkspace w = w"
  shows "complete_settings (merged_settings enc (wr_settings w) dto) = merged_settings enc (wr_settings w) dto"
proof -
  define s where "s = wr_settings w"
  have s: "spread_settings DEFAULT_WORKSPACE_SETTINGS (as_dto s) = s"
    using assms by (simp add: parse_fixed complete_settings_def s_def)
  have parts: "st_filters s \<noteq> None" "st_integrations s \<noteq> None"
      "st_others DEFAULT_WORKSPACE_SETTINGS ++ drop_undefined (st_others s) = st_others s"
    using arg_cong [OF s, of st_filters] arg_cong [OF s, of st_integrations] arg_cong [OF s, of st_others]
    by (auto simp: spread_settings_def as_dto_def DEFAULT_WORKSPACE_SETTINGS_def split: option.splits)
  have o: "drop_undefined (st_others s) = st_others s" by (metis default_defined drop_undefined_add parts(3))
  have "spread_settings DEFAULT_WORKSPACE_SETTINGS (as_dto (spread_settings s (defined_only d))) = spread_settings s (defined_only d)" for d
  proof -
    have "st_others DEFAULT_WORKSPACE_SETTINGS ++ (st_others s ++ drop_undefined (sd_others d)) = st_others s ++ drop_undefined (sd_others d)"
      using parts(3) o by (metis map_add_assoc)
    then show ?thesis using parts(1,2) o
      by (auto simp: spread_settings_def as_dto_def defined_only_def spread_def DEFAULT_WORKSPACE_SETTINGS_def split: option.splits)
  qed
  then show ?thesis using s by (simp add: complete_settings_def merged_settings_def s_def split: option.split)
qed

lemma versions_append: "versions (t\<lparr>tn_workspaces := tn_workspaces t @ [w]\<rparr>) i = versions t i @ (if wr_id w = i then [w] else [])"
  by (simp add: versions_def)

lemma get_after_append:
  assumes "get_workspace t i = Inr w" and "wr_id v = i" and "wr_updated_at w < wr_updated_at v" and "parseWorkspace v = v"
    and "tn_workspaces t' = tn_workspaces t @ [v]"
  shows "get_workspace t' j = (if j = i then Inr v else get_workspace t j)"
proof -
  obtain u where u: "newest wr_updated_at (versions t i) = Some u" "w = parseWorkspace u"
    using assms(1) by (auto simp: get_workspace_Inr)
  have vs: "versions t' j = versions t j @ (if wr_id v = j then [v] else [])" for j
    using assms(5) by (simp add: versions_def)
  have "newest wr_updated_at (versions t i @ [v]) = Some v" using u assms(3) by (intro newest_append) simp_all
  then show ?thesis using assms(2,4) by (simp add: get_workspace_def vs)
qed

text \<open>
  What an update leaves is what the next reader gets, even within the same millisecond: the version read back is exactly the one the
  update answered with, a setting it did not define keeps its value, and no other workspace changes.
\<close>
theorem update_then_get:
  assumes "fst (update_workspace enc now dto t) = Inr w" and "get_workspace t (uw_id dto) = Inr old"
  shows "get_workspace (snd (update_workspace enc now dto t)) i = (if i = uw_id dto then Inr w else get_workspace t i) \<and>
     wr_updated_at old < wr_updated_at w \<and>
     (case uw_settings dto of
        None \<Rightarrow> wr_settings w = wr_settings old
      | Some d \<Rightarrow>
          (if sd_filters d \<in> {None, Some None} then st_filters (wr_settings w) = st_filters (wr_settings old)
           else Some (st_filters (wr_settings w)) = sd_filters d) \<and>
          st_others (wr_settings w) k = (if sd_others d k \<in> {None, Some JUndefined} then st_others (wr_settings old) k else sd_others d k))"
proof -
  let ?w = "\<lparr>wr_id = wr_id old, wr_name = js_nullish (uw_name dto) (wr_name old), wr_website = js_nullish (uw_website dto) (wr_website old),
    wr_timezone = js_nullish (uw_timezone dto) (wr_timezone old), wr_currency = js_nullish (uw_currency dto) (wr_currency old),
    wr_logo_url = (case uw_logo_url dto of None \<Rightarrow> wr_logo_url old | Some l \<Rightarrow> Some l),
    wr_status = js_nullish (uw_status dto) (wr_status old), wr_created_at = wr_created_at old,
    wr_updated_at = next_updated_at now (wr_updated_at old), wr_settings = merged_settings enc (wr_settings old) (uw_settings dto)\<rparr>"
  have w: "w = ?w" using assms by (simp add: update_workspace_def Let_def)
  have t: "tn_workspaces (snd (update_workspace enc now dto t)) = tn_workspaces t @ [w]"
    unfolding w using assms(2) by (simp add: update_workspace_def Let_def)
  have "parseWorkspace old = old" using assms(2) by (auto simp: get_workspace_Inr)
  from parse_merged [OF this, of enc "uw_settings dto"] have p: "parseWorkspace w = w" by (simp add: w parse_fixed)
  have g: "get_workspace (snd (update_workspace enc now dto t)) i = (if i = uw_id dto then Inr w else get_workspace t i)"
    by (rule get_after_append [OF assms(2) _ _ p t]) (use get_workspace_id [OF assms(2)] in \<open>simp_all add: w next_updated_at_later\<close>)
  have "case uw_settings dto of
        None \<Rightarrow> wr_settings w = wr_settings old
      | Some d \<Rightarrow>
          (if sd_filters d \<in> {None, Some None} then st_filters (wr_settings w) = st_filters (wr_settings old)
           else Some (st_filters (wr_settings w)) = sd_filters d) \<and>
          st_others (wr_settings w) k = (if sd_others d k \<in> {None, Some JUndefined} then st_others (wr_settings old) k else sd_others d k)"
    by (auto simp: w merged_settings_def spread_settings_def defined_only_def spread_def drop_undefined_def map_add_def split: option.split)
  moreover have "wr_updated_at old < wr_updated_at w" by (simp add: w next_updated_at_later)
  ultimately show ?thesis using g by blast
qed

text \<open>
  Activation happens once and touches nothing but the status. It changes the state exactly when the workspace was still waiting
  for its first event, and then only its status and version; a suspended workspace stays suspended.
\<close>
theorem activation_only_from_initializing:
  assumes "get_workspace t i = Inr w"
  shows "fst (activateIfInitializing now i t) = (wr_status w = Ws_initializing) \<and>
     get_workspace (snd (activateIfInitializing now i t)) j =
       (if j = i \<and> wr_status w = Ws_initializing
        then Inr (w\<lparr>wr_status := Ws_active, wr_updated_at := next_updated_at now (wr_updated_at w)\<rparr>) else get_workspace t j)"
proof (cases "wr_status w = Ws_initializing")
  case True
  let ?v = "w\<lparr>wr_status := Ws_active, wr_updated_at := next_updated_at now (wr_updated_at w)\<rparr>"
  have r: "activateIfInitializing now i t = (True, t\<lparr>tn_workspaces := tn_workspaces t @ [?v], tn_settings_changed := tn_settings_changed t @ [i]\<rparr>)"
    using assms True by (simp add: activateIfInitializing_def)
  have p: "parseWorkspace w = w" using assms by (auto simp: get_workspace_Inr)
  then have "parseWorkspace ?v = ?v" by (simp add: parse_fixed)
  then have "get_workspace (snd (activateIfInitializing now i t)) j = (if j = i then Inr ?v else get_workspace t j)"
    by (intro get_after_append [OF assms]) (use get_workspace_id [OF assms] in \<open>simp_all add: r next_updated_at_later\<close>)
  then show ?thesis using True r by simp
qed (use assms in \<open>simp add: activateIfInitializing_def\<close>)

subsection \<open>New workspaces, and removed ones\<close>

definition apex :: "string \<Rightarrow> string" where
  "apex host = (if js_starts_with host ''www.'' then drop 4 host else host)"

text \<open>
  A new workspace takes events from its own site only. When its creator names no allowed domains and its address parses, the
  ingestion's check accepts precisely the domain of the address, without a leading www, and the domains below it.
\<close>
theorem fresh_workspace_closed:
  assumes "js_nullish (cw_settings dto) no_settings_dto = d" and "sd_allowed_domains d \<in> {None, Some None}"
    and "deriveAllowedDomains parse (cw_website dto) = [''*.'' @ site]" and "js_trim (''*.'' @ site) = ''*.'' @ site" and "js_lower site = site"
  shows "isDomainAllowed domain (st_allowed_domains (initial_settings parse defaults dto)) \<longleftrightarrow>
     domain \<noteq> [] \<and> js_lower domain \<in> insert site {l. js_ends_with l (''.'' @ site)}"
proof -
  have "st_allowed_domains (initial_settings parse defaults dto) = Some [''*.'' @ site]"
    using assms(1-3) by (auto simp: initial_settings_def Let_def spread_settings_def spread_def DEFAULT_WORKSPACE_SETTINGS_def)
  moreover have "js_lower (''*.'' @ site) = ''*.'' @ site" using assms(5) by (simp add: js_lower_def js_lower_char_def)
  ultimately show ?thesis using assms(4)
    by (auto simp: isDomainAllowed_def domain_pattern_matches_def Let_def js_starts_with_def)
qed

lemma deriveAllowedDomains_site:
  assumes "parse (''https://'' @ site) = Some u" and "site \<noteq> []" and "pu_hostname u \<noteq> []"
    and "\<not> js_starts_with (js_lower site) ''http://''" and "\<not> js_starts_with (js_lower site) ''https://''"
  shows "deriveAllowedDomains parse site = [''*.'' @ apex (js_lower (pu_hostname u))]"
  using assms by (simp add: deriveAllowedDomains_def apex_def)

text \<open>
  Deleting a workspace leaves nothing of it and touches nothing else: no version, member, invitation, key, backfill task or
  database of it remains, and what belongs to other workspaces is as before.
\<close>
theorem delete_workspace_clean:
  assumes "fst (delete_workspace i t) = Inr ()" and "members_keyed t" and "t' = snd (delete_workspace i t)" and "j \<noteq> i"
  shows "get_workspace t' i = Inl (Not_found (''Workspace '' @ i @ '' not found''))" and "getMembership t' i u = None"
    and "i \<notin> set (tn_databases t')" and "i \<notin> in_workspace_id ` snd ` set (tn_invitations t')"
    and "Some i \<notin> ak_workspace_id ` set (tn_api_keys t')" and "i \<notin> bt_workspace_id ` snd ` set (tn_backfills t')"
    and "get_workspace t' j = get_workspace t j" and "getMembership t' j u = getMembership t j u"
    and "filter (\<lambda>k. ak_workspace_id k = Some j) (tn_api_keys t') = filter (\<lambda>k. ak_workspace_id k = Some j) (tn_api_keys t)"
proof -
  have t': "t' = t\<lparr>tn_members := filter (\<lambda>(k, m). mb_workspace_id m \<noteq> i) (tn_members t),
          tn_invitations := filter (\<lambda>(k, v). in_workspace_id v \<noteq> i) (tn_invitations t),
          tn_api_keys := filter (\<lambda>k. ak_workspace_id k \<noteq> Some i) (tn_api_keys t),
          tn_backfills := filter (\<lambda>(k, b). bt_workspace_id b \<noteq> i) (tn_backfills t),
          tn_databases := filter (\<lambda>d. d \<noteq> i) (tn_databases t),
          tn_workspaces := filter (\<lambda>w. wr_id w \<noteq> i) (tn_workspaces t)\<rparr>"
    using assms(1,3) by (auto simp: delete_workspace_def split: if_splits)
  have k: "members_keyed t'"
    using assms(2) unfolding t' members_keyed_def by (auto simp: distinct_map_filter)
  have "versions t' i = []" "versions t' j = versions t j"
    unfolding versions_def t' using assms(4) by (simp_all add: filter_empty_conv) (metis (mono_tags, lifting))
  then show "get_workspace t' i = Inl (Not_found (''Workspace '' @ i @ '' not found''))" "get_workspace t' j = get_workspace t j"
    by (simp_all add: get_workspace_def)
  have row: "m \<in> snd ` set (tn_members t') \<longleftrightarrow> m \<in> snd ` set (tn_members t) \<and> mb_workspace_id m \<noteq> i" for m
    by (force simp: t')
  have "getMembership t' i u \<noteq> Some m" for m using getMembership_mem [OF k] row by blast
  then show "getMembership t' i u = None" by (cases "getMembership t' i u") auto
  have same: "getMembership t' j u = Some m \<longleftrightarrow> getMembership t j u = Some m" for m
    unfolding getMembership_mem [OF k] getMembership_mem [OF assms(2)] row using assms(4) by auto
  show "getMembership t' j u = getMembership t j u"
  proof (cases "getMembership t j u")
    case None
    then have "getMembership t' j u \<noteq> Some m" for m using same [of m] by simp
    then show ?thesis using None by (cases "getMembership t' j u") auto
  qed (use same in simp)
  show "filter (\<lambda>k. ak_workspace_id k = Some j) (tn_api_keys t') = filter (\<lambda>k. ak_workspace_id k = Some j) (tn_api_keys t)"
    using assms(4) by (auto simp: t' intro: filter_cong)
  show "i \<notin> set (tn_databases t')" "i \<notin> in_workspace_id ` snd ` set (tn_invitations t')"
    "Some i \<notin> ak_workspace_id ` set (tn_api_keys t')" "i \<notin> bt_workspace_id ` snd ` set (tn_backfills t')"
    unfolding t' by auto
qed

subsection \<open>Witnesses\<close>

definition sample_ws :: ws_row where
  "sample_ws = \<lparr>wr_id = ''w'', wr_name = ''W'', wr_website = ''w.fr'', wr_timezone = ''UTC'', wr_currency = ''EUR'', wr_logo_url = None,
     wr_status = Ws_initializing, wr_created_at = 1, wr_updated_at = 1, wr_settings = DEFAULT_WORKSPACE_SETTINGS\<rparr>"

definition sample_tenancy :: tenancy where
  "sample_tenancy = sample_team\<lparr>tn_workspaces := [sample_ws], tn_databases := [''w'']\<rparr>"

lemma sample_get: "get_workspace sample_tenancy ''w'' = Inr (parseWorkspace sample_ws)"
  by (simp add: get_workspace_def versions_def sample_tenancy_def sample_ws_def newest_def sort_desc_def)

definition sample_update :: update_ws_dto where
  "sample_update = \<lparr>uw_id = ''w'', uw_name = Some ''V'', uw_website = None, uw_timezone = None, uw_currency = None, uw_logo_url = None,
     uw_status = None, uw_settings = Some no_settings_dto\<rparr>"

lemma update_then_get_witness:
  "\<exists>w. get_workspace (snd (update_workspace id 1 sample_update sample_tenancy)) ''w'' = Inr w \<and> 1 < wr_updated_at w"
proof -
  have g: "get_workspace sample_tenancy (uw_id sample_update) = Inr (parseWorkspace sample_ws)"
    using sample_get by (simp add: sample_update_def)
  obtain w where w: "fst (update_workspace id 1 sample_update sample_tenancy) = Inr w"
    using g by (simp add: update_workspace_def Let_def)
  from update_then_get [OF w g, of "''w''"] show ?thesis by (simp add: sample_update_def sample_ws_def)
qed

lemma activation_only_from_initializing_witness: "fst (activateIfInitializing 1 ''w'' sample_tenancy)"
  using activation_only_from_initializing [OF sample_get, of 1] by (simp add: sample_ws_def)

lemma fresh_workspace_closed_witness:
  "isDomainAllowed ''shop.w.fr'' (st_allowed_domains (initial_settings
      (\<lambda>_. Some \<lparr>pu_hostname = ''www.w.fr'', pu_pathname = [], pu_param = \<lambda>_. None\<rparr>) []
      \<lparr>cw_id = ''w'', cw_name = ''W'', cw_website = ''www.w.fr'', cw_timezone = ''UTC'', cw_currency = ''EUR'', cw_logo_url = None,
       cw_settings = None\<rparr>))"
  by (subst fresh_workspace_closed [where d = no_settings_dto and site = "''w.fr''"])
    (simp_all add: no_settings_dto_def deriveAllowedDomains_def js_lower_def js_lower_char_def js_starts_with_def js_ends_with_def
      js_trim_def js_space_def Let_def)

lemma delete_workspace_clean_witness: "getMembership (snd (delete_workspace ''w'' sample_tenancy)) ''w'' ''ann'' = None"
proof -
  have "members_keyed sample_tenancy" using sample_team_keyed by (simp add: sample_tenancy_def members_keyed_def)
  moreover have "fst (delete_workspace ''w'' sample_tenancy) = Inr ()"
    by (simp add: delete_workspace_def versions_def sample_tenancy_def sample_ws_def)
  ultimately show ?thesis by (intro delete_workspace_clean(2) [where j = "''v''"]) simp_all
qed

end
