(* ===== verification/Invitations.thy ===== *)
theory Invitations
  imports Workspaces
begin

section \<open>Invitations\<close>

text \<open>
  \<^verbatim>\<open>api/src/invitations/invitations.service.ts\<close>. A token and its hash are drawn by the caller, \<open>hashToken\<close> is an
  argument, and so is the mail server's answer: an operation has written its rows before it sends the mail,
  and reports the mail's failure as its own.
\<close>

definition week_ms :: int where "week_ms = 7 * day_ms"

(* src: api/src/invitations/invitations.service.ts:402-413 findById *)
definition find_invitation :: "tenancy \<Rightarrow> string \<Rightarrow> invitation option" where
  "find_invitation t i = List.find (\<lambda>v. in_id v = i) (map snd (tn_invitations t))"

(* src: api/src/invitations/invitations.service.ts:415-432 findPendingByEmail *)
definition findPendingByEmail :: "tenancy \<Rightarrow> int \<Rightarrow> string \<Rightarrow> string \<Rightarrow> invitation option" where
  "findPendingByEmail t now ws email =
     List.find (\<lambda>v. in_workspace_id v = ws \<and> in_email v = email \<and> in_status v = I_pending \<and> now < in_expires_at v)
       (map snd (tn_invitations t))"

definition user_by_email :: "tenancy \<Rightarrow> string \<Rightarrow> user option" where
  "user_by_email t email = findByEmail (au_accounts (tn_auth t)) email"

(* src: api/src/invitations/invitations.service.ts:434-452 getMembership *)
definition membership_by_email :: "tenancy \<Rightarrow> string \<Rightarrow> string \<Rightarrow> membership option" where
  "membership_by_email t ws email =
     (case user_by_email t email of None \<Rightarrow> None | Some u \<Rightarrow> getMembership t ws (us_id u))"

definition user_name :: "user option \<Rightarrow> string \<Rightarrow> string" where
  "user_name u d = (case u of None \<Rightarrow> d | Some u \<Rightarrow> js_or (us_name u) d)"

(* src: api/src/invitations/invitations.service.ts:44-71 list *)
definition list_invitations :: "tenancy \<Rightarrow> int \<Rightarrow> string \<Rightarrow> (invitation \<times> string \<times> string \<times> string) list" where
  "list_invitations t now ws =
     map (\<lambda>v. let u = user_by_id t (in_invited_by v)
              in (v, (case u of None \<Rightarrow> [] | Some u \<Rightarrow> us_id u), user_name u ''Unknown'', (case u of None \<Rightarrow> [] | Some u \<Rightarrow> us_email u)))
       (sort_desc in_created_at
          (filter (\<lambda>v. in_workspace_id v = ws \<and> in_status v = I_pending \<and> now < in_expires_at v) (map snd (tn_invitations t))))"

definition send_mail :: "http_error option \<Rightarrow> mail \<Rightarrow> 'a \<Rightarrow> tenancy \<Rightarrow> 'a reply" where
  "send_mail failure m x t =
     (case failure of Some e \<Rightarrow> (Inl e, t) | None \<Rightarrow> (Inr x, t\<lparr>tn_mails := tn_mails t @ [m]\<rparr>))"

(* src: api/src/invitations/invitations.service.ts:76-147 create *)
definition create_invitation ::
    "http_error option \<Rightarrow> int \<Rightarrow> string \<Rightarrow> string \<times> string \<Rightarrow> string \<Rightarrow> string \<Rightarrow> role \<Rightarrow> string \<Rightarrow> tenancy \<Rightarrow> invitation reply" where
  "create_invitation failure now new_id token_and_hash ws raw_email r invitedBy t =
     (let email = js_lower raw_email
      in case get_workspace t ws of
           Inl e \<Rightarrow> (Inl e, t)
         | Inr w \<Rightarrow>
             if membership_by_email t ws email \<noteq> None then (Inl (Conflict ''User is already a member of this workspace''), t)
             else if findPendingByEmail t now ws email \<noteq> None
             then (Inl (Conflict ''Invitation already pending for this email. Use resend to send again.''), t)
             else
               (let v = \<lparr>in_id = new_id, in_workspace_id = ws, in_email = email, in_role = r, in_token_hash = snd token_and_hash,
                         in_invited_by = invitedBy, in_status = I_pending, in_expires_at = now + week_ms, in_accepted_at = None,
                         in_revoked_at = None, in_revoked_by = None, in_created_at = now, in_updated_at = now\<rparr>
                in send_mail failure
                     (Invitation_mail ws email (user_name (user_by_id t invitedBy) ''A team member'') r (fst token_and_hash))
                     v (put_invitation v t)))"

(* src: api/src/invitations/invitations.service.ts:152-197 resend *)
definition resend_invitation ::
    "http_error option \<Rightarrow> int \<Rightarrow> string \<Rightarrow> string \<times> string \<Rightarrow> string \<Rightarrow> tenancy \<Rightarrow> unit reply" where
  "resend_invitation failure now i token_and_hash invitedBy t =
     (case find_invitation t i of
        None \<Rightarrow> (Inl (Not_found ''Invitation not found''), t)
      | Some v \<Rightarrow>
          if in_status v \<noteq> I_pending then (Inl (Bad_request ''Can only resend pending invitations''), t)
          else
            (let t1 = put_invitation (v\<lparr>in_token_hash := snd token_and_hash, in_expires_at := now + week_ms, in_updated_at := now\<rparr>) t
             in case get_workspace t1 (in_workspace_id v) of
                  Inl e \<Rightarrow> (Inl e, t1)
                | Inr w \<Rightarrow>
                    send_mail failure
                      (Invitation_mail (in_workspace_id v) (in_email v) (user_name (user_by_id t1 invitedBy) ''A team member'')
                         (in_role v) (fst token_and_hash)) () t1))"

(* src: api/src/invitations/invitations.service.ts:202-223 revoke *)
definition revoke_invitation :: "int \<Rightarrow> string \<Rightarrow> string \<Rightarrow> tenancy \<Rightarrow> unit reply" where
  "revoke_invitation now i revokedBy t =
     (case find_invitation t i of
        None \<Rightarrow> (Inl (Not_found ''Invitation not found''), t)
      | Some v \<Rightarrow>
          if in_status v \<noteq> I_pending then (Inl (Bad_request ''Can only revoke pending invitations''), t)
          else (Inr (), put_invitation (v\<lparr>in_status := I_revoked, in_revoked_at := Some now, in_revoked_by := Some revokedBy,
                  in_updated_at := now\<rparr>) t))"

definition by_token :: "tenancy \<Rightarrow> string \<Rightarrow> invitation option" where
  "by_token t hash = List.find (\<lambda>v. in_token_hash v = hash) (map snd (tn_invitations t))"

(* src: api/src/invitations/invitations.service.ts:308-320 accept *)
definition token_problem :: "int \<Rightarrow> invitation \<Rightarrow> http_error option" where
  "token_problem now v =
     (if in_status v \<noteq> I_pending
      then Some (Bad_request (if in_status v = I_accepted then ''This invitation has already been accepted''
                              else ''This invitation is no longer valid''))
      else if in_expires_at v < now then Some (Bad_request ''This invitation has expired'')
      else None)"

record invitation_details =
  id_id :: string
  id_workspace :: "string \<times> string \<times> string \<times> string option"
  id_email :: string
  id_role :: role
  id_inviter_name :: string
  id_existing_user :: bool
  id_expires_at :: int

(* src: api/src/invitations/invitations.service.ts:228-280 getByToken *)
definition getByToken :: "(string \<Rightarrow> string) \<Rightarrow> int \<Rightarrow> tenancy \<Rightarrow> string \<Rightarrow> http_error + invitation_details option" where
  "getByToken hashToken now t token =
     (case by_token t (hashToken token) of
        None \<Rightarrow> Inr None
      | Some v \<Rightarrow>
          (case token_problem now v of
             Some e \<Rightarrow> Inl e
           | None \<Rightarrow>
               (case get_workspace t (in_workspace_id v) of
                  Inl e \<Rightarrow> Inl e
                | Inr w \<Rightarrow>
                    Inr (Some \<lparr>id_id = in_id v, id_workspace = (wr_id w, wr_name w, wr_website w, wr_logo_url w), id_email = in_email v,
                      id_role = in_role v, id_inviter_name = user_name (user_by_id t (in_invited_by v)) ''Unknown'',
                      id_existing_user = (user_by_email t (in_email v) \<noteq> None), id_expires_at = in_expires_at v\<rparr>))))"

text \<open>Who accepts: the account of the address, or a new one.\<close>

(* src: api/src/invitations/invitations.service.ts:322-348 accept *)
definition accepting_user ::
    "hashing \<Rightarrow> int \<Rightarrow> string \<Rightarrow> invitation \<Rightarrow> string option \<Rightarrow> string option \<Rightarrow> string option \<Rightarrow> tenancy \<Rightarrow> http_error + string \<times> tenancy" where
  "accepting_user h now new_user_id v name password currentUserId t =
     (case user_by_email t (in_email v) of
        Some u \<Rightarrow>
          if js_truthy currentUserId \<and> currentUserId \<noteq> Some (us_id u)
          then Inl (Forbidden ''This invitation is for a different email address'')
          else Inr (us_id u, t)
      | None \<Rightarrow>
          if \<not> js_truthy name \<or> \<not> js_truthy password then Inl (Bad_request ''Name and password are required for new users'')
          else
            (case create_user h now new_user_id (in_email v) (the name) (the password) (au_accounts (tn_auth t)) of
               Inl e \<Rightarrow> Inl e
             | Inr (u, a) \<Rightarrow> Inr (us_id u, t\<lparr>tn_auth := (tn_auth t)\<lparr>au_accounts := a\<rparr>\<rparr>)))"

(* src: api/src/invitations/invitations.service.ts:285-400 accept *)
definition accept_invitation ::
    "hashing \<Rightarrow> (string \<Rightarrow> string) \<Rightarrow> http_error option \<Rightarrow> int \<Rightarrow> string \<Rightarrow> string \<Rightarrow> string \<Rightarrow> string option \<Rightarrow> string option \<Rightarrow>
       string option \<Rightarrow> tenancy \<Rightarrow> (string \<times> string) reply" where
  "accept_invitation h hashToken failure now new_user_id membership_id token name password currentUserId t =
     (case by_token t (hashToken token) of
        None \<Rightarrow> (Inl (Bad_request ''Invalid invitation token''), t)
      | Some v \<Rightarrow>
          (case token_problem now v of
             Some e \<Rightarrow> (Inl e, t)
           | None \<Rightarrow>
               (case accepting_user h now new_user_id v name password currentUserId t of
                  Inl e \<Rightarrow> (Inl e, t)
                | Inr (userId, t1) \<Rightarrow>
                    (let m = \<lparr>mb_id = membership_id, mb_workspace_id = in_workspace_id v, mb_user_id = userId, mb_role = in_role v,
                              mb_invited_by = Some (in_invited_by v), mb_joined_at = now, mb_created_at = now, mb_updated_at = now\<rparr>;
                         t2 = put_invitation (v\<lparr>in_status := I_accepted, in_accepted_at := Some now, in_updated_at := now\<rparr>) (put_member m t1)
                     in case get_workspace t2 (in_workspace_id v) of
                          Inl e \<Rightarrow> (Inl e, t2)
                        | Inr w \<Rightarrow>
                            send_mail failure
                              (Welcome_mail (in_workspace_id v) (in_email v) (user_name (user_by_id t2 userId) []) (in_role v))
                              (userId, in_workspace_id v) t2))))"

subsection \<open>An invitation is good for one acceptance\<close>

definition invitations_ok :: "tenancy \<Rightarrow> bool" where
  "invitations_ok t \<longleftrightarrow> distinct (map fst (tn_invitations t)) \<and> (\<forall>(i, v) \<in> set (tn_invitations t). in_id v = i) \<and>
     (\<forall>p \<in> set (tn_invitations t). \<forall>q \<in> set (tn_invitations t). in_token_hash (snd p) = in_token_hash (snd q) \<longrightarrow> fst p = fst q)"

definition hashes :: "tenancy \<Rightarrow> string set" where
  "hashes t = in_token_hash ` snd ` set (tn_invitations t)"

definition spent :: "string \<Rightarrow> tenancy \<Rightarrow> bool" where
  "spent hash t \<longleftrightarrow> hash \<in> hashes t \<and> (\<forall>(i, v) \<in> set (tn_invitations t). in_token_hash v = hash \<longrightarrow> in_status v \<noteq> I_pending)"

inductive invitation_step :: "hashing \<Rightarrow> (string \<Rightarrow> string) \<Rightarrow> tenancy \<Rightarrow> tenancy \<Rightarrow> bool" for h hashToken where
  create: "new_id \<notin> fst ` set (tn_invitations t) \<Longrightarrow> snd th \<notin> hashes t \<Longrightarrow>
     invitation_step h hashToken t (snd (create_invitation failure now new_id th ws email r invitedBy t))"
| resend: "snd th \<notin> hashes t \<Longrightarrow> invitation_step h hashToken t (snd (resend_invitation failure now i th invitedBy t))"
| revoke: "invitation_step h hashToken t (snd (revoke_invitation now i revokedBy t))"
| accept: "invitation_step h hashToken t
     (snd (accept_invitation h hashToken failure now new_user_id membership_id token name password currentUserId t))"

text \<open>Every operation leaves the invitations alone or writes one row: a new one, or a new version of a pending one.\<close>

definition rewrite_of :: "tenancy \<Rightarrow> invitation \<Rightarrow> bool" where
  "rewrite_of t v \<longleftrightarrow>
     (in_id v \<notin> fst ` set (tn_invitations t) \<and> in_token_hash v \<notin> hashes t) \<or>
     (\<exists>w. (in_id v, w) \<in> set (tn_invitations t) \<and> in_status w = I_pending \<and>
       (in_token_hash v = in_token_hash w \<or> in_token_hash v \<notin> hashes t))"

lemma send_mail_state: "tn_invitations (snd (send_mail f m x t)) = tn_invitations t"
  "tn_members (snd (send_mail f m x t)) = tn_members t"
  by (simp_all add: send_mail_def split: option.split)

lemma put_invitation_tables [simp]:
  "tn_invitations (put_invitation v t) = AList.update (in_id v) v (tn_invitations t)"
  "tn_members (put_invitation v t) = tn_members t" "tn_workspaces (put_invitation v t) = tn_workspaces t"
  "tn_auth (put_invitation v t) = tn_auth t"
  by (simp_all add: put_invitation_def)

lemma getMembership_put_invitation [simp]: "getMembership (put_invitation v t) = getMembership t"
  by (simp add: getMembership_def fun_eq_iff)

lemma put_member_invitations [simp]: "tn_invitations (put_member m t) = tn_invitations t" "tn_workspaces (put_member m t) = tn_workspaces t"
  by (simp_all add: put_member_def)

lemma set_put_invitation:
  "invitations_ok t \<Longrightarrow> set (AList.update (in_id v) v (tn_invitations t)) =
     insert (in_id v, v) {p \<in> set (tn_invitations t). fst p \<noteq> in_id v}"
  by (simp add: set_update invitations_ok_def)

lemma find_row:
  assumes "invitations_ok t" and "List.find P (map snd (tn_invitations t)) = Some v"
  shows "(in_id v, v) \<in> set (tn_invitations t)" and "P v"
  using find_Some_mem [OF assms(2)] assms(1) by (auto simp: invitations_ok_def)

lemma same_hash:
  "invitations_ok t \<Longrightarrow> (i, a) \<in> set (tn_invitations t) \<Longrightarrow> (j, b) \<in> set (tn_invitations t) \<Longrightarrow>
     in_token_hash a = in_token_hash b \<Longrightarrow> i = j"
  unfolding invitations_ok_def by (metis fst_conv snd_conv)

lemma ok_distinct: "invitations_ok t \<Longrightarrow> distinct (map fst (tn_invitations t))"
  by (simp add: invitations_ok_def)

lemma ok_keys: "invitations_ok t \<Longrightarrow> \<forall>(i, v) \<in> set (tn_invitations t). in_id v = i"
  by (simp add: invitations_ok_def)

lemma rewrite_ok:
  assumes "invitations_ok t" and "rewrite_of t v" and t': "tn_invitations t' = AList.update (in_id v) v (tn_invitations t)"
  shows "invitations_ok t'"
proof -
  have s: "set (tn_invitations t') = insert (in_id v, v) {p \<in> set (tn_invitations t). fst p \<noteq> in_id v}"
    unfolding t' by (rule set_put_invitation [OF assms(1)])
  have other: "in_token_hash w \<noteq> in_token_hash v" if w: "(i, w) \<in> set (tn_invitations t)" "i \<noteq> in_id v" for i w
  proof
    assume e: "in_token_hash w = in_token_hash v"
    have "in_token_hash w \<in> hashes t" using w(1) by (force simp: hashes_def)
    with e assms(2) obtain u where "(in_id v, u) \<in> set (tn_invitations t)" "in_token_hash v = in_token_hash u"
      by (auto simp: rewrite_of_def)
    then have "i = in_id v" using e by (intro same_hash [OF assms(1) w(1)]) simp_all
    with w(2) show False ..
  qed
  have "\<forall>p \<in> set (tn_invitations t'). \<forall>q \<in> set (tn_invitations t'). in_token_hash (snd p) = in_token_hash (snd q) \<longrightarrow> fst p = fst q"
  proof (intro ballI impI)
    fix p q assume pq: "p \<in> set (tn_invitations t')" "q \<in> set (tn_invitations t')" "in_token_hash (snd p) = in_token_hash (snd q)"
    obtain i a j b where "p = (i, a)" "q = (j, b)" by fastforce
    with pq have i: "(i, a) \<in> set (tn_invitations t')" and j: "(j, b) \<in> set (tn_invitations t')" and e: "in_token_hash a = in_token_hash b"
      by simp_all
    have "i = j"
    proof (cases "i = in_id v \<or> j = in_id v")
      case True
      then show ?thesis using i j e other [of j b] other [of i a] unfolding s by fastforce
    next
      case False
      then show ?thesis using i j e same_hash [OF assms(1), of i a j b] unfolding s by simp
    qed
    with \<open>p = (i, a)\<close> \<open>q = (j, b)\<close> show "fst p = fst q" by simp
  qed
  moreover have "distinct (map fst (tn_invitations t'))" by (simp add: t' distinct_update ok_distinct [OF assms(1)])
  moreover have "\<forall>(i, a) \<in> set (tn_invitations t'). in_id a = i" unfolding s using ok_keys [OF assms(1)] by auto
  ultimately show ?thesis unfolding invitations_ok_def by blast
qed

lemma rewrite_spent:
  assumes "invitations_ok t" and "rewrite_of t v" and t': "tn_invitations t' = AList.update (in_id v) v (tn_invitations t)"
    and "spent hash t"
  shows "spent hash t'"
proof -
  have s: "set (tn_invitations t') = insert (in_id v, v) {p \<in> set (tn_invitations t). fst p \<noteq> in_id v}"
    unfolding t' by (rule set_put_invitation [OF assms(1)])
  obtain i w where w: "(i, w) \<in> set (tn_invitations t)" "in_token_hash w = hash" "in_status w \<noteq> I_pending"
    using assms(4) by (force simp: spent_def hashes_def)
  have d: "distinct (map fst (tn_invitations t))" using assms(1) by (simp add: invitations_ok_def)
  have "i \<noteq> in_id v"
  proof
    assume e: "i = in_id v"
    then obtain u where u: "(in_id v, u) \<in> set (tn_invitations t)" "in_status u = I_pending"
      using assms(2) w(1) unfolding rewrite_of_def by force
    then have "u = w" using w(1) e d by (metis eq_key_imp_eq_value)
    with u w show False by simp
  qed
  moreover have "in_token_hash v \<noteq> hash"
  proof
    assume e: "in_token_hash v = hash"
    then obtain u where u: "(in_id v, u) \<in> set (tn_invitations t)" "in_status u = I_pending" "in_token_hash u = hash"
      using assms(2,4) unfolding rewrite_of_def spent_def by auto
    with assms(4) show False by (auto simp: spent_def)
  qed
  ultimately have "(i, w) \<in> set (tn_invitations t')" and new: "\<forall>(j, u) \<in> set (tn_invitations t'). in_token_hash u = hash \<longrightarrow> in_status u \<noteq> I_pending"
    using w(1) assms(4) unfolding s spent_def by auto
  then have "hash \<in> hashes t'" using w(2) by (force simp: hashes_def)
  with new show ?thesis by (simp add: spent_def)
qed

lemma accepting_user_tables:
  "accepting_user h now nid v name pw cur t = Inr (u, t1) \<Longrightarrow> tn_invitations t1 = tn_invitations t \<and> tn_members t1 = tn_members t"
  by (auto simp: accepting_user_def split: option.splits sum.splits if_splits)

lemma accept_tables:
  assumes "by_token t (H token) = Some v" and "token_problem now v = None" and "accepting_user h now nid v name pw cur t = Inr (u, t1)"
  shows "tn_members (snd (accept_invitation h H failure now nid mid token name pw cur t)) =
       tn_members (put_member \<lparr>mb_id = mid, mb_workspace_id = in_workspace_id v, mb_user_id = u, mb_role = in_role v,
          mb_invited_by = Some (in_invited_by v), mb_joined_at = now, mb_created_at = now, mb_updated_at = now\<rparr> t1)"
    and "tn_invitations (snd (accept_invitation h H failure now nid mid token name pw cur t)) =
       AList.update (in_id v) (v\<lparr>in_status := I_accepted, in_accepted_at := Some now, in_updated_at := now\<rparr>) (tn_invitations t)"
  using accepting_user_tables [OF assms(3)]
  by (simp_all add: accept_invitation_def assms Let_def send_mail_state split: sum.split)

lemma accept_state:
  assumes "snd (accept_invitation h H failure now nid mid token name pw cur t) \<noteq> t"
  obtains v u t1 where "by_token t (H token) = Some v" "token_problem now v = None"
    "accepting_user h now nid v name pw cur t = Inr (u, t1)"
    "tn_members (snd (accept_invitation h H failure now nid mid token name pw cur t)) =
       tn_members (put_member \<lparr>mb_id = mid, mb_workspace_id = in_workspace_id v, mb_user_id = u, mb_role = in_role v,
          mb_invited_by = Some (in_invited_by v), mb_joined_at = now, mb_created_at = now, mb_updated_at = now\<rparr> t1)"
    "tn_invitations (snd (accept_invitation h H failure now nid mid token name pw cur t)) =
       AList.update (in_id v) (v\<lparr>in_status := I_accepted, in_accepted_at := Some now, in_updated_at := now\<rparr>) (tn_invitations t)"
proof -
  obtain v where v: "by_token t (H token) = Some v" using assms by (cases "by_token t (H token)") (auto simp: accept_invitation_def)
  have p: "token_problem now v = None" using assms v by (cases "token_problem now v") (auto simp: accept_invitation_def)
  obtain u t1 where a: "accepting_user h now nid v name pw cur t = Inr (u, t1)"
    using assms v p by (cases "accepting_user h now nid v name pw cur t") (auto simp: accept_invitation_def)
  show thesis by (rule that [OF v p a accept_tables [where H = H and token = token, OF v p a]])
qed

lemma pending_if_no_problem: "token_problem now v = None \<Longrightarrow> in_status v = I_pending"
  by (auto simp: token_problem_def split: if_splits)

lemma invitation_step_rewrites:
  assumes "invitation_step h H t t'" and "invitations_ok t"
  shows "tn_invitations t' = tn_invitations t \<or> (\<exists>v. rewrite_of t v \<and> tn_invitations t' = AList.update (in_id v) v (tn_invitations t))"
  using assms(1)
proof cases
  case (create new_id th failure now ws email r invitedBy)
  let ?v = "\<lparr>in_id = new_id, in_workspace_id = ws, in_email = js_lower email, in_role = r, in_token_hash = snd th,
    in_invited_by = invitedBy, in_status = I_pending, in_expires_at = now + week_ms, in_accepted_at = None,
    in_revoked_at = None, in_revoked_by = None, in_created_at = now, in_updated_at = now\<rparr>"
  have "rewrite_of t ?v" using create by (simp add: rewrite_of_def)
  moreover have "tn_invitations t' = tn_invitations t \<or> tn_invitations t' = AList.update (in_id ?v) ?v (tn_invitations t)"
    unfolding create by (simp add: create_invitation_def Let_def send_mail_state split: sum.split)
  ultimately show ?thesis by blast
next
  case (resend th failure now i invitedBy)
  show ?thesis
  proof (cases "find_invitation t i")
    case None
    then show ?thesis by (simp add: resend resend_invitation_def)
  next
    case (Some v)
    note row = find_row [OF assms(2) Some [unfolded find_invitation_def]]
    let ?w = "v\<lparr>in_token_hash := snd th, in_expires_at := now + week_ms, in_updated_at := now\<rparr>"
    have "rewrite_of t ?w" if "in_status v = I_pending" using row resend that by (auto simp: rewrite_of_def)
    moreover have "in_status v = I_pending \<Longrightarrow> tn_invitations t' = AList.update (in_id ?w) ?w (tn_invitations t)"
      by (simp add: resend(1) resend_invitation_def Some Let_def send_mail_state split: sum.split)
    moreover have "in_status v \<noteq> I_pending \<Longrightarrow> t' = t" by (simp add: resend(1) resend_invitation_def Some)
    ultimately show ?thesis by blast
  qed
next
  case (revoke now i revokedBy)
  show ?thesis
  proof (cases "find_invitation t i")
    case None
    then show ?thesis by (simp add: revoke revoke_invitation_def)
  next
    case (Some v)
    note row = find_row [OF assms(2) Some [unfolded find_invitation_def]]
    let ?w = "v\<lparr>in_status := I_revoked, in_revoked_at := Some now, in_revoked_by := Some revokedBy, in_updated_at := now\<rparr>"
    have "rewrite_of t ?w" if "in_status v = I_pending" using row that by (auto simp: rewrite_of_def)
    moreover have "in_status v = I_pending \<Longrightarrow> tn_invitations t' = AList.update (in_id ?w) ?w (tn_invitations t)"
      by (simp add: revoke revoke_invitation_def Some)
    moreover have "in_status v \<noteq> I_pending \<Longrightarrow> t' = t" by (simp add: revoke revoke_invitation_def Some)
    ultimately show ?thesis by blast
  qed
next
  case (accept failure now nid mid token name pw cur)
  show ?thesis
  proof (cases "t' = t")
    case False
    then have ne: "snd (accept_invitation h H failure now nid mid token name pw cur t) \<noteq> t" by (simp add: accept)
    show ?thesis
    proof (rule accept_state [OF ne])
      fix v :: invitation assume v: "by_token t (H token) = Some v" "token_problem now v = None"
        and e: "tn_invitations (snd (accept_invitation h H failure now nid mid token name pw cur t)) =
           AList.update (in_id v) (v\<lparr>in_status := I_accepted, in_accepted_at := Some now, in_updated_at := now\<rparr>) (tn_invitations t)"
      let ?w = "v\<lparr>in_status := I_accepted, in_accepted_at := Some now, in_updated_at := now\<rparr>"
      have "rewrite_of t ?w" using find_row [OF assms(2) v(1) [unfolded by_token_def]] pending_if_no_problem [OF v(2)]
        by (auto simp: rewrite_of_def)
      then show ?thesis using e unfolding accept by (intro disjI2 exI [of _ ?w]) simp
    qed
  qed simp
qed

lemma invitation_steps_keep:
  assumes "(invitation_step h H)\<^sup>*\<^sup>* t t'" and "invitations_ok t" and "spent hash t"
  shows "invitations_ok t' \<and> spent hash t'"
  using assms
proof (induction rule: rtranclp_induct)
  case (step t1 t2)
  then have ok: "invitations_ok t1" "spent hash t1" by simp_all
  from invitation_step_rewrites [OF step(2) ok(1)] show ?case
  proof (elim disjE exE conjE)
    assume "tn_invitations t2 = tn_invitations t1"
    then show ?thesis using ok by (simp only: invitations_ok_def spent_def hashes_def) blast
  next
    fix v assume "rewrite_of t1 v" "tn_invitations t2 = AList.update (in_id v) v (tn_invitations t1)"
    then show ?thesis using rewrite_ok [OF ok(1)] rewrite_spent [OF ok(1) _ _ ok(2)] by blast
  qed
qed simp

lemma spent_refused:
  assumes "invitations_ok t" and "spent (H token) t"
  shows "\<exists>e. accept_invitation h H failure now nid mid token name pw cur t = (Inl e, t)"
proof (cases "by_token t (H token)")
  case None
  then show ?thesis by (simp add: accept_invitation_def)
next
  case (Some v)
  have "(in_id v, v) \<in> set (tn_invitations t)" "in_token_hash v = H token"
    using find_row [OF assms(1) Some [unfolded by_token_def]] by simp_all
  then have "in_status v \<noteq> I_pending" using assms(2) unfolding spent_def by blast
  then show ?thesis by (simp add: accept_invitation_def Some token_problem_def)
qed


text \<open>
  What an acceptance does to the team: the invited role, in the invited workspace, for one user; every other membership is as before. A
  role the user had there is replaced, be it a higher one.
\<close>
theorem acceptance_sets_role:
  assumes "members_keyed t" and "by_token t (hashToken token) = Some v"
    and "t1 = snd (accept_invitation h hashToken failure now new_user_id membership_id token name password cur t)" and "t1 \<noteq> t"
  shows "\<exists>u m. mb_role m = in_role v \<and> (case user_by_email t (in_email v) of Some x \<Rightarrow> u = us_id x | None \<Rightarrow> u = new_user_id) \<and>
     getMembership t1 = (\<lambda>w x. if (w, x) = (in_workspace_id v, u) then Some m else getMembership t w x)"
proof (rule accept_state [OF assms(4) [unfolded assms(3)]])
  fix v' :: invitation and u t0
  let ?m = "\<lparr>mb_id = membership_id, mb_workspace_id = in_workspace_id v', mb_user_id = u, mb_role = in_role v',
    mb_invited_by = Some (in_invited_by v'), mb_joined_at = now, mb_created_at = now, mb_updated_at = now\<rparr>"
  assume v: "by_token t (hashToken token) = Some v'" and a: "accepting_user h now new_user_id v' name password cur t = Inr (u, t0)"
    and m: "tn_members (snd (accept_invitation h hashToken failure now new_user_id membership_id token name password cur t)) =
      tn_members (put_member ?m t0)"
  have vv: "v' = v" using v assms(2) by simp
  have u: "case user_by_email t (in_email v) of Some x \<Rightarrow> u = us_id x | None \<Rightarrow> u = new_user_id"
    using a unfolding vv by (auto simp: accepting_user_def create_user_def Let_def split: option.splits if_splits)
  have "tn_members t0 = tn_members t" using accepting_user_tables [OF a] by simp
  then have "getMembership t1 = (\<lambda>w x. if (w, x) = (in_workspace_id v, u) then Some ?m else getMembership t w x)"
    using m unfolding vv by (auto simp: getMembership_def assms(3) put_member_def update_conv fun_eq_iff)
  then show ?thesis using u by (intro exI [of _ u] exI [of _ ?m]) (simp add: vv)
qed

text \<open>
  So an old invitation can orphan a workspace: accepted by the only owner, it leaves the workspace without any.
\<close>
theorem acceptance_orphans:
  assumes "members_keyed t" and "owners ws t = [m]" and "by_token t (hashToken token) = Some v" and "in_workspace_id v = ws"
    and "in_role v \<noteq> R_owner" and "user_by_email t (in_email v) = Some x" and "us_id x = mb_user_id m"
    and "t1 = snd (accept_invitation h hashToken failure now new_user_id membership_id token name password cur t)" and "t1 \<noteq> t"
  shows "owners ws t1 = []"
proof (rule accept_state [OF assms(9) [unfolded assms(8)]])
  fix v' :: invitation and u t0
  let ?m = "\<lparr>mb_id = membership_id, mb_workspace_id = in_workspace_id v', mb_user_id = u, mb_role = in_role v',
    mb_invited_by = Some (in_invited_by v'), mb_joined_at = now, mb_created_at = now, mb_updated_at = now\<rparr>"
  assume v: "by_token t (hashToken token) = Some v'" and a: "accepting_user h now new_user_id v' name password cur t = Inr (u, t0)"
    and m: "tn_members (snd (accept_invitation h hashToken failure now new_user_id membership_id token name password cur t)) =
      tn_members (put_member ?m t0)"
  have vv: "v' = v" using v assms(3) by simp
  have u: "u = mb_user_id m" using a assms(6,7) unfolding vv by (auto simp: accepting_user_def split: if_splits)
  have "tn_members t1 = tn_members (put_member ?m t)"
    using m accepting_user_tables [OF a] by (simp add: assms(8) put_member_def)
  then have "set (owners ws t1) = set (owners ws (put_member ?m t))" by (simp add: owners_def)
  also have "\<dots> = {}"
  proof -
    have o: "set (owners ws t) = {m}" using assms(2) by simp
    have "mb_workspace_id m = ws" using o owners_mem [of m ws t] by simp
    then have "y \<notin> set (owners ws (put_member ?m t))" for y
      using owners_put [OF assms(1), of y ws ?m] o assms(4,5) unfolding vv u by (auto split: if_splits)
    then show ?thesis by (simp add: set_eq_iff)
  qed
  finally show ?thesis by simp
qed

text \<open>
  A mail that cannot be sent leaves the invitation behind: the request fails, and the same request made again within the week is refused
  because an invitation is pending.
\<close>
theorem failed_mail_blocks_invitation:
  assumes "create_invitation (Some e) now new_id th ws email r invitedBy t = (Inl e, t1)" and "t1 \<noteq> t"
    and "now \<le> later" and "later < now + week_ms"
  shows "create_invitation failure later new_id' th' ws email r invitedBy t1 =
     (Inl (Conflict ''Invitation already pending for this email. Use resend to send again.''), t1)"
proof -
  let ?v = "\<lparr>in_id = new_id, in_workspace_id = ws, in_email = js_lower email, in_role = r, in_token_hash = snd th,
    in_invited_by = invitedBy, in_status = I_pending, in_expires_at = now + week_ms, in_accepted_at = None,
    in_revoked_at = None, in_revoked_by = None, in_created_at = now, in_updated_at = now\<rparr>"
  obtain w where w: "get_workspace t ws = Inr w" and m: "membership_by_email t ws (js_lower email) = None"
    and t1: "t1 = put_invitation ?v t"
    using assms(1,2) by (auto simp: create_invitation_def Let_def send_mail_def split: sum.splits if_splits)
  have "(new_id, ?v) \<in> set (tn_invitations t1)" unfolding t1 put_invitation_tables
    by (metis invitation.select_convs(1) map_of_SomeD map_upd_eqD1 update_conv fun_upd_same)
  then have mem: "?v \<in> set (map snd (tn_invitations t1))" by force
  have "findPendingByEmail t1 later ws (js_lower email) \<noteq> None"
  proof
    assume "findPendingByEmail t1 later ws (js_lower email) = None"
    then have "\<not> (in_workspace_id ?v = ws \<and> in_email ?v = js_lower email \<and> in_status ?v = I_pending \<and> later < in_expires_at ?v)"
      using mem unfolding findPendingByEmail_def find_None_iff by blast
    then show False using assms(4) by simp
  qed
  moreover have "get_workspace t1 ws = Inr w" "membership_by_email t1 ws (js_lower email) = None"
    using w m by (simp_all add: t1 get_workspace_def versions_def membership_by_email_def user_by_email_def split: option.splits)
  ultimately show ?thesis by (simp add: create_invitation_def Let_def)
qed

subsection \<open>Witnesses\<close>

definition sample_invitation :: "string \<Rightarrow> invitation" where
  "sample_invitation email = \<lparr>in_id = ''i'', in_workspace_id = ''w'', in_email = email, in_role = R_viewer, in_token_hash = ''tok'',
     in_invited_by = ''ann'', in_status = I_pending, in_expires_at = 100, in_accepted_at = None, in_revoked_at = None,
     in_revoked_by = None, in_created_at = 0, in_updated_at = 0\<rparr>"

definition inviting :: tenancy where
  "inviting = sample_tenancy\<lparr>tn_members := [((''w'', ''u''), sample_member ''m1'' ''u'' R_owner)],
     tn_auth := demo1, tn_invitations := [(''i'', sample_invitation ''a'')]\<rparr>"

lemmas inviting_simps = inviting_def sample_invitation_def sample_tenancy_def sample_team_def no_tenancy_def sample_member_def
  synthetic_def demo1_def demo_user_def no_auth_def put_user_def

definition accepted :: tenancy where
  "accepted = snd (accept_invitation plain id None 50 ''n'' ''m9'' ''tok'' None None (Some ''u'') inviting)"

lemma inviting_ok: "invitations_ok inviting" "members_keyed inviting"
  by (simp_all add: invitations_ok_def members_keyed_def inviting_simps)

lemma inviting_token: "by_token inviting (id ''tok'') = Some (sample_invitation ''a'')"
  by (simp add: by_token_def inviting_simps)

lemma inviting_rows: "tn_invitations inviting = [(''i'', sample_invitation ''a'')]"
  by (simp add: inviting_def)

lemma inviting_user: "user_by_email inviting ''a'' = Some demo_user"
  by (simp add: user_by_email_def findByEmail_def live_users_def inviting_simps js_lower_def js_lower_char_def)

lemma accepted_differs: "accepted \<noteq> inviting"
proof -
  have "accepting_user plain 50 ''n'' (sample_invitation ''a'') None None (Some ''u'') inviting = Inr (''u'', inviting)"
    using inviting_user by (simp add: accepting_user_def sample_invitation_def demo_user_def)
  note a = accept_tables(2) [where H = id and token = "''tok''", OF inviting_token _ this, of None "''m9''"]
  have "tn_invitations accepted \<noteq> tn_invitations inviting"
    unfolding accepted_def by (subst a) (simp_all add: token_problem_def sample_invitation_def inviting_def)
  then show ?thesis by auto
qed


lemma acceptance_sets_role_witness: "\<exists>u m. mb_role m = R_viewer \<and> getMembership accepted ''w'' u = Some m"
  using acceptance_sets_role [OF inviting_ok(2) inviting_token accepted_def accepted_differs]
  by (auto simp: sample_invitation_def)

lemma acceptance_orphans_witness: "owners ''w'' accepted = []"
proof (rule acceptance_orphans [OF inviting_ok(2) _ inviting_token _ _ _ _ accepted_def accepted_differs])
  show "owners ''w'' inviting = [sample_member ''m1'' ''u'' R_owner]" by (simp add: owners_def inviting_simps)
  show "user_by_email inviting (in_email (sample_invitation ''a'')) = Some demo_user" using inviting_user by (simp add: sample_invitation_def)
qed (simp_all add: sample_invitation_def sample_member_def synthetic_def demo_user_def)

lemma failed_mail_blocks_invitation_witness:
  "\<exists>t1. create_invitation None 8 ''k'' (''x'', ''y'') ''w'' ''z'' R_viewer ''ann'' t1 =
     (Inl (Conflict ''Invitation already pending for this email. Use resend to send again.''), t1)"
proof -
  let ?c = "create_invitation (Some (Bad_request ''SMTP'')) 7 ''j'' (''q'', ''r'') ''w'' ''z'' R_viewer ''ann'' inviting"
  have g: "get_workspace inviting ''w'' = Inr (parseWorkspace sample_ws)"
    using sample_get by (simp add: inviting_def get_workspace_def versions_def)
  have m: "membership_by_email inviting ''w'' ''z'' = None" "findPendingByEmail inviting 7 ''w'' ''z'' = None" "js_lower ''z'' = ''z''"
    by (simp_all add: membership_by_email_def user_by_email_def findByEmail_def live_users_def findPendingByEmail_def inviting_simps
        js_lower_def js_lower_char_def)
  have "?c = (Inl (Bad_request ''SMTP''), snd ?c)" and "tn_invitations (snd ?c) \<noteq> tn_invitations inviting"
    by (simp_all add: create_invitation_def g m Let_def send_mail_def inviting_rows)
  then have "?c = (Inl (Bad_request ''SMTP''), snd ?c)" "snd ?c \<noteq> inviting" by auto
  from failed_mail_blocks_invitation [OF this, of 8 None "''k''" "(''x'', ''y'')"] show ?thesis
    by (auto simp: week_ms_def day_ms_def)
qed

end
