(* ===== verification/Api_Keys.thy ===== *)
theory Api_Keys
  imports Workspaces
begin

section \<open>API keys\<close>

text \<open>
  \<^verbatim>\<open>api/src/api-keys/api-keys.service.ts\<close> and \<^verbatim>\<open>api/src/auth/strategies/api-key.strategy.ts\<close>. The table
  is the list of the versions inserted. The time of the last use is updated in the background: the update reads the newest version
  and inserts a copy of it later, so its two halves are operations of their own. A key, its hash and its prefix are drawn by the
  caller. Expiry dates are instants with milliseconds and a final Z; rewriting a row trims the text of its expiry date by a
  digit.
\<close>

(* src: api/src/common/utils/datetime.util.ts:15-21 isoToClickHouseDateTime *)
definition rewritten_expiry :: "int option \<Rightarrow> int option" where
  "rewritten_expiry = map_option (\<lambda>e. 10 * (e div 10))"

(* src: api/src/api-keys/api-keys.service.ts:57-78 serializeApiKey *)
definition insert_again :: "api_key \<Rightarrow> tenancy \<Rightarrow> tenancy" where
  "insert_again k t = t\<lparr>tn_api_keys := tn_api_keys t @ [k\<lparr>ak_expires_at := rewritten_expiry (ak_expires_at k)\<rparr>]\<rparr>"

definition delete_keys :: "string \<Rightarrow> tenancy \<Rightarrow> tenancy" where
  "delete_keys i t = t\<lparr>tn_api_keys := filter (\<lambda>k. ak_id k \<noteq> i) (tn_api_keys t)\<rparr>"

definition key_by_id :: "tenancy \<Rightarrow> string \<Rightarrow> api_key option" where
  "key_by_id t i = newest ak_updated_at (filter (\<lambda>k. ak_id k = i) (tn_api_keys t))"

(* src: api/src/api-keys/api-keys.service.ts:440-456 findByToken *)
definition findByToken :: "(string \<Rightarrow> string) \<Rightarrow> tenancy \<Rightarrow> string \<Rightarrow> api_key option" where
  "findByToken hashToken t token = newest ak_updated_at (filter (\<lambda>k. ak_key_hash k = hashToken token) (tn_api_keys t))"

definition role_text :: "role \<Rightarrow> string" where
  "role_text r = (case r of R_owner \<Rightarrow> ''owner'' | R_admin \<Rightarrow> ''admin'' | R_editor \<Rightarrow> ''editor'' | R_viewer \<Rightarrow> ''viewer'')"

definition status_text :: "key_status \<Rightarrow> string" where
  "status_text s = (case s of K_active \<Rightarrow> ''active'' | K_revoked \<Rightarrow> ''revoked'' | K_expired \<Rightarrow> ''expired'')"

(* src: api/src/api-keys/api-keys.service.ts:487-514 validateRoleForUser *)
definition validateRoleForUser :: "tenancy \<Rightarrow> string \<Rightarrow> string \<Rightarrow> role \<Rightarrow> http_error option" where
  "validateRoleForUser t ws userId r =
     (case getMembership t ws userId of
        None \<Rightarrow> Some (Forbidden ''Not a member of this workspace'')
      | Some m \<Rightarrow>
          if \<not> hasPermission (mb_role m) Integrations_manage then Some (Forbidden ''Insufficient permissions to create API keys'')
          else if ROLE_HIERARCHY (mb_role m) < ROLE_HIERARCHY r
          then Some (Forbidden (''Cannot create API key with role '' @ [CHR 0x27] @ role_text r @ [CHR 0x27] @ '': exceeds your role level''))
          else None)"

definition new_key ::
    "int \<Rightarrow> string \<Rightarrow> string \<times> string \<Rightarrow> string \<Rightarrow> string option \<Rightarrow> string \<Rightarrow> string \<Rightarrow> role \<Rightarrow> int option \<Rightarrow> string \<Rightarrow> api_key" where
  "new_key now i hash_prefix userId ws name description r expires created_by =
     \<lparr>ak_id = i, ak_key_hash = fst hash_prefix, ak_key_prefix = snd hash_prefix, ak_user_id = userId, ak_workspace_id = ws, ak_name = name,
      ak_description = description, ak_role = r, ak_status = K_active, ak_expires_at = expires, ak_last_used_at = None,
      ak_failed_attempts_count = 0, ak_last_failed_attempt_at = None, ak_created_by = created_by, ak_revoked_by = None,
      ak_revoked_at = None, ak_created_at = now, ak_updated_at = now\<rparr>"

text \<open>Inserting a key for the first time: its expiry date is still the text given, which loses only its final letter.\<close>

(* src: api/src/api-keys/api-keys.service.ts:94-131 create *)
definition create_key ::
    "int \<Rightarrow> string \<Rightarrow> string \<times> string \<Rightarrow> string \<Rightarrow> string \<Rightarrow> string option \<Rightarrow> role \<Rightarrow> int option \<Rightarrow> string \<Rightarrow> string \<Rightarrow> tenancy \<Rightarrow> api_key reply" where
  "create_key now i hash_prefix ws name description r expires userId created_by t =
     (case validateRoleForUser t ws created_by r of
        Some e \<Rightarrow> (Inl e, t)
      | None \<Rightarrow>
          (let k = new_key now i hash_prefix userId (Some ws) name (js_nullish description []) r expires created_by
           in (Inr k, t\<lparr>tn_api_keys := tn_api_keys t @ [k]\<rparr>)))"

(* src: api/src/api-keys/api-keys.service.ts:145-177 createForPlatform *)
definition createForPlatform ::
    "int \<Rightarrow> string \<Rightarrow> string \<times> string \<Rightarrow> string \<Rightarrow> string option \<Rightarrow> string option \<Rightarrow> role option \<Rightarrow> tenancy \<Rightarrow> api_key reply" where
  "createForPlatform now i hash_prefix ws name description r t =
     (let k = new_key now i hash_prefix ''platform'' (Some ws) (js_nullish name ''Platform-provisioned key'')
                (js_nullish description ''Auto-provisioned via /api/admin/platform/workspaces.provisionApiKey (M2M).'')
                (js_nullish r R_admin) None ''platform-admin''
      in (Inr k, t\<lparr>tn_api_keys := tn_api_keys t @ [k]\<rparr>))"

text \<open>\<open>(id, updated_at) IN (SELECT id, max(updated_at) ... GROUP BY id)\<close>\<close>

definition is_latest :: "tenancy \<Rightarrow> api_key \<Rightarrow> bool" where
  "is_latest t k = list_all (\<lambda>j. ak_id j = ak_id k \<longrightarrow> ak_updated_at j \<le> ak_updated_at k) (tn_api_keys t)"

(* src: api/src/api-keys/api-keys.service.ts:254-298 resolveWorkspaceKey *)
definition resolveWorkspaceKey :: "tenancy \<Rightarrow> string \<Rightarrow> string option \<Rightarrow> string option \<Rightarrow> http_error + api_key" where
  "resolveWorkspaceKey t ws key_id key_prefix =
     (let rows = sort_desc ak_created_at
            (filter (\<lambda>k. ak_workspace_id k = Some ws \<and> (\<not> js_truthy key_id \<or> key_id = Some (ak_id k)) \<and>
                         (\<not> js_truthy key_prefix \<or> key_prefix = Some (ak_key_prefix k)) \<and> is_latest t k) (tn_api_keys t))
      in if rows = [] then Inl (Not_found ((if js_truthy key_id then ''API key '' @ js_nullish key_id [] else ''API key with prefix '' @ js_nullish key_prefix []) @ '' not found in workspace '' @ ws))
         else if 1 < length rows then Inl (Conflict (''Multiple API keys match prefix '' @ js_nullish key_prefix ''undefined'' @ '' in workspace '' @ ws @ ''; revoke by key_id instead.''))
         else Inr (hd rows))"

(* src: api/src/api-keys/api-keys.service.ts:197-233 revokeForPlatform *)
definition revokeForPlatform :: "int \<Rightarrow> string \<Rightarrow> string option \<Rightarrow> string option \<Rightarrow> tenancy \<Rightarrow> api_key reply" where
  "revokeForPlatform now ws key_id key_prefix t =
     (if \<not> js_truthy key_id \<and> \<not> js_truthy key_prefix
      then (Inl (Bad_request ''Either key_id or key_prefix must be provided to revoke a key.''), t)
      else
        (case resolveWorkspaceKey t ws key_id key_prefix of
           Inl e \<Rightarrow> (Inl e, t)
         | Inr k \<Rightarrow>
             if ak_status k = K_revoked then (Inr k, t)
             else
               (let updated = k\<lparr>ak_status := K_revoked, ak_revoked_by := Some ''platform-admin'', ak_revoked_at := Some now, ak_updated_at := now\<rparr>
                in (Inr updated, insert_again updated (delete_keys (ak_id k) t)))))"

(* src: api/src/api-keys/api-keys.service.ts:300-343 list *)
definition list_keys :: "tenancy \<Rightarrow> string option \<Rightarrow> string option option \<Rightarrow> key_status option \<Rightarrow> api_key list" where
  "list_keys t userId ws status =
     sort_desc ak_created_at
       (filter (\<lambda>k. (\<not> js_truthy userId \<or> userId = Some (ak_user_id k)) \<and>
                    (case ws of None \<Rightarrow> True | Some w \<Rightarrow> ak_workspace_id k = w) \<and>
                    (case status of None \<Rightarrow> True | Some s \<Rightarrow> ak_status k = s) \<and> is_latest t k) (tn_api_keys t))"

(* src: api/src/api-keys/api-keys.service.ts:242-247 listForPlatform *)
definition listForPlatform :: "tenancy \<Rightarrow> string \<Rightarrow> key_status option \<Rightarrow> api_key list" where
  "listForPlatform t ws status = list_keys t None (Some (Some ws)) status"

(* src: api/src/api-keys/api-keys.service.ts:345-356 get *)
definition get_key :: "tenancy \<Rightarrow> string \<Rightarrow> http_error + api_key" where
  "get_key t i = (case key_by_id t i of None \<Rightarrow> Inl (Not_found (''API key '' @ i @ '' not found'')) | Some k \<Rightarrow> Inr k)"

text \<open>Revocation reads the row, then deletes and inserts.\<close>

(* src: api/src/api-keys/api-keys.service.ts:358-381 revoke *)
definition revoke_begin :: "int \<Rightarrow> string \<Rightarrow> string \<Rightarrow> tenancy \<Rightarrow> http_error + api_key" where
  "revoke_begin now i revoked_by t =
     (case get_key t i of
        Inl e \<Rightarrow> Inl e
      | Inr k \<Rightarrow> Inr (k\<lparr>ak_status := K_revoked, ak_revoked_by := Some revoked_by, ak_revoked_at := Some now, ak_updated_at := now\<rparr>))"

(* src: api/src/api-keys/api-keys.service.ts:383-390 revoke *)
definition revoke_end :: "string \<Rightarrow> api_key \<Rightarrow> tenancy \<Rightarrow> tenancy" where
  "revoke_end i updated t = insert_again updated (delete_keys i t)"

(* src: api/src/api-keys/api-keys.service.ts:358-390 revoke *)
definition revoke_key :: "int \<Rightarrow> string \<Rightarrow> string \<Rightarrow> tenancy \<Rightarrow> api_key reply" where
  "revoke_key now i revoked_by t =
     (case revoke_begin now i revoked_by t of Inl e \<Rightarrow> (Inl e, t) | Inr k \<Rightarrow> (Inr k, revoke_end i k t))"

(* src: api/src/api-keys/api-keys.service.ts:395-401 isExpired *)
definition isExpired :: "int \<Rightarrow> api_key \<Rightarrow> bool" where
  "isExpired now k = (case ak_expires_at k of None \<Rightarrow> False | Some e \<Rightarrow> e < now)"

(* src: api/src/api-keys/api-keys.service.ts:407-434 updateExpiredStatus *)
definition updateExpiredStatus :: "int \<Rightarrow> string \<Rightarrow> tenancy \<Rightarrow> tenancy" where
  "updateExpiredStatus now i t =
     (case key_by_id t i of
        None \<Rightarrow> t
      | Some k \<Rightarrow>
          if ak_status k = K_active \<and> isExpired now k
          then insert_again (k\<lparr>ak_status := K_expired, ak_updated_at := now\<rparr>) (delete_keys i t) else t)"

text \<open>The time of the last use: the instant is taken and the row read first, the copy inserted afterwards.\<close>

(* src: api/src/api-keys/api-keys.service.ts:461-478 updateLastUsed *)
definition last_used_begin :: "int \<Rightarrow> string \<Rightarrow> tenancy \<Rightarrow> api_key option" where
  "last_used_begin now i t = map_option (\<lambda>k. k\<lparr>ak_last_used_at := Some now, ak_updated_at := now\<rparr>) (key_by_id t i)"

(* src: api/src/api-keys/api-keys.service.ts:480-481 updateLastUsed *)
definition last_used_end :: "api_key option \<Rightarrow> tenancy \<Rightarrow> tenancy" where
  "last_used_end copy t = (case copy of None \<Rightarrow> t | Some k \<Rightarrow> insert_again k t)"

(* src: api/src/auth/strategies/api-key.strategy.ts:22-59 validate *)
definition validate_key :: "(string \<Rightarrow> string) \<Rightarrow> int \<Rightarrow> string \<Rightarrow> tenancy \<Rightarrow> http_error + caller" where
  "validate_key hashToken now token t =
     (if \<not> js_starts_with token ''stam_live_'' then Inl (Unauthorized ''Invalid API key format'')
      else
        (case findByToken hashToken t token of
           None \<Rightarrow> Inl (Unauthorized ''Invalid API key'')
         | Some k \<Rightarrow>
             if ak_status k \<noteq> K_active then Inl (Unauthorized (''API key is '' @ status_text (ak_status k)))
             else if isExpired now k then Inl (Unauthorized ''API key has expired'')
             else
               (case ak_workspace_id k of
                  None \<Rightarrow> Inl (Unauthorized ''API key not bound to workspace'')
                | Some ws \<Rightarrow>
                    if ws = [] then Inl (Unauthorized ''API key not bound to workspace'')
                    else Inr (Api_key (ak_id k) ws (ak_role k)))))"

subsection \<open>Revocation\<close>

text \<open>Versions of one key share its hash, and no two keys do.\<close>

definition keys_ok :: "tenancy \<Rightarrow> bool" where
  "keys_ok t \<longleftrightarrow> (\<forall>j \<in> set (tn_api_keys t). \<forall>k \<in> set (tn_api_keys t). (ak_id j = ak_id k) = (ak_key_hash j = ak_key_hash k))"

definition key_dead :: "string \<Rightarrow> tenancy \<Rightarrow> bool" where
  "key_dead hash t \<longleftrightarrow> hash \<in> ak_key_hash ` set (tn_api_keys t) \<and>
     (\<forall>k \<in> set (tn_api_keys t). ak_key_hash k = hash \<longrightarrow> ak_status k = K_revoked)"

text \<open>One request after the other, each use of a key recorded before the next request.\<close>

inductive key_step :: "tenancy \<Rightarrow> tenancy \<Rightarrow> bool" where
  create: "i \<notin> ak_id ` set (tn_api_keys t) \<Longrightarrow> fst hp \<notin> ak_key_hash ` set (tn_api_keys t) \<Longrightarrow>
     key_step t (snd (create_key now i hp ws name description r expires userId created_by t))"
| platform: "i \<notin> ak_id ` set (tn_api_keys t) \<Longrightarrow> fst hp \<notin> ak_key_hash ` set (tn_api_keys t) \<Longrightarrow>
     key_step t (snd (createForPlatform now i hp ws name' description r' t))"
| revoke: "key_step t (snd (revoke_key now i revoked_by t))"
| revoke_platform: "key_step t (snd (revokeForPlatform now ws key_id key_prefix t))"
| expire: "key_step t (updateExpiredStatus now i t)"
| used: "key_step t (last_used_end (last_used_begin now i t) t)"

text \<open>Each step appends at most one row, deleting or not the other versions of the same key.\<close>

definition appends :: "tenancy \<Rightarrow> api_key \<Rightarrow> tenancy \<Rightarrow> bool" where
  "appends t k t' \<longleftrightarrow> set (tn_api_keys t') = insert k (set (tn_api_keys t)) \<or>
     set (tn_api_keys t') = insert k {j \<in> set (tn_api_keys t). ak_id j \<noteq> ak_id k}"

definition descends :: "tenancy \<Rightarrow> api_key \<Rightarrow> bool" where
  "descends t k \<longleftrightarrow>
     (ak_id k \<notin> ak_id ` set (tn_api_keys t) \<and> ak_key_hash k \<notin> ak_key_hash ` set (tn_api_keys t)) \<or>
     (\<exists>j \<in> set (tn_api_keys t). ak_id k = ak_id j \<and> ak_key_hash k = ak_key_hash j \<and> (ak_status j = K_revoked \<longrightarrow> ak_status k = K_revoked))"

lemma insert_again_rows:
  "set (tn_api_keys (insert_again k t)) = insert (k\<lparr>ak_expires_at := rewritten_expiry (ak_expires_at k)\<rparr>) (set (tn_api_keys t))"
  by (simp add: insert_again_def)

lemma delete_keys_rows: "set (tn_api_keys (delete_keys i t)) = {j \<in> set (tn_api_keys t). ak_id j \<noteq> i}"
  by (auto simp: delete_keys_def)

lemma key_by_id_mem: "key_by_id t i = Some k \<Longrightarrow> k \<in> set (tn_api_keys t) \<and> ak_id k = i"
  unfolding key_by_id_def using newest_mem by fastforce

lemma findByToken_mem: "findByToken H t token = Some k \<Longrightarrow> k \<in> set (tn_api_keys t) \<and> ak_key_hash k = H token"
  unfolding findByToken_def using newest_mem by fastforce

lemma newest_single [simp]: "newest key [x] = Some x"
  by (simp add: newest_def sort_desc_def)

lemma appends_keeps:
  assumes "appends t k t'" and "descends t k" and "keys_ok t"
  shows "keys_ok t' \<and> (key_dead hash t \<longrightarrow> key_dead hash t')"
proof -
  have same: "(ak_id j = ak_id k) = (ak_key_hash j = ak_key_hash k)" if "j \<in> set (tn_api_keys t)" for j
    using assms(2,3) that unfolding descends_def keys_ok_def by (metis image_eqI)
  have rows: "j = k \<or> j \<in> set (tn_api_keys t)" if "j \<in> set (tn_api_keys t')" for j using assms(1) that by (auto simp: appends_def)
  have ok: "keys_ok t'"
    unfolding keys_ok_def
  proof (intro ballI)
    fix i j assume "i \<in> set (tn_api_keys t')" "j \<in> set (tn_api_keys t')"
    then have "(i = k \<or> i \<in> set (tn_api_keys t)) \<and> (j = k \<or> j \<in> set (tn_api_keys t))" using rows by blast
    then show "(ak_id i = ak_id j) = (ak_key_hash i = ak_key_hash j)"
      using same [of i] same [of j] assms(3) unfolding keys_ok_def by metis
  qed
  have "key_dead hash t'" if d: "key_dead hash t"
  proof -
    have k: "ak_status k = K_revoked" if e: "ak_key_hash k = hash"
      using assms(2) d e unfolding descends_def key_dead_def by auto
    obtain j where j: "j \<in> set (tn_api_keys t)" "ak_key_hash j = hash" using d by (auto simp: key_dead_def)
    have "hash \<in> ak_key_hash ` set (tn_api_keys t')"
    proof (cases "ak_id j = ak_id k")
      case True
      then have "ak_key_hash k = hash" using same [OF j(1)] j(2) by simp
      then show ?thesis using assms(1) by (auto simp: appends_def)
    next
      case False
      then have "j \<in> set (tn_api_keys t')" using assms(1) j by (auto simp: appends_def)
      then show ?thesis using j by blast
    qed
    then show ?thesis using k rows d unfolding key_dead_def by blast
  qed
  with ok show ?thesis by blast
qed

lemma key_step_appends:
  assumes "key_step t t'"
  shows "t' = t \<or> (\<exists>k. appends t k t' \<and> descends t k)"
  using assms
proof cases
  case (create i hp now ws name description r expires userId created_by)
  let ?k = "new_key now i hp userId (Some ws) name (js_nullish description []) r expires created_by"
  show ?thesis
  proof (cases "validateRoleForUser t ws created_by r")
    case None
    then have "appends t ?k t'" "descends t ?k" using create by (simp_all add: create_key_def appends_def descends_def new_key_def Let_def)
    then show ?thesis by blast
  qed (simp add: create(1) create_key_def)
next
  case (platform i hp now ws name' description r')
  obtain k where "createForPlatform now i hp ws name' description r' t = (Inr k, t\<lparr>tn_api_keys := tn_api_keys t @ [k]\<rparr>)"
      "ak_id k = i" "ak_key_hash k = fst hp" by (auto simp: createForPlatform_def Let_def new_key_def)
  then have "appends t k t'" "descends t k" using platform by (simp_all add: appends_def descends_def)
  then show ?thesis by blast
next
  case (revoke now i revoked_by)
  show ?thesis
  proof (cases "key_by_id t i")
    case None
    then show ?thesis by (simp add: revoke revoke_key_def revoke_begin_def get_key_def)
  next
    case (Some k)
    let ?u = "k\<lparr>ak_status := K_revoked, ak_revoked_by := Some revoked_by, ak_revoked_at := Some now, ak_updated_at := now\<rparr>"
    have t': "t' = insert_again ?u (delete_keys i t)"
      using Some by (simp add: revoke revoke_key_def revoke_begin_def revoke_end_def get_key_def)
    have "appends t (?u\<lparr>ak_expires_at := rewritten_expiry (ak_expires_at ?u)\<rparr>) t'"
      using key_by_id_mem [OF Some] unfolding t' appends_def insert_again_rows delete_keys_rows by simp
    moreover have "descends t (?u\<lparr>ak_expires_at := rewritten_expiry (ak_expires_at ?u)\<rparr>)"
      using key_by_id_mem [OF Some] by (auto simp: descends_def)
    ultimately show ?thesis by blast
  qed
next
  case (revoke_platform now ws key_id key_prefix)
  show ?thesis
  proof (cases "t' = t")
    case False
    then obtain k where k: "resolveWorkspaceKey t ws key_id key_prefix = Inr k"
      using revoke_platform by (auto simp: revokeForPlatform_def split: sum.splits if_splits)
    let ?u = "k\<lparr>ak_status := K_revoked, ak_revoked_by := Some ''platform-admin'', ak_revoked_at := Some now, ak_updated_at := now\<rparr>"
    have t': "t' = insert_again ?u (delete_keys (ak_id k) t)"
      using False k revoke_platform by (auto simp: revokeForPlatform_def Let_def split: if_splits)
    have "k \<in> set (tn_api_keys t)"
    proof -
      define rows where "rows = sort_desc ak_created_at (filter (\<lambda>k. ak_workspace_id k = Some ws \<and> (\<not> js_truthy key_id \<or> key_id = Some (ak_id k)) \<and>
         (\<not> js_truthy key_prefix \<or> key_prefix = Some (ak_key_prefix k)) \<and> is_latest t k) (tn_api_keys t))"
      have "rows \<noteq> []" "k = hd rows"
        using k unfolding resolveWorkspaceKey_def Let_def rows_def [symmetric] by (auto split: if_splits)
      then have "k \<in> set rows" by simp
      then have "k \<in> set (tn_api_keys t)" unfolding rows_def by simp
      then show ?thesis by simp
    qed
    then have "descends t (?u\<lparr>ak_expires_at := rewritten_expiry (ak_expires_at ?u)\<rparr>)" by (auto simp: descends_def)
    moreover have "appends t (?u\<lparr>ak_expires_at := rewritten_expiry (ak_expires_at ?u)\<rparr>) t'"
      unfolding t' appends_def insert_again_rows delete_keys_rows by simp
    ultimately show ?thesis by blast
  qed simp
next
  case (expire now i)
  show ?thesis
  proof (cases "t' = t")
    case False
    then obtain k where k: "key_by_id t i = Some k" "ak_status k = K_active"
      and t': "t' = insert_again (k\<lparr>ak_status := K_expired, ak_updated_at := now\<rparr>) (delete_keys i t)"
      using expire by (auto simp: updateExpiredStatus_def split: option.splits if_splits)
    let ?u = "k\<lparr>ak_status := K_expired, ak_updated_at := now\<rparr>"
    have "appends t (?u\<lparr>ak_expires_at := rewritten_expiry (ak_expires_at ?u)\<rparr>) t'"
      using key_by_id_mem [OF k(1)] unfolding t' appends_def insert_again_rows delete_keys_rows by simp
    moreover have "descends t (?u\<lparr>ak_expires_at := rewritten_expiry (ak_expires_at ?u)\<rparr>)"
      using key_by_id_mem [OF k(1)] k(2) by (auto simp: descends_def)
    ultimately show ?thesis by blast
  qed simp
next
  case (used now i)
  show ?thesis
  proof (cases "key_by_id t i")
    case None
    then show ?thesis by (simp add: used last_used_begin_def last_used_end_def)
  next
    case (Some k)
    let ?u = "k\<lparr>ak_last_used_at := Some now, ak_updated_at := now\<rparr>"
    have t': "t' = insert_again ?u t" using Some by (simp add: used last_used_begin_def last_used_end_def)
    have "appends t (?u\<lparr>ak_expires_at := rewritten_expiry (ak_expires_at ?u)\<rparr>) t'"
      unfolding t' appends_def insert_again_rows by simp
    moreover have "descends t (?u\<lparr>ak_expires_at := rewritten_expiry (ak_expires_at ?u)\<rparr>)"
      using key_by_id_mem [OF Some] by (auto simp: descends_def)
    ultimately show ?thesis by blast
  qed
qed

lemma key_steps_keep:
  assumes "key_step\<^sup>*\<^sup>* t t'" and "keys_ok t" and "key_dead hash t"
  shows "keys_ok t' \<and> key_dead hash t'"
  using assms
proof (induction rule: rtranclp_induct)
  case (step t1 t2)
  then show ?case using key_step_appends [OF step(2)] appends_keeps [of t1 _ t2 hash] by blast
qed simp


text \<open>
  A use recorded across a revocation brings the key back. The use takes its instant and reads the row, the revocation goes through
  with an earlier instant, and the use inserts its copy, active and newest: the revoked key authenticates again.
\<close>
theorem revocation_undone_by_use:
  assumes "keys_ok t" and "key_by_id t i = Some k" and "validate_key hashToken later token t = Inr c" and "ak_key_hash k = hashToken token"
    and "revoke_begin now i revoked_by t = Inr r" and "now < used_at" and "case ak_expires_at k of None \<Rightarrow> True | Some e \<Rightarrow> later \<le> 10 * (e div 10)"
  shows "validate_key hashToken later token (last_used_end (last_used_begin used_at i t) (revoke_end i r t)) = Inr c"
proof -
  have m: "k \<in> set (tn_api_keys t)" "ak_id k = i" using key_by_id_mem [OF assms(2)] by simp_all
  have iff: "(ak_id j = i) = (ak_key_hash j = hashToken token)" if "j \<in> set (tn_api_keys t)" for j
    using assms(1,4) m that unfolding keys_ok_def by metis
  then have "filter (\<lambda>j. ak_key_hash j = hashToken token) (tn_api_keys t) = filter (\<lambda>j. ak_id j = i) (tn_api_keys t)"
    by (auto intro: filter_cong)
  then have find: "findByToken hashToken t token = Some k" using assms(2) by (simp add: findByToken_def key_by_id_def)
  have v: "js_starts_with token ''stam_live_''" "ak_status k = K_active" "c = Api_key (ak_id k) (the (ak_workspace_id k)) (ak_role k)"
      "\<exists>ws. ak_workspace_id k = Some ws \<and> ws \<noteq> []"
    using assms(3) find by (auto simp: validate_key_def split: if_splits option.splits)
  let ?r = "k\<lparr>ak_status := K_revoked, ak_revoked_by := Some revoked_by, ak_revoked_at := Some now, ak_updated_at := now\<rparr>"
  let ?u = "k\<lparr>ak_last_used_at := Some used_at, ak_updated_at := used_at\<rparr>"
  let ?re = "\<lambda>k. k\<lparr>ak_expires_at := rewritten_expiry (ak_expires_at k)\<rparr>"
  let ?t = "last_used_end (last_used_begin used_at i t) (revoke_end i r t)"
  have "r = ?r" using assms(2,5) by (simp add: revoke_begin_def get_key_def)
  then have "tn_api_keys ?t = filter (\<lambda>j. ak_id j \<noteq> i) (tn_api_keys t) @ [?re ?r, ?re ?u]"
    using assms(2) by (simp add: last_used_begin_def last_used_end_def revoke_end_def insert_again_def delete_keys_def)
  moreover have "filter (\<lambda>j. ak_key_hash j = hashToken token) (filter (\<lambda>j. ak_id j \<noteq> i) (tn_api_keys t)) = []"
    using iff by (auto simp: filter_empty_conv)
  ultimately have "filter (\<lambda>j. ak_key_hash j = hashToken token) (tn_api_keys ?t) = [?re ?r, ?re ?u]"
    using assms(4) by simp
  moreover have "newest ak_updated_at [?re ?r, ?re ?u] = Some (?re ?u)" using assms(6) by (intro newest_unique) auto
  ultimately have "findByToken hashToken ?t token = Some (?re ?u)" by (simp add: findByToken_def)
  moreover have "\<not> isExpired later (?re ?u)"
    using assms(7) by (cases "ak_expires_at k") (simp_all add: isExpired_def rewritten_expiry_def)
  ultimately show ?thesis using v by (auto simp: validate_key_def)
qed

text \<open>
  Nobody gives a key more than they may do themselves. If a key just created passes the guard of an endpoint, its creator is a
  member of the key's workspace whose own role has the permission the endpoint asks for, and the request is for that workspace.
\<close>
theorem key_within_creator:
  assumes "create_key now i hash_prefix ws name description r expires userId created_by t = (Inr k, t1)" and "keys_ok t"
    and "i \<notin> ak_id ` set (tn_api_keys t)" and "fst hash_prefix \<notin> ak_key_hash ` set (tn_api_keys t)" and "fst hash_prefix = hashToken token"
    and "validate_key hashToken later token t1 = Inr c" and "canActivate lookup later (Some p) c rq = Inr m"
  shows "\<exists>cm. getMembership t ws created_by = Some cm \<and> hasPermission (mb_role cm) p \<and> r \<le> mb_role cm \<and> guard_workspace rq = Some ws"
proof -
  let ?k = "new_key now i hash_prefix userId (Some ws) name (js_nullish description []) r expires created_by"
  have ok: "validateRoleForUser t ws created_by r = None" and t1: "tn_api_keys t1 = tn_api_keys t @ [?k]"
    using assms(1) by (auto simp: create_key_def Let_def split: option.splits)
  obtain cm where cm: "getMembership t ws created_by = Some cm" "r \<le> mb_role cm"
    using ok by (auto simp: validateRoleForUser_def less_eq_role_def split: option.splits if_splits)
  have "filter (\<lambda>j. ak_key_hash j = hashToken token) (tn_api_keys t1) = [?k]"
    using assms(4,5) by (auto simp: t1 new_key_def filter_empty_conv) (metis image_eqI)
  then have "findByToken hashToken t1 token = Some ?k" by (simp add: findByToken_def)
  then have c: "c = Api_key i ws r" using assms(6) by (auto simp: validate_key_def new_key_def split: if_splits)
  have "hasPermission r p" "guard_workspace rq = Some ws"
    using assms(7) unfolding c by (auto simp: canActivate_def split: option.splits if_splits)
  then show ?thesis using cm hasPermission_up by blast
qed

subsection \<open>Witnesses\<close>

definition sample_key :: api_key where
  "sample_key = new_key 1 ''k'' (''stam_live_1'', ''stam'') ''ann'' (Some ''w'') ''K'' [] R_admin None ''ann''"

definition keyed :: tenancy where
  "keyed = sample_tenancy\<lparr>tn_api_keys := [sample_key]\<rparr>"

lemma sample_no_keys: "tn_api_keys sample_tenancy = []"
  by (simp add: sample_tenancy_def sample_team_def no_tenancy_def)

lemma keyed_facts:
  "keys_ok keyed" "key_by_id keyed ''k'' = Some sample_key" "validate_key id 5 ''stam_live_1'' keyed = Inr (Api_key ''k'' ''w'' R_admin)"
  by (simp_all add: keys_ok_def keyed_def key_by_id_def sample_key_def new_key_def newest_def sort_desc_def validate_key_def
      findByToken_def js_starts_with_def isExpired_def)


lemma revocation_undone_by_use_witness:
  "\<exists>r. revoke_begin 3 ''k'' ''ann'' keyed = Inr r \<and>
     validate_key id 5 ''stam_live_1'' (last_used_end (last_used_begin 4 ''k'' keyed) (revoke_end ''k'' r keyed)) = Inr (Api_key ''k'' ''w'' R_admin)"
proof -
  obtain r where r: "revoke_begin 3 ''k'' ''ann'' keyed = Inr r"
    using keyed_facts(2) by (simp add: revoke_begin_def get_key_def)
  have "validate_key id 5 ''stam_live_1'' (last_used_end (last_used_begin 4 ''k'' keyed) (revoke_end ''k'' r keyed)) = Inr (Api_key ''k'' ''w'' R_admin)"
    by (rule revocation_undone_by_use [OF keyed_facts _ r]) (simp_all add: sample_key_def new_key_def)
  with r show ?thesis by blast
qed

lemma key_within_creator_witness: "\<exists>cm. getMembership sample_tenancy ''w'' ''ann'' = Some cm \<and> hasPermission (mb_role cm) Webhook_write"
proof -
  have g: "getMembership sample_tenancy ''w'' ''ann'' = Some (sample_member ''m1'' ''ann'' R_owner)"
    by (simp add: getMembership_def sample_tenancy_def sample_team_def)
  have "validateRoleForUser sample_tenancy ''w'' ''ann'' R_admin = None"
    unfolding validateRoleForUser_def g
    by (simp add: sample_member_def synthetic_def hasPermission_def getRolesWithPermission_def PERMISSIONS_def)
  then have c: "create_key 1 ''k'' (''stam_live_1'', ''stam'') ''w'' ''K'' (Some []) R_admin None ''ann'' ''ann'' sample_tenancy = (Inr sample_key, keyed)"
    by (simp add: create_key_def sample_key_def keyed_def Let_def sample_no_keys)
  have "canActivate (\<lambda>_ _. None) 5 (Some Webhook_write) (Api_key ''k'' ''w'' R_admin)
      \<lparr>rq_body_fields = [''workspace_id'' \<mapsto> ''w''], rq_query_fields = Map.empty\<rparr> = Inr (synthetic 5 ''api-key:k'' ''w'' ''api-key:k'' R_admin)"
    by (simp add: canActivate_def guard_workspace_def hasPermission_def getRolesWithPermission_def PERMISSIONS_def)
  from key_within_creator [OF c _ _ _ _ keyed_facts(3) this] show ?thesis
    by (auto simp: sample_tenancy_def sample_team_def no_tenancy_def keys_ok_def)
qed

end
