(* ===== verification/Analytics_Registry.thy ===== *)
theory Analytics_Registry
  imports Prelude
begin

section \<open>Analytics: tables, metrics and dimensions\<close>

text \<open>
  \<^verbatim>\<open>api/src/analytics/constants/\<close>: what an analytics query may name, and the SQL each name
  stands for. The bounce threshold, a number of seconds, is a natural number.
\<close>

(* src: api/src/analytics/constants/tables.ts:1-2 AnalyticsTable *)
datatype analytics_table = Sessions | Pages | Goals

definition table_name :: "analytics_table \<Rightarrow> string" where
  "table_name t = (case t of Sessions \<Rightarrow> ''sessions'' | Pages \<Rightarrow> ''pages'' | Goals \<Rightarrow> ''goals'')"

(* src: api/src/analytics/constants/tables.ts:4-8 TableConfig *)
record table_config =
  date_column :: string
  final_modifier :: bool

(* src: api/src/analytics/constants/tables.ts:10-26 TABLE_CONFIGS *)
definition TABLE_CONFIGS :: "analytics_table \<Rightarrow> table_config" where
  "TABLE_CONFIGS t =
     (case t of
        Sessions \<Rightarrow> \<lparr>date_column = ''created_at'', final_modifier = True\<rparr>
      | Pages \<Rightarrow> \<lparr>date_column = ''entered_at'', final_modifier = True\<rparr>
      | Goals \<Rightarrow> \<lparr>date_column = ''goal_timestamp'', final_modifier = True\<rparr>)"

(* src: api/src/analytics/constants/dimensions.ts:3-9 DimensionDefinition *)
datatype dimension_type = D_string | D_number | D_boolean

(* src: api/src/analytics/constants/dimensions.ts:3-9 DimensionDefinition *)
record dimension =
  di_name :: string
  di_column :: string
  di_type :: dimension_type
  di_category :: string
  di_tables :: "analytics_table list"

(* src: api/src/analytics/constants/metrics.ts:3-5 MetricContext *)
record metric_context =
  bounce_threshold :: nat

(* src: api/src/analytics/constants/metrics.ts:7-12 MetricDefinition *)
record metric =
  me_name :: string
  me_sql :: "metric_context \<Rightarrow> string"
  me_description :: string
  me_tables :: "analytics_table list"

definition dim :: "string \<Rightarrow> string \<Rightarrow> dimension_type \<Rightarrow> string \<Rightarrow> analytics_table list \<Rightarrow> string \<times> dimension" where
  "dim n col ty cat ts = (n, \<lparr>di_name = n, di_column = col, di_type = ty, di_category = cat, di_tables = ts\<rparr>)"

definition met :: "string \<Rightarrow> (metric_context \<Rightarrow> string) \<Rightarrow> string \<Rightarrow> analytics_table list \<Rightarrow> string \<times> metric" where
  "met n sql descr ts = (n, \<lparr>me_name = n, me_sql = sql, me_description = descr, me_tables = ts\<rparr>)"

(* src: api/src/analytics/constants/metrics.ts:14-19 getMetricSql *)
definition getMetricSql :: "metric \<Rightarrow> metric_context \<Rightarrow> string" where
  "getMetricSql m ctx = me_sql m ctx"

(* src: api/src/analytics/constants/metrics.ts:21-180 METRICS *)
definition METRICS :: "(string \<times> metric) list" where
  "METRICS =
     [met ''sessions'' (\<lambda>ctx. ''uniqExact(id)'') ''Total sessions'' [Sessions],
      met ''unique_visitors'' (\<lambda>ctx. ''uniqExact(visitor_id)'') ''Visiteurs uniques'' [Sessions],
      met ''median_duration'' (\<lambda>ctx. ''round(median(duration) / 1000, 1)'') ''Median session duration in seconds'' [Sessions],
      met ''max_scroll'' (\<lambda>ctx. ''round(avg(max_scroll), 1)'') ''Average max scroll depth (%)'' [Sessions],
      met ''median_scroll'' (\<lambda>ctx. ''round(median(max_scroll), 1)'') ''Median max scroll depth (%)'' [Sessions],
      met ''bounce_rate'' (\<lambda>ctx. ''round(uniqExactIf(id, duration < '' @ js_of_nat (bounce_threshold ctx * 1000) @ '') * 100.0 / uniqExact(id), 2)'') ''Percentage of sessions under bounce threshold'' [Sessions],
      met ''pageviews'' (\<lambda>ctx. ''sum(pageview_count)'') ''Total pageviews'' [Sessions],
      met ''pages_per_session'' (\<lambda>ctx. ''round(avg(pageview_count), 2)'') ''Average pages per session'' [Sessions],
      met ''median_page_duration'' (\<lambda>ctx. ''round(median(median_page_duration) / 1000, 1)'') ''Median time on page (seconds)'' [Sessions],
      met ''page_count'' (\<lambda>ctx. ''count()'') ''Total page views'' [Pages],
      met ''unique_pages'' (\<lambda>ctx. ''uniqExact(path)'') ''Unique page paths viewed'' [Pages],
      met ''page_duration'' (\<lambda>ctx. ''round(median(duration) / 1000, 1)'') ''Median time on page (seconds)'' [Pages],
      met ''page_scroll'' (\<lambda>ctx. ''round(median(max_scroll), 1)'') ''Median scroll depth (%)'' [Pages],
      met ''landing_page_count'' (\<lambda>ctx. ''countIf(is_landing = true)'') ''Number of landing page views'' [Pages],
      met ''exit_page_count'' (\<lambda>ctx. ''countIf(is_exit = true)'') ''Number of exit page views'' [Pages],
      met ''exit_rate'' (\<lambda>ctx. ''round(countIf(is_exit = true) * 100.0 / count(), 2)'') ''Percentage of views that are exit pages'' [Pages],
      met ''goals'' (\<lambda>ctx. ''count()'') ''Total goals triggered'' [Goals],
      met ''sum_goal_value'' (\<lambda>ctx. ''sum(goal_value)'') ''Total goal value'' [Goals],
      met ''avg_goal_value'' (\<lambda>ctx. ''round(avg(goal_value), 2)'') ''Average goal value'' [Goals],
      met ''median_goal_value'' (\<lambda>ctx. ''round(median(goal_value), 2)'') ''Median goal value'' [Goals],
      met ''unique_sessions_with_goals'' (\<lambda>ctx. ''uniqExact(session_id)'') ''Unique sessions with goals'' [Goals]]"

(* src: api/src/analytics/constants/dimensions.ts:13-148 DIMENSIONS *)
definition DIMENSIONS_1 :: "(string \<times> dimension) list" where
  "DIMENSIONS_1 =
     [dim ''referrer'' ''referrer'' D_string ''Traffic'' [Sessions, Goals],
      dim ''referrer_domain'' ''referrer_domain'' D_string ''Traffic'' [Sessions, Goals],
      dim ''referrer_path'' ''referrer_path'' D_string ''Traffic'' [Sessions, Goals],
      dim ''is_direct'' ''is_direct'' D_boolean ''Traffic'' [Sessions, Goals],
      dim ''utm_source'' ''utm_source'' D_string ''UTM'' [Sessions, Goals],
      dim ''utm_medium'' ''utm_medium'' D_string ''UTM'' [Sessions, Goals],
      dim ''utm_campaign'' ''utm_campaign'' D_string ''UTM'' [Sessions, Goals],
      dim ''utm_term'' ''utm_term'' D_string ''UTM'' [Sessions, Goals],
      dim ''utm_content'' ''utm_content'' D_string ''UTM'' [Sessions, Goals],
      dim ''channel'' ''channel'' D_string ''Channel'' [Sessions, Goals],
      dim ''channel_group'' ''channel_group'' D_string ''Channel'' [Sessions, Goals],
      dim ''first_touch_channel'' ''first_touch_channel'' D_string ''Channel'' [Sessions, Goals],
      dim ''first_touch_channel_group'' ''first_touch_channel_group'' D_string ''Channel'' [Sessions, Goals],
      dim ''landing_page'' ''landing_page'' D_string ''Session Pages'' [Sessions, Goals],
      dim ''landing_domain'' ''landing_domain'' D_string ''Session Pages'' [Sessions, Goals],
      dim ''landing_path'' ''landing_path'' D_string ''Session Pages'' [Sessions, Goals],
      dim ''exit_path'' ''exit_path'' D_string ''Session Pages'' [Sessions]]"

(* src: api/src/analytics/constants/dimensions.ts:151-324 DIMENSIONS *)
definition DIMENSIONS_2 :: "(string \<times> dimension) list" where
  "DIMENSIONS_2 =
     [dim ''page_path'' ''path'' D_string ''Page'' [Pages],
      dim ''page_number'' ''page_number'' D_number ''Page'' [Pages],
      dim ''is_landing_page'' ''is_landing'' D_boolean ''Page'' [Pages],
      dim ''is_exit_page'' ''is_exit'' D_boolean ''Page'' [Pages],
      dim ''page_entry_type'' ''entry_type'' D_string ''Page'' [Pages],
      dim ''device'' ''device'' D_string ''Device'' [Sessions, Goals],
      dim ''browser'' ''browser'' D_string ''Device'' [Sessions, Goals],
      dim ''browser_type'' ''browser_type'' D_string ''Device'' [Sessions, Goals],
      dim ''os'' ''os'' D_string ''Device'' [Sessions, Goals],
      dim ''screen_width'' ''screen_width'' D_number ''Device'' [Sessions, Goals],
      dim ''screen_height'' ''screen_height'' D_number ''Device'' [Sessions, Goals],
      dim ''viewport_width'' ''viewport_width'' D_number ''Device'' [Sessions, Goals],
      dim ''viewport_height'' ''viewport_height'' D_number ''Device'' [Sessions, Goals],
      dim ''connection_type'' ''connection_type'' D_string ''Device'' [Sessions, Goals],
      dim ''duration'' ''duration'' D_number ''Session'' [Sessions],
      dim ''pageview_count'' ''pageview_count'' D_number ''Session'' [Sessions],
      dim ''sdk_version'' ''sdk_version'' D_string ''Session'' [Sessions],
      dim ''year'' ''year'' D_number ''Time'' [Sessions, Goals],
      dim ''month'' ''month'' D_number ''Time'' [Sessions, Goals],
      dim ''day'' ''day'' D_number ''Time'' [Sessions, Goals],
      dim ''day_of_week'' ''day_of_week'' D_number ''Time'' [Sessions, Goals],
      dim ''week_number'' ''week_number'' D_number ''Time'' [Sessions, Goals],
      dim ''hour'' ''hour'' D_number ''Time'' [Sessions, Goals],
      dim ''is_weekend'' ''is_weekend'' D_boolean ''Time'' [Sessions, Goals]]"

(* src: api/src/analytics/constants/dimensions.ts:327-492 DIMENSIONS *)
definition DIMENSIONS_3 :: "(string \<times> dimension) list" where
  "DIMENSIONS_3 =
     [dim ''country'' ''country'' D_string ''Geo'' [Sessions, Goals],
      dim ''region'' ''region'' D_string ''Geo'' [Sessions, Goals],
      dim ''city'' ''city'' D_string ''Geo'' [Sessions, Goals],
      dim ''latitude'' ''latitude'' D_number ''Geo'' [Sessions, Goals],
      dim ''longitude'' ''longitude'' D_number ''Geo'' [Sessions, Goals],
      dim ''language'' ''language'' D_string ''Geo'' [Sessions, Goals],
      dim ''timezone'' ''timezone'' D_string ''Geo'' [Sessions, Goals],
      dim ''stm_1'' ''stm_1'' D_string ''Custom'' [Sessions, Goals],
      dim ''stm_2'' ''stm_2'' D_string ''Custom'' [Sessions, Goals],
      dim ''stm_3'' ''stm_3'' D_string ''Custom'' [Sessions, Goals],
      dim ''stm_4'' ''stm_4'' D_string ''Custom'' [Sessions, Goals],
      dim ''stm_5'' ''stm_5'' D_string ''Custom'' [Sessions, Goals],
      dim ''stm_6'' ''stm_6'' D_string ''Custom'' [Sessions, Goals],
      dim ''stm_7'' ''stm_7'' D_string ''Custom'' [Sessions, Goals],
      dim ''stm_8'' ''stm_8'' D_string ''Custom'' [Sessions, Goals],
      dim ''stm_9'' ''stm_9'' D_string ''Custom'' [Sessions, Goals],
      dim ''stm_10'' ''stm_10'' D_string ''Custom'' [Sessions, Goals],
      dim ''goal_name'' ''goal_name'' D_string ''Goal'' [Goals],
      dim ''goal_path'' ''path'' D_string ''Goal'' [Goals],
      dim ''phone_source'' (''properties['' @ [CHR 0x27] @ ''source'' @ [CHR 0x27] @ '']'') D_string ''Telephonie'' [Goals],
      dim ''phone_direction'' (''properties['' @ [CHR 0x27] @ ''direction'' @ [CHR 0x27] @ '']'') D_string ''Telephonie'' [Goals],
      dim ''phone_status'' (''properties['' @ [CHR 0x27] @ ''status'' @ [CHR 0x27] @ '']'') D_string ''Telephonie'' [Goals]]"

(* src: api/src/analytics/constants/dimensions.ts:516-531 DIMENSIONS *)
definition DIMENSIONS_4 :: "(string \<times> dimension) list" where
  "DIMENSIONS_4 =
     [dim ''variant'' (''properties['' @ [CHR 0x27] @ ''variant'' @ [CHR 0x27] @ '']'') D_string ''Goal'' [Goals],
      dim ''user_id'' ''user_id'' D_string ''User'' [Sessions, Pages, Goals]]"

definition DIMENSIONS :: "(string \<times> dimension) list" where
  "DIMENSIONS = DIMENSIONS_1 @ DIMENSIONS_2 @ DIMENSIONS_3 @ DIMENSIONS_4"

definition dimension_of :: "string \<Rightarrow> dimension option" where
  "dimension_of d = map_of DIMENSIONS d"

definition metric_of :: "string \<Rightarrow> metric option" where
  "metric_of m = map_of METRICS m"

(* src: api/src/analytics/analytics.service.ts:380-383 getAvailableMetrics *)
definition getAvailableMetrics :: "analytics_table option \<Rightarrow> metric list" where
  "getAvailableMetrics t =
     (case t of None \<Rightarrow> map snd METRICS | Some t \<Rightarrow> filter (\<lambda>m. t \<in> set (me_tables m)) (map snd METRICS))"

(* src: api/src/analytics/analytics.service.ts:385-390 getAvailableDimensions *)
definition getAvailableDimensions :: "analytics_table option \<Rightarrow> (string \<times> dimension) list" where
  "getAvailableDimensions t =
     (case t of None \<Rightarrow> DIMENSIONS | Some t \<Rightarrow> filter (\<lambda>(n, d). t \<in> set (di_tables d)) DIMENSIONS)"

end
