(* ===== verification/Query_Builder.thy ===== *)
theory Query_Builder
  imports Analytics_Registry Json
begin

section \<open>Analytics: building the SQL\<close>

text \<open>
  \<^verbatim>\<open>api/src/analytics/lib/filter-builder.ts\<close>, \<^verbatim>\<open>query-builder.ts\<close> and
  \<^verbatim>\<open>funnel-builder.ts\<close>. A query is its text and the bindings of its parameters, in order. The text of a value in
  a template literal is the argument \<open>tpl\<close>, the check of a time zone's name the argument \<open>validTz\<close>. Limits and thresholds
  are natural numbers.
\<close>

subsection \<open>Requests\<close>

(* src: api/src/analytics/dto/analytics-query.dto.ts:21-37 FILTER_OPERATORS *)
datatype filter_op =
    F_equals | F_notEquals | F_in | F_notIn | F_contains | F_notContains | F_gt | F_gte | F_lt | F_lte
  | F_isNull | F_isNotNull | F_between | F_isEmpty | F_isNotEmpty

(* src: api/src/analytics/dto/analytics-query.dto.ts:41-50 FilterDto *)
record filter_dto =
  fq_dimension :: string
  fq_operator :: filter_op
  fq_values :: "jsval list option"

(* src: api/src/analytics/dto/analytics-query.dto.ts:54-60 METRIC_FILTER_OPERATORS *)
datatype metric_op = M_gt | M_gte | M_lt | M_lte | M_between

(* src: api/src/analytics/dto/analytics-query.dto.ts:64-73 MetricFilterDto *)
record metric_filter_dto =
  mq_metric :: string
  mq_operator :: metric_op
  mq_values :: "jsval list"

(* src: api/src/analytics/dto/analytics-query.dto.ts:75-76 GRANULARITIES *)
datatype granularity = G_hour | G_day | G_week | G_month | G_year

(* src: api/src/analytics/dto/analytics-query.dto.ts:149-222 AnalyticsQueryDto *)
record analytics_query =
  aq_metrics :: "string list"
  aq_dimensions :: "string list"
  aq_filters :: "filter_dto list"
  aq_metric_filters :: "metric_filter_dto list"
  aq_start :: jsval
  aq_end :: jsval
  aq_granularity :: "granularity option"
  aq_order :: "(string \<times> string) list option"
  aq_limit :: "nat option"
  aq_having_min_sessions :: "nat option"
  aq_table :: "analytics_table option"
  aq_totals_group_by :: "string list"

type_synonym bindings = "(string \<times> jsval) list"
type_synonym built_query = "string \<times> bindings"

definition value_at :: "nat \<Rightarrow> jsval list option \<Rightarrow> jsval" where
  "value_at i vs = (case vs of None \<Rightarrow> JUndefined | Some xs \<Rightarrow> if i < length xs then xs ! i else JUndefined)"

definition quote :: string where "quote = [CHR 0x27]"

subsection \<open>Filters on dimensions\<close>

definition placeholder :: "string \<Rightarrow> string \<Rightarrow> string" where
  "placeholder p ty = ''{'' @ p @ '':'' @ ty @ ''}''"

text \<open>One filter: its condition and its bindings.\<close>

(* src: api/src/analytics/lib/filter-builder.ts:38-99 buildFilters *)
definition filter_condition_sql :: "string \<Rightarrow> string \<Rightarrow> filter_op \<Rightarrow> string" where
  "filter_condition_sql col p opr =
     (case opr of
        F_equals \<Rightarrow> col @ '' = '' @ placeholder p ''String''
      | F_notEquals \<Rightarrow> col @ '' != '' @ placeholder p ''String''
      | F_in \<Rightarrow> col @ '' IN '' @ placeholder p ''Array(String)''
      | F_notIn \<Rightarrow> col @ '' NOT IN '' @ placeholder p ''Array(String)''
      | F_contains \<Rightarrow> col @ '' LIKE '' @ placeholder p ''String''
      | F_notContains \<Rightarrow> col @ '' NOT LIKE '' @ placeholder p ''String''
      | F_gt \<Rightarrow> col @ '' > '' @ placeholder p ''Float64''
      | F_gte \<Rightarrow> col @ '' >= '' @ placeholder p ''Float64''
      | F_lt \<Rightarrow> col @ '' < '' @ placeholder p ''Float64''
      | F_lte \<Rightarrow> col @ '' <= '' @ placeholder p ''Float64''
      | F_isNull \<Rightarrow> col @ '' IS NULL''
      | F_isNotNull \<Rightarrow> col @ '' IS NOT NULL''
      | F_isEmpty \<Rightarrow> ''('' @ col @ '' = '' @ quote @ quote @ '' OR '' @ col @ '' IS NULL)''
      | F_isNotEmpty \<Rightarrow> ''('' @ col @ '' != '' @ quote @ quote @ '' AND '' @ col @ '' IS NOT NULL)''
      | F_between \<Rightarrow> col @ '' BETWEEN '' @ placeholder (p @ ''a'') ''Float64'' @ '' AND '' @ placeholder (p @ ''b'') ''Float64'')"

(* src: api/src/analytics/lib/filter-builder.ts:38-99 buildFilters *)
definition filter_bindings :: "(jsval \<Rightarrow> string) \<Rightarrow> string \<Rightarrow> filter_dto \<Rightarrow> bindings" where
  "filter_bindings tpl p f =
     (let v = value_at 0 (fq_values f)
      in case fq_operator f of
           F_in \<Rightarrow> [(p, case fq_values f of None \<Rightarrow> JUndefined | Some vs \<Rightarrow> JArr vs)]
         | F_notIn \<Rightarrow> [(p, case fq_values f of None \<Rightarrow> JUndefined | Some vs \<Rightarrow> JArr vs)]
         | F_contains \<Rightarrow> [(p, JStr (''%'' @ tpl v @ ''%''))]
         | F_notContains \<Rightarrow> [(p, JStr (''%'' @ tpl v @ ''%''))]
         | F_isNull \<Rightarrow> [] | F_isNotNull \<Rightarrow> [] | F_isEmpty \<Rightarrow> [] | F_isNotEmpty \<Rightarrow> []
         | F_between \<Rightarrow> [(p @ ''a'', v), (p @ ''b'', value_at 1 (fq_values f))]
         | _ \<Rightarrow> [(p, v)])"

definition available :: "string \<Rightarrow> analytics_table list \<Rightarrow> analytics_table \<Rightarrow> string \<Rightarrow> string option" where
  "available what ts t n =
     (if t \<in> set ts then None
      else Some (what @ '' '' @ quote @ n @ quote @ '' is not available for table '' @ quote @ table_name t @ quote))"

definition lookup_dimension :: "analytics_table \<Rightarrow> string \<Rightarrow> string + dimension" where
  "lookup_dimension t d =
     (case dimension_of d of
        None \<Rightarrow> Inl (''Unknown dimension: '' @ d)
      | Some x \<Rightarrow> (case available ''Dimension'' (di_tables x) t d of Some e \<Rightarrow> Inl e | None \<Rightarrow> Inr x))"

definition lookup_metric :: "analytics_table \<Rightarrow> string \<Rightarrow> string + metric" where
  "lookup_metric t m =
     (case metric_of m of
        None \<Rightarrow> Inl (''Unknown metric: '' @ m)
      | Some x \<Rightarrow> (case available ''Metric'' (me_tables x) t m of Some e \<Rightarrow> Inl e | None \<Rightarrow> Inr x))"

(* src: api/src/analytics/lib/filter-builder.ts:23-103 buildFilters *)
fun filters_from :: "(jsval \<Rightarrow> string) \<Rightarrow> string \<Rightarrow> analytics_table \<Rightarrow> nat \<Rightarrow> filter_dto list \<Rightarrow> string + (string list \<times> bindings)" where
  "filters_from tpl pre t i [] = Inr ([], [])"
| "filters_from tpl pre t i (f # fs) =
     res_bind (lookup_dimension t (fq_dimension f)) (\<lambda>x.
     res_bind (filters_from tpl pre t (Suc i) fs) (\<lambda>(cs, bs).
       let p = pre @ js_of_nat i
       in Inr (filter_condition_sql (di_column x) p (fq_operator f) # cs, filter_bindings tpl p f @ bs)))"

(* src: api/src/analytics/lib/filter-builder.ts:11-106 buildFilters *)
definition buildFilters :: "(jsval \<Rightarrow> string) \<Rightarrow> filter_dto list \<Rightarrow> string \<Rightarrow> analytics_table \<Rightarrow> string + built_query" where
  "buildFilters tpl fs pre t =
     (if fs = [] then Inr ([], [])
      else res_bind (filters_from tpl pre t 0 fs) (\<lambda>(cs, bs). Inr (js_join '' AND '' cs, bs)))"

subsection \<open>Filters on metrics\<close>

(* src: api/src/analytics/lib/filter-builder.ts:136-163 buildMetricFilters *)
definition metric_condition_sql :: "string \<Rightarrow> string \<Rightarrow> metric_op \<Rightarrow> string" where
  "metric_condition_sql sql p opr =
     (case opr of
        M_gt \<Rightarrow> sql @ '' > '' @ placeholder p ''Float64''
      | M_gte \<Rightarrow> sql @ '' >= '' @ placeholder p ''Float64''
      | M_lt \<Rightarrow> sql @ '' < '' @ placeholder p ''Float64''
      | M_lte \<Rightarrow> sql @ '' <= '' @ placeholder p ''Float64''
      | M_between \<Rightarrow> sql @ '' BETWEEN '' @ placeholder (p @ ''a'') ''Float64'' @ '' AND '' @ placeholder (p @ ''b'') ''Float64'')"

(* src: api/src/analytics/lib/filter-builder.ts:136-163 buildMetricFilters *)
definition metric_bindings :: "string \<Rightarrow> metric_filter_dto \<Rightarrow> bindings" where
  "metric_bindings p f =
     (if mq_operator f = M_between
      then [(p @ ''a'', value_at 0 (Some (mq_values f))), (p @ ''b'', value_at 1 (Some (mq_values f)))]
      else [(p, value_at 0 (Some (mq_values f)))])"

(* src: api/src/analytics/lib/filter-builder.ts:121-167 buildMetricFilters *)
fun metric_filters_from :: "metric_context \<Rightarrow> string \<Rightarrow> analytics_table \<Rightarrow> nat \<Rightarrow> metric_filter_dto list \<Rightarrow> string + (string list \<times> bindings)" where
  "metric_filters_from ctx pre t i [] = Inr ([], [])"
| "metric_filters_from ctx pre t i (f # fs) =
     res_bind (lookup_metric t (mq_metric f)) (\<lambda>x.
     res_bind (metric_filters_from ctx pre t (Suc i) fs) (\<lambda>(cs, bs).
       let p = pre @ js_of_nat i
       in Inr (metric_condition_sql (getMetricSql x ctx) p (mq_operator f) # cs, metric_bindings p f @ bs)))"

(* src: api/src/analytics/lib/filter-builder.ts:108-170 buildMetricFilters *)
definition buildMetricFilters :: "metric_context \<Rightarrow> metric_filter_dto list \<Rightarrow> analytics_table \<Rightarrow> string \<Rightarrow> string + built_query" where
  "buildMetricFilters ctx fs t pre =
     (if fs = [] then Inr ([], [])
      else res_bind (metric_filters_from ctx pre t 0 fs) (\<lambda>(cs, bs). Inr (js_join '' AND '' cs, bs)))"

subsection \<open>Pieces of a query\<close>

(* src: api/src/analytics/lib/query-builder.ts:16-47 GRANULARITY_SQL *)
definition granularity_expr :: "granularity \<Rightarrow> string \<Rightarrow> string option \<Rightarrow> string" where
  "granularity_expr g col tz =
     (let z = (case tz of None \<Rightarrow> '')'' | Some z \<Rightarrow> '', '' @ quote @ z @ quote @ '')'')
      in case g of
           G_hour \<Rightarrow> ''toStartOfHour('' @ col @ z
         | G_day \<Rightarrow> ''toDate('' @ col @ z
         | G_week \<Rightarrow> ''toStartOfWeek('' @ col @ '', 1'' @ z
         | G_month \<Rightarrow> ''toStartOfMonth('' @ col @ z
         | G_year \<Rightarrow> ''toStartOfYear('' @ col @ z)"

(* src: api/src/analytics/lib/query-builder.ts:16-47 GRANULARITY_SQL *)
definition granularity_column :: "granularity \<Rightarrow> string" where
  "granularity_column g =
     (case g of G_hour \<Rightarrow> ''date_hour'' | G_day \<Rightarrow> ''date_day'' | G_week \<Rightarrow> ''date_week'' | G_month \<Rightarrow> ''date_month'' | G_year \<Rightarrow> ''date_year'')"

definition nl :: string where "nl = [CHR 0x0A]"

definition the_table :: "analytics_query \<Rightarrow> analytics_table" where
  "the_table qy = js_nullish (aq_table qy) Sessions"

definition from_clause :: "analytics_table \<Rightarrow> string" where
  "from_clause t = table_name t @ (if final_modifier (TABLE_CONFIGS t) then '' FINAL'' else [])"

(* src: api/src/analytics/lib/query-builder.ts:89-96 buildFilteredTotalsQuery *)
definition where_conditions :: "analytics_table \<Rightarrow> string \<Rightarrow> string list" where
  "where_conditions t filter_sql =
     (let col = date_column (TABLE_CONFIGS t); z = '', 3, '' @ quote @ ''UTC'' @ quote @ '')''
      in [col @ '' >= toDateTime64({date_start:String}'' @ z, col @ '' <= toDateTime64({date_end:String}'' @ z] @
         (if filter_sql = [] then [] else [filter_sql]))"

text \<open>A threshold of zero counts as absent.\<close>

(* src: api/src/analytics/lib/query-builder.ts:99-109 buildFilteredTotalsQuery *)
definition having_clause :: "bool \<Rightarrow> nat option \<Rightarrow> string \<Rightarrow> string" where
  "having_clause grouped min_sessions metric_sql =
     (let cs = (if grouped \<and> js_nullish min_sessions 0 \<noteq> 0 then [''count() >= '' @ js_of_nat (js_nullish min_sessions 0)] else []) @
               (if grouped \<and> metric_sql \<noteq> [] then [metric_sql] else [])
      in if cs = [] then [] else ''HAVING '' @ js_join '' AND '' cs)"

definition date_bindings :: "analytics_query \<Rightarrow> bindings" where
  "date_bindings qy = [(''date_start'', aq_start qy), (''date_end'', aq_end qy)]"

text \<open>
  The keyword is looked up in a plain object, which inherits entries: the directions \<open>constructor\<close> and
  \<open>__proto__\<close> find one. (The registries of metrics and dimensions are looked up by their own entries; names that
  every object inherits are left out there.)
\<close>

(* src: api/src/common/utils/order-direction.util.ts:15-37 normalizeOrderDirection *)
definition normalizeOrderDirection :: "string \<Rightarrow> string + string" where
  "normalizeOrderDirection dir =
     (if js_lower dir = ''asc'' then Inr ''ASC''
      else if js_lower dir = ''desc'' then Inr ''DESC''
      else if js_lower dir = ''constructor'' then Inr ''function Object() { [native code] }''
      else if js_lower dir = ''__proto__'' then Inr ''[object Object]''
      else Inl (''Invalid order direction: '' @ json_quote dir))"

(* src: api/src/analytics/lib/query-builder.ts:345-355 buildAnalyticsQuery *)
definition orderClauseFor :: "string \<Rightarrow> string \<Rightarrow> string + string" where
  "orderClauseFor field dir =
     res_bind (normalizeOrderDirection dir) (\<lambda>d.
       if metric_of field \<noteq> None then Inr (field @ '' '' @ d)
       else (case dimension_of field of
               Some x \<Rightarrow> Inr (di_column x @ '' '' @ d)
             | None \<Rightarrow> Inl (''Unknown order field: '' @ field)))"

(* src: api/src/analytics/lib/query-builder.ts:356-365 buildAnalyticsQuery *)
definition projected_order :: "analytics_query \<Rightarrow> (string \<times> string) list" where
  "projected_order qy =
     (case aq_order qy of
        None \<Rightarrow> []
      | Some es \<Rightarrow>
          filter (\<lambda>(f, d). if metric_of f = None \<and> dimension_of f = None then True
                          else if metric_of f \<noteq> None then f \<in> set (aq_metrics qy)
                          else f \<in> set (aq_dimensions qy)) es)"

(* src: api/src/analytics/lib/query-builder.ts:367-379 buildAnalyticsQuery *)
definition order_by :: "analytics_query \<Rightarrow> string \<Rightarrow> string + string" where
  "order_by qy gcol =
     res_bind (res_map (\<lambda>(f, d). orderClauseFor f d) (projected_order qy)) (\<lambda>cs.
       Inr (if gcol \<noteq> [] then
              ''ORDER BY '' @ gcol @ '' ASC'' @ (if js_join '', '' cs \<noteq> [] then '', '' @ js_join '', '' cs else [])
            else if cs \<noteq> [] then ''ORDER BY '' @ js_join '', '' cs
            else (case aq_metrics qy of [] \<Rightarrow> [] | m # _ \<Rightarrow> ''ORDER BY '' @ m @ '' DESC'')))"

(* src: api/src/analytics/lib/query-builder.ts:122-188 buildFilteredTotalsQuery *)
definition totals_parts :: "metric_context \<Rightarrow> (string \<times> (string list \<times> string)) list" where
  "totals_parts ctx =
     [(''sessions'', ([''uniqExact(id) as _sessions''], ''sum(_sessions) as sessions'')),
      (''bounce_rate'', ([''uniqExactIf(id, duration < '' @ js_of_nat (bounce_threshold ctx * 1000) @ '') as _bounces'', ''uniqExact(id) as _total''],
        ''if(sum(_total) > 0, sum(_bounces) * 100.0 / sum(_total), 0) as bounce_rate'')),
      (''median_duration'', ([''quantileState(0.5)(duration) as _duration_state''], ''quantileMerge(0.5)(_duration_state) / 1000 as median_duration'')),
      (''median_scroll'', ([''quantileState(0.5)(max_scroll) as _scroll_state''], ''quantileMerge(0.5)(_scroll_state) as median_scroll'')),
      (''page_count'', ([''count() as _page_count''], ''sum(_page_count) as page_count'')),
      (''pageviews'', ([''sum(pageview_count) as _pageviews''], ''sum(_pageviews) as pageviews'')),
      (''goals'', ([''count() as _goals''], ''sum(_goals) as goals'')),
      (''sum_goal_value'', ([''sum(goal_value) as _sum_goal_value''], ''sum(_sum_goal_value) as sum_goal_value'')),
      (''avg_goal_value'', ([''sum(goal_value) as _sum_value'', ''count() as _goal_count''], ''if(sum(_goal_count) > 0, sum(_sum_value) / sum(_goal_count), 0) as avg_goal_value''))]"

(* src: api/src/analytics/lib/query-builder.ts:119-197 buildFilteredTotalsQuery *)
definition totals_of :: "metric_context \<Rightarrow> string \<Rightarrow> string + (string list \<times> string)" where
  "totals_of ctx m =
     (case metric_of m of
        None \<Rightarrow> Inl (''Unknown metric: '' @ m)
      | Some x \<Rightarrow>
          (case map_of (totals_parts ctx) m of
             Some ps \<Rightarrow> Inr ps
           | None \<Rightarrow> Inr ([getMetricSql x ctx @ '' as _'' @ m], ''sum(_'' @ m @ '') as '' @ m)))"

text \<open>\<open>[...new Set(xs)]\<close>: the first of equal entries stays.\<close>

definition js_set :: "'a list \<Rightarrow> 'a list" where
  "js_set xs = rev (remdups (rev xs))"

definition default_context :: "metric_context option \<Rightarrow> metric_context" where
  "default_context ctx = js_nullish ctx \<lparr>bounce_threshold = 10\<rparr>"

definition sql_lines :: "string list \<Rightarrow> string" where
  "sql_lines ls = js_join nl ls"

subsection \<open>Whole queries\<close>

(* src: api/src/analytics/lib/query-builder.ts:57-223 buildFilteredTotalsQuery *)
definition buildFilteredTotalsQuery :: "(jsval \<Rightarrow> string) \<Rightarrow> analytics_query \<Rightarrow> metric_context option \<Rightarrow> string + built_query" where
  "buildFilteredTotalsQuery tpl qy mctx =
     (let t = the_table qy; ctx = default_context mctx
      in res_bind (res_map (lookup_dimension t) (aq_totals_group_by qy)) (\<lambda>dims.
         res_bind (buildFilters tpl (aq_filters qy) ''f'' t) (\<lambda>(filter_sql, filter_params).
         res_bind (buildMetricFilters ctx (aq_metric_filters qy) t ''mf'') (\<lambda>(metric_sql, metric_params).
         res_bind (res_map (totals_of ctx) (aq_metrics qy)) (\<lambda>parts.
           Inr (js_trim (sql_lines
       [[],
        ''SELECT'',
        ''  '' @ js_join ('','' @ nl @ ''  '') (map snd parts),
        ''FROM ('',
        ''  SELECT'',
        ''    '' @ js_join ('','' @ nl @ ''    '') (js_set (concat (map fst parts))),
        ''  FROM '' @ from_clause t,
        ''  WHERE '' @ js_join (nl @ ''    AND '') (where_conditions t filter_sql),
        ''  GROUP BY '' @ js_join '', '' (map di_column dims),
        ''  '' @ having_clause True (aq_having_min_sessions qy) metric_sql,
        '') filtered'',
        ''  '']),
                date_bindings qy @ filter_params @ metric_params))))))"

(* src: api/src/analytics/lib/query-builder.ts:285-308 buildAnalyticsQuery *)
definition granularity_parts :: "(string \<Rightarrow> bool) \<Rightarrow> analytics_query \<Rightarrow> string option \<Rightarrow> string + (string \<times> string)" where
  "granularity_parts validTz qy tzname =
     (case aq_granularity qy of
        None \<Rightarrow> Inr ([], [])
      | Some g \<Rightarrow>
          (let tz = (case tzname of None \<Rightarrow> None | Some z \<Rightarrow> if z \<noteq> [] \<and> z \<noteq> ''UTC'' then Some z else None)
           in if \<exists>z. tz = Some z \<and> \<not> validTz z then Inl (''Invalid IANA timezone: '' @ json_quote (the tz))
              else Inr (granularity_expr g (date_column (TABLE_CONFIGS (the_table qy))) tz @ '' as '' @ granularity_column g,
                        granularity_column g)))"

(* src: api/src/analytics/lib/query-builder.ts:277-283 buildAnalyticsQuery *)
definition dimension_select :: "dimension \<Rightarrow> string" where
  "dimension_select x = (if di_column x = di_name x then di_column x else di_column x @ '' as '' @ di_name x)"

(* src: api/src/analytics/lib/query-builder.ts:252-260 buildAnalyticsQuery *)
definition metric_select :: "analytics_table \<Rightarrow> metric_context \<Rightarrow> string \<Rightarrow> string + string" where
  "metric_select t ctx m = res_bind (lookup_metric t m) (\<lambda>x. Inr (getMetricSql x ctx @ '' as '' @ m))"

(* src: api/src/analytics/lib/query-builder.ts:225-424 buildAnalyticsQuery *)
definition buildAnalyticsQuery ::
    "(jsval \<Rightarrow> string) \<Rightarrow> (string \<Rightarrow> bool) \<Rightarrow> analytics_query \<Rightarrow> string option \<Rightarrow> metric_context option \<Rightarrow> string + built_query" where
  "buildAnalyticsQuery tpl validTz qy tzname mctx =
     (if aq_totals_group_by qy \<noteq> [] \<and> aq_dimensions qy = [] \<and> aq_metric_filters qy \<noteq> []
      then buildFilteredTotalsQuery tpl qy mctx
      else let t = the_table qy; ctx = default_context mctx
      in res_bind (res_map (metric_select t ctx) (aq_metrics qy)) (\<lambda>metrics_sql.
         res_bind (res_map (lookup_dimension t) (aq_dimensions qy)) (\<lambda>dims.
         res_bind (granularity_parts validTz qy tzname) (\<lambda>(gselect, gcol).
         res_bind (buildFilters tpl (aq_filters qy) ''f'' t) (\<lambda>(filter_sql, filter_params).
         res_bind (buildMetricFilters ctx (aq_metric_filters qy) t ''mf'') (\<lambda>(metric_sql, metric_params).
         res_bind (order_by qy gcol) (\<lambda>ob.
           let group_cols = (if gcol \<noteq> [] then [gcol] else []) @ map di_column dims;
               limit = js_nullish (aq_limit qy) 0
           in Inr (js_trim (sql_lines
       [[],
        ''SELECT'',
        ''  '' @ js_join ('','' @ nl @ ''  '') ((if gselect \<noteq> [] then [gselect] else []) @ map dimension_select dims @ metrics_sql),
        ''FROM '' @ from_clause t,
        ''WHERE '' @ js_join (nl @ ''  AND '') (where_conditions t filter_sql),
        if group_cols = [] then [] else ''GROUP BY '' @ js_join '', '' group_cols,
        having_clause (group_cols \<noteq> []) (aq_having_min_sessions qy) metric_sql,
        ob,
        ''LIMIT '' @ js_of_nat (min (if limit = 0 then 1000 else limit) 10000),
        ''  '']),
                   date_bindings qy @ filter_params @ metric_params))))))))"

(* src: api/src/analytics/dto/extremes-query.dto.ts:21-60 ExtremesQueryDto *)
record extremes_query =
  eq_metric :: string
  eq_group_by :: "string list"
  eq_filters :: "filter_dto list"
  eq_metric_filters :: "metric_filter_dto list"
  eq_start :: jsval
  eq_end :: jsval
  eq_having_min_sessions :: "nat option"
  eq_table :: "analytics_table option"

(* src: api/src/analytics/lib/query-builder.ts:426-531 buildExtremesQuery *)
definition buildExtremesQuery :: "(jsval \<Rightarrow> string) \<Rightarrow> extremes_query \<Rightarrow> metric_context option \<Rightarrow> string + built_query" where
  "buildExtremesQuery tpl qy mctx =
     (let t = js_nullish (eq_table qy) Sessions; ctx = default_context mctx
      in res_bind (lookup_metric t (eq_metric qy)) (\<lambda>m.
         res_bind (res_map (lookup_dimension t) (eq_group_by qy)) (\<lambda>dims.
         res_bind (buildFilters tpl (eq_filters qy) ''f'' t) (\<lambda>(filter_sql, filter_params).
         res_bind (buildMetricFilters ctx (eq_metric_filters qy) t ''mf'') (\<lambda>(metric_sql, metric_params).
           let cols = map di_column dims; value_sql = getMetricSql m ctx; conditions = where_conditions t filter_sql;
               having = having_clause True (eq_having_min_sessions qy) metric_sql
           in Inr (js_trim (sql_lines
       [[],
        ''SELECT'',
        ''  sub.min as min,'',
        ''  sub.max as max,'',
        ''  max_row.'' @ js_join '', max_row.'' cols,
        ''FROM ('',
        ''  SELECT min(value) as min, max(value) as max'',
        ''  FROM ('',
        ''    SELECT '' @ value_sql @ '' as value'',
        ''    FROM '' @ from_clause t,
        ''    WHERE '' @ js_join (nl @ ''      AND '') conditions,
        ''    GROUP BY '' @ js_join '', '' cols,
        ''    '' @ having,
        ''  ) grouped'',
        '') sub'',
        ''LEFT JOIN ('',
        ''  SELECT '' @ js_join '', '' cols @ '', '' @ value_sql @ '' as value'',
        ''  FROM '' @ from_clause t,
        ''  WHERE '' @ js_join (nl @ ''    AND '') conditions,
        ''  GROUP BY '' @ js_join '', '' cols,
        ''  '' @ having,
        '') max_row ON max_row.value = sub.max'',
        ''LIMIT 1'']),
                   [(''date_start'', eq_start qy), (''date_end'', eq_end qy)] @ filter_params @ metric_params))))))"


subsection \<open>Funnels\<close>

(* src: api/src/analytics/dto/funnel-query.dto.ts:25-33 FunnelStepDto *)
record funnel_step =
  fs_goal_name :: string
  fs_label :: "string option"

datatype funnel_unit = U_session | U_visitor

(* src: api/src/analytics/lib/funnel-builder.ts:5-25 FunnelQuerySpec *)
record funnel_spec =
  fu_steps :: "funnel_step list"
  fu_start :: jsval
  fu_end :: jsval
  fu_unit :: funnel_unit
  fu_window_seconds :: nat
  fu_filters :: "filter_dto list"
  fu_segment :: "(string \<times> string \<times> nat) option"

(* src: api/src/analytics/lib/funnel-builder.ts:80-85 buildFunnelQuery *)
definition level_expr :: "nat \<Rightarrow> string" where
  "level_expr i =
     ''countIf(level >= '' @ js_of_nat (i + 1) @ '') AS s'' @ js_of_nat i @
     '', sumIf(value, level >= '' @ js_of_nat (i + 1) @ '') AS v'' @ js_of_nat i"

definition when_some :: "'a option \<Rightarrow> ('a \<Rightarrow> string) \<Rightarrow> string" where
  "when_some x f = (case x of None \<Rightarrow> [] | Some v \<Rightarrow> f v)"

(* src: api/src/analytics/lib/funnel-builder.ts:45-134 buildFunnelQuery *)
definition buildFunnelQuery :: "(jsval \<Rightarrow> string) \<Rightarrow> funnel_spec \<Rightarrow> string + built_query" where
  "buildFunnelQuery tpl fu =
     (let group_col = (if fu_unit fu = U_visitor then ''visitor_id'' else ''session_id'');
          ixs = [0..<length (fu_steps fu)]; seg = fu_segment fu;
          outer_select = when_some seg (\<lambda>(col, name, limit). ''seg AS '' @ [CHR 0x60] @ name @ [CHR 0x60] @ '','' @ nl @ ''      '');
          inner_select = when_some seg (\<lambda>(col, name, limit). nl @ ''        '' @ col @ '' AS seg,'');
          inner_group = when_some seg (\<lambda>_. '', seg'');
          outer_group = when_some seg (\<lambda>_. nl @ ''    GROUP BY seg'');
          outer_limit = when_some seg (\<lambda>(col, name, limit). nl @ ''    ORDER BY s0 DESC'' @ nl @ ''    LIMIT '' @ js_of_nat limit)
      in res_bind (buildFilters tpl (fu_filters fu) ''ff'' Goals) (\<lambda>(filter_sql, filter_params).
           Inr (sql_lines
       [[],
        ''    SELECT'',
        ''      '' @ outer_select @ js_join ('','' @ nl @ ''      '') (map level_expr ixs),
        ''    FROM ('',
        ''      SELECT'',
        ''        '' @ group_col @ '' AS g,'',
        ''        sum(goal_value) AS value,'' @ inner_select,
        ''        windowFunnel({window:UInt32})('',
        ''          toDateTime(goal_timestamp),'',
        ''          '' @ js_join ('','' @ nl @ ''          '') (map (\<lambda>i. ''goal_name = '' @ placeholder (''step'' @ js_of_nat i) ''String'') ixs),
        ''        ) AS level'',
        ''      FROM goals'',
        ''      WHERE goal_timestamp >= {start:DateTime64(3)}'',
        ''        AND goal_timestamp <= {end:DateTime64(3)}'',
        ''        AND '' @ group_col @ '' != '' @ quote @ quote,
        ''        '' @ (if filter_sql = [] then [] else ''AND '' @ filter_sql),
        ''      GROUP BY '' @ group_col @ inner_group,
        ''    )'' @ outer_group @ outer_limit,
        ''  ''],
                [(''start'', fu_start fu), (''end'', fu_end fu), (''window'', JNum (real (fu_window_seconds fu)))] @
                map (\<lambda>i. (''step'' @ js_of_nat i, JStr (fs_goal_name (fu_steps fu ! i)))) ixs @ filter_params)))"


section \<open>What the queries guarantee\<close>

subsection \<open>No value reaches the text\<close>

text \<open>Two results with the same error, or with the same text.\<close>

definition same_text :: "'e + ('t \<times> 'b) \<Rightarrow> 'e + ('t \<times> 'b) \<Rightarrow> bool" where
  "same_text r r' = (map_sum id fst r = map_sum id fst r')"

lemma same_text_refl [simp]: "same_text r r"
  by (simp add: same_text_def)

lemma same_text_Inr [simp]: "same_text (Inr (s, b)) (Inr (s', b')) = (s = s')"
  by (simp add: same_text_def)

lemma same_text_bind:
  assumes "same_text r r'" and "\<And>s b b'. same_text (f (s, b)) (f' (s, b'))"
  shows "same_text (res_bind r f) (res_bind r' f')"
  using assms by (cases r; cases r') (auto simp: same_text_def)

lemma same_text_bind_same:
  assumes "\<And>x. same_text (f x) (f' x)"
  shows "same_text (res_bind r f) (res_bind r f')"
  using assms by (cases r) (auto simp: same_text_def)

definition erase_filter :: "filter_dto \<Rightarrow> filter_dto" where
  "erase_filter f = f\<lparr>fq_values := None\<rparr>"

definition erase_metric_filter :: "metric_filter_dto \<Rightarrow> metric_filter_dto" where
  "erase_metric_filter f = f\<lparr>mq_values := []\<rparr>"

definition erase_values :: "analytics_query \<Rightarrow> analytics_query" where
  "erase_values qy = qy\<lparr>aq_filters := map erase_filter (aq_filters qy),
     aq_metric_filters := map erase_metric_filter (aq_metric_filters qy), aq_start := JNull, aq_end := JNull\<rparr>"

lemma erase_filter_simps [simp]:
  "fq_dimension (erase_filter f) = fq_dimension f" "fq_operator (erase_filter f) = fq_operator f"
  "mq_metric (erase_metric_filter g) = mq_metric g" "mq_operator (erase_metric_filter g) = mq_operator g"
  by (simp_all add: erase_filter_def erase_metric_filter_def)

lemma filters_from_text: "same_text (filters_from tpl pre t i fs) (filters_from tpl' pre t i (map erase_filter fs))"
  by (induction fs arbitrary: i)
    (auto simp: Let_def split_beta intro!: same_text_bind_same same_text_bind)

lemma buildFilters_text: "same_text (buildFilters tpl fs pre t) (buildFilters tpl' (map erase_filter fs) pre t)"
  by (auto simp: buildFilters_def intro!: same_text_bind [OF filters_from_text])

lemma metric_filters_from_text:
  "same_text (metric_filters_from ctx pre t i fs) (metric_filters_from ctx pre t i (map erase_metric_filter fs))"
  by (induction fs arbitrary: i)
    (auto simp: Let_def split_beta intro!: same_text_bind_same same_text_bind)

lemma buildMetricFilters_text:
  "same_text (buildMetricFilters ctx fs t pre) (buildMetricFilters ctx (map erase_metric_filter fs) t pre)"
  by (auto simp: buildMetricFilters_def intro!: same_text_bind [OF metric_filters_from_text])

lemma erase_values_simps [simp]:
  "aq_metrics (erase_values q) = aq_metrics q" "aq_dimensions (erase_values q) = aq_dimensions q"
  "aq_filters (erase_values q) = map erase_filter (aq_filters q)"
  "aq_metric_filters (erase_values q) = map erase_metric_filter (aq_metric_filters q)"
  "aq_granularity (erase_values q) = aq_granularity q" "aq_order (erase_values q) = aq_order q"
  "aq_limit (erase_values q) = aq_limit q" "aq_having_min_sessions (erase_values q) = aq_having_min_sessions q"
  "the_table (erase_values q) = the_table q" "aq_totals_group_by (erase_values q) = aq_totals_group_by q"
  "granularity_parts validTz (erase_values q) tz = granularity_parts validTz q tz" "order_by (erase_values q) g = order_by q g"
  by (simp_all add: erase_values_def the_table_def granularity_parts_def order_by_def projected_order_def cong: if_cong option.case_cong)

lemma totals_text:
  "same_text (buildFilteredTotalsQuery tpl q ctx) (buildFilteredTotalsQuery tpl' (erase_values q) ctx)"
  by (auto simp: buildFilteredTotalsQuery_def Let_def
      intro!: same_text_bind_same same_text_bind [OF buildFilters_text] same_text_bind [OF buildMetricFilters_text])

lemma analytics_text:
  "same_text (buildAnalyticsQuery tpl validTz q tz ctx) (buildAnalyticsQuery tpl' validTz (erase_values q) tz ctx)"
  by (auto simp: buildAnalyticsQuery_def Let_def totals_text
      intro!: same_text_bind_same same_text_bind [OF buildFilters_text] same_text_bind [OF buildMetricFilters_text])

lemma extremes_text:
  "same_text (buildExtremesQuery tpl q ctx)
     (buildExtremesQuery tpl' (q\<lparr>eq_filters := map erase_filter (eq_filters q),
        eq_metric_filters := map erase_metric_filter (eq_metric_filters q), eq_start := JNull, eq_end := JNull\<rparr>) ctx)"
  by (auto simp: buildExtremesQuery_def Let_def
      intro!: same_text_bind_same same_text_bind [OF buildFilters_text] same_text_bind [OF buildMetricFilters_text])

lemma funnel_text:
  "same_text (buildFunnelQuery tpl q)
     (buildFunnelQuery tpl' (q\<lparr>fu_filters := map erase_filter (fu_filters q), fu_start := JNull, fu_end := JNull,
        fu_window_seconds := 0, fu_steps := map (\<lambda>s. \<lparr>fs_goal_name = [], fs_label = None\<rparr>) (fu_steps q)\<rparr>))"
  by (auto simp: buildFunnelQuery_def Let_def intro!: same_text_bind [OF buildFilters_text])

text \<open>
  C20: No value a caller supplies reaches the text of a query. Whatever the filters' values, the dates, the goal names
  and the window are, the text, or the error, is the one for the same request with all of them blanked; values travel as
  parameters only.
\<close>
theorem values_never_in_text:
  "map_sum id fst (buildAnalyticsQuery tpl validTz q tz ctx) = map_sum id fst (buildAnalyticsQuery tpl validTz (erase_values q) tz ctx) \<and>
   map_sum id fst (buildExtremesQuery tpl e ctx) =
     map_sum id fst (buildExtremesQuery tpl (e\<lparr>eq_filters := map erase_filter (eq_filters e),
        eq_metric_filters := map erase_metric_filter (eq_metric_filters e), eq_start := JNull, eq_end := JNull\<rparr>) ctx) \<and>
   map_sum id fst (buildFunnelQuery tpl f) =
     map_sum id fst (buildFunnelQuery tpl (f\<lparr>fu_filters := map erase_filter (fu_filters f), fu_start := JNull, fu_end := JNull,
        fu_window_seconds := 0, fu_steps := map (\<lambda>s. \<lparr>fs_goal_name = [], fs_label = None\<rparr>) (fu_steps f)\<rparr>))"
  using analytics_text extremes_text funnel_text by (auto simp: same_text_def)

subsection \<open>Every parameter is bound once, to its own value\<close>

definition filter_params :: "(jsval \<Rightarrow> string) \<Rightarrow> string \<Rightarrow> nat \<Rightarrow> filter_dto list \<Rightarrow> bindings" where
  "filter_params tpl pre i fs = concat (map (\<lambda>(j, f). filter_bindings tpl (pre @ js_of_nat j) f) (enumerate i fs))"

definition metric_params :: "string \<Rightarrow> nat \<Rightarrow> metric_filter_dto list \<Rightarrow> bindings" where
  "metric_params pre i fs = concat (map (\<lambda>(j, f). metric_bindings (pre @ js_of_nat j) f) (enumerate i fs))"

lemma filters_from_params: "filters_from tpl pre t i fs = Inr (cs, bs) \<Longrightarrow> bs = filter_params tpl pre i fs \<and> length cs = length fs"
  by (induction fs arbitrary: i cs bs) (fastforce simp: filter_params_def res_simps Let_def)+

lemma buildFilters_params: "buildFilters tpl fs pre t = Inr (s, bs) \<Longrightarrow> bs = filter_params tpl pre 0 fs"
  by (auto simp: buildFilters_def res_simps filter_params_def split: if_splits dest!: filters_from_params)

lemma metric_filters_from_params: "metric_filters_from ctx pre t i fs = Inr (cs, bs) \<Longrightarrow> bs = metric_params pre i fs"
  by (induction fs arbitrary: i cs bs) (fastforce simp: metric_params_def res_simps Let_def)+

lemma buildMetricFilters_params: "buildMetricFilters ctx fs t pre = Inr (s, bs) \<Longrightarrow> bs = metric_params pre 0 fs"
  by (auto simp: buildMetricFilters_def res_simps metric_params_def split: if_splits dest!: metric_filters_from_params)

text \<open>The names of one filter's parameters, and the number in a name.\<close>

definition param_number :: "string \<Rightarrow> string \<Rightarrow> nat" where
  "param_number pre p = digits_value (takeWhile is_digit (drop (length pre) p))"

lemma param_number_of [simp]:
  "param_number pre (pre @ js_of_nat i) = i" "param_number pre (pre @ js_of_nat i @ ''a'') = i" "param_number pre (pre @ js_of_nat i @ ''b'') = i"
proof -
  have d: "\<And>c. c \<in> set (js_of_nat i) \<Longrightarrow> is_digit c" using js_of_nat_digits [of i] by (simp add: list_all_iff)
  have whole: "takeWhile is_digit (js_of_nat i) = js_of_nat i" using d by (simp add: takeWhile_eq_all_conv)
  have "takeWhile is_digit (js_of_nat i @ [c]) = js_of_nat i" if "\<not> is_digit c" for c
    using d that by (simp add: takeWhile_append2)
  moreover have "\<not> is_digit (CHR ''a'')" "\<not> is_digit (CHR ''b'')" by (simp_all add: is_digit_def)
  ultimately show "param_number pre (pre @ js_of_nat i) = i" "param_number pre (pre @ js_of_nat i @ ''a'') = i"
      "param_number pre (pre @ js_of_nat i @ ''b'') = i"
    by (simp_all add: param_number_def whole)
qed

lemma filter_bindings_names:
  "distinct (map fst (filter_bindings tpl p f))" "fst ` set (filter_bindings tpl p f) \<subseteq> {p, p @ ''a'', p @ ''b''}"
  by (auto simp: filter_bindings_def Let_def split: filter_op.splits)

lemma metric_bindings_names:
  "distinct (map fst (metric_bindings p f))" "fst ` set (metric_bindings p f) \<subseteq> {p, p @ ''a'', p @ ''b''}"
  by (auto simp: metric_bindings_def)

lemma numbered_distinct:
  assumes "\<And>j f. distinct (map fst (g (pre @ js_of_nat j) f :: bindings))"
    and "\<And>j f. fst ` set (g (pre @ js_of_nat j) f) \<subseteq> {pre @ js_of_nat j, (pre @ js_of_nat j) @ ''a'', (pre @ js_of_nat j) @ ''b''}"
  shows "distinct (map fst (concat (map (\<lambda>(j, f). g (pre @ js_of_nat j) f) (enumerate i fs)))) \<and>
     (\<forall>p \<in> fst ` set (concat (map (\<lambda>(j, f). g (pre @ js_of_nat j) f) (enumerate i fs))). take (length pre) p = pre \<and> i \<le> param_number pre p)"
proof (induction fs arbitrary: i)
  case Nil
  then show ?case by simp
next
  case (Cons f fs)
  have n: "param_number pre p = i \<and> take (length pre) p = pre" if "p \<in> fst ` set (g (pre @ js_of_nat i) f)" for p
    using assms(2) [of i f] that by auto
  have d: "fst ` set (g (pre @ js_of_nat i) f) \<inter> fst ` set (concat (map (\<lambda>(j, f). g (pre @ js_of_nat j) f) (enumerate (Suc i) fs))) = {}"
    using n Cons.IH [of "Suc i"] by fastforce
  show ?case
    using Cons.IH [of "Suc i"] n d assms(1) [of i f] by (fastforce simp: image_Un)
qed

lemma filter_params_names:
  "distinct (map fst (filter_params tpl pre 0 fs)) \<and> (\<forall>p \<in> fst ` set (filter_params tpl pre 0 fs). take (length pre) p = pre \<and> 0 \<le> param_number pre p)"
  unfolding filter_params_def by (rule numbered_distinct) (rule filter_bindings_names)+

lemma metric_params_names:
  "distinct (map fst (metric_params pre 0 fs)) \<and> (\<forall>p \<in> fst ` set (metric_params pre 0 fs). take (length pre) p = pre \<and> 0 \<le> param_number pre p)"
  unfolding metric_params_def by (rule numbered_distinct) (rule metric_bindings_names)+

lemma all_params_distinct:
  "distinct (map fst (date_bindings q @ filter_params tpl ''f'' 0 fs @ metric_params ''mf'' 0 gs))"
proof -
  have f: "take 1 p = ''f''" if "p \<in> fst ` set (filter_params tpl ''f'' 0 fs)" for p
    using that filter_params_names [of tpl "''f''" fs] by auto
  have m: "take 2 p = ''mf''" if "p \<in> fst ` set (metric_params ''mf'' 0 gs)" for p
    using that metric_params_names [of "''mf''" gs] by (auto simp: numeral_2_eq_2)
  have m1: "take 2 p = ''mf'' \<Longrightarrow> take 1 p \<noteq> ''f''" for p :: string by (cases p) auto
  have "distinct (map fst (date_bindings q))" by (simp add: date_bindings_def)
  moreover have "fst ` set (date_bindings q) \<inter> fst ` set (filter_params tpl ''f'' 0 fs) = {}"
    using f by (fastforce simp: date_bindings_def)
  moreover have "fst ` set (date_bindings q) \<inter> fst ` set (metric_params ''mf'' 0 gs) = {}"
    using m by (fastforce simp: date_bindings_def)
  moreover have "fst ` set (filter_params tpl ''f'' 0 fs) \<inter> fst ` set (metric_params ''mf'' 0 gs) = {}"
    using f m m1 by blast
  ultimately show ?thesis using filter_params_names [of tpl "''f''" fs] metric_params_names [of "''mf''" gs] by auto
qed

lemma analytics_bindings:
  assumes "buildAnalyticsQuery tpl validTz q tz ctx = Inr (sql, bs)"
  shows "bs = date_bindings q @ filter_params tpl ''f'' 0 (aq_filters q) @ metric_params ''mf'' 0 (aq_metric_filters q)"
  using assms
  by (auto simp: buildAnalyticsQuery_def buildFilteredTotalsQuery_def res_simps Let_def split: if_splits
      dest!: buildFilters_params buildMetricFilters_params)

lemma filter_params_set:
  "i < length fs \<Longrightarrow> set (filter_bindings tpl (pre @ js_of_nat i) (fs ! i)) \<subseteq> set (filter_params tpl pre 0 fs)"
  by (fastforce simp: filter_params_def in_set_enumerate_eq)

lemma metric_params_set:
  "i < length fs \<Longrightarrow> set (metric_bindings (pre @ js_of_nat i) (fs ! i)) \<subseteq> set (metric_params pre 0 fs)"
  by (fastforce simp: metric_params_def in_set_enumerate_eq)

text \<open>What a request must satisfy to be built: known names, available for the table, valid directions and time zone.\<close>

definition known_order :: "string \<times> string \<Rightarrow> bool" where
  "known_order e = ((metric_of (fst e) \<noteq> None \<or> dimension_of (fst e) \<noteq> None) \<and> js_lower (snd e) \<in> {''asc'', ''desc''})"

definition request_ok :: "(string \<Rightarrow> bool) \<Rightarrow> analytics_query \<Rightarrow> string option \<Rightarrow> bool" where
  "request_ok validTz q tz =
     (list_all (\<lambda>m. \<exists>x. lookup_metric (the_table q) m = Inr x) (aq_metrics q @ map mq_metric (aq_metric_filters q)) \<and>
      list_all (\<lambda>d. \<exists>x. lookup_dimension (the_table q) d = Inr x) (aq_dimensions q @ aq_totals_group_by q @ map fq_dimension (aq_filters q)) \<and>
      (case aq_order q of None \<Rightarrow> True | Some es \<Rightarrow> list_all known_order es) \<and>
      (case tz of None \<Rightarrow> True | Some z \<Rightarrow> z \<in> {[], ''UTC''} \<or> validTz z))"

lemma filters_from_total:
  "list_all (\<lambda>f. \<exists>x. lookup_dimension t (fq_dimension f) = Inr x) fs \<Longrightarrow> \<exists>r. filters_from tpl pre t i fs = Inr r"
proof (induction fs arbitrary: i)
  case (Cons f fs)
  then obtain x r where "lookup_dimension t (fq_dimension f) = Inr x" "filters_from tpl pre t (Suc i) fs = Inr r" by fastforce
  then show ?case by (cases r) (simp add: Let_def)
qed simp

lemma buildFilters_total:
  "list_all (\<lambda>f. \<exists>x. lookup_dimension t (fq_dimension f) = Inr x) fs \<Longrightarrow> \<exists>s bs. buildFilters tpl fs pre t = Inr (s, bs)"
  using filters_from_total [of t fs tpl pre 0] by (auto simp: buildFilters_def)

lemma metric_filters_from_total:
  "list_all (\<lambda>f. \<exists>x. lookup_metric t (mq_metric f) = Inr x) fs \<Longrightarrow> \<exists>r. metric_filters_from ctx pre t i fs = Inr r"
proof (induction fs arbitrary: i)
  case (Cons f fs)
  then obtain x r where "lookup_metric t (mq_metric f) = Inr x" "metric_filters_from ctx pre t (Suc i) fs = Inr r" by fastforce
  then show ?case by (cases r) (simp add: Let_def)
qed simp

lemma buildMetricFilters_total:
  "list_all (\<lambda>f. \<exists>x. lookup_metric t (mq_metric f) = Inr x) fs \<Longrightarrow> \<exists>s bs. buildMetricFilters ctx fs t pre = Inr (s, bs)"
  using metric_filters_from_total [of t fs ctx pre 0] by (auto simp: buildMetricFilters_def)

lemma order_by_total:
  assumes "case aq_order q of None \<Rightarrow> True | Some es \<Rightarrow> list_all known_order es"
  shows "\<exists>s. order_by q g = Inr s"
proof -
  have "\<exists>y. orderClauseFor f d = Inr y" if "known_order (f, d)" for f d
    using that by (auto simp: orderClauseFor_def known_order_def normalizeOrderDirection_def)
  then have "\<exists>ys. res_map (\<lambda>(f, d). orderClauseFor f d) (projected_order q) = Inr ys"
    using assms by (intro res_map_total) (auto simp: projected_order_def list_all_iff split: option.splits)
  then show ?thesis by (auto simp: order_by_def)
qed

lemma totals_of_total: "lookup_metric t m = Inr x \<Longrightarrow> \<exists>y. totals_of ctx m = Inr y"
  by (auto simp: lookup_metric_def totals_of_def split: option.splits)

lemma request_metric: "request_ok validTz q tz \<Longrightarrow> m \<in> set (aq_metrics q) \<Longrightarrow> \<exists>v. lookup_metric (the_table q) m = Inr v"
  unfolding request_ok_def list_all_iff set_append by blast

lemma request_builds:
  assumes "request_ok validTz q tz"
  shows "\<exists>sql bs. buildAnalyticsQuery tpl validTz q tz ctx = Inr (sql, bs)"
proof -
  let ?t = "the_table q" and ?c = "default_context ctx"
  have f: "\<exists>s bs. buildFilters tpl (aq_filters q) ''f'' ?t = Inr (s, bs)"
    using assms by (intro buildFilters_total) (simp add: request_ok_def list_all_iff)
  have m: "\<exists>s bs. buildMetricFilters ?c (aq_metric_filters q) ?t ''mf'' = Inr (s, bs)"
    using assms by (intro buildMetricFilters_total) (simp add: request_ok_def list_all_iff)
  have d: "\<exists>ds. res_map (lookup_dimension ?t) (aq_dimensions q) = Inr ds" "\<exists>ds. res_map (lookup_dimension ?t) (aq_totals_group_by q) = Inr ds"
    using assms by (auto simp: request_ok_def list_all_iff intro!: res_map_total)
  have "\<exists>y. metric_select ?t ?c x = Inr y" if "x \<in> set (aq_metrics q)" for x
    using request_metric [OF assms that] by (auto simp: metric_select_def)
  then have ms: "\<exists>ys. res_map (metric_select ?t ?c) (aq_metrics q) = Inr ys"
    by (rule res_map_total)
  have "\<exists>y. totals_of ?c x = Inr y" if "x \<in> set (aq_metrics q)" for x
    using request_metric [OF assms that] totals_of_total by blast
  then have ts: "\<exists>ys. res_map (totals_of ?c) (aq_metrics q) = Inr ys" by (rule res_map_total)
  have g: "\<exists>a b. granularity_parts validTz q tz = Inr (a, b)"
    using assms by (auto simp: granularity_parts_def request_ok_def Let_def split: option.splits)
  have o: "\<exists>s. order_by q gc = Inr s" for gc using assms by (intro order_by_total) (simp add: request_ok_def)
  obtain fs fb where F: "buildFilters tpl (aq_filters q) ''f'' ?t = Inr (fs, fb)" using f by blast
  obtain hs hb where H: "buildMetricFilters ?c (aq_metric_filters q) ?t ''mf'' = Inr (hs, hb)" using m by blast
  obtain ds es where D: "res_map (lookup_dimension ?t) (aq_dimensions q) = Inr ds" "res_map (lookup_dimension ?t) (aq_totals_group_by q) = Inr es"
    using d by blast
  obtain ys where Y: "res_map (metric_select ?t ?c) (aq_metrics q) = Inr ys" using ms by blast
  obtain zs where Z: "res_map (totals_of ?c) (aq_metrics q) = Inr zs" using ts by blast
  obtain ga gc where G: "granularity_parts validTz q tz = Inr (ga, gc)" using g by blast
  obtain ob where O: "order_by q gc = Inr ob" using o by blast
  show ?thesis
    unfolding buildAnalyticsQuery_def buildFilteredTotalsQuery_def Let_def
    by (simp only: F H D Y Z G O res_bind.simps prod.case if_distrib [of "\<lambda>x. x = _"] split: if_splits) blast
qed

text \<open>
  Every parameter is bound exactly once, and each filter's parameters to that filter's values: the values of one filter never end up in
  another's condition, and neither dates nor metric filters are mixed up with them.
\<close>
theorem parameters_bound_once:
  assumes "buildAnalyticsQuery tpl validTz q tz ctx = Inr (sql, bs)"
    and "i < length (aq_filters q)" and "j < length (aq_metric_filters q)"
  shows "distinct (map fst bs) \<and> map_of bs ''date_start'' = Some (aq_start q) \<and> map_of bs ''date_end'' = Some (aq_end q) \<and>
     list_all (\<lambda>(p, v). map_of bs p = Some v) (filter_bindings tpl (''f'' @ js_of_nat i) (aq_filters q ! i)) \<and>
     list_all (\<lambda>(p, v). map_of bs p = Some v) (metric_bindings (''mf'' @ js_of_nat j) (aq_metric_filters q ! j))"
proof -
  note bs = analytics_bindings [OF assms(1)]
  have d: "distinct (map fst bs)" using all_params_distinct by (simp only: bs)
  have "set (filter_bindings tpl (''f'' @ js_of_nat i) (aq_filters q ! i)) \<subseteq> set bs"
    and "set (metric_bindings (''mf'' @ js_of_nat j) (aq_metric_filters q ! j)) \<subseteq> set bs"
    using filter_params_set [OF assms(2)] metric_params_set [OF assms(3)] bs by fastforce+
  moreover have "(''date_start'', aq_start q) \<in> set bs" "(''date_end'', aq_end q) \<in> set bs" by (simp_all add: bs date_bindings_def)
  ultimately show ?thesis using d by (auto simp: list_all_iff intro!: map_of_is_SomeI)
qed

definition sample_query :: analytics_query where
  "sample_query = \<lparr>aq_metrics = [''sessions''], aq_dimensions = [''channel''],
     aq_filters = [\<lparr>fq_dimension = ''channel'', fq_operator = F_equals, fq_values = Some [JStr ''ads'']\<rparr>],
     aq_metric_filters = [\<lparr>mq_metric = ''sessions'', mq_operator = M_between, mq_values = [JNum 10, JNum 20]\<rparr>],
     aq_start = JStr ''2026-01-01'', aq_end = JStr ''2026-02-01'', aq_granularity = None, aq_order = None, aq_limit = None,
     aq_having_min_sessions = None, aq_table = None, aq_totals_group_by = []\<rparr>"

lemma sample_names: "\<exists>x. lookup_dimension Sessions ''channel'' = Inr x" "\<exists>x. lookup_metric Sessions ''sessions'' = Inr x"
  by (simp_all add: lookup_dimension_def lookup_metric_def available_def dimension_of_def metric_of_def DIMENSIONS_def DIMENSIONS_1_def
      DIMENSIONS_2_def DIMENSIONS_3_def DIMENSIONS_4_def METRICS_def dim_def met_def)

lemma sample_ok: "request_ok validTz sample_query None"
  using sample_names by (simp add: request_ok_def sample_query_def the_table_def)

lemma parameters_bound_once_witness:
  "map_of (snd (projr (buildAnalyticsQuery (\<lambda>_. []) (\<lambda>_. True) sample_query None None))) ''f0'' = Some (JStr ''ads'')"
proof -
  obtain s bs where r: "buildAnalyticsQuery (\<lambda>_. []) (\<lambda>_. True) sample_query None None = Inr (s, bs)"
    using request_builds [OF sample_ok] by blast
  have z: "js_of_nat 0 = ''0''" by code_simp
  from parameters_bound_once [OF r, of 0 0] r z show ?thesis
    by (simp add: sample_query_def filter_bindings_def value_at_def)
qed

end
