(* ===== verification/Tunnel.thy ===== *)
theory Tunnel
  imports Json Cross_Domain "HOL-Library.Product_Lexorder"
begin

section \<open>Export of events and the aggregates of the sales tunnel\<close>

text \<open>
  \<^verbatim>\<open>api/src/export/export.service.ts\<close>, \<^verbatim>\<open>api/src/tunnel/tunnel-aggregator.ts\<close> and
  \<^verbatim>\<open>tunnel-aggregate.service.ts\<close>. The table of events is a list of rows; of a row only the columns the aggregation reads are
  kept, the columns joined from the attribution table being copied through. How the database orders times and ids, how it
  writes a parameter that is not a string, and the JavaScript parsers of numbers and dates are arguments.
\<close>

subsection \<open>Reading events page by page\<close>

(* src: api/src/tunnel/tunnel-aggregator.ts:41-51 RawEventRow *)
record raw_event =
  re_id :: string
  re_user_id :: "string option"
  re_session_id :: string
  re_name :: string
  re_path :: string
  re_max_scroll :: real
  re_goal_name :: string
  re_properties :: "(string \<times> string) list"
  re_goal_timestamp :: "string option"
  re_updated_at :: string

text \<open>The order of instants and of ids in the database, and the text of a parameter.\<close>

record export_env =
  xp_time :: "string \<Rightarrow> int"
  xp_rank :: "string \<Rightarrow> int"
  xp_text :: "json \<Rightarrow> string"

(* src: api/src/export/dto/user-events-query.dto.ts:11-35 UserEventsQueryDto *)
record events_query =
  xq_cursor :: "string option"
  xq_since :: "int option"
  xq_until :: int
  xq_user_id :: "string option"
  xq_limit :: "nat option"

(* src: api/src/export/dto/user-events-query.dto.ts:110-114 UserEventsResponse *)
record events_page =
  pg_data :: "raw_event list"
  pg_next_cursor :: "string option"
  pg_has_more :: bool

definition row_key :: "export_env \<Rightarrow> raw_event \<Rightarrow> int \<times> int" where
  "row_key env e = (xp_time env (re_updated_at e), xp_rank env (re_id e))"

text \<open>\<open>Buffer.from(s, 'base64')\<close>: the URL-safe letters count too, other characters are skipped, and reading stops at the padding.\<close>

fun loose_bytes :: "nat list \<Rightarrow> nat list" where
  "loose_bytes (x # y # z # w # r) =
     [x * 4 + y div 16, (y mod 16) * 16 + z div 4, (z mod 4) * 64 + w] @ loose_bytes r"
| "loose_bytes [x, y, z] = [x * 4 + y div 16, (y mod 16) * 16 + z div 4]"
| "loose_bytes [x, y] = [x * 4 + y div 16]"
| "loose_bytes _ = []"

definition buffer_from_base64 :: "string \<Rightarrow> string" where
  "buffer_from_base64 s =
     map char_of (loose_bytes (List.map_filter b64_value
       (js_replace_char (CHR ''_'') ''/'' (js_replace_char (CHR ''-'') ''+'' (takeWhile (\<lambda>c. c \<noteq> CHR ''='') s)))))"

(* src: api/src/export/export.service.ts:172-181 getUserEvents *)
definition encode_cursor :: "raw_event \<Rightarrow> string" where
  "encode_cursor e = btoa (json_print (JsObj [(''updated_at'', JsStr (re_updated_at e)), (''id'', JsStr (re_id e))]))"

definition json_truthy :: "json option \<Rightarrow> bool" where
  "json_truthy v = (v \<notin> {None, Some JsNull, Some (JsBool False), Some (JsInt 0), Some (JsStr [])})"

(* src: api/src/export/export.service.ts:38-46 getUserEvents *)
definition decode_cursor :: "string \<Rightarrow> (json \<times> json) option" where
  "decode_cursor s =
     (case json_parse (buffer_from_base64 s) of
        None \<Rightarrow> None
      | Some v \<Rightarrow>
          (if json_truthy (json_field v ''updated_at'') \<and> json_truthy (json_field v ''id'')
           then Some (the (json_field v ''updated_at''), the (json_field v ''id'')) else None))"

text \<open>Where a query starts: after a cursor, or at an instant.\<close>

datatype start_at = After "int \<times> int" | Since int | Anywhere

(* src: api/src/export/export.service.ts:53-82 getUserEvents *)
definition row_matches :: "export_env \<Rightarrow> start_at \<Rightarrow> int \<Rightarrow> string option \<Rightarrow> raw_event \<Rightarrow> bool" where
  "row_matches env from until user e =
     (re_user_id e \<noteq> None \<and>
      (case from of After c \<Rightarrow> c < row_key env e | Since t \<Rightarrow> t \<le> xp_time env (re_updated_at e) | Anywhere \<Rightarrow> True) \<and>
      xp_time env (re_updated_at e) \<le> until \<and>
      (js_truthy user \<longrightarrow> re_user_id e = user))"

(* src: api/src/export/export.service.ts:168-187 getUserEvents *)
definition page_of :: "nat \<Rightarrow> raw_event list \<Rightarrow> events_page" where
  "page_of limit rows =
     (let more = limit < length rows; data = (if more then take limit rows else rows)
      in \<lparr>pg_data = data,
          pg_next_cursor = (if more \<and> data \<noteq> [] then Some (encode_cursor (last data)) else None),
          pg_has_more = more\<rparr>)"

(* src: api/src/export/export.service.ts:22-189 getUserEvents *)
definition getUserEvents :: "export_env \<Rightarrow> raw_event list \<Rightarrow> events_query \<Rightarrow> string + events_page" where
  "getUserEvents env table dto =
     (if \<not> js_truthy (xq_cursor dto) \<and> xq_since dto = None
      then Inl ''Either cursor or since parameter is required''
      else
        (let limit = js_nullish (xq_limit dto) 100;
             run = (\<lambda>from. page_of limit
                      (take (limit + 1) (sort_key (row_key env) (filter (row_matches env from (xq_until dto) (xq_user_id dto)) table))))
         in case xq_cursor dto of
              Some c \<Rightarrow>
                (if c \<noteq> [] then
                   (case decode_cursor c of
                      None \<Rightarrow> Inl ''Invalid cursor format''
                    | Some (u, i) \<Rightarrow> Inr (run (After (xp_time env (xp_text env u), xp_rank env (xp_text env i)))))
                 else Inr (run (case xq_since dto of Some t \<Rightarrow> Since t | None \<Rightarrow> Anywhere)))
            | None \<Rightarrow> Inr (run (case xq_since dto of Some t \<Rightarrow> Since t | None \<Rightarrow> Anywhere))))"

subsection \<open>Folding events into aggregates\<close>

(* src: api/src/tunnel/entities/analytics-aggregate.ts:16-41 AnalyticsAggregate *)
record aggregate =
  ag_user_id :: string
  ag_audit_views :: nat
  ag_audit_scroll_max :: real
  ag_hot_pages :: nat
  ag_other_pages :: nat
  ag_consented :: bool
  ag_cta_clicks :: nat
  ag_rdv_booked :: nat
  ag_identified_by_email :: bool
  ag_app_started :: bool
  ag_sessions :: nat
  ag_last_seen :: "string option"

(* src: api/src/tunnel/tunnel-aggregator.ts:54-60 Acc *)
record accumulator =
  ac_agg :: aggregate
  ac_sessions :: "string list"
  ac_hot :: "string list"
  ac_other :: "string list"
  ac_last_seen :: "int option"

record date_env =
  de_parse :: "string \<Rightarrow> int option"
  de_iso :: "int \<Rightarrow> string"
  de_number :: "string \<Rightarrow> real option"

definition HOT_PATHS :: "string list" where
  "HOT_PATHS = [''/tarifs'', ''/contact'', ''/roi'']"

(* src: api/src/tunnel/tunnel-aggregator.ts:20-33 CTA_GOALS *)
definition goal_class :: "string \<Rightarrow> string" where
  "goal_class g =
     (if g \<in> {''audit_view'', ''audit_page_view''} then ''audit_view''
      else if g \<in> {''audit_scroll'', ''scroll_depth''} then ''audit_scroll''
      else if g \<in> {''audit_cta_rdv'', ''appointment_click'', ''roi_lead_click'', ''cta_click''} then ''cta''
      else if g = ''rdv_booked'' then ''rdv''
      else if g = ''consent_granted'' then ''consent''
      else if g = ''signup'' then ''signup''
      else if g = ''app_started'' then ''app_started''
      else ''other'')"

definition new_accumulator :: "string \<Rightarrow> accumulator" where
  "new_accumulator i =
     \<lparr>ac_agg = \<lparr>ag_user_id = i, ag_audit_views = 0, ag_audit_scroll_max = 0, ag_hot_pages = 0, ag_other_pages = 0,
        ag_consented = False, ag_cta_clicks = 0, ag_rdv_booked = 0, ag_identified_by_email = js_includes i ''@'',
        ag_app_started = False, ag_sessions = 0, ag_last_seen = None\<rparr>,
      ac_sessions = [], ac_hot = [], ac_other = [], ac_last_seen = None\<rparr>"

fun replace_first_space :: "string \<Rightarrow> string" where
  "replace_first_space [] = []"
| "replace_first_space (c # s) = (if c = CHR '' '' then CHR ''T'' # s else c # replace_first_space s)"

(* src: api/src/tunnel/tunnel-aggregator.ts:155-160 parseClickHouseDate *)
definition parseClickHouseDate :: "date_env \<Rightarrow> string \<Rightarrow> int option" where
  "parseClickHouseDate d s =
     (if s = [] then None else de_parse d (if js_includes s ''T'' then s else replace_first_space s @ ''Z''))"

definition larger :: "real option \<Rightarrow> real \<Rightarrow> real" where
  "larger x m = (case x of None \<Rightarrow> m | Some v \<Rightarrow> if m < v then v else m)"

(* src: api/src/tunnel/tunnel-aggregator.ts:105-109 aggregateEvents *)
definition note_seen :: "date_env \<Rightarrow> raw_event \<Rightarrow> accumulator \<Rightarrow> accumulator" where
  "note_seen d e acc =
     (case parseClickHouseDate d (js_nullish (re_goal_timestamp e) (re_updated_at e)) of
        None \<Rightarrow> acc
      | Some t \<Rightarrow>
          (if (case ac_last_seen acc of None \<Rightarrow> True | Some l \<Rightarrow> l < t)
           then acc\<lparr>ac_last_seen := Some t, ac_agg := (ac_agg acc)\<lparr>ag_last_seen := Some (de_iso d t)\<rparr>\<rparr> else acc))"

(* src: api/src/tunnel/tunnel-aggregator.ts:111-143 aggregateEvents *)
definition note_event :: "date_env \<Rightarrow> raw_event \<Rightarrow> accumulator \<Rightarrow> accumulator" where
  "note_event d e acc =
     (let agg = ac_agg acc in
      if re_name e = ''screen_view'' then
        (if js_starts_with (re_path e) ''/audit/'' then
           acc\<lparr>ac_agg := agg\<lparr>ag_audit_views := ag_audit_views agg + 1,
             ag_audit_scroll_max := larger (Some (re_max_scroll e)) (ag_audit_scroll_max agg)\<rparr>\<rparr>
         else if re_path e \<in> set HOT_PATHS then
           (let hot = List.insert (re_path e) (ac_hot acc)
            in acc\<lparr>ac_hot := hot, ac_agg := agg\<lparr>ag_hot_pages := length hot\<rparr>\<rparr>)
         else
           (let other = List.insert (re_path e) (ac_other acc)
            in acc\<lparr>ac_other := other, ac_agg := agg\<lparr>ag_other_pages := length other\<rparr>\<rparr>))
      else if re_name e = ''goal'' then
        (let c = goal_class (re_goal_name e) in
         if c = ''audit_view'' then
           acc\<lparr>ac_agg := agg\<lparr>ag_audit_views := ag_audit_views agg + (if ag_audit_views agg = 0 then 1 else 0)\<rparr>\<rparr>
         else if c = ''audit_scroll'' then
           acc\<lparr>ac_agg := agg\<lparr>ag_audit_scroll_max :=
             larger (case map_of (re_properties e) ''depth'' of None \<Rightarrow> Some 0 | Some s \<Rightarrow> de_number d s) (ag_audit_scroll_max agg)\<rparr>\<rparr>
         else if c = ''cta'' then acc\<lparr>ac_agg := agg\<lparr>ag_cta_clicks := ag_cta_clicks agg + 1\<rparr>\<rparr>
         else if c = ''rdv'' then acc\<lparr>ac_agg := agg\<lparr>ag_rdv_booked := ag_rdv_booked agg + 1\<rparr>\<rparr>
         else if c = ''consent'' then acc\<lparr>ac_agg := agg\<lparr>ag_consented := True\<rparr>\<rparr>
         else if c = ''signup'' then acc\<lparr>ac_agg := agg\<lparr>ag_identified_by_email := True\<rparr>\<rparr>
         else if c = ''app_started'' then
           (if map_of (re_properties e) ''app'' \<in> {Some ''notifuse'', Some ''prospection''}
            then acc\<lparr>ac_agg := agg\<lparr>ag_app_started := True\<rparr>\<rparr> else acc)
         else acc)
      else acc)"

(* src: api/src/tunnel/tunnel-aggregator.ts:102-143 aggregateEvents *)
definition count_event :: "date_env \<Rightarrow> raw_event \<Rightarrow> accumulator \<Rightarrow> accumulator" where
  "count_event d e acc =
     (let sessions = List.insert (re_session_id e) (ac_sessions acc)
      in note_event d e (note_seen d e
           (acc\<lparr>ac_sessions := sessions, ac_agg := (ac_agg acc)\<lparr>ag_sessions := length sessions\<rparr>\<rparr>)))"

(* src: api/src/tunnel/tunnel-aggregator.ts:66-147 aggregateEvents *)
fun aggregateEvents :: "date_env \<Rightarrow> raw_event list \<Rightarrow> (string \<times> accumulator) list \<Rightarrow> (string \<times> accumulator) list" where
  "aggregateEvents d [] out = out"
| "aggregateEvents d (e # es) out =
     (case re_user_id e of
        None \<Rightarrow> aggregateEvents d es out
      | Some i \<Rightarrow>
          (if i = [] then aggregateEvents d es out
           else aggregateEvents d es
                  (AList.update i (count_event d e (js_nullish (map_of out i) (new_accumulator i))) out)))"

(* src: api/src/tunnel/tunnel-aggregator.ts:150-152 toAggregates *)
definition toAggregates :: "(string \<times> accumulator) list \<Rightarrow> aggregate list" where
  "toAggregates out = map (ac_agg \<circ> snd) out"

subsection \<open>Walking the pages\<close>

(* src: api/src/tunnel/tunnel-aggregate.service.ts:26-34 TunnelAggregateResult *)
record tunnel_result =
  tr_aggregates :: "aggregate list"
  tr_truncated :: bool
  tr_next_cursor :: "string option"

definition PAGE_SIZE :: nat where "PAGE_SIZE = 1000"
definition MAX_PAGES :: nat where "MAX_PAGES = 200"

text \<open>The loop, with the number of pages left; it returns the events read and the cursor it stopped at.\<close>

(* src: api/src/tunnel/tunnel-aggregate.service.ts:71-82 aggregate *)
fun walk_pages :: "export_env \<Rightarrow> raw_event list \<Rightarrow> nat \<Rightarrow> int \<Rightarrow> int \<Rightarrow> string option \<Rightarrow> nat \<Rightarrow> string + (raw_event list \<times> string option)" where
  "walk_pages env table psize since until cursor 0 = Inr ([], cursor)"
| "walk_pages env table psize since until cursor (Suc n) =
     res_bind (getUserEvents env table
         \<lparr>xq_cursor = (if js_truthy cursor then cursor else None), xq_since = (if js_truthy cursor then None else Some since),
          xq_until = until, xq_user_id = None, xq_limit = Some psize\<rparr>)
       (\<lambda>page. if js_truthy (pg_next_cursor page)
          then res_bind (walk_pages env table psize since until (pg_next_cursor page) n) (\<lambda>(es, c). Inr (pg_data page @ es, c))
          else Inr (pg_data page, pg_next_cursor page))"

(* src: api/src/tunnel/tunnel-aggregate.service.ts:57-102 aggregate *)
definition tunnel_aggregate :: "export_env \<Rightarrow> date_env \<Rightarrow> int \<Rightarrow> raw_event list \<Rightarrow> int option \<Rightarrow> int option \<Rightarrow> string option \<Rightarrow> string + tunnel_result" where
  "tunnel_aggregate env d now table since until cursor =
     (let u = js_nullish until now; s = js_nullish since (u - 48 * 60 * 60 * 1000)
      in res_bind (walk_pages env table PAGE_SIZE s u cursor MAX_PAGES)
           (\<lambda>(es, c). Inr \<lparr>tr_aggregates = toAggregates (aggregateEvents d es []), tr_truncated = (c \<noteq> None), tr_next_cursor = c\<rparr>))"

section \<open>What the export and the aggregates guarantee\<close>

subsection \<open>The cursor reads back\<close>

lemma loose_sextets: "\<forall>b \<in> set bs. b < 256 \<Longrightarrow> loose_bytes (b64_sextets bs) = bs"
proof (induction bs rule: b64_sextets.induct)
  case (4 a b c r)
  then have "b div 16 < 16" "c div 64 < 4" by (simp_all add: nibbles)
  with 4 show ?case by (simp add: join_bits)
next
  case (3 a b)
  then have "b div 16 < 16" by (simp add: nibbles)
  then show ?case by (simp add: join_bits)
qed simp_all

lemma buffer_from_btoa: "buffer_from_base64 (btoa s) = s"
proof -
  let ?xs = "b64_sextets (map of_char s)"
  have bytes: "\<forall>b \<in> set (map of_char s). b < (256 :: nat)" using of_char_bound by auto
  have b: "x < 64" if "x \<in> set ?xs" for x using b64_sextets_bound [OF bytes] that by blast
  have ne: "b64_char x \<noteq> CHR ''=''" "b64_char x \<noteq> CHR ''-''" "b64_char x \<noteq> CHR ''_''" if "x \<in> set ?xs" for x
    using b64_char_facts [OF b [OF that]] by simp_all
  have "takeWhile (\<lambda>c. c \<noteq> CHR ''='') (b64_padding (length s)) = []" by (simp add: b64_padding_def)
  then have "takeWhile (\<lambda>c. c \<noteq> CHR ''='') (btoa s) = map b64_char ?xs"
    using ne(1) by (simp add: btoa_def takeWhile_append)
  moreover have "js_replace_char (CHR ''_'') ''/'' (js_replace_char (CHR ''-'') ''+'' (map b64_char ?xs)) = map b64_char ?xs"
    using ne(2,3) by (simp add: replace_char_map)
  moreover have "List.map_filter b64_value (map b64_char ?xs) = ?xs"
    using b by (induction ?xs arbitrary: s) (simp_all add: List.map_filter_def o_def cong: map_cong filter_cong)
  moreover have "loose_bytes ?xs = map of_char s" using loose_sextets [OF bytes] .
  ultimately show ?thesis by (simp add: buffer_from_base64_def comp_def)
qed

lemma decode_encode_cursor:
  assumes "re_updated_at e \<noteq> []" and "re_id e \<noteq> []"
  shows "decode_cursor (encode_cursor e) = Some (JsStr (re_updated_at e), JsStr (re_id e))"
  using assms by (simp add: decode_cursor_def encode_cursor_def buffer_from_btoa json_field_def json_truthy_def del: json_print.simps)

subsection \<open>Pages put together\<close>

definition matching :: "export_env \<Rightarrow> raw_event list \<Rightarrow> start_at \<Rightarrow> int \<Rightarrow> string option \<Rightarrow> raw_event list" where
  "matching env table from until user = sort_key (row_key env) (filter (row_matches env from until user) table)"

text \<open>What is relied on of the database: rows have ids and times, no two rows compare equal, and text parameters are themselves.\<close>

definition export_ok :: "export_env \<Rightarrow> raw_event list \<Rightarrow> bool" where
  "export_ok env table =
     (distinct (map (row_key env) table) \<and> list_all (\<lambda>e. re_updated_at e \<noteq> [] \<and> re_id e \<noteq> []) table \<and>
      (\<forall>s. xp_text env (JsStr s) = s))"

lemma matching_strict:
  assumes "export_ok env table"
  shows "sorted_wrt (\<lambda>a b. row_key env a < row_key env b) (matching env table from until user)"
proof -
  let ?m = "matching env table from until user"
  have "distinct (map (row_key env) (filter (row_matches env from until user) table))"
    using assms by (simp add: export_ok_def distinct_map_filter)
  then have "distinct (map (row_key env) ?m)" by (simp add: matching_def distinct_map)
  moreover have "sorted (map (row_key env) ?m)" by (simp add: matching_def)
  ultimately have "sorted_wrt (<) (map (row_key env) ?m)" by (simp add: strict_sorted_iff)
  then show ?thesis by (simp add: sorted_wrt_map)
qed

lemma filter_beyond:
  assumes "sorted_wrt (\<lambda>a b. k a < (k b :: 'k :: linorder)) xs" and "n < length xs"
  shows "filter (\<lambda>x. k (xs ! n) < k x) xs = drop (Suc n) xs"
proof -
  have "filter (\<lambda>x. k (xs ! n) < k x) xs = filter (\<lambda>x. k (xs ! n) < k x) (take (Suc n) xs @ drop (Suc n) xs)" by simp
  also have "\<dots> = filter (\<lambda>x. k (xs ! n) < k x) (take (Suc n) xs) @ filter (\<lambda>x. k (xs ! n) < k x) (drop (Suc n) xs)"
    by (simp only: filter_append)
  also have "filter (\<lambda>x. k (xs ! n) < k x) (take (Suc n) xs) = []"
    using assms by (fastforce simp: filter_empty_conv in_set_conv_nth sorted_wrt_iff_nth_less less_Suc_eq)
  also have "filter (\<lambda>x. k (xs ! n) < k x) (drop (Suc n) xs) = drop (Suc n) xs"
    using assms by (auto simp: filter_id_conv in_set_conv_nth sorted_wrt_iff_nth_less)
  finally show ?thesis by simp
qed

lemma matching_after:
  assumes ok: "export_ok env table" and n: "n < length (matching env table from until user)"
  shows "matching env table (After (row_key env (matching env table from until user ! n))) until user =
     drop (Suc n) (matching env table from until user)"
proof -
  let ?m = "matching env table from until user" and ?k = "row_key env"
  let ?l = "?m ! n"
  have "row_matches env from until user ?l" using nth_mem [OF n] by (simp add: matching_def)
  then have "row_matches env (After (?k ?l)) until user e = (row_matches env from until user e \<and> ?k ?l < ?k e)" for e
    by (cases "from") (auto simp: row_matches_def row_key_def)
  then have "filter (row_matches env (After (?k ?l)) until user) table =
      filter (\<lambda>e. ?k ?l < ?k e) (filter (row_matches env from until user) table)"
    unfolding filter_filter by (intro filter_cong) simp_all
  then have "matching env table (After (?k ?l)) until user = filter (\<lambda>e. ?k ?l < ?k e) ?m"
    by (simp add: matching_def filter_sort)
  then show ?thesis using filter_beyond [OF matching_strict [OF ok] n] by simp
qed

text \<open>A cursor stands for a start.\<close>

definition starts :: "export_env \<Rightarrow> raw_event list \<Rightarrow> int \<Rightarrow> string option \<Rightarrow> start_at \<Rightarrow> bool" where
  "starts env table since cursor from =
     (case cursor of None \<Rightarrow> from = Since since
      | Some c \<Rightarrow> \<exists>e \<in> set table. c = encode_cursor e \<and> from = After (row_key env e))"

lemma encode_cursor_not_Nil: "encode_cursor e \<noteq> []"
proof -
  have "buffer_from_base64 (encode_cursor e) = json_print (JsObj [(''updated_at'', JsStr (re_updated_at e)), (''id'', JsStr (re_id e))])"
    unfolding encode_cursor_def by (rule buffer_from_btoa)
  moreover have "buffer_from_base64 [] = []" by (simp add: buffer_from_base64_def List.map_filter_def)
  ultimately show ?thesis by auto
qed

lemma page_from:
  assumes ok: "export_ok env table" and s: "starts env table since cursor from" and p: "0 < psize"
  shows "getUserEvents env table
         \<lparr>xq_cursor = (if js_truthy cursor then cursor else None), xq_since = (if js_truthy cursor then None else Some since),
          xq_until = until, xq_user_id = None, xq_limit = Some psize\<rparr> =
     (let m = matching env table from until None
      in Inr \<lparr>pg_data = take psize m,
              pg_next_cursor = (if psize < length m then Some (encode_cursor (m ! (psize - 1))) else None),
              pg_has_more = (psize < length m)\<rparr>)"
proof -
  let ?m = "matching env table from until None"
  have page: "page_of psize (take (psize + 1) ?m) = \<lparr>pg_data = take psize ?m,
              pg_next_cursor = (if psize < length ?m then Some (encode_cursor (?m ! (psize - 1))) else None),
              pg_has_more = (psize < length ?m)\<rparr>"
    using p by (auto simp: page_of_def Let_def last_conv_nth min_def)
  show ?thesis
  proof (cases cursor)
    case None
    then show ?thesis using s page by (simp add: getUserEvents_def starts_def matching_def Let_def)
  next
    case (Some c)
    then obtain e where e: "e \<in> set table" "c = encode_cursor e" "from = After (row_key env e)" using s by (auto simp: starts_def)
    have "re_updated_at e \<noteq> []" "re_id e \<noteq> []" "xp_text env (JsStr s) = s" for s
      using ok e(1) by (auto simp: export_ok_def list_all_iff)
    then show ?thesis
      using Some e page encode_cursor_not_Nil [of e]
      by (simp add: getUserEvents_def matching_def Let_def decode_encode_cursor row_key_def)
  qed
qed

lemma walk_pages_all:
  assumes ok: "export_ok env table" and p: "0 < psize" and s: "starts env table since cursor from" and n: "0 < n"
  shows "walk_pages env table psize since until cursor n =
     (let m = matching env table from until None
      in Inr (take (n * psize) m, if length m \<le> n * psize then None else Some (encode_cursor (m ! (n * psize - 1)))))"
  using s n
proof (induction n arbitrary: cursor "from")
  case (Suc n)
  let ?m = "matching env table from until None"
  note page = page_from [OF ok Suc.prems(1) p, of until]
  show ?case
  proof (cases "psize < length ?m")
    case False
    then show ?thesis by (simp add: page Let_def trans_le_add1)
  next
    case True
    let ?e = "?m ! (psize - 1)"
    have "?e \<in> set ?m" using True p by (intro nth_mem) simp
    then have e: "?e \<in> set table" by (simp add: matching_def)
    then have s': "starts env table since (Some (encode_cursor ?e)) (After (row_key env ?e))" by (auto simp: starts_def)
    have m': "matching env table (After (row_key env ?e)) until None = drop psize ?m"
      using matching_after [OF ok, of "psize - 1" "from" until None] True p by simp
    show ?thesis
    proof (cases "n = 0")
      case True
      with \<open>psize < length ?m\<close> show ?thesis using encode_cursor_not_Nil by (simp add: page Let_def)
    next
      case False
      then have r: "walk_pages env table psize since until (Some (encode_cursor ?e)) n =
          Inr (take (n * psize) (drop psize ?m),
               if length ?m - psize \<le> n * psize then None else Some (encode_cursor (drop psize ?m ! (n * psize - 1))))"
        using Suc.IH [OF s'] m' by (simp add: Let_def)
      have "psize + (n * psize - 1) = psize + n * psize - 1" using False p by simp
      then have i: "drop psize ?m ! (n * psize - 1) = ?m ! (psize + n * psize - 1)" using True by simp
      have l: "(length ?m - psize \<le> n * psize) = (length ?m \<le> psize + n * psize)" using True by linarith
      show ?thesis using True encode_cursor_not_Nil by (simp add: page Let_def r [unfolded One_nat_def] i [unfolded One_nat_def] l take_add)
    qed
  qed
qed simp

text \<open>
  C13: A call of the aggregation reads every event of its window exactly once, in order, up to 200 pages of 1000; if there are more, the cursor it
  answers with makes the next call go on with precisely the events that remain.
\<close>
theorem tunnel_reads_all_once:
  assumes "export_ok env table" and "m = matching env table (Since s) u None" and "length m \<le> 400000"
  shows "\<exists>r. tunnel_aggregate env d now table (Some s) (Some u) None = Inr r \<and>
     tr_aggregates r = toAggregates (aggregateEvents d (take 200000 m) []) \<and>
     tr_truncated r = (200000 < length m) \<and>
     (if tr_truncated r
      then tunnel_aggregate env d now table (Some s) (Some u) (tr_next_cursor r) =
           Inr \<lparr>tr_aggregates = toAggregates (aggregateEvents d (drop 200000 m) []), tr_truncated = False, tr_next_cursor = None\<rparr>
      else True)"
proof -
  have "starts env table s None (Since s)" by (simp add: starts_def)
  from walk_pages_all [OF assms(1) _ this, of PAGE_SIZE MAX_PAGES u]
  have first: "walk_pages env table PAGE_SIZE s u None MAX_PAGES =
      Inr (take 200000 m, if length m \<le> 200000 then None else Some (encode_cursor (m ! 199999)))"
    by (simp add: PAGE_SIZE_def MAX_PAGES_def assms(2) Let_def)
  show ?thesis
  proof (cases "length m \<le> 200000")
    case True
    then show ?thesis by (simp add: tunnel_aggregate_def Let_def first)
  next
    case False
    have e: "m ! 199999 \<in> set table" using False assms(2) nth_mem [of 199999 m] by (simp add: matching_def)
    then have "starts env table s (Some (encode_cursor (m ! 199999))) (After (row_key env (m ! 199999)))" by (auto simp: starts_def)
    from walk_pages_all [OF assms(1) _ this, of PAGE_SIZE MAX_PAGES u]
    have "walk_pages env table PAGE_SIZE s u (Some (encode_cursor (m ! 199999))) MAX_PAGES = Inr (drop 200000 m, None)"
      using matching_after [OF assms(1), of 199999 "Since s" u None] False assms(2,3)
      by (simp add: PAGE_SIZE_def MAX_PAGES_def Let_def)
    then show ?thesis using False by (simp add: tunnel_aggregate_def Let_def first)
  qed
qed

subsection \<open>What an aggregate counts\<close>

definition own_events :: "string \<Rightarrow> raw_event list \<Rightarrow> raw_event list" where
  "own_events i es = filter (\<lambda>e. re_user_id e = Some i) es"

lemma own_events_simps [simp]:
  "own_events i [] = []" "own_events i (e # es) = (if re_user_id e = Some i then e # own_events i es else own_events i es)"
  by (simp_all add: own_events_def)

lemma aggregateEvents_own:
  "i \<noteq> [] \<Longrightarrow> map_of (aggregateEvents d es out) i =
     (if own_events i es = [] then map_of out i
      else Some (fold (count_event d) (own_events i es) (js_nullish (map_of out i) (new_accumulator i))))"
  by (induction d es out rule: aggregateEvents.induct) (auto split: option.splits simp: update_conv)

definition viewed :: "(string \<Rightarrow> bool) \<Rightarrow> raw_event list \<Rightarrow> string set" where
  "viewed P es = re_path ` {e \<in> set es. re_name e = ''screen_view'' \<and> P (re_path e)}"

definition goals_of :: "string \<Rightarrow> raw_event list \<Rightarrow> raw_event list" where
  "goals_of c es = filter (\<lambda>e. re_name e = ''goal'' \<and> goal_class (re_goal_name e) = c) es"

definition other_path :: "string \<Rightarrow> bool" where
  "other_path p = (\<not> js_starts_with p ''/audit/'' \<and> p \<notin> set HOT_PATHS)"

text \<open>The contents of an accumulator after the events \<open>es\<close> of one identity.\<close>

definition counted :: "raw_event list \<Rightarrow> accumulator \<Rightarrow> bool" where
  "counted es acc =
     (set (ac_sessions acc) = re_session_id ` set es \<and> distinct (ac_sessions acc) \<and> ag_sessions (ac_agg acc) = length (ac_sessions acc) \<and>
      set (ac_hot acc) = viewed (\<lambda>p. p \<in> set HOT_PATHS) es \<and> distinct (ac_hot acc) \<and> ag_hot_pages (ac_agg acc) = length (ac_hot acc) \<and>
      set (ac_other acc) = viewed other_path es \<and> distinct (ac_other acc) \<and> ag_other_pages (ac_agg acc) = length (ac_other acc) \<and>
      ag_cta_clicks (ac_agg acc) = length (goals_of ''cta'' es) \<and> ag_rdv_booked (ac_agg acc) = length (goals_of ''rdv'' es) \<and>
      ag_consented (ac_agg acc) = (goals_of ''consent'' es \<noteq> []) \<and>
      ag_identified_by_email (ac_agg acc) = (js_includes (ag_user_id (ac_agg acc)) ''@'' \<or> goals_of ''signup'' es \<noteq> []))"

lemma hot_not_audit: "p \<in> set HOT_PATHS \<Longrightarrow> \<not> js_starts_with p ''/audit/''"
  by (auto simp: HOT_PATHS_def js_starts_with_def)

lemma viewed_snoc: "viewed P (es @ [e]) = (if re_name e = ''screen_view'' \<and> P (re_path e) then insert (re_path e) (viewed P es) else viewed P es)"
  by (auto simp: viewed_def)

lemma goals_of_snoc: "goals_of c (es @ [e]) = goals_of c es @ (if re_name e = ''goal'' \<and> goal_class (re_goal_name e) = c then [e] else [])"
  by (simp add: goals_of_def)

lemma note_seen_keeps [simp]:
  "ac_sessions (note_seen d e acc) = ac_sessions acc" "ac_hot (note_seen d e acc) = ac_hot acc" "ac_other (note_seen d e acc) = ac_other acc"
  "ag_sessions (ac_agg (note_seen d e acc)) = ag_sessions (ac_agg acc)" "ag_hot_pages (ac_agg (note_seen d e acc)) = ag_hot_pages (ac_agg acc)"
  "ag_other_pages (ac_agg (note_seen d e acc)) = ag_other_pages (ac_agg acc)" "ag_cta_clicks (ac_agg (note_seen d e acc)) = ag_cta_clicks (ac_agg acc)"
  "ag_rdv_booked (ac_agg (note_seen d e acc)) = ag_rdv_booked (ac_agg acc)" "ag_consented (ac_agg (note_seen d e acc)) = ag_consented (ac_agg acc)"
  "ag_identified_by_email (ac_agg (note_seen d e acc)) = ag_identified_by_email (ac_agg acc)" "ag_user_id (ac_agg (note_seen d e acc)) = ag_user_id (ac_agg acc)"
  by (simp_all add: note_seen_def split: option.splits)

lemma count_event_counted: "counted es acc \<Longrightarrow> counted (es @ [e]) (count_event d e acc)"
  unfolding count_event_def Let_def note_event_def counted_def viewed_snoc goals_of_snoc
  by (simp split del: if_split cong: if_cong)
    (auto simp: other_path_def hot_not_audit)

lemma fold_counted: "counted es acc \<Longrightarrow> counted (es @ xs) (fold (count_event d) xs acc)"
proof (induction xs arbitrary: es acc)
  case (Cons x xs)
  from Cons.IH [OF count_event_counted [OF Cons.prems]] show ?case by simp
qed simp

lemma new_counted: "counted [] (new_accumulator i)"
  by (simp add: counted_def new_accumulator_def viewed_def goals_of_def)

lemma count_event_user: "ag_user_id (ac_agg (count_event d e acc)) = ag_user_id (ac_agg acc)"
  by (simp add: count_event_def note_event_def Let_def)

lemma fold_user: "ag_user_id (ac_agg (fold (count_event d) xs acc)) = ag_user_id (ac_agg acc)"
  by (induction xs arbitrary: acc) (simp_all add: count_event_user)

text \<open>
  The aggregate of an identity counts that identity's events and nothing else: its distinct sessions, the distinct hot and other pages it saw
  (at most three hot ones), its clicks and appointments, and whether it consented or is known by an address or a signup; an identity without
  events has no aggregate.
\<close>
theorem aggregate_counts_own:
  assumes "i \<noteq> []" and "es' = own_events i es"
  shows "case map_of (aggregateEvents d es []) i of
       None \<Rightarrow> es' = []
     | Some acc \<Rightarrow>
         es' \<noteq> [] \<and> ag_user_id (ac_agg acc) = i \<and>
         ag_sessions (ac_agg acc) = card (re_session_id ` set es') \<and>
         ag_hot_pages (ac_agg acc) = card (viewed (\<lambda>p. p \<in> set HOT_PATHS) es') \<and> ag_hot_pages (ac_agg acc) \<le> 3 \<and>
         ag_other_pages (ac_agg acc) = card (viewed other_path es') \<and>
         ag_cta_clicks (ac_agg acc) = length (goals_of ''cta'' es') \<and> ag_rdv_booked (ac_agg acc) = length (goals_of ''rdv'' es') \<and>
         ag_consented (ac_agg acc) = (goals_of ''consent'' es' \<noteq> []) \<and>
         ag_identified_by_email (ac_agg acc) = (js_includes i ''@'' \<or> goals_of ''signup'' es' \<noteq> [])"
proof (cases "es' = []")
  case False
  let ?acc = "fold (count_event d) es' (new_accumulator i)"
  have m: "map_of (aggregateEvents d es []) i = Some ?acc" using aggregateEvents_own [OF assms(1), of d es "[]"] False assms(2) by simp
  have u: "ag_user_id (ac_agg ?acc) = i" by (simp add: fold_user new_accumulator_def)
  have c: "counted es' ?acc" using fold_counted [OF new_counted, of es' d i] by simp
  have "card (viewed (\<lambda>p. p \<in> set HOT_PATHS) es') \<le> card (set HOT_PATHS)" by (intro card_mono) (auto simp: viewed_def)
  also have "\<dots> \<le> 3" using card_length [of HOT_PATHS] by (simp add: HOT_PATHS_def)
  finally have h: "card (viewed (\<lambda>p. p \<in> set HOT_PATHS) es') \<le> 3" .
  show ?thesis using c u h False m by (simp add: counted_def distinct_card [symmetric])
qed (simp add: aggregateEvents_own [OF assms(1)] assms(2) [symmetric])

text \<open>
  The number of audit views depends on the order of events: a goal that announces a view is dropped after a page view, but counted before it.
\<close>
theorem audit_views_order:
  assumes "re_user_id v = Some ''a''" and "re_name v = ''screen_view''" and "re_path v = ''/audit/x''"
    and "re_user_id g = Some ''a''" and "re_name g = ''goal''" and "re_goal_name g = ''audit_view''"
  shows "map ag_audit_views (toAggregates (aggregateEvents d [v, g] [])) = [1] \<and>
     map ag_audit_views (toAggregates (aggregateEvents d [g, v] [])) = [2]"
proof -
  have [simp]: "ag_audit_views (ac_agg (note_seen d e acc)) = ag_audit_views (ac_agg acc)" for e acc
    by (simp add: note_seen_def split: option.splits)
  show ?thesis using assms
    by (simp add: toAggregates_def count_event_def note_event_def new_accumulator_def goal_class_def js_starts_with_def Let_def)
qed

subsection \<open>Witnesses\<close>

definition sample_event :: "string \<Rightarrow> string \<Rightarrow> string \<Rightarrow> raw_event" where
  "sample_event i name path =
     \<lparr>re_id = i, re_user_id = Some ''a'', re_session_id = ''s'', re_name = name, re_path = path, re_max_scroll = 10, re_goal_name = ''audit_view'',
      re_properties = [], re_goal_timestamp = None, re_updated_at = ''t''\<rparr>"

definition sample_export :: export_env where
  "sample_export = \<lparr>xp_time = (\<lambda>s. 5), xp_rank = (\<lambda>s. int (length s)), xp_text = (\<lambda>j. case j of JsStr s \<Rightarrow> s | _ \<Rightarrow> [])\<rparr>"

definition sample_dates :: date_env where
  "sample_dates = \<lparr>de_parse = (\<lambda>_. Some 0), de_iso = (\<lambda>_. ''d''), de_number = (\<lambda>_. None)\<rparr>"

lemma tunnel_reads_all_once_witness:
  "\<exists>r. tunnel_aggregate sample_export sample_dates 9 [sample_event ''12'' ''goal'' [], sample_event ''1'' ''screen_view'' ''/roi''] (Some 0) (Some 9) None = Inr r \<and>
     \<not> tr_truncated r"
  using tunnel_reads_all_once [where env = sample_export and table = "[sample_event ''12'' ''goal'' [], sample_event ''1'' ''screen_view'' ''/roi'']"
      and s = 0 and u = 9 and m = "[sample_event ''1'' ''screen_view'' ''/roi'', sample_event ''12'' ''goal'' []]" and d = sample_dates and now = 9]
  by (auto simp: export_ok_def sample_export_def sample_event_def row_key_def matching_def row_matches_def)

lemma aggregate_counts_own_witness:
  "case map_of (aggregateEvents sample_dates [sample_event ''1'' ''screen_view'' ''/roi''] []) ''a'' of None \<Rightarrow> False | Some acc \<Rightarrow> ag_hot_pages (ac_agg acc) = 1"
proof -
  have "viewed (\<lambda>p. p \<in> set HOT_PATHS) [sample_event ''1'' ''screen_view'' ''/roi''] = {''/roi''}"
    using viewed_snoc [of "\<lambda>p. p \<in> set HOT_PATHS" "[]" "sample_event ''1'' ''screen_view'' ''/roi''"]
    by (simp add: viewed_def [of _ "[]"] sample_event_def HOT_PATHS_def)
  moreover have "own_events ''a'' [sample_event ''1'' ''screen_view'' ''/roi''] = [sample_event ''1'' ''screen_view'' ''/roi'']"
    by (simp add: sample_event_def)
  ultimately show ?thesis
    using aggregate_counts_own [OF _ refl, where i = "''a''" and d = sample_dates and es = "[sample_event ''1'' ''screen_view'' ''/roi'']"]
    by (cases "map_of (aggregateEvents sample_dates [sample_event ''1'' ''screen_view'' ''/roi''] []) ''a''")
      (simp_all del: aggregateEvents.simps)
qed

lemma audit_views_order_witness:
  "map ag_audit_views (toAggregates (aggregateEvents sample_dates [sample_event ''1'' ''goal'' [], sample_event ''2'' ''screen_view'' ''/audit/x''] [])) = [2]"
  using audit_views_order [of "sample_event ''2'' ''screen_view'' ''/audit/x''" "sample_event ''1'' ''goal'' []" sample_dates]
  by (simp add: sample_event_def)

end
