(* ===== verification/Identity_Stitch.thy ===== *)
theory Identity_Stitch
  imports Prelude
begin

section \<open>Identity stitching\<close>

text \<open>
  \<^verbatim>\<open>api/src/events/identity-stitch.service.ts\<close> and its backfill
  \<^verbatim>\<open>api/src/filters/backfill/identity-backfill.service.ts\<close>: the acquisition of a visitor who identifies later. The tables
  of a workspace are lists of rows as a query with \<open>FINAL\<close> shows them, in the order the database answers rows of the same
  instant; an instant is a number of milliseconds. A write that fails is an argument: the number of writes that still
  succeed. The attribution row's \<open>updated_at\<close> is the instant of the write.
\<close>

(* src: api/src/events/identity-stitch.service.ts:59-75 SessionRow *)
record identity_session =
  sw_id :: string
  sw_user_id :: "string option"
  sw_visitor_id :: string
  sw_fingerprint :: string
  sw_created_at :: int
  sw_channel :: string
  sw_channel_group :: string
  sw_referrer :: string
  sw_referrer_domain :: string
  sw_landing_page :: string
  sw_landing_domain :: string
  sw_utm_source :: string
  sw_utm_medium :: string
  sw_utm_campaign :: string
  sw_utm_content :: string
  sw_first_touch_channel :: string
  sw_first_touch_channel_group :: string

record goal_row =
  gw_id :: string
  gw_user_id :: "string option"
  gw_first_touch_channel :: string
  gw_first_touch_channel_group :: string

(* src: api/src/events/identity-stitch.service.ts:56-56 StitchMethod *)
datatype stitch_method = By_session_id | By_visitor_id | By_fingerprint

(* src: api/src/events/identity-stitch.service.ts:288-319 upsertAttribution *)
record attribution =
  at_user_id :: string
  at_first :: identity_session
  at_method :: stitch_method
  at_last :: identity_session
  at_referral_code :: string
  at_visitor_id :: string
  at_fingerprint :: string
  at_updated_at :: int

record stitch_db =
  sd_sessions :: "identity_session list"
  sd_goals :: "goal_row list"
  sd_attribution :: "(string \<times> attribution) list"
  sd_cache_events :: nat

definition LOOKBACK_MS :: int where "LOOKBACK_MS = 60 * 60 * 1000"
definition STITCH_CACHE_TTL_MS :: int where "STITCH_CACHE_TTL_MS = 5 * 60 * 1000"

text \<open>What an attribution row keeps of a session.\<close>

definition acquisition :: "identity_session \<Rightarrow> identity_session" where
  "acquisition s = s\<lparr>sw_first_touch_channel := [], sw_first_touch_channel_group := []\<rparr>"

definition first_row :: "('a \<Rightarrow> int) \<Rightarrow> 'a list \<Rightarrow> 'a option" where
  "first_row k xs = (case sort_key k xs of [] \<Rightarrow> None | x # _ \<Rightarrow> Some x)"

(* src: api/src/events/identity-stitch.service.ts:169-187 getIdentifiedSession *)
definition getIdentifiedSession :: "stitch_db \<Rightarrow> string \<Rightarrow> identity_session option" where
  "getIdentifiedSession db user = first_row (\<lambda>s. - sw_created_at s) (filter (\<lambda>s. sw_user_id s = Some user) (sd_sessions db))"

definition real_channel :: "identity_session \<Rightarrow> bool" where
  "real_channel s = (sw_channel_group s \<notin> {[], ''direct'', ''not-mapped''})"

(* src: api/src/events/identity-stitch.service.ts:248-270 firstChainSession *)
definition firstChainSession :: "stitch_db \<Rightarrow> (identity_session \<Rightarrow> bool) \<Rightarrow> identity_session option" where
  "firstChainSession db cond = first_row sw_created_at (filter (\<lambda>s. cond s \<and> real_channel s) (sd_sessions db))"

(* src: api/src/events/identity-stitch.service.ts:195-239 findFirstTouch *)
definition findFirstTouch :: "stitch_db \<Rightarrow> identity_session \<Rightarrow> (identity_session \<times> stitch_method) option" where
  "findFirstTouch db identified =
     (let ts = sw_created_at identified;
          by_id = (if sw_id identified = [] then None
                   else firstChainSession db (\<lambda>s. sw_id s = sw_id identified \<and> sw_created_at s \<le> ts));
          by_visitor = (if sw_visitor_id identified = [] then None
                        else firstChainSession db (\<lambda>s. sw_visitor_id s = sw_visitor_id identified \<and> sw_created_at s \<le> ts));
          by_print = (if sw_fingerprint identified = [] then None
                      else firstChainSession db (\<lambda>s. sw_fingerprint s = sw_fingerprint identified \<and>
                             sw_created_at s \<le> ts \<and> ts - LOOKBACK_MS \<le> sw_created_at s))
      in case by_id of
           Some s \<Rightarrow> Some (s, By_session_id)
         | None \<Rightarrow>
             (case by_visitor of
                Some s \<Rightarrow> Some (s, By_visitor_id)
              | None \<Rightarrow> (case by_print of Some s \<Rightarrow> Some (s, By_fingerprint) | None \<Rightarrow> None)))"

(* src: api/src/events/identity-stitch.service.ts:277-322 upsertAttribution *)
definition upsertAttribution :: "int \<Rightarrow> string \<Rightarrow> identity_session \<Rightarrow> identity_session \<Rightarrow> stitch_method \<Rightarrow> stitch_db \<Rightarrow> stitch_db" where
  "upsertAttribution now user identified first method db =
     db\<lparr>sd_attribution := AList.update user
          \<lparr>at_user_id = user, at_first = acquisition first, at_method = method, at_last = acquisition identified,
           at_referral_code = sw_utm_content first, at_visitor_id = js_or (sw_visitor_id identified) (sw_visitor_id first),
           at_fingerprint = js_or (sw_fingerprint identified) (sw_fingerprint first), at_updated_at = now\<rparr> (sd_attribution db)\<rparr>"

(* src: api/src/events/identity-stitch.service.ts:329-346 denormalize *)
definition denormalize_sessions :: "string \<Rightarrow> string \<Rightarrow> string \<Rightarrow> stitch_db \<Rightarrow> stitch_db" where
  "denormalize_sessions user ch gr db =
     db\<lparr>sd_sessions := map (\<lambda>s. if sw_user_id s = Some user
          then s\<lparr>sw_first_touch_channel := ch, sw_first_touch_channel_group := gr\<rparr> else s) (sd_sessions db)\<rparr>"

(* src: api/src/events/identity-stitch.service.ts:329-346 denormalize *)
definition denormalize_goals :: "string \<Rightarrow> string \<Rightarrow> string \<Rightarrow> stitch_db \<Rightarrow> stitch_db" where
  "denormalize_goals user ch gr db =
     db\<lparr>sd_goals := map (\<lambda>g. if gw_user_id g = Some user
          then g\<lparr>gw_first_touch_channel := ch, gw_first_touch_channel_group := gr\<rparr> else g) (sd_goals db)\<rparr>"

text \<open>The writes go in order; \<open>allowed\<close> of them succeed, and \<open>None\<close> means that all do.\<close>

definition permits :: "nat option \<Rightarrow> nat \<Rightarrow> bool" where
  "permits allowed n = (case allowed of None \<Rightarrow> True | Some m \<Rightarrow> n < m)"

(* src: api/src/events/identity-stitch.service.ts:121-166 stitch *)
definition stitch :: "nat option \<Rightarrow> int \<Rightarrow> string \<Rightarrow> stitch_db \<Rightarrow> (string + stitch_method option) \<times> stitch_db" where
  "stitch allowed now user db =
     (case getIdentifiedSession db user of
        None \<Rightarrow> (Inr None, db)
      | Some identified \<Rightarrow>
          (case findFirstTouch db identified of
             None \<Rightarrow> (Inr None, db)
           | Some (first, method) \<Rightarrow>
               (let ch = sw_channel first; gr = sw_channel_group first;
                    db1 = upsertAttribution now user identified first method db;
                    db2 = denormalize_sessions user ch gr db1;
                    db3 = denormalize_goals user ch gr db2
                in if \<not> permits allowed 0 then (Inl ''database'', db)
                   else if \<not> permits allowed 1 then (Inl ''database'', db1)
                   else if \<not> permits allowed 2 then (Inl ''database'', db2)
                   else (Inr (Some method), db3\<lparr>sd_cache_events := sd_cache_events db3 + 1\<rparr>))))"

subsection \<open>Scheduling\<close>

type_synonym stitch_cache = "(string \<times> int) list"

(* src: api/src/events/identity-stitch.service.ts:349-354 evictExpired *)
definition evictExpired :: "int \<Rightarrow> stitch_cache \<Rightarrow> stitch_cache" where
  "evictExpired now c = (if length c < 1000 then c else filter (\<lambda>(k, e). now < e) c)"

definition stitch_key :: "string \<Rightarrow> string \<Rightarrow> string" where
  "stitch_key ws user = ws @ ''::'' @ user"

text \<open>Whether the call starts a stitch, and the cache it leaves; a failure takes its entry out again.\<close>

(* src: api/src/events/identity-stitch.service.ts:94-114 scheduleStitch *)
definition scheduleStitch :: "int \<Rightarrow> string \<Rightarrow> string \<Rightarrow> stitch_cache \<Rightarrow> bool \<times> stitch_cache" where
  "scheduleStitch now ws user c =
     (case map_of c (stitch_key ws user) of
        Some e \<Rightarrow> (if e \<noteq> 0 \<and> now < e then (False, c)
                   else (True, evictExpired now (AList.update (stitch_key ws user) (now + STITCH_CACHE_TTL_MS) c)))
      | None \<Rightarrow> (True, evictExpired now (AList.update (stitch_key ws user) (now + STITCH_CACHE_TTL_MS) c)))"

(* src: api/src/events/identity-stitch.service.ts:105-113 scheduleStitch *)
definition stitch_settled :: "string \<Rightarrow> string \<Rightarrow> (string + stitch_method option) \<Rightarrow> stitch_cache \<Rightarrow> stitch_cache" where
  "stitch_settled ws user outcome c =
     (case outcome of Inl _ \<Rightarrow> AList.delete (stitch_key ws user) c | Inr _ \<Rightarrow> c)"

subsection \<open>Backfill\<close>

(* src: api/src/filters/backfill/identity-backfill.service.ts:42-56 IdentityBackfillSummary *)
record backfill_summary =
  bs_scanned :: nat
  bs_stitched :: nat
  bs_unresolved :: nat
  bs_by_method :: "stitch_method \<Rightarrow> nat"

(* src: api/src/filters/backfill/identity-backfill.service.ts:136-145 listIdentifiedUsers *)
definition listIdentifiedUsers :: "stitch_db \<Rightarrow> string list" where
  "listIdentifiedUsers db = remdups (filter (\<lambda>u. u \<noteq> []) (List.map_filter sw_user_id (sd_sessions db)))"

(* src: api/src/filters/backfill/identity-backfill.service.ts:89-109 backfillIdentity *)
fun backfill_users :: "(string \<Rightarrow> nat option) \<Rightarrow> int \<Rightarrow> string list \<Rightarrow> backfill_summary \<Rightarrow> stitch_db \<Rightarrow> backfill_summary \<times> stitch_db" where
  "backfill_users allowed now [] sm db = (sm, db)"
| "backfill_users allowed now (u # us) sm db =
     (case stitch (allowed u) now u db of
        (Inl _, db') \<Rightarrow> backfill_users allowed now us sm db'
      | (Inr (Some m), db') \<Rightarrow>
          backfill_users allowed now us
            (sm\<lparr>bs_stitched := bs_stitched sm + 1, bs_by_method := (bs_by_method sm)(m := bs_by_method sm m + 1)\<rparr>) db'
      | (Inr None, db') \<Rightarrow> backfill_users allowed now us (sm\<lparr>bs_unresolved := bs_unresolved sm + 1\<rparr>) db')"

(* src: api/src/filters/backfill/identity-backfill.service.ts:73-127 backfillIdentity *)
definition backfillIdentity :: "(string \<Rightarrow> nat option) \<Rightarrow> int \<Rightarrow> stitch_db \<Rightarrow> backfill_summary \<times> stitch_db" where
  "backfillIdentity allowed now db =
     (let us = listIdentifiedUsers db;
          (sm, db') = backfill_users allowed now us \<lparr>bs_scanned = length us, bs_stitched = 0, bs_unresolved = 0, bs_by_method = (\<lambda>_. 0)\<rparr> db
      in (sm, db'\<lparr>sd_cache_events := sd_cache_events db' + 1\<rparr>))"

section \<open>What stitching guarantees\<close>

lemma first_row_SomeD: "first_row k xs = Some x \<Longrightarrow> x \<in> set xs \<and> (\<forall>y \<in> set xs. k x \<le> k y)"
proof -
  assume "first_row k xs = Some x"
  then obtain ys where s: "sort_key k xs = x # ys" by (auto simp: first_row_def split: list.splits)
  have "sorted (map k (x # ys))" using sorted_sort_key [of k xs] by (simp add: s)
  moreover have "set xs = set (x # ys)" using set_sort [of k xs] by (simp add: s)
  ultimately show ?thesis by auto
qed

lemma first_row_None [simp]: "first_row k xs = None \<longleftrightarrow> xs = []"
  by (auto simp: first_row_def split: list.splits) (metis length_sort list.size(3) length_0_conv)

lemma first_row_map: "(\<And>x. k (f x) = k x) \<Longrightarrow> first_row k (map f xs) = map_option f (first_row k xs)"
  by (simp add: first_row_def sort_key_map split: list.splits)

text \<open>Writing first-touch columns is invisible to what stitching reads.\<close>

definition touch :: "string \<Rightarrow> string \<Rightarrow> string \<Rightarrow> identity_session \<Rightarrow> identity_session" where
  "touch user ch gr s = (if sw_user_id s = Some user then s\<lparr>sw_first_touch_channel := ch, sw_first_touch_channel_group := gr\<rparr> else s)"

lemma touch_simps [simp]:
  "sw_id (touch u c g s) = sw_id s" "sw_user_id (touch u c g s) = sw_user_id s" "sw_visitor_id (touch u c g s) = sw_visitor_id s"
  "sw_fingerprint (touch u c g s) = sw_fingerprint s" "sw_created_at (touch u c g s) = sw_created_at s"
  "sw_channel (touch u c g s) = sw_channel s" "sw_channel_group (touch u c g s) = sw_channel_group s"
  "real_channel (touch u c g s) = real_channel s" "sw_utm_content (touch u c g s) = sw_utm_content s"
  by (simp_all add: touch_def real_channel_def)

lemma touch_touch [simp]: "touch u c g (touch u c' g' s) = touch u c g s"
  by (simp add: touch_def)

lemma acquisition_touch [simp]: "acquisition (touch u c g s) = acquisition s"
  by (simp add: touch_def acquisition_def)

lemma denormalize_sessions_touch: "sd_sessions (denormalize_sessions u c g db) = map (touch u c g) (sd_sessions db)"
  by (simp add: denormalize_sessions_def touch_def [abs_def])

lemma identified_touched: "sd_sessions db' = map (touch u c g) (sd_sessions db) \<Longrightarrow>
    getIdentifiedSession db' user = map_option (touch u c g) (getIdentifiedSession db user)"
  by (simp add: getIdentifiedSession_def filter_map comp_def first_row_map)

lemma chain_touched: "sd_sessions db' = map (touch u c g) (sd_sessions db) \<Longrightarrow> (\<And>s. P (touch u c g s) = P s) \<Longrightarrow>
    firstChainSession db' P = map_option (touch u c g) (firstChainSession db P)"
  by (simp add: firstChainSession_def filter_map comp_def first_row_map)

lemma findFirstTouch_touched:
  assumes "sd_sessions db' = map (touch u c g) (sd_sessions db)"
  shows "findFirstTouch db' (touch u c g s) = map_option (map_prod (touch u c g) id) (findFirstTouch db s)"
  by (simp add: findFirstTouch_def Let_def chain_touched [OF assms] split: option.splits)

lemma identified_same: "sd_sessions db' = sd_sessions db \<Longrightarrow> getIdentifiedSession db' user = getIdentifiedSession db user"
  by (simp add: getIdentifiedSession_def)

lemma findFirstTouch_same: "sd_sessions db' = sd_sessions db \<Longrightarrow> findFirstTouch db' s = findFirstTouch db s"
proof -
  assume "sd_sessions db' = sd_sessions db"
  then have eq: "firstChainSession db' = firstChainSession db" by (simp add: firstChainSession_def fun_eq_iff)
  show ?thesis unfolding findFirstTouch_def eq ..
qed

text \<open>What a complete stitch writes, given what it found.\<close>

definition written :: "int \<Rightarrow> string \<Rightarrow> identity_session \<Rightarrow> identity_session \<Rightarrow> stitch_method \<Rightarrow> stitch_db \<Rightarrow> stitch_db" where
  "written now user identified first method db =
     denormalize_goals user (sw_channel first) (sw_channel_group first)
       (denormalize_sessions user (sw_channel first) (sw_channel_group first) (upsertAttribution now user identified first method db))"

lemmas write_defs = denormalize_goals_def denormalize_sessions_def upsertAttribution_def

lemma stitch_result:
  "stitch None now user db =
     (case getIdentifiedSession db user of
        None \<Rightarrow> (Inr None, db)
      | Some identified \<Rightarrow>
          (case findFirstTouch db identified of
             None \<Rightarrow> (Inr None, db)
           | Some (first, method) \<Rightarrow>
               (Inr (Some method), (written now user identified first method db)\<lparr>sd_cache_events := sd_cache_events db + 1\<rparr>)))"
  by (simp add: stitch_def permits_def written_def Let_def write_defs split: option.splits)

lemma chain_bound: "firstChainSession db P = Some s \<Longrightarrow> P s \<and> real_channel s \<and> s \<in> set (sd_sessions db)"
  by (auto simp: firstChainSession_def dest: first_row_SomeD)

lemma findFirstTouch_SomeD:
  "findFirstTouch db s = Some (f, m) \<Longrightarrow> real_channel f \<and> sw_created_at f \<le> sw_created_at s \<and> f \<in> set (sd_sessions db)"
  by (auto simp: findFirstTouch_def Let_def split: option.splits if_splits dest!: chain_bound)

text \<open>
  What a stitch leaves. It records, for its user alone, a session of the visitor's chain that has a real channel and is no later than the
  user's newest one; every session and goal of the user carries that channel, all other rows are as before, and none is added or removed.
\<close>
theorem stitch_records:
  assumes "stitch None now user db = (Inr (Some m), db')"
  shows "\<exists>f s a. getIdentifiedSession db user = Some s \<and> f \<in> set (sd_sessions db) \<and> real_channel f \<and> sw_created_at f \<le> sw_created_at s \<and>
     at_first a = acquisition f \<and> at_last a = acquisition s \<and> at_method a = m \<and>
     map_of (sd_attribution db') = (map_of (sd_attribution db))(user \<mapsto> a) \<and>
     sd_sessions db' = map (touch user (sw_channel f) (sw_channel_group f)) (sd_sessions db) \<and>
     sd_goals db' = map (\<lambda>g. if gw_user_id g = Some user
       then g\<lparr>gw_first_touch_channel := sw_channel f, gw_first_touch_channel_group := sw_channel_group f\<rparr> else g) (sd_goals db)"
proof -
  obtain s f where s: "getIdentifiedSession db user = Some s" and f: "findFirstTouch db s = Some (f, m)"
    and db': "db' = (written now user s f m db)\<lparr>sd_cache_events := sd_cache_events db + 1\<rparr>"
    using assms by (auto simp: stitch_result split: option.splits prod.splits)
  show ?thesis
    using s findFirstTouch_SomeD [OF f]
    by (intro exI [of _ f] exI [of _ s] exI [of _ "the (map_of (sd_attribution db') user)"])
      (simp add: db' written_def write_defs update_conv' touch_def [abs_def])
qed

lemma written_again:
  assumes "sd_sessions db1 = sd_sessions db \<or> sd_sessions db1 = map (touch user (sw_channel f) (sw_channel_group f)) (sd_sessions db)"
    and "sd_goals db1 = sd_goals db \<or> sd_goals db1 = sd_goals (denormalize_goals user (sw_channel f) (sw_channel_group f) db)"
    and "sd_attribution db1 = sd_attribution db \<or> sd_attribution db1 = sd_attribution (upsertAttribution now user s f m db)"
    and "acquisition s' = acquisition s" and "acquisition f' = acquisition f"
  shows "(written later user s' f' m db1)\<lparr>sd_cache_events := n\<rparr> = (written later user s f m db)\<lparr>sd_cache_events := n\<rparr>"
proof -
  have eq: "x = y" if "acquisition x = acquisition y" "sw_first_touch_channel x = sw_first_touch_channel y"
    "sw_first_touch_channel_group x = sw_first_touch_channel_group y" for x y :: identity_session
    using that by (cases x; cases y) (simp add: acquisition_def)
  have fields: "sw_channel x = sw_channel y" "sw_channel_group x = sw_channel_group y" "sw_utm_content x = sw_utm_content y"
    "sw_visitor_id x = sw_visitor_id y" "sw_fingerprint x = sw_fingerprint y" if "acquisition x = acquisition y" for x y
    using that by (cases x; cases y; simp add: acquisition_def)+
  have "sd_sessions (written later user s' f' m db1) = sd_sessions (written later user s f m db)"
    using assms(1) fields [OF assms(5)] by (auto simp: written_def write_defs touch_def)
  moreover have "sd_goals (written later user s' f' m db1) = sd_goals (written later user s f m db)"
    using assms(2) fields [OF assms(5)] by (auto simp: written_def write_defs)
  moreover have "sd_attribution (written later user s' f' m db1) = sd_attribution (written later user s f m db)"
    using assms(3,4,5) fields [OF assms(4)] fields [OF assms(5)] by (auto simp: written_def write_defs)
  ultimately show ?thesis by (cases "written later user s' f' m db1"; cases "written later user s f m db") simp
qed

text \<open>
  C21: A stitch that is repeated, or taken up again after it failed halfway, arrives at the same result as one that ran once: the same answer and
  the same tables, whatever number of its writes had gone through before.
\<close>
theorem stitch_retry:
  "fst (stitch None later user (snd (stitch allowed now user db))) = fst (stitch None later user db) \<and>
   (snd (stitch None later user (snd (stitch allowed now user db))))\<lparr>sd_cache_events := n\<rparr> = (snd (stitch None later user db))\<lparr>sd_cache_events := n\<rparr>"
proof (cases "getIdentifiedSession db user")
  case None
  then show ?thesis by (simp add: stitch_def)
next
  case (Some s)
  show ?thesis
  proof (cases "findFirstTouch db s")
    case None
    with Some show ?thesis by (simp add: stitch_def)
  next
    case (Some fm)
    obtain f m where fm: "fm = (f, m)" by fastforce
    note s = \<open>getIdentifiedSession db user = Some s\<close> and f = Some [unfolded fm]
    let ?t = "touch user (sw_channel f) (sw_channel_group f)"
    let ?db1 = "snd (stitch allowed now user db)"
    have S: "sd_sessions ?db1 = sd_sessions db \<or> sd_sessions ?db1 = map ?t (sd_sessions db)"
      by (auto simp: stitch_def s f Let_def write_defs touch_def [abs_def])
    have G: "sd_goals ?db1 = sd_goals db \<or> sd_goals ?db1 = sd_goals (denormalize_goals user (sw_channel f) (sw_channel_group f) db)"
      by (auto simp: stitch_def s f Let_def write_defs)
    have A: "sd_attribution ?db1 = sd_attribution db \<or> sd_attribution ?db1 = sd_attribution (upsertAttribution now user s f m db)"
      by (auto simp: stitch_def s f Let_def write_defs)
    from S have "\<exists>s' f'. getIdentifiedSession ?db1 user = Some s' \<and> findFirstTouch ?db1 s' = Some (f', m) \<and>
        acquisition s' = acquisition s \<and> acquisition f' = acquisition f"
      using identified_touched [of ?db1 user _ _ db user] findFirstTouch_touched [of ?db1 user _ _ db s]
        identified_same [of ?db1 db user] findFirstTouch_same [of ?db1 db s] s f
      by (elim disjE) (fastforce simp: map_prod_def)+
    then obtain s' f' where "getIdentifiedSession ?db1 user = Some s'" "findFirstTouch ?db1 s' = Some (f', m)"
      and eq: "acquisition s' = acquisition s" "acquisition f' = acquisition f" by blast
    then show ?thesis
      using written_again [OF S G A eq, where later = later and n = n] s f by (simp add: stitch_result)
  qed
qed

text \<open>
  But the first touch is not the first: a user whose newest session has a real channel is credited with that very session, found by its own id,
  whatever came before. Someone acquired by an advertisement who later returns by a newsletter is rewritten as acquired by the newsletter.
\<close>
theorem first_touch_overwritten:
  assumes "getIdentifiedSession db user = Some s" and "sw_id s \<noteq> []" and "real_channel s" and "distinct (map sw_id (sd_sessions db))"
  shows "\<exists>a. map_of (sd_attribution (snd (stitch None now user db))) user = Some a \<and> at_first a = acquisition s \<and> at_method a = By_session_id"
proof -
  have m: "s \<in> set (sd_sessions db)" using assms(1) by (auto simp: getIdentifiedSession_def dest: first_row_SomeD)
  have one: "t = s" if "t \<in> set (sd_sessions db)" "sw_id t = sw_id s" for t
    using that m assms(4) by (auto simp: distinct_map inj_on_def)
  let ?P = "\<lambda>t. sw_id t = sw_id s \<and> sw_created_at t \<le> sw_created_at s"
  have "firstChainSession db ?P \<noteq> None" using m assms(3) by (auto simp: firstChainSession_def filter_empty_conv)
  then obtain t where t: "firstChainSession db ?P = Some t" by blast
  with chain_bound [OF t] one have "t = s" by blast
  with t have "findFirstTouch db s = Some (s, By_session_id)" using assms(2) by (simp add: findFirstTouch_def Let_def)
  then show ?thesis using assms(1) by (simp add: stitch_result written_def write_defs update_conv')
qed

subsection \<open>Scheduling\<close>

text \<open>
  At most one stitch per user in five minutes, as long as none fails; a failed one is started again by the next event. A stitch that found
  nothing counts as done, so that an event which came before its session was stored delays the stitch by five minutes.
\<close>
theorem schedule_throttled:
  assumes "scheduleStitch now ws user c = (True, c1)" and "0 < now" and "now \<le> later" and "later < now + STITCH_CACHE_TTL_MS"
  shows "scheduleStitch later ws user (stitch_settled ws user (Inr found) c1) = (False, c1) \<and>
     fst (scheduleStitch later ws user (stitch_settled ws user (Inl err) c1))"
proof -
  let ?k = "stitch_key ws user" and ?e = "now + STITCH_CACHE_TTL_MS"
  have "c1 = evictExpired now (AList.update ?k ?e c)"
    using assms(1) by (auto simp: scheduleStitch_def split: option.splits if_splits)
  moreover have "map_of (filter (\<lambda>(k, e). now < e) al) ?k = Some ?e" if "map_of al ?k = Some ?e" for al :: stitch_cache
    using that by (induction al) (auto simp: STITCH_CACHE_TTL_MS_def split: if_splits)
  ultimately have "map_of c1 ?k = Some ?e" by (simp add: evictExpired_def update_conv')
  then show ?thesis using assms(2-4) by (auto simp: scheduleStitch_def stitch_settled_def STITCH_CACHE_TTL_MS_def delete_conv')
qed

subsection \<open>Backfill\<close>

definition same_rows :: "stitch_db \<Rightarrow> stitch_db \<Rightarrow> bool" where
  "same_rows db db' = (map acquisition (sd_sessions db') = map acquisition (sd_sessions db) \<and>
     map (\<lambda>g. (gw_id g, gw_user_id g)) (sd_goals db') = map (\<lambda>g. (gw_id g, gw_user_id g)) (sd_goals db))"

lemma stitch_same_rows: "same_rows db (snd (stitch allowed now user db))"
  by (auto simp: same_rows_def stitch_def Let_def write_defs acquisition_def comp_def split: option.splits)

lemma same_rows_trans: "same_rows a b \<Longrightarrow> same_rows b c \<Longrightarrow> same_rows a c"
  by (simp add: same_rows_def)

lemma backfill_users_rows: "same_rows db (snd (backfill_users allowed now us sm db))"
proof (induction allowed now us sm db rule: backfill_users.induct)
  case (2 allowed now u us sm db)
  have r: "same_rows db (snd (stitch (allowed u) now u db))" by (rule stitch_same_rows)
  show ?case
  proof (cases "stitch (allowed u) now u db")
    case (Pair res db')
    with 2 r show ?thesis
      by (cases res; cases "projr res") (auto intro: same_rows_trans)
  qed
qed (simp add: same_rows_def)

lemma backfill_users_counts:
  "bs_stitched (fst (backfill_users allowed now us sm db)) + bs_unresolved (fst (backfill_users allowed now us sm db))
     \<le> bs_stitched sm + bs_unresolved sm + length us \<and>
   bs_scanned (fst (backfill_users allowed now us sm db)) = bs_scanned sm \<and>
   bs_stitched (fst (backfill_users allowed now us sm db)) + (\<Sum>m \<in> {By_session_id, By_visitor_id, By_fingerprint}. bs_by_method sm m) =
     bs_stitched sm + (\<Sum>m \<in> {By_session_id, By_visitor_id, By_fingerprint}. bs_by_method (fst (backfill_users allowed now us sm db)) m)"
proof (induction allowed now us sm db rule: backfill_users.induct)
  case (2 allowed now u us sm db)
  show ?case
  proof (cases "stitch (allowed u) now u db")
    case (Pair res db')
    show ?thesis
    proof (cases res)
      case (Inl e)
      with Pair 2 show ?thesis by fastforce
    next
      case (Inr r)
      show ?thesis
      proof (cases r)
        case None
        with Pair Inr 2 show ?thesis by fastforce
      next
        case (Some m)
        with Pair Inr 2(3) [OF Pair [symmetric] Inr Some] show ?thesis by (cases m) simp_all
      qed
    qed
  qed
qed simp

text \<open>
  A backfill neither adds nor removes a row and changes nothing of a session or goal but its first-touch columns, whichever stitches fail; its
  summary adds up: what it resolved by each key is what it stitched, and no user is counted twice.
\<close>
theorem backfill_preserves:
  "case backfillIdentity allowed now db of (sm, db') \<Rightarrow>
     map acquisition (sd_sessions db') = map acquisition (sd_sessions db) \<and>
     map (\<lambda>g. (gw_id g, gw_user_id g)) (sd_goals db') = map (\<lambda>g. (gw_id g, gw_user_id g)) (sd_goals db) \<and>
     bs_stitched sm + bs_unresolved sm \<le> bs_scanned sm \<and>
     bs_stitched sm = bs_by_method sm By_session_id + bs_by_method sm By_visitor_id + bs_by_method sm By_fingerprint"
proof -
  let ?sm = "\<lparr>bs_scanned = length (listIdentifiedUsers db), bs_stitched = 0, bs_unresolved = 0, bs_by_method = (\<lambda>_. 0)\<rparr>"
  let ?r = "backfill_users allowed now (listIdentifiedUsers db) ?sm db"
  have "same_rows db (snd ?r)" by (rule backfill_users_rows)
  with backfill_users_counts [of allowed now "listIdentifiedUsers db" ?sm db]
  show ?thesis by (cases ?r) (simp add: backfillIdentity_def Let_def same_rows_def)
qed

subsection \<open>Witnesses\<close>

definition sample_session :: "string \<Rightarrow> string option \<Rightarrow> int \<Rightarrow> string \<Rightarrow> identity_session" where
  "sample_session i user t gr =
     \<lparr>sw_id = i, sw_user_id = user, sw_visitor_id = ''v'', sw_fingerprint = [], sw_created_at = t, sw_channel = gr, sw_channel_group = gr,
      sw_referrer = [], sw_referrer_domain = [], sw_landing_page = [], sw_landing_domain = [], sw_utm_source = [], sw_utm_medium = [],
      sw_utm_campaign = [], sw_utm_content = [], sw_first_touch_channel = [], sw_first_touch_channel_group = []\<rparr>"

definition sample_stitch :: "string \<Rightarrow> stitch_db" where
  "sample_stitch gr = \<lparr>sd_sessions = [sample_session ''a'' None 0 ''ads'', sample_session ''b'' (Some ''u'') 9 gr], sd_goals = [],
     sd_attribution = [], sd_cache_events = 0\<rparr>"

lemmas sample_stitch_simps = sample_stitch_def sample_session_def stitch_result getIdentifiedSession_def findFirstTouch_def
  firstChainSession_def first_row_def real_channel_def Let_def written_def write_defs

lemma stitch_records_witness:
  "\<exists>a. map_of (sd_attribution (snd (stitch None 10 ''u'' (sample_stitch ''direct'')))) ''u'' = Some a \<and> at_method a = By_visitor_id"
proof -
  have "stitch None 10 ''u'' (sample_stitch ''direct'') = (Inr (Some By_visitor_id), snd (stitch None 10 ''u'' (sample_stitch ''direct'')))"
    by (simp add: sample_stitch_simps)
  from stitch_records [OF this] show ?thesis by auto
qed

lemma first_touch_overwritten_witness:
  "\<exists>a. map_of (sd_attribution (snd (stitch None 10 ''u'' (sample_stitch ''email'')))) ''u'' = Some a \<and> sw_channel_group (at_first a) = ''email''"
proof -
  have "getIdentifiedSession (sample_stitch ''email'') ''u'' = Some (sample_session ''b'' (Some ''u'') 9 ''email'')"
    by (simp add: sample_stitch_simps)
  from first_touch_overwritten [OF this, of 10] show ?thesis
    by (auto simp: sample_stitch_def sample_session_def real_channel_def acquisition_def)
qed

lemma schedule_throttled_witness: "fst (scheduleStitch 5 ''w'' ''u'' (snd (scheduleStitch 1 ''w'' ''u'' []))) = False"
proof -
  have "scheduleStitch 1 ''w'' ''u'' [] = (True, snd (scheduleStitch 1 ''w'' ''u'' []))" by (simp add: scheduleStitch_def)
  from schedule_throttled [OF this, of 5 None "[]"] show ?thesis by (simp add: stitch_settled_def STITCH_CACHE_TTL_MS_def)
qed

end
