(* ===== verification/Gap_Fill.thy ===== *)
theory Gap_Fill
  imports Query_Builder
begin

section \<open>Filling the gaps of a time series\<close>

text \<open>
  The function \<open>fillGaps\<close> of \<^verbatim>\<open>api/src/analytics/lib/date-utils.ts\<close>. A row of an answer is an object. The dates
  of the range are computed by a date library, and so is the text a row's date is compared by: both are arguments (\<open>dates\<close>,
  \<open>date_key\<close>), as is the text of a value that is neither null nor undefined (\<open>shown\<close>).
\<close>

(* src: api/src/analytics/lib/date-utils.ts:222-226 fillGaps *)
definition zero_row :: "string \<Rightarrow> string \<Rightarrow> (string \<times> jsval) list \<Rightarrow> string list \<Rightarrow> jsobject" where
  "zero_row dcol date dims metrics =
     (((\<lambda>_. None)(dcol \<mapsto> JStr date)) ++ map_of (rev dims)) ++ map_of (map (\<lambda>m. (m, JNum 0)) metrics)"

(* src: api/src/analytics/lib/date-utils.ts:236-241 fillGaps *)
definition dim_text :: "(jsval \<Rightarrow> string) \<Rightarrow> jsval \<Rightarrow> string" where
  "dim_text shown v = (if v \<in> {JNull, JUndefined} then [] else shown v)"

(* src: api/src/analytics/lib/date-utils.ts:236-242 fillGaps *)
definition combo_key :: "(jsval \<Rightarrow> string) \<Rightarrow> string list \<Rightarrow> jsobject \<Rightarrow> string" where
  "combo_key shown dims row = js_join ''|'' (map (\<lambda>d. dim_text shown (js_get row d)) dims)"

definition row_table :: "(jsobject \<Rightarrow> string) \<Rightarrow> jsobject list \<Rightarrow> (string \<times> jsobject) list" where
  "row_table key rows = fold (\<lambda>r t. AList.update (key r) r t) rows []"

(* src: api/src/analytics/lib/date-utils.ts:211-228 fillGaps *)
definition fill_plain :: "(jsval \<Rightarrow> string) \<Rightarrow> string list \<Rightarrow> string \<Rightarrow> string list \<Rightarrow> jsobject list \<Rightarrow> jsobject list" where
  "fill_plain date_key dates dcol metrics rows =
     (let table = row_table (\<lambda>r. date_key (js_get r dcol)) rows
      in map (\<lambda>date. case map_of table date of Some r \<Rightarrow> r | None \<Rightarrow> zero_row dcol date [] metrics) dates)"

text \<open>The missing entries of a text that splits into fewer parts than there are dimensions are undefined.\<close>

definition part_at :: "string list \<Rightarrow> nat \<Rightarrow> jsval" where
  "part_at ps i = (if i < length ps then JStr (ps ! i) else JUndefined)"

(* src: api/src/analytics/lib/date-utils.ts:254-264 fillGaps *)
definition zero_combo :: "string \<Rightarrow> string \<Rightarrow> string list \<Rightarrow> string list \<Rightarrow> string \<Rightarrow> jsobject" where
  "zero_combo dcol date dims metrics combo =
     zero_row dcol date (map (\<lambda>(i, d). (d, part_at (js_split (CHR ''|'') combo) i)) (enumerate 0 dims)) metrics"

(* src: api/src/analytics/lib/date-utils.ts:230-269 fillGaps *)
definition fill_combos :: "(jsval \<Rightarrow> string) \<Rightarrow> (jsval \<Rightarrow> string) \<Rightarrow> string list \<Rightarrow> string \<Rightarrow> string list \<Rightarrow> string list \<Rightarrow> jsobject list \<Rightarrow> jsobject list" where
  "fill_combos shown date_key dates dcol metrics dims rows =
     (let combos = js_set (map (combo_key shown dims) rows);
          table = row_table (\<lambda>r. date_key (js_get r dcol) @ ''|'' @ combo_key shown dims r) rows
      in concat (map (\<lambda>date. map (\<lambda>combo.
           case map_of table (date @ ''|'' @ combo) of Some r \<Rightarrow> r | None \<Rightarrow> zero_combo dcol date dims metrics combo) combos) dates))"

(* src: api/src/analytics/lib/date-utils.ts:155-270 fillGaps *)
definition fillGaps :: "(jsval \<Rightarrow> string) \<Rightarrow> (jsval \<Rightarrow> string) \<Rightarrow> string list \<Rightarrow> string \<Rightarrow> string list \<Rightarrow> string list \<Rightarrow> jsobject list \<Rightarrow> jsobject list" where
  "fillGaps shown date_key dates dcol metrics dims rows =
     (if dims = [] then fill_plain date_key dates dcol metrics rows
      else fill_combos shown date_key dates dcol metrics dims rows)"

section \<open>What filling guarantees\<close>

lemma js_set_set [simp]: "set (js_set xs) = set xs" "distinct (js_set xs)"
  by (simp_all add: js_set_def)

lemma fold_update_last:
  "map_of (fold (\<lambda>r t. AList.update (key r) r t) rows t) k =
     (case find (\<lambda>r. key r = k) (rev rows) of Some r \<Rightarrow> Some r | None \<Rightarrow> map_of t k)"
  by (induction rows rule: rev_induct) (auto simp: update_conv')

lemma find_in: "find P xs = Some x \<Longrightarrow> x \<in> set xs \<and> P x"
  by (induction xs) (auto split: if_splits)

lemma row_table_of: "map_of (row_table key rows) k = find (\<lambda>r. key r = k) (rev rows)"
  by (simp add: row_table_def fold_update_last split: option.splits)

text \<open>
  Without dimensions the series has one row for each date of the range, in order: the last row of the answer with that date, or zeros.
\<close>
theorem fill_plain_series:
  assumes "i < length dates"
  shows "length (fillGaps shown date_key dates dcol metrics [] rows) = length dates \<and>
     fillGaps shown date_key dates dcol metrics [] rows ! i =
       (case find (\<lambda>r. date_key (js_get r dcol) = dates ! i) (rev rows) of
          Some r \<Rightarrow> r
        | None \<Rightarrow> (\<lambda>f. if f \<in> set metrics then Some (JNum 0) else if f = dcol then Some (JStr (dates ! i)) else None))"
  using assms by (auto simp: fillGaps_def fill_plain_def row_table_of zero_row_def map_add_def fun_eq_iff map_of_map_restrict map_of_eq_None_iff
      split: option.splits)

text \<open>The parts of a joined text whose pieces contain no separator.\<close>

lemma split_joined: "xs \<noteq> [] \<Longrightarrow> \<forall>x \<in> set xs. c \<notin> set x \<Longrightarrow> js_split c (js_join [c] xs) = xs"
proof (induction xs)
  case (Cons x xs)
  then show ?case by (cases xs) (simp_all add: js_split_append)
qed simp

lemma joined_no_bar: "\<forall>x \<in> set xs. CHR ''|'' \<notin> set x \<Longrightarrow> js_join ''|'' xs = js_join ''|'' ys \<Longrightarrow> \<forall>x \<in> set ys. CHR ''|'' \<notin> set x \<Longrightarrow>
    length xs = length ys \<Longrightarrow> xs = ys"
  by (metis split_joined length_0_conv)

text \<open>No dimension text of a row contains the separator, and no date does.\<close>

definition bars_free :: "(jsval \<Rightarrow> string) \<Rightarrow> (jsval \<Rightarrow> string) \<Rightarrow> string list \<Rightarrow> string \<Rightarrow> string list \<Rightarrow> jsobject list \<Rightarrow> bool" where
  "bars_free shown date_key dates dcol dims rows =
     (list_all (\<lambda>r. list_all (\<lambda>d. CHR ''|'' \<notin> set (dim_text shown (js_get r d))) dims \<and>
         CHR ''|'' \<notin> set (date_key (js_get r dcol))) rows \<and>
      list_all (\<lambda>d. CHR ''|'' \<notin> set d) dates)"

lemma bar_key_inject:
  assumes "CHR ''|'' \<notin> set a" and "CHR ''|'' \<notin> set b"
  shows "a @ ''|'' @ x = b @ ''|'' @ y \<longleftrightarrow> a = b \<and> x = y"
proof -
  have "takeWhile (\<lambda>c. c \<noteq> CHR ''|'') (s @ CHR ''|'' # t) = s" "dropWhile (\<lambda>c. c \<noteq> CHR ''|'') (s @ CHR ''|'' # t) = CHR ''|'' # t"
    if "CHR ''|'' \<notin> set s" for s t
    using that by (induction s) auto
  from this [OF assms(1), of x] this [OF assms(2), of y] show ?thesis by (auto dest: arg_cong)
qed


text \<open>
  Values that contain the separator lose data: two rows of a date whose different values join to the same text share one place, and only the
  later of them is answered.
\<close>
theorem joined_values_collide:
  assumes "dims \<noteq> []" and "date_key (js_get a dcol) = date" and "date_key (js_get b dcol) = date"
    and "combo_key shown dims a = combo_key shown dims b"
  shows "fillGaps shown date_key [date] dcol metrics dims [a, b] = [b]"
  using assms by (simp add: fillGaps_def fill_combos_def row_table_def js_set_def update_conv')

subsection \<open>Witnesses\<close>

definition sample_row :: "string \<Rightarrow> string \<Rightarrow> jsobject" where
  "sample_row x y = [''date_day'' \<mapsto> JStr ''d1'', ''source'' \<mapsto> JStr x, ''medium'' \<mapsto> JStr y, ''sessions'' \<mapsto> JNum 5]"

definition text_value :: "jsval \<Rightarrow> string" where
  "text_value v = (case v of JStr s \<Rightarrow> s | _ \<Rightarrow> ''?'')"

lemmas sample_row_simps = sample_row_def text_value_def js_get_def

lemma fill_plain_series_witness:
  "length (fillGaps text_value text_value [''d0'', ''d1''] ''date_day'' [''sessions''] [] [sample_row ''a'' ''b'']) = 2"
  using fill_plain_series [of 0 "[''d0'', ''d1'']"] by simp


lemma joined_values_collide_witness:
  "fillGaps text_value text_value [''d1''] ''date_day'' [''sessions''] [''source'', ''medium''] [sample_row ''a|b'' ''c'', sample_row ''a'' ''b|c''] =
     [sample_row ''a'' ''b|c'']"
  by (rule joined_values_collide) (simp_all add: sample_row_simps combo_key_def dim_text_def)

end
