(* ===== verification/Analytics_Service.thy ===== *)
theory Analytics_Service
  imports Gap_Fill Access
begin

section \<open>Analytics: answering queries\<close>

text \<open>
  \<^verbatim>\<open>api/src/analytics/analytics.service.ts\<close>: validation, dates, the query and its comparison period, funnels and conversions, and the cache
  of answers with the bookkeeping that lets a backfill clear it. The database, presets of dates, the dates of a range and the conversion of other
  values to numbers are arguments; the hash of a cache key is one too. A number is a real. An error the code throws as such, which the
  server answers with status 500, is a \<open>Crash\<close>. The counts the database answers are numbers or numerals.
\<close>

datatype failure = Http http_error | Crash string

definition crash :: "string + 'a \<Rightarrow> failure + 'a" where
  "crash r = (case r of Inl e \<Rightarrow> Inl (Crash e) | Inr x \<Rightarrow> Inr x)"

definition bad_request :: "string + 'a \<Rightarrow> failure + 'a" where
  "bad_request r = (case r of Inl e \<Rightarrow> Inl (Http (Bad_request e)) | Inr x \<Rightarrow> Inr x)"

subsection \<open>Dates\<close>

fun replace_T :: "string \<Rightarrow> string" where
  "replace_T [] = []"
| "replace_T (c # s) = (if c = CHR ''T'' then CHR '' '' # s else c # replace_T s)"

(* src: api/src/common/utils/datetime.util.ts:15-21 isoToClickHouseDateTime *)
definition isoToClickHouseDateTime :: "string \<Rightarrow> string" where
  "isoToClickHouseDateTime s = butlast (replace_T s)"

definition to_clickhouse :: "string option \<Rightarrow> string option" where
  "to_clickhouse s = (case s of Some x \<Rightarrow> if js_includes x ''T'' then Some (isoToClickHouseDateTime x) else s | None \<Rightarrow> None)"

definition date_value :: "string option \<Rightarrow> jsval" where
  "date_value s = (case s of None \<Rightarrow> JUndefined | Some x \<Rightarrow> JStr x)"

subsection \<open>Requests and answers\<close>

(* src: api/src/analytics/dto/analytics-query.dto.ts:102-118 DateRangeDto *)
record date_range =
  dr_start :: "string option"
  dr_end :: "string option"
  dr_preset :: "string option"

(* src: api/src/analytics/dto/analytics-query.dto.ts:149-222 AnalyticsQueryDto *)
record analytics_request =
  ar_workspace_id :: string
  ar_query :: analytics_query
  ar_range :: date_range
  ar_compare :: "date_range option"
  ar_timezone :: "string option"

(* src: api/src/analytics/analytics.service.ts:46-65 AnalyticsResponse *)
record analytics_answer =
  an_current :: "jsobject list"
  an_previous :: "jsobject list option"
  an_metrics :: "string list"
  an_dimensions :: "string list"
  an_total_rows :: nat

record analytics_env =
  ae_preset :: "string \<Rightarrow> string \<Rightarrow> string \<times> string"
  ae_shift :: "string \<Rightarrow> string \<Rightarrow> string \<times> string"
  ae_run :: "string \<Rightarrow> built_query \<Rightarrow> jsobject list"
  ae_dates :: "granularity \<Rightarrow> string \<Rightarrow> string \<Rightarrow> string \<Rightarrow> string list"
  ae_date_key :: "granularity \<Rightarrow> jsval \<Rightarrow> string"
  ae_shown :: "jsval \<Rightarrow> string"
  ae_tpl :: "jsval \<Rightarrow> string"
  ae_valid_tz :: "string \<Rightarrow> bool"

text \<open>The first preset that is set decides; an empty one counts as absent.\<close>

(* src: api/src/analytics/analytics.service.ts:186-200 executeQueryInternal *)
definition resolve_range :: "analytics_env \<Rightarrow> string \<Rightarrow> date_range \<Rightarrow> string option \<times> string option" where
  "resolve_range env tz r =
     (let (s, e) = (if js_truthy (dr_preset r)
                    then (case ae_preset env (the (dr_preset r)) tz of (s, e) \<Rightarrow> (Some s, Some e)) else (dr_start r, dr_end r))
      in (to_clickhouse s, to_clickhouse e))"

(* src: api/src/analytics/analytics.service.ts:265-290 queryWithComparison *)
definition resolve_compare :: "analytics_env \<Rightarrow> string \<Rightarrow> date_range \<Rightarrow> date_range \<Rightarrow> string option \<times> string option" where
  "resolve_compare env tz main cmp =
     (if js_truthy (dr_preset cmp) \<and> dr_preset main = dr_preset cmp
      then (case ae_shift env (the (dr_preset cmp)) tz of (s, e) \<Rightarrow> (to_clickhouse (Some s), to_clickhouse (Some e)))
      else resolve_range env tz cmp)"

(* src: api/src/analytics/analytics.service.ts:149-185 executeQueryInternal *)
definition validate_names :: "analytics_query \<Rightarrow> string + unit" where
  "validate_names q =
     (let t = the_table q
      in res_bind (res_map (lookup_metric t) (aq_metrics q)) (\<lambda>_.
         res_bind (res_map (lookup_dimension t) (aq_dimensions q)) (\<lambda>_.
         res_bind (res_map (\<lambda>f. lookup_metric t (mq_metric f)) (aq_metric_filters q)) (\<lambda>_. Inr ()))))"

(* src: api/src/analytics/analytics.service.ts:228-244 executeQueryInternal *)
definition fill_series :: "analytics_env \<Rightarrow> string \<Rightarrow> analytics_query \<Rightarrow> string option \<Rightarrow> string option \<Rightarrow> jsobject list \<Rightarrow> jsobject list" where
  "fill_series env tz q s e rows =
     (case aq_granularity q of
        Some g \<Rightarrow>
          (if js_truthy s \<and> js_truthy e
           then fillGaps (ae_shown env) (ae_date_key env g) (ae_dates env g (the s) (the e) tz) (granularity_column g)
                  (aq_metrics q) (aq_dimensions q) rows
           else rows)
      | None \<Rightarrow> rows)"

(* src: api/src/analytics/analytics.service.ts:259-378 queryWithComparison *)
definition queryWithComparison ::
    "analytics_env \<Rightarrow> analytics_request \<Rightarrow> string \<Rightarrow> metric_context \<Rightarrow> string option \<times> string option \<Rightarrow> date_range \<Rightarrow> built_query \<Rightarrow> failure + analytics_answer" where
  "queryWithComparison env dto tz ctx dates cmp current =
     (let q = ar_query dto; (cs, ce) = resolve_compare env tz (ar_range dto) cmp
      in res_bind (crash (buildAnalyticsQuery (ae_tpl env) (ae_valid_tz env)
             (q\<lparr>aq_start := date_value cs, aq_end := date_value ce\<rparr>) (Some tz) (Some ctx))) (\<lambda>previous.
           let now = fill_series env tz q (fst dates) (snd dates) (ae_run env (ar_workspace_id dto) current);
               before = fill_series env tz q cs ce (ae_run env (ar_workspace_id dto) previous)
           in Inr \<lparr>an_current = now, an_previous = Some before, an_metrics = aq_metrics q, an_dimensions = aq_dimensions q,
                   an_total_rows = length now + length before\<rparr>))"

(* src: api/src/analytics/analytics.service.ts:141-257 executeQueryInternal *)
definition executeQuery :: "analytics_env \<Rightarrow> nat option \<Rightarrow> analytics_request \<Rightarrow> string \<Rightarrow> failure + analytics_answer" where
  "executeQuery env bounce dto tz =
     (let q = ar_query dto; ctx = \<lparr>bounce_threshold = js_nullish bounce 10\<rparr>;
          (s, e) = resolve_range env tz (ar_range dto);
          q1 = q\<lparr>aq_start := date_value s, aq_end := date_value e\<rparr>;
          run = (\<lambda>sql. ae_run env (ar_workspace_id dto) sql)
      in res_bind (bad_request (validate_names q)) (\<lambda>_.
         res_bind (crash (buildAnalyticsQuery (ae_tpl env) (ae_valid_tz env) q1 (Some tz) (Some ctx))) (\<lambda>current.
           case ar_compare dto of
             None \<Rightarrow>
               (let data = fill_series env tz q s e (run current)
                in Inr \<lparr>an_current = data, an_previous = None, an_metrics = aq_metrics q, an_dimensions = aq_dimensions q,
                        an_total_rows = length data\<rparr>)
           | Some cmp \<Rightarrow> queryWithComparison env dto tz ctx (s, e) cmp current)))"

subsection \<open>The cache of answers\<close>

type_synonym cache_key = "string \<times> string"

text \<open>The parts of a key; \<open>shown\<close> is \<open>JSON.stringify\<close> of the filters, metric filters, order and comparison range.\<close>

fun text_le :: "string \<Rightarrow> string \<Rightarrow> bool" where
  "text_le [] t = True"
| "text_le (c # s) [] = False"
| "text_le (c # s) (d # t) = ((of_char c :: nat) < of_char d \<or> c = d \<and> text_le s t)"

fun text_insert :: "string \<Rightarrow> string list \<Rightarrow> string list" where
  "text_insert x [] = [x]"
| "text_insert x (y # ys) = (if text_le x y then x # y # ys else y # text_insert x ys)"

definition text_sort :: "string list \<Rightarrow> string list" where
  "text_sort xs = foldr text_insert xs []"

record json_texts =
  jx_filters :: "filter_dto list \<Rightarrow> string"
  jx_metric_filters :: "metric_filter_dto list \<Rightarrow> string"
  jx_order :: "(string \<times> string) list \<Rightarrow> string"
  jx_range :: "date_range \<Rightarrow> string"

(* src: api/src/analytics/analytics.service.ts:800-835 generateCacheKey *)
definition generateCacheKey :: "json_texts \<Rightarrow> (string \<Rightarrow> string) \<Rightarrow> analytics_request \<Rightarrow> string \<Rightarrow> string \<Rightarrow> string \<Rightarrow> cache_key" where
  "generateCacheKey jx digest dto start end_at tz =
     (let q = ar_query dto; nonzero = (\<lambda>n d. if js_nullish n 0 = 0 then d else js_nullish n 0);
          parts = [ar_workspace_id dto, table_name (the_table q), js_join '','' (text_sort (aq_metrics q)), js_join '','' (text_sort (aq_dimensions q)),
            js_join '','' (text_sort (aq_totals_group_by q)), start, end_at,
            (case aq_granularity q of None \<Rightarrow> [] | Some g \<Rightarrow> (case g of G_hour \<Rightarrow> ''hour'' | G_day \<Rightarrow> ''day'' | G_week \<Rightarrow> ''week'' | G_month \<Rightarrow> ''month'' | G_year \<Rightarrow> ''year'')),
            tz, js_of_nat (nonzero (aq_limit q) 1000), jx_filters jx (aq_filters q), jx_metric_filters jx (aq_metric_filters q),
            jx_order jx (js_nullish (aq_order q) []), (case ar_compare dto of None \<Rightarrow> [] | Some c \<Rightarrow> jx_range jx c),
            js_of_nat (nonzero (aq_having_min_sessions q) 0)]
      in (ar_workspace_id dto, take 16 (digest (js_join ''|'' parts))))"

text \<open>Entries with the instant they expire, keys whose query is running, and the keys tracked for each workspace, oldest first.\<close>

record 'a answer_cache =
  ca_entries :: "(cache_key \<times> ('a \<times> int)) list"
  ca_pending :: "cache_key list"
  ca_tracked :: "(string \<times> cache_key list) list"

definition cache_get :: "int \<Rightarrow> 'a answer_cache \<Rightarrow> cache_key \<Rightarrow> 'a option" where
  "cache_get now c k = (case map_of (ca_entries c) k of Some (a, e) \<Rightarrow> if now < e then Some a else None | None \<Rightarrow> None)"

definition tracked :: "'a answer_cache \<Rightarrow> string \<Rightarrow> cache_key list" where
  "tracked c ws = js_nullish (map_of (ca_tracked c) ws) []"

(* src: api/src/analytics/analytics.service.ts:847-861 trackCacheKey *)
definition trackCacheKey :: "nat \<Rightarrow> string \<Rightarrow> cache_key \<Rightarrow> 'a answer_cache \<Rightarrow> 'a answer_cache" where
  "trackCacheKey cap ws k c =
     (let keys = tracked c ws;
          full = (cap \<le> length keys \<and> k \<notin> set keys \<and> keys \<noteq> []);
          kept = (if full then tl keys else keys)
      in c\<lparr>ca_entries := (if full then AList.delete (hd keys) (ca_entries c) else ca_entries c),
           ca_tracked := AList.update ws (if k \<in> set kept then kept else kept @ [k]) (ca_tracked c)\<rparr>)"

datatype 'a query_start = Cached 'a | Joined | Started

(* src: api/src/analytics/analytics.service.ts:115-126 query *)
definition query_begin :: "nat \<Rightarrow> int \<Rightarrow> cache_key \<Rightarrow> 'a answer_cache \<Rightarrow> 'a query_start \<times> 'a answer_cache" where
  "query_begin cap now k c =
     (let c1 = trackCacheKey cap (fst k) k c
      in case cache_get now c1 k of
           Some a \<Rightarrow> (Cached a, c1)
         | None \<Rightarrow> if k \<in> set (ca_pending c1) then (Joined, c1) else (Started, c1\<lparr>ca_pending := k # ca_pending c1\<rparr>))"

(* src: api/src/analytics/analytics.service.ts:126-138 query *)
definition query_end :: "int \<Rightarrow> int \<Rightarrow> cache_key \<Rightarrow> 'a option \<Rightarrow> 'a answer_cache \<Rightarrow> 'a answer_cache" where
  "query_end now ttl k result c =
     (case result of
        Some a \<Rightarrow> c\<lparr>ca_entries := AList.update k (a, now + ttl) (ca_entries c), ca_pending := filter (\<lambda>x. x \<noteq> k) (ca_pending c)\<rparr>
      | None \<Rightarrow> c\<lparr>ca_pending := filter (\<lambda>x. x \<noteq> k) (ca_pending c)\<rparr>)"

(* src: api/src/analytics/analytics.service.ts:868-877 handleBackfillCompleted *)
definition handleBackfillCompleted :: "string \<Rightarrow> 'a answer_cache \<Rightarrow> 'a answer_cache" where
  "handleBackfillCompleted ws c =
     c\<lparr>ca_entries := filter (\<lambda>(k, _). k \<notin> set (tracked c ws)) (ca_entries c), ca_tracked := AList.delete ws (ca_tracked c)\<rparr>"

(* src: api/src/analytics/analytics.service.ts:789-794 getTTL *)
definition getTTL :: "string \<Rightarrow> string \<Rightarrow> int" where
  "getTTL today end_at =
     (if text_le today (hd (js_split (CHR ''T'') (hd (js_split (CHR '' '') end_at)))) then 60 * 1000 else 5 * 60 * 1000)"

subsection \<open>Funnels\<close>

(* src: api/src/analytics/analytics.service.ts:42-44 round2 *)
definition round2 :: "real \<Rightarrow> real" where
  "round2 n = of_int \<lfloor>n * 100 + 1 / 2\<rfloor> / 100"

(* src: api/src/analytics/dto/funnel-query.dto.ts:115-133 FunnelStepResult *)
record funnel_result =
  fr_step :: nat
  fr_goal_name :: string
  fr_label :: string
  fr_count :: real
  fr_value :: real
  fr_from_previous :: "real option"
  fr_from_start :: real
  fr_dropoff :: real

(* src: api/src/analytics/analytics.service.ts:626-629 buildFunnelSteps *)
definition row_number :: "(jsval \<Rightarrow> real option) \<Rightarrow> jsval \<Rightarrow> real" where
  "row_number to_number v =
     (case v of JNum x \<Rightarrow> x | JNull \<Rightarrow> 0 | JUndefined \<Rightarrow> 0 | _ \<Rightarrow> js_nullish (to_number v) 0)"

definition rate :: "real \<Rightarrow> real \<Rightarrow> real" where
  "rate n d = (if 0 < d then round2 (n / d * 100) else 0)"

(* src: api/src/analytics/analytics.service.ts:622-651 buildFunnelSteps *)
definition buildFunnelSteps :: "(jsval \<Rightarrow> real option) \<Rightarrow> funnel_step list \<Rightarrow> jsobject \<Rightarrow> funnel_result list" where
  "buildFunnelSteps to_number steps row =
     (let counts = map (\<lambda>i. row_number to_number (js_get row (''s'' @ js_of_nat i))) [0..<length steps];
          values = map (\<lambda>i. row_number to_number (js_get row (''v'' @ js_of_nat i))) [0..<length steps]
      in map (\<lambda>(i, s).
           \<lparr>fr_step = i + 1, fr_goal_name = fs_goal_name s, fr_label = (if js_truthy (fs_label s) then the (fs_label s) else fs_goal_name s),
            fr_count = counts ! i, fr_value = round2 (values ! i),
            fr_from_previous = (if i = 0 then None else Some (rate (counts ! i) (counts ! (i - 1)))),
            fr_from_start = rate (counts ! i) (counts ! 0),
            fr_dropoff = (if i = 0 then 0 else max 0 (counts ! (i - 1) - counts ! i))\<rparr>) (enumerate 0 steps))"

record funnel_segment =
  sg_key :: string
  sg_entered :: real
  sg_overall :: real
  sg_steps :: "funnel_result list"

(* src: api/src/analytics/analytics.service.ts:595-606 funnel *)
definition funnel_series :: "(jsval \<Rightarrow> real option) \<Rightarrow> funnel_step list \<Rightarrow> string \<Rightarrow> jsobject \<Rightarrow> funnel_segment" where
  "funnel_series to_number steps key row =
     (let rs = buildFunnelSteps to_number steps row;
          entered = (case rs of [] \<Rightarrow> 0 | r # _ \<Rightarrow> fr_count r);
          final = (if rs = [] then 0 else fr_count (last rs))
      in \<lparr>sg_key = key, sg_entered = entered, sg_overall = rate final entered, sg_steps = rs\<rparr>)"

definition SEGMENT_MAX :: nat where "SEGMENT_MAX = 12"

(* src: api/src/analytics/analytics.service.ts:535-548 funnel *)
definition funnel_segment_of :: "string option \<Rightarrow> failure + (string \<times> string \<times> nat) option" where
  "funnel_segment_of by =
     (if \<not> js_truthy by then Inr None
      else (case dimension_of (the by) of
              None \<Rightarrow> Inl (Http (Bad_request (''Unknown dimension: '' @ the by)))
            | Some d \<Rightarrow>
                (if Goals \<in> set (di_tables d) then Inr (Some (di_column d, di_name d, SEGMENT_MAX + 1))
                 else Inl (Http (Bad_request (''Dimension '' @ quote @ the by @ quote @ '' is not available for segmenting the funnel (table '' @ quote @ ''goals'' @ quote @ '').''))))))"

text \<open>A funnel answers one series, or one for each value of the dimension that segments it.\<close>

(* src: api/src/analytics/analytics.service.ts:501-615 funnel *)
definition funnel :: "analytics_env \<Rightarrow> (jsval \<Rightarrow> real option) \<Rightarrow> string \<Rightarrow> funnel_spec \<Rightarrow> string option \<Rightarrow> failure + funnel_segment list" where
  "funnel env to_number ws spec by =
     res_bind (funnel_segment_of by) (\<lambda>seg.
     res_bind (crash (buildFunnelQuery (ae_tpl env) (spec\<lparr>fu_segment := seg\<rparr>))) (\<lambda>query.
       let rows = ae_run env ws query in
       case seg of
         None \<Rightarrow> Inr [funnel_series to_number (fu_steps spec) [] (case rows of [] \<Rightarrow> Map.empty | r # _ \<Rightarrow> r)]
       | Some _ \<Rightarrow>
           (if SEGMENT_MAX < length rows then Inl (Http (Bad_request ''SEGMENT_CARDINALITY_EXCEEDED''))
            else Inr (map (\<lambda>r. funnel_series to_number (fu_steps spec) (dim_text (ae_shown env) (js_get r (the by))) r) rows))))"

subsection \<open>Conversions by channel\<close>

record conversion_row =
  cv_channel_group :: string
  cv_app :: string
  cv_conversions :: real
  cv_sessions :: real
  cv_rate :: real

(* src: api/src/analytics/analytics.service.ts:754-773 conversionsByChannel *)
definition conversion_rows :: "(jsval \<Rightarrow> real option) \<Rightarrow> jsobject list \<Rightarrow> jsobject list \<Rightarrow> conversion_row list" where
  "conversion_rows to_number conv sess =
     (let sessions = map_of (rev (map (\<lambda>r. (js_get r ''channel_group'', row_number to_number (js_get r ''sessions''))) sess))
      in map (\<lambda>r.
           let n = row_number to_number (js_get r ''conversions''); d = js_nullish (sessions (js_get r ''channel_group'')) 0
           in \<lparr>cv_channel_group = js_nullish (js_string (js_get r ''channel_group'')) [],
               cv_app = (let a = js_nullish (js_string (js_get r ''app'')) [] in if a = [] then ''(non renseign'' @ [CHR 0xE9] @ '')'' else a),
               cv_conversions = n, cv_sessions = d, cv_rate = (if 0 < d then min (rate n d) 100 else 0)\<rparr>) conv)"

section \<open>What the service guarantees\<close>

subsection \<open>The cache\<close>

inductive cache_step :: "nat \<Rightarrow> 'a answer_cache \<Rightarrow> 'a answer_cache \<Rightarrow> bool" for cap where
  started: "cache_step cap c (snd (query_begin cap now k c))"
| ended: "cache_step cap c (query_end now ttl k result c)"
| backfilled: "cache_step cap c (handleBackfillCompleted ws c)"

definition no_cache :: "'a answer_cache" where
  "no_cache = \<lparr>ca_entries = [], ca_pending = [], ca_tracked = []\<rparr>"

definition within_cap :: "nat \<Rightarrow> 'a answer_cache \<Rightarrow> bool" where
  "within_cap cap c = (\<forall>ws. length (tracked c ws) \<le> cap \<and> distinct (tracked c ws))"

lemma tracked_track:
  "tracked (trackCacheKey cap ws k c) w =
     (if w = ws then
        (let keys = tracked c ws; kept = (if cap \<le> length keys \<and> k \<notin> set keys \<and> keys \<noteq> [] then tl keys else keys)
         in if k \<in> set kept then kept else kept @ [k])
      else tracked c w)"
  by (simp add: trackCacheKey_def tracked_def Let_def update_conv')

lemma tracked_begin: "tracked (snd (query_begin cap now k c)) w = tracked (trackCacheKey cap (fst k) k c) w"
  by (simp add: query_begin_def tracked_def Let_def split: option.splits)

lemma tracked_end [simp]: "tracked (query_end now ttl k result c) w = tracked c w"
  by (simp add: query_end_def tracked_def split: option.splits)

lemma tracked_backfill: "tracked (handleBackfillCompleted ws c) w = (if w = ws then [] else tracked c w)"
  by (simp add: handleBackfillCompleted_def tracked_def delete_conv')

lemma in_set_tl: "x \<in> set (tl xs) \<Longrightarrow> x \<in> set xs"
  by (cases xs) auto

lemma track_within:
  assumes "within_cap cap c" and "0 < cap"
  shows "within_cap cap (trackCacheKey cap ws k c)"
proof -
  let ?keys = "tracked c ws"
  let ?kept = "if cap \<le> length ?keys \<and> k \<notin> set ?keys \<and> ?keys \<noteq> [] then tl ?keys else ?keys"
  have "length ?keys \<le> cap" "distinct ?keys" using assms(1) by (simp_all add: within_cap_def)
  moreover have "length ?kept < cap" if "k \<notin> set ?kept"
    using that \<open>length ?keys \<le> cap\<close> assms(2) by (cases ?keys) (auto split: if_splits)
  ultimately have "length (if k \<in> set ?kept then ?kept else ?kept @ [k]) \<le> cap \<and> distinct (if k \<in> set ?kept then ?kept else ?kept @ [k])"
    by (auto simp: distinct_tl split: if_splits)
  then show ?thesis using assms(1) by (simp add: within_cap_def tracked_track Let_def)
qed

text \<open>
  The bookkeeping is bounded: however queries and backfills interleave, no workspace ever has more keys tracked than the cap, and none twice.
\<close>
theorem cache_bounded:
  assumes "(cache_step cap)\<^sup>*\<^sup>* no_cache c" and "0 < cap"
  shows "length (tracked c ws) \<le> cap \<and> distinct (tracked c ws)"
proof -
  have "within_cap cap c" using assms(1)
  proof (induction rule: rtranclp_induct)
    case base
    show ?case by (simp add: within_cap_def no_cache_def tracked_def)
  next
    case (step c d)
    from step.hyps(2) show ?case
    proof cases
      case (started now k)
      then show ?thesis using track_within [OF step.IH assms(2)] by (simp add: within_cap_def tracked_begin)
    next
      case (backfilled ws)
      then show ?thesis using step.IH by (simp add: within_cap_def tracked_backfill)
    qed (use step.IH in \<open>simp add: within_cap_def\<close>)
  qed
  then show ?thesis by (simp add: within_cap_def)
qed

text \<open>Queries that do not overlap with anything: begun and finished in one step.\<close>

definition answer_at_once :: "nat \<Rightarrow> int \<Rightarrow> int \<Rightarrow> cache_key \<Rightarrow> 'a \<Rightarrow> 'a answer_cache \<Rightarrow> 'a answer_cache" where
  "answer_at_once cap now ttl k a c =
     (case query_begin cap now k c of (Started, c1) \<Rightarrow> query_end now ttl k (Some a) c1 | (_, c1) \<Rightarrow> c1)"

inductive calm_step :: "nat \<Rightarrow> 'a answer_cache \<Rightarrow> 'a answer_cache \<Rightarrow> bool" for cap where
  query: "calm_step cap c (answer_at_once cap now ttl k a c)"
| backfilled: "calm_step cap c (handleBackfillCompleted ws c)"

definition entry_keys :: "'a answer_cache \<Rightarrow> cache_key set" where
  "entry_keys c = fst ` set (ca_entries c)"

definition all_tracked :: "'a answer_cache \<Rightarrow> bool" where
  "all_tracked c = (\<forall>k \<in> entry_keys c. k \<in> set (tracked c (fst k)))"

lemma entry_keys_end: "entry_keys (query_end now ttl k (Some a) c) = insert k (entry_keys c)"
  by (simp add: entry_keys_def query_end_def dom_update)

lemma keys_delete: "fst ` set (AList.delete k al) = fst ` set al - {k}"
proof -
  have "set (map fst (AList.delete k al)) = set (removeAll k (map fst al))" by (simp only: delete_keys)
  then show ?thesis by simp
qed

lemma entry_keys_track:
  "entry_keys (trackCacheKey cap ws k c) =
     (let keys = tracked c ws in if cap \<le> length keys \<and> k \<notin> set keys \<and> keys \<noteq> [] then entry_keys c - {hd keys} else entry_keys c)"
  by (simp add: entry_keys_def trackCacheKey_def Let_def keys_delete)

lemma entry_keys_backfill: "entry_keys (handleBackfillCompleted ws c) = entry_keys c - set (tracked c ws)"
  by (force simp: entry_keys_def handleBackfillCompleted_def)

lemma entry_keys_pending [simp]: "entry_keys (c\<lparr>ca_pending := p\<rparr>) = entry_keys c" "tracked (c\<lparr>ca_pending := p\<rparr>) w = tracked c w"
  by (simp_all add: entry_keys_def tracked_def)

lemma tracks_own: "k \<in> set (tracked (trackCacheKey cap (fst k) k c) (fst k))"
  by (simp add: tracked_track Let_def)

lemma track_all_tracked: "all_tracked c \<Longrightarrow> all_tracked (trackCacheKey cap ws k c)"
proof -
  assume a: "all_tracked c"
  let ?keys = "tracked c ws"
  have "x \<in> set (tracked (trackCacheKey cap ws k c) (fst x))" if x: "x \<in> entry_keys (trackCacheKey cap ws k c)" for x
  proof -
    have old: "x \<in> entry_keys c" and
      left: "\<not> (cap \<le> length ?keys \<and> k \<notin> set ?keys \<and> ?keys \<noteq> []) \<or> x \<noteq> hd ?keys"
      using x by (auto simp: entry_keys_track Let_def split: if_splits)
    from a old have "x \<in> set (tracked c (fst x))" by (simp add: all_tracked_def)
    moreover have "x \<in> set (tl ?keys)" if "x \<in> set ?keys" "x \<noteq> hd ?keys" using that by (cases ?keys) auto
    ultimately show ?thesis using left by (auto simp: tracked_track Let_def)
  qed
  then show ?thesis by (simp add: all_tracked_def)
qed

lemma calm_all_tracked: "calm_step cap c d \<Longrightarrow> all_tracked c \<Longrightarrow> all_tracked d"
proof (induction rule: calm_step.induct)
  case (query c now ttl k a)
  let ?c1 = "trackCacheKey cap (fst k) k c"
  have t: "all_tracked ?c1" using query by (rule track_all_tracked)
  have own: "k \<in> set (tracked ?c1 (fst k))" by (rule tracks_own)
  show ?case using t own
    by (auto simp: answer_at_once_def query_begin_def Let_def all_tracked_def entry_keys_end split: option.splits)
next
  case (backfilled c ws)
  then show ?case by (auto simp: all_tracked_def tracked_backfill entry_keys_backfill)
qed

text \<open>
  Without overlapping, a backfill clears all it has to: as long as queries and backfills run one after another, no answer for the workspace
  survives the backfill's completion, whatever was evicted before.
\<close>
theorem backfill_clears:
  assumes "(calm_step cap)\<^sup>*\<^sup>* no_cache c"
  shows "cache_get now (handleBackfillCompleted ws c) (ws, h) = None"
proof -
  have "all_tracked c" using assms
  proof (induction rule: rtranclp_induct)
    case base
    show ?case by (simp add: all_tracked_def no_cache_def entry_keys_def)
  qed (rule calm_all_tracked)
  then have "(ws, h) \<in> set (tracked c ws)" if "(ws, h) \<in> fst ` set (ca_entries c)" using that by (fastforce simp: all_tracked_def entry_keys_def)
  then have "map_of (filter (\<lambda>(k, _). k \<notin> set (tracked c ws)) (ca_entries c)) (ws, h) = None" by (fastforce simp: map_of_eq_None_iff)
  then show ?thesis by (simp add: cache_get_def handleBackfillCompleted_def)
qed

text \<open>
  A query that is running while a backfill completes brings its old answer back: it is stored after the clearing, under a key that is no longer
  tracked, so that it is served until it expires and not even a second backfill clears it.
\<close>
theorem running_query_revives_stale:
  assumes "query_begin cap now k c = (Started, c1)" and "c2 = query_end later ttl k (Some a) (handleBackfillCompleted (fst k) c1)"
    and "at_time < later + ttl"
  shows "cache_get at_time c2 k = Some a \<and> cache_get at_time (handleBackfillCompleted (fst k) c2) k = Some a"
proof -
  have "tracked c2 (fst k) = []" by (simp add: assms(2) tracked_backfill)
  then show ?thesis using assms(3)
    by (simp add: assms(2) query_end_def cache_get_def handleBackfillCompleted_def update_conv' tracked_def)
qed

subsection \<open>Cache keys\<close>

lemma text_le_antisym: "text_le s t \<Longrightarrow> text_le t s \<Longrightarrow> s = t"
  by (induction s t rule: text_le.induct) (auto elim: text_le.elims)

lemma text_le_total: "text_le s t \<or> text_le t s"
proof (induction s t rule: text_le.induct)
  case (3 c s d t)
  have "c = d" if "(of_char c :: nat) = of_char d" using that by (rule char_eqI)
  with 3 show ?case by (cases "(of_char c :: nat)" "of_char d :: nat" rule: linorder_cases) auto
qed simp_all

lemma text_sort_two: "text_sort [a, b] = text_sort [b, a]"
  using text_le_total [of a b] text_le_antisym [of a b] by (auto simp: text_sort_def)

text \<open>
  The key forgets the order of the metrics, the query does not: two requests that differ only in it share an answer, although their queries are
  sorted, and so cut off, by different metrics.
\<close>
theorem key_forgets_metric_order:
  assumes "ar_query dto = q" and "aq_order q = None" and "a \<noteq> b"
  shows "generateCacheKey jx digest (dto\<lparr>ar_query := q\<lparr>aq_metrics := [a, b]\<rparr>\<rparr>) s e tz =
       generateCacheKey jx digest (dto\<lparr>ar_query := q\<lparr>aq_metrics := [b, a]\<rparr>\<rparr>) s e tz \<and>
     order_by (q\<lparr>aq_metrics := [a, b]\<rparr>) [] \<noteq> order_by (q\<lparr>aq_metrics := [b, a]\<rparr>) []"
proof
  have t: "the_table (q\<lparr>aq_metrics := ms\<rparr>) = the_table q" for ms by (simp add: the_table_def)
  show "generateCacheKey jx digest (dto\<lparr>ar_query := q\<lparr>aq_metrics := [a, b]\<rparr>\<rparr>) s e tz =
      generateCacheKey jx digest (dto\<lparr>ar_query := q\<lparr>aq_metrics := [b, a]\<rparr>\<rparr>) s e tz"
    by (simp add: generateCacheKey_def Let_def t text_sort_two [of a b])
  have "order_by (q\<lparr>aq_metrics := m # ms\<rparr>) [] = Inr (''ORDER BY '' @ m @ '' DESC'')" for m ms
    using assms(2) by (simp add: order_by_def projected_order_def)
  then show "order_by (q\<lparr>aq_metrics := [a, b]\<rparr>) [] \<noteq> order_by (q\<lparr>aq_metrics := [b, a]\<rparr>) []" using assms(3) by simp
qed

subsection \<open>Requests\<close>

text \<open>
  A well-formed request is answered, and a series without dimensions has one row for each date of its range, whatever the database found.
\<close>
theorem request_answered:
  assumes "request_ok (ae_valid_tz env) (ar_query dto) (Some tz)" and "ar_compare dto = None"
    and "aq_granularity (ar_query dto) = Some g" and "aq_dimensions (ar_query dto) = []"
    and "dr_preset (ar_range dto) = Some p" and "p \<noteq> []" and "ae_preset env p tz = (s, e)" and "\<not> js_includes s ''T''" and "\<not> js_includes e ''T''"
    and "s \<noteq> []" and "e \<noteq> []"
  shows "\<exists>an. executeQuery env bounce dto tz = Inr an \<and> an_total_rows an = length (ae_dates env g s e tz) \<and> length (an_current an) = an_total_rows an"
proof -
  let ?q = "(ar_query dto)\<lparr>aq_start := JStr s, aq_end := JStr e\<rparr>"
  have fields: "aq_metrics ?q = aq_metrics (ar_query dto)" "the_table ?q = the_table (ar_query dto)" by (simp_all add: the_table_def)
  have "request_ok (ae_valid_tz env) ?q (Some tz)" using assms(1) by (simp add: request_ok_def the_table_def)
  from request_builds [OF this] obtain sql bs where b:
    "buildAnalyticsQuery (ae_tpl env) (ae_valid_tz env) ?q (Some tz) (Some \<lparr>bounce_threshold = js_nullish bounce 10\<rparr>) = Inr (sql, bs)" by blast
  have "\<exists>ys. res_map (lookup_metric (the_table (ar_query dto))) (aq_metrics (ar_query dto)) = Inr ys"
    using request_metric [OF assms(1)] by (intro res_map_total)
  moreover have "\<exists>ys. res_map (\<lambda>f. lookup_metric (the_table (ar_query dto)) (mq_metric f)) (aq_metric_filters (ar_query dto)) = Inr ys"
    using assms(1) by (intro res_map_total) (simp add: request_ok_def list_all_iff)
  ultimately have v: "validate_names (ar_query dto) = Inr ()" using assms(4) by (auto simp: validate_names_def Let_def)
  have r: "resolve_range env tz (ar_range dto) = (Some s, Some e)"
    using assms(5-9) by (simp add: resolve_range_def to_clickhouse_def)
  show ?thesis
    using assms(2,3,4,10,11) b
    by (simp add: executeQuery_def r v Let_def date_value_def bad_request_def crash_def fill_series_def fillGaps_def fill_plain_def)
qed

text \<open>
  A filter on an unknown dimension is not the caller's error here: names of metrics and dimensions are checked and refused as bad requests, those of
  filters are not, and the query builder's error ends as an internal one.
\<close>
theorem unknown_filter_crashes:
  assumes "validate_names (ar_query dto) = Inr ()" and "aq_filters (ar_query dto) = [f]" and "dimension_of (fq_dimension f) = None"
    and "aq_granularity (ar_query dto) = None" and "aq_totals_group_by (ar_query dto) = []"
  shows "executeQuery env bounce dto tz = Inl (Crash (''Unknown dimension: '' @ fq_dimension f))"
proof -
  obtain s e where r: "resolve_range env tz (ar_range dto) = (s, e)" by (cases "resolve_range env tz (ar_range dto)")
  let ?q = "ar_query dto"
  have t: "the_table (?q\<lparr>aq_start := a, aq_end := b\<rparr>) = the_table ?q" for a b by (simp add: the_table_def)
  have f: "buildFilters tpl [f] pre tb = Inl (''Unknown dimension: '' @ fq_dimension f)" for tpl pre tb
    using assms(3) by (simp add: buildFilters_def lookup_dimension_def)
  have names: "\<exists>ys. res_map (lookup_metric (the_table ?q)) (aq_metrics ?q) = Inr ys" "\<exists>ys. res_map (lookup_dimension (the_table ?q)) (aq_dimensions ?q) = Inr ys"
    using assms(1) by (auto simp: validate_names_def Let_def res_simps)
  have "\<exists>y. metric_select (the_table ?q) c m = Inr y" if "m \<in> set (aq_metrics ?q)" for c m
    using names(1) that res_map_Inr_all by (fastforce simp: metric_select_def)
  then have ms: "\<exists>ys. res_map (metric_select (the_table ?q) c) (aq_metrics ?q) = Inr ys" for c by (intro res_map_total)
  obtain ys zs where y: "res_map (metric_select (the_table ?q) \<lparr>bounce_threshold = js_nullish bounce 10\<rparr>) (aq_metrics ?q) = Inr ys"
    and z: "res_map (lookup_dimension (the_table ?q)) (aq_dimensions ?q) = Inr zs" using ms names(2) by blast
  have g: "granularity_parts v (?q\<lparr>aq_start := a, aq_end := b\<rparr>) w = Inr ([], [])" for v a b w
    using assms(4) by (simp add: granularity_parts_def)
  have "buildAnalyticsQuery (ae_tpl env) (ae_valid_tz env) (?q\<lparr>aq_start := a, aq_end := b\<rparr>) (Some tz) (Some \<lparr>bounce_threshold = js_nullish bounce 10\<rparr>) =
      Inl (''Unknown dimension: '' @ fq_dimension f)" for a b
    using assms(2,5) by (simp add: buildAnalyticsQuery_def Let_def t y z g f default_context_def)
  then show ?thesis using assms(1) by (simp add: executeQuery_def r Let_def bad_request_def crash_def)
qed

text \<open>An instant without a zone loses its last digit on the way to the database.\<close>

lemma iso_without_zone: "isoToClickHouseDateTime ''2026-01-05T10:30'' = ''2026-01-05 10:3''"
  by (simp add: isoToClickHouseDateTime_def)

subsection \<open>Funnels and conversions\<close>

lemma round2_mono: "x \<le> y \<Longrightarrow> round2 x \<le> round2 y"
  by (simp add: round2_def divide_right_mono floor_mono)

lemma round2_bounds: "0 \<le> x \<Longrightarrow> x \<le> 100 \<Longrightarrow> 0 \<le> round2 x \<and> round2 x \<le> 100"
proof -
  assume "0 \<le> x" "x \<le> 100"
  then have "round2 0 \<le> round2 x" "round2 x \<le> round2 100" by (simp_all add: round2_mono)
  moreover have "\<lfloor>1 / 2 :: real\<rfloor> = 0" "\<lfloor>10000 + 1 / 2 :: real\<rfloor> = 10000" by linarith+
  ultimately show ?thesis by (simp add: round2_def)
qed

lemma rate_bounds: "0 \<le> n \<Longrightarrow> n \<le> d \<Longrightarrow> 0 \<le> rate n d \<and> rate n d \<le> 100"
  by (simp add: rate_def round2_bounds divide_le_eq)

lemma rate_mono: "m \<le> n \<Longrightarrow> rate m d \<le> rate n d"
  by (simp add: rate_def round2_mono divide_right_mono)

definition step_count :: "(jsval \<Rightarrow> real option) \<Rightarrow> jsobject \<Rightarrow> nat \<Rightarrow> real" where
  "step_count to_number row i = row_number to_number (js_get row (''s'' @ js_of_nat i))"

lemma funnel_nth:
  "i < length steps \<Longrightarrow> buildFunnelSteps to_number steps row ! i =
     \<lparr>fr_step = i + 1, fr_goal_name = fs_goal_name (steps ! i),
      fr_label = (if js_truthy (fs_label (steps ! i)) then the (fs_label (steps ! i)) else fs_goal_name (steps ! i)),
      fr_count = step_count to_number row i, fr_value = round2 (row_number to_number (js_get row (''v'' @ js_of_nat i))),
      fr_from_previous = (if i = 0 then None else Some (rate (step_count to_number row i) (step_count to_number row (i - 1)))),
      fr_from_start = rate (step_count to_number row i) (step_count to_number row 0),
      fr_dropoff = (if i = 0 then 0 else max 0 (step_count to_number row (i - 1) - step_count to_number row i))\<rparr>"
proof -
  assume i: "i < length steps"
  then have "0 < length steps" "i - Suc 0 < length steps" by linarith+
  with i show ?thesis
    by (simp add: buildFunnelSteps_def Let_def nth_enumerate_eq step_count_def nth_map [of 0] nth_upt [of 0 "i - Suc 0", simplified])
qed

lemma funnel_length [simp]: "length (buildFunnelSteps to_number steps row) = length steps"
  by (simp add: buildFunnelSteps_def Let_def)

text \<open>
  A funnel whose counts do not grow from step to step, as those of a window funnel do not, has rates between 0 and 100, the rate from the start
  never grows, and the drop-offs add up to what was lost between the first step and the last.
\<close>
theorem funnel_rates:
  assumes "steps \<noteq> []" and "\<And>i. Suc i < length steps \<Longrightarrow> step_count to_number row (Suc i) \<le> step_count to_number row i"
    and "\<And>i. 0 \<le> step_count to_number row i" and "rs = buildFunnelSteps to_number steps row" and "i < length steps" and "j \<le> i"
  shows "0 \<le> fr_from_start (rs ! i) \<and> fr_from_start (rs ! i) \<le> fr_from_start (rs ! j) \<and> fr_from_start (rs ! j) \<le> 100 \<and>
     (case fr_from_previous (rs ! i) of None \<Rightarrow> i = 0 | Some r \<Rightarrow> 0 \<le> r \<and> r \<le> 100) \<and>
     sum_list (map fr_dropoff rs) = fr_count (hd rs) - fr_count (last rs)"
proof -
  let ?c = "step_count to_number row"
  have anti: "?c b \<le> ?c a" if "a \<le> b" "b < length steps" for a b
    using that by (induction b rule: dec_induct) (auto intro: order_trans [OF assms(2)])
  have start: "0 \<le> rate (?c b) (?c 0) \<and> rate (?c b) (?c 0) \<le> 100" if "b < length steps" for b
    using anti [of 0 b] that assms(3) by (intro rate_bounds) auto
  have prev: "case fr_from_previous (rs ! i) of None \<Rightarrow> i = 0 | Some r \<Rightarrow> 0 \<le> r \<and> r \<le> 100"
    using anti [of "i - 1" i] assms(3,4,5) rate_bounds [of "?c i" "?c (i - 1)"] by (simp add: funnel_nth)
  have drops: "sum_list (map fr_dropoff rs) = (\<Sum>k<length steps. fr_dropoff (rs ! k))"
    by (simp add: assms(4) sum_list_sum_nth lessThan_atLeast0)
  have sums: "(\<Sum>k<Suc n. fr_dropoff (rs ! k)) = ?c 0 - ?c n" if "n < length steps" for n
    using that anti by (induction n) (auto simp: assms(4) funnel_nth max_def)
  obtain n where n: "length steps = Suc n" using assms(1) by (cases steps) auto
  have "hd rs = rs ! 0" "last rs = rs ! n" using n assms(4) by (auto simp: hd_conv_nth last_conv_nth simp flip: length_0_conv)
  then have "sum_list (map fr_dropoff rs) = fr_count (hd rs) - fr_count (last rs)"
    using drops sums [of n] n assms(4) by (simp add: funnel_nth)
  moreover have "rate (?c i) (?c 0) \<le> rate (?c j) (?c 0)" using anti [OF assms(6,5)] by (rule rate_mono)
  ultimately show ?thesis using start [OF assms(5)] start [of j] assms(4,5,6) prev by (simp add: funnel_nth)
qed

text \<open>The rate of a channel is between 0 and 100, even where more conversions than sessions are stored, and 0 without sessions.\<close>
theorem conversion_rate_bounds:
  assumes "r \<in> set (conversion_rows to_number conv sess)" and "0 \<le> cv_conversions r"
  shows "0 \<le> cv_rate r \<and> cv_rate r \<le> 100 \<and> (cv_sessions r \<le> 0 \<longrightarrow> cv_rate r = 0)"
proof -
  have "cv_rate r = (if 0 < cv_sessions r then min (rate (cv_conversions r) (cv_sessions r)) 100 else 0)"
    using assms(1) by (auto simp: conversion_rows_def Let_def)
  moreover have "0 \<le> rate (cv_conversions r) (cv_sessions r)"
    using rate_mono [of 0 "cv_conversions r" "cv_sessions r"] assms(2) rate_bounds [of 0 "cv_sessions r"] by (fastforce simp: rate_def round2_bounds)
  ultimately show ?thesis by simp
qed

subsection \<open>Witnesses\<close>

definition plain_env :: analytics_env where
  "plain_env = \<lparr>ae_preset = (\<lambda>_ _. (''a'', ''b'')), ae_shift = (\<lambda>_ _. (''a'', ''b'')), ae_run = (\<lambda>_ _. []), ae_dates = (\<lambda>_ _ _ _. [''d0'', ''d1'']),
     ae_date_key = (\<lambda>_ _. ''d0''), ae_shown = (\<lambda>_. []), ae_tpl = (\<lambda>_. []), ae_valid_tz = (\<lambda>_. True)\<rparr>"

definition plain_request :: "granularity option \<Rightarrow> filter_dto list \<Rightarrow> analytics_request" where
  "plain_request g fs = \<lparr>ar_workspace_id = ''w'', ar_query = sample_query\<lparr>aq_dimensions := [], aq_granularity := g, aq_filters := fs, aq_metric_filters := []\<rparr>,
     ar_range = \<lparr>dr_start = None, dr_end = None, dr_preset = Some ''today''\<rparr>, ar_compare = None, ar_timezone = None\<rparr>"

lemma plain_request_names: "\<exists>x. lookup_metric (the_table (ar_query (plain_request g fs))) ''sessions'' = Inr x"
  using sample_names(2) by (simp add: plain_request_def sample_query_def the_table_def)

lemma request_answered_witness:
  "\<exists>an. executeQuery plain_env None (plain_request (Some G_day) []) ''UTC'' = Inr an \<and> an_total_rows an = 2"
proof -
  have ok: "request_ok (ae_valid_tz plain_env) (ar_query (plain_request (Some G_day) [])) (Some ''UTC'')"
    using plain_request_names [of "Some G_day" "[]"] by (simp add: request_ok_def plain_request_def sample_query_def the_table_def)
  have "\<exists>an. executeQuery plain_env None (plain_request (Some G_day) []) ''UTC'' = Inr an \<and>
      an_total_rows an = length (ae_dates plain_env G_day ''a'' ''b'' ''UTC'') \<and> length (an_current an) = an_total_rows an"
    by (rule request_answered [OF ok, where p = "''today''"]) (simp_all add: plain_request_def plain_env_def js_starts_with_def)
  then show ?thesis by (auto simp: plain_env_def)
qed

lemma unknown_filter_crashes_witness:
  "executeQuery plain_env None (plain_request None [\<lparr>fq_dimension = ''x'', fq_operator = F_isNull, fq_values = None\<rparr>]) ''UTC'' =
     Inl (Crash ''Unknown dimension: x'')"
proof -
  let ?f = "\<lparr>fq_dimension = ''x'', fq_operator = F_isNull, fq_values = None\<rparr>"
  have "validate_names (ar_query (plain_request None [?f])) = Inr ()"
    using plain_request_names [of None "[?f]"] by (auto simp: validate_names_def Let_def plain_request_def sample_query_def)
  moreover have "dimension_of ''x'' = None"
    by (simp add: dimension_of_def DIMENSIONS_def DIMENSIONS_1_def DIMENSIONS_2_def DIMENSIONS_3_def DIMENSIONS_4_def dim_def)
  ultimately show ?thesis using unknown_filter_crashes [of "plain_request None [?f]" ?f plain_env None "''UTC''"] by (simp add: plain_request_def sample_query_def)
qed

lemma cache_bounded_witness:
  "length (tracked (snd (query_begin 1 0 (''w'', ''h'') (no_cache :: nat answer_cache))) ''w'') \<le> 1"
proof -
  have "(cache_step 1)\<^sup>*\<^sup>* (no_cache :: nat answer_cache) (snd (query_begin 1 0 (''w'', ''h'') no_cache))"
    by (rule r_into_rtranclp) (rule cache_step.started)
  from cache_bounded [OF this, of "''w''"] show ?thesis by simp
qed

lemma backfill_clears_witness:
  "cache_get 0 (handleBackfillCompleted ''w'' (answer_at_once 9 0 60 (''w'', ''h'') (5 :: nat) no_cache)) (''w'', ''h'') = None"
proof -
  have "(calm_step 9)\<^sup>*\<^sup>* no_cache (answer_at_once 9 0 60 (''w'', ''h'') (5 :: nat) no_cache)"
    by (rule r_into_rtranclp) (rule calm_step.query)
  from backfill_clears [OF this] show ?thesis .
qed

lemma running_query_revives_stale_witness:
  "cache_get 7 (query_end 2 60 (''w'', ''h'') (Some (5 :: nat)) (handleBackfillCompleted ''w'' (snd (query_begin 9 0 (''w'', ''h'') no_cache)))) (''w'', ''h'') = Some 5"
proof -
  have "query_begin 9 0 (''w'', ''h'') (no_cache :: nat answer_cache) = (Started, snd (query_begin 9 0 (''w'', ''h'') no_cache))"
    by (simp add: query_begin_def trackCacheKey_def cache_get_def no_cache_def tracked_def Let_def)
  from running_query_revives_stale [OF this refl, of 7 2 60 5] show ?thesis by simp
qed

lemma key_forgets_metric_order_witness:
  "order_by (sample_query\<lparr>aq_metrics := [''sessions'', ''bounce_rate'']\<rparr>) [] \<noteq> order_by (sample_query\<lparr>aq_metrics := [''bounce_rate'', ''sessions'']\<rparr>) []"
  using key_forgets_metric_order [where dto = "(plain_request None [])\<lparr>ar_query := sample_query\<rparr>" and q = sample_query and a = "''sessions''" and b = "''bounce_rate''"]
  by (simp add: sample_query_def)

definition sample_counts :: jsobject where
  "sample_counts = [''s0'' \<mapsto> JNum 8, ''s1'' \<mapsto> JNum 2]"

lemma js_of_nat_shown: "js_of_nat 0 = ''0''" "js_of_nat 1 = ''1''"
  by code_simp+

lemma funnel_rates_witness:
  "fr_from_start (buildFunnelSteps (\<lambda>_. None) [\<lparr>fs_goal_name = ''a'', fs_label = None\<rparr>, \<lparr>fs_goal_name = ''b'', fs_label = None\<rparr>] sample_counts ! 1) \<le> 100"
proof -
  let ?c = "step_count (\<lambda>_. None) sample_counts"
  have "0 \<le> ?c i" for i by (auto simp: step_count_def row_number_def js_get_def js_nullish_def sample_counts_def split: option.splits)
  moreover have "?c (Suc i) \<le> ?c i" if "Suc i < 2" for i
    using that js_of_nat_shown by (auto simp: less_2_cases_iff step_count_def row_number_def sample_counts_def)
  ultimately show ?thesis
    using funnel_rates [where steps = "[\<lparr>fs_goal_name = ''a'', fs_label = None\<rparr>, \<lparr>fs_goal_name = ''b'', fs_label = None\<rparr>]" and i = 1 and j = 1
        and row = sample_counts and to_number = "\<lambda>_. None", OF _ _ _ refl]
    by simp
qed

lemma conversion_rate_bounds_witness:
  "cv_rate (hd (conversion_rows (\<lambda>_. None) [[''channel_group'' \<mapsto> JStr ''ads'', ''conversions'' \<mapsto> JNum 9]] [[''channel_group'' \<mapsto> JStr ''ads'', ''sessions'' \<mapsto> JNum 3]])) \<le> 100"
proof -
  let ?rs = "conversion_rows (\<lambda>_. None) [[''channel_group'' \<mapsto> JStr ''ads'', ''conversions'' \<mapsto> JNum 9]] [[''channel_group'' \<mapsto> JStr ''ads'', ''sessions'' \<mapsto> JNum 3]]"
  have "hd ?rs \<in> set ?rs" "0 \<le> cv_conversions (hd ?rs)" by (simp_all add: conversion_rows_def row_number_def)
  from conversion_rate_bounds [OF this] show ?thesis by simp
qed

end
