(* ===== verification/Calendar.thy ===== *)
theory Calendar
  imports Prelude
begin

text \<open>
  The UTC calendar of ECMAScript dates: an instant is a number of milliseconds since 1970, a day a number of days since
  then, and a date the year, month and day of the month that \<open>getUTCFullYear\<close>, \<open>getUTCMonth\<close> and \<open>getUTCDate\<close> read.
  The proleptic Gregorian rules are those of the language's standard; a day is recovered from its date, which makes the
  textual forms of a date injective.
\<close>

definition ms_per_day :: int where
  "ms_per_day = 86400000"

definition day_of_ms :: "int \<Rightarrow> int" where
  "day_of_ms t = t div ms_per_day"

definition day_start :: "int \<Rightarrow> int" where
  "day_start d = d * ms_per_day"

lemma div_bounds: "0 < (c::int) \<Longrightarrow> c * (x div c) \<le> x \<and> x < c * (x div c) + c"
proof -
  assume c: "0 < c"
  have "x = c * (x div c) + x mod c" by simp
  moreover have "0 \<le> x mod c" "x mod c < c" using c by simp_all
  ultimately show ?thesis by linarith
qed

lemma div_succ: "0 < (c::int) \<Longrightarrow> (x + 1) div c = x div c + (if (x + 1) mod c = 0 then 1 else 0)"
proof -
  assume c: "0 < c"
  have x: "x + 1 = c * (x div c) + (x mod c + 1)" by simp
  have m: "0 \<le> x mod c" "x mod c < c" using c by simp_all
  show ?thesis
  proof (cases "x mod c + 1 = c")
    case True
    then have "x + 1 = c * (x div c + 1)" using x by (simp add: distrib_left)
    then show ?thesis using c by simp
  next
    case False
    with m have "0 \<le> x mod c + 1" "x mod c + 1 < c" by linarith+
    then have "(x + 1) div c = x div c" "(x + 1) mod c = x mod c + 1"
      using x c by (metis div_mult_self4 div_pos_pos_trivial add_0_right less_irrefl add.commute, metis mod_mult_self4 mod_pos_pos_trivial)
    then show ?thesis using m by simp
  qed
qed

lemma day_of_start [simp]: "day_of_ms (day_start d) = d"
  by (simp add: day_of_ms_def day_start_def ms_per_day_def)

lemma day_of_ms_bounds: "day_start (day_of_ms t) \<le> t" "t < day_start (day_of_ms t + 1)"
  using div_bounds [of ms_per_day t] by (simp_all add: day_of_ms_def day_start_def ms_per_day_def algebra_simps)

lemma day_of_ms_mono: "s \<le> t \<Longrightarrow> day_of_ms s \<le> day_of_ms t"
  by (simp add: day_of_ms_def ms_per_day_def zdiv_mono1)

lemma day_of_ms_nonneg: "0 \<le> t \<Longrightarrow> 0 \<le> day_of_ms t"
  unfolding day_of_ms_def by (rule div_int_pos_iff [THEN iffD2]) (simp add: ms_per_day_def)

subsection \<open>Years\<close>

definition day_from_year :: "int \<Rightarrow> int" where
  "day_from_year y = 365 * (y - 1970) + (y - 1969) div 4 - (y - 1901) div 100 + (y - 1601) div 400"

definition leap_year :: "int \<Rightarrow> bool" where
  "leap_year y \<longleftrightarrow> y mod 4 = 0 \<and> (y mod 100 \<noteq> 0 \<or> y mod 400 = 0)"

definition year_of_day :: "int \<Rightarrow> int" where
  "year_of_day d =
     (let y = 1970 + d * 400 div 146097
      in if d < day_from_year y then y - 1 else if day_from_year (y + 1) \<le> d then y + 1 else y)"

lemma year_div:
  assumes "0 < (c::int)" and "c dvd k" and "k' = k + 1"
  shows "(y - k) div c = (y - k') div c + (if y mod c = 0 then 1 else 0)"
proof -
  have "(y - k) mod c = 0 \<longleftrightarrow> y mod c = 0"
    using assms(2) dvd_diff [of c "y - k" "- k"] by (auto simp: mod_eq_0_iff_dvd)
  then show ?thesis using div_succ [OF assms(1), of "y - (k + 1)"] by (simp add: assms(3) algebra_simps)
qed

lemma year_step:
  assumes "a' = a + (if P then 1 else (0::int))" "b' = b + (if Q then 1 else 0)" "c' = c + (if R then 1 else 0)"
    and "R \<Longrightarrow> Q" and "Q \<Longrightarrow> P"
  shows "365 * (z + 1) + a' - b' + c' = 365 * z + a - b + c + (if P \<and> (\<not> Q \<or> R) then 366 else 365)"
  unfolding assms(1-3) using assms(4,5) by (cases P; cases Q; cases R) auto

lemma year_length: "day_from_year (y + 1) = day_from_year y + (if leap_year y then 366 else 365)"
proof -
  have "(y - 1968) div 4 = (y - 1969) div 4 + (if y mod 4 = 0 then 1 else 0)"
    "(y - 1900) div 100 = (y - 1901) div 100 + (if y mod 100 = 0 then 1 else 0)"
    "(y - 1600) div 400 = (y - 1601) div 400 + (if y mod 400 = 0 then 1 else 0)"
    by (rule year_div; simp)+
  moreover have "y mod 400 = 0 \<Longrightarrow> y mod 100 = 0" "y mod 100 = 0 \<Longrightarrow> y mod 4 = 0"
    unfolding mod_eq_0_iff_dvd by (erule dvd_trans [rotated]; simp)+
  ultimately have "365 * (y - 1970 + 1) + (y - 1968) div 4 - (y - 1900) div 100 + (y - 1600) div 400
      = 365 * (y - 1970) + (y - 1969) div 4 - (y - 1901) div 100 + (y - 1601) div 400 + (if leap_year y then 366 else 365)"
    unfolding leap_year_def by (rule year_step)
  moreover have "y + 1 - 1970 = y - 1970 + 1" "y + 1 - 1969 = y - 1968" "y + 1 - 1901 = y - 1900" "y + 1 - 1601 = y - 1600"
    by simp_all
  ultimately show ?thesis unfolding day_from_year_def by (simp only:)
qed

lemma day_from_year_bounds:
  "146097 * (y - 1970) - 506 \<le> 400 * day_from_year y" "400 * day_from_year y \<le> 146097 * (y - 1970) + 589"
proof -
  have "4 * ((y - 1969) div 4) \<le> y - 1969" "y - 1969 \<le> 4 * ((y - 1969) div 4) + 3"
    "100 * ((y - 1901) div 100) \<le> y - 1901" "y - 1901 \<le> 100 * ((y - 1901) div 100) + 99"
    "400 * ((y - 1601) div 400) \<le> y - 1601" "y - 1601 \<le> 400 * ((y - 1601) div 400) + 399"
    using div_bounds [of 4 "y - 1969"] div_bounds [of 100 "y - 1901"] div_bounds [of 400 "y - 1601"] by simp_all
  then show "146097 * (y - 1970) - 506 \<le> 400 * day_from_year y" "400 * day_from_year y \<le> 146097 * (y - 1970) + 589"
    by (simp_all add: day_from_year_def algebra_simps)
qed

text \<open>The year of a day is the one whose first day is not after it and whose successor's is.\<close>

lemma year_of_day_bounds: "day_from_year (year_of_day d) \<le> d" "d < day_from_year (year_of_day d + 1)"
proof -
  define y where "y = 1970 + d * 400 div 146097"
  have q: "146097 * (y - 1970) \<le> d * 400" "d * 400 < 146097 * (y - 1970) + 146097"
    using div_bounds [of 146097 "d * 400"] by (simp_all add: y_def)
  have lo: "day_from_year (y - 1) \<le> d"
    using day_from_year_bounds(2) [of "y - 1"] q by (simp add: algebra_simps)
  have hi: "d < day_from_year (y + 2)"
    using day_from_year_bounds(1) [of "y + 2"] q by (simp add: algebra_simps)
  have two: "day_from_year (y + 1 + 1) = day_from_year (y + 2)" by (simp add: add.assoc)
  show "day_from_year (year_of_day d) \<le> d"
    using lo by (auto simp: year_of_day_def y_def [symmetric] Let_def)
  show "d < day_from_year (year_of_day d + 1)"
    using hi two by (auto simp: year_of_day_def y_def [symmetric] Let_def)
qed

subsection \<open>Months\<close>

definition month_lengths :: "bool \<Rightarrow> int list" where
  "month_lengths leap = [31, if leap then 29 else 28, 31, 30, 31, 30, 31, 31, 30, 31, 30, 31]"

fun split_months :: "int \<Rightarrow> int list \<Rightarrow> nat \<times> int" where
  "split_months r [] = (0, r)"
| "split_months r (l # ls) = (if r < l then (0, r) else (case split_months (r - l) ls of (m, d) \<Rightarrow> (Suc m, d)))"

lemma split_months_sum:
  "split_months r ls = (m, d) \<Longrightarrow> r = sum_list (take m ls) + d"
  by (induction r ls arbitrary: m d rule: split_months.induct) (auto split: if_splits prod.splits)

lemma split_months_bounds:
  "split_months r ls = (m, d) \<Longrightarrow> 0 \<le> r \<Longrightarrow> r < sum_list ls \<Longrightarrow> m < length ls \<and> 0 \<le> d \<and> d < ls ! m"
  by (induction r ls arbitrary: m d rule: split_months.induct) (auto split: if_splits prod.splits)

type_synonym utc_date = "int \<times> nat \<times> nat"

definition utc_date_of :: "int \<Rightarrow> utc_date" where
  "utc_date_of d =
     (let y = year_of_day d; (m, r) = split_months (d - day_from_year y) (month_lengths (leap_year y))
      in (y, m + 1, nat r + 1))"

definition day_of_date :: "utc_date \<Rightarrow> int" where
  "day_of_date ymd = (case ymd of (y, m, d) \<Rightarrow>
     day_from_year y + sum_list (take (m - 1) (month_lengths (leap_year y))) + int d - 1)"

lemma month_lengths_le: "l \<in> set (month_lengths b) \<Longrightarrow> l \<le> 31"
  by (auto simp: month_lengths_def split: if_splits)

lemma month_lengths_sum [simp]: "sum_list (month_lengths b) = (if b then 366 else 365)" "length (month_lengths b) = 12"
  by (auto simp: month_lengths_def)

lemma utc_date_bounds:
  assumes "utc_date_of d = (y, m, k)"
  shows "1 \<le> m" "m \<le> 12" "1 \<le> k" "k \<le> 31" "y = year_of_day d" "day_of_date (y, m, k) = d"
proof -
  define ls where "ls = month_lengths (leap_year (year_of_day d))"
  obtain i r where s: "split_months (d - day_from_year (year_of_day d)) ls = (i, r)" by fastforce
  have ymk: "y = year_of_day d" "m = i + 1" "k = nat r + 1"
    using assms s by (auto simp: utc_date_of_def ls_def Let_def)
  have "d - day_from_year (year_of_day d) < sum_list ls"
    using year_of_day_bounds(2) [of d] by (simp add: ls_def year_length)
  with s year_of_day_bounds(1) [of d] have b: "i < length ls" "0 \<le> r" "r < ls ! i"
    using split_months_bounds [OF s] by auto
  then have "ls ! i \<le> 31" using month_lengths_le nth_mem unfolding ls_def by blast
  with b ymk show "1 \<le> m" "m \<le> 12" "1 \<le> k" "k \<le> 31" by (auto simp: ls_def)
  show "y = year_of_day d" by (rule ymk)
  show "day_of_date (y, m, k) = d"
    using split_months_sum [OF s] b ymk by (simp add: day_of_date_def ls_def)
qed

lemma day_of_utc_date [simp]: "day_of_date (utc_date_of d) = d"
  by (cases "utc_date_of d") (use utc_date_bounds(6) in auto)

subsection \<open>Textual forms\<close>

text \<open>\<open>String(n).padStart(w, '0')\<close>.\<close>

definition pad_start :: "nat \<Rightarrow> nat \<Rightarrow> string" where
  "pad_start w n = (let s = js_of_nat n in replicate (w - length s) CHR ''0'' @ s)"

lemma digits_value_zeros [simp]: "digits_value (replicate n CHR ''0'' @ s) = digits_value s"
proof (induction s rule: rev_induct)
  case Nil
  show ?case
  proof (induction n)
    case (Suc n)
    have "replicate (Suc n) CHR ''0'' = replicate n CHR ''0'' @ [CHR ''0'']" by (simp add: replicate_append_same)
    moreover have "digits_value (replicate n CHR ''0'') = 0" using Suc by simp
    ultimately show ?case by (simp only: append_Nil2 digits_value_snoc) simp
  qed simp
next
  case (snoc c s)
  have "replicate n CHR ''0'' @ s @ [c] = (replicate n CHR ''0'' @ s) @ [c]" by simp
  then show ?case using snoc by (simp only: digits_value_snoc)
qed

lemma pad_start_value [simp]: "digits_value (pad_start w n) = n"
  by (simp add: pad_start_def Let_def)

lemma pad_start_inject [simp]: "pad_start w m = pad_start w n \<longleftrightarrow> m = n"
  by (metis pad_start_value)

lemma js_of_nat_length_2: "n < 100 \<Longrightarrow> length (js_of_nat n) \<le> 2"
proof -
  assume "n < 100"
  then have "n div 10 < 10" by simp
  then show ?thesis using js_of_nat.simps [of n] js_of_nat.simps [of "n div 10"] by simp
qed

lemma pad_start_length: "n < 100 \<Longrightarrow> length (pad_start 2 n) = 2"
  using js_of_nat_length_2 [of n] by (simp add: pad_start_def Let_def)

text \<open>The date part of \<open>toISOString\<close>: four digits for the years 0 to 9999, a sign and six digits for the others.\<close>

definition iso_year :: "int \<Rightarrow> string" where
  "iso_year y =
     (if 0 \<le> y \<and> y \<le> 9999 then pad_start 4 (nat y)
      else (if y < 0 then ''-'' else ''+'') @ pad_start 6 (nat (abs y)))"

definition iso_date :: "int \<Rightarrow> string" where
  "iso_date d = (case utc_date_of d of (y, m, k) \<Rightarrow> iso_year y @ ''-'' @ pad_start 2 m @ ''-'' @ pad_start 2 k)"

lemma iso_date_epoch: "iso_date 0 = ''1970-01-01''" "iso_date 19782 = ''2024-02-29''" "iso_date 20454 = ''2026-01-01''"
  by (simp_all add: iso_date_def iso_year_def utc_date_of_def year_of_day_def day_from_year_def leap_year_def
      month_lengths_def pad_start_def js_of_nat.simps digit_char_def Let_def char_of_def bit_0)

end
