(* ===== verification/Effects.thy ===== *)
theory Effects
  imports Prelude
begin

text \<open>
  Asynchronous functions that may throw and that change a state: a function from the state to a result and a new state. The
  combinators are the sequencing of \<open>await\<close>, \<open>try .. catch\<close> and \<open>for .. of\<close>. A triple \<open>ends P m Q X\<close> says
  that \<open>m\<close>, started where \<open>P\<close> holds, returns with \<open>Q\<close>, or throws and then \<open>X\<close> is the case.
\<close>

type_synonym ('s, 'e, 'a) act = "'s \<Rightarrow> ('e + 'a) \<times> 's"

named_theorems act_simps "evaluation of the combinators"
named_theorems ends_rules "rules for triples"

definition returns :: "'a \<Rightarrow> ('s, 'e, 'a) act" where
  "returns x = (\<lambda>s. (Inr x, s))"

definition throws :: "'e \<Rightarrow> ('s, 'e, 'a) act" where
  "throws e = (\<lambda>s. (Inl e, s))"

definition and_then :: "('s, 'e, 'a) act \<Rightarrow> ('a \<Rightarrow> ('s, 'e, 'b) act) \<Rightarrow> ('s, 'e, 'b) act" where
  "and_then m f = (\<lambda>s. case m s of (Inl e, s1) \<Rightarrow> (Inl e, s1) | (Inr x, s1) \<Rightarrow> f x s1)"

definition rescued :: "('s, 'e, 'a) act \<Rightarrow> ('e \<Rightarrow> ('s, 'e, 'a) act) \<Rightarrow> ('s, 'e, 'a) act" where
  "rescued m h = (\<lambda>s. case m s of (Inl e, s1) \<Rightarrow> h e s1 | (Inr x, s1) \<Rightarrow> (Inr x, s1))"

primrec each_of :: "('a \<Rightarrow> ('s, 'e, unit) act) \<Rightarrow> 'a list \<Rightarrow> ('s, 'e, unit) act" where
  "each_of f [] = returns ()"
| "each_of f (x # xs) = and_then (f x) (\<lambda>_. each_of f xs)"

definition asks :: "('s \<Rightarrow> 'a) \<Rightarrow> ('s, 'e, 'a) act" where
  "asks f = (\<lambda>s. (Inr (f s), s))"

definition modifies :: "('s \<Rightarrow> 's) \<Rightarrow> ('s, 'e, unit) act" where
  "modifies f = (\<lambda>s. (Inr (), f s))"

definition lifted :: "'e + 'a \<Rightarrow> ('s, 'e, 'a) act" where
  "lifted r = (\<lambda>s. (r, s))"

lemma act_eval [act_simps]:
  "returns x s = (Inr x, s)" "throws e s = (Inl e, s)" "asks g s = (Inr (g s), s)" "modifies h s = (Inr (), h s)"
  "lifted r s = (r, s)"
  by (simp_all add: returns_def throws_def asks_def modifies_def lifted_def)

lemma and_then_eval [act_simps]:
  "m s = (Inr x, s1) \<Longrightarrow> and_then m f s = f x s1" "m s = (Inl e, s1) \<Longrightarrow> and_then m f s = (Inl e, s1)"
  by (simp_all add: and_then_def)

lemma and_then_pure [act_simps]:
  "and_then (asks g) f s = f (g s) s" "and_then (modifies h) k s = k () (h s)"
  "and_then (lifted (Inr x)) m s = m x s" "and_then (lifted (Inl e)) m s = (Inl e, s)"
  by (simp_all add: and_then_def asks_def modifies_def lifted_def)

lemma and_then_lifted_Inr:
  "and_then (lifted r) f s = (Inr y, s1) \<longleftrightarrow> (\<exists>x. r = Inr x \<and> f x s = (Inr y, s1))"
  by (cases r) (simp_all add: act_simps)

lemma rescued_eval [act_simps]:
  "m s = (Inr x, s1) \<Longrightarrow> rescued m h s = (Inr x, s1)" "m s = (Inl e, s1) \<Longrightarrow> rescued m h s = h e s1"
  by (simp_all add: rescued_def)

lemma and_then_assoc: "and_then (and_then m f) g = and_then m (\<lambda>x. and_then (f x) g)"
  by (rule ext) (auto simp: and_then_def split: prod.splits sum.splits)

lemma and_then_returns [simp]: "and_then (returns x) f = f x" "and_then m returns = m"
  by (rule ext, simp add: and_then_def returns_def)
     (rule ext, auto simp: and_then_def returns_def split: prod.splits sum.splits)

definition ends :: "('s \<Rightarrow> bool) \<Rightarrow> ('s, 'e, 'a) act \<Rightarrow> ('a \<Rightarrow> 's \<Rightarrow> bool) \<Rightarrow> bool \<Rightarrow> bool" where
  "ends P m Q X \<longleftrightarrow> (\<forall>s. P s \<longrightarrow> (case m s of (Inr x, s1) \<Rightarrow> Q x s1 | (Inl e, s1) \<Rightarrow> X))"

lemma endsI: "(\<And>s x s1. P s \<Longrightarrow> m s = (Inr x, s1) \<Longrightarrow> Q x s1) \<Longrightarrow> (\<And>s e s1. P s \<Longrightarrow> m s = (Inl e, s1) \<Longrightarrow> X) \<Longrightarrow> ends P m Q X"
  unfolding ends_def by (auto split: prod.splits sum.splits)

lemma endsD: "ends P m Q X \<Longrightarrow> P s \<Longrightarrow> m s = (Inr x, s1) \<Longrightarrow> Q x s1"
  "ends P m Q X \<Longrightarrow> P s \<Longrightarrow> m s = (Inl e, s1) \<Longrightarrow> X"
  unfolding ends_def by fastforce+

lemma ends_weaken: "ends P m Q X \<Longrightarrow> (\<And>s. P' s \<Longrightarrow> P s) \<Longrightarrow> (\<And>x s. Q x s \<Longrightarrow> Q' x s) \<Longrightarrow> ends P' m Q' X"
  unfolding ends_def by (fastforce split: prod.splits sum.splits)

lemma ends_exists: "(\<And>x. ends (P x) m Q X) \<Longrightarrow> ends (\<lambda>s. \<exists>x. P x s) m Q X"
  by (rule endsI) (auto dest: endsD)

lemma ends_premise: "(A \<Longrightarrow> ends P m Q X) \<Longrightarrow> ends (\<lambda>s. P s \<and> A) m Q X"
  by (rule endsI) (auto dest: endsD)

lemma ends_returns [ends_rules]: "(\<And>s. P s \<Longrightarrow> Q x s) \<Longrightarrow> ends P (returns x) Q X"
  by (simp add: ends_def returns_def)

lemma ends_throws [ends_rules]: "(\<And>s. P s \<Longrightarrow> X) \<Longrightarrow> ends P (throws e) Q X"
  by (auto simp: ends_def throws_def)

lemma ends_modifies [ends_rules]: "(\<And>s. P s \<Longrightarrow> Q () (f s)) \<Longrightarrow> ends P (modifies f) Q X"
  by (simp add: ends_def modifies_def)

lemma ends_asks [ends_rules]: "(\<And>s. P s \<Longrightarrow> Q (f s) s) \<Longrightarrow> ends P (asks f) Q X"
  by (simp add: ends_def asks_def)

lemma ends_lifted [ends_rules]:
  "(\<And>s x. P s \<Longrightarrow> r = Inr x \<Longrightarrow> Q x s) \<Longrightarrow> (\<And>s e. P s \<Longrightarrow> r = Inl e \<Longrightarrow> X) \<Longrightarrow> ends P (lifted r) Q X"
  unfolding ends_def lifted_def by (cases r) auto

lemma ends_and_then [ends_rules]: "ends P m R X \<Longrightarrow> (\<And>x. ends (R x) (f x) Q X) \<Longrightarrow> ends P (and_then m f) Q X"
  by (rule endsI) (auto simp: and_then_def split: prod.splits sum.splits dest: endsD)

text \<open>A handler that throws again leaves a triple as it is.\<close>

lemma ends_rethrown [ends_rules]: "ends P m Q X \<Longrightarrow> (\<And>e s. \<exists>e' s1. h e s = (Inl e', s1)) \<Longrightarrow> ends P (rescued m h) Q X"
proof (rule endsI)
  fix s x s1
  assume m: "ends P m Q X" and h: "\<And>e s. \<exists>e' s1. h e s = (Inl e', s1)" and p: "P s" and r: "rescued m h s = (Inr x, s1)"
  obtain r0 s0 where m0: "m s = (r0, s0)" by fastforce
  show "Q x s1"
  proof (cases r0)
    case (Inl e)
    obtain e' s2 where "h e s0 = (Inl e', s2)" using h by blast
    then show ?thesis using r m0 Inl by (simp add: rescued_def)
  next
    case (Inr y)
    then show ?thesis using r m0 endsD(1) [OF m p] by (simp add: rescued_def)
  qed
next
  fix s e s1
  assume m: "ends P m Q X" and p: "P s" and r: "rescued m h s = (Inl e, s1)"
  then show X using endsD(2) [OF m p] by (auto simp: rescued_def split: prod.splits sum.splits)
qed

lemma ends_each_of:
  "(\<And>x ys. x \<in> set xs \<Longrightarrow> ends (I (x # ys)) (f x) (\<lambda>_. I ys) X) \<Longrightarrow> ends (I xs) (each_of f xs) (\<lambda>_. I []) X"
proof (induction xs)
  case Nil
  then show ?case by (simp add: ends_returns)
next
  case (Cons x xs)
  have 1: "ends (I (x # xs)) (f x) (\<lambda>_. I xs) X" using Cons.prems [of x xs] by simp
  have 2: "ends (I xs) (each_of f xs) (\<lambda>_. I []) X" by (rule Cons.IH) (rule Cons.prems; simp)
  show ?case unfolding each_of.simps by (rule ends_and_then [OF 1 2])
qed

end
