(* ===== verification/Backfill_Processor.thy ===== *)
theory Backfill_Processor
  imports Calendar Effects Filter_Compiler
begin

text \<open>
  The processor of a filter backfill (\<^verbatim>\<open>api/src/filters/backfill/backfill.processor.ts\<close>): it validates and compiles the rules a task
  carries, cuts the look-back into chunks of days, and rewrites the partitions of the three event tables that the days name, one
  mutation at a time. Every call of the database is a step, numbered by \<open>fp_ticks\<close>; what the world has become by step \<open>n\<close>
  (the clock, a fault, the load of the server, whether \<open>cancel\<close> was called, what became of the pending mutations) is read from the
  environment at \<open>n\<close>, so that a theorem for every environment is one for every interleaving with the rest of the server. ClickHouse is
  \<open>fe_apply\<close>, the effect of a SET clause on a row, and \<open>fe_accepts\<close>, the clauses it parses. Instants are milliseconds, dates at
  UTC midnight are day numbers.
\<close>

subsection \<open>Tasks\<close>

(* src: api/src/filters/backfill/backfill-task.entity.ts:1-6 BackfillTaskStatus *)
datatype row_status = Task_pending | Task_running | Task_completed | Task_failed | Task_cancelled

(* src: api/src/filters/backfill/backfill-task.entity.ts:8-27 BackfillTask *)
record task_row =
  bt_id :: string
  bt_workspace_id :: string
  bt_status :: row_status
  bt_lookback_days :: int
  bt_chunk_size_days :: int
  bt_batch_size :: int
  bt_total_sessions :: nat
  bt_processed_sessions :: nat
  bt_total_events :: nat
  bt_processed_events :: nat
  bt_current_date_chunk :: "string option"
  bt_created_at :: int
  bt_updated_at :: int
  bt_started_at :: "int option"
  bt_completed_at :: "int option"
  bt_error_message :: "string option"
  bt_retry_count :: nat
  bt_filters_snapshot :: string

subsection \<open>Tables, mutations and the environment\<close>

datatype db_table = Tbl_events | Tbl_sessions | Tbl_goals

record 'r db_row =
  dr_received_at :: int
  dr_created_at :: int
  dr_goal_timestamp :: int
  dr_data :: 'r

type_synonym 'r db = "db_table \<Rightarrow> 'r db_row list"

text \<open>A mutation names its table, its partition and its SET clause.\<close>

type_synonym mutation = "db_table \<times> string \<times> string"

datatype mutation_work = Still_running | Rewritten | Killed_elsewhere

record 'r backfill_env =
  fe_now :: "nat \<Rightarrow> int"
  fe_fault :: "nat \<Rightarrow> string option"
  fe_load :: "nat \<Rightarrow> nat"
  fe_slot :: "nat \<Rightarrow> bool"
  fe_cancelled :: "nat \<Rightarrow> bool"
  fe_work :: "nat \<Rightarrow> mutation_work"
  fe_polls :: nat
  fe_accepts :: "string \<Rightarrow> bool"
  fe_apply :: "string \<Rightarrow> 'r \<Rightarrow> 'r"
  fe_regexp :: "string \<Rightarrow> string option"
  fe_parse :: "string \<Rightarrow> string + filter_definition list"
  fe_days_before :: "int \<Rightarrow> int \<Rightarrow> int"

datatype filter_problem =
    Empty_field string string
  | Bad_regexp string string string string
  | Lookaround string string
  | Empty_dimension string string
  | Missing_value string string filter_action string

datatype backfill_error =
    Bad_snapshot string
  | Invalid_filters "filter_problem list"
  | Not_compiled compile_error
  | Endless_chunks
  | Database_fault string
  | Queue_full nat
  | Slot_timeout
  | Mutation_timeout db_table
  | Chunk_failed string backfill_error

(* src: api/src/filters/backfill/backfill.processor.ts:53-56 FilterBackfillProcessor *)
record 'r processor =
  fp_ticks :: nat
  fp_task :: task_row
  fp_rows :: "task_row list"
  fp_db :: "'r db"
  fp_pending :: "mutation list"
  fp_session_partitions :: "string list"
  fp_goal_partitions :: "string list"

type_synonym ('r, 'a) step = "('r processor, backfill_error, 'a) act"

text \<open>One call of the database: it may fail, and it takes a step.\<close>

definition db_call :: "'r backfill_env \<Rightarrow> (nat \<Rightarrow> ('r, 'a) step) \<Rightarrow> ('r, 'a) step" where
  "db_call env f = (\<lambda>s. let n = fp_ticks s; s1 = s\<lparr>fp_ticks := Suc n\<rparr>
     in case fe_fault env n of Some e \<Rightarrow> (Inl (Database_fault e), s1) | None \<Rightarrow> f n s1)"

subsection \<open>Dates and partitions\<close>

(* src: api/src/filters/backfill/backfill.processor.ts:26-28 toClickHouseDate *)
definition toClickHouseDate :: "int \<Rightarrow> string" where
  "toClickHouseDate d = iso_date d"

(* src: api/src/filters/backfill/backfill.processor.ts:34-39 formatEventPartition *)
definition formatEventPartition :: "int \<Rightarrow> string" where
  "formatEventPartition d = (case utc_date_of d of (y, m, k) \<Rightarrow> js_of_int y @ pad_start 2 m @ pad_start 2 k)"

(* src: api/src/filters/backfill/backfill.processor.ts:45-49 formatMonthlyPartition *)
definition formatMonthlyPartition :: "int \<Rightarrow> string" where
  "formatMonthlyPartition d = (case utc_date_of d of (y, m, k) \<Rightarrow> js_of_int y @ pad_start 2 m)"

text \<open>The partition a row lives in: events by the day of reception, sessions by the month of creation, goals by the month of the goal.\<close>

(* src: api/src/database/schemas.ts:432-432 events *)
definition partition_of :: "db_table \<Rightarrow> 'r db_row \<Rightarrow> string" where
  "partition_of tb r = (case tb of
       Tbl_events \<Rightarrow> formatEventPartition (day_of_ms (dr_received_at r))
     | Tbl_sessions \<Rightarrow> formatMonthlyPartition (day_of_ms (dr_created_at r))
     | Tbl_goals \<Rightarrow> formatMonthlyPartition (day_of_ms (dr_goal_timestamp r)))"

text \<open>\<open>while (current <= endUTC)\<close> returns only if the chunks move forward.\<close>

(* src: api/src/filters/backfill/backfill.processor.ts:287-289 generateDateChunks *)
partial_function (option) chunks_from :: "int \<Rightarrow> int \<Rightarrow> int \<Rightarrow> int list option" where
  "chunks_from step current last_day =
     (if current \<le> last_day
      then Option.bind (chunks_from step (current + step) last_day) (\<lambda>ds. Some (current # ds))
      else Some [])"

(* src: api/src/filters/backfill/backfill.processor.ts:267-293 generateDateChunks *)
definition generateDateChunks :: "int \<Rightarrow> int \<Rightarrow> int \<Rightarrow> int list option" where
  "generateDateChunks lookbackDays chunkSizeDays endDate =
     (let end_day = day_of_ms endDate in chunks_from chunkSizeDays (end_day - lookbackDays + 1) end_day)"

(* src: api/src/filters/backfill/backfill.processor.ts:12-12 EVENTS_TTL_DAYS *)
definition EVENTS_TTL_DAYS :: int where
  "EVENTS_TTL_DAYS = 7"

(* src: api/src/filters/backfill/backfill.processor.ts:299-305 isWithinEventsTTL *)
definition isWithinEventsTTL :: "int \<Rightarrow> int \<Rightarrow> bool" where
  "isWithinEventsTTL now d \<longleftrightarrow> now - EVENTS_TTL_DAYS * ms_per_day \<le> day_start d"

subsection \<open>Validation\<close>

(* src: api/src/filters/backfill/backfill.processor.ts:105-108 hasUnsupportedRE2Features *)
definition hasUnsupportedRE2Features :: "string \<Rightarrow> bool" where
  "hasUnsupportedRE2Features p \<longleftrightarrow> js_includes p ''(?='' \<or> js_includes p ''(?!'' \<or> js_includes p ''(?<''"

(* src: api/src/filters/backfill/backfill.processor.ts:123-146 validateFiltersForBackfill *)
definition condition_problems :: "'r backfill_env \<Rightarrow> filter_definition \<Rightarrow> filter_condition \<Rightarrow> filter_problem list" where
  "condition_problems env f c =
     (if js_trim (fc_field c) = [] then [Empty_field (fd_name f) (fd_id f)] else []) @
     (if fc_operator c = Op_regex
      then (let v = js_nullish (fc_value c) []
            in (case fe_regexp env v of Some msg \<Rightarrow> [Bad_regexp (fd_name f) (fd_id f) v msg] | None \<Rightarrow> []) @
               (if hasUnsupportedRE2Features v then [Lookaround (fd_name f) (fd_id f)] else []))
      else [])"

(* src: api/src/filters/backfill/backfill.processor.ts:153-167 validateFiltersForBackfill *)
definition operation_problems :: "filter_definition \<Rightarrow> filter_operation \<Rightarrow> filter_problem list" where
  "operation_problems f p =
     (if js_trim (fo_dimension p) = [] then [Empty_dimension (fd_name f) (fd_id f)] else []) @
     (if (fo_action p = Act_set_value \<or> fo_action p = Act_set_default_value) \<and> fo_value p = None
      then [Missing_value (fd_name f) (fd_id f) (fo_action p) (fo_dimension p)] else [])"

(* src: api/src/filters/backfill/backfill.processor.ts:115-176 validateFiltersForBackfill *)
definition validateFiltersForBackfill :: "'r backfill_env \<Rightarrow> filter_definition list \<Rightarrow> backfill_error + unit" where
  "validateFiltersForBackfill env fs =
     (let errors = concat (map (\<lambda>f. concat (map (condition_problems env f) (fd_conditions f)) @
                                    concat (map (operation_problems f) (fd_operations f)))
                        (filter fd_enabled fs))
      in if errors \<noteq> [] then Inl (Invalid_filters errors) else Inr ())"

subsection \<open>Progress rows\<close>

(* src: api/src/filters/backfill/backfill.service.ts:345-369 updateTaskProgress *)
definition updateTaskProgress :: "'r backfill_env \<Rightarrow> (task_row \<Rightarrow> task_row) \<Rightarrow> ('r, unit) step" where
  "updateTaskProgress env updates = db_call env (\<lambda>n s.
     let t = (updates (fp_task s))\<lparr>bt_updated_at := fe_now env n\<rparr>
     in (Inr (), s\<lparr>fp_rows := fp_rows s @ [t], fp_task := t\<rparr>))"

(* src: api/src/filters/backfill/backfill.processor.ts:310-340 updateTotalCounts *)
definition updateTotalCounts :: "'r backfill_env \<Rightarrow> ('r, unit) step" where
  "updateTotalCounts env =
     and_then (db_call env (\<lambda>n s.
         let since = fe_days_before env (fe_now env n) (bt_lookback_days (fp_task s));
             counted = (\<lambda>tb. length (filter (\<lambda>r. since \<le> dr_created_at r) (fp_db s tb)))
         in (Inr (counted Tbl_sessions, counted Tbl_events), s))) (\<lambda>(sessions, events).
     and_then (asks (\<lambda>s. fe_now env (fp_ticks s))) (\<lambda>now.
       updateTaskProgress env (\<lambda>t. t\<lparr>bt_total_sessions := sessions, bt_total_events := events,
                                     bt_started_at := Some now, bt_status := Task_running\<rparr>)))"

subsection \<open>Mutations\<close>

(* src: api/src/filters/backfill/backfill.processor.ts:16-18 CLICKHOUSE_HARD_LIMIT *)
definition CLICKHOUSE_HARD_LIMIT :: nat where
  "CLICKHOUSE_HARD_LIMIT = 95"

(* src: api/src/filters/backfill/backfill.processor.ts:86-99 killWorkspaceMutations *)
definition killWorkspaceMutations :: "'r backfill_env \<Rightarrow> ('r, unit) step" where
  "killWorkspaceMutations env =
     rescued (db_call env (\<lambda>n s. (Inr (), s\<lparr>fp_pending := []\<rparr>))) (\<lambda>e. returns ())"

(* src: api/src/filters/backfill/backfill.processor.ts:524-530 getGlobalMutationCount *)
definition getGlobalMutationCount :: "'r backfill_env \<Rightarrow> ('r, nat) step" where
  "getGlobalMutationCount env = db_call env (\<lambda>n. returns (fe_load env n))"

(* src: api/src/filters/backfill/backfill.processor.ts:544-547 acquireMutationSlot *)
definition check_capacity :: "'r backfill_env \<Rightarrow> ('r, unit) step" where
  "check_capacity env = and_then (getGlobalMutationCount env) (\<lambda>n.
     if CLICKHOUSE_HARD_LIMIT \<le> n then throws (Queue_full n) else returns ())"

(* src: api/src/filters/backfill/backfill.processor.ts:542-572 acquireMutationSlot *)
definition acquireMutationSlot :: "'r backfill_env \<Rightarrow> ('r, unit) step" where
  "acquireMutationSlot env =
     and_then (check_capacity env) (\<lambda>_.
     and_then (asks (\<lambda>s. fe_slot env (fp_ticks s))) (\<lambda>granted.
       if granted then check_capacity env else throws Slot_timeout))"

text \<open>What ClickHouse does with a mutation: it rewrites the rows of one partition.\<close>

definition rewrite_partition :: "'r backfill_env \<Rightarrow> mutation \<Rightarrow> 'r db \<Rightarrow> 'r db" where
  "rewrite_partition env m db = (case m of (tb, part, clause) \<Rightarrow>
     db(tb := map (\<lambda>r. if partition_of tb r = part then r\<lparr>dr_data := fe_apply env clause (dr_data r)\<rparr> else r) (db tb)))"

definition mutations_advance :: "'r backfill_env \<Rightarrow> nat \<Rightarrow> 'r processor \<Rightarrow> 'r processor" where
  "mutations_advance env n s = (case fe_work env n of
       Still_running \<Rightarrow> s
     | Rewritten \<Rightarrow> s\<lparr>fp_db := fold (rewrite_partition env) (fp_pending s) (fp_db s), fp_pending := []\<rparr>
     | Killed_elsewhere \<Rightarrow> s\<lparr>fp_pending := []\<rparr>)"

definition submit_mutation :: "'r backfill_env \<Rightarrow> mutation \<Rightarrow> ('r, unit) step" where
  "submit_mutation env m = db_call env (\<lambda>n.
     if fe_accepts env (snd (snd m)) then modifies (\<lambda>s. s\<lparr>fp_pending := fp_pending s @ [m]\<rparr>)
     else throws (Database_fault ''syntax error''))"

text \<open>The loop polls every 100 milliseconds; \<open>fe_polls\<close> is the number of polls that fit in the timeout.\<close>

(* src: api/src/filters/backfill/backfill.processor.ts:586-606 waitForMutations *)
primrec await_polls :: "'r backfill_env \<Rightarrow> db_table \<Rightarrow> nat \<Rightarrow> ('r, unit) step" where
  "await_polls env tb 0 = and_then (killWorkspaceMutations env) (\<lambda>_. throws (Mutation_timeout tb))"
| "await_polls env tb (Suc k) = db_call env (\<lambda>n s.
     let s1 = mutations_advance env n s
     in if filter (\<lambda>m. fst m = tb) (fp_pending s1) = [] then (Inr (), s1) else await_polls env tb k s1)"

(* src: api/src/filters/backfill/backfill.processor.ts:578-607 waitForMutations *)
definition waitForMutations :: "'r backfill_env \<Rightarrow> db_table \<Rightarrow> ('r, unit) step" where
  "waitForMutations env tb = await_polls env tb (fe_polls env)"

subsection \<open>One day\<close>

(* src: api/src/filters/backfill/backfill.processor.ts:389-425 processEventsForDate *)
definition processEventsForDate :: "'r backfill_env \<Rightarrow> compiled_filters \<Rightarrow> int \<Rightarrow> ('r, nat) step" where
  "processEventsForDate env compiled chunkDate =
     (let partition = formatEventPartition chunkDate
      in and_then (acquireMutationSlot env) (\<lambda>_.
         and_then (submit_mutation env (Tbl_events, partition, set_clause compiled)) (\<lambda>_.
         and_then (waitForMutations env Tbl_events) (\<lambda>_.
           db_call env (\<lambda>n. asks (\<lambda>s.
             length (filter (\<lambda>r. formatEventPartition (day_of_ms (dr_created_at r)) = partition) (fp_db s Tbl_events))))))))"

(* src: api/src/filters/backfill/backfill.processor.ts:433-478 processSessionsForDate *)
definition processSessionsForDate :: "'r backfill_env \<Rightarrow> compiled_filters \<Rightarrow> int \<Rightarrow> ('r, nat) step" where
  "processSessionsForDate env compiled chunkDate =
     (let partition = formatMonthlyPartition chunkDate
      in and_then (asks (\<lambda>s. partition \<in> set (fp_session_partitions s))) (\<lambda>known.
         and_then (if known then returns () else
             and_then (acquireMutationSlot env) (\<lambda>_.
             and_then (submit_mutation env (Tbl_sessions, partition, set_clause compiled)) (\<lambda>_.
             and_then (waitForMutations env Tbl_sessions) (\<lambda>_.
               modifies (\<lambda>s. s\<lparr>fp_session_partitions := partition # fp_session_partitions s\<rparr>))))) (\<lambda>_.
           db_call env (\<lambda>n. asks (\<lambda>s.
             length (filter (\<lambda>r. toClickHouseDate (day_of_ms (dr_created_at r)) = toClickHouseDate chunkDate)
                       (fp_db s Tbl_sessions)))))))"

(* src: api/src/filters/backfill/backfill.processor.ts:485-518 processGoalsForDate *)
definition processGoalsForDate :: "'r backfill_env \<Rightarrow> compiled_filters \<Rightarrow> int \<Rightarrow> ('r, unit) step" where
  "processGoalsForDate env compiled chunkDate =
     (let partition = formatMonthlyPartition chunkDate
      in and_then (asks (\<lambda>s. partition \<in> set (fp_goal_partitions s))) (\<lambda>known.
         if known then returns () else
           and_then (acquireMutationSlot env) (\<lambda>_.
           and_then (submit_mutation env (Tbl_goals, partition, set_clause compiled)) (\<lambda>_.
           and_then (waitForMutations env Tbl_goals) (\<lambda>_.
             modifies (\<lambda>s. s\<lparr>fp_goal_partitions := partition # fp_goal_partitions s\<rparr>))))))"

(* src: api/src/filters/backfill/backfill.processor.ts:345-382 processDateChunk *)
definition processDateChunk :: "'r backfill_env \<Rightarrow> compiled_filters \<Rightarrow> int \<Rightarrow> ('r, unit) step" where
  "processDateChunk env compiled chunkDate =
     and_then (updateTaskProgress env (\<lambda>t. t\<lparr>bt_current_date_chunk := Some (toClickHouseDate chunkDate)\<rparr>)) (\<lambda>_.
     and_then (asks (\<lambda>s. isWithinEventsTTL (fe_now env (fp_ticks s)) chunkDate)) (\<lambda>alive.
     and_then (if alive then processEventsForDate env compiled chunkDate else returns 0) (\<lambda>events.
     and_then (processSessionsForDate env compiled chunkDate) (\<lambda>sessions.
     and_then (processGoalsForDate env compiled chunkDate) (\<lambda>_.
       updateTaskProgress env (\<lambda>t. t\<lparr>bt_processed_sessions := bt_processed_sessions t + sessions,
                                     bt_processed_events := bt_processed_events t + events\<rparr>))))))"

subsection \<open>The whole task\<close>

(* src: api/src/filters/backfill/backfill.processor.ts:243-253 processInternal *)
primrec process_chunks :: "'r backfill_env \<Rightarrow> compiled_filters \<Rightarrow> int list \<Rightarrow> ('r, unit) step" where
  "process_chunks env compiled [] = returns ()"
| "process_chunks env compiled (d # ds) = (\<lambda>s.
     if fe_cancelled env (fp_ticks s) then (Inr (), s)
     else and_then (rescued (processDateChunk env compiled d) (\<lambda>e. throws (Chunk_failed (toClickHouseDate d) e)))
            (\<lambda>_. process_chunks env compiled ds) s)"

(* src: api/src/filters/backfill/backfill.processor.ts:209-261 processInternal *)
definition processInternal :: "'r backfill_env \<Rightarrow> ('r, unit) step" where
  "processInternal env =
     and_then (asks (\<lambda>s. bt_filters_snapshot (fp_task s))) (\<lambda>snapshot.
     and_then (lifted (case fe_parse env snapshot of Inl e \<Rightarrow> Inl (Bad_snapshot e) | Inr fs \<Rightarrow> Inr fs)) (\<lambda>filters.
     and_then (lifted (validateFiltersForBackfill env filters)) (\<lambda>_.
     and_then (lifted (case compileFiltersToSQL (\<lambda>_. []) filters of Inl e \<Rightarrow> Inl (Not_compiled e) | Inr c \<Rightarrow> Inr c)) (\<lambda>compiled.
     and_then (modifies (\<lambda>s. s\<lparr>fp_session_partitions := [], fp_goal_partitions := []\<rparr>)) (\<lambda>_.
     and_then (asks (\<lambda>s. generateDateChunks (bt_lookback_days (fp_task s)) (bt_chunk_size_days (fp_task s))
                            (fe_now env (fp_ticks s)))) (\<lambda>dates.
     and_then (lifted (case dates of None \<Rightarrow> Inl Endless_chunks | Some ds \<Rightarrow> Inr ds)) (\<lambda>chunks.
     and_then (updateTotalCounts env) (\<lambda>_.
       rescued (process_chunks env compiled chunks)
         (\<lambda>e. and_then (killWorkspaceMutations env) (\<lambda>_. throws e))))))))))"

subsection \<open>The days of the look-back\<close>

lemma chunks_from_past: "last_day < current \<Longrightarrow> chunks_from step current last_day = Some []"
  by (subst chunks_from.simps) simp

lemma chunks_from_range:
  assumes "0 < step"
  shows "\<exists>ds. chunks_from step current last_day = Some ds \<and> distinct ds \<and>
     set ds = {d. current \<le> d \<and> d \<le> last_day \<and> step dvd d - current}"
proof (induction "nat (last_day - current + 1)" arbitrary: current rule: less_induct)
  case less
  show ?case
  proof (cases "current \<le> last_day")
    case False
    then show ?thesis using chunks_from_past [of last_day current step] by auto
  next
    case True
    with assms have "nat (last_day - (current + step) + 1) < nat (last_day - current + 1)" by simp
    from less [OF this] obtain ds where ds: "chunks_from step (current + step) last_day = Some ds" "distinct ds"
      "set ds = {d. current + step \<le> d \<and> d \<le> last_day \<and> step dvd d - (current + step)}"
      by blast
    have "chunks_from step current last_day = Some (current # ds)"
      using True ds(1) by (subst chunks_from.simps) simp
    moreover have "set (current # ds) = {d. current \<le> d \<and> d \<le> last_day \<and> step dvd d - current}"
    proof -
      have "step dvd d - (current + step) \<longleftrightarrow> step dvd d - current" for d
        using dvd_add_right_iff [of step step "d - (current + step)"] by (simp add: algebra_simps)
      moreover have "current + step \<le> d" if "current \<le> d" "step dvd d - current" "d \<noteq> current" for d
        using that assms zdvd_imp_le [of step "d - current"] by simp
      ultimately show ?thesis using ds(3) True assms by auto
    qed
    ultimately show ?thesis using ds(2,3) assms by auto
  qed
qed

text \<open>The chunks are the days of the look-back that are a whole number of chunk sizes after its first day.\<close>

lemma generateDateChunks_days:
  assumes "1 \<le> size_days"
  shows "\<exists>ds. generateDateChunks lookback size_days now = Some ds \<and> distinct ds \<and>
     set ds = {d. day_of_ms now - lookback < d \<and> d \<le> day_of_ms now \<and> size_days dvd d - (day_of_ms now - lookback + 1)}"
  using chunks_from_range [of size_days "day_of_ms now - lookback + 1" "day_of_ms now"] assms
  by (auto simp: generateDateChunks_def Let_def)

subsection \<open>Partition names\<close>

lemma append_same_length: "length a = length b \<Longrightarrow> u @ a = v @ b \<longleftrightarrow> u = v \<and> a = b"
  by simp

lemma js_of_int_nonneg_inject: "0 \<le> a \<Longrightarrow> 0 \<le> b \<Longrightarrow> js_of_int a = js_of_int b \<longleftrightarrow> a = b"
  by (simp add: js_of_int_def eq_nat_nat_iff)

lemma monthly_partition_eq:
  assumes "0 \<le> year_of_day d" and "0 \<le> year_of_day e"
  shows "formatMonthlyPartition d = formatMonthlyPartition e \<longleftrightarrow>
     year_of_day d = year_of_day e \<and> fst (snd (utc_date_of d)) = fst (snd (utc_date_of e))"
proof -
  obtain y m k where d: "utc_date_of d = (y, m, k)" by (cases "utc_date_of d")
  obtain y' m' k' where e: "utc_date_of e = (y', m', k')" by (cases "utc_date_of e")
  note b = utc_date_bounds [OF d] utc_date_bounds [OF e]
  have "length (pad_start 2 m) = length (pad_start 2 m')" using b by (simp add: pad_start_length)
  then show ?thesis
    using b assms by (simp add: formatMonthlyPartition_def d e append_same_length js_of_int_nonneg_inject)
qed

lemma event_partition_eq:
  assumes "0 \<le> year_of_day d" and "0 \<le> year_of_day e"
  shows "formatEventPartition d = formatEventPartition e \<longleftrightarrow> d = e"
proof
  assume p: "formatEventPartition d = formatEventPartition e"
  obtain y m k where d: "utc_date_of d = (y, m, k)" by (cases "utc_date_of d")
  obtain y' m' k' where e: "utc_date_of e = (y', m', k')" by (cases "utc_date_of e")
  note b = utc_date_bounds [OF d] utc_date_bounds [OF e]
  have "length (pad_start 2 m @ pad_start 2 k) = length (pad_start 2 m' @ pad_start 2 k')"
    "length (pad_start 2 k) = length (pad_start 2 k')" using b by (simp_all add: pad_start_length)
  then have "y = y' \<and> m = m' \<and> k = k'"
    using p b assms by (simp add: formatEventPartition_def d e append_same_length js_of_int_nonneg_inject)
  then show "d = e" using b by metis
qed simp

subsection \<open>What the processor does to the tables\<close>

text \<open>A calm environment: no fault, spare capacity, mutations done by the first poll. Only outside it may a step fail.\<close>

definition calm :: "'r backfill_env \<Rightarrow> string \<Rightarrow> bool" where
  "calm env clause \<longleftrightarrow>
     (\<forall>n. fe_fault env n = None \<and> fe_load env n < CLICKHOUSE_HARD_LIMIT \<and> fe_slot env n \<and> fe_work env n = Rewritten) \<and>
     0 < fe_polls env \<and> fe_accepts env clause"

definition never_killed :: "'r backfill_env \<Rightarrow> bool" where
  "never_killed env \<longleftrightarrow> (\<forall>n. fe_work env n \<noteq> Killed_elsewhere)"

text \<open>The tables once the event partitions \<open>E\<close>, session partitions \<open>M\<close> and goal partitions \<open>G\<close> have been rewritten.\<close>

definition backfilled ::
    "'r backfill_env \<Rightarrow> string \<Rightarrow> string set \<Rightarrow> string set \<Rightarrow> string set \<Rightarrow> 'r db \<Rightarrow> 'r db" where
  "backfilled env clause E M G db = (\<lambda>tb. map (\<lambda>r.
     if partition_of tb r \<in> (case tb of Tbl_events \<Rightarrow> E | Tbl_sessions \<Rightarrow> M | Tbl_goals \<Rightarrow> G)
     then r\<lparr>dr_data := fe_apply env clause (dr_data r)\<rparr> else r) (db tb))"

lemma partition_of_data [simp]: "partition_of tb (r\<lparr>dr_data := x\<rparr>) = partition_of tb r"
  by (simp add: partition_of_def split: db_table.split)

lemma backfilled_none [simp]: "backfilled env clause {} {} {} db = db"
  by (rule ext) (simp add: backfilled_def split: db_table.split)

lemma rewrite_partition_lookup:
  "rewrite_partition env (tb, part, clause) db tb' =
     (if tb' = tb then map (\<lambda>r. if partition_of tb r = part then r\<lparr>dr_data := fe_apply env clause (dr_data r)\<rparr> else r) (db tb)
      else db tb')"
  by (simp add: rewrite_partition_def)

lemma rewrite_backfilled:
  "p \<notin> E \<Longrightarrow> rewrite_partition env (Tbl_events, p, clause) (backfilled env clause E M G db) = backfilled env clause (insert p E) M G db"
  "p \<notin> M \<Longrightarrow> rewrite_partition env (Tbl_sessions, p, clause) (backfilled env clause E M G db) = backfilled env clause E (insert p M) G db"
  "p \<notin> G \<Longrightarrow> rewrite_partition env (Tbl_goals, p, clause) (backfilled env clause E M G db) = backfilled env clause E M (insert p G) db"
  by (rule ext, auto simp: rewrite_partition_lookup backfilled_def split: db_table.split)+

text \<open>The state between two steps of a day: nothing pending, the partitions of the record those rewritten.\<close>

definition settled ::
    "'r backfill_env \<Rightarrow> string \<Rightarrow> 'r db \<Rightarrow> string set \<Rightarrow> string set \<Rightarrow> string set \<Rightarrow> 'r processor \<Rightarrow> bool" where
  "settled env clause db E M G s \<longleftrightarrow>
     fp_db s = backfilled env clause E M G db \<and> fp_pending s = [] \<and>
     set (fp_session_partitions s) = M \<and> set (fp_goal_partitions s) = G"

lemma settled_frame [simp]:
  "settled env clause db E M G (s\<lparr>fp_ticks := n\<rparr>) = settled env clause db E M G s"
  "settled env clause db E M G (s\<lparr>fp_rows := rs, fp_task := t\<rparr>) = settled env clause db E M G s"
  by (simp_all add: settled_def)

definition tick_free :: "('r processor \<Rightarrow> bool) \<Rightarrow> bool" where
  "tick_free P \<longleftrightarrow> (\<forall>s n. P s \<longrightarrow> P (s\<lparr>fp_ticks := n\<rparr>))"

lemma ends_db_call [ends_rules]:
  assumes "\<And>n. ends P (f n) Q X" and "\<And>s n. P s \<Longrightarrow> P (s\<lparr>fp_ticks := n\<rparr>)" and "\<And>n e. fe_fault env n = Some e \<Longrightarrow> X"
  shows "ends P (db_call env f) Q X"
  unfolding ends_def db_call_def
proof (intro allI impI)
  fix s
  assume p: "P s"
  let ?n = "fp_ticks s"
  show "case let n = fp_ticks s; s1 = s\<lparr>fp_ticks := Suc n\<rparr>
          in case fe_fault env n of Some e \<Rightarrow> (Inl (Database_fault e), s1) | None \<Rightarrow> f n s1 of
        (Inr x, s1) \<Rightarrow> Q x s1 | (Inl e, s1) \<Rightarrow> X"
  proof (cases "fe_fault env ?n")
    case None
    then show ?thesis using assms(1) [of ?n] assms(2) [OF p, of "Suc ?n"] by (simp add: ends_def Let_def)
  next
    case (Some e)
    then show ?thesis using assms(3) [of ?n e] by (simp add: Let_def)
  qed
qed

lemma ends_progress:
  "ends (settled env clause db E M G) (updateTaskProgress env u) (\<lambda>_. settled env clause db E M G) (\<not> calm env c)"
  unfolding updateTaskProgress_def
  by (rule ends_db_call) (auto simp: ends_def Let_def calm_def)

lemma ends_capacity:
  assumes "tick_free P"
  shows "ends P (check_capacity env) (\<lambda>_. P) (\<not> calm env c)"
  unfolding check_capacity_def
proof (rule ends_and_then)
  show "ends P (getGlobalMutationCount env) (\<lambda>n s. P s \<and> (CLICKHOUSE_HARD_LIMIT \<le> n \<longrightarrow> \<not> calm env c)) (\<not> calm env c)"
    unfolding getGlobalMutationCount_def
    by (rule ends_db_call)
       (use assms in \<open>auto simp: tick_free_def ends_def returns_def calm_def not_less [symmetric]\<close>)
next
  fix n
  show "ends (\<lambda>s. P s \<and> (CLICKHOUSE_HARD_LIMIT \<le> n \<longrightarrow> \<not> calm env c))
      (if CLICKHOUSE_HARD_LIMIT \<le> n then throws (Queue_full n) else returns ()) (\<lambda>_. P) (\<not> calm env c)"
    by (auto simp: ends_def throws_def returns_def)
qed

lemma ends_slot:
  assumes "tick_free P"
  shows "ends P (acquireMutationSlot env) (\<lambda>_. P) (\<not> calm env c)"
  unfolding acquireMutationSlot_def
proof (rule ends_and_then [OF ends_capacity [OF assms]])
  show "ends P (and_then (asks (\<lambda>s. fe_slot env (fp_ticks s)))
      (\<lambda>granted. if granted then check_capacity env else throws Slot_timeout)) (\<lambda>_. P) (\<not> calm env c)"
  proof (rule ends_and_then)
    show "ends P (asks (\<lambda>s. fe_slot env (fp_ticks s))) (\<lambda>g s. P s \<and> (\<not> g \<longrightarrow> \<not> calm env c)) (\<not> calm env c)"
      by (rule ends_asks) (auto simp: calm_def)
    fix g
    show "ends (\<lambda>s. P s \<and> (\<not> g \<longrightarrow> \<not> calm env c)) (if g then check_capacity env else throws Slot_timeout) (\<lambda>_. P) (\<not> calm env c)"
      using ends_capacity [OF assms, of env c] by (cases g) (auto simp: ends_def throws_def)
  qed
qed

text \<open>A submitted mutation that the loop waits for has rewritten its partition, unless somebody killed it.\<close>

definition waiting :: "'r backfill_env \<Rightarrow> string \<Rightarrow> 'r db \<Rightarrow> string set \<Rightarrow> string set \<Rightarrow> string set \<Rightarrow> mutation \<Rightarrow> 'r processor \<Rightarrow> bool" where
  "waiting env clause db E M G m s \<longleftrightarrow>
     fp_db s = backfilled env clause E M G db \<and> fp_pending s = [m] \<and>
     set (fp_session_partitions s) = M \<and> set (fp_goal_partitions s) = G"

definition rewritten_to :: "'r db \<Rightarrow> string set \<Rightarrow> string set \<Rightarrow> 'r processor \<Rightarrow> bool" where
  "rewritten_to db M G s \<longleftrightarrow>
     fp_db s = db \<and> fp_pending s = [] \<and> set (fp_session_partitions s) = M \<and> set (fp_goal_partitions s) = G"

lemma settled_rewritten: "settled env clause db E M G = rewritten_to (backfilled env clause E M G db) M G"
  by (rule ext) (simp add: settled_def rewritten_to_def)

lemma ends_submit:
  assumes "snd (snd m) = clause"
  shows "ends (settled env clause db E M G) (submit_mutation env m) (\<lambda>_. waiting env clause db E M G m) (\<not> calm env clause)"
  unfolding submit_mutation_def
  by (rule ends_db_call)
     (use assms in \<open>auto simp: ends_def throws_def modifies_def calm_def settled_def waiting_def\<close>)

lemma ends_kill: "ends P (killWorkspaceMutations env) (\<lambda>_ _. True) X"
  unfolding ends_def killWorkspaceMutations_def rescued_def returns_def by (auto split: prod.splits sum.splits)

lemma ends_polls:
  assumes "never_killed env" and "calm env clause \<Longrightarrow> 0 < k"
  shows "ends (waiting env clause db E M G (tb, p, clause)) (await_polls env tb k)
     (\<lambda>_. rewritten_to (rewrite_partition env (tb, p, clause) (backfilled env clause E M G db)) M G) (\<not> calm env clause)"
  using assms(2)
proof (induction k)
  case 0
  then have x: "\<not> calm env clause" by blast
  show ?case
    unfolding await_polls.simps by (rule ends_and_then [OF ends_kill]) (auto simp: ends_def throws_def x)
next
  case (Suc k)
  have one: "ends (waiting env clause db E M G (tb, p, clause))
      (\<lambda>s. let s1 = mutations_advance env n s
           in if filter (\<lambda>m. fst m = tb) (fp_pending s1) = [] then (Inr (), s1) else await_polls env tb k s1)
      (\<lambda>_. rewritten_to (rewrite_partition env (tb, p, clause) (backfilled env clause E M G db)) M G) (\<not> calm env clause)" for n
  proof (cases "fe_work env n")
    case Still_running
    then have x: "\<not> calm env clause" by (auto simp: calm_def)
    then have "ends (waiting env clause db E M G (tb, p, clause)) (await_polls env tb k)
        (\<lambda>_. rewritten_to (rewrite_partition env (tb, p, clause) (backfilled env clause E M G db)) M G) (\<not> calm env clause)"
      using Suc.IH by blast
    then show ?thesis by (simp add: ends_def mutations_advance_def Still_running waiting_def)
  next
    case Rewritten
    then show ?thesis by (simp add: ends_def mutations_advance_def waiting_def rewritten_to_def)
  next
    case Killed_elsewhere
    then show ?thesis using assms(1) by (simp add: never_killed_def)
  qed
  show ?case
    unfolding await_polls.simps by (rule ends_db_call [OF one]) (auto simp: waiting_def calm_def)
qed

text \<open>One partition: a slot, the mutation, the wait.\<close>

lemma ends_mutation:
  assumes "never_killed env"
    and "ends (rewritten_to (rewrite_partition env (tb, p, clause) (backfilled env clause E M G db)) M G) (k ()) Q (\<not> calm env clause)"
  shows "ends (settled env clause db E M G)
     (and_then (acquireMutationSlot env) (\<lambda>_. and_then (submit_mutation env (tb, p, clause)) (\<lambda>_.
        and_then (waitForMutations env tb) k)))
     Q (\<not> calm env clause)"
proof (rule ends_and_then [OF ends_slot])
  show "tick_free (settled env clause db E M G)" by (simp add: tick_free_def)
  have w: "ends (waiting env clause db E M G (tb, p, clause)) (waitForMutations env tb)
      (\<lambda>_. rewritten_to (rewrite_partition env (tb, p, clause) (backfilled env clause E M G db)) M G) (\<not> calm env clause)"
    unfolding waitForMutations_def by (rule ends_polls [OF assms(1)]) (simp add: calm_def)
  show "ends (settled env clause db E M G) (and_then (submit_mutation env (tb, p, clause)) (\<lambda>_. and_then (waitForMutations env tb) k))
      Q (\<not> calm env clause)"
    by (rule ends_and_then [OF ends_submit]) (auto intro!: ends_and_then [OF w] assms(2))
qed

lemma ends_read_only:
  assumes "tick_free P"
  shows "ends P (db_call env (\<lambda>n. asks f)) (\<lambda>_. P) (\<not> calm env c)"
  by (rule ends_db_call) (use assms in \<open>auto simp: tick_free_def ends_def asks_def calm_def\<close>)

lemma tick_free_states [simp]: "tick_free (settled env c db E M G)" "tick_free (rewritten_to db M G)"
  by (simp_all add: tick_free_def rewritten_to_def)

lemma ends_events:
  assumes "never_killed env" and "formatEventPartition d \<notin> E"
  shows "ends (settled env (set_clause c) db E M G) (processEventsForDate env c d)
     (\<lambda>_. settled env (set_clause c) db (insert (formatEventPartition d) E) M G) (\<not> calm env (set_clause c))"
  unfolding processEventsForDate_def Let_def settled_rewritten [of _ _ _ "insert (formatEventPartition d) E"]
    rewrite_backfilled(1) [OF assms(2), symmetric]
  by (rule ends_mutation [OF assms(1)]) (rule ends_read_only, simp)

lemma ends_remember:
  assumes "\<And>s. P s \<Longrightarrow> Q (f s)"
  shows "ends P (modifies f) (\<lambda>_. Q) X"
  using assms by (simp add: ends_def modifies_def)

lemma ends_sessions:
  assumes "never_killed env"
  shows "ends (settled env (set_clause c) db E M G) (processSessionsForDate env c d)
     (\<lambda>_. settled env (set_clause c) db E (insert (formatMonthlyPartition d) M) G) (\<not> calm env (set_clause c))"
  unfolding processSessionsForDate_def Let_def
proof (rule ends_and_then [where R = "\<lambda>known s. settled env (set_clause c) db E M G s \<and> known = (formatMonthlyPartition d \<in> M)"])
  let ?p = "formatMonthlyPartition d"
  show "ends (settled env (set_clause c) db E M G) (asks (\<lambda>s. ?p \<in> set (fp_session_partitions s)))
      (\<lambda>known s. settled env (set_clause c) db E M G s \<and> known = (?p \<in> M)) (\<not> calm env (set_clause c))"
    by (simp add: ends_def asks_def settled_def)
  fix known
  show "ends (\<lambda>s. settled env (set_clause c) db E M G s \<and> known = (?p \<in> M))
     (and_then (if known then returns ()
        else and_then (acquireMutationSlot env) (\<lambda>_. and_then (submit_mutation env (Tbl_sessions, ?p, set_clause c)) (\<lambda>_.
             and_then (waitForMutations env Tbl_sessions) (\<lambda>_.
             modifies (\<lambda>s. s\<lparr>fp_session_partitions := ?p # fp_session_partitions s\<rparr>)))))
       (\<lambda>_. db_call env (\<lambda>n. asks (\<lambda>s. length (filter (\<lambda>r. toClickHouseDate (day_of_ms (dr_created_at r)) = toClickHouseDate d)
               (fp_db s Tbl_sessions))))))
     (\<lambda>_. settled env (set_clause c) db E (insert ?p M) G) (\<not> calm env (set_clause c))"
  proof (rule ends_premise, rule ends_and_then)
    assume known: "known = (?p \<in> M)"
    show "ends (settled env (set_clause c) db E M G)
       (if known then returns ()
        else and_then (acquireMutationSlot env) (\<lambda>_. and_then (submit_mutation env (Tbl_sessions, ?p, set_clause c)) (\<lambda>_.
             and_then (waitForMutations env Tbl_sessions) (\<lambda>_.
             modifies (\<lambda>s. s\<lparr>fp_session_partitions := ?p # fp_session_partitions s\<rparr>)))))
       (\<lambda>_. settled env (set_clause c) db E (insert ?p M) G) (\<not> calm env (set_clause c))"
    proof (cases known)
      case True
      then show ?thesis using known by (simp add: ends_def returns_def insert_absorb)
    next
      case False
      then have new: "?p \<notin> M" using known by simp
      have "ends (rewritten_to (backfilled env (set_clause c) E (insert ?p M) G db) M G)
          (modifies (\<lambda>s. s\<lparr>fp_session_partitions := ?p # fp_session_partitions s\<rparr>))
          (\<lambda>_. settled env (set_clause c) db E (insert ?p M) G) (\<not> calm env (set_clause c))"
        by (rule ends_remember) (simp add: rewritten_to_def settled_def)
      note step = this
      show ?thesis
        unfolding if_not_P [OF False]
        by (rule ends_mutation [OF assms], unfold rewrite_backfilled(2) [OF new], rule step)
    qed
  qed (rule ends_read_only, simp)
qed

lemma ends_goals:
  assumes "never_killed env"
  shows "ends (settled env (set_clause c) db E M G) (processGoalsForDate env c d)
     (\<lambda>_. settled env (set_clause c) db E M (insert (formatMonthlyPartition d) G)) (\<not> calm env (set_clause c))"
  unfolding processGoalsForDate_def Let_def
proof (rule ends_and_then [where R = "\<lambda>known s. settled env (set_clause c) db E M G s \<and> known = (formatMonthlyPartition d \<in> G)"])
  let ?p = "formatMonthlyPartition d"
  show "ends (settled env (set_clause c) db E M G) (asks (\<lambda>s. ?p \<in> set (fp_goal_partitions s)))
      (\<lambda>known s. settled env (set_clause c) db E M G s \<and> known = (?p \<in> G)) (\<not> calm env (set_clause c))"
    by (simp add: ends_def asks_def settled_def)
  fix known
  show "ends (\<lambda>s. settled env (set_clause c) db E M G s \<and> known = (?p \<in> G))
     (if known then returns ()
        else and_then (acquireMutationSlot env) (\<lambda>_. and_then (submit_mutation env (Tbl_goals, ?p, set_clause c)) (\<lambda>_.
             and_then (waitForMutations env Tbl_goals) (\<lambda>_.
             modifies (\<lambda>s. s\<lparr>fp_goal_partitions := ?p # fp_goal_partitions s\<rparr>)))))
     (\<lambda>_. settled env (set_clause c) db E M (insert ?p G)) (\<not> calm env (set_clause c))"
  proof (rule ends_premise)
    assume known: "known = (?p \<in> G)"
    show "ends (settled env (set_clause c) db E M G)
       (if known then returns ()
        else and_then (acquireMutationSlot env) (\<lambda>_. and_then (submit_mutation env (Tbl_goals, ?p, set_clause c)) (\<lambda>_.
             and_then (waitForMutations env Tbl_goals) (\<lambda>_.
             modifies (\<lambda>s. s\<lparr>fp_goal_partitions := ?p # fp_goal_partitions s\<rparr>)))))
       (\<lambda>_. settled env (set_clause c) db E M (insert ?p G)) (\<not> calm env (set_clause c))"
    proof (cases known)
      case True
      then show ?thesis using known by (simp add: ends_def returns_def insert_absorb)
    next
      case False
      then have new: "?p \<notin> G" using known by simp
      have "ends (rewritten_to (backfilled env (set_clause c) E M (insert ?p G) db) M G)
          (modifies (\<lambda>s. s\<lparr>fp_goal_partitions := ?p # fp_goal_partitions s\<rparr>))
          (\<lambda>_. settled env (set_clause c) db E M (insert ?p G)) (\<not> calm env (set_clause c))"
        by (rule ends_remember) (simp add: rewritten_to_def settled_def)
      note step = this
      show ?thesis
        unfolding if_not_P [OF False]
        by (rule ends_mutation [OF assms], unfold rewrite_backfilled(3) [OF new], rule step)
    qed
  qed
qed

text \<open>A day of the loop: the month's sessions and goals once, the day's events while they live.\<close>

definition always_alive :: "'r backfill_env \<Rightarrow> int \<Rightarrow> bool" where
  "always_alive env d \<longleftrightarrow> (\<forall>n. isWithinEventsTTL (fe_now env n) d)"

lemma ends_day:
  assumes "never_killed env" and "formatEventPartition d \<notin> E"
  shows "ends (settled env (set_clause c) db E M G) (processDateChunk env c d)
     (\<lambda>_ s. \<exists>alive. settled env (set_clause c) db (if alive then insert (formatEventPartition d) E else E)
                 (insert (formatMonthlyPartition d) M) (insert (formatMonthlyPartition d) G) s \<and> (always_alive env d \<longrightarrow> alive))
     (\<not> calm env (set_clause c))"
  unfolding processDateChunk_def
proof (rule ends_and_then [OF ends_progress],
       rule ends_and_then [where R = "\<lambda>alive s. settled env (set_clause c) db E M G s \<and> (always_alive env d \<longrightarrow> alive)"])
  show "ends (settled env (set_clause c) db E M G) (asks (\<lambda>s. isWithinEventsTTL (fe_now env (fp_ticks s)) d))
      (\<lambda>alive s. settled env (set_clause c) db E M G s \<and> (always_alive env d \<longrightarrow> alive)) (\<not> calm env (set_clause c))"
    by (simp add: ends_def asks_def always_alive_def)
  fix alive
  define E' where "E' = (if alive then insert (formatEventPartition d) E else E)"
  have events: "ends (settled env (set_clause c) db E M G) (if alive then processEventsForDate env c d else returns 0)
      (\<lambda>_. settled env (set_clause c) db E' M G) (\<not> calm env (set_clause c))"
    using ends_events [OF assms, of c db M G] by (cases alive) (simp_all add: E'_def ends_def returns_def)
  have rest: "ends (settled env (set_clause c) db E M G)
      (and_then (if alive then processEventsForDate env c d else returns 0) (\<lambda>events.
       and_then (processSessionsForDate env c d) (\<lambda>sessions.
       and_then (processGoalsForDate env c d) (\<lambda>_. updateTaskProgress env (u sessions events)))))
      (\<lambda>_. settled env (set_clause c) db E' (insert (formatMonthlyPartition d) M) (insert (formatMonthlyPartition d) G))
      (\<not> calm env (set_clause c))" for u
    by (rule ends_and_then [OF events] ends_and_then [OF ends_sessions [OF assms(1)]] ends_and_then [OF ends_goals [OF assms(1)]]
          ends_progress)+
  show "ends (\<lambda>s. settled env (set_clause c) db E M G s \<and> (always_alive env d \<longrightarrow> alive))
     (and_then (if alive then processEventsForDate env c d else returns 0) (\<lambda>events.
      and_then (processSessionsForDate env c d) (\<lambda>sessions.
      and_then (processGoalsForDate env c d) (\<lambda>_. updateTaskProgress env (\<lambda>t.
        t\<lparr>bt_processed_sessions := bt_processed_sessions t + sessions, bt_processed_events := bt_processed_events t + events\<rparr>)))))
     (\<lambda>_ s. \<exists>alive. settled env (set_clause c) db (if alive then insert (formatEventPartition d) E else E)
                 (insert (formatMonthlyPartition d) M) (insert (formatMonthlyPartition d) G) s \<and> (always_alive env d \<longrightarrow> alive))
     (\<not> calm env (set_clause c))"
  proof (rule ends_premise)
    assume alive: "always_alive env d \<longrightarrow> alive"
    show "ends (settled env (set_clause c) db E M G)
     (and_then (if alive then processEventsForDate env c d else returns 0) (\<lambda>events.
      and_then (processSessionsForDate env c d) (\<lambda>sessions.
      and_then (processGoalsForDate env c d) (\<lambda>_. updateTaskProgress env (\<lambda>t.
        t\<lparr>bt_processed_sessions := bt_processed_sessions t + sessions, bt_processed_events := bt_processed_events t + events\<rparr>)))))
     (\<lambda>_ s. \<exists>alive. settled env (set_clause c) db (if alive then insert (formatEventPartition d) E else E)
                 (insert (formatMonthlyPartition d) M) (insert (formatMonthlyPartition d) G) s \<and> (always_alive env d \<longrightarrow> alive))
     (\<not> calm env (set_clause c))"
      by (rule ends_weaken [OF rest]) (use alive in \<open>unfold E'_def, blast+\<close>)
  qed
qed

text \<open>
  The loop over the days. \<open>reached ds0 s\<close> says what is rewritten once the days \<open>ds0\<close> are done: every month of theirs, and the
  partitions of some of them among the events, at least of those that never leave the table.
\<close>

definition reached :: "'r backfill_env \<Rightarrow> string \<Rightarrow> 'r db \<Rightarrow> int set \<Rightarrow> 'r processor \<Rightarrow> bool" where
  "reached env clause db ds s \<longleftrightarrow>
     (\<exists>E. settled env clause db (formatEventPartition ` E) (formatMonthlyPartition ` ds) (formatMonthlyPartition ` ds) s \<and>
          E \<subseteq> ds \<and> (\<forall>d \<in> ds. always_alive env d \<longrightarrow> d \<in> E))"

lemma reached_day:
  assumes "never_killed env" and "d \<notin> done_days" and "\<forall>e \<in> insert d done_days. 0 \<le> year_of_day e"
  shows "ends (reached env (set_clause c) db done_days) (processDateChunk env c d)
     (\<lambda>_. reached env (set_clause c) db (insert d done_days)) (\<not> calm env (set_clause c))"
  unfolding reached_def [abs_def]
proof (rule ends_exists, rule ends_premise)
  fix E
  assume E: "E \<subseteq> done_days \<and> (\<forall>d \<in> done_days. always_alive env d \<longrightarrow> d \<in> E)"
  have new: "formatEventPartition d \<notin> formatEventPartition ` E"
    using E assms(2,3) event_partition_eq by fastforce
  show "ends (settled env (set_clause c) db (formatEventPartition ` E) (formatMonthlyPartition ` done_days) (formatMonthlyPartition ` done_days))
     (processDateChunk env c d)
     (\<lambda>_ s. \<exists>E. settled env (set_clause c) db (formatEventPartition ` E) (formatMonthlyPartition ` insert d done_days)
                  (formatMonthlyPartition ` insert d done_days) s \<and>
               E \<subseteq> insert d done_days \<and> (\<forall>e \<in> insert d done_days. always_alive env e \<longrightarrow> e \<in> E)) (\<not> calm env (set_clause c))"
  proof (rule ends_weaken [OF ends_day [OF assms(1) new]], assumption)
    fix x :: unit and s
    assume "\<exists>alive. settled env (set_clause c) db
        (if alive then insert (formatEventPartition d) (formatEventPartition ` E) else formatEventPartition ` E)
        (insert (formatMonthlyPartition d) (formatMonthlyPartition ` done_days))
        (insert (formatMonthlyPartition d) (formatMonthlyPartition ` done_days)) s \<and> (always_alive env d \<longrightarrow> alive)"
    then obtain alive where a: "settled env (set_clause c) db (formatEventPartition ` (if alive then insert d E else E))
        (formatMonthlyPartition ` insert d done_days) (formatMonthlyPartition ` insert d done_days) s"
      "always_alive env d \<longrightarrow> alive"
      by (auto simp: if_distrib [of "image formatEventPartition"] simp del: if_image_distrib cong: if_cong)
    show "\<exists>E. settled env (set_clause c) db (formatEventPartition ` E) (formatMonthlyPartition ` insert d done_days)
                  (formatMonthlyPartition ` insert d done_days) s \<and>
               E \<subseteq> insert d done_days \<and> (\<forall>e \<in> insert d done_days. always_alive env e \<longrightarrow> e \<in> E)"
      by (rule exI [of _ "if alive then insert d E else E"]) (use a E in auto)
  qed
qed

lemma ends_chunks:
  assumes "never_killed env" and "distinct ds" and "set ds \<inter> done_days = {}"
    and "\<forall>e \<in> set ds \<union> done_days. 0 \<le> year_of_day e"
  shows "ends (reached env (set_clause c) db done_days) (process_chunks env c ds)
     (\<lambda>_ s. fe_cancelled env (fp_ticks s) \<or> reached env (set_clause c) db (done_days \<union> set ds) s) (\<not> calm env (set_clause c))"
  using assms(2-4)
proof (induction ds arbitrary: done_days)
  case Nil
  then show ?case by (simp add: ends_def returns_def)
next
  case (Cons d ds)
  have day: "ends (reached env (set_clause c) db done_days) (processDateChunk env c d)
     (\<lambda>_. reached env (set_clause c) db (insert d done_days)) (\<not> calm env (set_clause c))"
    by (rule reached_day [OF assms(1)]) (use Cons.prems in auto)
  have rest: "ends (reached env (set_clause c) db (insert d done_days)) (process_chunks env c ds)
     (\<lambda>_ s. fe_cancelled env (fp_ticks s) \<or> reached env (set_clause c) db (insert d done_days \<union> set ds) s) (\<not> calm env (set_clause c))"
    by (rule Cons.IH) (use Cons.prems in auto)
  have go: "ends (reached env (set_clause c) db done_days)
      (and_then (rescued (processDateChunk env c d) (\<lambda>e. throws (Chunk_failed (toClickHouseDate d) e))) (\<lambda>_. process_chunks env c ds))
      (\<lambda>_ s. fe_cancelled env (fp_ticks s) \<or> reached env (set_clause c) db (insert d done_days \<union> set ds) s) (\<not> calm env (set_clause c))"
    by (rule ends_and_then [OF ends_rethrown [OF day]]) (use rest in \<open>simp_all add: throws_def\<close>)
  show ?case
    using go by (auto simp: ends_def)
qed

subsection \<open>A whole run\<close>

text \<open>The days a run sets out to process.\<close>

definition backfill_days :: "'r backfill_env \<Rightarrow> 'r processor \<Rightarrow> int set" where
  "backfill_days env s =
     (let today = day_of_ms (fe_now env (fp_ticks s)); lookback = bt_lookback_days (fp_task s)
      in {d. today - lookback < d \<and> d \<le> today \<and> bt_chunk_size_days (fp_task s) dvd d - (today - lookback + 1)})"

definition compiled_task :: "'r backfill_env \<Rightarrow> 'r processor \<Rightarrow> filter_definition list \<Rightarrow> compiled_filters \<Rightarrow> bool" where
  "compiled_task env s fs c \<longleftrightarrow>
     fe_parse env (bt_filters_snapshot (fp_task s)) = Inr fs \<and> validateFiltersForBackfill env fs = Inr () \<and>
     compileFiltersToSQL (\<lambda>_. []) fs = Inr c"

lemma kill_returns: "\<exists>s1. killWorkspaceMutations env s = (Inr (), s1)"
  by (simp add: killWorkspaceMutations_def rescued_def returns_def split: prod.splits sum.splits)

lemma ends_counts:
  "ends (settled env clause db E M G) (updateTotalCounts env) (\<lambda>_. settled env clause db E M G) (\<not> calm env c)"
  unfolding updateTotalCounts_def
proof (rule ends_and_then)
  show "ends (settled env clause db E M G)
     (db_call env (\<lambda>n s. let since = fe_days_before env (fe_now env n) (bt_lookback_days (fp_task s));
             counted = (\<lambda>tb. length (filter (\<lambda>r. since \<le> dr_created_at r) (fp_db s tb)))
         in (Inr (counted Tbl_sessions, counted Tbl_events), s)))
     (\<lambda>_. settled env clause db E M G) (\<not> calm env c)"
    by (rule ends_db_call) (auto simp: ends_def Let_def calm_def)
  show "ends (settled env clause db E M G)
     (case x of (sessions, events) \<Rightarrow> and_then (asks (\<lambda>s. fe_now env (fp_ticks s))) (\<lambda>now.
        updateTaskProgress env (\<lambda>t. t\<lparr>bt_total_sessions := sessions, bt_total_events := events,
                                     bt_started_at := Some now, bt_status := Task_running\<rparr>)))
     (\<lambda>_. settled env clause db E M G) (\<not> calm env c)" for x :: "nat \<times> nat"
    by (cases x) (simp, rule ends_and_then [OF ends_asks], assumption, rule ends_progress)
qed

definition run_tail :: "'r backfill_env \<Rightarrow> compiled_filters \<Rightarrow> int list \<Rightarrow> ('r, unit) step" where
  "run_tail env c ds = and_then (updateTotalCounts env) (\<lambda>_.
     rescued (process_chunks env c ds) (\<lambda>e. and_then (killWorkspaceMutations env) (\<lambda>_. throws e)))"

lemma processInternal_tail:
  assumes "compiled_task env s fs c"
    and "generateDateChunks (bt_lookback_days (fp_task s)) (bt_chunk_size_days (fp_task s)) (fe_now env (fp_ticks s)) = Some ds"
  shows "processInternal env s = run_tail env c ds (s\<lparr>fp_session_partitions := [], fp_goal_partitions := []\<rparr>)"
  using assms by (simp add: processInternal_def run_tail_def compiled_task_def act_simps)

lemma processInternal_compiled:
  assumes "processInternal env s = (Inr (), s1)"
  shows "\<exists>fs c. compiled_task env s fs c"
  using assms
  by (auto simp: processInternal_def and_then_pure(1) and_then_lifted_Inr compiled_task_def split: sum.splits)

lemma ends_tail:
  assumes "never_killed env" and "distinct ds" and "\<forall>e \<in> set ds. 0 \<le> year_of_day e"
  shows "ends (reached env (set_clause c) db {}) (run_tail env c ds)
     (\<lambda>_ s. fe_cancelled env (fp_ticks s) \<or> reached env (set_clause c) db (set ds) s) (\<not> calm env (set_clause c))"
  unfolding run_tail_def
proof (rule ends_and_then [where R = "\<lambda>_. reached env (set_clause c) db {}"])
  have "ends (settled env (set_clause c) db {} {} {}) (updateTotalCounts env) (\<lambda>_. settled env (set_clause c) db {} {} {}) (\<not> calm env (set_clause c))"
    by (rule ends_counts)
  then show "ends (reached env (set_clause c) db {}) (updateTotalCounts env) (\<lambda>_. reached env (set_clause c) db {}) (\<not> calm env (set_clause c))"
    by (simp add: reached_def [abs_def])
  have "ends (reached env (set_clause c) db {}) (process_chunks env c ds)
     (\<lambda>_ s. fe_cancelled env (fp_ticks s) \<or> reached env (set_clause c) db (set ds) s) (\<not> calm env (set_clause c))"
    using ends_chunks [of env ds "{}" c db] assms by simp
  then show "ends (reached env (set_clause c) db {})
     (rescued (process_chunks env c ds) (\<lambda>e. and_then (killWorkspaceMutations env) (\<lambda>_. throws e)))
     (\<lambda>_ s. fe_cancelled env (fp_ticks s) \<or> reached env (set_clause c) db (set ds) s) (\<not> calm env (set_clause c))"
  proof (rule ends_rethrown)
    fix e s
    obtain s1 where "killWorkspaceMutations env s = (Inr (), s1)" using kill_returns by blast
    then show "\<exists>e' s1. and_then (killWorkspaceMutations env) (\<lambda>_. throws e) s = (Inl e', s1)"
      by (simp add: and_then_def throws_def)
  qed
qed

lemma year_after_epoch: "0 \<le> d \<Longrightarrow> 0 \<le> year_of_day d"
proof (rule ccontr)
  assume d: "0 \<le> d" and "\<not> 0 \<le> year_of_day d"
  then have "146097 * (year_of_day d + 1 - 1970) + 589 < 0" by simp
  then show False using year_of_day_bounds(2) [of d] day_from_year_bounds(2) [of "year_of_day d + 1"] d by linarith
qed

text \<open>What the task needs: chunks of at least a day, and a look-back that begins after 1970.\<close>

definition sane_task :: "'r backfill_env \<Rightarrow> 'r processor \<Rightarrow> bool" where
  "sane_task env s \<longleftrightarrow> 1 \<le> bt_chunk_size_days (fp_task s) \<and>
     bt_lookback_days (fp_task s) \<le> day_of_ms (fe_now env (fp_ticks s)) + 1 \<and> fp_pending s = []"

lemma run_of_task:
  assumes "sane_task env s" and "never_killed env" and "compiled_task env s fs c"
  shows "(\<exists>s1. processInternal env s = (Inr (), s1) \<and>
            (fe_cancelled env (fp_ticks s1) \<or> reached env (set_clause c) (fp_db s) (backfill_days env s) s1)) \<or>
         (\<exists>e s1. processInternal env s = (Inl e, s1) \<and> \<not> calm env (set_clause c))"
proof -
  let ?s = "s\<lparr>fp_session_partitions := [], fp_goal_partitions := []\<rparr>"
  obtain ds where ds: "generateDateChunks (bt_lookback_days (fp_task s)) (bt_chunk_size_days (fp_task s)) (fe_now env (fp_ticks s)) = Some ds"
    "distinct ds" "set ds = backfill_days env s"
    using generateDateChunks_days [of "bt_chunk_size_days (fp_task s)" "bt_lookback_days (fp_task s)" "fe_now env (fp_ticks s)"]
      assms(1) by (auto simp: sane_task_def backfill_days_def Let_def)
  have y: "\<forall>e \<in> set ds. 0 \<le> year_of_day e"
    using ds(3) assms(1) year_after_epoch by (auto simp: backfill_days_def sane_task_def Let_def)
  have start: "reached env (set_clause c) (fp_db s) {} ?s"
    using assms(1) by (simp add: reached_def settled_def sane_task_def)
  obtain r s1 where r: "processInternal env s = (r, s1)" by fastforce
  then have r': "run_tail env c ds ?s = (r, s1)" using processInternal_tail [OF assms(3) ds(1)] by simp
  show ?thesis
  proof (cases r)
    case (Inl e)
    then show ?thesis using endsD(2) [OF ends_tail [OF assms(2) ds(2) y] start] r r' by blast
  next
    case (Inr u)
    then show ?thesis using endsD(1) [OF ends_tail [OF assms(2) ds(2) y] start] r r' ds(3) by auto
  qed
qed

lemma completed_run:
  assumes "processInternal env s = (Inr (), s1)" and "\<not> fe_cancelled env (fp_ticks s1)"
    and "sane_task env s" and "never_killed env"
  shows "\<exists>fs c E. compiled_task env s fs c \<and> E \<subseteq> backfill_days env s \<and>
     (\<forall>d \<in> backfill_days env s. always_alive env d \<longrightarrow> d \<in> E) \<and>
     fp_db s1 = backfilled env (set_clause c) (formatEventPartition ` E) (formatMonthlyPartition ` backfill_days env s)
                  (formatMonthlyPartition ` backfill_days env s) (fp_db s)"
proof -
  obtain fs c where c: "compiled_task env s fs c" using processInternal_compiled [OF assms(1)] by blast
  have "reached env (set_clause c) (fp_db s) (backfill_days env s) s1"
    using run_of_task [OF assms(3,4) c] assms(1,2) by auto
  with c show ?thesis by (auto simp: reached_def settled_def)
qed

text \<open>
  A backfill that returns without having been cancelled has applied the rules it was started with: in every month that holds a
  day it processed, to all sessions and goals, and in the partitions of the processed days, to the events, at least where
  the day stayed within the life of events; nothing else has changed.
\<close>

theorem completed_backfill:
  assumes "processInternal env s = (Inr (), s1)" and "\<not> fe_cancelled env (fp_ticks s1)"
    and "sane_task env s" and "never_killed env"
  shows "\<exists>fs c E. compiled_task env s fs c \<and> E \<subseteq> backfill_days env s \<and>
     (\<forall>d \<in> backfill_days env s. always_alive env d \<longrightarrow> d \<in> E) \<and>
     fp_db s1 = backfilled env (set_clause c) (formatEventPartition ` E) (formatMonthlyPartition ` backfill_days env s)
                  (formatMonthlyPartition ` backfill_days env s) (fp_db s)"
  using assms by (rule completed_run)

text \<open>
  In a calm environment a backfill of rules that compile always returns, and a day by day one leaves no row of the window behind:
  every session created in it, every goal reached in it, and every event received in it that has not expired is rewritten.
\<close>

lemma calm_backfill_reaches_all:
  assumes "sane_task env s" and "compiled_task env s fs c" and "calm env (set_clause c)"
    and "bt_chunk_size_days (fp_task s) = 1" and "\<forall>n. \<not> fe_cancelled env n"
  shows "\<exists>s1. processInternal env s = (Inr (), s1) \<and>
     (\<forall>tb r. r \<in> set (fp_db s tb) \<longrightarrow>
        (case tb of Tbl_events \<Rightarrow> always_alive env (day_of_ms (dr_received_at r)) \<and> day_of_ms (dr_received_at r) \<in> backfill_days env s
         | Tbl_sessions \<Rightarrow> day_of_ms (dr_created_at r) \<in> backfill_days env s
         | Tbl_goals \<Rightarrow> day_of_ms (dr_goal_timestamp r) \<in> backfill_days env s) \<longrightarrow>
        r\<lparr>dr_data := fe_apply env (set_clause c) (dr_data r)\<rparr> \<in> set (fp_db s1 tb))"
proof -
  have k: "never_killed env" using assms(3) by (simp add: calm_def never_killed_def)
  obtain s1 where run: "processInternal env s = (Inr (), s1)"
    and r: "reached env (set_clause c) (fp_db s) (backfill_days env s) s1"
    using run_of_task [OF assms(1) k assms(2)] assms(3,5) by auto
  obtain E where E: "fp_db s1 = backfilled env (set_clause c) (formatEventPartition ` E)
      (formatMonthlyPartition ` backfill_days env s) (formatMonthlyPartition ` backfill_days env s) (fp_db s)"
    "\<forall>d \<in> backfill_days env s. always_alive env d \<longrightarrow> d \<in> E"
    using r by (auto simp: reached_def settled_def)
  have "r\<lparr>dr_data := fe_apply env (set_clause c) (dr_data r)\<rparr> \<in> set (fp_db s1 tb)"
    if "r \<in> set (fp_db s tb)" and "case tb of Tbl_events \<Rightarrow> always_alive env (day_of_ms (dr_received_at r)) \<and> day_of_ms (dr_received_at r) \<in> backfill_days env s
         | Tbl_sessions \<Rightarrow> day_of_ms (dr_created_at r) \<in> backfill_days env s
         | Tbl_goals \<Rightarrow> day_of_ms (dr_goal_timestamp r) \<in> backfill_days env s" for tb r
  proof -
    have "partition_of tb r \<in> (case tb of Tbl_events \<Rightarrow> formatEventPartition ` E
        | Tbl_sessions \<Rightarrow> formatMonthlyPartition ` backfill_days env s | Tbl_goals \<Rightarrow> formatMonthlyPartition ` backfill_days env s)"
      using that(2) E(2) by (cases tb) (auto simp: partition_of_def)
    then show ?thesis using that(1) unfolding E(1) backfilled_def by (auto intro!: image_eqI [of _ _ r])
  qed
  with run show ?thesis by blast
qed

text \<open>
  C22: With chunks of several days the events of all days but the first of each chunk are left as they were: a row received on
  a day that is not a whole number of chunks after the start of the look-back does not change.
\<close>

theorem larger_chunks_skip_days:
  assumes "processInternal env s = (Inr (), s1)" and "\<not> fe_cancelled env (fp_ticks s1)"
    and "sane_task env s" and "never_killed env"
    and "r \<in> set (fp_db s Tbl_events)" and "0 \<le> dr_received_at r"
    and "\<not> bt_chunk_size_days (fp_task s) dvd
           day_of_ms (dr_received_at r) - (day_of_ms (fe_now env (fp_ticks s)) - bt_lookback_days (fp_task s) + 1)"
  shows "r \<in> set (fp_db s1 Tbl_events)"
proof -
  from completed_run [OF assms(1-4)] obtain fs c E where E: "E \<subseteq> backfill_days env s"
    "fp_db s1 = backfilled env (set_clause (c :: compiled_filters)) (formatEventPartition ` E) (formatMonthlyPartition ` backfill_days env s)
                  (formatMonthlyPartition ` backfill_days env s) (fp_db s)"
    by blast
  let ?d = "day_of_ms (dr_received_at r)"
  have "?d \<notin> E"
  proof
    assume "?d \<in> E"
    with E(1) have "?d \<in> backfill_days env s" by (rule subsetD)
    then show False using assms(7) by (simp add: backfill_days_def Let_def)
  qed
  moreover have "0 \<le> year_of_day ?d" using assms(6) by (intro year_after_epoch day_of_ms_nonneg)
  moreover have "0 \<le> year_of_day e" if "e \<in> E" for e
  proof (rule year_after_epoch)
    have "day_of_ms (fe_now env (fp_ticks s)) - bt_lookback_days (fp_task s) < e"
      using E(1) that unfolding backfill_days_def Let_def by blast
    then show "0 \<le> e" using assms(3) by (simp add: sane_task_def)
  qed
  ultimately have "partition_of Tbl_events r \<notin> formatEventPartition ` E"
    using event_partition_eq [of ?d] by (auto simp: partition_of_def)
  then show ?thesis using assms(5) unfolding E(2) backfilled_def by (auto intro!: image_eqI [of _ _ r])
qed

subsection \<open>Rules that are gone, rules that are stored\<close>

lemma compile_nothing:
  assumes "\<forall>f \<in> set fs. \<not> fd_enabled f"
  shows "compileFiltersToSQL v fs = Inr c \<Longrightarrow> set_clause c = []"
proof -
  have e: "enabled_by_priority fs = []" using assms by (auto simp: enabled_by_priority_def sort_desc_def filter_empty_conv)
  show "compileFiltersToSQL v fs = Inr c \<Longrightarrow> set_clause c = []"
    by (auto simp: compileFiltersToSQL_def e custom_clauses_def standard_clauses_def)
qed

lemma refused_submit: "\<not> fe_accepts env (snd (snd m)) \<Longrightarrow> ends P (submit_mutation env m) (\<lambda>_ _. False) True"
  unfolding submit_mutation_def by (auto simp: ends_def db_call_def throws_def Let_def split: option.splits)

lemma ends_any: "ends (\<lambda>_. True) m (\<lambda>_ _. True) True"
  by (simp add: ends_def split: prod.split sum.split)

lemma ends_never: "ends (\<lambda>_. False) m Q X"
  by (simp add: ends_def)

lemma refused_mutation:
  assumes "\<not> fe_accepts env clause"
  shows "ends (\<lambda>_. True) (and_then (acquireMutationSlot env) (\<lambda>_. and_then (submit_mutation env (tb, p, clause)) k)) (\<lambda>_ _. False) True"
proof -
  have "ends (\<lambda>_. True) (and_then (submit_mutation env (tb, p, clause)) k) (\<lambda>_ _. False) True"
    by (rule ends_and_then [OF refused_submit ends_never]) (simp add: assms)
  then show ?thesis by (rule ends_and_then [OF ends_any])
qed

text \<open>A clause the database refuses fails the first day, whichever it is.\<close>

lemma refused_day:
  assumes "\<not> fe_accepts env (set_clause c)"
  shows "ends (\<lambda>s. fp_session_partitions s = []) (processDateChunk env c d) (\<lambda>_ _. False) True"
proof -
  let ?P = "\<lambda>s. fp_session_partitions s = []"
  have progress: "ends ?P (updateTaskProgress env u) (\<lambda>_. ?P) True" for u
    by (simp add: ends_def updateTaskProgress_def db_call_def Let_def split: option.split)
  have alive: "ends ?P (asks f) (\<lambda>_. ?P) True" for f by (simp add: ends_def asks_def)
  have events: "ends ?P (if alive then processEventsForDate env c d else returns 0) (\<lambda>_. ?P) True" for alive
  proof (cases alive)
    case True
    have "ends ?P (processEventsForDate env c d) (\<lambda>_ _. False) True"
      unfolding processEventsForDate_def Let_def by (rule ends_weaken [OF refused_mutation [OF assms]]) simp_all
    then show ?thesis using True by (auto intro: ends_weaken)
  next
    case False
    then show ?thesis by (simp add: ends_def returns_def)
  qed
  have sessions: "ends ?P (processSessionsForDate env c d) (\<lambda>_ _. False) True"
    unfolding processSessionsForDate_def Let_def
  proof (rule ends_and_then [where R = "\<lambda>known s. \<not> known"])
    let ?p = "formatMonthlyPartition d"
    show "ends ?P (asks (\<lambda>s. ?p \<in> set (fp_session_partitions s))) (\<lambda>known s. \<not> known) True"
      by (simp add: ends_def asks_def)
    fix known
    let ?go = "and_then (acquireMutationSlot env) (\<lambda>_. and_then (submit_mutation env (Tbl_sessions, ?p, set_clause c)) (\<lambda>_.
        and_then (waitForMutations env Tbl_sessions) (\<lambda>_.
        modifies (\<lambda>s. s\<lparr>fp_session_partitions := ?p # fp_session_partitions s\<rparr>))))"
    have "ends (\<lambda>s. \<not> known) (if known then returns () else ?go) (\<lambda>_ _. False) True"
    proof (cases known)
      case False
      show ?thesis unfolding if_not_P [OF False] by (rule ends_weaken [OF refused_mutation [OF assms]]) simp_all
    qed (simp add: ends_def)
    then show "ends (\<lambda>s. \<not> known) (and_then (if known then returns () else ?go)
       (\<lambda>_. db_call env (\<lambda>n. asks (\<lambda>s. length (filter (\<lambda>r. toClickHouseDate (day_of_ms (dr_created_at r)) = toClickHouseDate d)
               (fp_db s Tbl_sessions)))))) (\<lambda>_ _. False) True"
      by (rule ends_and_then [OF _ ends_never])
  qed
  show ?thesis
    unfolding processDateChunk_def
    by (rule ends_and_then [OF progress], rule ends_and_then [OF alive], rule ends_and_then [OF events],
        rule ends_and_then [OF sessions ends_never])
qed

text \<open>
  C37: Once no rule is enabled there is nothing to set, and the statement without assignments is not one the database accepts: a backfill
  of the emptied rule set can fail or be cancelled but never completes, so that the dimensions the deleted rules had
  written stay on the rows.
\<close>

theorem emptied_rules_never_complete:
  assumes "fe_parse env (bt_filters_snapshot (fp_task s)) = Inr fs" and "\<forall>f \<in> set fs. \<not> fd_enabled f"
    and "\<not> fe_accepts env []" and "sane_task env s" and "1 \<le> bt_lookback_days (fp_task s)"
  shows "\<not> (\<exists>s1. processInternal env s = (Inr (), s1) \<and> \<not> fe_cancelled env (fp_ticks s1))"
proof
  assume "\<exists>s1. processInternal env s = (Inr (), s1) \<and> \<not> fe_cancelled env (fp_ticks s1)"
  then obtain s1 where run: "processInternal env s = (Inr (), s1)" and nc: "\<not> fe_cancelled env (fp_ticks s1)" by blast
  obtain fs' c where c: "compiled_task env s fs' c" using processInternal_compiled [OF run] by blast
  then have refused: "\<not> fe_accepts env (set_clause c)"
    using assms(1-3) compile_nothing [of fs "\<lambda>_. []" c] by (auto simp: compiled_task_def)
  obtain ds where ds: "generateDateChunks (bt_lookback_days (fp_task s)) (bt_chunk_size_days (fp_task s)) (fe_now env (fp_ticks s)) = Some ds"
    "set ds = {d. day_of_ms (fe_now env (fp_ticks s)) - bt_lookback_days (fp_task s) < d \<and> d \<le> day_of_ms (fe_now env (fp_ticks s)) \<and>
        bt_chunk_size_days (fp_task s) dvd d - (day_of_ms (fe_now env (fp_ticks s)) - bt_lookback_days (fp_task s) + 1)}"
    using generateDateChunks_days [of "bt_chunk_size_days (fp_task s)" "bt_lookback_days (fp_task s)" "fe_now env (fp_ticks s)"]
      assms(4) by (auto simp: sane_task_def)
  have "day_of_ms (fe_now env (fp_ticks s)) - bt_lookback_days (fp_task s) + 1 \<in> set ds" unfolding ds(2) using assms(5) by simp
  then obtain d ds' where d: "ds = d # ds'" by (cases ds) auto
  let ?P = "\<lambda>s :: 'a processor. fp_session_partitions s = []"
  let ?Q = "\<lambda>(_ :: unit) (s :: 'a processor). fe_cancelled env (fp_ticks s)"
  have day: "ends ?P (rescued (processDateChunk env c d) (\<lambda>e. throws (Chunk_failed (toClickHouseDate d) e))) (\<lambda>_ _. False) True"
    by (rule ends_rethrown [OF refused_day [OF refused]]) (simp add: throws_def)
  have "ends ?P (process_chunks env c ds) ?Q True"
    using ends_and_then [OF day ends_never, of "\<lambda>_. process_chunks env c ds'" ?Q] by (auto simp: d ends_def)
  then have loop: "ends ?P (rescued (process_chunks env c ds) (\<lambda>e. and_then (killWorkspaceMutations env) (\<lambda>_. throws e))) ?Q True"
  proof (rule ends_rethrown)
    fix e and t :: "'a processor"
    obtain t1 where "killWorkspaceMutations env t = (Inr (), t1)" using kill_returns by blast
    then show "\<exists>e' t1. and_then (killWorkspaceMutations env) (\<lambda>_. throws e) t = (Inl e', t1)"
      by (simp add: and_then_def throws_def)
  qed
  have "ends ?P (updateTotalCounts env) (\<lambda>_. ?P) True"
    by (auto simp: ends_def updateTotalCounts_def updateTaskProgress_def and_then_def asks_def db_call_def Let_def
        split: option.splits prod.splits sum.splits)
  from ends_and_then [OF this loop] have "ends ?P (run_tail env c ds) ?Q True" unfolding run_tail_def .
  from endsD(1) [OF this, of "s\<lparr>fp_session_partitions := [], fp_goal_partitions := []\<rparr>"]
  show False using run nc processInternal_tail [OF c ds(1)] by simp
qed

text \<open>
  A rule set the management service has stored passes the validation unless one of its enabled rules uses a regular
  expression with a lookaround group; then the whole backfill is refused, before any mutation.
\<close>

lemma named_fields_nonblank: "\<forall>f \<in> set SOURCE_FIELDS. js_trim f \<noteq> []" "\<forall>d \<in> set WRITABLE_DIMENSIONS. js_trim d \<noteq> []"
  by code_simp+

theorem stored_rules_validated:
  assumes "store_ok rx st" and "\<forall>v. fe_regexp env v = None \<longleftrightarrow> rx v [] \<noteq> None"
  shows "validateFiltersForBackfill env (fs_filters st) = Inr () \<longleftrightarrow>
     (\<forall>f \<in> set (fs_filters st). fd_enabled f \<longrightarrow>
        (\<forall>c \<in> set (fd_conditions f). fc_operator c = Op_regex \<longrightarrow> \<not> hasUnsupportedRE2Features (js_nullish (fc_value c) [])))"
proof -
  have op: "operation_problems f p = []" if "f \<in> set (fs_filters st)" "p \<in> set (fd_operations f)" for f p
  proof -
    have "operation_ok p" using assms(1) that by (auto simp: store_ok_def rule_ok_def)
    then show ?thesis using named_fields_nonblank(2) by (cases "fo_value p") (auto simp: operation_problems_def operation_ok_def)
  qed
  have cond: "condition_problems env f c = [] \<longleftrightarrow>
      (fc_operator c = Op_regex \<longrightarrow> \<not> hasUnsupportedRE2Features (js_nullish (fc_value c) []))"
    if "f \<in> set (fs_filters st)" "c \<in> set (fd_conditions f)" for f c
  proof -
    have "condition_ok rx c" using assms(1) that by (auto simp: store_ok_def rule_ok_def)
    then have "js_trim (fc_field c) \<noteq> []" "fc_operator c = Op_regex \<Longrightarrow> fe_regexp env (js_nullish (fc_value c) []) = None"
      using named_fields_nonblank(1) assms(2) by (auto simp: condition_ok_def)
    then show ?thesis by (simp add: condition_problems_def Let_def)
  qed
  have "validateFiltersForBackfill env (fs_filters st) = Inr () \<longleftrightarrow>
      (\<forall>f \<in> set (fs_filters st). fd_enabled f \<longrightarrow> (\<forall>c \<in> set (fd_conditions f). condition_problems env f c = []))"
    using op by (auto simp: validateFiltersForBackfill_def Let_def)
  then show ?thesis using cond by blast
qed

subsection \<open>The backfill against the evaluation at ingestion\<close>


subsection \<open>Samples\<close>

definition sample_task :: "int \<Rightarrow> task_row" where
  "sample_task chunk =
     \<lparr>bt_id = ''t1'', bt_workspace_id = ''w1'', bt_status = Task_pending, bt_lookback_days = 3, bt_chunk_size_days = chunk,
      bt_batch_size = 5000, bt_total_sessions = 0, bt_processed_sessions = 0, bt_total_events = 0, bt_processed_events = 0,
      bt_current_date_chunk = None, bt_created_at = 0, bt_updated_at = 0, bt_started_at = None, bt_completed_at = None,
      bt_error_message = None, bt_retry_count = 0, bt_filters_snapshot = ''rules''\<rparr>"

definition sample_backfill_rules :: "filter_definition list" where
  "sample_backfill_rules = [channel_rule ''a'' 100 Act_set_value ''seo'']"

definition sample_backfill_env :: "filter_definition list \<Rightarrow> string backfill_env" where
  "sample_backfill_env fs =
     \<lparr>fe_now = (\<lambda>_. day_start 20000 + 5), fe_fault = (\<lambda>_. None), fe_load = (\<lambda>_. 0), fe_slot = (\<lambda>_. True),
      fe_cancelled = (\<lambda>_. False), fe_work = (\<lambda>_. Rewritten), fe_polls = 600, fe_accepts = (\<lambda>clause. clause \<noteq> []),
      fe_apply = (\<lambda>clause x. ''seo''), fe_regexp = (\<lambda>_. None), fe_parse = (\<lambda>_. Inr fs),
      fe_days_before = (\<lambda>t d. t - d * ms_per_day)\<rparr>"

definition sample_row :: "int \<Rightarrow> string db_row" where
  "sample_row d = \<lparr>dr_received_at = day_start d, dr_created_at = day_start d, dr_goal_timestamp = 0, dr_data = ''old''\<rparr>"

definition sample_processor :: "int \<Rightarrow> string processor" where
  "sample_processor chunk =
     \<lparr>fp_ticks = 0, fp_task = sample_task chunk, fp_rows = [], fp_db = (\<lambda>_. [sample_row 19999]), fp_pending = [],
      fp_session_partitions = [], fp_goal_partitions = []\<rparr>"

lemma sample_ready:
  "sane_task (sample_backfill_env fs) (sample_processor 1)" "sane_task (sample_backfill_env fs) (sample_processor 2)"
  "day_of_ms (fe_now (sample_backfill_env fs) n) = 20000" "never_killed (sample_backfill_env fs)"
  by (simp_all add: sane_task_def sample_backfill_env_def sample_processor_def sample_task_def never_killed_def
      day_of_ms_def day_start_def ms_per_day_def)

lemma sample_rules_ok: "\<forall>f \<in> set sample_backfill_rules. rule_ok (\<lambda>_ _. Some True) f"
  by (simp add: sample_backfill_rules_def channel_rule_def sample_rule_def sample_condition_def rule_ok_def condition_ok_def
      operation_ok_def known_action_def SOURCE_FIELDS_def WRITABLE_DIMENSIONS_def)

lemma sample_compiled:
  "\<exists>c. compiled_task (sample_backfill_env sample_backfill_rules) (sample_processor chunk) sample_backfill_rules c \<and> set_clause c \<noteq> []"
proof -
  have "case compileFiltersToSQL (\<lambda>_. []) sample_backfill_rules of Inl _ \<Rightarrow> False | Inr c \<Rightarrow> set_clause c \<noteq> []"
    by code_simp
  moreover have "validateFiltersForBackfill (sample_backfill_env sample_backfill_rules) sample_backfill_rules = Inr ()"
    by code_simp
  ultimately show ?thesis
    by (auto simp: compiled_task_def sample_backfill_env_def split: sum.splits)
qed

lemma sample_calm: "clause \<noteq> [] \<Longrightarrow> calm (sample_backfill_env fs) clause"
  by (simp add: calm_def sample_backfill_env_def CLICKHOUSE_HARD_LIMIT_def)

lemma sample_uncancelled: "\<not> fe_cancelled (sample_backfill_env fs) n"
  by (simp add: sample_backfill_env_def)


lemma completed_backfill_witness:
  "\<exists>s1 E. processInternal (sample_backfill_env sample_backfill_rules) (sample_processor 1) = (Inr (), s1) \<and>
     E \<subseteq> backfill_days (sample_backfill_env sample_backfill_rules) (sample_processor 1)"
proof -
  obtain c where c: "compiled_task (sample_backfill_env sample_backfill_rules) (sample_processor 1) sample_backfill_rules c"
    "set_clause c \<noteq> []" using sample_compiled by blast
  obtain s1 where s1: "processInternal (sample_backfill_env sample_backfill_rules) (sample_processor 1) = (Inr (), s1)"
    using run_of_task [OF sample_ready(1,4) c(1)] sample_calm [OF c(2)] by blast
  from completed_backfill [OF s1 sample_uncancelled sample_ready(1,4)] s1 show ?thesis by blast
qed

lemma larger_chunks_skip_days_witness:
  "\<exists>s1. processInternal (sample_backfill_env sample_backfill_rules) (sample_processor 2) = (Inr (), s1) \<and>
     sample_row 19999 \<in> set (fp_db s1 Tbl_events)"
proof -
  obtain c where c: "compiled_task (sample_backfill_env sample_backfill_rules) (sample_processor 2) sample_backfill_rules c"
    "set_clause c \<noteq> []" using sample_compiled by blast
  obtain s1 where s1: "processInternal (sample_backfill_env sample_backfill_rules) (sample_processor 2) = (Inr (), s1)"
    using run_of_task [OF sample_ready(2,4) c(1)] sample_calm [OF c(2)] by blast
  have "sample_row 19999 \<in> set (fp_db (sample_processor 2) Tbl_events)" "0 \<le> dr_received_at (sample_row 19999)"
    "\<not> bt_chunk_size_days (fp_task (sample_processor 2)) dvd day_of_ms (dr_received_at (sample_row 19999)) -
       (day_of_ms (fe_now (sample_backfill_env sample_backfill_rules) (fp_ticks (sample_processor 2))) - bt_lookback_days (fp_task (sample_processor 2)) + 1)"
    by (simp_all add: sample_processor_def sample_row_def sample_task_def sample_ready(3)) (simp add: day_start_def ms_per_day_def)
  from larger_chunks_skip_days [OF s1 sample_uncancelled sample_ready(2,4) this] s1 show ?thesis by blast
qed

lemma emptied_rules_never_complete_witness:
  "\<not> (\<exists>s1. processInternal (sample_backfill_env []) (sample_processor 1) = (Inr (), s1))"
proof -
  have "fe_parse (sample_backfill_env []) (bt_filters_snapshot (fp_task (sample_processor 1))) = Inr []"
    "\<forall>f \<in> set []. \<not> fd_enabled f" "\<not> fe_accepts (sample_backfill_env []) []" "1 \<le> bt_lookback_days (fp_task (sample_processor 1))"
    by (simp_all add: sample_backfill_env_def sample_processor_def sample_task_def)
  from emptied_rules_never_complete [OF this(1-3) sample_ready(1) this(4)] show ?thesis by (simp add: sample_uncancelled)
qed

lemma stored_rules_validated_witness:
  "validateFiltersForBackfill (sample_backfill_env [])
     (fs_filters \<lparr>fs_filters = sample_backfill_rules, fs_changed = 0\<rparr>) = Inr ()"
proof -
  have 1: "store_ok (\<lambda>_ _. Some True) \<lparr>fs_filters = sample_backfill_rules, fs_changed = 0\<rparr>"
    using sample_rules_ok by (simp add: store_ok_def sample_backfill_rules_def)
  have 2: "\<forall>v. fe_regexp (sample_backfill_env []) v = None \<longleftrightarrow> (\<lambda>_ _. Some True) v ([] :: string) \<noteq> None"
    by (simp add: sample_backfill_env_def)
  show ?thesis
    unfolding stored_rules_validated [OF 1 2]
    by (simp add: sample_backfill_rules_def channel_rule_def sample_rule_def sample_condition_def)
qed

end
