(* ===== verification/Backfill_Service.thy ===== *)
theory Backfill_Service
  imports Backfill_Processor
begin

text \<open>
  The life of backfill tasks (\<^verbatim>\<open>api/src/filters/backfill/backfill.service.ts\<close>): starting, running in the background, reporting, cancelling,
  shutting down and recovering after a restart, and the lock by which processors of one workspace wait for each other. The table
  of tasks is the list of the rows inserted; a read sees the last row of each id, as the merge of the table leaves it with a
  clock that does not run backwards. The stretches between two awaits are the steps of \<open>task_step\<close>; a processor's run is the one of
  \<open>Backfill_Processor\<close>.
\<close>

subsection \<open>The table of tasks\<close>

fun final_rows :: "task_row list \<Rightarrow> task_row list" where
  "final_rows [] = []"
| "final_rows (r # rs) = (if bt_id r \<in> bt_id ` set rs then final_rows rs else r # final_rows rs)"

definition latest :: "task_row list \<Rightarrow> string \<Rightarrow> task_row option" where
  "latest rows i = find (\<lambda>t. bt_id t = i) (final_rows rows)"

definition is_active :: "task_row \<Rightarrow> bool" where
  "is_active t \<longleftrightarrow> bt_status t = Task_pending \<or> bt_status t = Task_running"

record task_run =
  rn_task :: task_row
  rn_cancelled :: bool

(* src: api/src/filters/backfill/backfill.service.ts:38-39 FilterBackfillService *)
record task_world =
  tw_rows :: "task_row list"
  tw_timers :: "task_row list"
  tw_running :: "(string \<times> task_run) list"
  tw_requests :: "task_row list"
  tw_emitted :: "string list"
  tw_now :: int

datatype task_error =
    Workspace_missing
  | Already_in_progress string
  | Task_not_found string
  | Cannot_cancel row_status

subsection \<open>Starting\<close>

(* src: api/src/filters/backfill/dto/start-backfill.dto.ts:3-23 StartBackfillDto *)
record start_backfill_dto =
  sb_workspace_id :: string
  sb_lookback_days :: int
  sb_chunk_size_days :: "int option"
  sb_batch_size :: "int option"

text \<open>The bounds the validation pipe enforces.\<close>

(* src: api/src/filters/backfill/dto/start-backfill.dto.ts:8-22 StartBackfillDto *)
definition start_dto_ok :: "start_backfill_dto \<Rightarrow> bool" where
  "start_dto_ok dto \<longleftrightarrow>
     1 \<le> sb_lookback_days dto \<and> sb_lookback_days dto \<le> 365 \<and>
     (case sb_chunk_size_days dto of None \<Rightarrow> True | Some c \<Rightarrow> 1 \<le> c \<and> c \<le> 30) \<and>
     (case sb_batch_size dto of None \<Rightarrow> True | Some b \<Rightarrow> 100 \<le> b \<and> b \<le> 50000)"

(* src: api/src/filters/backfill/backfill.service.ts:165-178 startBackfill *)
definition start_check :: "(string \<Rightarrow> 'w option) \<Rightarrow> start_backfill_dto \<Rightarrow> task_world \<Rightarrow> task_error + 'w" where
  "start_check workspaces dto s = (case workspaces (sb_workspace_id dto) of
       None \<Rightarrow> Inl Workspace_missing
     | Some w \<Rightarrow> (case filter (\<lambda>t. bt_workspace_id t = sb_workspace_id dto \<and> is_active t) (final_rows (tw_rows s)) of
           [] \<Rightarrow> Inr w
         | t # _ \<Rightarrow> Inl (Already_in_progress (bt_id t))))"

(* src: api/src/filters/backfill/backfill.service.ts:183-204 startBackfill *)
definition new_task :: "string \<Rightarrow> int \<Rightarrow> start_backfill_dto \<Rightarrow> string \<Rightarrow> task_row" where
  "new_task uuid now dto snapshot =
     \<lparr>bt_id = uuid, bt_workspace_id = sb_workspace_id dto, bt_status = Task_pending,
      bt_lookback_days = sb_lookback_days dto, bt_chunk_size_days = js_nullish (sb_chunk_size_days dto) 1,
      bt_batch_size = js_nullish (sb_batch_size dto) 5000, bt_total_sessions = 0, bt_processed_sessions = 0,
      bt_total_events = 0, bt_processed_events = 0, bt_current_date_chunk = None, bt_created_at = now, bt_updated_at = now,
      bt_started_at = None, bt_completed_at = None, bt_error_message = None, bt_retry_count = 0, bt_filters_snapshot = snapshot\<rparr>"

definition start_commit :: "task_row \<Rightarrow> task_world \<Rightarrow> task_world" where
  "start_commit t s = s\<lparr>tw_rows := tw_rows s @ [t], tw_timers := tw_timers s @ [t]\<rparr>"

(* src: api/src/filters/backfill/backfill.service.ts:161-281 startBackfill *)
definition startBackfill ::
    "(string \<Rightarrow> 'w option) \<Rightarrow> ('w \<Rightarrow> string) \<Rightarrow> string \<Rightarrow> start_backfill_dto \<Rightarrow> task_world \<Rightarrow> (task_error + string) \<times> task_world" where
  "startBackfill workspaces filters_text uuid dto s = (case start_check workspaces dto s of
       Inl e \<Rightarrow> (Inl e, s)
     | Inr w \<Rightarrow> (Inr uuid, start_commit (new_task uuid (tw_now s) dto (filters_text w)) s))"

subsection \<open>Writing statuses\<close>

(* src: api/src/filters/backfill/backfill.service.ts:287-304 updateTaskStatus *)
definition updateTaskStatus :: "int \<Rightarrow> task_row \<Rightarrow> row_status \<Rightarrow> string option \<Rightarrow> task_row" where
  "updateTaskStatus now task status msg =
     task\<lparr>bt_status := status, bt_updated_at := now,
          bt_completed_at := (if status \<in> {Task_completed, Task_failed, Task_cancelled} then Some now else bt_completed_at task),
          bt_error_message := (case msg of Some m \<Rightarrow> Some m | None \<Rightarrow> bt_error_message task)\<rparr>"

text \<open>The attempts of a status write: \<open>ok n\<close> says whether the insertion of attempt \<open>n\<close> succeeds. The result is whether one did, and how many were made.\<close>

fun status_attempts :: "(nat \<Rightarrow> bool) \<Rightarrow> nat \<Rightarrow> nat \<Rightarrow> bool \<times> nat" where
  "status_attempts ok made 0 = (False, made)"
| "status_attempts ok made (Suc left) = (if ok made then (True, Suc made) else status_attempts ok (Suc made) left)"

(* src: api/src/filters/backfill/backfill.service.ts:310-340 updateTaskStatusWithRetry *)
definition updateTaskStatusWithRetry ::
    "(nat \<Rightarrow> bool) \<Rightarrow> int \<Rightarrow> task_row \<Rightarrow> row_status \<Rightarrow> string option \<Rightarrow> task_row list \<Rightarrow> bool \<times> nat \<times> task_row list" where
  "updateTaskStatusWithRetry ok now task status msg rows =
     (case status_attempts ok 0 5 of (done, made) \<Rightarrow>
        (done, made, if done then rows @ [updateTaskStatus now task status msg] else rows))"

subsection \<open>The background run\<close>

(* src: api/src/filters/backfill/backfill.service.ts:213-215 startBackfill *)
definition start_timer_fires :: "task_row \<Rightarrow> task_world \<Rightarrow> task_world" where
  "start_timer_fires t s =
     s\<lparr>tw_timers := remove1 t (tw_timers s), tw_running := AList.update (bt_id t) \<lparr>rn_task = t, rn_cancelled = False\<rparr> (tw_running s)\<rparr>"

definition progress_written :: "string \<Rightarrow> task_row \<Rightarrow> task_world \<Rightarrow> task_world" where
  "progress_written i t s = (case map_of (tw_running s) i of
       None \<Rightarrow> s
     | Some run \<Rightarrow> s\<lparr>tw_rows := tw_rows s @ [t], tw_running := AList.update i (run\<lparr>rn_task := t\<rparr>) (tw_running s)\<rparr>)"

text \<open>
  What follows \<open>processor.process(task)\<close>: the write of the outcome, the event, the write of a failure if either of these threw, and the
  removal from the running processors. \<open>ok1\<close> and \<open>ok2\<close> are the fates of the two series of writes; \<open>message\<close> is the sanitised text.
\<close>

(* src: api/src/filters/backfill/backfill.service.ts:220-273 startBackfill *)
definition run_ends ::
    "(nat \<Rightarrow> bool) \<Rightarrow> (nat \<Rightarrow> bool) \<Rightarrow> string \<Rightarrow> string \<Rightarrow> backfill_error + unit \<Rightarrow> task_world \<Rightarrow> task_world" where
  "run_ends ok1 ok2 message i result s = (case map_of (tw_running s) i of
       None \<Rightarrow> s
     | Some run \<Rightarrow>
        (let t = rn_task run;
             fail = (\<lambda>rows. snd (snd (updateTaskStatusWithRetry ok2 (tw_now s) t Task_failed (Some message) rows)));
             status = (if rn_cancelled run then Task_cancelled else Task_completed);
             s1 = (case result of
                 Inl e \<Rightarrow> s\<lparr>tw_rows := fail (tw_rows s)\<rparr>
               | Inr _ \<Rightarrow> (case updateTaskStatusWithRetry ok1 (tw_now s) t status None (tw_rows s) of (done, _, rows) \<Rightarrow>
                    (if \<not> done then s\<lparr>tw_rows := fail rows\<rparr>
                     else s\<lparr>tw_rows := rows, tw_emitted := (if rn_cancelled run then [] else [bt_workspace_id t]) @ tw_emitted s\<rparr>)))
         in s1\<lparr>tw_running := AList.delete i (tw_running s1)\<rparr>))"

subsection \<open>Cancelling, shutdown and recovery\<close>

(* src: api/src/filters/backfill/backfill.service.ts:390-426 cancelTask *)
definition cancelTask :: "string \<Rightarrow> task_world \<Rightarrow> (task_error + unit) \<times> task_world" where
  "cancelTask i s = (case latest (tw_rows s) i of
       None \<Rightarrow> (Inl (Task_not_found i), s)
     | Some t \<Rightarrow>
        (if bt_status t \<in> {Task_completed, Task_cancelled, Task_failed} then (Inl (Cannot_cancel (bt_status t)), s)
         else (Inr (), s\<lparr>tw_running := map (\<lambda>(j, run). (j, if j = i then run\<lparr>rn_cancelled := True\<rparr> else run)) (tw_running s),
                         tw_rows := tw_rows s @ [updateTaskStatus (tw_now s) t Task_cancelled None]\<rparr>)))"

(* src: api/src/filters/backfill/backfill.service.ts:61-124 onModuleDestroy_backfill *)
definition onModuleDestroy_backfill :: "task_world \<Rightarrow> task_world" where
  "onModuleDestroy_backfill s =
     (let note = (\<lambda>rows i. case latest rows i of
            Some t \<Rightarrow> (if bt_status t = Task_running
                       then rows @ [updateTaskStatus (tw_now s) t Task_cancelled (Some ''Service shutdown'')] else rows)
          | None \<Rightarrow> rows)
      in s\<lparr>tw_timers := [], tw_running := map (\<lambda>(i, run). (i, run\<lparr>rn_cancelled := True\<rparr>)) (tw_running s),
           tw_rows := fold (\<lambda>i rows. note rows i) (map fst (tw_running s)) (tw_rows s)\<rparr>)"

text \<open>A process that dies takes its timers, its processors and its unanswered requests with it.\<close>

definition process_dies :: "task_world \<Rightarrow> task_world" where
  "process_dies s = s\<lparr>tw_timers := [], tw_running := [], tw_requests := []\<rparr>"

(* src: api/src/filters/backfill/backfill.service.ts:130-155 recoverStaleTasks *)
definition recoverStaleTasks :: "int \<Rightarrow> task_world \<Rightarrow> task_world" where
  "recoverStaleTasks threshold s =
     (let stale = filter (\<lambda>t. bt_status t = Task_running \<and> bt_updated_at t < tw_now s - threshold * 60000) (final_rows (tw_rows s))
      in s\<lparr>tw_rows := tw_rows s @
             map (\<lambda>t. updateTaskStatus (tw_now s) t Task_failed (Some ''Task stale - recovered on service restart'')) stale\<rparr>)"

subsection \<open>Reporting\<close>

(* src: api/src/filters/backfill/backfill-task.entity.ts:29-47 BackfillTaskProgress *)
record task_progress =
  tp_id :: string
  tp_status :: row_status
  tp_progress_percent :: int
  tp_sessions :: "nat \<times> nat"
  tp_events :: "nat \<times> nat"
  tp_current_chunk :: "string option"
  tp_started_at :: "int option"
  tp_completed_at :: "int option"
  tp_error_message :: "string option"
  tp_estimated_remaining_seconds :: "int option"
  tp_filter_version :: string

text \<open>\<open>Math.round\<close>, on exact fractions.\<close>

definition js_round :: "rat \<Rightarrow> int" where
  "js_round x = \<lfloor>x + 1 / 2\<rfloor>"

(* src: api/src/filters/backfill/backfill.service.ts:497-502 toProgress *)
definition part_done :: "nat \<Rightarrow> nat \<Rightarrow> row_status \<Rightarrow> rat" where
  "part_done processed in_all status =
     (if 0 < in_all then of_nat processed / of_nat in_all else if status = Task_completed then 1 else 0)"

(* src: api/src/filters/backfill/backfill.service.ts:516-524 toProgress *)
definition remaining_seconds :: "int \<Rightarrow> task_row \<Rightarrow> int option" where
  "remaining_seconds now t = (case bt_started_at t of
       Some st \<Rightarrow> (if 0 < bt_processed_sessions t
         then (let elapsed = of_int (now - st) / 1000; per_second = of_nat (bt_processed_sessions t) / elapsed;
                   left = of_int (int (bt_total_sessions t) - int (bt_processed_sessions t))
               in Some (js_round (left / per_second)))
         else None)
     | None \<Rightarrow> None)"

(* src: api/src/filters/backfill/backfill.service.ts:493-553 toProgress *)
definition toProgress :: "(string \<Rightarrow> string) \<Rightarrow> int \<Rightarrow> task_row \<Rightarrow> task_progress" where
  "toProgress version now t =
     \<lparr>tp_id = bt_id t, tp_status = bt_status t,
      tp_progress_percent = js_round ((part_done (bt_processed_sessions t) (bt_total_sessions t) (bt_status t) * (7 / 10) +
                                       part_done (bt_processed_events t) (bt_total_events t) (bt_status t) * (3 / 10)) * 100),
      tp_sessions = (bt_processed_sessions t, bt_total_sessions t), tp_events = (bt_processed_events t, bt_total_events t),
      tp_current_chunk = bt_current_date_chunk t, tp_started_at = bt_started_at t, tp_completed_at = bt_completed_at t,
      tp_error_message = bt_error_message t, tp_estimated_remaining_seconds = remaining_seconds now t,
      tp_filter_version = version (js_or (bt_filters_snapshot t) ''[]'')\<rparr>"

(* src: api/src/filters/backfill/backfill.service.ts:374-385 getTaskStatus *)
definition getTaskStatus :: "(string \<Rightarrow> string) \<Rightarrow> string \<Rightarrow> task_world \<Rightarrow> task_error + task_progress" where
  "getTaskStatus version i s = (case latest (tw_rows s) i of
       None \<Rightarrow> Inl (Task_not_found i)
     | Some t \<Rightarrow> Inr (toProgress version (tw_now s) t))"

definition tasks_newest_first :: "string \<Rightarrow> task_world \<Rightarrow> task_row list" where
  "tasks_newest_first w s = sort_desc bt_created_at (filter (\<lambda>t. bt_workspace_id t = w) (final_rows (tw_rows s)))"

(* src: api/src/filters/backfill/backfill.service.ts:431-440 listTasks *)
definition listTasks :: "(string \<Rightarrow> string) \<Rightarrow> string \<Rightarrow> task_world \<Rightarrow> task_progress list" where
  "listTasks version w s = map (toProgress version (tw_now s)) (tasks_newest_first w s)"

(* src: api/src/filters/backfill/backfill.service.ts:28-33 BackfillSummary *)
record task_summary =
  su_needs_backfill :: bool
  su_current_version :: string
  su_last_version :: "string option"
  su_active_task :: "task_progress option"

(* src: api/src/filters/backfill/backfill.service.ts:446-488 getBackfillSummary *)
definition getBackfillSummary ::
    "(string \<Rightarrow> 'w option) \<Rightarrow> ('w \<Rightarrow> string) \<Rightarrow> (string \<Rightarrow> string) \<Rightarrow> string \<Rightarrow> task_world \<Rightarrow> task_error + task_summary" where
  "getBackfillSummary workspaces filters_text version w s = (case workspaces w of
       None \<Rightarrow> Inl Workspace_missing
     | Some ws \<Rightarrow>
        (let current = version (filters_text ws); tasks = tasks_newest_first w s;
             active = find is_active tasks; done = find (\<lambda>t. bt_status t = Task_completed) tasks;
             last_version = (case done of None \<Rightarrow> None | Some t \<Rightarrow> Some (version (js_or (bt_filters_snapshot t) ''[]'')))
         in Inr \<lparr>su_needs_backfill = (done = None \<or> last_version \<noteq> Some current), su_current_version = current,
                 su_last_version = last_version,
                 su_active_task = (case active of None \<Rightarrow> None | Some t \<Rightarrow> Some (toProgress version (tw_now s) t))\<rparr>))"

subsection \<open>Steps\<close>

text \<open>What stays the same of a task while its processor runs.\<close>

definition same_task :: "task_row \<Rightarrow> task_row \<Rightarrow> bool" where
  "same_task t u \<longleftrightarrow> bt_id t = bt_id u \<and> bt_workspace_id t = bt_workspace_id u \<and> bt_lookback_days t = bt_lookback_days u \<and>
     bt_chunk_size_days t = bt_chunk_size_days u \<and> bt_created_at t = bt_created_at u \<and> bt_filters_snapshot t = bt_filters_snapshot u"

text \<open>
  The steps. A label names the task a step cancels at a user's request; \<open>runs\<close> are the processors, with their environments, that may come
  to be: a run ends as the processor of its task ends.
\<close>

inductive task_step :: "('r backfill_env \<times> 'r processor) set \<Rightarrow> (string \<Rightarrow> 'w option) \<Rightarrow> ('w \<Rightarrow> string) \<Rightarrow> string option \<Rightarrow> task_world \<Rightarrow> task_world \<Rightarrow> bool"
  for runs workspaces filters_text where
  checked: "start_dto_ok dto \<Longrightarrow> start_check workspaces dto s = Inr w \<Longrightarrow>
     uuid \<notin> bt_id ` (set (tw_rows s) \<union> set (tw_requests s)) \<Longrightarrow>
     task_step runs workspaces filters_text None s (s\<lparr>tw_requests := new_task uuid (tw_now s) dto (filters_text w) # tw_requests s\<rparr>)"
| committed: "t \<in> set (tw_requests s) \<Longrightarrow>
     task_step runs workspaces filters_text None s (start_commit t (s\<lparr>tw_requests := filter (\<lambda>u. bt_id u \<noteq> bt_id t) (tw_requests s)\<rparr>))"
| fired: "t \<in> set (tw_timers s) \<Longrightarrow> task_step runs workspaces filters_text None s (start_timer_fires t s)"
| progressed: "map_of (tw_running s) i = Some run \<Longrightarrow> same_task t (rn_task run) \<Longrightarrow> bt_status t = Task_running \<Longrightarrow>
     task_step runs workspaces filters_text None s (progress_written i t s)"
| ended: "map_of (tw_running s) i = Some run \<Longrightarrow> (env, p) \<in> runs \<Longrightarrow> processInternal env p = (result, p1) \<Longrightarrow> same_task (fp_task p) (rn_task run) \<Longrightarrow>
     rn_cancelled run = fe_cancelled env (fp_ticks p1) \<Longrightarrow>
     task_step runs workspaces filters_text None s (run_ends ok1 ok2 message i result s)"
| cancelled: "cancelTask i s = (r, s') \<Longrightarrow> task_step runs workspaces filters_text (Some i) s s'"
| shut_down: "task_step runs workspaces filters_text None s (process_dies (onModuleDestroy_backfill s))"
| died: "task_step runs workspaces filters_text None s (process_dies s)"
| recovered: "task_step runs workspaces filters_text None s (recoverStaleTasks threshold s)"
| ticked: "tw_now s \<le> now \<Longrightarrow> task_step runs workspaces filters_text None s (s\<lparr>tw_now := now\<rparr>)"

inductive task_reachable :: "('r backfill_env \<times> 'r processor) set \<Rightarrow> (string \<Rightarrow> 'w option) \<Rightarrow> ('w \<Rightarrow> string) \<Rightarrow> task_world \<Rightarrow> task_world \<Rightarrow> bool"
  for runs workspaces filters_text s0 where
  start: "task_reachable runs workspaces filters_text s0 s0"
| step: "task_reachable runs workspaces filters_text s0 s \<Longrightarrow> task_step runs workspaces filters_text l s s' \<Longrightarrow>
     task_reachable runs workspaces filters_text s0 s'"

text \<open>Runs in which nobody cancels task \<open>i\<close>.\<close>

inductive runs_without_cancel :: "('r backfill_env \<times> 'r processor) set \<Rightarrow> (string \<Rightarrow> 'w option) \<Rightarrow> ('w \<Rightarrow> string) \<Rightarrow> string \<Rightarrow> task_world \<Rightarrow> task_world \<Rightarrow> bool"
  for runs workspaces filters_text i s0 where
  start: "runs_without_cancel runs workspaces filters_text i s0 s0"
| step: "runs_without_cancel runs workspaces filters_text i s0 s \<Longrightarrow> task_step runs workspaces filters_text l s s' \<Longrightarrow> l \<noteq> Some i \<Longrightarrow>
     runs_without_cancel runs workspaces filters_text i s0 s'"

definition no_tasks :: "int \<Rightarrow> task_world" where
  "no_tasks now = \<lparr>tw_rows = [], tw_timers = [], tw_running = [], tw_requests = [], tw_emitted = [], tw_now = now\<rparr>"

subsection \<open>Reading the merged table\<close>

lemma final_rows_ids: "bt_id ` set (final_rows rs) = bt_id ` set rs"
  by (induction rs) auto

lemma final_rows_snoc: "final_rows (rs @ [t]) = filter (\<lambda>r. bt_id r \<noteq> bt_id t) (final_rows rs) @ [t]"
  by (induction rs) auto

lemma latest_snoc: "latest (rs @ [t]) i = (if bt_id t = i then Some t else latest rs i)"
proof -
  have "find P (filter Q xs @ [t]) = (if P t then Some t else find P xs)" if "\<And>x. P x \<Longrightarrow> Q x = (\<not> P t)" "\<not> P t \<Longrightarrow> \<forall>x. P x \<longrightarrow> Q x"
    for P Q xs
    using that by (induction xs) auto
  from this [of "\<lambda>x. bt_id x = i" "\<lambda>r. bt_id r \<noteq> bt_id t" "final_rows rs"] show ?thesis
    by (auto simp: latest_def final_rows_snoc)
qed

lemma latest_append: "latest (rs @ ts) i = (case latest ts i of Some t \<Rightarrow> Some t | None \<Rightarrow> latest rs i)"
proof (induction ts rule: rev_induct)
  case Nil
  then show ?case by (simp add: latest_def)
next
  case (snoc t ts)
  then show ?case by (simp add: latest_snoc flip: append_assoc)
qed

lemma latest_None: "latest rs i = None \<longleftrightarrow> i \<notin> bt_id ` set rs"
  unfolding final_rows_ids [of rs, symmetric] by (auto simp: latest_def find_None_iff)

lemma latest_id: "latest rs i = Some t \<Longrightarrow> bt_id t = i \<and> t \<in> set rs"
proof (induction rs rule: rev_induct)
  case Nil
  then show ?case by (simp add: latest_def)
next
  case (snoc r rs)
  then show ?case by (auto simp: latest_snoc split: if_splits)
qed

lemma final_rows_latest: "t \<in> set (final_rows rs) \<longleftrightarrow> latest rs (bt_id t) = Some t"
  by (induction rs rule: rev_induct) (auto simp: latest_snoc final_rows_snoc, simp add: latest_def)

subsection \<open>A completed task was processed\<close>

text \<open>Every task carries the bounds of the request; only the end of a run completes one.\<close>

definition task_ok :: "task_row \<Rightarrow> bool" where
  "task_ok t \<longleftrightarrow> 1 \<le> bt_lookback_days t \<and> bt_lookback_days t \<le> 365 \<and> 1 \<le> bt_chunk_size_days t \<and> bt_chunk_size_days t \<le> 30"

definition was_processed :: "('r backfill_env \<times> 'r processor) set \<Rightarrow> task_row \<Rightarrow> bool" where
  "was_processed runs t \<longleftrightarrow> (\<exists>env p p1. (env, p) \<in> runs \<and> same_task (fp_task p) t \<and> processInternal env p = (Inr (), p1) \<and>
     \<not> fe_cancelled env (fp_ticks p1))"

definition row_ok :: "('r backfill_env \<times> 'r processor) set \<Rightarrow> task_row \<Rightarrow> bool" where
  "row_ok runs t \<longleftrightarrow> task_ok t \<and> (bt_status t = Task_completed \<longrightarrow> was_processed runs t)"

definition tasks_ok :: "('r backfill_env \<times> 'r processor) set \<Rightarrow> task_world \<Rightarrow> bool" where
  "tasks_ok runs s \<longleftrightarrow>
     (\<forall>t \<in> set (tw_rows s). row_ok runs t) \<and>
     (\<forall>t \<in> set (tw_timers s) \<union> set (tw_requests s). task_ok t \<and> is_active t) \<and>
     (\<forall>r \<in> set (tw_running s). task_ok (rn_task (snd r)) \<and> is_active (rn_task (snd r)))"

lemma new_task_ok: "start_dto_ok dto \<Longrightarrow> task_ok (new_task uuid now dto text) \<and> is_active (new_task uuid now dto text)"
  by (auto simp: start_dto_ok_def new_task_def task_ok_def is_active_def js_nullish_def split: option.splits)

lemma task_ok_status [simp]: "task_ok (updateTaskStatus now t st msg) = task_ok t"
  by (simp add: updateTaskStatus_def task_ok_def)

lemma status_updated [simp]: "bt_status (updateTaskStatus now t st msg) = st" "bt_id (updateTaskStatus now t st msg) = bt_id t"
  "bt_workspace_id (updateTaskStatus now t st msg) = bt_workspace_id t"
  by (simp_all add: updateTaskStatus_def)

lemma row_ok_status: "task_ok t \<Longrightarrow> st \<noteq> Task_completed \<Longrightarrow> row_ok runs (updateTaskStatus now t st msg)"
  by (simp add: row_ok_def)

lemma row_ok_active: "task_ok t \<Longrightarrow> is_active t \<Longrightarrow> row_ok runs t"
  by (auto simp: row_ok_def is_active_def)

lemma same_task_ok: "same_task t u \<Longrightarrow> task_ok t = task_ok u"
  by (simp add: same_task_def task_ok_def)

lemma rows_of_retry:
  "set (snd (snd (updateTaskStatusWithRetry ok now t st msg rows))) \<subseteq> insert (updateTaskStatus now t st msg) (set rows)"
  by (auto simp: updateTaskStatusWithRetry_def split: prod.splits if_splits)

lemma set_update_pairs: "set (AList.update k v al) \<subseteq> insert (k, v) (set al)"
  by (induction al) auto

lemma update_values: "(\<forall>x \<in> set al. Q (snd x)) \<Longrightarrow> Q v \<Longrightarrow> (\<forall>x \<in> set (AList.update k v al). Q (snd x))"
  using set_update_pairs [of k v al] by auto

lemma flag_values:
  "(\<forall>r \<in> set (map (\<lambda>(j, run). (j, if j = i then run\<lparr>rn_cancelled := True\<rparr> else run)) al). Q (fst r) (rn_task (snd r))) \<longleftrightarrow>
     (\<forall>r \<in> set al. Q (fst r) (rn_task (snd r)))"
  by (induction al) (auto split: if_splits)

lemma set_delete_pairs: "set (AList.delete k al) \<subseteq> set al"
  by (auto simp: AList.delete_eq)

lemma run_ends_ok:
  assumes "tasks_ok runs s" and "map_of (tw_running s) i = Some run" and "(env, p) \<in> runs"
    and "processInternal env p = (result, p1)" and "same_task (fp_task p) (rn_task run)" and "rn_cancelled run = fe_cancelled env (fp_ticks p1)"
  shows "tasks_ok runs (run_ends ok1 ok2 message i result s)"
proof -
  let ?t = "rn_task run"
  have t: "task_ok ?t" using assms(1,2) by (force simp: tasks_ok_def dest: map_of_SomeD)
  have failed: "row_ok runs (updateTaskStatus (tw_now s) ?t Task_failed (Some message))"
    "row_ok runs (updateTaskStatus (tw_now s) ?t Task_cancelled None)"
    using t by (simp_all add: row_ok_status)
  have completed: "row_ok runs (updateTaskStatus (tw_now s) ?t Task_completed None)"
    if "result = Inr ()" "\<not> rn_cancelled run"
  proof -
    have "same_task (fp_task p) (updateTaskStatus (tw_now s) ?t Task_completed None)"
      using assms(5) by (simp add: same_task_def updateTaskStatus_def)
    then have "was_processed runs (updateTaskStatus (tw_now s) ?t Task_completed None)"
      using assms(3,4,6) that by (auto simp: was_processed_def)
    with t show ?thesis by (simp add: row_ok_def)
  qed
  let ?fail = "\<lambda>rows. snd (snd (updateTaskStatusWithRetry ok2 (tw_now s) ?t Task_failed (Some message) rows))"
  have rows: "\<forall>u \<in> set (tw_rows (run_ends ok1 ok2 message i result s)). row_ok runs u"
  proof (cases result)
    case (Inl e)
    then show ?thesis
      using rows_of_retry [of ok2 "tw_now s" ?t Task_failed "Some message" "tw_rows s"] failed(1) assms(1,2)
      by (auto simp: run_ends_def tasks_ok_def Let_def subset_iff)
  next
    case (Inr u)
    let ?st = "if rn_cancelled run then Task_cancelled else Task_completed"
    obtain fin made rows1 where r1: "updateTaskStatusWithRetry ok1 (tw_now s) ?t ?st None (tw_rows s) = (fin, made, rows1)"
      by (cases "updateTaskStatusWithRetry ok1 (tw_now s) ?t ?st None (tw_rows s)") auto
    have "set rows1 \<subseteq> insert (updateTaskStatus (tw_now s) ?t ?st None) (set (tw_rows s))"
      using rows_of_retry [of ok1 "tw_now s" ?t ?st None "tw_rows s"] by (simp only: r1 snd_conv)
    moreover have "row_ok runs (updateTaskStatus (tw_now s) ?t ?st None)" using failed(2) completed Inr by simp
    ultimately have 1: "\<forall>u \<in> set rows1. row_ok runs u" using assms(1) by (auto simp: tasks_ok_def)
    then have 2: "\<forall>u \<in> set (?fail rows1). row_ok runs u"
      using rows_of_retry [of ok2 "tw_now s" ?t Task_failed "Some message" rows1] failed(1) by (auto simp: subset_iff)
    show ?thesis using 1 2 Inr assms(2) by (simp add: run_ends_def r1 Let_def)
  qed
  have rest: "tw_timers (run_ends ok1 ok2 message i result s) = tw_timers s" "tw_requests (run_ends ok1 ok2 message i result s) = tw_requests s"
    "set (tw_running (run_ends ok1 ok2 message i result s)) \<subseteq> set (tw_running s)"
    using assms(2) set_delete_pairs [of i "tw_running s"]
    by (auto simp: run_ends_def Let_def split: sum.splits prod.splits)
  show ?thesis using rows rest(3) assms(1) unfolding tasks_ok_def rest(1,2) by blast
qed

lemma tasks_ok_rows: "tasks_ok runs s \<Longrightarrow> \<forall>t \<in> set rows. row_ok runs t \<Longrightarrow> tasks_ok runs (s\<lparr>tw_rows := rows\<rparr>)"
  by (simp add: tasks_ok_def)

lemma onModuleDestroy_rows:
  assumes "tasks_ok runs s"
  shows "\<forall>t \<in> set (tw_rows (onModuleDestroy_backfill s)). row_ok runs t"
proof -
  let ?note = "\<lambda>i rows. case latest rows i of
            Some t \<Rightarrow> (if bt_status t = Task_running
                       then rows @ [updateTaskStatus (tw_now s) t Task_cancelled (Some ''Service shutdown'')] else rows)
          | None \<Rightarrow> rows"
  have one: "\<forall>t \<in> set (?note i rows). row_ok runs t" if "\<forall>t \<in> set rows. row_ok runs t" for i rows
    using that by (auto split: option.splits dest!: latest_id simp: row_ok_def)
  have "\<forall>t \<in> set (fold ?note is rows). row_ok runs t" if "\<forall>t \<in> set rows. row_ok runs t" for "is" rows
    using that
  proof (induction "is" arbitrary: rows)
    case (Cons i "is")
    show ?case unfolding fold_simps by (rule Cons.IH, rule one, rule Cons.prems)
  qed simp
  from this [of "tw_rows s" "map fst (tw_running s)"] show ?thesis
    using assms by (simp add: onModuleDestroy_backfill_def Let_def tasks_ok_def)
qed

lemma task_step_ok:
  assumes "task_step runs workspaces filters_text l s s'" and "tasks_ok runs s"
  shows "tasks_ok runs s'"
  using assms
proof (cases rule: task_step.cases)
  case (checked dto w uuid)
  then show ?thesis using assms(2) new_task_ok [of dto uuid] by (auto simp: tasks_ok_def)
next
  case (committed t)
  then show ?thesis using assms(2) row_ok_active by (auto simp: tasks_ok_def start_commit_def)
next
  case (fired t)
  then show ?thesis
    using assms(2) update_values [of "tw_running s" "\<lambda>r. task_ok (rn_task r) \<and> is_active (rn_task r)" "\<lparr>rn_task = t, rn_cancelled = False\<rparr>" "bt_id t"]
      set_remove1_subset [of t "tw_timers s"]
    by (auto simp: tasks_ok_def start_timer_fires_def)
next
  case (progressed i run t)
  have "task_ok t" using progressed assms(2) same_task_ok by (force simp: tasks_ok_def dest: map_of_SomeD)
  then show ?thesis
    using progressed assms(2) update_values [of "tw_running s" "\<lambda>r. task_ok (rn_task r) \<and> is_active (rn_task r)" "run\<lparr>rn_task := t\<rparr>" i]
    by (simp add: tasks_ok_def progress_written_def is_active_def row_ok_def ball_Un)
next
  case (ended i run env p result p1 ok1 ok2 message)
  then show ?thesis using run_ends_ok [OF assms(2)] by blast
next
  case (cancelled i r)
  then show ?thesis
    using assms(2) flag_values [of i "tw_running s" "\<lambda>_ t. task_ok t \<and> is_active t"]
    by (auto simp: tasks_ok_def cancelTask_def row_ok_def simp del: set_map split: option.splits if_splits dest!: latest_id)
next
  case shut_down
  then show ?thesis using onModuleDestroy_rows [OF assms(2)] by (simp add: tasks_ok_def process_dies_def)
next
  case died
  then show ?thesis using assms(2) by (simp add: tasks_ok_def process_dies_def)
next
  case (recovered threshold)
  have "row_ok runs (updateTaskStatus (tw_now s) t Task_failed m)" if "t \<in> set (final_rows (tw_rows s))" for t m
    using that assms(2) by (auto simp: final_rows_latest tasks_ok_def row_ok_def intro!: row_ok_status dest!: latest_id)
  then show ?thesis using recovered assms(2) by (auto simp: tasks_ok_def recoverStaleTasks_def Let_def)
next
  case (ticked now)
  then show ?thesis using assms(2) by (simp add: tasks_ok_def)
qed

lemma task_reachable_ok: "task_reachable runs workspaces filters_text (no_tasks now) s \<Longrightarrow> tasks_ok runs s"
  by (induction rule: task_reachable.induct) (simp add: tasks_ok_def no_tasks_def, blast intro: task_step_ok)

text \<open>
  C10: Whatever happens to a server, however requests, progress, cancellations, failing writes, crashes and recoveries interleave: a
  task that is shown as completed has had a processor of its own, with its rules and its days, that ran to its end without
  being cancelled.
\<close>

theorem completed_was_processed:
  assumes "task_reachable runs workspaces filters_text (no_tasks now) s" and "latest (tw_rows s) i = Some t" and "bt_status t = Task_completed"
  shows "\<exists>env p p1. (env, p) \<in> runs \<and> bt_id (fp_task p) = i \<and> bt_filters_snapshot (fp_task p) = bt_filters_snapshot t \<and>
     processInternal env p = (Inr (), p1) \<and> \<not> fe_cancelled env (fp_ticks p1)"
proof -
  have "row_ok runs t" and "bt_id t = i" using task_reachable_ok [OF assms(1)] latest_id [OF assms(2)] by (auto simp: tasks_ok_def)
  then show ?thesis using assms(3) by (auto simp: row_ok_def was_processed_def same_task_def)
qed

subsection \<open>Tasks nobody will ever finish\<close>

text \<open>A pending task without a timer, a processor or a request in flight.\<close>

definition stranded :: "string \<Rightarrow> string \<Rightarrow> task_world \<Rightarrow> bool" where
  "stranded w i s \<longleftrightarrow>
     (\<exists>t. latest (tw_rows s) i = Some t \<and> bt_status t = Task_pending \<and> bt_workspace_id t = w) \<and>
     i \<notin> bt_id ` (set (tw_timers s) \<union> set (tw_requests s)) \<and> i \<notin> fst ` set (tw_running s)"

lemma stranded_simps:
  "stranded w i (s\<lparr>tw_now := n\<rparr>) = stranded w i s"
  by (simp add: stranded_def)

lemma latest_others: "i \<notin> bt_id ` set ts \<Longrightarrow> latest (rs @ ts) i = latest rs i"
  by (simp add: latest_append latest_None [THEN iffD2])

lemma running_ids: "fst ` set (AList.delete j al) \<subseteq> fst ` set al" "fst ` set (AList.update j v al) = insert j (fst ` set al)"
  using set_delete_pairs [of j al] by (auto simp: AList.dom_update simp flip: set_map) (auto simp: image_iff)

lemma run_ends_others:
  assumes "map_of (tw_running s) j = Some run" and "bt_id (rn_task run) = j" and "i \<noteq> j"
  shows "latest (tw_rows (run_ends ok1 ok2 message j result s)) i = latest (tw_rows s) i"
  using assms(1) assms(2,3)
  by (auto simp: run_ends_def updateTaskStatusWithRetry_def Let_def latest_snoc split: sum.splits prod.splits)

lemma run_ends_frame:
  "tw_timers (run_ends ok1 ok2 message i result s) = tw_timers s" "tw_requests (run_ends ok1 ok2 message i result s) = tw_requests s"
  "fst ` set (tw_running (run_ends ok1 ok2 message i result s)) \<subseteq> fst ` set (tw_running s)"
  using running_ids(1) [of i "tw_running s"]
  by (auto simp: run_ends_def Let_def split: sum.splits prod.splits option.splits)

text \<open>Processors run under the id of their task.\<close>

definition running_named :: "task_world \<Rightarrow> bool" where
  "running_named s \<longleftrightarrow> (\<forall>r \<in> set (tw_running s). bt_id (rn_task (snd r)) = fst r)"

lemma update_pairs: "(\<forall>x \<in> set al. Q x) \<Longrightarrow> Q (k, v) \<Longrightarrow> (\<forall>x \<in> set (AList.update k v al). Q x)"
  using set_update_pairs [of k v al] by auto

lemma task_step_named:
  assumes "task_step runs workspaces filters_text l s s'" and "running_named s"
  shows "running_named s'"
  using assms
proof (cases rule: task_step.cases)
  case (fired t)
  then show ?thesis using assms(2) update_pairs [of "tw_running s" "\<lambda>r. bt_id (rn_task (snd r)) = fst r" "bt_id t" "\<lparr>rn_task = t, rn_cancelled = False\<rparr>"]
    by (simp add: running_named_def start_timer_fires_def)
next
  case (progressed i run t)
  then have "bt_id (rn_task run) = i" using assms(2) by (force simp: running_named_def dest: map_of_SomeD)
  then show ?thesis
    using progressed assms(2) update_pairs [of "tw_running s" "\<lambda>r. bt_id (rn_task (snd r)) = fst r" i "run\<lparr>rn_task := t\<rparr>"]
    by (simp add: running_named_def progress_written_def same_task_def)
next
  case (ended i run env p result p1 ok1 ok2 message)
  then show ?thesis using assms(2) set_delete_pairs [of i "tw_running s"]
    by (auto simp: running_named_def run_ends_def Let_def split: sum.splits prod.splits)
next
  case (cancelled i r)
  then show ?thesis using assms(2) flag_values [of i "tw_running s" "\<lambda>j t. bt_id t = j"]
    by (auto simp: running_named_def cancelTask_def simp del: set_map split: option.splits if_splits)
qed (use assms(2) in \<open>auto simp: running_named_def start_commit_def process_dies_def recoverStaleTasks_def Let_def\<close>)

lemma recovered_others: "latest rs i = Some t \<Longrightarrow> bt_status t \<noteq> Task_running \<Longrightarrow>
  latest (rs @ map f (filter (\<lambda>t. bt_status t = Task_running \<and> P t) (final_rows rs))) i = latest rs i"
  if "\<And>t. bt_id (f t) = bt_id t" for f
  by (rule latest_others) (auto simp: that final_rows_latest)

lemma shutdown_others:
  assumes "latest rs i = Some t" and "bt_status t \<noteq> Task_running"
  shows "latest (fold (\<lambda>j rows. case latest rows j of
            Some t \<Rightarrow> (if bt_status t = Task_running then rows @ [updateTaskStatus now t Task_cancelled m] else rows)
          | None \<Rightarrow> rows) js rs) i = Some t"
  using assms(1)
proof (induction js arbitrary: rs)
  case (Cons j js)
  have "latest (case latest rs j of
            Some t \<Rightarrow> (if bt_status t = Task_running then rs @ [updateTaskStatus now t Task_cancelled m] else rs)
          | None \<Rightarrow> rs) i = Some t"
    using Cons.prems assms(2) by (auto simp: latest_snoc split: option.splits) (metis latest_id option.inject)
  then show ?case unfolding fold_simps by (rule Cons.IH)
qed simp

lemma flag_ids: "fst ` set (map (\<lambda>(j, run). (j, f j run)) al) = fst ` set al"
  by force

lemma stranded_step:
  assumes "task_step runs workspaces filters_text l s s'" and "stranded w i s" and "running_named s" and "l \<noteq> Some i"
  shows "stranded w i s'"
proof -
  obtain t0 where t0: "latest (tw_rows s) i = Some t0" "bt_status t0 = Task_pending" "bt_workspace_id t0 = w"
    using assms(2) by (auto simp: stranded_def)
  have i: "i \<in> bt_id ` set (tw_rows s)" using latest_id [OF t0(1)] by auto
  from assms(1) show ?thesis
  proof (cases rule: task_step.cases)
    case (checked dto ws uuid)
    then show ?thesis using assms(2) i by (auto simp: stranded_def new_task_def)
  next
    case (committed t)
    then show ?thesis using assms(2) by (auto simp: stranded_def start_commit_def latest_snoc)
  next
    case (fired t)
    then show ?thesis using assms(2) set_remove1_subset [of t "tw_timers s"]
      by (auto simp: stranded_def start_timer_fires_def running_ids)
  next
    case (progressed j run t)
    then have "j \<noteq> i" using assms(2) by (force simp: stranded_def dest: map_of_SomeD)
    moreover have "bt_id t = j" using progressed assms(3) by (force simp: running_named_def same_task_def dest: map_of_SomeD)
    ultimately show ?thesis using progressed assms(2) by (simp add: stranded_def progress_written_def latest_snoc running_ids)
  next
    case (ended j run env p result p1 ok1 ok2 message)
    then have "j \<noteq> i" using assms(2) by (force simp: stranded_def dest: map_of_SomeD)
    moreover have "bt_id (rn_task run) = j" using ended assms(3) by (force simp: running_named_def dest: map_of_SomeD)
    ultimately have "latest (tw_rows s') i = latest (tw_rows s) i" using run_ends_others ended by metis
    then show ?thesis using assms(2) ended(2) run_ends_frame [of ok1 ok2 message j result s] unfolding stranded_def by auto
  next
    case (cancelled j r)
    then have "j \<noteq> i" using assms(4) by simp
    have frame: "tw_timers s' = tw_timers s" "tw_requests s' = tw_requests s" "fst ` set (tw_running s') = fst ` set (tw_running s)"
    proof -
      have "s' = s \<or> (\<exists>rows. s' = s\<lparr>tw_running := map (\<lambda>(k, run). (k, if k = j then run\<lparr>rn_cancelled := True\<rparr> else run)) (tw_running s),
          tw_rows := rows\<rparr>)"
        using cancelled(2) by (auto simp: cancelTask_def split: option.splits if_splits)
      then show "tw_timers s' = tw_timers s" "tw_requests s' = tw_requests s" "fst ` set (tw_running s') = fst ` set (tw_running s)"
        by (elim disjE exE; simp add: flag_ids del: set_map)+
    qed
    have "latest (tw_rows s') i = latest (tw_rows s) i"
      using cancelled(2) \<open>j \<noteq> i\<close> by (auto simp: cancelTask_def latest_snoc split: option.splits if_splits dest: latest_id)
    with assms(2) show ?thesis unfolding stranded_def frame by simp
  next
    case shut_down
    then show ?thesis using assms(2) shutdown_others [OF t0(1)] t0
      by (auto simp: stranded_def process_dies_def onModuleDestroy_backfill_def Let_def)
  next
    case died
    then show ?thesis using assms(2) by (auto simp: stranded_def process_dies_def)
  next
    case (recovered threshold)
    then show ?thesis using assms(2) t0 recovered_others [OF _ t0(1)] by (auto simp: stranded_def recoverStaleTasks_def Let_def)
  next
    case (ticked now)
    then show ?thesis using assms(2) by (simp add: stranded_simps)
  qed
qed

text \<open>
  C23: A task that is pending when its process stops before its timer fired is never picked up again: recovery looks at
  running tasks only. Until somebody cancels it by hand, no backfill of the workspace can be started any more,
  through whatever restarts and recoveries.
\<close>

theorem stranded_task_blocks:
  assumes "runs_without_cancel runs workspaces filters_text i s0 s" and "stranded w i s0" and "running_named s0"
  shows "\<nexists>x s'. startBackfill workspaces filters_text uuid \<lparr>sb_workspace_id = w, sb_lookback_days = l, sb_chunk_size_days = c, sb_batch_size = b\<rparr> s
            = (Inr x, s')"
proof -
  have "stranded w i s \<and> running_named s"
    using assms by (induction rule: runs_without_cancel.induct) (auto intro: stranded_step task_step_named)
  then obtain t where t: "latest (tw_rows s) i = Some t" "bt_status t = Task_pending" "bt_workspace_id t = w"
    by (auto simp: stranded_def)
  then have "t \<in> set (filter (\<lambda>t. bt_workspace_id t = w \<and> is_active t) (final_rows (tw_rows s)))"
    using latest_id [OF t(1)] by (auto simp: final_rows_latest is_active_def)
  then show ?thesis
    by (auto simp: startBackfill_def start_check_def filter_empty_conv split: option.splits list.splits)
qed

definition sample_start :: start_backfill_dto where
  "sample_start = \<lparr>sb_workspace_id = ''w1'', sb_lookback_days = 3, sb_chunk_size_days = Some 1, sb_batch_size = None\<rparr>"

lemma stranded_task_blocks_witness:
  "\<exists>s1. startBackfill (\<lambda>_. Some ()) (\<lambda>_. ''rules'') ''t1'' sample_start (no_tasks 0) = (Inr ''t1'', s1) \<and>
     (\<nexists>x s'. startBackfill (\<lambda>_. Some ()) (\<lambda>_. ''rules'') ''t2'' sample_start
        (recoverStaleTasks 5 ((process_dies (onModuleDestroy_backfill s1))\<lparr>tw_now := 86400000\<rparr>)) = (Inr x, s'))"
proof -
  let ?t = "new_task ''t1'' 0 sample_start ''rules''"
  let ?s1 = "start_commit ?t (no_tasks 0)"
  let ?s2 = "process_dies (onModuleDestroy_backfill ?s1)"
  have s1: "startBackfill (\<lambda>_. Some ()) (\<lambda>_. ''rules'') ''t1'' sample_start (no_tasks 0) = (Inr ''t1'', ?s1)"
    by (simp add: startBackfill_def start_check_def no_tasks_def)
  have 2: "stranded ''w1'' ''t1'' ?s2" "running_named ?s2"
    by (simp_all add: stranded_def running_named_def process_dies_def onModuleDestroy_backfill_def start_commit_def no_tasks_def latest_def
        new_task_def sample_start_def)
  let ?step = "task_step ({} :: (unit backfill_env \<times> unit processor) set) (\<lambda>_. Some ()) (\<lambda>_. ''rules'')"
  have "?step None ?s2 (?s2\<lparr>tw_now := 86400000\<rparr>)"
    by (rule task_step.ticked) (simp add: process_dies_def onModuleDestroy_backfill_def start_commit_def no_tasks_def)
  moreover have "?step None (?s2\<lparr>tw_now := 86400000\<rparr>) (recoverStaleTasks 5 (?s2\<lparr>tw_now := 86400000\<rparr>))" by (rule task_step.recovered)
  ultimately have "runs_without_cancel ({} :: (unit backfill_env \<times> unit processor) set) (\<lambda>_. Some ()) (\<lambda>_. ''rules'') ''t1'' ?s2
      (recoverStaleTasks 5 (?s2\<lparr>tw_now := 86400000\<rparr>))"
    by (blast intro: runs_without_cancel.intros)
  from stranded_task_blocks [OF this 2, of "''t2''" 3 "Some 1" None] show ?thesis
    using s1 by (simp add: sample_start_def)
qed

subsection \<open>What a cancellation and two requests at once can lead to\<close>

text \<open>
  The row of a cancellation is written beside the processor, which goes on until its next chunk and keeps writing its own rows: a task whose
  cancellation was answered with success can be shown as running again, and then refuses a new backfill.
\<close>

theorem cancelled_task_reopened:
  "\<exists>s s1 s2. task_reachable ({} :: (unit backfill_env \<times> unit processor) set) (\<lambda>_. Some ()) (\<lambda>_. ''rules'') (no_tasks 0) s \<and>
     cancelTask ''t1'' s = (Inr (), s1) \<and> task_step ({} :: (unit backfill_env \<times> unit processor) set) (\<lambda>_. Some ()) (\<lambda>_. ''rules'') None s1 s2 \<and>
     (\<exists>t. latest (tw_rows s2) ''t1'' = Some t \<and> bt_status t = Task_running) \<and>
     fst (startBackfill (\<lambda>_. Some ()) (\<lambda>_. ''rules'') ''t2'' sample_start s2) = Inl (Already_in_progress ''t1'')"
proof -
  let ?R = "{} :: (unit backfill_env \<times> unit processor) set"
  let ?step = "task_step ?R (\<lambda>_. Some ()) (\<lambda>_. ''rules'')"
  define t where "t = new_task ''t1'' 0 sample_start ''rules''"
  define u where "u = t\<lparr>bt_status := Task_running\<rparr>"
  define s1 where "s1 = (no_tasks 0)\<lparr>tw_requests := [t]\<rparr>"
  define s2 where "s2 = (no_tasks 0)\<lparr>tw_rows := [t], tw_timers := [t]\<rparr>"
  define s3 where "s3 = (no_tasks 0)\<lparr>tw_rows := [t], tw_running := [(''t1'', \<lparr>rn_task = t, rn_cancelled = False\<rparr>)]\<rparr>"
  define s4 where "s4 = (no_tasks 0)\<lparr>tw_rows := [t, u], tw_running := [(''t1'', \<lparr>rn_task = u, rn_cancelled = False\<rparr>)]\<rparr>"
  define s5 where "s5 = (no_tasks 0)\<lparr>tw_rows := [t, u, updateTaskStatus 0 u Task_cancelled None],
      tw_running := [(''t1'', \<lparr>rn_task = u, rn_cancelled = True\<rparr>)]\<rparr>"
  define s6 where "s6 = (no_tasks 0)\<lparr>tw_rows := [t, u, updateTaskStatus 0 u Task_cancelled None, u],
      tw_running := [(''t1'', \<lparr>rn_task = u, rn_cancelled = True\<rparr>)]\<rparr>"
  note d = t_def u_def s1_def s2_def s3_def s4_def s5_def s6_def no_tasks_def new_task_def sample_start_def
  have a1: "?step None (no_tasks 0) s1"
    using task_step.checked [of sample_start "\<lambda>_. Some ()" "no_tasks 0" "()" "''t1''" ?R "\<lambda>_. ''rules''"]
    by (simp add: d start_dto_ok_def start_check_def)
  have a2: "?step None s1 s2"
    using task_step.committed [of t s1 ?R "\<lambda>_. Some ()" "\<lambda>_. ''rules''"] by (simp add: d start_commit_def)
  have a3: "?step None s2 s3"
    using task_step.fired [of t s2 ?R "\<lambda>_. Some ()" "\<lambda>_. ''rules''"] by (simp add: d start_timer_fires_def)
  have a4: "?step None s3 s4"
    using task_step.progressed [of s3 "''t1''" "\<lparr>rn_task = t, rn_cancelled = False\<rparr>" u ?R "\<lambda>_. Some ()" "\<lambda>_. ''rules''"]
    by (simp add: d progress_written_def same_task_def)
  have r: "task_reachable ?R (\<lambda>_. Some ()) (\<lambda>_. ''rules'') (no_tasks 0) s4"
    by (rule task_reachable.step [OF task_reachable.step [OF task_reachable.step [OF task_reachable.step [OF task_reachable.start a1] a2] a3] a4])
  have c: "cancelTask ''t1'' s4 = (Inr (), s5)" by (simp add: d cancelTask_def latest_def)
  have p: "?step None s5 s6"
    using task_step.progressed [of s5 "''t1''" "\<lparr>rn_task = u, rn_cancelled = True\<rparr>" u ?R "\<lambda>_. Some ()" "\<lambda>_. ''rules''"]
    by (simp add: d progress_written_def same_task_def)
  have "latest (tw_rows s6) ''t1'' = Some u" "bt_status u = Task_running"
    "fst (startBackfill (\<lambda>_. Some ()) (\<lambda>_. ''rules'') ''t2'' sample_start s6) = Inl (Already_in_progress ''t1'')"
    by (simp_all add: d latest_def startBackfill_def start_check_def is_active_def updateTaskStatus_def)
  with r c p show ?thesis by blast
qed

text \<open>The check for a running backfill and the insertion of the task are separate: two requests at once both pass it.\<close>

theorem two_backfills_at_once:
  "\<exists>s. task_reachable ({} :: (unit backfill_env \<times> unit processor) set) (\<lambda>_. Some ()) (\<lambda>_. ''rules'') (no_tasks 0) s \<and>
     length (filter (\<lambda>t. bt_workspace_id t = ''w1'' \<and> is_active t) (final_rows (tw_rows s))) = 2"
proof -
  let ?R = "{} :: (unit backfill_env \<times> unit processor) set"
  let ?step = "task_step ?R (\<lambda>_. Some ()) (\<lambda>_. ''rules'')"
  define t where "t = new_task ''t1'' 0 sample_start ''rules''"
  define u where "u = new_task ''t2'' 0 sample_start ''rules''"
  define s1 where "s1 = (no_tasks 0)\<lparr>tw_requests := [t]\<rparr>"
  define s2 where "s2 = (no_tasks 0)\<lparr>tw_requests := [u, t]\<rparr>"
  define s3 where "s3 = (no_tasks 0)\<lparr>tw_rows := [t], tw_timers := [t], tw_requests := [u]\<rparr>"
  define s4 where "s4 = (no_tasks 0)\<lparr>tw_rows := [t, u], tw_timers := [t, u]\<rparr>"
  note d = t_def u_def s1_def s2_def s3_def s4_def no_tasks_def new_task_def sample_start_def
  have a1: "?step None (no_tasks 0) s1"
    using task_step.checked [of sample_start "\<lambda>_. Some ()" "no_tasks 0" "()" "''t1''" ?R "\<lambda>_. ''rules''"]
    by (simp add: d start_dto_ok_def start_check_def)
  have a2: "?step None s1 s2"
    using task_step.checked [of sample_start "\<lambda>_. Some ()" s1 "()" "''t2''" ?R "\<lambda>_. ''rules''"]
    by (simp add: d start_dto_ok_def start_check_def)
  have a3: "?step None s2 s3"
    using task_step.committed [of t s2 ?R "\<lambda>_. Some ()" "\<lambda>_. ''rules''"] by (simp add: d start_commit_def)
  have a4: "?step None s3 s4"
    using task_step.committed [of u s3 ?R "\<lambda>_. Some ()" "\<lambda>_. ''rules''"] by (simp add: d start_commit_def)
  have r: "task_reachable ?R (\<lambda>_. Some ()) (\<lambda>_. ''rules'') (no_tasks 0) s4"
    by (rule task_reachable.step [OF task_reachable.step [OF task_reachable.step [OF task_reachable.step [OF task_reachable.start a1] a2] a3] a4])
  have "length (filter (\<lambda>t. bt_workspace_id t = ''w1'' \<and> is_active t) (final_rows (tw_rows s4))) = 2"
    by (simp add: d is_active_def)
  with r show ?thesis by blast
qed

lemma completed_was_processed_witness:
  "\<exists>s t env p p1. task_reachable {(sample_backfill_env sample_backfill_rules, sample_processor 1)} (\<lambda>_. Some ()) (\<lambda>_. ''rules'') (no_tasks 0) s \<and>
     latest (tw_rows s) ''t1'' = Some t \<and> bt_status t = Task_completed \<and>
     (env, p) \<in> {(sample_backfill_env sample_backfill_rules, sample_processor 1)} \<and> processInternal env p = (Inr (), p1)"
proof -
  let ?R = "{(sample_backfill_env sample_backfill_rules, sample_processor 1)}"
  let ?step = "task_step ?R (\<lambda>_. Some ()) (\<lambda>_. ''rules'')"
  obtain c where c: "compiled_task (sample_backfill_env sample_backfill_rules) (sample_processor 1) sample_backfill_rules c"
    "set_clause c \<noteq> []" using sample_compiled by blast
  obtain p1 where p1: "processInternal (sample_backfill_env sample_backfill_rules) (sample_processor 1) = (Inr (), p1)"
    using run_of_task [OF sample_ready(1,4) c(1)] sample_calm [OF c(2)] by blast
  define t where "t = new_task ''t1'' 0 sample_start ''rules''"
  define s1 where "s1 = (no_tasks 0)\<lparr>tw_requests := [t]\<rparr>"
  define s2 where "s2 = (no_tasks 0)\<lparr>tw_rows := [t], tw_timers := [t]\<rparr>"
  define s3 where "s3 = (no_tasks 0)\<lparr>tw_rows := [t], tw_running := [(''t1'', \<lparr>rn_task = t, rn_cancelled = False\<rparr>)]\<rparr>"
  define s4 where "s4 = run_ends (\<lambda>_. True) (\<lambda>_. True) [] ''t1'' (Inr ()) s3"
  note d = t_def s1_def s2_def s3_def no_tasks_def new_task_def sample_start_def
  have a1: "?step None (no_tasks 0) s1"
    using task_step.checked [of sample_start "\<lambda>_. Some ()" "no_tasks 0" "()" "''t1''" ?R "\<lambda>_. ''rules''"]
    by (simp add: d start_dto_ok_def start_check_def)
  have a2: "?step None s1 s2"
    using task_step.committed [of t s1 ?R "\<lambda>_. Some ()" "\<lambda>_. ''rules''"] by (simp add: d start_commit_def)
  have a3: "?step None s2 s3"
    using task_step.fired [of t s2 ?R "\<lambda>_. Some ()" "\<lambda>_. ''rules''"] by (simp add: d start_timer_fires_def)
  have a4: "?step None s3 s4"
    unfolding s4_def
    by (rule task_step.ended [OF _ _ p1, where run = "\<lparr>rn_task = t, rn_cancelled = False\<rparr>"])
       (simp_all add: d same_task_def sample_processor_def sample_task_def sample_uncancelled)
  have r: "task_reachable ?R (\<lambda>_. Some ()) (\<lambda>_. ''rules'') (no_tasks 0) s4"
    by (rule task_reachable.step [OF task_reachable.step [OF task_reachable.step [OF task_reachable.step [OF task_reachable.start a1] a2] a3] a4])
  have l: "latest (tw_rows s4) ''t1'' = Some (updateTaskStatus 0 t Task_completed None)"
    by (simp add: s4_def d run_ends_def updateTaskStatusWithRetry_def latest_def updateTaskStatus_def numeral_eq_Suc)
  have m: "bt_status (updateTaskStatus 0 t Task_completed None) = Task_completed" by simp
  from completed_was_processed [OF r l m] obtain env p q where "(env, p) \<in> ?R" "processInternal env p = (Inr (), q)" by blast
  with r l m show ?thesis by (intro exI conjI)
qed

subsection \<open>Status writes\<close>

text \<open>A status is written in at most five attempts, and is written unless all five fail.\<close>

lemma status_attempts_bounds:
  "status_attempts ok made left = (fin, n) \<Longrightarrow> n \<le> made + left \<and> (fin \<longleftrightarrow> (\<exists>k. made \<le> k \<and> k < made + left \<and> ok k))"
proof (induction ok made left arbitrary: fin n rule: status_attempts.induct)
  case (2 ok made left)
  show ?case
  proof (cases "ok made")
    case False
    then have "status_attempts ok (Suc made) left = (fin, n)" using 2(2) by simp
    then have "n \<le> Suc made + left \<and> (fin \<longleftrightarrow> (\<exists>k. Suc made \<le> k \<and> k < Suc made + left \<and> ok k))" by (rule 2(1) [OF False])
    moreover have "(\<exists>k. Suc made \<le> k \<and> k < Suc made + left \<and> ok k) \<longleftrightarrow> (\<exists>k. made \<le> k \<and> k < made + Suc left \<and> ok k)"
      using False by (metis Suc_leD add_Suc add_Suc_right le_neq_implies_less Suc_leI)
    ultimately show ?thesis by simp
  qed (use 2(2) in auto)
qed simp

lemma retry_outcome:
  "updateTaskStatusWithRetry ok now task status msg rows = (fin, n, rows') \<Longrightarrow>
     n \<le> 5 \<and> (fin \<longleftrightarrow> (\<exists>k < 5. ok k)) \<and> rows' = (if fin then rows @ [updateTaskStatus now task status msg] else rows)"
  using status_attempts_bounds [of ok 0 5] by (auto simp: updateTaskStatusWithRetry_def split: prod.splits)

subsection \<open>The lock of a workspace\<close>

text \<open>
  Processors of one workspace: the promise the static map holds, named by its owner, who awaits which promise, and who is past the lock.
\<close>

(* src: api/src/filters/backfill/backfill.processor.ts:58-61 workspaceLocks *)
record workspace_lock =
  lk_holder :: "string option"
  lk_waiting :: "(string \<times> string) list"
  lk_inside :: "string list"

(* src: api/src/filters/backfill/backfill.processor.ts:186-196 process *)
definition lock_arrives :: "string \<Rightarrow> workspace_lock \<Rightarrow> workspace_lock" where
  "lock_arrives p k = (case lk_holder k of
       Some h \<Rightarrow> k\<lparr>lk_waiting := lk_waiting k @ [(p, h)]\<rparr>
     | None \<Rightarrow> k\<lparr>lk_holder := Some p, lk_inside := lk_inside k @ [p]\<rparr>)"

text \<open>The promise is resolved and the entry deleted; then everybody who awaited that promise goes on and sets an entry of his own.\<close>

(* src: api/src/filters/backfill/backfill.processor.ts:188-202 process *)
definition lock_leaves :: "string \<Rightarrow> workspace_lock \<Rightarrow> workspace_lock" where
  "lock_leaves p k =
     (let woken = map fst (filter (\<lambda>(q, h). h = p) (lk_waiting k))
      in \<lparr>lk_holder = (if woken = [] then None else Some (last woken)),
          lk_waiting = filter (\<lambda>(q, h). h \<noteq> p) (lk_waiting k),
          lk_inside = remove1 p (lk_inside k) @ woken\<rparr>)"

definition free_lock :: workspace_lock where
  "free_lock = \<lparr>lk_holder = None, lk_waiting = [], lk_inside = []\<rparr>"

inductive lock_paired :: "workspace_lock \<Rightarrow> bool" where
  free: "lock_paired free_lock"
| arrives: "lock_paired k \<Longrightarrow> lk_waiting k = [] \<Longrightarrow> lock_paired (lock_arrives p k)"
| leaves: "lock_paired k \<Longrightarrow> p \<in> set (lk_inside k) \<Longrightarrow> lock_paired (lock_leaves p k)"

text \<open>While no two processors wait at the same time the lock excludes; with two waiting both enter together when the first leaves.\<close>

lemma lock_paired_state:
  "lock_paired k \<Longrightarrow> k = free_lock \<or> (\<exists>p. k = \<lparr>lk_holder = Some p, lk_waiting = [], lk_inside = [p]\<rparr>) \<or>
     (\<exists>p q. k = \<lparr>lk_holder = Some p, lk_waiting = [(q, p)], lk_inside = [p]\<rparr>)"
  by (induction rule: lock_paired.induct) (auto simp: free_lock_def lock_arrives_def lock_leaves_def)

theorem lock_excludes_pairs_only:
  "(\<forall>k. lock_paired k \<longrightarrow> length (lk_inside k) \<le> 1) \<and>
   lk_inside (lock_leaves ''a'' (lock_arrives ''c'' (lock_arrives ''b'' (lock_arrives ''a'' free_lock)))) = [''b'', ''c'']"
proof (intro conjI allI impI)
  fix k
  assume "lock_paired k"
  then show "length (lk_inside k) \<le> 1" using lock_paired_state [of k] by (auto simp: free_lock_def)
qed (simp add: free_lock_def lock_arrives_def lock_leaves_def)

lemma lock_excludes_pairs_only_witness:
  "lock_paired (lock_arrives ''a'' free_lock) \<and> length (lk_inside (lock_arrives ''a'' free_lock)) \<le> 1"
proof -
  have p: "lock_paired (lock_arrives ''a'' free_lock)" by (rule lock_paired.arrives [OF lock_paired.free]) (simp add: free_lock_def)
  with lock_excludes_pairs_only show ?thesis by blast
qed

end
