(* ===== verification/Channel_Backfill.thy ===== *)
theory Channel_Backfill
  imports Ingest Effects
begin

text \<open>
  The re-derivation of the acquisition channel of stored rows (\<^verbatim>\<open>api/src/filters/backfill/channel-backfill.service.ts\<close>): the distinct
  tuples of signals with their stored channel are read with their counts, each is classified by the function that ingestion uses,
  and the rows of a tuple whose channel differs are rewritten by one mutation. A mutation may fail, which stops the backfill
  where it is; \<open>fails\<close> says which, counted from the start of the run.
\<close>

subsection \<open>Stored rows\<close>

text \<open>The five signals a row keeps, as a tuple: medium, source, kind of click id, domain of the referrer and referrer.\<close>

type_synonym stored_signals = "string \<times> string \<times> string \<times> string \<times> string"

record 'r stored_row =
  sw_signals :: stored_signals
  sw_channel :: string
  sw_channel_group :: string
  sw_rest :: 'r

datatype channel_table = Sessions_table | Goals_table

subsection \<open>Reading the tuples\<close>

(* src: api/src/filters/backfill/channel-backfill.service.ts:47-56 ChannelBackfillTuple *)
record channel_tuple =
  ct_signals :: stored_signals
  ct_stored :: "string \<times> string"
  ct_derived :: "string \<times> string"
  ct_rows :: nat
  ct_table :: channel_table
  ct_changed :: bool

(* src: api/src/filters/backfill/channel-backfill.service.ts:190-197 readSignalTuples *)
definition derived_channel :: "stored_signals \<Rightarrow> string \<times> string" where
  "derived_channel sg = (case sg of (medium, source, idFrom, domain, referrer) \<Rightarrow>
     (let r = deriveChannel \<lparr>sg_referrer_domain = Some domain, sg_referrer = Some referrer, sg_utm_source = Some source,
                sg_utm_medium = Some medium, sg_utm_id_from = Some idFrom, sg_is_direct = None, sg_referral_code = None\<rparr>
      in (channel_text (cr_channel r), group_text (cr_group r))))"

definition row_key :: "'r stored_row \<Rightarrow> stored_signals \<times> string \<times> string" where
  "row_key r = (sw_signals r, sw_channel r, sw_channel_group r)"

(* src: api/src/filters/backfill/channel-backfill.service.ts:160-212 readSignalTuples *)
definition readSignalTuples :: "channel_table \<Rightarrow> 'r stored_row list \<Rightarrow> channel_tuple list" where
  "readSignalTuples table rows =
     map (\<lambda>k. \<lparr>ct_signals = fst k, ct_stored = snd k, ct_derived = derived_channel (fst k),
               ct_rows = length (filter (\<lambda>r. row_key r = k) rows), ct_table = table,
               ct_changed = (fst (derived_channel (fst k)) \<noteq> fst (snd k) \<or> snd (derived_channel (fst k)) \<noteq> snd (snd k))\<rparr>)
       (remdups (map row_key rows))"

(* src: api/src/filters/backfill/channel-backfill.service.ts:220-251 applyTuple *)
definition applyTuple :: "channel_tuple \<Rightarrow> 'r stored_row list \<Rightarrow> 'r stored_row list" where
  "applyTuple t rows =
     map (\<lambda>r. if row_key r = (ct_signals t, ct_stored t)
              then r\<lparr>sw_channel := fst (ct_derived t), sw_channel_group := snd (ct_derived t)\<rparr> else r) rows"

subsection \<open>The run\<close>

(* src: api/src/filters/backfill/channel-backfill.service.ts:65-70 ChannelBackfillSummary *)
record channel_change =
  cc_table :: channel_table
  cc_from :: "string \<times> string"
  cc_to :: "string \<times> string"
  cc_rows :: nat

(* src: api/src/filters/backfill/channel-backfill.service.ts:58-71 ChannelBackfillSummary *)
record channel_summary =
  cs_sessions_scanned :: nat
  cs_goals_scanned :: nat
  cs_sessions_updated :: nat
  cs_goals_updated :: nat
  cs_changes :: "channel_change list"

record 'r channel_db =
  cd_sessions :: "'r stored_row list"
  cd_goals :: "'r stored_row list"
  cd_mutations :: nat
  cd_completed :: nat

datatype channel_error = Channel_workspace_missing | Mutation_failed

definition table_of :: "channel_table \<Rightarrow> 'r channel_db \<Rightarrow> 'r stored_row list" where
  "table_of tb db = (case tb of Sessions_table \<Rightarrow> cd_sessions db | Goals_table \<Rightarrow> cd_goals db)"

definition put_table :: "channel_table \<Rightarrow> 'r stored_row list \<Rightarrow> 'r channel_db \<Rightarrow> 'r channel_db" where
  "put_table tb rows db = (case tb of Sessions_table \<Rightarrow> db\<lparr>cd_sessions := rows\<rparr> | Goals_table \<Rightarrow> db\<lparr>cd_goals := rows\<rparr>)"

definition mutate :: "(nat \<Rightarrow> bool) \<Rightarrow> channel_table \<Rightarrow> channel_tuple \<Rightarrow> ('r channel_db, channel_error, unit) act" where
  "mutate fails tb t = (\<lambda>db. let db1 = db\<lparr>cd_mutations := Suc (cd_mutations db)\<rparr>
     in if fails (cd_mutations db) then (Inl Mutation_failed, db1)
        else (Inr (), put_table tb (applyTuple t (table_of tb db1)) db1))"

(* src: api/src/filters/backfill/channel-backfill.service.ts:117-129 backfillChannel *)
primrec channel_tuples ::
    "(nat \<Rightarrow> bool) \<Rightarrow> channel_table \<Rightarrow> channel_tuple list \<Rightarrow> ('r channel_db, channel_error, nat \<times> nat \<times> channel_change list) act" where
  "channel_tuples fails tb [] = returns (0, 0, [])"
| "channel_tuples fails tb (t # ts) =
     (if \<not> ct_changed t
      then and_then (channel_tuples fails tb ts) (\<lambda>(scanned, updated, changes). returns (ct_rows t + scanned, updated, changes))
      else and_then (mutate fails tb t) (\<lambda>_.
           and_then (channel_tuples fails tb ts) (\<lambda>(scanned, updated, changes).
             returns (ct_rows t + scanned, ct_rows t + updated,
               \<lparr>cc_table = tb, cc_from = ct_stored t, cc_to = ct_derived t, cc_rows = ct_rows t\<rparr> # changes))))"

definition channel_of_table ::
    "(nat \<Rightarrow> bool) \<Rightarrow> channel_table \<Rightarrow> ('r channel_db, channel_error, nat \<times> nat \<times> channel_change list) act" where
  "channel_of_table fails tb = and_then (asks (\<lambda>db. readSignalTuples tb (table_of tb db))) (channel_tuples fails tb)"

(* src: api/src/filters/backfill/channel-backfill.service.ts:99-153 backfillChannel *)
definition backfillChannel ::
    "(string \<Rightarrow> bool) \<Rightarrow> (nat \<Rightarrow> bool) \<Rightarrow> string \<Rightarrow> ('r channel_db, channel_error, channel_summary) act" where
  "backfillChannel exists fails w =
     (if \<not> exists w then throws Channel_workspace_missing
      else and_then (channel_of_table fails Sessions_table) (\<lambda>(s_scanned, s_updated, s_changes).
           and_then (channel_of_table fails Goals_table) (\<lambda>(g_scanned, g_updated, g_changes).
           and_then (modifies (\<lambda>db. db\<lparr>cd_completed := Suc (cd_completed db)\<rparr>)) (\<lambda>_.
             returns \<lparr>cs_sessions_scanned = s_scanned, cs_goals_scanned = g_scanned, cs_sessions_updated = s_updated,
                      cs_goals_updated = g_updated, cs_changes = s_changes @ g_changes\<rparr>))))"

subsection \<open>What a run leaves\<close>

text \<open>The row a run means to leave: its channel re-derived, everything else as it was.\<close>

definition rederived :: "'r stored_row \<Rightarrow> 'r stored_row" where
  "rederived r = r\<lparr>sw_channel := fst (derived_channel (sw_signals r)), sw_channel_group := snd (derived_channel (sw_signals r))\<rparr>"

lemma rederived_simps [simp]: "sw_signals (rederived r) = sw_signals r" "rederived (rederived r) = rederived r"
  "sw_rest (rederived r) = sw_rest r"
  by (simp_all add: rederived_def)

lemma rederived_same: "rederived r = r \<longleftrightarrow> derived_channel (sw_signals r) = (sw_channel r, sw_channel_group r)"
  by (cases r) (auto simp: rederived_def prod_eq_iff)

text \<open>A row that is either as it was or re-derived, and re-derived when its key is among those done.\<close>

definition part_way :: "(stored_signals \<times> string \<times> string) set \<Rightarrow> 'r stored_row list \<Rightarrow> 'r stored_row list \<Rightarrow> bool" where
  "part_way ks rows0 rows \<longleftrightarrow> list_all2 (\<lambda>r0 r. (r = r0 \<or> r = rederived r0) \<and> (row_key r0 \<in> ks \<longrightarrow> r = rederived r0)) rows0 rows"

lemma part_way_refl [simp]: "part_way {} rows rows"
  by (simp add: part_way_def list_all2_same)

lemma part_way_unchanged:
  "part_way ks rows0 rows \<Longrightarrow> derived_channel (fst k) = snd k \<Longrightarrow> part_way (insert k ks) rows0 rows"
  unfolding part_way_def
  by (erule list_all2_mono) (auto simp: row_key_def rederived_def)

definition proper_tuple :: "channel_tuple \<Rightarrow> bool" where
  "proper_tuple t \<longleftrightarrow> ct_derived t = derived_channel (ct_signals t) \<and> ct_changed t = (ct_derived t \<noteq> ct_stored t)"

lemma part_way_apply:
  assumes "part_way ks rows0 rows" and "proper_tuple t"
  shows "part_way (insert (ct_signals t, ct_stored t) ks) rows0 (applyTuple t rows)"
  unfolding part_way_def applyTuple_def list_all2_map2
  by (rule list_all2_mono [OF assms(1) [unfolded part_way_def]])
     (use assms(2) in \<open>auto simp: row_key_def rederived_def proper_tuple_def\<close>)

definition other_table :: "channel_table \<Rightarrow> channel_table" where
  "other_table tb = (case tb of Sessions_table \<Rightarrow> Goals_table | Goals_table \<Rightarrow> Sessions_table)"

lemma table_simps [simp]:
  "table_of tb (put_table tb rows db) = rows" "table_of (other_table tb) (put_table tb rows db) = table_of (other_table tb) db"
  "cd_completed (put_table tb rows db) = cd_completed db" "cd_mutations (put_table tb rows db) = cd_mutations db"
  "table_of tb (db\<lparr>cd_mutations := n\<rparr>) = table_of tb db" "table_of tb (db\<lparr>cd_completed := n\<rparr>) = table_of tb db"
  by (simp_all add: table_of_def put_table_def other_table_def split: channel_table.split)

lemma part_way_mono: "part_way (insert k ks) rows0 rows \<Longrightarrow> part_way ks rows0 rows"
  unfolding part_way_def by (erule list_all2_mono) auto

definition tuple_keys :: "channel_tuple list \<Rightarrow> (stored_signals \<times> string \<times> string) set" where
  "tuple_keys ts = (\<lambda>t. (ct_signals t, ct_stored t)) ` set ts"

lemma part_way_less: "part_way (ks' \<union> ks) rows0 rows \<Longrightarrow> part_way ks rows0 rows"
  unfolding part_way_def by (erule list_all2_mono) auto

text \<open>One table: wherever the run stops the table is part way, and a run to the end has done every tuple and counted it.\<close>

lemma channel_tuples_run:
  assumes "list_all proper_tuple ts" and "part_way ks rows0 (table_of tb db)" and "channel_tuples fails tb ts db = (r, db1)"
  shows "part_way ks rows0 (table_of tb db1) \<and> table_of (other_table tb) db1 = table_of (other_table tb) db \<and>
     cd_completed db1 = cd_completed db \<and>
     (case r of Inl e \<Rightarrow> \<exists>n. fails n
      | Inr (scanned, updated, changes) \<Rightarrow>
          part_way (tuple_keys ts \<union> ks) rows0 (table_of tb db1) \<and> scanned = sum_list (map ct_rows ts) \<and>
          updated = sum_list (map ct_rows (filter ct_changed ts)) \<and>
          cd_mutations db1 = cd_mutations db + length (filter ct_changed ts))"
  using assms
proof (induction ts arbitrary: ks db r)
  case Nil
  then show ?case by (auto simp: returns_def tuple_keys_def)
next
  case (Cons t ts)
  let ?k = "(ct_signals t, ct_stored t)"
  have keys: "tuple_keys (t # ts) \<union> ks = tuple_keys ts \<union> insert ?k ks" by (auto simp: tuple_keys_def)
  show ?case
  proof (cases "ct_changed t")
    case False
    obtain r1 where r1: "channel_tuples fails tb ts db = (r1, db1)"
      using Cons.prems(3) False by (auto simp: and_then_def returns_def split: prod.splits sum.splits)
    have same: "part_way (insert ?k ks) rows0 (table_of tb db)"
      using part_way_unchanged [OF Cons.prems(2), of ?k] Cons.prems(1) False by (auto simp: proper_tuple_def)
    from Cons.IH [OF _ same r1] Cons.prems(1) have ih: "part_way (insert ?k ks) rows0 (table_of tb db1)"
      "table_of (other_table tb) db1 = table_of (other_table tb) db" "cd_completed db1 = cd_completed db"
      "case r1 of Inl e \<Rightarrow> \<exists>n. fails n | Inr (scanned, updated, changes) \<Rightarrow>
          part_way (tuple_keys ts \<union> insert ?k ks) rows0 (table_of tb db1) \<and> scanned = sum_list (map ct_rows ts) \<and>
          updated = sum_list (map ct_rows (filter ct_changed ts)) \<and>
          cd_mutations db1 = cd_mutations db + length (filter ct_changed ts)"
      by simp_all
    show ?thesis
      unfolding keys using ih part_way_mono [OF ih(1)] Cons.prems(3) False r1
      by (cases r1) (auto simp: and_then_def returns_def)
  next
    case True
    show ?thesis
    proof (cases "fails (cd_mutations db)")
      case f: True
      then show ?thesis using Cons.prems True by (auto simp: and_then_def mutate_def Let_def)
    next
      case f: False
      let ?db = "put_table tb (applyTuple t (table_of tb db)) (db\<lparr>cd_mutations := Suc (cd_mutations db)\<rparr>)"
      have m: "mutate fails tb t db = (Inr (), ?db)" using f by (simp add: mutate_def Let_def)
      obtain r1 where r1: "channel_tuples fails tb ts ?db = (r1, db1)"
        using Cons.prems(3) True m by (auto simp: and_then_def returns_def split: prod.splits sum.splits)
      have new: "part_way (insert ?k ks) rows0 (table_of tb ?db)"
        using part_way_apply [OF Cons.prems(2)] Cons.prems(1) by simp
      from Cons.IH [OF _ new r1] Cons.prems(1) have ih: "part_way (insert ?k ks) rows0 (table_of tb db1)"
        "table_of (other_table tb) db1 = table_of (other_table tb) db" "cd_completed db1 = cd_completed db"
        "case r1 of Inl e \<Rightarrow> \<exists>n. fails n | Inr (scanned, updated, changes) \<Rightarrow>
            part_way (tuple_keys ts \<union> insert ?k ks) rows0 (table_of tb db1) \<and> scanned = sum_list (map ct_rows ts) \<and>
            updated = sum_list (map ct_rows (filter ct_changed ts)) \<and>
            cd_mutations db1 = Suc (cd_mutations db) + length (filter ct_changed ts)"
        by (cases r1; auto)+
      show ?thesis
        unfolding keys using ih part_way_mono [OF ih(1)] Cons.prems(3) True m r1
        by (cases r1) (auto simp: and_then_def returns_def)
    qed
  qed
qed

lemma tuples_proper: "list_all proper_tuple (readSignalTuples tb rows)"
  by (auto simp: readSignalTuples_def proper_tuple_def list_all_iff prod_eq_iff)

lemma tuples_keys: "tuple_keys (readSignalTuples tb rows) = row_key ` set rows"
  by (auto simp: tuple_keys_def readSignalTuples_def image_image row_key_def)

lemma part_way_all: "part_way (row_key ` set rows) rows rows' \<Longrightarrow> rows' = map rederived rows"
  by (auto simp: part_way_def list_all2_conv_all_nth intro!: nth_equalityI)

lemma counts_distinct:
  "distinct ks \<Longrightarrow> sum_list (map (\<lambda>k. length (filter (\<lambda>r. f r = k) rows)) ks) = length (filter (\<lambda>r. f r \<in> set ks) rows)"
proof (induction ks)
  case (Cons k ks)
  have "length (filter (\<lambda>r. f r = k \<or> f r \<in> set ks) rows) =
      length (filter (\<lambda>r. f r = k) rows) + length (filter (\<lambda>r. f r \<in> set ks) rows)"
    using Cons.prems by (induction rows) auto
  then show ?case using Cons by simp
qed simp

lemma tuples_counts:
  "sum_list (map ct_rows (readSignalTuples tb rows)) = length rows"
  "sum_list (map ct_rows (filter ct_changed (readSignalTuples tb rows))) = length (filter (\<lambda>r. rederived r \<noteq> r) rows)"
proof -
  have "sum_list (map ct_rows (readSignalTuples tb rows)) = length (filter (\<lambda>r. row_key r \<in> set (remdups (map row_key rows))) rows)"
    using counts_distinct [of "remdups (map row_key rows)" row_key rows] by (simp add: readSignalTuples_def comp_def)
  also have "filter (\<lambda>r. row_key r \<in> set (remdups (map row_key rows))) rows = rows" by (simp add: filter_id_conv)
  finally show "sum_list (map ct_rows (readSignalTuples tb rows)) = length rows" .
  let ?P = "\<lambda>k. derived_channel (fst k) \<noteq> snd k"
  have "map ct_rows (filter ct_changed (readSignalTuples tb rows)) =
      map (\<lambda>k. length (filter (\<lambda>r. row_key r = k) rows)) (filter ?P (remdups (map row_key rows)))"
    by (simp add: readSignalTuples_def filter_map comp_def prod_eq_iff)
  then have "sum_list (map ct_rows (filter ct_changed (readSignalTuples tb rows))) =
      length (filter (\<lambda>r. row_key r \<in> set (filter ?P (remdups (map row_key rows)))) rows)"
    using counts_distinct [of "filter ?P (remdups (map row_key rows))" row_key rows] by simp
  also have "filter (\<lambda>r. row_key r \<in> set (filter ?P (remdups (map row_key rows)))) rows = filter (\<lambda>r. rederived r \<noteq> r) rows"
    by (rule filter_cong) (auto simp: row_key_def rederived_same)
  finally show "sum_list (map ct_rows (filter ct_changed (readSignalTuples tb rows))) = length (filter (\<lambda>r. rederived r \<noteq> r) rows)" .
qed

lemma channel_of_table_run:
  assumes "channel_of_table fails tb db = (r, db1)"
  shows "part_way {} (table_of tb db) (table_of tb db1) \<and> table_of (other_table tb) db1 = table_of (other_table tb) db \<and>
     cd_completed db1 = cd_completed db \<and>
     (case r of Inl e \<Rightarrow> \<exists>n. fails n
      | Inr (scanned, updated, changes) \<Rightarrow>
          table_of tb db1 = map rederived (table_of tb db) \<and> scanned = length (table_of tb db) \<and>
          updated = length (filter (\<lambda>r. rederived r \<noteq> r) (table_of tb db)) \<and>
          (updated = 0 \<longrightarrow> cd_mutations db1 = cd_mutations db))"
proof -
  let ?ts = "readSignalTuples tb (table_of tb db)"
  have run: "channel_tuples fails tb ?ts db = (r, db1)" using assms by (simp add: channel_of_table_def act_simps)
  note c = channel_tuples_run [OF tuples_proper part_way_refl run]
  have none: "filter ct_changed ?ts = []" if "length (filter (\<lambda>r. rederived r \<noteq> r) (table_of tb db)) = 0"
    using that by (auto simp: filter_empty_conv readSignalTuples_def row_key_def rederived_same)
  show ?thesis
    using c none by (auto simp: tuples_keys tuples_counts dest!: part_way_all split: sum.splits)
qed

text \<open>
  A run that is not interrupted leaves every session and goal with the channel its stored signals derive to and everything else as it was; the
  summary counts all rows as scanned and exactly the rows that changed as updated.
\<close>

lemma channel_backfill_run:
  assumes "backfillChannel exists fails w db = (Inr u, db1)"
  shows "cd_sessions db1 = map rederived (cd_sessions db) \<and> cd_goals db1 = map rederived (cd_goals db) \<and>
     cs_sessions_scanned u = length (cd_sessions db) \<and> cs_goals_scanned u = length (cd_goals db) \<and>
     cs_sessions_updated u = length (filter (\<lambda>r. rederived r \<noteq> r) (cd_sessions db)) \<and>
     cs_goals_updated u = length (filter (\<lambda>r. rederived r \<noteq> r) (cd_goals db)) \<and>
     (cs_sessions_updated u = 0 \<and> cs_goals_updated u = 0 \<longrightarrow> cd_mutations db1 = cd_mutations db)"
proof -
  obtain s1 p1 c1 dba s2 p2 c2 dbb where
    a: "channel_of_table fails Sessions_table db = (Inr (s1, p1, c1), dba)"
    and b: "channel_of_table fails Goals_table dba = (Inr (s2, p2, c2), dbb)"
    and d: "db1 = dbb\<lparr>cd_completed := Suc (cd_completed dbb)\<rparr>"
    and u: "cs_sessions_scanned u = s1" "cs_goals_scanned u = s2" "cs_sessions_updated u = p1" "cs_goals_updated u = p2"
    using assms by (auto simp: backfillChannel_def and_then_def throws_def returns_def modifies_def
        split: if_splits prod.splits sum.splits)
  show ?thesis
    using channel_of_table_run [OF a] channel_of_table_run [OF b] d u by (auto simp: table_of_def other_table_def)
qed

theorem channel_backfill_rederives:
  assumes "backfillChannel exists fails w db = (Inr u, db1)"
  shows "cd_sessions db1 = map rederived (cd_sessions db) \<and> cd_goals db1 = map rederived (cd_goals db) \<and>
     cs_sessions_scanned u = length (cd_sessions db) \<and> cs_goals_scanned u = length (cd_goals db) \<and>
     cs_sessions_updated u = length (filter (\<lambda>r. rederived r \<noteq> r) (cd_sessions db)) \<and>
     cs_goals_updated u = length (filter (\<lambda>r. rederived r \<noteq> r) (cd_goals db))"
  using channel_backfill_run [OF assms] by blast

lemma part_way_twice: "part_way ks rows0 rows \<Longrightarrow> map rederived rows = map rederived rows0"
  by (auto simp: part_way_def list_all2_conv_all_nth intro!: nth_equalityI)

lemma channel_backfill_part_way:
  assumes "backfillChannel exists fails w db = (r, db1)"
  shows "part_way {} (cd_sessions db) (cd_sessions db1) \<and> part_way {} (cd_goals db) (cd_goals db1)"
proof (cases "exists w")
  case False
  then show ?thesis using assms by (auto simp: backfillChannel_def throws_def)
next
  case True
  obtain ra dba where a: "channel_of_table fails Sessions_table db = (ra, dba)" by fastforce
  obtain rb dbb where b: "channel_of_table fails Goals_table dba = (rb, dbb)" by fastforce
  have "db1 = dba \<or> (\<exists>n. db1 = dbb\<lparr>cd_completed := n\<rparr>) \<or> db1 = dbb"
    using assms True a b by (auto simp: backfillChannel_def and_then_def returns_def modifies_def split: sum.splits)
  then show ?thesis
    using channel_of_table_run [OF a] channel_of_table_run [OF b] by (auto simp: table_of_def other_table_def)
qed

lemma channel_backfill_resumed:
  assumes "backfillChannel exists fails w db = (r, db1)" and "backfillChannel exists fails2 w db1 = (Inr u, db2)"
    and "backfillChannel exists fails3 w db2 = (Inr v, db3)"
  shows "cd_sessions db2 = map rederived (cd_sessions db) \<and> cd_goals db2 = map rederived (cd_goals db) \<and>
     cd_sessions db3 = cd_sessions db2 \<and> cd_goals db3 = cd_goals db2 \<and> cd_mutations db3 = cd_mutations db2"
proof -
  note one = channel_backfill_part_way [OF assms(1)]
  note two = channel_backfill_run [OF assms(2)]
  note three = channel_backfill_run [OF assms(3)]
  have "map rederived (cd_sessions db1) = map rederived (cd_sessions db)" "map rederived (cd_goals db1) = map rederived (cd_goals db)"
    using part_way_twice one by blast+
  with two have 1: "cd_sessions db2 = map rederived (cd_sessions db)" "cd_goals db2 = map rederived (cd_goals db)" by simp_all
  then show ?thesis using three by simp
qed

lemma channel_tuples_total: "\<forall>n. \<not> fails n \<Longrightarrow> \<exists>x db1. channel_tuples fails tb ts db = (Inr x, db1)"
proof (induction ts arbitrary: db)
  case (Cons t ts)
  let ?db = "put_table tb (applyTuple t (table_of tb db)) (db\<lparr>cd_mutations := Suc (cd_mutations db)\<rparr>)"
  have m: "mutate fails tb t db = (Inr (), ?db)" using Cons.prems by (simp add: mutate_def Let_def)
  obtain x db1 where "channel_tuples fails tb ts db = (Inr x, db1)" using Cons by blast
  moreover obtain y db2 where "channel_tuples fails tb ts ?db = (Inr y, db2)" using Cons by blast
  ultimately show ?case using m by (simp add: and_then_def returns_def split: prod.split)
qed (simp add: returns_def)

lemma channel_backfill_returns:
  assumes "exists w" and "\<forall>n. \<not> fails n"
  shows "\<exists>u db1. backfillChannel exists fails w db = (Inr u, db1)"
proof -
  obtain x dba where a: "channel_of_table fails Sessions_table db = (Inr x, dba)"
    using channel_tuples_total [OF assms(2)] by (simp add: channel_of_table_def act_simps) blast
  obtain y dbb where b: "channel_of_table fails Goals_table dba = (Inr y, dbb)"
    using channel_tuples_total [OF assms(2)] by (simp add: channel_of_table_def act_simps) blast
  show ?thesis using assms(1) a b by (simp add: backfillChannel_def and_then_def returns_def modifies_def split: prod.split)
qed


text \<open>
  C36: A failing mutation stops the run with every row either as it was or re-derived. A later run that is not interrupted ends where one run alone
  would have ended, and a run after that sends no mutation.
\<close>
theorem channel_backfill_resumes:
  assumes "exists w" and "\<forall>n. \<not> fails2 n" and "backfillChannel exists fails w db = (r, db1)"
  shows "\<exists>u db2. backfillChannel exists fails2 w db1 = (Inr u, db2) \<and>
     cd_sessions db2 = map rederived (cd_sessions db) \<and> cd_goals db2 = map rederived (cd_goals db) \<and>
     (\<exists>v db3. backfillChannel exists fails2 w db2 = (Inr v, db3) \<and> cd_sessions db3 = cd_sessions db2 \<and>
        cd_goals db3 = cd_goals db2 \<and> cd_mutations db3 = cd_mutations db2)"
proof -
  obtain u db2 where 2: "backfillChannel exists fails2 w db1 = (Inr u, db2)" using channel_backfill_returns [of exists w fails2, OF assms(1,2)] by blast
  obtain v db3 where 3: "backfillChannel exists fails2 w db2 = (Inr v, db3)" using channel_backfill_returns [of exists w fails2, OF assms(1,2)] by blast
  from channel_backfill_resumed [OF assms(3) 2 3] 2 3 show ?thesis by blast
qed

text \<open>
  The stored signals are not all that ingestion looked at: a visit through a referral link, whose code ingestion saw in the page's
  address, was classified as a referral and is re-derived as direct, and so is a visit that an enabled rule had given a channel of its own.
\<close>

theorem channel_backfill_forgets_referrals:
  assumes "sg_utm_medium s = Some []" and "sg_utm_id_from s = Some []" and "sg_referrer_domain s = Some []" and "sg_referrer s = Some []"
    and "norm_signal (sg_referral_code s) \<noteq> []" and "sg_utm_source s = Some source"
  shows "cr_channel (deriveChannel s) = Referral \<and>
     sw_channel (rederived \<lparr>sw_signals = ([], source, [], [], []), sw_channel = c, sw_channel_group = g, sw_rest = x\<rparr>) = ''direct''"
  using assms by (simp add: rederived_def derived_channel_def deriveChannel_def norm_signal_def Let_def finalize_channel_def
      PAID_SEARCH_CLICK_IDS_def js_trim_def js_lower_def)

subsection \<open>Witnesses\<close>

definition sample_channel_db :: "unit channel_db" where
  "sample_channel_db =
     \<lparr>cd_sessions = [\<lparr>sw_signals = (''email'', [], [], [], []), sw_channel = [], sw_channel_group = [], sw_rest = ()\<rparr>],
      cd_goals = [], cd_mutations = 0, cd_completed = 0\<rparr>"

lemma channel_backfill_rederives_witness:
  "\<exists>u db1. backfillChannel (\<lambda>_. True) (\<lambda>_. False) ''w'' sample_channel_db = (Inr u, db1) \<and>
     map sw_channel (cd_sessions db1) = [''email''] \<and> cs_sessions_updated u = 1"
proof -
  obtain u db1 where r: "backfillChannel (\<lambda>_. True) (\<lambda>_. False) ''w'' sample_channel_db = (Inr u, db1)"
    using channel_backfill_returns [of "\<lambda>_. True" "''w''" "\<lambda>_. False" sample_channel_db] by auto
  have "derived_channel (''email'', [], [], [], []) = (''email'', ''email'')" by code_simp
  with channel_backfill_rederives [OF r] r show ?thesis by (auto simp: sample_channel_db_def rederived_def)
qed

lemma channel_backfill_resumes_witness:
  "\<exists>u db2. backfillChannel (\<lambda>_. True) (\<lambda>_. False) ''w'' (snd (backfillChannel (\<lambda>_. True) (\<lambda>n. n = 0) ''w'' sample_channel_db)) = (Inr u, db2) \<and>
     cd_sessions db2 = map rederived (cd_sessions sample_channel_db)"
proof -
  have p: "backfillChannel (\<lambda>_. True) (\<lambda>n. n = 0) ''w'' sample_channel_db =
      (fst (backfillChannel (\<lambda>_. True) (\<lambda>n. n = 0) ''w'' sample_channel_db), snd (backfillChannel (\<lambda>_. True) (\<lambda>n. n = 0) ''w'' sample_channel_db))"
    by simp
  from channel_backfill_resumes [of "\<lambda>_. True", OF TrueI _ p, of "\<lambda>_. False"] show ?thesis by auto
qed

lemma channel_backfill_forgets_referrals_witness:
  "sw_channel (rederived \<lparr>sw_signals = ([], [], [], [], []), sw_channel = ''referral'', sw_channel_group = ''referral'', sw_rest = ()\<rparr>) = ''direct''"
proof -
  let ?s = "\<lparr>sg_referrer_domain = Some [], sg_referrer = Some [], sg_utm_source = Some [], sg_utm_medium = Some [], sg_utm_id_from = Some [],
      sg_is_direct = None, sg_referral_code = Some ''anna''\<rparr>"
  have "norm_signal (sg_referral_code ?s) \<noteq> []" by code_simp
  with channel_backfill_forgets_referrals [of ?s "[]" "''referral''" "''referral''" "()"] show ?thesis by simp
qed

end
