(* ===== verification/Sdk_Detection.thy ===== *)
theory Sdk_Detection
  imports Prelude
begin

section \<open>What the tracker reads of the page: script tag, device, bots, scroll, navigation\<close>

text \<open>
  \<^verbatim>\<open>sdk/src/auto-init.ts\<close>, \<^verbatim>\<open>sdk/src/detection/\<close>, \<^verbatim>\<open>sdk/src/events/\<close> and
  \<^verbatim>\<open>sdk/src/utils/throttle.ts\<close>. The browser is a record of the values these functions read; the
  parsed user agent (\<^verbatim>\<open>ua-parser-js\<close>) and the URL parser are arguments. All patterns of the code
  are plain words or alternatives of plain words, matched anywhere, case ignored.
\<close>

subsection \<open>Bots\<close>

definition BOT_PATTERNS_1 :: "string list" where
  "BOT_PATTERNS_1 =
     [''bot'', ''crawler'', ''spider'', ''scraper'', ''googlebot'', ''bingbot'', ''yandex'', ''baidu'', ''duckduck'', ''slurp'',
      ''msnbot'', ''ia_archiver'']"

(* src: sdk/src/detection/bot.ts:12-36 BOT_PATTERNS *)
definition BOT_PATTERNS :: "string list" where
  "BOT_PATTERNS = BOT_PATTERNS_1 @
     [''facebook'', ''twitter'', ''linkedin'', ''pinterest'', ''headless'', ''phantom'', ''selenium'', ''puppeteer'',
      ''lighthouse'', ''pagespeed'', ''gtmetrix'']"

text \<open>An absent list of plugins or languages is \<^const>\<open>None\<close>; \<open>br_chrome\<close> and \<open>br_touch\<close> tell whether \<open>window\<close> has the property.\<close>

record browser =
  br_userAgent :: string
  br_webdriver :: bool
  br_plugins :: "nat option"
  br_languages :: "nat option"
  br_chrome :: bool
  br_touch :: bool
  br_localStorage :: bool
  br_screen_width :: int
  br_screen_height :: int
  br_viewport_width :: int
  br_viewport_height :: int
  br_language :: string
  br_connection :: "string option option"
  br_timezone :: "string option"

definition matches_any :: "string list \<Rightarrow> string \<Rightarrow> bool" where
  "matches_any words text \<longleftrightarrow> (\<exists>w \<in> set words. js_includes (js_lower text) w)"

definition empty_feature :: "nat option \<Rightarrow> bool" where
  "empty_feature f \<longleftrightarrow> (case f of None \<Rightarrow> True | Some n \<Rightarrow> n = 0)"

definition suspiciousFeatures :: "browser \<Rightarrow> bool list" where
  "suspiciousFeatures b =
     (let ua = js_lower (br_userAgent b)
      in [empty_feature (br_plugins b), empty_feature (br_languages b), \<not> br_chrome b \<and> matches_any [''chrome''] ua,
          br_screen_width b = 0 \<or> br_screen_height b = 0, \<not> br_touch b \<and> matches_any [''mobile''] ua])"

(* src: sdk/src/detection/bot.ts:41-71 isBot *)
definition isBot :: "browser \<Rightarrow> bool" where
  "isBot b =
     (let ua = js_lower (br_userAgent b)
      in if matches_any BOT_PATTERNS ua then True
         else if br_webdriver b then True
         else 3 \<le> length (filter id (suspiciousFeatures b)))"

(* src: sdk/src/detection/bot.ts:77-101 getBotScore *)
definition getBotScore :: "browser \<Rightarrow> int" where
  "getBotScore b =
     (let ua = js_lower (br_userAgent b);
          points = (\<lambda>c n. if c then n else (0::int));
          score = points (matches_any BOT_PATTERNS ua) 40 + points (br_webdriver b) 30 +
            sum_list (map (\<lambda>c. points c 5) (suspiciousFeatures b)) + points (\<not> br_localStorage b) 5
      in min score 100)"

subsection \<open>The device\<close>

(* src: sdk/src/detection/device.ts:9-16 UAParserResult *)
record ua_result =
  ur_browser_name :: "string option"
  ur_device_type :: "string option"
  ur_os_name :: "string option"

(* src: sdk/src/types.ts:126-139 DeviceInfo *)
record device_info =
  di_screen_width :: int
  di_screen_height :: int
  di_viewport_width :: int
  di_viewport_height :: int
  di_device :: string
  di_browser :: string
  di_browser_type :: "string option"
  di_os :: string
  di_user_agent :: string
  di_connection_type :: string
  di_timezone :: string
  di_language :: string

(* src: sdk/src/detection/device.ts:75-85 normalizeDeviceType *)
definition normalizeDeviceType :: "string option \<Rightarrow> string" where
  "normalizeDeviceType t =
     (if t = Some ''mobile'' then ''mobile'' else if t = Some ''tablet'' then ''tablet'' else ''desktop'')"

definition os_names :: "(string \<times> string) list" where
  "os_names =
     [(''Mac OS'', ''macOS''), (''Windows'', ''Windows''), (''iOS'', ''iOS''), (''Android'', ''Android''), (''Linux'', ''Linux''),
      (''Chrome OS'', ''Chrome OS''), (''Ubuntu'', ''Linux''), (''Fedora'', ''Linux''), (''Debian'', ''Linux'')]"

(* src: sdk/src/detection/device.ts:90-112 normalizeOS *)
definition normalizeOS :: "string option \<Rightarrow> string option \<Rightarrow> string" where
  "normalizeOS osName deviceType =
     (case osName of
        None \<Rightarrow> ''Unknown''
      | Some n \<Rightarrow>
          if n = [] then ''Unknown''
          else if n = ''iOS'' \<and> deviceType = Some ''tablet'' then ''iPadOS''
          else js_nullish (map_of os_names n) n)"

(* src: sdk/src/detection/device.ts:117-146 getBrowserType *)
definition getBrowserType :: "string \<Rightarrow> string option" where
  "getBrowserType userAgent =
     (let ua = js_lower userAgent
      in if matches_any [''bot'', ''crawler'', ''spider'', ''scraper''] ua then Some ''crawler''
         else if matches_any [''fbav'', ''fban'', ''instagram'', ''twitter'', ''linkedin'', ''pinterest''] ua then Some ''inapp''
         else if matches_any [''thunderbird'', ''outlook''] ua then Some ''email''
         else if matches_any [''headless'', ''phantom'', ''puppeteer'', ''selenium''] ua then Some ''fetcher''
         else if matches_any [''curl'', ''wget'', ''httpie''] ua then Some ''cli''
         else None)"

(* src: sdk/src/detection/device.ts:153-157 getConnectionType *)
definition getConnectionType :: "browser \<Rightarrow> string" where
  "getConnectionType b = (case br_connection b of Some (Some t) \<Rightarrow> t | _ \<Rightarrow> [])"

(* src: sdk/src/detection/device.ts:162-168 getTimezone *)
definition getTimezone :: "browser \<Rightarrow> string" where
  "getTimezone b = js_nullish (br_timezone b) []"

(* src: sdk/src/detection/device.ts:55-70 mapResult *)
definition mapResult :: "browser \<Rightarrow> ua_result \<Rightarrow> device_info" where
  "mapResult b r =
     \<lparr>di_screen_width = br_screen_width b, di_screen_height = br_screen_height b,
      di_viewport_width = br_viewport_width b, di_viewport_height = br_viewport_height b,
      di_device = normalizeDeviceType (ur_device_type r),
      di_browser = js_or (js_nullish (ur_browser_name r) []) ''Unknown'',
      di_browser_type = getBrowserType (br_userAgent b), di_os = normalizeOS (ur_os_name r) (ur_device_type r),
      di_user_agent = br_userAgent b, di_connection_type = getConnectionType b, di_timezone = getTimezone b,
      di_language = js_or (br_language b) ''en''\<rparr>"

text \<open>The parse with client hints may be refused; the plain parse then takes its place.\<close>

(* src: sdk/src/detection/device.ts:31-42 detectWithClientHints *)
definition detectWithClientHints :: "browser \<Rightarrow> ua_result option \<Rightarrow> ua_result \<Rightarrow> device_info" where
  "detectWithClientHints b hinted plain = mapResult b (js_nullish hinted plain)"

subsection \<open>Scrolling\<close>

(* src: sdk/src/events/scroll.ts:7-11 ScrollTracker *)
record scroll_tracker =
  sk_max :: int
  sk_milestone :: int
  sk_reported :: "int list"

definition scroll_init :: scroll_tracker where
  "scroll_init = \<lparr>sk_max = 0, sk_milestone = 0, sk_reported = []\<rparr>"

definition MILESTONES :: "int list" where
  "MILESTONES = [25, 50, 75, 100]"

text \<open>\<open>sk_reported\<close> are the calls of the milestone callback, which \<open>callback\<close> says is set.\<close>

(* src: sdk/src/events/scroll.ts:83-94 checkMilestones *)
definition checkMilestones :: "bool \<Rightarrow> int \<Rightarrow> scroll_tracker \<Rightarrow> scroll_tracker" where
  "checkMilestones callback percent t =
     (if callback
      then fold (\<lambda>m t. if m \<le> percent \<and> sk_milestone t < m
                       then t\<lparr>sk_milestone := m, sk_reported := sk_reported t @ [m]\<rparr> else t) MILESTONES t
      else t)"

text \<open>A reading of the page: the two heights, the window's height and the position, which may be fractional or negative.\<close>

record scroll_reading =
  sr_document :: int
  sr_body :: int
  sr_window :: int
  sr_top :: rat

definition js_round :: "rat \<Rightarrow> int" where
  "js_round x = \<lfloor>x + 1 / 2\<rfloor>"

definition scroll_percent :: "scroll_reading \<Rightarrow> int option" where
  "scroll_percent r =
     (let scrollable = max (sr_document r) (sr_body r) - sr_window r
      in if scrollable \<le> 0 then None
         else Some (min 100 (max 0 (js_round (sr_top r / rat_of_int scrollable * 100)))))"

(* src: sdk/src/events/scroll.ts:54-78 handleScroll *)
definition handleScroll :: "bool \<Rightarrow> scroll_reading \<Rightarrow> scroll_tracker \<Rightarrow> scroll_tracker" where
  "handleScroll callback r t =
     (case scroll_percent r of
        None \<Rightarrow> t\<lparr>sk_max := 100\<rparr>
      | Some p \<Rightarrow> if sk_max t < p then checkMilestones callback p (t\<lparr>sk_max := p\<rparr>) else t)"

(* src: sdk/src/events/scroll.ts:99-102 reset *)
definition scroll_reset :: "scroll_tracker \<Rightarrow> scroll_tracker" where
  "scroll_reset t = t\<lparr>sk_max := 0, sk_milestone := 0\<rparr>"

subsection \<open>Throttling\<close>

text \<open>
  A throttled function: the time of the last call, and when the trailing call is due. A call either runs now or moves the trailing
  call; \<open>throttle_fires\<close> is the timer.
\<close>

record throttled =
  th_last :: int
  th_due :: "int option"

(* src: sdk/src/utils/throttle.ts:5-31 throttle *)
definition throttle_call :: "int \<Rightarrow> int \<Rightarrow> throttled \<Rightarrow> bool \<times> throttled" where
  "throttle_call delay now t =
     (if delay \<le> now - th_last t then (True, t\<lparr>th_last := now\<rparr>)
      else (False, t\<lparr>th_due := Some (now + (delay - (now - th_last t)))\<rparr>))"

definition throttle_fires :: "int \<Rightarrow> throttled \<Rightarrow> bool \<times> throttled" where
  "throttle_fires now t =
     (case th_due t of
        Some d \<Rightarrow> if d \<le> now then (True, t\<lparr>th_last := now, th_due := None\<rparr>) else (False, t)
      | None \<Rightarrow> (False, t))"

subsection \<open>Navigation\<close>

text \<open>The addresses reported by \<open>pushState\<close>, \<open>replaceState\<close>, \<open>popstate\<close> and \<open>hashchange\<close>, one per event.\<close>

(* src: sdk/src/events/navigation.ts:74-84 handleNavigation *)
definition handleNavigation :: "string \<Rightarrow> string \<Rightarrow> string \<times> string option" where
  "handleNavigation newUrl currentUrl = (if newUrl \<noteq> currentUrl then (newUrl, Some newUrl) else (currentUrl, None))"

fun navigations :: "string \<Rightarrow> string list \<Rightarrow> string list" where
  "navigations current [] = []"
| "navigations current (u # us) =
     (case handleNavigation u current of (c, r) \<Rightarrow> (case r of None \<Rightarrow> navigations c us | Some v \<Rightarrow> v # navigations c us))"

subsection \<open>The configuration on the script tag\<close>

record script_tag =
  sc_src :: "string option"
  sc_data :: "(string \<times> string) list"

record page_document =
  pd_current :: "script_tag option"
  pd_scripts :: "script_tag list"

(* src: sdk/src/types.ts:44-72 StaminadsConfig *)
record script_config =
  sf_workspace :: string
  sf_endpoint :: string
  sf_crossDomains :: "string list option"
  sf_adClickIds :: "string list option"
  sf_debug :: "bool option"
  sf_trackSPA :: "bool option"
  sf_trackScroll :: "bool option"
  sf_trackClicks :: "bool option"

(* src: sdk/src/auto-init.ts:36-36 TRACKER_SRC_MARKER *)
definition TRACKER_SRC_MARKER :: string where
  "TRACKER_SRC_MARKER = ''/sdk/v1/tracker.js''"

definition last_of :: "'a list \<Rightarrow> 'a option" where
  "last_of xs = (if xs = [] then None else Some (last xs))"

(* src: sdk/src/auto-init.ts:47-71 findTrackerScript *)
definition findTrackerScript :: "page_document \<Rightarrow> script_tag option" where
  "findTrackerScript d =
     (case pd_current d of
        Some s \<Rightarrow> Some s
      | None \<Rightarrow>
          (case last_of (filter (\<lambda>s. js_includes (js_nullish (sc_src s) []) TRACKER_SRC_MARKER) (pd_scripts d)) of
             Some s \<Rightarrow> Some s
           | None \<Rightarrow> last_of (filter (\<lambda>s. map_of (sc_data s) ''workspaceId'' \<noteq> None) (pd_scripts d))))"

(* src: sdk/src/auto-init.ts:78-91 originFromScriptSrc *)
definition originFromScriptSrc :: "(string \<Rightarrow> string option) \<Rightarrow> script_tag \<Rightarrow> string" where
  "originFromScriptSrc origin_of s =
     (let src = js_nullish (sc_src s) [] in if src = [] then [] else js_nullish (origin_of src) [])"

(* src: sdk/src/auto-init.ts:94-100 parseList *)
definition parseList :: "string option \<Rightarrow> string list" where
  "parseList raw =
     (case raw of None \<Rightarrow> []
      | Some r \<Rightarrow> if r = [] then [] else filter (\<lambda>s. s \<noteq> []) (map js_trim (js_split CHR '','' r)))"

(* src: sdk/src/auto-init.ts:103-109 parseBool *)
definition parseBool :: "string option \<Rightarrow> bool option" where
  "parseBool raw =
     (case raw of None \<Rightarrow> None
      | Some r \<Rightarrow>
          let v = js_lower (js_trim r)
          in if v \<in> {''true'', ''1'', []} then Some True else if v \<in> {''false'', ''0''} then Some False else None)"

definition non_empty :: "'a list \<Rightarrow> 'a list option" where
  "non_empty xs = (if xs = [] then None else Some xs)"

(* src: sdk/src/auto-init.ts:126-159 configFromScript *)
definition configFromScript :: "(string \<Rightarrow> string option) \<Rightarrow> script_tag \<Rightarrow> script_config option" where
  "configFromScript origin_of s =
     (let ds = map_of (sc_data s); workspaceId = js_trim (js_nullish (ds ''workspaceId'') [])
      in if workspaceId = [] then None
         else Some \<lparr>sf_workspace = workspaceId,
           sf_endpoint = js_or (js_trim (js_nullish (ds ''endpoint'') [])) (originFromScriptSrc origin_of s),
           sf_crossDomains = non_empty (parseList (ds ''crossDomains'')),
           sf_adClickIds = non_empty (parseList (ds ''adClickIds'')),
           sf_debug = parseBool (ds ''debug''), sf_trackSPA = parseBool (ds ''trackSpa''),
           sf_trackScroll = parseBool (ds ''trackScroll''), sf_trackClicks = parseBool (ds ''trackClicks'')\<rparr>)"

(* src: sdk/src/auto-init.ts:167-177 resolveAutoInitConfig *)
definition resolveAutoInitConfig ::
    "(string \<Rightarrow> string option) \<Rightarrow> script_config option \<Rightarrow> page_document \<Rightarrow> script_config option" where
  "resolveAutoInitConfig origin_of explicit d =
     (case explicit of Some c \<Rightarrow> Some c
      | None \<Rightarrow> Option.bind (findTrackerScript d) (configFromScript origin_of))"

subsection \<open>Who is left after the check for bots\<close>

lemma js_lower_matches [simp]: "matches_any ws (js_lower s) = matches_any ws s"
  by (simp add: matches_any_def)

lemma matches_any_mono: "matches_any ws s \<Longrightarrow> set ws \<subseteq> set vs \<Longrightarrow> matches_any vs s"
  by (auto simp: matches_any_def)

lemma matches_any_split: "matches_any (ws @ vs) s \<longleftrightarrow> matches_any ws s \<or> matches_any vs s"
  by (auto simp: matches_any_def)

lemma not_bot_words: "\<not> isBot b \<Longrightarrow> set ws \<subseteq> set BOT_PATTERNS \<Longrightarrow> \<not> matches_any ws (br_userAgent b)"
  using matches_any_mono [of ws "br_userAgent b" BOT_PATTERNS] by (auto simp: isBot_def Let_def split: if_splits)

lemma getBotScore_bounds: "0 \<le> getBotScore b" "getBotScore b \<le> 100" "br_webdriver b \<Longrightarrow> 30 \<le> getBotScore b"
  by (auto simp: getBotScore_def suspiciousFeatures_def Let_def)

text \<open>
  A visitor who passes the check for bots is never of the browser types crawler and fetcher, and of the type in-app only as a
  Facebook or Instagram browser: the in-app browsers of Twitter, LinkedIn and Pinterest, for which the device detection has a type
  too, count as bots and are not tracked at all.
\<close>
theorem tracked_browser_types:
  assumes "\<not> isBot b"
  shows "di_browser_type (mapResult b r) \<in> {None, Some ''inapp'', Some ''email'', Some ''cli''}"
    and "di_browser_type (mapResult b r) = Some ''inapp'' \<longleftrightarrow> matches_any [''fbav'', ''fban'', ''instagram''] (br_userAgent b)"
    and "\<not> matches_any [''twitter'', ''linkedin'', ''pinterest''] (br_userAgent b)"
proof -
  have no: "\<not> matches_any [''bot'', ''crawler'', ''spider'', ''scraper''] (br_userAgent b)"
      "\<not> matches_any [''headless'', ''phantom'', ''puppeteer'', ''selenium''] (br_userAgent b)"
      and social: "\<not> matches_any [''twitter'', ''linkedin'', ''pinterest''] (br_userAgent b)"
    using assms by (rule not_bot_words, simp add: BOT_PATTERNS_def BOT_PATTERNS_1_def)+
  have inapp: "matches_any [''fbav'', ''fban'', ''instagram'', ''twitter'', ''linkedin'', ''pinterest''] (br_userAgent b)
      \<longleftrightarrow> matches_any [''fbav'', ''fban'', ''instagram''] (br_userAgent b)"
    using social matches_any_split [of "[''fbav'', ''fban'', ''instagram'']" "[''twitter'', ''linkedin'', ''pinterest'']"] by simp
  show "di_browser_type (mapResult b r) \<in> {None, Some ''inapp'', Some ''email'', Some ''cli''}"
    and "di_browser_type (mapResult b r) = Some ''inapp'' \<longleftrightarrow> matches_any [''fbav'', ''fban'', ''instagram''] (br_userAgent b)"
    using no by (simp_all add: mapResult_def getBrowserType_def Let_def inapp)
  show "\<not> matches_any [''twitter'', ''linkedin'', ''pinterest''] (br_userAgent b)" by (rule social)
qed

definition sample_browser :: "string \<Rightarrow> browser" where
  "sample_browser ua =
     \<lparr>br_userAgent = ua, br_webdriver = False, br_plugins = Some 3, br_languages = Some 2, br_chrome = False, br_touch = True,
      br_localStorage = True, br_screen_width = 390, br_screen_height = 844, br_viewport_width = 390, br_viewport_height = 664,
      br_language = ''fr'', br_connection = None, br_timezone = Some ''Europe/Paris''\<rparr>"

lemma tracked_browser_types_witness:
  "\<not> isBot (sample_browser ''Mozilla Instagram 300'') \<and>
   di_browser_type (mapResult (sample_browser ''Mozilla Instagram 300'') \<lparr>ur_browser_name = None, ur_device_type = Some ''mobile'', ur_os_name = Some ''iOS''\<rparr>)
     = Some ''inapp'' \<and> isBot (sample_browser ''Mozilla Twitter for iPhone'')"
proof -
  have b: "\<not> isBot (sample_browser ''Mozilla Instagram 300'')" "isBot (sample_browser ''Mozilla Twitter for iPhone'')" by code_simp+
  have "matches_any [''fbav'', ''fban'', ''instagram''] (br_userAgent (sample_browser ''Mozilla Instagram 300''))" by code_simp
  with b tracked_browser_types(2) [OF b(1)] show ?thesis by blast
qed

subsection \<open>Scroll depth\<close>

definition depth :: "scroll_reading \<Rightarrow> int" where
  "depth r = js_nullish (scroll_percent r) 100"

lemma scroll_percent_bounds: "scroll_percent r = Some p \<Longrightarrow> 0 \<le> p \<and> p \<le> 100"
  by (auto simp: scroll_percent_def Let_def split: if_splits)

lemma depth_bounds: "0 \<le> depth r \<and> depth r \<le> 100"
  using scroll_percent_bounds [of r] by (auto simp: depth_def js_nullish_def split: option.splits)

lemma milestones_max [simp]: "sk_max (checkMilestones callback p t) = sk_max t"
  by (simp add: checkMilestones_def MILESTONES_def)

lemma handleScroll_max: "sk_max t \<le> 100 \<Longrightarrow> sk_max (handleScroll callback r t) = max (sk_max t) (depth r)"
  using scroll_percent_bounds [of r] by (auto simp: handleScroll_def depth_def js_nullish_def split: option.splits)

lemma readings_max: "sk_max t \<le> 100 \<Longrightarrow> sk_max (fold (handleScroll callback) rs t) = fold (\<lambda>r m. max m (depth r)) rs (sk_max t)"
  using depth_bounds by (induction rs arbitrary: t) (simp_all add: handleScroll_max)

lemma fold_depth_bounds: "0 \<le> m \<Longrightarrow> m \<le> 100 \<Longrightarrow> 0 \<le> fold (\<lambda>r m. max m (depth r)) rs m \<and> fold (\<lambda>r m. max m (depth r)) rs m \<le> 100"
  using depth_bounds by (induction rs arbitrary: m) (simp_all add: max_def)

text \<open>The milestones passed are those up to the depth, each reported once and in order.\<close>

definition milestones_ok :: "scroll_tracker \<Rightarrow> bool" where
  "milestones_ok t \<longleftrightarrow> sk_reported t = filter (\<lambda>m. m \<le> sk_max t) MILESTONES \<and>
     sk_milestone t = js_nullish (last_of (sk_reported t)) 0"

lemma milestones_ok_step:
  assumes "milestones_ok t" "scroll_percent r = Some p"
  shows "milestones_ok (handleScroll True r t)"
proof -
  consider "sk_max t < 25" | "25 \<le> sk_max t" "sk_max t < 50" | "50 \<le> sk_max t" "sk_max t < 75"
    | "75 \<le> sk_max t" "sk_max t < 100" | "100 \<le> sk_max t" by linarith
  then show ?thesis
    using assms scroll_percent_bounds [OF assms(2)] unfolding milestones_ok_def handleScroll_def
    by cases (simp_all add: checkMilestones_def MILESTONES_def last_of_def js_nullish_def)
qed

text \<open>
  The depth of a page is the greatest of its readings, from 0 to 100, a page that needs no scrolling reading as 100; and on a page
  that scrolls each milestone up to that depth is reported exactly once, in order.
\<close>
theorem scroll_depth:
  shows "sk_max (fold (handleScroll callback) rs scroll_init) = fold (\<lambda>r m. max m (depth r)) rs 0"
    and "sk_max (fold (handleScroll callback) rs scroll_init) \<in> {0..100}"
    and "\<forall>r \<in> set rs. scroll_percent r \<noteq> None \<Longrightarrow>
      sk_reported (fold (handleScroll True) rs scroll_init) =
        filter (\<lambda>m. m \<le> sk_max (fold (handleScroll True) rs scroll_init)) MILESTONES"
proof -
  show m: "sk_max (fold (handleScroll callback) rs scroll_init) = fold (\<lambda>r m. max m (depth r)) rs 0"
    by (subst readings_max) (simp_all add: scroll_init_def)
  show "sk_max (fold (handleScroll callback) rs scroll_init) \<in> {0..100}"
    unfolding m using fold_depth_bounds [of 0 rs] by simp
  have "milestones_ok t \<Longrightarrow> \<forall>r \<in> set rs. scroll_percent r \<noteq> None \<Longrightarrow> milestones_ok (fold (handleScroll True) rs t)" for t
    by (induction rs arbitrary: t) (auto intro: milestones_ok_step)
  moreover have "milestones_ok scroll_init" by (simp add: milestones_ok_def scroll_init_def MILESTONES_def last_of_def js_nullish_def)
  moreover assume "\<forall>r \<in> set rs. scroll_percent r \<noteq> None"
  ultimately have "milestones_ok (fold (handleScroll True) rs scroll_init)" by blast
  then show "sk_reported (fold (handleScroll True) rs scroll_init) =
        filter (\<lambda>m. m \<le> sk_max (fold (handleScroll True) rs scroll_init)) MILESTONES"
    by (simp add: milestones_ok_def)
qed

definition sample_reading :: "rat \<Rightarrow> scroll_reading" where
  "sample_reading y = \<lparr>sr_document = 2000, sr_body = 1900, sr_window = 1000, sr_top = y\<rparr>"

lemma scroll_depth_witness:
  "sk_max (fold (handleScroll True) [sample_reading 555, sample_reading 100] scroll_init) = 56 \<and>
   sk_reported (fold (handleScroll True) [sample_reading 555, sample_reading 100] scroll_init) = [25, 50]"
proof -
  have d: "depth (sample_reading 555) = 56" "depth (sample_reading 100) = 10"
      and s: "scroll_percent (sample_reading 555) = Some 56" "scroll_percent (sample_reading 100) = Some 10" by code_simp+
  have m: "sk_max (fold (handleScroll True) [sample_reading 555, sample_reading 100] scroll_init) = 56"
    unfolding scroll_depth(1) by (simp add: d)
  with scroll_depth(3) [of "[sample_reading 555, sample_reading 100]"] s show ?thesis by (simp add: MILESTONES_def)
qed

subsection \<open>Throttling and navigation\<close>

text \<open>A timer on time keeps two calls of the throttled function apart by the delay.\<close>

definition throttle_ok :: "int \<Rightarrow> throttled \<Rightarrow> bool" where
  "throttle_ok delay t \<longleftrightarrow> (case th_due t of None \<Rightarrow> True | Some d \<Rightarrow> d = th_last t + delay)"

lemma throttle_call_spaced:
  "throttle_call delay now t = (went, t') \<Longrightarrow> throttle_ok delay t \<Longrightarrow> (\<forall>d. th_due t = Some d \<longrightarrow> now < d) \<Longrightarrow>
     (if went then th_last t + delay \<le> now \<and> th_last t' = now else th_last t' = th_last t) \<and> throttle_ok delay t'"
  by (auto simp: throttle_call_def throttle_ok_def split: if_splits option.splits)

lemma throttle_fires_spaced:
  "throttle_fires now t = (went, t') \<Longrightarrow> throttle_ok delay t \<Longrightarrow>
     (if went then th_last t + delay \<le> now \<and> th_last t' = now else t' = t) \<and> throttle_ok delay t'"
  by (auto simp: throttle_fires_def throttle_ok_def split: if_splits option.splits)

text \<open>
  A call that finds the delay over runs at once and leaves a trailing call that is overdue in place: when the timer is late, the
  throttled function runs twice within a millisecond.
\<close>
lemma throttle_late_timer:
  "let t = \<lparr>th_last = 0, th_due = None\<rparr>; (r1, t1) = throttle_call 100 50 t; (r2, t2) = throttle_call 100 120 t1;
       (r3, t3) = throttle_fires 121 t2
   in \<not> r1 \<and> r2 \<and> r3"
  by (simp add: throttle_call_def throttle_fires_def)

text \<open>The navigations reported are the changes of the address.\<close>

lemma navigations_spec: "navigations u us = tl (remdups_adj (u # us))"
  by (induction us arbitrary: u) (auto simp: handleNavigation_def remdups_adj_Cons split: list.splits)

subsection \<open>The script tag\<close>

lemma last_of_append [simp]: "last_of (xs @ ys) = (if ys = [] then last_of xs else last_of ys)" "last_of [x] = Some x"
  "last_of (x # ys @ [y]) = Some y" "last_of (x # y # zs) = last_of (y # zs)"
  by (simp_all add: last_of_def)

lemma parse_item: "s \<in> set (parseList r) \<Longrightarrow> s \<noteq> []"
  by (auto simp: parseList_def split: option.splits if_splits)

text \<open>
  The official snippet: an asynchronous script, so that the document names no current script, whose address has the tracker's path
  and which carries a workspace. If it is the last such script, the tracker starts with its workspace and, unless it names another
  endpoint, reports to the origin it was loaded from; but a script of the tracker's path after it without a workspace leaves the
  page without tracking.
\<close>
theorem snippet_configures:
  assumes "js_includes src TRACKER_SRC_MARKER" "js_trim ws \<noteq> []" "map_of data ''workspaceId'' = Some ws"
    and "\<forall>s \<in> set later. \<not> js_includes (js_nullish (sc_src s) []) TRACKER_SRC_MARKER"
    and "s = \<lparr>sc_src = Some src, sc_data = data\<rparr>"
  shows "\<exists>c. resolveAutoInitConfig origin_of None \<lparr>pd_current = None, pd_scripts = before @ s # later\<rparr> = Some c \<and>
      sf_workspace c = js_trim ws \<and>
      (map_of data ''endpoint'' = None \<longrightarrow> src \<noteq> [] \<longrightarrow> sf_endpoint c = js_nullish (origin_of src) [])"
    and "js_includes src' TRACKER_SRC_MARKER \<Longrightarrow>
      resolveAutoInitConfig origin_of None
        \<lparr>pd_current = None, pd_scripts = before @ s # later @ [\<lparr>sc_src = Some src', sc_data = []\<rparr>]\<rparr> = None"
proof -
  have none: "filter (\<lambda>s. js_includes (js_nullish (sc_src s) []) TRACKER_SRC_MARKER) later = []"
    using assms(4) by (simp add: filter_empty_conv)
  show "\<exists>c. resolveAutoInitConfig origin_of None \<lparr>pd_current = None, pd_scripts = before @ s # later\<rparr> = Some c \<and>
      sf_workspace c = js_trim ws \<and>
      (map_of data ''endpoint'' = None \<longrightarrow> src \<noteq> [] \<longrightarrow> sf_endpoint c = js_nullish (origin_of src) [])"
    using assms none
    by (simp add: resolveAutoInitConfig_def findTrackerScript_def configFromScript_def originFromScriptSrc_def
        js_nullish_def js_or_def Let_def js_trim_def)
  assume "js_includes src' TRACKER_SRC_MARKER"
  then show "resolveAutoInitConfig origin_of None
        \<lparr>pd_current = None, pd_scripts = before @ s # later @ [\<lparr>sc_src = Some src', sc_data = []\<rparr>]\<rparr> = None"
    by (simp add: resolveAutoInitConfig_def findTrackerScript_def configFromScript_def js_nullish_def js_trim_def none)
qed

lemma snippet_configures_witness:
  "\<exists>c. resolveAutoInitConfig (\<lambda>_. Some ''https://stats.example'') None
      \<lparr>pd_current = None, pd_scripts = [\<lparr>sc_src = Some ''https://stats.example/sdk/v1/tracker.js'', sc_data = [(''workspaceId'', ''ws_1'')]\<rparr>]\<rparr>
      = Some c \<and> sf_workspace c = ''ws_1'' \<and> sf_endpoint c = ''https://stats.example''"
proof -
  have "js_includes ''https://stats.example/sdk/v1/tracker.js'' TRACKER_SRC_MARKER" "js_trim ''ws_1'' = ''ws_1''" by code_simp+
  with snippet_configures(1) [of "''https://stats.example/sdk/v1/tracker.js''" "''ws_1''" "[(''workspaceId'', ''ws_1'')]" "[]"
      "\<lparr>sc_src = Some ''https://stats.example/sdk/v1/tracker.js'', sc_data = [(''workspaceId'', ''ws_1'')]\<rparr>"
      "\<lambda>_. Some ''https://stats.example''" "[]"]
  show ?thesis by (simp add: js_nullish_def)
qed

end
