(* ===== verification/Sdk_Main.thy ===== *)
theory Sdk_Main
  imports Sdk_Session Session_State Sdk_Detection
begin

section \<open>The tracker: heartbeat, browser events and the public operations\<close>

text \<open>
  \<^verbatim>\<open>sdk/src/sdk.ts\<close>. The state holds the parts of the tracker (session manager, session state,
  scroll tracker, device), the heartbeat, the timers the browser has pending and what was handed to the sender
  (\<^verbatim>\<open>Sdk_Sender\<close> models what becomes of it). A handler runs at one instant \<open>now\<close>; a request that
  settles later is an event of its own. A timer can fire at any time from the one it was set for.
\<close>

subsection \<open>Configuration\<close>

(* src: sdk/src/types.ts:14-21 HeartbeatTier *)
record heartbeat_tier =
  ht_after :: int
  ht_desktop :: "int option"
  ht_mobile :: "int option"

(* src: sdk/src/sdk.ts:31-31 MIN_HEARTBEAT_INTERVAL *)
definition MIN_HEARTBEAT_INTERVAL :: int where
  "MIN_HEARTBEAT_INTERVAL = 5000"

(* src: sdk/src/sdk.ts:32-32 MIN_HEARTBEAT_MAX_DURATION *)
definition MIN_HEARTBEAT_MAX_DURATION :: int where
  "MIN_HEARTBEAT_MAX_DURATION = 60 * 1000"

(* src: sdk/src/sdk.ts:33-33 SEND_DEBOUNCE_MS *)
definition SEND_DEBOUNCE_MS :: int where
  "SEND_DEBOUNCE_MS = 100"

(* src: sdk/src/sdk.ts:36-43 DEFAULT_HEARTBEAT_TIERS *)
definition DEFAULT_HEARTBEAT_TIERS :: "heartbeat_tier list" where
  "DEFAULT_HEARTBEAT_TIERS =
     [\<lparr>ht_after = 0, ht_desktop = Some 10000, ht_mobile = Some 7000\<rparr>,
      \<lparr>ht_after = 3 * 60 * 1000, ht_desktop = Some 20000, ht_mobile = Some 14000\<rparr>,
      \<lparr>ht_after = 5 * 60 * 1000, ht_desktop = Some 30000, ht_mobile = Some 21000\<rparr>]"

text \<open>The part of the configuration the tracker itself reads; the rest goes to the session manager.\<close>

record main_config =
  mc_tiers :: "heartbeat_tier list"
  mc_maxDuration :: int
  mc_resetOnNavigation :: bool
  mc_version :: string
  mc_session :: sdk_config

definition at_least :: "int \<Rightarrow> int option \<Rightarrow> int option" where
  "at_least m i = map_option (max m) i"

(* src: sdk/src/sdk.ts:710-739 validateTiers *)
definition validateTiers :: "heartbeat_tier list \<Rightarrow> heartbeat_tier list" where
  "validateTiers tiers =
     (if tiers = [] then DEFAULT_HEARTBEAT_TIERS
      else let sorted_tiers = sort_key ht_after tiers;
               from_zero = (if ht_after (hd sorted_tiers) \<noteq> 0
                 then \<lparr>ht_after = 0, ht_desktop = Some 10000, ht_mobile = Some 7000\<rparr> # sorted_tiers else sorted_tiers)
           in map (\<lambda>t. t\<lparr>ht_desktop := at_least MIN_HEARTBEAT_INTERVAL (ht_desktop t),
                ht_mobile := at_least MIN_HEARTBEAT_INTERVAL (ht_mobile t)\<rparr>) from_zero)"

text \<open>What a site may set; an absent key takes the default.\<close>

record user_config =
  uc_workspace :: string
  uc_endpoint :: string
  uc_tiers :: "heartbeat_tier list option"
  uc_maxDuration :: "int option"
  uc_resetOnNavigation :: "bool option"
  uc_trackScroll :: "bool option"
  uc_sessionTimeout :: "int option"
  uc_adClickIds :: "string list option"

(* src: sdk/src/sdk.ts:46-61 DEFAULT_CONFIG *)
definition normalised_config :: "string \<Rightarrow> user_config \<Rightarrow> main_config" where
  "normalised_config version u =
     (let limit = js_nullish (uc_maxDuration u) (10 * 60 * 1000)
      in \<lparr>mc_tiers = validateTiers (js_nullish (uc_tiers u) DEFAULT_HEARTBEAT_TIERS),
          mc_maxDuration = (if limit \<noteq> 0 \<and> limit < MIN_HEARTBEAT_MAX_DURATION then MIN_HEARTBEAT_MAX_DURATION else limit),
          mc_resetOnNavigation = js_nullish (uc_resetOnNavigation u) False,
          mc_version = version,
          mc_session = \<lparr>co_workspace = uc_workspace u, co_timeout = js_nullish (uc_sessionTimeout u) (30 * 60 * 1000),
            co_adClickIds = js_nullish (uc_adClickIds u) DEFAULT_AD_CLICK_IDS\<rparr>\<rparr>)"

subsection \<open>The state\<close>

(* src: sdk/src/types.ts:24-41 HeartbeatState *)
record heartbeat_state =
  hs_activeStartTime :: int
  hs_accumulatedActiveMs :: int
  hs_isActive :: bool
  hs_maxDurationReached :: bool
  hs_lastPingTime :: int
  hs_currentTierIndex :: nat
  hs_pageActiveMs :: int
  hs_pageStartTime :: int

(* src: sdk/src/types/session-state.ts:52-80 SessionAttributes *)
record sent_attributes =
  at_landing_page :: string
  at_referrer :: "string option"
  at_utm :: utm_params
  at_device :: device_info
  at_fingerprint :: "string option"

datatype timer_kind = Heartbeat_timer | Send_timer

record browser_timer =
  tm_id :: nat
  tm_due :: int
  tm_kind :: timer_kind

text \<open>How a payload left: by a ping, by another send, by the beacon of a page that goes away.\<close>

datatype sent_how = By_ping | By_send | By_beacon

(* src: sdk/src/sdk.ts:63-98 StaminadsSDK *)
record tracker =
  tk_manager :: session_manager
  tk_device :: device_info
  tk_fingerprint :: string
  tk_state :: session_state
  tk_scroll :: "scroll_tracker option"
  tk_hb :: heartbeat_state
  tk_hbTimeout :: "nat option"
  tk_debounce :: "nat option"
  tk_mobile :: bool
  tk_tracking :: bool
  tk_paused :: bool
  tk_flushed :: bool
  tk_snapshot :: web_storage
  tk_timers :: "browser_timer list"
  tk_next_timer :: nat
  tk_visible :: bool
  tk_href :: string
  tk_sent :: "(sent_how \<times> sent_attributes session_payload) list"

text \<open>\<open>setTimeout\<close> and \<open>clearTimeout\<close>.\<close>

definition set_timeout :: "timer_kind \<Rightarrow> int \<Rightarrow> tracker \<Rightarrow> nat \<times> tracker" where
  "set_timeout k due w =
     (tk_next_timer w,
      w\<lparr>tk_timers := tk_timers w @ [\<lparr>tm_id = tk_next_timer w, tm_due = due, tm_kind = k\<rparr>], tk_next_timer := tk_next_timer w + 1\<rparr>)"

definition clear_timeout :: "nat \<Rightarrow> tracker \<Rightarrow> tracker" where
  "clear_timeout i w = w\<lparr>tk_timers := filter (\<lambda>t. tm_id t \<noteq> i) (tk_timers w)\<rparr>"

subsection \<open>The heartbeat\<close>

abbreviation hb_update :: "(heartbeat_state \<Rightarrow> heartbeat_state) \<Rightarrow> tracker \<Rightarrow> tracker" where
  "hb_update f w \<equiv> w\<lparr>tk_hb := f (tk_hb w)\<rparr>"

(* src: sdk/src/sdk.ts:575-593 stopHeartbeat *)
definition stopHeartbeat :: "bool \<Rightarrow> int \<Rightarrow> tracker \<Rightarrow> tracker" where
  "stopHeartbeat accumulateTime now w =
     (let w1 = (if accumulateTime \<and> hs_isActive (tk_hb w)
                then hb_update (\<lambda>h. h\<lparr>hs_accumulatedActiveMs := hs_accumulatedActiveMs h + (now - hs_activeStartTime h),
                       hs_pageActiveMs := hs_pageActiveMs h + (now - hs_pageStartTime h)\<rparr>) w
                else w);
          w2 = hb_update (\<lambda>h. h\<lparr>hs_isActive := False\<rparr>) w1
      in case tk_hbTimeout w2 of None \<Rightarrow> w2 | Some i \<Rightarrow> (clear_timeout i w2)\<lparr>tk_hbTimeout := None\<rparr>)"

(* src: sdk/src/sdk.ts:598-604 getTotalActiveMs *)
definition getTotalActiveMs :: "int \<Rightarrow> heartbeat_state \<Rightarrow> int" where
  "getTotalActiveMs now h = hs_accumulatedActiveMs h + (if hs_isActive h then now - hs_activeStartTime h else 0)"

(* src: sdk/src/sdk.ts:698-705 getPageActiveMs *)
definition getPageActiveMs :: "int \<Rightarrow> heartbeat_state \<Rightarrow> int" where
  "getPageActiveMs now h = hs_pageActiveMs h + (if hs_isActive h then now - hs_pageStartTime h else 0)"

(* src: sdk/src/sdk.ts:609-629 checkAndUpdateMaxDuration *)
definition checkAndUpdateMaxDuration :: "main_config \<Rightarrow> int \<Rightarrow> tracker \<Rightarrow> bool \<times> tracker" where
  "checkAndUpdateMaxDuration cfg now w =
     (if mc_maxDuration cfg = 0 then (False, w)
      else if mc_maxDuration cfg \<le> getTotalActiveMs now (tk_hb w)
      then (True, hb_update (\<lambda>h. h\<lparr>hs_maxDurationReached := True\<rparr>) w) else (False, w))"

text \<open>The tiers are never empty (\<open>validateTiers\<close>); the loop stops at the first tier not yet reached.\<close>

fun tier_from :: "int \<Rightarrow> nat \<Rightarrow> heartbeat_tier \<times> nat \<Rightarrow> heartbeat_tier list \<Rightarrow> heartbeat_tier \<times> nat" where
  "tier_from active i best [] = best"
| "tier_from active i best (t # ts) = (if ht_after t \<le> active then tier_from active (i + 1) (t, i) ts else best)"

(* src: sdk/src/sdk.ts:634-654 getCurrentTier *)
definition getCurrentTier :: "main_config \<Rightarrow> int \<Rightarrow> heartbeat_state \<Rightarrow> heartbeat_tier \<times> nat" where
  "getCurrentTier cfg now h = tier_from (getTotalActiveMs now h) 0 (hd (mc_tiers cfg), 0) (mc_tiers cfg)"

(* src: sdk/src/sdk.ts:659-665 getCurrentInterval *)
definition getCurrentInterval :: "main_config \<Rightarrow> int \<Rightarrow> tracker \<Rightarrow> int option" where
  "getCurrentInterval cfg now w =
     (let tier = fst (getCurrentTier cfg now (tk_hb w)) in if tk_mobile w then ht_mobile tier else ht_desktop tier)"

(* src: sdk/src/sdk.ts:486-514 scheduleNextHeartbeat *)
definition scheduleNextHeartbeat :: "main_config \<Rightarrow> int \<Rightarrow> tracker \<Rightarrow> tracker" where
  "scheduleNextHeartbeat cfg now w =
     (if \<not> hs_isActive (tk_hb w) then w
      else case checkAndUpdateMaxDuration cfg now w of
          (True, w1) \<Rightarrow> stopHeartbeat True now w1
        | (False, w1) \<Rightarrow>
            (case getCurrentInterval cfg now w1 of
               None \<Rightarrow> stopHeartbeat True now (hb_update (\<lambda>h. h\<lparr>hs_maxDurationReached := True\<rparr>) w1)
             | Some interval \<Rightarrow>
                 (let targetTime = hs_lastPingTime (tk_hb w1) + interval; delay = max 0 (targetTime - now)
                  in case set_timeout Heartbeat_timer (now + delay) w1 of (i, w2) \<Rightarrow> w2\<lparr>tk_hbTimeout := Some i\<rparr>)))"

(* src: sdk/src/sdk.ts:439-461 startHeartbeat *)
definition startHeartbeat :: "main_config \<Rightarrow> int \<Rightarrow> tracker \<Rightarrow> tracker" where
  "startHeartbeat cfg now w =
     (if hs_maxDurationReached (tk_hb w) then w
      else scheduleNextHeartbeat cfg now
        (hb_update (\<lambda>h. h\<lparr>hs_activeStartTime := now, hs_isActive := True, hs_lastPingTime := now\<rparr>) (stopHeartbeat False now w)))"

(* src: sdk/src/sdk.ts:466-481 resumeHeartbeat *)
definition resumeHeartbeat :: "main_config \<Rightarrow> int \<Rightarrow> tracker \<Rightarrow> tracker" where
  "resumeHeartbeat cfg now w =
     (if hs_maxDurationReached (tk_hb w) then w
      else scheduleNextHeartbeat cfg now
        (hb_update (\<lambda>h. h\<lparr>hs_activeStartTime := now, hs_pageStartTime := now, hs_isActive := True, hs_lastPingTime := now\<rparr>) w))"

(* src: sdk/src/sdk.ts:547-555 shouldSendPing *)
definition shouldSendPing :: "tracker \<Rightarrow> bool" where
  "shouldSendPing w \<longleftrightarrow> \<not> tk_paused w \<and> tk_tracking w \<and> hs_isActive (tk_hb w) \<and> tk_visible w"

(* src: sdk/src/sdk.ts:670-682 resetHeartbeatState *)
definition resetHeartbeatState :: "int \<Rightarrow> tracker \<Rightarrow> tracker" where
  "resetHeartbeatState now w =
     (stopHeartbeat False now w)\<lparr>tk_hb :=
        \<lparr>hs_activeStartTime = 0, hs_accumulatedActiveMs = 0, hs_isActive = False, hs_maxDurationReached = False,
         hs_lastPingTime = 0, hs_currentTierIndex = 0, hs_pageActiveMs = 0, hs_pageStartTime = now\<rparr>\<rparr>"

(* src: sdk/src/sdk.ts:687-691 resetPageActiveTime *)
definition resetPageActiveTime :: "int \<Rightarrow> tracker \<Rightarrow> tracker" where
  "resetPageActiveTime now w = hb_update (\<lambda>h. h\<lparr>hs_pageActiveMs := 0, hs_pageStartTime := now\<rparr>) w"


subsection \<open>Payloads\<close>

definition present :: "string option \<Rightarrow> string option" where
  "present x = (if js_truthy x then x else None)"

definition no_utm :: utm_params where
  "no_utm = \<lparr>up_source = None, up_medium = None, up_campaign = None, up_term = None, up_content = None, up_id = None, up_id_from = None\<rparr>"

(* src: sdk/src/sdk.ts:781-809 buildAttributes *)
definition buildAttributes :: "tracker \<Rightarrow> sent_attributes" where
  "buildAttributes w =
     (let session = sm_session (tk_manager w); utm = js_nullish (Option.bind session se_utm) no_utm
      in \<lparr>at_landing_page = js_or (case session of Some s \<Rightarrow> se_landing s | None \<Rightarrow> []) (tk_href w),
          at_referrer = present (Option.bind session se_referrer),
          at_utm = \<lparr>up_source = present (up_source utm), up_medium = present (up_medium utm), up_campaign = present (up_campaign utm),
            up_term = present (up_term utm), up_content = present (up_content utm), up_id = present (up_id utm),
            up_id_from = present (up_id_from utm)\<rparr>,
          at_device = (tk_device w)\<lparr>di_browser_type := present (di_browser_type (tk_device w))\<rparr>,
          at_fingerprint = present (Some (tk_fingerprint w))\<rparr>)"

definition current_payload :: "main_config \<Rightarrow> int \<Rightarrow> tracker \<Rightarrow> sent_attributes session_payload \<times> session_state" where
  "current_payload cfg now w =
     buildPayload (mc_version cfg) (Some (getPageActiveMs now (tk_hb w))) now (buildAttributes w)
       (Some \<lparr>po_userId = Some (getUserId (tk_manager w)), po_visitorId = Some (getVisitorId (tk_manager w)),
          po_dimensions = Some (getDimensionsPayload (tk_manager w))\<rparr>) (tk_state w)"

definition hand_over :: "sent_how \<Rightarrow> main_config \<Rightarrow> int \<Rightarrow> tracker \<Rightarrow> tracker" where
  "hand_over how cfg now w =
     (case current_payload cfg now w of (p, s) \<Rightarrow> w\<lparr>tk_state := s, tk_sent := tk_sent w @ [(how, p)]\<rparr>)"

(* src: sdk/src/sdk.ts:760-770 sendPayload *)
definition sendPayload :: "main_config \<Rightarrow> int \<Rightarrow> tracker \<Rightarrow> tracker" where
  "sendPayload = hand_over By_send"

definition scroll_into_state :: "tracker \<Rightarrow> tracker" where
  "scroll_into_state w = (case tk_scroll w of None \<Rightarrow> w | Some t \<Rightarrow> w\<lparr>tk_state := updateScroll (sk_max t) (tk_state w)\<rparr>)"

definition reset_scroll :: "tracker \<Rightarrow> tracker" where
  "reset_scroll w = w\<lparr>tk_scroll := map_option scroll_reset (tk_scroll w)\<rparr>"

definition open_page :: "int \<Rightarrow> string \<Rightarrow> tracker \<Rightarrow> tracker" where
  "open_page now path w = w\<lparr>tk_state := addPageview (Some (getPageActiveMs now (tk_hb w))) now path (tk_state w)\<rparr>"

definition persist_state :: "tracker \<Rightarrow> tracker" where
  "persist_state w = w\<lparr>tk_snapshot := persist (tk_state w) (tk_snapshot w)\<rparr>"

(* src: sdk/src/sdk.ts:560-570 sendPingEvent *)
definition sendPingEvent :: "main_config \<Rightarrow> int \<Rightarrow> tracker \<Rightarrow> tracker" where
  "sendPingEvent cfg now w = hand_over By_ping cfg now (scroll_into_state w)"

(* src: sdk/src/sdk.ts:514-540 scheduleNextHeartbeat *)
definition heartbeat_fires :: "main_config \<Rightarrow> int \<Rightarrow> tracker \<Rightarrow> tracker" where
  "heartbeat_fires cfg now w =
     (if shouldSendPing w
      then scheduleNextHeartbeat cfg now
        (hb_update (\<lambda>h. h\<lparr>hs_lastPingTime := now\<rparr>)
          (sendPingEvent cfg now (hb_update (\<lambda>h. h\<lparr>hs_currentTierIndex := snd (getCurrentTier cfg now h)\<rparr>) w)))
      else w)"

(* src: sdk/src/sdk.ts:744-753 scheduleDebouncedSend *)
definition scheduleDebouncedSend :: "int \<Rightarrow> tracker \<Rightarrow> tracker" where
  "scheduleDebouncedSend now w =
     (let w1 = (case tk_debounce w of None \<Rightarrow> w | Some i \<Rightarrow> clear_timeout i w)
      in case set_timeout Send_timer (now + SEND_DEBOUNCE_MS) w1 of (i, w2) \<Rightarrow> w2\<lparr>tk_debounce := Some i\<rparr>)"

(* src: sdk/src/sdk.ts:372-397 flushOnce *)
definition flushOnce :: "main_config \<Rightarrow> int \<Rightarrow> tracker \<Rightarrow> tracker" where
  "flushOnce cfg now w =
     (if tk_flushed w then w
      else let w1 = scroll_into_state (w\<lparr>tk_flushed := True\<rparr>);
               w2 = w1\<lparr>tk_state := finalizeForUnload (Some (getPageActiveMs now (tk_hb w1))) now (tk_state w1)\<rparr>
           in persist_state (hand_over By_beacon cfg now w2))"

(* src: sdk/src/sdk.ts:402-434 onNavigation *)
definition onNavigation :: "main_config \<Rightarrow> int \<Rightarrow> string \<Rightarrow> tracker \<Rightarrow> tracker" where
  "onNavigation cfg now path w =
     (let w1 = resetPageActiveTime now (reset_scroll (open_page now path (scroll_into_state w)));
          w2 = (if mc_resetOnNavigation cfg then startHeartbeat cfg now (resetHeartbeatState now w1) else w1)
      in persist_state (scheduleDebouncedSend now w2))"

subsection \<open>Browser events and public operations\<close>

text \<open>\<open>Goes_visible\<close> and \<open>Goes_hidden\<close> are the two cases of the visibility handler.\<close>

datatype tracker_event =
    Goes_hidden | Goes_visible | Window_focus | Window_blur | Page_freeze | Page_resume | Page_unload | Page_show bool
  | Scrolled scroll_reading | Navigated string string | Timer_fires nat | Send_settled bool
  | Track_page_view string | Track_goal string "int option" "(string \<times> string) list option" | Goal_settled
  | Set_dimension nat string | Clear_dimensions | Set_user "string option"
  | Pause | Resume | Reset page_env string

definition comes_back :: "main_config \<Rightarrow> int \<Rightarrow> tracker \<Rightarrow> tracker" where
  "comes_back cfg now w =
     (let w1 = w\<lparr>tk_flushed := False\<rparr>
      in if \<not> tk_paused w1 \<and> \<not> hs_maxDurationReached (tk_hb w1) then resumeHeartbeat cfg now w1 else w1)"

definition goes_away :: "main_config \<Rightarrow> int \<Rightarrow> tracker \<Rightarrow> tracker" where
  "goes_away cfg now w = flushOnce cfg now (stopHeartbeat True now w)"

(* src: sdk/src/sdk.ts:295-306 onVisibilityChange *)
definition onVisibilityChange :: "main_config \<Rightarrow> int \<Rightarrow> bool \<Rightarrow> tracker \<Rightarrow> tracker" where
  "onVisibilityChange cfg now visible w =
     (if visible then comes_back cfg now (w\<lparr>tk_visible := True\<rparr>) else goes_away cfg now (w\<lparr>tk_visible := False\<rparr>))"

(* src: sdk/src/sdk.ts:311-316 onFocus *)
definition onFocus :: "main_config \<Rightarrow> int \<Rightarrow> tracker \<Rightarrow> tracker" where
  "onFocus = comes_back"

(* src: sdk/src/sdk.ts:321-324 onBlur *)
definition onBlur :: "main_config \<Rightarrow> int \<Rightarrow> tracker \<Rightarrow> tracker" where
  "onBlur = goes_away"

(* src: sdk/src/sdk.ts:329-332 onFreeze *)
definition onFreeze :: "main_config \<Rightarrow> int \<Rightarrow> tracker \<Rightarrow> tracker" where
  "onFreeze = goes_away"

(* src: sdk/src/sdk.ts:337-342 onResume *)
definition onResume :: "main_config \<Rightarrow> int \<Rightarrow> tracker \<Rightarrow> tracker" where
  "onResume = comes_back"

(* src: sdk/src/sdk.ts:354-367 onPageShow *)
definition onPageShow :: "main_config \<Rightarrow> int \<Rightarrow> bool \<Rightarrow> tracker \<Rightarrow> tracker" where
  "onPageShow cfg now persisted w =
     (if persisted
      then let w1 = comes_back cfg now w
           in case restore (tk_snapshot w1) (tk_state w1) of
                Inr (s, ws) \<Rightarrow> w1\<lparr>tk_state := s, tk_snapshot := ws\<rparr>
              | Inl _ \<Rightarrow> w1
      else w)"

definition timer_fires_main :: "main_config \<Rightarrow> int \<Rightarrow> nat \<Rightarrow> tracker \<Rightarrow> tracker" where
  "timer_fires_main cfg now i w =
     (case find (\<lambda>t. tm_id t = i) (tk_timers w) of
        None \<Rightarrow> w
      | Some t \<Rightarrow>
          if now < tm_due t then w
          else let w1 = clear_timeout i w
               in case tm_kind t of
                    Heartbeat_timer \<Rightarrow> heartbeat_fires cfg now w1
                  | Send_timer \<Rightarrow> sendPayload cfg now (w1\<lparr>tk_debounce := None\<rparr>))"

(* src: sdk/src/sdk.ts:865-888 trackPageView *)
definition trackPageView :: "int \<Rightarrow> string \<Rightarrow> tracker \<Rightarrow> tracker" where
  "trackPageView now path w =
     persist_state (scheduleDebouncedSend now (resetPageActiveTime now (reset_scroll (open_page now path (scroll_into_state w)))))"

(* src: sdk/src/sdk.ts:893-911 trackGoal *)
definition trackGoal ::
    "main_config \<Rightarrow> int \<Rightarrow> string \<Rightarrow> int option \<Rightarrow> (string \<times> string) list option \<Rightarrow> tracker \<Rightarrow> tracker" where
  "trackGoal cfg now name value properties w =
     (let w1 = w\<lparr>tk_state := snd (addGoal now name value properties (tk_state w))\<rparr>;
          w2 = (case tk_debounce w1 of None \<Rightarrow> w1 | Some i \<Rightarrow> (clear_timeout i w1)\<lparr>tk_debounce := None\<rparr>)
      in sendPayload cfg now w2)"

(* src: sdk/src/sdk.ts:964-968 pause *)
definition pause :: "int \<Rightarrow> tracker \<Rightarrow> tracker" where
  "pause now w = stopHeartbeat True now (w\<lparr>tk_paused := True\<rparr>)"

(* src: sdk/src/sdk.ts:973-979 resume *)
definition resume :: "main_config \<Rightarrow> int \<Rightarrow> tracker \<Rightarrow> tracker" where
  "resume cfg now w = startHeartbeat cfg now (resetHeartbeatState now (w\<lparr>tk_paused := False\<rparr>))"

(* src: sdk/src/sdk.ts:985-1013 reset *)
definition reset_tracker :: "main_config \<Rightarrow> int \<Rightarrow> page_env \<Rightarrow> string \<Rightarrow> tracker \<Rightarrow> tracker" where
  "reset_tracker cfg now env path w =
     (case getOrCreateSession (mc_session cfg) env (snd (reset_manager (mc_session cfg) env (tk_manager w))) of
        (session, m) \<Rightarrow>
          let w1 = w\<lparr>tk_manager := m,
                 tk_state := session_state_init (co_workspace (mc_session cfg)) (se_id session) (se_created session)\<rparr>;
              w2 = resetHeartbeatState now (reset_scroll (open_page now path w1))
          in sendPayload cfg now (startHeartbeat cfg now w2))"

definition scrolled :: "scroll_reading \<Rightarrow> tracker \<Rightarrow> tracker" where
  "scrolled r w = w\<lparr>tk_scroll := map_option (handleScroll False r) (tk_scroll w)\<rparr>"

text \<open>A call that throws leaves the manager as it was.\<close>

definition attempt :: "('e + session_manager) \<Rightarrow> tracker \<Rightarrow> tracker" where
  "attempt r w = (case r of Inl _ \<Rightarrow> w | Inr m \<Rightarrow> w\<lparr>tk_manager := m\<rparr>)"

(* src: sdk/src/sdk.ts:272-290 bindEvents *)
primrec handle :: "main_config \<Rightarrow> int \<Rightarrow> tracker_event \<Rightarrow> tracker \<Rightarrow> tracker" where
  "handle cfg now Goes_hidden w = onVisibilityChange cfg now False w"
| "handle cfg now Goes_visible w = onVisibilityChange cfg now True w"
| "handle cfg now Window_focus w = onFocus cfg now w"
| "handle cfg now Window_blur w = onBlur cfg now w"
| "handle cfg now Page_freeze w = onFreeze cfg now w"
| "handle cfg now Page_resume w = onResume cfg now w"
| "handle cfg now Page_unload w = flushOnce cfg now w"
| "handle cfg now (Page_show persisted) w = onPageShow cfg now persisted w"
| "handle cfg now (Scrolled r) w = scrolled r w"
| "handle cfg now (Navigated href path) w = onNavigation cfg now path (w\<lparr>tk_href := href\<rparr>)"
| "handle cfg now (Timer_fires i) w = timer_fires_main cfg now i w"
| "handle cfg now (Send_settled success) w = (if success then persist_state w else w)"
| "handle cfg now (Track_page_view path) w = trackPageView now path w"
| "handle cfg now (Track_goal name value properties) w = trackGoal cfg now name value properties w"
| "handle cfg now Goal_settled w = persist_state w"
| "handle cfg now (Set_dimension i v) w = attempt (setDimension i v (tk_manager w)) w"
| "handle cfg now Clear_dimensions w = w\<lparr>tk_manager := clearDimensions (tk_manager w)\<rparr>"
| "handle cfg now (Set_user u) w = attempt (setUserId u (tk_manager w)) w"
| "handle cfg now Pause w = pause now w"
| "handle cfg now Resume w = resume cfg now w"
| "handle cfg now (Reset env path) w = reset_tracker cfg now env path w"

definition run_events :: "main_config \<Rightarrow> (int \<times> tracker_event) list \<Rightarrow> tracker \<Rightarrow> tracker" where
  "run_events cfg es w = fold (\<lambda>(now, e). handle cfg now e) es w"

subsection \<open>Reports\<close>

(* src: sdk/src/sdk.ts:826-850 getFocusDuration *)
definition getFocusDuration :: "int \<Rightarrow> tracker \<Rightarrow> int" where
  "getFocusDuration now w =
     (let currentPage = getCurrentPage (tk_state w)
      in sum_list (map (\<lambda>p. if map_option cp_page_number currentPage = Some (pa_page_number p)
                             then getPageActiveMs now (tk_hb w) else pa_duration p) (pageviews (ss_actions (tk_state w)))))"

(* src: sdk/src/sdk.ts:855-860 getTotalDuration *)
definition getTotalDuration :: "int \<Rightarrow> tracker \<Rightarrow> int" where
  "getTotalDuration now w = (case sm_session (tk_manager w) of None \<Rightarrow> 0 | Some s \<Rightarrow> now - se_created s)"

subsection \<open>Initialisation\<close>

datatype init_error = Workspace_required | Endpoint_required | Snapshot_unreadable restore_error

text \<open>
  What the page gives: the parsed user agent, the fingerprint, the path, the dimensions in the address, whether the page is visible,
  the first reading of the scroll tracker, the session manager with the cross-domain input, and the tab's storage. A bot gets no
  tracker.
\<close>

record page_start =
  ps_browser :: browser
  ps_hinted :: "ua_result option"
  ps_plain :: ua_result
  ps_fingerprint :: string
  ps_path :: string
  ps_dimensions :: custom_dimensions
  ps_reading :: scroll_reading
  ps_visible :: bool
  ps_env :: page_env
  ps_manager :: session_manager
  ps_storage :: web_storage

definition new_tracker :: "user_config \<Rightarrow> page_start \<Rightarrow> session_manager \<Rightarrow> session_state \<Rightarrow> web_storage \<Rightarrow> tracker" where
  "new_tracker u ps m state ws =
     (let device = detectWithClientHints (ps_browser ps) (ps_hinted ps) (ps_plain ps)
      in \<lparr>tk_manager = m, tk_device = device, tk_fingerprint = ps_fingerprint ps, tk_state = state,
          tk_scroll = (if js_nullish (uc_trackScroll u) True then Some (handleScroll False (ps_reading ps) scroll_init) else None),
          tk_hb = \<lparr>hs_activeStartTime = 0, hs_accumulatedActiveMs = 0, hs_isActive = False, hs_maxDurationReached = False,
            hs_lastPingTime = 0, hs_currentTierIndex = 0, hs_pageActiveMs = 0, hs_pageStartTime = 0\<rparr>,
          tk_hbTimeout = None, tk_debounce = None, tk_mobile = (di_device device \<noteq> ''desktop''), tk_tracking = False,
          tk_paused = False, tk_flushed = False, tk_snapshot = ws, tk_timers = [], tk_next_timer = 1,
          tk_visible = ps_visible ps, tk_href = pe_href (ps_env ps), tk_sent = []\<rparr>)"

definition begin_tracking :: "main_config \<Rightarrow> int \<Rightarrow> string \<Rightarrow> tracker \<Rightarrow> tracker" where
  "begin_tracking cfg now path w =
     sendPayload cfg now (startHeartbeat cfg now
       (hb_update (\<lambda>h. h\<lparr>hs_pageStartTime := now, hs_activeStartTime := now\<rparr>) ((open_page now path w)\<lparr>tk_tracking := True\<rparr>)))"

(* src: sdk/src/sdk.ts:121-267 initializeAsync *)
definition initializeAsync :: "string \<Rightarrow> user_config \<Rightarrow> page_start \<Rightarrow> init_error + (main_config \<times> tracker) option" where
  "initializeAsync version u ps =
     (if uc_workspace u = [] then Inl Workspace_required
      else if uc_endpoint u = [] then Inl Endpoint_required
      else if isBot (ps_browser ps) then Inr None
      else let cfg = normalised_config version u; now = pe_now (ps_env ps)
           in case getOrCreateSession (mc_session cfg) (ps_env ps) (ps_manager ps) of
                (session, m) \<Rightarrow>
                  let m1 = (if ps_dimensions ps \<noteq> [] then applyUrlDimensions (ps_dimensions ps) m else m)
                  in case restore (ps_storage ps)
                         (session_state_init (co_workspace (mc_session cfg)) (se_id session) (se_created session)) of
                       Inl e \<Rightarrow> Inl (Snapshot_unreadable e)
                     | Inr (state, ws) \<Rightarrow>
                         Inr (Some (cfg, begin_tracking cfg now (ps_path ps) (new_tracker u ps m1 state ws))))"

end
