(* ===== verification/Sdk_Run.thy ===== *)
theory Sdk_Run
  imports Sdk_Main
begin

section \<open>What holds of the tracker in every run\<close>

text \<open>
  Runs of \<^const>\<open>handle\<close> over arbitrary sequences of browser events and calls: the durations recorded, the
  beacons of a page that goes away, the number of pings, and the behaviours of the code that a reader would not
  expect.
\<close>

subsection \<open>What each part of the tracker leaves alone\<close>

named_theorems frame "the fields an operation does not touch"

lemma stop_frame [frame, simp]:
  "tk_state (stopHeartbeat b now w) = tk_state w" "tk_sent (stopHeartbeat b now w) = tk_sent w"
  "tk_flushed (stopHeartbeat b now w) = tk_flushed w" "tk_snapshot (stopHeartbeat b now w) = tk_snapshot w"
  "tk_scroll (stopHeartbeat b now w) = tk_scroll w" "tk_paused (stopHeartbeat b now w) = tk_paused w"
  "tk_visible (stopHeartbeat b now w) = tk_visible w" "tk_debounce (stopHeartbeat b now w) = tk_debounce w"
  "tk_next_timer (stopHeartbeat b now w) = tk_next_timer w" "tk_tracking (stopHeartbeat b now w) = tk_tracking w"
  "tk_mobile (stopHeartbeat b now w) = tk_mobile w" "tk_manager (stopHeartbeat b now w) = tk_manager w"
  by (simp_all add: stopHeartbeat_def Let_def clear_timeout_def split: option.split)

definition stopped :: "int \<Rightarrow> heartbeat_state \<Rightarrow> heartbeat_state" where
  "stopped now h = h\<lparr>hs_accumulatedActiveMs := getTotalActiveMs now h, hs_pageActiveMs := getPageActiveMs now h, hs_isActive := False\<rparr>"

lemma stop_hb [simp]:
  "tk_hb (stopHeartbeat True now w) = stopped now (tk_hb w)"
  "tk_hb (stopHeartbeat False now w) = (tk_hb w)\<lparr>hs_isActive := False\<rparr>"
  "tk_hbTimeout (stopHeartbeat b now w) = None"
  "tk_timers (stopHeartbeat b now w) = filter (\<lambda>t. tk_hbTimeout w \<noteq> Some (tm_id t)) (tk_timers w)"
  by (auto simp: stopHeartbeat_def stopped_def getTotalActiveMs_def getPageActiveMs_def Let_def clear_timeout_def
      split: option.split intro!: filter_cong)

lemma schedule_frame [frame, simp]:
  "tk_state (scheduleNextHeartbeat cfg now w) = tk_state w" "tk_sent (scheduleNextHeartbeat cfg now w) = tk_sent w"
  "tk_flushed (scheduleNextHeartbeat cfg now w) = tk_flushed w" "tk_snapshot (scheduleNextHeartbeat cfg now w) = tk_snapshot w"
  "tk_scroll (scheduleNextHeartbeat cfg now w) = tk_scroll w" "tk_paused (scheduleNextHeartbeat cfg now w) = tk_paused w"
  "tk_visible (scheduleNextHeartbeat cfg now w) = tk_visible w" "tk_debounce (scheduleNextHeartbeat cfg now w) = tk_debounce w"
  "tk_tracking (scheduleNextHeartbeat cfg now w) = tk_tracking w" "tk_mobile (scheduleNextHeartbeat cfg now w) = tk_mobile w"
  "tk_manager (scheduleNextHeartbeat cfg now w) = tk_manager w"
  by (simp_all add: scheduleNextHeartbeat_def checkAndUpdateMaxDuration_def set_timeout_def Let_def split: option.split)

lemma schedule_hb:
  "tk_hb (scheduleNextHeartbeat cfg now w) = tk_hb w \<or>
   tk_hb (scheduleNextHeartbeat cfg now w) = stopped now ((tk_hb w)\<lparr>hs_maxDurationReached := True\<rparr>)"
  by (simp add: scheduleNextHeartbeat_def checkAndUpdateMaxDuration_def set_timeout_def Let_def split: option.split)

lemma start_frame [frame, simp]:
  "tk_state (startHeartbeat cfg now w) = tk_state w" "tk_sent (startHeartbeat cfg now w) = tk_sent w"
  "tk_flushed (startHeartbeat cfg now w) = tk_flushed w" "tk_snapshot (startHeartbeat cfg now w) = tk_snapshot w"
  "tk_paused (startHeartbeat cfg now w) = tk_paused w" "tk_visible (startHeartbeat cfg now w) = tk_visible w"
  by (simp_all add: startHeartbeat_def)

lemma resume_frame [frame, simp]:
  "tk_state (resumeHeartbeat cfg now w) = tk_state w" "tk_sent (resumeHeartbeat cfg now w) = tk_sent w"
  "tk_flushed (resumeHeartbeat cfg now w) = tk_flushed w" "tk_snapshot (resumeHeartbeat cfg now w) = tk_snapshot w"
  "tk_paused (resumeHeartbeat cfg now w) = tk_paused w" "tk_visible (resumeHeartbeat cfg now w) = tk_visible w"
  by (simp_all add: resumeHeartbeat_def)

lemma reset_frame [frame, simp]:
  "tk_state (resetHeartbeatState now w) = tk_state w" "tk_sent (resetHeartbeatState now w) = tk_sent w"
  "tk_flushed (resetHeartbeatState now w) = tk_flushed w" "tk_snapshot (resetHeartbeatState now w) = tk_snapshot w"
  "tk_paused (resetHeartbeatState now w) = tk_paused w" "tk_visible (resetHeartbeatState now w) = tk_visible w"
  by (simp_all add: resetHeartbeatState_def)

lemma debounced_frame [frame, simp]:
  "tk_state (scheduleDebouncedSend now w) = tk_state w" "tk_sent (scheduleDebouncedSend now w) = tk_sent w"
  "tk_flushed (scheduleDebouncedSend now w) = tk_flushed w" "tk_snapshot (scheduleDebouncedSend now w) = tk_snapshot w"
  "tk_hb (scheduleDebouncedSend now w) = tk_hb w" "tk_hbTimeout (scheduleDebouncedSend now w) = tk_hbTimeout w"
  by (simp_all add: scheduleDebouncedSend_def set_timeout_def clear_timeout_def Let_def split: option.split)

lemma scroll_frame [frame, simp]:
  "tk_sent (scroll_into_state w) = tk_sent w" "tk_flushed (scroll_into_state w) = tk_flushed w"
  "tk_snapshot (scroll_into_state w) = tk_snapshot w" "tk_hb (scroll_into_state w) = tk_hb w"
  "tk_hbTimeout (scroll_into_state w) = tk_hbTimeout w" "tk_timers (scroll_into_state w) = tk_timers w"
  "tk_next_timer (scroll_into_state w) = tk_next_timer w" "tk_mobile (scroll_into_state w) = tk_mobile w"
  by (simp_all add: scroll_into_state_def split: option.split)

lemma hand_over_frame [frame, simp]:
  "tk_flushed (hand_over how cfg now w) = tk_flushed w" "tk_snapshot (hand_over how cfg now w) = tk_snapshot w"
  "tk_hb (hand_over how cfg now w) = tk_hb w" "tk_hbTimeout (hand_over how cfg now w) = tk_hbTimeout w"
  "tk_timers (hand_over how cfg now w) = tk_timers w" "tk_next_timer (hand_over how cfg now w) = tk_next_timer w"
  "tk_mobile (hand_over how cfg now w) = tk_mobile w"
  by (simp_all add: hand_over_def split: prod.split)

lemma hand_over_state [simp]:
  "tk_state (hand_over how cfg now w) = finalizeCurrentPageDuration (Some (getPageActiveMs now (tk_hb w))) now (tk_state w)"
  by (simp add: hand_over_def current_payload_def buildPayload_def Let_def)

lemma hand_over_sent:
  "\<exists>p. tk_sent (hand_over how cfg now w) = tk_sent w @ [(how, p)] \<and> sp_actions p = ss_actions (tk_state (hand_over how cfg now w))"
  by (simp add: hand_over_def current_payload_def buildPayload_def Let_def)

lemma comes_back_frame [frame, simp]:
  "tk_state (comes_back cfg now w) = tk_state w" "tk_sent (comes_back cfg now w) = tk_sent w"
  "tk_snapshot (comes_back cfg now w) = tk_snapshot w" "tk_flushed (comes_back cfg now w) = False"
  "tk_paused (comes_back cfg now w) = tk_paused w" "tk_visible (comes_back cfg now w) = tk_visible w"
  by (simp_all add: comes_back_def Let_def)

subsection \<open>Durations lie within the visits\<close>

text \<open>
  Every page view was entered before the focus time that is being counted began, and the duration it has is not negative and not
  longer than the time between entry and exit.
\<close>

definition visit_ok :: "int \<Rightarrow> pageview_action \<Rightarrow> bool" where
  "visit_ok b p \<longleftrightarrow> pa_entered_at p \<le> b \<and> 0 \<le> pa_duration p \<and> pa_duration p \<le> pa_exited_at p - pa_entered_at p"

definition visits_ok :: "int \<Rightarrow> action list \<Rightarrow> bool" where
  "visits_ok b acts \<longleftrightarrow> (\<forall>p \<in> set (pageviews acts). visit_ok b p)"

lemma visits_ok_mono: "visits_ok b acts \<Longrightarrow> b \<le> c \<Longrightarrow> visits_ok c acts"
  by (fastforce simp: visits_ok_def visit_ok_def)

lemma visits_ok_simps [simp]:
  "visits_ok b []" "visits_ok b (as @ bs) \<longleftrightarrow> visits_ok b as \<and> visits_ok b bs" "visits_ok b [Goal g]"
  "visits_ok b [Pageview p] \<longleftrightarrow> visit_ok b p"
  by (auto simp: visits_ok_def)

lemma visits_ok_update: "visits_ok b acts \<Longrightarrow> visit_ok b p \<Longrightarrow> visits_ok b (acts[i := Pageview p])"
  by (auto simp: visits_ok_def dest!: set_update_subset_insert [THEN subsetD])

lemma visits_current: "visits_ok b (ss_actions s) \<Longrightarrow> current_pageview s = Some (i, p) \<Longrightarrow> visit_ok b p"
  by (metis current_pageview_Some mem_Collect_eq nth_mem set_pageviews visits_ok_def)

lemma finalize_visits:
  assumes "visits_ok b (ss_actions s)" "0 \<le> focus" "b \<le> now - focus"
  shows "visits_ok b (ss_actions (finalizeCurrentPageDuration (Some focus) now s))"
proof (cases "current_pageview s")
  case (Some ip)
  obtain i p where "ip = (i, p)" by (cases ip)
  with Some assms visits_current [of b s i p] show ?thesis
    by (auto simp: finalizeCurrentPageDuration_def js_nullish_def visit_ok_def intro!: visits_ok_update)
qed (use assms in \<open>simp add: finalizeCurrentPageDuration_def\<close>)

lemma updateScroll_visits: "visits_ok b (ss_actions s) \<Longrightarrow> visits_ok b (ss_actions (updateScroll percent s))"
  using visits_current [of b s]
  by (auto simp: updateScroll_def visit_ok_def Let_def split: option.split intro!: visits_ok_update)

lemma addPageview_visits:
  assumes "visits_ok b (ss_actions s)" "0 \<le> focus" "b \<le> now - focus"
  shows "visits_ok now (ss_actions (addPageview (Some focus) now path s))"
  using finalize_visits [OF assms] assms visits_ok_mono [of b _ now]
  by (auto simp: addPageview_def visit_ok_def Let_def)

lemma addGoal_visits [simp]: "visits_ok b (ss_actions (snd (addGoal now n v ps s))) \<longleftrightarrow> visits_ok b (ss_actions s)"
  by (auto simp: addGoal_def Let_def)

lemma finalizeForUnload_actions:
  "ss_actions (finalizeForUnload focus now s) =
     (if ss_current s = None then ss_actions s else ss_actions (finalizeCurrentPageDuration focus now s))"
  by (simp add: finalizeForUnload_def)

text \<open>What a snapshot can restore.\<close>

definition snapshot_visits :: "int \<Rightarrow> web_storage \<Rightarrow> bool" where
  "snapshot_visits b ws \<longleftrightarrow>
     (\<forall>t s ws'. restore ws t = Inr (s, ws') \<longrightarrow> ss_actions s = ss_actions t \<or> visits_ok b (ss_actions s))"

lemma persist_item:
  "ws_setItem STATE_KEY (json_print (snapshot_json s)) ws \<noteq> None \<Longrightarrow>
     ws_getItem STATE_KEY (persist s ws) = Some (Some (json_print (snapshot_json s)))"
  by (auto simp: persist_def ws_setItem_def ws_getItem_def Let_def split: if_splits)

lemma restored_of_persisted:
  assumes "restore (persist s ws) t = Inr (r, ws')"
  shows "ss_actions r \<in> {ss_actions t, ss_actions s} \<or> persist s ws = ws"
proof (cases "ws_setItem STATE_KEY (json_print (snapshot_json s)) ws = None")
  case False
  have "json_print (snapshot_json s) \<noteq> []" by (simp add: snapshot_json_def)
  with assms persist_item [OF False] show ?thesis
    by (auto simp: restore_def snapshot_fields res_bind_Inr_iff split: if_splits)
qed (simp add: persist_def)

lemma persist_visits: "snapshot_visits b ws \<Longrightarrow> visits_ok b (ss_actions s) \<Longrightarrow> snapshot_visits b (persist s ws)"
  using restored_of_persisted unfolding snapshot_visits_def by (metis empty_iff insert_iff)

lemma snapshot_visits_mono: "snapshot_visits b ws \<Longrightarrow> b \<le> c \<Longrightarrow> snapshot_visits c ws"
  using visits_ok_mono unfolding snapshot_visits_def by blast

lemma removed_item: "remove_state ws = Inr ws' \<Longrightarrow> ws_getItem STATE_KEY ws' = Some None"
  by (auto simp: remove_state_def ws_removeItem_def ws_getItem_def delete_conv' split: if_splits)

lemma removed_visits: "remove_state ws = Inr ws' \<Longrightarrow> snapshot_visits b ws'"
  using removed_item by (auto simp: snapshot_visits_def restore_def)

lemma restore_visits:
  assumes "restore ws t = Inr (s, ws')" "snapshot_visits b ws" "visits_ok b (ss_actions t)"
  shows "visits_ok b (ss_actions s)" "snapshot_visits b ws'"
proof -
  show "visits_ok b (ss_actions s)" using assms unfolding snapshot_visits_def by metis
  have "ws' = ws \<or> remove_state ws = Inr ws'"
    using assms(1) unfolding restore_def
    by (auto simp: res_bind_Inr_iff split: option.splits if_splits)
  then show "snapshot_visits b ws'" using assms(2) removed_visits by blast
qed


text \<open>The invariant: \<open>base\<close> is the instant from which the focus time of the page is an uninterrupted count.\<close>

definition base :: "int \<Rightarrow> heartbeat_state \<Rightarrow> int" where
  "base now h = now - getPageActiveMs now h"

definition clock_ok :: "int \<Rightarrow> heartbeat_state \<Rightarrow> bool" where
  "clock_ok now h \<longleftrightarrow> 0 \<le> hs_pageActiveMs h \<and> (hs_isActive h \<longrightarrow> hs_pageStartTime h \<le> now)"

definition durations_ok :: "int \<Rightarrow> tracker \<Rightarrow> bool" where
  "durations_ok now w \<longleftrightarrow>
     clock_ok now (tk_hb w) \<and> visits_ok (base now (tk_hb w)) (ss_actions (tk_state w)) \<and>
     snapshot_visits (base now (tk_hb w)) (tk_snapshot w) \<and>
     (\<forall>how p. (how, p) \<in> set (tk_sent w) \<longrightarrow> visits_ok now (sp_actions p))"

lemma clock_focus: "clock_ok now h \<Longrightarrow> 0 \<le> getPageActiveMs now h"
  by (simp add: clock_ok_def getPageActiveMs_def)

lemma base_le: "clock_ok now h \<Longrightarrow> base now h \<le> now"
  using clock_focus [of now h] by (simp add: base_def)

lemma base_mono: "now \<le> later \<Longrightarrow> base now h \<le> base later h"
  by (simp add: base_def getPageActiveMs_def)

lemma durations_later:
  assumes "durations_ok now w" "now \<le> later"
  shows "durations_ok later w"
  unfolding durations_ok_def
proof (intro conjI allI impI)
  note b = base_mono [OF assms(2), of "tk_hb w"]
  show "clock_ok later (tk_hb w)" using assms by (auto simp: durations_ok_def clock_ok_def)
  show "visits_ok (base later (tk_hb w)) (ss_actions (tk_state w))" "snapshot_visits (base later (tk_hb w)) (tk_snapshot w)"
    using assms(1) visits_ok_mono [OF _ b] snapshot_visits_mono [OF _ b] by (simp_all add: durations_ok_def)
  fix how p assume "(how, p) \<in> set (tk_sent w)"
  then show "visits_ok later (sp_actions p)"
    using assms(1) visits_ok_mono [OF _ assms(2)] unfolding durations_ok_def by blast
qed

definition same_clock :: "heartbeat_state \<Rightarrow> heartbeat_state \<Rightarrow> bool" where
  "same_clock h h' \<longleftrightarrow> hs_pageActiveMs h' = hs_pageActiveMs h \<and> hs_isActive h' = hs_isActive h \<and> hs_pageStartTime h' = hs_pageStartTime h"

lemma same_clock_eq: "same_clock h h' \<Longrightarrow> base now h' = base now h" "same_clock h h' \<Longrightarrow> clock_ok now h' = clock_ok now h"
  by (simp_all add: same_clock_def base_def getPageActiveMs_def clock_ok_def)

lemma durations_same:
  assumes "durations_ok now w" "same_clock (tk_hb w) (tk_hb w')"
    "tk_state w' = tk_state w" "tk_snapshot w' = tk_snapshot w" "tk_sent w' = tk_sent w"
  shows "durations_ok now w'"
  using assms by (simp add: durations_ok_def same_clock_eq [OF assms(2)])

lemma same_clock_refl [simp]: "same_clock h h"
  by (simp add: same_clock_def)

text \<open>A heartbeat that counts no earlier than the old one, on the same pages.\<close>

lemma durations_hb:
  assumes "durations_ok now w" "clock_ok now (tk_hb w')" "base now (tk_hb w) \<le> base now (tk_hb w')"
    "tk_state w' = tk_state w" "tk_snapshot w' = tk_snapshot w" "tk_sent w' = tk_sent w"
  shows "durations_ok now w'"
  using assms visits_ok_mono snapshot_visits_mono unfolding durations_ok_def by metis

lemma stopped_clock [simp]:
  "clock_ok now h \<Longrightarrow> clock_ok now (stopped now h)" "base now (stopped now h) = base now h"
  "clock_ok now (h\<lparr>hs_maxDurationReached := m\<rparr>) = clock_ok now h" "base now (h\<lparr>hs_maxDurationReached := m\<rparr>) = base now h"
  by (auto simp: clock_ok_def stopped_def base_def getPageActiveMs_def)

lemma scheduled_clock:
  "clock_ok now (tk_hb w) \<Longrightarrow> clock_ok now (tk_hb (scheduleNextHeartbeat cfg now w)) \<and>
     base now (tk_hb (scheduleNextHeartbeat cfg now w)) = base now (tk_hb w)"
  using schedule_hb [of cfg now w] by auto

lemma stop_durations: "durations_ok now w \<Longrightarrow> durations_ok now (stopHeartbeat True now w)"
  by (rule durations_hb) (auto simp: durations_ok_def)

lemma schedule_durations:
  assumes "durations_ok now w"
  shows "durations_ok now (scheduleNextHeartbeat cfg now w)"
proof -
  have "clock_ok now (tk_hb w)" using assms by (simp add: durations_ok_def)
  then show ?thesis using scheduled_clock [of now w cfg] by (intro durations_hb [OF assms]) simp_all
qed

lemma resume_durations:
  assumes "durations_ok now w"
  shows "durations_ok now (resumeHeartbeat cfg now w)"
proof (cases "hs_maxDurationReached (tk_hb w)")
  case False
  have "durations_ok now (hb_update (\<lambda>h. h\<lparr>hs_activeStartTime := now, hs_pageStartTime := now, hs_isActive := True, hs_lastPingTime := now\<rparr>) w)"
    using assms by (rule durations_hb) (use assms in \<open>auto simp: durations_ok_def clock_ok_def base_def getPageActiveMs_def\<close>)
  then show ?thesis using False by (simp add: resumeHeartbeat_def schedule_durations)
qed (use assms in \<open>simp add: resumeHeartbeat_def\<close>)

lemma comes_back_durations: "durations_ok now w \<Longrightarrow> durations_ok now (comes_back cfg now w)"
  using resume_durations [of now "w\<lparr>tk_flushed := False\<rparr>"] durations_hb [of now w "w\<lparr>tk_flushed := False\<rparr>"]
  by (simp add: comes_back_def Let_def durations_ok_def)

text \<open>A page timer set to now.\<close>

lemma start_durations:
  assumes "durations_ok now w" "hs_pageStartTime (tk_hb w) = now" "hs_pageActiveMs (tk_hb w) = 0"
  shows "durations_ok now (startHeartbeat cfg now w)"
proof (cases "hs_maxDurationReached (tk_hb w)")
  case False
  have "durations_ok now (hb_update (\<lambda>h. h\<lparr>hs_activeStartTime := now, hs_isActive := True, hs_lastPingTime := now\<rparr>) (stopHeartbeat False now w))"
    using assms(1) by (rule durations_hb) (use assms in \<open>auto simp: durations_ok_def clock_ok_def base_def getPageActiveMs_def\<close>)
  then show ?thesis using False by (simp add: startHeartbeat_def schedule_durations)
qed (use assms in \<open>simp add: startHeartbeat_def\<close>)

lemma fresh_durations:
  "durations_ok now w \<Longrightarrow> durations_ok now (resetHeartbeatState now w)"
  by (rule durations_hb, assumption) (auto simp: durations_ok_def clock_ok_def base_def getPageActiveMs_def resetHeartbeatState_def)

lemma fresh_start_durations: "durations_ok now w \<Longrightarrow> durations_ok now (startHeartbeat cfg now (resetHeartbeatState now w))"
  by (rule start_durations [OF fresh_durations]) (simp_all add: resetHeartbeatState_def)

text \<open>Operations on the pages.\<close>

lemma scroll_durations: "durations_ok now w \<Longrightarrow> durations_ok now (scroll_into_state w)"
  unfolding durations_ok_def
  by (auto simp: scroll_into_state_def updateScroll_visits split: option.split)

lemma hand_over_durations:
  assumes "durations_ok now w"
  shows "durations_ok now (hand_over how cfg now w)"
proof -
  have v: "visits_ok (base now (tk_hb w)) (ss_actions (tk_state (hand_over how cfg now w)))"
    using assms clock_focus [of now "tk_hb w"] by (simp add: durations_ok_def finalize_visits base_def)
  obtain p where "tk_sent (hand_over how cfg now w) = tk_sent w @ [(how, p)]"
      "sp_actions p = ss_actions (tk_state (hand_over how cfg now w))"
    using hand_over_sent by blast
  with assms v visits_ok_mono [OF v] base_le [of now "tk_hb w"] show ?thesis
    by (auto simp: durations_ok_def)
qed

lemma persist_durations: "durations_ok now w \<Longrightarrow> durations_ok now (persist_state w)"
  by (simp add: durations_ok_def persist_state_def persist_visits)

lemma debounced_durations: "durations_ok now w \<Longrightarrow> durations_ok now (scheduleDebouncedSend now w)"
  by (simp add: durations_ok_def)

lemma open_durations:
  assumes "durations_ok now w"
  shows "durations_ok now (resetPageActiveTime now (reset_scroll (open_page now path w)))"
proof -
  have "visits_ok now (ss_actions (addPageview (Some (getPageActiveMs now (tk_hb w))) now path (tk_state w)))"
    using assms clock_focus [of now "tk_hb w"] by (auto simp: durations_ok_def base_def intro!: addPageview_visits)
  moreover have "snapshot_visits now (tk_snapshot w)"
    using assms base_le [of now "tk_hb w"] snapshot_visits_mono by (auto simp: durations_ok_def)
  ultimately show ?thesis
    using assms by (auto simp: durations_ok_def resetPageActiveTime_def reset_scroll_def open_page_def clock_ok_def
        base_def getPageActiveMs_def)
qed

lemma flush_durations:
  assumes "durations_ok now w"
  shows "durations_ok now (flushOnce cfg now w)"
proof (cases "tk_flushed w")
  case False
  define w1 where "w1 = scroll_into_state (w\<lparr>tk_flushed := True\<rparr>)"
  have "durations_ok now w1" unfolding w1_def
    using assms by (intro scroll_durations) (simp add: durations_ok_def)
  then have "durations_ok now (w1\<lparr>tk_state := finalizeForUnload (Some (getPageActiveMs now (tk_hb w1))) now (tk_state w1)\<rparr>)"
    using clock_focus [of now "tk_hb w1"] by (auto simp: durations_ok_def finalizeForUnload_actions base_def intro!: finalize_visits)
  then show ?thesis
    using False by (simp add: flushOnce_def Let_def w1_def persist_durations hand_over_durations)
qed (use assms in \<open>simp add: flushOnce_def\<close>)

lemmas durations_ops = stop_durations schedule_durations comes_back_durations fresh_start_durations
  scroll_durations hand_over_durations persist_durations debounced_durations open_durations flush_durations

lemma page_show_durations:
  assumes "durations_ok now w"
  shows "durations_ok now (onPageShow cfg now persisted w)"
proof -
  have came: "durations_ok now (comes_back cfg now w)" using assms by (rule comes_back_durations)
  show ?thesis
  proof (cases "persisted \<and> (\<exists>x. restore (tk_snapshot w) (tk_state w) = Inr x)")
    case True
    then obtain s ws where r: "restore (tk_snapshot w) (tk_state w) = Inr (s, ws)" by auto
    have "visits_ok (base now (tk_hb (comes_back cfg now w))) (ss_actions s)"
        "snapshot_visits (base now (tk_hb (comes_back cfg now w))) ws"
      using restore_visits [OF r] came by (simp_all add: durations_ok_def)
    then show ?thesis using True came r by (simp add: onPageShow_def durations_ok_def)
  qed (use assms came in \<open>auto simp: onPageShow_def Let_def split: sum.split\<close>)
qed

lemma timer_durations:
  assumes "durations_ok now w"
  shows "durations_ok now (timer_fires_main cfg now i w)"
proof -
  have w1: "durations_ok now (clear_timeout i w)" "durations_ok now ((clear_timeout i w)\<lparr>tk_debounce := None\<rparr>)"
    using assms by (simp_all add: durations_ok_def clear_timeout_def)
  have tier: "durations_ok now v \<Longrightarrow> durations_ok now (hb_update (\<lambda>h. h\<lparr>hs_currentTierIndex := n\<rparr>) v)" for v n
    by (rule durations_same, assumption) (simp_all add: same_clock_def)
  have ping: "durations_ok now v \<Longrightarrow> durations_ok now (hb_update (\<lambda>h. h\<lparr>hs_lastPingTime := t\<rparr>) v)" for v t
    by (rule durations_same, assumption) (simp_all add: same_clock_def)
  have "durations_ok now (heartbeat_fires cfg now (clear_timeout i w))"
    unfolding heartbeat_fires_def sendPingEvent_def
    using w1(1) schedule_durations [OF ping [OF hand_over_durations [OF scroll_durations [OF tier [OF w1(1)]]]]] by simp
  then show ?thesis
    using assms w1 by (simp add: timer_fires_main_def Let_def sendPayload_def durations_ops split: option.split timer_kind.split)
qed

lemma track_goal_durations:
  assumes "durations_ok now w"
  shows "durations_ok now (trackGoal cfg now name v ps w)"
proof -
  define w1 where "w1 = w\<lparr>tk_state := snd (addGoal now name v ps (tk_state w))\<rparr>"
  have w1: "durations_ok now w1" using assms by (simp add: durations_ok_def w1_def)
  have "durations_ok now ((clear_timeout i w1)\<lparr>tk_debounce := None\<rparr>)" for i
    using w1 by (rule durations_same) (simp_all add: clear_timeout_def)
  then show ?thesis
    using w1 by (auto simp: trackGoal_def Let_def sendPayload_def w1_def [symmetric] hand_over_durations split: option.split)
qed

lemma reset_durations:
  assumes "durations_ok now w"
  shows "durations_ok now (reset_tracker cfg now env path w)"
proof -
  have start: "durations_ok now (startHeartbeat cfg now (resetHeartbeatState now (reset_scroll (open_page now path v))))"
    if v: "durations_ok now v" for v
  proof -
    have "durations_ok now (resetHeartbeatState now (resetPageActiveTime now (reset_scroll (open_page now path v))))"
      using v by (intro fresh_durations open_durations)
    then have "durations_ok now (resetHeartbeatState now (reset_scroll (open_page now path v)))"
      by (rule durations_same) (simp_all add: resetPageActiveTime_def resetHeartbeatState_def)
    then show ?thesis by (rule start_durations) (simp_all add: resetHeartbeatState_def)
  qed
  have "durations_ok now (w\<lparr>tk_manager := m, tk_state := session_state_init ws sid created\<rparr>)" for m ws sid created
    using assms by (simp add: durations_ok_def session_state_init_def)
  then show ?thesis
    by (auto simp: reset_tracker_def Let_def sendPayload_def split: prod.split intro!: hand_over_durations start)
qed

lemma handle_durations:
  assumes ok: "durations_ok now w"
  shows "durations_ok now (handle cfg now e w)"
proof -
  have field [simp]: "durations_ok now (w\<lparr>tk_visible := b\<rparr>)" "durations_ok now (w\<lparr>tk_paused := b\<rparr>)" "durations_ok now (w\<lparr>tk_href := u\<rparr>)"
    "durations_ok now (w\<lparr>tk_manager := m\<rparr>)" "durations_ok now (w\<lparr>tk_scroll := s\<rparr>)" for b u m s
    by (rule durations_same [OF ok]; simp)+
  show ?thesis
    by (cases e) (simp_all add: ok durations_ops onVisibilityChange_def onFocus_def onBlur_def onFreeze_def onResume_def goes_away_def
      trackPageView_def pause_def resume_def scrolled_def attempt_def onNavigation_def Let_def timer_durations page_show_durations
      track_goal_durations reset_durations split: sum.split)
qed


lemma run_durations:
  assumes "durations_ok now w" "sorted (now # map fst es)"
  shows "\<exists>later. durations_ok later (run_events cfg es w)"
  using assms
proof (induction es arbitrary: now w)
  case Nil
  then show ?case by (auto simp: run_events_def)
next
  case (Cons te es)
  obtain t e where te: "te = (t, e)" by (cases te)
  have "durations_ok t (handle cfg t e w)"
    using Cons.prems te by (intro handle_durations durations_later [of now w t]) auto
  with Cons.IH [of t "handle cfg t e w"] Cons.prems te show ?case by (simp add: run_events_def)
qed

lemma initialised_durations:
  assumes init: "initializeAsync version u ps = Inr (Some (cfg, w))" and snap: "snapshot_visits (pe_now (ps_env ps)) (ps_storage ps)"
  shows "durations_ok (pe_now (ps_env ps)) w"
proof -
  let ?now = "pe_now (ps_env ps)"
  have ok: "durations_ok ?now (begin_tracking cfg ?now (ps_path ps) v)"
    if v: "durations_ok ?now v" and h: "hs_pageActiveMs (tk_hb v) = 0" "\<not> hs_isActive (tk_hb v)" for v
  proof -
    have "durations_ok ?now (resetPageActiveTime ?now (reset_scroll (open_page ?now (ps_path ps) v)))"
      using v by (rule open_durations)
    then have "durations_ok ?now (hb_update (\<lambda>h. h\<lparr>hs_pageStartTime := ?now, hs_activeStartTime := ?now\<rparr>)
        ((open_page ?now (ps_path ps) v)\<lparr>tk_tracking := True\<rparr>))"
      by (rule durations_same) (simp_all add: h same_clock_def resetPageActiveTime_def reset_scroll_def open_page_def)
    then show ?thesis
      unfolding begin_tracking_def sendPayload_def by (intro hand_over_durations start_durations) (simp_all add: h open_page_def)
  qed
  obtain session m where m: "getOrCreateSession (mc_session (normalised_config version u)) (ps_env ps) (ps_manager ps) = (session, m)"
    by fastforce
  with init obtain state ws where r: "restore (ps_storage ps)
      (session_state_init (co_workspace (mc_session (normalised_config version u))) (se_id session) (se_created session)) = Inr (state, ws)"
    by (auto simp: initializeAsync_def Let_def split: if_splits sum.splits)
  have "visits_ok ?now (ss_actions state)" "snapshot_visits ?now ws"
    using restore_visits [OF r snap] by (simp_all add: session_state_init_def)
  then have "durations_ok ?now (new_tracker u ps m1 state ws)" for m1
    by (simp add: new_tracker_def Let_def durations_ok_def clock_ok_def base_def getPageActiveMs_def)
  then have "durations_ok ?now (begin_tracking cfg ?now (ps_path ps) (new_tracker u ps m1 state ws))" for m1
    by (rule ok) (simp_all add: new_tracker_def Let_def)
  then show ?thesis
    using init m r by (auto simp: initializeAsync_def Let_def split: if_splits)
qed

lemma durations_within_visits_parts:
  assumes "initializeAsync version u ps = Inr (Some (cfg, w))" "snapshot_visits (pe_now (ps_env ps)) (ps_storage ps)"
    and "sorted (pe_now (ps_env ps) # map fst es)"
    and "acts = ss_actions (tk_state (run_events cfg es w)) \<or> acts \<in> sp_actions ` snd ` set (tk_sent (run_events cfg es w))"
    and "Pageview p \<in> set acts"
  shows "0 \<le> pa_duration p" and "pa_duration p \<le> pa_exited_at p - pa_entered_at p"
proof -
  obtain later where "durations_ok later (run_events cfg es w)"
    using run_durations [OF initialised_durations [OF assms(1,2)] assms(3)] by blast
  then obtain b where "visits_ok b acts"
    using assms(4) unfolding durations_ok_def by force
  with assms(5) show "0 \<le> pa_duration p" "pa_duration p \<le> pa_exited_at p - pa_entered_at p"
    by (auto simp: visits_ok_def visit_ok_def)
qed

text \<open>
  C7: From the initialisation on, whatever the visitor, the browser and the page do, every duration the tracker records or sends is
  the time of a visit: never negative, and never longer than from the entry of the page view to its exit. (The snapshot of the tab
  satisfies this to begin with, for instance because the tab is new.)
\<close>
theorem durations_within_visits:
  assumes "initializeAsync version u ps = Inr (Some (cfg, w))" "snapshot_visits (pe_now (ps_env ps)) (ps_storage ps)"
    and "sorted (pe_now (ps_env ps) # map fst es)"
    and "acts = ss_actions (tk_state (run_events cfg es w)) \<or> acts \<in> sp_actions ` snd ` set (tk_sent (run_events cfg es w))"
    and "Pageview p \<in> set acts"
  shows "0 \<le> pa_duration p \<and> pa_duration p \<le> pa_exited_at p - pa_entered_at p"
  using durations_within_visits_parts [OF assms] by blast

definition new_tab :: web_storage where
  "new_tab = \<lparr>ws_items = [], ws_blocked = False, ws_quota = None\<rparr>"

definition sample_user :: user_config where
  "sample_user = \<lparr>uc_workspace = ''ws_1'', uc_endpoint = ''https://stats.example'', uc_tiers = None, uc_maxDuration = None,
     uc_resetOnNavigation = None, uc_trackScroll = None, uc_sessionTimeout = None, uc_adClickIds = None\<rparr>"

definition sample_start :: page_start where
  "sample_start = \<lparr>ps_browser = sample_browser ''Mozilla Firefox'', ps_hinted = None,
     ps_plain = \<lparr>ur_browser_name = Some ''Firefox'', ur_device_type = None, ur_os_name = Some ''Ubuntu''\<rparr>, ps_fingerprint = ''f1'',
     ps_path = ''/a'', ps_dimensions = [], ps_reading = sample_reading 0, ps_visible = True, ps_env = sample_env 1000 ''x'',
     ps_manager = new_manager, ps_storage = new_tab\<rparr>"

lemma new_tab_restore: "restore new_tab s = Inr (s, new_tab)"
  by (simp add: restore_def new_tab_def ws_getItem_def)

lemma sample_starts: "\<exists>cfg w. initializeAsync ''6'' sample_user sample_start = Inr (Some (cfg, w))"
proof -
  have "\<not> isBot (sample_browser ''Mozilla Firefox'')" by code_simp
  then show ?thesis
    by (simp add: initializeAsync_def sample_user_def sample_start_def new_tab_restore Let_def split: prod.split)
qed

lemma pe_now_sample [simp]: "pe_now (sample_env n s) = n"
  by (simp add: sample_env_def)

lemma durations_within_visits_witness:
  "\<exists>cfg w. initializeAsync ''6'' sample_user sample_start = Inr (Some (cfg, w)) \<and>
     (\<forall>p. Pageview p \<in> set (ss_actions (tk_state (run_events cfg [(6000, Goes_hidden), (9000, Goes_visible)] w))) \<longrightarrow> 0 \<le> pa_duration p)"
proof -
  obtain cfg w where w: "initializeAsync ''6'' sample_user sample_start = Inr (Some (cfg, w))" using sample_starts by blast
  have "snapshot_visits (pe_now (ps_env sample_start)) (ps_storage sample_start)"
    by (simp add: snapshot_visits_def sample_start_def new_tab_restore)
  moreover have "sorted (pe_now (ps_env sample_start) # map fst [(6000 :: int, Goes_hidden), (9000, Goes_visible)])"
    by (simp add: sample_start_def)
  ultimately show ?thesis using w durations_within_visits [OF w] by blast
qed

subsection \<open>A page that was left once\<close>

lemma no_current [simp]:
  assumes "ss_current s = None"
  shows "finalizeCurrentPageDuration focus now s = s" "updateScroll percent s = s" "finalizeForUnload focus now s = s"
  using assms by (simp_all add: finalizeCurrentPageDuration_def updateScroll_def finalizeForUnload_def current_pageview_def)

primrec opens_page :: "tracker_event \<Rightarrow> bool" where
  "opens_page Goes_hidden = False" | "opens_page Goes_visible = False" | "opens_page Window_focus = False"
| "opens_page Window_blur = False" | "opens_page Page_freeze = False" | "opens_page Page_resume = False"
| "opens_page Page_unload = False" | "opens_page (Page_show persisted) = persisted" | "opens_page (Scrolled r) = False"
| "opens_page (Navigated h p) = True" | "opens_page (Timer_fires i) = False" | "opens_page (Send_settled s) = False"
| "opens_page (Track_page_view p) = True" | "opens_page (Track_goal n v ps) = False" | "opens_page Goal_settled = False"
| "opens_page (Set_dimension i v) = False" | "opens_page Clear_dimensions = False" | "opens_page (Set_user u) = False"
| "opens_page Pause = False" | "opens_page Resume = False" | "opens_page (Reset env p) = True"

text \<open>No page is open, its page views are \<open>pv\<close>, and so are those of every payload from the \<open>n\<close>th on.\<close>

definition frozen :: "pageview_action list \<Rightarrow> nat \<Rightarrow> tracker \<Rightarrow> bool" where
  "frozen pv n w \<longleftrightarrow> ss_current (tk_state w) = None \<and> pageviews (ss_actions (tk_state w)) = pv \<and> n \<le> length (tk_sent w) \<and>
     (\<forall>x \<in> set (drop n (tk_sent w)). pageviews (sp_actions (snd x)) = pv)"

lemma frozen_same: "frozen pv n w \<Longrightarrow> tk_state w' = tk_state w \<Longrightarrow> tk_sent w' = tk_sent w \<Longrightarrow> frozen pv n w'"
  by (simp add: frozen_def)

lemma frozen_hand_over: "frozen pv n w \<Longrightarrow> frozen pv n (hand_over how cfg now w)"
  using hand_over_sent [of how cfg now w] by (auto simp: frozen_def)

lemma frozen_scroll: "frozen pv n w \<Longrightarrow> frozen pv n (scroll_into_state w)"
  by (auto simp: frozen_def scroll_into_state_def split: option.split)

lemma frozen_goal:
  "frozen pv n w \<Longrightarrow> frozen pv n (w\<lparr>tk_state := snd (addGoal now name v ps (tk_state w))\<rparr>)"
  by (simp add: frozen_def addGoal_def Let_def)

lemma frozen_flush:
  assumes "frozen pv n w"
  shows "frozen pv n (flushOnce cfg now w)"
proof -
  have w1: "frozen pv n (scroll_into_state (w\<lparr>tk_flushed := True\<rparr>))"
    using assms by (intro frozen_scroll) (rule frozen_same, auto)
  then have "frozen pv n ((scroll_into_state (w\<lparr>tk_flushed := True\<rparr>))\<lparr>tk_state := finalizeForUnload f now (tk_state (scroll_into_state (w\<lparr>tk_flushed := True\<rparr>)))\<rparr>)" for f
    by (simp add: frozen_def)
  then have "frozen pv n (persist_state (hand_over By_beacon cfg now
      ((scroll_into_state (w\<lparr>tk_flushed := True\<rparr>))\<lparr>tk_state := finalizeForUnload f now (tk_state (scroll_into_state (w\<lparr>tk_flushed := True\<rparr>)))\<rparr>)))" for f
    by (rule frozen_same [OF frozen_hand_over]) (auto simp: persist_state_def)
  then show ?thesis using assms by (simp add: flushOnce_def Let_def)
qed

lemma frozen_timer:
  assumes "frozen pv n w"
  shows "frozen pv n (timer_fires_main cfg now i w)"
proof -
  have same: "frozen pv n v \<Longrightarrow> frozen pv n (hb_update f v)" for v f by (simp add: frozen_def)
  have w1: "frozen pv n (clear_timeout i w)" "frozen pv n ((clear_timeout i w)\<lparr>tk_debounce := None\<rparr>)"
    using assms by (simp_all add: frozen_def clear_timeout_def)
  have "frozen pv n (heartbeat_fires cfg now (clear_timeout i w))"
    unfolding heartbeat_fires_def sendPingEvent_def
    using w1(1) frozen_same [OF same [OF frozen_hand_over [OF frozen_scroll [OF same [OF w1(1)]]]]] by simp
  then show ?thesis
    using assms w1 by (simp add: timer_fires_main_def Let_def sendPayload_def frozen_hand_over split: option.split timer_kind.split)
qed

lemma frozen_track_goal:
  assumes "frozen pv n w"
  shows "frozen pv n (trackGoal cfg now name v ps w)"
proof -
  define w1 where "w1 = w\<lparr>tk_state := snd (addGoal now name v ps (tk_state w))\<rparr>"
  have w1: "frozen pv n w1" using assms unfolding w1_def by (rule frozen_goal)
  then have "frozen pv n ((clear_timeout i w1)\<lparr>tk_debounce := None\<rparr>)" for i
    by (rule frozen_same) (simp_all add: clear_timeout_def)
  then show ?thesis
    using w1 by (auto simp: trackGoal_def Let_def sendPayload_def w1_def [symmetric] frozen_hand_over split: option.split)
qed

lemma handle_frozen:
  assumes f: "frozen pv n w" and "\<not> opens_page e"
  shows "frozen pv n (handle cfg now e w)"
proof -
  have simple [simp]: "frozen pv n (w\<lparr>tk_visible := b\<rparr>)" "frozen pv n (w\<lparr>tk_manager := m\<rparr>)" "frozen pv n (w\<lparr>tk_scroll := s\<rparr>)"
      "frozen pv n (persist_state w)" "frozen pv n (w\<lparr>tk_paused := b\<rparr>)" for b m s
    by (rule frozen_same [OF f]; simp add: persist_state_def)+
  have moves [simp]: "frozen pv n v \<Longrightarrow> frozen pv n (comes_back cfg now v)" "frozen pv n v \<Longrightarrow> frozen pv n (goes_away cfg now v)"
      "frozen pv n v \<Longrightarrow> frozen pv n (stopHeartbeat True now v)"
      "frozen pv n v \<Longrightarrow> frozen pv n (startHeartbeat cfg now (resetHeartbeatState now v))" for v
    by (rule frozen_same, assumption, simp, simp)
       (simp add: goes_away_def frozen_flush frozen_same [of pv n v "stopHeartbeat True now v"], (rule frozen_same, assumption, simp, simp)+)
  show ?thesis
    using assms by (cases e) (simp_all add: frozen_flush frozen_timer frozen_track_goal onVisibilityChange_def onFocus_def onBlur_def
      onFreeze_def onResume_def onPageShow_def scrolled_def attempt_def pause_def resume_def split: sum.split)
qed

lemma run_frozen:
  "frozen pv n w \<Longrightarrow> \<forall>(t, e) \<in> set es. \<not> opens_page e \<Longrightarrow> frozen pv n (run_events cfg es w)"
  unfolding run_events_def by (induction es arbitrary: w) (auto intro: handle_frozen)

lemma flush_closes: "\<not> tk_flushed w \<Longrightarrow> ss_current (tk_state (flushOnce cfg now w)) = None"
  by (simp add: flushOnce_def Let_def persist_state_def finalizeForUnload_def)

lemma time_after_return_lost_parts:
  assumes "\<not> tk_flushed w" "left_w = handle cfg now Goes_hidden w"
    and "\<forall>(t, e) \<in> set es. \<not> opens_page e"
    and "later_w = run_events cfg es left_w"
  shows "pageviews (ss_actions (tk_state later_w)) = pageviews (ss_actions (tk_state left_w))"
    and "x \<in> set (drop (length (tk_sent left_w)) (tk_sent later_w)) \<Longrightarrow>
      pageviews (sp_actions (snd x)) = pageviews (ss_actions (tk_state left_w))"
    and "getFocusDuration t later_w = sum_list (map pa_duration (pageviews (ss_actions (tk_state left_w))))"
    and "\<exists>new. pageviews (ss_actions (tk_state (handle cfg t (Track_page_view path) later_w))) =
      pageviews (ss_actions (tk_state left_w)) @ new \<and> length new \<le> 1"
proof -
  have "ss_current (tk_state left_w) = None"
    using assms(1,2) by (simp add: onVisibilityChange_def goes_away_def flush_closes)
  then have "frozen (pageviews (ss_actions (tk_state left_w))) (length (tk_sent left_w)) left_w" by (simp add: frozen_def)
  from run_frozen [OF this assms(3)] assms(4)
  have f: "frozen (pageviews (ss_actions (tk_state left_w))) (length (tk_sent left_w)) later_w" by simp
  then show "pageviews (ss_actions (tk_state later_w)) = pageviews (ss_actions (tk_state left_w))"
    and "x \<in> set (drop (length (tk_sent left_w)) (tk_sent later_w)) \<Longrightarrow>
      pageviews (sp_actions (snd x)) = pageviews (ss_actions (tk_state left_w))"
    by (simp_all add: frozen_def)
  show "getFocusDuration t later_w = sum_list (map pa_duration (pageviews (ss_actions (tk_state left_w))))"
    using f by (simp add: frozen_def getFocusDuration_def getCurrentPage_def current_pageview_def)
  show "\<exists>new. pageviews (ss_actions (tk_state (handle cfg t (Track_page_view path) later_w))) =
      pageviews (ss_actions (tk_state left_w)) @ new \<and> length new \<le> 1"
    using frozen_scroll [OF f]
    by (auto simp: frozen_def trackPageView_def persist_state_def resetPageActiveTime_def reset_scroll_def open_page_def
        addPageview_def Let_def)
qed

text \<open>
  C11: Once the visitor has left the tab, the page has its duration for good: until another page view, whatever happens after the return
  (focus, reading, pings, further absences), the page views recorded and sent stay as they are, the reported focus time is their
  sum, and the next page view adds itself without touching them. The time spent and the depth reached after the first absence are lost.
\<close>
theorem time_after_return_lost:
  assumes "\<not> tk_flushed w" "left_w = handle cfg now Goes_hidden w"
    and "\<forall>(t, e) \<in> set es. \<not> opens_page e"
    and "later_w = run_events cfg es left_w"
  shows "pageviews (ss_actions (tk_state later_w)) = pageviews (ss_actions (tk_state left_w)) \<and>
    (\<forall>x \<in> set (drop (length (tk_sent left_w)) (tk_sent later_w)). pageviews (sp_actions (snd x)) = pageviews (ss_actions (tk_state left_w))) \<and>
    getFocusDuration t later_w = sum_list (map pa_duration (pageviews (ss_actions (tk_state left_w)))) \<and>
    (\<exists>new. pageviews (ss_actions (tk_state (handle cfg t (Track_page_view path) later_w))) =
      pageviews (ss_actions (tk_state left_w)) @ new \<and> length new \<le> 1)"
  using time_after_return_lost_parts [OF assms] by blast


lemma initialised_unflushed:
  "initializeAsync version u ps = Inr (Some (cfg, w)) \<Longrightarrow> \<not> tk_flushed w"
  by (auto simp: initializeAsync_def begin_tracking_def new_tracker_def sendPayload_def open_page_def Let_def
      split: if_splits prod.splits sum.splits)

lemma time_after_return_lost_witness:
  "\<exists>cfg w. initializeAsync ''6'' sample_user sample_start = Inr (Some (cfg, w)) \<and>
     pageviews (ss_actions (tk_state (run_events cfg [(9000, Goes_visible), (99000, Timer_fires 2), (600000, Window_blur)]
       (handle cfg 6000 Goes_hidden w)))) = pageviews (ss_actions (tk_state (handle cfg 6000 Goes_hidden w)))"
proof -
  obtain cfg w where w: "initializeAsync ''6'' sample_user sample_start = Inr (Some (cfg, w))" using sample_starts by blast
  have "\<forall>(t, e) \<in> set [(9000 :: int, Goes_visible), (99000, Timer_fires 2), (600000, Window_blur)]. \<not> opens_page e" by simp
  from time_after_return_lost [OF initialised_unflushed [OF w] refl this refl] w show ?thesis by blast
qed

subsection \<open>One beacon for each absence\<close>

definition beacons :: "tracker \<Rightarrow> nat" where
  "beacons w = length (filter (\<lambda>x. fst x = By_beacon) (tk_sent w))"

primrec comes :: "tracker_event \<Rightarrow> bool" where
  "comes Goes_hidden = False" | "comes Goes_visible = True" | "comes Window_focus = True"
| "comes Window_blur = False" | "comes Page_freeze = False" | "comes Page_resume = True"
| "comes Page_unload = False" | "comes (Page_show persisted) = persisted" | "comes (Scrolled r) = False"
| "comes (Navigated h p) = False" | "comes (Timer_fires i) = False" | "comes (Send_settled s) = False"
| "comes (Track_page_view p) = False" | "comes (Track_goal n v ps) = False" | "comes Goal_settled = False"
| "comes (Set_dimension i v) = False" | "comes Clear_dimensions = False" | "comes (Set_user u) = False"
| "comes Pause = False" | "comes Resume = False" | "comes (Reset env p) = False"

text \<open>The beacons sent and the one that may still be sent.\<close>

definition beacon_budget :: "tracker \<Rightarrow> nat" where
  "beacon_budget w = beacons w + (if tk_flushed w then 0 else 1)"

lemma budget_same: "tk_sent w' = tk_sent w \<Longrightarrow> tk_flushed w' = tk_flushed w \<Longrightarrow> beacon_budget w' = beacon_budget w"
  by (simp add: beacon_budget_def beacons_def)

lemma hand_over_budget: "beacon_budget (hand_over how cfg now w) = beacon_budget w + (if how = By_beacon then 1 else 0)"
  using hand_over_sent [of how cfg now w] by (auto simp: beacon_budget_def beacons_def)

lemma flush_budget [simp]: "beacon_budget (flushOnce cfg now w) = beacon_budget w"
proof (cases "tk_flushed w")
  case False
  define v where "v = scroll_into_state (w\<lparr>tk_flushed := True\<rparr>)"
  have "flushOnce cfg now w = persist_state (hand_over By_beacon cfg now
      (v\<lparr>tk_state := finalizeForUnload (Some (getPageActiveMs now (tk_hb v))) now (tk_state v)\<rparr>))"
    using False by (simp add: flushOnce_def Let_def v_def)
  moreover have "beacon_budget (persist_state z) = beacon_budget z" for z by (rule budget_same) (simp_all add: persist_state_def)
  moreover have "beacon_budget w = beacon_budget (v\<lparr>tk_state := s\<rparr>) + 1" for s
    using False by (simp add: v_def beacon_budget_def beacons_def)
  ultimately show ?thesis by (simp add: hand_over_budget)
qed (simp add: flushOnce_def)

lemma comes_back_budget: "beacon_budget (comes_back cfg now w) \<le> beacon_budget w + 1"
  by (simp add: beacon_budget_def beacons_def)

lemma timer_budget: "beacon_budget (timer_fires_main cfg now i w) = beacon_budget w"
proof -
  have "beacon_budget (heartbeat_fires cfg now v) = beacon_budget v" for v
  proof -
    have "beacon_budget (heartbeat_fires cfg now v) = beacon_budget (sendPingEvent cfg now
        (hb_update (\<lambda>h. h\<lparr>hs_currentTierIndex := snd (getCurrentTier cfg now h)\<rparr>) v))" if "shouldSendPing v"
      using that by (intro budget_same) (simp_all add: heartbeat_fires_def)
    moreover have "beacon_budget (sendPingEvent cfg now z) = beacon_budget z" for z
      by (simp add: sendPingEvent_def hand_over_budget) (simp add: beacon_budget_def beacons_def)
    ultimately show ?thesis by (cases "shouldSendPing v") (simp_all add: heartbeat_fires_def beacon_budget_def beacons_def)
  qed
  moreover have "beacon_budget (clear_timeout i w) = beacon_budget w" "beacon_budget ((clear_timeout i w)\<lparr>tk_debounce := None\<rparr>) = beacon_budget w"
    by (rule budget_same; simp add: clear_timeout_def)+
  ultimately show ?thesis
    by (simp add: timer_fires_main_def Let_def sendPayload_def hand_over_budget split: option.split timer_kind.split)
qed

lemma handle_budget: "beacon_budget (handle cfg now e w) \<le> beacon_budget w + (if comes e then 1 else 0)"
proof -
  have [simp]: "beacon_budget (w\<lparr>tk_visible := b\<rparr>) = beacon_budget w" "beacon_budget (stopHeartbeat True now v) = beacon_budget v"
      "beacon_budget (persist_state v) = beacon_budget v" "beacon_budget (v\<lparr>tk_manager := m\<rparr>) = beacon_budget v"
      "beacon_budget (v\<lparr>tk_paused := b\<rparr>) = beacon_budget v" "beacon_budget (v\<lparr>tk_state := s\<rparr>) = beacon_budget v"
      "beacon_budget (v\<lparr>tk_scroll := sc\<rparr>) = beacon_budget v" "beacon_budget (v\<lparr>tk_href := h\<rparr>) = beacon_budget v"
      "beacon_budget (startHeartbeat cfg now v) = beacon_budget v" "beacon_budget (resetHeartbeatState now v) = beacon_budget v"
      "beacon_budget (scheduleDebouncedSend now v) = beacon_budget v" "beacon_budget (resetPageActiveTime now v) = beacon_budget v"
      "beacon_budget (reset_scroll v) = beacon_budget v" "beacon_budget (open_page now p v) = beacon_budget v"
      "beacon_budget (scroll_into_state v) = beacon_budget v" "beacon_budget ((clear_timeout i v)\<lparr>tk_debounce := None\<rparr>) = beacon_budget v"
      "beacon_budget (v\<lparr>tk_state := s, tk_snapshot := ws\<rparr>) = beacon_budget v"
      "beacon_budget (v\<lparr>tk_manager := m, tk_state := s\<rparr>) = beacon_budget v"
    for b v m s sc p i ws h
    by (rule budget_same; simp add: persist_state_def resetPageActiveTime_def reset_scroll_def open_page_def clear_timeout_def)+
  have returns: "beacon_budget (comes_back cfg now v) \<le> Suc (beacon_budget v)" for v using comes_back_budget [of cfg now v] by simp
  show ?thesis
    using returns [of w] returns [of "w\<lparr>tk_visible := True\<rparr>"]
    by (cases e) (auto simp: onVisibilityChange_def onFocus_def onBlur_def onFreeze_def onResume_def onPageShow_def goes_away_def
        scrolled_def attempt_def pause_def resume_def trackPageView_def trackGoal_def onNavigation_def reset_tracker_def
        timer_budget sendPayload_def hand_over_budget Let_def split: sum.split option.split prod.split)
qed

lemma run_budget:
  "beacon_budget (run_events cfg es w) \<le> beacon_budget w + length (filter (comes \<circ> snd) es)"
proof (induction es arbitrary: w)
  case (Cons te es)
  obtain t e where "te = (t, e)" by (cases te)
  then show ?case using Cons [of "handle cfg t e w"] handle_budget [of cfg t e w] by (simp add: run_events_def split: if_splits)
qed (simp add: run_events_def)

lemma one_beacon_per_absence_parts:
  shows "beacons (run_events cfg es w) \<le> beacons w + 1 + length (filter (comes \<circ> snd) es)"
    and "\<not> tk_flushed w \<Longrightarrow> e \<in> {Goes_hidden, Window_blur, Page_freeze, Page_unload} \<Longrightarrow>
      beacons (handle cfg now e w) = beacons w + 1 \<and> tk_flushed (handle cfg now e w)"
proof -
  have bounds: "beacons v \<le> beacon_budget v" "beacon_budget v \<le> beacons v + 1" for v
    by (simp_all add: beacon_budget_def)
  show "beacons (run_events cfg es w) \<le> beacons w + 1 + length (filter (comes \<circ> snd) es)"
    using run_budget [of cfg es w] bounds(1) [of "run_events cfg es w"] bounds(2) [of w] by linarith
  have flush: "beacons (flushOnce cfg now v) = beacons v + 1 \<and> tk_flushed (flushOnce cfg now v)" if "\<not> tk_flushed v" for v
  proof -
    have "tk_flushed (flushOnce cfg now v)" using that by (simp add: flushOnce_def Let_def persist_state_def)
    then show ?thesis using flush_budget [of cfg now v] that by (simp add: beacon_budget_def)
  qed
  have away: "beacons (goes_away cfg now v) = beacons v + 1 \<and> tk_flushed (goes_away cfg now v)" if "\<not> tk_flushed v" for v
    using flush [of "stopHeartbeat True now v"] that by (simp add: goes_away_def beacons_def)
  assume "\<not> tk_flushed w" "e \<in> {Goes_hidden, Window_blur, Page_freeze, Page_unload}"
  then show "beacons (handle cfg now e w) = beacons w + 1 \<and> tk_flushed (handle cfg now e w)"
    using flush [of w] away [of w] away [of "w\<lparr>tk_visible := False\<rparr>"]
    by (auto simp: onVisibilityChange_def onBlur_def onFreeze_def beacons_def)
qed

text \<open>
  C24: However often and in whatever combination the browser reports that the page is hidden, blurred, frozen and unloaded, the beacon
  goes out at most once until the page comes back: in any run the beacons sent are at most one more than the returns. And the first
  event of an absence does send it.
\<close>
theorem one_beacon_per_absence:
  shows "beacons (run_events cfg es w) \<le> beacons w + 1 + length (filter (comes \<circ> snd) es) \<and>
    (\<not> tk_flushed w \<longrightarrow> (\<forall>e \<in> {Goes_hidden, Window_blur, Page_freeze, Page_unload}.
       beacons (handle cfg now e w) = beacons w + 1 \<and> tk_flushed (handle cfg now e w)))"
  using one_beacon_per_absence_parts by blast

lemma one_beacon_per_absence_witness:
  "\<exists>cfg w. initializeAsync ''6'' sample_user sample_start = Inr (Some (cfg, w)) \<and>
     beacons (handle cfg 6000 Window_blur w) = beacons w + 1 \<and>
     beacons (run_events cfg [(6000, Window_blur), (6001, Goes_hidden), (6002, Page_unload)] w) \<le> beacons w + 1"
proof -
  obtain cfg w where w: "initializeAsync ''6'' sample_user sample_start = Inr (Some (cfg, w))" using sample_starts by blast
  with one_beacon_per_absence [of cfg "[(6000, Window_blur), (6001, Goes_hidden), (6002, Page_unload)]" w 6000]
    initialised_unflushed [OF w]
  show ?thesis by auto
qed


subsection \<open>Tiers\<close>

definition intervals_ok :: "heartbeat_tier list \<Rightarrow> bool" where
  "intervals_ok ts \<longleftrightarrow> ts \<noteq> [] \<and>
     (\<forall>t \<in> set ts. \<forall>i. ht_desktop t = Some i \<or> ht_mobile t = Some i \<longrightarrow> MIN_HEARTBEAT_INTERVAL \<le> i)"

lemma sort_key_Nil_iff [simp]: "sort_key f xs = [] \<longleftrightarrow> xs = []"
  by (metis length_0_conv length_sort)

lemma at_least_min: "at_least m i = Some j \<Longrightarrow> m \<le> j"
  by (auto simp: at_least_def)

lemma validated_intervals: "intervals_ok (validateTiers ts)"
proof (cases "ts = []")
  case True
  then show ?thesis by (simp add: intervals_ok_def validateTiers_def DEFAULT_HEARTBEAT_TIERS_def MIN_HEARTBEAT_INTERVAL_def)
next
  case False
  then show ?thesis
    by (auto simp: intervals_ok_def validateTiers_def Let_def dest: at_least_min)
qed

lemma normalised_limit: "mc_maxDuration (normalised_config version u) \<noteq> 0 \<Longrightarrow> 60000 \<le> mc_maxDuration (normalised_config version u)"
  by (auto simp: normalised_config_def Let_def MIN_HEARTBEAT_MAX_DURATION_def)

lemma tier_from_filter:
  "sorted (map ht_after ts) \<Longrightarrow>
     fst (tier_from n i best ts) = (if filter (\<lambda>t. ht_after t \<le> n) ts = [] then fst best else last (filter (\<lambda>t. ht_after t \<le> n) ts))"
  by (induction n i best ts rule: tier_from.induct) (auto simp: filter_empty_conv)

lemma tier_from_in: "fst (tier_from n i best ts) \<in> insert (fst best) (set ts)"
  by (induction n i best ts rule: tier_from.induct) auto

text \<open>
  Tiers with thresholds from zero on: after validation they are in order, start at zero, and no interval is under five seconds; the
  tier in force is the last one whose threshold the active time has reached.
\<close>
theorem tier_in_force:
  assumes "\<forall>t \<in> set ts. 0 \<le> ht_after t" "mc_tiers cfg = validateTiers ts" "0 \<le> getTotalActiveMs now h"
  shows "sorted (map ht_after (mc_tiers cfg))" and "ht_after (hd (mc_tiers cfg)) = 0" and "intervals_ok (mc_tiers cfg)"
    and "fst (getCurrentTier cfg now h) = last (filter (\<lambda>t. ht_after t \<le> getTotalActiveMs now h) (mc_tiers cfg))"
    and "fst (getCurrentTier cfg now h) \<in> set (mc_tiers cfg)"
proof -
  let ?s = "sort_key ht_after ts"
  have s: "sorted (map ht_after ?s)" "\<forall>t \<in> set ?s. 0 \<le> ht_after t" using assms(1) by simp_all
  have v: "sorted (map ht_after (validateTiers ts)) \<and> ht_after (hd (validateTiers ts)) = 0"
  proof (cases ts)
    case Nil
    then show ?thesis by (simp add: validateTiers_def DEFAULT_HEARTBEAT_TIERS_def)
  next
    case (Cons t us)
    then have "?s \<noteq> []" by (metis length_0_conv length_sort list.distinct(1))
    with s Cons show ?thesis by (cases ?s) (auto simp: validateTiers_def Let_def o_def)
  qed
  then show sorted: "sorted (map ht_after (mc_tiers cfg))" and zero: "ht_after (hd (mc_tiers cfg)) = 0"
    by (simp_all add: assms(2))
  show ok: "intervals_ok (mc_tiers cfg)" using validated_intervals by (simp add: assms(2))
  then have "hd (mc_tiers cfg) \<in> set (mc_tiers cfg)" by (simp add: intervals_ok_def)
  with zero assms(3) have some: "filter (\<lambda>t. ht_after t \<le> getTotalActiveMs now h) (mc_tiers cfg) \<noteq> []"
    by (auto simp: filter_empty_conv intro!: bexI [of _ "hd (mc_tiers cfg)"])
  show tier: "fst (getCurrentTier cfg now h) = last (filter (\<lambda>t. ht_after t \<le> getTotalActiveMs now h) (mc_tiers cfg))"
    using some by (simp add: getCurrentTier_def tier_from_filter [OF sorted])
  show "fst (getCurrentTier cfg now h) \<in> set (mc_tiers cfg)"
    unfolding tier using last_in_set [OF some] by simp
qed

lemma tier_in_force_witness:
  "let cfg = (normalised_config ''6'' sample_user)\<lparr>mc_tiers := validateTiers [\<lparr>ht_after = 9000, ht_desktop = Some 10, ht_mobile = None\<rparr>]\<rparr>;
       h = \<lparr>hs_activeStartTime = 0, hs_accumulatedActiveMs = 10000, hs_isActive = False, hs_maxDurationReached = False,
            hs_lastPingTime = 0, hs_currentTierIndex = 0, hs_pageActiveMs = 0, hs_pageStartTime = 0\<rparr>
   in fst (getCurrentTier cfg 0 h) = \<lparr>ht_after = 9000, ht_desktop = Some 5000, ht_mobile = None\<rparr>"
proof -
  let ?cfg = "(normalised_config ''6'' sample_user)\<lparr>mc_tiers := validateTiers [\<lparr>ht_after = 9000, ht_desktop = Some 10, ht_mobile = None\<rparr>]\<rparr>"
  let ?h = "\<lparr>hs_activeStartTime = 0, hs_accumulatedActiveMs = 10000, hs_isActive = False, hs_maxDurationReached = False,
            hs_lastPingTime = 0, hs_currentTierIndex = 0, hs_pageActiveMs = 0, hs_pageStartTime = 0\<rparr>"
  have "fst (getCurrentTier ?cfg 0 ?h) = last (filter (\<lambda>t. ht_after t \<le> getTotalActiveMs 0 ?h) (mc_tiers ?cfg))"
    by (rule tier_in_force(4) [of "[\<lparr>ht_after = 9000, ht_desktop = Some 10, ht_mobile = None\<rparr>]"]) (simp_all add: getTotalActiveMs_def)
  then show ?thesis
    by (simp add: getTotalActiveMs_def validateTiers_def at_least_def MIN_HEARTBEAT_INTERVAL_def)
qed

subsection \<open>How many pings\<close>

definition pings :: "tracker \<Rightarrow> int" where
  "pings w = int (length (filter (\<lambda>x. fst x = By_ping) (tk_sent w)))"

definition none_pending :: "tracker \<Rightarrow> bool" where
  "none_pending w \<longleftrightarrow> (\<forall>t \<in> set (tk_timers w). tm_kind t \<noteq> Heartbeat_timer)"

text \<open>Every pending heartbeat timer is the one the tracker knows, and is due five seconds after the last ping at the earliest.\<close>

definition pending_ok :: "int \<Rightarrow> int \<Rightarrow> tracker \<Rightarrow> bool" where
  "pending_ok limit n w \<longleftrightarrow>
     (\<forall>t \<in> set (tk_timers w). tm_kind t = Heartbeat_timer \<longrightarrow>
        tk_hbTimeout w = Some (tm_id t) \<and> hs_isActive (tk_hb w) \<and> hs_lastPingTime (tk_hb w) + 5000 \<le> tm_due t \<and> 5000 * n < limit)"

definition counted :: "int \<Rightarrow> int \<Rightarrow> int \<Rightarrow> heartbeat_state \<Rightarrow> bool" where
  "counted limit n now h \<longleftrightarrow>
     5000 * n \<le> hs_accumulatedActiveMs h + (if hs_isActive h then hs_lastPingTime h - hs_activeStartTime h else 0) \<and>
     (hs_isActive h \<longrightarrow> hs_activeStartTime h \<le> hs_lastPingTime h \<and> hs_lastPingTime h \<le> now) \<and> 5000 * (n - 1) < limit"

definition rate_ok :: "int \<Rightarrow> int \<Rightarrow> tracker \<Rightarrow> bool" where
  "rate_ok limit now w \<longleftrightarrow> pending_ok limit (pings w) w \<and> counted limit (pings w) now (tk_hb w)"

lemma rate_later: "rate_ok limit now w \<Longrightarrow> now \<le> later \<Longrightarrow> rate_ok limit later w"
  by (auto simp: rate_ok_def counted_def)

lemma rate_same:
  "rate_ok limit now w \<Longrightarrow> tk_hb w' = tk_hb w \<Longrightarrow> tk_hbTimeout w' = tk_hbTimeout w \<Longrightarrow>
     \<forall>t \<in> set (tk_timers w'). tm_kind t = Heartbeat_timer \<longrightarrow> t \<in> set (tk_timers w) \<Longrightarrow> pings w' = pings w \<Longrightarrow> rate_ok limit now w'"
  unfolding rate_ok_def pending_ok_def by simp blast

lemma none_pending_rate:
  "none_pending w \<Longrightarrow> rate_ok limit now w \<longleftrightarrow> counted limit (pings w) now (tk_hb w)"
  by (auto simp: rate_ok_def pending_ok_def none_pending_def)

lemma pings_frame [simp]: "pings (stopHeartbeat b now w) = pings w" "pings (scheduleNextHeartbeat cfg now w) = pings w"
  "pings (w\<lparr>tk_hb := h\<rparr>) = pings w"
  by (simp_all add: pings_def)

lemma pings_hand_over: "pings (hand_over how cfg now w) = pings w + (if how = By_ping then 1 else 0)"
  using hand_over_sent [of how cfg now w] by (auto simp: pings_def)

lemma stop_none_pending: "pending_ok limit n w \<Longrightarrow> none_pending (stopHeartbeat b now w)"
  by (auto simp: none_pending_def pending_ok_def)

lemma counted_stopped [simp]:
  "counted limit n now h \<Longrightarrow> counted limit n now (stopped now h)"
  "counted limit n now (h\<lparr>hs_maxDurationReached := m\<rparr>) = counted limit n now h"
  by (auto simp: counted_def stopped_def getTotalActiveMs_def)

lemma stop_rate: "rate_ok limit now w \<Longrightarrow> rate_ok limit now (stopHeartbeat True now w)"
  by (rule none_pending_rate [THEN iffD2]) (auto simp: rate_ok_def dest: stop_none_pending)

text \<open>The tracker's configuration after normalisation, with a limit.\<close>

definition limited :: "main_config \<Rightarrow> bool" where
  "limited cfg \<longleftrightarrow> intervals_ok (mc_tiers cfg) \<and> 0 < mc_maxDuration cfg"

lemma interval_min:
  assumes "intervals_ok (mc_tiers cfg)" "getCurrentInterval cfg now w = Some i"
  shows "5000 \<le> i"
proof -
  have "fst (getCurrentTier cfg now (tk_hb w)) \<in> set (mc_tiers cfg)"
    using assms(1) tier_from_in [of "getTotalActiveMs now (tk_hb w)" 0 "(hd (mc_tiers cfg), 0)" "mc_tiers cfg"]
    by (auto simp: getCurrentTier_def intervals_ok_def)
  then show ?thesis
    using assms by (auto simp: intervals_ok_def getCurrentInterval_def Let_def MIN_HEARTBEAT_INTERVAL_def split: if_splits)
qed

lemma schedule_rate:
  assumes cfg: "limited cfg" and none: "none_pending w" and c: "counted (mc_maxDuration cfg) (pings w) now (tk_hb w)"
  shows "rate_ok (mc_maxDuration cfg) now (scheduleNextHeartbeat cfg now w)"
proof -
  have stop: "rate_ok (mc_maxDuration cfg) now (stopHeartbeat True now (w\<lparr>tk_hb := (tk_hb w)\<lparr>hs_maxDurationReached := True\<rparr>\<rparr>))"
    using none c by (intro stop_rate) (simp add: none_pending_rate none_pending_def)
  show ?thesis
  proof (cases "hs_isActive (tk_hb w)")
    case active: True
    show ?thesis
    proof (cases "mc_maxDuration cfg \<le> getTotalActiveMs now (tk_hb w)")
      case False
      show ?thesis
      proof (cases "getCurrentInterval cfg now w")
        case (Some i)
        have "5000 \<le> i" using cfg Some interval_min by (auto simp: limited_def)
        moreover have "5000 * pings w < mc_maxDuration cfg"
          using c active False by (auto simp: counted_def getTotalActiveMs_def)
        ultimately show ?thesis
          using c none active False Some cfg
          by (auto simp: scheduleNextHeartbeat_def checkAndUpdateMaxDuration_def limited_def set_timeout_def Let_def rate_ok_def
              pending_ok_def none_pending_def pings_def)
      qed (use stop active False cfg in \<open>simp add: scheduleNextHeartbeat_def checkAndUpdateMaxDuration_def limited_def\<close>)
    qed (use stop active cfg in \<open>simp add: scheduleNextHeartbeat_def checkAndUpdateMaxDuration_def limited_def\<close>)
  qed (use none c in \<open>simp add: scheduleNextHeartbeat_def none_pending_rate\<close>)
qed

lemma resume_rate:
  assumes "limited cfg" "rate_ok (mc_maxDuration cfg) now w" "\<not> hs_isActive (tk_hb w)"
  shows "rate_ok (mc_maxDuration cfg) now (resumeHeartbeat cfg now w)"
proof (cases "hs_maxDurationReached (tk_hb w)")
  case False
  have "none_pending w" using assms(2,3) by (auto simp: rate_ok_def pending_ok_def none_pending_def)
  moreover have "counted (mc_maxDuration cfg) (pings w) now
      ((tk_hb w)\<lparr>hs_activeStartTime := now, hs_pageStartTime := now, hs_isActive := True, hs_lastPingTime := now\<rparr>)"
    using assms(2,3) by (simp add: rate_ok_def counted_def)
  ultimately show ?thesis
    using schedule_rate [OF assms(1), of "hb_update (\<lambda>h. h\<lparr>hs_activeStartTime := now, hs_pageStartTime := now, hs_isActive := True,
      hs_lastPingTime := now\<rparr>) w" now] False
    by (simp add: resumeHeartbeat_def none_pending_def)
qed (use assms in \<open>simp add: resumeHeartbeat_def\<close>)

lemma comes_back_rate:
  assumes "limited cfg" "rate_ok (mc_maxDuration cfg) now w" "\<not> hs_isActive (tk_hb w)"
  shows "rate_ok (mc_maxDuration cfg) now (comes_back cfg now w)"
proof -
  have "rate_ok (mc_maxDuration cfg) now (w\<lparr>tk_flushed := False\<rparr>)" using assms(2) by (rule rate_same) (simp_all add: pings_def)
  with assms show ?thesis by (simp add: comes_back_def Let_def resume_rate)
qed

lemma ping_rate:
  assumes cfg: "limited cfg" and ok: "rate_ok (mc_maxDuration cfg) now w"
    and t: "t \<in> set (tk_timers w)" "tm_kind t = Heartbeat_timer" "tm_due t \<le> now"
  shows "rate_ok (mc_maxDuration cfg) now (heartbeat_fires cfg now (clear_timeout (tm_id t) w))"
proof -
  let ?v = "clear_timeout (tm_id t) w"
  have h: "tk_hbTimeout w = Some (tm_id t)" "hs_isActive (tk_hb w)" "hs_lastPingTime (tk_hb w) + 5000 \<le> now"
      "5000 * pings w < mc_maxDuration cfg"
    using ok t by (auto simp: rate_ok_def pending_ok_def)
  have none: "none_pending ?v" using ok h(1) by (auto simp: none_pending_def rate_ok_def pending_ok_def clear_timeout_def)
  have v: "tk_hb ?v = tk_hb w" "pings ?v = pings w" by (simp_all add: clear_timeout_def pings_def)
  show ?thesis
  proof (cases "shouldSendPing ?v")
    case True
    let ?z = "sendPingEvent cfg now (hb_update (\<lambda>h. h\<lparr>hs_currentTierIndex := snd (getCurrentTier cfg now h)\<rparr>) ?v)"
    have z: "pings ?z = pings w + 1" "tk_hb ?z = (tk_hb w)\<lparr>hs_currentTierIndex := snd (getCurrentTier cfg now (tk_hb w))\<rparr>"
        "tk_timers ?z = tk_timers ?v"
      using v by (simp_all add: sendPingEvent_def pings_hand_over) (simp add: pings_def)
    have "counted (mc_maxDuration cfg) (pings w + 1) now ((tk_hb ?z)\<lparr>hs_lastPingTime := now\<rparr>)"
      using ok h z(2) by (auto simp: rate_ok_def counted_def)
    then have "rate_ok (mc_maxDuration cfg) now (scheduleNextHeartbeat cfg now (hb_update (\<lambda>h. h\<lparr>hs_lastPingTime := now\<rparr>) ?z))"
      using none z by (intro schedule_rate [OF cfg]) (simp_all add: none_pending_def)
    then show ?thesis using True by (simp add: heartbeat_fires_def)
  next
    case False
    have "rate_ok (mc_maxDuration cfg) now ?v" using ok v by (subst none_pending_rate [OF none]) (simp add: rate_ok_def)
    then show ?thesis using False by (simp add: heartbeat_fires_def)
  qed
qed

lemma timer_rate:
  assumes "limited cfg" "rate_ok (mc_maxDuration cfg) now w"
  shows "rate_ok (mc_maxDuration cfg) now (timer_fires_main cfg now i w)"
proof (cases "find (\<lambda>t. tm_id t = i) (tk_timers w)")
  case (Some t)
  then have t: "t \<in> set (tk_timers w)" "tm_id t = i" by (auto simp: find_Some_iff)
  have "rate_ok (mc_maxDuration cfg) now (sendPayload cfg now ((clear_timeout i w)\<lparr>tk_debounce := None\<rparr>))"
    using assms(2) by (rule rate_same) (auto simp: sendPayload_def pings_hand_over clear_timeout_def, simp add: pings_def)
  then show ?thesis
    using assms ping_rate [OF assms t(1)] t Some by (auto simp: timer_fires_main_def Let_def split: timer_kind.split)
qed (use assms in \<open>simp add: timer_fires_main_def\<close>)

text \<open>
  A calm run: the browser reports a return only while the heartbeat rests, and nobody restarts the heartbeat (\<open>resume\<close>,
  \<open>reset\<close>).
\<close>

primrec restarts :: "tracker_event \<Rightarrow> bool" where
  "restarts Goes_hidden = False" | "restarts Goes_visible = False" | "restarts Window_focus = False"
| "restarts Window_blur = False" | "restarts Page_freeze = False" | "restarts Page_resume = False"
| "restarts Page_unload = False" | "restarts (Page_show persisted) = False" | "restarts (Scrolled r) = False"
| "restarts (Navigated h p) = False" | "restarts (Timer_fires i) = False" | "restarts (Send_settled s) = False"
| "restarts (Track_page_view p) = False" | "restarts (Track_goal n v ps) = False" | "restarts Goal_settled = False"
| "restarts (Set_dimension i v) = False" | "restarts Clear_dimensions = False" | "restarts (Set_user u) = False"
| "restarts Pause = False" | "restarts Resume = True" | "restarts (Reset env p) = True"

fun calm :: "main_config \<Rightarrow> (int \<times> tracker_event) list \<Rightarrow> tracker \<Rightarrow> bool" where
  "calm cfg [] w \<longleftrightarrow> True"
| "calm cfg ((now, e) # es) w \<longleftrightarrow>
     \<not> restarts e \<and> (comes e \<longrightarrow> \<not> hs_isActive (tk_hb w)) \<and> calm cfg es (handle cfg now e w)"

lemma flush_pings [simp]: "pings (flushOnce cfg now w) = pings w"
  by (simp add: flushOnce_def Let_def persist_state_def pings_def hand_over_def split: prod.split)

lemma flush_timers [simp]:
  "tk_hb (flushOnce cfg now w) = tk_hb w" "tk_hbTimeout (flushOnce cfg now w) = tk_hbTimeout w" "tk_timers (flushOnce cfg now w) = tk_timers w"
  by (simp_all add: flushOnce_def Let_def persist_state_def)

lemma goes_away_rate: "rate_ok limit now w \<Longrightarrow> rate_ok limit now (goes_away cfg now w)"
  unfolding goes_away_def by (rule rate_same [OF stop_rate]) simp_all

lemma debounced_timers:
  "\<forall>t \<in> set (tk_timers (scheduleDebouncedSend now w)). tm_kind t = Heartbeat_timer \<longrightarrow> t \<in> set (tk_timers w)"
  by (auto simp: scheduleDebouncedSend_def set_timeout_def clear_timeout_def Let_def split: option.split)

lemma page_reset_rate:
  "rate_ok limit now w \<Longrightarrow> rate_ok limit now (scheduleDebouncedSend now (resetPageActiveTime now (reset_scroll (open_page now p (scroll_into_state w)))))"
  using debounced_timers [of now "resetPageActiveTime now (reset_scroll (open_page now p (scroll_into_state w)))"]
  by (auto simp: rate_ok_def pending_ok_def counted_def resetPageActiveTime_def reset_scroll_def open_page_def pings_def)

lemma goal_rate:
  assumes "rate_ok limit now w"
  shows "rate_ok limit now (trackGoal cfg now n v ps w)"
proof -
  have "pings (trackGoal cfg now n v ps w) = pings w"
    by (simp add: trackGoal_def Let_def sendPayload_def pings_hand_over clear_timeout_def split: option.split) (simp add: pings_def)
  then show ?thesis
    by (intro rate_same [OF assms]) (auto simp: trackGoal_def Let_def sendPayload_def clear_timeout_def split: option.split)
qed

lemma page_show_rate:
  assumes "limited cfg" "rate_ok (mc_maxDuration cfg) now w" "persisted \<longrightarrow> \<not> hs_isActive (tk_hb w)"
  shows "rate_ok (mc_maxDuration cfg) now (onPageShow cfg now persisted w)"
proof (cases persisted)
  case True
  then have "rate_ok (mc_maxDuration cfg) now (comes_back cfg now w)" using assms by (simp add: comes_back_rate)
  then show ?thesis
    by (rule rate_same) (auto simp: onPageShow_def Let_def pings_def True split: sum.split)
qed (use assms in \<open>simp add: onPageShow_def\<close>)

lemma handle_rate:
  assumes cfg: "limited cfg" "\<not> mc_resetOnNavigation cfg" and ok: "rate_ok (mc_maxDuration cfg) now w"
    and e: "\<not> restarts e" "comes e \<longrightarrow> \<not> hs_isActive (tk_hb w)"
  shows "rate_ok (mc_maxDuration cfg) now (handle cfg now e w)"
proof -
  have persisted: "rate_ok (mc_maxDuration cfg) now v \<Longrightarrow> rate_ok (mc_maxDuration cfg) now (persist_state v)" for v
    by (erule rate_same) (simp_all add: persist_state_def pings_def)
  have field: "rate_ok (mc_maxDuration cfg) now (w\<lparr>tk_visible := b\<rparr>)" "rate_ok (mc_maxDuration cfg) now (w\<lparr>tk_paused := b\<rparr>)"
      "rate_ok (mc_maxDuration cfg) now (w\<lparr>tk_href := u\<rparr>)" "rate_ok (mc_maxDuration cfg) now (w\<lparr>tk_manager := m\<rparr>)"
      "rate_ok (mc_maxDuration cfg) now (w\<lparr>tk_scroll := s\<rparr>)" for b u m s
    by (rule rate_same [OF ok]; simp add: pings_def)+
  have flush: "rate_ok (mc_maxDuration cfg) now (flushOnce cfg now w)" using ok by (rule rate_same) simp_all
  have attempted: "rate_ok (mc_maxDuration cfg) now (attempt r w)" for r :: "'x + session_manager"
    using ok field by (simp add: attempt_def split: sum.split)
  show ?thesis
    using e cfg ok field flush attempted
    by (cases e) (simp_all add: comes_back_rate goes_away_rate timer_rate page_show_rate goal_rate page_reset_rate stop_rate persisted
      onVisibilityChange_def onFocus_def onBlur_def onFreeze_def onResume_def scrolled_def pause_def trackPageView_def onNavigation_def Let_def)
qed


lemma run_rate:
  assumes "limited cfg" "\<not> mc_resetOnNavigation cfg" "rate_ok (mc_maxDuration cfg) now w" "calm cfg es w"
    "sorted (now # map fst es @ [until])"
  shows "rate_ok (mc_maxDuration cfg) until (run_events cfg es w)"
  using assms(3-)
proof (induction es arbitrary: now w)
  case Nil
  then show ?case by (auto simp: run_events_def intro: rate_later)
next
  case (Cons te es)
  obtain t e where te: "te = (t, e)" by (cases te)
  have "rate_ok (mc_maxDuration cfg) t w" using Cons.prems te by (auto intro: rate_later)
  then have "rate_ok (mc_maxDuration cfg) t (handle cfg t e w)"
    using handle_rate [OF assms(1,2)] Cons.prems te by simp
  with Cons.IH [of t "handle cfg t e w"] Cons.prems te show ?case by (simp add: run_events_def)
qed

lemma initialised_rate:
  assumes init: "initializeAsync version u ps = Inr (Some (cfg, w))" and limit: "mc_maxDuration cfg \<noteq> 0"
  shows "limited cfg" "rate_ok (mc_maxDuration cfg) (pe_now (ps_env ps)) w" "mc_resetOnNavigation cfg = js_nullish (uc_resetOnNavigation u) False"
proof -
  let ?now = "pe_now (ps_env ps)"
  have cfg: "cfg = normalised_config version u" "\<exists>m s ws. w = begin_tracking cfg ?now (ps_path ps) (new_tracker u ps m s ws)"
    using init by (auto simp: initializeAsync_def Let_def split: if_splits prod.splits sum.splits)
  then show l: "limited cfg"
    using validated_intervals normalised_limit limit by (fastforce simp: limited_def normalised_config_def Let_def)
  show "mc_resetOnNavigation cfg = js_nullish (uc_resetOnNavigation u) False" by (simp add: cfg(1) normalised_config_def Let_def)
  obtain m s ws where w: "w = begin_tracking cfg ?now (ps_path ps) (new_tracker u ps m s ws)" using cfg(2) by blast
  let ?v = "hb_update (\<lambda>h. h\<lparr>hs_pageStartTime := ?now, hs_activeStartTime := ?now\<rparr>)
      ((open_page ?now (ps_path ps) (new_tracker u ps m s ws))\<lparr>tk_tracking := True\<rparr>)"
  have "rate_ok (mc_maxDuration cfg) ?now (startHeartbeat cfg ?now ?v)"
    using l by (auto simp: startHeartbeat_def new_tracker_def open_page_def Let_def none_pending_def counted_def pings_def limited_def
        intro!: schedule_rate)
  then show "rate_ok (mc_maxDuration cfg) ?now w"
    unfolding w begin_tracking_def by (rule rate_same) (simp_all add: sendPayload_def pings_hand_over)
qed

lemma pings_bounded_parts:
  assumes "initializeAsync version u ps = Inr (Some (cfg, w))" "mc_maxDuration cfg \<noteq> 0" "uc_resetOnNavigation u \<noteq> Some True"
    and "calm cfg es w" "sorted (pe_now (ps_env ps) # map fst es @ [until])"
  shows "5000 * pings (run_events cfg es w) \<le> getTotalActiveMs until (tk_hb (run_events cfg es w))"
    and "5000 * (pings (run_events cfg es w) - 1) < mc_maxDuration cfg"
proof -
  have "\<not> mc_resetOnNavigation cfg"
    using assms(3) initialised_rate(3) [OF assms(1,2)] by (cases "uc_resetOnNavigation u") (auto simp: js_nullish_def)
  from run_rate [OF initialised_rate(1) [OF assms(1,2)] this initialised_rate(2) [OF assms(1,2)] assms(4,5)]
  have "counted (mc_maxDuration cfg) (pings (run_events cfg es w)) until (tk_hb (run_events cfg es w))"
    by (simp add: rate_ok_def)
  then show "5000 * pings (run_events cfg es w) \<le> getTotalActiveMs until (tk_hb (run_events cfg es w))"
    and "5000 * (pings (run_events cfg es w) - 1) < mc_maxDuration cfg"
    by (auto simp: counted_def getTotalActiveMs_def split: if_splits)
qed

text \<open>
  C16: With a maximal duration set and no reset on navigation: in a run in which the browser reports returns only while the heartbeat
  rests, the pings are at most one for every five seconds of active time and stop with the maximal duration, the last one coming
  after it at most by the interval in force. However the tiers were configured.
\<close>
theorem pings_bounded:
  assumes "initializeAsync version u ps = Inr (Some (cfg, w))" "mc_maxDuration cfg \<noteq> 0" "uc_resetOnNavigation u \<noteq> Some True"
    and "calm cfg es w" "sorted (pe_now (ps_env ps) # map fst es @ [until])"
  shows "5000 * pings (run_events cfg es w) \<le> getTotalActiveMs until (tk_hb (run_events cfg es w)) \<and>
    5000 * (pings (run_events cfg es w) - 1) < mc_maxDuration cfg"
  using pings_bounded_parts [OF assms] by blast

lemma pings_bounded_witness:
  "\<exists>cfg w. initializeAsync ''6'' sample_user sample_start = Inr (Some (cfg, w)) \<and>
     5000 * (pings (run_events cfg [(11000, Timer_fires 1), (12000, Goes_hidden)] w) - 1) < mc_maxDuration cfg"
proof -
  obtain cfg w where w: "initializeAsync ''6'' sample_user sample_start = Inr (Some (cfg, w))" using sample_starts by blast
  have "cfg = normalised_config ''6'' sample_user"
    using w by (auto simp: initializeAsync_def Let_def split: if_splits prod.splits sum.splits)
  then have limit: "mc_maxDuration cfg \<noteq> 0" by (simp add: normalised_config_def sample_user_def js_nullish_def MIN_HEARTBEAT_MAX_DURATION_def)
  have "calm cfg [(11000, Timer_fires 1), (12000, Goes_hidden)] w" by simp
  moreover have "sorted (pe_now (ps_env sample_start) # map fst [(11000 :: int, Timer_fires 1), (12000, Goes_hidden)] @ [12000])"
    by (simp add: sample_start_def)
  moreover have "uc_resetOnNavigation sample_user \<noteq> Some True" by (simp add: sample_user_def)
  ultimately show ?thesis using pings_bounded [OF w limit] w by blast
qed

subsection \<open>What a reader would not expect\<close>

lemma second_return_doubles_heartbeat_parts:
  assumes "hs_isActive (tk_hb w)" "\<not> tk_paused w" "\<not> hs_maxDurationReached (tk_hb w)"
    and "hs_accumulatedActiveMs (tk_hb w) < mc_maxDuration cfg"
    and "getCurrentInterval cfg now (hb_update (\<lambda>h. h\<lparr>hs_activeStartTime := now, hs_pageStartTime := now, hs_isActive := True,
           hs_lastPingTime := now\<rparr>) w) = Some i" "0 \<le> i"
    and "w' = handle cfg now Window_focus w"
  shows "tk_timers w' = tk_timers w @ [\<lparr>tm_id = tk_next_timer w, tm_due = now + i, tm_kind = Heartbeat_timer\<rparr>]"
    and "getTotalActiveMs now (tk_hb w') = getTotalActiveMs now (tk_hb w) - (now - hs_activeStartTime (tk_hb w))"
    and "tk_timers (stopHeartbeat True now w') = filter (\<lambda>t. tm_id t \<noteq> tk_next_timer w) (tk_timers w)"
proof -
  have "getCurrentInterval cfg now (w\<lparr>tk_flushed := False, tk_hb := h\<rparr>) = getCurrentInterval cfg now (w\<lparr>tk_hb := h\<rparr>)" for h
    by (simp add: getCurrentInterval_def)
  then have w': "tk_timers w' = tk_timers w @ [\<lparr>tm_id = tk_next_timer w, tm_due = now + i, tm_kind = Heartbeat_timer\<rparr>] \<and>
      tk_hbTimeout w' = Some (tk_next_timer w) \<and>
      tk_hb w' = (tk_hb w)\<lparr>hs_activeStartTime := now, hs_pageStartTime := now, hs_isActive := True, hs_lastPingTime := now\<rparr>"
    using assms by (simp add: onFocus_def comes_back_def Let_def resumeHeartbeat_def scheduleNextHeartbeat_def
        checkAndUpdateMaxDuration_def getTotalActiveMs_def set_timeout_def)
  then show "tk_timers w' = tk_timers w @ [\<lparr>tm_id = tk_next_timer w, tm_due = now + i, tm_kind = Heartbeat_timer\<rparr>]"
    and "getTotalActiveMs now (tk_hb w') = getTotalActiveMs now (tk_hb w) - (now - hs_activeStartTime (tk_hb w))"
    using assms(1) by (simp_all add: getTotalActiveMs_def)
  show "tk_timers (stopHeartbeat True now w') = filter (\<lambda>t. tm_id t \<noteq> tk_next_timer w) (tk_timers w)"
    using w' by (auto intro!: filter_cong)
qed



lemma hand_over_appends: "\<exists>p. tk_sent (hand_over how cfg now w) = tk_sent w @ [(how, p)]"
  using hand_over_sent by blast

lemma paused_frame [simp]:
  "tk_paused (hand_over how cfg now w) = tk_paused w" "tk_paused (scroll_into_state w) = tk_paused w"
  "tk_paused (scheduleDebouncedSend now w) = tk_paused w"
  by (simp_all add: hand_over_def scroll_into_state_def scheduleDebouncedSend_def set_timeout_def clear_timeout_def Let_def
      split: prod.split option.split)

lemma debounced_timer:
  "\<exists>earlier. tk_timers (scheduleDebouncedSend now w) =
      earlier @ [\<lparr>tm_id = tk_next_timer w, tm_due = now + 100, tm_kind = Send_timer\<rparr>] \<and> set earlier \<subseteq> set (tk_timers w)"
  by (auto simp: scheduleDebouncedSend_def set_timeout_def clear_timeout_def SEND_DEBOUNCE_MS_def Let_def split: option.split)

lemma find_last: "\<forall>x \<in> set xs. \<not> P x \<Longrightarrow> P y \<Longrightarrow> find P (xs @ [y]) = Some y"
  by (induction xs) auto

lemma paused_tracker_sends_parts:
  assumes "tk_paused w" "\<forall>t \<in> set (tk_timers w). tm_id t < tk_next_timer w" "\<not> mc_resetOnNavigation cfg"
  shows "\<exists>i p. tk_paused (run_events cfg [(now, Navigated href path), (now + 100, Timer_fires i)] w) \<and>
      tk_sent (run_events cfg [(now, Navigated href path), (now + 100, Timer_fires i)] w) = tk_sent w @ [(By_send, p)]"
    and "\<exists>p. tk_paused (handle cfg now (Track_goal name value properties) w) \<and>
      tk_sent (handle cfg now (Track_goal name value properties) w) = tk_sent w @ [(By_send, p)]"
    and "\<not> tk_flushed w \<Longrightarrow> \<exists>p. tk_sent (handle cfg now Goes_hidden w) = tk_sent w @ [(By_beacon, p)]"
proof -
  define v where "v = resetPageActiveTime now (reset_scroll (open_page now path (scroll_into_state (w\<lparr>tk_href := href\<rparr>))))"
  have v: "tk_next_timer v = tk_next_timer w" "tk_timers v = tk_timers w" "tk_sent v = tk_sent w" "tk_paused v"
    using assms(1) by (simp_all add: v_def resetPageActiveTime_def reset_scroll_def open_page_def)
  define u where "u = handle cfg now (Navigated href path) w"
  have u: "u = persist_state (scheduleDebouncedSend now v)" using assms(3) by (simp add: u_def v_def onNavigation_def Let_def)
  have nav: "onNavigation cfg now path (w\<lparr>tk_href := href\<rparr>) = u" by (simp add: u_def)
  obtain earlier where e: "tk_timers u = earlier @ [\<lparr>tm_id = tk_next_timer w, tm_due = now + 100, tm_kind = Send_timer\<rparr>]"
      "set earlier \<subseteq> set (tk_timers w)"
    using debounced_timer [of now v] v by (auto simp: u persist_state_def)
  have "find (\<lambda>t. tm_id t = tk_next_timer w) (tk_timers u) = Some \<lparr>tm_id = tk_next_timer w, tm_due = now + 100, tm_kind = Send_timer\<rparr>"
    unfolding e(1) by (rule find_last) (use e(2) assms(2) in fastforce, simp)
  then have "handle cfg (now + 100) (Timer_fires (tk_next_timer w)) u =
      hand_over By_send cfg (now + 100) ((clear_timeout (tk_next_timer w) u)\<lparr>tk_debounce := None\<rparr>)"
    by (simp add: timer_fires_main_def sendPayload_def)
  moreover have "tk_paused u" "tk_sent u = tk_sent w" using v by (simp_all add: u persist_state_def)
  ultimately show "\<exists>i p. tk_paused (run_events cfg [(now, Navigated href path), (now + 100, Timer_fires i)] w) \<and>
      tk_sent (run_events cfg [(now, Navigated href path), (now + 100, Timer_fires i)] w) = tk_sent w @ [(By_send, p)]"
    using hand_over_appends [of By_send cfg "now + 100" "(clear_timeout (tk_next_timer w) u)\<lparr>tk_debounce := None\<rparr>"]
    by (intro exI [of _ "tk_next_timer w"]) (simp add: run_events_def nav clear_timeout_def)
  define g where "g = w\<lparr>tk_state := snd (addGoal now name value properties (tk_state w))\<rparr>"
  define g' where "g' = (case tk_debounce g of None \<Rightarrow> g | Some i \<Rightarrow> (clear_timeout i g)\<lparr>tk_debounce := None\<rparr>)"
  have "handle cfg now (Track_goal name value properties) w = hand_over By_send cfg now g'"
    by (simp add: trackGoal_def Let_def sendPayload_def g_def g'_def split: option.split)
  moreover have "tk_paused g'" "tk_sent g' = tk_sent w" using assms(1) by (simp_all add: g'_def g_def clear_timeout_def split: option.split)
  ultimately show "\<exists>p. tk_paused (handle cfg now (Track_goal name value properties) w) \<and>
      tk_sent (handle cfg now (Track_goal name value properties) w) = tk_sent w @ [(By_send, p)]"
    using hand_over_appends [of By_send cfg now g'] by simp
  define z where "z = scroll_into_state ((stopHeartbeat True now (w\<lparr>tk_visible := False\<rparr>))\<lparr>tk_flushed := True\<rparr>)"
  assume "\<not> tk_flushed w"
  then have "handle cfg now Goes_hidden w = persist_state (hand_over By_beacon cfg now
      (z\<lparr>tk_state := finalizeForUnload (Some (getPageActiveMs now (tk_hb z))) now (tk_state z)\<rparr>))"
    by (simp add: onVisibilityChange_def goes_away_def flushOnce_def Let_def z_def)
  then show "\<exists>p. tk_sent (handle cfg now Goes_hidden w) = tk_sent w @ [(By_beacon, p)]"
    using hand_over_appends [of By_beacon cfg now "z\<lparr>tk_state := finalizeForUnload (Some (getPageActiveMs now (tk_hb z))) now (tk_state z)\<rparr>"]
    by (simp add: persist_state_def z_def)
qed



end
