(* ===== verification/Sso.thy ===== *)
theory Sso
  imports Invitations Ssrf_Guard
begin

section \<open>Single sign-on from the Hub\<close>

text \<open>
  \<^verbatim>\<open>api/src/sso/sso.service.ts\<close> and \<^verbatim>\<open>guards/hub-hmac.guard.ts\<close>. The table of tokens is kept as its
  query with \<open>FINAL\<close> shows it, keyed by the hash of the token, its sorting key. A consumption has three points where
  other requests may come between: after its reads, after the write that burns the token, and after the session. Hashing, the
  random tokens and the keyed hash (\<open>crypto\<close>) are arguments.
\<close>

subsection \<open>The signature of the Hub\<close>

text \<open>A request: its headers (a repeated header shows its first value) and the text of its body, if kept.\<close>

record hub_request =
  hr_timestamp :: "string option"
  hr_signature :: "string option"
  hr_raw_body :: "string option"

(* src: api/src/sso/guards/hub-hmac.guard.ts:49-49 MAX_DRIFT_MS *)
definition MAX_DRIFT_MS :: int where
  "MAX_DRIFT_MS = 5 * 60 * 1000"

(* src: api/src/sso/guards/hub-hmac.guard.ts:119-127 resolveSecret *)
definition resolveSecret :: "string option list \<Rightarrow> string" where
  "resolveSecret candidates = (case List.find js_truthy candidates of Some (Some s) \<Rightarrow> s | _ \<Rightarrow> [])"

text \<open>\<open>crypto.timingSafeEqual\<close> on buffers of one length, without a shortcut.\<close>

definition timing_safe_equal :: "string \<Rightarrow> string \<Rightarrow> bool" where
  "timing_safe_equal a b \<longleftrightarrow> fold (\<lambda>(x, y) ok. (x = y) \<and> ok) (zip a b) True"

(* src: api/src/sso/guards/hub-hmac.guard.ts:144-159 timingSafeStringEqual *)
definition timingSafeStringEqual :: "string \<Rightarrow> string \<Rightarrow> bool" where
  "timingSafeStringEqual presented expected =
     (let padded = take (length expected) presented @ replicate (length expected - length presented) (CHR 0x00);
          lengthsMatch = (length presented = length expected);
          contentsMatch = timing_safe_equal padded expected
      in lengthsMatch \<and> contentsMatch)"

(* src: api/src/sso/guards/hub-hmac.guard.ts:53-110 canActivate *)
definition hub_guard :: "(string \<Rightarrow> string \<Rightarrow> string) \<Rightarrow> string option list \<Rightarrow> int \<Rightarrow> hub_request \<Rightarrow> http_error + unit" where
  "hub_guard hmac candidates now r =
     (let secret = resolveSecret candidates
      in if secret = [] then Inl (Unauthorized ''SSO endpoint not configured'')
         else if \<not> js_truthy (hr_timestamp r) \<or> \<not> js_truthy (hr_signature r) then Inl (Unauthorized ''Missing signature headers'')
         else case js_parse_int (the (hr_timestamp r)) of
                None \<Rightarrow> Inl (Unauthorized ''Invalid signature'')
              | Some t \<Rightarrow>
                  if t \<le> 0 then Inl (Unauthorized ''Invalid signature'')
                  else if MAX_DRIFT_MS < \<bar>now - t\<bar> then Inl (Unauthorized ''Invalid signature'')
                  else case hr_raw_body r of
                         None \<Rightarrow> Inl (Unauthorized ''Invalid signature'')
                       | Some body \<Rightarrow>
                           if timingSafeStringEqual (the (hr_signature r)) (hmac secret (js_of_int t @ ''.'' @ body))
                           then Inr () else Inl (Unauthorized ''Invalid signature''))"

subsection \<open>Tokens\<close>

(* src: api/src/sso/sso.service.ts:24-36 SsoTokenRow *)
record sso_row =
  sw_id :: string
  sw_token_hash :: string
  sw_user_id :: string
  sw_workspace_id :: string
  sw_used :: bool
  sw_issued_to :: string
  sw_expires_at :: int
  sw_consumed_at :: "int option"
  sw_consumed_ip :: string
  sw_created_at :: int
  sw_updated_at :: int

(* src: api/src/sso/sso.service.ts:22-22 SSO_TOKEN_TTL_MS *)
definition SSO_TOKEN_TTL_MS :: int where
  "SSO_TOKEN_TTL_MS = 2 * 60 * 1000"

(* src: api/src/sso/sso.service.ts:38-42 IssueTokenInput *)
record issue_input =
  ii_email :: "string option"
  ii_hub_user :: "string option"
  ii_workspace :: "string option"

text \<open>The stages of a consumption under way.\<close>

datatype consumption = Checked sso_row user | Burnt sso_row user

text \<open>
  \<open>so_opened\<close> lists the sessions opened, with the row and the user they were opened for. \<open>so_issued\<close> records, for
  the statements only, what each token was issued for.
\<close>

record sso_state =
  so_tenancy :: tenancy
  so_rows :: "(string \<times> sso_row) list"
  so_under_way :: "consumption list"
  so_opened :: "(string \<times> sso_row \<times> user) list"
  so_issued :: "(string \<times> user \<times> string \<times> int \<times> tenancy) list"
  so_audit :: "(string \<times> string \<times> string) list"

definition sso_accounts :: "sso_state \<Rightarrow> accounts" where
  "sso_accounts s = au_accounts (tn_auth (so_tenancy s))"

(* src: api/src/sso/sso.service.ts:366-379 isWorkspaceMember *)
definition isWorkspaceMember :: "tenancy \<Rightarrow> string \<Rightarrow> string \<Rightarrow> bool" where
  "isWorkspaceMember t userId workspaceId \<longleftrightarrow>
     0 < length (filter (\<lambda>(k, m). mb_user_id m = userId \<and> mb_workspace_id m = workspaceId) (tn_members t))"

fun text_before :: "string \<Rightarrow> string \<Rightarrow> bool" where
  "text_before [] t = True"
| "text_before (c # s) [] = False"
| "text_before (c # s) (d # t) =
     ((of_char c :: nat) < of_char d \<or> (c = d \<and> text_before s t))"

(* src: api/src/sso/sso.service.ts:381-394 getFirstWorkspaceForUser *)
definition getFirstWorkspaceForUser :: "tenancy \<Rightarrow> string \<Rightarrow> string option" where
  "getFirstWorkspaceForUser t userId =
     (case map (mb_workspace_id \<circ> snd) (filter (\<lambda>(k, m). mb_user_id m = userId) (tn_members t)) of
        [] \<Rightarrow> None
      | w # ws \<Rightarrow> (let first = fold (\<lambda>v best. if text_before best v then best else v) ws w in if first = [] then None else Some first))"


subsection \<open>Issuing\<close>

definition issue_refused :: http_error where
  "issue_refused = Unauthorized ''Unable to issue SSO token''"

definition sso_refused :: http_error where
  "sso_refused = Unauthorized ''Invalid or expired SSO token''"

text \<open>Whom and which workspace a request for a token is about.\<close>

definition issue_target :: "tenancy \<Rightarrow> issue_input \<Rightarrow> http_error + user \<times> string" where
  "issue_target t i =
     (if \<not> js_truthy (ii_email i) then Inl issue_refused
      else case findByEmail (au_accounts (tn_auth t)) (the (ii_email i)) of
          None \<Rightarrow> Inl issue_refused
        | Some u \<Rightarrow>
            if us_status u \<noteq> U_active then Inl issue_refused
            else if js_truthy (ii_workspace i)
            then (if isWorkspaceMember t (us_id u) (the (ii_workspace i)) then Inr (u, the (ii_workspace i)) else Inl issue_refused)
            else (case getFirstWorkspaceForUser t (us_id u) of None \<Rightarrow> Inl issue_refused | Some w \<Rightarrow> Inr (u, w)))"

(* src: api/src/sso/sso.service.ts:359-364 buildAutologinUrl *)
definition buildAutologinUrl :: "string option \<Rightarrow> string \<Rightarrow> string" where
  "buildAutologinUrl app_url token =
     rev (dropWhile (\<lambda>c. c = CHR ''/'') (rev (js_nullish app_url ''http://localhost:5173''))) @ ''/sso#'' @ token"

(* src: api/src/sso/sso.service.ts:117-222 issueToken *)
definition issueToken ::
    "string option \<Rightarrow> int \<Rightarrow> string \<Rightarrow> string \<times> string \<Rightarrow> issue_input \<Rightarrow> sso_state \<Rightarrow> (http_error + string \<times> int) \<times> sso_state" where
  "issueToken app_url now new_id token_and_hash i s =
     (case issue_target (so_tenancy s) i of
        Inl e \<Rightarrow> (Inl e, s)
      | Inr (u, w) \<Rightarrow>
          (case token_and_hash of (token, hash) \<Rightarrow>
             let row = \<lparr>sw_id = new_id, sw_token_hash = hash, sw_user_id = us_id u, sw_workspace_id = w, sw_used = False,
                   sw_issued_to = js_nullish (ii_hub_user i) [], sw_expires_at = now + SSO_TOKEN_TTL_MS, sw_consumed_at = None,
                   sw_consumed_ip = [], sw_created_at = now, sw_updated_at = now\<rparr>
             in (Inr (buildAutologinUrl app_url token, SSO_TOKEN_TTL_MS div 1000),
                 s\<lparr>so_rows := AList.update hash row (so_rows s), so_issued := so_issued s @ [(hash, u, w, now, so_tenancy s)],
                   so_audit := so_audit s @ [(''sso.token_issued'', us_id u, w)]\<rparr>)))"

subsection \<open>Consuming\<close>

(* src: api/src/sso/sso.service.ts:245-303 consume *)
definition consume_check :: "(string \<Rightarrow> string) \<Rightarrow> int \<Rightarrow> string \<Rightarrow> sso_state \<Rightarrow> http_error + sso_row \<times> user" where
  "consume_check hash now raw s =
     (if raw = [] then Inl sso_refused
      else case map_of (so_rows s) (hash raw) of
          None \<Rightarrow> Inl sso_refused
        | Some row \<Rightarrow>
            if sw_used row \<or> sw_consumed_at row \<noteq> None then Inl sso_refused
            else if sw_expires_at row < now then Inl sso_refused
            else (case findUserById (sso_accounts s) (sw_user_id row) of
                    None \<Rightarrow> Inl sso_refused
                  | Some u \<Rightarrow> if us_status u \<noteq> U_active then Inl sso_refused else Inr (row, u)))"

(* src: api/src/sso/sso.service.ts:308-317 consume *)
definition consume_burn :: "int \<Rightarrow> string option \<Rightarrow> sso_row \<Rightarrow> sso_state \<Rightarrow> sso_state" where
  "consume_burn now ip row s =
     s\<lparr>so_rows := AList.update (sw_token_hash row)
         (row\<lparr>sw_used := True, sw_consumed_at := Some now, sw_consumed_ip := js_nullish ip [], sw_updated_at := now\<rparr>) (so_rows s)\<rparr>"

(* src: api/src/sso/sso.service.ts:49-58 ConsumeTokenResult *)
record sso_answer =
  sa_token :: jwt_payload
  sa_user_id :: string
  sa_email :: string
  sa_name :: string
  sa_super_admin :: bool
  sa_workspace :: "string option"

(* src: api/src/sso/sso.service.ts:319-345 consume *)
definition consume_open ::
    "int \<Rightarrow> string \<Rightarrow> string \<Rightarrow> string option \<Rightarrow> string option \<Rightarrow> sso_row \<Rightarrow> user \<Rightarrow> sso_state \<Rightarrow> sso_answer \<times> sso_state" where
  "consume_open now sid session_hash ip ua row u s =
     (case issueSessionForUser now sid session_hash (us_id u) (us_email u) ip ua (tn_auth (so_tenancy s)) of
        (jwt, auth) \<Rightarrow>
          (\<lparr>sa_token = jwt, sa_user_id = us_id u, sa_email = us_email u, sa_name = us_name u, sa_super_admin = us_is_super_admin u,
            sa_workspace = (if sw_workspace_id row = [] then None else Some (sw_workspace_id row))\<rparr>,
           s\<lparr>so_tenancy := (so_tenancy s)\<lparr>tn_auth := auth\<rparr>, so_opened := so_opened s @ [(sid, row, u)],
             so_audit := so_audit s @ [(''sso.token_consumed'', us_id u, sw_workspace_id row)]\<rparr>))"

definition consume ::
    "(string \<Rightarrow> string) \<Rightarrow> int \<Rightarrow> string \<Rightarrow> string \<Rightarrow> string \<Rightarrow> string option \<Rightarrow> string option \<Rightarrow> sso_state \<Rightarrow>
       (http_error + sso_answer) \<times> sso_state" where
  "consume hash now raw sid session_hash ip ua s =
     (case consume_check hash now raw s of
        Inl e \<Rightarrow> (Inl e, s)
      | Inr (row, u) \<Rightarrow> (case consume_open now sid session_hash ip ua row u (consume_burn now ip row s) of (a, s1) \<Rightarrow> (Inr a, s1)))"

subsection \<open>Requests that interleave\<close>

text \<open>
  Between two steps any other part of the application may change the shared tables. A new token has a hash that no row has. A
  consumption may stop after any step (the process dies); it then simply never takes the next.
\<close>

inductive sso_step :: "(string \<Rightarrow> string) \<Rightarrow> sso_state \<Rightarrow> sso_state \<Rightarrow> bool" for hash where
  issues: "snd token \<notin> fst ` set (so_rows s) \<Longrightarrow> sso_step hash s (snd (issueToken app_url now new_id token i s))"
| checks: "consume_check hash now raw s = Inr (row, u) \<Longrightarrow> sso_step hash s (s\<lparr>so_under_way := Checked row u # so_under_way s\<rparr>)"
| burns: "Checked row u \<in> set (so_under_way s) \<Longrightarrow>
     sso_step hash s ((consume_burn now ip row s)\<lparr>so_under_way := Burnt row u # remove1 (Checked row u) (so_under_way s)\<rparr>)"
| opens: "Burnt row u \<in> set (so_under_way s) \<Longrightarrow>
     sso_step hash s ((snd (consume_open now sid session_hash ip ua row u s))\<lparr>so_under_way := remove1 (Burnt row u) (so_under_way s)\<rparr>)"
| others: "sso_step hash s (s\<lparr>so_tenancy := t\<rparr>)"

inductive sso_steps :: "(string \<Rightarrow> string) \<Rightarrow> sso_state \<Rightarrow> sso_state \<Rightarrow> bool" for hash where
  here: "sso_steps hash s s"
| later: "sso_steps hash s s1 \<Longrightarrow> sso_step hash s1 s2 \<Longrightarrow> sso_steps hash s s2"

inductive_cases sso_stepE: "sso_step hash s s'"

definition fresh_sso :: "tenancy \<Rightarrow> sso_state" where
  "fresh_sso t = \<lparr>so_tenancy = t, so_rows = [], so_under_way = [], so_opened = [], so_issued = [], so_audit = []\<rparr>"

subsection \<open>The guard\<close>

lemma timing_safe_equal_iff: "length a = length b \<Longrightarrow> timing_safe_equal a b \<longleftrightarrow> a = b"
proof -
  have gen: "fold (\<lambda>(x, y) ok. x = y \<and> ok) (zip a b) acc \<longleftrightarrow> acc \<and> a = b" if "length a = length b" for acc
    using that by (induction a b arbitrary: acc rule: list_induct2) auto
  assume "length a = length b"
  then show ?thesis using gen [of True] by (simp add: timing_safe_equal_def)
qed

lemma timingSafeStringEqual_iff: "timingSafeStringEqual a b \<longleftrightarrow> a = b"
proof (cases "length a = length b")
  case True
  then show ?thesis using timing_safe_equal_iff [of a b] by (simp add: timingSafeStringEqual_def Let_def)
next
  case False
  then show ?thesis by (auto simp: timingSafeStringEqual_def Let_def)
qed

lemma resolveSecret_Nil: "resolveSecret cs = [] \<longleftrightarrow> (\<forall>c \<in> set cs. \<not> js_truthy c)"
  by (induction cs) (auto simp: resolveSecret_def js_truthy_def split: option.splits)

lemma hub_guard_accepts:
  "hub_guard hmac candidates now r = Inr () \<longleftrightarrow>
     resolveSecret candidates \<noteq> [] \<and>
     (\<exists>ts sig t body. hr_timestamp r = Some ts \<and> ts \<noteq> [] \<and> hr_signature r = Some sig \<and> sig \<noteq> [] \<and> js_parse_int ts = Some t \<and> 0 < t \<and>
        \<bar>now - t\<bar> \<le> MAX_DRIFT_MS \<and> hr_raw_body r = Some body \<and>
        sig = hmac (resolveSecret candidates) (js_of_int t @ ''.'' @ body))"
proof (cases "resolveSecret candidates = [] \<or> \<not> js_truthy (hr_timestamp r) \<or> \<not> js_truthy (hr_signature r)")
  case True
  then show ?thesis by (auto simp: hub_guard_def Let_def js_truthy_def)
next
  case False
  then obtain ts sig where "hr_timestamp r = Some ts" "ts \<noteq> []" "hr_signature r = Some sig" "sig \<noteq> []"
    by (auto simp: js_truthy_def split: option.splits)
  with False show ?thesis
    by (cases "js_parse_int ts"; cases "hr_raw_body r") (simp_all add: hub_guard_def timingSafeStringEqual_iff not_le)
qed

lemma hub_guard_exact_parts:
  shows "hub_guard hmac candidates now r = Inr () \<longleftrightarrow>
     resolveSecret candidates \<noteq> [] \<and>
     (\<exists>ts sig t body. hr_timestamp r = Some ts \<and> ts \<noteq> [] \<and> hr_signature r = Some sig \<and> sig \<noteq> [] \<and> js_parse_int ts = Some t \<and> 0 < t \<and>
        \<bar>now - t\<bar> \<le> MAX_DRIFT_MS \<and> hr_raw_body r = Some body \<and>
        sig = hmac (resolveSecret candidates) (js_of_int t @ ''.'' @ body))"
    and "hub_guard hmac candidates now r = Inr () \<Longrightarrow> hub_guard hmac candidates later r = Inr () \<Longrightarrow> \<bar>later - now\<bar> \<le> 2 * MAX_DRIFT_MS"
    and "hub_guard hmac candidates now r = Inr () \<Longrightarrow> js_parse_int (the (hr_timestamp r)) = Some (now + MAX_DRIFT_MS) \<Longrightarrow>
      hub_guard hmac candidates (now + 2 * MAX_DRIFT_MS) r = Inr ()"
proof (rule hub_guard_accepts)
  have window: "\<exists>t. js_parse_int (the (hr_timestamp r)) = Some t \<and> \<bar>nw - t\<bar> \<le> MAX_DRIFT_MS"
    if "hub_guard hmac candidates nw r = Inr ()" for nw
    using that unfolding hub_guard_accepts by force
  have moved: "hub_guard hmac candidates later r = Inr ()"
    if "hub_guard hmac candidates nw r = Inr ()" "js_parse_int (the (hr_timestamp r)) = Some t" "\<bar>later - t\<bar> \<le> MAX_DRIFT_MS" for nw later t
    using that unfolding hub_guard_accepts by force
  show "hub_guard hmac candidates now r = Inr () \<Longrightarrow> hub_guard hmac candidates later r = Inr () \<Longrightarrow> \<bar>later - now\<bar> \<le> 2 * MAX_DRIFT_MS"
    using window [of now] window [of later] by force
  show "hub_guard hmac candidates now r = Inr () \<Longrightarrow> js_parse_int (the (hr_timestamp r)) = Some (now + MAX_DRIFT_MS) \<Longrightarrow>
      hub_guard hmac candidates (now + 2 * MAX_DRIFT_MS) r = Inr ()"
    using moved [of now "now + MAX_DRIFT_MS" "now + 2 * MAX_DRIFT_MS"] by (simp add: MAX_DRIFT_MS_def)
qed

text \<open>
  The guard of the Hub's route lets a request pass exactly if a secret is configured and the signature is the keyed hash of the
  body and of a timestamp within five minutes of the clock. One signature passes at most ten minutes long; and it does pass that
  long, if its timestamp was five minutes ahead when it was first used.
\<close>
theorem hub_guard_exact:
  shows "(hub_guard hmac candidates now r = Inr () \<longleftrightarrow>
      resolveSecret candidates \<noteq> [] \<and>
      (\<exists>ts sig t body. hr_timestamp r = Some ts \<and> ts \<noteq> [] \<and> hr_signature r = Some sig \<and> sig \<noteq> [] \<and> js_parse_int ts = Some t \<and> 0 < t \<and>
         \<bar>now - t\<bar> \<le> MAX_DRIFT_MS \<and> hr_raw_body r = Some body \<and>
         sig = hmac (resolveSecret candidates) (js_of_int t @ ''.'' @ body))) \<and>
    (hub_guard hmac candidates now r = Inr () \<longrightarrow> hub_guard hmac candidates later r = Inr () \<longrightarrow> \<bar>later - now\<bar> \<le> 2 * MAX_DRIFT_MS) \<and>
    (hub_guard hmac candidates now r = Inr () \<longrightarrow> js_parse_int (the (hr_timestamp r)) = Some (now + MAX_DRIFT_MS) \<longrightarrow>
      hub_guard hmac candidates (now + 2 * MAX_DRIFT_MS) r = Inr ())"
  by (intro conjI impI hub_guard_exact_parts)

lemma hub_guard_exact_witness:
  "hub_guard (\<lambda>k m. ''h'' @ k) [None, Some ''key''] 1000
     \<lparr>hr_timestamp = Some ''301000'', hr_signature = Some ''hkey'', hr_raw_body = Some ''{}''\<rparr> = Inr () \<and>
   hub_guard (\<lambda>k m. ''h'' @ k) [None, Some ''key''] 601000
     \<lparr>hr_timestamp = Some ''301000'', hr_signature = Some ''hkey'', hr_raw_body = Some ''{}''\<rparr> = Inr ()"
proof -
  let ?r = "\<lparr>hr_timestamp = Some ''301000'', hr_signature = Some ''hkey'', hr_raw_body = Some ''{}''\<rparr>"
  have d: "digits_value ''301000'' = 301000" by (simp add: digits_value_def)
  have p: "js_parse_int ''301000'' = Some 301000" "resolveSecret [None, Some ''key''] = ''key''"
    using d by (simp_all add: js_parse_int_def js_space_def js_starts_with_def is_digit_def resolveSecret_def)
  have one: "hub_guard (\<lambda>k m. ''h'' @ k) [None, Some ''key''] 1000 ?r = Inr ()"
    by (subst hub_guard_accepts) (simp add: p MAX_DRIFT_MS_def)
  moreover have "hub_guard (\<lambda>k m. ''h'' @ k) [None, Some ''key''] (1000 + 2 * MAX_DRIFT_MS) ?r = Inr ()"
    using hub_guard_exact [of "\<lambda>k m. ''h'' @ k" "[None, Some ''key'']" 1000 ?r] one p by (simp add: MAX_DRIFT_MS_def)
  ultimately show ?thesis by (simp add: MAX_DRIFT_MS_def)
qed


subsection \<open>Refusals\<close>

lemma sso_refusals_uniform_parts:
  shows "fst (issueToken app_url now new_id token i s) = Inl e \<Longrightarrow> e = issue_refused \<and> snd (issueToken app_url now new_id token i s) = s"
    and "fst (consume hash now raw sid session_hash ip ua s) = Inl e \<Longrightarrow>
      e = sso_refused \<and> snd (consume hash now raw sid session_hash ip ua s) = s"
proof -
  have target: "issue_target t i = Inl e' \<Longrightarrow> e' = issue_refused" for t e'
    by (auto simp: issue_target_def split: option.splits if_splits)
  have checked: "consume_check hash now raw s = Inl e' \<Longrightarrow> e' = sso_refused" for e'
    by (auto simp: consume_check_def split: option.splits if_splits)
  show "fst (issueToken app_url now new_id token i s) = Inl e \<Longrightarrow> e = issue_refused \<and> snd (issueToken app_url now new_id token i s) = s"
    using target by (cases "issue_target (so_tenancy s) i") (auto simp: issueToken_def Let_def split: prod.splits)
  show "fst (consume hash now raw sid session_hash ip ua s) = Inl e \<Longrightarrow>
      e = sso_refused \<and> snd (consume hash now raw sid session_hash ip ua s) = s"
    using checked by (cases "consume_check hash now raw s") (auto simp: consume_def split: prod.splits)
qed

text \<open>
  Whatever the reason, a request for a token and a token presented are refused with one and the same error each, and leave the
  state as it was.
\<close>
theorem sso_refusals_uniform:
  shows "(\<forall>e. fst (issueToken app_url now new_id token i s) = Inl e \<longrightarrow>
      e = issue_refused \<and> snd (issueToken app_url now new_id token i s) = s) \<and>
    (\<forall>e. fst (consume hash now raw sid session_hash ip ua s) = Inl e \<longrightarrow>
      e = sso_refused \<and> snd (consume hash now raw sid session_hash ip ua s) = s)"
  using sso_refusals_uniform_parts by blast

subsection \<open>Every session was asked for\<close>

text \<open>
  The row of a token stands under its hash and goes back to an issue: to a user who was then active and a member of the row's
  workspace.
\<close>

definition row_issued :: "sso_state \<Rightarrow> sso_row \<Rightarrow> bool" where
  "row_issued s row \<longleftrightarrow> (\<exists>u t0 t. (sw_token_hash row, u, sw_workspace_id row, t0, t) \<in> set (so_issued s) \<and> us_id u = sw_user_id row \<and>
     us_status u = U_active \<and> (\<exists>m \<in> snd ` set (tn_members t). mb_user_id m = us_id u \<and> mb_workspace_id m = sw_workspace_id row) \<and>
     sw_expires_at row = t0 + SSO_TOKEN_TTL_MS)"

primrec consumed_row :: "consumption \<Rightarrow> sso_row \<times> user" where
  "consumed_row (Checked r u) = (r, u)"
| "consumed_row (Burnt r u) = (r, u)"

definition checked_ok :: "sso_state \<Rightarrow> sso_row \<times> user \<Rightarrow> bool" where
  "checked_ok s = (\<lambda>(row, u). row_issued s row \<and> us_id u = sw_user_id row \<and> us_status u = U_active)"

definition sso_ok :: "sso_state \<Rightarrow> bool" where
  "sso_ok s \<longleftrightarrow> (\<forall>(h, row) \<in> set (so_rows s). sw_token_hash row = h \<and> row_issued s row) \<and>
     (\<forall>c \<in> set (so_under_way s). checked_ok s (consumed_row c)) \<and> (\<forall>(sid, ru) \<in> set (so_opened s). checked_ok s ru)"

lemma member_of_first:
  "getFirstWorkspaceForUser t uid = Some w \<Longrightarrow> \<exists>m \<in> snd ` set (tn_members t). mb_user_id m = uid \<and> mb_workspace_id m = w"
proof -
  have pick: "fold (\<lambda>v best. if text_before best v then best else v) ws w0 \<in> insert w0 (set ws)" for ws w0
    by (induction ws arbitrary: w0) fastforce+
  assume g: "getFirstWorkspaceForUser t uid = Some w"
  then obtain w0 ws where "map (mb_workspace_id \<circ> snd) (filter (\<lambda>(k, m). mb_user_id m = uid) (tn_members t)) = w0 # ws"
      "w = fold (\<lambda>v best. if text_before best v then best else v) ws w0"
    by (auto simp: getFirstWorkspaceForUser_def Let_def split: list.splits if_splits)
  then have "w \<in> set (map (mb_workspace_id \<circ> snd) (filter (\<lambda>(k, m). mb_user_id m = uid) (tn_members t)))"
    using pick [of ws w0] by simp
  then show ?thesis by force
qed

lemma issue_target_ok:
  assumes "issue_target t i = Inr (u, w)"
  shows "us_status u = U_active" "\<exists>m \<in> snd ` set (tn_members t). mb_user_id m = us_id u \<and> mb_workspace_id m = w"
proof -
  show "us_status u = U_active" using assms by (auto simp: issue_target_def split: if_splits option.splits)
  have "\<exists>m \<in> snd ` set (tn_members t). mb_user_id m = uid \<and> mb_workspace_id m = ws" if "isWorkspaceMember t uid ws" for uid ws
  proof -
    obtain k m where "(k, m) \<in> set (tn_members t)" "mb_user_id m = uid" "mb_workspace_id m = ws"
      using \<open>isWorkspaceMember t uid ws\<close> by (auto simp: isWorkspaceMember_def filter_empty_conv)
    then show ?thesis by force
  qed
  then show "\<exists>m \<in> snd ` set (tn_members t). mb_user_id m = us_id u \<and> mb_workspace_id m = w"
    using assms member_of_first by (auto simp: issue_target_def split: if_splits option.splits)
qed

lemma row_issued_mono: "row_issued s row \<Longrightarrow> set (so_issued s) \<subseteq> set (so_issued s') \<Longrightarrow> row_issued s' row"
  unfolding row_issued_def by blast

lemma check_ok:
  assumes "sso_ok s" "consume_check hash now raw s = Inr (row, u)"
  shows "checked_ok s (row, u)" "map_of (so_rows s) (hash raw) = Some row" "\<not> sw_used row" "now \<le> sw_expires_at row"
proof -
  have c: "map_of (so_rows s) (hash raw) = Some row \<and> \<not> sw_used row \<and> now \<le> sw_expires_at row \<and>
      findUserById (sso_accounts s) (sw_user_id row) = Some u \<and> us_status u = U_active"
    using assms(2) by (auto simp: consume_check_def split: if_splits option.splits)
  then show "map_of (so_rows s) (hash raw) = Some row" "\<not> sw_used row" "now \<le> sw_expires_at row" by simp_all
  have "us_id u = sw_user_id row" using c by (auto simp: findUserById_def find_Some_iff)
  moreover have "row_issued s row" using c assms(1) by (auto simp: sso_ok_def dest: map_of_SomeD)
  ultimately show "checked_ok s (row, u)" using c by (simp add: checked_ok_def)
qed

lemma update_rows: "set (AList.update k v rows) \<subseteq> insert (k, v) (set rows)"
  by (induction rows) auto

lemma checked_ok_issued: "so_issued s' = so_issued s \<Longrightarrow> checked_ok s' = checked_ok s" "so_issued s' = so_issued s \<Longrightarrow> row_issued s' = row_issued s"
  by (auto simp: checked_ok_def row_issued_def fun_eq_iff)

lemma sso_step_ok:
  assumes "sso_step hash s s'" "sso_ok s"
  shows "sso_ok s'"
  using assms(1)
proof (cases rule: sso_step.cases)
  case (issues token app_url now new_id i)
  show ?thesis
  proof (cases "issue_target (so_tenancy s) i")
    case (Inr uw)
    obtain u w tk h where e: "uw = (u, w)" "token = (tk, h)" by (cases uw; cases token)
    let ?s = "snd (issueToken app_url now new_id token i s)"
    have iss: "so_issued ?s = so_issued s @ [(h, u, w, now, so_tenancy s)]" using Inr e by (simp add: issueToken_def Let_def)
    have old: "row_issued s r \<Longrightarrow> row_issued ?s r" "checked_ok s ru \<Longrightarrow> checked_ok ?s ru" for r ru
      using row_issued_mono [of s _ ?s] iss by (auto simp: checked_ok_def)
    let ?row = "\<lparr>sw_id = new_id, sw_token_hash = h, sw_user_id = us_id u, sw_workspace_id = w, sw_used = False,
        sw_issued_to = js_nullish (ii_hub_user i) [], sw_expires_at = now + SSO_TOKEN_TTL_MS, sw_consumed_at = None,
        sw_consumed_ip = [], sw_created_at = now, sw_updated_at = now\<rparr>"
    have new: "row_issued ?s ?row"
      using issue_target_ok [of "so_tenancy s" i u w] Inr e unfolding row_issued_def iss by auto
    have rows: "\<forall>(hh, row) \<in> set (so_rows ?s). sw_token_hash row = hh \<and> row_issued ?s row"
    proof (intro ballI, clarify)
      fix hh row assume "(hh, row) \<in> set (so_rows ?s)"
      then consider "hh = h" "row = ?row" | "(hh, row) \<in> set (so_rows s)"
        using update_rows [of h ?row "so_rows s"] Inr e by (auto simp: issueToken_def Let_def)
      then show "sw_token_hash row = hh \<and> row_issued ?s row"
        using assms(2) old(1) new by cases (auto simp: sso_ok_def)
    qed
    have "so_under_way ?s = so_under_way s" "so_opened ?s = so_opened s" using Inr e by (simp_all add: issueToken_def Let_def)
    then show ?thesis using rows assms(2) old(2) unfolding issues(1) sso_ok_def by auto
  qed (use assms(2) issues in \<open>simp add: issueToken_def\<close>)
next
  case (checks now raw row u)
  have "checked_ok s (row, u)" using check_ok(1) [OF assms(2)] checks by blast
  moreover have "checked_ok s' = checked_ok s" "row_issued s' = row_issued s" by (rule checked_ok_issued; simp add: checks)+
  ultimately show ?thesis using assms(2) checks(1) by (simp add: sso_ok_def)
next
  case (burns row u now ip)
  let ?s = "(consume_burn now ip row s)\<lparr>so_under_way := Burnt row u # remove1 (Checked row u) (so_under_way s)\<rparr>"
  have iss: "checked_ok ?s = checked_ok s" "row_issued ?s = row_issued s"
    by (rule checked_ok_issued; simp add: consume_burn_def)+
  have c: "checked_ok s (row, u)" using assms(2) burns(2) unfolding sso_ok_def by fastforce
  let ?row = "row\<lparr>sw_used := True, sw_consumed_at := Some now, sw_consumed_ip := js_nullish ip [], sw_updated_at := now\<rparr>"
  from c have "row_issued s ?row"
    by (simp add: checked_ok_def row_issued_def)
  then have burnt: "row_issued s ?row" .
  have "sw_token_hash r = h \<and> row_issued s r" if mem: "(h, r) \<in> set (so_rows ?s)" for h r
  proof -
    consider "h = sw_token_hash row" "r = ?row" | "(h, r) \<in> set (so_rows s)"
      using mem update_rows [of "sw_token_hash row" ?row "so_rows s"] by (auto simp: consume_burn_def)
    then show ?thesis using burnt assms(2) by cases (auto simp: sso_ok_def)
  qed
  then have "\<forall>(h, r) \<in> set (so_rows ?s). sw_token_hash r = h \<and> row_issued s r" by blast
  then show ?thesis
    using assms(2) c unfolding burns(1) sso_ok_def iss by (auto simp: consume_burn_def dest: notin_set_remove1 [THEN contrapos_pp, rotated] intro: set_remove1_subset [THEN subsetD])
next
  case (opens row u now sid session_hash ip ua)
  let ?s = "(snd (consume_open now sid session_hash ip ua row u s))\<lparr>so_under_way := remove1 (Burnt row u) (so_under_way s)\<rparr>"
  have iss: "checked_ok ?s = checked_ok s" "row_issued ?s = row_issued s"
    by (rule checked_ok_issued; simp add: consume_open_def split: prod.split)+
  have c: "checked_ok s (row, u)" using assms(2) opens(2) unfolding sso_ok_def by fastforce
  have "so_rows ?s = so_rows s" "so_opened ?s = so_opened s @ [(sid, row, u)]" by (simp_all add: consume_open_def split: prod.split)
  then show ?thesis
    using assms(2) c set_remove1_subset [of "Burnt row u" "so_under_way s"] unfolding opens(1) sso_ok_def iss by auto
next
  case (others t)
  have "checked_ok s' = checked_ok s" "row_issued s' = row_issued s" by (rule checked_ok_issued; simp add: others)+
  then show ?thesis using assms(2) others by (simp add: sso_ok_def)
qed


lemma sso_steps_ok: "sso_steps hash s s' \<Longrightarrow> sso_ok s \<Longrightarrow> sso_ok s'"
  by (induction rule: sso_steps.induct) (auto intro: sso_step_ok)

lemma fresh_sso_ok: "sso_ok (fresh_sso t)"
  by (simp add: sso_ok_def fresh_sso_def)

lemma sso_session_justified_parts:
  assumes "sso_steps hash (fresh_sso t) s" "(sid, row, u) \<in> set (so_opened s)"
  shows "us_id u = sw_user_id row \<and> us_status u = U_active"
    and "\<exists>v t0 tn. (sw_token_hash row, v, sw_workspace_id row, t0, tn) \<in> set (so_issued s) \<and> us_id v = us_id u \<and> us_status v = U_active \<and>
      (\<exists>m \<in> snd ` set (tn_members tn). mb_user_id m = us_id u \<and> mb_workspace_id m = sw_workspace_id row)"
    and "consume_check hash now raw s = Inr (row', u') \<Longrightarrow>
      \<exists>v t0 tn. (hash raw, v, sw_workspace_id row', t0, tn) \<in> set (so_issued s) \<and> now \<le> t0 + 2 * 60 * 1000"
proof -
  have ok: "sso_ok s" using sso_steps_ok [OF assms(1) fresh_sso_ok] .
  then have c: "checked_ok s (row, u)" using assms(2) by (auto simp: sso_ok_def)
  then show "us_id u = sw_user_id row \<and> us_status u = U_active" by (simp add: checked_ok_def)
  show "\<exists>v t0 tn. (sw_token_hash row, v, sw_workspace_id row, t0, tn) \<in> set (so_issued s) \<and> us_id v = us_id u \<and> us_status v = U_active \<and>
      (\<exists>m \<in> snd ` set (tn_members tn). mb_user_id m = us_id u \<and> mb_workspace_id m = sw_workspace_id row)"
  proof -
    have "row_issued s row" using c by (simp add: checked_ok_def)
    obtain v t0 tn where i: "(sw_token_hash row, v, sw_workspace_id row, t0, tn) \<in> set (so_issued s)" "us_id v = sw_user_id row"
        "us_status v = U_active" "\<exists>m \<in> snd ` set (tn_members tn). mb_user_id m = us_id v \<and> mb_workspace_id m = sw_workspace_id row"
      using \<open>row_issued s row\<close> unfolding row_issued_def by blast
    moreover have "us_id v = us_id u" using c i(2) by (simp add: checked_ok_def)
    ultimately show ?thesis by metis
  qed
  assume check: "consume_check hash now raw s = Inr (row', u')"
  note k = check_ok [OF ok check]
  have "sw_token_hash row' = hash raw" using ok k(2) by (auto simp: sso_ok_def dest: map_of_SomeD)
  moreover obtain v t0 tn where "(sw_token_hash row', v, sw_workspace_id row', t0, tn) \<in> set (so_issued s)"
      "sw_expires_at row' = t0 + SSO_TOKEN_TTL_MS"
    using k(1) unfolding checked_ok_def row_issued_def by blast
  ultimately show "\<exists>v t0 tn. (hash raw, v, sw_workspace_id row', t0, tn) \<in> set (so_issued s) \<and> now \<le> t0 + 2 * 60 * 1000"
    using k(4) by (auto simp: SSO_TOKEN_TTL_MS_def)
qed

text \<open>
  C27: However issues, consumptions and changes to accounts and memberships interleave, a session opened through the Hub goes back to a
  token issued to that user, who was active then and when the token was checked, for a workspace of which the user was a member when
  it was issued; and no token is accepted later than two minutes after its issue.
\<close>
theorem sso_session_justified:
  assumes "sso_steps hash (fresh_sso t) s" "(sid, row, u) \<in> set (so_opened s)"
  shows "(us_id u = sw_user_id row \<and> us_status u = U_active) \<and>
    (\<exists>v t0 tn. (sw_token_hash row, v, sw_workspace_id row, t0, tn) \<in> set (so_issued s) \<and> us_id v = us_id u \<and> us_status v = U_active \<and>
      (\<exists>m \<in> snd ` set (tn_members tn). mb_user_id m = us_id u \<and> mb_workspace_id m = sw_workspace_id row)) \<and>
    (\<forall>now raw row' u'. consume_check hash now raw s = Inr (row', u') \<longrightarrow>
      (\<exists>v t0 tn. (hash raw, v, sw_workspace_id row', t0, tn) \<in> set (so_issued s) \<and> now \<le> t0 + 2 * 60 * 1000))"
  using sso_session_justified_parts [OF assms] by blast

subsection \<open>Used once\<close>

text \<open>A row that was burnt stays burnt: only an issue under a new hash and a burning write rows.\<close>

definition token_burnt :: "string \<Rightarrow> sso_state \<Rightarrow> bool" where
  "token_burnt h s \<longleftrightarrow> (\<exists>row. map_of (so_rows s) h = Some row \<and> sw_used row)"

definition uses :: "string \<Rightarrow> sso_state \<Rightarrow> nat" where
  "uses h s = length (filter (\<lambda>c. sw_token_hash (fst (consumed_row c)) = h) (so_under_way s)) +
     length (filter (\<lambda>(sid, row, u). sw_token_hash row = h) (so_opened s))"

lemma burnt_refuses: "token_burnt (hash raw) s \<Longrightarrow> consume_check hash now raw s = Inl sso_refused"
  by (auto simp: token_burnt_def consume_check_def)

lemma burn_burns: "token_burnt (sw_token_hash row) (consume_burn now ip row s)"
  by (simp add: token_burnt_def consume_burn_def update_conv')

lemma burnt_step:
  assumes "sso_step hash s s'" "sso_ok s" "token_burnt h s"
  shows "token_burnt h s' \<and> uses h s' = uses h s"
  using assms(1)
proof (cases rule: sso_step.cases)
  case (issues token app_url now new_id i)
  have "h \<in> fst ` set (so_rows s)" using assms(3) by (force simp: token_burnt_def dest: map_of_SomeD)
  then have "snd token \<noteq> h" using issues(2) by blast
  then show ?thesis
    using assms(3) issues(1)
    by (auto simp: issueToken_def token_burnt_def uses_def update_conv' Let_def split: sum.splits prod.splits)
next
  case (checks now raw row u)
  note k = check_ok [OF assms(2) checks(2)]
  have "sw_token_hash row = hash raw" using assms(2) k(2) by (auto simp: sso_ok_def dest: map_of_SomeD)
  moreover have "hash raw \<noteq> h" using k(2,3) assms(3) by (auto simp: token_burnt_def)
  ultimately show ?thesis using assms(3) checks(1) by (simp add: token_burnt_def uses_def)
next
  case (burns row u now ip)
  have "length (filter P xs) = length (filter P (remove1 x xs)) + (if P x then 1 else 0)" if "x \<in> set xs" for P x and xs :: "consumption list"
    using that by (induction xs) auto
  from this [OF burns(2), of "\<lambda>c. sw_token_hash (fst (consumed_row c)) = h"]
  have "uses h s' = uses h s" by (simp add: burns(1) uses_def consume_burn_def)
  moreover have "token_burnt h s'"
    using assms(3) burn_burns [of row now ip s] unfolding burns(1)
    by (cases "sw_token_hash row = h") (auto simp: token_burnt_def consume_burn_def update_conv')
  ultimately show ?thesis by simp
next
  case (opens row u now sid session_hash ip ua)
  have "length (filter P xs) = length (filter P (remove1 x xs)) + (if P x then 1 else 0)" if "x \<in> set xs" for P x and xs :: "consumption list"
    using that by (induction xs) auto
  from this [OF opens(2), of "\<lambda>c. sw_token_hash (fst (consumed_row c)) = h"]
  show ?thesis using assms(3) by (auto simp: opens(1) uses_def consume_open_def token_burnt_def split: prod.splits)
next
  case (others t)
  then show ?thesis using assms(3) by (simp add: token_burnt_def uses_def)
qed

lemma sso_token_single_use_parts:
  assumes "sso_steps hash (fresh_sso t) s" "token_burnt h s" "sso_steps hash s s'"
  shows "token_burnt h s'" and "uses h s' = uses h s"
    and "hash raw = h \<Longrightarrow> consume_check hash now raw s' = Inl sso_refused"
proof -
  have "token_burnt h s' \<and> uses h s' = uses h s \<and> sso_ok s'"
    using assms(3) sso_steps_ok [OF assms(1) fresh_sso_ok] assms(2)
  proof (induction rule: sso_steps.induct)
    case (later s s1 s2)
    then show ?case using burnt_step [OF later.hyps(2)] sso_step_ok [OF later.hyps(2)] by simp
  qed simp
  then show b: "token_burnt h s'" and "uses h s' = uses h s" by simp_all
  show "hash raw = h \<Longrightarrow> consume_check hash now raw s' = Inl sso_refused" using b burnt_refuses by blast
qed

text \<open>
  C26: After the write that burns a token no consumption of it can begin any more, at any time and in any interleaving: it is refused, and
  the sessions it opens are those of the consumptions that had already begun.
\<close>
theorem sso_token_single_use:
  assumes "sso_steps hash (fresh_sso t) s" "token_burnt h s" "sso_steps hash s s'"
  shows "token_burnt h s' \<and> uses h s' = uses h s \<and>
    (\<forall>raw now. hash raw = h \<longrightarrow> consume_check hash now raw s' = Inl sso_refused)"
  using sso_token_single_use_parts [OF assms] by blast

text \<open>What one consumption after the other gives.\<close>

lemma consume_twice:
  assumes "consume hash now raw sid sh ip ua s = (Inr a, s1)"
  shows "consume hash later raw sid' sh' ip' ua' s1 = (Inl sso_refused, s1) \<or> sw_token_hash (fst (projr (consume_check hash now raw s))) \<noteq> hash raw"
proof -
  obtain row u where c: "consume_check hash now raw s = Inr (row, u)" "s1 = snd (consume_open now sid sh ip ua row u (consume_burn now ip row s))"
    using assms by (auto simp: consume_def split: sum.splits prod.splits)
  have "token_burnt (sw_token_hash row) s1"
    using burn_burns [of row now ip s] by (simp add: c(2) consume_open_def token_burnt_def split: prod.splits)
  then show ?thesis using c(1) burnt_refuses [of hash raw s1 later] by (cases "sw_token_hash row = hash raw") (simp_all add: consume_def)
qed


subsection \<open>What a token does not do\<close>

lemma update_list_ex: "P x \<Longrightarrow> list_ex P (map snd (AList.update k x rows))"
  by (induction rows) auto

lemma consume_check_cong:
  "so_rows s' = so_rows s \<Longrightarrow> sso_accounts s' = sso_accounts s \<Longrightarrow> consume_check hash now raw s' = consume_check hash now raw s"
  by (simp only: consume_check_def)

text \<open>
  The workspace a token is bound to is checked when it is issued and then only named in the answer: the session opened, and so what
  it gives access to, is the same whatever workspace the row names; a membership withdrawn in between changes nothing. And tokens
  outstanding when all sessions of a user are revoked, as a password reset does, still open a session that is valid afterwards.
\<close>
theorem sso_session_not_bound:
  assumes "consume_check hash now raw s = Inr (row, u)"
  shows "consume_check hash now raw (s\<lparr>so_tenancy := (so_tenancy s)\<lparr>tn_members := ms, tn_auth := revokeAllSessions now (us_id u) (tn_auth (so_tenancy s))\<rparr>\<rparr>)
      = consume_check hash now raw s \<and>
    (\<forall>w. sa_token (fst (consume_open now sid sh ip ua (row\<lparr>sw_workspace_id := w\<rparr>) u z)) = sa_token (fst (consume_open now sid sh ip ua row u z)) \<and>
      so_tenancy (snd (consume_open now sid sh ip ua (row\<lparr>sw_workspace_id := w\<rparr>) u z)) = so_tenancy (snd (consume_open now sid sh ip ua row u z))) \<and>
    validateSession now sid (us_id u) (tn_auth (so_tenancy (snd (consume_open now sid sh ip ua row u z))))"
proof -
  have "au_accounts (fold (\<lambda>x a. invalidateSessionCache (se_id x) v (put_session (revoke_row now x) a)) xs a) = au_accounts a" for v xs a
    by (induction xs arbitrary: a) simp_all
  then have "sso_accounts (s\<lparr>so_tenancy := (so_tenancy s)\<lparr>tn_members := ms, tn_auth := revokeAllSessions now (us_id u) (tn_auth (so_tenancy s))\<rparr>\<rparr>) = sso_accounts s"
    by (simp add: sso_accounts_def revokeAllSessions_def)
  then have check: "consume_check hash now raw (s\<lparr>so_tenancy := (so_tenancy s)\<lparr>tn_members := ms, tn_auth := revokeAllSessions now (us_id u) (tn_auth (so_tenancy s))\<rparr>\<rparr>)
      = consume_check hash now raw s"
    by (intro consume_check_cong) simp_all
  have "validateSession now sid (us_id u) (tn_auth (so_tenancy (snd (consume_open now sid sh ip ua row u z))))"
    by (simp add: consume_open_def issueSessionForUser_def createSession_row_def validateSession_def day_ms_def update_list_ex)
  moreover have "sa_token (fst (consume_open now sid sh ip ua (row\<lparr>sw_workspace_id := w\<rparr>) u z)) = sa_token (fst (consume_open now sid sh ip ua row u z)) \<and>
      so_tenancy (snd (consume_open now sid sh ip ua (row\<lparr>sw_workspace_id := w\<rparr>) u z)) = so_tenancy (snd (consume_open now sid sh ip ua row u z))" for w
    by (simp add: consume_open_def split: prod.split)
  ultimately show ?thesis using check by blast
qed


subsection \<open>A run\<close>

definition demo_input :: issue_input where
  "demo_input = \<lparr>ii_email = Some ''a'', ii_hub_user = Some ''hub1'', ii_workspace = Some ''w''\<rparr>"

definition demo_row :: sso_row where
  "demo_row = \<lparr>sw_id = ''i1'', sw_token_hash = ''tok'', sw_user_id = ''u'', sw_workspace_id = ''w'', sw_used = False, sw_issued_to = ''hub1'',
     sw_expires_at = 121000, sw_consumed_at = None, sw_consumed_ip = [], sw_created_at = 1000, sw_updated_at = 1000\<rparr>"

definition demo_issued :: sso_state where
  "demo_issued = snd (issueToken None 1000 ''i1'' (''tok'', ''tok'') demo_input (fresh_sso inviting))"

definition demo_begun :: sso_state where
  "demo_begun = demo_issued\<lparr>so_under_way := Checked demo_row demo_user # so_under_way demo_issued\<rparr>"

definition demo_burnt :: sso_state where
  "demo_burnt = (consume_burn 2000 None demo_row demo_begun)\<lparr>so_under_way := Burnt demo_row demo_user # remove1 (Checked demo_row demo_user) (so_under_way demo_begun)\<rparr>"

definition demo_opened :: sso_state where
  "demo_opened = (snd (consume_open 2000 ''s1'' ''sh'' None None demo_row demo_user demo_burnt))\<lparr>so_under_way := remove1 (Burnt demo_row demo_user) (so_under_way demo_burnt)\<rparr>"

lemma demo_check: "consume_check id 2000 ''tok'' demo_issued = Inr (demo_row, demo_user)"
proof -
  have "issue_target inviting demo_input = Inr (demo_user, ''w'')"
    by (simp add: issue_target_def demo_input_def inviting_simps findByEmail_def live_users_def js_lower_def js_lower_char_def
        isWorkspaceMember_def Let_def)
  then have "so_rows demo_issued = [(''tok'', demo_row)]" "so_tenancy demo_issued = inviting"
    by (simp_all add: demo_issued_def issueToken_def fresh_sso_def demo_row_def demo_input_def demo_user_def SSO_TOKEN_TTL_MS_def Let_def)
  then show ?thesis
    by (simp add: consume_check_def demo_row_def sso_accounts_def findUserById_def inviting_simps live_users_def)
qed

lemma demo_steps: "sso_steps id (fresh_sso inviting) demo_burnt" "sso_step id demo_burnt demo_opened"
proof -
  have "sso_step id (fresh_sso inviting) demo_issued" unfolding demo_issued_def by (rule sso_step.issues) (simp add: fresh_sso_def)
  moreover have "sso_step id demo_issued demo_begun" unfolding demo_begun_def by (rule sso_step.checks [OF demo_check])
  moreover have "sso_step id demo_begun demo_burnt" unfolding demo_burnt_def by (rule sso_step.burns) (simp add: demo_begun_def)
  ultimately show "sso_steps id (fresh_sso inviting) demo_burnt" by (metis sso_steps.intros)
  show "sso_step id demo_burnt demo_opened" unfolding demo_opened_def by (rule sso_step.opens) (simp add: demo_burnt_def)
qed

lemma sso_session_justified_witness: "us_status demo_user = U_active \<and> so_opened demo_opened = [(''s1'', demo_row, demo_user)]"
proof -
  have o: "so_opened demo_opened = [(''s1'', demo_row, demo_user)]"
    by (simp add: demo_opened_def consume_open_def demo_burnt_def consume_burn_def demo_begun_def demo_issued_def issueToken_def fresh_sso_def
        Let_def split: prod.split sum.split)
  have "sso_steps id (fresh_sso inviting) demo_opened" using demo_steps by (rule sso_steps.later)
  from sso_session_justified [OF this, of "''s1''" demo_row demo_user] o show ?thesis by simp
qed

lemma sso_token_single_use_witness: "consume_check id 3000 ''tok'' demo_opened = Inl sso_refused"
proof -
  have "token_burnt (sw_token_hash demo_row) demo_burnt"
    using burn_burns [of demo_row 2000 None demo_begun] by (simp add: demo_burnt_def token_burnt_def)
  moreover have "sso_steps id demo_burnt demo_opened" using demo_steps(2) by (metis sso_steps.intros)
  ultimately have "\<forall>raw now. id raw = sw_token_hash demo_row \<longrightarrow> consume_check id now raw demo_opened = Inl sso_refused"
    using sso_token_single_use [OF demo_steps(1)] by blast
  then show ?thesis by (simp add: demo_row_def)
qed

lemma sso_session_not_bound_witness:
  "validateSession 2000 ''s1'' ''u'' (tn_auth (so_tenancy (snd (consume_open 2000 ''s1'' ''sh'' None None demo_row demo_user demo_issued))))"
  using sso_session_not_bound [OF demo_check, where sid = "''s1''" and sh = "''sh''" and ip = None and ua = None and z = demo_issued] by (simp add: demo_user_def)

lemma sso_refusals_uniform_witness:
  "fst (consume id 0 ''nope'' ''s'' ''h'' None None (fresh_sso inviting)) = Inl sso_refused"
proof -
  have "fst (consume id 0 ''nope'' ''s'' ''h'' None None (fresh_sso inviting)) = Inl sso_refused"
    by (simp add: consume_def consume_check_def fresh_sso_def)
  then show ?thesis using sso_refusals_uniform [where s = "fresh_sso inviting" and hash = id and now = 0 and raw = "''nope''" and sid = "''s''" and session_hash = "''h''" and ip = None and ua = None]
    by blast
qed

end
