(* ===== verification/Twenty_Mapper.thy ===== *)
theory Twenty_Mapper
  imports Webhook_Filter Calendar
begin

section \<open>CRM connector: which milestones an event gives\<close>

text \<open>
  \<^verbatim>\<open>api/src/webhooks/connectors/twenty-event-mapper.ts\<close>. The payload is a dynamically typed object, as it comes out of a
  stored delivery. The conversions between numbers and text and the reading of dates in text are arguments.
\<close>

subsection \<open>The configuration of a workspace\<close>

(* src: api/src/workspaces/entities/workspace.entity.ts:121-128 CrmGoalMapping *)
record crm_goal_mapping =
  gm_match :: string
  gm_timeline_name :: string
  gm_min_scroll :: "real option"

datatype identity_resolver = By_auto | By_email | By_field

(* src: api/src/workspaces/entities/workspace.entity.ts:135-160 WorkspaceCrmMapping *)
record crm_mapping =
  cm_identity_resolver :: "identity_resolver option"
  cm_identity_field :: "string option"
  cm_goals :: "crm_goal_mapping list option"
  cm_map_phone_calls :: "bool option"
  cm_phone_call_timeline_name :: "string option"

subsection \<open>What goes in and what comes out\<close>

(* src: api/src/webhooks/connectors/twenty-event-mapper.ts:95-99 FirstTouchAttribution *)
record first_touch =
  ft_channelGroup :: string
  ft_channel :: string
  ft_referralCode :: string

(* src: api/src/webhooks/connectors/twenty-event-mapper.ts:102-107 TrackedEventContext *)
record tracked_context =
  tc_workspace_id :: string
  tc_event_type :: string
  tc_event_id :: string
  tc_payload :: jsval

(* src: api/src/webhooks/connectors/twenty-event-mapper.ts:74-74 IdentityKind *)
datatype identity_kind = K_email | K_slug | K_field

(* src: api/src/webhooks/connectors/twenty-event-mapper.ts:109-135 MappedTimelineEvent *)
record milestone =
  ms_name :: string
  ms_identity :: string
  ms_kind :: identity_kind
  ms_field :: "string option"
  ms_happensAt :: string
  ms_eventId :: string
  ms_properties :: "(string \<times> jsval) list"

text \<open>The conversions of the platform.\<close>

record mapper_env =
  me_numbers :: number_text
  me_date :: "string \<Rightarrow> int option"

text \<open>\<open>String(v ?? '')\<close>.\<close>

definition text_or_empty :: "mapper_env \<Rightarrow> jsval \<Rightarrow> string" where
  "text_or_empty env v = (if v = JUndefined \<or> v = JNull then [] else js_text (me_numbers env) v)"

definition nullish :: "jsval \<Rightarrow> jsval \<Rightarrow> jsval" where
  "nullish v d = (if v = JUndefined \<or> v = JNull then d else v)"

subsection \<open>Whom the event is about\<close>

(* src: api/src/webhooks/connectors/twenty-event-mapper.ts:324-353 resolveIdentity *)
definition resolveIdentity :: "jsval \<Rightarrow> crm_mapping option \<Rightarrow> string option \<times> identity_kind \<times> string option" where
  "resolveIdentity userId config =
     (case userId of
        JStr s \<Rightarrow>
          (let trimmed = js_trim s; resolver = js_nullish (Option.bind config cm_identity_resolver) By_auto
           in if trimmed = [] then (None, K_slug, None)
              else if resolver = By_field then
                (let field = map_option js_trim (Option.bind config cm_identity_field)
                 in if \<not> js_truthy field then (None, K_field, None) else (Some trimmed, K_field, field))
              else if resolver = By_email then (Some (js_lower trimmed), K_email, None)
              else if js_includes trimmed ''@'' then (Some (js_lower trimmed), K_email, None)
              else (Some trimmed, K_slug, None))
      | _ \<Rightarrow> (None, K_slug, None))"

(* src: api/src/webhooks/connectors/twenty-event-mapper.ts:359-361 normalizeIdentity *)
definition normalizeIdentity :: "jsval \<Rightarrow> string option" where
  "normalizeIdentity userId = fst (resolveIdentity userId None)"

subsection \<open>The names of the milestones\<close>

(* src: api/src/webhooks/connectors/twenty-event-mapper.ts:252-260 scrollOk *)
definition scrollOk :: "mapper_env \<Rightarrow> jsval \<Rightarrow> real option \<Rightarrow> bool" where
  "scrollOk env p min_scroll =
     (case min_scroll of
        None \<Rightarrow> True
      | Some m \<Rightarrow>
          (case coerceNumber (me_numbers env)
                  (nullish (nullish (js_member p ''max_scroll'') (js_member p ''scroll'')) (js_member (js_member p ''properties'') ''depth'')) of
             None \<Rightarrow> False
           | Some scroll \<Rightarrow> m \<le> scroll))"

(* src: api/src/webhooks/connectors/twenty-event-mapper.ts:224-249 resolveNamesFromConfig *)
definition resolveNamesFromConfig :: "mapper_env \<Rightarrow> string \<Rightarrow> jsval \<Rightarrow> crm_goal_mapping list \<Rightarrow> string list" where
  "resolveNamesFromConfig env eventType p rules =
     (let goal = text_or_empty env (js_member p ''goal_name''); path = text_or_empty env (js_member p ''path'')
      in concat (map (\<lambda>rule.
           let parts = js_split (CHR '':'') (gm_match rule); kind = hd parts; target = js_join '':'' (tl parts)
           in if eventType = ''goal'' \<and> kind = ''goal'' \<and> goal = target then
                (if \<not> scrollOk env p (gm_min_scroll rule) then [] else [gm_timeline_name rule])
              else if eventType = ''screen_view'' \<and> kind = ''screen_view'' \<and> (target = [] \<or> js_starts_with path target) then
                (if \<not> scrollOk env p (gm_min_scroll rule) then [] else [gm_timeline_name rule])
              else []) rules))"

(* src: api/src/webhooks/connectors/twenty-event-mapper.ts:51-56 CTA_GOALS *)
definition CTA_GOALS :: "string list" where
  "CTA_GOALS = [''audit_cta_rdv'', ''appointment_click'', ''roi_lead_click'', ''cta_click'']"

(* src: api/src/webhooks/connectors/twenty-event-mapper.ts:71-71 AUDIT_SCROLL_THRESHOLD *)
definition AUDIT_SCROLL_THRESHOLD :: real where
  "AUDIT_SCROLL_THRESHOLD = 75"

definition deep_enough :: "real option \<Rightarrow> bool" where
  "deep_enough d = (case d of None \<Rightarrow> False | Some x \<Rightarrow> AUDIT_SCROLL_THRESHOLD \<le> x)"

(* src: api/src/webhooks/connectors/twenty-event-mapper.ts:269-312 resolveNamesBuiltin *)
definition resolveNamesBuiltin :: "mapper_env \<Rightarrow> string \<Rightarrow> jsval \<Rightarrow> string list" where
  "resolveNamesBuiltin env eventType p =
     (if eventType = ''screen_view'' then
        (if js_starts_with (text_or_empty env (js_member p ''path'')) ''/audit/'' then
           ''audit.page_view'' #
             (if deep_enough (coerceNumber (me_numbers env) (nullish (js_member p ''max_scroll'') (js_member p ''scroll'')))
              then [''audit.scroll''] else [])
         else [])
      else if eventType = ''goal'' then
        (let goal = text_or_empty env (js_member p ''goal_name'')
         in if goal \<in> {''audit_view'', ''audit_page_view''} then [''audit.page_view'']
            else if goal \<in> {''audit_scroll'', ''scroll_depth''} then
              (if deep_enough (coerceNumber (me_numbers env) (js_member (js_member p ''properties'') ''depth''))
               then [''audit.scroll''] else [])
            else if goal \<in> set CTA_GOALS then [''audit.cta_click'']
            else if goal = ''rdv_booked'' then [''audit.rdv'']
            else if goal = ''signup'' then [''signup'']
            else if goal = ''app_started'' then
              (if text_or_empty env (js_member (js_member p ''properties'') ''app'') \<in> {''notifuse'', ''prospection''}
               then [''app.started''] else [])
            else [])
      else [])"

subsection \<open>Where the visitor came from\<close>

text \<open>The two expressions on the domain of the referrer: a label of the domain, and its last two labels.\<close>

(* src: api/src/webhooks/connectors/twenty-event-mapper.ts:445-449 isSearchEngine *)
definition isSearchEngine :: "string \<Rightarrow> bool" where
  "isSearchEngine domain \<longleftrightarrow>
     list_ex (\<lambda>label. label \<in> {''google'', ''bing'', ''yahoo'', ''duckduckgo'', ''ecosia'', ''qwant'', ''yandex'', ''baidu''})
       (js_split (CHR ''.'') domain)"

(* src: api/src/webhooks/connectors/twenty-event-mapper.ts:451-455 isSocial *)
definition isSocial :: "string \<Rightarrow> bool" where
  "isSocial domain \<longleftrightarrow>
     (case rev (js_split (CHR ''.'') domain) of
        tld # label # _ \<Rightarrow>
          tld \<in> {''com'', ''co'', ''fr''} \<and>
          label \<in> {''facebook'', ''instagram'', ''linkedin'', ''twitter'', ''x'', ''t'', ''tiktok'', ''youtube'', ''pinterest'',
                   ''reddit'', ''snapchat''}
      | _ \<Rightarrow> False)"

(* src: api/src/webhooks/connectors/twenty-event-mapper.ts:379-410 acquisitionSource *)
definition acquisitionSource :: "mapper_env \<Rightarrow> jsval \<Rightarrow> string" where
  "acquisitionSource env p =
     (let low = (\<lambda>v. js_lower (text_or_empty env v));
          idFrom = low (js_member (js_member p ''utm'') ''id_from'');
          medium = low (js_member (js_member p ''utm'') ''medium'');
          phoneSource = low (js_member (js_member p ''properties'') ''source'');
          referrerDomain = low (js_member p ''referrer_domain'')
      in if idFrom = ''gclid'' \<or> idFrom = ''gbraid'' \<or> idFrom = ''wbraid'' then ''google_ads''
         else if phoneSource = ''ads'' then ''google_ads''
         else if referrerDomain \<noteq> [] \<and> isSearchEngine referrerDomain then ''organic_seo''
         else if medium = ''cpc'' \<or> medium = ''ppc'' \<or> medium = ''paid'' then ''paid_other''
         else if medium = ''email'' \<or> phoneSource = ''email'' then ''email''
         else if phoneSource = ''social'' \<or> isSocial referrerDomain \<or> medium = ''social'' then ''social''
         else if phoneSource = ''seo'' then ''organic_seo''
         else if phoneSource = ''direct'' then ''direct''
         else if referrerDomain \<noteq> [] then ''referral''
         else if phoneSource \<noteq> [] \<and> phoneSource \<noteq> ''other'' then phoneSource
         else ''direct'')"

(* src: api/src/webhooks/connectors/twenty-event-mapper.ts:427-443 acquisitionFromFirstTouch *)
definition acquisitionFromFirstTouch :: "first_touch \<Rightarrow> string" where
  "acquisitionFromFirstTouch ft =
     (let group = js_lower (ft_channelGroup ft)
      in if group = ''ads'' then ''google_ads''
         else if group = ''seo'' then ''organic_seo''
         else if group = ''social'' then ''social''
         else if group = ''email'' then ''email''
         else if group = ''referral'' then ''referral''
         else [])"

subsection \<open>When it happened\<close>

text \<open>\<open>Date.prototype.toISOString\<close> and the range of valid dates.\<close>

definition MAX_DATE :: int where
  "MAX_DATE = 8640000000000000"

definition toISOString :: "int \<Rightarrow> string" where
  "toISOString t =
     (let r = nat (t mod 86400000); two = Calendar.pad_start 2
      in iso_date (t div 86400000) @ ''T'' @ two (r div 3600000) @ '':'' @ two (r div 60000 mod 60) @ '':'' @
           two (r div 1000 mod 60) @ ''.'' @ Calendar.pad_start 3 (r mod 1000) @ ''Z'')"

text \<open>The first blank of a text is replaced.\<close>

definition replace_blank :: "string \<Rightarrow> string" where
  "replace_blank s = (case dropWhile (\<lambda>c. c \<noteq> CHR '' '') s of [] \<Rightarrow> s | _ # r \<Rightarrow> takeWhile (\<lambda>c. c \<noteq> CHR '' '') s @ ''T'' @ r)"

(* src: api/src/webhooks/connectors/twenty-event-mapper.ts:517-527 toIsoOrNull *)
definition toIsoOrNull :: "mapper_env \<Rightarrow> jsval \<Rightarrow> string option" where
  "toIsoOrNull env value =
     (if value = JNull \<or> value = JUndefined \<or> value = JStr [] then None
      else case value of
             JNum x \<Rightarrow> (if \<bar>x\<bar> \<le> of_int MAX_DATE then Some (toISOString (if 0 \<le> x then \<lfloor>x\<rfloor> else \<lceil>x\<rceil>)) else None)
           | _ \<Rightarrow>
               (let s = js_text (me_numbers env) value;
                    normalized = (if js_includes s ''T'' then s else replace_blank s @ ''Z'')
                in map_option toISOString (me_date env normalized)))"

(* src: api/src/webhooks/connectors/twenty-event-mapper.ts:463-475 resolveHappensAt *)
definition resolveHappensAt :: "mapper_env \<Rightarrow> int \<Rightarrow> jsval \<Rightarrow> string" where
  "resolveHappensAt env now p =
     (case List.find (\<lambda>c. toIsoOrNull env c \<noteq> None)
             (map (js_member p) [''goal_timestamp'', ''event_timestamp'', ''entered_at'', ''received_at'']) of
        Some c \<Rightarrow> the (toIsoOrNull env c)
      | None \<Rightarrow> toISOString now)"

subsection \<open>The milestones\<close>

definition when_truthy :: "string \<Rightarrow> jsval \<Rightarrow> (string \<times> jsval) list" where
  "when_truthy k v = (if js_is_truthy v then [(k, v)] else [])"

(* src: api/src/webhooks/connectors/twenty-event-mapper.ts:477-514 buildProperties *)
definition buildProperties :: "mapper_env \<Rightarrow> string \<Rightarrow> jsval \<Rightarrow> first_touch option \<Rightarrow> (string \<times> jsval) list" where
  "buildProperties env event_id p firstTouch =
     (let stitched = (case firstTouch of None \<Rightarrow> [] | Some ft \<Rightarrow> acquisitionFromFirstTouch ft);
          acq = js_or stitched (acquisitionSource env p);
          phoneSource = js_member (js_member p ''properties'') ''source''
      in [(''eventId'', JStr event_id), (''source'', JStr ''analytics'')] @
         when_truthy ''url'' (js_member p ''path'') @
         when_truthy ''goalName'' (js_member p ''goal_name'') @
         when_truthy ''utmSource'' (js_member (js_member p ''utm'') ''source'') @
         when_truthy ''utmCampaign'' (js_member (js_member p ''utm'') ''campaign'') @
         when_truthy ''acquisitionSource'' (JStr acq) @
         (case firstTouch of None \<Rightarrow> [] | Some ft \<Rightarrow> when_truthy ''referralCode'' (JStr (ft_referralCode ft))) @
         (if text_or_empty env (js_member p ''goal_name'') = ''phone_call''
          then (case phoneSource of JStr s \<Rightarrow> when_truthy ''phoneSource'' (JStr s) | _ \<Rightarrow> []) else []))"

definition is_phone_call :: "mapper_env \<Rightarrow> tracked_context \<Rightarrow> bool" where
  "is_phone_call env e \<longleftrightarrow> tc_event_type e = ''goal'' \<and> text_or_empty env (js_member (tc_payload e) ''goal_name'') = ''phone_call''"

text \<open>The names an event gives, calls included.\<close>

(* src: api/src/webhooks/connectors/twenty-event-mapper.ts:164-189 mapAll *)
definition milestone_names :: "mapper_env \<Rightarrow> tracked_context \<Rightarrow> crm_mapping option \<Rightarrow> string list" where
  "milestone_names env e config =
     (let p = tc_payload e;
          goals = js_nullish (Option.bind config cm_goals) [];
          configMatchedPhoneCall = (is_phone_call env e \<and> list_ex (\<lambda>r. gm_match r = ''goal:phone_call'') goals);
          names = (if goals \<noteq> [] then resolveNamesFromConfig env (tc_event_type e) p goals
                   else resolveNamesBuiltin env (tc_event_type e) p)
      in names @
         (if is_phone_call env e \<and> \<not> configMatchedPhoneCall \<and> js_nullish (Option.bind config cm_map_phone_calls) True
          then [js_or (js_nullish (Option.bind config cm_phone_call_timeline_name) []) ''appel''] else []))"

(* src: api/src/webhooks/connectors/twenty-event-mapper.ts:152-202 mapAll *)
definition mapAll :: "mapper_env \<Rightarrow> int \<Rightarrow> tracked_context \<Rightarrow> crm_mapping option \<Rightarrow> first_touch option \<Rightarrow> milestone list" where
  "mapAll env now e config firstTouch =
     (case resolveIdentity (js_member (tc_payload e) ''user_id'') config of
        (None, _, _) \<Rightarrow> []
      | (Some identity, kind, field) \<Rightarrow>
          map (\<lambda>name. \<lparr>ms_name = name, ms_identity = identity, ms_kind = kind, ms_field = field,
                        ms_happensAt = resolveHappensAt env now (tc_payload e), ms_eventId = tc_event_id e,
                        ms_properties = buildProperties env (tc_event_id e) (tc_payload e) firstTouch\<rparr>)
            (milestone_names env e config))"

(* src: api/src/webhooks/connectors/twenty-event-mapper.ts:209-214 map *)
definition map_first :: "mapper_env \<Rightarrow> int \<Rightarrow> tracked_context \<Rightarrow> crm_mapping option \<Rightarrow> milestone option" where
  "map_first env now e config = (case mapAll env now e config None of [] \<Rightarrow> None | m # _ \<Rightarrow> Some m)"

subsection \<open>How many milestones\<close>

lemma config_names_bound: "length (resolveNamesFromConfig env ty p rules) \<le> length rules"
  by (induction rules) (auto simp: resolveNamesFromConfig_def Let_def)

lemma builtin_names_bound: "length (resolveNamesBuiltin env ty p) \<le> 2"
  by (simp add: resolveNamesBuiltin_def Let_def)

lemma builtin_phone_call: "is_phone_call env e \<Longrightarrow> resolveNamesBuiltin env (tc_event_type e) (tc_payload e) = []"
  by (simp add: is_phone_call_def resolveNamesBuiltin_def CTA_GOALS_def)

text \<open>The rules a workspace declares; none means the catalogue built in.\<close>

definition declared_rules :: "crm_mapping option \<Rightarrow> crm_goal_mapping list" where
  "declared_rules config = js_nullish (Option.bind config cm_goals) []"

lemma milestone_names_bound: "length (milestone_names env e config) \<le> max 2 (length (declared_rules config) + 1)"
proof (cases "declared_rules config = []")
  case True
  then show ?thesis
    using builtin_names_bound [of env "tc_event_type e" "tc_payload e"] builtin_phone_call [of env e]
    by (auto simp: milestone_names_def declared_rules_def Let_def)
next
  case False
  then show ?thesis
    using config_names_bound [of env "tc_event_type e" "tc_payload e" "declared_rules config"]
    by (auto simp: milestone_names_def declared_rules_def Let_def)
qed

lemma mapAll_length: "length (mapAll env now e config ft) \<le> length (milestone_names env e config)"
  by (auto simp: mapAll_def split: prod.splits option.splits)

text \<open>All milestones of an event are about one person and carry the identifier of the event.\<close>

lemma mapAll_member:
  assumes "m \<in> set (mapAll env now e config ft)"
  shows "ms_name m \<in> set (milestone_names env e config)" "ms_eventId m = tc_event_id e"
    and "resolveIdentity (js_member (tc_payload e) ''user_id'') config = (Some (ms_identity m), ms_kind m, ms_field m)"
    and "ms_properties m = buildProperties env (tc_event_id e) (tc_payload e) ft"
    and "ms_happensAt m = resolveHappensAt env now (tc_payload e)"
  using assms by (auto simp: mapAll_def split: prod.splits option.splits)

lemma mapAll_Nil:
  "mapAll env now e config ft = [] \<longleftrightarrow>
     fst (resolveIdentity (js_member (tc_payload e) ''user_id'') config) = None \<or> milestone_names env e config = []"
  by (auto simp: mapAll_def split: prod.splits option.splits)

subsection \<open>Identities\<close>

lemma js_lower_Nil_iff [simp]: "js_lower s = [] \<longleftrightarrow> s = []"
  by (simp add: js_lower_def)

lemma resolveIdentity_nonempty:
  "resolveIdentity v config = (Some identity, kind, field) \<Longrightarrow>
     identity \<noteq> [] \<and> (kind = K_field \<longleftrightarrow> field \<noteq> None) \<and> (\<forall>f. field = Some f \<longrightarrow> f \<noteq> [])"
  by (auto simp: resolveIdentity_def js_truthy_def Let_def split: jsval.splits if_splits option.splits)

subsection \<open>What a milestone says of the acquisition\<close>

lemma if_nonempty: "(P \<Longrightarrow> a \<noteq> []) \<Longrightarrow> b \<noteq> [] \<Longrightarrow> (if P then a else b) \<noteq> []"
  by simp

lemma acquisitionSource_nonempty: "acquisitionSource env p \<noteq> []"
  unfolding acquisitionSource_def Let_def by (intro if_nonempty list.distinct(2)) (erule conjunct1)

lemma property_keys:
  "map_of (buildProperties env i p ft) ''acquisitionSource'' =
     Some (JStr (js_or (case ft of None \<Rightarrow> [] | Some f \<Rightarrow> acquisitionFromFirstTouch f) (acquisitionSource env p)))"
proof -
  have "js_or s (acquisitionSource env p) \<noteq> []" for s
    using acquisitionSource_nonempty by (simp add: js_or_def)
  then show ?thesis by (simp add: buildProperties_def when_truthy_def Let_def map_add_Some_iff)
qed

definition is_group :: "string \<Rightarrow> bool" where
  "is_group g \<longleftrightarrow> js_lower g \<in> {''ads'', ''seo'', ''social'', ''email'', ''referral''}"

lemma acquisitionFromFirstTouch_Nil: "acquisitionFromFirstTouch f = [] \<longleftrightarrow> \<not> is_group (ft_channelGroup f)"
  by (auto simp: acquisitionFromFirstTouch_def is_group_def Let_def)

text \<open>
  Every milestone names an acquisition. It is that of the first touch, in the vocabulary of the CRM, if the first touch has one of
  the five groups, and otherwise the one derived from the event, which is never empty: at the least it is the word for direct traffic.
\<close>
theorem acquisition_of_milestone:
  assumes "m \<in> set (mapAll env now e config ft)"
  shows "map_of (ms_properties m) ''acquisitionSource'' =
      Some (JStr (case ft of
          Some f \<Rightarrow> (if is_group (ft_channelGroup f) then acquisitionFromFirstTouch f else acquisitionSource env (tc_payload e))
        | None \<Rightarrow> acquisitionSource env (tc_payload e))) \<and>
    acquisitionSource env (tc_payload e) \<noteq> []"
  using property_keys [of env "tc_event_id e" "tc_payload e" ft] acquisitionFromFirstTouch_Nil
  by (auto simp: mapAll_member(4) [OF assms] js_or_def acquisitionSource_nonempty split: option.splits)

subsection \<open>Telephone calls\<close>

text \<open>What the rules of a workspace give for a call.\<close>

lemma phone_call_names:
  assumes "is_phone_call env e"
  shows "milestone_names env e config =
    (if list_ex (\<lambda>r. gm_match r = ''goal:phone_call'') (declared_rules config)
     then map gm_timeline_name (filter (\<lambda>r. gm_match r = ''goal:phone_call'' \<and> scrollOk env (tc_payload e) (gm_min_scroll r)) (declared_rules config))
     else if js_nullish (Option.bind config cm_map_phone_calls) True
     then [js_or (js_nullish (Option.bind config cm_phone_call_timeline_name) []) ''appel''] else [])"
proof -
  have split: "hd (js_split (CHR '':'') s) = ''goal'' \<and> js_join '':'' (tl (js_split (CHR '':'') s)) = ''phone_call'' \<longleftrightarrow> s = ''goal:phone_call''" for s
  proof
    assume a: "hd (js_split (CHR '':'') s) = ''goal'' \<and> js_join '':'' (tl (js_split (CHR '':'') s)) = ''phone_call''"
    then have "js_split (CHR '':'') s = ''goal'' # tl (js_split (CHR '':'') s)" "tl (js_split (CHR '':'') s) \<noteq> []"
      using js_split_not_Nil [of "CHR '':''" s] by (metis list.collapse, auto)
    then have "js_join '':'' (''goal'' # tl (js_split (CHR '':'') s)) = s" using js_split_join [of "CHR '':''" s] by metis
    with a \<open>tl (js_split (CHR '':'') s) \<noteq> []\<close> show "s = ''goal:phone_call''" by (simp add: js_join_Cons)
  qed (simp add: js_join_Cons)
  have ev: "tc_event_type e = ''goal''" "text_or_empty env (js_member (tc_payload e) ''goal_name'') = ''phone_call''"
    using assms by (simp_all add: is_phone_call_def)
  have some: "concat (map (\<lambda>r. if P r then [g r] else []) rs) = map g (filter P rs)" for P and g :: "crm_goal_mapping \<Rightarrow> string" and rs
    by (induction rs) simp_all
  have pick: "(if k = ''goal'' \<and> ''phone_call'' = t then if \<not> q then [] else [n] else []) = (if (k = ''goal'' \<and> t = ''phone_call'') \<and> q then [n] else [])"
    for k t and n :: string and q by auto
  have no: "(''goal'' = ''screen_view'') = False" by simp
  have "resolveNamesFromConfig env (tc_event_type e) (tc_payload e) rs =
      map gm_timeline_name (filter (\<lambda>r. gm_match r = ''goal:phone_call'' \<and> scrollOk env (tc_payload e) (gm_min_scroll r)) rs)" for rs
    unfolding resolveNamesFromConfig_def Let_def ev simp_thms no if_False pick split some by (rule TrueI)
  moreover have "\<not> list_ex P rs \<Longrightarrow> filter (\<lambda>r. P r \<and> Q r) rs = []" for P Q and rs :: "crm_goal_mapping list"
    by (induction rs) auto
  ultimately show ?thesis
    using assms builtin_phone_call [OF assms] by (auto simp: milestone_names_def declared_rules_def Let_def)
qed

text \<open>
  A call of an identified visitor gives the milestones of the rules that name calls and, only if the workspace has no such rule, the one
  built in, unless it is switched off: never both, and nothing where the rule asks for a scroll depth the call does not have.
\<close>
theorem phone_call_milestones:
  assumes "is_phone_call env e" "resolveIdentity (js_member (tc_payload e) ''user_id'') config = (Some identity, kind, field)"
  shows "map ms_name (mapAll env now e config ft) =
    (if list_ex (\<lambda>r. gm_match r = ''goal:phone_call'') (declared_rules config)
     then map gm_timeline_name (filter (\<lambda>r. gm_match r = ''goal:phone_call'' \<and> scrollOk env (tc_payload e) (gm_min_scroll r)) (declared_rules config))
     else if js_nullish (Option.bind config cm_map_phone_calls) True
     then [js_or (js_nullish (Option.bind config cm_phone_call_timeline_name) []) ''appel''] else [])"
  using phone_call_names [OF assms(1), of config] assms(2) by (simp add: mapAll_def comp_def)

definition plain_mapper :: mapper_env where
  "plain_mapper = \<lparr>me_numbers = \<lparr>nt_print = \<lambda>_. [], nt_read = \<lambda>_. None\<rparr>, me_date = \<lambda>_. None\<rparr>"

definition a_call :: tracked_context where
  "a_call = \<lparr>tc_workspace_id = ''w'', tc_event_type = ''goal'', tc_event_id = ''e1'',
     tc_payload = JObj [(''user_id'', JStr ''u''), (''goal_name'', JStr ''phone_call''), (''properties'', JObj [(''source'', JStr ''Ads'')])]\<rparr>"

lemma a_call_identity: "resolveIdentity (js_member (tc_payload a_call) ''user_id'') None = (Some ''u'', K_slug, None)"
  by (simp add: a_call_def resolveIdentity_def js_member_def js_nullish_def js_trim_def js_space_def js_starts_with_def)

lemma a_call_is: "is_phone_call plain_mapper a_call"
  by (simp add: a_call_def is_phone_call_def text_or_empty_def js_member_def js_nullish_def)

lemma phone_call_milestones_witness: "map ms_name (mapAll plain_mapper 0 a_call None None) = [''appel'']"
  using phone_call_milestones [OF a_call_is a_call_identity, of 0 None] by (simp add: declared_rules_def js_nullish_def js_or_def)

lemma acquisition_of_milestone_witness:
  "\<exists>m. m \<in> set (mapAll plain_mapper 0 a_call None None) \<and> map_of (ms_properties m) ''acquisitionSource'' = Some (JStr ''google_ads'')"
proof -
  have "milestone_names plain_mapper a_call None = [''appel'']"
    using phone_call_names [OF a_call_is, of None] by (simp add: declared_rules_def js_nullish_def js_or_def)
  then obtain m where m: "m \<in> set (mapAll plain_mapper 0 a_call None None)" using a_call_identity by (auto simp: mapAll_def)
  have "acquisitionSource plain_mapper (tc_payload a_call) = ''google_ads''"
    by (simp add: acquisitionSource_def a_call_def text_or_empty_def js_member_def js_nullish_def js_lower_def js_lower_char_def Let_def char_of_def bit_0)
  then show ?thesis using acquisition_of_milestone [OF m] m by auto
qed

end
