(* ===== verification/Twenty_Client.thy ===== *)
theory Twenty_Client
  imports Twenty_Mapper Webhook_Delivery Uuid Effects
begin

section \<open>CRM connector: the client\<close>

text \<open>
  \<^verbatim>\<open>api/src/webhooks/connectors/twenty-client.ts\<close> and \<^verbatim>\<open>deterministic-id.ts\<close>. The CRM is an argument: its answer to the n-th
  request. What was sent is a log. The body of a request is the object the code serialises; SHA-1 is an argument.
\<close>

subsection \<open>Identifiers of activities\<close>

(* src: api/src/webhooks/connectors/deterministic-id.ts:22-22 TIMELINE_NAMESPACE *)
definition TIMELINE_NAMESPACE :: string where
  "TIMELINE_NAMESPACE = ''b7e3c1a4-9f2d-5e6b-8c0a-1d2e3f405162''"

fun hex_bytes :: "string \<Rightarrow> 8 word list" where
  "hex_bytes (a # b # s) = word_of_nat (16 * js_nullish (hex_value a) 0 + js_nullish (hex_value b) 0) # hex_bytes s"
| "hex_bytes _ = []"

(* src: api/src/webhooks/connectors/deterministic-id.ts:25-27 uuidToBytes *)
definition uuidToBytes :: "string \<Rightarrow> 8 word list" where
  "uuidToBytes uuid = hex_bytes (filter (\<lambda>c. c \<noteq> CHR ''-'') uuid)"

(* src: api/src/webhooks/connectors/deterministic-id.ts:30-36 bytesToUuid *)
definition bytesToUuid :: "8 word list \<Rightarrow> string" where
  "bytesToUuid bytes =
     (let hex = concat (map byte_hex bytes)
      in js_join ''-'' [js_slice 0 8 hex, js_slice 8 12 hex, js_slice 12 16 hex, js_slice 16 20 hex, js_slice 20 32 hex])"

(* src: api/src/webhooks/connectors/deterministic-id.ts:42-55 uuidv5 *)
definition uuidv5 :: "(8 word list \<Rightarrow> string \<Rightarrow> 8 word list) \<Rightarrow> string \<Rightarrow> string" where
  "uuidv5 sha1 name =
     (let bytes = take 16 (sha1 (uuidToBytes TIMELINE_NAMESPACE) name);
          b1 = bytes[6 := (bytes ! 6 AND 0x0f) OR 0x50];
          b2 = b1[8 := (b1 ! 8 AND 0x3f) OR 0x80]
      in bytesToUuid b2)"

definition timeline_text :: "string \<Rightarrow> string \<Rightarrow> string \<Rightarrow> string" where
  "timeline_text personId eventId name = ''timeline:'' @ personId @ '':'' @ eventId @ '':'' @ name"

(* src: api/src/webhooks/connectors/deterministic-id.ts:69-75 deterministicTimelineId *)
definition deterministicTimelineId :: "(8 word list \<Rightarrow> string \<Rightarrow> 8 word list) \<Rightarrow> string \<Rightarrow> string \<Rightarrow> string \<Rightarrow> string" where
  "deterministicTimelineId sha1 targetPersonId eventId name = uuidv5 sha1 (timeline_text targetPersonId eventId name)"

subsection \<open>The wire\<close>

datatype crm_method = Get | Post | Patch

record crm_request =
  cr_method :: crm_method
  cr_base :: string
  cr_path :: string
  cr_query :: "(string \<times> string) list"
  cr_headers :: "(string \<times> string) list"
  cr_body :: jsval

text \<open>An answer has a status and a body, if it can be read; or the request fails, a timeout included.\<close>

datatype crm_answer = Answered int "string option" | Unanswered string

text \<open>The clock is read at successive ticks.\<close>

record crm_env =
  ce_mapper :: mapper_env
  ce_clock :: "nat \<Rightarrow> int"
  ce_answer :: "nat \<Rightarrow> crm_request \<Rightarrow> crm_answer"
  ce_sha1 :: "8 word list \<Rightarrow> string \<Rightarrow> 8 word list"

record wire =
  wi_log :: "crm_request list"
  wi_ticks :: nat

definition reads_clock :: "'e crm_env_scheme \<Rightarrow> ('s wire_scheme, string, int) act" where
  "reads_clock env = (\<lambda>s. (Inr (ce_clock env (wi_ticks s)), s\<lparr>wi_ticks := Suc (wi_ticks s)\<rparr>))"

definition sends :: "'e crm_env_scheme \<Rightarrow> crm_request \<Rightarrow> ('s wire_scheme, string, int \<times> string option) act" where
  "sends env r = (\<lambda>s.
     (case ce_answer env (length (wi_log s)) r of Answered status body \<Rightarrow> Inr (status, body) | Unanswered m \<Rightarrow> Inl m,
      s\<lparr>wi_log := wi_log s @ [r]\<rparr>))"

subsection \<open>The client\<close>

(* src: api/src/webhooks/connectors/twenty-client.ts:30-39 TwentyClientConfig *)
record crm_client =
  cl_baseUrl :: string
  cl_bearer :: string
  cl_dryRun :: bool

(* src: api/src/webhooks/connectors/twenty-client.ts:73-78 headers *)
definition crm_headers :: "crm_client \<Rightarrow> (string \<times> string) list" where
  "crm_headers c = [(''Authorization'', ''Bearer '' @ cl_bearer c), (''Content-Type'', ''application/json'')]"

definition crm_request_of :: "crm_client \<Rightarrow> crm_method \<Rightarrow> string \<Rightarrow> (string \<times> string) list \<Rightarrow> jsval \<Rightarrow> crm_request" where
  "crm_request_of c m path query body =
     \<lparr>cr_method = m, cr_base = cl_baseUrl c, cr_path = path, cr_query = query, cr_headers = crm_headers c, cr_body = body\<rparr>"

(* src: api/src/webhooks/connectors/twenty-client.ts:260-262 escape *)
definition twenty_escape :: "string \<Rightarrow> string" where
  "twenty_escape value = concat (map (\<lambda>c. if c = q_char then [b_char, q_char] else [c]) value)"

(* src: api/src/webhooks/connectors/twenty-client.ts:264-270 safeText *)
definition safeText :: "string option \<Rightarrow> string" where
  "safeText body = take 500 (js_nullish body [])"

definition is_ok :: "int \<Rightarrow> bool" where
  "is_ok status \<longleftrightarrow> 200 \<le> status \<and> status \<le> 299"

(* src: api/src/webhooks/connectors/twenty-client.ts:57-60 ResolvedPerson *)
record resolved_person =
  rp_id :: string
  rp_doNotContact :: bool

text \<open>\<open>body.data?.people?.[0]\<close>; on \<open>null\<close> the first access throws.\<close>

definition first_element :: "jsval \<Rightarrow> jsval" where
  "first_element v = (case v of JStr (c # _) \<Rightarrow> JStr [c] | _ \<Rightarrow> js_member v ''0'')"

definition first_person :: "'e crm_env_scheme \<Rightarrow> string option \<Rightarrow> string + resolved_person option" where
  "first_person env body =
     (case Option.bind body json_parse of
        None \<Rightarrow> Inl ''invalid answer''
      | Some JsNull \<Rightarrow> Inl ''Cannot read properties of null''
      | Some v \<Rightarrow>
          (let person = first_element (js_member (js_member (jsval_of_json v) ''data'') ''people'')
           in if \<not> js_is_truthy person then Inr None
              else Inr (Some \<lparr>rp_id = js_text (me_numbers (ce_mapper env)) (js_member person ''id''),
                              rp_doNotContact = js_is_truthy (js_member person ''doNotContact'')\<rparr>)))"

(* src: api/src/webhooks/connectors/twenty-client.ts:130-150 resolve *)
definition crm_resolve :: "'e crm_env_scheme \<Rightarrow> crm_client \<Rightarrow> string \<Rightarrow> ('s wire_scheme, string, resolved_person option) act" where
  "crm_resolve env c flt =
     and_then (sends env (crm_request_of c Get ''/rest/people'' [(''filter'', flt), (''limit'', ''1'')] JUndefined))
       (\<lambda>(status, body).
          if \<not> is_ok status then throws (''Twenty resolve '' @ js_of_int status @ '': '' @ safeText body)
          else lifted (first_person env body))"

(* src: api/src/webhooks/connectors/twenty-client.ts:85-87 resolveByEmail *)
definition resolveByEmail :: "'e crm_env_scheme \<Rightarrow> crm_client \<Rightarrow> string \<Rightarrow> ('s wire_scheme, string, resolved_person option) act" where
  "resolveByEmail env c email = crm_resolve env c (''emails.primaryEmail[eq]:'' @ [q_char] @ twenty_escape email @ [q_char])"

(* src: api/src/webhooks/connectors/twenty-client.ts:90-92 resolveBySlug *)
definition resolveBySlug :: "'e crm_env_scheme \<Rightarrow> crm_client \<Rightarrow> string \<Rightarrow> ('s wire_scheme, string, resolved_person option) act" where
  "resolveBySlug env c slug = crm_resolve env c (''auditSlug[eq]:'' @ [q_char] @ twenty_escape slug @ [q_char])"

definition field_char :: "char \<Rightarrow> bool" where
  "field_char c \<longleftrightarrow> (let n = (of_char c :: nat) in 48 \<le> n \<and> n \<le> 57 \<or> 65 \<le> n \<and> n \<le> 90 \<or> 97 \<le> n \<and> n \<le> 122 \<or> n = 95 \<or> n = 46)"

(* src: api/src/webhooks/connectors/twenty-client.ts:100-107 resolveByField *)
definition resolveByField :: "'e crm_env_scheme \<Rightarrow> crm_client \<Rightarrow> string \<Rightarrow> string \<Rightarrow> ('s wire_scheme, string, resolved_person option) act" where
  "resolveByField env c field value =
     (let safeField = filter field_char field
      in if safeField = [] then returns None
         else crm_resolve env c (safeField @ ''[eq]:'' @ [q_char] @ twenty_escape value @ [q_char]))"

(* src: api/src/webhooks/connectors/twenty-client.ts:117-128 resolvePerson *)
definition resolvePerson ::
    "'e crm_env_scheme \<Rightarrow> crm_client \<Rightarrow> string \<Rightarrow> identity_kind option \<Rightarrow> string option \<Rightarrow> ('s wire_scheme, string, resolved_person option) act" where
  "resolvePerson env c identity kind field =
     (if kind = Some K_field \<and> js_truthy field then resolveByField env c (the field) identity
      else if kind = Some K_email then resolveByEmail env c identity
      else if kind = Some K_slug then resolveBySlug env c identity
      else if js_includes identity ''@'' then resolveByEmail env c identity
      else resolveBySlug env c identity)"

(* src: api/src/webhooks/connectors/twenty-client.ts:42-55 TimelineActivityInput *)
record timeline_item =
  ti_id :: string
  ti_name :: string
  ti_happensAt :: string
  ti_targetPersonId :: string
  ti_properties :: "(string \<times> jsval) list"

definition item_json :: "timeline_item \<Rightarrow> jsval" where
  "item_json i =
     JObj [(''id'', JStr (ti_id i)), (''name'', JStr (ti_name i)), (''happensAt'', JStr (ti_happensAt i)),
           (''targetPersonId'', JStr (ti_targetPersonId i)), (''properties'', JObj (ti_properties i)),
           (''createdBy'', JObj [(''source'', JStr ''API'')])]"

(* src: api/src/webhooks/connectors/twenty-client.ts:63-63 MAX_BATCH *)
definition MAX_BATCH :: nat where
  "MAX_BATCH = 60"

definition batch_request :: "crm_client \<Rightarrow> timeline_item list \<Rightarrow> crm_request" where
  "batch_request c items = crm_request_of c Post ''/rest/batch/timelineActivities'' [] (JArr (map item_json items))"

text \<open>An answer that says the activities are there already.\<close>

definition is_duplicate :: "int \<Rightarrow> string option \<Rightarrow> bool" where
  "is_duplicate status body \<longleftrightarrow> status = 409 \<or> (status = 400 \<and> js_includes (js_lower (safeText body)) ''duplicate'')"

(* src: api/src/webhooks/connectors/twenty-client.ts:153-195 batchTimeline *)
definition batchTimeline :: "'e crm_env_scheme \<Rightarrow> crm_client \<Rightarrow> timeline_item list \<Rightarrow> ('s wire_scheme, string, unit) act" where
  "batchTimeline env c items =
     (if items = [] then returns ()
      else if MAX_BATCH < length items then throws (''batchTimeline: '' @ js_of_nat (length items) @ '' > '' @ js_of_nat MAX_BATCH)
      else if cl_dryRun c then returns ()
      else and_then (sends env (batch_request c items))
             (\<lambda>(status, body).
                if is_ok status then returns ()
                else if is_duplicate status body then returns ()
                else throws (''Twenty batchTimeline '' @ js_of_int status @ '': '' @ safeText body)))"

definition acquisition_field :: "string \<Rightarrow> bool" where
  "acquisition_field k \<longleftrightarrow> k = ''firstTouchChannel'' \<or> k = ''referralCode''"

(* src: api/src/webhooks/connectors/twenty-client.ts:211-244 patchPersonAcquisition *)
definition patchPersonAcquisition ::
    "'e crm_env_scheme \<Rightarrow> crm_client \<Rightarrow> string \<Rightarrow> (string \<times> string) list \<Rightarrow> ('s wire_scheme, string, bool) act" where
  "patchPersonAcquisition env c personId flds =
     (let body = filter (\<lambda>(k, v). acquisition_field k \<and> v \<noteq> []) flds
      in if body = [] then returns False
         else if cl_dryRun c then returns True
         else and_then (sends env (crm_request_of c Patch (''/rest/people/'' @ personId) [] (JObj (map (map_prod id JStr) body))))
                (\<lambda>(status, text). returns (is_ok status)))"

(* src: api/src/webhooks/connectors/twenty-client.ts:247-257 reachable *)
definition reachable :: "'e crm_env_scheme \<Rightarrow> crm_client \<Rightarrow> ('s wire_scheme, string, bool) act" where
  "reachable env c =
     rescued (and_then (sends env (crm_request_of c Get ''/rest/people'' [(''limit'', ''1'')] JUndefined)) (\<lambda>(status, body). returns (is_ok status)))
       (\<lambda>e. returns False)"

(* src: api/src/webhooks/connectors/twenty-connector.service.ts:151-165 buildClient *)
definition buildClient :: "worker_env \<Rightarrow> string option \<Rightarrow> webhook \<Rightarrow> string \<Rightarrow> ssrf_error + crm_client" where
  "buildClient env dry_run_setting w secret =
     (case assertSafeUrlResolved (wk_resolve env) (we_allow_http (wk_env env)) (we_allow_private (wk_env env))
             (we_parse_url (wk_env env) (wh_url w)) of
        Inl e \<Rightarrow> Inl e
      | Inr _ \<Rightarrow> Inr \<lparr>cl_baseUrl = wh_url w, cl_bearer = secret,
          cl_dryRun = (wh_transform w = Some (Twenty True) \<or> dry_run_setting = Some ''true'')\<rparr>)"

subsection \<open>Identifiers are well formed and tell activities apart\<close>

lemma power_numeral_16: "2 ^ 4 = (16::nat)"
  by simp

lemma version_byte: "unat ((b AND 0x0f) OR 0x50 :: 8 word) div 16 = 5"
proof -
  have "b AND 0x0f = take_bit 4 b" by (simp add: take_bit_eq_mask mask_eq_exp_minus_1)
  then have "unat (b AND 0x0f) = unat b mod 16"
    by (metis take_bit_eq_mod unsigned_take_bit_eq power_numeral_16)
  then have "unat ((b AND 0x0f) OR 0x50) = (unat b mod 16) OR 0x50"
    by (simp add: unsigned_or_eq)
  moreover have "(n OR 0x50) div 16 = 5" if "n < 16" for n :: nat
  proof -
    have "(n OR 0x50) div 16 = drop_bit 4 n OR drop_bit 4 0x50" by (metis drop_bit_eq_div drop_bit_or power_numeral_16)
    with that show ?thesis by (simp add: drop_bit_eq_div)
  qed
  ultimately show ?thesis by simp
qed

lemma bytesToUuid_uuid: "length bs = 16 \<Longrightarrow> is_uuid (bytesToUuid bs)"
  unfolding bytesToUuid_def Let_def
  by (rule is_uuid_join) (use bytes_hex_is_hex [of bs] in simp_all)

lemma nth_bytes_hex: "i < length bs \<Longrightarrow> concat (map byte_hex bs) ! (2 * i) = hex_digit (unat (bs ! i) div 16 mod 16)"
proof (induction bs arbitrary: i)
  case (Cons b bs)
  then show ?case by (cases i) (simp_all add: byte_hex_fixed numeral_2_eq_2)
qed simp

lemma uuidv5_uuid:
  assumes "16 \<le> length (sha1 (uuidToBytes TIMELINE_NAMESPACE) name)"
  shows "is_uuid (uuidv5 sha1 name)" "uuidv5 sha1 name ! 14 = CHR ''5''"
proof -
  define bs where "bs = take 16 (sha1 (uuidToBytes TIMELINE_NAMESPACE) name)"
  define b1 where "b1 = bs[6 := (bs ! 6 AND 0x0f) OR 0x50]"
  define b2 where "b2 = b1[8 := (b1 ! 8 AND 0x3f) OR 0x80]"
  have l: "length b2 = 16" using assms by (simp add: b2_def b1_def bs_def)
  have u: "uuidv5 sha1 name = bytesToUuid b2" by (simp add: uuidv5_def bs_def b1_def b2_def Let_def)
  show "is_uuid (uuidv5 sha1 name)" using l by (simp add: u bytesToUuid_uuid)
  have "b2 ! 6 = (bs ! 6 AND 0x0f) OR 0x50" using l by (simp add: b2_def b1_def)
  then have "concat (map byte_hex b2) ! 12 = hex_digit 5" using nth_bytes_hex [of 6 b2] l version_byte by simp
  moreover have "bytesToUuid b2 ! 14 = concat (map byte_hex b2) ! 12"
    using l by (simp add: bytesToUuid_def Let_def nth_append nth_Cons' js_slice_def)
  ultimately show "uuidv5 sha1 name ! 14 = CHR ''5''" by (simp add: u hex_digit_def char_of_def bit_0)
qed

lemma split_at_char: "c \<notin> set a \<Longrightarrow> c \<notin> set b \<Longrightarrow> a @ c # r = b @ c # t \<Longrightarrow> a = b \<and> r = t"
proof (induction a arbitrary: b)
  case Nil
  then show ?case by (cases b) auto
next
  case (Cons x a)
  then show ?case by (cases b) auto
qed

lemma timeline_text_inject:
  assumes "timeline_text p e n = timeline_text p' e' n'" "CHR '':'' \<notin> set p \<union> set p' \<union> set n \<union> set n'"
  shows "p = p' \<and> e = e' \<and> n = n'"
proof -
  have "p @ CHR '':'' # (e @ CHR '':'' # n) = p' @ CHR '':'' # (e' @ CHR '':'' # n')"
    using assms(1) by (simp add: timeline_text_def)
  then have p: "p = p'" "e @ CHR '':'' # n = e' @ CHR '':'' # n'" using split_at_char [of "CHR '':''" p p'] assms(2) by auto
  then have "rev n @ CHR '':'' # rev e = rev n' @ CHR '':'' # rev e'"
    by (metis append.assoc append_Cons append_Nil rev.simps(2) rev_append)
  then have "rev n = rev n' \<and> rev e = rev e'" using assms(2) by (intro split_at_char) auto
  with p show ?thesis by simp
qed

text \<open>
  The identifier of an activity is a UUID of version five. It is computed from a text that determines person, event and milestone, as
  long as neither the person's identifier nor the milestone's name has a colon.
\<close>
theorem activity_identifiers:
  shows "(16 \<le> length (sha1 (uuidToBytes TIMELINE_NAMESPACE) (timeline_text p e n)) \<longrightarrow>
      is_uuid (deterministicTimelineId sha1 p e n) \<and> deterministicTimelineId sha1 p e n ! 14 = CHR ''5'') \<and>
    (timeline_text p e n = timeline_text p' e' n' \<and> CHR '':'' \<notin> set p \<union> set p' \<union> set n \<union> set n' \<longrightarrow> p = p' \<and> e = e' \<and> n = n')"
  using uuidv5_uuid [of sha1 "timeline_text p e n"] timeline_text_inject [of p e n p' e' n'] by (simp add: deterministicTimelineId_def)

lemma activity_identifiers_witness: "is_uuid (deterministicTimelineId (\<lambda>_ _. replicate 20 0) ''p'' ''e'' ''signup'')"
  using activity_identifiers [of "\<lambda>_ _. replicate 20 0" "''p''" "''e''" "''signup''"] by simp

subsection \<open>The filter of a lookup\<close>

text \<open>How a quoted value is read where a backslash protects the character after it, which is what the escaping supposes.\<close>

fun read_quoted :: "string \<Rightarrow> (string \<times> string) option" where
  "read_quoted [] = None"
| "read_quoted (c # s) =
     (if c = q_char then Some ([], s)
      else if c = b_char then (case s of [] \<Rightarrow> None | d # r \<Rightarrow> map_option (apfst (Cons d)) (read_quoted r))
      else map_option (apfst (Cons c)) (read_quoted s))"

lemma twenty_escape_simps [simp]:
  "twenty_escape [] = []"
  "twenty_escape (c # s) = (if c = q_char then [b_char, q_char] else [c]) @ twenty_escape s"
  by (simp_all add: twenty_escape_def)

lemma twenty_escape_append: "twenty_escape (s @ t) = twenty_escape s @ twenty_escape t"
  by (simp add: twenty_escape_def)

lemma b_not_q [simp]: "b_char \<noteq> q_char" "q_char \<noteq> b_char"
  by (simp_all add: b_char_def q_char_def)

lemma read_quoted_plain: "b_char \<notin> set v \<Longrightarrow> read_quoted t = Some (u, r) \<Longrightarrow> read_quoted (twenty_escape v @ t) = Some (v @ u, r)"
  by (induction v) auto

text \<open>
  A value without backslashes is read back whole from the filter of a lookup. A backslash before a quote ends the value there, and
  what follows in it is read as part of the filter.
\<close>
theorem escaped_value_read:
  shows "(b_char \<notin> set v \<longrightarrow> read_quoted (twenty_escape v @ q_char # r) = Some (v, r)) \<and>
    (b_char \<notin> set u \<longrightarrow>
      read_quoted (twenty_escape (u @ [b_char, q_char] @ w) @ q_char # r) = Some (u @ [b_char], twenty_escape w @ q_char # r))"
  using read_quoted_plain [of v "q_char # r" "[]" r]
    read_quoted_plain [of u "b_char # b_char # q_char # twenty_escape w @ q_char # r" "[b_char]" "twenty_escape w @ q_char # r"]
  by (simp add: twenty_escape_append)

lemma escaped_value_read_witness:
  "read_quoted (twenty_escape ''a@b'' @ [q_char]) = Some (''a@b'', []) \<and>
   read_quoted (twenty_escape ([b_char, q_char] @ '',id[neq]:'') @ [q_char]) = Some ([b_char], '',id[neq]:'' @ [q_char])"
proof -
  have plain: "b_char \<notin> set ''a@b''" "b_char \<notin> set ([] :: string)" by (simp_all add: b_char_def)
  have "read_quoted (twenty_escape ''a@b'' @ q_char # []) = Some (''a@b'', [])"
    using escaped_value_read [of "''a@b''" "[]"] plain(1) by blast
  moreover have "read_quoted (twenty_escape ([] @ [b_char, q_char] @ '',id[neq]:'') @ q_char # []) = Some ([] @ [b_char], twenty_escape '',id[neq]:'' @ q_char # [])"
    using escaped_value_read [of _ "[]" "[]" "'',id[neq]:''"] plain(2) by blast
  moreover have "twenty_escape '',id[neq]:'' = '',id[neq]:''" by (simp add: q_char_def)
  ultimately show ?thesis by (simp del: twenty_escape_simps read_quoted.simps)
qed

end
