(* ===== verification/Effect_Relations.thy ===== *)
theory Effect_Relations
  imports Effects
begin

text \<open>
  What an asynchronous function of \<open>Effects\<close> does whether it returns or throws: a relation between the state before and after.
  \<open>surely m Q\<close> says that \<open>m\<close> never throws, and what it returns.
\<close>

definition moves :: "('s \<Rightarrow> 's \<Rightarrow> bool) \<Rightarrow> ('s, 'e, 'a) act \<Rightarrow> bool" where
  "moves R m \<longleftrightarrow> (\<forall>s. R s (snd (m s)))"

definition surely :: "('s, 'e, 'a) act \<Rightarrow> ('a \<Rightarrow> bool) \<Rightarrow> bool" where
  "surely m Q \<longleftrightarrow> (\<forall>s. \<exists>x s1. m s = (Inr x, s1) \<and> Q x)"

named_theorems surely_rules "what is returned without throwing"

text \<open>The relations are reflexive and transitive, so that they hold of a sequence if they hold of its parts.\<close>

locale state_order =
  fixes R :: "'s \<Rightarrow> 's \<Rightarrow> bool"
  assumes unchanged: "R s s" and follows: "R s t \<Longrightarrow> R t u \<Longrightarrow> R s u"
begin

lemma moves_pure: "moves R (returns x)" "moves R (throws e)" "moves R (asks f)" "moves R (lifted r)"
  by (simp_all add: moves_def act_simps unchanged)

lemma moves_modifies: "(\<And>s. R s (f s)) \<Longrightarrow> moves R (modifies f)"
  by (simp add: moves_def act_simps)

lemma moves_and_then: "moves R m \<Longrightarrow> (\<And>x. moves R (f x)) \<Longrightarrow> moves R (and_then m f)"
  unfolding moves_def and_then_def
  by (auto split: prod.splits sum.splits) (metis snd_conv follows)+

lemma moves_rescued: "moves R m \<Longrightarrow> (\<And>e. moves R (h e)) \<Longrightarrow> moves R (rescued m h)"
  unfolding moves_def rescued_def
  by (auto split: prod.splits sum.splits) (metis snd_conv follows)+

lemma moves_if: "(b \<Longrightarrow> moves R m) \<Longrightarrow> (\<not> b \<Longrightarrow> moves R k) \<Longrightarrow> moves R (if b then m else k)"
  by simp

lemma moves_option: "(v = None \<Longrightarrow> moves R m) \<Longrightarrow> (\<And>x. v = Some x \<Longrightarrow> moves R (k x)) \<Longrightarrow>
    moves R (case v of None \<Rightarrow> m | Some x \<Rightarrow> k x)"
  by (cases v) simp_all

lemma moves_prod: "(\<And>x y. v = (x, y) \<Longrightarrow> moves R (k x y)) \<Longrightarrow> moves R (case v of (x, y) \<Rightarrow> k x y)"
  by (cases v) simp

lemmas moves_rules = moves_pure moves_and_then moves_rescued moves_if moves_option moves_prod

end

lemma surelyD: "surely m Q \<Longrightarrow> m s = (r, s1) \<Longrightarrow> \<exists>x. r = Inr x \<and> Q x"
  unfolding surely_def by (metis prod.inject)

lemma surely_weaken: "surely m Q \<Longrightarrow> (\<And>x. Q x \<Longrightarrow> Q' x) \<Longrightarrow> surely m Q'"
  unfolding surely_def by blast

lemma surely_returns [surely_rules]: "Q x \<Longrightarrow> surely (returns x) Q"
  by (simp add: surely_def returns_def)

lemma surely_asks [surely_rules]: "(\<And>s. Q (f s)) \<Longrightarrow> surely (asks f) Q"
  by (simp add: surely_def asks_def)

lemma surely_modifies [surely_rules]: "Q () \<Longrightarrow> surely (modifies f) Q"
  by (simp add: surely_def modifies_def)

lemma surely_and_then: "surely m P \<Longrightarrow> (\<And>x. P x \<Longrightarrow> surely (f x) Q) \<Longrightarrow> surely (and_then m f) Q"
  unfolding surely_def and_then_def by (auto split: prod.splits sum.splits) (metis prod.inject sum.inject(2) sum.distinct(1))+

lemma surely_rescued: "(\<And>s x s1. m s = (Inr x, s1) \<Longrightarrow> Q x) \<Longrightarrow> (\<And>e. surely (h e) Q) \<Longrightarrow> surely (rescued m h) Q"
  unfolding surely_def rescued_def by (auto split: prod.splits sum.splits)

lemma surely_if [surely_rules]: "(b \<Longrightarrow> surely m Q) \<Longrightarrow> (\<not> b \<Longrightarrow> surely k Q) \<Longrightarrow> surely (if b then m else k) Q"
  by simp

end
