(* ===== verification/Twenty_Connector.thy ===== *)
theory Twenty_Connector
  imports Twenty_Client Effect_Relations "HOL-Library.Multiset"
begin

section \<open>CRM connector: a flush\<close>

text \<open>
  \<^verbatim>\<open>api/src/webhooks/connectors/twenty-connector.service.ts\<close>. The state is the connector's four caches, the call budget
  it is lent, and the wire of the client. A \<open>Map\<close> is an association list in the order of insertion. What the
  services answer (workspaces, the table of attributions) may differ from tick to tick.
\<close>

subsection \<open>State\<close>

(* src: api/src/webhooks/connectors/twenty-connector.service.ts:68-71 CachedPerson *)
record cached_person =
  cp_id :: string
  cp_resolvedAt :: int

(* src: api/src/webhooks/connectors/twenty-connector.service.ts:73-76 CachedCrmConfig *)
record cached_config =
  cc_config :: "crm_mapping option"
  cc_resolvedAt :: int

(* src: api/src/webhooks/connectors/twenty-connector.service.ts:78-82 CachedFirstTouch *)
record cached_touch =
  ct_attribution :: "first_touch option"
  ct_resolvedAt :: int

(* src: api/src/webhooks/connectors/twenty-connector.service.ts:94-107 TwentyConnectorService *)
record connector = wire +
  cn_personCache :: "(string \<times> cached_person) list"
  cn_crmConfigCache :: "(string \<times> cached_config) list"
  cn_firstTouchCache :: "(string \<times> cached_touch) list"
  cn_acquisitionPatched :: "(string \<times> string) list"
  cn_budget :: twenty_budget

text \<open>A row of the query on the attributions.\<close>

record attribution_row =
  at_channel :: string
  at_channel_group :: string
  at_referral_code :: string

record connector_env = crm_env +
  ce_workspace :: "nat \<Rightarrow> string \<Rightarrow> string + crm_mapping option"
  ce_attribution :: "nat \<Rightarrow> string \<Rightarrow> string \<Rightarrow> string + attribution_row option"
  ce_cache_setting :: "string option"

type_synonym 'a cact = "(connector, string, 'a) act"

(* src: api/src/webhooks/connectors/twenty-connector.service.ts:47-47 BATCH_SIZE *)
definition BATCH_SIZE :: nat where
  "BATCH_SIZE = 60"

(* src: api/src/webhooks/connectors/twenty-connector.service.ts:48-48 PERSON_CACHE_TTL_MS *)
definition PERSON_CACHE_TTL_MS :: int where
  "PERSON_CACHE_TTL_MS = 24 * 60 * 60 * 1000"

(* src: api/src/webhooks/connectors/twenty-connector.service.ts:55-55 FIRST_TOUCH_CACHE_TTL_MS *)
definition FIRST_TOUCH_CACHE_TTL_MS :: int where
  "FIRST_TOUCH_CACHE_TTL_MS = 10 * 60 * 1000"

(* src: api/src/webhooks/connectors/twenty-connector.service.ts:66-66 CRM_CONFIG_CACHE_TTL_MS *)
definition CRM_CONFIG_CACHE_TTL_MS :: int where
  "CRM_CONFIG_CACHE_TTL_MS = 60 * 1000"

(* src: api/src/webhooks/connectors/twenty-connector.service.ts:116-121 constructor *)
definition personCacheMaxSize :: "connector_env \<Rightarrow> nat" where
  "personCacheMaxSize env =
     (case js_parse_int (js_nullish (ce_cache_setting env) []) of
        Some n \<Rightarrow> (if 0 < n then nat n else 50000)
      | None \<Rightarrow> 50000)"

text \<open>One insertion into a bounded map: at the bound the oldest entry goes.\<close>

(* src: api/src/webhooks/connectors/twenty-connector.service.ts:543-549 cacheBounded *)
definition cacheBounded :: "nat \<Rightarrow> string \<Rightarrow> 'v \<Rightarrow> (string \<times> 'v) list \<Rightarrow> (string \<times> 'v) list" where
  "cacheBounded bound key value m =
     AList.update key value
       (if bound \<le> length m \<and> key \<notin> fst ` set m then (case m of [] \<Rightarrow> [] | (oldest, _) # _ \<Rightarrow> AList.delete oldest m) else m)"

(* src: api/src/webhooks/connectors/twenty-connector.service.ts:527-536 cachePerson *)
definition cachePerson :: "connector_env \<Rightarrow> string \<Rightarrow> string \<Rightarrow> unit cact" where
  "cachePerson env key i =
     and_then (reads_clock env) (\<lambda>now.
       modifies (\<lambda>s. s\<lparr>cn_personCache :=
         cacheBounded (personCacheMaxSize env) key \<lparr>cp_id = i, cp_resolvedAt = now\<rparr> (cn_personCache s)\<rparr>))"

(* src: api/src/webhooks/connectors/twenty-budget.ts:26-35 take *)
definition takes_token :: "connector_env \<Rightarrow> bool cact" where
  "takes_token env =
     and_then (reads_clock env) (\<lambda>now s.
       case take_token now (cn_budget s) of (ok, b) \<Rightarrow> (Inr ok, s\<lparr>cn_budget := b\<rparr>))"

subsection \<open>What is read besides the CRM\<close>

(* src: api/src/webhooks/connectors/twenty-connector.service.ts:551-558 parseBody *)
definition parseBody :: "string \<Rightarrow> jsval" where
  "parseBody raw =
     (case json_parse raw of
        Some (JsObj kvs) \<Rightarrow> jsval_of_json (JsObj kvs)
      | Some (JsArr vs) \<Rightarrow> jsval_of_json (JsArr vs)
      | _ \<Rightarrow> JObj [])"

text \<open>A read through a cache: an entry younger than the time to live answers, else the source does.\<close>

definition cached_read :: "int \<Rightarrow> ('c \<Rightarrow> int) \<Rightarrow> ('c \<Rightarrow> 'v) \<Rightarrow> 'c option \<Rightarrow> int \<Rightarrow> 'v cact \<Rightarrow> 'v cact" where
  "cached_read ttl stamp value entry now fresh =
     (case entry of
        Some c \<Rightarrow> (if now - stamp c < ttl then returns (value c) else fresh)
      | None \<Rightarrow> fresh)"

(* src: api/src/webhooks/connectors/twenty-connector.service.ts:355-374 getCrmConfig *)
definition getCrmConfig :: "connector_env \<Rightarrow> string \<Rightarrow> crm_mapping option cact" where
  "getCrmConfig env workspaceId =
     and_then (reads_clock env) (\<lambda>now.
     and_then (asks (\<lambda>s. map_of (cn_crmConfigCache s) workspaceId)) (\<lambda>entry.
       cached_read CRM_CONFIG_CACHE_TTL_MS cc_resolvedAt cc_config entry now
         (and_then (asks (\<lambda>s. case ce_workspace env (wi_ticks s) workspaceId of Inl e \<Rightarrow> None | Inr c \<Rightarrow> c)) (\<lambda>config.
          and_then (reads_clock env) (\<lambda>later.
          and_then (modifies (\<lambda>s. s\<lparr>cn_crmConfigCache :=
              AList.update workspaceId \<lparr>cc_config = config, cc_resolvedAt = later\<rparr> (cn_crmConfigCache s)\<rparr>)) (\<lambda>_.
            returns config))))))"

text \<open>A row without an acquisition and without a referral code counts as none.\<close>

(* src: api/src/webhooks/connectors/twenty-connector.service.ts:412-427 getFirstTouch *)
definition touch_of_row :: "attribution_row option \<Rightarrow> first_touch option" where
  "touch_of_row row =
     (case row of
        None \<Rightarrow> None
      | Some r \<Rightarrow>
          (if (at_channel_group r \<noteq> [] \<and> at_channel_group r \<noteq> ''direct'' \<and> at_channel_group r \<noteq> ''not-mapped'') \<or> at_referral_code r \<noteq> []
           then Some \<lparr>ft_channelGroup = at_channel_group r, ft_channel = at_channel r, ft_referralCode = at_referral_code r\<rparr>
           else None))"

(* src: api/src/webhooks/connectors/twenty-connector.service.ts:387-439 getFirstTouch *)
definition getFirstTouch :: "connector_env \<Rightarrow> string \<Rightarrow> string \<Rightarrow> first_touch option cact" where
  "getFirstTouch env workspaceId userId =
     (let key = workspaceId @ '':'' @ userId
      in and_then (reads_clock env) (\<lambda>now.
         and_then (asks (\<lambda>s. map_of (cn_firstTouchCache s) key)) (\<lambda>entry.
           cached_read FIRST_TOUCH_CACHE_TTL_MS ct_resolvedAt ct_attribution entry now
             (and_then (asks (\<lambda>s. case ce_attribution env (wi_ticks s) workspaceId userId of Inl e \<Rightarrow> None | Inr row \<Rightarrow> touch_of_row row)) (\<lambda>attribution.
              and_then (reads_clock env) (\<lambda>later.
              and_then (modifies (\<lambda>s. s\<lparr>cn_firstTouchCache :=
                  cacheBounded (personCacheMaxSize env) key \<lparr>ct_attribution = attribution, ct_resolvedAt = later\<rparr> (cn_firstTouchCache s)\<rparr>)) (\<lambda>_.
                returns attribution)))))))"

subsection \<open>The person\<close>

(* src: api/src/webhooks/connectors/twenty-connector.service.ts:85-88 PersonResolution *)
datatype person_resolution = Found string | Not_found | No_budget

fun kind_text :: "identity_kind \<Rightarrow> string" where
  "kind_text K_email = ''email''"
| "kind_text K_slug = ''slug''"
| "kind_text K_field = ''field''"

definition person_key :: "string \<Rightarrow> milestone \<Rightarrow> string" where
  "person_key workspaceId m =
     workspaceId @ '':'' @ kind_text (ms_kind m) @ '':'' @ js_nullish (ms_field m) [] @ '':'' @ ms_identity m"

(* src: api/src/webhooks/connectors/twenty-connector.service.ts:498-520 resolvePersonId *)
definition resolvePersonId :: "connector_env \<Rightarrow> string \<Rightarrow> milestone \<Rightarrow> crm_client \<Rightarrow> person_resolution cact" where
  "resolvePersonId env workspaceId m c =
     (let key = person_key workspaceId m
      in and_then (reads_clock env) (\<lambda>now.
         and_then (asks (\<lambda>s. map_of (cn_personCache s) key)) (\<lambda>entry.
           cached_read PERSON_CACHE_TTL_MS cp_resolvedAt (\<lambda>p. Found (cp_id p)) entry now
             (and_then (takes_token env) (\<lambda>ok.
                if \<not> ok then returns No_budget
                else and_then (resolvePerson env c (ms_identity m) (Some (ms_kind m)) (ms_field m)) (\<lambda>person.
                  case person of
                    None \<Rightarrow> returns Not_found
                  | Some p \<Rightarrow> and_then (cachePerson env key (rp_id p)) (\<lambda>_. returns (Found (rp_id p)))))))))"

subsection \<open>Collecting the activities of a flush\<close>

record activity =
  ac_deliveryId :: string
  ac_mapped :: milestone
  ac_personId :: string

record collected =
  co_outcome :: connector_outcome
  co_activities :: "activity list"
  co_patches :: "(string \<times> first_touch) list"

definition skip :: "string \<Rightarrow> collected \<Rightarrow> collected" where
  "skip i c = c\<lparr>co_outcome := (co_outcome c)\<lparr>co_skipped := co_skipped (co_outcome c) @ [i]\<rparr>\<rparr>"

definition orphan :: "string \<Rightarrow> collected \<Rightarrow> collected" where
  "orphan i c = c\<lparr>co_outcome := (co_outcome c)\<lparr>co_orphans := co_orphans (co_outcome c) @ [i]\<rparr>\<rparr>"

definition fails :: "string \<Rightarrow> collected \<Rightarrow> collected" where
  "fails i c = c\<lparr>co_outcome := (co_outcome c)\<lparr>co_failed := co_failed (co_outcome c) @ [i]\<rparr>\<rparr>"

(* src: api/src/webhooks/connectors/twenty-connector.service.ts:345-347 isSignupClass *)
definition isSignupClass :: "connector_env \<Rightarrow> jsval \<Rightarrow> bool" where
  "isSignupClass env payload \<longleftrightarrow> text_or_empty (ce_mapper env) (js_member payload ''goal_name'') = ''signup''"

(* src: api/src/webhooks/connectors/twenty-connector.service.ts:326-342 mapDelivery *)
definition mapDelivery :: "connector_env \<Rightarrow> int \<Rightarrow> webhook \<Rightarrow> delivery \<Rightarrow> crm_mapping option \<Rightarrow> first_touch option \<Rightarrow> milestone list" where
  "mapDelivery env now w d config firstTouch =
     mapAll (ce_mapper env) now
       \<lparr>tc_workspace_id = wh_workspace_id w, tc_event_type = dl_event_type d, tc_event_id = dl_event_id d,
        tc_payload = parseBody (dl_request_body d)\<rparr> config firstTouch"

definition user_of :: "jsval \<Rightarrow> string" where
  "user_of payload = (case js_member payload ''user_id'' of JStr s \<Rightarrow> js_trim s | _ \<Rightarrow> [])"

text \<open>What the activities of a resolved delivery add, and the patch it asks for.\<close>

definition admit :: "connector_env \<Rightarrow> delivery \<Rightarrow> milestone list \<Rightarrow> string \<Rightarrow> first_touch option \<Rightarrow> collected \<Rightarrow> collected" where
  "admit env d ms personId firstTouch c =
     (let payload = parseBody (dl_request_body d)
      in c\<lparr>co_activities := co_activities c @ map (\<lambda>m. \<lparr>ac_deliveryId = dl_id d, ac_mapped = m, ac_personId = personId\<rparr>) ms,
           co_patches := (case firstTouch of
               Some ft \<Rightarrow> (if user_of payload \<noteq> [] \<and> isSignupClass env payload then AList.update personId ft (co_patches c) else co_patches c)
             | None \<Rightarrow> co_patches c)\<rparr>)"

text \<open>One delivery: the next state of the collection, or the end of the loop.\<close>

(* src: api/src/webhooks/connectors/twenty-connector.service.ts:205-275 flushBatch *)
definition collect_one :: "connector_env \<Rightarrow> webhook \<Rightarrow> crm_client \<Rightarrow> crm_mapping option \<Rightarrow> delivery \<Rightarrow> collected \<Rightarrow> collected option cact" where
  "collect_one env w c config d col =
     (let userId = user_of (parseBody (dl_request_body d))
      in and_then (if userId \<noteq> [] then getFirstTouch env (wh_workspace_id w) userId else returns None) (\<lambda>firstTouch.
         and_then (reads_clock env) (\<lambda>now.
           let ms = mapDelivery env now w d config firstTouch
           in if ms = [] then returns (Some (skip (dl_id d) col))
              else and_then (rescued (and_then (resolvePersonId env (wh_workspace_id w) (hd ms) c) (\<lambda>r. returns (Some r))) (\<lambda>e. returns None)) (\<lambda>resolution.
                case resolution of
                  None \<Rightarrow> returns (Some (fails (dl_id d) col))
                | Some No_budget \<Rightarrow> returns (Some (fails (dl_id d) col))
                | Some Not_found \<Rightarrow> returns (Some (orphan (dl_id d) col))
                | Some (Found personId) \<Rightarrow>
                    (if BATCH_SIZE < length (co_activities col) + length ms then returns None
                     else returns (Some (admit env d ms personId firstTouch col)))))))"

(* src: api/src/webhooks/connectors/twenty-connector.service.ts:204-276 flushBatch *)
fun collect_all :: "connector_env \<Rightarrow> webhook \<Rightarrow> crm_client \<Rightarrow> crm_mapping option \<Rightarrow> delivery list \<Rightarrow> collected \<Rightarrow> collected cact" where
  "collect_all env w c config [] col = returns col"
| "collect_all env w c config (d # ds) col =
     and_then (collect_one env w c config d col) (\<lambda>r. case r of None \<Rightarrow> returns col | Some col' \<Rightarrow> collect_all env w c config ds col')"

subsection \<open>The batch and the patches\<close>

definition item_of :: "connector_env \<Rightarrow> activity \<Rightarrow> timeline_item" where
  "item_of env a =
     \<lparr>ti_id = deterministicTimelineId (ce_sha1 env) (ac_personId a) (ms_eventId (ac_mapped a)) (ms_name (ac_mapped a)),
      ti_name = ms_name (ac_mapped a), ti_happensAt = ms_happensAt (ac_mapped a), ti_targetPersonId = ac_personId a,
      ti_properties = ms_properties (ac_mapped a)\<rparr>"

text \<open>\<open>new Set(..)\<close> in the order of insertion.\<close>

definition delivery_ids :: "activity list \<Rightarrow> string list" where
  "delivery_ids as = rev (remdups (rev (map ac_deliveryId as)))"

definition acquisition_fields :: "first_touch \<Rightarrow> (string \<times> string) list" where
  "acquisition_fields ft =
     (let acquisition = acquisitionFromFirstTouch ft
      in (if acquisition \<noteq> [] then [(''firstTouchChannel'', acquisition)] else []) @
         (if ft_referralCode ft \<noteq> [] then [(''referralCode'', ft_referralCode ft)] else []))"

definition patch_signature :: "first_touch \<Rightarrow> string" where
  "patch_signature ft =
     js_nullish (map_of (acquisition_fields ft) ''firstTouchChannel'') [] @ ''|'' @
     js_nullish (map_of (acquisition_fields ft) ''referralCode'') []"

(* src: api/src/webhooks/connectors/twenty-connector.service.ts:448-489 patchAcquisitions *)
fun patchAcquisitions :: "connector_env \<Rightarrow> string \<Rightarrow> (string \<times> first_touch) list \<Rightarrow> crm_client \<Rightarrow> unit cact" where
  "patchAcquisitions env workspaceId [] c = returns ()"
| "patchAcquisitions env workspaceId ((personId, ft) # ps) c =
     (if acquisition_fields ft = [] then patchAcquisitions env workspaceId ps c
      else
        (let markerKey = workspaceId @ '':'' @ personId
         in and_then (asks (\<lambda>s. map_of (cn_acquisitionPatched s) markerKey)) (\<lambda>marker.
              if marker = Some (patch_signature ft) then patchAcquisitions env workspaceId ps c
              else and_then (takes_token env) (\<lambda>token.
                if \<not> token then returns ()
                else and_then (rescued (patchPersonAcquisition env c personId (acquisition_fields ft)) (\<lambda>e. returns False)) (\<lambda>ok.
                  and_then (if ok then modifies (\<lambda>s. s\<lparr>cn_acquisitionPatched :=
                      cacheBounded (personCacheMaxSize env) markerKey (patch_signature ft) (cn_acquisitionPatched s)\<rparr>) else returns ()) (\<lambda>_.
                    patchAcquisitions env workspaceId ps c))))))"

subsection \<open>The flush\<close>

definition no_outcome :: connector_outcome where
  "no_outcome = \<lparr>co_written = [], co_orphans = [], co_failed = [], co_skipped = []\<rparr>"

definition all_failed :: "collected \<Rightarrow> connector_outcome" where
  "all_failed col = (co_outcome col)\<lparr>co_failed := co_failed (co_outcome col) @ delivery_ids (co_activities col)\<rparr>"

definition all_written :: "collected \<Rightarrow> connector_outcome" where
  "all_written col = (co_outcome col)\<lparr>co_written := co_written (co_outcome col) @ delivery_ids (co_activities col)\<rparr>"

(* src: api/src/webhooks/connectors/twenty-connector.service.ts:278-319 flushBatch *)
definition deliver_collected :: "connector_env \<Rightarrow> webhook \<Rightarrow> crm_client \<Rightarrow> collected \<Rightarrow> connector_outcome cact" where
  "deliver_collected env w c col =
     (if co_activities col = [] then returns (co_outcome col)
      else and_then (takes_token env) (\<lambda>token.
        if \<not> token then returns (all_failed col)
        else and_then (rescued (and_then (batchTimeline env c (map (item_of env) (co_activities col))) (\<lambda>_. returns True)) (\<lambda>e. returns False)) (\<lambda>sent.
          if \<not> sent then returns (all_failed col)
          else and_then (patchAcquisitions env (wh_workspace_id w) (co_patches col) c) (\<lambda>_. returns (all_written col)))))"

(* src: api/src/webhooks/connectors/twenty-connector.service.ts:178-320 flushBatch *)
definition flushBatch :: "connector_env \<Rightarrow> webhook \<Rightarrow> delivery list \<Rightarrow> crm_client \<Rightarrow> connector_outcome cact" where
  "flushBatch env w ds c =
     (if ds = [] then returns no_outcome
      else and_then (getCrmConfig env (wh_workspace_id w)) (\<lambda>config.
        and_then (collect_all env w c config ds \<lparr>co_outcome = no_outcome, co_activities = [], co_patches = []\<rparr>) (\<lambda>col.
          deliver_collected env w c col)))"

(* src: api/src/webhooks/connectors/twenty-connector.service.ts:561-566 clearCache *)
definition clearCache :: "connector \<Rightarrow> connector" where
  "clearCache s = s\<lparr>cn_personCache := [], cn_crmConfigCache := [], cn_firstTouchCache := [], cn_acquisitionPatched := []\<rparr>"

section \<open>What a flush does\<close>

subsection \<open>Requests the client makes\<close>

text \<open>
  What the client of one webhook may send: lookups of a person, a batch of one to sixty activities, and a patch of the two acquisition
  fields; writes only outside a dry run; always to its own CRM with its own secret.
\<close>

definition batch_body :: "jsval \<Rightarrow> bool" where
  "batch_body v \<longleftrightarrow> (\<exists>items. v = JArr (map item_json items) \<and> items \<noteq> [] \<and> length items \<le> MAX_BATCH)"

definition patch_body :: "jsval \<Rightarrow> bool" where
  "patch_body v \<longleftrightarrow> (\<exists>kvs. v = JObj (map (map_prod id JStr) kvs) \<and> kvs \<noteq> [] \<and> (\<forall>(k, t) \<in> set kvs. acquisition_field k \<and> t \<noteq> []))"

definition request_ok :: "crm_client \<Rightarrow> crm_request \<Rightarrow> bool" where
  "request_ok c r \<longleftrightarrow>
     cr_base r = cl_baseUrl c \<and> cr_headers r = crm_headers c \<and>
     (case cr_method r of
        Get \<Rightarrow> cr_path r = ''/rest/people'' \<and> cr_body r = JUndefined
      | Post \<Rightarrow> \<not> cl_dryRun c \<and> cr_path r = ''/rest/batch/timelineActivities'' \<and> batch_body (cr_body r)
      | Patch \<Rightarrow> \<not> cl_dryRun c \<and> (\<exists>i. cr_path r = ''/rest/people/'' @ i) \<and> patch_body (cr_body r))"

definition pure :: "'a cact \<Rightarrow> bool" where
  "pure m \<longleftrightarrow> (\<forall>s. snd (m s) = s)"

definition one_request :: "crm_client \<Rightarrow> 'a cact \<Rightarrow> bool" where
  "one_request c m \<longleftrightarrow> (\<forall>s. snd (m s) = s \<or> (\<exists>r. request_ok c r \<and> snd (m s) = s\<lparr>wi_log := wi_log s @ [r]\<rparr>))"

named_theorems one_request_rules "operations that make at most one request"

lemma pure_acts [one_request_rules]: "pure (returns x)" "pure (throws e)" "pure (lifted r)"
  by (simp_all add: pure_def act_simps)

lemma pure_if [one_request_rules]: "pure m \<Longrightarrow> pure k \<Longrightarrow> pure (if b then m else k)"
  by simp

lemma one_request_pure: "pure m \<Longrightarrow> one_request c m"
  by (simp add: pure_def one_request_def)

lemma one_request_acts: "one_request c (returns x)" "one_request c (throws e)"
  by (simp_all add: one_request_pure pure_acts)

lemma one_request_if [one_request_rules]: "(b \<Longrightarrow> one_request c m) \<Longrightarrow> (\<not> b \<Longrightarrow> one_request c k) \<Longrightarrow> one_request c (if b then m else k)"
  by simp

lemma one_request_and_then [one_request_rules]:
  assumes "one_request c m" "\<And>x. pure (f x)"
  shows "one_request c (and_then m f)"
  unfolding one_request_def
proof
  fix s
  obtain r s1 where m: "m s = (r, s1)" by fastforce
  then have "snd (and_then m f s) = s1"
    using assms(2) by (cases r) (simp_all add: and_then_def pure_def)
  then show "snd (and_then m f s) = s \<or> (\<exists>r. request_ok c r \<and> snd (and_then m f s) = s\<lparr>wi_log := wi_log s @ [r]\<rparr>)"
    using assms(1) m unfolding one_request_def by (metis snd_conv)
qed

lemma one_request_rescued [one_request_rules]:
  assumes "one_request c m" "\<And>e. pure (h e)"
  shows "one_request c (rescued m h)"
  unfolding one_request_def
proof
  fix s
  obtain r s1 where m: "m s = (r, s1)" by fastforce
  then have "snd (rescued m h s) = s1"
    using assms(2) by (cases r) (simp_all add: rescued_def pure_def)
  then show "snd (rescued m h s) = s \<or> (\<exists>r. request_ok c r \<and> snd (rescued m h s) = s\<lparr>wi_log := wi_log s @ [r]\<rparr>)"
    using assms(1) m unfolding one_request_def by (metis snd_conv)
qed

lemma one_request_sends [one_request_rules]: "request_ok c r \<Longrightarrow> one_request c (sends env r)"
  by (auto simp: one_request_def sends_def)

lemma resolvePerson_one: "one_request c (resolvePerson env c identity kind field :: resolved_person option cact)"
proof -
  have ok: "request_ok c (crm_request_of c Get ''/rest/people'' q JUndefined)" for q
    by (simp add: request_ok_def crm_request_of_def)
  have "one_request c (crm_resolve env c flt :: resolved_person option cact)" for flt
    unfolding crm_resolve_def
    by (rule one_request_and_then [OF one_request_sends [OF ok]]) (auto simp: one_request_rules split: prod.split)
  then show ?thesis
    by (auto simp: resolvePerson_def resolveByField_def resolveByEmail_def resolveBySlug_def Let_def one_request_pure pure_acts)
qed

lemma batchTimeline_one: "one_request c (batchTimeline env c items :: unit cact)"
proof -
  have "request_ok c (batch_request c items)" if "items \<noteq> []" "\<not> MAX_BATCH < length items" "\<not> cl_dryRun c"
    using that by (auto simp: request_ok_def batch_request_def crm_request_of_def batch_body_def not_less)
  then show ?thesis
    unfolding batchTimeline_def
    by (auto intro!: one_request_if one_request_and_then one_request_sends one_request_acts simp: pure_acts pure_if split: prod.split)
qed

lemma patchPersonAcquisition_one: "one_request c (patchPersonAcquisition env c personId flds :: bool cact)"
proof -
  define body where "body = filter (\<lambda>(k, v). acquisition_field k \<and> v \<noteq> []) flds"
  have "request_ok c (crm_request_of c Patch (''/rest/people/'' @ personId) [] (JObj (map (map_prod id JStr) body)))"
    if "body \<noteq> []" "\<not> cl_dryRun c"
  proof -
    have "patch_body (JObj (map (map_prod id JStr) body))"
      unfolding patch_body_def by (rule exI [of _ body]) (use that(1) in \<open>auto simp: body_def\<close>)
    then show ?thesis using that(2) by (simp add: request_ok_def crm_request_of_def)
  qed
  then show ?thesis
    unfolding patchPersonAcquisition_def body_def [symmetric] Let_def
    by (auto intro!: one_request_if one_request_and_then one_request_sends one_request_acts simp: pure_acts split: prod.split)
qed

subsection \<open>The steps of a flush\<close>

text \<open>
  A relation that every step of the connector respects, a request only together with the token it costs, holds between the states
  before and after a flush.
\<close>

locale connector_order = state_order R for R :: "connector \<Rightarrow> connector \<Rightarrow> bool" +
  fixes env :: connector_env and c :: crm_client
  assumes ticked: "R s (s\<lparr>wi_ticks := n\<rparr>)"
    and config_cached: "R s (s\<lparr>cn_crmConfigCache := cfg\<rparr>)"
    and touch_cached: "R s (s\<lparr>cn_firstTouchCache := cacheBounded (personCacheMaxSize env) k t (cn_firstTouchCache s)\<rparr>)"
    and person_cached: "R s (s\<lparr>cn_personCache := cacheBounded (personCacheMaxSize env) k p (cn_personCache s)\<rparr>)"
    and patch_cached: "R s (s\<lparr>cn_acquisitionPatched := cacheBounded (personCacheMaxSize env) k v (cn_acquisitionPatched s)\<rparr>)"
    and taken: "R s (s\<lparr>wi_ticks := n, cn_budget := snd (take_token (ce_clock env m) (cn_budget s))\<rparr>)"
    and paid: "take_token (ce_clock env m) (cn_budget s) = (True, b) \<Longrightarrow> request_ok c r \<Longrightarrow>
      R s (s\<lparr>wi_ticks := n, cn_budget := b, wi_log := wi_log s @ [r]\<rparr>)"
begin

lemma moves_clock: "moves R (reads_clock env)"
  by (simp add: moves_def reads_clock_def ticked)

lemma moves_token: "moves R (takes_token env)"
  using taken by (simp add: moves_def takes_token_def and_then_def reads_clock_def split: prod.split) (metis snd_conv)

lemma moves_paid:
  assumes "one_request c m" "\<And>x. moves R (k x)"
  shows "moves R (and_then (takes_token env) (\<lambda>ok. if \<not> ok then returns y else and_then m k))"
  unfolding moves_def
proof
  fix s :: connector
  obtain ok b where t: "take_token (ce_clock env (wi_ticks s)) (cn_budget s) = (ok, b)" by fastforce
  let ?s = "s\<lparr>wi_ticks := Suc (wi_ticks s), cn_budget := b\<rparr>"
  have token: "takes_token env s = (Inr ok, ?s)"
    by (simp add: takes_token_def and_then_def reads_clock_def t)
  have r: "R s ?s" using taken [where s = s and n = "Suc (wi_ticks s)" and m = "wi_ticks s"] by (simp add: t)
  show "R s (snd (and_then (takes_token env) (\<lambda>ok. if \<not> ok then returns y else and_then m k) s))"
  proof (cases ok)
    case False
    with r show ?thesis by (simp add: act_simps token)
  next
    case True
    obtain q s1 where m: "m ?s = (q, s1)" by fastforce
    have "s1 = ?s \<or> (\<exists>r. request_ok c r \<and> s1 = ?s\<lparr>wi_log := wi_log ?s @ [r]\<rparr>)"
      using assms(1) m unfolding one_request_def by (metis snd_conv)
    then have "R s s1" using r paid t True by auto
    with True token m show ?thesis
      using assms(2) follows [of s s1] by (cases q) (simp_all add: and_then_def moves_def)
  qed
qed

lemmas moves_reads = moves_and_then [OF moves_clock] moves_and_then [OF moves_pure(3)]

lemma moves_cached: "moves R fresh \<Longrightarrow> moves R (cached_read ttl stamp value entry now fresh)"
  by (simp add: cached_read_def moves_pure split: option.split)

lemma moves_config: "moves R (getCrmConfig env ws)"
  unfolding getCrmConfig_def
  by (intro moves_and_then moves_clock moves_cached moves_pure moves_modifies config_cached)

lemma moves_touch: "moves R (getFirstTouch env ws user)"
  unfolding getFirstTouch_def Let_def
  by (intro moves_and_then moves_clock moves_cached moves_pure moves_modifies touch_cached)

lemma moves_person: "moves R (resolvePersonId env ws m c)"
  unfolding resolvePersonId_def Let_def
proof (intro moves_reads moves_cached moves_paid resolvePerson_one)
  fix person :: "resolved_person option"
  show "moves R (case person of None \<Rightarrow> returns Not_found
      | Some p \<Rightarrow> and_then (cachePerson env (person_key ws m) (rp_id p)) (\<lambda>_. returns (Found (rp_id p))))"
    unfolding cachePerson_def
    by (intro moves_option moves_and_then moves_clock moves_pure moves_modifies person_cached)
qed

lemma moves_collect_one: "moves R (collect_one env w c config d col)"
  unfolding collect_one_def Let_def
proof (intro moves_and_then moves_if moves_touch moves_pure moves_clock moves_rescued moves_person)
  fix r :: "person_resolution option" and now ft
  show "moves R (case r of None \<Rightarrow> returns (Some (fails (dl_id d) col)) | Some No_budget \<Rightarrow> returns (Some (fails (dl_id d) col))
      | Some Not_found \<Rightarrow> returns (Some (orphan (dl_id d) col))
      | Some (Found personId) \<Rightarrow>
          (if BATCH_SIZE < length (co_activities col) + length (mapDelivery env now w d config ft) then returns None
           else returns (Some (admit env d (mapDelivery env now w d config ft) personId ft col))))"
    by (auto simp: moves_pure split: option.split person_resolution.split)
qed

lemma moves_collect_all: "moves R (collect_all env w c config ds col)"
proof (induction ds arbitrary: col)
  case (Cons d ds)
  then show ?case by (auto intro!: moves_and_then moves_collect_one moves_pure split: option.split)
qed (simp add: moves_pure)

lemma moves_patches: "moves R (patchAcquisitions env ws ps c)"
proof (induction ps)
  case (Cons p ps)
  obtain personId ft where p: "p = (personId, ft)" by fastforce
  show ?case
    unfolding p patchAcquisitions.simps Let_def
    by (intro moves_if moves_reads moves_paid one_request_rescued patchPersonAcquisition_one pure_acts Cons.IH
        moves_and_then [OF moves_if [OF moves_modifies moves_pure(1)]] patch_cached)
qed (simp add: moves_pure)

lemma moves_deliver: "moves R (deliver_collected env w c col)"
  unfolding deliver_collected_def
  by (intro moves_if moves_pure moves_paid one_request_rescued one_request_and_then batchTimeline_one pure_acts
      moves_and_then [OF moves_patches])

lemma moves_flush: "moves R (flushBatch env w ds c)"
  unfolding flushBatch_def by (intro moves_if moves_pure moves_and_then moves_config moves_collect_all moves_deliver)

end

end
