(* ===== verification/Twenty_Flush.thy ===== *)
theory Twenty_Flush
  imports Twenty_Connector
begin

section \<open>CRM connector: properties of a flush\<close>

text \<open>
  The relations every step of the connector respects, and what they give for a whole flush; how a flush accounts for its
  deliveries; and what goes wrong where the connector, its caches, the delivery worker and the queue meet.
\<close>

subsection \<open>What is sent\<close>

definition lawful :: "crm_client \<Rightarrow> connector \<Rightarrow> connector \<Rightarrow> bool" where
  "lawful c s s' \<longleftrightarrow> (\<exists>rs. wi_log s' = wi_log s @ rs \<and> list_all (request_ok c) rs)"

interpretation lawful: connector_order "lawful c" env c for env c
proof unfold_locales
  show "lawful c s s" for s by (simp add: lawful_def)
  show "lawful c s t \<Longrightarrow> lawful c t u \<Longrightarrow> lawful c s u" for s t u by (auto simp: lawful_def)
qed (simp_all add: lawful_def)

text \<open>
  A flush of a webhook sends nothing but lookups of persons, batches of one to sixty activities and patches that name no field of a
  person except the two of the acquisition, all to that webhook's address with that webhook's secret. In a dry run it only reads.
\<close>
theorem crm_requests_restricted:
  shows "\<exists>rs. wi_log (snd (flushBatch env w ds c s)) = wi_log s @ rs \<and>
    (\<forall>r \<in> set rs. cr_base r = cl_baseUrl c \<and> cr_headers r = crm_headers c \<and>
       (cr_method r = Post \<longrightarrow> \<not> cl_dryRun c \<and> batch_body (cr_body r)) \<and>
       (cr_method r = Patch \<longrightarrow> \<not> cl_dryRun c \<and> patch_body (cr_body r)))"
proof -
  have "lawful c s (snd (flushBatch env w ds c s))" using lawful.moves_flush by (simp add: moves_def)
  then show ?thesis by (fastforce simp: lawful_def list_all_iff request_ok_def)
qed

subsection \<open>What is kept\<close>

definition caches_within :: "nat \<Rightarrow> connector \<Rightarrow> bool" where
  "caches_within n s \<longleftrightarrow> length (cn_personCache s) \<le> n \<and> length (cn_firstTouchCache s) \<le> n \<and> length (cn_acquisitionPatched s) \<le> n"

definition keeps_within :: "nat \<Rightarrow> connector \<Rightarrow> connector \<Rightarrow> bool" where
  "keeps_within n s s' \<longleftrightarrow> (caches_within n s \<longrightarrow> caches_within n s')"

lemma personCacheMaxSize_pos: "0 < personCacheMaxSize env"
  by (auto simp: personCacheMaxSize_def split: option.split)

lemma length_update_le: "length (AList.update k v m) = (if k \<in> fst ` set m then length m else Suc (length m))"
  by (induction m) auto

lemma delete_shorter: "k \<in> fst ` set m \<Longrightarrow> length (AList.delete k m) < length m"
proof (induction m)
  case (Cons p m)
  show ?case
  proof (cases "fst p = k")
    case True
    then show ?thesis using length_delete_le [of k m] by (cases p) simp
  next
    case False
    then show ?thesis using Cons by (cases p) auto
  qed
qed simp

lemma cacheBounded_length:
  assumes "length m \<le> n" "0 < n"
  shows "length (cacheBounded n k v m) \<le> n"
proof (cases "n \<le> length m \<and> k \<notin> fst ` set m")
  case True
  then obtain o1 v1 m1 where m: "m = (o1, v1) # m1" using assms(2) by (cases m) auto
  have "length (AList.delete o1 m) < length m" by (rule delete_shorter) (simp add: m)
  then show ?thesis using True assms by (auto simp: cacheBounded_def m length_update_le)
next
  case False
  then show ?thesis using assms by (auto simp: cacheBounded_def length_update_le)
qed

interpretation bounded: connector_order "keeps_within (personCacheMaxSize env)" env c for env c
  by unfold_locales (auto simp: keeps_within_def caches_within_def cacheBounded_length personCacheMaxSize_pos)

text \<open>
  However many persons and users the events of a workspace name, the caches of persons, first touches and patches never hold more
  entries than the configured number, fifty thousand if none is; and a new entry is always there after its insertion.
\<close>
theorem crm_caches_bounded:
  assumes "length (cn_personCache s) \<le> personCacheMaxSize env" "length (cn_firstTouchCache s) \<le> personCacheMaxSize env"
    and "length (cn_acquisitionPatched s) \<le> personCacheMaxSize env"
  shows "(let s' = snd (flushBatch env w ds c s) in
      length (cn_personCache s') \<le> personCacheMaxSize env \<and> length (cn_firstTouchCache s') \<le> personCacheMaxSize env \<and>
      length (cn_acquisitionPatched s') \<le> personCacheMaxSize env) \<and>
    (\<forall>k v (m :: (string \<times> cached_person) list). map_of (cacheBounded (personCacheMaxSize env) k v m) k = Some v)"
proof -
  have "keeps_within (personCacheMaxSize env) s (snd (flushBatch env w ds c s))" using bounded.moves_flush by (simp add: moves_def)
  then show ?thesis using assms by (simp add: keeps_within_def caches_within_def Let_def cacheBounded_def update_conv')
qed

subsection \<open>What it costs\<close>

definition paid_for :: "connector_env \<Rightarrow> connector \<Rightarrow> connector \<Rightarrow> bool" where
  "paid_for env s s' \<longleftrightarrow> (\<exists>ts. set ts \<subseteq> range (ce_clock env) \<and> cn_budget s' = snd (take_all ts (cn_budget s)) \<and>
     length (wi_log s') \<le> length (wi_log s) + granted ts (cn_budget s))"

lemma snd_take_all: "snd (take_all (t # ts) b) = snd (take_all ts (snd (take_token t b)))"
  by (simp split: prod.split)

lemma take_all_append: "snd (take_all (ts @ us) b) = snd (take_all us (snd (take_all ts b)))"
  by (induction ts arbitrary: b) (simp_all add: snd_take_all del: take_all.simps(2))

lemma granted_append: "granted (ts @ us) b = granted ts b + granted us (snd (take_all ts b))"
  by (induction ts arbitrary: b) (simp_all add: snd_take_all del: take_all.simps(2))

lemma paid_for_free: "cn_budget s' = cn_budget s \<Longrightarrow> wi_log s' = wi_log s \<Longrightarrow> paid_for env s s'"
  unfolding paid_for_def by (rule exI [of _ "[]"]) simp

lemma paid_for_one:
  "cn_budget s' = snd (take_token (ce_clock env m) (cn_budget s)) \<Longrightarrow>
    length (wi_log s') \<le> length (wi_log s) + (if fst (take_token (ce_clock env m) (cn_budget s)) then 1 else 0) \<Longrightarrow> paid_for env s s'"
  unfolding paid_for_def by (rule exI [of _ "[ce_clock env m]"]) (simp split: prod.split)

interpretation paid: connector_order "paid_for env" env c for env c
proof unfold_locales
  show "paid_for env s s" for s by (rule paid_for_free) simp_all
  show "paid_for env s u" if st: "paid_for env s t" and tu: "paid_for env t u" for s t u
  proof -
    obtain ts where "set ts \<subseteq> range (ce_clock env)" "cn_budget t = snd (take_all ts (cn_budget s))"
        "length (wi_log t) \<le> length (wi_log s) + granted ts (cn_budget s)"
      using st by (auto simp: paid_for_def)
    moreover obtain us where "set us \<subseteq> range (ce_clock env)" "cn_budget u = snd (take_all us (cn_budget t))"
        "length (wi_log u) \<le> length (wi_log t) + granted us (cn_budget t)"
      using tu by (auto simp: paid_for_def)
    ultimately show ?thesis
      unfolding paid_for_def by (intro exI [of _ "ts @ us"]) (simp add: take_all_append granted_append)
  qed
  show "take_token (ce_clock env m) (cn_budget s) = (True, b) \<Longrightarrow> request_ok c r \<Longrightarrow>
      paid_for env s (s\<lparr>wi_ticks := n, cn_budget := b, wi_log := wi_log s @ [r]\<rparr>)" for s m b r n
    by (rule paid_for_one [of _ _ m]) simp_all
  show "paid_for env s (s\<lparr>wi_ticks := n, cn_budget := snd (take_token (ce_clock env m) (cn_budget s))\<rparr>)" for s n m
    by (rule paid_for_one [of _ _ m]) simp_all
qed (rule paid_for_free; simp)+

lemma granted_one_window:
  assumes "list_all (\<lambda>t. a \<le> t \<and> t < a + 60000) ts" "60000 \<le> a - tb_window_start b" "0 \<le> tb_limit b"
  shows "int (granted ts b) \<le> tb_limit b"
proof (cases ts)
  case (Cons t us)
  let ?b = "b\<lparr>tb_window_start := t, tb_used := 0\<rparr>"
  have "granted ts b = granted ts ?b"
    using assms(1,2) by (simp add: Cons take_token_def roll_window_def Let_def)
  moreover have "list_all (\<lambda>u. u - tb_window_start ?b < 60000) ts"
    using assms(1) by (auto simp: Cons list_all_iff)
  then have "int (granted ts ?b) \<le> max 0 (tb_limit ?b - tb_used ?b)" by (rule granted_same_window)
  ultimately show ?thesis using assms(3) by simp
qed (simp add: assms(3))

text \<open>
  C35: Every request of a flush, lookup, batch or patch, has taken a token. With a budget made for the pass, as the worker makes it, a
  flush that is over within a minute makes no more requests than the limit, however many deliveries it is given.
\<close>
theorem crm_requests_within_budget:
  assumes "\<And>n. a \<le> ce_clock env n \<and> ce_clock env n < a + 60000" "60000 \<le> a" "0 \<le> limit" "cn_budget s = new_budget limit"
  shows "int (length (wi_log (snd (flushBatch env w ds c s)))) \<le> int (length (wi_log s)) + limit"
proof -
  have "paid_for env s (snd (flushBatch env w ds c s))" using paid.moves_flush by (simp add: moves_def)
  then obtain ts where ts: "set ts \<subseteq> range (ce_clock env)"
      "length (wi_log (snd (flushBatch env w ds c s))) \<le> length (wi_log s) + granted ts (cn_budget s)"
    unfolding paid_for_def by blast
  have "list_all (\<lambda>t. a \<le> t \<and> t < a + 60000) ts" using ts(1) assms(1) by (fastforce simp: list_all_iff)
  then have "int (granted ts (cn_budget s)) \<le> limit"
    using granted_one_window [of a ts "cn_budget s"] assms(2-4) by (simp add: new_budget_def)
  with ts(2) show ?thesis by linarith
qed

subsection \<open>Every delivery is accounted for\<close>

text \<open>What one delivery does to the collection.\<close>

definition step_of :: "connector_env \<Rightarrow> webhook \<Rightarrow> crm_mapping option \<Rightarrow> delivery \<Rightarrow> collected \<Rightarrow> collected \<Rightarrow> bool" where
  "step_of env w config d col col' \<longleftrightarrow>
     col' = skip (dl_id d) col \<or> col' = orphan (dl_id d) col \<or> col' = fails (dl_id d) col \<or>
     (\<exists>now ms personId ft. ms = mapDelivery env now w d config ft \<and> ms \<noteq> [] \<and> col' = admit env d ms personId ft col)"

lemma surely_clock [surely_rules]: "surely (reads_clock env :: int cact) (\<lambda>_. True)"
  by (simp add: surely_def reads_clock_def)

lemma surely_token: "surely (takes_token env) (\<lambda>_. True)"
  by (simp add: surely_def takes_token_def and_then_def reads_clock_def split: prod.split)

lemma surely_cached: "surely fresh (\<lambda>_. True) \<Longrightarrow> surely (cached_read ttl stamp value entry now fresh) (\<lambda>_. True)"
  by (auto simp: cached_read_def surely_returns split: option.split)

lemma surely_config: "surely (getCrmConfig env ws) (\<lambda>_. True)"
  unfolding getCrmConfig_def
  by (intro surely_and_then [OF surely_clock] surely_and_then [OF surely_asks [of "\<lambda>_. True"]] surely_cached
      surely_and_then [OF surely_modifies [of "\<lambda>_. True"]] surely_returns TrueI)

lemma surely_touch: "surely (getFirstTouch env ws user) (\<lambda>_. True)"
  unfolding getFirstTouch_def Let_def
  by (intro surely_and_then [OF surely_clock] surely_and_then [OF surely_asks [of "\<lambda>_. True"]] surely_cached
      surely_and_then [OF surely_modifies [of "\<lambda>_. True"]] surely_returns TrueI)

lemma surely_collect_one:
  "surely (collect_one env w c config d col) (\<lambda>r. r = None \<or> (\<exists>col'. r = Some col' \<and> step_of env w config d col col'))"
  (is "surely _ ?Q")
proof -
  have tail: "surely (case r of None \<Rightarrow> returns (Some (fails (dl_id d) col)) | Some No_budget \<Rightarrow> returns (Some (fails (dl_id d) col))
      | Some Not_found \<Rightarrow> returns (Some (orphan (dl_id d) col))
      | Some (Found personId) \<Rightarrow>
          (if BATCH_SIZE < length (co_activities col) + length ms then returns None
           else returns (Some (admit env d ms personId ft col)))) ?Q" if "ms \<noteq> []" "ms = mapDelivery env now w d config ft" for r ms ft now
  proof -
    have "step_of env w config d col (admit env d ms p ft col)" for p
      unfolding step_of_def using that by blast
    then show ?thesis
      by (auto intro!: surely_returns split: option.split person_resolution.split) (simp_all add: step_of_def)
  qed
  have touch: "surely (if user_of p \<noteq> [] then getFirstTouch env ws u else returns None) (\<lambda>_. True)" for p ws u
    by (intro surely_if surely_touch surely_returns TrueI)
  show ?thesis
    unfolding collect_one_def Let_def
    by (intro surely_and_then [OF touch] surely_and_then [OF surely_clock] surely_if surely_returns
        surely_and_then [OF surely_rescued [where Q = "\<lambda>_. True"]] tail)
       (simp_all add: step_of_def surely_returns)
qed

definition accounts_for :: "collected \<Rightarrow> string list \<Rightarrow> bool" where
  "accounts_for col ids \<longleftrightarrow>
     co_written (co_outcome col) = [] \<and>
     mset (co_orphans (co_outcome col) @ co_failed (co_outcome col) @ co_skipped (co_outcome col) @ delivery_ids (co_activities col)) = mset ids \<and>
     set (map ac_deliveryId (co_activities col)) \<subseteq> set ids"

lemma delivery_ids_admit:
  assumes "i \<notin> set (map ac_deliveryId as)" "ms \<noteq> []"
  shows "delivery_ids (as @ map (\<lambda>m. \<lparr>ac_deliveryId = i, ac_mapped = m, ac_personId = p\<rparr>) ms) = delivery_ids as @ [i]"
proof -
  have "remdups (replicate (Suc k) i @ ys) = i # remdups ys" if "i \<notin> set ys" for k ys
    using that by (induction k) simp_all
  moreover have "map ac_deliveryId (map (\<lambda>m. \<lparr>ac_deliveryId = i, ac_mapped = m, ac_personId = p\<rparr>) ms) = replicate (length ms) i"
    by (induction ms) simp_all
  moreover obtain k where "length ms = Suc k" using assms(2) by (cases ms) auto
  ultimately show ?thesis using assms(1) by (simp add: delivery_ids_def del: replicate.simps map_map)
qed

lemma step_accounts:
  assumes "step_of env w config d col col'" "accounts_for col ids" "dl_id d \<notin> set ids"
  shows "accounts_for col' (ids @ [dl_id d])"
proof -
  have fresh: "dl_id d \<notin> set (map ac_deliveryId (co_activities col))" using assms(2,3) by (auto simp: accounts_for_def)
  show ?thesis
    using assms(1) unfolding step_of_def
  proof (elim disjE exE conjE)
    fix now ms personId ft
    assume ms: "ms \<noteq> []" and col': "col' = admit env d ms personId ft col"
    then show ?thesis
      using assms(2) delivery_ids_admit [OF fresh ms, of personId]
      by (auto simp: admit_def accounts_for_def Let_def comp_def)
  qed (use assms(2) in \<open>auto simp: accounts_for_def skip_def orphan_def fails_def\<close>)
qed

lemma surely_collect_all:
  assumes "accounts_for col ids" "distinct (ids @ map dl_id ds)"
  shows "surely (collect_all env w c config ds col) (\<lambda>col'. \<exists>n \<le> length ds. accounts_for col' (ids @ map dl_id (take n ds)))"
  using assms
proof (induction ds arbitrary: col ids)
  case Nil
  then show ?case by (simp add: surely_returns)
next
  case (Cons d ds)
  show ?case
    unfolding collect_all.simps
  proof (rule surely_and_then [OF surely_collect_one])
    fix r assume r: "r = None \<or> (\<exists>col'. r = Some col' \<and> step_of env w config d col col')"
    show "surely (case r of None \<Rightarrow> returns col | Some col' \<Rightarrow> collect_all env w c config ds col')
        (\<lambda>col'. \<exists>n \<le> length (d # ds). accounts_for col' (ids @ map dl_id (take n (d # ds))))"
    proof (cases r)
      case None
      have "\<exists>n \<le> length (d # ds). accounts_for col (ids @ map dl_id (take n (d # ds)))"
        by (rule exI [of _ 0]) (use Cons.prems in simp)
      then show ?thesis by (simp only: None option.case surely_returns)
    next
      case (Some col')
      then have "accounts_for col' (ids @ [dl_id d])" using r step_accounts [OF _ Cons.prems(1)] Cons.prems(2) by auto
      then have "surely (collect_all env w c config ds col') (\<lambda>col''. \<exists>n \<le> length ds. accounts_for col'' ((ids @ [dl_id d]) @ map dl_id (take n ds)))"
        by (rule Cons.IH) (use Cons.prems(2) in simp)
      then have "surely (collect_all env w c config ds col') (\<lambda>col''. \<exists>n \<le> length (d # ds). accounts_for col'' (ids @ map dl_id (take n (d # ds))))"
      proof (rule surely_weaken)
        fix col'' assume "\<exists>n \<le> length ds. accounts_for col'' ((ids @ [dl_id d]) @ map dl_id (take n ds))"
        then obtain n where "n \<le> length ds" "accounts_for col'' ((ids @ [dl_id d]) @ map dl_id (take n ds))" by blast
        then show "\<exists>n \<le> length (d # ds). accounts_for col'' (ids @ map dl_id (take n (d # ds)))"
          by (intro exI [of _ "Suc n"]) simp
      qed
      then show ?thesis by (simp only: Some option.case)
    qed
  qed
qed

lemma surely_patches: "surely (patchAcquisitions env ws ps c) (\<lambda>_. True)"
proof (induction ps)
  case (Cons p ps)
  obtain personId ft where p: "p = (personId, ft)" by fastforce
  have set: "surely (if ok then modifies f else returns ()) (\<lambda>_. True)" for ok and f :: "connector \<Rightarrow> connector"
    by (simp add: surely_modifies surely_returns)
  show ?case
    unfolding p patchAcquisitions.simps Let_def
    by (intro surely_if surely_and_then [OF surely_asks [of "\<lambda>_. True"]] surely_and_then [OF surely_token] surely_and_then [OF set]
        surely_and_then [OF surely_rescued [where Q = "\<lambda>_. True"]] surely_returns Cons.IH TrueI)
qed (simp add: surely_returns)

definition all_ids :: "connector_outcome \<Rightarrow> string list" where
  "all_ids out = co_written out @ co_orphans out @ co_failed out @ co_skipped out"

lemma surely_deliver:
  assumes "accounts_for col ids"
  shows "surely (deliver_collected env w c col) (\<lambda>out. mset (all_ids out) = mset ids)"
proof -
  have "co_activities col = [] \<Longrightarrow> mset (all_ids (co_outcome col)) = mset ids"
    using assms by (auto simp: accounts_for_def all_ids_def delivery_ids_def)
  moreover have "mset (all_ids (all_failed col)) = mset ids" "mset (all_ids (all_written col)) = mset ids"
    using assms by (auto simp: accounts_for_def all_ids_def all_failed_def all_written_def ac_simps)
  ultimately show ?thesis
    unfolding deliver_collected_def
    by (intro surely_if surely_returns surely_and_then [OF surely_token] surely_and_then [OF surely_patches]
        surely_and_then [OF surely_rescued [where Q = "\<lambda>_. True"]] TrueI) auto
qed

text \<open>
  C19: A flush never throws, whatever the CRM, the workspaces and the table of attributions do. Each delivery of a prefix of the group comes
  out once, as written, orphan, failed or skipped; the deliveries behind a full batch come out nowhere and stay in the queue.
\<close>
theorem flush_accounts_for_deliveries:
  assumes "distinct (map dl_id ds)"
  shows "\<exists>out s' n. flushBatch env w ds c s = (Inr out, s') \<and> n \<le> length ds \<and> mset (all_ids out) = mset (map dl_id (take n ds))"
proof -
  have "surely (flushBatch env w ds c) (\<lambda>out. \<exists>n \<le> length ds. mset (all_ids out) = mset (map dl_id (take n ds)))"
    unfolding flushBatch_def
  proof (intro surely_if surely_and_then [OF surely_config] surely_returns)
    have start: "accounts_for \<lparr>co_outcome = no_outcome, co_activities = [], co_patches = []\<rparr> []"
      by (simp add: accounts_for_def no_outcome_def delivery_ids_def)
    show "surely (and_then (collect_all env w c config ds \<lparr>co_outcome = no_outcome, co_activities = [], co_patches = []\<rparr>) (deliver_collected env w c))
        (\<lambda>out. \<exists>n \<le> length ds. mset (all_ids out) = mset (map dl_id (take n ds)))" for config
    proof (rule surely_and_then [OF surely_collect_all [OF start]])
      show "distinct ([] @ map dl_id ds)" using assms by simp
      fix col assume "\<exists>n \<le> length ds. accounts_for col ([] @ map dl_id (take n ds))"
      then obtain n where "n \<le> length ds" "accounts_for col (map dl_id (take n ds))" by auto
      note n = this
      show "surely (deliver_collected env w c col) (\<lambda>out. \<exists>n \<le> length ds. mset (all_ids out) = mset (map dl_id (take n ds)))"
        by (rule surely_weaken [OF surely_deliver [OF n(2)]]) (use n(1) in blast)
    qed
  qed (simp add: no_outcome_def all_ids_def)
  then obtain out s' where "flushBatch env w ds c s = (Inr out, s')" "\<exists>n \<le> length ds. mset (all_ids out) = mset (map dl_id (take n ds))"
    unfolding surely_def by blast
  then show ?thesis by blast
qed

subsection \<open>What was written was accepted\<close>

text \<open>The activities of a delivery are complete: all its milestones, for one person.\<close>

definition has_all :: "connector_env \<Rightarrow> webhook \<Rightarrow> crm_mapping option \<Rightarrow> activity list \<Rightarrow> delivery \<Rightarrow> bool" where
  "has_all env w config as d \<longleftrightarrow>
     (\<exists>now ft personId. mapDelivery env now w d config ft \<noteq> [] \<and>
        (\<forall>m \<in> set (mapDelivery env now w d config ft). \<lparr>ac_deliveryId = dl_id d, ac_mapped = m, ac_personId = personId\<rparr> \<in> set as))"

definition complete :: "connector_env \<Rightarrow> webhook \<Rightarrow> crm_mapping option \<Rightarrow> delivery list \<Rightarrow> collected \<Rightarrow> bool" where
  "complete env w config ds col \<longleftrightarrow>
     co_written (co_outcome col) = [] \<and>
     (\<forall>i \<in> set (map ac_deliveryId (co_activities col)). \<exists>d \<in> set ds. dl_id d = i \<and> has_all env w config (co_activities col) d)"

lemma has_all_mono: "has_all env w config as d \<Longrightarrow> set as \<subseteq> set as' \<Longrightarrow> has_all env w config as' d"
  unfolding has_all_def by blast

lemma step_complete:
  assumes "step_of env w config d col col'" "complete env w config ds col" "d \<in> set ds"
  shows "complete env w config ds col'"
  using assms(1) unfolding step_of_def
proof (elim disjE exE conjE)
  fix now ms personId ft
  assume ms: "ms = mapDelivery env now w d config ft" "ms \<noteq> []" and col': "col' = admit env d ms personId ft col"
  let ?new = "map (\<lambda>m. \<lparr>ac_deliveryId = dl_id d, ac_mapped = m, ac_personId = personId\<rparr>) ms"
  have acts: "co_activities col' = co_activities col @ ?new" "co_outcome col' = co_outcome col"
    by (simp_all add: col' admit_def Let_def)
  have new: "has_all env w config (co_activities col') d"
    unfolding has_all_def acts using ms by auto
  have old: "has_all env w config (co_activities col) e \<Longrightarrow> has_all env w config (co_activities col') e" for e
    by (erule has_all_mono) (simp add: acts)
  show ?thesis
    unfolding complete_def
  proof (intro conjI ballI)
    fix i assume "i \<in> set (map ac_deliveryId (co_activities col'))"
    then consider "i \<in> set (map ac_deliveryId (co_activities col))" | "i = dl_id d" by (auto simp: acts)
    then show "\<exists>d \<in> set ds. dl_id d = i \<and> has_all env w config (co_activities col') d"
      by cases (use assms(2,3) old new in \<open>unfold complete_def, blast+\<close>)
  qed (use assms(2) in \<open>simp add: acts complete_def\<close>)
qed (use assms(2) in \<open>simp_all add: complete_def skip_def orphan_def fails_def\<close>)

lemma surely_complete:
  assumes "complete env w config ds0 col" "set ds \<subseteq> set ds0"
  shows "surely (collect_all env w c config ds col) (complete env w config ds0)"
  using assms
proof (induction ds arbitrary: col)
  case (Cons d ds)
  show ?case
    unfolding collect_all.simps
  proof (rule surely_and_then [OF surely_collect_one])
    fix r assume r: "r = None \<or> (\<exists>col'. r = Some col' \<and> step_of env w config d col col')"
    show "surely (case r of None \<Rightarrow> returns col | Some col' \<Rightarrow> collect_all env w c config ds col') (complete env w config ds0)"
      using r step_complete [OF _ Cons.prems(1)] Cons.prems Cons.IH by (cases r) (auto simp: surely_returns)
  qed
qed (simp add: surely_returns)

lemma batch_accepted:
  assumes "batchTimeline env c items s = (Inr (), s1)" "items \<noteq> []" "\<not> cl_dryRun c"
  shows "\<exists>st b. ce_answer env (length (wi_log s)) (batch_request c items) = Answered st b \<and> (is_ok st \<or> is_duplicate st b) \<and>
    wi_log s1 = wi_log s @ [batch_request c items]"
  using assms
  by (auto simp: batchTimeline_def and_then_def sends_def returns_def throws_def split: if_splits prod.splits sum.splits crm_answer.splits)

lemma rescued_True:
  "rescued (and_then m (\<lambda>_. returns True)) (\<lambda>e. returns False) s = (Inr True, s1) \<longleftrightarrow> m s = (Inr (), s1)"
  by (auto simp: rescued_def and_then_def returns_def split: prod.splits sum.splits)

lemma deliver_written:
  assumes "deliver_collected env w c col s = (Inr out, s')" "co_written (co_outcome col) = []" "i \<in> set (co_written out)" "\<not> cl_dryRun c"
  shows "i \<in> set (map ac_deliveryId (co_activities col)) \<and>
    (\<exists>n st b. n < length (wi_log s') \<and> wi_log s' ! n = batch_request c (map (item_of env) (co_activities col)) \<and>
       ce_answer env n (wi_log s' ! n) = Answered st b \<and> (is_ok st \<or> is_duplicate st b))"
proof -
  let ?items = "map (item_of env) (co_activities col)"
  let ?attempt = "rescued (and_then (batchTimeline env c ?items) (\<lambda>_. returns True)) (\<lambda>e. returns False) :: bool cact"
  have ne: "co_activities col \<noteq> []"
    using assms(1-3) by (auto simp: deliver_collected_def returns_def)
  obtain t s1 where t: "takes_token env s = (Inr t, s1)" using surelyD [OF surely_token] by (metis surj_pair)
  have t1: "t" and d1: "and_then ?attempt (\<lambda>sent. if \<not> sent then returns (all_failed col)
          else and_then (patchAcquisitions env (wh_workspace_id w) (co_patches col) c) (\<lambda>_. returns (all_written col))) s1 = (Inr out, s')"
    using assms(1-3) ne by (auto simp: deliver_collected_def and_then_eval(1) [where m = "takes_token env", OF t] returns_def all_failed_def split: if_splits)
  obtain q s2 where q: "?attempt s1 = (q, s2)" by fastforce
  have q1: "q = Inr True"
    using d1 q assms(2,3) by (auto simp: and_then_def returns_def all_failed_def split: sum.splits if_splits)
  then have b: "batchTimeline env c ?items s1 = (Inr (), s2)" using q by (simp only: rescued_True)
  obtain st b where acc: "ce_answer env (length (wi_log s1)) (batch_request c ?items) = Answered st b" "is_ok st \<or> is_duplicate st b"
      "wi_log s2 = wi_log s1 @ [batch_request c ?items]"
    using batch_accepted [OF b] ne assms(4) by auto
  obtain u s3 where p: "patchAcquisitions env (wh_workspace_id w) (co_patches col) c s2 = (Inr u, s3)"
    using surelyD [OF surely_patches] by (metis surj_pair)
  have "and_then (patchAcquisitions env (wh_workspace_id w) (co_patches col) c) (\<lambda>_. returns (all_written col)) s2 = (Inr out, s')"
    using d1 q q1 by (simp add: and_then_eval(1))
  then have fin: "out = all_written col" "s' = s3" by (simp_all add: and_then_eval(1) [where m = "patchAcquisitions env (wh_workspace_id w) (co_patches col) c", OF p] returns_def)
  have "lawful c s2 s3" using lawful.moves_patches [of c env "wh_workspace_id w" "co_patches col"] p unfolding moves_def by (metis snd_conv)
  then obtain rs where "wi_log s' = wi_log s1 @ batch_request c ?items # rs" using acc(3) fin(2) by (auto simp: lawful_def)
  then show ?thesis
    using acc(1,2) assms(2,3) fin(1)
    by (auto simp: all_written_def delivery_ids_def intro!: exI [of _ "length (wi_log s1)"])
qed


subsection \<open>What goes wrong\<close>

lemma refused_batch:
  assumes "\<And>n items. \<not> distinct (map ti_id items) \<Longrightarrow>
      ce_answer env n (batch_request c items) = Answered 400 (Some ''A duplicate entry was detected'')"
    and "\<not> distinct (map (\<lambda>a. (ac_personId a, ms_eventId (ac_mapped a), ms_name (ac_mapped a))) (co_activities col))"
    and "length (co_activities col) \<le> BATCH_SIZE" "\<not> cl_dryRun c" "fst (take_token (ce_clock env (wi_ticks s)) (cn_budget s))"
  shows "fst (deliver_collected env w c col s) = Inr (all_written col)"
proof -
  let ?items = "map (item_of env) (co_activities col)"
  let ?key = "\<lambda>a. (ac_personId a, ms_eventId (ac_mapped a), ms_name (ac_mapped a))"
  let ?id = "\<lambda>(p, e, n). deterministicTimelineId (ce_sha1 env) p e n"
  have eq: "map ti_id ?items = map ?id (map ?key (co_activities col))" by (simp add: item_of_def)
  have "\<not> distinct (map ?id (map ?key (co_activities col)))"
    using assms(2) distinct_map [of ?id "map ?key (co_activities col)"] by blast
  then have "\<not> distinct (map ti_id ?items)" unfolding eq .
  then have answer: "ce_answer env n (batch_request c ?items) = Answered 400 (Some ''A duplicate entry was detected'')" for n
    by (rule assms(1))
  have "js_includes (js_lower (safeText (Some ''A duplicate entry was detected''))) ''duplicate''"
    by (simp add: safeText_def js_lower_def js_lower_char_def js_starts_with_def)
  then have dup: "is_duplicate 400 (Some ''A duplicate entry was detected'')" by (simp add: is_duplicate_def)
  have ne: "co_activities col \<noteq> []" using assms(2) by auto
  have sent: "batchTimeline env c ?items s1 = (Inr (), s1\<lparr>wi_log := wi_log s1 @ [batch_request c ?items]\<rparr>)" for s1 :: connector
    using ne assms(3,4) answer dup
    by (simp add: batchTimeline_def and_then_def sends_def returns_def MAX_BATCH_def BATCH_SIZE_def is_ok_def)
  obtain b where b: "take_token (ce_clock env (wi_ticks s)) (cn_budget s) = (True, b)" using assms(5) by (metis prod.collapse)
  have token: "takes_token env s = (Inr True, s\<lparr>wi_ticks := Suc (wi_ticks s), cn_budget := b\<rparr>)"
    by (simp add: takes_token_def and_then_def reads_clock_def b)
  let ?attempt = "rescued (and_then (batchTimeline env c ?items) (\<lambda>_. returns True)) (\<lambda>e. returns False) :: bool cact"
  have try1: "?attempt s1 = (Inr True, s1\<lparr>wi_log := wi_log s1 @ [batch_request c ?items]\<rparr>)" for s1
    by (simp only: rescued_True sent)
  have "fst (and_then (patchAcquisitions env (wh_workspace_id w) (co_patches col) c) (\<lambda>_. returns (all_written col)) s2) = Inr (all_written col)" for s2
    using surelyD [OF surely_patches] by (metis (no_types, lifting) and_then_eval(1) act_eval(1) fst_conv surj_pair)
  then show ?thesis
    using ne by (simp add: deliver_collected_def and_then_eval(1) [where m = "takes_token env", OF token] and_then_eval(1) [where m = ?attempt, OF try1])
qed

text \<open>
  C17: A CRM that rejects a batch with a repeated identifier answers that there is a duplicate, which the client takes for a replay: the
  whole batch is reported as written, though nothing of it was stored. A batch has a repeated identifier as soon as two rules give one
  event two milestones of one name.
\<close>
theorem refused_batch_reported_written:
  assumes "\<And>n items. \<not> distinct (map ti_id items) \<Longrightarrow>
      ce_answer env n (batch_request c items) = Answered 400 (Some ''A duplicate entry was detected'')"
    and "\<not> distinct (map (\<lambda>a. (ac_personId a, ms_eventId (ac_mapped a), ms_name (ac_mapped a))) (co_activities col))"
    and "length (co_activities col) \<le> BATCH_SIZE" "\<not> cl_dryRun c" "fst (take_token (ce_clock env (wi_ticks s)) (cn_budget s))"
  shows "fst (deliver_collected env w c col s) = Inr (all_written col)"
  by (rule refused_batch [OF assms])

lemma and_then_prod: "and_then m f s = (case m s of (Inl e, s1) \<Rightarrow> (Inl e, s1) | (Inr x, s1) \<Rightarrow> f x s1)"
  by (simp add: and_then_def)

text \<open>
  The cache of persons does not know which CRM a person was looked up in. What one webhook of a workspace found is what every other
  webhook of that workspace uses for a day, its own CRM not being asked.
\<close>
theorem person_cache_crosses_webhooks:
  assumes "map_of (cn_personCache s) (person_key ws m) = None" "resolvePersonId env ws m c1 s = (Inr (Found p), s1)"
    and "\<And>n. T \<le> ce_clock env n \<and> ce_clock env n < T + PERSON_CACHE_TTL_MS"
  shows "resolvePersonId env ws m c2 s1 = (Inr (Found p), s1\<lparr>wi_ticks := Suc (wi_ticks s1)\<rparr>)"
proof -
  have "\<exists>t. map_of (cn_personCache s1) (person_key ws m) = Some \<lparr>cp_id = p, cp_resolvedAt = t\<rparr> \<and> t \<in> range (ce_clock env)"
    using assms(1,2)
    by (auto simp: resolvePersonId_def Let_def and_then_prod reads_clock_def asks_def cached_read_def returns_def throws_def cachePerson_def
        modifies_def takes_token_def cacheBounded_def update_conv' map_of_delete delete_conv'
        split: prod.splits sum.splits if_splits option.splits list.splits)
  then obtain n where "map_of (cn_personCache s1) (person_key ws m) = Some \<lparr>cp_id = p, cp_resolvedAt = ce_clock env n\<rparr>" by blast
  moreover have "ce_clock env k - ce_clock env n < PERSON_CACHE_TTL_MS" for k using assms(3) [of k] assms(3) [of n] by simp
  ultimately show ?thesis
    by (simp add: resolvePersonId_def Let_def and_then_prod reads_clock_def asks_def cached_read_def returns_def)
qed

text \<open>The worker's part of a flush, with the connector in a given state.\<close>

definition connector_flush :: "connector_env \<Rightarrow> crm_client \<Rightarrow> connector \<Rightarrow> webhook \<Rightarrow> delivery list \<Rightarrow> string + connector_outcome" where
  "connector_flush env c s w ds = fst (flushBatch env w ds c s)"

definition ready_to_flush :: "worker_env \<Rightarrow> webhook \<Rightarrow> bool" where
  "ready_to_flush wk w \<longleftrightarrow>
     wh_active w \<and> (\<exists>secret. decryptSecret wk w = Inr secret) \<and>
     assertSafeUrlResolved (wk_resolve wk) (we_allow_http (wk_env wk)) (we_allow_private (wk_env wk)) (we_parse_url (wk_env wk) (wh_url w)) = Inr ()"

lemma collect_unknown:
  assumes "parseBody (dl_request_body d) = JObj []"
  shows "\<exists>s1. collect_one env w c config d col s = (Inr (Some (skip (dl_id d) col)), s1) \<and> wi_log s1 = wi_log s"
proof -
  have "mapDelivery env now w d config ft = []" for now ft
    by (simp add: mapDelivery_def mapAll_Nil resolveIdentity_def assms js_member_def)
  then show ?thesis
    by (simp add: collect_one_def assms user_of_def js_member_def and_then_prod returns_def reads_clock_def)
qed

lemma config_frame: "\<exists>config s1. getCrmConfig env ws s = (Inr config, s1) \<and> wi_log s1 = wi_log s"
  by (auto simp: getCrmConfig_def and_then_prod reads_clock_def asks_def cached_read_def returns_def modifies_def split: option.split)

text \<open>
  C30: The body of a delivery longer than the limit of the queue is cut, and no longer the text of an object. To the connector such a
  delivery has no user and no milestone: whatever it announced, a signup for one, it is marked as delivered, and the CRM is not told.
\<close>
theorem truncated_delivery_lost:
  assumes "64000 < length (json_print (JsObj payload))"
    and "dl_request_body d = truncate_text wenv (json_print (JsObj payload))" "ready_to_flush wk w"
  shows "flushTwentyGroup wk (connector_flush env c s) now w [d] db =
      (None, [], updateDelivery now (d\<lparr>dl_status := St_success, dl_sent_at := Some now,
         dl_error_message := ''skipped: not a timeline milestone''\<rparr>) db) \<and>
    wi_log (snd (flushBatch env w [d] c s)) = wi_log s"
proof -
  have "json_parse (dl_request_body d) = None"
    using truncated_object_unparsable [of "we_ellipsis wenv @ '' [truncated''" 64000 payload] assms(1,2)
    by (simp add: truncate_text_def del: json_print.simps)
  then have body: "parseBody (dl_request_body d) = JObj []" by (simp add: parseBody_def)
  obtain config s1 where cfg: "getCrmConfig env (wh_workspace_id w) s = (Inr config, s1)" "wi_log s1 = wi_log s"
    using config_frame by blast
  let ?start = "\<lparr>co_outcome = no_outcome, co_activities = [], co_patches = []\<rparr>"
  obtain s2 where col: "collect_one env w c config d ?start s1 = (Inr (Some (skip (dl_id d) ?start)), s2)" "wi_log s2 = wi_log s1"
    using collect_unknown [OF body] by blast
  have all: "collect_all env w c config [d] ?start s1 = (Inr (skip (dl_id d) ?start), s2)"
    by (simp add: and_then_prod col(1) returns_def)
  have "deliver_collected env w c (skip (dl_id d) ?start) s2 = (Inr (no_outcome\<lparr>co_skipped := [dl_id d]\<rparr>), s2)"
    by (simp add: deliver_collected_def skip_def no_outcome_def returns_def)
  then have flush: "flushBatch env w [d] c s = (Inr (no_outcome\<lparr>co_skipped := [dl_id d]\<rparr>), s2)"
    unfolding flushBatch_def
    by (simp add: and_then_eval(1) [where m = "getCrmConfig env (wh_workspace_id w)", OF cfg(1)]
        and_then_eval(1) [where m = "collect_all env w c config [d] ?start", OF all] del: collect_all.simps)
  obtain secret where "decryptSecret wk w = Inr secret" using assms(3) by (auto simp: ready_to_flush_def)
  then show ?thesis
    using assms(3) cfg(2) col(2)
    by (simp add: flush flushTwentyGroup_def ready_to_flush_def connector_flush_def no_outcome_def for_ids_def)
qed

lemma cached_config:
  assumes "map_of (cn_crmConfigCache s) ws = Some e" "ce_clock env (wi_ticks s) - cc_resolvedAt e < CRM_CONFIG_CACHE_TTL_MS"
  shows "getCrmConfig env ws s = (Inr (cc_config e), s\<lparr>wi_ticks := Suc (wi_ticks s)\<rparr>)"
  using assms by (simp add: getCrmConfig_def and_then_prod reads_clock_def asks_def cached_read_def returns_def)

lemma touch_frame:
  "\<exists>ft s1. (if b then getFirstTouch env ws u else returns None) s = (Inr ft, s1) \<and> cn_personCache s1 = cn_personCache s"
  by (auto simp: getFirstTouch_def Let_def and_then_prod reads_clock_def asks_def cached_read_def returns_def modifies_def split: option.split)

text \<open>
  A delivery with more milestones than a batch holds, at the head of its group, ends every flush before anything is collected: it and
  all deliveries behind it stay in the queue as they are, at every pass.
\<close>
theorem oversized_delivery_blocks:
  assumes "map_of (cn_crmConfigCache s) (wh_workspace_id w) = Some e"
    "ce_clock env (wi_ticks s) - cc_resolvedAt e < CRM_CONFIG_CACHE_TTL_MS"
    and "\<And>now ft. BATCH_SIZE < length (mapDelivery env now w d (cc_config e) ft)"
    and "\<And>now ft. map_of (cn_personCache s) (person_key (wh_workspace_id w) (hd (mapDelivery env now w d (cc_config e) ft))) = Some p"
    and "\<And>n. ce_clock env n - cp_resolvedAt p < PERSON_CACHE_TTL_MS" "ready_to_flush wk w"
  shows "flushTwentyGroup wk (connector_flush env c s) now w (d # ds) db = (None, [], db)"
proof -
  let ?start = "\<lparr>co_outcome = no_outcome, co_activities = [], co_patches = []\<rparr>"
  have "mapDelivery env n w d (cc_config e) ft \<noteq> []" for n ft using assms(3) [of n ft] by auto
  note milestones = this assms(3)
  obtain ft s1 where ft: "(if user_of (parseBody (dl_request_body d)) \<noteq> [] then getFirstTouch env (wh_workspace_id w) (user_of (parseBody (dl_request_body d)))
      else returns None) (s\<lparr>wi_ticks := Suc (wi_ticks s)\<rparr>) = (Inr ft, s1)" "cn_personCache s1 = cn_personCache s"
    using touch_frame [where s = "s\<lparr>wi_ticks := Suc (wi_ticks s)\<rparr>" and env = env] by fastforce
  let ?m = "hd (mapDelivery env (ce_clock env (wi_ticks s1)) w d (cc_config e) ft)"
  obtain s2 where p: "resolvePersonId env (wh_workspace_id w) ?m c (s1\<lparr>wi_ticks := Suc (wi_ticks s1)\<rparr>) = (Inr (Found (cp_id p)), s2)"
    using assms(4,5) ft(2) by (simp add: resolvePersonId_def Let_def and_then_prod reads_clock_def asks_def cached_read_def returns_def)
  have "collect_one env w c (cc_config e) d ?start (s\<lparr>wi_ticks := Suc (wi_ticks s)\<rparr>) = (Inr None, s2)"
    unfolding collect_one_def Let_def and_then_prod ft(1)
    by (simp add: reads_clock_def milestones rescued_def and_then_prod p returns_def)
  then have flush: "flushBatch env w (d # ds) c s = (Inr no_outcome, s2)"
    by (simp add: flushBatch_def and_then_prod cached_config [OF assms(1,2)] returns_def deliver_collected_def)
  obtain secret where "decryptSecret wk w = Inr secret" using assms(6) by (auto simp: ready_to_flush_def)
  then show ?thesis
    using assms(6) by (simp add: flush flushTwentyGroup_def ready_to_flush_def connector_flush_def no_outcome_def for_ids_def)
qed

subsection \<open>A flush to look at\<close>

definition repeats_id :: "jsval \<Rightarrow> bool" where
  "repeats_id body \<longleftrightarrow> (case body of JArr vs \<Rightarrow> \<not> distinct (map (\<lambda>v. js_member v ''id'') vs) | _ \<Rightarrow> False)"

definition crm_demo_env :: connector_env where
  "crm_demo_env = \<lparr>ce_mapper = \<lparr>me_numbers = \<lparr>nt_print = \<lambda>_. [], nt_read = \<lambda>_. None\<rparr>, me_date = \<lambda>_. None\<rparr>, ce_clock = \<lambda>_. 1000000,
     ce_answer = \<lambda>_ r. if cr_method r = Post \<and> repeats_id (cr_body r) then Answered 400 (Some ''A duplicate entry was detected'') else Answered 201 None,
     ce_sha1 = \<lambda>_ _. replicate 20 0,
     ce_workspace = \<lambda>_ _. Inl ''down'', ce_attribution = \<lambda>_ _ _. Inl ''down'', ce_cache_setting = None\<rparr>"

definition crm_demo_config :: "nat \<Rightarrow> crm_mapping" where
  "crm_demo_config n = \<lparr>cm_identity_resolver = None, cm_identity_field = None,
     cm_goals = Some (replicate n \<lparr>gm_match = ''goal:signup'', gm_timeline_name = ''signup'', gm_min_scroll = None\<rparr>),
     cm_map_phone_calls = None, cm_phone_call_timeline_name = None\<rparr>"

definition crm_demo_state :: "nat \<Rightarrow> connector" where
  "crm_demo_state n = \<lparr>wi_log = [], wi_ticks = 0, cn_personCache = [(''w:slug::u'', \<lparr>cp_id = ''p1'', cp_resolvedAt = 1000000\<rparr>)],
     cn_crmConfigCache = [(''w'', \<lparr>cc_config = Some (crm_demo_config n), cc_resolvedAt = 1000000\<rparr>)],
     cn_firstTouchCache = [(''w:u'', \<lparr>ct_attribution = None, ct_resolvedAt = 1000000\<rparr>)], cn_acquisitionPatched = [], cn_budget = new_budget 100\<rparr>"

definition crm_demo_client :: crm_client where
  "crm_demo_client = \<lparr>cl_baseUrl = ''u'', cl_bearer = ''k'', cl_dryRun = False\<rparr>"

definition crm_demo_payload :: "(string \<times> json) list" where
  "crm_demo_payload = [(''user_id'', JsStr ''u''), (''goal_name'', JsStr ''signup'')]"

definition crm_demo_delivery :: delivery where
  "crm_demo_delivery = \<lparr>dl_id = ''d1'', dl_webhook_id = ''wh_1'', dl_workspace_id = ''w'', dl_event_id = ''e1'', dl_event_type = ''goal'',
     dl_attempt = 1, dl_scheduled_at = 0, dl_sent_at = None, dl_status = St_pending, dl_http_status = None, dl_latency_ms = None,
     dl_request_url = ''u'', dl_request_body = json_print (JsObj crm_demo_payload), dl_response_body = [], dl_error_message = [],
     dl_created_at = 0, dl_updated_at = 0\<rparr>"

lemma crm_demo_body: "parseBody (dl_request_body crm_demo_delivery) = JObj [(''user_id'', JStr ''u''), (''goal_name'', JStr ''signup'')]"
  by (simp add: parseBody_def crm_demo_delivery_def crm_demo_payload_def del: json_print.simps)

lemma crm_demo_names: "resolveNamesFromConfig env ''goal'' (JObj [(''user_id'', JStr ''u''), (''goal_name'', JStr ''signup'')])
    (replicate n \<lparr>gm_match = ''goal:signup'', gm_timeline_name = ''signup'', gm_min_scroll = None\<rparr>) = replicate n ''signup''"
  by (induction n) (simp_all add: resolveNamesFromConfig_def text_or_empty_def js_member_def js_nullish_def scrollOk_def Let_def)

definition crm_demo_milestone :: "int \<Rightarrow> first_touch option \<Rightarrow> milestone" where
  "crm_demo_milestone now ft =
     (let p = JObj [(''user_id'', JStr ''u''), (''goal_name'', JStr ''signup'')]
      in \<lparr>ms_name = ''signup'', ms_identity = ''u'', ms_kind = K_slug, ms_field = None,
          ms_happensAt = resolveHappensAt (ce_mapper crm_demo_env) now p, ms_eventId = ''e1'',
          ms_properties = buildProperties (ce_mapper crm_demo_env) ''e1'' p ft\<rparr>)"

lemma crm_demo_milestones:
  assumes "0 < n"
  shows "mapDelivery crm_demo_env now demo_webhook crm_demo_delivery (Some (crm_demo_config n)) ft = replicate n (crm_demo_milestone now ft)"
proof -
  let ?e = "\<lparr>tc_workspace_id = ''w'', tc_event_type = ''goal'', tc_event_id = ''e1'',
      tc_payload = JObj [(''user_id'', JStr ''u''), (''goal_name'', JStr ''signup'')]\<rparr>"
  have "\<not> is_phone_call (ce_mapper crm_demo_env) ?e"
    by (simp add: is_phone_call_def text_or_empty_def js_member_def js_nullish_def)
  then have "milestone_names (ce_mapper crm_demo_env) ?e (Some (crm_demo_config n)) = replicate n ''signup''"
    using assms crm_demo_names by (simp add: milestone_names_def Let_def crm_demo_config_def js_nullish_def)
  moreover have "resolveIdentity (js_member (tc_payload ?e) ''user_id'') (Some (crm_demo_config n)) = (Some ''u'', K_slug, None)"
    by (simp add: resolveIdentity_def js_member_def js_nullish_def crm_demo_config_def js_trim_def js_space_def js_starts_with_def)
  moreover have "wh_workspace_id demo_webhook = ''w''" "dl_event_type crm_demo_delivery = ''goal''" "dl_event_id crm_demo_delivery = ''e1''"
    by (simp_all add: demo_webhook_def crm_demo_delivery_def)
  ultimately show ?thesis
    by (simp add: mapDelivery_def mapAll_def crm_demo_body map_replicate_const crm_demo_milestone_def Let_def)
qed

lemma crm_demo_key: "person_key ''w'' (crm_demo_milestone now ft) = ''w:slug::u''"
  by (simp add: person_key_def crm_demo_milestone_def js_nullish_def Let_def)

definition crm_demo_collected :: "nat \<Rightarrow> collected" where
  "crm_demo_collected n = admit crm_demo_env crm_demo_delivery (replicate n (crm_demo_milestone 1000000 None)) ''p1'' None
     \<lparr>co_outcome = no_outcome, co_activities = [], co_patches = []\<rparr>"

lemma crm_demo_collect:
  assumes "0 < n" "n \<le> 60"
  shows "\<exists>k. collect_all crm_demo_env demo_webhook crm_demo_client (Some (crm_demo_config n)) [crm_demo_delivery]
      \<lparr>co_outcome = no_outcome, co_activities = [], co_patches = []\<rparr> (crm_demo_state n\<lparr>wi_ticks := i\<rparr>) =
    (Inr (crm_demo_collected n), crm_demo_state n\<lparr>wi_ticks := k\<rparr>)" (is "\<exists>k. ?run = _")
proof -
  have user: "user_of (parseBody (dl_request_body crm_demo_delivery)) = ''u''"
    unfolding crm_demo_body by (simp add: user_of_def js_member_def js_nullish_def js_trim_def js_space_def)
  have ws: "wh_workspace_id demo_webhook = ''w''" by (simp add: demo_webhook_def)
  have touch: "getFirstTouch crm_demo_env ''w'' ''u'' (crm_demo_state n\<lparr>wi_ticks := i\<rparr>) = (Inr None, crm_demo_state n\<lparr>wi_ticks := Suc i\<rparr>)" for i
    by (simp add: getFirstTouch_def Let_def and_then_prod reads_clock_def asks_def cached_read_def returns_def crm_demo_state_def crm_demo_env_def
        FIRST_TOUCH_CACHE_TTL_MS_def)
  have person: "resolvePersonId crm_demo_env ''w'' (crm_demo_milestone now ft) crm_demo_client (crm_demo_state n\<lparr>wi_ticks := i\<rparr>) =
      (Inr (Found ''p1''), crm_demo_state n\<lparr>wi_ticks := Suc i\<rparr>)" for now ft i
    unfolding resolvePersonId_def Let_def crm_demo_key
    by (simp add: and_then_prod reads_clock_def asks_def cached_read_def returns_def crm_demo_state_def crm_demo_env_def PERSON_CACHE_TTL_MS_def)
  have clock: "reads_clock crm_demo_env (crm_demo_state n\<lparr>wi_ticks := i\<rparr>) = (Inr 1000000, crm_demo_state n\<lparr>wi_ticks := Suc i\<rparr>)" for i
    by (simp add: reads_clock_def crm_demo_env_def)
  have n: "replicate n x \<noteq> []" "hd (replicate n x) = x" for x :: milestone using assms(1) by (auto simp: hd_replicate)
  have "collect_one crm_demo_env demo_webhook crm_demo_client (Some (crm_demo_config n)) crm_demo_delivery
      \<lparr>co_outcome = no_outcome, co_activities = [], co_patches = []\<rparr> (crm_demo_state n\<lparr>wi_ticks := i\<rparr>) =
    (Inr (Some (crm_demo_collected n)), crm_demo_state n\<lparr>wi_ticks := Suc (Suc (Suc i))\<rparr>)"
    unfolding collect_one_def Let_def user ws crm_demo_milestones [OF assms(1)] crm_demo_collected_def
    using assms(2) by (simp add: and_then_prod touch clock rescued_def returns_def BATCH_SIZE_def n person del: replicate_empty)
  then have "?run = (Inr (crm_demo_collected n), crm_demo_state n\<lparr>wi_ticks := Suc (Suc (Suc i))\<rparr>)"
    by (simp add: and_then_prod returns_def)
  then show ?thesis by blast
qed

lemma crm_demo_refuses:
  assumes "\<not> distinct (map ti_id items)"
  shows "ce_answer crm_demo_env n (batch_request c items) = Answered 400 (Some ''A duplicate entry was detected'')"
proof -
  have "map ((\<lambda>v. js_member v ''id'') \<circ> item_json) items = map JStr (map ti_id items)"
    by (simp add: item_json_def js_member_def js_nullish_def)
  then have "repeats_id (JArr (map item_json items))"
    using assms by (simp add: repeats_id_def distinct_map inj_on_def del: map_map flip: map_map) 
  then show ?thesis by (simp add: crm_demo_env_def batch_request_def crm_request_of_def)
qed

lemma crm_demo_acts: "co_activities (crm_demo_collected n) =
    replicate n \<lparr>ac_deliveryId = ''d1'', ac_mapped = crm_demo_milestone 1000000 None, ac_personId = ''p1''\<rparr>"
  by (simp add: crm_demo_collected_def admit_def Let_def map_replicate crm_demo_delivery_def)

lemma crm_demo_token: "take_token 1000000 (new_budget 100) = (True, \<lparr>tb_window_start = 1000000, tb_used = 1, tb_limit = 100\<rparr>)"
  by (simp add: take_token_def new_budget_def roll_window_def)

lemma crm_requests_restricted_witness:
  "\<exists>rs. wi_log (snd (flushBatch crm_demo_env demo_webhook [crm_demo_delivery] crm_demo_client (crm_demo_state 1))) = rs \<and>
     (\<forall>r \<in> set rs. cr_base r = ''u'' \<and> (cr_method r = Patch \<longrightarrow> patch_body (cr_body r)))"
  using crm_requests_restricted [of crm_demo_env demo_webhook "[crm_demo_delivery]" crm_demo_client "crm_demo_state 1"]
  by (auto simp: crm_demo_client_def crm_demo_state_def)

lemma refused_batch_reported_written_witness:
  "fst (deliver_collected crm_demo_env demo_webhook crm_demo_client (crm_demo_collected 2) (crm_demo_state 2)) = Inr (all_written (crm_demo_collected 2))"
  by (rule refused_batch_reported_written [OF crm_demo_refuses])
     (simp_all add: crm_demo_acts numeral_2_eq_2 BATCH_SIZE_def crm_demo_client_def crm_demo_state_def crm_demo_env_def crm_demo_token)

lemma crm_demo_flush:
  "\<exists>s'. flushBatch crm_demo_env demo_webhook [crm_demo_delivery] crm_demo_client (crm_demo_state 2) = (Inr (all_written (crm_demo_collected 2)), s')"
proof -
  have "getCrmConfig crm_demo_env ''w'' (crm_demo_state 2) = (Inr (Some (crm_demo_config 2)), crm_demo_state 2\<lparr>wi_ticks := 1\<rparr>)"
    by (simp add: getCrmConfig_def and_then_prod reads_clock_def asks_def cached_read_def returns_def crm_demo_state_def crm_demo_env_def
        CRM_CONFIG_CACHE_TTL_MS_def)
  moreover have "wh_workspace_id demo_webhook = ''w''" by (simp add: demo_webhook_def)
  moreover obtain k where "collect_all crm_demo_env demo_webhook crm_demo_client (Some (crm_demo_config 2)) [crm_demo_delivery]
      \<lparr>co_outcome = no_outcome, co_activities = [], co_patches = []\<rparr> (crm_demo_state 2\<lparr>wi_ticks := 1\<rparr>) =
    (Inr (crm_demo_collected 2), crm_demo_state 2\<lparr>wi_ticks := k\<rparr>)"
    using crm_demo_collect [of 2] by auto
  moreover have "fst (deliver_collected crm_demo_env demo_webhook crm_demo_client (crm_demo_collected 2) (crm_demo_state 2\<lparr>wi_ticks := k\<rparr>)) =
      Inr (all_written (crm_demo_collected 2))"
    by (rule refused_batch [OF crm_demo_refuses])
       (simp_all add: crm_demo_acts numeral_2_eq_2 BATCH_SIZE_def crm_demo_client_def crm_demo_state_def crm_demo_env_def crm_demo_token)
  ultimately show ?thesis
    by (cases "deliver_collected crm_demo_env demo_webhook crm_demo_client (crm_demo_collected 2) (crm_demo_state 2\<lparr>wi_ticks := k\<rparr>)")
       (simp add: flushBatch_def and_then_prod del: collect_all.simps)
qed

lemma crm_demo_written: "co_written (all_written (crm_demo_collected 2)) = [''d1'']"
  by (simp add: all_written_def crm_demo_acts delivery_ids_def numeral_2_eq_2)
     (simp add: crm_demo_collected_def admit_def no_outcome_def Let_def)


lemma flush_accounts_for_deliveries_witness:
  "\<exists>out s' n. flushBatch crm_demo_env demo_webhook [crm_demo_delivery] crm_demo_client (crm_demo_state 1) = (Inr out, s') \<and> n \<le> 1 \<and>
     mset (all_ids out) = mset (map dl_id (take n [crm_demo_delivery]))"
  using flush_accounts_for_deliveries [of "[crm_demo_delivery]" crm_demo_env demo_webhook crm_demo_client "crm_demo_state 1"] by simp

lemma crm_caches_bounded_witness:
  "length (cn_personCache (snd (flushBatch crm_demo_env demo_webhook [crm_demo_delivery] crm_demo_client (crm_demo_state 1)))) \<le> 50000"
proof -
  have n: "personCacheMaxSize crm_demo_env = 50000"
    by (simp add: personCacheMaxSize_def crm_demo_env_def js_nullish_def js_parse_int_def js_starts_with_def)
  show ?thesis
    using crm_caches_bounded [of "crm_demo_state 1" crm_demo_env demo_webhook "[crm_demo_delivery]" crm_demo_client]
    by (simp add: n crm_demo_state_def Let_def)
qed

lemma crm_requests_within_budget_witness:
  "int (length (wi_log (snd (flushBatch crm_demo_env demo_webhook [crm_demo_delivery] crm_demo_client (crm_demo_state 1))))) \<le> 100"
  using crm_requests_within_budget [of 1000000 crm_demo_env 100 "crm_demo_state 1" demo_webhook "[crm_demo_delivery]" crm_demo_client]
  by (simp add: crm_demo_env_def crm_demo_state_def)

lemma demo_worker_ready: "ready_to_flush demo_worker demo_webhook"
proof -
  have "assertSafeUrlResolved (\<lambda>_. Inr [''203.0.113.7'']) False False (Some \<lparr>pu_protocol = ''https:'', pu_hostname = ''hooks.example''\<rparr>) = Inr ()"
    by code_simp
  then show ?thesis by (simp add: ready_to_flush_def demo_worker_def demo_env_def demo_webhook_def decryptSecret_def)
qed

lemma truncated_delivery_lost_witness:
  "let payload = [(''user_id'', JsStr (replicate 64000 CHR ''u'')), (''goal_name'', JsStr ''signup'')];
       d = crm_demo_delivery\<lparr>dl_request_body := truncate_text demo_env (json_print (JsObj payload))\<rparr>
   in wi_log (snd (flushBatch crm_demo_env demo_webhook [d] crm_demo_client (crm_demo_state 1))) = []"
proof -
  let ?payload = "[(''user_id'', JsStr (replicate 64000 CHR ''u'')), (''goal_name'', JsStr ''signup'')]"
  let ?d = "crm_demo_delivery\<lparr>dl_request_body := truncate_text demo_env (json_print (JsObj ?payload))\<rparr>"
  have "length (concat (map json_escape (replicate n CHR ''u''))) = n" for n
    by (induction n) (simp_all add: json_escape_def q_char_def b_char_def)
  then have "64000 < length (json_print (JsObj ?payload))" by (simp add: json_quote_def)
  from truncated_delivery_lost [OF this, of ?d demo_env demo_worker demo_webhook crm_demo_env crm_demo_client "crm_demo_state 1"] demo_worker_ready
  show ?thesis by (simp add: Let_def crm_demo_state_def del: json_print.simps)
qed

lemma oversized_delivery_blocks_witness:
  "flushTwentyGroup demo_worker (connector_flush crm_demo_env crm_demo_client (crm_demo_state 61)) 9 demo_webhook [crm_demo_delivery]
     \<lparr>db_webhooks = [], db_deliveries = []\<rparr> = (None, [], \<lparr>db_webhooks = [], db_deliveries = []\<rparr>)"
proof (rule oversized_delivery_blocks)
  have m: "mapDelivery crm_demo_env now demo_webhook crm_demo_delivery (Some (crm_demo_config 61)) ft = replicate 61 (crm_demo_milestone now ft)" for now ft
    by (rule crm_demo_milestones) simp
  show "BATCH_SIZE < length (mapDelivery crm_demo_env now demo_webhook crm_demo_delivery (cc_config \<lparr>cc_config = Some (crm_demo_config 61), cc_resolvedAt = 1000000\<rparr>) ft)" for now ft
    by (simp add: m BATCH_SIZE_def)
  show "map_of (cn_crmConfigCache (crm_demo_state 61)) (wh_workspace_id demo_webhook) = Some \<lparr>cc_config = Some (crm_demo_config 61), cc_resolvedAt = 1000000\<rparr>"
    by (simp add: crm_demo_state_def demo_webhook_def)
  have h: "hd (replicate 61 x) = x" for x :: milestone by (simp add: hd_replicate)
  have ws: "wh_workspace_id demo_webhook = ''w''" by (simp add: demo_webhook_def)
  show "map_of (cn_personCache (crm_demo_state 61)) (person_key (wh_workspace_id demo_webhook)
      (hd (mapDelivery crm_demo_env now demo_webhook crm_demo_delivery (cc_config \<lparr>cc_config = Some (crm_demo_config 61), cc_resolvedAt = 1000000\<rparr>) ft))) =
    Some \<lparr>cp_id = ''p1'', cp_resolvedAt = 1000000\<rparr>" for now ft
    unfolding cached_config.select_convs m h ws crm_demo_key by (simp add: crm_demo_state_def)
  show "ready_to_flush demo_worker demo_webhook" by (rule demo_worker_ready)
qed (simp_all add: crm_demo_env_def CRM_CONFIG_CACHE_TTL_MS_def PERSON_CACHE_TTL_MS_def)

text \<open>A person found in one CRM, used in another.\<close>

lemma person_cache_crosses_webhooks_witness:
  "let env = crm_demo_env\<lparr>ce_answer := \<lambda>_ _. Answered 200 (Some (json_print (JsObj [(''data'', JsObj [(''people'', JsArr [JsObj [(''id'', JsStr ''p9'')]])])])))\<rparr>;
       s = (crm_demo_state 1)\<lparr>cn_personCache := []\<rparr>;
       s1 = snd (resolvePersonId env ''w'' (crm_demo_milestone 0 None) crm_demo_client s)
   in fst (resolvePersonId env ''w'' (crm_demo_milestone 0 None) (crm_demo_client\<lparr>cl_baseUrl := ''other''\<rparr>) s1) = Inr (Found ''p9'')"
proof -
  let ?env = "crm_demo_env\<lparr>ce_answer := \<lambda>_ _. Answered 200 (Some (json_print (JsObj [(''data'', JsObj [(''people'', JsArr [JsObj [(''id'', JsStr ''p9'')]])])])))\<rparr>"
  let ?s = "(crm_demo_state 1)\<lparr>cn_personCache := []\<rparr>"
  have answer: "first_person env (Some (json_print (JsObj [(''data'', JsObj [(''people'', JsArr [JsObj [(''id'', JsStr ''p9'')]])])]))) =
      Inr (Some \<lparr>rp_id = ''p9'', rp_doNotContact = False\<rparr>)" for env :: connector_env
    by (simp add: first_person_def first_element_def js_member_def js_nullish_def array_index_def digits_value_def is_digit_def Let_def
        js_of_nat.simps digit_char_def char_of_def bit_0 del: json_print.simps)
  obtain s1 where s1: "resolvePersonId ?env ''w'' (crm_demo_milestone 0 None) crm_demo_client ?s = (Inr (Found ''p9''), s1)"
    unfolding resolvePersonId_def Let_def crm_demo_key
    by (simp add: and_then_prod reads_clock_def asks_def cached_read_def takes_token_def crm_demo_state_def crm_demo_env_def crm_demo_token
        resolvePerson_def crm_demo_milestone_def resolveBySlug_def crm_resolve_def sends_def is_ok_def lifted_def answer cachePerson_def modifies_def
        returns_def Let_def del: json_print.simps)
  show ?thesis
    unfolding Let_def s1 snd_conv
    using person_cache_crosses_webhooks [OF _ s1, of 1000000 "crm_demo_client\<lparr>cl_baseUrl := ''other''\<rparr>"]
    by (simp add: crm_demo_state_def crm_demo_env_def PERSON_CACHE_TTL_MS_def)
qed

end
