(* ===== verification/Spec2Isabelle.thy ===== *)
theory Spec2Isabelle
  imports Filter_Service Filter_Compiler Console_Filters Channel Sdk_Sender Cross_Domain Ingest Event_Buffer
    Rate_Limiter Webhook_Delivery Default_Filters Invitations Api_Keys Query_Builder Tunnel
    Identity_Stitch Analytics_Service Backfill_Service Channel_Backfill Sdk_Run Sso Twenty_Flush
begin

text \<open>
  \<^bold>\<open>A verification of the Veridian analytics engine.\<close> The engine is a multi-tenant web analytics
  server (\<^verbatim>\<open>api/src\<close>, a NestJS application over ClickHouse), a tracker that runs in the visitors'
  browsers (\<^verbatim>\<open>sdk/src\<close>) and a console (\<^verbatim>\<open>console/src\<close>). The tracker collects page views and goals into a
  cumulative session state and sends it whole; the server checks the origin, enriches the payload with a channel,
  geography and the workspace's own rules, turns it into events, buffers them and writes them to the workspace's
  database, announces them to webhooks, and answers analytical queries. Around this stand accounts, workspaces, members,
  invitations and API keys. Paths below are under \<^verbatim>\<open>src/\<close>.

  \<^bold>\<open>How the model is made.\<close> Every theory translates the files its opening text names, function by function and under the
  names of the code. A class or row is a \<open>record\<close>, an enumeration a \<open>datatype\<close>, an exception the left side of a sum
  (\<open>Prelude.res_bind\<close>), a stateful operation a function from the state to an answer and a state, and whatever interleaves with
  other calls (timers, network answers, background updates) is cut into the synchronous stretches of the code and composed by an
  \<open>inductive\<close> step relation. Strings are lists of 8-bit code units, JavaScript objects association lists or maps, dynamically typed
  values the type \<open>jsval\<close> of the prelude. The clock, random identifiers, hashing, encryption, the parser of addresses, regular
  expressions, name resolution, the network and the mail server are arguments; a theorem that needs to know something of
  them says so in a hypothesis. ClickHouse tables with a replacing merge are read with the merge applied.

  \<^bold>\<open>The theories and what they show.\<close>

  \<^item> \<open>Prelude\<close>, \<open>Json\<close>: strings, dynamically typed values, results and sorting as ECMAScript has them; JSON printing and parsing
    with fuel (the length of the text), with its round trip.
  \<^item> \<open>Filters\<close>, \<open>Filter_Service\<close>, \<open>Filter_Compiler\<close>, \<open>Console_Filters\<close>, \<open>Default_Filters\<close> (\<^verbatim>\<open>api/src/filters\<close>,
    \<^verbatim>\<open>api/src/workspaces/fixtures\<close>, \<^verbatim>\<open>console/src/lib/filter-evaluator.ts\<close>): the priority loop refines a declarative rule per
    dimension; the management service keeps its store valid; the SQL the backfill runs computes what ingestion computes, literals
    cannot escape their quotes; the rules a new workspace starts with decide by their table.
  \<^item> \<open>Channel\<close>, \<open>Ingest\<close>, \<open>Event_Buffer\<close> (\<^verbatim>\<open>api/src/events\<close>): classification of acquisition, the gate of the ingestion endpoint, stable
    deduplication tokens, and a buffer that conserves events under every interleaving.
  \<^item> \<open>Sdk_Storage\<close>, \<open>Session_State\<close>, \<open>Sdk_Session\<close>, \<open>Uuid\<close>, \<open>Cross_Domain\<close>, \<open>Sdk_Sender\<close> (\<^verbatim>\<open>sdk/src\<close>): storage that may fail, the
    cumulative session, identity across expiries and domains, and an offline queue that accounts for every payload. The locales
    \<open>kv_cells\<close> and \<open>kv_store\<close> are what the session manager relies on; both storage classes interpret them.
  \<^item> \<open>Sdk_Detection\<close>, \<open>Sdk_Main\<close>, \<open>Sdk_Run\<close> (\<^verbatim>\<open>sdk/src/sdk.ts\<close>, \<^verbatim>\<open>auto-init.ts\<close>, \<^verbatim>\<open>detection\<close>, \<^verbatim>\<open>events\<close>): the tracker as
    a state on which browser events, timers and public calls act. In every run durations lie within their visits, an absence sends one
    beacon, and the pings are bounded by the active time; time after the first absence is lost, a return reported twice doubles the
    heartbeat, a paused tracker still sends.
  \<^item> \<open>Ssrf_Guard\<close>, \<open>Webhook_Filter\<close>, \<open>Webhook_Service\<close>, \<open>Webhook_Delivery\<close> (\<^verbatim>\<open>api/src/webhooks\<close>, \<^verbatim>\<open>api/src/common/ssrf-guard.ts\<close>):
    which addresses may be called, which events a webhook wants, exact dispatch, and deliveries that settle after boundedly many attempts.
  \<^item> \<open>Twenty_Mapper\<close>, \<open>Twenty_Client\<close>, \<open>Twenty_Connector\<close>, \<open>Twenty_Flush\<close> (\<^verbatim>\<open>api/src/webhooks/connectors\<close>): the CRM
    connector the delivery worker calls. A flush accounts for its deliveries, reports as written what the CRM accepted, sends only what it
    may and pays for it; a refused batch counts as written, persons leak between CRMs, and cut or oversized deliveries are lost or block.
    The locale \<open>connector_order\<close> (over \<open>state_order\<close> of \<open>Effect_Relations\<close>) is what a relation must respect to
    hold of a whole flush.
  \<^item> \<open>Access\<close>, \<open>Users\<close>, \<open>Auth\<close>, \<open>Auth_Sessions\<close> (\<^verbatim>\<open>api/src/auth\<close>, \<^verbatim>\<open>users\<close>, \<^verbatim>\<open>common\<close>): roles and the workspace guard, the lockout, and
    sessions that a password reset ends for good.
  \<^item> \<open>Sso\<close> (\<^verbatim>\<open>api/src/sso\<close>): the signature of the Hub and its window, tokens that are used once, which sessions they open and what
    they do not bind.
  \<^item> \<open>Tenancy\<close>, \<open>Members\<close>, \<open>Workspaces\<close>, \<open>Invitations\<close>, \<open>Api_Keys\<close>: services over one shared state; a workspace keeps an owner, an
    invitation is used once, a revoked key is refused, and where two calls race or overlap, what goes wrong.
  \<^item> \<open>Analytics_Registry\<close>, \<open>Query_Builder\<close>, \<open>Gap_Fill\<close>, \<open>Analytics_Service\<close> (\<^verbatim>\<open>api/src/analytics\<close>): the text of a query never depends on
    a value of the caller and every parameter is bound once; filled series are complete grids; the cache is bounded and cleared by
    backfills, except by a query that is running meanwhile; funnel rates are percentages that do not grow.
  \<^item> \<open>Tunnel\<close> (\<^verbatim>\<open>api/src/export\<close>, \<^verbatim>\<open>api/src/tunnel\<close>): the cursor reads every event of a window once; an identity's aggregate counts its own.
  \<^item> \<open>Identity_Stitch\<close> (\<^verbatim>\<open>api/src/events\<close>): what a stitch writes, that it can be resumed, and where a first touch is overwritten.
  \<^item> \<open>Calendar\<close>, \<open>Effects\<close>: the UTC calendar of the language's dates; asynchronous functions that may throw, with triples whose
    last part is what must be the case when they throw.
  \<^item> \<open>Backfill_Processor\<close>, \<open>Backfill_Service\<close>, \<open>Channel_Backfill\<close> (\<^verbatim>\<open>api/src/filters/backfill\<close>): a completed backfill leaves what
    ingestion would store today, in which partitions and on which days it does not; tasks that are completed were processed, whatever
    crashes, and which tasks are stranded. The loop that waits for mutations has a number of polls as its fuel; the timeout of the code is
    that number.
  \<^item> \<open>Rate_Limiter\<close> (\<^verbatim>\<open>api/src/assistant/lib\<close>): the limiter of the assistant.

  \<^bold>\<open>Not modelled.\<close> React pages and components, generated fixtures, configuration, mail templates and module wiring: they hold
  no logic beyond input and output. The manifest lists every part with its reason.
\<close>

end
